(* ===== verification/Yishan_Prelude.thy ===== *)
theory Yishan_Prelude
  imports Complex_Main "HOL-Library.Multiset" "HOL-Library.Sublist"
begin

text \<open>
  What every component of the development shares.

  The first part models the fragment of the JavaScript standard library that the modelled
  sources call: \<open>??\<close> and \<open>||\<close> on strings, array reads that yield \<open>undefined\<close> out of range,
  \<open>indexOf\<close>/\<open>findIndex\<close> with their \<open>-1\<close>, \<open>splice\<close>, \<open>String.prototype.trim\<close>, \<open>startsWith\<close>,
  \<open>split\<close> on a one-character separator, and numbers with \<open>NaN\<close> and the infinities together
  with \<open>Math.min\<close>/\<open>Math.max\<close> and strict equality. A JavaScript string is modelled as a list
  of characters, each one code unit; \<open>null\<close> and \<open>undefined\<close> are \<^term>\<open>None\<close>.

  The second part holds the named theorem collections, generic lemmas on lists and options,
  and two interfaces as locales: \<open>state_machine\<close>, a step relation with an invariant that every
  step keeps, and \<open>partial_update\<close>, a family of operations that return a new state or decline.
\<close>

section \<open>The JavaScript standard library, as far as it is used\<close>

text \<open>The nullish operator \<open>a ?? b\<close> and the falsy operator \<open>a || b\<close> on strings.\<close>

fun nullish :: "'a option \<Rightarrow> 'a \<Rightarrow> 'a" where
  "nullish None d = d"
| "nullish (Some v) d = v"

fun nullish_option :: "'a option \<Rightarrow> 'a option \<Rightarrow> 'a option" where
  "nullish_option None d = d"
| "nullish_option (Some v) d = Some v"

definition falsy_or :: "string \<Rightarrow> string \<Rightarrow> string" where
  "falsy_or s d = (if s = [] then d else s)"

text \<open>\<open>s || undefined\<close> for a string that may already be undefined.\<close>

definition truthy_string :: "string option \<Rightarrow> string option" where
  "truthy_string s = (case s of None \<Rightarrow> None | Some v \<Rightarrow> if v = [] then None else Some v)"

text \<open>An array read \<open>xs[i]\<close>: \<open>undefined\<close> for a negative index or one past the end.\<close>

definition js_at :: "'a list \<Rightarrow> int \<Rightarrow> 'a option" where
  "js_at xs i = (if 0 \<le> i \<and> i < int (length xs) then Some (xs ! nat i) else None)"

text \<open>\<open>findIndex\<close> and \<open>indexOf\<close> answer \<open>-1\<close> when no element qualifies.\<close>

fun js_findIndex :: "('a \<Rightarrow> bool) \<Rightarrow> 'a list \<Rightarrow> int" where
  "js_findIndex P [] = -1"
| "js_findIndex P (x # xs) =
     (if P x then 0 else let i = js_findIndex P xs in if i < 0 then -1 else i + 1)"

definition js_indexOf :: "'a list \<Rightarrow> 'a \<Rightarrow> int" where
  "js_indexOf xs x = js_findIndex (\<lambda>y. y = x) xs"

text \<open>\<open>xs.splice(i, 0, x)\<close> for a non-negative \<open>i\<close>; a start past the end is clamped.\<close>

definition js_splice_insert :: "int \<Rightarrow> 'a \<Rightarrow> 'a list \<Rightarrow> 'a list" where
  "js_splice_insert i x xs = take (nat i) xs @ x # drop (nat i) xs"

text \<open>White space of \<open>trim\<close> and of the regular expression class \<open>\s\<close>, among the code units below 256.\<close>

definition js_space :: "char \<Rightarrow> bool" where
  "js_space c \<longleftrightarrow>
     c \<in> {CHR 0x09, CHR 0x0A, CHR 0x0B, CHR 0x0C, CHR 0x0D, CHR '' '', CHR 0xA0}"

definition js_trimStart :: "string \<Rightarrow> string" where
  "js_trimStart s = dropWhile js_space s"

definition js_trim :: "string \<Rightarrow> string" where
  "js_trim s = rev (dropWhile js_space (rev (dropWhile js_space s)))"

definition js_startsWith :: "string \<Rightarrow> string \<Rightarrow> bool" where
  "js_startsWith s p \<longleftrightarrow> take (length p) s = p"

text \<open>\<open>s.split(c)\<close> for a one-character separator: never empty, the parts between separators.\<close>

fun js_split :: "'a \<Rightarrow> 'a list \<Rightarrow> 'a list list" where
  "js_split c [] = [[]]"
| "js_split c (x # xs) =
     (if x = c then [] # js_split c xs
      else case js_split c xs of [] \<Rightarrow> [[x]] | p # ps \<Rightarrow> (x # p) # ps)"

text \<open>\<open>parts.join(c)\<close>.\<close>

fun js_join :: "'a list \<Rightarrow> 'a list list \<Rightarrow> 'a list" where
  "js_join sep [] = []"
| "js_join sep [p] = p"
| "js_join sep (p # q # ps) = p @ sep @ js_join sep (q # ps)"

text \<open>\<open>find\<close> and an update of the element that is found, in place.\<close>

fun updateFirst :: "('a \<Rightarrow> bool) \<Rightarrow> ('a \<Rightarrow> 'a) \<Rightarrow> 'a list \<Rightarrow> 'a list" where
  "updateFirst P f [] = []"
| "updateFirst P f (x # xs) = (if P x then f x # xs else x # updateFirst P f xs)"

text \<open>\<open>sort\<close> with a comparison function: the stable order, by insertion.\<close>

fun insertBy :: "('a \<Rightarrow> 'a \<Rightarrow> int) \<Rightarrow> 'a \<Rightarrow> 'a list \<Rightarrow> 'a list" where
  "insertBy cmp x [] = [x]"
| "insertBy cmp x (y # ys) = (if cmp x y < 0 then x # y # ys else y # insertBy cmp x ys)"

definition sortBy :: "('a \<Rightarrow> 'a \<Rightarrow> int) \<Rightarrow> 'a list \<Rightarrow> 'a list" where
  "sortBy cmp xs = fold (insertBy cmp) xs []"

subsection \<open>Numbers\<close>

text \<open>
  A JavaScript number: not-a-number, an infinity, or a finite value. The operations modelled
  on numbers only compare and select, so no rounding takes place.
\<close>

datatype js_number = NaN | PosInf | NegInf | Fin real

fun js_less :: "js_number \<Rightarrow> js_number \<Rightarrow> bool" where
  "js_less NaN _ = False"
| "js_less _ NaN = False"
| "js_less NegInf y = (y \<noteq> NegInf)"
| "js_less _ NegInf = False"
| "js_less PosInf _ = False"
| "js_less _ PosInf = True"
| "js_less (Fin x) (Fin y) = (x < y)"

definition js_min :: "js_number \<Rightarrow> js_number \<Rightarrow> js_number" where
  "js_min x y = (if x = NaN \<or> y = NaN then NaN else if js_less y x then y else x)"

definition js_max :: "js_number \<Rightarrow> js_number \<Rightarrow> js_number" where
  "js_max x y = (if x = NaN \<or> y = NaN then NaN else if js_less x y then y else x)"

text \<open>Strict equality: \<open>NaN\<close> differs from itself.\<close>

definition js_eq :: "js_number \<Rightarrow> js_number \<Rightarrow> bool" where
  "js_eq x y \<longleftrightarrow> x \<noteq> NaN \<and> x = y"

text \<open>\<open>toLowerCase\<close> on code units below 256, and \<open>String(n)\<close> for a natural number.\<close>

definition js_lower_char :: "char \<Rightarrow> char" where
  "js_lower_char c =
     (let n = of_char c :: nat in
      if 65 \<le> n \<and> n \<le> 90 \<or> 192 \<le> n \<and> n \<le> 222 \<and> n \<noteq> 215 then char_of (n + 32) else c)"

definition js_toLowerCase :: "string \<Rightarrow> string" where
  "js_toLowerCase s = map js_lower_char s"

fun js_show_nat :: "nat \<Rightarrow> string" where
  "js_show_nat n = (if n < 10 then [char_of (48 + n)] else js_show_nat (n div 10) @ [char_of (48 + n mod 10)])"

declare js_show_nat.simps [simp del]

text \<open>Decimal digits (\<open>\d\<close>) and the number they write.\<close>

definition isDigit :: "char \<Rightarrow> bool" where
  "isDigit c \<longleftrightarrow> (let n = of_char c :: nat in 48 \<le> n \<and> n \<le> 57)"

definition digitsValue :: "string \<Rightarrow> int" where
  "digitsValue s = foldl (\<lambda>n c. 10 * n + (of_char c - 48)) 0 s"

text \<open>The literal type \<open>"before" | "after"\<close> of the two reordering operations.\<close>

datatype DropPosition = Before | After

section \<open>Shared lemmas\<close>

named_theorems js_defs \<open>definitions of the JavaScript library fragment\<close>

declare falsy_or_def [js_defs] truthy_string_def [js_defs] js_at_def [js_defs]
  js_splice_insert_def [js_defs] js_startsWith_def [js_defs] js_eq_def [js_defs]

lemma nullish_conv: "nullish a d = (case a of None \<Rightarrow> d | Some v \<Rightarrow> v)"
  by (cases a) simp_all

lemma nullish_option_conv: "nullish_option a d = (case a of None \<Rightarrow> d | Some v \<Rightarrow> Some v)"
  by (cases a) simp_all

lemma nullish_option_None [simp]: "nullish_option a None = a"
  by (cases a) simp_all

lemma nullish_option_eq_None [simp]: "nullish_option a b = None \<longleftrightarrow> a = None \<and> b = None"
  by (cases a) simp_all

lemma find_append:
  "List.find P (xs @ ys) = nullish_option (List.find P xs) (List.find P ys)"
  by (induction xs) simp_all

lemma find_SomeD: "List.find P xs = Some x \<Longrightarrow> x \<in> set xs \<and> P x"
  by (induction xs) (auto split: if_splits)

lemma find_eq_SomeI:
  assumes "x \<in> set xs" "P x" "\<And>y. y \<in> set xs \<Longrightarrow> P y \<Longrightarrow> y = x"
  shows "List.find P xs = Some x"
proof (cases "List.find P xs")
  case None
  with assms(1,2) show ?thesis by (simp add: find_None_iff)
next
  case (Some y)
  with find_SomeD [OF Some] assms(3) show ?thesis by simp
qed

lemma find_cong_set:
  assumes "\<And>x. x \<in> set xs \<Longrightarrow> P x = Q x"
  shows "List.find P xs = List.find Q xs"
  using assms by (induction xs) auto

lemma find_map_Some:
  "List.find P (map f xs) = map_option f (List.find (P \<circ> f) xs)"
  by (induction xs) simp_all

lemma js_findIndex_absent [simp]: "js_findIndex P xs < 0 \<longleftrightarrow> (\<forall>x \<in> set xs. \<not> P x)"
  by (induction xs) (auto simp: Let_def)

lemma js_findIndex_ge [simp]: "-1 \<le> js_findIndex P xs"
  by (induction xs) (auto simp: Let_def)

lemma js_findIndex_less [simp]: "js_findIndex P xs < int (length xs)"
  by (induction xs) (auto simp: Let_def)

lemma js_findIndex_split:
  assumes "x \<in> set xs" "P x"
  shows "\<exists>ys z zs. xs = ys @ z # zs \<and> P z \<and> (\<forall>y \<in> set ys. \<not> P y) \<and>
           js_findIndex P xs = int (length ys)"
  using assms
proof (induction xs)
  case Nil
  then show ?case by simp
next
  case (Cons a xs)
  show ?case
  proof (cases "P a")
    case True
    then show ?thesis by (intro exI [of _ "[]"]) simp
  next
    case False
    with Cons.prems have "x \<in> set xs" "P x" by auto
    with Cons.IH obtain ys z zs where
      "xs = ys @ z # zs" "P z" "\<forall>y \<in> set ys. \<not> P y" "js_findIndex P xs = int (length ys)"
      by blast
    with False show ?thesis
      by (intro exI [of _ "a # ys"]) (simp add: Let_def)
  qed
qed

lemma js_indexOf_split:
  assumes "x \<in> set xs"
  shows "\<exists>ys zs. xs = ys @ x # zs \<and> x \<notin> set ys \<and> js_indexOf xs x = int (length ys)"
  using js_findIndex_split [of x xs "\<lambda>y. y = x"] assms by (auto simp: js_indexOf_def)

lemma js_at_set: "js_at xs i = Some x \<Longrightarrow> x \<in> set xs"
  by (auto simp: js_at_def split: if_splits)

lemma js_at_0: "xs \<noteq> [] \<Longrightarrow> js_at xs 0 = Some (hd xs)"
  by (simp add: js_at_def hd_conv_nth)

lemma js_at_Some_conv: "(\<exists>x. js_at xs i = Some x) \<longleftrightarrow> 0 \<le> i \<and> i < int (length xs)"
  by (simp add: js_at_def)

lemma min_index_bounds:
  "0 \<le> i \<Longrightarrow> 0 < n \<Longrightarrow> 0 \<le> min i (int n - 1) \<and> min i (int n - 1) < int n"
  by (auto simp: min_def)

lemma mset_js_splice_insert [simp]: "mset (js_splice_insert i x xs) = add_mset x (mset xs)"
proof -
  have "mset (take (nat i) xs) + mset (drop (nat i) xs) = mset xs"
    by (metis append_take_drop_id mset_append)
  then show ?thesis by (simp add: js_splice_insert_def)
qed

lemma set_js_splice_insert [simp]: "set (js_splice_insert i x xs) = insert x (set xs)"
  by (metis mset_js_splice_insert set_mset_add_mset_insert set_mset_mset)

lemma distinct_js_splice_insert [simp]:
  "distinct (js_splice_insert i x xs) \<longleftrightarrow> x \<notin> set xs \<and> distinct xs"
  by (metis distinct.simps(2) mset.simps(2) mset_eq_imp_distinct_iff mset_js_splice_insert)

lemma js_splice_insert_at_length [simp]:
  "js_splice_insert (int (length ys)) x (ys @ zs) = ys @ x # zs"
  by (simp add: js_splice_insert_def)

lemma js_split_nonempty [simp]: "js_split c xs \<noteq> []"
  by (induction xs) (auto split: list.splits)

lemma js_join_split [simp]: "js_join [c] (js_split c xs) = xs"
proof (induction xs)
  case Nil
  then show ?case by simp
next
  case (Cons x xs)
  obtain p ps where p: "js_split c xs = p # ps"
    by (cases "js_split c xs") simp_all
  with Cons.IH show ?case by (cases ps) auto
qed

lemma js_startsWith_append: "js_startsWith s p \<longleftrightarrow> (\<exists>r. s = p @ r)"
  by (metis append_eq_conv_conj append_take_drop_id js_startsWith_def)

lemma js_trim_no_space_ends:
  assumes "js_trim s \<noteq> []"
  shows "\<not> js_space (hd (js_trim s)) \<and> \<not> js_space (last (js_trim s))"
proof -
  let ?t = "dropWhile js_space s" and ?u = "dropWhile js_space (rev (dropWhile js_space s))"
  from assms have u: "?u \<noteq> []" by (simp add: js_trim_def)
  then have "\<not> js_space (hd ?u)" by (rule hd_dropWhile)
  then have l: "\<not> js_space (last (js_trim s))" using u by (simp add: js_trim_def last_rev)
  have "?t \<noteq> []" using u by force
  then have ht: "\<not> js_space (hd ?t)" by (rule hd_dropWhile)
  obtain pre where "rev ?t = pre @ ?u" by (metis takeWhile_dropWhile_id)
  then have "?t = js_trim s @ rev pre" by (metis js_trim_def rev_append rev_rev_ident)
  with ht assms have "\<not> js_space (hd (js_trim s))" by (metis hd_append2)
  with l show ?thesis by simp
qed

lemma js_trim_Nil [simp]: "js_trim [] = []"
  by (simp add: js_trim_def js_trimStart_def)

lemma js_trim_idem [simp]: "js_trim (js_trim s) = js_trim s"
proof (cases "js_trim s = []")
  case True
  then show ?thesis by (simp only: True) (simp add: js_trim_def)
next
  case False
  let ?r = "js_trim s"
  note ends = js_trim_no_space_ends [OF False]
  have "dropWhile js_space ?r = ?r"
    using ends False by (cases ?r) auto
  moreover have "dropWhile js_space (rev ?r) = rev ?r"
    using ends False by (metis dropWhile_eq_self_iff hd_rev)
  ultimately show ?thesis by (metis js_trim_def rev_rev_ident)
qed

lemma filter_neq_absent [simp]: "t \<notin> set xs \<Longrightarrow> filter (\<lambda>x. x \<noteq> t) xs = xs"
  by (simp add: filter_id_conv) blast

lemma filter_mset_distinct:
  assumes "distinct xs" "t \<in> set xs"
  shows "add_mset t (mset (filter (\<lambda>x. x \<noteq> t) xs)) = mset xs"
proof -
  have "filter (\<lambda>x. x \<noteq> t) xs = remove1 t xs"
    using assms(1) by (simp add: distinct_remove1_removeAll removeAll_filter_not_eq) metis
  with assms(2) show ?thesis by simp
qed

lemma set_map_filter: "set (List.map_filter f xs) = {y. \<exists>x \<in> set xs. f x = Some y}"
  by (induction xs) (auto simp: map_filter_simps split: option.splits)

lemma subseq_distinct: "subseq xs ys \<Longrightarrow> distinct ys \<Longrightarrow> distinct xs"
  by (auto simp: subseq_conv_nths)

lemma distinct_concat_map_unique:
  assumes "distinct (concat (map f xs))" "x \<in> set xs" "y \<in> set xs" "a \<in> set (f x)" "a \<in> set (f y)"
  shows "x = y"
  using assms by (induction xs) auto

text \<open>Numbers as text.\<close>

lemma of_char_digit: "n < 10 \<Longrightarrow> (of_char (char_of (48 + n :: nat)) :: nat) = 48 + n"
  by simp

lemma isDigit_digit [simp]: "n < 10 \<Longrightarrow> isDigit (char_of (48 + n :: nat))"
  by (simp add: isDigit_def)

lemma js_split_absent: "c \<notin> set s \<Longrightarrow> js_split c s = [s]"
  by (induction s) auto

lemma js_split_append: "c \<notin> set s \<Longrightarrow> js_split c (s @ c # t) = s # js_split c t"
  by (induction s) auto

lemma js_split_join:
  "ps \<noteq> [] \<Longrightarrow> (\<And>p. p \<in> set ps \<Longrightarrow> c \<notin> set p) \<Longrightarrow> js_split c (js_join [c] ps) = ps"
  by (induction "[c]" ps rule: js_join.induct) (simp_all add: js_split_absent js_split_append)

lemma show_nat_digits: "js_show_nat n \<noteq> [] \<and> list_all isDigit (js_show_nat n)"
  by (induction n rule: js_show_nat.induct) (subst (1 2) js_show_nat.simps, simp)

lemma digitsValue_snoc: "digitsValue (s @ [c]) = 10 * digitsValue s + (of_char c - 48)"
  by (simp add: digitsValue_def)

lemma of_char_digit_int: "n < 10 \<Longrightarrow> (of_char (char_of (48 + n :: nat)) :: int) = 48 + int n"
  using of_char_digit [of n] by (metis of_nat_of_char of_nat_add of_nat_numeral)

lemma digitsValue_show: "digitsValue (js_show_nat n) = int n"
proof (induction n rule: js_show_nat.induct)
  case (1 n)
  have one: "digitsValue [char_of (48 + m)] = int m" if "m < 10" for m :: nat
    using of_char_digit_int [OF that] by (simp add: digitsValue_def)
  show ?case
  proof (cases "n < 10")
    case True
    then show ?thesis by (subst js_show_nat.simps) (simp add: one)
  next
    case False
    have "digitsValue (js_show_nat (n div 10) @ [char_of (48 + n mod 10)]) = 10 * int (n div 10) + int (n mod 10)"
      using 1 [OF False] of_char_digit_int [of "n mod 10"] by (simp add: digitsValue_snoc)
    also have "\<dots> = int (10 * (n div 10) + n mod 10)" by (simp only: of_nat_add of_nat_mult of_nat_numeral)
    also have "\<dots> = int n" by (simp only: mult_div_mod_eq)
    finally show ?thesis using False by (subst js_show_nat.simps) simp
  qed
qed

lemma js_show_nat_inj: "js_show_nat m = js_show_nat n \<Longrightarrow> m = n"
  by (metis digitsValue_show of_nat_eq_iff)

lemma isDigit_cases:
  assumes "isDigit c"
  shows "c \<in> set ''0123456789''"
proof -
  define n where "n = (of_char c :: nat)"
  have c: "c = char_of n" by (simp add: n_def)
  have "48 \<le> n" "n \<le> 57" using assms by (simp_all add: isDigit_def n_def Let_def)
  then have "n = 48 \<or> n = 49 \<or> n = 50 \<or> n = 51 \<or> n = 52 \<or> n = 53 \<or> n = 54 \<or> n = 55 \<or> n = 56 \<or> n = 57" by presburger
  then show ?thesis unfolding c by (elim disjE) (simp_all add: char_of_def bit_0)
qed

text \<open>Association lists whose values are updated in place (a JavaScript map of mutable objects).\<close>

lemma map_of_update: "map_of (map (\<lambda>(k', e). if k' = k then (k', f e) else (k', e)) es) k' =
    (if k' = k then map_option f (map_of es k) else map_of es k')"
  by (induction es) auto

lemma keys_update: "map fst (map (\<lambda>(k', e). if k' = k then (k', f e) else (k', e)) es) = map fst es"
  by (induction es) auto

lemma concat_map_if_single:
  "concat (map (\<lambda>x. if P x then f x else [x]) xs) = xs" if "\<forall>x \<in> set xs. \<not> P x"
  using that by (induction xs) auto

section \<open>Sorting with a comparison function\<close>

lemma mset_insertBy: "mset (insertBy cmp x ys) = add_mset x (mset ys)"
  by (induction ys) auto

lemma mset_fold_insertBy: "mset (fold (insertBy cmp) xs ys) = mset xs + mset ys"
  by (induction xs arbitrary: ys) (simp_all add: mset_insertBy)

lemma mset_sortBy [simp]: "mset (sortBy cmp xs) = mset xs"
  by (simp add: sortBy_def mset_fold_insertBy)

lemma set_insertBy [simp]: "set (insertBy cmp x ys) = insert x (set ys)"
  by (metis mset_insertBy set_mset_add_mset_insert set_mset_mset)

lemma set_sortBy [simp]: "set (sortBy cmp xs) = set xs"
  by (metis mset_sortBy set_mset_mset)

lemma updateFirst_map:
  assumes "distinct (map g xs)" "\<And>x y. P x \<Longrightarrow> P y \<Longrightarrow> g x = g y"
  shows "updateFirst P f xs = map (\<lambda>x. if P x then f x else x) xs"
  using assms(1)
proof (induction xs)
  case (Cons x xs)
  show ?case
  proof (cases "P x")
    case True
    with Cons.prems assms(2) have "\<forall>y \<in> set xs. \<not> P y" by (metis distinct.simps(2) image_eqI list.simps(9) set_map)
    then have "map (\<lambda>x. if P x then f x else x) xs = xs" by (simp add: map_idI)
    with True show ?thesis by simp
  qed (use Cons in simp)
qed simp

text \<open>What a comparison function owes to \<open>sort\<close>.\<close>

locale comparator =
  fixes cmp :: "'a \<Rightarrow> 'a \<Rightarrow> int"
  assumes cmp_trans: "cmp x y \<le> 0 \<Longrightarrow> cmp y z \<le> 0 \<Longrightarrow> cmp x z \<le> 0"
    and cmp_total: "\<not> cmp x y < 0 \<Longrightarrow> cmp y x \<le> 0"
begin

lemma sorted_insertBy:
  "sorted_wrt (\<lambda>x y. cmp x y \<le> 0) ys \<Longrightarrow> sorted_wrt (\<lambda>x y. cmp x y \<le> 0) (insertBy cmp x ys)"
proof (induction ys)
  case (Cons y ys)
  show ?case
  proof (cases "cmp x y < 0")
    case True
    then have "cmp x y \<le> 0" by simp
    with Cons.prems True cmp_trans [of x y] show ?thesis by auto
  next
    case False
    with Cons show ?thesis using cmp_total [OF False] by simp
  qed
qed simp

lemma sorted_sortBy: "sorted_wrt (\<lambda>x y. cmp x y \<le> 0) (sortBy cmp xs)"
proof -
  have "sorted_wrt (\<lambda>x y. cmp x y \<le> 0) ys \<Longrightarrow> sorted_wrt (\<lambda>x y. cmp x y \<le> 0) (fold (insertBy cmp) xs ys)" for ys
    by (induction xs arbitrary: ys) (simp_all add: sorted_insertBy)
  then show ?thesis by (simp add: sortBy_def)
qed

end

section \<open>State machines with an invariant\<close>

text \<open>
  An initial state predicate, a step relation and an invariant: whatever is reached from an
  initial state by steps satisfies the invariant. Each reactive component is an instance.
\<close>

locale state_machine =
  fixes initial :: "'s \<Rightarrow> bool"
    and step :: "'s \<Rightarrow> 's \<Rightarrow> bool"
    and inv :: "'s \<Rightarrow> bool"
  assumes inv_initial: "initial s \<Longrightarrow> inv s"
    and inv_step: "inv s \<Longrightarrow> step s t \<Longrightarrow> inv t"
begin

lemma steps_inv: "step\<^sup>*\<^sup>* s t \<Longrightarrow> inv s \<Longrightarrow> inv t"
  by (induction rule: rtranclp_induct) (auto intro: inv_step)

lemma reachable_inv: "initial s \<Longrightarrow> step\<^sup>*\<^sup>* s t \<Longrightarrow> inv t"
  by (blast intro: steps_inv inv_initial)

end

text \<open>
  An operation that returns a new state or declines (\<open>null\<close> in the sources), its admissible
  states and an invariant it keeps. The lift \<open>f s ?? s\<close> that the stores use keeps it too.
\<close>

locale partial_update =
  fixes pre :: "'s \<Rightarrow> bool"
    and inv :: "'s \<Rightarrow> bool"
    and upd :: "'s \<Rightarrow> 's option"
  assumes upd_inv: "inv s \<Longrightarrow> pre s \<Longrightarrow> upd s = Some t \<Longrightarrow> inv t"
begin

lemma lift_inv: "inv s \<Longrightarrow> pre s \<Longrightarrow> inv (nullish (upd s) s)"
  by (cases "upd s") (auto intro: upd_inv)

end

lemma first_free:
  fixes g :: "nat \<Rightarrow> 'a"
  assumes "inj g" "finite A"
  obtains j where "j \<le> card A" "g j \<notin> A" "\<forall>i < j. g i \<in> A"
proof -
  have "\<exists>j \<le> card A. g j \<notin> A"
  proof (rule ccontr)
    assume "\<not> (\<exists>j \<le> card A. g j \<notin> A)"
    then have "g ` {..card A} \<subseteq> A" by auto
    then have "card (g ` {..card A}) \<le> card A" using assms(2) by (rule card_mono [rotated])
    then show False using card_image [OF inj_on_subset [OF assms(1) subset_UNIV, of "{..card A}"]] by simp
  qed
  then obtain j0 where j0: "j0 \<le> card A" "g j0 \<notin> A" by blast
  let ?j = "LEAST j. g j \<notin> A"
  have "?j \<le> card A" using j0 Least_le [of "\<lambda>j. g j \<notin> A" j0] by simp
  moreover have "g ?j \<notin> A" using j0(2) by (rule LeastI)
  moreover have "\<forall>i < ?j. g i \<in> A" using not_less_Least by blast
  ultimately show thesis by (rule that)
qed

text \<open>
  A search that tries candidates one after the other, with a fuel: it finds the first one whose
  key is not taken, when the fuel exceeds the number of keys that are.
\<close>

locale name_search =
  fixes search :: "nat \<Rightarrow> nat \<Rightarrow> 'a option" and candidate :: "nat \<Rightarrow> 'a" and key :: "'a \<Rightarrow> 'b" and taken :: "'b set"
  assumes search_0: "search 0 k = None"
    and search_Suc: "search (Suc fuel) k =
      (if key (candidate k) \<in> taken then search fuel (Suc k) else Some (candidate k))"
    and distinct_keys: "inj (\<lambda>k. key (candidate k))"
    and finite_taken: "finite taken"
begin

lemma finds:
  "key (candidate (k + j)) \<notin> taken \<Longrightarrow> j < fuel \<Longrightarrow> \<forall>i < j. key (candidate (k + i)) \<in> taken \<Longrightarrow>
   search fuel k = Some (candidate (k + j))"
proof (induction j arbitrary: k fuel)
  case 0
  then show ?case by (cases fuel) (simp_all add: search_Suc)
next
  case (Suc j)
  obtain fuel' where f: "fuel = Suc fuel'" "j < fuel'" using Suc.prems(2) by (cases fuel) auto
  have "key (candidate (Suc k + i)) \<in> taken" if "i < j" for i
    using Suc.prems(3) [rule_format, of "Suc i"] that by simp
  then show ?case
    using Suc.IH [of "Suc k" fuel'] Suc.prems(1) Suc.prems(3) [rule_format, of 0] f by (simp add: search_Suc)
qed

lemma found:
  assumes "card taken < fuel"
  shows "\<exists>k \<le> card taken. search fuel 0 = Some (candidate k) \<and> key (candidate k) \<notin> taken \<and>
    (\<lambda>i. key (candidate i)) ` {..<k} \<subseteq> taken"
proof -
  obtain j where j: "j \<le> card taken" "key (candidate j) \<notin> taken" "\<forall>i < j. key (candidate i) \<in> taken"
    by (rule first_free [OF distinct_keys finite_taken])
  with assms finds [of 0 j fuel] show ?thesis by (intro exI [of _ j]) auto
qed

end

section \<open>Rows under a key\<close>

lemma key_unique: "distinct (map key rows) \<Longrightarrow> q \<in> set rows \<Longrightarrow> r \<in> set rows \<Longrightarrow> key q = key r \<Longrightarrow> q = r"
  unfolding distinct_map by (blast dest: inj_onD)

lemma distinct_set_single: "distinct xs \<Longrightarrow> set xs = {x} \<Longrightarrow> xs = [x]"
  by (cases xs; cases "tl xs") auto

lemma find_unique:
  assumes "distinct (map key rows)" "r \<in> set rows" "P r" "\<And>q. P q \<Longrightarrow> key q = key r"
  shows "List.find P rows = Some r"
proof -
  have "q = r" if "q \<in> set rows" "P q" for q
    using key_unique [OF assms(1) that(1) assms(2)] assms(4) that(2) by blast
  moreover obtain q where "List.find P rows = Some q" using assms(2,3) find_None_iff [of P rows] by (cases "List.find P rows") auto
  ultimately show ?thesis using find_SomeD [of P rows q] by auto
qed

section \<open>The history of a table\<close>

text \<open>
  A table whose rows only move under their key, and to which rows are added under new keys.
\<close>

locale table_history =
  fixes step :: "'s \<Rightarrow> 's \<Rightarrow> bool"
    and rows :: "'s \<Rightarrow> 'r list"
    and key :: "'r \<Rightarrow> 'k"
    and move :: "'r \<Rightarrow> 'r \<Rightarrow> bool"
  assumes step_rows: "step s s' \<Longrightarrow>
      list_all2 move (rows s) (rows s') \<or> (\<exists>r. rows s' = rows s @ [r] \<and> key r \<notin> key ` set (rows s))"
    and move_key: "move r r' \<Longrightarrow> key r' = key r"
begin

lemma moves_keys: "list_all2 move rs rs' \<Longrightarrow> map key rs' = map key rs"
  by (induction rule: list_all2_induct) (simp_all add: move_key)

lemma keys_distinct: "step\<^sup>*\<^sup>* s s' \<Longrightarrow> distinct (map key (rows s)) \<Longrightarrow> distinct (map key (rows s'))"
proof (induction rule: rtranclp_induct)
  case (step t u)
  then show ?case using step_rows [OF step.hyps(2)] by (auto simp: moves_keys)
qed

lemma row_kept: "step\<^sup>*\<^sup>* s s' \<Longrightarrow> r \<in> set (rows s) \<Longrightarrow> \<exists>r' \<in> set (rows s'). move\<^sup>*\<^sup>* r r'"
proof (induction rule: rtranclp_induct)
  case (step t u)
  then obtain q where q: "q \<in> set (rows t)" "move\<^sup>*\<^sup>* r q" by auto
  from step_rows [OF step.hyps(2)] show ?case
  proof
    assume all: "list_all2 move (rows t) (rows u)"
    from q(1) obtain i where "i < length (rows t)" "rows t ! i = q" by (auto simp: in_set_conv_nth)
    with all have "move q (rows u ! i)" "rows u ! i \<in> set (rows u)"
      by (auto simp: list_all2_conv_all_nth)
    with q(2) show ?thesis by (meson rtranclp.rtrancl_into_rtrancl)
  qed (use q in auto)
qed auto

lemma moves_key: "move\<^sup>*\<^sup>* r r' \<Longrightarrow> key r' = key r"
  by (induction rule: rtranclp_induct) (simp_all add: move_key)

lemma final_row_kept:
  assumes "step\<^sup>*\<^sup>* s s'" "r \<in> set (rows s)" "\<And>r'. move r r' \<Longrightarrow> r' = r"
  shows "r \<in> set (rows s')"
proof -
  obtain r' where r': "r' \<in> set (rows s')" "move\<^sup>*\<^sup>* r r'" using row_kept assms(1,2) by blast
  from r'(2) have "r' = r" by (induction rule: rtranclp_induct) (simp_all add: assms(3))
  with r'(1) show ?thesis by simp
qed

lemma final_row_unique:
  assumes "step\<^sup>*\<^sup>* s s'" "r \<in> set (rows s)" "\<And>r'. move r r' \<Longrightarrow> r' = r"
    "distinct (map key (rows s))" "q \<in> set (rows s')" "key q = key r"
  shows "q = r"
proof -
  have "inj_on key (set (rows s'))" using keys_distinct [OF assms(1,4)] by (simp add: distinct_map)
  moreover have "r \<in> set (rows s')" using assms(1,2) by (rule final_row_kept) (rule assms(3))
  ultimately show ?thesis using assms(5,6) by (auto dest: inj_onD)
qed

end

end
