(* ===== verification/Split_Pane.thy ===== *)
theory Split_Pane
  imports Yishan_Prelude
begin

text \<open>
  The split-pane layout tree of the workbench
  (\<open>src/apps/desktop/src/renderer/domains/workbench/split-pane\<close>): its data
  (\<open>types.ts\<close>), the tree navigation helpers (\<open>treeNavigation.ts\<close>) and the state operations
  (\<open>operations.ts\<close>, \<open>createAdjacentPaneWithTab.ts\<close>, \<open>splitRootPane.ts\<close>).
  An operation returns the next layout, or \<^term>\<open>None\<close> where the code returns \<open>null\<close>.
  The reasoning about the operations is in \<open>Split_Pane_Facts\<close>.
\<close>

section \<open>Data\<close>

datatype SplitDirection = Horizontal | Vertical

datatype Placement = PlaceFirst | PlaceSecond

record PaneLeaf =
  leafId :: string
  tabIds :: "string list"
  leafSelected :: string

datatype SplitPaneNode =
    Leaf PaneLeaf
  | Branch string SplitDirection js_number SplitPaneNode SplitPaneNode

record SplitPaneStateSlice =
  root :: SplitPaneNode
  activePaneId :: string

fun nodeId :: "SplitPaneNode \<Rightarrow> string" where
  "nodeId (Leaf l) = leafId l"
| "nodeId (Branch i d r a b) = i"

section \<open>Tree navigation\<close>

definition createLeaf :: "string \<Rightarrow> string list \<Rightarrow> string option \<Rightarrow> PaneLeaf" where
  "createLeaf i ts sel =
     \<lparr>leafId = i, tabIds = ts, leafSelected = nullish sel (nullish (js_at ts 0) [])\<rparr>"

fun findLeaf :: "SplitPaneNode \<Rightarrow> string \<Rightarrow> PaneLeaf option" where
  "findLeaf (Leaf l) p = (if leafId l = p then Some l else None)"
| "findLeaf (Branch i d r a b) p = nullish_option (findLeaf a p) (findLeaf b p)"

fun findLeafByTabId :: "SplitPaneNode \<Rightarrow> string \<Rightarrow> PaneLeaf option" where
  "findLeafByTabId (Leaf l) t = (if t \<in> set (tabIds l) then Some l else None)"
| "findLeafByTabId (Branch i d r a b) t =
     nullish_option (findLeafByTabId a t) (findLeafByTabId b t)"

fun collectLeaves :: "SplitPaneNode \<Rightarrow> PaneLeaf list" where
  "collectLeaves (Leaf l) = [l]"
| "collectLeaves (Branch i d r a b) = collectLeaves a @ collectLeaves b"

fun replaceNode :: "SplitPaneNode \<Rightarrow> string \<Rightarrow> SplitPaneNode \<Rightarrow> SplitPaneNode" where
  "replaceNode (Leaf l) t new = (if leafId l = t then new else Leaf l)"
| "replaceNode (Branch i d r a b) t new =
     (if i = t then new else Branch i d r (replaceNode a t new) (replaceNode b t new))"

text \<open>The parent is always a branch node; \<open>getSibling\<close> is only called on one.\<close>

fun findParent :: "SplitPaneNode \<Rightarrow> string \<Rightarrow> SplitPaneNode option" where
  "findParent (Leaf l) t = None"
| "findParent (Branch i d r a b) t =
     (if nodeId a = t \<or> nodeId b = t then Some (Branch i d r a b)
      else nullish_option (findParent a t) (findParent b t))"

fun getSibling :: "SplitPaneNode \<Rightarrow> string \<Rightarrow> SplitPaneNode option" where
  "getSibling (Branch i d r a b) c =
     (if nodeId a = c then Some b else if nodeId b = c then Some a else None)"
| "getSibling (Leaf l) c = None"

fun isPaneInSubtree :: "SplitPaneNode \<Rightarrow> string \<Rightarrow> bool" where
  "isPaneInSubtree (Leaf l) p = (leafId l = p)"
| "isPaneInSubtree (Branch i d r a b) p =
     (if i = p then True else isPaneInSubtree a p \<or> isPaneInSubtree b p)"

text \<open>The first leaf of a subtree: the subtree itself when it is a leaf, \<open>collectLeaves(...)[0]\<close> otherwise.\<close>

fun firstLeafId :: "SplitPaneNode \<Rightarrow> string option" where
  "firstLeafId (Leaf l) = Some (leafId l)"
| "firstLeafId (Branch i d r a b) =
     map_option leafId (js_at (collectLeaves (Branch i d r a b)) 0)"

fun findOppositePaneId :: "SplitPaneNode \<Rightarrow> string \<Rightarrow> string option" where
  "findOppositePaneId (Leaf l) p = None"
| "findOppositePaneId (Branch i d r a b) p =
     (if isPaneInSubtree a p then firstLeafId b
      else if isPaneInSubtree b p then firstLeafId a
      else None)"

section \<open>Operations\<close>

text \<open>The literal ratio of a fresh split, and the bounds 0.1 and 0.9 as the doubles they denote.\<close>

definition half_ratio :: js_number where
  "half_ratio = Fin (1 / 2)"

definition min_ratio :: js_number where
  "min_ratio = Fin (3602879701896397 / 36028797018963968)"

definition max_ratio :: js_number where
  "max_ratio = Fin (8106479329266893 / 9007199254740992)"

text \<open>
  The step \<open>splitPaneWithTab\<close>, \<open>moveTabToPane\<close> and their siblings share: drop an emptied
  source pane by putting its sibling in the place of its parent; nothing changes when there is
  no parent.
\<close>

definition collapseLeaf :: "SplitPaneNode \<Rightarrow> string \<Rightarrow> SplitPaneNode" where
  "collapseLeaf r c =
     (case findParent r c of
        None \<Rightarrow> r
      | Some parent \<Rightarrow>
          (case getSibling parent c of
             None \<Rightarrow> r
           | Some sibling \<Rightarrow> replaceNode r (nodeId parent) sibling))"

definition newSplit ::
  "SplitDirection \<Rightarrow> Placement \<Rightarrow> string \<Rightarrow> PaneLeaf \<Rightarrow> PaneLeaf \<Rightarrow> SplitPaneNode" where
  "newSplit direction placement newBranchId newLeaf other =
     Branch newBranchId direction half_ratio
       (if placement = PlaceFirst then Leaf newLeaf else Leaf other)
       (if placement = PlaceFirst then Leaf other else Leaf newLeaf)"

text \<open>The selection that follows the removal of a tab from a pane: the neighbour at its place.\<close>

definition neighbourSelection :: "PaneLeaf \<Rightarrow> string \<Rightarrow> string list \<Rightarrow> string" where
  "neighbourSelection leaf tabId remaining =
     (if leafSelected leaf = tabId
      then nullish (js_at remaining
             (min (js_indexOf (tabIds leaf) tabId) (int (length remaining) - 1))) []
      else leafSelected leaf)"

text \<open>The selection of a source pane whose tab moves to another pane: its first remaining tab.\<close>

definition headSelection :: "PaneLeaf \<Rightarrow> string \<Rightarrow> string list \<Rightarrow> string" where
  "headSelection leaf tabId remaining =
     (if leafSelected leaf = tabId then nullish (js_at remaining 0) [] else leafSelected leaf)"

text \<open>Taking a tab out of its source pane before it is put elsewhere.\<close>

definition detachTab :: "SplitPaneNode \<Rightarrow> PaneLeaf \<Rightarrow> string \<Rightarrow> SplitPaneNode" where
  "detachTab r sourceLeaf tabId =
     (let remaining = filter (\<lambda>t. t \<noteq> tabId) (tabIds sourceLeaf) in
      if length remaining = 0 then collapseLeaf r (leafId sourceLeaf)
      else replaceNode r (leafId sourceLeaf)
             (Leaf (sourceLeaf\<lparr>tabIds := remaining,
                               leafSelected := headSelection sourceLeaf tabId remaining\<rparr>)))"

record SplitInput =
  splitTabId :: string
  splitTargetPaneId :: string
  splitDirection :: SplitDirection
  splitPlacement :: Placement
  splitNewPaneId :: string
  splitNewBranchId :: string

definition splitPaneWithTab ::
  "SplitPaneStateSlice \<Rightarrow> SplitInput \<Rightarrow> SplitPaneStateSlice option" where
  "splitPaneWithTab state input =
     (case findLeafByTabId (root state) (splitTabId input) of
        None \<Rightarrow> None
      | Some sourceLeaf \<Rightarrow>
     (case findLeaf (root state) (splitTargetPaneId input) of
        None \<Rightarrow> None
      | Some targetLeaf \<Rightarrow>
          let tabId = splitTabId input;
              newLeaf = createLeaf (splitNewPaneId input) [tabId] (Some tabId)
          in
          if leafId sourceLeaf = leafId targetLeaf then
            (if length (tabIds sourceLeaf) \<le> 1 then None
             else
               let remaining = filter (\<lambda>t. t \<noteq> tabId) (tabIds sourceLeaf);
                   updatedSource = sourceLeaf\<lparr>tabIds := remaining,
                     leafSelected := neighbourSelection sourceLeaf tabId remaining\<rparr>
               in Some \<lparr>root = replaceNode (root state) (leafId targetLeaf)
                          (newSplit (splitDirection input) (splitPlacement input)
                             (splitNewBranchId input) newLeaf updatedSource),
                        activePaneId = splitNewPaneId input\<rparr>)
          else
            let nextRoot = detachTab (root state) sourceLeaf tabId in
            (case findLeaf nextRoot (splitTargetPaneId input) of
               None \<Rightarrow> None
             | Some currentTarget \<Rightarrow>
                 Some \<lparr>root = replaceNode nextRoot (splitTargetPaneId input)
                         (newSplit (splitDirection input) (splitPlacement input)
                            (splitNewBranchId input) newLeaf currentTarget),
                       activePaneId = splitNewPaneId input\<rparr>)))"

definition moveTabToPane ::
  "SplitPaneStateSlice \<Rightarrow> string \<Rightarrow> string \<Rightarrow> SplitPaneStateSlice option" where
  "moveTabToPane state tabId targetPaneId =
     (case findLeafByTabId (root state) tabId of
        None \<Rightarrow> None
      | Some sourceLeaf \<Rightarrow>
          if leafId sourceLeaf = targetPaneId then None
          else
     (case findLeaf (root state) targetPaneId of
        None \<Rightarrow> None
      | Some targetLeaf \<Rightarrow>
          let nextRoot = detachTab (root state) sourceLeaf tabId in
          (case findLeaf nextRoot targetPaneId of
             None \<Rightarrow> None
           | Some currentTarget \<Rightarrow>
               Some \<lparr>root = replaceNode nextRoot targetPaneId
                       (Leaf (currentTarget\<lparr>tabIds := tabIds currentTarget @ [tabId],
                                            leafSelected := tabId\<rparr>)),
                     activePaneId = targetPaneId\<rparr>)))"

definition addTabToPane ::
  "SplitPaneStateSlice \<Rightarrow> string \<Rightarrow> string option \<Rightarrow> SplitPaneStateSlice option" where
  "addTabToPane state tabId paneId =
     (let targetPaneId = nullish paneId (activePaneId state) in
      case findLeaf (root state) targetPaneId of
        None \<Rightarrow> None
      | Some leaf \<Rightarrow>
          Some \<lparr>root = replaceNode (root state) targetPaneId
                  (Leaf (leaf\<lparr>tabIds := tabIds leaf @ [tabId], leafSelected := tabId\<rparr>)),
                activePaneId = targetPaneId\<rparr>)"

definition removeTabFromPane ::
  "SplitPaneStateSlice \<Rightarrow> string \<Rightarrow> SplitPaneStateSlice option" where
  "removeTabFromPane state tabId =
     (case findLeafByTabId (root state) tabId of
        None \<Rightarrow> None
      | Some leaf \<Rightarrow>
          let remaining = filter (\<lambda>t. t \<noteq> tabId) (tabIds leaf) in
          if length remaining = 0 then
            (if nodeId (root state) = leafId leaf then
               Some \<lparr>root = Leaf (leaf\<lparr>tabIds := [], leafSelected := []\<rparr>),
                     activePaneId = leafId leaf\<rparr>
             else
               case findParent (root state) (leafId leaf) of
                 None \<Rightarrow> None
               | Some parent \<Rightarrow>
                   (case getSibling parent (leafId leaf) of
                      None \<Rightarrow> None
                    | Some sibling \<Rightarrow>
                        let nextRoot = replaceNode (root state) (nodeId parent) sibling;
                            leaves = collectLeaves nextRoot
                        in Some \<lparr>root = nextRoot,
                                 activePaneId =
                                   (if activePaneId state = leafId leaf
                                    then nullish (map_option leafId (js_at leaves 0)) []
                                    else activePaneId state)\<rparr>))
          else
            Some \<lparr>root = replaceNode (root state) (leafId leaf)
                    (Leaf (leaf\<lparr>tabIds := remaining,
                                leafSelected := neighbourSelection leaf tabId remaining\<rparr>)),
                  activePaneId = activePaneId state\<rparr>)"

definition selectTabInPane ::
  "SplitPaneStateSlice \<Rightarrow> string \<Rightarrow> string \<Rightarrow> SplitPaneStateSlice option" where
  "selectTabInPane state paneId tabId =
     (case findLeaf (root state) paneId of
        None \<Rightarrow> None
      | Some leaf \<Rightarrow>
          if tabId \<notin> set (tabIds leaf) then None
          else if leafSelected leaf = tabId \<and> activePaneId state = paneId then None
          else Some \<lparr>root = replaceNode (root state) paneId (Leaf (leaf\<lparr>leafSelected := tabId\<rparr>)),
                     activePaneId = paneId\<rparr>)"

definition setActivePaneState ::
  "SplitPaneStateSlice \<Rightarrow> string \<Rightarrow> SplitPaneStateSlice option" where
  "setActivePaneState state paneId =
     (if activePaneId state = paneId then None
      else case findLeaf (root state) paneId of
             None \<Rightarrow> None
           | Some leaf \<Rightarrow> Some (state\<lparr>activePaneId := paneId\<rparr>))"

definition clampRatio :: "js_number \<Rightarrow> js_number" where
  "clampRatio ratio = js_max min_ratio (js_min max_ratio ratio)"

fun updateBranch :: "string \<Rightarrow> js_number \<Rightarrow> SplitPaneNode \<Rightarrow> SplitPaneNode option" where
  "updateBranch branchId clamped (Leaf l) = None"
| "updateBranch branchId clamped (Branch i d r a b) =
     (if i = branchId then
        (if js_eq r clamped then None else Some (Branch i d clamped a b))
      else case updateBranch branchId clamped a of
             Some a' \<Rightarrow> Some (Branch i d r a' b)
           | None \<Rightarrow>
               (case updateBranch branchId clamped b of
                  Some b' \<Rightarrow> Some (Branch i d r a b')
                | None \<Rightarrow> None))"

definition setSplitRatio ::
  "SplitPaneStateSlice \<Rightarrow> string \<Rightarrow> js_number \<Rightarrow> SplitPaneStateSlice option" where
  "setSplitRatio state branchId ratio =
     (case updateBranch branchId (clampRatio ratio) (root state) of
        None \<Rightarrow> None
      | Some nextRoot \<Rightarrow> Some \<lparr>root = nextRoot, activePaneId = activePaneId state\<rparr>)"

definition reorderTabInPane ::
  "SplitPaneStateSlice \<Rightarrow> string \<Rightarrow> string \<Rightarrow> string \<Rightarrow> DropPosition \<Rightarrow>
   SplitPaneStateSlice option" where
  "reorderTabInPane state paneId draggedTabId targetTabId position =
     (if draggedTabId = targetTabId then None
      else case findLeaf (root state) paneId of
        None \<Rightarrow> None
      | Some leaf \<Rightarrow>
          if draggedTabId \<notin> set (tabIds leaf) \<or> targetTabId \<notin> set (tabIds leaf) then None
          else
            let withoutDragged = filter (\<lambda>t. t \<noteq> draggedTabId) (tabIds leaf);
                targetIndex = js_indexOf withoutDragged targetTabId
            in if targetIndex < 0 then None
               else
                 let insertAt = (if position = Before then targetIndex else targetIndex + 1);
                     reordered = js_splice_insert insertAt draggedTabId withoutDragged
                 in Some \<lparr>root = replaceNode (root state) paneId
                            (Leaf (leaf\<lparr>tabIds := reordered, leafSelected := draggedTabId\<rparr>)),
                          activePaneId = paneId\<rparr>)"

definition createAdjacentPaneWithTab ::
  "SplitPaneStateSlice \<Rightarrow> SplitInput \<Rightarrow> SplitPaneStateSlice option" where
  "createAdjacentPaneWithTab state input =
     (case findLeaf (root state) (splitTargetPaneId input) of
        None \<Rightarrow> None
      | Some targetLeaf \<Rightarrow>
          if findLeafByTabId (root state) (splitTabId input) \<noteq> None then None
          else
            let newLeaf = createLeaf (splitNewPaneId input) [splitTabId input]
                            (Some (splitTabId input))
            in Some \<lparr>root = replaceNode (root state) (leafId targetLeaf)
                       (newSplit (splitDirection input) (splitPlacement input)
                          (splitNewBranchId input) newLeaf targetLeaf),
                     activePaneId = splitNewPaneId input\<rparr>)"

definition splitRootPane ::
  "SplitPaneStateSlice \<Rightarrow> SplitDirection \<Rightarrow> string \<Rightarrow> string \<Rightarrow> SplitPaneStateSlice option" where
  "splitRootPane state direction newPaneId newBranchId =
     (case root state of
        Branch _ _ _ _ _ \<Rightarrow> None
      | Leaf l \<Rightarrow>
          Some \<lparr>root = Branch newBranchId direction half_ratio (Leaf l)
                          (Leaf (createLeaf newPaneId [] None)),
                activePaneId = newPaneId\<rparr>)"

end
