(* ===== verification/Split_Pane_Facts.thy ===== *)
theory Split_Pane_Facts
  imports Split_Pane
begin

text \<open>
  Reasoning about the split-pane tree. A layout is read as the list of its panes from left to
  right (\<^const>\<open>collectLeaves\<close>); every tree operation is shown to act on that list as a plain list
  operation (\<open>panes_put\<close> replaces one pane by a list of panes, \<open>panes_detach\<close> takes a tab out).
  The layout invariant says that node ids are unique, that no tab is in two panes, that each
  pane's selection is one of its tabs, that the active pane exists and that split ratios stay
  in range.
\<close>

section \<open>Identifiers, tabs and ratios of a tree\<close>

fun nodeIds :: "SplitPaneNode \<Rightarrow> string list" where
  "nodeIds (Leaf l) = [leafId l]"
| "nodeIds (Branch i d r a b) = i # nodeIds a @ nodeIds b"

fun branchIds :: "SplitPaneNode \<Rightarrow> string list" where
  "branchIds (Leaf l) = []"
| "branchIds (Branch i d r a b) = i # branchIds a @ branchIds b"

fun splitRatios :: "SplitPaneNode \<Rightarrow> js_number list" where
  "splitRatios (Leaf l) = []"
| "splitRatios (Branch i d r a b) = r # splitRatios a @ splitRatios b"

abbreviation leafIds :: "SplitPaneNode \<Rightarrow> string list" where
  "leafIds r \<equiv> map leafId (collectLeaves r)"

definition panesTabs :: "PaneLeaf list \<Rightarrow> string list" where
  "panesTabs ls = concat (map tabIds ls)"

definition leaf_ok :: "PaneLeaf \<Rightarrow> bool" where
  "leaf_ok l \<longleftrightarrow> (if tabIds l = [] then leafSelected l = [] else leafSelected l \<in> set (tabIds l))"

definition panes_ok :: "PaneLeaf list \<Rightarrow> bool" where
  "panes_ok ls \<longleftrightarrow>
     distinct (map leafId ls) \<and> distinct (panesTabs ls) \<and> (\<forall>l \<in> set ls. leaf_ok l)"

text \<open>A ratio in range; \<^const>\<open>NaN\<close> and the infinities are out of range.\<close>

fun ratio_ok :: "js_number \<Rightarrow> bool" where
  "ratio_ok (Fin x) \<longleftrightarrow>
     3602879701896397 / 36028797018963968 \<le> x \<and> x \<le> 8106479329266893 / 9007199254740992"
| "ratio_ok _ = False"

definition tree_ok :: "SplitPaneNode \<Rightarrow> bool" where
  "tree_ok r \<longleftrightarrow>
     distinct (nodeIds r) \<and> panes_ok (collectLeaves r) \<and> (\<forall>q \<in> set (splitRatios r). ratio_ok q)"

definition layout_wf :: "SplitPaneStateSlice \<Rightarrow> bool" where
  "layout_wf s \<longleftrightarrow> tree_ok (root s) \<and> activePaneId s \<in> set (leafIds (root s))"

section \<open>Panes as a list\<close>

definition panes_put :: "string \<Rightarrow> (PaneLeaf \<Rightarrow> PaneLeaf list) \<Rightarrow> PaneLeaf list \<Rightarrow> PaneLeaf list" where
  "panes_put p f ls = concat (map (\<lambda>l. if leafId l = p then f l else [l]) ls)"

definition panes_detach ::
  "(PaneLeaf \<Rightarrow> string \<Rightarrow> string list \<Rightarrow> string) \<Rightarrow> string \<Rightarrow> PaneLeaf list \<Rightarrow> PaneLeaf list" where
  "panes_detach sel t ls = concat (map (\<lambda>l.
     if t \<notin> set (tabIds l) then [l]
     else let remaining = filter (\<lambda>x. x \<noteq> t) (tabIds l) in
          if remaining = [] then []
          else [l\<lparr>tabIds := remaining, leafSelected := sel l t remaining\<rparr>]) ls)"

text \<open>A new pane placed before or after an existing one.\<close>

definition beside :: "Placement \<Rightarrow> PaneLeaf \<Rightarrow> PaneLeaf \<Rightarrow> PaneLeaf list" where
  "beside placement newLeaf other =
     (if placement = PlaceFirst then [newLeaf, other] else [other, newLeaf])"

lemma panesTabs_simps [simp]:
  "panesTabs [] = []" "panesTabs (l # ls) = tabIds l @ panesTabs ls"
  "panesTabs (ls @ ls') = panesTabs ls @ panesTabs ls'"
  by (simp_all add: panesTabs_def)

lemma set_panesTabs: "set (panesTabs ls) = (\<Union>l \<in> set ls. set (tabIds l))"
  by (simp add: panesTabs_def)

lemma panes_put_simps [simp]:
  "panes_put p f [] = []"
  "panes_put p f (l # ls) = (if leafId l = p then f l else [l]) @ panes_put p f ls"
  "panes_put p f (xs @ ys) = panes_put p f xs @ panes_put p f ys"
  by (simp_all add: panes_put_def)

lemma panes_put_absent: "p \<notin> leafId ` set ls \<Longrightarrow> panes_put p f ls = ls"
  by (induction ls) auto

lemma panes_detach_simps [simp]:
  "panes_detach sel t [] = []"
  "panes_detach sel t (l # ls) =
     (if t \<notin> set (tabIds l) then [l]
      else let remaining = filter (\<lambda>x. x \<noteq> t) (tabIds l) in
           if remaining = [] then []
           else [l\<lparr>tabIds := remaining, leafSelected := sel l t remaining\<rparr>])
     @ panes_detach sel t ls"
  "panes_detach sel t (xs @ ys) = panes_detach sel t xs @ panes_detach sel t ys"
  by (simp_all add: panes_detach_def)

lemma panes_detach_absent: "t \<notin> set (panesTabs ls) \<Longrightarrow> panes_detach sel t ls = ls"
  by (induction ls) auto

text \<open>Every pane is in a context: the panes to its left and to its right.\<close>

lemma panes_context:
  assumes "distinct (map leafId ls)" "l \<in> set ls"
  obtains xs ys where "ls = xs @ l # ys" "leafId l \<notin> leafId ` set xs" "leafId l \<notin> leafId ` set ys"
proof -
  from split_list [OF assms(2)] obtain xs ys where ls: "ls = xs @ l # ys" by blast
  with assms(1) have "leafId l \<notin> leafId ` set xs" "leafId l \<notin> leafId ` set ys" by auto
  with ls show thesis by (rule that)
qed

lemma panes_put_context:
  assumes "ls = xs @ l # ys" "leafId l \<notin> leafId ` set xs" "leafId l \<notin> leafId ` set ys"
  shows "panes_put (leafId l) f ls = xs @ f l @ ys"
  using assms by (simp add: panes_put_absent)

lemma panes_detach_tabs: "panesTabs (panes_detach sel t ls) = filter (\<lambda>x. x \<noteq> t) (panesTabs ls)"
  by (induction ls) (auto simp: Let_def)

lemma panes_detach_ids: "subseq (map leafId (panes_detach sel t ls)) (map leafId ls)"
  by (induction ls) (auto simp: Let_def)

lemma panes_detach_keeps:
  "l \<in> set ls \<Longrightarrow> t \<notin> set (tabIds l) \<Longrightarrow> l \<in> set (panes_detach sel t ls)"
  by (induction ls) auto

lemma panes_detach_gone: "m \<in> set (panes_detach sel t ls) \<Longrightarrow> t \<notin> set (tabIds m)"
  by (auto simp: panes_detach_def Let_def split: if_splits)

lemma panes_detach_member:
  assumes "m \<in> set (panes_detach sel t ls)"
  shows "m \<in> set ls \<or> (\<exists>l \<in> set ls. \<exists>remaining. remaining = filter (\<lambda>x. x \<noteq> t) (tabIds l) \<and>
           t \<in> set (tabIds l) \<and> remaining \<noteq> [] \<and>
           m = l\<lparr>tabIds := remaining, leafSelected := sel l t remaining\<rparr>)"
  using assms by (auto simp: panes_detach_def Let_def split: if_splits)

text \<open>A rule for the selection after a removal is sound if it selects a remaining tab.\<close>

definition selection_rule :: "(PaneLeaf \<Rightarrow> string \<Rightarrow> string list \<Rightarrow> string) \<Rightarrow> bool" where
  "selection_rule sel \<longleftrightarrow>
     (\<forall>l t. leaf_ok l \<longrightarrow> t \<in> set (tabIds l) \<longrightarrow> filter (\<lambda>x. x \<noteq> t) (tabIds l) \<noteq> [] \<longrightarrow>
        sel l t (filter (\<lambda>x. x \<noteq> t) (tabIds l)) \<in> set (filter (\<lambda>x. x \<noteq> t) (tabIds l)))"

lemma leaf_ok_selected: "leaf_ok l \<Longrightarrow> t \<in> set (tabIds l) \<Longrightarrow> leafSelected l \<in> set (tabIds l)"
  by (auto simp: leaf_ok_def split: if_splits)

lemma headSelection_rule [simp]: "selection_rule headSelection"
  unfolding selection_rule_def
proof (intro allI impI)
  fix l :: PaneLeaf and t
  let ?rem = "filter (\<lambda>x. x \<noteq> t) (tabIds l)"
  assume "leaf_ok l" "t \<in> set (tabIds l)" "?rem \<noteq> []"
  then show "headSelection l t ?rem \<in> set ?rem"
    using leaf_ok_selected [of l t] hd_in_set [of ?rem]
    by (auto simp: headSelection_def js_at_def hd_conv_nth)
qed

lemma neighbourSelection_rule [simp]: "selection_rule neighbourSelection"
  unfolding selection_rule_def
proof (intro allI impI)
  fix l :: PaneLeaf and t
  let ?rem = "filter (\<lambda>x. x \<noteq> t) (tabIds l)" and ?i = "js_indexOf (tabIds l) t"
  assume l: "leaf_ok l" "t \<in> set (tabIds l)" "?rem \<noteq> []"
  have i: "0 \<le> ?i" using l(2) js_indexOf_split by fastforce
  have "0 < length ?rem" using l(3) by blast
  from js_at_Some_conv [THEN iffD2, OF min_index_bounds [OF i this]]
  obtain x where x: "js_at ?rem (min ?i (int (length ?rem) - 1)) = Some x" by blast
  show "neighbourSelection l t ?rem \<in> set ?rem"
  proof (cases "leafSelected l = t")
    case True
    with x js_at_set [OF x] show ?thesis by (simp add: neighbourSelection_def)
  next
    case False
    with l leaf_ok_selected [of l t] show ?thesis by (auto simp: neighbourSelection_def)
  qed
qed

lemma panes_detach_ok:
  assumes "panes_ok ls" "selection_rule sel"
  shows "panes_ok (panes_detach sel t ls)"
  unfolding panes_ok_def
proof (intro conjI ballI)
  show "distinct (map leafId (panes_detach sel t ls))"
    using assms(1) subseq_distinct [OF panes_detach_ids] by (auto simp: panes_ok_def)
  show "distinct (panesTabs (panes_detach sel t ls))"
    using assms(1) by (simp add: panes_ok_def panes_detach_tabs)
  fix m assume "m \<in> set (panes_detach sel t ls)"
  then show "leaf_ok m"
    using panes_detach_member [of m sel t ls] assms
    by (auto simp: panes_ok_def selection_rule_def leaf_ok_def)
qed

text \<open>Replacing one pane by panes that keep the ids and tabs apart.\<close>

lemma panes_put_ok:
  assumes "panes_ok (xs @ l # ys)" "panes_ok new"
    and "set (map leafId new) \<inter> leafId ` set (xs @ ys) = {}"
    and "set (panesTabs new) \<inter> set (panesTabs (xs @ ys)) = {}"
  shows "panes_ok (xs @ new @ ys)"
  using assms by (auto simp: panes_ok_def)

section \<open>Trees and their pane lists\<close>

lemma findLeaf_conv: "findLeaf r p = List.find (\<lambda>l. leafId l = p) (collectLeaves r)"
  by (induction r) (simp_all add: find_append)

lemma findLeafByTabId_conv:
  "findLeafByTabId r t = List.find (\<lambda>l. t \<in> set (tabIds l)) (collectLeaves r)"
  by (induction r) (simp_all add: find_append)

lemma mset_nodeIds: "mset (nodeIds r) = mset (leafIds r) + mset (branchIds r)"
  by (induction r) simp_all

lemma set_nodeIds: "set (nodeIds r) = set (leafIds r) \<union> set (branchIds r)"
  by (metis mset_nodeIds set_mset_mset set_mset_union)

lemma nodeId_in_nodeIds [simp]: "nodeId r \<in> set (nodeIds r)"
  by (cases r) simp_all

lemma collectLeaves_nonempty [simp]: "collectLeaves r \<noteq> []"
  by (induction r) simp_all

lemma single_leaf:
  assumes "length (collectLeaves r) = 1"
  shows "\<exists>l. r = Leaf l"
proof (cases r)
  case (Branch i d q a b)
  have "0 < length (collectLeaves a)" "0 < length (collectLeaves b)"
    by (simp_all only: length_greater_0_conv collectLeaves_nonempty not_False_eq_True)
  with Branch assms show ?thesis by simp
qed simp

lemma distinct_nodeIds_leafIds:
  "distinct (nodeIds r) \<Longrightarrow> distinct (leafIds r) \<and> set (leafIds r) \<inter> set (branchIds r) = {}"
  by (metis distinct_append mset_append mset_eq_imp_distinct_iff mset_nodeIds)

lemma replaceNode_absent: "t \<notin> set (nodeIds r) \<Longrightarrow> replaceNode r t new = r"
  by (induction r) auto

lemma collectLeaves_replaceNode:
  "t \<notin> set (branchIds r) \<Longrightarrow>
   collectLeaves (replaceNode r t new) = panes_put t (\<lambda>_. collectLeaves new) (collectLeaves r)"
  by (induction r) auto

lemma splitRatios_replaceNode:
  "set (splitRatios (replaceNode r t new)) \<subseteq> set (splitRatios r) \<union> set (splitRatios new)"
  by (induction r) auto

lemma nodeIds_replaceNode:
  assumes "distinct (nodeIds r)" "t \<in> set (leafIds r)"
  shows "add_mset t (mset (nodeIds (replaceNode r t new))) = mset (nodeIds r) + mset (nodeIds new)"
  using assms
proof (induction r)
  case (Leaf l)
  then show ?case by simp
next
  case (Branch i d q a b)
  have ne: "i \<noteq> t" using Branch.prems by (auto simp: set_nodeIds)
  show ?case
  proof (cases "t \<in> set (leafIds a)")
    case True
    then have "t \<notin> set (nodeIds b)"
      using Branch.prems(1) by (auto simp: set_nodeIds)
    with ne True Branch.IH(1) Branch.prems(1) show ?thesis
      by (simp add: replaceNode_absent)
  next
    case False
    with Branch.prems(2) have t: "t \<in> set (leafIds b)" by auto
    then have "t \<notin> set (nodeIds a)"
      using Branch.prems(1) by (auto simp: set_nodeIds)
    with ne t Branch.IH(2) Branch.prems(1) show ?thesis
      by (simp add: replaceNode_absent)
  qed
qed

section \<open>Collapsing an emptied pane\<close>

lemma findParent_absent: "t \<notin> set (nodeIds r) \<Longrightarrow> findParent r t = None"
  by (induction r) auto

text \<open>What replacing the parent of a leaf by the leaf's sibling does to the tree.\<close>

definition collapses :: "SplitPaneNode \<Rightarrow> string \<Rightarrow> SplitPaneNode \<Rightarrow> bool" where
  "collapses r c r' \<longleftrightarrow>
     collectLeaves r' = filter (\<lambda>m. leafId m \<noteq> c) (collectLeaves r) \<and>
     subseq (nodeIds r') (nodeIds r) \<and> subseq (splitRatios r') (splitRatios r)"

lemma filter_leafId_absent:
  "c \<notin> set (nodeIds r) \<Longrightarrow> filter (\<lambda>m. leafId m \<noteq> c) (collectLeaves r) = collectLeaves r"
  by (auto simp: set_nodeIds filter_id_conv)

lemma leaf_id_node:
  assumes "distinct (nodeIds r)" "c \<in> set (leafIds r)" "nodeId r = c"
  shows "collectLeaves r = [] \<or> (\<exists>l. r = Leaf l)"
  using assms by (cases r) (auto simp: set_nodeIds)

lemma collapses_first:
  assumes "distinct (nodeIds (Branch i d q (Leaf l) b))"
  shows "collapses (Branch i d q (Leaf l) b) (leafId l) b"
  using assms by (auto simp: collapses_def filter_leafId_absent)

lemma collapses_second:
  assumes "distinct (nodeIds (Branch i d q a (Leaf l)))"
  shows "collapses (Branch i d q a (Leaf l)) (leafId l) a"
  using assms by (auto simp: collapses_def filter_leafId_absent)

lemma collapses_left:
  assumes "collapses a c a'" "c \<notin> set (nodeIds b)"
  shows "collapses (Branch i d q a b) c (Branch i d q a' b)"
  using assms by (auto simp: collapses_def filter_leafId_absent intro: list_emb_append_mono)

lemma collapses_right:
  assumes "collapses b c b'" "c \<notin> set (nodeIds a)"
  shows "collapses (Branch i d q a b) c (Branch i d q a b')"
  using assms by (auto simp: collapses_def filter_leafId_absent intro: list_emb_append_mono)

lemma findParent_collapse:
  assumes "distinct (nodeIds r)" "c \<in> set (leafIds r)" "nodeId r \<noteq> c"
  shows "\<exists>parent sibling. findParent r c = Some parent \<and> getSibling parent c = Some sibling \<and>
           nodeId parent \<in> set (nodeIds r) \<and> collapses r c (replaceNode r (nodeId parent) sibling)"
  using assms
proof (induction r)
  case (Leaf l)
  then show ?case by simp
next
  case (Branch i d q a b)
  have dis: "distinct (nodeIds a)" "distinct (nodeIds b)" "i \<notin> set (nodeIds a)"
    "i \<notin> set (nodeIds b)" "set (nodeIds a) \<inter> set (nodeIds b) = {}"
    using Branch.prems(1) by auto
  show ?case
  proof (cases "c \<in> set (leafIds a)")
    case True
    then have cb: "c \<notin> set (nodeIds b)" and nb: "nodeId b \<noteq> c"
      using dis(5) nodeId_in_nodeIds [of b] by (auto simp: set_nodeIds)
    show ?thesis
    proof (cases "nodeId a = c")
      case True
      with dis(1) \<open>c \<in> set (leafIds a)\<close> obtain l where "a = Leaf l"
        using leaf_id_node by fastforce
      with True Branch.prems(1) collapses_first show ?thesis by fastforce
    next
      case False
      from Branch.IH(1) [OF dis(1) \<open>c \<in> set (leafIds a)\<close> False] obtain p s where
        ps: "findParent a c = Some p" "getSibling p c = Some s" "nodeId p \<in> set (nodeIds a)"
          "collapses a c (replaceNode a (nodeId p) s)"
        by blast
      then have "nodeId p \<noteq> i" "replaceNode b (nodeId p) s = b"
        using dis by (auto intro!: replaceNode_absent)
      with ps False nb collapses_left [OF ps(4) cb] show ?thesis by simp
    qed
  next
    case False
    with Branch.prems(2) have cb: "c \<in> set (leafIds b)" by auto
    then have ca: "c \<notin> set (nodeIds a)" and na: "nodeId a \<noteq> c"
      using dis(5) nodeId_in_nodeIds [of a] by (auto simp: set_nodeIds)
    show ?thesis
    proof (cases "nodeId b = c")
      case True
      with dis(2) cb obtain l where "b = Leaf l"
        using leaf_id_node by fastforce
      with True na Branch.prems(1) collapses_second show ?thesis by fastforce
    next
      case False
      from Branch.IH(2) [OF dis(2) cb False] obtain p s where
        ps: "findParent b c = Some p" "getSibling p c = Some s" "nodeId p \<in> set (nodeIds b)"
          "collapses b c (replaceNode b (nodeId p) s)"
        by blast
      then have "nodeId p \<noteq> i" "replaceNode a (nodeId p) s = a"
        using dis by (auto intro!: replaceNode_absent)
      with ps False na findParent_absent [OF ca] collapses_right [OF ps(4) ca] show ?thesis
        by simp
    qed
  qed
qed

lemma collapseLeaf_collapses:
  assumes "distinct (nodeIds r)" "c \<in> set (leafIds r)" "nodeId r \<noteq> c"
  shows "collapses r c (collapseLeaf r c)"
  using findParent_collapse [OF assms] by (auto simp: collapseLeaf_def)

end
