(* ===== verification/Split_Pane_Correct.thy ===== *)
theory Split_Pane_Correct
  imports Split_Pane_Facts
begin

text \<open>
  Correctness of the split-pane operations: each one acts on the list of panes as its
  specification says, keeps the layout invariant and conserves the tabs, and declines exactly
  in the cases its contract names.
\<close>

section \<open>Replacing a pane in a well-formed tree\<close>

lemma nodeIds_replaceNode_conv:
  assumes "distinct (nodeIds r)" "t \<in> set (leafIds r)"
  shows "mset (nodeIds (replaceNode r t new)) = mset (remove1 t (nodeIds r) @ nodeIds new)"
proof -
  have t: "t \<in> set (nodeIds r)" using assms(2) by (simp add: set_nodeIds)
  have "add_mset t (mset (nodeIds (replaceNode r t new))) =
        add_mset t (mset (remove1 t (nodeIds r) @ nodeIds new))"
    using nodeIds_replaceNode [OF assms, of new] t by simp
  then show ?thesis by simp
qed

lemma nodeIds_replaceNode_set:
  assumes "distinct (nodeIds r)" "t \<in> set (leafIds r)"
  shows "set (nodeIds (replaceNode r t new)) = (set (nodeIds r) - {t}) \<union> set (nodeIds new)"
  using mset_eq_setD [OF nodeIds_replaceNode_conv [OF assms]] assms(1)
  by (simp add: set_remove1_eq)

lemma nodeIds_replaceNode_distinct:
  assumes "distinct (nodeIds r)" "t \<in> set (leafIds r)" "distinct (nodeIds new)"
    "(set (nodeIds r) - {t}) \<inter> set (nodeIds new) = {}"
  shows "distinct (nodeIds (replaceNode r t new))"
  using assms mset_eq_imp_distinct_iff [OF nodeIds_replaceNode_conv [OF assms(1,2)]]
  by (auto simp: set_remove1_eq distinct_remove1)

lemma leaves_replaceNode:
  assumes "distinct (nodeIds r)" "l \<in> set (collectLeaves r)"
  shows "collectLeaves (replaceNode r (leafId l) new) =
         panes_put (leafId l) (\<lambda>_. collectLeaves new) (collectLeaves r)"
  using distinct_nodeIds_leafIds [OF assms(1)] assms(2)
  by (intro collectLeaves_replaceNode) auto

lemma tree_okD:
  assumes "tree_ok r"
  shows "distinct (nodeIds r)" "panes_ok (collectLeaves r)" "distinct (leafIds r)"
    "distinct (panesTabs (collectLeaves r))" "l \<in> set (collectLeaves r) \<Longrightarrow> leaf_ok l"
  using assms distinct_nodeIds_leafIds [of r] by (auto simp: tree_ok_def panes_ok_def)

text \<open>The other panes of a tree: those left and right of a given one.\<close>

lemma tree_replace:
  assumes "tree_ok r" "l \<in> set (collectLeaves r)" "tree_ok new"
    and ids: "(set (nodeIds r) - {leafId l}) \<inter> set (nodeIds new) = {}"
    and tabs: "\<And>m. m \<in> set (collectLeaves r) \<Longrightarrow> m \<noteq> l \<Longrightarrow>
      set (tabIds m) \<inter> set (panesTabs (collectLeaves new)) = {}"
  shows "tree_ok (replaceNode r (leafId l) new)"
proof -
  note r = tree_okD [OF assms(1)]
  obtain xs ys where ctx: "collectLeaves r = xs @ l # ys"
      "leafId l \<notin> leafId ` set xs" "leafId l \<notin> leafId ` set ys"
    using panes_context [OF r(3) assms(2)] by blast
  have t: "leafId l \<in> set (leafIds r)" using assms(2) by simp
  have leaves: "collectLeaves (replaceNode r (leafId l) new) = xs @ collectLeaves new @ ys"
    using leaves_replaceNode [OF r(1) assms(2)] panes_put_context [OF ctx] by simp
  have d: "distinct (nodeIds (replaceNode r (leafId l) new))"
    using nodeIds_replaceNode_distinct [OF r(1) t _ ids] assms(3) by (simp add: tree_ok_def)
  moreover have "panes_ok (xs @ collectLeaves new @ ys)"
  proof (rule panes_put_ok)
    show "panes_ok (xs @ l # ys)" using r(2) ctx(1) by simp
    show "panes_ok (collectLeaves new)" using assms(3) by (simp add: tree_ok_def)
    show "set (leafIds new) \<inter> leafId ` set (xs @ ys) = {}"
      using distinct_nodeIds_leafIds [OF d] by (auto simp: leaves)
    have "l \<notin> set (xs @ ys)" using ctx by auto
    then show "set (panesTabs (collectLeaves new)) \<inter> set (panesTabs (xs @ ys)) = {}"
      using tabs ctx(1) by (fastforce simp: set_panesTabs)
  qed
  ultimately show ?thesis
    using assms(1,3) splitRatios_replaceNode [of r "leafId l" new] leaves
    by (auto simp: tree_ok_def)
qed

lemma other_pane_tabs:
  assumes "tree_ok r" "l \<in> set (collectLeaves r)" "m \<in> set (collectLeaves r)" "m \<noteq> l"
  shows "set (tabIds m) \<inter> set (tabIds l) = {}"
  using distinct_concat_map_unique [of tabIds "collectLeaves r" l m] assms tree_okD(4) [OF assms(1)]
  by (auto simp: panesTabs_def)

text \<open>A pane that keeps its id and receives only tabs that are in no other pane.\<close>

lemma tree_update_leaf:
  assumes "tree_ok r" "l \<in> set (collectLeaves r)" "leafId l' = leafId l" "leaf_ok l'"
    "distinct (tabIds l')"
    and tabs: "set (tabIds l') \<subseteq> set (tabIds l) \<union> - set (panesTabs (collectLeaves r))"
  shows "tree_ok (replaceNode r (leafId l) (Leaf l'))"
proof (rule tree_replace [OF assms(1,2)])
  show "tree_ok (Leaf l')" using assms(4,5) by (simp add: tree_ok_def panes_ok_def)
  show "(set (nodeIds r) - {leafId l}) \<inter> set (nodeIds (Leaf l')) = {}" using assms(3) by simp
  fix m assume "m \<in> set (collectLeaves r)" "m \<noteq> l"
  then show "set (tabIds m) \<inter> set (panesTabs (collectLeaves (Leaf l'))) = {}"
    using other_pane_tabs [OF assms(1,2)] tabs by (fastforce simp: set_panesTabs)
qed

lemma tree_ok_distinct_tabs: "tree_ok r \<Longrightarrow> l \<in> set (collectLeaves r) \<Longrightarrow> distinct (tabIds l)"
  using tree_okD(4) [of r] by (auto simp: panesTabs_def distinct_concat_iff)

section \<open>Looking panes up\<close>

lemma findLeaf_Some:
  assumes "tree_ok r"
  shows "findLeaf r p = Some l \<longleftrightarrow> l \<in> set (collectLeaves r) \<and> leafId l = p"
proof
  assume "findLeaf r p = Some l"
  then show "l \<in> set (collectLeaves r) \<and> leafId l = p"
    unfolding findLeaf_conv by (rule find_SomeD)
next
  assume "l \<in> set (collectLeaves r) \<and> leafId l = p"
  then show "findLeaf r p = Some l"
    using tree_okD(3) [OF assms] unfolding findLeaf_conv
    by (intro find_eq_SomeI) (auto simp: distinct_map inj_on_def)
qed

lemma findLeaf_self: "tree_ok r \<Longrightarrow> l \<in> set (collectLeaves r) \<Longrightarrow> findLeaf r (leafId l) = Some l"
  by (simp add: findLeaf_Some)

lemma findLeaf_None: "findLeaf r p = None \<longleftrightarrow> p \<notin> set (leafIds r)"
  by (auto simp: findLeaf_conv find_None_iff)

lemma findLeafByTabId_Some:
  assumes "tree_ok r"
  shows "findLeafByTabId r t = Some l \<longleftrightarrow> l \<in> set (collectLeaves r) \<and> t \<in> set (tabIds l)"
proof
  assume "findLeafByTabId r t = Some l"
  then show "l \<in> set (collectLeaves r) \<and> t \<in> set (tabIds l)"
    unfolding findLeafByTabId_conv by (rule find_SomeD)
next
  assume l: "l \<in> set (collectLeaves r) \<and> t \<in> set (tabIds l)"
  then show "findLeafByTabId r t = Some l"
    using other_pane_tabs [OF assms] unfolding findLeafByTabId_conv
    by (intro find_eq_SomeI) blast+
qed

lemma findLeafByTabId_None:
  "findLeafByTabId r t = None \<longleftrightarrow> t \<notin> set (panesTabs (collectLeaves r))"
  by (auto simp: findLeafByTabId_conv find_None_iff set_panesTabs)

section \<open>Taking a tab out of its pane\<close>

lemma root_not_leaf:
  assumes "tree_ok r" "l \<in> set (collectLeaves r)" "m \<in> set (collectLeaves r)" "l \<noteq> m"
  shows "nodeId r \<noteq> leafId l"
proof
  assume "nodeId r = leafId l"
  with leaf_id_node [of r "leafId l"] assms(1,2) obtain l' where "r = Leaf l'"
    by (auto simp: tree_ok_def)
  with assms(2-4) show False by simp
qed

lemma panes_detach_context:
  assumes "tree_ok r" "l \<in> set (collectLeaves r)" "t \<in> set (tabIds l)" "collectLeaves r = xs @ l # ys"
  shows "panes_detach sel t (collectLeaves r) =
    (let remaining = filter (\<lambda>x. x \<noteq> t) (tabIds l) in
     xs @ (if remaining = [] then []
           else [l\<lparr>tabIds := remaining, leafSelected := sel l t remaining\<rparr>]) @ ys)"
proof -
  have "t \<notin> set (panesTabs xs)" "t \<notin> set (panesTabs ys)"
    using tree_okD(4) [OF assms(1)] assms(3,4) by auto
  with assms(3,4) show ?thesis by (simp add: panes_detach_absent Let_def)
qed

lemma filter_id_context:
  fixes l :: PaneLeaf
  assumes "leafId l \<notin> leafId ` set xs" "leafId l \<notin> leafId ` set ys"
  shows "filter (\<lambda>m. leafId m \<noteq> leafId l) (xs @ l # ys) = xs @ ys"
proof -
  have "filter (\<lambda>m. leafId m \<noteq> leafId l) zs = zs" if "leafId l \<notin> leafId ` set zs" for zs :: "PaneLeaf list"
    using that by (induction zs) auto
  with assms show ?thesis by simp
qed

text \<open>Dropping the pane of its only tab, by collapsing it out of the tree.\<close>

lemma collapse_detaches:
  assumes "tree_ok r" "l \<in> set (collectLeaves r)" "t \<in> set (tabIds l)"
    and "filter (\<lambda>x. x \<noteq> t) (tabIds l) = []" "collapses r (leafId l) r'" "selection_rule sel"
  shows "collectLeaves r' = panes_detach sel t (collectLeaves r) \<and> tree_ok r' \<and>
         set (nodeIds r') \<subseteq> set (nodeIds r)"
proof -
  note r = tree_okD [OF assms(1)]
  obtain xs ys where ctx: "collectLeaves r = xs @ l # ys"
      "leafId l \<notin> leafId ` set xs" "leafId l \<notin> leafId ` set ys"
    using panes_context [OF r(3) assms(2)] by blast
  have leaves: "collectLeaves r' = panes_detach sel t (collectLeaves r)"
    using assms(5) panes_detach_context [OF assms(1-3) ctx(1), of sel] filter_id_context [OF ctx(2,3)]
      assms(4) ctx(1)
    by (simp add: collapses_def)
  have sub: "set (nodeIds r') \<subseteq> set (nodeIds r)" "set (splitRatios r') \<subseteq> set (splitRatios r)"
    using assms(5) by (auto simp: collapses_def dest: list_emb_set)
  have "distinct (nodeIds r')"
    using assms(5) r(1) by (auto simp: collapses_def intro: subseq_distinct)
  with sub panes_detach_ok [OF r(2) assms(6), of t] leaves assms(1) show ?thesis
    by (auto simp: tree_ok_def)
qed

lemma update_detaches:
  assumes "tree_ok r" "l \<in> set (collectLeaves r)" "t \<in> set (tabIds l)" "selection_rule sel"
    and rem: "remaining = filter (\<lambda>x. x \<noteq> t) (tabIds l)" "remaining \<noteq> []"
    and l': "l' = l\<lparr>tabIds := remaining, leafSelected := sel l t remaining\<rparr>"
  shows "collectLeaves (replaceNode r (leafId l) (Leaf l')) = panes_detach sel t (collectLeaves r) \<and>
         tree_ok (replaceNode r (leafId l) (Leaf l')) \<and>
         set (nodeIds (replaceNode r (leafId l) (Leaf l'))) = set (nodeIds r)"
proof (intro conjI)
  note r = tree_okD [OF assms(1)]
  obtain xs ys where ctx: "collectLeaves r = xs @ l # ys"
      "leafId l \<notin> leafId ` set xs" "leafId l \<notin> leafId ` set ys"
    using panes_context [OF r(3) assms(2)] by blast
  have id: "leafId l' = leafId l" using l' by simp
  show "collectLeaves (replaceNode r (leafId l) (Leaf l')) = panes_detach sel t (collectLeaves r)"
    using leaves_replaceNode [OF r(1) assms(2), of "Leaf l'"] panes_put_context [OF ctx]
      panes_detach_context [OF assms(1-3) ctx(1), of sel] rem l'
    by (simp add: Let_def)
  have "sel l t remaining \<in> set remaining"
    using assms(3,4) r(5) [OF assms(2)] rem by (auto simp: selection_rule_def)
  then have "leaf_ok l'" using l' by (auto simp: leaf_ok_def)
  then show "tree_ok (replaceNode r (leafId l) (Leaf l'))"
    using tree_ok_distinct_tabs [OF assms(1,2)] l' rem(1)
    by (intro tree_update_leaf [OF assms(1,2) id]) auto
  show "set (nodeIds (replaceNode r (leafId l) (Leaf l'))) = set (nodeIds r)"
    using nodeIds_replaceNode_set [OF r(1), of "leafId l" "Leaf l'"] assms(2) id set_nodeIds [of r]
    by auto
qed

lemma detachTab_ok:
  assumes "tree_ok r" "l \<in> set (collectLeaves r)" "t \<in> set (tabIds l)" "nodeId r \<noteq> leafId l"
  shows "collectLeaves (detachTab r l t) = panes_detach headSelection t (collectLeaves r)"
    "tree_ok (detachTab r l t)" "set (nodeIds (detachTab r l t)) \<subseteq> set (nodeIds r)"
proof -
  let ?rem = "filter (\<lambda>x. x \<noteq> t) (tabIds l)"
  have "collectLeaves (detachTab r l t) = panes_detach headSelection t (collectLeaves r) \<and>
    tree_ok (detachTab r l t) \<and> set (nodeIds (detachTab r l t)) \<subseteq> set (nodeIds r)"
  proof (cases "?rem = []")
    case True
    have "collapses r (leafId l) (collapseLeaf r (leafId l))"
      using collapseLeaf_collapses [OF tree_okD(1) [OF assms(1)] _ assms(4)] assms(2) by simp
    with collapse_detaches [OF assms(1-3) True this headSelection_rule] True show ?thesis
      by (simp add: detachTab_def)
  next
    case False
    with update_detaches [OF assms(1-3) headSelection_rule refl False refl] show ?thesis
      by (simp add: detachTab_def Let_def)
  qed
  then show "collectLeaves (detachTab r l t) = panes_detach headSelection t (collectLeaves r)"
    "tree_ok (detachTab r l t)" "set (nodeIds (detachTab r l t)) \<subseteq> set (nodeIds r)"
    by simp_all
qed

section \<open>Splitting a pane\<close>

lemma newSplit_simps [simp]:
  "collectLeaves (newSplit d pl b n other) = beside pl n other"
  "set (nodeIds (newSplit d pl b n other)) = {b, leafId n, leafId other}"
  "distinct (nodeIds (newSplit d pl b n other)) \<longleftrightarrow>
     b \<noteq> leafId n \<and> b \<noteq> leafId other \<and> leafId n \<noteq> leafId other"
  "splitRatios (newSplit d pl b n other) = [half_ratio]"
  by (auto simp: newSplit_def beside_def)

lemma createLeaf_simps [simp]:
  "leafId (createLeaf i ts sel) = i" "tabIds (createLeaf i ts sel) = ts"
  "leafSelected (createLeaf i ts (Some x)) = x"
  "leafSelected (createLeaf i [] None) = []"
  by (simp_all add: createLeaf_def js_at_def)

lemma set_panesTabs_beside [simp]:
  "set (panesTabs (beside pl n other)) = set (tabIds n) \<union> set (tabIds other)"
  "set (map leafId (beside pl n other)) = {leafId n, leafId other}"
  by (auto simp: beside_def)

lemma ratio_ok_half [simp]: "ratio_ok half_ratio"
  by (simp add: half_ratio_def)

text \<open>A pane \<open>l\<close> (kept as \<open>l'\<close>) split so that a fresh pane holds the single tab \<open>t\<close>.\<close>

lemma tree_split_leaf:
  assumes "tree_ok r" "l \<in> set (collectLeaves r)" "leafId l' = leafId l" "leaf_ok l'"
    "distinct (tabIds l')" "set (tabIds l') \<subseteq> set (tabIds l)" "t \<notin> set (tabIds l')"
    and fresh: "n \<notin> set (nodeIds r)" "b \<notin> set (nodeIds r)" "n \<noteq> b"
    and tabs: "\<And>m. m \<in> set (collectLeaves r) \<Longrightarrow> m \<noteq> l \<Longrightarrow> t \<notin> set (tabIds m)"
  shows "tree_ok (replaceNode r (leafId l) (newSplit d pl b (createLeaf n [t] (Some t)) l'))"
proof (rule tree_replace [OF assms(1,2)])
  let ?new = "newSplit d pl b (createLeaf n [t] (Some t)) l'"
  have l: "leafId l \<in> set (nodeIds r)" using assms(2) by (simp add: set_nodeIds)
  show "tree_ok ?new"
    using assms(3-7) fresh l by (auto simp: tree_ok_def panes_ok_def beside_def leaf_ok_def)
  show "(set (nodeIds r) - {leafId l}) \<inter> set (nodeIds ?new) = {}"
    using fresh assms(3) by auto
  fix m assume m: "m \<in> set (collectLeaves r)" "m \<noteq> l"
  then show "set (tabIds m) \<inter> set (panesTabs (collectLeaves ?new)) = {}"
    using other_pane_tabs [OF assms(1,2)] tabs [OF m] assms(6) by auto
qed

text \<open>Where the tab and the target pane exist, the operation is one of two updates.\<close>

lemma splitPaneWithTab_same:
  assumes "tree_ok (root s)" "l \<in> set (collectLeaves (root s))" "splitTabId i \<in> set (tabIds l)"
    "leafId l = splitTargetPaneId i"
  shows "splitPaneWithTab s i =
    (if length (tabIds l) \<le> 1 then None
     else let remaining = filter (\<lambda>x. x \<noteq> splitTabId i) (tabIds l) in
       Some \<lparr>root = replaceNode (root s) (leafId l)
               (newSplit (splitDirection i) (splitPlacement i) (splitNewBranchId i)
                  (createLeaf (splitNewPaneId i) [splitTabId i] (Some (splitTabId i)))
                  (l\<lparr>tabIds := remaining,
                     leafSelected := neighbourSelection l (splitTabId i) remaining\<rparr>)),
             activePaneId = splitNewPaneId i\<rparr>)"
proof -
  have "findLeafByTabId (root s) (splitTabId i) = Some l"
    using assms(2,3) by (simp add: findLeafByTabId_Some [OF assms(1)])
  moreover have "findLeaf (root s) (splitTargetPaneId i) = Some l"
    using assms(2,4) by (simp add: findLeaf_Some [OF assms(1)])
  ultimately show ?thesis by (simp add: splitPaneWithTab_def Let_def)
qed

lemma detach_keeps_target:
  assumes "tree_ok r" "l \<in> set (collectLeaves r)" "t \<in> set (tabIds l)"
    "m \<in> set (collectLeaves r)" "leafId l \<noteq> leafId m"
  shows "findLeaf (detachTab r l t) (leafId m) = Some m" "t \<notin> set (tabIds m)"
    "m \<in> set (collectLeaves (detachTab r l t))"
proof -
  have lm: "l \<noteq> m" using assms(5) by auto
  note d = detachTab_ok [OF assms(1-3) root_not_leaf [OF assms(1,2,4) lm]]
  show t: "t \<notin> set (tabIds m)" using other_pane_tabs [OF assms(1,4,2)] assms(3) lm by blast
  show m: "m \<in> set (collectLeaves (detachTab r l t))"
    using panes_detach_keeps [OF assms(4) t] d(1) by simp
  with findLeaf_Some [OF d(2)] show "findLeaf (detachTab r l t) (leafId m) = Some m" by simp
qed

lemma splitPaneWithTab_cross:
  assumes "tree_ok (root s)" "l \<in> set (collectLeaves (root s))" "splitTabId i \<in> set (tabIds l)"
    "m \<in> set (collectLeaves (root s))" "leafId m = splitTargetPaneId i" "leafId l \<noteq> leafId m"
  shows "splitPaneWithTab s i =
     Some \<lparr>root = replaceNode (detachTab (root s) l (splitTabId i)) (leafId m)
             (newSplit (splitDirection i) (splitPlacement i) (splitNewBranchId i)
                (createLeaf (splitNewPaneId i) [splitTabId i] (Some (splitTabId i))) m),
           activePaneId = splitNewPaneId i\<rparr>"
proof -
  have "findLeafByTabId (root s) (splitTabId i) = Some l"
    using assms(2,3) by (simp add: findLeafByTabId_Some [OF assms(1)])
  moreover have "findLeaf (root s) (splitTargetPaneId i) = Some m"
    using assms(4,5) by (simp add: findLeaf_Some [OF assms(1)])
  ultimately show ?thesis
    using detach_keeps_target(1) [OF assms(1-4,6)] assms(5,6)
    by (simp add: splitPaneWithTab_def Let_def)
qed

text \<open>The specification on the pane list.\<close>

definition tab_in_pane :: "string \<Rightarrow> string \<Rightarrow> PaneLeaf list \<Rightarrow> bool" where
  "tab_in_pane t p ls \<longleftrightarrow> (\<exists>l \<in> set ls. leafId l = p \<and> t \<in> set (tabIds l))"

definition split_panes :: "SplitInput \<Rightarrow> PaneLeaf list \<Rightarrow> PaneLeaf list" where
  "split_panes i ls =
     panes_put (splitTargetPaneId i)
       (beside (splitPlacement i) (createLeaf (splitNewPaneId i) [splitTabId i] (Some (splitTabId i))))
       (panes_detach
          (if tab_in_pane (splitTabId i) (splitTargetPaneId i) ls
           then neighbourSelection else headSelection) (splitTabId i) ls)"

lemma tab_in_pane_conv:
  assumes "tree_ok r" "l \<in> set (collectLeaves r)" "t \<in> set (tabIds l)"
  shows "tab_in_pane t p (collectLeaves r) \<longleftrightarrow> leafId l = p"
  using assms other_pane_tabs [OF assms(1,2)] by (fastforce simp: tab_in_pane_def)

lemma splitPaneWithTab_None_iff:
  assumes "tree_ok (root s)"
  shows "splitPaneWithTab s i = None \<longleftrightarrow>
    splitTabId i \<notin> set (panesTabs (collectLeaves (root s))) \<or>
    splitTargetPaneId i \<notin> set (leafIds (root s)) \<or>
    (\<exists>l \<in> set (collectLeaves (root s)).
       leafId l = splitTargetPaneId i \<and> tabIds l = [splitTabId i])"
    (is "_ \<longleftrightarrow> ?no_tab \<or> ?no_target \<or> ?alone")
proof (cases "?no_tab \<or> ?no_target")
  case True
  then have "findLeafByTabId (root s) (splitTabId i) = None \<or>
             findLeaf (root s) (splitTargetPaneId i) = None"
    by (simp add: findLeafByTabId_None findLeaf_None)
  with True show ?thesis by (auto simp: splitPaneWithTab_def split: option.split)
next
  case False
  then obtain l m where lm: "l \<in> set (collectLeaves (root s))" "splitTabId i \<in> set (tabIds l)"
      "m \<in> set (collectLeaves (root s))" "leafId m = splitTargetPaneId i"
    by (auto simp: set_panesTabs)
  show ?thesis
  proof (cases "leafId l = leafId m")
    case True
    have "length (tabIds l) \<le> 1 \<longleftrightarrow> tabIds l = [splitTabId i]"
      using lm(2) by (cases "tabIds l") auto
    moreover have "?alone \<longleftrightarrow> tabIds l = [splitTabId i]"
      using lm True other_pane_tabs [OF assms lm(1)] by fastforce
    ultimately show ?thesis
      using False True lm(4) splitPaneWithTab_same [OF assms lm(1,2)] by (auto simp: Let_def)
  next
    case neq: False
    have "\<not> ?alone" using lm neq other_pane_tabs [OF assms lm(1)] by fastforce
    with False neq splitPaneWithTab_cross [OF assms lm] show ?thesis by auto
  qed
qed

text \<open>Case analysis of a successful split.\<close>

lemma splitPaneWithTab_cases:
  assumes "tree_ok (root s)" "splitPaneWithTab s i = Some s'"
  obtains (same) l where "l \<in> set (collectLeaves (root s))" "splitTabId i \<in> set (tabIds l)"
      "leafId l = splitTargetPaneId i" "1 < length (tabIds l)"
    | (cross) l m where "l \<in> set (collectLeaves (root s))" "splitTabId i \<in> set (tabIds l)"
      "m \<in> set (collectLeaves (root s))" "leafId m = splitTargetPaneId i" "leafId l \<noteq> leafId m"
proof -
  obtain l m where lm: "l \<in> set (collectLeaves (root s))" "splitTabId i \<in> set (tabIds l)"
      "m \<in> set (collectLeaves (root s))" "leafId m = splitTargetPaneId i"
    using splitPaneWithTab_None_iff [OF assms(1), of i] assms(2) by (auto simp: set_panesTabs)
  show thesis
  proof (cases "leafId l = leafId m")
    case True
    with splitPaneWithTab_same [OF assms(1) lm(1,2)] lm(4) assms(2) have "1 < length (tabIds l)"
      by (auto split: if_splits)
    with True lm show thesis by (intro same) auto
  next
    case False
    with lm show thesis by (intro cross)
  qed
qed

lemma panes_put_const:
  assumes "tree_ok r" "m \<in> set (collectLeaves r)"
  shows "panes_put (leafId m) (\<lambda>_. f m) (collectLeaves r) = panes_put (leafId m) f (collectLeaves r)"
proof -
  obtain xs ys where ctx: "collectLeaves r = xs @ m # ys"
      "leafId m \<notin> leafId ` set xs" "leafId m \<notin> leafId ` set ys"
    using panes_context [OF tree_okD(3) [OF assms(1)] assms(2)] by blast
  show ?thesis using panes_put_context [OF ctx] by simp
qed

lemma leaves_replace_put:
  assumes "tree_ok r" "m \<in> set (collectLeaves r)"
  shows "collectLeaves (replaceNode r (leafId m) (Leaf (g m))) =
           panes_put (leafId m) (\<lambda>l. [g l]) (collectLeaves r)"
    "collectLeaves (replaceNode r (leafId m) (newSplit d pl b n m)) =
           panes_put (leafId m) (beside pl n) (collectLeaves r)"
  using leaves_replaceNode [OF tree_okD(1) [OF assms(1)] assms(2)]
    panes_put_const [OF assms, of "\<lambda>l. [g l]"] panes_put_const [OF assms, of "beside pl n"]
  by simp_all

lemma filter_length_gt1:
  assumes "distinct xs" "t \<in> set xs" "1 < length xs"
  shows "filter (\<lambda>x. x \<noteq> t) xs \<noteq> []"
proof
  assume "filter (\<lambda>x. x \<noteq> t) xs = []"
  then have "set xs \<subseteq> {t}" by (auto simp: filter_empty_conv)
  then have "card (set xs) \<le> 1" using card_mono [of "{t}" "set xs"] by simp
  with assms distinct_card [of xs] show False by simp
qed

lemma splitPaneWithTab_refines:
  assumes "tree_ok (root s)" "splitPaneWithTab s i = Some s'"
  shows "collectLeaves (root s') = split_panes i (collectLeaves (root s))"
  using assms
proof (cases rule: splitPaneWithTab_cases)
  case (same l)
  let ?t = "splitTabId i" and ?r = "root s"
  let ?rem = "filter (\<lambda>x. x \<noteq> ?t) (tabIds l)"
  obtain xs ys where ctx: "collectLeaves ?r = xs @ l # ys"
      "leafId l \<notin> leafId ` set xs" "leafId l \<notin> leafId ` set ys"
    using panes_context [OF tree_okD(3) [OF assms(1)] same(1)] by blast
  have "?rem \<noteq> []"
    by (rule filter_length_gt1 [OF tree_ok_distinct_tabs [OF assms(1) same(1)] same(2,4)])
  then show ?thesis
    using splitPaneWithTab_same [OF assms(1) same(1-3)] assms(2) same(4)
      leaves_replaceNode [OF tree_okD(1) [OF assms(1)] same(1)] panes_put_context [OF ctx]
      panes_detach_context [OF assms(1) same(1,2) ctx(1), of neighbourSelection]
      tab_in_pane_conv [OF assms(1) same(1,2)] panes_put_absent [OF ctx(2)] panes_put_absent [OF ctx(3)]
      same(3)
    by (auto simp: split_panes_def Let_def)
next
  case (cross l m)
  have "l \<noteq> m" using cross(5) by auto
  note d = detachTab_ok [OF assms(1) cross(1,2) root_not_leaf [OF assms(1) cross(1,3) this]]
  note keep = detach_keeps_target [OF assms(1) cross(1-3,5)]
  show ?thesis
    using splitPaneWithTab_cross [OF assms(1) cross] assms(2) leaves_replace_put(2) [OF d(2) keep(3)]
      d(1) tab_in_pane_conv [OF assms(1) cross(1,2)] cross(4,5)
    by (auto simp: split_panes_def)
qed

text \<open>Fresh identifiers for the pane and the branch a split creates.\<close>

definition fresh_split :: "SplitPaneStateSlice \<Rightarrow> string \<Rightarrow> string \<Rightarrow> bool" where
  "fresh_split s n b \<longleftrightarrow> n \<notin> set (nodeIds (root s)) \<and> b \<notin> set (nodeIds (root s)) \<and> n \<noteq> b"

lemma leaves_in_replace:
  assumes "tree_ok r" "m \<in> set (collectLeaves r)" "k \<in> set (collectLeaves new)"
  shows "leafId k \<in> set (leafIds (replaceNode r (leafId m) new))"
proof -
  obtain xs ys where ctx: "collectLeaves r = xs @ m # ys"
      "leafId m \<notin> leafId ` set xs" "leafId m \<notin> leafId ` set ys"
    using panes_context [OF tree_okD(3) [OF assms(1)] assms(2)] by blast
  show ?thesis
    using leaves_replaceNode [OF tree_okD(1) [OF assms(1)] assms(2)] panes_put_context [OF ctx] assms(3)
    by simp
qed

lemma new_in_newSplit: "n \<in> set (collectLeaves (newSplit d pl b n other))"
  by (auto simp: beside_def)

lemma splitPaneWithTab_wf_same:
  assumes ok: "tree_ok (root s)" and fresh: "fresh_split s (splitNewPaneId i) (splitNewBranchId i)"
    and ret: "splitPaneWithTab s i = Some s'"
    and l: "l \<in> set (collectLeaves (root s))" "splitTabId i \<in> set (tabIds l)"
      "leafId l = splitTargetPaneId i" "1 < length (tabIds l)"
  shows "layout_wf s'"
proof -
  let ?new = "createLeaf (splitNewPaneId i) [splitTabId i] (Some (splitTabId i))"
  let ?rem = "filter (\<lambda>x. x \<noteq> splitTabId i) (tabIds l)"
  define l' where
    "l' = l\<lparr>tabIds := ?rem, leafSelected := neighbourSelection l (splitTabId i) ?rem\<rparr>"
  let ?split = "newSplit (splitDirection i) (splitPlacement i) (splitNewBranchId i) ?new l'"
  have dt: "distinct (tabIds l)" by (rule tree_ok_distinct_tabs [OF ok l(1)])
  have "?rem \<noteq> []" by (rule filter_length_gt1 [OF dt l(2,4)])
  then have l'_ok: "leaf_ok l'"
    using neighbourSelection_rule tree_okD(5) [OF ok l(1)] l(2)
    by (auto simp: l'_def leaf_ok_def selection_rule_def)
  have l': "leafId l' = leafId l" "distinct (tabIds l')" "set (tabIds l') \<subseteq> set (tabIds l)"
      "splitTabId i \<notin> set (tabIds l')"
    using dt by (auto simp: l'_def)
  have "tree_ok (replaceNode (root s) (leafId l) ?split)"
    using fresh other_pane_tabs [OF ok l(1)] l(2)
    by (intro tree_split_leaf [OF ok l(1) l'(1) l'_ok l'(2-4)]) (auto simp: fresh_split_def)
  moreover have "splitNewPaneId i \<in> set (leafIds (replaceNode (root s) (leafId l) ?split))"
    using leaves_in_replace [OF ok l(1) new_in_newSplit, of ?new] by simp
  ultimately show ?thesis
    using splitPaneWithTab_same [OF ok l(1-3)] ret l(4) by (auto simp: Let_def layout_wf_def l'_def)
qed

lemma splitPaneWithTab_wf_cross:
  assumes ok: "tree_ok (root s)" and fresh: "fresh_split s (splitNewPaneId i) (splitNewBranchId i)"
    and ret: "splitPaneWithTab s i = Some s'"
    and lm: "l \<in> set (collectLeaves (root s))" "splitTabId i \<in> set (tabIds l)"
      "m \<in> set (collectLeaves (root s))" "leafId m = splitTargetPaneId i" "leafId l \<noteq> leafId m"
  shows "layout_wf s'"
proof -
  let ?new = "createLeaf (splitNewPaneId i) [splitTabId i] (Some (splitTabId i))"
  let ?r = "detachTab (root s) l (splitTabId i)"
  let ?split = "newSplit (splitDirection i) (splitPlacement i) (splitNewBranchId i) ?new m"
  have "l \<noteq> m" using lm(5) by auto
  note d = detachTab_ok [OF ok lm(1,2) root_not_leaf [OF ok lm(1,3) this]]
  note keep = detach_keeps_target [OF ok lm(1-3,5)]
  have "tree_ok (replaceNode ?r (leafId m) ?split)"
    using fresh d(1,3) panes_detach_gone tree_okD(5) [OF d(2) keep(3)] keep(2)
      tree_ok_distinct_tabs [OF d(2) keep(3)]
    by (intro tree_split_leaf [OF d(2) keep(3)]) (auto simp: fresh_split_def)
  moreover have "splitNewPaneId i \<in> set (leafIds (replaceNode ?r (leafId m) ?split))"
    using leaves_in_replace [OF d(2) keep(3) new_in_newSplit, of ?new] by simp
  ultimately show ?thesis
    using splitPaneWithTab_cross [OF ok lm] ret by (auto simp: layout_wf_def)
qed

lemma splitPaneWithTab_wf:
  assumes "layout_wf s" "fresh_split s (splitNewPaneId i) (splitNewBranchId i)"
    "splitPaneWithTab s i = Some s'"
  shows "layout_wf s'"
proof -
  have ok: "tree_ok (root s)" using assms(1) by (simp add: layout_wf_def)
  from ok assms(3) show ?thesis
    by (cases rule: splitPaneWithTab_cases)
       (blast intro: splitPaneWithTab_wf_same splitPaneWithTab_wf_cross ok assms(2,3))+
qed

section \<open>Moving a tab to another pane\<close>

definition receive_tab :: "string \<Rightarrow> PaneLeaf \<Rightarrow> PaneLeaf" where
  "receive_tab t l = l\<lparr>tabIds := tabIds l @ [t], leafSelected := t\<rparr>"

definition move_panes :: "string \<Rightarrow> string \<Rightarrow> PaneLeaf list \<Rightarrow> PaneLeaf list" where
  "move_panes t p ls = panes_put p (\<lambda>l. [receive_tab t l]) (panes_detach headSelection t ls)"

lemma moveTabToPane_eq:
  assumes "tree_ok (root s)" "l \<in> set (collectLeaves (root s))" "t \<in> set (tabIds l)"
    "m \<in> set (collectLeaves (root s))" "leafId l \<noteq> leafId m"
  shows "moveTabToPane s t (leafId m) =
     Some \<lparr>root = replaceNode (detachTab (root s) l t) (leafId m) (Leaf (receive_tab t m)),
           activePaneId = leafId m\<rparr>"
proof -
  have "findLeafByTabId (root s) t = Some l"
    using assms(2,3) by (simp add: findLeafByTabId_Some [OF assms(1)])
  moreover have "findLeaf (root s) (leafId m) = Some m"
    using assms(4) by (simp add: findLeaf_Some [OF assms(1)])
  ultimately show ?thesis
    using detach_keeps_target(1) [OF assms] assms(5)
    by (simp add: moveTabToPane_def Let_def receive_tab_def)
qed

lemma moveTabToPane_None_iff:
  assumes "tree_ok (root s)"
  shows "moveTabToPane s t p = None \<longleftrightarrow>
    t \<notin> set (panesTabs (collectLeaves (root s))) \<or> p \<notin> set (leafIds (root s)) \<or>
    tab_in_pane t p (collectLeaves (root s))"
proof (cases "t \<notin> set (panesTabs (collectLeaves (root s))) \<or> p \<notin> set (leafIds (root s))")
  case True
  then have "findLeafByTabId (root s) t = None \<or> findLeaf (root s) p = None"
    by (simp add: findLeafByTabId_None findLeaf_None)
  with True show ?thesis by (auto simp: moveTabToPane_def split: option.split)
next
  case False
  then obtain l m where lm: "l \<in> set (collectLeaves (root s))" "t \<in> set (tabIds l)"
      "m \<in> set (collectLeaves (root s))" "p = leafId m"
    by (auto simp: set_panesTabs)
  have "findLeafByTabId (root s) t = Some l"
    using lm by (simp add: findLeafByTabId_Some [OF assms])
  with moveTabToPane_eq [OF assms lm(1-3)] tab_in_pane_conv [OF assms lm(1,2)] False lm(4)
  show ?thesis by (cases "leafId l = p") (auto simp: moveTabToPane_def)
qed

lemma moveTabToPane_cases:
  assumes "tree_ok (root s)" "moveTabToPane s t p = Some s'"
  obtains l m where "l \<in> set (collectLeaves (root s))" "t \<in> set (tabIds l)"
      "m \<in> set (collectLeaves (root s))" "leafId l \<noteq> leafId m" "p = leafId m"
      "s' = \<lparr>root = replaceNode (detachTab (root s) l t) (leafId m) (Leaf (receive_tab t m)),
             activePaneId = leafId m\<rparr>"
proof -
  obtain l m where lm: "l \<in> set (collectLeaves (root s))" "t \<in> set (tabIds l)"
      "m \<in> set (collectLeaves (root s))" "p = leafId m"
    using moveTabToPane_None_iff [OF assms(1), of t p] assms(2) by (auto simp: set_panesTabs)
  have "leafId l \<noteq> leafId m"
    using moveTabToPane_None_iff [OF assms(1), of t p] assms(2) lm by (auto simp: tab_in_pane_def)
  with lm moveTabToPane_eq [OF assms(1) lm(1-3)] assms(2) show thesis by (intro that) auto
qed

lemma moveTabToPane_refines:
  assumes "tree_ok (root s)" "moveTabToPane s t p = Some s'"
  shows "collectLeaves (root s') = move_panes t p (collectLeaves (root s))"
  using assms
proof (cases rule: moveTabToPane_cases)
  case (1 l m)
  then have "l \<noteq> m" by auto
  note d = detachTab_ok [OF assms(1) 1(1,2) root_not_leaf [OF assms(1) 1(1,3) this]]
  note keep = detach_keeps_target [OF assms(1) 1(1-4)]
  show ?thesis
    using leaves_replace_put(1) [OF d(2) keep(3)] d(1) 1(5,6) by (simp add: move_panes_def)
qed

lemma moveTabToPane_wf:
  assumes "layout_wf s" "moveTabToPane s t p = Some s'"
  shows "layout_wf s'"
proof -
  have ok: "tree_ok (root s)" using assms(1) by (simp add: layout_wf_def)
  from ok assms(2) show ?thesis
  proof (cases rule: moveTabToPane_cases)
    case (1 l m)
    then have "l \<noteq> m" by auto
    note d = detachTab_ok [OF ok 1(1,2) root_not_leaf [OF ok 1(1,3) this]]
    note keep = detach_keeps_target [OF ok 1(1-4)]
    let ?r = "detachTab (root s) l t"
    have "t \<notin> set (panesTabs (collectLeaves ?r))"
      using d(1) by (simp add: panes_detach_tabs)
    then have "tree_ok (replaceNode ?r (leafId m) (Leaf (receive_tab t m)))"
      using tree_ok_distinct_tabs [OF d(2) keep(3)] keep(2)
      by (intro tree_update_leaf [OF d(2) keep(3)]) (auto simp: receive_tab_def leaf_ok_def)
    moreover have "leafId m \<in> set (leafIds (replaceNode ?r (leafId m) (Leaf (receive_tab t m))))"
      using leaves_in_replace [OF d(2) keep(3), of "receive_tab t m" "Leaf (receive_tab t m)"]
      by (simp add: receive_tab_def)
    ultimately show ?thesis using 1(6) by (simp add: layout_wf_def)
  qed
qed

end
