(* ===== verification/Split_Pane_Edits.thy ===== *)
theory Split_Pane_Edits
  imports Split_Pane_Correct
begin

text \<open>
  The remaining split-pane operations: adding and removing a tab, selecting, focusing,
  reordering, resizing, and the two splits that do not move a placed tab.
\<close>

section \<open>Updating one pane in place\<close>

lemma layout_wf_tree [simp]: "layout_wf s \<Longrightarrow> tree_ok (root s)"
  by (simp add: layout_wf_def)

text \<open>Three operations update one pane, found by its id, and make it the active one.\<close>

lemma update_pane_wf:
  assumes "layout_wf s" "l \<in> set (collectLeaves (root s))" "leafId l' = leafId l" "leaf_ok l'"
    "distinct (tabIds l')"
    "set (tabIds l') \<subseteq> set (tabIds l) \<union> - set (panesTabs (collectLeaves (root s)))"
  shows "layout_wf \<lparr>root = replaceNode (root s) (leafId l) (Leaf l'), activePaneId = leafId l\<rparr>"
proof -
  have ok: "tree_ok (root s)" using assms(1) by simp
  have "tree_ok (replaceNode (root s) (leafId l) (Leaf l'))"
    by (rule tree_update_leaf [OF ok assms(2-6)])
  with leaves_in_replace [OF ok assms(2), of l' "Leaf l'"] assms(3) show ?thesis
    by (simp add: layout_wf_def)
qed

section \<open>Adding a tab\<close>

lemma addTabToPane_eq:
  assumes "tree_ok (root s)" "l \<in> set (collectLeaves (root s))"
    "nullish p (activePaneId s) = leafId l"
  shows "addTabToPane s t p =
     Some \<lparr>root = replaceNode (root s) (leafId l) (Leaf (receive_tab t l)), activePaneId = leafId l\<rparr>"
  using assms(3) findLeaf_self [OF assms(1,2)] by (simp add: addTabToPane_def Let_def receive_tab_def)

lemma addTabToPane_None_iff:
  "addTabToPane s t p = None \<longleftrightarrow> nullish p (activePaneId s) \<notin> set (leafIds (root s))"
  by (auto simp: addTabToPane_def Let_def findLeaf_None split: option.split)
     (metis findLeaf_None image_eqI list.set_map option.distinct(1))

lemma addTabToPane_cases:
  assumes "tree_ok (root s)" "addTabToPane s t p = Some s'"
  obtains l where "l \<in> set (collectLeaves (root s))" "nullish p (activePaneId s) = leafId l"
    "s' = \<lparr>root = replaceNode (root s) (leafId l) (Leaf (receive_tab t l)), activePaneId = leafId l\<rparr>"
proof -
  have "nullish p (activePaneId s) \<in> set (leafIds (root s))"
    using addTabToPane_None_iff [of s t p] assms(2) by auto
  then obtain l where "l \<in> set (collectLeaves (root s))" "nullish p (activePaneId s) = leafId l"
    by auto
  with addTabToPane_eq [OF assms(1) this] assms(2) show thesis by (intro that) auto
qed

lemma addTabToPane_wf:
  assumes "layout_wf s" "t \<notin> set (panesTabs (collectLeaves (root s)))" "addTabToPane s t p = Some s'"
  shows "layout_wf s'"
proof -
  have ok: "tree_ok (root s)" using assms(1) by simp
  from ok assms(3) show ?thesis
  proof (cases rule: addTabToPane_cases)
    case (1 l)
    then show ?thesis
      using assms(2) tree_ok_distinct_tabs [OF ok 1(1)]
      by (auto intro!: update_pane_wf [OF assms(1) 1(1)]
               simp: receive_tab_def leaf_ok_def set_panesTabs)
  qed
qed

lemma addTabToPane_refines:
  assumes "tree_ok (root s)" "addTabToPane s t p = Some s'"
  shows "collectLeaves (root s') =
    panes_put (nullish p (activePaneId s)) (\<lambda>l. [receive_tab t l]) (collectLeaves (root s))"
  using assms
  by (cases rule: addTabToPane_cases) (simp add: leaves_replace_put(1) [OF assms(1), where g = "receive_tab t"])

section \<open>Selecting and focusing\<close>

lemma selectTabInPane_cases:
  assumes "tree_ok (root s)" "selectTabInPane s p t = Some s'"
  obtains l where "l \<in> set (collectLeaves (root s))" "p = leafId l" "t \<in> set (tabIds l)"
    "s' = \<lparr>root = replaceNode (root s) (leafId l) (Leaf (l\<lparr>leafSelected := t\<rparr>)), activePaneId = leafId l\<rparr>"
proof -
  from assms(2) obtain l where l: "findLeaf (root s) p = Some l" "t \<in> set (tabIds l)"
      "s' = \<lparr>root = replaceNode (root s) p (Leaf (l\<lparr>leafSelected := t\<rparr>)), activePaneId = p\<rparr>"
    by (auto simp: selectTabInPane_def split: option.splits if_splits)
  with findLeaf_Some [OF assms(1)] show thesis by (intro that) auto
qed

lemma selectTabInPane_wf:
  assumes "layout_wf s" "selectTabInPane s p t = Some s'"
  shows "layout_wf s'"
proof -
  have ok: "tree_ok (root s)" using assms(1) by simp
  from ok assms(2) show ?thesis
  proof (cases rule: selectTabInPane_cases)
    case (1 l)
    then show ?thesis
      using tree_ok_distinct_tabs [OF ok 1(1)]
      by (auto intro!: update_pane_wf [OF assms(1) 1(1)] simp: leaf_ok_def)
  qed
qed

lemma selectTabInPane_refines:
  assumes "tree_ok (root s)" "selectTabInPane s p t = Some s'"
  shows "collectLeaves (root s') = panes_put p (\<lambda>l. [l\<lparr>leafSelected := t\<rparr>]) (collectLeaves (root s))"
  using assms
  by (cases rule: selectTabInPane_cases)
     (simp add: leaves_replace_put(1) [OF assms(1), where g = "\<lambda>l. l\<lparr>leafSelected := t\<rparr>"])

lemma setActivePaneState_wf:
  assumes "layout_wf s" "setActivePaneState s p = Some s'"
  shows "layout_wf s'" "root s' = root s" "activePaneId s' = p"
proof -
  from assms(2) have p: "findLeaf (root s) p \<noteq> None" and s': "s' = s\<lparr>activePaneId := p\<rparr>"
    by (auto simp: setActivePaneState_def split: if_splits option.splits)
  with assms(1) show "layout_wf s'" "root s' = root s" "activePaneId s' = p"
    by (auto simp: layout_wf_def findLeaf_None)
qed

section \<open>Reordering inside a pane\<close>

definition reorder_list :: "string \<Rightarrow> string \<Rightarrow> DropPosition \<Rightarrow> string list \<Rightarrow> string list" where
  "reorder_list dragged target position ts =
     (let rest = filter (\<lambda>x. x \<noteq> dragged) ts; i = js_indexOf rest target in
      js_splice_insert (if position = Before then i else i + 1) dragged rest)"

lemma reorder_list_mset:
  assumes "distinct ts" "dragged \<in> set ts"
  shows "mset (reorder_list dragged target position ts) = mset ts"
proof -
  have "filter (\<lambda>x. x \<noteq> dragged) ts = remove1 dragged ts"
    using assms(1) by (simp add: distinct_remove1_removeAll removeAll_filter_not_eq) metis
  with assms(2) show ?thesis by (simp add: reorder_list_def Let_def)
qed

text \<open>The dragged tab ends up directly before or after the target; the others keep their order.\<close>

lemma reorder_list_adjacent:
  assumes "dragged \<noteq> target" "target \<in> set ts"
  shows "\<exists>ys zs. filter (\<lambda>x. x \<noteq> dragged) ts = ys @ target # zs \<and>
    reorder_list dragged target position ts =
      ys @ (if position = Before then [dragged, target] else [target, dragged]) @ zs"
proof -
  let ?rest = "filter (\<lambda>x. x \<noteq> dragged) ts"
  have "target \<in> set ?rest" using assms by simp
  from js_indexOf_split [OF this] obtain ys zs where
    r: "?rest = ys @ target # zs" "js_indexOf ?rest target = int (length ys)" by blast
  have "js_splice_insert (int (length ys)) dragged ?rest = ys @ dragged # target # zs"
    using r(1) js_splice_insert_at_length [of ys dragged "target # zs"] by simp
  moreover have "js_splice_insert (int (length ys) + 1) dragged ?rest = ys @ target # dragged # zs"
    using r(1) js_splice_insert_at_length [of "ys @ [target]" dragged zs] by (simp add: add.commute)
  ultimately show ?thesis using r by (auto simp: reorder_list_def Let_def)
qed

lemma reorderTabInPane_cases:
  assumes "tree_ok (root s)" "reorderTabInPane s p dragged target position = Some s'"
  obtains l where "l \<in> set (collectLeaves (root s))" "p = leafId l" "dragged \<noteq> target"
    "dragged \<in> set (tabIds l)" "target \<in> set (tabIds l)"
    "s' = \<lparr>root = replaceNode (root s) (leafId l)
             (Leaf (l\<lparr>tabIds := reorder_list dragged target position (tabIds l), leafSelected := dragged\<rparr>)),
           activePaneId = leafId l\<rparr>"
proof -
  from assms(2) obtain l where l: "findLeaf (root s) p = Some l" "dragged \<noteq> target"
      "dragged \<in> set (tabIds l)" "target \<in> set (tabIds l)"
      "s' = \<lparr>root = replaceNode (root s) p
             (Leaf (l\<lparr>tabIds := reorder_list dragged target position (tabIds l), leafSelected := dragged\<rparr>)),
           activePaneId = p\<rparr>"
    by (auto simp: reorderTabInPane_def reorder_list_def Let_def split: option.splits if_splits)
  with findLeaf_Some [OF assms(1)] show thesis by (intro that) auto
qed

lemma reorderTabInPane_wf:
  assumes "layout_wf s" "reorderTabInPane s p dragged target position = Some s'"
  shows "layout_wf s'"
proof -
  have ok: "tree_ok (root s)" using assms(1) by simp
  from ok assms(2) show ?thesis
  proof (cases rule: reorderTabInPane_cases)
    case (1 l)
    let ?ts = "reorder_list dragged target position (tabIds l)"
    have d: "distinct (tabIds l)" by (rule tree_ok_distinct_tabs [OF ok 1(1)])
    have m: "mset ?ts = mset (tabIds l)" by (rule reorder_list_mset [OF d 1(4)])
    have "set ?ts = set (tabIds l)" "distinct ?ts"
      using mset_eq_setD [OF m] mset_eq_imp_distinct_iff [OF m] d by simp_all
    then show ?thesis
      using 1 by (auto intro!: update_pane_wf [OF assms(1) 1(1)] simp: leaf_ok_def)
  qed
qed

lemma reorderTabInPane_refines:
  assumes "tree_ok (root s)" "reorderTabInPane s p dragged target position = Some s'"
  shows "collectLeaves (root s') =
    panes_put p (\<lambda>l. [l\<lparr>tabIds := reorder_list dragged target position (tabIds l),
                       leafSelected := dragged\<rparr>]) (collectLeaves (root s))"
  using assms
  by (cases rule: reorderTabInPane_cases)
     (simp add: leaves_replace_put(1) [OF assms(1), where g = "\<lambda>l. l\<lparr>tabIds :=
        reorder_list dragged target position (tabIds l), leafSelected := dragged\<rparr>"])

section \<open>Resizing a split\<close>

lemma clampRatio_ok: "ratio \<noteq> NaN \<Longrightarrow> ratio_ok (clampRatio ratio)"
  by (cases ratio) (auto simp: clampRatio_def js_max_def js_min_def min_ratio_def max_ratio_def)

lemma clampRatio_id: "ratio_ok ratio \<Longrightarrow> clampRatio ratio = ratio"
  by (cases ratio) (auto simp: clampRatio_def js_max_def js_min_def min_ratio_def max_ratio_def)

lemma updateBranch_shape:
  assumes "updateBranch b q r = Some r'"
  shows "nodeIds r' = nodeIds r \<and> collectLeaves r' = collectLeaves r \<and>
         set (splitRatios r') \<subseteq> insert q (set (splitRatios r)) \<and> b \<in> set (branchIds r)"
  using assms by (induction r arbitrary: r') (auto split: if_splits option.splits)

lemma setSplitRatio_shape:
  assumes "setSplitRatio s b q = Some s'"
  shows "collectLeaves (root s') = collectLeaves (root s)" "nodeIds (root s') = nodeIds (root s)"
    "activePaneId s' = activePaneId s" "b \<in> set (branchIds (root s))"
    "set (splitRatios (root s')) \<subseteq> insert (clampRatio q) (set (splitRatios (root s)))"
  using assms updateBranch_shape [of b "clampRatio q" "root s"]
  by (auto simp: setSplitRatio_def split: option.splits)

lemma setSplitRatio_wf:
  assumes "layout_wf s" "q \<noteq> NaN" "setSplitRatio s b q = Some s'"
  shows "layout_wf s'"
  using setSplitRatio_shape [OF assms(3)] assms(1) clampRatio_ok [OF assms(2)]
  by (auto simp: layout_wf_def tree_ok_def)

section \<open>Removing a tab\<close>

definition remove_panes :: "string \<Rightarrow> PaneLeaf list \<Rightarrow> PaneLeaf list" where
  "remove_panes t ls =
     (case ls of
        [l] \<Rightarrow> if filter (\<lambda>x. x \<noteq> t) (tabIds l) = [] then [l\<lparr>tabIds := [], leafSelected := []\<rparr>]
               else panes_detach neighbourSelection t ls
      | _ \<Rightarrow> panes_detach neighbourSelection t ls)"

lemma remove_panes_multi: "length ls \<noteq> 1 \<Longrightarrow> remove_panes t ls = panes_detach neighbourSelection t ls"
  by (cases ls rule: remdups_adj.cases) (auto simp: remove_panes_def)

lemma remove_panes_keep:
  assumes "l \<in> set ls" "filter (\<lambda>x. x \<noteq> t) (tabIds l) \<noteq> []"
  shows "remove_panes t ls = panes_detach neighbourSelection t ls"
  using assms by (cases ls rule: remdups_adj.cases) (auto simp: remove_panes_def)

lemma removeTabFromPane_None_iff:
  assumes "tree_ok (root s)"
  shows "removeTabFromPane s t = None \<longleftrightarrow> t \<notin> set (panesTabs (collectLeaves (root s)))"
proof (cases "findLeafByTabId (root s) t")
  case None
  then show ?thesis
    using findLeafByTabId_None [of "root s" t] by (simp add: removeTabFromPane_def)
next
  case (Some l)
  then have l: "l \<in> set (collectLeaves (root s))" by (simp add: findLeafByTabId_Some [OF assms])
  have "t \<in> set (panesTabs (collectLeaves (root s)))"
    using findLeafByTabId_None [of "root s" t] Some by auto
  with Some findParent_collapse [OF tree_okD(1) [OF assms], of "leafId l"] l show ?thesis
    by (auto simp: removeTabFromPane_def Let_def)
qed

text \<open>The three ways a tab is removed: from the only pane, with its pane, or beside other tabs.\<close>

lemma removeTabFromPane_cases:
  assumes "tree_ok (root s)" "removeTabFromPane s t = Some s'"
  obtains (last) l where "root s = Leaf l" "filter (\<lambda>x. x \<noteq> t) (tabIds l) = []"
      "s' = \<lparr>root = Leaf (l\<lparr>tabIds := [], leafSelected := []\<rparr>), activePaneId = leafId l\<rparr>"
    | (collapse) l where "l \<in> set (collectLeaves (root s))" "t \<in> set (tabIds l)"
      "filter (\<lambda>x. x \<noteq> t) (tabIds l) = []" "nodeId (root s) \<noteq> leafId l"
      "collapses (root s) (leafId l) (root s')"
      "activePaneId s' = (if activePaneId s = leafId l then leafId (hd (collectLeaves (root s')))
                          else activePaneId s)"
    | (keep) l remaining where "l \<in> set (collectLeaves (root s))" "t \<in> set (tabIds l)"
      "remaining = filter (\<lambda>x. x \<noteq> t) (tabIds l)" "remaining \<noteq> []"
      "s' = \<lparr>root = replaceNode (root s) (leafId l) (Leaf (l\<lparr>tabIds := remaining,
               leafSelected := neighbourSelection l t remaining\<rparr>)), activePaneId = activePaneId s\<rparr>"
proof -
  obtain l where fl: "findLeafByTabId (root s) t = Some l"
    using assms(2) by (cases "findLeafByTabId (root s) t") (auto simp: removeTabFromPane_def)
  then have l: "l \<in> set (collectLeaves (root s))" "t \<in> set (tabIds l)"
    by (simp_all add: findLeafByTabId_Some [OF assms(1)])
  let ?rem = "filter (\<lambda>x. x \<noteq> t) (tabIds l)"
  consider (a) "?rem \<noteq> []" | (b) "?rem = []" "nodeId (root s) = leafId l"
    | (c) "?rem = []" "nodeId (root s) \<noteq> leafId l" by blast
  then show thesis
  proof cases
    case a
    with fl l assms(2) show thesis by (intro keep) (auto simp: removeTabFromPane_def Let_def)
  next
    case b
    then obtain k where "root s = Leaf k"
      using leaf_id_node [OF tree_okD(1) [OF assms(1)], of "leafId l"] l(1) by auto
    with b fl l assms(2) show thesis by (intro last) (auto simp: removeTabFromPane_def Let_def)
  next
    case c
    from findParent_collapse [OF tree_okD(1) [OF assms(1)] _ c(2)] l(1) obtain p sib where
      "findParent (root s) (leafId l) = Some p" "getSibling p (leafId l) = Some sib"
      "collapses (root s) (leafId l) (replaceNode (root s) (nodeId p) sib)"
      by auto
    with c fl l assms(2) show thesis
      by (intro collapse) (auto simp: removeTabFromPane_def Let_def js_at_def hd_conv_nth)
  qed
qed

lemma removeTabFromPane_refines:
  assumes "tree_ok (root s)" "removeTabFromPane s t = Some s'"
  shows "collectLeaves (root s') = remove_panes t (collectLeaves (root s)) \<and> tree_ok (root s')"
  using assms
proof (cases rule: removeTabFromPane_cases)
  case (last l)
  then show ?thesis
    by (simp add: remove_panes_def tree_ok_def panes_ok_def leaf_ok_def)
next
  case (collapse l)
  have "length (collectLeaves (root s)) \<noteq> 1"
  proof
    assume "length (collectLeaves (root s)) = 1"
    from single_leaf [OF this] obtain k where "root s = Leaf k" by blast
    with collapse(1,4) show False by simp
  qed
  with remove_panes_multi
    collapse_detaches [OF assms(1) collapse(1-3,5) neighbourSelection_rule]
  show ?thesis by simp
next
  case (keep l remaining)
  with update_detaches [OF assms(1) keep(1,2) neighbourSelection_rule keep(3,4) refl]
    remove_panes_keep [OF keep(1), of t]
  show ?thesis by simp
qed

lemma removeTabFromPane_wf:
  assumes "layout_wf s" "removeTabFromPane s t = Some s'"
  shows "layout_wf s'"
proof -
  have ok: "tree_ok (root s)" and act: "activePaneId s \<in> set (leafIds (root s))"
    using assms(1) by (simp_all add: layout_wf_def)
  have ok': "tree_ok (root s')" using removeTabFromPane_refines [OF ok assms(2)] by simp
  from ok assms(2) have "activePaneId s' \<in> set (leafIds (root s'))"
  proof (cases rule: removeTabFromPane_cases)
    case (last l)
    then show ?thesis by simp
  next
    case (collapse l)
    then show ?thesis
      using act hd_in_set [OF collectLeaves_nonempty, of "root s'"] by (auto simp: collapses_def)
  next
    case (keep l remaining)
    let ?l = "l\<lparr>tabIds := remaining, leafSelected := neighbourSelection l t remaining\<rparr>"
    obtain xs ys where ctx: "collectLeaves (root s) = xs @ l # ys"
        "leafId l \<notin> leafId ` set xs" "leafId l \<notin> leafId ` set ys"
      using panes_context [OF tree_okD(3) [OF ok] keep(1)] by blast
    have "collectLeaves (root s') = xs @ ?l # ys"
      using leaves_replaceNode [OF tree_okD(1) [OF ok] keep(1), of "Leaf ?l"]
        panes_put_context [OF ctx, of "\<lambda>_. [?l]"] keep(5)
      by simp
    with act keep(5) ctx(1) show ?thesis by auto
  qed
  with ok' show ?thesis by (simp add: layout_wf_def)
qed

section \<open>Panes beside an existing one\<close>

lemma createAdjacentPaneWithTab_None_iff:
  "createAdjacentPaneWithTab s i = None \<longleftrightarrow>
     splitTargetPaneId i \<notin> set (leafIds (root s)) \<or>
     splitTabId i \<in> set (panesTabs (collectLeaves (root s)))"
  using findLeaf_None [of "root s" "splitTargetPaneId i"]
    findLeafByTabId_None [of "root s" "splitTabId i"]
  by (auto simp: createAdjacentPaneWithTab_def Let_def split: option.split)

lemma createAdjacentPaneWithTab_cases:
  assumes "tree_ok (root s)" "createAdjacentPaneWithTab s i = Some s'"
  obtains l where "l \<in> set (collectLeaves (root s))" "leafId l = splitTargetPaneId i"
    "splitTabId i \<notin> set (panesTabs (collectLeaves (root s)))"
    "s' = \<lparr>root = replaceNode (root s) (leafId l)
             (newSplit (splitDirection i) (splitPlacement i) (splitNewBranchId i)
                (createLeaf (splitNewPaneId i) [splitTabId i] (Some (splitTabId i))) l),
           activePaneId = splitNewPaneId i\<rparr>"
proof -
  have "splitTabId i \<notin> set (panesTabs (collectLeaves (root s)))"
    using createAdjacentPaneWithTab_None_iff [of s i] assms(2) by auto
  moreover from assms(2) obtain l where l: "findLeaf (root s) (splitTargetPaneId i) = Some l"
    "s' = \<lparr>root = replaceNode (root s) (leafId l)
             (newSplit (splitDirection i) (splitPlacement i) (splitNewBranchId i)
                (createLeaf (splitNewPaneId i) [splitTabId i] (Some (splitTabId i))) l),
           activePaneId = splitNewPaneId i\<rparr>"
    by (auto simp: createAdjacentPaneWithTab_def Let_def split: option.splits if_splits)
  ultimately show thesis using findLeaf_Some [OF assms(1)] by (intro that) auto
qed

lemma createAdjacentPaneWithTab_wf:
  assumes "layout_wf s" "fresh_split s (splitNewPaneId i) (splitNewBranchId i)"
    "createAdjacentPaneWithTab s i = Some s'"
  shows "layout_wf s'"
proof -
  have ok: "tree_ok (root s)" using assms(1) by simp
  from ok assms(3) show ?thesis
  proof (cases rule: createAdjacentPaneWithTab_cases)
    case (1 l)
    let ?new = "createLeaf (splitNewPaneId i) [splitTabId i] (Some (splitTabId i))"
    have "tree_ok (replaceNode (root s) (leafId l)
        (newSplit (splitDirection i) (splitPlacement i) (splitNewBranchId i) ?new l))"
      using assms(2) 1(1,3) tree_okD(5) [OF ok 1(1)] tree_ok_distinct_tabs [OF ok 1(1)]
      by (intro tree_split_leaf [OF ok 1(1)]) (auto simp: fresh_split_def set_panesTabs)
    with leaves_in_replace [OF ok 1(1) new_in_newSplit, of ?new] 1(4) show ?thesis
      by (simp add: layout_wf_def)
  qed
qed

lemma createAdjacentPaneWithTab_refines:
  assumes "tree_ok (root s)" "createAdjacentPaneWithTab s i = Some s'"
  shows "collectLeaves (root s') =
    panes_put (splitTargetPaneId i)
      (beside (splitPlacement i) (createLeaf (splitNewPaneId i) [splitTabId i] (Some (splitTabId i))))
      (collectLeaves (root s))"
  using assms
proof (cases rule: createAdjacentPaneWithTab_cases)
  case (1 l)
  then show ?thesis using leaves_replace_put(2) [OF assms(1) 1(1)] by simp
qed

lemma splitRootPane_wf:
  assumes "layout_wf s" "fresh_split s n b" "splitRootPane s d n b = Some s'"
  shows "layout_wf s'"
  using assms
  by (auto simp: splitRootPane_def layout_wf_def tree_ok_def panes_ok_def leaf_ok_def fresh_split_def
           split: SplitPaneNode.splits)

section \<open>The opposite pane\<close>

lemma isPaneInSubtree_conv: "isPaneInSubtree r p \<longleftrightarrow> p \<in> set (nodeIds r)"
  by (induction r) auto

lemma firstLeafId_conv: "firstLeafId r = Some (leafId (hd (collectLeaves r)))"
  by (cases r) (simp_all add: js_at_0)

text \<open>The opposite pane of an existing pane is an existing, different pane, across the root split.\<close>

lemma findOppositePaneId_sound:
  assumes "distinct (nodeIds r)" "findOppositePaneId r p = Some q"
  shows "q \<in> set (leafIds r) \<and> q \<noteq> p \<and>
    (\<exists>i d x a b. r = Branch i d x a b \<and>
       (p \<in> set (nodeIds a) \<and> q \<in> set (leafIds b) \<or> p \<in> set (nodeIds b) \<and> q \<in> set (leafIds a)))"
proof (cases r)
  case (Leaf l)
  with assms(2) show ?thesis by simp
next
  case (Branch i d x a b)
  have hd: "leafId (hd (collectLeaves n)) \<in> set (nodeIds n)" for n by (simp add: set_nodeIds)
  have dis: "set (nodeIds a) \<inter> set (nodeIds b) = {}" using assms(1) Branch by auto
  show ?thesis
  proof (cases "p \<in> set (nodeIds a)")
    case True
    then have q: "q = leafId (hd (collectLeaves b))"
      using assms(2) Branch by (simp add: isPaneInSubtree_conv firstLeafId_conv)
    have "q \<noteq> p" using True dis hd [of b] q by blast
    with True q Branch show ?thesis by simp
  next
    case False
    then have p: "p \<in> set (nodeIds b)" and q: "q = leafId (hd (collectLeaves a))"
      using assms(2) Branch by (simp_all add: isPaneInSubtree_conv firstLeafId_conv split: if_splits)
    have "q \<noteq> p" using p dis hd [of a] q by blast
    with p q Branch show ?thesis by simp
  qed
qed

lemma findOppositePaneId_None_iff:
  "findOppositePaneId r p = None \<longleftrightarrow>
     (case r of Leaf _ \<Rightarrow> True | Branch i d x a b \<Rightarrow> p \<notin> set (nodeIds a) \<and> p \<notin> set (nodeIds b))"
  by (cases r) (auto simp: isPaneInSubtree_conv firstLeafId_conv)

section \<open>Conservation of tabs\<close>

lemma panes_put_tabs:
  assumes "tree_ok r" "m \<in> set (collectLeaves r)"
  shows "mset (panesTabs (panes_put (leafId m) f (collectLeaves r))) + mset (tabIds m) =
         mset (panesTabs (collectLeaves r)) + mset (panesTabs (f m))"
proof -
  obtain xs ys where ctx: "collectLeaves r = xs @ m # ys"
      "leafId m \<notin> leafId ` set xs" "leafId m \<notin> leafId ` set ys"
    using panes_context [OF tree_okD(3) [OF assms(1)] assms(2)] by blast
  show ?thesis using panes_put_context [OF ctx] ctx(1) by simp
qed

lemma panes_put_same_tabs:
  assumes "tree_ok r" "m \<in> set (collectLeaves r)" "mset (panesTabs (f m)) = mset (tabIds m)"
  shows "mset (panesTabs (panes_put (leafId m) f (collectLeaves r))) = mset (panesTabs (collectLeaves r))"
  using panes_put_tabs [OF assms(1,2), of f] assms(3) by simp

lemma panes_put_more_tabs:
  assumes "tree_ok r" "m \<in> set (collectLeaves r)" "mset (panesTabs (f m)) = add_mset t (mset (tabIds m))"
  shows "mset (panesTabs (panes_put (leafId m) f (collectLeaves r))) =
         add_mset t (mset (panesTabs (collectLeaves r)))"
  using panes_put_tabs [OF assms(1,2), of f] assms(3) by simp

lemma receive_tab_tabs: "mset (panesTabs [receive_tab t l]) = add_mset t (mset (tabIds l))"
  by (simp add: receive_tab_def)

lemma beside_tabs: "mset (panesTabs (beside pl n m)) = mset (tabIds n) + mset (tabIds m)"
  by (simp add: beside_def)

lemma splitPaneWithTab_tabs:
  assumes "tree_ok (root s)" "splitPaneWithTab s i = Some s'"
  shows "mset (panesTabs (collectLeaves (root s'))) = mset (panesTabs (collectLeaves (root s)))"
  using assms
proof (cases rule: splitPaneWithTab_cases)
  case (same l)
  let ?rem = "filter (\<lambda>x. x \<noteq> splitTabId i) (tabIds l)"
  let ?l = "l\<lparr>tabIds := ?rem, leafSelected := neighbourSelection l (splitTabId i) ?rem\<rparr>"
  let ?new = "createLeaf (splitNewPaneId i) [splitTabId i] (Some (splitTabId i))"
  have eq: "add_mset (splitTabId i) (mset ?rem) = mset (tabIds l)"
    by (rule filter_mset_distinct [OF tree_ok_distinct_tabs [OF assms(1) same(1)] same(2)])
  have "root s' = replaceNode (root s) (leafId l)
      (newSplit (splitDirection i) (splitPlacement i) (splitNewBranchId i) ?new ?l)"
    using splitPaneWithTab_same [OF assms(1) same(1-3)] assms(2) same(4) by (auto simp: Let_def)
  with leaves_replaceNode [OF tree_okD(1) [OF assms(1)] same(1)]
    panes_put_same_tabs [OF assms(1) same(1), of "\<lambda>_. beside (splitPlacement i) ?new ?l"] eq
  show ?thesis by (simp add: beside_tabs)
next
  case (cross l m)
  then have "l \<noteq> m" by auto
  note d = detachTab_ok [OF assms(1) cross(1,2) root_not_leaf [OF assms(1) cross(1,3) this]]
  note keep = detach_keeps_target [OF assms(1) cross(1-3,5)]
  have "splitTabId i \<in> set (panesTabs (collectLeaves (root s)))"
    using cross(1,2) by (auto simp: set_panesTabs)
  note split = filter_mset_distinct [OF tree_okD(4) [OF assms(1)] this]
  have "root s' = replaceNode (detachTab (root s) l (splitTabId i)) (leafId m)
      (newSplit (splitDirection i) (splitPlacement i) (splitNewBranchId i)
         (createLeaf (splitNewPaneId i) [splitTabId i] (Some (splitTabId i))) m)"
    using splitPaneWithTab_cross [OF assms(1) cross] assms(2) by auto
  with leaves_replace_put(2) [OF d(2) keep(3)] d(1) split
    panes_put_more_tabs [OF d(2) keep(3), of "beside (splitPlacement i)
      (createLeaf (splitNewPaneId i) [splitTabId i] (Some (splitTabId i)))" "splitTabId i"]
  show ?thesis by (simp add: beside_tabs panes_detach_tabs)
qed

lemma moveTabToPane_tabs:
  assumes "tree_ok (root s)" "moveTabToPane s t p = Some s'"
  shows "mset (panesTabs (collectLeaves (root s'))) = mset (panesTabs (collectLeaves (root s)))"
  using assms
proof (cases rule: moveTabToPane_cases)
  case (1 l m)
  then have "l \<noteq> m" by auto
  note d = detachTab_ok [OF assms(1) 1(1,2) root_not_leaf [OF assms(1) 1(1,3) this]]
  note keep = detach_keeps_target [OF assms(1) 1(1-4)]
  have "t \<in> set (panesTabs (collectLeaves (root s)))" using 1(1,2) by (auto simp: set_panesTabs)
  from filter_mset_distinct [OF tree_okD(4) [OF assms(1)] this] show ?thesis
    using 1(6) d(1) leaves_replace_put(1) [OF d(2) keep(3), of "receive_tab t"]
      panes_put_more_tabs [OF d(2) keep(3), of "\<lambda>l. [receive_tab t l]" t] receive_tab_tabs
    by (simp add: panes_detach_tabs)
qed

lemma removeTabFromPane_tabs:
  assumes "tree_ok (root s)" "removeTabFromPane s t = Some s'"
  shows "panesTabs (collectLeaves (root s')) = filter (\<lambda>x. x \<noteq> t) (panesTabs (collectLeaves (root s)))"
proof -
  have "panesTabs (remove_panes t ls) = filter (\<lambda>x. x \<noteq> t) (panesTabs ls)" for ls
    by (cases ls rule: remdups_adj.cases) (auto simp: remove_panes_def panes_detach_tabs Let_def)
  with removeTabFromPane_refines [OF assms] show ?thesis by simp
qed

end
