(* ===== verification/Split_Pane_Store.thy ===== *)
theory Split_Pane_Store
  imports Split_Pane_Edits
begin

text \<open>
  The per-workspace layout store (\<open>workbench/state/splitPaneStore.ts\<close>) and the pane selectors
  (\<open>workbench/state/workbenchSelectors.ts\<close>). A store action runs one pure operation on the layout
  of one workspace, creating an empty layout first when there is none, and writes the result
  back only if the operation did not decline. Identifiers of new panes come from
  \<open>generateId()\<close>, the standard random UUID: the drawn value is an argument of the actions that
  draw one, and freshness is a guard of the corresponding step.
\<close>

section \<open>State and actions\<close>

record SplitPaneStoreState =
  layoutByWorkspaceId :: "string \<rightharpoonup> SplitPaneStateSlice"

definition ROOT_PANE_ID :: string where
  "ROOT_PANE_ID = ''root-pane''"

definition createPaneId :: "string \<Rightarrow> string" where
  "createPaneId uuid = ''pane-'' @ uuid"

definition createEmptyLayout :: SplitPaneStateSlice where
  "createEmptyLayout =
     \<lparr>root = Leaf (createLeaf ROOT_PANE_ID [] (Some [])), activePaneId = ROOT_PANE_ID\<rparr>"

definition emptySplitPaneStore :: SplitPaneStoreState where
  "emptySplitPaneStore = \<lparr>layoutByWorkspaceId = (\<lambda>_. None)\<rparr>"

text \<open>The layouts after the call, and the layout of the workspace.\<close>

definition ensureLayout ::
  "(string \<rightharpoonup> SplitPaneStateSlice) \<Rightarrow> string \<Rightarrow> (string \<rightharpoonup> SplitPaneStateSlice) \<times> SplitPaneStateSlice" where
  "ensureLayout layouts workspaceId =
     (case layouts workspaceId of
        None \<Rightarrow> (layouts(workspaceId \<mapsto> createEmptyLayout), createEmptyLayout)
      | Some layout \<Rightarrow> (layouts, layout))"

subsection \<open>Queries\<close>

definition getLayout :: "SplitPaneStoreState \<Rightarrow> string \<Rightarrow> SplitPaneStateSlice" where
  "getLayout st workspaceId = nullish (layoutByWorkspaceId st workspaceId) createEmptyLayout"

definition getActivePane :: "SplitPaneStoreState \<Rightarrow> string \<Rightarrow> PaneLeaf option" where
  "getActivePane st workspaceId =
     (case layoutByWorkspaceId st workspaceId of
        None \<Rightarrow> None
      | Some layout \<Rightarrow> findLeaf (root layout) (activePaneId layout))"

definition getPane :: "SplitPaneStoreState \<Rightarrow> string \<Rightarrow> string \<Rightarrow> PaneLeaf option" where
  "getPane st workspaceId paneId =
     (case layoutByWorkspaceId st workspaceId of
        None \<Rightarrow> None
      | Some layout \<Rightarrow> findLeaf (root layout) paneId)"

definition getPaneForTab :: "SplitPaneStoreState \<Rightarrow> string \<Rightarrow> string \<Rightarrow> PaneLeaf option" where
  "getPaneForTab st workspaceId tabId =
     (case layoutByWorkspaceId st workspaceId of
        None \<Rightarrow> None
      | Some layout \<Rightarrow> findLeafByTabId (root layout) tabId)"

definition getAllPanes :: "SplitPaneStoreState \<Rightarrow> string \<Rightarrow> PaneLeaf list" where
  "getAllPanes st workspaceId =
     (case layoutByWorkspaceId st workspaceId of
        None \<Rightarrow> []
      | Some layout \<Rightarrow> collectLeaves (root layout))"

subsection \<open>Selectors\<close>

definition selectLayoutByWorkspaceId ::
  "SplitPaneStoreState \<Rightarrow> string \<Rightarrow> SplitPaneStateSlice option" where
  "selectLayoutByWorkspaceId st workspaceId = layoutByWorkspaceId st workspaceId"

definition selectActivePane :: "SplitPaneStoreState \<Rightarrow> string \<Rightarrow> PaneLeaf option" where
  "selectActivePane st workspaceId =
     (case layoutByWorkspaceId st workspaceId of
        Some layout \<Rightarrow> findLeaf (root layout) (activePaneId layout)
      | None \<Rightarrow> None)"

definition selectPane :: "SplitPaneStoreState \<Rightarrow> string \<Rightarrow> string \<Rightarrow> PaneLeaf option" where
  "selectPane st workspaceId paneId =
     (case layoutByWorkspaceId st workspaceId of
        Some layout \<Rightarrow> findLeaf (root layout) paneId
      | None \<Rightarrow> None)"

definition selectPaneForTab :: "SplitPaneStoreState \<Rightarrow> string \<Rightarrow> string \<Rightarrow> PaneLeaf option" where
  "selectPaneForTab st workspaceId tabId =
     (case layoutByWorkspaceId st workspaceId of
        Some layout \<Rightarrow> findLeafByTabId (root layout) tabId
      | None \<Rightarrow> None)"

subsection \<open>Mutations\<close>

text \<open>
  Every mutation starts with \<open>ensureLayout\<close> and then assigns fields of that layout in place;
  \<open>assign\<close> stands for the assignments.
\<close>

definition withLayout ::
  "string \<Rightarrow> (SplitPaneStateSlice \<Rightarrow> SplitPaneStateSlice) \<Rightarrow> SplitPaneStoreState \<Rightarrow> SplitPaneStoreState" where
  "withLayout workspaceId assign st =
     (let (layouts, layout) = ensureLayout (layoutByWorkspaceId st) workspaceId
      in st\<lparr>layoutByWorkspaceId := layouts(workspaceId \<mapsto> assign layout)\<rparr>)"

text \<open>\<open>if (next) { layout.root = next.root; layout.activePaneId = next.activePaneId }\<close>\<close>

definition assignNext ::
  "SplitPaneStateSlice option \<Rightarrow> SplitPaneStateSlice \<Rightarrow> SplitPaneStateSlice" where
  "assignNext nxt layout =
     (case nxt of
        None \<Rightarrow> layout
      | Some n \<Rightarrow> layout\<lparr>root := root n, activePaneId := activePaneId n\<rparr>)"

definition paneStore_setActivePane ::
  "string \<Rightarrow> string \<Rightarrow> SplitPaneStoreState \<Rightarrow> SplitPaneStoreState" where
  "paneStore_setActivePane workspaceId paneId =
     withLayout workspaceId (\<lambda>layout.
       case setActivePaneState layout paneId of
         None \<Rightarrow> layout
       | Some n \<Rightarrow> layout\<lparr>activePaneId := activePaneId n\<rparr>)"

definition paneStore_selectTab ::
  "string \<Rightarrow> string \<Rightarrow> string \<Rightarrow> SplitPaneStoreState \<Rightarrow> SplitPaneStoreState" where
  "paneStore_selectTab workspaceId paneId tabId =
     withLayout workspaceId (\<lambda>layout. assignNext (selectTabInPane layout paneId tabId) layout)"

definition paneStore_registerTabInPane ::
  "string \<Rightarrow> string \<Rightarrow> string option \<Rightarrow> SplitPaneStoreState \<Rightarrow> SplitPaneStoreState" where
  "paneStore_registerTabInPane workspaceId tabId paneId =
     withLayout workspaceId (\<lambda>layout. assignNext (addTabToPane layout tabId paneId) layout)"

definition paneStore_unregisterTabFromPane ::
  "string \<Rightarrow> string \<Rightarrow> SplitPaneStoreState \<Rightarrow> SplitPaneStoreState" where
  "paneStore_unregisterTabFromPane workspaceId tabId =
     withLayout workspaceId (\<lambda>layout. assignNext (removeTabFromPane layout tabId) layout)"

text \<open>
  The two splits draw the pane id and then the branch id; \<open>uuid1\<close> and \<open>uuid2\<close> are the drawn values.
\<close>

definition splitInput ::
  "string \<Rightarrow> string \<Rightarrow> SplitDirection \<Rightarrow> Placement \<Rightarrow> string \<Rightarrow> string \<Rightarrow> SplitInput" where
  "splitInput tabId targetPaneId direction placement uuid1 uuid2 =
     \<lparr>splitTabId = tabId, splitTargetPaneId = targetPaneId, splitDirection = direction,
      splitPlacement = placement, splitNewPaneId = createPaneId uuid1,
      splitNewBranchId = createPaneId uuid2\<rparr>"

definition paneStore_createAdjacentPaneWithTab ::
  "string \<Rightarrow> string \<Rightarrow> string \<Rightarrow> SplitDirection \<Rightarrow> Placement \<Rightarrow> string \<Rightarrow> string \<Rightarrow>
   SplitPaneStoreState \<Rightarrow> SplitPaneStoreState" where
  "paneStore_createAdjacentPaneWithTab workspaceId tabId targetPaneId direction placement uuid1 uuid2 =
     withLayout workspaceId (\<lambda>layout. assignNext
       (createAdjacentPaneWithTab layout
          (splitInput tabId targetPaneId direction placement uuid1 uuid2)) layout)"

definition paneStore_splitPane ::
  "string \<Rightarrow> string \<Rightarrow> string \<Rightarrow> SplitDirection \<Rightarrow> Placement \<Rightarrow> string \<Rightarrow> string \<Rightarrow>
   SplitPaneStoreState \<Rightarrow> SplitPaneStoreState" where
  "paneStore_splitPane workspaceId tabId targetPaneId direction placement uuid1 uuid2 =
     withLayout workspaceId (\<lambda>layout. assignNext
       (splitPaneWithTab layout
          (splitInput tabId targetPaneId direction placement uuid1 uuid2)) layout)"

definition paneStore_moveTab ::
  "string \<Rightarrow> string \<Rightarrow> string \<Rightarrow> SplitPaneStoreState \<Rightarrow> SplitPaneStoreState" where
  "paneStore_moveTab workspaceId tabId targetPaneId =
     withLayout workspaceId (\<lambda>layout. assignNext (moveTabToPane layout tabId targetPaneId) layout)"

definition paneStore_reorderTab ::
  "string \<Rightarrow> string \<Rightarrow> string \<Rightarrow> string \<Rightarrow> DropPosition \<Rightarrow> SplitPaneStoreState \<Rightarrow> SplitPaneStoreState" where
  "paneStore_reorderTab workspaceId paneId draggedTabId targetTabId position =
     withLayout workspaceId (\<lambda>layout. assignNext
       (reorderTabInPane layout paneId draggedTabId targetTabId position) layout)"

definition paneStore_updateSplitRatio ::
  "string \<Rightarrow> string \<Rightarrow> js_number \<Rightarrow> SplitPaneStoreState \<Rightarrow> SplitPaneStoreState" where
  "paneStore_updateSplitRatio workspaceId branchId ratio =
     withLayout workspaceId (\<lambda>layout.
       case setSplitRatio layout branchId ratio of
         None \<Rightarrow> layout
       | Some n \<Rightarrow> layout\<lparr>root := root n\<rparr>)"

section \<open>The invariant of the store\<close>

definition pane_store_wf :: "SplitPaneStoreState \<Rightarrow> bool" where
  "pane_store_wf st \<longleftrightarrow> (\<forall>w l. layoutByWorkspaceId st w = Some l \<longrightarrow> layout_wf l)"

lemma createEmptyLayout_wf [simp]: "layout_wf createEmptyLayout"
  by (simp add: createEmptyLayout_def layout_wf_def tree_ok_def panes_ok_def leaf_ok_def)

lemma pane_store_wf_empty [simp]: "pane_store_wf emptySplitPaneStore"
  by (simp add: pane_store_wf_def emptySplitPaneStore_def)

lemma getLayout_wf: "pane_store_wf st \<Longrightarrow> layout_wf (getLayout st w)"
  by (cases "layoutByWorkspaceId st w") (auto simp: getLayout_def pane_store_wf_def)

lemma withLayout_conv:
  "layoutByWorkspaceId (withLayout w f st) = (layoutByWorkspaceId st)(w \<mapsto> f (getLayout st w))"
  by (auto simp: withLayout_def ensureLayout_def getLayout_def split: option.split)

lemma withLayout_wf:
  assumes "pane_store_wf st" "layout_wf (f (getLayout st w))"
  shows "pane_store_wf (withLayout w f st)"
  using assms by (auto simp: pane_store_wf_def withLayout_conv)

lemma withLayout_frame:
  "w' \<noteq> w \<Longrightarrow> layoutByWorkspaceId (withLayout w f st) w' = layoutByWorkspaceId st w'"
  by (simp add: withLayout_conv)

lemma assignNext_simps [simp]:
  "assignNext None l = l"
  "assignNext (Some n) l = n"
  by (simp_all add: assignNext_def)

text \<open>
  A layout operation that keeps the layout invariant where its guard holds; the store action
  built from it keeps the store invariant.
\<close>

locale layout_operation = partial_update guard layout_wf upd
  for guard :: "SplitPaneStateSlice \<Rightarrow> bool" and upd :: "SplitPaneStateSlice \<Rightarrow> SplitPaneStateSlice option"
begin

lemma assignNext_wf: "layout_wf l \<Longrightarrow> guard l \<Longrightarrow> layout_wf (assignNext (upd l) l)"
  by (cases "upd l") (simp_all add: upd_inv)

lemma action_wf:
  assumes "pane_store_wf st" "guard (getLayout st w)"
  shows "pane_store_wf (withLayout w (\<lambda>l. assignNext (upd l) l) st)"
  using assms by (intro withLayout_wf assignNext_wf getLayout_wf)

end

interpretation select_op: layout_operation "\<lambda>_. True" "\<lambda>l. selectTabInPane l p t" for p t
  by unfold_locales (blast intro: selectTabInPane_wf)

interpretation add_op: layout_operation
  "\<lambda>l. t \<notin> set (panesTabs (collectLeaves (root l)))" "\<lambda>l. addTabToPane l t p" for t p
  by unfold_locales (blast intro: addTabToPane_wf)

interpretation remove_op: layout_operation "\<lambda>_. True" "\<lambda>l. removeTabFromPane l t" for t
  by unfold_locales (blast intro: removeTabFromPane_wf)

interpretation adjacent_op: layout_operation
  "\<lambda>l. fresh_split l (splitNewPaneId i) (splitNewBranchId i)" "\<lambda>l. createAdjacentPaneWithTab l i" for i
  by unfold_locales (blast intro: createAdjacentPaneWithTab_wf)

interpretation split_op: layout_operation
  "\<lambda>l. fresh_split l (splitNewPaneId i) (splitNewBranchId i)" "\<lambda>l. splitPaneWithTab l i" for i
  by unfold_locales (blast intro: splitPaneWithTab_wf)

interpretation move_op: layout_operation "\<lambda>_. True" "\<lambda>l. moveTabToPane l t p" for t p
  by unfold_locales (blast intro: moveTabToPane_wf)

interpretation reorder_op: layout_operation "\<lambda>_. True" "\<lambda>l. reorderTabInPane l p t t' pos" for p t t' pos
  by unfold_locales (blast intro: reorderTabInPane_wf)

interpretation root_op: layout_operation "\<lambda>l. fresh_split l n b" "\<lambda>l. splitRootPane l d n b" for d n b
  by unfold_locales (blast intro: splitRootPane_wf)

lemma setActivePane_wf:
  assumes "pane_store_wf st"
  shows "pane_store_wf (paneStore_setActivePane w p st)"
  unfolding paneStore_setActivePane_def
proof (rule withLayout_wf [OF assms])
  let ?l = "getLayout st w"
  have l: "layout_wf ?l" by (rule getLayout_wf [OF assms])
  show "layout_wf (case setActivePaneState ?l p of None \<Rightarrow> ?l
      | Some n \<Rightarrow> ?l\<lparr>activePaneId := activePaneId n\<rparr>)"
  proof (cases "setActivePaneState ?l p")
    case (Some n)
    then have "?l\<lparr>activePaneId := activePaneId n\<rparr> = n"
      by (auto simp: setActivePaneState_def split: option.splits if_splits)
    with setActivePaneState_wf(1) [OF l Some] Some show ?thesis by (simp only: option.case)
  qed (simp add: l)
qed

lemma updateSplitRatio_wf:
  assumes "pane_store_wf st" "q \<noteq> NaN"
  shows "pane_store_wf (paneStore_updateSplitRatio w b q st)"
  unfolding paneStore_updateSplitRatio_def
proof (rule withLayout_wf [OF assms(1)])
  let ?l = "getLayout st w"
  have l: "layout_wf ?l" by (rule getLayout_wf [OF assms(1)])
  show "layout_wf (case setSplitRatio ?l b q of None \<Rightarrow> ?l | Some n \<Rightarrow> ?l\<lparr>root := root n\<rparr>)"
  proof (cases "setSplitRatio ?l b q")
    case (Some n)
    then have "?l\<lparr>root := root n\<rparr> = n"
      by (auto simp: setSplitRatio_def split: option.splits if_splits)
    with l Some assms(2) show ?thesis by (simp add: setSplitRatio_wf)
  qed (simp add: l)
qed

section \<open>Runs of the store\<close>

definition fresh_uuids :: "SplitPaneStoreState \<Rightarrow> string \<Rightarrow> string \<Rightarrow> string \<Rightarrow> bool" where
  "fresh_uuids st w uuid1 uuid2 \<longleftrightarrow> fresh_split (getLayout st w) (createPaneId uuid1) (createPaneId uuid2)"

inductive pane_store_step :: "SplitPaneStoreState \<Rightarrow> SplitPaneStoreState \<Rightarrow> bool" where
  set_active: "pane_store_step st (paneStore_setActivePane w p st)"
| select_tab: "pane_store_step st (paneStore_selectTab w p t st)"
| register: "t \<notin> set (panesTabs (collectLeaves (root (getLayout st w)))) \<Longrightarrow>
     pane_store_step st (paneStore_registerTabInPane w t p st)"
| unregister: "pane_store_step st (paneStore_unregisterTabFromPane w t st)"
| adjacent: "fresh_uuids st w u1 u2 \<Longrightarrow>
     pane_store_step st (paneStore_createAdjacentPaneWithTab w t p d pl u1 u2 st)"
| split: "fresh_uuids st w u1 u2 \<Longrightarrow> pane_store_step st (paneStore_splitPane w t p d pl u1 u2 st)"
| move: "pane_store_step st (paneStore_moveTab w t p st)"
| reorder: "pane_store_step st (paneStore_reorderTab w p t t' pos st)"
| ratio: "q \<noteq> NaN \<Longrightarrow> pane_store_step st (paneStore_updateSplitRatio w b q st)"

lemma splitInput_simps [simp]:
  "splitNewPaneId (splitInput t p d pl u1 u2) = createPaneId u1"
  "splitNewBranchId (splitInput t p d pl u1 u2) = createPaneId u2"
  by (simp_all add: splitInput_def)

lemmas pane_action_defs =
  paneStore_setActivePane_def paneStore_selectTab_def paneStore_registerTabInPane_def
  paneStore_unregisterTabFromPane_def paneStore_createAdjacentPaneWithTab_def paneStore_splitPane_def
  paneStore_moveTab_def paneStore_reorderTab_def paneStore_updateSplitRatio_def

lemmas pane_action_wf =
  select_op.action_wf [folded paneStore_selectTab_def, simplified]
  remove_op.action_wf [folded paneStore_unregisterTabFromPane_def, simplified]
  move_op.action_wf [folded paneStore_moveTab_def, simplified]
  reorder_op.action_wf [folded paneStore_reorderTab_def, simplified]

lemma pane_store_step_wf: "pane_store_wf st \<Longrightarrow> pane_store_step st st' \<Longrightarrow> pane_store_wf st'"
proof (erule pane_store_step.cases, goal_cases)
  case (3 t sta w p)
  then show ?case
    unfolding paneStore_registerTabInPane_def by (auto intro: add_op.action_wf)
next
  case (5 sta w u1 u2 t p d pl)
  then show ?case
    unfolding paneStore_createAdjacentPaneWithTab_def
    by (auto intro!: adjacent_op.action_wf simp: fresh_uuids_def)
next
  case (6 sta w u1 u2 t p d pl)
  then show ?case
    unfolding paneStore_splitPane_def by (auto intro!: split_op.action_wf simp: fresh_uuids_def)
qed (auto intro: pane_action_wf setActivePane_wf updateSplitRatio_wf)

interpretation pane_store: state_machine
  "\<lambda>st. st = emptySplitPaneStore" pane_store_step pane_store_wf
  by unfold_locales (auto intro: pane_store_step_wf)

end
