(* ===== verification/Split_Pane_Properties.thy ===== *)
theory Split_Pane_Properties
  imports Split_Pane_Store
begin

text \<open>
  The contract of the split-pane component: what each layout operation does to the list of panes,
  when it declines, that every layout the store can reach is well formed, and that an action on
  one workspace leaves the others alone. A small layout with two panes serves as the concrete
  instance.
\<close>

section \<open>A concrete layout\<close>

definition demo_layout :: SplitPaneStateSlice where
  "demo_layout =
     \<lparr>root = Branch ''b'' Horizontal half_ratio
               (Leaf \<lparr>leafId = ''p1'', tabIds = [''t1'', ''t2'', ''t3''], leafSelected = ''t2''\<rparr>)
               (Leaf \<lparr>leafId = ''p2'', tabIds = [''t4''], leafSelected = ''t4''\<rparr>),
      activePaneId = ''p1''\<rparr>"

definition demo_split :: "string \<Rightarrow> string \<Rightarrow> SplitInput" where
  "demo_split t p =
     \<lparr>splitTabId = t, splitTargetPaneId = p, splitDirection = Vertical,
      splitPlacement = PlaceSecond, splitNewPaneId = ''p3'', splitNewBranchId = ''b3''\<rparr>"

lemma demo_layout_wf: "layout_wf demo_layout"
  by (simp add: demo_layout_def layout_wf_def tree_ok_def panes_ok_def leaf_ok_def half_ratio_def)

lemma demo_split_fresh: "fresh_split demo_layout ''p3'' ''b3''"
  by (simp add: fresh_split_def demo_layout_def)

lemma demo_leaves:
  "collectLeaves (root demo_layout) =
     [\<lparr>leafId = ''p1'', tabIds = [''t1'', ''t2'', ''t3''], leafSelected = ''t2''\<rparr>,
      \<lparr>leafId = ''p2'', tabIds = [''t4''], leafSelected = ''t4''\<rparr>]"
  by (simp add: demo_layout_def)

section \<open>Splitting\<close>

text \<open>C1: A split that is carried out keeps the layout invariant, loses and duplicates no tab,
  makes the new pane active, and acts on the panes from left to right as specified: the tab
  leaves its pane (which disappears if it held nothing else) and a new pane with just that
  tab appears directly before or after the target pane.\<close>

theorem split_pane_correct:
  assumes "layout_wf s" "fresh_split s (splitNewPaneId i) (splitNewBranchId i)"
    "splitPaneWithTab s i = Some s'"
  shows "layout_wf s' \<and> collectLeaves (root s') = split_panes i (collectLeaves (root s)) \<and>
    activePaneId s' = splitNewPaneId i \<and>
    mset (panesTabs (collectLeaves (root s'))) = mset (panesTabs (collectLeaves (root s)))"
proof -
  have "activePaneId s' = splitNewPaneId i"
    using assms(3) by (auto simp: splitPaneWithTab_def Let_def split: option.splits if_splits)
  with assms show ?thesis
    by (simp add: splitPaneWithTab_wf splitPaneWithTab_refines splitPaneWithTab_tabs)
qed

theorem split_pane_correct_witness:
  "\<exists>s'. splitPaneWithTab demo_layout (demo_split ''t4'' ''p1'') = Some s' \<and> layout_wf s' \<and>
     map leafId (collectLeaves (root s')) = [''p1'', ''p3''] \<and> activePaneId s' = ''p3''"
proof -
  have "splitPaneWithTab demo_layout (demo_split ''t4'' ''p1'') \<noteq> None"
    using demo_layout_wf by (simp add: splitPaneWithTab_None_iff demo_leaves demo_split_def)
  then obtain s' where s': "splitPaneWithTab demo_layout (demo_split ''t4'' ''p1'') = Some s'" by blast
  have "map leafId (split_panes (demo_split ''t4'' ''p1'') (collectLeaves (root demo_layout))) = [''p1'', ''p3'']"
    by (simp add: demo_leaves split_panes_def demo_split_def beside_def createLeaf_def)
  with split_pane_correct [OF demo_layout_wf _ s'] demo_split_fresh s' show ?thesis
    by (simp add: demo_split_def)
qed

text \<open>C5: A split is declined exactly when the tab is in no pane, when the target pane does not
  exist, or when the tab is the only one of the target pane. In particular the lookup of the
  target after the source pane was detached never fails.\<close>

theorem split_pane_declines_iff:
  assumes "tree_ok (root s)"
  shows "splitPaneWithTab s i = None \<longleftrightarrow>
    splitTabId i \<notin> set (panesTabs (collectLeaves (root s))) \<or>
    splitTargetPaneId i \<notin> set (leafIds (root s)) \<or>
    (\<exists>l \<in> set (collectLeaves (root s)).
       leafId l = splitTargetPaneId i \<and> tabIds l = [splitTabId i])"
  by (rule splitPaneWithTab_None_iff [OF assms])

theorem split_pane_declines_iff_witness:
  "splitPaneWithTab demo_layout (demo_split ''t4'' ''p2'') = None \<and>
   splitPaneWithTab demo_layout (demo_split ''t1'' ''p1'') \<noteq> None"
  using split_pane_declines_iff [OF layout_wf_tree [OF demo_layout_wf], of "demo_split ''t4'' ''p2''"]
    split_pane_declines_iff [OF layout_wf_tree [OF demo_layout_wf], of "demo_split ''t1'' ''p1''"]
  by (simp add: demo_leaves demo_split_def)

text \<open>Opening a new tab in an adjacent pane is declined exactly when the target pane does not
  exist or the tab is already placed; otherwise every existing pane stays as it is and the new
  pane, holding just the tab, stands next to the target and is active.\<close>

theorem create_adjacent_pane_correct:
  assumes "layout_wf s" "fresh_split s (splitNewPaneId i) (splitNewBranchId i)"
  shows "(createAdjacentPaneWithTab s i = None \<longleftrightarrow>
      splitTargetPaneId i \<notin> set (leafIds (root s)) \<or>
      splitTabId i \<in> set (panesTabs (collectLeaves (root s)))) \<and>
    (\<forall>s'. createAdjacentPaneWithTab s i = Some s' \<longrightarrow>
      layout_wf s' \<and> activePaneId s' = splitNewPaneId i \<and>
      collectLeaves (root s') =
        panes_put (splitTargetPaneId i)
          (beside (splitPlacement i) (createLeaf (splitNewPaneId i) [splitTabId i] (Some (splitTabId i))))
          (collectLeaves (root s)))"
proof -
  have "activePaneId s' = splitNewPaneId i" if "createAdjacentPaneWithTab s i = Some s'" for s'
    using that by (auto simp: createAdjacentPaneWithTab_def Let_def split: option.splits if_splits)
  with assms show ?thesis
    by (simp add: createAdjacentPaneWithTab_wf createAdjacentPaneWithTab_refines
        createAdjacentPaneWithTab_None_iff)
qed

theorem create_adjacent_pane_correct_witness:
  "\<exists>s'. createAdjacentPaneWithTab demo_layout (demo_split ''t9'' ''p1'') = Some s' \<and>
     map leafId (collectLeaves (root s')) = [''p1'', ''p3'', ''p2'']"
proof -
  have "createAdjacentPaneWithTab demo_layout (demo_split ''t9'' ''p1'') \<noteq> None"
    by (simp add: createAdjacentPaneWithTab_None_iff demo_leaves demo_split_def)
  then obtain s' where s': "createAdjacentPaneWithTab demo_layout (demo_split ''t9'' ''p1'') = Some s'"
    by blast
  have "fresh_split demo_layout (splitNewPaneId (demo_split ''t9'' ''p1''))
          (splitNewBranchId (demo_split ''t9'' ''p1''))"
    using demo_split_fresh by (simp add: demo_split_def)
  from create_adjacent_pane_correct [OF demo_layout_wf this] s' show ?thesis
    by (simp add: demo_leaves demo_split_def beside_def createLeaf_def)
qed

section \<open>Moving, removing, reordering\<close>

text \<open>Moving a tab is declined exactly when the tab is in no pane, the target pane does not
  exist, or the tab is there already. Otherwise the tab is taken out of its pane (which
  collapses when it becomes empty), appended to the target and selected there, the target
  becomes active, and no tab is lost or duplicated.\<close>

theorem move_tab_correct:
  assumes "layout_wf s"
  shows "(moveTabToPane s t p = None \<longleftrightarrow>
      t \<notin> set (panesTabs (collectLeaves (root s))) \<or> p \<notin> set (leafIds (root s)) \<or>
      tab_in_pane t p (collectLeaves (root s))) \<and>
    (\<forall>s'. moveTabToPane s t p = Some s' \<longrightarrow>
      layout_wf s' \<and> activePaneId s' = p \<and>
      collectLeaves (root s') = move_panes t p (collectLeaves (root s)) \<and>
      mset (panesTabs (collectLeaves (root s'))) = mset (panesTabs (collectLeaves (root s))))"
proof -
  have "activePaneId s' = p" if "moveTabToPane s t p = Some s'" for s'
    using that by (auto simp: moveTabToPane_def Let_def split: option.splits if_splits)
  moreover have ok: "tree_ok (root s)" using assms by simp
  ultimately show ?thesis
    using moveTabToPane_wf [OF assms] moveTabToPane_refines [OF ok] moveTabToPane_tabs [OF ok]
      moveTabToPane_None_iff [OF ok] by blast
qed

theorem move_tab_correct_witness:
  "\<exists>s'. moveTabToPane demo_layout ''t4'' ''p1'' = Some s' \<and>
     collectLeaves (root s') =
       [\<lparr>leafId = ''p1'', tabIds = [''t1'', ''t2'', ''t3'', ''t4''], leafSelected = ''t4''\<rparr>]"
proof -
  have "moveTabToPane demo_layout ''t4'' ''p1'' \<noteq> None"
    using demo_layout_wf by (simp add: moveTabToPane_None_iff demo_leaves tab_in_pane_def)
  then obtain s' where s': "moveTabToPane demo_layout ''t4'' ''p1'' = Some s'" by blast
  from move_tab_correct [OF demo_layout_wf, of "''t4''" "''p1''"] s' show ?thesis
    by (simp add: demo_leaves move_panes_def receive_tab_def)
qed

text \<open>Removing a tab is declined exactly when no pane holds it. Otherwise exactly that tab
  disappears, in the order of the remaining ones; a pane that becomes empty collapses unless
  it is the only one; the layout stays well formed, and the active pane changes only if it was
  the one that collapsed.\<close>

theorem remove_tab_correct:
  assumes "layout_wf s"
  shows "(removeTabFromPane s t = None \<longleftrightarrow> t \<notin> set (panesTabs (collectLeaves (root s)))) \<and>
    (\<forall>s'. removeTabFromPane s t = Some s' \<longrightarrow>
      layout_wf s' \<and>
      collectLeaves (root s') = remove_panes t (collectLeaves (root s)) \<and>
      panesTabs (collectLeaves (root s')) = filter (\<lambda>x. x \<noteq> t) (panesTabs (collectLeaves (root s))) \<and>
      (activePaneId s \<in> set (leafIds (root s')) \<longrightarrow> activePaneId s' = activePaneId s))"
proof -
  have ok: "tree_ok (root s)" using assms by simp
  have "activePaneId s' = activePaneId s"
    if s': "removeTabFromPane s t = Some s'" and act: "activePaneId s \<in> set (leafIds (root s'))" for s'
    using ok s'
  proof (cases rule: removeTabFromPane_cases)
    case (last l)
    with act show ?thesis by simp
  next
    case (collapse l)
    then have "leafId l \<notin> set (leafIds (root s'))" by (auto simp: collapses_def)
    with act collapse(6) show ?thesis by auto
  next
    case (keep l)
    then show ?thesis by simp
  qed
  with removeTabFromPane_wf [OF assms] removeTabFromPane_refines [OF ok] removeTabFromPane_tabs [OF ok]
    removeTabFromPane_None_iff [OF ok] show ?thesis by blast
qed

theorem remove_tab_correct_witness:
  "\<exists>s'. removeTabFromPane demo_layout ''t2'' = Some s' \<and>
     collectLeaves (root s') =
       [\<lparr>leafId = ''p1'', tabIds = [''t1'', ''t3''], leafSelected = ''t3''\<rparr>,
        \<lparr>leafId = ''p2'', tabIds = [''t4''], leafSelected = ''t4''\<rparr>]"
proof -
  have "removeTabFromPane demo_layout ''t2'' \<noteq> None"
    using demo_layout_wf by (simp add: removeTabFromPane_None_iff demo_leaves)
  then obtain s' where s': "removeTabFromPane demo_layout ''t2'' = Some s'" by blast
  from remove_tab_correct [OF demo_layout_wf, of "''t2''"] s' show ?thesis
    by (simp add: demo_leaves remove_panes_def neighbourSelection_def js_indexOf_def js_at_def)
qed


text \<open>Reordering inside a pane keeps the layout invariant and touches only that pane: its tabs
  are permuted so that the dragged tab stands directly before or after the target tab while the
  other tabs keep their order, and the dragged tab is selected in the now active pane.\<close>

theorem reorder_tab_correct:
  assumes "layout_wf s" "reorderTabInPane s p dragged target position = Some s'"
  shows "layout_wf s' \<and> activePaneId s' = p \<and>
    (\<exists>l \<in> set (collectLeaves (root s)). \<exists>ys zs. leafId l = p \<and>
       filter (\<lambda>x. x \<noteq> dragged) (tabIds l) = ys @ target # zs \<and>
       collectLeaves (root s') = panes_put p (\<lambda>l. [l\<lparr>tabIds :=
            ys @ (if position = Before then [dragged, target] else [target, dragged]) @ zs,
          leafSelected := dragged\<rparr>]) (collectLeaves (root s)))"
proof -
  have ok: "tree_ok (root s)" using assms(1) by simp
  from ok assms(2) obtain l where l: "l \<in> set (collectLeaves (root s))" "p = leafId l" "dragged \<noteq> target"
      "target \<in> set (tabIds l)" "activePaneId s' = leafId l"
    by (cases rule: reorderTabInPane_cases) auto
  from reorder_list_adjacent [OF l(3,4), of position] obtain ys zs where
    yz: "filter (\<lambda>x. x \<noteq> dragged) (tabIds l) = ys @ target # zs"
      "reorder_list dragged target position (tabIds l) =
         ys @ (if position = Before then [dragged, target] else [target, dragged]) @ zs" by blast
  have "collectLeaves (root s') = panes_put p (\<lambda>l. [l\<lparr>tabIds :=
            ys @ (if position = Before then [dragged, target] else [target, dragged]) @ zs,
          leafSelected := dragged\<rparr>]) (collectLeaves (root s))"
    unfolding reorderTabInPane_refines [OF ok assms(2)] panes_put_def
  proof (intro arg_cong [where f = concat] map_cong refl)
    fix m assume "m \<in> set (collectLeaves (root s))"
    with l(1,2) have "m = l" if "leafId m = p"
      using that tree_okD(3) [OF ok] by (auto simp: distinct_map inj_on_def)
    with yz(2) show "(if leafId m = p
         then [m\<lparr>tabIds := reorder_list dragged target position (tabIds m), leafSelected := dragged\<rparr>] else [m]) =
       (if leafId m = p
         then [m\<lparr>tabIds := ys @ (if position = Before then [dragged, target] else [target, dragged]) @ zs,
                 leafSelected := dragged\<rparr>] else [m])"
      by (cases "leafId m = p") simp_all
  qed
  with l yz reorderTabInPane_wf [OF assms] show ?thesis by blast
qed

theorem reorder_tab_correct_witness:
  "\<exists>s'. reorderTabInPane demo_layout ''p1'' ''t1'' ''t3'' Before = Some s' \<and>
     (\<exists>l \<in> set (collectLeaves (root s')). leafSelected l = ''t1'' \<and> layout_wf s')"
proof -
  obtain s' where s': "reorderTabInPane demo_layout ''p1'' ''t1'' ''t3'' Before = Some s'"
    by (simp add: reorderTabInPane_def demo_layout_def Let_def js_indexOf_def)
  from reorder_tab_correct [OF demo_layout_wf s'] s' show ?thesis
    by (auto simp: demo_leaves)
qed

section \<open>Split ratios and the opposite pane\<close>

text \<open>Resizing keeps the panes, all ids and the active pane, changes only the ratio of the
  named split, and leaves every ratio of the layout between the two bounds, for every request
  that is not NaN, infinities included; a request within the bounds is taken as it is.\<close>

theorem split_ratio_bounds:
  assumes "layout_wf s" "ratio \<noteq> NaN" "setSplitRatio s branchId ratio = Some s'"
  shows "layout_wf s' \<and> collectLeaves (root s') = collectLeaves (root s) \<and>
    nodeIds (root s') = nodeIds (root s) \<and> activePaneId s' = activePaneId s \<and>
    branchId \<in> set (branchIds (root s)) \<and>
    set (splitRatios (root s')) \<subseteq> insert (clampRatio ratio) (set (splitRatios (root s))) \<and>
    (\<forall>q \<in> set (splitRatios (root s')). ratio_ok q) \<and>
    (ratio_ok ratio \<longrightarrow> clampRatio ratio = ratio)"
  using setSplitRatio_wf [OF assms] setSplitRatio_shape [OF assms(3)]
  by (simp add: clampRatio_id layout_wf_def tree_ok_def)

theorem split_ratio_bounds_witness:
  "\<exists>s'. setSplitRatio demo_layout ''b'' PosInf = Some s' \<and> (\<forall>q \<in> set (splitRatios (root s')). ratio_ok q)"
proof -
  obtain s' where s': "setSplitRatio demo_layout ''b'' PosInf = Some s'"
    by (simp add: setSplitRatio_def demo_layout_def clampRatio_def half_ratio_def min_ratio_def max_ratio_def
      js_min_def js_max_def js_eq_def)
  from split_ratio_bounds [OF demo_layout_wf _ s'] s' show ?thesis by blast
qed

text \<open>The opposite pane of a pane, when there is one, is an existing pane on the other side of
  the root split; there is none exactly when the root is a single pane or the pane is unknown.\<close>

theorem opposite_pane_correct:
  assumes "tree_ok r"
  shows "(\<forall>q. findOppositePaneId r p = Some q \<longrightarrow>
      q \<in> set (leafIds r) \<and> q \<noteq> p \<and>
      (\<exists>i d x a b. r = Branch i d x a b \<and>
        (p \<in> set (nodeIds a) \<and> q \<in> set (leafIds b) \<or> p \<in> set (nodeIds b) \<and> q \<in> set (leafIds a)))) \<and>
    (p \<in> set (leafIds r) \<longrightarrow> (findOppositePaneId r p = None \<longleftrightarrow> length (collectLeaves r) = 1))"
proof -
  have d: "distinct (nodeIds r)" using assms by (simp add: tree_ok_def)
  have "findOppositePaneId r p = None \<longleftrightarrow> length (collectLeaves r) = 1" if "p \<in> set (leafIds r)"
  proof (cases r)
    case (Leaf l)
    then show ?thesis by (simp add: findOppositePaneId_None_iff)
  next
    case (Branch i d x a b)
    with that have "p \<in> set (nodeIds a) \<or> p \<in> set (nodeIds b)" by (auto simp: set_nodeIds)
    moreover have "0 < length (collectLeaves a)" "0 < length (collectLeaves b)" by simp_all
    then have "length (collectLeaves r) \<noteq> 1" using Branch by (simp del: length_greater_0_conv)
    ultimately show ?thesis using Branch findOppositePaneId_None_iff [of r p] by auto
  qed
  with findOppositePaneId_sound [OF d] show ?thesis by blast
qed

theorem opposite_pane_correct_witness:
  "findOppositePaneId (root demo_layout) ''p1'' = Some ''p2'' \<and>
   findOppositePaneId (root demo_layout) ''p1'' \<noteq> None"
  using opposite_pane_correct [OF layout_wf_tree [OF demo_layout_wf], of "''p1''"]
  by (simp add: demo_layout_def js_at_def)

section \<open>The store\<close>

text \<open>C2: In every state the store can reach from the empty one by its actions, in any order and on
  any workspaces (new ids being fresh, registered tabs being unplaced and ratios being
  numbers), the layout of every workspace is well formed.\<close>

theorem pane_store_reachable_wf:
  assumes "pane_store_step\<^sup>*\<^sup>* emptySplitPaneStore st" "layoutByWorkspaceId st w = Some l"
  shows "layout_wf l"
  using pane_store.reachable_inv [OF refl assms(1)] assms(2) by (simp add: pane_store_wf_def)

theorem pane_store_reachable_wf_witness:
  "\<exists>l. layoutByWorkspaceId (paneStore_registerTabInPane ''w'' ''t'' None emptySplitPaneStore) ''w'' = Some l \<and>
     layout_wf l"
proof -
  have "pane_store_step\<^sup>*\<^sup>* emptySplitPaneStore (paneStore_registerTabInPane ''w'' ''t'' None emptySplitPaneStore)"
    by (intro r_into_rtranclp register) (simp add: getLayout_def emptySplitPaneStore_def createEmptyLayout_def createLeaf_def)
  from pane_store_reachable_wf [OF this, of "''w''"] show ?thesis
    by (simp add: paneStore_registerTabInPane_def withLayout_conv)
qed

text \<open>An action of the store on one workspace changes no other workspace's layout: every step
  changes at most one entry.\<close>

theorem pane_store_step_frame:
  assumes "pane_store_step st st'"
  shows "\<exists>w. \<forall>w'. w' \<noteq> w \<longrightarrow> layoutByWorkspaceId st' w' = layoutByWorkspaceId st w'"
  using assms by (cases rule: pane_store_step.cases) (auto simp: pane_action_defs withLayout_conv)

theorem pane_store_step_frame_witness:
  "\<exists>w. \<forall>w'. w' \<noteq> w \<longrightarrow>
     layoutByWorkspaceId (paneStore_setActivePane ''w'' ''p'' emptySplitPaneStore) w' = None"
  using pane_store_step_frame [OF set_active [of emptySplitPaneStore "''w''" "''p''"]]
  by (simp add: emptySplitPaneStore_def)

end
