(* ===== verification/Tabs.thy ===== *)
theory Tabs
  imports Yishan_Prelude
begin

text \<open>
  The pure tab operations of the workbench
  (\<open>src/apps/desktop/src/renderer/domains/workbench/tabs\<close>): tab data and open requests
  (\<open>types.ts\<close>), tab identity (\<open>shared.ts\<close>), opening (\<open>open.ts\<close>), closing (\<open>close.ts\<close>),
  pinning, renaming and reordering (\<open>layout.ts\<close>), and selection (\<open>selection.ts\<close>,
  \<open>terminalTab.ts\<close>).

  The operations of the code return a partial state that the store merges into its state, or
  \<open>null\<close>; here they return the merged state, or \<^term>\<open>None\<close>. A tab is a record whose last
  field is a union over the tab kinds, as in the code.
\<close>

section \<open>Data\<close>

datatype DiffFileChangeKind = Added | Modified | Deleted | Renamed

datatype DiffTabSource = WorkspaceSource | CommitSource string | BranchSource string

record FileDiffEntry =
  fdPath :: string
  fdOldContent :: string
  fdNewContent :: string
  fdChangeKind :: DiffFileChangeKind
  fdAdditions :: int
  fdDeletions :: int

datatype AgentChatSessionView = FullView | SubagentDetail

type_synonym DesktopAgentKind = string

record DiffTabData =
  diffPath :: string
  diffSource :: "DiffTabSource option"
  diffIsTemporary :: bool

record FileTabData =
  filePath :: string
  fileIsDirty :: bool
  fileIsTemporary :: bool

record MediaTabData =
  mediaPath :: string
  mediaDataUrl :: string
  mediaIsTemporary :: bool

record TerminalTabData =
  terminalTitle :: string
  terminalPaneId :: "string option"
  terminalSessionId :: "string option"
  terminalLaunchCommand :: "string option"
  terminalAgentKind :: "DesktopAgentKind option"
  terminalUserRenamed :: "bool option"

record BrowserTabData =
  browserUrl :: string
  browserFaviconUrl :: "string option"

record AgentChatTabData =
  chatSessionId :: "string option"
  chatCwd :: string
  chatUserRenamed :: "bool option"
  chatSessionView :: "AgentChatSessionView option"
  chatSubagentAgentId :: "string option"
  chatSubagentParentSessionId :: "string option"

datatype WorkbenchTabData =
    DiffTab DiffTabData
  | FileTab FileTabData
  | ImageTab MediaTabData
  | VideoTab MediaTabData
  | AudioTab MediaTabData
  | TerminalTab TerminalTabData
  | BrowserTab BrowserTabData
  | AgentChatTab AgentChatTabData

datatype TabKind = KDiff | KFile | KImage | KVideo | KAudio | KTerminal | KBrowser | KAgentChat

fun dataKind :: "WorkbenchTabData \<Rightarrow> TabKind" where
  "dataKind (DiffTab _) = KDiff"
| "dataKind (FileTab _) = KFile"
| "dataKind (ImageTab _) = KImage"
| "dataKind (VideoTab _) = KVideo"
| "dataKind (AudioTab _) = KAudio"
| "dataKind (TerminalTab _) = KTerminal"
| "dataKind (BrowserTab _) = KBrowser"
| "dataKind (AgentChatTab _) = KAgentChat"

record WorkbenchTab =
  wtId :: string
  wtWorkspaceId :: string
  wtTitle :: string
  wtPinned :: bool
  wtData :: WorkbenchTabData

abbreviation wtKind :: "WorkbenchTab \<Rightarrow> TabKind" where
  "wtKind tab \<equiv> dataKind (wtData tab)"

record TabStoreStateSlice =
  tabs :: "WorkbenchTab list"
  selectedTabId :: string
  selectedTabIdByWorkspaceId :: "string \<rightharpoonup> string"

subsection \<open>Open requests\<close>

record OpenDiffInput =
  odPath :: string
  odChangeKind :: DiffFileChangeKind
  odAdditions :: int
  odDeletions :: int
  odOldContent :: "string option"
  odNewContent :: "string option"
  odDiffSource :: "DiffTabSource option"
  odTemporary :: "bool option"
  odFiles :: "FileDiffEntry list option"

datatype UnsupportedReason = UnsupportedType | UnsupportedSize

record OpenFileInput =
  ofPath :: string
  ofContent :: "string option"
  ofTemporary :: "bool option"
  ofIsUnsupported :: "bool option"
  ofUnsupportedReason :: "UnsupportedReason option"
  ofIsIgnored :: "bool option"

record OpenMediaInput =
  omPath :: string
  omDataUrl :: string
  omTemporary :: "bool option"

record OpenTerminalInput =
  otTitle :: "string option"
  otSessionId :: "string option"
  otLaunchCommand :: "string option"
  otAgentKind :: "DesktopAgentKind option"
  otReuseExisting :: "bool option"
  otTabId :: "string option"
  otPaneId :: "string option"

record OpenBrowserInput =
  obUrl :: "string option"
  obReuseExisting :: "bool option"

record OpenAgentChatInput =
  oaTitle :: "string option"
  oaCwd :: "string option"
  oaSessionId :: "string option"
  oaSessionView :: "AgentChatSessionView option"
  oaSubagentAgentId :: "string option"
  oaSubagentParentSessionId :: "string option"

datatype OpenTabPayload =
    OpenDiff OpenDiffInput
  | OpenFile OpenFileInput
  | OpenImage OpenMediaInput
  | OpenVideo OpenMediaInput
  | OpenAudio OpenMediaInput
  | OpenTerminal OpenTerminalInput
  | OpenBrowser OpenBrowserInput
  | OpenAgentChat OpenAgentChatInput

record OpenTabInput =
  inWorkspaceId :: "string option"
  inPayload :: OpenTabPayload

section \<open>Identity of a tab (\<open>shared.ts\<close>)\<close>

text \<open>\<open>value?.trim() || fallback\<close>\<close>

definition trimmedOr :: "string option \<Rightarrow> string \<Rightarrow> string" where
  "trimmedOr s d = nullish (truthy_string (map_option js_trim s)) d"

fun matchesInput :: "OpenTabPayload \<Rightarrow> WorkbenchTabData \<Rightarrow> string \<Rightarrow> bool" where
  "matchesInput (OpenDiff i) d title = (case d of DiffTab t \<Rightarrow> diffPath t = odPath i | _ \<Rightarrow> False)"
| "matchesInput (OpenFile i) d title = (case d of FileTab t \<Rightarrow> filePath t = ofPath i | _ \<Rightarrow> False)"
| "matchesInput (OpenImage i) d title = (case d of ImageTab t \<Rightarrow> mediaPath t = omPath i | _ \<Rightarrow> False)"
| "matchesInput (OpenVideo i) d title = (case d of VideoTab t \<Rightarrow> mediaPath t = omPath i | _ \<Rightarrow> False)"
| "matchesInput (OpenAudio i) d title = (case d of AudioTab t \<Rightarrow> mediaPath t = omPath i | _ \<Rightarrow> False)"
| "matchesInput (OpenBrowser i) d title =
     (case d of BrowserTab t \<Rightarrow> Some (browserUrl t) = obUrl i | _ \<Rightarrow> False)"
| "matchesInput (OpenAgentChat i) d title =
     (case d of
        AgentChatTab t \<Rightarrow>
          map_option js_trim (chatSessionId t) = map_option js_trim (oaSessionId i) \<and>
          (chatSessionView t = Some SubagentDetail) = (oaSessionView i = Some SubagentDetail)
      | _ \<Rightarrow> False)"
| "matchesInput (OpenTerminal i) d title =
     (case d of TerminalTab t \<Rightarrow> title = trimmedOr (otTitle i) ''Terminal'' | _ \<Rightarrow> False)"

text \<open>The requests that never look for an existing tab.\<close>

fun alwaysOpensNew :: "OpenTabPayload \<Rightarrow> bool" where
  "alwaysOpensNew (OpenBrowser i) = (obReuseExisting i = Some False)"
| "alwaysOpensNew (OpenAgentChat i) = (truthy_string (map_option js_trim (oaSessionId i)) = None)"
| "alwaysOpensNew (OpenTerminal i) = (otReuseExisting i = Some False)"
| "alwaysOpensNew _ = False"

definition findExistingTab ::
  "WorkbenchTab list \<Rightarrow> OpenTabInput \<Rightarrow> string \<Rightarrow> WorkbenchTab option" where
  "findExistingTab ts input targetWorkspaceId =
     (if alwaysOpensNew (inPayload input) then None
      else List.find (\<lambda>tab. wtWorkspaceId tab = targetWorkspaceId \<and>
             matchesInput (inPayload input) (wtData tab) (wtTitle tab)) ts)"

section \<open>Opening (\<open>open.ts\<close>)\<close>

definition getFileName :: "string \<Rightarrow> string" where
  "getFileName path =
     (let normalized = map (\<lambda>c. if c = CHR 0x5C then CHR ''/'' else c) path
      in last (js_split CHR ''/'' normalized))"

fun buildTabDataByInput :: "OpenTabPayload \<Rightarrow> WorkbenchTabData" where
  "buildTabDataByInput (OpenDiff i) =
     DiffTab \<lparr>diffPath = odPath i, diffSource = odDiffSource i, diffIsTemporary = (odTemporary i = Some True)\<rparr>"
| "buildTabDataByInput (OpenFile i) =
     FileTab \<lparr>filePath = ofPath i, fileIsDirty = False, fileIsTemporary = (ofTemporary i = Some True)\<rparr>"
| "buildTabDataByInput (OpenImage i) =
     ImageTab \<lparr>mediaPath = omPath i, mediaDataUrl = omDataUrl i, mediaIsTemporary = (omTemporary i = Some True)\<rparr>"
| "buildTabDataByInput (OpenVideo i) =
     VideoTab \<lparr>mediaPath = omPath i, mediaDataUrl = omDataUrl i, mediaIsTemporary = (omTemporary i = Some True)\<rparr>"
| "buildTabDataByInput (OpenAudio i) =
     AudioTab \<lparr>mediaPath = omPath i, mediaDataUrl = omDataUrl i, mediaIsTemporary = (omTemporary i = Some True)\<rparr>"
| "buildTabDataByInput (OpenBrowser i) =
     BrowserTab \<lparr>browserUrl = trimmedOr (obUrl i) [], browserFaviconUrl = None\<rparr>"
| "buildTabDataByInput (OpenAgentChat i) =
     AgentChatTab
       \<lparr>chatSessionId = truthy_string (oaSessionId i), chatCwd = nullish (oaCwd i) [],
        chatUserRenamed = None, chatSessionView = Some (nullish (oaSessionView i) FullView),
        chatSubagentAgentId = truthy_string (oaSubagentAgentId i),
        chatSubagentParentSessionId = truthy_string (oaSubagentParentSessionId i)\<rparr>"
| "buildTabDataByInput (OpenTerminal i) =
     TerminalTab
       \<lparr>terminalTitle = trimmedOr (otTitle i) ''Terminal'', terminalPaneId = None,
        terminalSessionId = truthy_string (map_option js_trim (otSessionId i)),
        terminalLaunchCommand = truthy_string (map_option js_trim (otLaunchCommand i)),
        terminalAgentKind = otAgentKind i, terminalUserRenamed = None\<rparr>"

fun dataIsTemporary :: "WorkbenchTabData \<Rightarrow> bool" where
  "dataIsTemporary (FileTab d) = fileIsTemporary d"
| "dataIsTemporary (ImageTab d) = mediaIsTemporary d"
| "dataIsTemporary (VideoTab d) = mediaIsTemporary d"
| "dataIsTemporary (AudioTab d) = mediaIsTemporary d"
| "dataIsTemporary (DiffTab d) = diffIsTemporary d"
| "dataIsTemporary _ = False"

definition isTemporaryTab :: "WorkbenchTab \<Rightarrow> bool" where
  "isTemporaryTab tab = dataIsTemporary (wtData tab)"

definition findTemporaryTab ::
  "WorkbenchTab list \<Rightarrow> string \<Rightarrow> string list option \<Rightarrow> TabKind option \<Rightarrow> WorkbenchTab option" where
  "findTemporaryTab ts workspaceId restrictToTabIds kind =
     List.find (\<lambda>tab.
       (wtWorkspaceId tab = workspaceId \<and> isTemporaryTab tab) \<and>
       (case kind of None \<Rightarrow> True | Some k \<Rightarrow> wtKind tab = k) \<and>
       (case restrictToTabIds of None \<Rightarrow> True | Some ids \<Rightarrow> wtId tab \<in> set ids)) ts"

definition selectWorkbenchTab ::
  "TabStoreStateSlice \<Rightarrow> string \<Rightarrow> string \<Rightarrow> TabStoreStateSlice" where
  "selectWorkbenchTab state workspaceId tid =
     state\<lparr>selectedTabId := tid,
           selectedTabIdByWorkspaceId := (selectedTabIdByWorkspaceId state)(workspaceId \<mapsto> tid)\<rparr>"

fun openTitle :: "OpenTabPayload \<Rightarrow> string" where
  "openTitle (OpenDiff i) = ''diff: '' @ getFileName (odPath i)"
| "openTitle (OpenFile i) = getFileName (ofPath i)"
| "openTitle (OpenImage i) = getFileName (omPath i)"
| "openTitle (OpenVideo i) = getFileName (omPath i)"
| "openTitle (OpenAudio i) = getFileName (omPath i)"
| "openTitle (OpenBrowser i) = ''Browser''"
| "openTitle (OpenAgentChat i) = trimmedOr (oaTitle i) ''Agent Chat''"
| "openTitle (OpenTerminal i) = trimmedOr (otTitle i) ''Terminal''"

definition createTabFromOpenInput :: "OpenTabInput \<Rightarrow> string \<Rightarrow> string \<Rightarrow> WorkbenchTab" where
  "createTabFromOpenInput input workspaceId tid =
     \<lparr>wtId = tid, wtWorkspaceId = workspaceId, wtTitle = openTitle (inPayload input), wtPinned = False,
      wtData =
        (case inPayload input of
           OpenTerminal i \<Rightarrow>
             (case buildTabDataByInput (OpenTerminal i) of
                TerminalTab d \<Rightarrow> TerminalTab (d\<lparr>terminalPaneId := Some (nullish (otPaneId i) (''pane-'' @ tid))\<rparr>)
              | d \<Rightarrow> d)
         | payload \<Rightarrow> buildTabDataByInput payload)\<rparr>"

text \<open>\<open>tabs.map((tab) => tab.id === id && tab.kind === kind ? { ...tab, data } : tab)\<close>: only a tab
  with the id whose kind \<open>f\<close> is defined on changes.\<close>

definition mapTabData ::
  "string \<Rightarrow> (WorkbenchTabData \<Rightarrow> WorkbenchTabData) \<Rightarrow> WorkbenchTab list \<Rightarrow> WorkbenchTab list" where
  "mapTabData tid f = map (\<lambda>tab. if wtId tab = tid then tab\<lparr>wtData := f (wtData tab)\<rparr> else tab)"

text \<open>The data of the existing tab when an open request focuses it, and whether the code takes
  the branch that rewrites the tab list.\<close>

fun reopenData :: "OpenTabPayload \<Rightarrow> WorkbenchTabData \<Rightarrow> (WorkbenchTabData \<Rightarrow> WorkbenchTabData) option" where
  "reopenData (OpenFile i) (FileTab e) =
     (let isOpeningTemporary = (ofTemporary i = Some True \<and> fileIsTemporary e) in
      if fileIsTemporary e = isOpeningTemporary then None
      else Some (\<lambda>d. case d of FileTab t \<Rightarrow> FileTab (t\<lparr>fileIsTemporary := isOpeningTemporary\<rparr>) | _ \<Rightarrow> d))"
| "reopenData (OpenImage i) (ImageTab e) =
     Some (\<lambda>d. case d of
       ImageTab t \<Rightarrow> ImageTab (t\<lparr>mediaDataUrl := omDataUrl i,
                                  mediaIsTemporary := (omTemporary i = Some True \<and> mediaIsTemporary e)\<rparr>)
     | _ \<Rightarrow> d)"
| "reopenData (OpenVideo i) (VideoTab e) =
     Some (\<lambda>d. case d of
       VideoTab t \<Rightarrow> VideoTab (t\<lparr>mediaDataUrl := omDataUrl i,
                                  mediaIsTemporary := (omTemporary i = Some True \<and> mediaIsTemporary e)\<rparr>)
     | _ \<Rightarrow> d)"
| "reopenData (OpenAudio i) (AudioTab e) =
     Some (\<lambda>d. case d of
       AudioTab t \<Rightarrow> AudioTab (t\<lparr>mediaDataUrl := omDataUrl i,
                                  mediaIsTemporary := (omTemporary i = Some True \<and> mediaIsTemporary e)\<rparr>)
     | _ \<Rightarrow> d)"
| "reopenData (OpenBrowser i) (BrowserTab e) =
     (case truthy_string (map_option js_trim (obUrl i)) of
        None \<Rightarrow> None
      | Some nextUrl \<Rightarrow>
          if nextUrl = browserUrl e then None
          else Some (\<lambda>d. case d of BrowserTab t \<Rightarrow> BrowserTab (t\<lparr>browserUrl := nextUrl\<rparr>) | _ \<Rightarrow> d))"
| "reopenData _ _ = None"

text \<open>The kind of a request that asks for a temporary tab.\<close>

fun temporaryKind :: "OpenTabPayload \<Rightarrow> TabKind option" where
  "temporaryKind (OpenFile i) = (if ofTemporary i = Some True then Some KFile else None)"
| "temporaryKind (OpenImage i) = (if omTemporary i = Some True then Some KImage else None)"
| "temporaryKind (OpenVideo i) = (if omTemporary i = Some True then Some KVideo else None)"
| "temporaryKind (OpenAudio i) = (if omTemporary i = Some True then Some KAudio else None)"
| "temporaryKind (OpenDiff i) = (if odTemporary i = Some True then Some KDiff else None)"
| "temporaryKind _ = None"

definition openTabState ::
  "TabStoreStateSlice \<Rightarrow> OpenTabInput \<Rightarrow> string \<Rightarrow> string list option \<Rightarrow> string option \<Rightarrow>
   TabStoreStateSlice option" where
  "openTabState state input nextTabId activePaneTabIds selectedWorkspaceId =
     (let targetWorkspaceId = nullish (inWorkspaceId input) (nullish selectedWorkspaceId []) in
      if targetWorkspaceId = [] then None
      else
     (case findExistingTab (tabs state) input targetWorkspaceId of
        Some existingTab \<Rightarrow>
          (case reopenData (inPayload input) (wtData existingTab) of
             None \<Rightarrow> Some (selectWorkbenchTab state targetWorkspaceId (wtId existingTab))
           | Some f \<Rightarrow>
               Some (selectWorkbenchTab (state\<lparr>tabs := mapTabData (wtId existingTab) f (tabs state)\<rparr>)
                       targetWorkspaceId (wtId existingTab)))
      | None \<Rightarrow>
     (case (case temporaryKind (inPayload input) of
              None \<Rightarrow> None
            | Some kind \<Rightarrow> findTemporaryTab (tabs state) targetWorkspaceId activePaneTabIds (Some kind)) of
        Some existing \<Rightarrow>
          let replacement = createTabFromOpenInput input targetWorkspaceId (wtId existing) in
          Some (selectWorkbenchTab
                  (state\<lparr>tabs := map (\<lambda>tab. if wtId tab = wtId existing then replacement else tab) (tabs state)\<rparr>)
                  targetWorkspaceId (wtId existing))
      | None \<Rightarrow>
          let nextTab = createTabFromOpenInput input targetWorkspaceId nextTabId in
          Some (selectWorkbenchTab (state\<lparr>tabs := tabs state @ [nextTab]\<rparr>)
                  targetWorkspaceId nextTabId))))"

section \<open>Closing (\<open>close.ts\<close>)\<close>

definition closeTabState ::
  "TabStoreStateSlice \<Rightarrow> string \<Rightarrow> string option \<Rightarrow> TabStoreStateSlice option" where
  "closeTabState state tid preferred =
     (case List.find (\<lambda>tab. wtId tab = tid) (tabs state) of
        None \<Rightarrow> None
      | Some currentTab \<Rightarrow>
          let workspaceTabs = filter (\<lambda>tab. wtWorkspaceId tab = wtWorkspaceId currentTab) (tabs state);
              remainingWorkspaceTabs = filter (\<lambda>tab. wtId tab \<noteq> tid) workspaceTabs;
              closedIndex = js_findIndex (\<lambda>tab. wtId tab = tid) workspaceTabs;
              preferredSelectedTabId = nullish preferred [];
              preferredStillExists =
                (preferredSelectedTabId \<noteq> [] \<and>
                 list_ex (\<lambda>tab. wtId tab = preferredSelectedTabId) remainingWorkspaceTabs);
              nextSelectedTabId =
                (if selectedTabId state = tid then
                   (if preferredStillExists then preferredSelectedTabId
                    else nullish (nullish_option
                           (map_option wtId (js_at remainingWorkspaceTabs closedIndex))
                           (map_option wtId (js_at remainingWorkspaceTabs (closedIndex - 1)))) [])
                 else selectedTabId state)
          in Some \<lparr>tabs = filter (\<lambda>tab. wtId tab \<noteq> tid) (tabs state),
                   selectedTabId = nextSelectedTabId,
                   selectedTabIdByWorkspaceId =
                     (selectedTabIdByWorkspaceId state)(wtWorkspaceId currentTab \<mapsto> nextSelectedTabId)\<rparr>)"

definition closeOtherTabsState :: "TabStoreStateSlice \<Rightarrow> string \<Rightarrow> TabStoreStateSlice option" where
  "closeOtherTabsState state tid =
     (case List.find (\<lambda>tab. wtId tab = tid) (tabs state) of
        None \<Rightarrow> None
      | Some currentTab \<Rightarrow>
          Some \<lparr>tabs = filter (\<lambda>tab. wtWorkspaceId tab \<noteq> wtWorkspaceId currentTab \<or> wtId tab = tid \<or> wtPinned tab)
                         (tabs state),
                selectedTabId = tid,
                selectedTabIdByWorkspaceId =
                  (selectedTabIdByWorkspaceId state)(wtWorkspaceId currentTab \<mapsto> tid)\<rparr>)"

definition closeAllTerminalTabsState ::
  "TabStoreStateSlice \<Rightarrow> string option \<Rightarrow> TabStoreStateSlice option" where
  "closeAllTerminalTabsState state selectedWorkspaceId =
     (let terminalTabIds = set (map wtId (filter (\<lambda>tab. wtKind tab = KTerminal) (tabs state))) in
      if terminalTabIds = {} then None
      else
        let nextTabs = filter (\<lambda>tab. wtId tab \<notin> terminalTabIds) (tabs state);
            fallback = (\<lambda>workspaceId.
              nullish (map_option wtId (List.find (\<lambda>tab. wtWorkspaceId tab = workspaceId) nextTabs)) []);
            nextSelectedByWorkspaceId = (\<lambda>workspaceId.
              case selectedTabIdByWorkspaceId state workspaceId of
                None \<Rightarrow> None
              | Some tid \<Rightarrow> if tid \<in> terminalTabIds then Some (fallback workspaceId) else Some tid);
            nextSelectedTabId =
              (if selectedTabId state \<in> terminalTabIds then fallback (nullish selectedWorkspaceId [])
               else selectedTabId state)
        in Some \<lparr>tabs = nextTabs, selectedTabId = nextSelectedTabId,
                 selectedTabIdByWorkspaceId = nextSelectedByWorkspaceId\<rparr>)"

definition closeAllTabsState :: "TabStoreStateSlice \<Rightarrow> string \<Rightarrow> TabStoreStateSlice option" where
  "closeAllTabsState state tid =
     (case List.find (\<lambda>tab. wtId tab = tid) (tabs state) of
        None \<Rightarrow> None
      | Some currentTab \<Rightarrow>
          let nextTabs = filter (\<lambda>tab. wtWorkspaceId tab \<noteq> wtWorkspaceId currentTab \<or> wtPinned tab) (tabs state);
              selectedTabBelongsToWorkspace =
                list_ex (\<lambda>tab. wtId tab = selectedTabId state \<and> wtWorkspaceId tab = wtWorkspaceId currentTab)
                  (tabs state);
              nextSelectedTabId =
                (if selectedTabBelongsToWorkspace
                 then nullish (map_option wtId
                        (List.find (\<lambda>tab. wtWorkspaceId tab = wtWorkspaceId currentTab) nextTabs)) []
                 else selectedTabId state)
          in Some \<lparr>tabs = nextTabs, selectedTabId = nextSelectedTabId,
                   selectedTabIdByWorkspaceId =
                     (selectedTabIdByWorkspaceId state)(wtWorkspaceId currentTab \<mapsto> nextSelectedTabId)\<rparr>)"

end
