(* ===== verification/Tab_Layout.thy ===== *)
theory Tab_Layout
  imports Tabs
begin

text \<open>
  Pinning, renaming and reordering of tabs (\<open>workbench/tabs/layout.ts\<close>), and the resolution of
  the selected tab of a workspace (\<open>workbench/tabs/selection.ts\<close>, \<open>terminalTab.ts\<close>).
\<close>

section \<open>Paths, pins and titles\<close>

definition remapPathByRename :: "string \<Rightarrow> string \<Rightarrow> string \<Rightarrow> string option" where
  "remapPathByRename path fromPath toPath =
     (if path = fromPath then Some toPath
      else let prefix = fromPath @ ''/'' in
           if \<not> js_startsWith path prefix then None
           else Some (toPath @ ''/'' @ drop (length prefix) path))"

fun withoutTemporary :: "WorkbenchTabData \<Rightarrow> WorkbenchTabData" where
  "withoutTemporary (FileTab d) = FileTab (d\<lparr>fileIsTemporary := False\<rparr>)"
| "withoutTemporary (ImageTab d) = ImageTab (d\<lparr>mediaIsTemporary := False\<rparr>)"
| "withoutTemporary (VideoTab d) = VideoTab (d\<lparr>mediaIsTemporary := False\<rparr>)"
| "withoutTemporary (AudioTab d) = AudioTab (d\<lparr>mediaIsTemporary := False\<rparr>)"
| "withoutTemporary (DiffTab d) = DiffTab (d\<lparr>diffIsTemporary := False\<rparr>)"
| "withoutTemporary d = d"

definition clearTemporaryOnPin :: "WorkbenchTab \<Rightarrow> WorkbenchTab" where
  "clearTemporaryOnPin tab =
     (if dataIsTemporary (wtData tab)
      then tab\<lparr>wtPinned := True, wtData := withoutTemporary (wtData tab)\<rparr>
      else tab\<lparr>wtPinned := \<not> wtPinned tab\<rparr>)"

definition promoteTemporaryTabState :: "TabStoreStateSlice \<Rightarrow> string \<Rightarrow> TabStoreStateSlice option" where
  "promoteTemporaryTabState state tid =
     (case List.find (\<lambda>t. wtId t = tid) (tabs state) of
        None \<Rightarrow> None
      | Some tab \<Rightarrow>
          if dataIsTemporary (wtData tab)
          then Some (state\<lparr>tabs := mapTabData tid withoutTemporary (tabs state)\<rparr>)
          else None)"

definition toggleTabPinnedState :: "TabStoreStateSlice \<Rightarrow> string \<Rightarrow> TabStoreStateSlice" where
  "toggleTabPinnedState state tid =
     state\<lparr>tabs := map (\<lambda>tab. if wtId tab = tid then clearTemporaryOnPin tab else tab) (tabs state)\<rparr>"

fun dataUserRenamed :: "WorkbenchTabData \<Rightarrow> bool" where
  "dataUserRenamed (TerminalTab d) = (terminalUserRenamed d = Some True)"
| "dataUserRenamed (AgentChatTab d) = (chatUserRenamed d = Some True)"
| "dataUserRenamed _ = False"

fun markUserRenamed :: "WorkbenchTabData \<Rightarrow> WorkbenchTabData" where
  "markUserRenamed (TerminalTab d) = TerminalTab (d\<lparr>terminalUserRenamed := Some True\<rparr>)"
| "markUserRenamed (AgentChatTab d) = AgentChatTab (d\<lparr>chatUserRenamed := Some True\<rparr>)"
| "markUserRenamed d = d"

definition renameTabState ::
  "TabStoreStateSlice \<Rightarrow> string \<Rightarrow> string \<Rightarrow> bool option \<Rightarrow> TabStoreStateSlice option" where
  "renameTabState state tid newTitle userRenamed =
     (case List.find (\<lambda>tab. wtId tab = tid) (tabs state) of
        None \<Rightarrow> None
      | Some targetTab \<Rightarrow>
          if wtTitle targetTab = newTitle then None
          else if userRenamed \<noteq> Some True \<and> dataUserRenamed (wtData targetTab) then None
          else Some (state\<lparr>tabs := map (\<lambda>tab.
                 if wtId tab \<noteq> tid then tab
                 else if userRenamed = Some True
                      then tab\<lparr>wtTitle := newTitle, wtData := markUserRenamed (wtData tab)\<rparr>
                      else tab\<lparr>wtTitle := newTitle\<rparr>) (tabs state)\<rparr>))"

section \<open>Renaming a file or directory\<close>

fun dataPath :: "WorkbenchTabData \<Rightarrow> string option" where
  "dataPath (FileTab d) = Some (filePath d)"
| "dataPath (DiffTab d) = Some (diffPath d)"
| "dataPath (ImageTab d) = Some (mediaPath d)"
| "dataPath (VideoTab d) = Some (mediaPath d)"
| "dataPath (AudioTab d) = Some (mediaPath d)"
| "dataPath _ = None"

fun withDataPath :: "string \<Rightarrow> WorkbenchTabData \<Rightarrow> WorkbenchTabData" where
  "withDataPath p (FileTab d) = FileTab (d\<lparr>filePath := p\<rparr>)"
| "withDataPath p (DiffTab d) = DiffTab (d\<lparr>diffPath := p\<rparr>)"
| "withDataPath p (ImageTab d) = ImageTab (d\<lparr>mediaPath := p\<rparr>)"
| "withDataPath p (VideoTab d) = VideoTab (d\<lparr>mediaPath := p\<rparr>)"
| "withDataPath p (AudioTab d) = AudioTab (d\<lparr>mediaPath := p\<rparr>)"
| "withDataPath p d = d"

text \<open>\<open>path.split("/").filter(Boolean).at(-1) ?? path\<close>\<close>

definition lastSegment :: "string \<Rightarrow> string" where
  "lastSegment path =
     (case filter (\<lambda>s. s \<noteq> []) (js_split CHR ''/'' path) of
        [] \<Rightarrow> path
      | segments \<Rightarrow> last segments)"

text \<open>The tab after the rename; \<^term>\<open>None\<close> when it is returned unchanged.\<close>

definition renameEntryTab :: "string \<Rightarrow> string \<Rightarrow> string \<Rightarrow> WorkbenchTab \<Rightarrow> WorkbenchTab option" where
  "renameEntryTab workspaceId fromPath toPath tab =
     (if wtWorkspaceId tab \<noteq> workspaceId then None
      else case dataPath (wtData tab) of
             None \<Rightarrow> None
           | Some path \<Rightarrow>
               (case truthy_string (remapPathByRename path fromPath toPath) of
                  None \<Rightarrow> None
                | Some remappedPath \<Rightarrow>
                    if remappedPath = path then None
                    else Some (tab\<lparr>wtTitle := lastSegment remappedPath,
                                   wtData := withDataPath remappedPath (wtData tab)\<rparr>)))"

definition renameTabsForEntryRenameState ::
  "TabStoreStateSlice \<Rightarrow> string \<Rightarrow> string \<Rightarrow> string \<Rightarrow> TabStoreStateSlice option" where
  "renameTabsForEntryRenameState state workspaceId fromPath toPath =
     (if workspaceId = [] \<or> fromPath = [] \<or> toPath = [] \<or> fromPath = toPath then None
      else
        let didChange = list_ex (\<lambda>tab. renameEntryTab workspaceId fromPath toPath tab \<noteq> None) (tabs state);
            nextTabs = map (\<lambda>tab. nullish (renameEntryTab workspaceId fromPath toPath tab) tab) (tabs state)
        in if \<not> didChange then None else Some (state\<lparr>tabs := nextTabs\<rparr>))"

definition setFileTabDirtyState ::
  "TabStoreStateSlice \<Rightarrow> string \<Rightarrow> bool \<Rightarrow> TabStoreStateSlice option" where
  "setFileTabDirtyState state tid isDirty =
     (case List.find (\<lambda>tab. wtId tab = tid) (tabs state) of
        None \<Rightarrow> None
      | Some targetTab \<Rightarrow>
          (case wtData targetTab of
             FileTab d \<Rightarrow>
               if fileIsDirty d = isDirty then None
               else Some (state\<lparr>tabs := mapTabData tid
                      (\<lambda>d. case d of FileTab t \<Rightarrow> FileTab (t\<lparr>fileIsDirty := isDirty\<rparr>) | _ \<Rightarrow> d) (tabs state)\<rparr>)
           | _ \<Rightarrow> None))"

section \<open>Reordering\<close>

text \<open>
  The closing \<open>map\<close> of \<open>reorderTabState\<close>: tabs in scope are replaced by the reordered ones, one
  after the other, the cursor being the rest of the list; \<open>nextTab ?? tab\<close> when it ran out.
\<close>

fun placeScoped :: "('a \<Rightarrow> bool) \<Rightarrow> 'a list \<Rightarrow> 'a list \<Rightarrow> 'a list" where
  "placeScoped inScope [] reordered = []"
| "placeScoped inScope (tab # ts) reordered =
     (if \<not> inScope tab then tab # placeScoped inScope ts reordered
      else case reordered of
             [] \<Rightarrow> tab # placeScoped inScope ts []
           | nextTab # rest \<Rightarrow> nextTab # placeScoped inScope ts rest)"

definition reorderTabState ::
  "TabStoreStateSlice \<Rightarrow> string \<Rightarrow> string \<Rightarrow> DropPosition \<Rightarrow> TabStoreStateSlice option" where
  "reorderTabState state draggedTabId targetTabId position =
     (if draggedTabId = targetTabId then None
      else
     (case (List.find (\<lambda>tab. wtId tab = draggedTabId) (tabs state),
            List.find (\<lambda>tab. wtId tab = targetTabId) (tabs state)) of
        (Some draggedTab, Some targetTab) \<Rightarrow>
          if wtWorkspaceId draggedTab \<noteq> wtWorkspaceId targetTab \<or> wtPinned draggedTab \<noteq> wtPinned targetTab
          then None
          else
            let inScope = (\<lambda>tab. wtWorkspaceId tab = wtWorkspaceId draggedTab \<and>
                                 wtPinned tab = wtPinned draggedTab);
                scopedTabs = filter inScope (tabs state);
                tabsWithoutDragged = filter (\<lambda>tab. wtId tab \<noteq> draggedTabId) scopedTabs;
                targetIndex = js_findIndex (\<lambda>tab. wtId tab = targetTabId) tabsWithoutDragged
            in if targetIndex < 0 then None
               else
                 let insertAt = (if position = Before then targetIndex else targetIndex + 1);
                     reorderedScopedTabs = js_splice_insert insertAt draggedTab tabsWithoutDragged
                 in Some (selectWorkbenchTab
                           (state\<lparr>tabs := placeScoped inScope (tabs state) reorderedScopedTabs\<rparr>)
                           (wtWorkspaceId draggedTab) draggedTabId)
      | _ \<Rightarrow> None))"

section \<open>Selection\<close>

definition resolveSelectedTabIdForWorkspace ::
  "string \<Rightarrow> WorkbenchTab list \<Rightarrow> (string \<rightharpoonup> string) \<Rightarrow> string" where
  "resolveSelectedTabIdForWorkspace workspaceId ts selectedByWorkspace =
     (let workspaceTabs = filter (\<lambda>tab. wtWorkspaceId tab = workspaceId) ts;
          firstTab = nullish (map_option wtId (js_at workspaceTabs 0)) []
      in case truthy_string (selectedByWorkspace workspaceId) of
           None \<Rightarrow> firstTab
         | Some preferredTabId \<Rightarrow>
             if list_ex (\<lambda>tab. wtId tab = preferredTabId) workspaceTabs then preferredTabId else firstTab)"

definition isTerminalTabWithSessionId :: "WorkbenchTab \<Rightarrow> bool" where
  "isTerminalTabWithSessionId tab =
     (case wtData tab of
        TerminalTab d \<Rightarrow> truthy_string (map_option js_trim (terminalSessionId d)) \<noteq> None
      | _ \<Rightarrow> False)"

end
