(* ===== verification/Tab_Store.thy ===== *)
theory Tab_Store
  imports Tab_Layout
begin

text \<open>
  The tab store (\<open>workbench/state/tabStore.ts\<close>): every action runs a pure tab operation on the
  state and keeps the state when the operation declines. The id drawn by
  \<open>createClientTabId()\<close>, a random UUID, is an argument of \<open>tabStore_openTab\<close>.
\<close>

definition emptyTabStore :: TabStoreStateSlice where
  "emptyTabStore = \<lparr>tabs = [], selectedTabId = [], selectedTabIdByWorkspaceId = (\<lambda>_. None)\<rparr>"

text \<open>\<open>Array.prototype.sort\<close> is stable, and the comparator orders pinned before unpinned.\<close>

definition getWorkspaceTabs :: "TabStoreStateSlice \<Rightarrow> string \<Rightarrow> WorkbenchTab list" where
  "getWorkspaceTabs st workspaceId =
     sort_key (\<lambda>tab. \<not> wtPinned tab) (filter (\<lambda>tab. wtWorkspaceId tab = workspaceId) (tabs st))"

definition tabStore_resolveTabForWorkspace :: "string \<Rightarrow> TabStoreStateSlice \<Rightarrow> TabStoreStateSlice" where
  "tabStore_resolveTabForWorkspace workspaceId st =
     st\<lparr>selectedTabId :=
          resolveSelectedTabIdForWorkspace workspaceId (tabs st) (selectedTabIdByWorkspaceId st)\<rparr>"

definition tabStore_selectTab :: "string \<Rightarrow> TabStoreStateSlice \<Rightarrow> TabStoreStateSlice" where
  "tabStore_selectTab tid st =
     (case List.find (\<lambda>tab. wtId tab = tid) (tabs st) of
        None \<Rightarrow> st\<lparr>selectedTabId := tid\<rparr>
      | Some nextTab \<Rightarrow>
          st\<lparr>selectedTabId := tid,
             selectedTabIdByWorkspaceId := (selectedTabIdByWorkspaceId st)(wtWorkspaceId nextTab \<mapsto> tid)\<rparr>)"

text \<open>The state after the action, and the removed tab ids it returns.\<close>

definition tabStore_retainWorkspaceTabs ::
  "string list \<Rightarrow> string \<Rightarrow> TabStoreStateSlice \<Rightarrow> TabStoreStateSlice \<times> string list" where
  "tabStore_retainWorkspaceTabs workspaceIds activeWorkspaceId st =
     (let removedTabIds = map wtId (filter (\<lambda>tab. wtWorkspaceId tab \<notin> set workspaceIds) (tabs st));
          nextTabs = filter (\<lambda>tab. wtWorkspaceId tab \<in> set workspaceIds) (tabs st);
          nextTabIdSet = set (map wtId nextTabs);
          nextSelected = (\<lambda>workspaceId.
            case selectedTabIdByWorkspaceId st workspaceId of
              None \<Rightarrow> None
            | Some tid \<Rightarrow> if workspaceId \<in> set workspaceIds \<and> tid \<in> nextTabIdSet then Some tid else None)
      in (\<lparr>tabs = nextTabs,
           selectedTabId = resolveSelectedTabIdForWorkspace activeWorkspaceId nextTabs nextSelected,
           selectedTabIdByWorkspaceId = nextSelected\<rparr>,
          removedTabIds))"

definition newTabId :: "OpenTabInput \<Rightarrow> string \<Rightarrow> string" where
  "newTabId input uuid =
     (case inPayload input of OpenTerminal i \<Rightarrow> nullish (otTabId i) uuid | _ \<Rightarrow> uuid)"

definition tabStore_openTab ::
  "OpenTabInput \<Rightarrow> string \<Rightarrow> string list option \<Rightarrow> string \<Rightarrow> TabStoreStateSlice \<Rightarrow> TabStoreStateSlice" where
  "tabStore_openTab input workspaceId activePaneTabIds uuid st =
     nullish (openTabState st input (newTabId input uuid) activePaneTabIds (Some workspaceId)) st"

definition tabStore_closeTab :: "string \<Rightarrow> string option \<Rightarrow> TabStoreStateSlice \<Rightarrow> TabStoreStateSlice" where
  "tabStore_closeTab tid preferred st = nullish (closeTabState st tid preferred) st"

definition tabStore_closeOtherTabs :: "string \<Rightarrow> TabStoreStateSlice \<Rightarrow> TabStoreStateSlice" where
  "tabStore_closeOtherTabs tid st = nullish (closeOtherTabsState st tid) st"

definition tabStore_closeAllTabs :: "string \<Rightarrow> TabStoreStateSlice \<Rightarrow> TabStoreStateSlice" where
  "tabStore_closeAllTabs tid st = nullish (closeAllTabsState st tid) st"

definition tabStore_closeAllTerminalTabs :: "string \<Rightarrow> TabStoreStateSlice \<Rightarrow> TabStoreStateSlice" where
  "tabStore_closeAllTerminalTabs workspaceId st = nullish (closeAllTerminalTabsState st (Some workspaceId)) st"

definition tabStore_setTerminalTabSessionId ::
  "string \<Rightarrow> string \<Rightarrow> TabStoreStateSlice \<Rightarrow> TabStoreStateSlice" where
  "tabStore_setTerminalTabSessionId tid sessionId st =
     (let normalizedTabId = js_trim tid; normalizedSessionId = js_trim sessionId in
      if normalizedTabId = [] \<or> normalizedSessionId = [] then st
      else st\<lparr>tabs := mapTabData normalizedTabId
             (\<lambda>d. case d of TerminalTab t \<Rightarrow> TerminalTab (t\<lparr>terminalSessionId := Some normalizedSessionId\<rparr>) | _ \<Rightarrow> d)
             (tabs st)\<rparr>)"

definition tabStore_setAgentChatTabSession ::
  "string \<Rightarrow> string \<Rightarrow> TabStoreStateSlice \<Rightarrow> TabStoreStateSlice" where
  "tabStore_setAgentChatTabSession tid sessionId st =
     (let normalizedTabId = js_trim tid; normalizedSessionId = js_trim sessionId in
      if normalizedTabId = [] \<or> normalizedSessionId = [] then st
      else st\<lparr>tabs := mapTabData normalizedTabId
             (\<lambda>d. case d of AgentChatTab t \<Rightarrow> AgentChatTab (t\<lparr>chatSessionId := Some normalizedSessionId\<rparr>) | _ \<Rightarrow> d)
             (tabs st)\<rparr>)"

definition tabStore_setAgentChatTabSubagentControl ::
  "string \<Rightarrow> string option \<Rightarrow> string option \<Rightarrow> TabStoreStateSlice \<Rightarrow> TabStoreStateSlice" where
  "tabStore_setAgentChatTabSubagentControl tid agentId parentSessionId st =
     (let normalizedTabId = js_trim tid in
      if normalizedTabId = [] then st
      else st\<lparr>tabs := mapTabData normalizedTabId
             (\<lambda>d. case d of
                AgentChatTab t \<Rightarrow>
                  AgentChatTab (t\<lparr>chatSubagentAgentId := truthy_string (map_option js_trim agentId),
                                  chatSubagentParentSessionId :=
                                    truthy_string (map_option js_trim parentSessionId)\<rparr>)
              | _ \<Rightarrow> d)
             (tabs st)\<rparr>)"

definition tabStore_setTerminalTabAgentKind ::
  "string \<Rightarrow> DesktopAgentKind option \<Rightarrow> TabStoreStateSlice \<Rightarrow> TabStoreStateSlice" where
  "tabStore_setTerminalTabAgentKind tid agentKind st =
     (let normalizedTabId = js_trim tid in
      if normalizedTabId = [] then st
      else st\<lparr>tabs := mapTabData normalizedTabId
             (\<lambda>d. case d of TerminalTab t \<Rightarrow> TerminalTab (t\<lparr>terminalAgentKind := agentKind\<rparr>) | _ \<Rightarrow> d)
             (tabs st)\<rparr>)"

definition tabStore_setBrowserTabFaviconUrl ::
  "string \<Rightarrow> string option \<Rightarrow> TabStoreStateSlice \<Rightarrow> TabStoreStateSlice" where
  "tabStore_setBrowserTabFaviconUrl tid faviconUrl st =
     (let normalizedTabId = js_trim tid; normalizedFaviconUrl = map_option js_trim faviconUrl in
      if normalizedTabId = [] then st
      else st\<lparr>tabs := mapTabData normalizedTabId
             (\<lambda>d. case d of
                BrowserTab t \<Rightarrow> BrowserTab (t\<lparr>browserFaviconUrl := truthy_string normalizedFaviconUrl\<rparr>)
              | _ \<Rightarrow> d)
             (tabs st)\<rparr>)"

definition tabStore_setBrowserTabUrl ::
  "string \<Rightarrow> string \<Rightarrow> TabStoreStateSlice \<Rightarrow> TabStoreStateSlice" where
  "tabStore_setBrowserTabUrl tid url st =
     (let normalizedTabId = js_trim tid in
      if normalizedTabId = [] then st
      else st\<lparr>tabs := updateFirst (\<lambda>t. wtId t = normalizedTabId \<and> wtKind t = KBrowser)
             (\<lambda>t. t\<lparr>wtData := (case wtData t of BrowserTab b \<Rightarrow> BrowserTab (b\<lparr>browserUrl := url\<rparr>) | d \<Rightarrow> d)\<rparr>)
             (tabs st)\<rparr>)"

definition tabStore_toggleTabPinned :: "string \<Rightarrow> TabStoreStateSlice \<Rightarrow> TabStoreStateSlice" where
  "tabStore_toggleTabPinned tid st = toggleTabPinnedState st tid"

definition tabStore_promoteTemporaryTab :: "string \<Rightarrow> TabStoreStateSlice \<Rightarrow> TabStoreStateSlice" where
  "tabStore_promoteTemporaryTab tid st = nullish (promoteTemporaryTabState st tid) st"

definition tabStore_reorderTab ::
  "string \<Rightarrow> string \<Rightarrow> DropPosition \<Rightarrow> TabStoreStateSlice \<Rightarrow> TabStoreStateSlice" where
  "tabStore_reorderTab draggedTabId targetTabId position st =
     nullish (reorderTabState st draggedTabId targetTabId position) st"

definition tabStore_renameTab ::
  "string \<Rightarrow> string \<Rightarrow> bool option \<Rightarrow> TabStoreStateSlice \<Rightarrow> TabStoreStateSlice" where
  "tabStore_renameTab tid newTitle userRenamed st = nullish (renameTabState st tid newTitle userRenamed) st"

definition tabStore_renameTabsForEntryRename ::
  "string \<Rightarrow> string \<Rightarrow> string \<Rightarrow> TabStoreStateSlice \<Rightarrow> TabStoreStateSlice" where
  "tabStore_renameTabsForEntryRename workspaceId fromPath toPath st =
     nullish (renameTabsForEntryRenameState st workspaceId fromPath toPath) st"

definition tabStore_setFileTabDirty :: "string \<Rightarrow> bool \<Rightarrow> TabStoreStateSlice \<Rightarrow> TabStoreStateSlice" where
  "tabStore_setFileTabDirty tid isDirty st = nullish (setFileTabDirtyState st tid isDirty) st"

end
