(* ===== verification/Tab_Facts.thy ===== *)
theory Tab_Facts
  imports Tab_Store
begin

text \<open>
  The invariant of the tab store and what each tab operation does to it. Tab ids are unique and
  not empty, every tab belongs to a workspace, and a pinned tab is never a temporary one (so
  a preview never replaces it).
\<close>

section \<open>The invariant\<close>

named_theorems tab_simps \<open>how tab updates act on ids, workspaces and pins\<close>

definition tab_ok :: "WorkbenchTab \<Rightarrow> bool" where
  "tab_ok tab \<longleftrightarrow> wtId tab \<noteq> [] \<and> wtWorkspaceId tab \<noteq> [] \<and> (wtPinned tab \<longrightarrow> \<not> isTemporaryTab tab)"

definition tabs_wf :: "TabStoreStateSlice \<Rightarrow> bool" where
  "tabs_wf st \<longleftrightarrow> distinct (map wtId (tabs st)) \<and> (\<forall>tab \<in> set (tabs st). tab_ok tab)"

abbreviation tabIdsOf :: "TabStoreStateSlice \<Rightarrow> string list" where
  "tabIdsOf st \<equiv> map wtId (tabs st)"

lemma tabs_wf_empty [simp]: "tabs_wf emptyTabStore"
  by (simp add: tabs_wf_def emptyTabStore_def)

lemma tabs_wf_select [simp]:
  "tabs_wf (selectWorkbenchTab st w t) = tabs_wf st"
  "tabs (selectWorkbenchTab st w t) = tabs st"
  "selectedTabId (selectWorkbenchTab st w t) = t"
  "selectedTabIdByWorkspaceId (selectWorkbenchTab st w t) w = Some t"
  by (simp_all add: tabs_wf_def selectWorkbenchTab_def)

lemma tabs_wf_subseq:
  assumes "tabs_wf st" "subseq ts (tabs st)"
  shows "tabs_wf (st\<lparr>tabs := ts\<rparr>)"
proof -
  have "subseq (map wtId ts) (map wtId (tabs st))" using assms(2) by (rule subseq_map)
  then have "distinct (map wtId ts)" using assms(1) by (auto simp: tabs_wf_def dest: subseq_distinct)
  moreover have "set ts \<subseteq> set (tabs st)" using assms(2) by (auto dest: list_emb_set)
  ultimately show ?thesis using assms(1) by (auto simp: tabs_wf_def)
qed

lemma tabs_wf_filter: "tabs_wf st \<Longrightarrow> tabs_wf (st\<lparr>tabs := filter P (tabs st)\<rparr>)"
  by (rule tabs_wf_subseq) simp_all

lemma tabs_wf_map:
  assumes "tabs_wf st" "\<And>tab. tab \<in> set (tabs st) \<Longrightarrow> tab_ok tab \<Longrightarrow> wtId (f tab) = wtId tab \<and> tab_ok (f tab)"
  shows "tabs_wf (st\<lparr>tabs := map f (tabs st)\<rparr>)"
proof -
  have "map wtId (map f (tabs st)) = map wtId (tabs st)"
    using assms by (auto simp: tabs_wf_def)
  then have "distinct (map wtId (map f (tabs st)))" using assms(1) by (simp only: tabs_wf_def)
  with assms show ?thesis by (auto simp: tabs_wf_def)
qed

lemma tabs_wf_cong: "tabs st' = tabs st \<Longrightarrow> tabs_wf st' = tabs_wf st"
  by (simp add: tabs_wf_def)

lemma find_by_id:
  assumes "tabs_wf st" "tab \<in> set (tabs st)"
  shows "List.find (\<lambda>t. wtId t = wtId tab) (tabs st) = Some tab"
proof (rule find_eq_SomeI)
  show "t = tab" if "t \<in> set (tabs st)" "wtId t = wtId tab" for t
    using that assms by (auto simp: tabs_wf_def distinct_map inj_on_def)
qed (use assms in auto)

lemma find_id_None: "List.find (\<lambda>t. wtId t = i) (tabs st) = None \<longleftrightarrow> i \<notin> set (tabIdsOf st)"
  by (auto simp: find_None_iff)

lemma find_id_SomeD: "List.find (\<lambda>t. wtId t = i) ts = Some tab \<Longrightarrow> tab \<in> set ts \<and> wtId tab = i"
  by (drule find_SomeD) simp

section \<open>Updates of tab data\<close>

lemma mapTabData_ids [simp]: "map wtId (mapTabData i f ts) = map wtId ts"
  by (simp add: mapTabData_def)

lemma mapTabData_memberD:
  assumes "tab \<in> set (mapTabData t f ts)"
  obtains x where "x \<in> set ts" "wtId x = wtId tab" "wtId x = t \<Longrightarrow> wtData tab = f (wtData x)"
    "wtId x \<noteq> t \<Longrightarrow> tab = x"
  using assms by (auto simp: mapTabData_def)

text \<open>An update of the data that makes no tab temporary.\<close>

definition temp_safe :: "(WorkbenchTabData \<Rightarrow> WorkbenchTabData) \<Rightarrow> bool" where
  "temp_safe f \<longleftrightarrow> (\<forall>d. dataIsTemporary (f d) \<longrightarrow> dataIsTemporary d)"

lemma mapTabData_wf:
  assumes "tabs_wf st" "temp_safe f"
  shows "tabs_wf (st\<lparr>tabs := mapTabData i f (tabs st)\<rparr>)"
  unfolding mapTabData_def using assms(1)
  by (rule tabs_wf_map) (use assms(2) in \<open>auto simp: tab_ok_def isTemporaryTab_def temp_safe_def\<close>)

lemma temp_safe_updates [simp]:
  "temp_safe withoutTemporary" "temp_safe markUserRenamed" "temp_safe (withDataPath p)"
  unfolding temp_safe_def by (rule allI, case_tac d, simp_all)+

lemma dataIsTemporary_withoutTemporary [simp]: "\<not> dataIsTemporary (withoutTemporary d)"
  by (cases d) simp_all

lemma dataKind_updates [simp]:
  "dataKind (withoutTemporary d) = dataKind d" "dataKind (markUserRenamed d) = dataKind d"
  "dataKind (withDataPath p d) = dataKind d"
  by (cases d; simp)+

lemma dataIsTemporary_updates [simp]:
  "dataIsTemporary (markUserRenamed d) = dataIsTemporary d"
  "dataIsTemporary (withDataPath p d) = dataIsTemporary d"
  by (cases d; simp)+

lemma dataPath_withDataPath [simp]:
  "dataPath (withDataPath p d) = (if dataPath d = None then None else Some p)"
  by (cases d) simp_all

section \<open>Opening\<close>

lemma createTab_simps [simp]:
  "wtId (createTabFromOpenInput i w t) = t"
  "wtWorkspaceId (createTabFromOpenInput i w t) = w"
  "wtTitle (createTabFromOpenInput i w t) = openTitle (inPayload i)"
  "\<not> wtPinned (createTabFromOpenInput i w t)"
  by (simp_all add: createTabFromOpenInput_def)

lemma createTab_ok: "t \<noteq> [] \<Longrightarrow> w \<noteq> [] \<Longrightarrow> tab_ok (createTabFromOpenInput i w t)"
  by (simp add: tab_ok_def)

text \<open>Reopening never makes the existing tab temporary.\<close>

lemma reopenData_temporary:
  assumes "reopenData payload e = Some f"
  shows "dataIsTemporary (f e) \<longrightarrow> dataIsTemporary e" "dataKind (f d) = dataKind d"
  using assms
  by (cases payload; cases e; auto simp: Let_def split: if_splits option.splits WorkbenchTabData.splits)+

lemma reopen_wf:
  assumes "tabs_wf st" "e \<in> set (tabs st)" "reopenData payload (wtData e) = Some f"
  shows "tabs_wf (st\<lparr>tabs := mapTabData (wtId e) f (tabs st)\<rparr>)"
  unfolding mapTabData_def using assms(1)
proof (rule tabs_wf_map)
  fix tab assume tab: "tab \<in> set (tabs st)" "tab_ok tab"
  with assms(1,2) have "tab = e" if "wtId tab = wtId e"
    using that by (auto simp: tabs_wf_def distinct_map inj_on_def)
  with tab reopenData_temporary(1) [OF assms(3)]
  show "wtId (if wtId tab = wtId e then tab\<lparr>wtData := f (wtData tab)\<rparr> else tab) = wtId tab \<and>
    tab_ok (if wtId tab = wtId e then tab\<lparr>wtData := f (wtData tab)\<rparr> else tab)"
    by (cases "wtId tab = wtId e") (auto simp: tab_ok_def isTemporaryTab_def)
qed

definition openWorkspace :: "OpenTabInput \<Rightarrow> string option \<Rightarrow> string" where
  "openWorkspace input selected = nullish (inWorkspaceId input) (nullish selected [])"

lemma findExistingTab_SomeD:
  "findExistingTab ts input w = Some e \<Longrightarrow>
     e \<in> set ts \<and> wtWorkspaceId e = w \<and> matchesInput (inPayload input) (wtData e) (wtTitle e)"
  by (auto simp: findExistingTab_def dest!: find_SomeD split: if_splits)

lemma findTemporaryTab_SomeD:
  "findTemporaryTab ts w ids k = Some e \<Longrightarrow>
     e \<in> set ts \<and> wtWorkspaceId e = w \<and> isTemporaryTab e \<and> (\<forall>kind. k = Some kind \<longrightarrow> wtKind e = kind) \<and>
     (\<forall>is. ids = Some is \<longrightarrow> wtId e \<in> set is)"
  by (auto simp: findTemporaryTab_def dest!: find_SomeD split: option.splits)

lemmas openTabState_folded = openTabState_def [folded openWorkspace_def, unfolded Let_def]

text \<open>The four outcomes of an open request.\<close>

lemma openTabState_cases:
  assumes "openTabState st input nextId paneTabs sel = Some st'"
  obtains
    (focus) e where "findExistingTab (tabs st) input (openWorkspace input sel) = Some e"
      "reopenData (inPayload input) (wtData e) = None"
      "st' = selectWorkbenchTab st (openWorkspace input sel) (wtId e)"
  | (update) e f where "findExistingTab (tabs st) input (openWorkspace input sel) = Some e"
      "reopenData (inPayload input) (wtData e) = Some f"
      "st' = selectWorkbenchTab (st\<lparr>tabs := mapTabData (wtId e) f (tabs st)\<rparr>)
               (openWorkspace input sel) (wtId e)"
  | (replace) e k where "findExistingTab (tabs st) input (openWorkspace input sel) = None"
      "temporaryKind (inPayload input) = Some k"
      "findTemporaryTab (tabs st) (openWorkspace input sel) paneTabs (Some k) = Some e"
      "st' = selectWorkbenchTab (st\<lparr>tabs := map (\<lambda>tab. if wtId tab = wtId e
                 then createTabFromOpenInput input (openWorkspace input sel) (wtId e) else tab) (tabs st)\<rparr>)
               (openWorkspace input sel) (wtId e)"
  | (append) "findExistingTab (tabs st) input (openWorkspace input sel) = None"
      "\<forall>k. temporaryKind (inPayload input) = Some k \<longrightarrow>
         findTemporaryTab (tabs st) (openWorkspace input sel) paneTabs (Some k) = None"
      "st' = selectWorkbenchTab
               (st\<lparr>tabs := tabs st @ [createTabFromOpenInput input (openWorkspace input sel) nextId]\<rparr>)
               (openWorkspace input sel) nextId"
proof -
  have st': "openTabState st input nextId paneTabs sel = Some st'" by (rule assms)
  show thesis
  proof (cases "findExistingTab (tabs st) input (openWorkspace input sel)")
    case (Some e)
    with st' focus update show thesis
      by (cases "reopenData (inPayload input) (wtData e)")
         (auto simp: openTabState_folded split: if_splits)
  next
    case None
    show thesis
    proof (cases "case temporaryKind (inPayload input) of None \<Rightarrow> None
        | Some k \<Rightarrow> findTemporaryTab (tabs st) (openWorkspace input sel) paneTabs (Some k)")
      case (Some e)
      with None st' replace show thesis
        by (auto simp: openTabState_folded split: if_splits option.splits)
    next
      case None': None
      with None st' append show thesis
        by (auto simp: openTabState_folded split: if_splits option.splits)
    qed
  qed
qed

lemma openTabState_None_iff: "openTabState st input nextId paneTabs sel = None \<longleftrightarrow> openWorkspace input sel = []"
  by (auto simp: openTabState_folded split: option.split)

lemma openTabState_wf:
  assumes wf: "tabs_wf st" and new: "nextId \<noteq> []" "nextId \<notin> set (tabIdsOf st)"
    and ret: "openTabState st input nextId paneTabs sel = Some st'"
  shows "tabs_wf st'"
proof -
  have w: "openWorkspace input sel \<noteq> []" using ret openTabState_None_iff [of st input nextId paneTabs sel] by auto
  from ret show ?thesis
  proof (cases rule: openTabState_cases)
    case (focus e)
    with wf show ?thesis by simp
  next
    case (update e f)
    with wf show ?thesis by (auto intro: reopen_wf dest: findExistingTab_SomeD)
  next
    case (replace e k)
    then have "wtId e \<noteq> []" using wf by (auto simp: tabs_wf_def tab_ok_def dest!: findTemporaryTab_SomeD)
    then have "tabs_wf (st\<lparr>tabs := map (\<lambda>tab. if wtId tab = wtId e
                 then createTabFromOpenInput input (openWorkspace input sel) (wtId e) else tab) (tabs st)\<rparr>)"
      using wf w by (intro tabs_wf_map) (auto simp: createTab_ok)
    with replace(4) show ?thesis by simp
  next
    case append
    then show ?thesis using wf new w by (auto simp: tabs_wf_def createTab_ok)
  qed
qed

end
