(* ===== verification/Tab_Correct.thy ===== *)
theory Tab_Correct
  imports Tab_Facts
begin

text \<open>
  Closing, pinning, renaming and reordering of tabs keep the invariant of the tab store, and
  the store as a state machine: every action is a step, and every reachable state is well
  formed. Each partial operation is an instance of the interface \<open>partial_update\<close>.
\<close>

section \<open>Reopening finds the same tab\<close>

text \<open>The requests whose new tab carries the identity the next request looks for: for a browser
  that is a url with no surrounding white space.\<close>

fun stableIdentity :: "OpenTabPayload \<Rightarrow> bool" where
  "stableIdentity (OpenBrowser i) = (case obUrl i of None \<Rightarrow> False | Some u \<Rightarrow> js_trim u = u)"
| "stableIdentity _ = True"

lemma created_matches:
  assumes "\<not> alwaysOpensNew (inPayload input)" "stableIdentity (inPayload input)"
  shows "matchesInput (inPayload input) (wtData (createTabFromOpenInput input w t))
           (wtTitle (createTabFromOpenInput input w t))"
  using assms
  by (cases "inPayload input")
     (auto simp: createTabFromOpenInput_def trimmedOr_def truthy_string_def nullish_conv
           js_trim_Nil split: option.splits if_splits)

lemma reopened_matches:
  assumes "matchesInput payload e ttl" "stableIdentity payload" "reopenData payload e = Some f"
  shows "matchesInput payload (f d) ttl = matchesInput payload d ttl"
  using assms
  by (cases payload; cases e; cases d)
     (auto simp: Let_def truthy_string_def split: if_splits option.splits)

lemma find_map_same:
  assumes "\<And>x. x \<in> set xs \<Longrightarrow> P (f x) = P x"
  shows "List.find P (map f xs) = map_option f (List.find P xs)"
  using assms by (induction xs) auto

lemma openTabState_finds_selected:
  assumes wf: "tabs_wf st" and id: "\<not> alwaysOpensNew (inPayload input)" "stableIdentity (inPayload input)"
    and new: "nextId \<notin> set (tabIdsOf st)"
    and ret: "openTabState st input nextId paneTabs sel = Some st'"
  shows "\<exists>e. findExistingTab (tabs st') input (openWorkspace input sel) = Some e \<and> wtId e = selectedTabId st'"
  using ret
proof (cases rule: openTabState_cases)
  case (focus e)
  then show ?thesis by simp
next
  case (update e f)
  let ?g = "\<lambda>tab. if wtId tab = wtId e then tab\<lparr>wtData := f (wtData tab)\<rparr> else tab"
  note e = findExistingTab_SomeD [OF update(1)]
  have "List.find (\<lambda>tab. wtWorkspaceId tab = openWorkspace input sel \<and>
            matchesInput (inPayload input) (wtData tab) (wtTitle tab)) (map ?g (tabs st)) =
        map_option ?g (List.find (\<lambda>tab. wtWorkspaceId tab = openWorkspace input sel \<and>
            matchesInput (inPayload input) (wtData tab) (wtTitle tab)) (tabs st))"
  proof (rule find_map_same)
    fix x assume x: "x \<in> set (tabs st)"
    with wf e have "x = e" if "wtId x = wtId e"
      using that by (auto simp: tabs_wf_def distinct_map inj_on_def)
    then show "(wtWorkspaceId (?g x) = openWorkspace input sel \<and>
          matchesInput (inPayload input) (wtData (?g x)) (wtTitle (?g x))) =
        (wtWorkspaceId x = openWorkspace input sel \<and> matchesInput (inPayload input) (wtData x) (wtTitle x))"
      using reopened_matches [of "inPayload input" "wtData e" "wtTitle e" f] e id(2) update(2)
      by (cases "wtId x = wtId e") auto
  qed
  with update(1,3) id(1) show ?thesis by (auto simp: findExistingTab_def mapTabData_def)
next
  case (replace e k)
  let ?new = "createTabFromOpenInput input (openWorkspace input sel) (wtId e)"
  let ?P = "\<lambda>tab. wtWorkspaceId tab = openWorkspace input sel \<and>
            matchesInput (inPayload input) (wtData tab) (wtTitle tab)"
  have none: "\<forall>x \<in> set (tabs st). \<not> ?P x" using replace(1) id(1) by (simp add: findExistingTab_def find_None_iff)
  have P: "?P ?new" using created_matches [OF id] by simp
  have "List.find ?P (map (\<lambda>tab. if wtId tab = wtId e then ?new else tab) (tabs st)) = Some ?new"
    using none P findTemporaryTab_SomeD [OF replace(3)] by (intro find_eq_SomeI) auto
  with replace(4) id(1) show ?thesis by (simp add: findExistingTab_def)
next
  case append
  let ?new = "createTabFromOpenInput input (openWorkspace input sel) nextId"
  have "findExistingTab (tabs st') input (openWorkspace input sel) = Some ?new"
    using append created_matches [OF id, of "openWorkspace input sel" nextId] id(1)
    by (simp add: findExistingTab_def find_append)
  with append(3) show ?thesis by simp
qed

lemma filter_map_other:
  "filter (\<lambda>x. g x \<noteq> k) (map (\<lambda>x. if g x = k then f x else x) xs) = filter (\<lambda>x. g x \<noteq> k) xs"
  if "\<And>x. g x = k \<Longrightarrow> g (f x) = k"
  using that by (induction xs) auto

lemma reopenData_path:
  assumes "reopenData payload e = Some f"
  shows "dataPath (f d) = dataPath d"
  using assms
  by (cases payload; cases e) (auto simp: Let_def split: if_splits option.splits WorkbenchTabData.splits)

lemma mapTabData_member:
  "e \<in> set ts \<Longrightarrow> e\<lparr>wtData := f (wtData e)\<rparr> \<in> set (mapTabData (wtId e) f ts)"
  by (auto simp: mapTabData_def image_iff intro!: bexI [of _ e])

lemma openTabState_selected:
  assumes "openTabState st input nextId paneTabs sel = Some st'"
  shows "\<exists>tab \<in> set (tabs st'). wtId tab = selectedTabId st' \<and> wtWorkspaceId tab = openWorkspace input sel"
  using assms
proof (cases rule: openTabState_cases)
  case (focus e)
  then show ?thesis using findExistingTab_SomeD [OF focus(1)] by auto
next
  case (update e f)
  then show ?thesis using findExistingTab_SomeD [OF update(1)] mapTabData_member [of e "tabs st" f]
    by (intro bexI [of _ "e\<lparr>wtData := f (wtData e)\<rparr>"]) auto
next
  case (replace e k)
  then show ?thesis using findTemporaryTab_SomeD [OF replace(3)]
    by (intro bexI [of _ "createTabFromOpenInput input (openWorkspace input sel) (wtId e)"])
       (auto simp: image_iff intro!: bexI [of _ e])
next
  case append
  then show ?thesis by simp
qed

section \<open>Closing\<close>

lemma closeTabState_tabs:
  "closeTabState st i pref = Some st' \<Longrightarrow>
     i \<in> set (tabIdsOf st) \<and> tabs st' = filter (\<lambda>tab. wtId tab \<noteq> i) (tabs st)"
  using find_id_None [of i st] by (auto simp: closeTabState_def Let_def split: option.splits)

lemma closeTabState_wf: "tabs_wf st \<Longrightarrow> closeTabState st i pref = Some st' \<Longrightarrow> tabs_wf st'"
  using tabs_wf_filter [of st "\<lambda>tab. wtId tab \<noteq> i"] by (auto dest!: closeTabState_tabs simp: tabs_wf_def)

lemma closeOtherTabsState_wf: "tabs_wf st \<Longrightarrow> closeOtherTabsState st i = Some st' \<Longrightarrow> tabs_wf st'"
  by (auto simp: closeOtherTabsState_def tabs_wf_def distinct_map_filter split: option.splits)

lemma closeAllTabsState_wf: "tabs_wf st \<Longrightarrow> closeAllTabsState st i = Some st' \<Longrightarrow> tabs_wf st'"
  by (auto simp: closeAllTabsState_def Let_def tabs_wf_def distinct_map_filter split: option.splits)

lemma closeAllTerminalTabsState_wf:
  "tabs_wf st \<Longrightarrow> closeAllTerminalTabsState st w = Some st' \<Longrightarrow> tabs_wf st'"
  by (auto simp: closeAllTerminalTabsState_def Let_def tabs_wf_def distinct_map_filter split: if_splits)

section \<open>Pinning, renaming, dirty flag\<close>

lemma clearTemporaryOnPin_ok:
  "tab_ok tab \<Longrightarrow> wtId (clearTemporaryOnPin tab) = wtId tab \<and> tab_ok (clearTemporaryOnPin tab)"
  by (auto simp: clearTemporaryOnPin_def tab_ok_def isTemporaryTab_def)

lemma toggleTabPinnedState_wf: "tabs_wf st \<Longrightarrow> tabs_wf (toggleTabPinnedState st i)"
  unfolding toggleTabPinnedState_def by (rule tabs_wf_map) (auto simp: clearTemporaryOnPin_ok)

lemma promoteTemporaryTabState_wf:
  "tabs_wf st \<Longrightarrow> promoteTemporaryTabState st i = Some st' \<Longrightarrow> tabs_wf st'"
  by (auto simp: promoteTemporaryTabState_def mapTabData_wf split: option.splits if_splits)

lemma promoted_not_temporary:
  assumes "tabs_wf st" "tab \<in> set (tabs (tabStore_promoteTemporaryTab t st))" "wtId tab = t"
  shows "\<not> isTemporaryTab tab"
proof (cases "promoteTemporaryTabState st t")
  case None
  then have tab: "tab \<in> set (tabs st)" using assms(2) by (simp add: tabStore_promoteTemporaryTab_def)
  with None find_by_id [OF assms(1) tab] assms(3) show ?thesis
    by (simp add: promoteTemporaryTabState_def isTemporaryTab_def split: if_splits)
next
  case (Some st')
  then have "tab \<in> set (mapTabData t withoutTemporary (tabs st))" using assms(2)
    by (auto simp: tabStore_promoteTemporaryTab_def promoteTemporaryTabState_def split: option.splits if_splits)
  with assms(3) show ?thesis by (elim mapTabData_memberD) (simp add: isTemporaryTab_def)
qed

lemma renameTabState_wf: "tabs_wf st \<Longrightarrow> renameTabState st i ttl u = Some st' \<Longrightarrow> tabs_wf st'"
  by (auto simp: renameTabState_def tab_ok_def isTemporaryTab_def intro!: tabs_wf_map
           split: option.splits if_splits)

lemma renameEntryTab_SomeD:
  assumes "renameEntryTab w from to tab = Some tab'"
  shows "wtId tab' = wtId tab \<and> wtWorkspaceId tab' = wtWorkspaceId tab \<and> wtPinned tab' = wtPinned tab \<and>
    wtKind tab' = wtKind tab \<and> isTemporaryTab tab' = isTemporaryTab tab"
  using assms by (auto simp: renameEntryTab_def isTemporaryTab_def split: if_splits option.splits)

lemma renameTabsForEntryRenameState_wf:
  assumes "tabs_wf st" "renameTabsForEntryRenameState st w from to = Some st'"
  shows "tabs_wf st'"
proof -
  have "st' = st\<lparr>tabs := map (\<lambda>tab. nullish (renameEntryTab w from to tab) tab) (tabs st)\<rparr>"
    using assms(2) by (auto simp: renameTabsForEntryRenameState_def Let_def split: if_splits)
  moreover have "tabs_wf \<dots>" using assms(1)
  proof (rule tabs_wf_map)
    fix tab assume "tab_ok tab"
    then show "wtId (nullish (renameEntryTab w from to tab) tab) = wtId tab \<and>
        tab_ok (nullish (renameEntryTab w from to tab) tab)"
      by (cases "renameEntryTab w from to tab") (auto simp: tab_ok_def dest!: renameEntryTab_SomeD)
  qed
  ultimately show ?thesis by simp
qed

lemma temp_safe_dirty [simp]:
  "temp_safe (\<lambda>d. case d of FileTab t \<Rightarrow> FileTab (t\<lparr>fileIsDirty := b\<rparr>) | _ \<Rightarrow> d)"
  by (auto simp: temp_safe_def split: WorkbenchTabData.splits)

lemma setFileTabDirtyState_wf:
  "tabs_wf st \<Longrightarrow> setFileTabDirtyState st i b = Some st' \<Longrightarrow> tabs_wf st'"
  by (auto simp: setFileTabDirtyState_def mapTabData_wf split: option.splits if_splits WorkbenchTabData.splits)

section \<open>Reordering\<close>

lemma placeScoped_correct:
  assumes "length reordered = length (filter P ts)" "\<forall>x \<in> set reordered. P x"
  shows "filter P (placeScoped P ts reordered) = reordered \<and>
    filter (\<lambda>x. \<not> P x) (placeScoped P ts reordered) = filter (\<lambda>x. \<not> P x) ts \<and>
    length (placeScoped P ts reordered) = length ts \<and>
    map P (placeScoped P ts reordered) = map P ts"
  using assms by (induction P ts reordered rule: placeScoped.induct) (auto split: list.splits)

lemma placeScoped_nth:
  assumes "i < length ts" "\<not> P (ts ! i)"
  shows "placeScoped P ts reordered ! i = ts ! i"
  using assms by (induction P ts reordered arbitrary: i rule: placeScoped.induct)
                 (auto simp: nth_Cons split: list.splits nat.splits)

lemma placeScoped_mset:
  assumes "mset reordered = mset (filter P ts)"
  shows "mset (placeScoped P ts reordered) = mset ts"
proof -
  have "length reordered = length (filter P ts)" using assms by (metis size_mset)
  moreover have "\<forall>x \<in> set reordered. P x" using assms by (metis mem_Collect_eq set_filter set_mset_mset IntE)
  ultimately have c: "filter P (placeScoped P ts reordered) = reordered"
      "filter (\<lambda>x. \<not> P x) (placeScoped P ts reordered) = filter (\<lambda>x. \<not> P x) ts"
    using placeScoped_correct [of reordered P ts] by simp_all
  have "mset xs = mset (filter P xs) + mset (filter (\<lambda>x. \<not> P x) xs)" for xs
    by (simp flip: multiset_partition)
  then show ?thesis using c assms by metis
qed

text \<open>What a carried-out reordering does, in terms of the dragged and the target tab.\<close>

lemma reorderTabState_cases:
  assumes "reorderTabState st i j position = Some st'"
  obtains dragged target where "i \<noteq> j"
    "List.find (\<lambda>tab. wtId tab = i) (tabs st) = Some dragged"
    "List.find (\<lambda>tab. wtId tab = j) (tabs st) = Some target"
    "wtWorkspaceId target = wtWorkspaceId dragged" "wtPinned target = wtPinned dragged"
  using assms by (auto simp: reorderTabState_def Let_def split: if_splits option.splits)

abbreviation sameScope :: "WorkbenchTab \<Rightarrow> WorkbenchTab \<Rightarrow> bool" where
  "sameScope dragged tab \<equiv> wtWorkspaceId tab = wtWorkspaceId dragged \<and> wtPinned tab = wtPinned dragged"

lemma reorderTabState_scoped:
  assumes wf: "tabs_wf st" and ret: "reorderTabState st i j position = Some st'"
    and d: "List.find (\<lambda>tab. wtId tab = i) (tabs st) = Some dragged"
    and t: "List.find (\<lambda>tab. wtId tab = j) (tabs st) = Some target"
  shows "\<exists>ys zs. filter (\<lambda>tab. wtId tab \<noteq> i) (filter (sameScope dragged) (tabs st)) = ys @ target # zs \<and>
    st' = selectWorkbenchTab (st\<lparr>tabs := placeScoped (sameScope dragged) (tabs st)
        (ys @ (if position = Before then [dragged, target] else [target, dragged]) @ zs)\<rparr>)
      (wtWorkspaceId dragged) i"
proof -
  let ?rest = "filter (\<lambda>tab. wtId tab \<noteq> i) (filter (sameScope dragged) (tabs st))"
  from ret d t have c: "i \<noteq> j" "sameScope dragged target" by (auto elim!: reorderTabState_cases)
  note dt = find_id_SomeD [OF d] find_id_SomeD [OF t]
  have "target \<in> set ?rest" using dt c by auto
  from js_findIndex_split [OF this, of "\<lambda>tab. wtId tab = j"] dt(2) obtain ys x zs where
    r: "?rest = ys @ x # zs" "wtId x = j" "js_findIndex (\<lambda>tab. wtId tab = j) ?rest = int (length ys)"
    by blast
  have "x \<in> set ?rest" using r(1) by simp
  then have "x = target" using wf dt(2) r(2) by (auto simp: tabs_wf_def distinct_map inj_on_def)
  with r ret c d t show ?thesis
    by (intro exI [of _ ys] exI [of _ zs])
       (auto simp: reorderTabState_def Let_def js_splice_insert_def nat_add_distrib split: if_splits)
qed

lemma reorder_scope_mset:
  assumes wf: "tabs_wf st"
    and r: "filter (\<lambda>tab. wtId tab \<noteq> i) (filter (sameScope dragged) (tabs st)) = ys @ target # zs"
    and d: "dragged \<in> set (tabs st) \<and> wtId dragged = i"
  shows "mset (filter (sameScope dragged) (tabs st)) = add_mset dragged (mset (ys @ target # zs))"
proof -
  let ?S = "filter (sameScope dragged) (tabs st)"
  have in_scope: "dragged \<in> set ?S" using d by simp
  have dist: "distinct ?S" "\<And>x. x \<in> set ?S \<Longrightarrow> (wtId x \<noteq> i) = (x \<noteq> dragged)"
    using wf d by (auto simp: tabs_wf_def distinct_map inj_on_def)
  have "filter (\<lambda>tab. wtId tab \<noteq> i) ?S = filter (\<lambda>x. x \<noteq> dragged) ?S"
    using dist(2) by (intro filter_cong) auto
  then show ?thesis
    using filter_mset_distinct [OF dist(1) in_scope] r by (simp only:)
qed

lemma reorder_scope_shape:
  assumes wf: "tabs_wf st"
    and r: "filter (\<lambda>tab. wtId tab \<noteq> i) (filter (sameScope dragged) (tabs st)) = ys @ target # zs"
    and d: "dragged \<in> set (tabs st) \<and> wtId dragged = i"
  shows "length (ys @ (if b then [dragged, target] else [target, dragged]) @ zs) =
      length (filter (sameScope dragged) (tabs st)) \<and>
    (\<forall>x \<in> set (ys @ (if b then [dragged, target] else [target, dragged]) @ zs). sameScope dragged x)"
proof -
  have m: "mset (ys @ (if b then [dragged, target] else [target, dragged]) @ zs) =
      mset (filter (sameScope dragged) (tabs st))"
    using reorder_scope_mset [OF assms] by simp
  from mset_eq_length [OF m] mset_eq_setD [OF m] show ?thesis by auto
qed

lemma reorderTabState_mset:
  assumes wf: "tabs_wf st" and ret: "reorderTabState st i j position = Some st'"
  shows "mset (tabs st') = mset (tabs st)"
  using ret
proof (cases rule: reorderTabState_cases)
  case (1 dragged target)
  let ?S = "filter (sameScope dragged) (tabs st)"
  from reorderTabState_scoped [OF wf ret 1(2,3)] obtain ys zs where
    r: "filter (\<lambda>tab. wtId tab \<noteq> i) ?S = ys @ target # zs"
      "tabs st' = placeScoped (sameScope dragged) (tabs st)
        (ys @ (if position = Before then [dragged, target] else [target, dragged]) @ zs)"
    by auto
  note reorder_scope_mset [OF wf r(1) find_id_SomeD [OF 1(2)]]
  then show ?thesis unfolding r(2) by (intro placeScoped_mset) simp
qed

lemma reorderTabState_wf:
  assumes "tabs_wf st" "reorderTabState st i j position = Some st'"
  shows "tabs_wf st'"
proof -
  have m: "mset (tabs st') = mset (tabs st)" by (rule reorderTabState_mset [OF assms])
  then have "mset (tabIdsOf st') = mset (tabIdsOf st)" by (metis mset_map)
  then have "distinct (tabIdsOf st') = distinct (tabIdsOf st)" by (rule mset_eq_imp_distinct_iff)
  moreover have "set (tabs st') = set (tabs st)" using m by (rule mset_eq_setD)
  ultimately show ?thesis using assms(1) by (simp add: tabs_wf_def)
qed

section \<open>Selection of a workspace\<close>

lemma resolveSelected_correct:
  "if \<exists>tab \<in> set ts. wtWorkspaceId tab = w
   then \<exists>tab \<in> set ts. wtWorkspaceId tab = w \<and> wtId tab = resolveSelectedTabIdForWorkspace w ts sel
   else resolveSelectedTabIdForWorkspace w ts sel = []"
proof -
  let ?ws = "filter (\<lambda>tab. wtWorkspaceId tab = w) ts"
  show ?thesis
  proof (cases "?ws = []")
    case True
    then have none: "\<forall>tab \<in> set ts. wtWorkspaceId tab \<noteq> w" by (simp add: filter_empty_conv)
    then have "resolveSelectedTabIdForWorkspace w ts sel = []"
      using True by (simp add: resolveSelectedTabIdForWorkspace_def js_at_def split: option.split)
    with none show ?thesis by auto
  next
    case False
    have h: "hd ?ws \<in> set ?ws" using False by (rule hd_in_set)
    have "\<exists>tab \<in> set ?ws. wtId tab = resolveSelectedTabIdForWorkspace w ts sel"
    proof (cases "\<exists>p. truthy_string (sel w) = Some p \<and> list_ex (\<lambda>tab. wtId tab = p) ?ws")
      case True
      then show ?thesis by (auto simp: resolveSelectedTabIdForWorkspace_def list_ex_iff)
    next
      case f: False
      then have "resolveSelectedTabIdForWorkspace w ts sel = wtId (hd ?ws)"
        using False by (auto simp: resolveSelectedTabIdForWorkspace_def Let_def js_at_0 split: option.split)
      with h show ?thesis by metis
    qed
    then show ?thesis by (auto split: if_split)
  qed
qed

lemma insort_key_bool:
  fixes f :: "'a \<Rightarrow> bool"
  shows "f x \<Longrightarrow> \<forall>y \<in> set ys. \<not> f y \<Longrightarrow> insort_key f x (ys @ zs) = ys @ insort_key f x zs"
    "f x \<longrightarrow> (\<forall>z \<in> set zs. f z) \<Longrightarrow> insort_key f x zs = x # zs"
  by (induction ys, simp_all) (cases zs, simp_all)

text \<open>Sorting by a Boolean key is a stable partition.\<close>

lemma sort_key_bool: "sort_key f xs = filter (\<lambda>x. \<not> f x) xs @ filter f xs" for f :: "'a \<Rightarrow> bool"
  by (induction xs) (simp_all add: insort_key_bool)

section \<open>Renamed paths\<close>

lemma remapPathByRename_conv:
  "remapPathByRename path fromPath toPath =
     (if \<exists>rest. (rest = [] \<or> (\<exists>r. rest = ''/'' @ r)) \<and> path = fromPath @ rest
      then Some (toPath @ drop (length fromPath) path) else None)"
  by (auto simp: remapPathByRename_def js_startsWith_append Let_def)

section \<open>The neighbour rule of a closed tab\<close>

text \<open>The tab that takes the place of the closed one in its workspace: the next, else the previous.\<close>

definition neighbourOf :: "WorkbenchTab list \<Rightarrow> WorkbenchTab list \<Rightarrow> string" where
  "neighbourOf before after =
     (if after \<noteq> [] then wtId (hd after) else if before \<noteq> [] then wtId (last before) else [])"

lemma js_at_neighbour:
  "nullish (nullish_option (map_option wtId (js_at (ys @ zs) (int (length ys))))
      (map_option wtId (js_at (ys @ zs) (int (length ys) - 1)))) [] = neighbourOf ys zs"
proof (cases "zs = []")
  case True
  then show ?thesis
    by (cases ys rule: rev_cases) (auto simp: js_at_def neighbourOf_def nth_append)
next
  case False
  then show ?thesis by (auto simp: js_at_def neighbourOf_def hd_conv_nth nth_append)
qed

lemma list_ex_id: "list_ex (\<lambda>tab. wtId tab = k) ts \<longleftrightarrow> k \<in> wtId ` set ts"
  by (auto simp: list_ex_iff)

lemma js_findIndex_at:
  "\<forall>y \<in> set ys. \<not> P y \<Longrightarrow> P z \<Longrightarrow> js_findIndex P (ys @ z # zs) = int (length ys)"
  by (induction ys) auto

lemma closeTabState_split:
  assumes "distinct (map wtId (ys @ cur # zs))"
  shows "filter (\<lambda>tab. wtId tab \<noteq> wtId cur) (ys @ cur # zs) = ys @ zs"
    "js_findIndex (\<lambda>tab. wtId tab = wtId cur) (ys @ cur # zs) = int (length ys)"
proof -
  have "\<forall>y \<in> set ys \<union> set zs. wtId y \<noteq> wtId cur" using assms by (auto simp: image_iff)
  then have "filter (\<lambda>tab. wtId tab \<noteq> wtId cur) ys = ys" "filter (\<lambda>tab. wtId tab \<noteq> wtId cur) zs = zs"
      "js_findIndex (\<lambda>tab. wtId tab = wtId cur) (ys @ cur # zs) = int (length ys)"
    by (auto intro!: js_findIndex_at)
  then show "filter (\<lambda>tab. wtId tab \<noteq> wtId cur) (ys @ cur # zs) = ys @ zs"
    "js_findIndex (\<lambda>tab. wtId tab = wtId cur) (ys @ cur # zs) = int (length ys)" by simp_all
qed

lemma closeTabState_selection:
  assumes wf: "tabs_wf st" and cur: "cur \<in> set (tabs st)" "wtId cur = i"
    and ws: "filter (\<lambda>tab. wtWorkspaceId tab = wtWorkspaceId cur) (tabs st) = ys @ cur # zs"
    and ret: "closeTabState st i pref = Some st'"
  shows "selectedTabId st' =
      (if selectedTabId st \<noteq> i then selectedTabId st
       else if nullish pref [] \<noteq> [] \<and> nullish pref [] \<in> wtId ` set (ys @ zs) then nullish pref []
       else neighbourOf ys zs) \<and>
    selectedTabIdByWorkspaceId st' =
      (selectedTabIdByWorkspaceId st)(wtWorkspaceId cur \<mapsto> selectedTabId st')"
proof -
  have "distinct (map wtId (ys @ cur # zs))"
    using wf unfolding ws [symmetric] by (simp add: tabs_wf_def distinct_map_filter)
  note s = closeTabState_split [OF this, unfolded cur(2)]
  have f: "List.find (\<lambda>t. wtId t = i) (tabs st) = Some cur" using find_by_id [OF wf cur(1)] cur(2) by simp
  let ?sel = "if selectedTabId st = i then
      (if nullish pref [] \<noteq> [] \<and> list_ex (\<lambda>tab. wtId tab = nullish pref []) (ys @ zs) then nullish pref []
       else neighbourOf ys zs) else selectedTabId st"
  have "st' = \<lparr>tabs = filter (\<lambda>tab. wtId tab \<noteq> i) (tabs st), selectedTabId = ?sel,
      selectedTabIdByWorkspaceId = (selectedTabIdByWorkspaceId st)(wtWorkspaceId cur \<mapsto> ?sel)\<rparr>"
    using ret by (simp only: closeTabState_def f option.case Let_def ws s js_at_neighbour option.inject)
  then show ?thesis by (simp add: list_ex_id)
qed

section \<open>The store as a state machine\<close>

interpretation open_op: partial_update
  "\<lambda>st. i \<noteq> [] \<and> i \<notin> set (tabIdsOf st)" tabs_wf "\<lambda>st. openTabState st input i paneTabs sel" for i input paneTabs sel
  by unfold_locales (blast intro: openTabState_wf)

interpretation close_op: partial_update "\<lambda>_. True" tabs_wf "\<lambda>st. closeTabState st i pref" for i pref
  by unfold_locales (blast intro: closeTabState_wf)

interpretation close_others_op: partial_update "\<lambda>_. True" tabs_wf "\<lambda>st. closeOtherTabsState st i" for i
  by unfold_locales (blast intro: closeOtherTabsState_wf)

interpretation close_all_op: partial_update "\<lambda>_. True" tabs_wf "\<lambda>st. closeAllTabsState st i" for i
  by unfold_locales (blast intro: closeAllTabsState_wf)

interpretation close_terminals_op: partial_update "\<lambda>_. True" tabs_wf "\<lambda>st. closeAllTerminalTabsState st w" for w
  by unfold_locales (blast intro: closeAllTerminalTabsState_wf)

interpretation promote_op: partial_update "\<lambda>_. True" tabs_wf "\<lambda>st. promoteTemporaryTabState st i" for i
  by unfold_locales (blast intro: promoteTemporaryTabState_wf)

interpretation rename_op: partial_update "\<lambda>_. True" tabs_wf "\<lambda>st. renameTabState st i ttl u" for i ttl u
  by unfold_locales (blast intro: renameTabState_wf)

interpretation rename_entry_op: partial_update
  "\<lambda>_. True" tabs_wf "\<lambda>st. renameTabsForEntryRenameState st w p q" for w p q
  by unfold_locales (blast intro: renameTabsForEntryRenameState_wf)

interpretation dirty_op: partial_update "\<lambda>_. True" tabs_wf "\<lambda>st. setFileTabDirtyState st i b" for i b
  by unfold_locales (blast intro: setFileTabDirtyState_wf)

interpretation reorder_tab_op: partial_update "\<lambda>_. True" tabs_wf "\<lambda>st. reorderTabState st i j position" for i j position
  by unfold_locales (blast intro: reorderTabState_wf)

lemmas tab_lift_wf =
  close_op.lift_inv close_others_op.lift_inv close_all_op.lift_inv close_terminals_op.lift_inv
  promote_op.lift_inv rename_op.lift_inv rename_entry_op.lift_inv dirty_op.lift_inv reorder_tab_op.lift_inv

text \<open>The actions that write one field of one tab.\<close>

lemma temp_safe_setters [simp]:
  "temp_safe (\<lambda>d. case d of TerminalTab t \<Rightarrow> TerminalTab (g t) | _ \<Rightarrow> d)"
  "temp_safe (\<lambda>d. case d of AgentChatTab t \<Rightarrow> AgentChatTab (h t) | _ \<Rightarrow> d)"
  "temp_safe (\<lambda>d. case d of BrowserTab t \<Rightarrow> BrowserTab (k t) | _ \<Rightarrow> d)"
  by (auto simp: temp_safe_def split: WorkbenchTabData.splits)

lemma setBrowserTabUrl_wf:
  assumes "tabs_wf st"
  shows "tabs_wf (tabStore_setBrowserTabUrl i url st)"
proof -
  let ?P = "\<lambda>t. wtId t = js_trim i \<and> wtKind t = KBrowser"
  let ?f = "\<lambda>t. t\<lparr>wtData := (case wtData t of BrowserTab b \<Rightarrow> BrowserTab (b\<lparr>browserUrl := url\<rparr>) | d \<Rightarrow> d)\<rparr>"
  have "tabs_wf (st\<lparr>tabs := map (\<lambda>t. if ?P t then ?f t else t) (tabs st)\<rparr>)"
    using assms by (rule tabs_wf_map) (auto simp: tab_ok_def isTemporaryTab_def split: WorkbenchTabData.splits)
  moreover have "updateFirst ?P ?f (tabs st) = map (\<lambda>t. if ?P t then ?f t else t) (tabs st)"
    using assms by (intro updateFirst_map [where g = wtId]) (auto simp: tabs_wf_def)
  ultimately show ?thesis using assms by (simp add: tabStore_setBrowserTabUrl_def Let_def)
qed

inductive tab_store_step :: "TabStoreStateSlice \<Rightarrow> TabStoreStateSlice \<Rightarrow> bool" where
  resolve: "tab_store_step st (tabStore_resolveTabForWorkspace w st)"
| select: "tab_store_step st (tabStore_selectTab i st)"
| retain: "tab_store_step st (fst (tabStore_retainWorkspaceTabs ws w st))"
| open_tab: "newTabId input uuid \<noteq> [] \<Longrightarrow> newTabId input uuid \<notin> set (tabIdsOf st) \<Longrightarrow>
    tab_store_step st (tabStore_openTab input w paneTabs uuid st)"
| close: "tab_store_step st (tabStore_closeTab i pref st)"
| close_others: "tab_store_step st (tabStore_closeOtherTabs i st)"
| close_all: "tab_store_step st (tabStore_closeAllTabs i st)"
| close_terminals: "tab_store_step st (tabStore_closeAllTerminalTabs w st)"
| terminal_session: "tab_store_step st (tabStore_setTerminalTabSessionId i sid st)"
| chat_session: "tab_store_step st (tabStore_setAgentChatTabSession i sid st)"
| chat_control: "tab_store_step st (tabStore_setAgentChatTabSubagentControl i aid psid st)"
| agent_kind: "tab_store_step st (tabStore_setTerminalTabAgentKind i k st)"
| favicon: "tab_store_step st (tabStore_setBrowserTabFaviconUrl i fav st)"
| browser_url: "tab_store_step st (tabStore_setBrowserTabUrl i url st)"
| toggle_pin: "tab_store_step st (tabStore_toggleTabPinned i st)"
| promote: "tab_store_step st (tabStore_promoteTemporaryTab i st)"
| reorder_tabs: "tab_store_step st (tabStore_reorderTab i j position st)"
| rename: "tab_store_step st (tabStore_renameTab i ttl u st)"
| rename_entry: "tab_store_step st (tabStore_renameTabsForEntryRename w p q st)"
| dirty: "tab_store_step st (tabStore_setFileTabDirty i b st)"

lemmas tab_lift_defs =
  tabStore_closeTab_def tabStore_closeOtherTabs_def tabStore_closeAllTabs_def
  tabStore_closeAllTerminalTabs_def tabStore_promoteTemporaryTab_def tabStore_reorderTab_def
  tabStore_renameTab_def tabStore_renameTabsForEntryRename_def tabStore_setFileTabDirty_def

lemmas tab_setter_defs =
  tabStore_setTerminalTabSessionId_def tabStore_setAgentChatTabSession_def
  tabStore_setAgentChatTabSubagentControl_def tabStore_setTerminalTabAgentKind_def
  tabStore_setBrowserTabFaviconUrl_def

lemma retain_wf: "tabs_wf st \<Longrightarrow> tabs_wf (fst (tabStore_retainWorkspaceTabs ws w st))"
  by (auto simp: tabStore_retainWorkspaceTabs_def Let_def tabs_wf_def distinct_map_filter)

lemma tab_store_step_wf: "tab_store_step st st' \<Longrightarrow> tabs_wf st \<Longrightarrow> tabs_wf st'"
proof (induction rule: tab_store_step.induct)
  case (resolve st w)
  then show ?case by (simp add: tabStore_resolveTabForWorkspace_def tabs_wf_def)
next
  case (select st i)
  then show ?case by (auto simp: tabStore_selectTab_def tabs_wf_def split: option.split)
next
  case (open_tab input uuid st w paneTabs)
  then show ?case unfolding tabStore_openTab_def by (intro open_op.lift_inv) simp_all
qed (simp_all add: retain_wf tab_lift_defs tab_lift_wf tab_setter_defs Let_def mapTabData_wf
       setBrowserTabUrl_wf tabStore_toggleTabPinned_def toggleTabPinnedState_wf)

interpretation tab_store: state_machine "\<lambda>st. st = emptyTabStore" tab_store_step tabs_wf
  by unfold_locales (auto intro: tab_store_step_wf)

end
