(* ===== verification/Tab_Properties.thy ===== *)
theory Tab_Properties
  imports Tab_Correct
begin

text \<open>
  The contract of the tab component: what a request to open, close, reorder or rename tabs does,
  and what holds in every state of the tab store.
\<close>

section \<open>A concrete tab store\<close>

definition demo_tab :: "string \<Rightarrow> string \<Rightarrow> bool \<Rightarrow> string \<Rightarrow> WorkbenchTab" where
  "demo_tab i w pin path =
     \<lparr>wtId = i, wtWorkspaceId = w, wtTitle = path, wtPinned = pin,
      wtData = FileTab \<lparr>filePath = path, fileIsDirty = False, fileIsTemporary = False\<rparr>\<rparr>"

definition demo_tabs :: TabStoreStateSlice where
  "demo_tabs =
     \<lparr>tabs = [demo_tab ''a'' ''w'' False ''x/1'', demo_tab ''b'' ''w'' True ''x/2'',
              demo_tab ''c'' ''v'' False ''x/3'', demo_tab ''d'' ''w'' False ''y''],
      selectedTabId = ''a'', selectedTabIdByWorkspaceId = [''w'' \<mapsto> ''a'', ''v'' \<mapsto> ''c'']\<rparr>"

definition demo_open :: "string \<Rightarrow> bool \<Rightarrow> OpenTabInput" where
  "demo_open path temporary =
     \<lparr>inWorkspaceId = Some ''w'',
      inPayload = OpenFile \<lparr>ofPath = path, ofContent = None, ofTemporary = Some temporary,
        ofIsUnsupported = None, ofUnsupportedReason = None, ofIsIgnored = None\<rparr>\<rparr>"

lemma demo_tab_simps [simp]:
  "wtId (demo_tab i w pin path) = i" "wtWorkspaceId (demo_tab i w pin path) = w"
  "wtPinned (demo_tab i w pin path) = pin"
  by (simp_all add: demo_tab_def)

lemmas demo_tab_defs = demo_tabs_def demo_tab_def demo_open_def

lemma demo_tabs_wf: "tabs_wf demo_tabs"
  by (simp add: tabs_wf_def demo_tab_defs tab_ok_def isTemporaryTab_def)

section \<open>Invariant\<close>

text \<open>C3: In every state the tab store can reach from the empty one by its actions (new tabs being
  given fresh ids), tab ids are unique and not empty, every tab belongs to a workspace, and no
  pinned tab is temporary, so that a preview never replaces a pinned tab.\<close>

theorem tab_store_reachable_wf:
  assumes "tab_store_step\<^sup>*\<^sup>* emptyTabStore st"
  shows "distinct (map wtId (tabs st)) \<and>
    (\<forall>tab \<in> set (tabs st). wtId tab \<noteq> [] \<and> wtWorkspaceId tab \<noteq> [] \<and> \<not> (wtPinned tab \<and> isTemporaryTab tab))"
  using tab_store.reachable_inv [OF refl assms] by (auto simp: tabs_wf_def tab_ok_def)

theorem tab_store_reachable_wf_witness:
  "distinct (map wtId (tabs (tabStore_toggleTabPinned ''u''
     (tabStore_openTab (demo_open ''f'' True) ''w'' None ''u'' emptyTabStore)))) \<and>
   map wtPinned (tabs (tabStore_toggleTabPinned ''u''
     (tabStore_openTab (demo_open ''f'' True) ''w'' None ''u'' emptyTabStore))) = [True]"
proof -
  let ?s1 = "tabStore_openTab (demo_open ''f'' True) ''w'' None ''u'' emptyTabStore"
  have "tab_store_step emptyTabStore ?s1"
    by (rule open_tab) (simp_all add: newTabId_def demo_open_def emptyTabStore_def)
  then have "tab_store_step\<^sup>*\<^sup>* emptyTabStore (tabStore_toggleTabPinned ''u'' ?s1)"
    by (meson r_into_rtranclp rtranclp.rtrancl_into_rtrancl toggle_pin)
  from tab_store_reachable_wf [OF this] show ?thesis
    by (simp add: tabStore_openTab_def emptyTabStore_def openTabState_def Let_def demo_open_def newTabId_def
        findExistingTab_def findTemporaryTab_def tabStore_toggleTabPinned_def toggleTabPinnedState_def
        clearTemporaryOnPin_def createTabFromOpenInput_def selectWorkbenchTab_def)
qed

section \<open>Opening\<close>

text \<open>An open request is declined exactly when it names no workspace. Otherwise the tab it leads
  to is selected, globally and for its workspace, and belongs to that workspace; the ids of the
  tabs stay the same or the fresh id is appended; and every other tab is left as it is.\<close>

theorem open_tab_outcome:
  assumes "tabs_wf st" "nextId \<notin> set (tabIdsOf st)"
  shows "(openTabState st input nextId paneTabs sel = None \<longleftrightarrow> openWorkspace input sel = []) \<and>
    (\<forall>st'. openTabState st input nextId paneTabs sel = Some st' \<longrightarrow>
      (\<exists>tab \<in> set (tabs st'). wtId tab = selectedTabId st' \<and> wtWorkspaceId tab = openWorkspace input sel) \<and>
      selectedTabIdByWorkspaceId st' =
        (selectedTabIdByWorkspaceId st)(openWorkspace input sel \<mapsto> selectedTabId st') \<and>
      (tabIdsOf st' = tabIdsOf st \<and> selectedTabId st' \<in> set (tabIdsOf st) \<or>
       tabIdsOf st' = tabIdsOf st @ [nextId] \<and> selectedTabId st' = nextId) \<and>
      filter (\<lambda>tab. wtId tab \<noteq> selectedTabId st') (tabs st') =
        filter (\<lambda>tab. wtId tab \<noteq> selectedTabId st') (tabs st))"
proof (intro conjI openTabState_None_iff allI impI)
  fix st' assume "openTabState st input nextId paneTabs sel = Some st'"
  then show "\<exists>tab \<in> set (tabs st'). wtId tab = selectedTabId st' \<and> wtWorkspaceId tab = openWorkspace input sel"
    by (rule openTabState_selected)
next
  fix st' assume "openTabState st input nextId paneTabs sel = Some st'"
  then show "selectedTabIdByWorkspaceId st' =
      (selectedTabIdByWorkspaceId st)(openWorkspace input sel \<mapsto> selectedTabId st')"
    by (cases rule: openTabState_cases) (simp_all add: selectWorkbenchTab_def)
next
  fix st' assume "openTabState st input nextId paneTabs sel = Some st'"
  then show "tabIdsOf st' = tabIdsOf st \<and> selectedTabId st' \<in> set (tabIdsOf st) \<or>
       tabIdsOf st' = tabIdsOf st @ [nextId] \<and> selectedTabId st' = nextId"
    by (cases rule: openTabState_cases)
       (auto dest!: findExistingTab_SomeD findTemporaryTab_SomeD simp: comp_def)
next
  fix st' assume "openTabState st input nextId paneTabs sel = Some st'"
  then show "filter (\<lambda>tab. wtId tab \<noteq> selectedTabId st') (tabs st') =
        filter (\<lambda>tab. wtId tab \<noteq> selectedTabId st') (tabs st)"
    by (cases rule: openTabState_cases) (simp_all add: mapTabData_def filter_map_other)
qed

theorem open_tab_outcome_witness:
  "\<exists>st'. openTabState demo_tabs (demo_open ''new'' False) ''n'' None None = Some st' \<and>
     tabIdsOf st' = [''a'', ''b'', ''c'', ''d'', ''n'']"
proof -
  have "openTabState demo_tabs (demo_open ''new'' False) ''n'' None None \<noteq> None"
    by (simp add: openTabState_None_iff openWorkspace_def demo_open_def)
  then obtain st' where st': "openTabState demo_tabs (demo_open ''new'' False) ''n'' None None = Some st'" by blast
  have "''n'' \<notin> set (tabIdsOf demo_tabs)" by (simp add: demo_tab_defs)
  from open_tab_outcome [OF demo_tabs_wf this, of "demo_open ''new'' False" None None] st' show ?thesis
    by (auto simp: openTabState_def demo_tab_defs findExistingTab_def Let_def)
qed

text \<open>Opening the same thing twice focuses the tab of the first request and adds no tab: a path
  of one kind, a terminal title, a browser url without surrounding blanks, or a chat session
  has at most the one tab. (Requests for a fresh chat, or with reuse switched off, are
  excluded: they always create a tab.)\<close>

theorem reopen_focuses_same_tab:
  assumes "tabs_wf st" "\<not> alwaysOpensNew (inPayload input)" "stableIdentity (inPayload input)"
    "nextId \<noteq> []" "nextId \<notin> set (tabIdsOf st)"
    "openTabState st input nextId paneTabs sel = Some st1"
    "openTabState st1 input nextId2 paneTabs2 sel = Some st2"
  shows "selectedTabId st2 = selectedTabId st1 \<and> tabIdsOf st2 = tabIdsOf st1"
proof -
  from openTabState_finds_selected [OF assms(1-3,5,6)] obtain e where
    e: "findExistingTab (tabs st1) input (openWorkspace input sel) = Some e" "wtId e = selectedTabId st1"
    by blast
  from assms(7) e show ?thesis by (cases rule: openTabState_cases) auto
qed

theorem reopen_focuses_same_tab_witness:
  "\<exists>st1 st2. openTabState demo_tabs (demo_open ''y'' True) ''n'' None None = Some st1 \<and>
     openTabState st1 (demo_open ''y'' True) ''m'' None None = Some st2 \<and>
     selectedTabId st1 = ''d'' \<and> selectedTabId st2 = ''d''"
proof -
  obtain st1 where s1: "openTabState demo_tabs (demo_open ''y'' True) ''n'' None None = Some st1"
      "selectedTabId st1 = ''d''"
    by (simp add: openTabState_def demo_tab_defs findExistingTab_def Let_def selectWorkbenchTab_def)
  have "openTabState st1 (demo_open ''y'' True) ''m'' None None \<noteq> None"
    by (simp add: openTabState_None_iff openWorkspace_def demo_open_def)
  then obtain st2 where s2: "openTabState st1 (demo_open ''y'' True) ''m'' None None = Some st2" by blast
  have "''n'' \<notin> set (tabIdsOf demo_tabs)" by (simp add: demo_tab_defs)
  from reopen_focuses_same_tab [OF demo_tabs_wf _ _ _ this s1(1) s2] s1 s2 show ?thesis
    by (simp add: demo_open_def)
qed

text \<open>Opening never demotes or takes over a permanent tab: it is still there, in its position,
  with its kind, its path, its pin and its place in the workspace, and still permanent.\<close>

theorem open_keeps_permanent_tabs:
  assumes "tabs_wf st" "openTabState st input nextId paneTabs sel = Some st'"
    "k < length (tabs st)" "\<not> isTemporaryTab (tabs st ! k)"
  shows "k < length (tabs st') \<and> wtId (tabs st' ! k) = wtId (tabs st ! k) \<and>
    wtKind (tabs st' ! k) = wtKind (tabs st ! k) \<and> \<not> isTemporaryTab (tabs st' ! k) \<and>
    dataPath (wtData (tabs st' ! k)) = dataPath (wtData (tabs st ! k)) \<and>
    wtPinned (tabs st' ! k) = wtPinned (tabs st ! k) \<and>
    wtWorkspaceId (tabs st' ! k) = wtWorkspaceId (tabs st ! k)"
  using assms(2)
proof (cases rule: openTabState_cases)
  case (focus e)
  with assms show ?thesis by simp
next
  case (update e f)
  have "tabs st ! k = e" if "wtId (tabs st ! k) = wtId e"
    using that assms(1,3) findExistingTab_SomeD [OF update(1)]
    by (auto simp: tabs_wf_def distinct_map inj_on_def)
  with update assms(3,4) reopenData_temporary [OF update(2)] reopenData_path [OF update(2)] show ?thesis
    by (auto simp: mapTabData_def isTemporaryTab_def)
next
  case (replace e k')
  have "wtId (tabs st ! k) \<noteq> wtId e"
  proof
    assume "wtId (tabs st ! k) = wtId e"
    then have "tabs st ! k = e" using assms(1,3) findTemporaryTab_SomeD [OF replace(3)]
      by (auto simp: tabs_wf_def distinct_map inj_on_def)
    with assms(4) findTemporaryTab_SomeD [OF replace(3)] show False by simp
  qed
  with replace assms(3,4) show ?thesis by simp
next
  case append
  with assms(3,4) show ?thesis by (simp add: nth_append)
qed

theorem open_keeps_permanent_tabs_witness:
  "\<exists>st'. openTabState demo_tabs (demo_open ''y'' True) ''n'' None None = Some st' \<and>
     \<not> isTemporaryTab (tabs st' ! 3) \<and> wtId (tabs st' ! 3) = ''d''"
proof -
  have "openTabState demo_tabs (demo_open ''y'' True) ''n'' None None \<noteq> None"
    by (simp add: openTabState_None_iff openWorkspace_def demo_open_def)
  then obtain st' where st': "openTabState demo_tabs (demo_open ''y'' True) ''n'' None None = Some st'" by blast
  from open_keeps_permanent_tabs [OF demo_tabs_wf st', of 3] st' show ?thesis
    by (simp add: demo_tab_defs isTemporaryTab_def)
qed

section \<open>Closing\<close>

text \<open>Closing a tab is declined exactly for an unknown id and otherwise removes just that tab. If
  another tab was selected, it stays selected. If the closed tab was selected, the preferred tab
  is selected when it is a remaining tab of the same workspace; otherwise the next tab of the
  workspace is, or the previous one when there is no next, or none.\<close>

theorem close_tab_selection:
  assumes "tabs_wf st"
  shows "(closeTabState st i pref = None \<longleftrightarrow> i \<notin> set (tabIdsOf st)) \<and>
    (\<forall>cur ys zs st'. cur \<in> set (tabs st) \<longrightarrow> wtId cur = i \<longrightarrow>
      filter (\<lambda>tab. wtWorkspaceId tab = wtWorkspaceId cur) (tabs st) = ys @ cur # zs \<longrightarrow>
      closeTabState st i pref = Some st' \<longrightarrow>
      tabs st' = filter (\<lambda>tab. wtId tab \<noteq> i) (tabs st) \<and>
      selectedTabId st' =
        (if selectedTabId st \<noteq> i then selectedTabId st
         else if nullish pref [] \<noteq> [] \<and> nullish pref [] \<in> wtId ` set (ys @ zs) then nullish pref []
         else neighbourOf ys zs))"
proof -
  have "closeTabState st i pref = None \<longleftrightarrow> i \<notin> set (tabIdsOf st)"
    using find_id_None [of i st] by (auto simp: closeTabState_def Let_def split: option.split)
  then show ?thesis
    using closeTabState_tabs closeTabState_selection [OF assms] by blast
qed

theorem close_tab_selection_witness:
  "\<exists>st'. closeTabState demo_tabs ''a'' None = Some st' \<and> selectedTabId st' = ''b'' \<and>
     tabIdsOf st' = [''b'', ''c'', ''d'']"
proof -
  let ?a = "demo_tab ''a'' ''w'' False ''x/1''"
  obtain st' where st': "closeTabState demo_tabs ''a'' None = Some st'"
    using close_tab_selection [OF demo_tabs_wf, of "''a''" None]
    by (cases "closeTabState demo_tabs ''a'' None") (auto simp: demo_tab_defs)
  let ?zs = "[demo_tab ''b'' ''w'' True ''x/2'', demo_tab ''d'' ''w'' False ''y'']"
  have a: "?a \<in> set (tabs demo_tabs)" "wtId ?a = ''a''"
    "filter (\<lambda>tab. wtWorkspaceId tab = wtWorkspaceId ?a) (tabs demo_tabs) = [] @ ?a # ?zs"
    by (simp_all add: demo_tabs_def)
  note close_tab_selection [OF demo_tabs_wf, of "''a''" None, THEN conjunct2, rule_format, OF a st']
  with st' show ?thesis by (simp add: neighbourOf_def demo_tabs_def)
qed

text \<open>Closing the other tabs, or all tabs, of a workspace touches neither the tabs of other
  workspaces nor pinned tabs, and removes everything else of that workspace (except the tab the
  command was invoked on, in the first case, which ends up selected). The order is kept.\<close>

theorem close_many_tabs:
  assumes "tabs_wf st" "cur \<in> set (tabs st)" "wtId cur = i"
  shows "\<exists>others all. closeOtherTabsState st i = Some others \<and> closeAllTabsState st i = Some all \<and>
    tabs others = filter (\<lambda>tab. wtWorkspaceId tab = wtWorkspaceId cur \<longrightarrow> wtPinned tab \<or> tab = cur) (tabs st) \<and>
    tabs all = filter (\<lambda>tab. wtWorkspaceId tab = wtWorkspaceId cur \<longrightarrow> wtPinned tab) (tabs st) \<and>
    selectedTabId others = i \<and>
    (selectedTabId st \<in> set (tabIdsOf st) \<longrightarrow>
       selectedTabId all \<in> insert [] (set (tabIdsOf all)))"
proof -
  have f: "List.find (\<lambda>t. wtId t = i) (tabs st) = Some cur"
    using find_by_id [OF assms(1,2)] assms(3) by simp
  have same: "(wtId tab = i) = (tab = cur)" if "tab \<in> set (tabs st)" for tab
    using that assms by (auto simp: tabs_wf_def distinct_map inj_on_def)
  let ?kept = "filter (\<lambda>tab. wtWorkspaceId tab \<noteq> wtWorkspaceId cur \<or> wtPinned tab) (tabs st)"
  let ?first = "List.find (\<lambda>tab. wtWorkspaceId tab = wtWorkspaceId cur) ?kept"
  let ?sel = "if list_ex (\<lambda>tab. wtId tab = selectedTabId st \<and> wtWorkspaceId tab = wtWorkspaceId cur) (tabs st)
    then nullish (map_option wtId ?first) [] else selectedTabId st"
  have all: "closeAllTabsState st i = Some \<lparr>tabs = ?kept, selectedTabId = ?sel, selectedTabIdByWorkspaceId =
      (selectedTabIdByWorkspaceId st)(wtWorkspaceId cur \<mapsto> ?sel)\<rparr>"
    by (simp add: closeAllTabsState_def f Let_def)
  have first: "nullish (map_option wtId ?first) [] \<in> insert [] (wtId ` set ?kept)"
    by (cases ?first) (auto dest!: find_SomeD)
  have "?sel \<in> insert [] (wtId ` set ?kept)" if "selectedTabId st \<in> set (tabIdsOf st)"
  proof (cases "list_ex (\<lambda>tab. wtId tab = selectedTabId st \<and> wtWorkspaceId tab = wtWorkspaceId cur) (tabs st)")
    case True
    with first show ?thesis by (simp only: if_True)
  next
    case False
    from that obtain tab where "tab \<in> set (tabs st)" "wtId tab = selectedTabId st" by auto
    with False have "tab \<in> set ?kept" by (auto simp: list_ex_iff)
    with False \<open>wtId tab = selectedTabId st\<close> show ?thesis by (metis image_eqI insertI2)
  qed
  moreover have "filter (\<lambda>tab. wtWorkspaceId tab \<noteq> wtWorkspaceId cur \<or> wtId tab = i \<or> wtPinned tab) (tabs st) =
      filter (\<lambda>tab. wtWorkspaceId tab = wtWorkspaceId cur \<longrightarrow> wtPinned tab \<or> tab = cur) (tabs st)"
    using same by (intro filter_cong) auto
  ultimately show ?thesis by (simp add: closeOtherTabsState_def f all)
qed

theorem close_many_tabs_witness:
  "\<exists>all. closeAllTabsState demo_tabs ''a'' = Some all \<and> tabIdsOf all = [''b'', ''c'']"
  using close_many_tabs [OF demo_tabs_wf, of "demo_tab ''a'' ''w'' False ''x/1''" "''a''"]
  by (auto simp: demo_tab_defs)

section \<open>Reordering and renaming\<close>

text \<open>Reordering permutes only the tabs of one workspace and pin group: the tabs outside keep
  their positions, the tabs of the group keep their order except that the dragged tab now
  stands directly before or after the target, and no tab is lost or duplicated.\<close>

theorem reorder_tabs_correct:
  assumes "tabs_wf st" "reorderTabState st i j position = Some st'"
    "List.find (\<lambda>tab. wtId tab = i) (tabs st) = Some dragged"
    "List.find (\<lambda>tab. wtId tab = j) (tabs st) = Some target"
  shows "mset (tabs st') = mset (tabs st) \<and> selectedTabId st' = i \<and>
    (\<forall>k < length (tabs st). \<not> sameScope dragged (tabs st ! k) \<longrightarrow> tabs st' ! k = tabs st ! k) \<and>
    (\<exists>ys zs. filter (\<lambda>tab. wtId tab \<noteq> i) (filter (sameScope dragged) (tabs st)) = ys @ target # zs \<and>
       filter (sameScope dragged) (tabs st') =
         ys @ (if position = Before then [dragged, target] else [target, dragged]) @ zs)"
proof -
  let ?new = "\<lambda>ys zs. ys @ (if position = Before then [dragged, target] else [target, dragged]) @ zs"
  from reorderTabState_scoped [OF assms] obtain ys zs where
    r: "filter (\<lambda>tab. wtId tab \<noteq> i) (filter (sameScope dragged) (tabs st)) = ys @ target # zs"
    and st': "st' = selectWorkbenchTab (st\<lparr>tabs := placeScoped (sameScope dragged) (tabs st) (?new ys zs)\<rparr>)
      (wtWorkspaceId dragged) i" by blast
  note m = reorderTabState_mset [OF assms(1,2)]
  define new where "new = ?new ys zs"
  have tabs: "tabs st' = placeScoped (sameScope dragged) (tabs st) new" "selectedTabId st' = i"
    by (simp_all add: st' new_def)
  have "length new = length (filter (sameScope dragged) (tabs st)) \<and> (\<forall>x \<in> set new. sameScope dragged x)"
    unfolding new_def by (rule reorder_scope_shape [OF assms(1) r find_id_SomeD [OF assms(3)]])
  then have "filter (sameScope dragged) (tabs st') = ?new ys zs"
    unfolding new_def [symmetric] tabs by (intro placeScoped_correct [THEN conjunct1]) simp_all
  moreover have "\<forall>k < length (tabs st). \<not> sameScope dragged (tabs st ! k) \<longrightarrow> tabs st' ! k = tabs st ! k"
    unfolding tabs by (intro allI impI placeScoped_nth)
  moreover note tabs(2)
  ultimately show ?thesis using m r by (intro conjI exI [of _ ys] exI [of _ zs])
qed

theorem reorder_tabs_correct_witness:
  "\<exists>st'. reorderTabState demo_tabs ''d'' ''a'' Before = Some st' \<and> mset (tabs st') = mset (tabs demo_tabs) \<and>
     tabIdsOf st' = [''d'', ''b'', ''c'', ''a'']"
proof -
  have "map_option tabIdsOf (reorderTabState demo_tabs ''d'' ''a'' Before) = Some [''d'', ''b'', ''c'', ''a'']"
    by code_simp
  then obtain st' where st': "reorderTabState demo_tabs ''d'' ''a'' Before = Some st'"
      "tabIdsOf st' = [''d'', ''b'', ''c'', ''a'']" by auto
  from reorder_tabs_correct [OF demo_tabs_wf st'(1), of "demo_tab ''d'' ''w'' False ''y''"
      "demo_tab ''a'' ''w'' False ''x/1''"] st' show ?thesis
    by (simp add: demo_tab_defs)
qed

text \<open>After a file or directory is renamed, a tab of the workspace whose path is the renamed entry
  or lies below it has the path with that prefix exchanged; every other tab is unchanged; the
  operation reports no change exactly when there is no such tab (the arguments being proper).\<close>

theorem rename_entry_remaps:
  assumes "workspaceId \<noteq> []" "fromPath \<noteq> []" "toPath \<noteq> []" "fromPath \<noteq> toPath"
  shows "(renameTabsForEntryRenameState st workspaceId fromPath toPath = None \<longleftrightarrow>
      \<not> (\<exists>tab \<in> set (tabs st). wtWorkspaceId tab = workspaceId \<and>
          (\<exists>rest. (rest = [] \<or> (\<exists>r. rest = ''/'' @ r)) \<and> dataPath (wtData tab) = Some (fromPath @ rest)))) \<and>
    (\<forall>st' k rest. renameTabsForEntryRenameState st workspaceId fromPath toPath = Some st' \<longrightarrow>
      k < length (tabs st) \<longrightarrow> wtWorkspaceId (tabs st ! k) = workspaceId \<longrightarrow>
      (rest = [] \<or> (\<exists>r. rest = ''/'' @ r)) \<longrightarrow> dataPath (wtData (tabs st ! k)) = Some (fromPath @ rest) \<longrightarrow>
      dataPath (wtData (tabs st' ! k)) = Some (toPath @ rest))"
proof -
  have remap: "remapPathByRename path fromPath toPath =
      (if \<exists>rest. (rest = [] \<or> (\<exists>r. rest = ''/'' @ r)) \<and> path = fromPath @ rest
       then Some (toPath @ drop (length fromPath) path) else None)" for path
    by (rule remapPathByRename_conv)
  have some: "renameEntryTab workspaceId fromPath toPath tab \<noteq> None \<longleftrightarrow> wtWorkspaceId tab = workspaceId \<and>
      (\<exists>rest. (rest = [] \<or> (\<exists>r. rest = ''/'' @ r)) \<and> dataPath (wtData tab) = Some (fromPath @ rest))" for tab
    using assms by (auto simp: renameEntryTab_def remap truthy_string_def split: option.splits if_splits)
  have st': "renameTabsForEntryRenameState st workspaceId fromPath toPath =
     (if list_ex (\<lambda>tab. renameEntryTab workspaceId fromPath toPath tab \<noteq> None) (tabs st)
      then Some (st\<lparr>tabs := map (\<lambda>tab. nullish (renameEntryTab workspaceId fromPath toPath tab) tab) (tabs st)\<rparr>)
      else None)"
    using assms by (simp add: renameTabsForEntryRenameState_def Let_def)
  have path: "dataPath (wtData (nullish (renameEntryTab workspaceId fromPath toPath tab) tab)) = Some (toPath @ rest)"
    if "wtWorkspaceId tab = workspaceId" "rest = [] \<or> (\<exists>r. rest = ''/'' @ r)"
       "dataPath (wtData tab) = Some (fromPath @ rest)" for tab rest
    using that assms by (auto simp: renameEntryTab_def remap truthy_string_def)
  have "renameTabsForEntryRenameState st workspaceId fromPath toPath = None \<longleftrightarrow>
      \<not> (\<exists>tab \<in> set (tabs st). renameEntryTab workspaceId fromPath toPath tab \<noteq> None)"
    by (simp add: st' list_ex_iff)
  moreover have "dataPath (wtData (tabs st' ! k)) = Some (toPath @ rest)"
    if "renameTabsForEntryRenameState st workspaceId fromPath toPath = Some st'" "k < length (tabs st)"
      "wtWorkspaceId (tabs st ! k) = workspaceId" "rest = [] \<or> (\<exists>r. rest = ''/'' @ r)"
      "dataPath (wtData (tabs st ! k)) = Some (fromPath @ rest)" for st' k rest
    using that path [OF that(3-5)] by (auto simp: st' split: if_splits)
  ultimately show ?thesis unfolding some by blast
qed

theorem rename_entry_remaps_witness:
  "\<exists>st'. renameTabsForEntryRenameState demo_tabs ''w'' ''x'' ''z'' = Some st' \<and>
     dataPath (wtData (tabs st' ! 0)) = Some ''z/1''"
proof -
  obtain st' where st': "renameTabsForEntryRenameState demo_tabs ''w'' ''x'' ''z'' = Some st'"
    by (simp add: renameTabsForEntryRenameState_def renameEntryTab_def demo_tab_defs remapPathByRename_def
        js_startsWith_def truthy_string_def Let_def)
  with rename_entry_remaps [of "''w''" "''x''" "''z''" demo_tabs] have
    "dataPath (wtData (tabs demo_tabs ! 0)) = Some (''x'' @ ''/1'') \<Longrightarrow>
     dataPath (wtData (tabs st' ! 0)) = Some (''z'' @ ''/1'')"
    by (auto simp: demo_tab_defs)
  with st' show ?thesis by (simp add: demo_tab_defs)
qed

text \<open>A name the user gave to a terminal or chat tab is never overwritten by a programmatic
  rename, and a carried-out rename changes the title of the one tab only.\<close>

theorem user_name_is_kept:
  assumes "tabs_wf st" "tab \<in> set (tabs st)" "wtId tab = i"
  shows "(dataUserRenamed (wtData tab) \<longrightarrow> userRenamed \<noteq> Some True \<longrightarrow>
      tabStore_renameTab i newTitle userRenamed st = st) \<and>
    (\<forall>st'. renameTabState st i newTitle userRenamed = Some st' \<longrightarrow>
      (\<forall>k < length (tabs st). wtTitle (tabs st' ! k) =
         (if wtId (tabs st ! k) = i then newTitle else wtTitle (tabs st ! k))) \<and>
      tabIdsOf st' = tabIdsOf st)"
proof -
  have f: "List.find (\<lambda>t. wtId t = i) (tabs st) = Some tab"
    using find_by_id [OF assms(1,2)] assms(3) by simp
  then show ?thesis
    by (auto simp: tabStore_renameTab_def renameTabState_def comp_def split: if_splits)
qed

theorem user_name_is_kept_witness:
  "\<exists>st'. renameTabState demo_tabs ''d'' ''new'' None = Some st' \<and> wtTitle (tabs st' ! 3) = ''new'' \<and>
     wtTitle (tabs st' ! 0) = ''x/1''"
proof -
  have d: "demo_tab ''d'' ''w'' False ''y'' \<in> set (tabs demo_tabs)" by (simp add: demo_tabs_def)
  obtain st' where st': "renameTabState demo_tabs ''d'' ''new'' None = Some st'"
    by (simp add: renameTabState_def demo_tab_defs)
  from user_name_is_kept [OF demo_tabs_wf d, of "''d''" None "''new''"] st' show ?thesis
    by (simp add: demo_tab_defs)
qed

section \<open>Workspaces\<close>

text \<open>Retaining a set of workspaces keeps exactly their tabs, in order, and returns the ids of all
  the others; what is remembered as selected afterwards names a kept tab of a kept workspace,
  and the selected tab is a tab of the active workspace unless that has none.\<close>

theorem retain_workspace_tabs:
  assumes "tabs_wf st" "tabStore_retainWorkspaceTabs workspaceIds active st = (st', removed)"
  shows "tabs st' = filter (\<lambda>tab. wtWorkspaceId tab \<in> set workspaceIds) (tabs st) \<and>
    mset (tabIdsOf st) = mset removed + mset (tabIdsOf st') \<and>
    (\<forall>w t. selectedTabIdByWorkspaceId st' w = Some t \<longrightarrow> w \<in> set workspaceIds \<and> t \<in> set (tabIdsOf st')) \<and>
    (if \<exists>tab \<in> set (tabs st'). wtWorkspaceId tab = active
     then \<exists>tab \<in> set (tabs st'). wtWorkspaceId tab = active \<and> wtId tab = selectedTabId st'
     else selectedTabId st' = [])"
proof -
  let ?P = "\<lambda>tab. wtWorkspaceId tab \<in> set workspaceIds"
  have t: "tabs st' = filter ?P (tabs st)" and r: "removed = map wtId (filter (\<lambda>tab. \<not> ?P tab) (tabs st))"
    and s: "selectedTabId st' = resolveSelectedTabIdForWorkspace active (tabs st') (selectedTabIdByWorkspaceId st')"
    and m: "\<forall>w t. selectedTabIdByWorkspaceId st' w = Some t \<longrightarrow> w \<in> set workspaceIds \<and> t \<in> set (tabIdsOf st')"
    using assms(2) by (auto simp: tabStore_retainWorkspaceTabs_def Let_def split: option.splits if_splits)
  have "mset (tabs st) = mset (filter (\<lambda>tab. \<not> ?P tab) (tabs st)) + mset (filter ?P (tabs st))"
    by (simp flip: multiset_partition add: union_commute)
  then have "mset (tabIdsOf st) = mset removed + mset (tabIdsOf st')"
    unfolding t r by (metis image_mset_union mset_map)
  moreover have "if \<exists>tab \<in> set (tabs st'). wtWorkspaceId tab = active
     then \<exists>tab \<in> set (tabs st'). wtWorkspaceId tab = active \<and> wtId tab = selectedTabId st'
     else selectedTabId st' = []"
    unfolding s by (rule resolveSelected_correct)
  ultimately show ?thesis using t m by blast
qed

theorem retain_workspace_tabs_witness:
  "tabIdsOf (fst (tabStore_retainWorkspaceTabs [''v''] ''v'' demo_tabs)) = [''c''] \<and>
   selectedTabId (fst (tabStore_retainWorkspaceTabs [''v''] ''v'' demo_tabs)) = ''c''"
proof -
  let ?s = "fst (tabStore_retainWorkspaceTabs [''v''] ''v'' demo_tabs)"
  note r = retain_workspace_tabs [OF demo_tabs_wf surjective_pairing, of "[''v'']" "''v''"]
  have t: "tabs ?s = [demo_tab ''c'' ''v'' False ''x/3'']"
    using r [THEN conjunct1] by (simp add: demo_tabs_def)
  with r show ?thesis by simp
qed

text \<open>The tab bar of a workspace shows its pinned tabs first and then the others, each group in
  the order of the store.\<close>

theorem workspace_tabs_pinned_first:
  "getWorkspaceTabs st w =
     filter (\<lambda>tab. wtWorkspaceId tab = w \<and> wtPinned tab) (tabs st) @
     filter (\<lambda>tab. wtWorkspaceId tab = w \<and> \<not> wtPinned tab) (tabs st)"
  by (simp add: getWorkspaceTabs_def sort_key_bool conj_commute)

text \<open>Closing a tab that is not the selected one writes the selected tab into the memory of the
  closed tab's workspace, even when the selected tab belongs to another workspace; the workspace
  has then forgotten which of its own tabs was selected, and resolves to its first tab.\<close>

theorem close_tab_overwrites_workspace_selection:
  assumes "tabs_wf st" "cur \<in> set (tabs st)" "wtId cur = i" "selectedTabId st \<noteq> i"
  shows "\<exists>st'. closeTabState st i pref = Some st' \<and>
    selectedTabIdByWorkspaceId st' (wtWorkspaceId cur) = Some (selectedTabId st) \<and>
    ((\<forall>tab \<in> set (tabs st). wtId tab = selectedTabId st \<longrightarrow> wtWorkspaceId tab \<noteq> wtWorkspaceId cur) \<longrightarrow>
      selectedTabId (tabStore_resolveTabForWorkspace (wtWorkspaceId cur) st') =
        nullish (map_option wtId (js_at (filter (\<lambda>tab. wtWorkspaceId tab = wtWorkspaceId cur) (tabs st')) 0)) [])"
proof -
  have f: "List.find (\<lambda>t. wtId t = i) (tabs st) = Some cur"
    using find_by_id [OF assms(1,2)] assms(3) by simp
  then obtain st' where st': "closeTabState st i pref = Some st'" by (simp add: closeTabState_def Let_def)
  have sel: "selectedTabIdByWorkspaceId st' (wtWorkspaceId cur) = Some (selectedTabId st)"
    using st' f assms(4) by (auto simp: closeTabState_def Let_def)
  have sub: "set (tabs st') \<subseteq> set (tabs st)" using closeTabState_tabs [OF st'] by auto
  have "\<not> list_ex (\<lambda>tab. wtId tab = selectedTabId st) (filter (\<lambda>tab. wtWorkspaceId tab = wtWorkspaceId cur) (tabs st'))"
    if "\<forall>tab \<in> set (tabs st). wtId tab = selectedTabId st \<longrightarrow> wtWorkspaceId tab \<noteq> wtWorkspaceId cur"
    using that sub by (auto simp: list_ex_iff)
  with st' sel show ?thesis
    by (auto simp: tabStore_resolveTabForWorkspace_def resolveSelectedTabIdForWorkspace_def Let_def
        truthy_string_def)
qed

theorem close_tab_overwrites_workspace_selection_witness:
  "\<exists>st'. closeTabState (demo_tabs\<lparr>selectedTabId := ''c''\<rparr>) ''a'' None = Some st' \<and>
     selectedTabIdByWorkspaceId st' ''w'' = Some ''c'' \<and> ''c'' \<in> set (tabIdsOf st')"
proof -
  let ?st = "demo_tabs\<lparr>selectedTabId := ''c''\<rparr>"
  have wf: "tabs_wf ?st" using demo_tabs_wf by (simp add: tabs_wf_def)
  have a: "demo_tab ''a'' ''w'' False ''x/1'' \<in> set (tabs ?st)" by (simp add: demo_tabs_def)
  from close_tab_overwrites_workspace_selection [OF wf a, of "''a''" None] obtain st' where
    st': "closeTabState ?st ''a'' None = Some st'" "selectedTabIdByWorkspaceId st' ''w'' = Some ''c''"
    by auto
  moreover from closeTabState_tabs [OF st'(1)] have "''c'' \<in> set (tabIdsOf st')" by (simp add: demo_tabs_def)
  ultimately show ?thesis by blast
qed

end
