(* ===== verification/Tab_Content.thy ===== *)
theory Tab_Content
  imports Tab_Correct
begin

text \<open>
  The content behind file and diff tabs: the Files store
  (\<open>files/state/fileTabContentStore.ts\<close>), the Git store (\<open>git/state/diffTabContentStore.ts\<close>), the
  placeholder texts shown until the real content arrives
  (\<open>files/features/file-editor/fileTabPlaceholder.ts\<close>, \<open>git/commands/diffTabPlaceholder.ts\<close>).
  The stores are keyed by tab id; the tab descriptor itself only carries the path and a dirty
  flag that mirrors the store.
\<close>

section \<open>File content\<close>

record FileTabContent =
  fcPath :: string
  fcContent :: string
  fcSavedContent :: string
  fcIsDeleted :: bool
  fcIsUnsupported :: "bool option"
  fcUnsupportedReason :: "UnsupportedReason option"
  fcIsIgnored :: bool

type_synonym FileTabContentStoreState = "string \<rightharpoonup> FileTabContent"

record SeedFileTabContentInput =
  sfTabId :: string
  sfPath :: string
  sfContent :: "string option"
  sfIsUnsupported :: "bool option"
  sfUnsupportedReason :: "UnsupportedReason option"
  sfIsIgnored :: "bool option"

definition fileContent_seed ::
  "SeedFileTabContentInput \<Rightarrow> FileTabContentStoreState \<Rightarrow> FileTabContentStoreState" where
  "fileContent_seed input byTabId =
     (let content = nullish (sfContent input) [] in
      byTabId(sfTabId input \<mapsto>
        \<lparr>fcPath = sfPath input, fcContent = content, fcSavedContent = content, fcIsDeleted = False,
         fcIsUnsupported = sfIsUnsupported input, fcUnsupportedReason = sfUnsupportedReason input,
         fcIsIgnored = nullish (sfIsIgnored input) False\<rparr>))"

definition fileContent_updateContent ::
  "string \<Rightarrow> string \<Rightarrow> FileTabContentStoreState \<Rightarrow> FileTabContentStoreState \<times> bool option" where
  "fileContent_updateContent tid content byTabId =
     (case byTabId tid of
        None \<Rightarrow> (byTabId, None)
      | Some entry \<Rightarrow>
          (byTabId(tid \<mapsto> entry\<lparr>fcContent := content, fcIsDeleted := False\<rparr>),
           Some (content \<noteq> fcSavedContent entry)))"

definition fileContent_markSaved ::
  "string \<Rightarrow> FileTabContentStoreState \<Rightarrow> FileTabContentStoreState \<times> bool option" where
  "fileContent_markSaved tid byTabId =
     (case byTabId tid of
        None \<Rightarrow> (byTabId, None)
      | Some entry \<Rightarrow>
          (byTabId(tid \<mapsto> entry\<lparr>fcSavedContent := fcContent entry, fcIsDeleted := False\<rparr>), Some False))"

definition fileContent_refreshFromDisk ::
  "string \<Rightarrow> string option \<Rightarrow> string \<Rightarrow> bool \<Rightarrow> FileTabContentStoreState \<Rightarrow>
   FileTabContentStoreState \<times> bool" where
  "fileContent_refreshFromDisk tid path content deleted byTabId =
     (case byTabId tid of
        None \<Rightarrow>
          (case truthy_string path of
             None \<Rightarrow> (byTabId, False)
           | Some p \<Rightarrow>
               (byTabId(tid \<mapsto> \<lparr>fcPath = p, fcContent = content, fcSavedContent = content,
                               fcIsDeleted = deleted, fcIsUnsupported = None,
                               fcUnsupportedReason = None, fcIsIgnored = False\<rparr>), True))
      | Some entry \<Rightarrow>
          if fcContent entry \<noteq> fcSavedContent entry then (byTabId, False)
          else
            let nextContent = (if deleted then [] else content) in
            if fcContent entry = nextContent \<and> fcIsDeleted entry = deleted then (byTabId, False)
            else (byTabId(tid \<mapsto> entry\<lparr>fcContent := nextContent, fcSavedContent := nextContent,
                                       fcIsDeleted := deleted\<rparr>), True))"

definition removeTabData :: "string list \<Rightarrow> (string \<rightharpoonup> 'a) \<Rightarrow> (string \<rightharpoonup> 'a)" where
  "removeTabData ids byTabId = (\<lambda>tid. if tid \<in> set ids then None else byTabId tid)"

section \<open>Diff content\<close>

record DiffTabContent =
  dcPath :: string
  dcOldContent :: string
  dcNewContent :: string
  dcFiles :: "FileDiffEntry list option"

type_synonym DiffTabContentStoreState = "string \<rightharpoonup> DiffTabContent"

record SeedDiffTabContentInput =
  sdTabId :: string
  sdPath :: string
  sdOldContent :: "string option"
  sdNewContent :: "string option"
  sdFiles :: "FileDiffEntry list option"

definition diffContent_seed ::
  "SeedDiffTabContentInput \<Rightarrow> DiffTabContentStoreState \<Rightarrow> DiffTabContentStoreState" where
  "diffContent_seed input byTabId =
     byTabId(sdTabId input \<mapsto>
       \<lparr>dcPath = sdPath input, dcOldContent = nullish (sdOldContent input) [],
        dcNewContent = nullish (sdNewContent input) [], dcFiles = sdFiles input\<rparr>)"

definition diffContent_update ::
  "string \<Rightarrow> string option \<Rightarrow> string \<Rightarrow> string \<Rightarrow> DiffTabContentStoreState \<Rightarrow> DiffTabContentStoreState" where
  "diffContent_update tid path oldContent newContent byTabId =
     (case byTabId tid of
        None \<Rightarrow>
          (case truthy_string path of
             None \<Rightarrow> byTabId
           | Some p \<Rightarrow> byTabId(tid \<mapsto> \<lparr>dcPath = p, dcOldContent = oldContent, dcNewContent = newContent,
                                        dcFiles = None\<rparr>))
      | Some entry \<Rightarrow>
          if dcOldContent entry = oldContent \<and> dcNewContent entry = newContent then byTabId
          else byTabId(tid \<mapsto> entry\<lparr>dcOldContent := oldContent, dcNewContent := newContent\<rparr>))"

section \<open>Placeholders\<close>

text \<open>\<open>path.slice(path.lastIndexOf(c) + 1)\<close> and the part before, for the last separator that satisfies \<open>P\<close>.\<close>

definition afterLast :: "(char \<Rightarrow> bool) \<Rightarrow> string \<Rightarrow> string" where
  "afterLast P s = rev (takeWhile (\<lambda>c. \<not> P c) (rev s))"

definition getFileExtension :: "string \<Rightarrow> string" where
  "getFileExtension path =
     (let filename = afterLast (\<lambda>c. c = CHR ''/'' \<or> c = CHR 0x5C) path;
          extension = afterLast (\<lambda>c. c = CHR ''.'') filename
      in if length filename \<le> length extension + 1 then [] else js_toLowerCase extension)"

definition isExcalidrawFile :: "string \<Rightarrow> bool" where
  "isExcalidrawFile path = (getFileExtension path = ''excalidraw'')"

definition newline :: char where
  "newline = CHR 0x0A"

definition createFileTabPlaceholder :: "string \<Rightarrow> string" where
  "createFileTabPlaceholder path =
     (if isExcalidrawFile path then []
      else
        let fileName = getFileName path;
            extension = js_toLowerCase (last (js_split CHR ''.'' fileName)) in
        if extension = ''ts'' \<or> extension = ''tsx'' then
          js_join [newline]
            [''// '' @ path, ''export function example() {'',
             ''  return '' @ [CHR 0x22] @ ''Open file: '' @ fileName @ [CHR 0x22] @ '';'', ''}'', [],
             ''console.log(example());'']
        else if extension = ''json'' then
          js_join [newline]
            [''{'', ''  '' @ [CHR 0x22] @ ''path'' @ [CHR 0x22] @ '': '' @ [CHR 0x22] @ path @ [CHR 0x22] @ '','',
             ''  '' @ [CHR 0x22] @ ''status'' @ [CHR 0x22] @ '': '' @ [CHR 0x22] @ ''mock-content'' @ [CHR 0x22],
             ''}'']
        else if extension = ''md'' then
          js_join [newline]
            [''# '' @ fileName, [], ''Opened from '' @ path, [],
             ''This is mock file content rendered in Monaco Editor.'']
        else
          js_join [newline]
            [''Opened: '' @ path, [], ''This tab is backed by a file tab in the workspace store.''])"

definition clampLineCount :: "int \<Rightarrow> int" where
  "clampLineCount value = max 1 (min value 12)"

definition placeholderLines :: "string \<Rightarrow> string \<Rightarrow> string \<Rightarrow> int \<Rightarrow> string list" where
  "placeholderLines varName fileName word n =
     map (\<lambda>index. ''const '' @ varName @ js_show_nat (index + 1) @ '' = '' @ [CHR 0x22] @ fileName @ '' '' @
            word @ '' '' @ js_show_nat (index + 1) @ [CHR 0x22] @ '';'')
       [0..<nat n]"

definition createDiffTabPlaceholder ::
  "string \<Rightarrow> DiffFileChangeKind \<Rightarrow> int \<Rightarrow> int \<Rightarrow> string \<times> string" where
  "createDiffTabPlaceholder path kind additions deletions =
     (let fileName = getFileName path;
          normalizedAdditions = clampLineCount additions;
          normalizedDeletions = clampLineCount deletions;
          text = (\<lambda>ls. js_join [newline] ((''// '' @ path) # ls)) in
      case kind of
        Added \<Rightarrow> ([], text (placeholderLines ''addedLine'' fileName ''line'' normalizedAdditions))
      | Deleted \<Rightarrow> (text (placeholderLines ''removedLine'' fileName ''line'' normalizedDeletions), [])
      | _ \<Rightarrow> (text (placeholderLines ''beforeLine'' fileName ''old'' normalizedDeletions),
              text (placeholderLines ''afterLine'' fileName ''new'' normalizedAdditions)))"

end
