(* ===== verification/Workbench_State.thy ===== *)
theory Workbench_State
  imports Yishan_Prelude
begin

text \<open>
  The smaller stores of the workbench: pane widths and right-pane preferences
  (\<open>state/layoutStore.ts\<close>), the popup counter (\<open>state/popupStore.ts\<close>), the active workspace,
  project and overlay (\<open>state/workbenchNavigationStore.ts\<close>), and the focus intents of newly
  opened tabs (\<open>runtime/tabFocusIntent.ts\<close>).
\<close>

section \<open>Layout preferences\<close>

datatype WorkspaceRightPaneTab = FilesPane | ChangesPane | PrPane | TasksPane

record LayoutStoreState =
  leftWidth :: js_number
  rightWidth :: js_number
  isLeftPaneManuallyHidden :: bool
  rightPaneTabByWorkspaceId :: "string \<rightharpoonup> WorkspaceRightPaneTab"
  isRightPaneHiddenByWorkspaceId :: "string \<rightharpoonup> bool"

definition initialLayoutStore :: LayoutStoreState where
  "initialLayoutStore =
     \<lparr>leftWidth = Fin 320, rightWidth = Fin 400, isLeftPaneManuallyHidden = False,
      rightPaneTabByWorkspaceId = (\<lambda>_. None), isRightPaneHiddenByWorkspaceId = (\<lambda>_. None)\<rparr>"

definition setLeftPaneWidth :: "js_number \<Rightarrow> LayoutStoreState \<Rightarrow> LayoutStoreState" where
  "setLeftPaneWidth width st = st\<lparr>leftWidth := width\<rparr>"

definition setRightPaneWidth :: "js_number \<Rightarrow> LayoutStoreState \<Rightarrow> LayoutStoreState" where
  "setRightPaneWidth width st = st\<lparr>rightWidth := width\<rparr>"

definition setIsLeftPaneManuallyHidden :: "bool \<Rightarrow> LayoutStoreState \<Rightarrow> LayoutStoreState" where
  "setIsLeftPaneManuallyHidden hidden st = st\<lparr>isLeftPaneManuallyHidden := hidden\<rparr>"

definition layout_setRightPaneTab ::
  "string \<Rightarrow> WorkspaceRightPaneTab \<Rightarrow> LayoutStoreState \<Rightarrow> LayoutStoreState" where
  "layout_setRightPaneTab workspaceId tab st =
     st\<lparr>rightPaneTabByWorkspaceId := (rightPaneTabByWorkspaceId st)(workspaceId \<mapsto> tab)\<rparr>"

definition layout_setIsRightPaneHidden :: "string \<Rightarrow> bool \<Rightarrow> LayoutStoreState \<Rightarrow> LayoutStoreState" where
  "layout_setIsRightPaneHidden workspaceId hidden st =
     st\<lparr>isRightPaneHiddenByWorkspaceId := (isRightPaneHiddenByWorkspaceId st)(workspaceId \<mapsto> hidden)\<rparr>"

definition layout_removeRightPaneState :: "string \<Rightarrow> LayoutStoreState \<Rightarrow> LayoutStoreState" where
  "layout_removeRightPaneState workspaceId st =
     st\<lparr>rightPaneTabByWorkspaceId := (rightPaneTabByWorkspaceId st)(workspaceId := None),
        isRightPaneHiddenByWorkspaceId := (isRightPaneHiddenByWorkspaceId st)(workspaceId := None)\<rparr>"

section \<open>Popups\<close>

record PopupStoreState =
  popupCount :: int
  isPopupOpen :: bool

definition initialPopupStore :: PopupStoreState where
  "initialPopupStore = \<lparr>popupCount = 0, isPopupOpen = False\<rparr>"

definition registerPopup :: "PopupStoreState \<Rightarrow> PopupStoreState" where
  "registerPopup st =
     (let nextCount = popupCount st + 1 in \<lparr>popupCount = nextCount, isPopupOpen = (nextCount > 0)\<rparr>)"

definition unregisterPopup :: "PopupStoreState \<Rightarrow> PopupStoreState" where
  "unregisterPopup st =
     (let nextCount = max 0 (popupCount st - 1) in \<lparr>popupCount = nextCount, isPopupOpen = (nextCount > 0)\<rparr>)"

text \<open>Popups open and close; a popup that closes was open.\<close>

definition popup_inv :: "PopupStoreState \<Rightarrow> bool" where
  "popup_inv st \<longleftrightarrow> 0 \<le> popupCount st \<and> isPopupOpen st = (popupCount st > 0)"

inductive popup_step :: "PopupStoreState \<Rightarrow> PopupStoreState \<Rightarrow> bool" where
  register_popup: "popup_step st (registerPopup st)"
| unregister_popup: "popup_step st (unregisterPopup st)"

interpretation popup: state_machine "\<lambda>st. st = initialPopupStore" popup_step popup_inv
  by unfold_locales
     (auto simp: popup_inv_def initialPopupStore_def registerPopup_def unregisterPopup_def Let_def
           elim: popup_step.cases)

lemma unregister_after_register:
  "popup_inv st \<Longrightarrow> unregisterPopup (registerPopup st) = st"
  by (cases st) (simp add: popup_inv_def unregisterPopup_def registerPopup_def)

section \<open>Navigation\<close>

datatype OverlayPanel = OverviewPanel | TasksPanel | ScheduledJobPanel

record WorkbenchNavigationState =
  activeProjectId :: string
  activeWorkspaceId :: string
  overlayPanel :: "OverlayPanel option"

definition initialNavigation :: WorkbenchNavigationState where
  "initialNavigation = \<lparr>activeProjectId = [], activeWorkspaceId = [], overlayPanel = None\<rparr>"

definition setActiveProjectId :: "string \<Rightarrow> WorkbenchNavigationState \<Rightarrow> WorkbenchNavigationState" where
  "setActiveProjectId projectId st = st\<lparr>activeProjectId := projectId\<rparr>"

definition setActiveWorkspaceId :: "string \<Rightarrow> WorkbenchNavigationState \<Rightarrow> WorkbenchNavigationState" where
  "setActiveWorkspaceId workspaceId st = st\<lparr>activeWorkspaceId := workspaceId\<rparr>"

definition setOverlayPanel :: "OverlayPanel option \<Rightarrow> WorkbenchNavigationState \<Rightarrow> WorkbenchNavigationState" where
  "setOverlayPanel panel st = st\<lparr>overlayPanel := panel\<rparr>"

definition nav_closeOverlayPanel :: "WorkbenchNavigationState \<Rightarrow> WorkbenchNavigationState" where
  "nav_closeOverlayPanel st = st\<lparr>overlayPanel := None\<rparr>"

section \<open>Focus intents\<close>

datatype TabFocusTarget = AgentComposerTarget | TerminalTarget

datatype TabFocusKind = AutoFocus | ManualFocus

record TabFocusRequest =
  focusTarget :: TabFocusTarget
  focusKind :: TabFocusKind

text \<open>The pending intents by tab id, and the window events dispatched so far, oldest first.\<close>

record TabFocusState =
  pendingFocusByTabId :: "string \<rightharpoonup> TabFocusRequest"
  focusEvents :: "(string \<times> TabFocusRequest) list"

definition initialTabFocus :: TabFocusState where
  "initialTabFocus = \<lparr>pendingFocusByTabId = (\<lambda>_. None), focusEvents = []\<rparr>"

definition requestTabFocus :: "string \<Rightarrow> TabFocusTarget \<Rightarrow> TabFocusKind \<Rightarrow> TabFocusState \<Rightarrow> TabFocusState" where
  "requestTabFocus tid target kind st =
     (let request = \<lparr>focusTarget = target, focusKind = kind\<rparr> in
      st\<lparr>pendingFocusByTabId := (pendingFocusByTabId st)(tid \<mapsto> request),
         focusEvents := focusEvents st @ [(tid, request)]\<rparr>)"

definition getTabFocusRequest :: "TabFocusState \<Rightarrow> string \<Rightarrow> TabFocusRequest option" where
  "getTabFocusRequest st tid = pendingFocusByTabId st tid"

definition consumeTabFocus :: "string \<Rightarrow> TabFocusState \<Rightarrow> TabFocusState \<times> bool" where
  "consumeTabFocus tid st =
     (st\<lparr>pendingFocusByTabId := (pendingFocusByTabId st)(tid := None)\<rparr>, pendingFocusByTabId st tid \<noteq> None)"

definition clearTabFocus :: "string \<Rightarrow> TabFocusState \<Rightarrow> TabFocusState" where
  "clearTabFocus tid st = st\<lparr>pendingFocusByTabId := (pendingFocusByTabId st)(tid := None)\<rparr>"

definition retainOpenTabFocus :: "string set \<Rightarrow> TabFocusState \<Rightarrow> TabFocusState" where
  "retainOpenTabFocus openTabIds st =
     st\<lparr>pendingFocusByTabId := (\<lambda>tid. if tid \<in> openTabIds then pendingFocusByTabId st tid else None)\<rparr>"

end
