(* ===== verification/Workbench_Commands.thy ===== *)
theory Workbench_Commands
  imports Split_Pane_Store Tab_Content Workbench_State
begin

text \<open>
  The commands of the workbench (\<open>workbench/commands/tabCommands.ts\<close>,
  \<open>navigationCommands.ts\<close>), the file and diff content commands they call
  (\<open>files/commands/fileTabContentCommands.ts\<close>, \<open>git/commands/diffTabContentCommands.ts\<close>) and
  the close handler of the application (\<open>app/commands/tabCloseHandler.ts\<close>). A command reads and
  writes several stores; the state here is the product of those stores.

  Three things leave the workbench. A callback handed to \<open>requestAnimationFrame\<close> waits in
  \<open>wbFrames\<close> until \<open>runAnimationFrame\<close> runs it, so that other commands can come in between.
  Calls into the Agent, Terminal and Chat modules are recorded, in order, in \<open>wbEffects\<close>; none of
  them has a result that the commands use.
\<close>

section \<open>State\<close>

datatype ExternalCall =
    StopPiSession string
  | RecordExplicitlyClosedTerminalTabId string
  | ClearTerminalAgentStatus string
  | CloseTerminalSession string
  | RemoveChatTabData "string list"
  | RenamePiSession string string

record WorkbenchState =
  wbTabs :: TabStoreStateSlice
  wbPanes :: SplitPaneStoreState
  wbLayout :: LayoutStoreState
  wbNav :: WorkbenchNavigationState
  wbFocus :: TabFocusState
  wbFrames :: "(string \<times> TabFocusTarget \<times> TabFocusKind) list"
  wbFiles :: FileTabContentStoreState
  wbDiffs :: DiffTabContentStoreState
  wbEffects :: "ExternalCall list"

definition initialWorkbench :: WorkbenchState where
  "initialWorkbench =
     \<lparr>wbTabs = emptyTabStore, wbPanes = emptySplitPaneStore, wbLayout = initialLayoutStore,
      wbNav = initialNavigation, wbFocus = initialTabFocus, wbFrames = [],
      wbFiles = (\<lambda>_. None), wbDiffs = (\<lambda>_. None), wbEffects = []\<rparr>"

definition onTabs :: "(TabStoreStateSlice \<Rightarrow> TabStoreStateSlice) \<Rightarrow> WorkbenchState \<Rightarrow> WorkbenchState" where
  "onTabs f wb = wb\<lparr>wbTabs := f (wbTabs wb)\<rparr>"

definition onPanes :: "(SplitPaneStoreState \<Rightarrow> SplitPaneStoreState) \<Rightarrow> WorkbenchState \<Rightarrow> WorkbenchState" where
  "onPanes f wb = wb\<lparr>wbPanes := f (wbPanes wb)\<rparr>"

definition onLayout :: "(LayoutStoreState \<Rightarrow> LayoutStoreState) \<Rightarrow> WorkbenchState \<Rightarrow> WorkbenchState" where
  "onLayout f wb = wb\<lparr>wbLayout := f (wbLayout wb)\<rparr>"

definition onNav :: "(WorkbenchNavigationState \<Rightarrow> WorkbenchNavigationState) \<Rightarrow> WorkbenchState \<Rightarrow> WorkbenchState" where
  "onNav f wb = wb\<lparr>wbNav := f (wbNav wb)\<rparr>"

definition callOut :: "ExternalCall list \<Rightarrow> WorkbenchState \<Rightarrow> WorkbenchState" where
  "callOut calls wb = wb\<lparr>wbEffects := wbEffects wb @ calls\<rparr>"

abbreviation findTab :: "WorkbenchState \<Rightarrow> string \<Rightarrow> WorkbenchTab option" where
  "findTab wb tid \<equiv> List.find (\<lambda>tab. wtId tab = tid) (tabs (wbTabs wb))"

section \<open>Closing tabs\<close>

definition resolvePreferredSelectionAfterClose :: "WorkbenchState \<Rightarrow> string \<Rightarrow> string \<Rightarrow> string option" where
  "resolvePreferredSelectionAfterClose wb workspaceId tid =
     (case layoutByWorkspaceId (wbPanes wb) workspaceId of
        None \<Rightarrow> None
      | Some layout \<Rightarrow>
          (case removeTabFromPane layout tid of
             None \<Rightarrow> None
           | Some nextLayout \<Rightarrow>
               let nextActivePane =
                 List.find (\<lambda>pane. leafId pane = activePaneId nextLayout) (collectLeaves (root nextLayout))
               in truthy_string (map_option leafSelected nextActivePane)))"

definition cmd_closeTab :: "string \<Rightarrow> string option \<Rightarrow> WorkbenchState \<Rightarrow> WorkbenchState" where
  "cmd_closeTab tid preferred wb =
     (case findTab wb tid of
        None \<Rightarrow> wb
      | Some tab \<Rightarrow>
          let preferredSelectedTabId =
            nullish_option preferred (resolvePreferredSelectionAfterClose wb (wtWorkspaceId tab) tid)
          in onTabs (tabStore_closeTab tid (truthy_string preferredSelectedTabId)) wb)"

definition cmd_closeOtherTabs :: "string \<Rightarrow> WorkbenchState \<Rightarrow> WorkbenchState" where
  "cmd_closeOtherTabs tid wb =
     (case findTab wb tid of None \<Rightarrow> wb | Some target \<Rightarrow> onTabs (tabStore_closeOtherTabs tid) wb)"

definition cmd_closeAllTabs :: "string \<Rightarrow> WorkbenchState \<Rightarrow> WorkbenchState" where
  "cmd_closeAllTabs tid wb =
     (case findTab wb tid of None \<Rightarrow> wb | Some target \<Rightarrow> onTabs (tabStore_closeAllTabs tid) wb)"

definition cmd_setSelectedTab :: "string \<Rightarrow> WorkbenchState \<Rightarrow> WorkbenchState" where
  "cmd_setSelectedTab tid = onTabs (tabStore_selectTab tid)"

section \<open>Opening tabs\<close>

fun focusRequestFor :: "WorkbenchTabData \<Rightarrow> (TabFocusTarget \<times> TabFocusKind) option" where
  "focusRequestFor (TerminalTab d) = Some (TerminalTarget, AutoFocus)"
| "focusRequestFor (AgentChatTab d) =
     (if chatSessionView d \<noteq> Some SubagentDetail then Some (AgentComposerTarget, AutoFocus) else None)"
| "focusRequestFor _ = None"

definition requestFocusForNewTab :: "string set \<Rightarrow> WorkbenchState \<Rightarrow> WorkbenchState" where
  "requestFocusForNewTab previousTabIds wb =
     (case findTab wb (selectedTabId (wbTabs wb)) of
        None \<Rightarrow> wb
      | Some selectedTab \<Rightarrow>
          if wtId selectedTab \<in> previousTabIds then wb
          else case focusRequestFor (wtData selectedTab) of
                 None \<Rightarrow> wb
               | Some (target, kind) \<Rightarrow> wb\<lparr>wbFrames := wbFrames wb @ [(wtId selectedTab, target, kind)]\<rparr>)"

text \<open>One animation frame runs the callbacks that were waiting, in order.\<close>

fun runFrameCallbacks :: "(string \<times> TabFocusTarget \<times> TabFocusKind) list \<Rightarrow> WorkbenchState \<Rightarrow> WorkbenchState" where
  "runFrameCallbacks [] wb = wb"
| "runFrameCallbacks ((tid, target, kind) # rest) wb =
     runFrameCallbacks rest
       (if list_ex (\<lambda>tab. wtId tab = tid) (tabs (wbTabs wb))
        then wb\<lparr>wbFocus := requestTabFocus tid target kind (wbFocus wb)\<rparr>
        else wb)"

definition runAnimationFrame :: "WorkbenchState \<Rightarrow> WorkbenchState" where
  "runAnimationFrame wb = runFrameCallbacks (wbFrames wb) (wb\<lparr>wbFrames := []\<rparr>)"

definition resolveActiveWorkspaceId :: "OpenTabInput \<Rightarrow> WorkbenchState \<Rightarrow> string" where
  "resolveActiveWorkspaceId input wb = nullish (inWorkspaceId input) (activeWorkspaceId (wbNav wb))"

definition cmd_openTab :: "OpenTabInput \<Rightarrow> string list option \<Rightarrow> string \<Rightarrow> WorkbenchState \<Rightarrow> WorkbenchState" where
  "cmd_openTab input activePaneTabIds uuid wb =
     (let previousTabIds = set (map wtId (tabs (wbTabs wb)));
          workspaceId = resolveActiveWorkspaceId input wb in
      if workspaceId = [] then wb
      else
        let activePane = getActivePane (wbPanes wb) workspaceId in
        requestFocusForNewTab previousTabIds
          (onTabs (tabStore_openTab input workspaceId
                     (nullish_option activePaneTabIds (map_option tabIds activePane)) uuid) wb))"

definition cmd_openTabInOppositePane ::
  "OpenTabInput \<Rightarrow> string \<Rightarrow> string \<Rightarrow> string \<Rightarrow> WorkbenchState \<Rightarrow> WorkbenchState" where
  "cmd_openTabInOppositePane input uuid uuid1 uuid2 wb =
     (let workspaceId = nullish (inWorkspaceId input) (activeWorkspaceId (wbNav wb)) in
      if workspaceId = [] then wb
      else
        let finish = (\<lambda>wb'.
              let activePane = getActivePane (wbPanes wb') workspaceId;
                  previousTabIds = set (map wtId (tabs (wbTabs wb')))
              in requestFocusForNewTab previousTabIds
                   (onTabs (tabStore_openTab input workspaceId (map_option tabIds activePane) uuid) wb')) in
     (case layoutByWorkspaceId (wbPanes wb) workspaceId of
        None \<Rightarrow> cmd_openTab input None uuid wb
      | Some layout \<Rightarrow>
          (case truthy_string (findOppositePaneId (root layout) (activePaneId layout)) of
             Some oppositeId \<Rightarrow> finish (onPanes (paneStore_setActivePane workspaceId oppositeId) wb)
           | None \<Rightarrow>
               (case root layout of
                  Leaf _ \<Rightarrow>
                    (case splitRootPane layout Horizontal (createPaneId uuid1) (createPaneId uuid2) of
                       None \<Rightarrow> cmd_openTab input None uuid wb
                     | Some next \<Rightarrow>
                         finish (onPanes (\<lambda>p. p\<lparr>layoutByWorkspaceId :=
                           (layoutByWorkspaceId p)(workspaceId \<mapsto> next)\<rparr>) wb))
                | Branch _ _ _ _ _ \<Rightarrow> cmd_openTab input None uuid wb))))"

section \<open>Commands that pass one call on\<close>

definition cmd_toggleTabPinned :: "string \<Rightarrow> WorkbenchState \<Rightarrow> WorkbenchState" where
  "cmd_toggleTabPinned tid = onTabs (tabStore_toggleTabPinned tid)"

definition cmd_promoteTemporaryTab :: "string \<Rightarrow> WorkbenchState \<Rightarrow> WorkbenchState" where
  "cmd_promoteTemporaryTab tid = onTabs (tabStore_promoteTemporaryTab tid)"

definition cmd_reorderTab :: "string \<Rightarrow> string \<Rightarrow> DropPosition \<Rightarrow> WorkbenchState \<Rightarrow> WorkbenchState" where
  "cmd_reorderTab dragged target position = onTabs (tabStore_reorderTab dragged target position)"

definition cmd_renameTab :: "string \<Rightarrow> string \<Rightarrow> bool option \<Rightarrow> WorkbenchState \<Rightarrow> WorkbenchState" where
  "cmd_renameTab tid newTitle userRenamed = onTabs (tabStore_renameTab tid newTitle userRenamed)"

definition cmd_setBrowserTabFaviconUrl :: "string \<Rightarrow> string option \<Rightarrow> WorkbenchState \<Rightarrow> WorkbenchState" where
  "cmd_setBrowserTabFaviconUrl tid faviconUrl = onTabs (tabStore_setBrowserTabFaviconUrl tid faviconUrl)"

definition cmd_setBrowserTabUrl :: "string \<Rightarrow> string \<Rightarrow> WorkbenchState \<Rightarrow> WorkbenchState" where
  "cmd_setBrowserTabUrl tid url = onTabs (tabStore_setBrowserTabUrl tid url)"

definition cmd_renameTabsForEntryRename :: "string \<Rightarrow> string \<Rightarrow> string \<Rightarrow> WorkbenchState \<Rightarrow> WorkbenchState" where
  "cmd_renameTabsForEntryRename workspaceId fromPath toPath =
     onTabs (tabStore_renameTabsForEntryRename workspaceId fromPath toPath)"

definition cmd_setFileTabDirty :: "string \<Rightarrow> bool \<Rightarrow> WorkbenchState \<Rightarrow> WorkbenchState" where
  "cmd_setFileTabDirty tid isDirty = onTabs (tabStore_setFileTabDirty tid isDirty)"

definition cmd_retainWorkspaceTabs :: "string list \<Rightarrow> WorkbenchState \<Rightarrow> WorkbenchState \<times> string list" where
  "cmd_retainWorkspaceTabs workspaceIds wb =
     (let (ts, removed) = tabStore_retainWorkspaceTabs workspaceIds (activeWorkspaceId (wbNav wb)) (wbTabs wb)
      in (wb\<lparr>wbTabs := ts\<rparr>, removed))"

definition cmd_resolveTabForWorkspace :: "string \<Rightarrow> WorkbenchState \<Rightarrow> WorkbenchState" where
  "cmd_resolveTabForWorkspace workspaceId = onTabs (tabStore_resolveTabForWorkspace workspaceId)"

definition cmd_bindTerminalTabSession :: "string \<Rightarrow> string \<Rightarrow> WorkbenchState \<Rightarrow> WorkbenchState" where
  "cmd_bindTerminalTabSession tid sessionId = onTabs (tabStore_setTerminalTabSessionId tid sessionId)"

definition cmd_setTerminalTabAgentKind :: "string \<Rightarrow> DesktopAgentKind option \<Rightarrow> WorkbenchState \<Rightarrow> WorkbenchState" where
  "cmd_setTerminalTabAgentKind tid agentKind = onTabs (tabStore_setTerminalTabAgentKind tid agentKind)"

definition cmd_bindAgentChatTabSession :: "string \<Rightarrow> string \<Rightarrow> WorkbenchState \<Rightarrow> WorkbenchState" where
  "cmd_bindAgentChatTabSession tid sessionId = onTabs (tabStore_setAgentChatTabSession tid sessionId)"

definition cmd_setAgentChatTabSubagentControl ::
  "string \<Rightarrow> string option \<Rightarrow> string option \<Rightarrow> WorkbenchState \<Rightarrow> WorkbenchState" where
  "cmd_setAgentChatTabSubagentControl tid agentId parentSessionId =
     onTabs (tabStore_setAgentChatTabSubagentControl tid agentId parentSessionId)"

definition cmd_closeAllTerminalTabs :: "string option \<Rightarrow> WorkbenchState \<Rightarrow> WorkbenchState" where
  "cmd_closeAllTerminalTabs workspaceId wb =
     onTabs (tabStore_closeAllTerminalTabs (nullish workspaceId (activeWorkspaceId (wbNav wb)))) wb"

definition cmd_paneSelectTab :: "string \<Rightarrow> string \<Rightarrow> string \<Rightarrow> WorkbenchState \<Rightarrow> WorkbenchState" where
  "cmd_paneSelectTab workspaceId paneId tid = onPanes (paneStore_selectTab workspaceId paneId tid)"

definition cmd_registerTabInPane :: "string \<Rightarrow> string \<Rightarrow> string option \<Rightarrow> WorkbenchState \<Rightarrow> WorkbenchState" where
  "cmd_registerTabInPane workspaceId tid paneId = onPanes (paneStore_registerTabInPane workspaceId tid paneId)"

definition cmd_unregisterTabFromPane :: "string \<Rightarrow> string \<Rightarrow> WorkbenchState \<Rightarrow> WorkbenchState" where
  "cmd_unregisterTabFromPane workspaceId tid = onPanes (paneStore_unregisterTabFromPane workspaceId tid)"

definition cmd_splitWorkspacePane ::
  "string \<Rightarrow> string \<Rightarrow> string \<Rightarrow> SplitDirection \<Rightarrow> Placement \<Rightarrow> string \<Rightarrow> string \<Rightarrow> WorkbenchState \<Rightarrow> WorkbenchState" where
  "cmd_splitWorkspacePane workspaceId tid targetPaneId direction placement uuid1 uuid2 =
     onPanes (paneStore_splitPane workspaceId tid targetPaneId direction placement uuid1 uuid2)"

definition cmd_moveTabToPane :: "string \<Rightarrow> string \<Rightarrow> string \<Rightarrow> WorkbenchState \<Rightarrow> WorkbenchState" where
  "cmd_moveTabToPane workspaceId tid targetPaneId = onPanes (paneStore_moveTab workspaceId tid targetPaneId)"

definition cmd_reorderPaneTab ::
  "string \<Rightarrow> string \<Rightarrow> string \<Rightarrow> string \<Rightarrow> DropPosition \<Rightarrow> WorkbenchState \<Rightarrow> WorkbenchState" where
  "cmd_reorderPaneTab workspaceId paneId dragged target position =
     onPanes (paneStore_reorderTab workspaceId paneId dragged target position)"

definition cmd_setActivePane :: "string \<Rightarrow> string \<Rightarrow> WorkbenchState \<Rightarrow> WorkbenchState" where
  "cmd_setActivePane workspaceId paneId = onPanes (paneStore_setActivePane workspaceId paneId)"

definition cmd_updateSplitRatio :: "string \<Rightarrow> string \<Rightarrow> js_number \<Rightarrow> WorkbenchState \<Rightarrow> WorkbenchState" where
  "cmd_updateSplitRatio workspaceId branchId ratio = onPanes (paneStore_updateSplitRatio workspaceId branchId ratio)"

definition cmd_createAdjacentPaneWithTab ::
  "string \<Rightarrow> string \<Rightarrow> string \<Rightarrow> SplitDirection \<Rightarrow> Placement \<Rightarrow> string \<Rightarrow> string \<Rightarrow> WorkbenchState \<Rightarrow> WorkbenchState" where
  "cmd_createAdjacentPaneWithTab workspaceId tid targetPaneId direction placement uuid1 uuid2 =
     onPanes (paneStore_createAdjacentPaneWithTab workspaceId tid targetPaneId direction placement uuid1 uuid2)"

definition cmd_resizeLeftPane :: "js_number \<Rightarrow> WorkbenchState \<Rightarrow> WorkbenchState" where
  "cmd_resizeLeftPane width = onLayout (setLeftPaneWidth width)"

definition cmd_resizeRightPane :: "js_number \<Rightarrow> WorkbenchState \<Rightarrow> WorkbenchState" where
  "cmd_resizeRightPane width = onLayout (setRightPaneWidth width)"

definition cmd_setLeftPaneHidden :: "bool \<Rightarrow> WorkbenchState \<Rightarrow> WorkbenchState" where
  "cmd_setLeftPaneHidden hidden = onLayout (setIsLeftPaneManuallyHidden hidden)"

definition cmd_setRightPaneTab :: "string \<Rightarrow> WorkspaceRightPaneTab \<Rightarrow> WorkbenchState \<Rightarrow> WorkbenchState" where
  "cmd_setRightPaneTab workspaceId tab = onLayout (layout_setRightPaneTab workspaceId tab)"

definition cmd_setIsRightPaneHidden :: "string \<Rightarrow> bool \<Rightarrow> WorkbenchState \<Rightarrow> WorkbenchState" where
  "cmd_setIsRightPaneHidden workspaceId hidden = onLayout (layout_setIsRightPaneHidden workspaceId hidden)"

definition cmd_removeRightPaneStateForWorkspace :: "string \<Rightarrow> WorkbenchState \<Rightarrow> WorkbenchState" where
  "cmd_removeRightPaneStateForWorkspace workspaceId = onLayout (layout_removeRightPaneState workspaceId)"

section \<open>Content of file and diff tabs\<close>

definition seedFileTabContent :: "SeedFileTabContentInput \<Rightarrow> WorkbenchState \<Rightarrow> WorkbenchState" where
  "seedFileTabContent input wb = wb\<lparr>wbFiles := fileContent_seed input (wbFiles wb)\<rparr>"

definition updateFileTabContent :: "string \<Rightarrow> string \<Rightarrow> WorkbenchState \<Rightarrow> WorkbenchState" where
  "updateFileTabContent tid content wb =
     (let (files, isDirty) = fileContent_updateContent tid content (wbFiles wb);
          wb1 = wb\<lparr>wbFiles := files\<rparr>;
          wb2 = (case isDirty of None \<Rightarrow> wb1 | Some d \<Rightarrow> cmd_setFileTabDirty tid d wb1)
      in if isDirty = Some True then cmd_promoteTemporaryTab tid wb2 else wb2)"

definition markFileTabSaved :: "string \<Rightarrow> WorkbenchState \<Rightarrow> WorkbenchState" where
  "markFileTabSaved tid wb =
     (let (files, isDirty) = fileContent_markSaved tid (wbFiles wb);
          wb1 = wb\<lparr>wbFiles := files\<rparr>
      in case isDirty of None \<Rightarrow> wb1 | Some d \<Rightarrow> cmd_setFileTabDirty tid d wb1)"

definition refreshFileTabFromDisk ::
  "string \<Rightarrow> string option \<Rightarrow> string \<Rightarrow> bool \<Rightarrow> WorkbenchState \<Rightarrow> WorkbenchState" where
  "refreshFileTabFromDisk tid path content deleted wb =
     wb\<lparr>wbFiles := fst (fileContent_refreshFromDisk tid path content deleted (wbFiles wb))\<rparr>"

definition removeFileTabContent :: "string list \<Rightarrow> WorkbenchState \<Rightarrow> WorkbenchState" where
  "removeFileTabContent ids wb = wb\<lparr>wbFiles := removeTabData ids (wbFiles wb)\<rparr>"

definition seedDiffTabContent :: "SeedDiffTabContentInput \<Rightarrow> WorkbenchState \<Rightarrow> WorkbenchState" where
  "seedDiffTabContent input wb = wb\<lparr>wbDiffs := diffContent_seed input (wbDiffs wb)\<rparr>"

definition refreshDiffTabContent ::
  "string \<Rightarrow> string option \<Rightarrow> string \<Rightarrow> string \<Rightarrow> WorkbenchState \<Rightarrow> WorkbenchState" where
  "refreshDiffTabContent tid path oldContent newContent wb =
     wb\<lparr>wbDiffs := diffContent_update tid path oldContent newContent (wbDiffs wb)\<rparr>"

definition removeDiffTabContent :: "string list \<Rightarrow> WorkbenchState \<Rightarrow> WorkbenchState" where
  "removeDiffTabContent ids wb = wb\<lparr>wbDiffs := removeTabData ids (wbDiffs wb)\<rparr>"

definition cmd_openTabWithContentSeed ::
  "OpenTabInput \<Rightarrow> string list option \<Rightarrow> string \<Rightarrow> WorkbenchState \<Rightarrow> WorkbenchState" where
  "cmd_openTabWithContentSeed input activePaneTabIds uuid wb =
     (let wb' = cmd_openTab input activePaneTabIds uuid wb;
          openedTabId = selectedTabId (wbTabs wb') in
      case inPayload input of
        OpenFile i \<Rightarrow>
          seedFileTabContent
            \<lparr>sfTabId = openedTabId, sfPath = ofPath i,
             sfContent = Some (nullish (ofContent i) (createFileTabPlaceholder (ofPath i))),
             sfIsUnsupported = ofIsUnsupported i, sfUnsupportedReason = ofUnsupportedReason i,
             sfIsIgnored = ofIsIgnored i\<rparr> wb'
      | OpenDiff i \<Rightarrow>
          let (placeholderOld, placeholderNew) =
            createDiffTabPlaceholder (odPath i) (odChangeKind i) (odAdditions i) (odDeletions i)
          in seedDiffTabContent
            \<lparr>sdTabId = openedTabId, sdPath = odPath i,
             sdOldContent = Some (nullish (odOldContent i) placeholderOld),
             sdNewContent = Some (nullish (odNewContent i) placeholderNew), sdFiles = odFiles i\<rparr> wb'
      | _ \<Rightarrow> wb')"

text \<open>\<open>renameAgentChatSessionByTab\<close> of the Agent module, reading the tab after the rename.\<close>

definition renameAgentChatSessionByTab :: "string \<Rightarrow> string \<Rightarrow> WorkbenchState \<Rightarrow> WorkbenchState" where
  "renameAgentChatSessionByTab tid newTitle wb =
     (case findTab wb tid of
        None \<Rightarrow> wb
      | Some tab \<Rightarrow>
          (case wtData tab of
             AgentChatTab d \<Rightarrow>
               (case truthy_string (map_option js_trim (chatSessionId d)) of
                  None \<Rightarrow> wb
                | Some sessionId \<Rightarrow> callOut [RenamePiSession sessionId newTitle] wb)
           | _ \<Rightarrow> wb))"

definition cmd_renameTabWithAgentSessionSync ::
  "string \<Rightarrow> string \<Rightarrow> bool option \<Rightarrow> WorkbenchState \<Rightarrow> WorkbenchState" where
  "cmd_renameTabWithAgentSessionSync tid newTitle userRenamed wb =
     renameAgentChatSessionByTab tid newTitle (cmd_renameTab tid newTitle userRenamed wb)"

section \<open>Navigation\<close>

definition cmd_activateWorkspace :: "string \<Rightarrow> string option \<Rightarrow> WorkbenchState \<Rightarrow> WorkbenchState" where
  "cmd_activateWorkspace workspaceId projectId wb =
     (let wb1 = (if js_trim workspaceId \<noteq> [] then onNav nav_closeOverlayPanel wb else wb);
          wb2 = onNav (setActiveWorkspaceId workspaceId) wb1;
          wb3 = (case projectId of None \<Rightarrow> wb2 | Some p \<Rightarrow> onNav (setActiveProjectId p) wb2)
      in cmd_resolveTabForWorkspace workspaceId wb3)"

definition cmd_activateProject :: "string \<Rightarrow> string option \<Rightarrow> WorkbenchState \<Rightarrow> WorkbenchState" where
  "cmd_activateProject projectId workspaceId wb =
     (let wb1 = (if js_trim projectId \<noteq> [] then onNav nav_closeOverlayPanel wb else wb);
          wb2 = onNav (setActiveProjectId projectId) wb1;
          wb3 = (case workspaceId of None \<Rightarrow> wb2 | Some w \<Rightarrow> onNav (setActiveWorkspaceId w) wb2)
      in cmd_resolveTabForWorkspace (nullish workspaceId (activeWorkspaceId (wbNav wb3))) wb3)"

definition cmd_openOverlayPanel :: "OverlayPanel option \<Rightarrow> WorkbenchState \<Rightarrow> WorkbenchState" where
  "cmd_openOverlayPanel panel = onNav (setOverlayPanel panel)"

definition cmd_closeOverlayPanel :: "WorkbenchState \<Rightarrow> WorkbenchState" where
  "cmd_closeOverlayPanel = onNav nav_closeOverlayPanel"

definition cmd_toggleTaskHubOverlay :: "WorkbenchState \<Rightarrow> WorkbenchState" where
  "cmd_toggleTaskHubOverlay wb =
     (if overlayPanel (wbNav wb) = Some TasksPanel then onNav nav_closeOverlayPanel wb
      else onNav (setOverlayPanel (Some TasksPanel))
             (onNav (setActiveWorkspaceId []) (onNav (setActiveProjectId []) wb)))"

section \<open>The close handler of the application\<close>

fun terminalSession :: "WorkbenchTab \<Rightarrow> string option" where
  "terminalSession tab =
     (case wtData tab of
        TerminalTab d \<Rightarrow> truthy_string (map_option js_trim (terminalSessionId d))
      | _ \<Rightarrow> None)"

definition stopAgentChatSessionsForTabs :: "WorkbenchTab list \<Rightarrow> WorkbenchState \<Rightarrow> WorkbenchState" where
  "stopAgentChatSessionsForTabs ts wb =
     fold (\<lambda>tab wb. callOut [StopPiSession (wtId tab)] (wb\<lparr>wbFocus := clearTabFocus (wtId tab) (wbFocus wb)\<rparr>)) ts wb"

definition closeTerminalSessionsForTabs :: "WorkbenchTab list \<Rightarrow> WorkbenchState \<Rightarrow> WorkbenchState" where
  "closeTerminalSessionsForTabs ts = callOut (map CloseTerminalSession (List.map_filter terminalSession ts))"

definition removeTabContentStores :: "string list \<Rightarrow> WorkbenchState \<Rightarrow> WorkbenchState" where
  "removeTabContentStores ids wb =
     (if ids = [] then wb else removeDiffTabContent ids (removeFileTabContent ids wb))"

definition closeTabWithCleanup :: "string \<Rightarrow> string option \<Rightarrow> WorkbenchState \<Rightarrow> WorkbenchState" where
  "closeTabWithCleanup tid preferred wb =
     (case findTab wb tid of
        None \<Rightarrow> wb
      | Some tab \<Rightarrow>
          let wb1 = (if wtKind tab = KAgentChat then stopAgentChatSessionsForTabs [tab] wb else wb);
              wb2 = (if wtKind tab = KTerminal
                     then closeTerminalSessionsForTabs [tab]
                            (callOut [RecordExplicitlyClosedTerminalTabId (wtId tab),
                                      ClearTerminalAgentStatus (wtId tab)] wb1)
                     else wb1)
          in cmd_closeTab tid preferred
               (removeTabContentStores [tid] (callOut [RemoveChatTabData [tid]] wb2)))"

text \<open>The cleanup shared by the two handlers that close many tabs.\<close>

definition cleanupRemovedTabs :: "WorkbenchTab list \<Rightarrow> WorkbenchState \<Rightarrow> WorkbenchState" where
  "cleanupRemovedTabs removedTabs wb =
     (let removedTerminalTabs = filter (\<lambda>tab. wtKind tab = KTerminal) removedTabs;
          removedAgentChatTabs = filter (\<lambda>tab. wtKind tab = KAgentChat) removedTabs;
          removedTabIds = map wtId removedTabs;
          wb1 = callOut (concat (map (\<lambda>tab. [RecordExplicitlyClosedTerminalTabId (wtId tab),
                                             ClearTerminalAgentStatus (wtId tab)]) removedTerminalTabs)) wb;
          wb2 = stopAgentChatSessionsForTabs removedAgentChatTabs
                  (closeTerminalSessionsForTabs removedTerminalTabs wb1)
      in if removedTabIds = [] then wb2
         else removeTabContentStores removedTabIds (callOut [RemoveChatTabData removedTabIds] wb2))"

definition closeOtherTabsWithCleanup :: "string \<Rightarrow> WorkbenchState \<Rightarrow> WorkbenchState" where
  "closeOtherTabsWithCleanup tid wb =
     (case findTab wb tid of
        None \<Rightarrow> wb
      | Some target \<Rightarrow>
          let removedTabs = filter (\<lambda>tab. wtWorkspaceId tab = wtWorkspaceId target \<and> wtId tab \<noteq> tid \<and> \<not> wtPinned tab)
                              (tabs (wbTabs wb))
          in cmd_closeOtherTabs tid (cleanupRemovedTabs removedTabs wb))"

definition closeAllTabsWithCleanup :: "string \<Rightarrow> WorkbenchState \<Rightarrow> WorkbenchState" where
  "closeAllTabsWithCleanup tid wb =
     (case findTab wb tid of
        None \<Rightarrow> wb
      | Some target \<Rightarrow>
          let removedTabs = filter (\<lambda>tab. wtWorkspaceId tab = wtWorkspaceId target \<and> \<not> wtPinned tab)
                              (tabs (wbTabs wb))
          in cmd_closeAllTabs tid (cleanupRemovedTabs removedTabs wb))"

end
