(* ===== verification/Workbench_Properties.thy ===== *)
theory Workbench_Properties
  imports Workbench_Commands
begin

text \<open>
  What the commands guarantee across the stores: the tab selected after a close agrees with the
  pane layout, opening in the opposite pane moves the active pane and nothing else, focus goes
  only to new tabs that still exist, closing leaves no content behind, and the dirty flag of a
  file tab follows its content.
\<close>

lemmas wb_lift_defs = onTabs_def onPanes_def onLayout_def onNav_def callOut_def

lemma wb_lift_simps [simp]:
  "wbTabs (onTabs f wb) = f (wbTabs wb)" "wbPanes (onTabs f wb) = wbPanes wb"
  "wbPanes (onPanes g wb) = g (wbPanes wb)" "wbTabs (onPanes g wb) = wbTabs wb"
  "wbFrames (onTabs f wb) = wbFrames wb" "wbFocus (onTabs f wb) = wbFocus wb"
  "wbFiles (onTabs f wb) = wbFiles wb" "wbDiffs (onTabs f wb) = wbDiffs wb"
  "wbEffects (onTabs f wb) = wbEffects wb" "wbNav (onTabs f wb) = wbNav wb"
  "wbTabs (callOut cs wb) = wbTabs wb" "wbFiles (callOut cs wb) = wbFiles wb"
  "wbDiffs (callOut cs wb) = wbDiffs wb" "wbPanes (callOut cs wb) = wbPanes wb"
  "wbEffects (callOut cs wb) = wbEffects wb @ cs" "wbFocus (callOut cs wb) = wbFocus wb"
  by (simp_all add: wb_lift_defs)

section \<open>Closing agrees with the pane layout\<close>

text \<open>Every tab placed in a layout of the workspace is an open tab of that workspace.\<close>

definition placed_tabs_open :: "TabStoreStateSlice \<Rightarrow> string \<Rightarrow> SplitPaneStateSlice \<Rightarrow> bool" where
  "placed_tabs_open st w l \<longleftrightarrow>
     (\<forall>t \<in> set (panesTabs (collectLeaves (root l))). \<exists>tab \<in> set (tabs st). wtId tab = t \<and> wtWorkspaceId tab = w)"

lemma active_pane_find:
  assumes "layout_wf l" "m \<in> set (collectLeaves (root l))" "leafId m = activePaneId l"
  shows "List.find (\<lambda>pane. leafId pane = activePaneId l) (collectLeaves (root l)) = Some m"
  using findLeaf_Some [of "root l" "activePaneId l" m] assms by (simp add: findLeaf_conv)

lemma resolvePreferred_eq:
  assumes l: "layoutByWorkspaceId (wbPanes wb) w = Some l" "layout_wf l" "removeTabFromPane l i = Some l'"
    and m: "m \<in> set (collectLeaves (root l'))" "leafId m = activePaneId l'"
  shows "resolvePreferredSelectionAfterClose wb w i = truthy_string (Some (leafSelected m))"
  using active_pane_find [OF removeTabFromPane_wf [OF l(2,3)] m] l
  by (simp add: resolvePreferredSelectionAfterClose_def)

text \<open>The tab that the surviving pane shows is an open tab of the workspace, other than the closed one.\<close>

lemma surviving_selection_open:
  assumes wf: "tabs_wf st" and l: "layout_wf l" "placed_tabs_open st w l" "removeTabFromPane l i = Some l'"
    and m: "m \<in> set (collectLeaves (root l'))" "tabIds m \<noteq> []"
  shows "leafSelected m \<noteq> [] \<and> leafSelected m \<noteq> i \<and>
    (\<exists>tab \<in> set (tabs st). wtId tab = leafSelected m \<and> wtWorkspaceId tab = w)"
proof -
  have "layout_wf l'" by (rule removeTabFromPane_wf [OF l(1,3)])
  then have "leaf_ok m" using m(1) by (simp add: layout_wf_def tree_ok_def panes_ok_def)
  with m have "leafSelected m \<in> set (panesTabs (collectLeaves (root l')))"
    by (auto simp: leaf_ok_def set_panesTabs split: if_splits)
  then have "leafSelected m \<in> set (panesTabs (collectLeaves (root l)))" "leafSelected m \<noteq> i"
    using removeTabFromPane_tabs [of l i l'] l by auto
  with l(2) wf show ?thesis by (force simp: placed_tabs_open_def tabs_wf_def tab_ok_def)
qed

text \<open>C4: Closing the selected tab of a workspace selects the tab that the pane layer shows once it
  has taken the closed tab out: the selection of the pane that is active afterwards.\<close>

theorem close_selects_surviving_pane_tab:
  assumes "tabs_wf (wbTabs wb)" "cur \<in> set (tabs (wbTabs wb))" "wtId cur = i" "selectedTabId (wbTabs wb) = i"
    "layoutByWorkspaceId (wbPanes wb) (wtWorkspaceId cur) = Some l" "layout_wf l"
    "placed_tabs_open (wbTabs wb) (wtWorkspaceId cur) l" "removeTabFromPane l i = Some l'"
    "m \<in> set (collectLeaves (root l'))" "leafId m = activePaneId l'" "tabIds m \<noteq> []"
  shows "selectedTabId (wbTabs (cmd_closeTab i None wb)) = leafSelected m \<and>
    getActivePane (wbPanes (cmd_unregisterTabFromPane (wtWorkspaceId cur) i (cmd_closeTab i None wb)))
      (wtWorkspaceId cur) = Some m"
proof -
  let ?w = "wtWorkspaceId cur" and ?st = "wbTabs wb"
  note open_tab = surviving_selection_open [OF assms(1,6,7,8,9,11)]
  have f: "findTab wb i = Some cur" using find_by_id [OF assms(1,2)] assms(3) by simp
  have cmd: "cmd_closeTab i None wb = onTabs (tabStore_closeTab i (Some (leafSelected m))) wb"
    using f resolvePreferred_eq [OF assms(5,6,8,9,10)] open_tab by (simp add: cmd_closeTab_def truthy_string_def)
  have "cur \<in> set (filter (\<lambda>tab. wtWorkspaceId tab = ?w) (tabs ?st))" using assms(2) by simp
  from split_list [OF this] obtain ys zs where
    ws: "filter (\<lambda>tab. wtWorkspaceId tab = ?w) (tabs ?st) = ys @ cur # zs" by blast
  obtain st' where st': "closeTabState ?st i (Some (leafSelected m)) = Some st'"
    using f by (simp add: closeTabState_def Let_def)
  obtain tab where "tab \<in> set (ys @ cur # zs)" "wtId tab = leafSelected m"
    using open_tab unfolding ws [symmetric] by auto
  with open_tab assms(3) have "leafSelected m \<in> wtId ` set (ys @ zs)" by (auto intro!: image_eqI)
  with closeTabState_selection [OF assms(1,2,3) ws st'] assms(4) open_tab
  have "selectedTabId st' = leafSelected m" by simp
  moreover have "findLeaf (root l') (activePaneId l') = Some m"
    using findLeaf_Some removeTabFromPane_wf [OF assms(6,8)] assms(9,10) by simp
  ultimately show ?thesis
    using st' assms(5,8)
    by (simp add: cmd tabStore_closeTab_def cmd_unregisterTabFromPane_def getActivePane_def
        paneStore_unregisterTabFromPane_def withLayout_conv getLayout_def)
qed

definition demo_wb_tab :: "string \<Rightarrow> WorkbenchTabData \<Rightarrow> WorkbenchTab" where
  "demo_wb_tab i d = \<lparr>wtId = i, wtWorkspaceId = ''w'', wtTitle = i, wtPinned = False, wtData = d\<rparr>"

definition demo_file :: "string \<Rightarrow> bool \<Rightarrow> WorkbenchTabData" where
  "demo_file path dirty = FileTab \<lparr>filePath = path, fileIsDirty = dirty, fileIsTemporary = False\<rparr>"

definition demo_wb_layout :: SplitPaneStateSlice where
  "demo_wb_layout =
     \<lparr>root = Branch ''b'' Horizontal half_ratio
               (Leaf \<lparr>leafId = ''p1'', tabIds = [''a'', ''c''], leafSelected = ''a''\<rparr>)
               (Leaf \<lparr>leafId = ''p2'', tabIds = [''d''], leafSelected = ''d''\<rparr>),
      activePaneId = ''p1''\<rparr>"

definition demo_wb :: WorkbenchState where
  "demo_wb = initialWorkbench\<lparr>
     wbTabs := \<lparr>tabs = [demo_wb_tab ''a'' (demo_file ''x'' True), demo_wb_tab ''d'' (demo_file ''y'' False),
                       demo_wb_tab ''c'' (demo_file ''z'' False)],
               selectedTabId = ''a'', selectedTabIdByWorkspaceId = [''w'' \<mapsto> ''a'']\<rparr>,
     wbPanes := \<lparr>layoutByWorkspaceId = [''w'' \<mapsto> demo_wb_layout]\<rparr>\<rparr>"

lemmas demo_wb_defs = demo_wb_def demo_wb_tab_def demo_file_def demo_wb_layout_def

lemma demo_wb_ok:
  "tabs_wf (wbTabs demo_wb)" "layout_wf demo_wb_layout" "placed_tabs_open (wbTabs demo_wb) ''w'' demo_wb_layout"
  by (simp_all add: demo_wb_defs tabs_wf_def tab_ok_def isTemporaryTab_def layout_wf_def tree_ok_def
      panes_ok_def leaf_ok_def half_ratio_def placed_tabs_open_def)

theorem close_selects_surviving_pane_tab_witness:
  "selectedTabId (wbTabs (cmd_closeTab ''a'' None demo_wb)) = ''c''"
proof -
  let ?m = "\<lparr>leafId = ''p1'', tabIds = [''c''], leafSelected = ''c''\<rparr>"
  let ?l = "demo_wb_layout\<lparr>root := Branch ''b'' Horizontal half_ratio (Leaf ?m)
               (Leaf \<lparr>leafId = ''p2'', tabIds = [''d''], leafSelected = ''d''\<rparr>)\<rparr>"
  have r: "removeTabFromPane demo_wb_layout ''a'' = Some ?l"
    by (simp add: removeTabFromPane_def demo_wb_layout_def neighbourSelection_def js_indexOf_def js_at_def)
  have "demo_wb_tab ''a'' (demo_file ''x'' True) \<in> set (tabs (wbTabs demo_wb))"
    by (simp add: demo_wb_def)
  from close_selects_surviving_pane_tab [OF demo_wb_ok(1) this, of "''a''" demo_wb_layout ?l ?m] r demo_wb_ok(2,3)
  show ?thesis by (simp add: demo_wb_defs)
qed

section \<open>Opening in the opposite pane\<close>

lemma requestFocus_keeps [simp]:
  "wbTabs (requestFocusForNewTab ids wb) = wbTabs wb" "wbPanes (requestFocusForNewTab ids wb) = wbPanes wb"
  "wbFocus (requestFocusForNewTab ids wb) = wbFocus wb" "wbFiles (requestFocusForNewTab ids wb) = wbFiles wb"
  "wbDiffs (requestFocusForNewTab ids wb) = wbDiffs wb"
  by (simp_all add: requestFocusForNewTab_def split: option.split prod.split)

lemma opposite_layout:
  assumes l: "layout_wf l" "fresh_split l n b" and n: "n \<noteq> []"
    and ids: "[] \<notin> set (leafIds (root l))"
  shows "(\<exists>q. truthy_string (findOppositePaneId (root l) (activePaneId l)) = Some q \<and>
             setActivePaneState l q = Some (l\<lparr>activePaneId := q\<rparr>) \<and> q \<noteq> activePaneId l) \<or>
         (truthy_string (findOppositePaneId (root l) (activePaneId l)) = None \<and> (\<exists>k. root l = Leaf k) \<and>
          (\<exists>l'. splitRootPane l Horizontal n b = Some l' \<and> activePaneId l' = n \<and>
                panesTabs (collectLeaves (root l')) = panesTabs (collectLeaves (root l))))"
proof (cases "findOppositePaneId (root l) (activePaneId l)")
  case (Some q)
  from findOppositePaneId_sound [OF _ Some] l(1)
  have q: "q \<in> set (leafIds (root l))" "q \<noteq> activePaneId l" by (auto simp: layout_wf_def tree_ok_def)
  then have "findLeaf (root l) q \<noteq> None" by (auto simp: findLeaf_None)
  moreover have "q \<noteq> []" using q(1) ids by metis
  ultimately show ?thesis using q(2) Some by (auto simp: truthy_string_def setActivePaneState_def)
next
  case None
  have "activePaneId l \<in> set (leafIds (root l))" using l(1) by (simp add: layout_wf_def)
  with None findOppositePaneId_None_iff [of "root l" "activePaneId l"] obtain k where "root l = Leaf k"
    by (cases "root l") (auto simp: set_nodeIds)
  with None show ?thesis by (auto simp: truthy_string_def splitRootPane_def)
qed

text \<open>Opening a tab in the opposite pane of a workspace that has a layout makes another pane
  active (an existing one across the root split, or a new one when there was a single pane)
  and moves no tab between panes; the layout stays well formed, and the tab store opens the
  tab as usual.\<close>

theorem open_in_opposite_pane:
  assumes "layoutByWorkspaceId (wbPanes wb) w = Some l" "layout_wf l" "w \<noteq> []"
    "nullish (inWorkspaceId input) (activeWorkspaceId (wbNav wb)) = w"
    "[] \<notin> set (leafIds (root l))" "fresh_split l (createPaneId u1) (createPaneId u2)"
  shows "\<exists>l'. layoutByWorkspaceId (wbPanes (cmd_openTabInOppositePane input uuid u1 u2 wb)) w = Some l' \<and>
    layout_wf l' \<and> activePaneId l' \<noteq> activePaneId l \<and>
    panesTabs (collectLeaves (root l')) = panesTabs (collectLeaves (root l)) \<and>
    wbTabs (cmd_openTabInOppositePane input uuid u1 u2 wb) =
      tabStore_openTab input w (map_option tabIds (findLeaf (root l') (activePaneId l'))) uuid (wbTabs wb)"
proof -
  have n: "createPaneId u1 \<noteq> []" by (simp add: createPaneId_def)
  have act: "activePaneId l \<in> set (leafIds (root l))" using assms(2) by (simp add: layout_wf_def)
  consider (opposite) q where "truthy_string (findOppositePaneId (root l) (activePaneId l)) = Some q"
      "setActivePaneState l q = Some (l\<lparr>activePaneId := q\<rparr>)" "q \<noteq> activePaneId l"
    | (single) k l' where "truthy_string (findOppositePaneId (root l) (activePaneId l)) = None" "root l = Leaf k"
      "splitRootPane l Horizontal (createPaneId u1) (createPaneId u2) = Some l'" "activePaneId l' = createPaneId u1"
      "panesTabs (collectLeaves (root l')) = panesTabs (collectLeaves (root l))"
    using opposite_layout [OF assms(2,6) n assms(5)] by blast
  then show ?thesis
  proof cases
    case opposite
    have "layout_wf (l\<lparr>activePaneId := q\<rparr>)" using setActivePaneState_wf(1) [OF assms(2) opposite(2)] .
    with opposite assms(1,3,4) show ?thesis
      by (simp add: cmd_openTabInOppositePane_def Let_def paneStore_setActivePane_def withLayout_conv
          getLayout_def getActivePane_def)
  next
    case single
    have "createPaneId u1 \<noteq> activePaneId l"
      using assms(6) act by (auto simp: fresh_split_def set_nodeIds)
    with single assms splitRootPane_wf [OF assms(2,6) single(3)] show ?thesis
      by (simp add: cmd_openTabInOppositePane_def Let_def getActivePane_def)
  qed
qed

definition demo_wb_open :: "OpenTabPayload \<Rightarrow> OpenTabInput" where
  "demo_wb_open payload = \<lparr>inWorkspaceId = Some ''w'', inPayload = payload\<rparr>"

theorem open_in_opposite_pane_witness:
  "\<exists>l'. layoutByWorkspaceId (wbPanes (cmd_openTabInOppositePane (demo_wb_open (OpenBrowser
     \<lparr>obUrl = None, obReuseExisting = None\<rparr>)) ''n'' ''1'' ''2'' demo_wb)) ''w'' = Some l' \<and> activePaneId l' \<noteq> ''p1''"
proof -
  have "fresh_split demo_wb_layout (createPaneId ''1'') (createPaneId ''2'')"
    by (simp add: fresh_split_def demo_wb_layout_def createPaneId_def)
  from open_in_opposite_pane [OF _ demo_wb_ok(2) _ _ _ this, of demo_wb "''w''"
      "demo_wb_open (OpenBrowser \<lparr>obUrl = None, obReuseExisting = None\<rparr>)" "''n''"]
  show ?thesis by (auto simp: demo_wb_defs demo_wb_open_def)
qed

section \<open>Focus of new tabs\<close>

lemma runFrameCallbacks_effect:
  "wbTabs (runFrameCallbacks cbs wb) = wbTabs wb \<and>
   focusEvents (wbFocus (runFrameCallbacks cbs wb)) = focusEvents (wbFocus wb) @
     map (\<lambda>(tid, target, kind). (tid, \<lparr>focusTarget = target, focusKind = kind\<rparr>))
       (filter (\<lambda>(tid, _). tid \<in> set (tabIdsOf (wbTabs wb))) cbs)"
  by (induction cbs wb rule: runFrameCallbacks.induct)
     (auto simp: requestTabFocus_def Let_def list_ex_iff)

text \<open>Opening a tab schedules a focus request only for a tab that the request created, and only
  if that is a terminal or a full agent chat; the request is carried out at the next frame
  if the tab is still open then, whatever commands \<open>f\<close> ran in between on the tab store.\<close>

theorem focus_only_new_open_tabs:
  assumes "wbFrames wb = []"
  shows "\<exists>cbs. wbFrames (cmd_openTab input paneTabs uuid wb) = cbs \<and> length cbs \<le> 1 \<and>
    (\<forall>(tid, target, kind) \<in> set cbs. tid \<notin> set (tabIdsOf (wbTabs wb)) \<and>
       tid = selectedTabId (wbTabs (cmd_openTab input paneTabs uuid wb)) \<and>
       (\<exists>tab \<in> set (tabs (wbTabs (cmd_openTab input paneTabs uuid wb))). wtId tab = tid \<and>
          (wtKind tab = KTerminal \<and> target = TerminalTarget \<or>
           wtKind tab = KAgentChat \<and> target = AgentComposerTarget))) \<and>
    focusEvents (wbFocus (runAnimationFrame (onTabs f (cmd_openTab input paneTabs uuid wb)))) =
      focusEvents (wbFocus wb) @
      map (\<lambda>(tid, target, kind). (tid, \<lparr>focusTarget = target, focusKind = kind\<rparr>))
        (filter (\<lambda>(tid, _). tid \<in> set (tabIdsOf (f (wbTabs (cmd_openTab input paneTabs uuid wb))))) cbs)"
proof -
  let ?wb' = "cmd_openTab input paneTabs uuid wb"
  have focus: "wbFocus ?wb' = wbFocus wb" by (simp add: cmd_openTab_def Let_def)
  have "focusEvents (wbFocus (runAnimationFrame (onTabs f ?wb'))) = focusEvents (wbFocus wb) @
      map (\<lambda>(tid, target, kind). (tid, \<lparr>focusTarget = target, focusKind = kind\<rparr>))
        (filter (\<lambda>(tid, _). tid \<in> set (tabIdsOf (f (wbTabs ?wb')))) (wbFrames ?wb'))"
    using runFrameCallbacks_effect [of "wbFrames ?wb'" "(onTabs f ?wb')\<lparr>wbFrames := []\<rparr>"] focus
    by (simp add: runAnimationFrame_def)
  moreover have "length (wbFrames ?wb') \<le> 1 \<and> (\<forall>(tid, target, kind) \<in> set (wbFrames ?wb').
       tid \<notin> set (tabIdsOf (wbTabs wb)) \<and> tid = selectedTabId (wbTabs ?wb') \<and>
       (\<exists>tab \<in> set (tabs (wbTabs ?wb')). wtId tab = tid \<and>
          (wtKind tab = KTerminal \<and> target = TerminalTarget \<or>
           wtKind tab = KAgentChat \<and> target = AgentComposerTarget)))"
  proof (cases "resolveActiveWorkspaceId input wb = []")
    case True
    with assms show ?thesis by (simp add: cmd_openTab_def Let_def)
  next
    case False
    define wb1 where "wb1 = onTabs (tabStore_openTab input (resolveActiveWorkspaceId input wb)
      (nullish_option paneTabs (map_option tabIds (getActivePane (wbPanes wb) (resolveActiveWorkspaceId input wb)))) uuid) wb"
    have wb': "?wb' = requestFocusForNewTab (set (tabIdsOf (wbTabs wb))) wb1"
      using False by (simp add: cmd_openTab_def Let_def wb1_def)
    have fr: "wbFrames wb1 = []" using assms by (simp add: wb1_def)
    show ?thesis
    proof (cases "findTab wb1 (selectedTabId (wbTabs wb1))")
      case None
      with fr show ?thesis by (simp add: wb' requestFocusForNewTab_def)
    next
      case (Some tab)
      then show ?thesis using fr find_id_SomeD [OF Some]
        by (cases "wtData tab") (auto simp: wb' requestFocusForNewTab_def)
    qed
  qed
  ultimately show ?thesis by blast
qed

lemma filter_absent_id:
  "\<forall>(tid, target, kind) \<in> set cbs. tid = i \<Longrightarrow> i \<notin> S \<Longrightarrow> filter (\<lambda>(tid, _). tid \<in> S) cbs = []"
  by (auto simp: filter_empty_conv)

theorem focus_only_new_open_tabs_witness:
  "focusEvents (wbFocus (runAnimationFrame (onTabs (tabStore_closeTab ''n'' None)
     (cmd_openTab (demo_wb_open (OpenAgentChat \<lparr>oaTitle = None, oaCwd = None, oaSessionId = None,
        oaSessionView = None, oaSubagentAgentId = None, oaSubagentParentSessionId = None\<rparr>)) None ''n'' demo_wb)))) = []"
proof -
  let ?i = "demo_wb_open (OpenAgentChat \<lparr>oaTitle = None, oaCwd = None, oaSessionId = None,
        oaSessionView = None, oaSubagentAgentId = None, oaSubagentParentSessionId = None\<rparr>)"
  have "wbFrames demo_wb = []" by (simp add: demo_wb_def initialWorkbench_def)
  from focus_only_new_open_tabs [OF this, of ?i None "''n''" "tabStore_closeTab ''n'' None"]
  obtain cbs where c: "\<forall>(tid, target, kind) \<in> set cbs. tid = selectedTabId (wbTabs (cmd_openTab ?i None ''n'' demo_wb))"
    and e: "focusEvents (wbFocus (runAnimationFrame (onTabs (tabStore_closeTab ''n'' None) (cmd_openTab ?i None ''n'' demo_wb)))) =
      focusEvents (wbFocus demo_wb) @
      map (\<lambda>(tid, target, kind). (tid, \<lparr>focusTarget = target, focusKind = kind\<rparr>))
        (filter (\<lambda>(tid, _). tid \<in> set (tabIdsOf (tabStore_closeTab ''n'' None (wbTabs (cmd_openTab ?i None ''n'' demo_wb))))) cbs)"
    by (auto simp: case_prod_unfold)
  have "selectedTabId (wbTabs (cmd_openTab ?i None ''n'' demo_wb)) = ''n''"
    "''n'' \<notin> set (tabIdsOf (tabStore_closeTab ''n'' None (wbTabs (cmd_openTab ?i None ''n'' demo_wb))))"
    by code_simp+
  from filter_absent_id [OF c, unfolded this(1), OF this(2)] e show ?thesis by (simp add: demo_wb_def initialWorkbench_def initialTabFocus_def)
qed

section \<open>Closing leaves nothing behind\<close>

lemma stopAgentChatSessions_effect:
  "wbTabs (stopAgentChatSessionsForTabs ts wb) = wbTabs wb \<and>
   wbFiles (stopAgentChatSessionsForTabs ts wb) = wbFiles wb \<and>
   wbDiffs (stopAgentChatSessionsForTabs ts wb) = wbDiffs wb \<and>
   wbPanes (stopAgentChatSessionsForTabs ts wb) = wbPanes wb \<and>
   wbEffects (stopAgentChatSessionsForTabs ts wb) = wbEffects wb @ map (\<lambda>tab. StopPiSession (wtId tab)) ts"
  unfolding stopAgentChatSessionsForTabs_def
  by (induction ts arbitrary: wb) (simp_all add: callOut_def)

lemma removeTabContentStores_effect [simp]:
  "wbTabs (removeTabContentStores ids wb) = wbTabs wb" "wbPanes (removeTabContentStores ids wb) = wbPanes wb"
  "wbEffects (removeTabContentStores ids wb) = wbEffects wb"
  "wbFiles (removeTabContentStores ids wb) = removeTabData ids (wbFiles wb)"
  "wbDiffs (removeTabContentStores ids wb) = removeTabData ids (wbDiffs wb)"
  by (simp_all add: removeTabContentStores_def removeFileTabContent_def removeDiffTabContent_def removeTabData_def)

definition cleanupCalls :: "WorkbenchTab list \<Rightarrow> ExternalCall list" where
  "cleanupCalls removed =
     concat (map (\<lambda>tab. [RecordExplicitlyClosedTerminalTabId (wtId tab), ClearTerminalAgentStatus (wtId tab)])
       (filter (\<lambda>tab. wtKind tab = KTerminal) removed)) @
     map CloseTerminalSession (List.map_filter terminalSession (filter (\<lambda>tab. wtKind tab = KTerminal) removed)) @
     map (\<lambda>tab. StopPiSession (wtId tab)) (filter (\<lambda>tab. wtKind tab = KAgentChat) removed) @
     (if removed = [] then [] else [RemoveChatTabData (map wtId removed)])"

lemma cleanupRemovedTabs_effect:
  "wbTabs (cleanupRemovedTabs removed wb) = wbTabs wb \<and>
   wbFiles (cleanupRemovedTabs removed wb) = removeTabData (map wtId removed) (wbFiles wb) \<and>
   wbDiffs (cleanupRemovedTabs removed wb) = removeTabData (map wtId removed) (wbDiffs wb) \<and>
   wbEffects (cleanupRemovedTabs removed wb) = wbEffects wb @ cleanupCalls removed"
  by (simp add: cleanupRemovedTabs_def Let_def stopAgentChatSessions_effect closeTerminalSessionsForTabs_def
      cleanupCalls_def removeTabData_def)

lemma terminalSession_kind: "terminalSession tab = Some s \<Longrightarrow> wtKind tab = KTerminal"
  by (simp split: WorkbenchTabData.splits)

lemma cleanupCalls_sessions:
  "CloseTerminalSession s \<in> set (cleanupCalls removed) \<longleftrightarrow> (\<exists>tab \<in> set removed. terminalSession tab = Some s)"
  "StopPiSession t \<in> set (cleanupCalls removed) \<longleftrightarrow>
     (\<exists>tab \<in> set removed. wtKind tab = KAgentChat \<and> wtId tab = t)"
  using terminalSession_kind by (auto simp: cleanupCalls_def set_map_filter simp del: terminalSession.simps)

text \<open>The tabs that a close handler cleans up after are exactly the tabs that its command removes.\<close>

lemma close_handlers_remove:
  assumes "tabs_wf (wbTabs wb)" "cur \<in> set (tabs (wbTabs wb))" "wtId cur = i"
  defines "removed \<equiv> filter (\<lambda>tab. wtWorkspaceId tab = wtWorkspaceId cur \<and> \<not> wtPinned tab) (tabs (wbTabs wb))"
  shows "closeAllTabsWithCleanup i wb = cmd_closeAllTabs i (cleanupRemovedTabs removed wb)"
    "tabs (wbTabs (closeAllTabsWithCleanup i wb)) = filter (\<lambda>tab. tab \<notin> set removed) (tabs (wbTabs wb))"
proof -
  have f: "findTab wb i = Some cur" using find_by_id [OF assms(1,2)] assms(3) by simp
  then show c: "closeAllTabsWithCleanup i wb = cmd_closeAllTabs i (cleanupRemovedTabs removed wb)"
    by (simp add: closeAllTabsWithCleanup_def removed_def)
  have "filter (\<lambda>tab. wtWorkspaceId tab \<noteq> wtWorkspaceId cur \<or> wtPinned tab) (tabs (wbTabs wb)) =
      filter (\<lambda>tab. tab \<notin> set removed) (tabs (wbTabs wb))"
    by (intro filter_cong) (auto simp: removed_def)
  with f show "tabs (wbTabs (closeAllTabsWithCleanup i wb)) = filter (\<lambda>tab. tab \<notin> set removed) (tabs (wbTabs wb))"
    unfolding c by (simp add: cmd_closeAllTabs_def cleanupRemovedTabs_effect tabStore_closeAllTabs_def
        closeAllTabsState_def Let_def)
qed

text \<open>When all tabs of a workspace are closed, every tab that disappears loses its file and diff
  content, its terminal session (if it has one) is closed and its chat session is stopped, and
  no other tab loses content or session: if content was kept for open tabs only before, it
  still is.\<close>

theorem close_all_cleans_up:
  assumes "tabs_wf (wbTabs wb)" "cur \<in> set (tabs (wbTabs wb))" "wtId cur = i"
    "wb' = closeAllTabsWithCleanup i wb"
  shows "(\<forall>t \<in> set (tabIdsOf (wbTabs wb)). t \<in> set (tabIdsOf (wbTabs wb')) \<longrightarrow>
      wbFiles wb' t = wbFiles wb t \<and> wbDiffs wb' t = wbDiffs wb t) \<and>
    (\<forall>t \<in> set (tabIdsOf (wbTabs wb)). t \<notin> set (tabIdsOf (wbTabs wb')) \<longrightarrow>
      wbFiles wb' t = None \<and> wbDiffs wb' t = None) \<and>
    (\<exists>calls. wbEffects wb' = wbEffects wb @ calls \<and>
      (\<forall>s. CloseTerminalSession s \<in> set calls \<longleftrightarrow>
         (\<exists>tab \<in> set (tabs (wbTabs wb)) - set (tabs (wbTabs wb')). terminalSession tab = Some s)) \<and>
      (\<forall>t. StopPiSession t \<in> set calls \<longleftrightarrow>
         (\<exists>tab \<in> set (tabs (wbTabs wb)) - set (tabs (wbTabs wb')). wtKind tab = KAgentChat \<and> wtId tab = t)))"
proof -
  define removed where
    "removed = filter (\<lambda>tab. wtWorkspaceId tab = wtWorkspaceId cur \<and> \<not> wtPinned tab) (tabs (wbTabs wb))"
  note r = close_handlers_remove [OF assms(1-3), folded removed_def]
  have sub: "set removed = set (tabs (wbTabs wb)) - set (tabs (wbTabs wb'))"
    unfolding assms(4) r(2) by (auto simp: removed_def)
  have keep: "wbFiles wb' = removeTabData (map wtId removed) (wbFiles wb)"
      "wbDiffs wb' = removeTabData (map wtId removed) (wbDiffs wb)"
      "wbEffects wb' = wbEffects wb @ cleanupCalls removed"
    unfolding assms(4) r(1)
    by (simp_all add: cmd_closeAllTabs_def cleanupRemovedTabs_effect split: option.split)
  have "t \<in> wtId ` set removed \<longleftrightarrow> t \<notin> set (tabIdsOf (wbTabs wb'))" if "t \<in> set (tabIdsOf (wbTabs wb))" for t
  proof -
    have inj: "inj_on wtId (set (tabs (wbTabs wb)))" using assms(1) by (simp add: tabs_wf_def distinct_map)
    from that obtain tab where tab: "tab \<in> set (tabs (wbTabs wb))" "t = wtId tab" by auto
    have "set removed \<subseteq> set (tabs (wbTabs wb))" "set (tabs (wbTabs wb')) \<subseteq> set (tabs (wbTabs wb))"
      using r(2) assms(4) by (auto simp: removed_def)
    then have "(t \<in> wtId ` set removed) = (tab \<in> set removed)"
        "(t \<in> wtId ` set (tabs (wbTabs wb'))) = (tab \<in> set (tabs (wbTabs wb')))"
      using inj tab by (auto simp: inj_on_image_mem_iff)
    with tab(1) sub show ?thesis by auto
  qed
  then show ?thesis
    unfolding keep using cleanupCalls_sessions [of _ removed]
    by (intro conjI exI [of _ "cleanupCalls removed"]) (auto simp: removeTabData_def simp flip: sub)
qed

theorem close_all_cleans_up_witness:
  "wbFiles (closeAllTabsWithCleanup ''a'' (seedFileTabContent
      \<lparr>sfTabId = ''a'', sfPath = ''x'', sfContent = None, sfIsUnsupported = None, sfUnsupportedReason = None,
       sfIsIgnored = None\<rparr> demo_wb)) ''a'' = None"
proof -
  let ?wb = "seedFileTabContent \<lparr>sfTabId = ''a'', sfPath = ''x'', sfContent = None, sfIsUnsupported = None,
    sfUnsupportedReason = None, sfIsIgnored = None\<rparr> demo_wb"
  have t: "wbTabs ?wb = wbTabs demo_wb" by (simp add: seedFileTabContent_def)
  have a: "demo_wb_tab ''a'' (demo_file ''x'' True) \<in> set (tabs (wbTabs ?wb))"
      "wtId (demo_wb_tab ''a'' (demo_file ''x'' True)) = ''a''"
    unfolding t by (simp_all add: demo_wb_def demo_wb_tab_def)
  have "tabIdsOf (wbTabs (closeAllTabsWithCleanup ''a'' ?wb)) = []" by code_simp
  then have gone: "''a'' \<notin> set (tabIdsOf (wbTabs (closeAllTabsWithCleanup ''a'' ?wb)))" by (simp only: list.set) simp
  have "''a'' \<in> set (tabIdsOf (wbTabs ?wb))" unfolding t by (simp add: demo_wb_defs)
  from close_all_cleans_up [OF demo_wb_ok(1) [folded t] a refl, THEN conjunct2, THEN conjunct1, rule_format,
      OF this gone]
  show ?thesis by (rule conjunct1)
qed

section \<open>Dirty flags and content\<close>

text \<open>The flag of an open file tab says whether its content differs from the saved content.\<close>

definition dirty_flag_ok :: "WorkbenchState \<Rightarrow> string \<Rightarrow> bool" where
  "dirty_flag_ok wb t \<longleftrightarrow>
     (\<forall>tab d e. tab \<in> set (tabs (wbTabs wb)) \<longrightarrow> wtId tab = t \<longrightarrow> wtData tab = FileTab d \<longrightarrow> wbFiles wb t = Some e \<longrightarrow>
        fileIsDirty d = (fcContent e \<noteq> fcSavedContent e))"

lemma setFileTabDirty_flag:
  assumes "tabs_wf st" "tab \<in> set (tabs (tabStore_setFileTabDirty t b st))" "wtId tab = t" "wtData tab = FileTab d"
  shows "fileIsDirty d = b"
proof (cases "setFileTabDirtyState st t b")
  case None
  then have tab: "tab \<in> set (tabs st)" using assms(2) by (simp add: tabStore_setFileTabDirty_def)
  with None find_by_id [OF assms(1) tab] assms(3,4) show ?thesis
    by (simp add: setFileTabDirtyState_def split: if_splits)
next
  case (Some st')
  then have "tab \<in> set (mapTabData t (\<lambda>d. case d of FileTab x \<Rightarrow> FileTab (x\<lparr>fileIsDirty := b\<rparr>) | _ \<Rightarrow> d) (tabs st))"
    using assms(2)
    by (auto simp: tabStore_setFileTabDirty_def setFileTabDirtyState_def split: option.splits WorkbenchTabData.splits if_splits)
  with assms(3,4) show ?thesis
    by (elim mapTabData_memberD) (auto split: WorkbenchTabData.splits)
qed

lemma promote_keeps_dirty:
  assumes "tab' \<in> set (tabs (tabStore_promoteTemporaryTab t st))" "wtData tab' = FileTab d'"
  shows "\<exists>tab \<in> set (tabs st). \<exists>d. wtId tab = wtId tab' \<and> wtData tab = FileTab d \<and> fileIsDirty d = fileIsDirty d'"
proof (cases "promoteTemporaryTabState st t")
  case None
  with assms show ?thesis by (auto simp: tabStore_promoteTemporaryTab_def)
next
  case (Some st')
  then have "tab' \<in> set (mapTabData t withoutTemporary (tabs st))" using assms(1)
    by (auto simp: tabStore_promoteTemporaryTab_def promoteTemporaryTabState_def split: option.splits if_splits)
  then obtain tab where x: "tab \<in> set (tabs st)" "wtId tab = wtId tab'"
      "wtId tab = t \<Longrightarrow> wtData tab' = withoutTemporary (wtData tab)" "wtId tab \<noteq> t \<Longrightarrow> tab' = tab"
    by (rule mapTabData_memberD) blast
  have "\<exists>d. wtData tab = FileTab d \<and> fileIsDirty d = fileIsDirty d'"
  proof (cases "wtId tab = t")
    case True
    then have "withoutTemporary (wtData tab) = FileTab d'" using x(3) assms(2) by simp
    then show ?thesis by (cases "wtData tab") auto
  next
    case False
    then show ?thesis using x(4) assms(2) by simp
  qed
  with x(1,2) show ?thesis by blast
qed

text \<open>Editing a file tab and marking it saved keep its dirty flag in step with its content; after
  an edit that makes it dirty the tab is no longer a preview, and a reload from disk never
  touches a tab with unsaved edits.\<close>

theorem dirty_flag_follows_content:
  assumes "tabs_wf (wbTabs wb)" "wbFiles wb t = Some e"
  shows "dirty_flag_ok (updateFileTabContent t content wb) t \<and>
    dirty_flag_ok (markFileTabSaved t wb) t \<and>
    (content \<noteq> fcSavedContent e \<longrightarrow>
       (\<forall>tab \<in> set (tabs (wbTabs (updateFileTabContent t content wb))). wtId tab = t \<longrightarrow> \<not> isTemporaryTab tab)) \<and>
    (fcContent e \<noteq> fcSavedContent e \<longrightarrow> refreshFileTabFromDisk t path disk deleted wb = wb)"
proof (intro conjI impI ballI)
  let ?dirty = "content \<noteq> fcSavedContent e"
  let ?st = "tabStore_setFileTabDirty t ?dirty (wbTabs wb)"
  have up: "wbFiles (updateFileTabContent t content wb) t = Some (e\<lparr>fcContent := content, fcIsDeleted := False\<rparr>)"
      "wbTabs (updateFileTabContent t content wb) = (if ?dirty then tabStore_promoteTemporaryTab t ?st else ?st)"
    using assms(2)
    by (simp_all add: updateFileTabContent_def fileContent_updateContent_def cmd_setFileTabDirty_def
        cmd_promoteTemporaryTab_def onTabs_def Let_def)
  show "dirty_flag_ok (updateFileTabContent t content wb) t"
    unfolding dirty_flag_ok_def up
    using setFileTabDirty_flag [OF assms(1), of _ t ?dirty] promote_keeps_dirty [of _ t ?st]
    by (cases ?dirty) (auto, metis+)
  show "dirty_flag_ok (markFileTabSaved t wb) t"
    using assms setFileTabDirty_flag [OF assms(1), of _ t False]
    by (auto simp: dirty_flag_ok_def markFileTabSaved_def fileContent_markSaved_def cmd_setFileTabDirty_def onTabs_def)
  show "\<not> isTemporaryTab tab"
    if "?dirty" "tab \<in> set (tabs (wbTabs (updateFileTabContent t content wb)))" "wtId tab = t" for tab
    using that up promoted_not_temporary [where st = ?st and t = t] dirty_op.lift_inv [OF assms(1), of t ?dirty]
    by (simp add: tabStore_setFileTabDirty_def)
  show "refreshFileTabFromDisk t path disk deleted wb = wb" if "fcContent e \<noteq> fcSavedContent e"
    using that assms(2) by (simp add: refreshFileTabFromDisk_def fileContent_refreshFromDisk_def)
qed

theorem dirty_flag_follows_content_witness:
  "dirty_flag_ok (updateFileTabContent ''a'' ''new'' (seedFileTabContent
      \<lparr>sfTabId = ''a'', sfPath = ''x'', sfContent = None, sfIsUnsupported = None, sfUnsupportedReason = None,
       sfIsIgnored = None\<rparr> demo_wb)) ''a''"
proof -
  let ?wb = "seedFileTabContent \<lparr>sfTabId = ''a'', sfPath = ''x'', sfContent = None, sfIsUnsupported = None,
    sfUnsupportedReason = None, sfIsIgnored = None\<rparr> demo_wb"
  have "tabs_wf (wbTabs ?wb)" using demo_wb_ok(1) by (simp add: seedFileTabContent_def)
  moreover obtain e where "wbFiles ?wb ''a'' = Some e"
    by (simp add: seedFileTabContent_def fileContent_seed_def)
  ultimately show ?thesis by (rule dirty_flag_follows_content [THEN conjunct1])
qed

lemma reopen_file_keeps_dirty:
  assumes "findExistingTab (tabs st) input w = Some tab" "wtData tab = FileTab d" "inPayload input = OpenFile i"
    "openTabState st input nextId paneTabs sel = Some st'" "openWorkspace input sel = w"
  shows "selectedTabId st' = wtId tab \<and>
    (\<exists>tab' \<in> set (tabs st'). \<exists>d'. wtId tab' = wtId tab \<and> wtData tab' = FileTab d' \<and> fileIsDirty d' = fileIsDirty d)"
  using assms(4)
proof (cases rule: openTabState_cases)
  case (focus e)
  then have "e = tab" using assms(1,5) by simp
  with focus assms(1,2) findExistingTab_SomeD show ?thesis by fastforce
next
  case (update e f)
  then have e: "e = tab" using assms(1,5) by simp
  have "\<exists>d'. f (wtData tab) = FileTab d' \<and> fileIsDirty d' = fileIsDirty d"
    using update(2) assms(2,3) e by (auto simp: Let_def split: if_splits)
  moreover have "tab\<lparr>wtData := f (wtData tab)\<rparr> \<in> set (tabs st')"
    using update(3) e mapTabData_member [of tab "tabs st" f] findExistingTab_SomeD [OF assms(1)] by simp
  ultimately show ?thesis using update(3) e
    by (intro conjI bexI [of _ "tab\<lparr>wtData := f (wtData tab)\<rparr>"]) simp_all
qed (use assms in simp_all)

text \<open>Opening a file with a content seed while its tab has unsaved edits loses them: the existing
  tab is focused and its content and saved content are both replaced by the seed, while the
  tab keeps its dirty flag, which is then wrong.\<close>

theorem reopen_with_seed_discards_edits:
  assumes "findExistingTab (tabs (wbTabs wb)) input w = Some tab" "inWorkspaceId input = Some w" "w \<noteq> []"
    "inPayload input = OpenFile i" "wtData tab = FileTab d" "fileIsDirty d"
  shows "\<exists>e. wbFiles (cmd_openTabWithContentSeed input paneTabs uuid wb) (wtId tab) = Some e \<and>
      fcContent e = nullish (ofContent i) (createFileTabPlaceholder (ofPath i)) \<and>
      fcSavedContent e = fcContent e \<and>
      \<not> dirty_flag_ok (cmd_openTabWithContentSeed input paneTabs uuid wb) (wtId tab)"
proof -
  let ?wb = "cmd_openTab input paneTabs uuid wb"
  let ?p = "nullish_option paneTabs (map_option tabIds (getActivePane (wbPanes wb) w))"
  have w: "openWorkspace input (Some w) = w" using assms(2) by (simp add: openWorkspace_def)
  then obtain st' where st': "openTabState (wbTabs wb) input (newTabId input uuid) ?p (Some w) = Some st'"
    using openTabState_None_iff [of "wbTabs wb" input "newTabId input uuid" ?p "Some w"] assms(3) by auto
  have "wbTabs ?wb = st'"
    using assms(2,3) st' by (simp add: cmd_openTab_def resolveActiveWorkspaceId_def Let_def tabStore_openTab_def)
  with reopen_file_keeps_dirty [OF assms(1,5,4) st' w] assms(6)
  obtain tab' d' where t: "selectedTabId (wbTabs ?wb) = wtId tab" "tab' \<in> set (tabs (wbTabs ?wb))"
      "wtId tab' = wtId tab" "wtData tab' = FileTab d'" "fileIsDirty d'" by auto
  have files: "wbFiles (cmd_openTabWithContentSeed input paneTabs uuid wb) (wtId tab) =
      Some \<lparr>fcPath = ofPath i, fcContent = nullish (ofContent i) (createFileTabPlaceholder (ofPath i)),
        fcSavedContent = nullish (ofContent i) (createFileTabPlaceholder (ofPath i)), fcIsDeleted = False,
        fcIsUnsupported = ofIsUnsupported i, fcUnsupportedReason = ofUnsupportedReason i,
        fcIsIgnored = nullish (ofIsIgnored i) False\<rparr>"
    using assms(4) t(1)
    by (simp add: cmd_openTabWithContentSeed_def Let_def seedFileTabContent_def fileContent_seed_def)
  moreover have "wbTabs (cmd_openTabWithContentSeed input paneTabs uuid wb) = wbTabs ?wb"
    using assms(4) by (simp add: cmd_openTabWithContentSeed_def Let_def seedFileTabContent_def)
  ultimately show ?thesis using t unfolding dirty_flag_ok_def by auto
qed

theorem reopen_with_seed_discards_edits_witness:
  "\<not> dirty_flag_ok (cmd_openTabWithContentSeed (demo_wb_open (OpenFile \<lparr>ofPath = ''x'', ofContent = None,
     ofTemporary = None, ofIsUnsupported = None, ofUnsupportedReason = None, ofIsIgnored = None\<rparr>)) None ''n'' demo_wb) ''a''"
proof -
  let ?i = "\<lparr>ofPath = ''x'', ofContent = None, ofTemporary = None, ofIsUnsupported = None,
    ofUnsupportedReason = None, ofIsIgnored = None\<rparr>"
  let ?tab = "demo_wb_tab ''a'' (demo_file ''x'' True)"
  have "findExistingTab (tabs (wbTabs demo_wb)) (demo_wb_open (OpenFile ?i)) ''w'' = Some ?tab"
    by (simp add: findExistingTab_def demo_wb_defs demo_wb_open_def)
  from reopen_with_seed_discards_edits [OF this, of ?i _ None "''n''"] show ?thesis
    by (auto simp: demo_wb_open_def demo_wb_tab_def demo_file_def)
qed

text \<open>
  A diff opened again for the same path but from another source keeps the source of the first
  request: the request is matched by path alone and only selects the tab.
\<close>

theorem reopen_diff_keeps_old_source:
  assumes "findExistingTab (tabs st) input w = Some tab" "inWorkspaceId input = Some w" "w \<noteq> []"
    "inPayload input = OpenDiff i"
  shows "openTabState st input nextId paneTabs sel = Some (selectWorkbenchTab st w (wtId tab))"
  using assms by (simp add: openTabState_def)

end
