(* ===== verification/Concurrency_Queue.thy ===== *)
theory Concurrency_Queue
  imports Yishan_Prelude
begin

text \<open>
  The scheduler of sub-agent runs (\<open>src/packages/pi-subagents/src/delegation/concurrencyQueue.ts\<close>):
  up to \<open>maxConcurrency\<close> read runs, or exactly one write run, in the order of arrival.

  A task object is identified by the number of the \<open>enqueue\<close> call that created it, and the
  fields the code mutates are kept in a map by that number. A call of \<open>runTask\<close> suspends at the
  \<open>await\<close> of the task's own promise; the suspended calls are the list \<open>inFlight\<close>, and the code after
  the \<open>await\<close>, including its \<open>finally\<close> block, is the operation \<open>cq_settle\<close>. Between two operations
  the queue is idle, as the code runs on one thread; the bodies of tasks do not call the queue
  before their first suspension.
\<close>

section \<open>State\<close>

datatype WorkspaceAccess = ReadAccess | WriteAccess

datatype TaskOutcome = Resolved | Rejected | CancelledBeforeStart

record QueueTask =
  qtAccess :: WorkspaceAccess
  qtIsCancelled :: bool
  qtHasStarted :: bool
  qtOutcome :: "TaskOutcome option"

record ConcurrencyQueue =
  pendingTasks :: "nat list"
  activeTaskCount :: int
  hasActiveWriteTask :: bool
  maxConcurrency :: int
  queueTasks :: "nat \<rightharpoonup> QueueTask"
  inFlight :: "nat list"
  startOrder :: "nat list"
  nextTask :: nat

text \<open>\<^const>\<open>startOrder\<close> is a history variable: the tasks in the order in which they were started.\<close>

datatype QueueError = MaxConcurrencyTooSmall

text \<open>The constructor refuses a number that is not an integer or is below 1.\<close>

definition newConcurrencyQueue :: "js_number \<Rightarrow> QueueError + ConcurrencyQueue" where
  "newConcurrencyQueue n =
     (case n of
        Fin x \<Rightarrow>
          if x \<noteq> of_int \<lfloor>x\<rfloor> \<or> x < 1 then Inl MaxConcurrencyTooSmall
          else Inr \<lparr>pendingTasks = [], activeTaskCount = 0, hasActiveWriteTask = False, maxConcurrency = \<lfloor>x\<rfloor>,
                    queueTasks = (\<lambda>_. None), inFlight = [], startOrder = [], nextTask = 0\<rparr>
      | _ \<Rightarrow> Inl MaxConcurrencyTooSmall)"

definition taskOf :: "ConcurrencyQueue \<Rightarrow> nat \<Rightarrow> QueueTask" where
  "taskOf q t = nullish (queueTasks q t)
     \<lparr>qtAccess = ReadAccess, qtIsCancelled = False, qtHasStarted = False, qtOutcome = None\<rparr>"

definition setTask :: "nat \<Rightarrow> (QueueTask \<Rightarrow> QueueTask) \<Rightarrow> ConcurrencyQueue \<Rightarrow> ConcurrencyQueue" where
  "setTask t f q = q\<lparr>queueTasks := (queueTasks q)(t \<mapsto> f (taskOf q t))\<rparr>"

section \<open>Operations\<close>

definition canStartTask :: "ConcurrencyQueue \<Rightarrow> nat \<Rightarrow> bool" where
  "canStartTask q t =
     (if qtAccess (taskOf q t) = WriteAccess then activeTaskCount q = 0
      else \<not> hasActiveWriteTask q \<and> activeTaskCount q < maxConcurrency q)"

text \<open>Marking the task as started, up to the suspension of \<open>runTask\<close>.\<close>

definition startTask :: "nat \<Rightarrow> ConcurrencyQueue \<Rightarrow> ConcurrencyQueue" where
  "startTask t q =
     (let q1 = setTask t (\<lambda>x. x\<lparr>qtHasStarted := True\<rparr>) q in
      q1\<lparr>activeTaskCount := activeTaskCount q + 1,
         hasActiveWriteTask := hasActiveWriteTask q \<or> qtAccess (taskOf q t) = WriteAccess,
         inFlight := inFlight q @ [t], startOrder := startOrder q @ [t]\<rparr>)"

function drain :: "ConcurrencyQueue \<Rightarrow> ConcurrencyQueue" where
  "drain q =
     (case pendingTasks q of
        [] \<Rightarrow> q
      | t # rest \<Rightarrow>
          if \<not> canStartTask q t then q
          else let q1 = q\<lparr>pendingTasks := rest\<rparr> in
               if qtIsCancelled (taskOf q t) then drain q1 else drain (startTask t q1))"
  by pat_completeness auto
termination
  by (relation "measure (length \<circ> pendingTasks)") (auto simp: startTask_def setTask_def Let_def)

declare drain.simps [simp del]

definition cq_enqueue :: "WorkspaceAccess \<Rightarrow> ConcurrencyQueue \<Rightarrow> ConcurrencyQueue \<times> nat" where
  "cq_enqueue access q =
     (let t = nextTask q;
          task = \<lparr>qtAccess = access, qtIsCancelled = False, qtHasStarted = False, qtOutcome = None\<rparr>;
          q1 = q\<lparr>queueTasks := (queueTasks q)(t \<mapsto> task), nextTask := t + 1,
                 pendingTasks := pendingTasks q @ [t]\<rparr>
      in (drain q1, t))"

definition cq_cancelTask :: "nat \<Rightarrow> ConcurrencyQueue \<Rightarrow> ConcurrencyQueue \<times> bool" where
  "cq_cancelTask t q =
     (if qtHasStarted (taskOf q t) \<or> qtIsCancelled (taskOf q t) then (q, False)
      else
        let q1 = setTask t (\<lambda>x. x\<lparr>qtIsCancelled := True, qtOutcome := Some CancelledBeforeStart\<rparr>) q;
            q2 = q1\<lparr>pendingTasks := remove1 t (pendingTasks q1)\<rparr>
        in (drain q2, True))"

text \<open>The continuation of \<open>runTask\<close> once the promise of the task is settled.\<close>

definition cq_settle :: "nat \<Rightarrow> bool \<Rightarrow> ConcurrencyQueue \<Rightarrow> ConcurrencyQueue" where
  "cq_settle t ok q =
     (let q1 = setTask t (\<lambda>x. x\<lparr>qtOutcome := Some (if ok then Resolved else Rejected)\<rparr>) q;
          q2 = q1\<lparr>activeTaskCount := activeTaskCount q1 - 1,
                  hasActiveWriteTask :=
                    (if qtAccess (taskOf q1 t) = WriteAccess then False else hasActiveWriteTask q1),
                  inFlight := remove1 t (inFlight q1)\<rparr>
      in drain q2)"

inductive cq_step :: "ConcurrencyQueue \<Rightarrow> ConcurrencyQueue \<Rightarrow> bool" where
  enqueue: "cq_step q (fst (cq_enqueue access q))"
| cancel: "t < nextTask q \<Longrightarrow> cq_step q (fst (cq_cancelTask t q))"
| settle: "t \<in> set (inFlight q) \<Longrightarrow> cq_step q (cq_settle t ok q)"

inductive settle_step :: "ConcurrencyQueue \<Rightarrow> ConcurrencyQueue \<Rightarrow> bool" where
  settle_any: "t \<in> set (inFlight q) \<Longrightarrow> settle_step q (cq_settle t ok q)"

section \<open>The invariant\<close>

text \<open>
  The core part holds also inside \<^const>\<open>drain\<close>; a task is waiting, in flight or settled, and the
  two counters agree with what is in flight. \<open>drained\<close> says that the first waiting task, if any,
  cannot be started.
\<close>

definition pendingTask :: "QueueTask \<Rightarrow> bool" where
  "pendingTask x \<longleftrightarrow> \<not> qtIsCancelled x \<and> \<not> qtHasStarted x \<and> qtOutcome x = None"

definition runningTask :: "QueueTask \<Rightarrow> bool" where
  "runningTask x \<longleftrightarrow> \<not> qtIsCancelled x \<and> qtHasStarted x \<and> qtOutcome x = None"

definition settledTask :: "QueueTask \<Rightarrow> bool" where
  "settledTask x \<longleftrightarrow> qtOutcome x \<noteq> None \<and>
     (if qtIsCancelled x then \<not> qtHasStarted x \<and> qtOutcome x = Some CancelledBeforeStart
      else qtHasStarted x \<and> qtOutcome x \<noteq> Some CancelledBeforeStart)"

definition cq_core :: "ConcurrencyQueue \<Rightarrow> bool" where
  "cq_core q \<longleftrightarrow>
     1 \<le> maxConcurrency q \<and>
     (\<forall>t. queueTasks q t \<noteq> None \<longleftrightarrow> t < nextTask q) \<and>
     sorted_wrt (<) (startOrder q @ pendingTasks q) \<and> distinct (inFlight q) \<and>
     (\<forall>t. t \<in> set (pendingTasks q) \<longleftrightarrow> t < nextTask q \<and> pendingTask (taskOf q t)) \<and>
     (\<forall>t. t \<in> set (inFlight q) \<longleftrightarrow> t < nextTask q \<and> runningTask (taskOf q t)) \<and>
     (\<forall>t < nextTask q. pendingTask (taskOf q t) \<or> runningTask (taskOf q t) \<or> settledTask (taskOf q t)) \<and>
     (\<forall>t. t \<in> set (startOrder q) \<longleftrightarrow> t < nextTask q \<and> qtHasStarted (taskOf q t)) \<and>
     activeTaskCount q = int (length (inFlight q)) \<and>
     hasActiveWriteTask q = (\<exists>t \<in> set (inFlight q). qtAccess (taskOf q t) = WriteAccess) \<and>
     (hasActiveWriteTask q \<longrightarrow> length (inFlight q) = 1) \<and>
     int (length (inFlight q)) \<le> maxConcurrency q"

definition drained :: "ConcurrencyQueue \<Rightarrow> bool" where
  "drained q \<longleftrightarrow> (case pendingTasks q of [] \<Rightarrow> True | t # _ \<Rightarrow> \<not> canStartTask q t)"

definition cq_inv :: "ConcurrencyQueue \<Rightarrow> bool" where
  "cq_inv q \<longleftrightarrow> cq_core q \<and> drained q"

end
