(* ===== verification/Concurrency_Queue_Proofs.thy ===== *)
theory Concurrency_Queue_Proofs
  imports Concurrency_Queue
begin

text \<open>
  The scheduler keeps its invariant: at most \<open>maxConcurrency\<close> runs or a single write run, strict
  order of arrival, no task lost, nothing left waiting that could run. The operations that
  change the queue all end in \<^const>\<open>drain\<close>, so each proof first establishes the core invariant
  before the final drain.
\<close>

section \<open>Lookup of tasks\<close>

lemma taskOf_setTask [simp]: "taskOf (setTask t f q) u = (if u = t then f (taskOf q t) else taskOf q u)"
  by (simp add: setTask_def taskOf_def)

lemma taskOf_frame [simp]:
  "taskOf (q\<lparr>pendingTasks := p\<rparr>) = taskOf q" "taskOf (q\<lparr>activeTaskCount := c\<rparr>) = taskOf q"
  "taskOf (q\<lparr>hasActiveWriteTask := w\<rparr>) = taskOf q" "taskOf (q\<lparr>inFlight := i\<rparr>) = taskOf q"
  "taskOf (q\<lparr>startOrder := s\<rparr>) = taskOf q" "taskOf (q\<lparr>nextTask := n\<rparr>) = taskOf q"
  by (rule ext, simp add: taskOf_def)+

lemma setTask_frame [simp]:
  "pendingTasks (setTask t f q) = pendingTasks q" "activeTaskCount (setTask t f q) = activeTaskCount q"
  "hasActiveWriteTask (setTask t f q) = hasActiveWriteTask q" "maxConcurrency (setTask t f q) = maxConcurrency q"
  "inFlight (setTask t f q) = inFlight q" "startOrder (setTask t f q) = startOrder q"
  "nextTask (setTask t f q) = nextTask q"
  "queueTasks (setTask t f q) = (queueTasks q)(t \<mapsto> f (taskOf q t))"
  by (simp_all add: setTask_def)

lemmas task_kinds = pendingTask_def runningTask_def settledTask_def

lemma cq_coreD:
  assumes "cq_core q"
  shows "1 \<le> maxConcurrency q" "queueTasks q t \<noteq> None \<longleftrightarrow> t < nextTask q"
    "sorted_wrt (<) (startOrder q @ pendingTasks q)" "distinct (inFlight q)"
    "t \<in> set (pendingTasks q) \<longleftrightarrow> t < nextTask q \<and> pendingTask (taskOf q t)"
    "t \<in> set (inFlight q) \<longleftrightarrow> t < nextTask q \<and> runningTask (taskOf q t)"
    "t < nextTask q \<Longrightarrow> pendingTask (taskOf q t) \<or> runningTask (taskOf q t) \<or> settledTask (taskOf q t)"
    "t \<in> set (startOrder q) \<longleftrightarrow> t < nextTask q \<and> qtHasStarted (taskOf q t)"
    "activeTaskCount q = int (length (inFlight q))"
    "hasActiveWriteTask q = (\<exists>t \<in> set (inFlight q). qtAccess (taskOf q t) = WriteAccess)"
    "hasActiveWriteTask q \<Longrightarrow> length (inFlight q) = 1" "int (length (inFlight q)) \<le> maxConcurrency q"
  using assms by (simp_all add: cq_core_def)

section \<open>Starting and draining\<close>

text \<open>What it takes to start the first waiting task.\<close>

lemma startTask_core:
  assumes core: "cq_core q" and p: "pendingTasks q = t # rest" and can: "canStartTask q t"
  shows "cq_core (startTask t (q\<lparr>pendingTasks := rest\<rparr>))"
proof -
  note c = cq_coreD [OF core]
  let ?q = "startTask t (q\<lparr>pendingTasks := rest\<rparr>)"
  have t: "t < nextTask q" "pendingTask (taskOf q t)" using c(5) [of t] p by auto
  have fresh: "t \<notin> set (inFlight q)" using c(6) [of t] t by (auto simp: task_kinds)
  have "t \<notin> set rest" using c(3) p by (auto simp: sorted_wrt_append)
  have fields: "pendingTasks ?q = rest" "activeTaskCount ?q = activeTaskCount q + 1"
      "inFlight ?q = inFlight q @ [t]" "startOrder ?q = startOrder q @ [t]" "nextTask ?q = nextTask q"
      "maxConcurrency ?q = maxConcurrency q"
      "hasActiveWriteTask ?q = (hasActiveWriteTask q \<or> qtAccess (taskOf q t) = WriteAccess)"
      "queueTasks ?q = (queueTasks q)(t \<mapsto> (taskOf q t)\<lparr>qtHasStarted := True\<rparr>)"
      "\<And>u. taskOf ?q u = (if u = t then (taskOf q t)\<lparr>qtHasStarted := True\<rparr> else taskOf q u)"
    by (simp_all add: startTask_def Let_def)
  have len: "qtAccess (taskOf q t) = WriteAccess \<Longrightarrow> inFlight q = []"
      "qtAccess (taskOf q t) \<noteq> WriteAccess \<Longrightarrow> \<not> hasActiveWriteTask q"
      "int (length (inFlight q)) + 1 \<le> maxConcurrency q"
    using can c(1,9) by (auto simp: canStartTask_def split: if_splits)
  show ?thesis
    unfolding cq_core_def fields
  proof (intro conjI allI impI)
    show "sorted_wrt (<) ((startOrder q @ [t]) @ rest)" using c(3) p by simp
    show "u \<in> set rest \<longleftrightarrow> u < nextTask q \<and>
        pendingTask (if u = t then (taskOf q t)\<lparr>qtHasStarted := True\<rparr> else taskOf q u)" for u
      using c(5) [of u] p \<open>t \<notin> set rest\<close> by (auto simp: task_kinds)
    show "u \<in> set (inFlight q @ [t]) \<longleftrightarrow> u < nextTask q \<and>
        runningTask (if u = t then (taskOf q t)\<lparr>qtHasStarted := True\<rparr> else taskOf q u)" for u
      using c(6) [of u] t by (auto simp: task_kinds)
    show "pendingTask (if u = t then (taskOf q t)\<lparr>qtHasStarted := True\<rparr> else taskOf q u) \<or>
        runningTask (if u = t then (taskOf q t)\<lparr>qtHasStarted := True\<rparr> else taskOf q u) \<or>
        settledTask (if u = t then (taskOf q t)\<lparr>qtHasStarted := True\<rparr> else taskOf q u)"
      if "u < nextTask q" for u
      using c(7) [OF that] t by (auto simp: task_kinds)
    show "u \<in> set (startOrder q @ [t]) \<longleftrightarrow> u < nextTask q \<and>
        qtHasStarted (if u = t then (taskOf q t)\<lparr>qtHasStarted := True\<rparr> else taskOf q u)" for u
      using c(8) [of u] t by auto
    show "(hasActiveWriteTask q \<or> qtAccess (taskOf q t) = WriteAccess) =
        (\<exists>u \<in> set (inFlight q @ [t]).
           qtAccess (if u = t then (taskOf q t)\<lparr>qtHasStarted := True\<rparr> else taskOf q u) = WriteAccess)"
      using c(10) fresh by auto
  qed (use c(1,2,4,9) len t(1) fresh in \<open>auto split: if_splits\<close>)
qed

lemma drain_inv: "cq_core q \<Longrightarrow> cq_inv (drain q)"
proof (induction q rule: drain.induct)
  case (1 q)
  show ?case
  proof (cases "pendingTasks q")
    case Nil
    with 1(3) show ?thesis by (simp add: cq_inv_def drained_def drain.simps [of q])
  next
    case (Cons t rest)
    have live: "\<not> qtIsCancelled (taskOf q t)" using cq_coreD(5) [OF 1(3), of t] Cons by (simp add: task_kinds)
    show ?thesis
    proof (cases "canStartTask q t")
      case True
      then have "drain q = drain (startTask t (q\<lparr>pendingTasks := rest\<rparr>))"
        using Cons live by (simp add: drain.simps [of q])
      with 1(2) [OF Cons _ refl live startTask_core [OF 1(3) Cons True]] True show ?thesis by simp
    next
      case False
      with Cons 1(3) show ?thesis by (simp add: cq_inv_def drained_def drain.simps [of q])
    qed
  qed
qed

text \<open>Draining keeps the tasks that are settled, and starts only waiting tasks, in order.\<close>

lemma drain_frame:
  "maxConcurrency (drain q) = maxConcurrency q \<and> nextTask (drain q) = nextTask q \<and>
   qtOutcome (taskOf (drain q) t) = qtOutcome (taskOf q t) \<and>
   qtIsCancelled (taskOf (drain q) t) = qtIsCancelled (taskOf q t) \<and>
   qtAccess (taskOf (drain q) t) = qtAccess (taskOf q t)"
proof (induction q rule: drain.induct)
  case (1 q)
  then show ?case
    by (auto simp: drain.simps [of q] startTask_def Let_def split: list.split)
qed

lemma drain_size:
  "length (pendingTasks (drain q)) + length (inFlight (drain q)) = length (pendingTasks q) + length (inFlight q)"
  if "cq_core q"
  using that
proof (induction q rule: drain.induct)
  case (1 q)
  show ?case
  proof (cases "pendingTasks q")
    case Nil
    then show ?thesis by (simp add: drain.simps [of q])
  next
    case (Cons t rest)
    have live: "\<not> qtIsCancelled (taskOf q t)" using cq_coreD(5) [OF 1(3), of t] Cons by (simp add: task_kinds)
    show ?thesis
    proof (cases "canStartTask q t")
      case True
      then have "drain q = drain (startTask t (q\<lparr>pendingTasks := rest\<rparr>))"
        using Cons live by (simp add: drain.simps [of q])
      with 1(2) [OF Cons _ refl live startTask_core [OF 1(3) Cons True]] True Cons show ?thesis
        by (simp add: startTask_def Let_def)
    next
      case False
      with Cons show ?thesis by (simp add: drain.simps [of q])
    qed
  qed
qed

section \<open>The operations keep the invariant\<close>

lemma length_remove1_Suc: "t \<in> set xs \<Longrightarrow> length xs = Suc (length (remove1 t xs))"
  by (induction xs) auto

lemma sorted_remove_right:
  fixes xs ys :: "nat list"
  shows "sorted_wrt (<) (xs @ ys) \<Longrightarrow> sorted_wrt (<) (xs @ remove1 t ys)"
  by (auto simp: sorted_wrt_append strict_sorted_iff sorted_remove1 dest: notin_set_remove1)

lemma write_cong:
  assumes "\<And>u. u \<in> set us \<Longrightarrow> a u = b u"
  shows "(\<exists>u \<in> set us. qtAccess (a u) = WriteAccess) = (\<exists>u \<in> set us. qtAccess (b u) = WriteAccess)"
  using assms by (intro bex_cong) auto

lemma enqueue_core:
  assumes inv: "cq_inv q"
  shows "\<exists>q'. cq_core q' \<and> cq_enqueue access q = (drain q', nextTask q) \<and> inFlight q' = inFlight q \<and>
    pendingTasks q' = pendingTasks q @ [nextTask q] \<and> startOrder q' = startOrder q \<and> nextTask q' = Suc (nextTask q)"
proof -
  let ?n = "nextTask q"
  let ?task = "\<lparr>qtAccess = access, qtIsCancelled = False, qtHasStarted = False, qtOutcome = None\<rparr>"
  let ?q = "q\<lparr>queueTasks := (queueTasks q)(?n \<mapsto> ?task), nextTask := ?n + 1, pendingTasks := pendingTasks q @ [?n]\<rparr>"
  have core: "cq_core q" using inv by (simp add: cq_inv_def)
  note c = cq_coreD [OF core]
  have task: "taskOf ?q u = (if u = ?n then ?task else taskOf q u)" for u by (simp add: taskOf_def)
  have less: "\<forall>u \<in> set (startOrder q @ pendingTasks q @ inFlight q). u < ?n" using c(5,6,8) by auto
  have "cq_core ?q"
    unfolding cq_core_def task
  proof (intro conjI allI impI)
    show "sorted_wrt (<) (startOrder ?q @ pendingTasks ?q)"
      using c(3) less by (auto simp: sorted_wrt_append)
    show "u \<in> set (pendingTasks ?q) \<longleftrightarrow> u < nextTask ?q \<and> pendingTask (if u = ?n then ?task else taskOf q u)" for u
      using c(5) [of u] by (auto simp: task_kinds less_Suc_eq)
    show "u \<in> set (inFlight ?q) \<longleftrightarrow> u < nextTask ?q \<and> runningTask (if u = ?n then ?task else taskOf q u)" for u
      using c(6) [of u] by (auto simp: task_kinds less_Suc_eq)
    show "u \<in> set (startOrder ?q) \<longleftrightarrow> u < nextTask ?q \<and> qtHasStarted (if u = ?n then ?task else taskOf q u)" for u
      using c(8) [of u] by (auto simp: less_Suc_eq)
    show "pendingTask (if u = ?n then ?task else taskOf q u) \<or> runningTask (if u = ?n then ?task else taskOf q u) \<or>
        settledTask (if u = ?n then ?task else taskOf q u)" if "u < nextTask ?q" for u
      using c(7) [of u] that by (auto simp: task_kinds less_Suc_eq)
    show "hasActiveWriteTask ?q =
        (\<exists>u \<in> set (inFlight ?q). qtAccess (if u = ?n then ?task else taskOf q u) = WriteAccess)"
      using c(10) less
        write_cong [of "inFlight q" "\<lambda>u. if u = ?n then ?task else taskOf q u" "taskOf q"] by force
  qed (use c(1,2,4,9,11,12) in \<open>auto simp: less_Suc_eq\<close>)
  then show ?thesis by (intro exI [of _ ?q]) (simp add: cq_enqueue_def Let_def)
qed

lemma enqueue_inv: "cq_inv q \<Longrightarrow> cq_inv (fst (cq_enqueue access q))"
  using enqueue_core [of q access] drain_inv by auto

lemma cancel_pending:
  assumes "cq_core q" "t < nextTask q" "\<not> qtHasStarted (taskOf q t)" "\<not> qtIsCancelled (taskOf q t)"
  shows "t \<in> set (pendingTasks q)"
  using cq_coreD(5,7) [OF assms(1), of t] assms(2-4) by (auto simp: task_kinds)

lemma cancel_core:
  assumes inv: "cq_inv q" and t: "t < nextTask q"
    and False: "\<not> (qtHasStarted (taskOf q t) \<or> qtIsCancelled (taskOf q t))"
  shows "\<exists>q'. cq_core q' \<and> cq_cancelTask t q = (drain q', True) \<and> inFlight q' = inFlight q \<and>
    pendingTasks q' = remove1 t (pendingTasks q) \<and> startOrder q' = startOrder q \<and> nextTask q' = nextTask q"
proof -
  let ?f = "\<lambda>x. x\<lparr>qtIsCancelled := True, qtOutcome := Some CancelledBeforeStart\<rparr>"
  let ?q = "(setTask t ?f q)\<lparr>pendingTasks := remove1 t (pendingTasks q)\<rparr>"
  have core: "cq_core q" using inv by (simp add: cq_inv_def)
  note c = cq_coreD [OF core]
  have task: "taskOf ?q u = (if u = t then ?f (taskOf q t) else taskOf q u)" for u by simp
  have "t \<in> set (pendingTasks q)" using cancel_pending [OF core t] False by blast
  have dist: "distinct (pendingTasks q)" using c(3) by (simp add: strict_sorted_iff)
  have "t \<notin> set (inFlight q)" using c(6) [of t] False by (simp add: task_kinds)
  have out: "t \<notin> set (startOrder q)" using c(8) [of t] False by blast
  have "cq_core ?q"
    unfolding cq_core_def task
  proof (intro conjI allI impI)
    show "sorted_wrt (<) (startOrder ?q @ pendingTasks ?q)"
      using sorted_remove_right [OF c(3), of t] by simp
    show "u \<in> set (pendingTasks ?q) \<longleftrightarrow> u < nextTask ?q \<and> pendingTask (if u = t then ?f (taskOf q t) else taskOf q u)" for u
      using c(5) [of u] dist by (auto simp: task_kinds)
    show "u \<in> set (inFlight ?q) \<longleftrightarrow> u < nextTask ?q \<and> runningTask (if u = t then ?f (taskOf q t) else taskOf q u)" for u
      using c(6) [of u] \<open>t \<notin> set (inFlight q)\<close> by (auto simp: task_kinds)
    show "u \<in> set (startOrder ?q) \<longleftrightarrow> u < nextTask ?q \<and> qtHasStarted (if u = t then ?f (taskOf q t) else taskOf q u)" for u
      using c(8) [of u] by auto
    show "pendingTask (if u = t then ?f (taskOf q t) else taskOf q u) \<or>
        runningTask (if u = t then ?f (taskOf q t) else taskOf q u) \<or>
        settledTask (if u = t then ?f (taskOf q t) else taskOf q u)" if "u < nextTask ?q" for u
      using c(7) [of u] that False by (auto simp: task_kinds)
    show "hasActiveWriteTask ?q =
        (\<exists>u \<in> set (inFlight ?q). qtAccess (if u = t then ?f (taskOf q t) else taskOf q u) = WriteAccess)"
      using c(10) by auto
  qed (use c(1,2,4,9,11,12) t in \<open>auto split: if_splits\<close>)
  with False show ?thesis by (intro exI [of _ ?q]) (simp add: cq_cancelTask_def Let_def)
qed

lemma cancel_inv:
  assumes "cq_inv q" "t < nextTask q"
  shows "cq_inv (fst (cq_cancelTask t q))"
proof (cases "qtHasStarted (taskOf q t) \<or> qtIsCancelled (taskOf q t)")
  case True
  with assms(1) show ?thesis by (simp add: cq_cancelTask_def)
next
  case False
  then show ?thesis using cancel_core [OF assms] drain_inv by auto
qed

lemma settle_core:
  assumes inv: "cq_inv q" and t: "t \<in> set (inFlight q)"
  shows "\<exists>q'. cq_core q' \<and> cq_settle t ok q = drain q' \<and> inFlight q' = remove1 t (inFlight q) \<and>
    pendingTasks q' = pendingTasks q \<and> startOrder q' = startOrder q \<and> nextTask q' = nextTask q"
proof -
  let ?o = "Some (if ok then Resolved else Rejected)"
  let ?f = "\<lambda>x. x\<lparr>qtOutcome := ?o\<rparr>"
  let ?w = "if qtAccess (taskOf q t) = WriteAccess then False else hasActiveWriteTask q"
  let ?q = "(setTask t ?f q)\<lparr>activeTaskCount := activeTaskCount q - 1, hasActiveWriteTask := ?w,
    inFlight := remove1 t (inFlight q)\<rparr>"
  have core: "cq_core q" using inv by (simp add: cq_inv_def)
  note c = cq_coreD [OF core]
  have run: "t < nextTask q" "runningTask (taskOf q t)" using c(6) [of t] t by blast+
  have task: "taskOf ?q u = (if u = t then ?f (taskOf q t) else taskOf q u)" for u by simp
  have len: "length (inFlight q) = Suc (length (remove1 t (inFlight q)))"
    by (rule length_remove1_Suc [OF t])
  have none: "remove1 t (inFlight q) = []" if "hasActiveWriteTask q" using c(11) [OF that] len by simp
  have single: "inFlight q = [t]" "qtAccess (taskOf q t) = WriteAccess" if "hasActiveWriteTask q"
    using c(11) [OF that] c(10) that t by (auto simp: length_Suc_conv)
  have "cq_core ?q"
    unfolding cq_core_def task
  proof (intro conjI allI impI)
    show "u \<in> set (pendingTasks ?q) \<longleftrightarrow> u < nextTask ?q \<and> pendingTask (if u = t then ?f (taskOf q t) else taskOf q u)" for u
      using c(5) [of u] run by (auto simp: task_kinds)
    show "u \<in> set (inFlight ?q) \<longleftrightarrow> u < nextTask ?q \<and> runningTask (if u = t then ?f (taskOf q t) else taskOf q u)" for u
      using c(6) [of u] c(4) by (auto simp: task_kinds)
    show "u \<in> set (startOrder ?q) \<longleftrightarrow> u < nextTask ?q \<and> qtHasStarted (if u = t then ?f (taskOf q t) else taskOf q u)" for u
      using c(8) [of u] by auto
    show "pendingTask (if u = t then ?f (taskOf q t) else taskOf q u) \<or>
        runningTask (if u = t then ?f (taskOf q t) else taskOf q u) \<or>
        settledTask (if u = t then ?f (taskOf q t) else taskOf q u)" if "u < nextTask ?q" for u
      using c(7) [of u] that run by (auto simp: task_kinds)
    show "hasActiveWriteTask ?q =
        (\<exists>u \<in> set (inFlight ?q). qtAccess (if u = t then ?f (taskOf q t) else taskOf q u) = WriteAccess)"
      using c(10) none single by (cases "hasActiveWriteTask q") (auto dest: notin_set_remove1)
    show "length (inFlight ?q) = 1" if "hasActiveWriteTask ?q"
      using that single by (auto split: if_splits)
  qed (use c(1,2,3,4,9,12) len run in \<open>auto split: if_splits\<close>)
  then show ?thesis by (intro exI [of _ ?q]) (simp add: cq_settle_def Let_def)
qed

lemma settle_inv: "cq_inv q \<Longrightarrow> t \<in> set (inFlight q) \<Longrightarrow> cq_inv (cq_settle t ok q)"
  using settle_core [of q t ok] drain_inv by auto

lemma new_queue:
  assumes "newConcurrencyQueue n = Inr q"
  obtains m where "1 \<le> m" "q = \<lparr>pendingTasks = [], activeTaskCount = 0, hasActiveWriteTask = False,
    maxConcurrency = m, queueTasks = (\<lambda>_. None), inFlight = [], startOrder = [], nextTask = 0\<rparr>"
  using assms by (cases n) (auto simp: newConcurrencyQueue_def le_floor_iff split: if_splits)

interpretation queue: state_machine "\<lambda>q. \<exists>n. newConcurrencyQueue n = Inr q" cq_step cq_inv
proof unfold_locales
  fix q assume "\<exists>n. newConcurrencyQueue n = Inr q"
  then show "cq_inv q"
    by (elim exE new_queue) (simp add: cq_inv_def cq_core_def drained_def)
next
  fix q q' assume "cq_inv q" "cq_step q q'"
  from this(2,1) show "cq_inv q'"
    by (cases rule: cq_step.cases) (auto intro: enqueue_inv cancel_inv settle_inv)
qed

lemma cancelled_stays:
  assumes "cq_step\<^sup>*\<^sup>* q q'" "qtIsCancelled (taskOf q t) \<and> t < nextTask q"
  shows "qtIsCancelled (taskOf q' t) \<and> t < nextTask q'"
  using assms
proof (induction rule: rtranclp_induct)
  case (step q1 q2)
  then have IH: "qtIsCancelled (taskOf q1 t)" "t < nextTask q1" by blast+
  from step(2) show ?case
  proof (cases rule: cq_step.cases)
    case (enqueue access)
    with IH show ?thesis by (simp add: cq_enqueue_def Let_def drain_frame) (simp add: taskOf_def)
  next
    case (cancel u)
    with IH show ?thesis by (auto simp: cq_cancelTask_def Let_def drain_frame)
  next
    case (settle u ok)
    with IH show ?thesis by (auto simp: cq_settle_def Let_def drain_frame)
  qed
qed simp

section \<open>Progress\<close>

lemma settle_size:
  assumes "cq_inv q" "t \<in> set (inFlight q)"
  shows "Suc (length (pendingTasks (cq_settle t ok q)) + length (inFlight (cq_settle t ok q))) =
    length (pendingTasks q) + length (inFlight q)"
proof -
  from settle_core [OF assms, of ok] obtain q' where
    q': "cq_core q'" "cq_settle t ok q = drain q'" "inFlight q' = remove1 t (inFlight q)"
      "pendingTasks q' = pendingTasks q" by blast
  have "length (inFlight q) = Suc (length (inFlight q'))"
    unfolding q'(3) by (rule length_remove1_Suc [OF assms(2)])
  with q' drain_size [OF q'(1)] show ?thesis by simp
qed

text \<open>An idle queue has nothing waiting.\<close>

lemma idle_empty:
  assumes "cq_inv q" "inFlight q = []"
  shows "pendingTasks q = []"
proof (rule ccontr)
  assume "pendingTasks q \<noteq> []"
  then obtain t rest where p: "pendingTasks q = t # rest" by (meson list.exhaust)
  have "cq_core q" using assms(1) by (simp add: cq_inv_def)
  note c = cq_coreD [OF this]
  have "canStartTask q t" using c(1,9,10) assms(2) by (auto simp: canStartTask_def)
  with p assms(1) show False by (simp add: cq_inv_def drained_def)
qed

lemma all_settle:
  "cq_inv q \<Longrightarrow> \<exists>q'. settle_step\<^sup>*\<^sup>* q q' \<and> cq_inv q' \<and> pendingTasks q' = [] \<and> inFlight q' = []"
proof (induction "length (pendingTasks q) + length (inFlight q)" arbitrary: q rule: less_induct)
  case less
  show ?case
  proof (cases "inFlight q")
    case Nil
    with less.prems idle_empty show ?thesis by blast
  next
    case (Cons t rest)
    then have t: "t \<in> set (inFlight q)" by simp
    let ?q = "cq_settle t True q"
    have "length (pendingTasks ?q) + length (inFlight ?q) < length (pendingTasks q) + length (inFlight q)"
      using settle_size [OF less.prems t, of True] by linarith
    from less.hyps [OF this settle_inv [OF less.prems t]] obtain q' where
      "settle_step\<^sup>*\<^sup>* ?q q'" "cq_inv q'" "pendingTasks q' = []" "inFlight q' = []" by blast
    moreover have "settle_step q ?q" using t by (rule settle_any)
    ultimately show ?thesis by (meson converse_rtranclp_into_rtranclp)
  qed
qed

section \<open>Properties\<close>

text \<open>C6: In every state of the queue, at most \<open>maxConcurrency\<close> runs are in flight; if one of them is
  a write run, it is the only one; and the two counters of the code say exactly that.\<close>

theorem queue_readers_or_single_writer:
  assumes "newConcurrencyQueue n = Inr q0" "cq_step\<^sup>*\<^sup>* q0 q"
  shows "int (length (inFlight q)) \<le> maxConcurrency q \<and> distinct (inFlight q) \<and>
    (\<forall>t \<in> set (inFlight q). qtAccess (taskOf q t) = WriteAccess \<longrightarrow> inFlight q = [t]) \<and>
    activeTaskCount q = int (length (inFlight q)) \<and>
    hasActiveWriteTask q = (\<exists>t \<in> set (inFlight q). qtAccess (taskOf q t) = WriteAccess)"
proof -
  have "cq_core q" using queue.reachable_inv [of q0 q] assms by (auto simp: cq_inv_def)
  note c = cq_coreD [OF this]
  have "inFlight q = [t]" if "t \<in> set (inFlight q)" "qtAccess (taskOf q t) = WriteAccess" for t
  proof -
    have "hasActiveWriteTask q" using c(10) that by blast
    from c(11) [OF this] that(1) show ?thesis by (auto simp: length_Suc_conv)
  qed
  with c(4,9,10,12) show ?thesis by blast
qed

lemma run_enqueue: "cq_step\<^sup>*\<^sup>* q0 q \<Longrightarrow> cq_step\<^sup>*\<^sup>* q0 (fst (cq_enqueue access q))"
  by (meson enqueue rtranclp.rtrancl_into_rtrancl)

definition demo_queue :: ConcurrencyQueue where
  "demo_queue = \<lparr>pendingTasks = [], activeTaskCount = 0, hasActiveWriteTask = False, maxConcurrency = 2,
     queueTasks = (\<lambda>_. None), inFlight = [], startOrder = [], nextTask = 0\<rparr>"

definition demo_queue_run :: ConcurrencyQueue where
  "demo_queue_run = fst (cq_enqueue ReadAccess (fst (cq_enqueue WriteAccess (fst (cq_enqueue ReadAccess demo_queue)))))"

lemma demo_queue_new: "newConcurrencyQueue (Fin 2) = Inr demo_queue"
  by (simp add: newConcurrencyQueue_def demo_queue_def)

lemma demo_queue_reachable: "cq_step\<^sup>*\<^sup>* demo_queue demo_queue_run"
  unfolding demo_queue_run_def by (intro run_enqueue) simp

theorem queue_readers_or_single_writer_witness:
  "inFlight demo_queue_run = [0] \<and> pendingTasks demo_queue_run = [1, 2] \<and>
   activeTaskCount demo_queue_run = int (length (inFlight demo_queue_run))"
proof -
  have "inFlight demo_queue_run = [0] \<and> pendingTasks demo_queue_run = [1, 2]" by code_simp
  with queue_readers_or_single_writer [OF demo_queue_new demo_queue_reachable] show ?thesis by simp
qed

text \<open>Tasks start in the order in which they were enqueued: a waiting task is never overtaken by a
  later one, whatever their access.\<close>

theorem queue_is_fifo:
  assumes "newConcurrencyQueue n = Inr q0" "cq_step\<^sup>*\<^sup>* q0 q"
  shows "sorted_wrt (<) (startOrder q) \<and>
    (\<forall>s \<in> set (startOrder q). \<forall>t \<in> set (pendingTasks q). s < t) \<and>
    (\<forall>t. t \<in> set (startOrder q) \<longleftrightarrow> t < nextTask q \<and> qtHasStarted (taskOf q t))"
proof -
  have "cq_core q" using queue.reachable_inv [of q0 q] assms by (auto simp: cq_inv_def)
  note c = cq_coreD [OF this]
  from c(3,8) show ?thesis by (auto simp: sorted_wrt_append)
qed

theorem queue_is_fifo_witness:
  "startOrder demo_queue_run = [0] \<and> pendingTasks demo_queue_run = [1, 2] \<and> sorted_wrt (<) (startOrder demo_queue_run)"
proof -
  have "startOrder demo_queue_run = [0]" "pendingTasks demo_queue_run = [1, 2]" by code_simp+
  with queue_is_fifo [OF demo_queue_new demo_queue_reachable] show ?thesis by simp
qed

text \<open>C7: No task is lost and none is stuck: every task that was enqueued is waiting, in flight or
  settled (exactly one of these); a queue with nothing in flight has nothing waiting; and from
  every reachable state, letting the runs in flight settle leads to a state in which every
  task is settled.\<close>

theorem queue_loses_nothing:
  assumes "newConcurrencyQueue n = Inr q0" "cq_step\<^sup>*\<^sup>* q0 q"
  shows "(\<forall>t < nextTask q.
      (if t \<in> set (pendingTasks q) then t \<notin> set (inFlight q) \<and> qtOutcome (taskOf q t) = None
       else t \<in> set (inFlight q) \<longleftrightarrow> qtOutcome (taskOf q t) = None)) \<and>
    (inFlight q = [] \<longrightarrow> pendingTasks q = []) \<and>
    (\<exists>q'. settle_step\<^sup>*\<^sup>* q q' \<and> pendingTasks q' = [] \<and> inFlight q' = [] \<and>
       (\<forall>t < nextTask q'. qtOutcome (taskOf q' t) \<noteq> None))"
proof -
  have inv: "cq_inv q" using queue.reachable_inv [of q0 q] assms by auto
  then have core: "cq_core q" by (simp add: cq_inv_def)
  have "\<forall>t < nextTask q.
      (if t \<in> set (pendingTasks q) then t \<notin> set (inFlight q) \<and> qtOutcome (taskOf q t) = None
       else t \<in> set (inFlight q) \<longleftrightarrow> qtOutcome (taskOf q t) = None)"
  proof (intro allI impI)
    fix t assume "t < nextTask q"
    with cq_coreD(5,6,7) [OF core, of t] show "if t \<in> set (pendingTasks q)
       then t \<notin> set (inFlight q) \<and> qtOutcome (taskOf q t) = None
       else t \<in> set (inFlight q) \<longleftrightarrow> qtOutcome (taskOf q t) = None"
      by (auto simp: task_kinds)
  qed
  moreover from all_settle [OF inv] obtain q' where
    q': "settle_step\<^sup>*\<^sup>* q q'" "cq_inv q'" "pendingTasks q' = []" "inFlight q' = []" by blast
  have core': "cq_core q'" using q'(2) by (simp add: cq_inv_def)
  have "qtOutcome (taskOf q' t) \<noteq> None" if "t < nextTask q'" for t
    using cq_coreD(5,6,7) [OF core', of t] that q'(3,4) by (auto simp: task_kinds)
  ultimately show ?thesis using q' idle_empty [OF inv] by blast
qed

theorem queue_loses_nothing_witness:
  "\<exists>q'. settle_step\<^sup>*\<^sup>* demo_queue_run q' \<and> pendingTasks q' = [] \<and> inFlight q' = []"
  using queue_loses_nothing [OF demo_queue_new demo_queue_reachable] by blast

text \<open>Cancelling succeeds exactly for a task that is still waiting; the task then leaves the queue,
  is rejected as cancelled and is never started, now or later. For every other task, cancelling
  reports failure and changes nothing.\<close>

theorem queue_cancel_correct:
  assumes "newConcurrencyQueue n = Inr q0" "cq_step\<^sup>*\<^sup>* q0 q" "t < nextTask q"
  shows "(snd (cq_cancelTask t q) \<longleftrightarrow> t \<in> set (pendingTasks q)) \<and>
    (\<not> snd (cq_cancelTask t q) \<longrightarrow> fst (cq_cancelTask t q) = q) \<and>
    (snd (cq_cancelTask t q) \<longrightarrow>
       (\<forall>q'. cq_step\<^sup>*\<^sup>* (fst (cq_cancelTask t q)) q' \<longrightarrow>
          t \<notin> set (pendingTasks q') \<and> t \<notin> set (startOrder q') \<and>
          qtOutcome (taskOf q' t) = Some CancelledBeforeStart))"
proof -
  have inv: "cq_inv q" using queue.reachable_inv [of q0 q] assms by auto
  then have core: "cq_core q" by (simp add: cq_inv_def)
  let ?q = "fst (cq_cancelTask t q)"
  have iff: "snd (cq_cancelTask t q) \<longleftrightarrow> t \<in> set (pendingTasks q)"
    using cancel_pending [OF core assms(3)] cq_coreD(5) [OF core, of t]
    by (auto simp: cq_cancelTask_def Let_def task_kinds)
  have same: "\<not> snd (cq_cancelTask t q) \<Longrightarrow> ?q = q" by (auto simp: cq_cancelTask_def Let_def split: if_splits)
  have gone: "t \<notin> set (pendingTasks q') \<and> t \<notin> set (startOrder q') \<and>
      qtOutcome (taskOf q' t) = Some CancelledBeforeStart"
    if "snd (cq_cancelTask t q)" "cq_step\<^sup>*\<^sup>* ?q q'" for q'
  proof -
    have cancelled: "qtIsCancelled (taskOf ?q t) \<and> t < nextTask ?q"
      using that(1) assms(3) by (auto simp: cq_cancelTask_def Let_def drain_frame split: if_splits)
    have "qtIsCancelled (taskOf q' t) \<and> t < nextTask q'" using that(2) cancelled by (rule cancelled_stays)
    moreover have core': "cq_core q'"
      using queue.steps_inv [OF that(2)] cancel_inv [OF inv assms(3)] by (simp add: cq_inv_def)
    ultimately show ?thesis using cq_coreD(5,7,8) [OF core', of t] by (auto simp: task_kinds)
  qed
  show ?thesis using iff same gone by blast
qed

theorem queue_cancel_correct_witness:
  "snd (cq_cancelTask 1 demo_queue_run) \<and> \<not> snd (cq_cancelTask 0 demo_queue_run)"
proof -
  have "nextTask demo_queue_run = 3" "pendingTasks demo_queue_run = [1, 2]" by code_simp+
  with queue_cancel_correct [OF demo_queue_new demo_queue_reachable, of 1]
    queue_cancel_correct [OF demo_queue_new demo_queue_reachable, of 0] show ?thesis by simp
qed

end
