(* ===== verification/Completion_Owner.thy ===== *)
theory Completion_Owner
  imports Yishan_Prelude
begin

text \<open>
  Delivery of sub-agent results to the parent session
  (\<open>src/packages/pi-subagents/src/delivery/completionOwner.ts\<close>, \<open>completionMessage.ts\<close>) and the
  formatting of collected results (\<open>delegation/resultCollector.ts\<close>), with the data of
  \<open>delegation/types.ts\<close> they use.

  The message is handed to \<open>sendMessage\<close> of the host, which is not part of the repository: it may
  accept the message or throw, and it may call back into the owner before it does. Its
  behaviour is the argument \<open>host\<close>, which gives for the \<open>n\<close>-th call the calls it makes back and
  whether it accepts. A retry timer is the delay it was set with.
\<close>

section \<open>Results and messages\<close>

datatype AgentCancellationOrigin = OriginUser | OriginCaller | OriginShutdown | OriginTimeout | OriginMaxTurns

datatype ResultStatus = StatusCompleted | StatusFailed | StatusCancelled

record AgentUsageStats =
  usageInput :: js_number
  usageOutput :: js_number
  usageCacheRead :: js_number
  usageCacheWrite :: js_number
  usageCost :: js_number
  usageContextTokens :: js_number
  usageTurns :: js_number

record AgentResult =
  resAgentId :: string
  resAgentName :: string
  resSessionId :: "string option"
  resSessionPath :: "string option"
  resStatus :: ResultStatus
  resResponseText :: "string option"
  resError :: "string option"
  resUsage :: AgentUsageStats
  resCancellationOrigin :: "AgentCancellationOrigin option"

fun showOrigin :: "AgentCancellationOrigin \<Rightarrow> string" where
  "showOrigin OriginUser = ''user''"
| "showOrigin OriginCaller = ''caller''"
| "showOrigin OriginShutdown = ''shutdown''"
| "showOrigin OriginTimeout = ''timeout''"
| "showOrigin OriginMaxTurns = ''maxTurns''"

fun showStatus :: "ResultStatus \<Rightarrow> string" where
  "showStatus StatusCompleted = ''completed''"
| "showStatus StatusFailed = ''failed''"
| "showStatus StatusCancelled = ''cancelled''"

record CompletionDetails =
  detAgentId :: string
  detAgentName :: string
  detStatus :: ResultStatus
  detSessionId :: "string option"

text \<open>The message without its constant fields (\<open>customType\<close>, \<open>display\<close>, \<open>version\<close>).\<close>

record CompletionMessage =
  msgContent :: string
  msgDetails :: CompletionDetails

definition MAX_COMPLETION_LENGTH :: int where
  "MAX_COMPLETION_LENGTH = 50000"

text \<open>\<open>s.slice(0, n)\<close>: a negative end counts from the end of the string.\<close>

definition js_slice0 :: "int \<Rightarrow> string \<Rightarrow> string" where
  "js_slice0 n s = (if 0 \<le> n then take (nat n) s else take (nat (int (length s) + n)) s)"

definition completionReference :: "AgentResult \<Rightarrow> string" where
  "completionReference result =
     [CHR 0x0A, CHR 0x0A] @ ''Child transcript: '' @
     nullish (truthy_string (resSessionPath result)) ''unavailable (child session was not persisted)''"

definition truncationNotice :: string where
  "truncationNotice = [CHR 0x0A] @ ''[Result truncated]''"

definition completionBody :: "AgentResult \<Rightarrow> string" where
  "completionBody result =
     js_join [CHR 0x0A, CHR 0x0A] (filter (\<lambda>s. s \<noteq> [])
       [''Sub-agent '' @ resAgentId result @ '' ('' @ resAgentName result @ ''): '' @ showStatus (resStatus result),
        (case truthy_string (resError result) of None \<Rightarrow> [] | Some e \<Rightarrow> ''Error: '' @ e),
        (case resCancellationOrigin result of None \<Rightarrow> [] | Some c \<Rightarrow> ''Cancellation: '' @ showOrigin c),
        nullish (truthy_string (resResponseText result)) ''(no output)''])"

definition buildCompletionMessage :: "AgentResult \<Rightarrow> CompletionMessage" where
  "buildCompletionMessage result =
     (let reference = completionReference result;
          body = completionBody result;
          available = MAX_COMPLETION_LENGTH - int (length reference);
          content =
            (if available < int (length body)
             then js_slice0 (available - int (length truncationNotice)) body @ truncationNotice @ reference
             else body @ reference)
      in \<lparr>msgContent = content,
          msgDetails = \<lparr>detAgentId = resAgentId result, detAgentName = resAgentName result,
                        detStatus = resStatus result, detSessionId = resSessionId result\<rparr>\<rparr>)"

section \<open>Collected results\<close>

text \<open>\<open>replaceAll\<close> of one character.\<close>

definition replaceAllChar :: "char \<Rightarrow> string \<Rightarrow> string \<Rightarrow> string" where
  "replaceAllChar c r s = concat (map (\<lambda>x. if x = c then r else [x]) s)"

definition escapeXmlText :: "string \<Rightarrow> string" where
  "escapeXmlText s =
     replaceAllChar CHR ''>'' ''&gt;'' (replaceAllChar CHR ''<'' ''&lt;'' (replaceAllChar CHR ''&'' ''&amp;'' s))"

definition escapeXmlAttribute :: "string \<Rightarrow> string" where
  "escapeXmlAttribute s =
     replaceAllChar CHR 0x27 ''&apos;'' (replaceAllChar CHR 0x22 ''&quot;''
       (replaceAllChar CHR ''>'' ''&gt;'' (replaceAllChar CHR ''<'' ''&lt;'' (replaceAllChar CHR ''&'' ''&amp;'' s))))"

definition formatResultCollectorOutput :: "AgentResult list \<Rightarrow> string" where
  "formatResultCollectorOutput results =
     js_join [CHR 0x0A, CHR 0x0A] (map (\<lambda>result.
       let payload = escapeXmlText (nullish (nullish_option (resResponseText result) (resError result)) []);
           name = escapeXmlAttribute (resAgentName result)
       in ''<subagent name='' @ [CHR 0x22] @ name @ [CHR 0x22] @ ''>'' @ [CHR 0x0A] @ payload @ [CHR 0x0A] @
          ''</subagent>'') results)"

section \<open>The owner\<close>

datatype LaunchSource = LaunchedByTool | LaunchedByCommand

record AgentParentCorrelation =
  parentSessionId :: string
  parentLifetime :: "string option"
  parentToolCallId :: "string option"
  parentSource :: "LaunchSource option"

text \<open>The terminal event without its copy of the agent record, which the owner does not read.\<close>

record AgentTerminalEvent =
  evResult :: AgentResult
  evParent :: "AgentParentCorrelation option"

datatype DeliveryState = Enrolled | PendingDelivery | SendingDelivery | AcceptedDelivery

record DeliveryEntry =
  deState :: DeliveryState
  deEvent :: "AgentTerminalEvent option"
  deRetries :: nat
  deTimer :: "nat option"
  deExhausted :: bool

text \<open>One call of \<open>sendMessage\<close> (always delivered as a follow-up), and whether it was accepted. The list
  of attempts and of warnings record the effects of the owner outside its own state.\<close>

record SendAttempt =
  saAgentId :: string
  saMessage :: CompletionMessage
  saTriggerTurn :: bool
  saAccepted :: bool

record CompletionOwner =
  ownerSessionId :: string
  ownerLifetime :: string
  ownerEntries :: "(string \<times> DeliveryEntry) list"
  ownerClosed :: bool
  ownerDraining :: bool
  ownerAttempts :: "SendAttempt list"
  ownerWarnings :: "string list"

definition newCompletionOwner :: "string \<Rightarrow> string \<Rightarrow> CompletionOwner" where
  "newCompletionOwner sessionId lifetime =
     \<lparr>ownerSessionId = sessionId, ownerLifetime = lifetime, ownerEntries = [], ownerClosed = False,
      ownerDraining = False, ownerAttempts = [], ownerWarnings = []\<rparr>"

definition RETRY_DELAYS_MS :: "nat list" where
  "RETRY_DELAYS_MS = [100, 500, 1500]"

definition updateEntry :: "string \<Rightarrow> (DeliveryEntry \<Rightarrow> DeliveryEntry) \<Rightarrow> CompletionOwner \<Rightarrow> CompletionOwner" where
  "updateEntry k f ow =
     ow\<lparr>ownerEntries := map (\<lambda>(k', e). if k' = k then (k', f e) else (k', e)) (ownerEntries ow)\<rparr>"

definition owner_enroll :: "string \<Rightarrow> CompletionOwner \<Rightarrow> CompletionOwner" where
  "owner_enroll agentId ow =
     (if \<not> ownerClosed ow \<and> agentId \<notin> fst ` set (ownerEntries ow)
      then ow\<lparr>ownerEntries := ownerEntries ow @
             [(agentId, \<lparr>deState = Enrolled, deEvent = None, deRetries = 0, deTimer = None, deExhausted = False\<rparr>)]\<rparr>
      else ow)"

text \<open>The part of \<open>terminal\<close> before its call of \<open>drain\<close>, and whether that call is reached.\<close>

definition recordTerminal :: "AgentTerminalEvent \<Rightarrow> CompletionOwner \<Rightarrow> CompletionOwner \<times> bool" where
  "recordTerminal event ow =
     (if ownerClosed ow \<or>
         map_option parentSessionId (evParent event) \<noteq> Some (ownerSessionId ow) \<or>
         Option.bind (evParent event) parentLifetime \<noteq> Some (ownerLifetime ow)
      then (ow, False)
      else
        let agentId = resAgentId (evResult event) in
        case map_of (ownerEntries ow) agentId of
          None \<Rightarrow> (ow, False)
        | Some entry \<Rightarrow>
            if deState entry \<noteq> Enrolled then (ow, False)
            else (updateEntry agentId (\<lambda>e. e\<lparr>deEvent := Some event, deState := PendingDelivery\<rparr>) ow, True))"

definition owner_close :: "CompletionOwner \<Rightarrow> CompletionOwner" where
  "owner_close ow = ow\<lparr>ownerClosed := True, ownerEntries := []\<rparr>"

text \<open>What the host may call back while it is sending; a \<open>terminal\<close> call finds \<open>draining\<close> set and
  returns after recording the event.\<close>

datatype OwnerCall = CallEnroll string | CallTerminal AgentTerminalEvent | CallClose

fun reenter :: "OwnerCall \<Rightarrow> CompletionOwner \<Rightarrow> CompletionOwner" where
  "reenter (CallEnroll agentId) ow = owner_enroll agentId ow"
| "reenter (CallTerminal event) ow = fst (recordTerminal event ow)"
| "reenter CallClose ow = owner_close ow"

type_synonym HostBehaviour = "nat \<Rightarrow> OwnerCall list \<times> bool"

definition eligible :: "DeliveryEntry \<Rightarrow> bool" where
  "eligible e \<longleftrightarrow> deState e = PendingDelivery \<and> deTimer e = None \<and> \<not> deExhausted e"

definition exhaustedWarning :: "string \<Rightarrow> string" where
  "exhaustedWarning agentId =
     ''Sub-agent completion delivery failed after automatic retries. Inspect with /agent-result '' @ agentId @ ''.''"

definition owner_send :: "HostBehaviour \<Rightarrow> string \<Rightarrow> DeliveryEntry \<Rightarrow> CompletionOwner \<Rightarrow> CompletionOwner" where
  "owner_send host k entry ow =
     (case deEvent entry of
        None \<Rightarrow> ow
      | Some event \<Rightarrow>
          let (calls, accepted) = host (length (ownerAttempts ow));
              ow1 = fold reenter calls (updateEntry k (\<lambda>e. e\<lparr>deState := SendingDelivery\<rparr>) ow);
              attempt = \<lparr>saAgentId = resAgentId (evResult event), saMessage = buildCompletionMessage (evResult event),
                         saTriggerTurn = (resCancellationOrigin (evResult event) \<noteq> Some OriginUser),
                         saAccepted = accepted\<rparr>;
              ow2 = ow1\<lparr>ownerAttempts := ownerAttempts ow1 @ [attempt]\<rparr> in
          if accepted then updateEntry k (\<lambda>e. e\<lparr>deState := AcceptedDelivery\<rparr>) ow2
          else if ownerClosed ow2 then ow2
          else
            let delay = js_at RETRY_DELAYS_MS (int (deRetries entry));
                ow3 = updateEntry k (\<lambda>e. e\<lparr>deState := PendingDelivery, deRetries := deRetries entry + 1\<rparr>) ow2
            in (case delay of
                  None \<Rightarrow>
                    (updateEntry k (\<lambda>e. e\<lparr>deExhausted := True\<rparr>) ow3)
                      \<lparr>ownerWarnings := ownerWarnings ow3 @ [exhaustedWarning (resAgentId (evResult event))]\<rparr>
                | Some d \<Rightarrow> updateEntry k (\<lambda>e. e\<lparr>deTimer := Some d\<rparr>) ow3))"

text \<open>
  The two loops of \<open>drain\<close>: \<open>i\<close> is the position of the iteration over the entries, which also visits
  entries added on the way, and the scan starts over while an eligible entry is left. The host
  can keep the loop busy for ever by enrolling and finishing new agents, so the loop has fuel;
  \<^term>\<open>None\<close> means that it ran out.
\<close>

fun drainLoop :: "nat \<Rightarrow> HostBehaviour \<Rightarrow> nat \<Rightarrow> CompletionOwner \<Rightarrow> CompletionOwner option" where
  "drainLoop 0 host i ow = None"
| "drainLoop (Suc fuel) host i ow =
     (if ownerClosed ow then Some (ow\<lparr>ownerDraining := False\<rparr>)
      else if i < length (ownerEntries ow) then
        (let (k, entry) = ownerEntries ow ! i in
         if eligible entry then drainLoop fuel host (i + 1) (owner_send host k entry ow)
         else drainLoop fuel host (i + 1) ow)
      else if \<exists>e \<in> snd ` set (ownerEntries ow). eligible e then drainLoop fuel host 0 ow
      else Some (ow\<lparr>ownerDraining := False\<rparr>))"

definition owner_drain :: "nat \<Rightarrow> HostBehaviour \<Rightarrow> CompletionOwner \<Rightarrow> CompletionOwner option" where
  "owner_drain fuel host ow =
     (if ownerClosed ow \<or> ownerDraining ow then Some ow
      else drainLoop fuel host 0 (ow\<lparr>ownerDraining := True\<rparr>))"

definition owner_terminal ::
  "nat \<Rightarrow> HostBehaviour \<Rightarrow> AgentTerminalEvent \<Rightarrow> CompletionOwner \<Rightarrow> CompletionOwner option" where
  "owner_terminal fuel host event ow =
     (let (ow1, reached) = recordTerminal event ow in
      if reached then owner_drain fuel host ow1 else Some ow1)"

text \<open>The callback of a retry timer, which is still set on its entry.\<close>

definition owner_timer :: "nat \<Rightarrow> HostBehaviour \<Rightarrow> string \<Rightarrow> CompletionOwner \<Rightarrow> CompletionOwner option" where
  "owner_timer fuel host k ow =
     (let ow1 = updateEntry k (\<lambda>e. e\<lparr>deTimer := None\<rparr>) ow in
      if ownerClosed ow1 then Some ow1 else owner_drain fuel host ow1)"

inductive owner_step :: "CompletionOwner \<Rightarrow> CompletionOwner \<Rightarrow> bool" where
  owner_enrolls: "owner_step ow (owner_enroll agentId ow)"
| owner_terminates: "owner_terminal fuel host event ow = Some ow' \<Longrightarrow> owner_step ow ow'"
| owner_closes: "owner_step ow (owner_close ow)"
| owner_timer_fires: "map_of (ownerEntries ow) k = Some e \<Longrightarrow> deTimer e \<noteq> None \<Longrightarrow>
    owner_timer fuel host k ow = Some ow' \<Longrightarrow> owner_step ow ow'"

end
