(* ===== verification/Completion_Owner_Proofs.thy ===== *)
theory Completion_Owner_Proofs
  imports Completion_Owner
begin

text \<open>
  Delivery is at most once: whatever the host does (refuse, accept, call back, close the owner in
  the middle of a send), a result is sent at most four times, never again after it was
  accepted, and never after the owner was closed.
\<close>

section \<open>Entries and attempts\<close>

definition attemptsFor :: "string \<Rightarrow> CompletionOwner \<Rightarrow> SendAttempt list" where
  "attemptsFor k ow = filter (\<lambda>a. saAgentId a = k) (ownerAttempts ow)"

definition allRefused :: "SendAttempt list \<Rightarrow> bool" where
  "allRefused as \<longleftrightarrow> (\<forall>a \<in> set as. \<not> saAccepted a)"

text \<open>The state of an entry against the attempts made for its agent.\<close>

definition entry_ok :: "string \<Rightarrow> DeliveryEntry \<Rightarrow> SendAttempt list \<Rightarrow> bool" where
  "entry_ok k e as \<longleftrightarrow>
     (deState e \<noteq> Enrolled \<longrightarrow> (\<exists>ev. deEvent e = Some ev \<and> resAgentId (evResult ev) = k)) \<and>
     (deState e \<noteq> PendingDelivery \<longrightarrow> deTimer e = None \<and> \<not> deExhausted e) \<and>
     (case deState e of
        Enrolled \<Rightarrow> as = [] \<and> deRetries e = 0
      | PendingDelivery \<Rightarrow> allRefused as \<and> length as = deRetries e \<and> deRetries e \<le> 4 \<and>
          (deExhausted e \<longleftrightarrow> deRetries e = 4) \<and>
          (\<forall>d. deTimer e = Some d \<longrightarrow> deRetries e \<in> {1..3} \<and> d = RETRY_DELAYS_MS ! (deRetries e - 1))
      | SendingDelivery \<Rightarrow> allRefused as \<and> length as = deRetries e \<and> deRetries e \<le> 3
      | AcceptedDelivery \<Rightarrow> allRefused (butlast as) \<and> as \<noteq> [] \<and> saAccepted (last as) \<and> length as = deRetries e + 1 \<and> deRetries e \<le> 3)"

definition attempts_ok :: "SendAttempt list \<Rightarrow> bool" where
  "attempts_ok as \<longleftrightarrow> length as \<le> 4 \<and> allRefused (butlast as)"

definition owner_inv :: "CompletionOwner \<Rightarrow> bool" where
  "owner_inv ow \<longleftrightarrow>
     distinct (map fst (ownerEntries ow)) \<and>
     (ownerClosed ow \<longrightarrow> ownerEntries ow = []) \<and>
     (\<forall>k e. map_of (ownerEntries ow) k = Some e \<longrightarrow> entry_ok k e (attemptsFor k ow)) \<and>
     (\<forall>k. attempts_ok (attemptsFor k ow)) \<and>
     (\<not> ownerClosed ow \<longrightarrow> (\<forall>k. map_of (ownerEntries ow) k = None \<longrightarrow> attemptsFor k ow = []))"

lemma owner_invD:
  assumes "owner_inv ow"
  shows "distinct (map fst (ownerEntries ow))" "ownerClosed ow \<Longrightarrow> ownerEntries ow = []"
    "map_of (ownerEntries ow) k = Some e \<Longrightarrow> entry_ok k e (attemptsFor k ow)"
    "attempts_ok (attemptsFor k ow)"
    "\<not> ownerClosed ow \<Longrightarrow> map_of (ownerEntries ow) k = None \<Longrightarrow> attemptsFor k ow = []"
  using assms by (simp_all add: owner_inv_def)

lemma updateEntry_simps [simp]:
  "map_of (ownerEntries (updateEntry k f ow)) k' =
     (if k' = k then map_option f (map_of (ownerEntries ow) k) else map_of (ownerEntries ow) k')"
  "map fst (ownerEntries (updateEntry k f ow)) = map fst (ownerEntries ow)"
  "ownerClosed (updateEntry k f ow) = ownerClosed ow" "ownerAttempts (updateEntry k f ow) = ownerAttempts ow"
  "ownerDraining (updateEntry k f ow) = ownerDraining ow" "ownerWarnings (updateEntry k f ow) = ownerWarnings ow"
  "(ownerEntries (updateEntry k f ow) = []) = (ownerEntries ow = [])"
  "length (ownerEntries (updateEntry k f ow)) = length (ownerEntries ow)"
  by (simp_all add: updateEntry_def map_of_update keys_update del: list.map_comp map_map)

lemma attemptsFor_frame [simp]:
  "attemptsFor k (updateEntry j f ow) = attemptsFor k ow"
  "attemptsFor k (ow\<lparr>ownerDraining := b\<rparr>) = attemptsFor k ow"
  "attemptsFor k (ow\<lparr>ownerWarnings := w\<rparr>) = attemptsFor k ow"
  "attemptsFor k (ow\<lparr>ownerEntries := es\<rparr>) = attemptsFor k ow"
  "attemptsFor k (ow\<lparr>ownerClosed := c\<rparr>) = attemptsFor k ow"
  by (simp_all add: attemptsFor_def)

lemma owner_inv_frame [simp]:
  "owner_inv (ow\<lparr>ownerDraining := b\<rparr>) = owner_inv ow" "owner_inv (ow\<lparr>ownerWarnings := w\<rparr>) = owner_inv ow"
  by (simp_all add: owner_inv_def)

text \<open>Updating one entry, if the new entry fits the attempts.\<close>

lemma owner_inv_update:
  assumes "owner_inv ow" "\<And>e. map_of (ownerEntries ow) k = Some e \<Longrightarrow> entry_ok k (f e) (attemptsFor k ow)"
  shows "owner_inv (updateEntry k f ow)"
  using assms by (auto simp: owner_inv_def)

section \<open>Calls that do not send\<close>

lemma map_of_append_single:
  "k \<notin> fst ` set es \<Longrightarrow> map_of (es @ [(k, e)]) = (map_of es)(k \<mapsto> e)"
  by (induction es) auto

lemma owner_enroll_inv:
  assumes "owner_inv ow"
  shows "owner_inv (owner_enroll k ow)"
proof (cases "\<not> ownerClosed ow \<and> k \<notin> fst ` set (ownerEntries ow)")
  case True
  let ?e = "\<lparr>deState = Enrolled, deEvent = None, deRetries = 0, deTimer = None, deExhausted = False\<rparr>"
  have "attemptsFor k ow = []" using owner_invD(5) [OF assms] True by (simp add: map_of_eq_None_iff)
  moreover have "entry_ok k ?e []" by (simp add: entry_ok_def)
  moreover have "owner_enroll k ow = ow\<lparr>ownerEntries := ownerEntries ow @ [(k, ?e)]\<rparr>"
    using True by (simp add: owner_enroll_def)
  ultimately show ?thesis
    using assms True by (auto simp: owner_inv_def map_of_append_single split: if_splits)
next
  case False
  then have "owner_enroll k ow = ow" unfolding owner_enroll_def by (simp only: if_False)
  with assms show ?thesis by simp
qed

lemma recordTerminal_inv:
  assumes "owner_inv ow"
  shows "owner_inv (fst (recordTerminal ev ow))"
proof (cases "snd (recordTerminal ev ow)")
  case True
  let ?k = "resAgentId (evResult ev)" and ?f = "\<lambda>e. e\<lparr>deEvent := Some ev, deState := PendingDelivery\<rparr>"
  from True obtain e where e: "map_of (ownerEntries ow) ?k = Some e" "deState e = Enrolled"
      "fst (recordTerminal ev ow) = updateEntry ?k ?f ow"
    by (auto simp: recordTerminal_def Let_def split: option.splits if_splits)
  have "entry_ok ?k (?f e) (attemptsFor ?k ow)"
    using owner_invD(3) [OF assms e(1)] e(2) by (simp add: entry_ok_def allRefused_def)
  with e assms show ?thesis by (auto intro!: owner_inv_update)
next
  case False
  then have "fst (recordTerminal ev ow) = ow"
    by (auto simp: recordTerminal_def Let_def split: option.splits if_splits)
  with assms show ?thesis by simp
qed

lemma owner_close_inv: "owner_inv ow \<Longrightarrow> owner_inv (owner_close ow)"
  by (simp add: owner_inv_def owner_close_def)

lemma reenter_inv: "owner_inv ow \<Longrightarrow> owner_inv (reenter c ow)"
  by (cases c) (simp_all add: owner_enroll_inv recordTerminal_inv owner_close_inv)

lemma fold_reenter_inv: "owner_inv ow \<Longrightarrow> owner_inv (fold reenter cs ow)"
  by (induction cs arbitrary: ow) (simp_all add: reenter_inv)

text \<open>Calls from the host make no attempt, and leave an entry that is being sent alone unless they
  close the owner.\<close>

lemma reenter_frame:
  assumes "map_of (ownerEntries ow) k = Some e" "deState e = SendingDelivery"
  shows "ownerAttempts (reenter c ow) = ownerAttempts ow \<and> (ownerClosed ow \<longrightarrow> ownerClosed (reenter c ow)) \<and>
    (\<not> ownerClosed (reenter c ow) \<longrightarrow> map_of (ownerEntries (reenter c ow)) k = Some e)"
proof (cases c)
  case (CallEnroll a)
  with assms show ?thesis by (auto simp: owner_enroll_def map_of_append_single dest: map_of_SomeD)
next
  case (CallTerminal ev)
  with assms show ?thesis by (auto simp: recordTerminal_def Let_def split: option.splits)
next
  case CallClose
  then show ?thesis by (simp add: owner_close_def)
qed

lemma reenter_closed:
  assumes "ownerClosed ow" "ownerEntries ow = []"
  shows "reenter c ow = ow\<lparr>ownerEntries := []\<rparr>"
  using assms by (cases c) (simp_all add: owner_enroll_def recordTerminal_def owner_close_def)

lemma fold_reenter_closed:
  assumes "ownerClosed ow" "ownerEntries ow = []"
  shows "fold reenter cs ow = ow"
proof -
  have "reenter c ow = ow" for c using reenter_closed [OF assms, of c] assms(2) by simp
  then show ?thesis by (induction cs) simp_all
qed

lemma fold_reenter_frame:
  assumes "owner_inv ow" "map_of (ownerEntries ow) k = Some e" "deState e = SendingDelivery"
  shows "ownerAttempts (fold reenter cs ow) = ownerAttempts ow \<and>
    (\<not> ownerClosed (fold reenter cs ow) \<longrightarrow> map_of (ownerEntries (fold reenter cs ow)) k = Some e)"
  using assms(1,2)
proof (induction cs arbitrary: ow)
  case (Cons c cs)
  note f = reenter_frame [OF Cons(3) assms(3), of c]
  show ?case
  proof (cases "ownerClosed (reenter c ow)")
    case True
    have "ownerEntries (reenter c ow) = []" using owner_invD(2) [OF reenter_inv [OF Cons(2)] True] .
    with True fold_reenter_closed [OF True this] f show ?thesis by simp
  next
    case False
    with Cons.IH [OF reenter_inv [OF Cons(2)]] f show ?thesis by simp
  qed
qed simp

section \<open>Sending\<close>

lemma attempts_ok_snoc: "allRefused as \<Longrightarrow> length as \<le> 3 \<Longrightarrow> attempts_ok (as @ [a])"
  by (simp add: attempts_ok_def)

text \<open>Adding one attempt for an agent whose attempts so far were refused.\<close>

lemma owner_inv_attempt:
  assumes inv: "owner_inv ow" and a: "saAgentId a = k"
    and refused: "allRefused (attemptsFor k ow)" "length (attemptsFor k ow) \<le> 3"
    and entry: "\<And>e. map_of (ownerEntries ow) k = Some e \<Longrightarrow> entry_ok k (f e) (attemptsFor k ow @ [a])"
    and dom: "\<not> ownerClosed ow \<Longrightarrow> map_of (ownerEntries ow) k \<noteq> None"
  shows "owner_inv (updateEntry k f (ow\<lparr>ownerAttempts := ownerAttempts ow @ [a]\<rparr>))"
proof -
  let ?ow = "updateEntry k f (ow\<lparr>ownerAttempts := ownerAttempts ow @ [a]\<rparr>)"
  have att: "attemptsFor j ?ow = (if j = k then attemptsFor k ow @ [a] else attemptsFor j ow)" for j
    using a by (simp add: attemptsFor_def)
  have "attempts_ok (attemptsFor j ?ow)" for j
    unfolding att using attempts_ok_snoc [OF refused] owner_invD(4) [OF inv] by simp
  with inv entry dom show ?thesis unfolding owner_inv_def att by (auto split: if_splits)
qed

lemma owner_send_unfold:
  fixes host :: HostBehaviour
  assumes "deEvent e = Some ev" "resAgentId (evResult ev) = k" "host (length (ownerAttempts ow)) = (cs, acc)"
  shows "owner_send host k e ow =
    (let ow1 = fold reenter cs (updateEntry k (\<lambda>e. e\<lparr>deState := SendingDelivery\<rparr>) ow);
         ow2 = ow1\<lparr>ownerAttempts := ownerAttempts ow1 @
           [\<lparr>saAgentId = k, saMessage = buildCompletionMessage (evResult ev),
             saTriggerTurn = (resCancellationOrigin (evResult ev) \<noteq> Some OriginUser), saAccepted = acc\<rparr>]\<rparr>;
         ow3 = updateEntry k (\<lambda>x. x\<lparr>deState := PendingDelivery, deRetries := deRetries e + 1\<rparr>) ow2
     in if acc then updateEntry k (\<lambda>e. e\<lparr>deState := AcceptedDelivery\<rparr>) ow2
        else if ownerClosed ow1 then ow2
        else (case js_at RETRY_DELAYS_MS (int (deRetries e)) of
            None \<Rightarrow> (updateEntry k (\<lambda>x. x\<lparr>deExhausted := True\<rparr>) ow3)
                      \<lparr>ownerWarnings := ownerWarnings ow3 @ [exhaustedWarning k]\<rparr>
          | Some d \<Rightarrow> updateEntry k (\<lambda>x. x\<lparr>deTimer := Some d\<rparr>) ow3))"
  unfolding owner_send_def assms option.case Let_def prod.case
  by (cases acc; cases "js_at RETRY_DELAYS_MS (int (deRetries e))") simp_all

lemma updateEntry_same [simp]: "updateEntry k (\<lambda>e. e) ow = ow"
  by (simp add: updateEntry_def case_prod_unfold)

lemma owner_send_inv:
  assumes inv: "owner_inv ow" and e: "map_of (ownerEntries ow) k = Some e" "eligible e"
  shows "owner_inv (owner_send host k e ow)"
proof -
  note ok = owner_invD(3) [OF inv e(1)]
  obtain ev where ev: "deEvent e = Some ev" "resAgentId (evResult ev) = k"
    and p: "allRefused (attemptsFor k ow)" "length (attemptsFor k ow) = deRetries e" "deRetries e \<le> 3"
    using ok e(2) by (auto simp: entry_ok_def eligible_def)
  obtain cs acc where host: "host (length (ownerAttempts ow)) = (cs, acc)" by fastforce
  let ?s = "e\<lparr>deState := SendingDelivery\<rparr>"
  define ow0 where "ow0 = updateEntry k (\<lambda>e. e\<lparr>deState := SendingDelivery\<rparr>) ow"
  have s0: "map_of (ownerEntries ow0) k = Some ?s" "attemptsFor k ow0 = attemptsFor k ow" by (simp_all add: ow0_def e)
  have s_ok: "entry_ok k ?s (attemptsFor k ow)" using ok e(2) p by (simp add: entry_ok_def eligible_def)
  have inv0: "owner_inv ow0"
    unfolding ow0_def by (rule owner_inv_update [OF inv]) (use e s_ok in simp)
  define ow1 where "ow1 = fold reenter cs ow0"
  have inv1: "owner_inv ow1" unfolding ow1_def by (rule fold_reenter_inv [OF inv0])
  have f: "ownerAttempts ow1 = ownerAttempts ow0" "\<not> ownerClosed ow1 \<Longrightarrow> map_of (ownerEntries ow1) k = Some ?s"
    using fold_reenter_frame [OF inv0 s0(1), of cs] by (simp_all add: ow1_def)
  have att: "attemptsFor k ow1 = attemptsFor k ow" using f(1) s0(2) by (simp add: attemptsFor_def)
  have closed: "map_of (ownerEntries ow1) k = None" if "ownerClosed ow1" using owner_invD(2) [OF inv1 that] by simp
  let ?a = "\<lparr>saAgentId = k, saMessage = buildCompletionMessage (evResult ev),
      saTriggerTurn = (resCancellationOrigin (evResult ev) \<noteq> Some OriginUser), saAccepted = acc\<rparr>"
  let ?ow2 = "ow1\<lparr>ownerAttempts := ownerAttempts ow1 @ [?a]\<rparr>"
  note add = owner_inv_attempt [OF inv1, of ?a k, unfolded att, OF _ p(1) _]
  note send = owner_send_unfold [of e ev k host ow, OF ev host, folded ow0_def, folded ow1_def]
  show ?thesis
  proof (cases acc)
    case True
    have "entry_ok k (?s\<lparr>deState := AcceptedDelivery\<rparr>) (attemptsFor k ow @ [?a])"
      using p ev e(2) True by (simp add: entry_ok_def eligible_def)
    then have "owner_inv (updateEntry k (\<lambda>e. e\<lparr>deState := AcceptedDelivery\<rparr>) ?ow2)"
      using p(2,3) f(2) closed by (intro add; cases "ownerClosed ow1") auto
    with True show ?thesis by (simp add: send)
  next
    case refused: False
    show ?thesis
    proof (cases "ownerClosed ow1")
      case True
      have "updateEntry k id ?ow2 = ?ow2" using owner_invD(2) [OF inv1 True] by (simp add: updateEntry_def)
      moreover have "owner_inv (updateEntry k id ?ow2)" using p(2,3) closed True by (intro add) auto
      ultimately show ?thesis using True refused by (simp add: send)
    next
      case False
      define g :: "DeliveryEntry \<Rightarrow> DeliveryEntry" where "g = (case js_at RETRY_DELAYS_MS (int (deRetries e)) of
          None \<Rightarrow> (\<lambda>x. x\<lparr>deState := PendingDelivery, deRetries := deRetries e + 1, deExhausted := True\<rparr>)
        | Some d \<Rightarrow> (\<lambda>x. x\<lparr>deState := PendingDelivery, deRetries := deRetries e + 1, deTimer := Some d\<rparr>))"
      have g_ok: "entry_ok k (g ?s) (attemptsFor k ow @ [?a])"
        using p ev e(2) refused
        by (auto simp: g_def entry_ok_def eligible_def allRefused_def js_at_def RETRY_DELAYS_MS_def numeral_eq_Suc
            less_Suc_eq le_Suc_eq split: option.splits)
      have "owner_inv (updateEntry k g ?ow2)"
        using p(2,3) f(2) [OF False] g_ok by (intro add) auto
      moreover have "ownerEntries (owner_send host k e ow) = ownerEntries (updateEntry k g ?ow2)"
          "ownerAttempts (owner_send host k e ow) = ownerAttempts ?ow2"
          "ownerClosed (owner_send host k e ow) = ownerClosed ?ow2"
        using False refused
        by (auto simp: send Let_def g_def updateEntry_def comp_def case_prod_unfold split: option.split)
      ultimately show ?thesis by (simp add: owner_inv_def attemptsFor_def)
    qed
  qed
qed

section \<open>Every step keeps the invariant\<close>

lemma entry_at:
  assumes "owner_inv ow" "i < length (ownerEntries ow)" "ownerEntries ow ! i = (k, e)"
  shows "map_of (ownerEntries ow) k = Some e"
  using assms owner_invD(1) [OF assms(1)] by (metis map_of_eq_Some_iff nth_mem)

lemma drainLoop_inv: "drainLoop fuel host i ow = Some ow' \<Longrightarrow> owner_inv ow \<Longrightarrow> owner_inv ow'"
proof (induction fuel host i ow rule: drainLoop.induct)
  case (2 fuel host i ow)
  obtain k e where at: "ownerEntries ow ! i = (k, e)" by fastforce
  consider "ownerClosed ow" | "\<not> ownerClosed ow" "i < length (ownerEntries ow)"
    | "\<not> ownerClosed ow" "\<not> i < length (ownerEntries ow)" by blast
  then show ?case
  proof cases
    case 1
    with 2(4,5) show ?thesis by auto
  next
    case opn: 2
    have "owner_inv (owner_send host k e ow)" if "eligible e"
      using owner_send_inv [OF 2(5) entry_at [OF 2(5) opn(2) at] that] .
    with 2(1,2) [OF opn at [symmetric]] 2(4,5) opn at show ?thesis by (auto split: if_splits)
  next
    case opn: 3
    with 2(3) [OF opn] 2(4,5) show ?thesis by (auto split: if_splits)
  qed
qed simp

lemma owner_drain_inv: "owner_drain fuel host ow = Some ow' \<Longrightarrow> owner_inv ow \<Longrightarrow> owner_inv ow'"
  by (auto simp: owner_drain_def split: if_splits dest!: drainLoop_inv)

lemma owner_terminal_inv: "owner_terminal fuel host ev ow = Some ow' \<Longrightarrow> owner_inv ow \<Longrightarrow> owner_inv ow'"
  using recordTerminal_inv [of ow ev]
  by (auto simp: owner_terminal_def case_prod_unfold Let_def split: if_splits dest!: owner_drain_inv)

lemma timer_cleared_inv:
  assumes "owner_inv ow" "map_of (ownerEntries ow) k = Some e" "deTimer e \<noteq> None"
  shows "owner_inv (updateEntry k (\<lambda>e. e\<lparr>deTimer := None\<rparr>) ow)"
  using owner_invD(3) [OF assms(1,2)] assms
  by (intro owner_inv_update) (auto simp: entry_ok_def split: DeliveryState.splits)

lemma owner_timer_inv:
  assumes "owner_timer fuel host k ow = Some ow'" "owner_inv ow" "map_of (ownerEntries ow) k = Some e" "deTimer e \<noteq> None"
  shows "owner_inv ow'"
  using timer_cleared_inv [OF assms(2-4)] assms(1)
  by (auto simp: owner_timer_def Let_def split: if_splits dest!: owner_drain_inv)

lemma newCompletionOwner_inv: "owner_inv (newCompletionOwner s l)"
  by (simp add: owner_inv_def newCompletionOwner_def attemptsFor_def attempts_ok_def allRefused_def)

lemma owner_step_inv: "owner_step ow ow' \<Longrightarrow> owner_inv ow \<Longrightarrow> owner_inv ow'"
  by (induction rule: owner_step.induct)
    (auto intro: owner_enroll_inv owner_terminal_inv owner_close_inv owner_timer_inv)

interpretation owner: state_machine "\<lambda>ow. ow = newCompletionOwner s l" owner_step owner_inv
  by unfold_locales (auto intro: newCompletionOwner_inv owner_step_inv)

section \<open>What a send does\<close>

text \<open>The attempt made for an event, and what it does to the entry it was made for.\<close>

definition sentFor :: "AgentTerminalEvent \<Rightarrow> SendAttempt \<Rightarrow> bool" where
  "sentFor event a \<longleftrightarrow>
     saMessage a = buildCompletionMessage (evResult event) \<and>
     saTriggerTurn a = (resCancellationOrigin (evResult event) \<noteq> Some OriginUser)"

definition settledBy :: "SendAttempt \<Rightarrow> DeliveryEntry \<Rightarrow> bool" where
  "settledBy a e \<longleftrightarrow>
     \<not> eligible e \<and> deState e = (if saAccepted a then AcceptedDelivery else PendingDelivery)"

text \<open>What the calls of the host can do to any other entry: enrol it, and record its event.\<close>

definition calledBack :: "DeliveryEntry option \<Rightarrow> DeliveryEntry option \<Rightarrow> bool" where
  "calledBack x y \<longleftrightarrow> x = y \<or>
     map_option deState x \<in> {None, Some Enrolled} \<and> map_option deState y \<in> {Some Enrolled, Some PendingDelivery}"

lemma calledBack_refl [simp]: "calledBack x x"
  by (simp add: calledBack_def)

lemma calledBack_trans: "calledBack x y \<Longrightarrow> calledBack y z \<Longrightarrow> calledBack x z"
  unfolding calledBack_def by auto

lemma reenter_calledBack:
  assumes "\<not> ownerClosed (reenter c ow)"
  shows "calledBack (map_of (ownerEntries ow) j) (map_of (ownerEntries (reenter c ow)) j)"
proof (cases c)
  case (CallEnroll a)
  then show ?thesis
    by (cases "a \<in> fst ` set (ownerEntries ow)"; cases "ownerClosed ow"; cases "j = a")
      (simp_all add: owner_enroll_def map_of_append_single calledBack_def map_of_eq_None_iff del: map_of_append)
next
  case (CallTerminal ev)
  then show ?thesis by (auto simp: recordTerminal_def Let_def calledBack_def split: option.splits)
next
  case CallClose
  with assms show ?thesis by (simp add: owner_close_def)
qed

lemma reenter_keeps_closed: "ownerClosed ow \<Longrightarrow> ownerClosed (reenter c ow)"
  by (cases c) (simp_all add: owner_enroll_def recordTerminal_def owner_close_def)

lemma fold_reenter_keeps_closed: "ownerClosed ow \<Longrightarrow> ownerClosed (fold reenter cs ow)"
  by (induction cs arbitrary: ow) (simp_all add: reenter_keeps_closed)

lemma fold_reenter_calledBack:
  "\<not> ownerClosed (fold reenter cs ow) \<Longrightarrow>
     calledBack (map_of (ownerEntries ow) j) (map_of (ownerEntries (fold reenter cs ow)) j)"
proof (induction cs arbitrary: ow)
  case (Cons c cs)
  then have "\<not> ownerClosed (reenter c ow)" using fold_reenter_keeps_closed by auto
  from calledBack_trans [OF reenter_calledBack [OF this] Cons.IH] Cons.prems show ?case by simp
qed simp

text \<open>One attempt is made, for the agent of the entry; unless the host closes the owner the entry is
  settled by it, and the other entries are as the host's calls left them.\<close>

lemma send_effect:
  assumes inv: "owner_inv ow" and opn: "\<not> ownerClosed ow"
    and e: "map_of (ownerEntries ow) k = Some e" "eligible e" "deEvent e = Some ev"
  obtains a where "saAgentId a = k" "sentFor ev a" "ownerAttempts (owner_send host k e ow) = ownerAttempts ow @ [a]"
    "\<not> ownerClosed (owner_send host k e ow) \<Longrightarrow>
       \<exists>e'. map_of (ownerEntries (owner_send host k e ow)) k = Some e' \<and> settledBy a e'"
    "\<And>j. \<not> ownerClosed (owner_send host k e ow) \<Longrightarrow> j \<noteq> k \<Longrightarrow>
       calledBack (map_of (ownerEntries ow) j) (map_of (ownerEntries (owner_send host k e ow)) j)"
    "\<And>j. fst (host (length (ownerAttempts ow))) = [] \<Longrightarrow> \<not> ownerClosed (owner_send host k e ow) \<and>
       (j \<noteq> k \<longrightarrow> map_of (ownerEntries (owner_send host k e ow)) j = map_of (ownerEntries ow) j)"
proof -
  have ev: "resAgentId (evResult ev) = k"
    using owner_invD(3) [OF inv e(1)] e(2,3) by (auto simp: entry_ok_def eligible_def)
  obtain cs acc where host: "host (length (ownerAttempts ow)) = (cs, acc)" by fastforce
  define ow0 where "ow0 = updateEntry k (\<lambda>e. e\<lparr>deState := SendingDelivery\<rparr>) ow"
  let ?s = "e\<lparr>deState := SendingDelivery\<rparr>"
  have "entry_ok k ?s (attemptsFor k ow)"
    using owner_invD(3) [OF inv e(1)] e(2) by (auto simp: entry_ok_def eligible_def)
  then have inv0: "owner_inv ow0" unfolding ow0_def by (intro owner_inv_update [OF inv]) (use e in simp)
  define ow1 where "ow1 = fold reenter cs ow0"
  have f: "ownerAttempts ow1 = ownerAttempts ow" "\<not> ownerClosed ow1 \<Longrightarrow> map_of (ownerEntries ow1) k = Some ?s"
    using fold_reenter_frame [OF inv0, of k ?s cs] e(1) by (simp_all add: ow0_def ow1_def)
  have others: "calledBack (map_of (ownerEntries ow) j) (map_of (ownerEntries ow1) j)"
    if "\<not> ownerClosed ow1" "j \<noteq> k" for j
    using fold_reenter_calledBack [of cs ow0 j] that by (simp add: ow1_def ow0_def)
  have silent: "\<not> ownerClosed ow1" "j \<noteq> k \<longrightarrow> map_of (ownerEntries ow1) j = map_of (ownerEntries ow) j"
    if "cs = []" for j using that opn by (simp_all add: ow1_def ow0_def)
  let ?a = "\<lparr>saAgentId = k, saMessage = buildCompletionMessage (evResult ev),
      saTriggerTurn = (resCancellationOrigin (evResult ev) \<noteq> Some OriginUser), saAccepted = acc\<rparr>"
  define g :: "DeliveryEntry \<Rightarrow> DeliveryEntry" where "g = (\<lambda>x. if acc then x\<lparr>deState := AcceptedDelivery\<rparr>
    else if ownerClosed ow1 then x else (case js_at RETRY_DELAYS_MS (int (deRetries e)) of
        None \<Rightarrow> x\<lparr>deState := PendingDelivery, deRetries := deRetries e + 1, deExhausted := True\<rparr>
      | Some d \<Rightarrow> x\<lparr>deState := PendingDelivery, deRetries := deRetries e + 1, deTimer := Some d\<rparr>))"
  have send: "ownerAttempts (owner_send host k e ow) = ownerAttempts ow @ [?a]"
      "ownerClosed (owner_send host k e ow) = ownerClosed ow1"
      "ownerEntries (owner_send host k e ow) = ownerEntries (updateEntry k g ow1)"
    unfolding owner_send_unfold [of e ev k host ow, OF e(3) ev host, folded ow0_def, folded ow1_def] Let_def
    by (cases acc; cases "ownerClosed ow1"; cases "js_at RETRY_DELAYS_MS (int (deRetries e))";
        simp add: f(1) g_def; simp add: updateEntry_def comp_def case_prod_unfold if_distrib cong: if_cong)+
  have "settledBy ?a (g ?s)" if "\<not> ownerClosed ow1"
    using that by (auto simp: g_def settledBy_def eligible_def split: option.split)
  then show ?thesis
    using f(2) others silent host
    by (intro that [of ?a]) (simp_all add: send sentFor_def)
qed

text \<open>Each agent is tried at most once since \<open>ow0\<close>, and an agent that was tried is settled.\<close>

definition triedOnce :: "CompletionOwner \<Rightarrow> CompletionOwner \<Rightarrow> bool" where
  "triedOnce ow0 ow \<longleftrightarrow> (\<forall>j. attemptsFor j ow = attemptsFor j ow0 \<or>
     (\<exists>a. attemptsFor j ow = attemptsFor j ow0 @ [a] \<and> (\<forall>e. map_of (ownerEntries ow) j = Some e \<longrightarrow> settledBy a e)))"

lemma triedOnceD:
  assumes "triedOnce ow0 ow" "attemptsFor j ow \<noteq> attemptsFor j ow0"
  obtains a where "attemptsFor j ow = attemptsFor j ow0 @ [a]" "\<And>e. map_of (ownerEntries ow) j = Some e \<Longrightarrow> settledBy a e"
  using assms unfolding triedOnce_def by blast

lemma settledBy_calledBack: "settledBy a e \<Longrightarrow> calledBack (Some e) y \<Longrightarrow> y = Some e"
  by (auto simp: settledBy_def calledBack_def split: if_splits)

lemma triedOnce_send:
  assumes inv: "owner_inv ow" and opn: "\<not> ownerClosed ow"
    and e: "map_of (ownerEntries ow) k = Some e" "eligible e" "deEvent e = Some ev" and tried: "triedOnce ow0 ow"
  shows "triedOnce ow0 (owner_send host k e ow)"
proof -
  let ?ow = "owner_send host k e ow"
  obtain a where a: "saAgentId a = k" "ownerAttempts ?ow = ownerAttempts ow @ [a]"
      "\<not> ownerClosed ?ow \<Longrightarrow> \<exists>e'. map_of (ownerEntries ?ow) k = Some e' \<and> settledBy a e'"
      "\<And>j. \<not> ownerClosed ?ow \<Longrightarrow> j \<noteq> k \<Longrightarrow> calledBack (map_of (ownerEntries ow) j) (map_of (ownerEntries ?ow) j)"
    by (rule send_effect [OF inv opn e, of host]) blast
  have att: "attemptsFor j ?ow = (if j = k then attemptsFor k ow @ [a] else attemptsFor j ow)" for j
    using a(1,2) by (simp add: attemptsFor_def)
  have closed: "map_of (ownerEntries ?ow) j = None" if "ownerClosed ?ow" for j
    using owner_invD(2) [OF owner_send_inv [OF inv e(1,2)] that] by simp
  have known: "map_of (ownerEntries ow) j \<noteq> None" if "attemptsFor j ow \<noteq> []" for j
    using that owner_invD(5) [OF inv opn, of j] by auto
  have "attemptsFor j ?ow = attemptsFor j ow0 \<or>
     (\<exists>b. attemptsFor j ?ow = attemptsFor j ow0 @ [b] \<and> (\<forall>x. map_of (ownerEntries ?ow) j = Some x \<longrightarrow> settledBy b x))" for j
  proof (cases "j = k")
    case True
    have "attemptsFor k ow = attemptsFor k ow0"
      using triedOnceD [OF tried, of k] e(1,2) by (metis settledBy_def)
    with True a(3) closed [of k] show ?thesis by (cases "ownerClosed ?ow") (auto simp: att)
  next
    case other: False
    show ?thesis
    proof (cases "attemptsFor j ow = attemptsFor j ow0")
      case False
      then obtain b where b: "attemptsFor j ow = attemptsFor j ow0 @ [b]"
          "\<And>x. map_of (ownerEntries ow) j = Some x \<Longrightarrow> settledBy b x" by (rule triedOnceD [OF tried]) blast
      then obtain x where x: "map_of (ownerEntries ow) j = Some x" "settledBy b x" using known [of j] by fastforce
      then have "map_of (ownerEntries ?ow) j = Some x" if "\<not> ownerClosed ?ow"
        using a(4) [OF that other] settledBy_calledBack by metis
      with b(1) x(2) other closed [of j] show ?thesis by (cases "ownerClosed ?ow") (auto simp: att)
    qed (simp add: att other)
  qed
  then show ?thesis by (simp add: triedOnce_def)
qed

section \<open>The drain returns\<close>

text \<open>
  A host that stops calling back after its first \<open>N\<close> calls lets the drain end. The loop descends
  lexicographically: in the calls that may still call back, in the eligible entries, in
  whether an eligible entry lies ahead of the iteration, and in the entries ahead of it.
\<close>

definition eligibleKeys :: "CompletionOwner \<Rightarrow> string set" where
  "eligibleKeys ow = {k. \<exists>e. map_of (ownerEntries ow) k = Some e \<and> eligible e}"

definition noneAhead :: "nat \<Rightarrow> CompletionOwner \<Rightarrow> bool" where
  "noneAhead i ow \<longleftrightarrow> (\<forall>j. i \<le> j \<and> j < length (ownerEntries ow) \<longrightarrow> \<not> eligible (snd (ownerEntries ow ! j)))"

definition drainMeasures :: "nat \<Rightarrow> ((nat \<times> CompletionOwner) \<times> (nat \<times> CompletionOwner)) set" where
  "drainMeasures N = measures
     [\<lambda>(i, ow). N - length (ownerAttempts ow), \<lambda>(i, ow). card (eligibleKeys ow),
      \<lambda>(i, ow). if noneAhead i ow then 1 else 0, \<lambda>(i, ow). length (ownerEntries ow) - i]"

lemma wf_drainMeasures: "wf (drainMeasures N)"
  by (simp add: drainMeasures_def)

lemma finite_eligibleKeys: "finite (eligibleKeys ow)"
  by (rule finite_subset [OF _ finite_dom_map_of [of "ownerEntries ow"]]) (auto simp: eligibleKeys_def)

lemma send_descends:
  assumes "owner_inv ow" "\<not> ownerClosed ow" "map_of (ownerEntries ow) k = Some e" "eligible e" "deEvent e = Some ev"
    and quiet: "\<And>n. N \<le> n \<Longrightarrow> fst (host n) = []"
  shows "((i', owner_send host k e ow), (i, ow)) \<in> drainMeasures N"
proof -
  let ?ow = "owner_send host k e ow"
  obtain a where a: "ownerAttempts ?ow = ownerAttempts ow @ [a]"
      "\<not> ownerClosed ?ow \<Longrightarrow> \<exists>e'. map_of (ownerEntries ?ow) k = Some e' \<and> settledBy a e'"
      "\<And>j. fst (host (length (ownerAttempts ow))) = [] \<Longrightarrow> \<not> ownerClosed ?ow \<and>
         (j \<noteq> k \<longrightarrow> map_of (ownerEntries ?ow) j = map_of (ownerEntries ow) j)"
    by (rule send_effect [OF assms(1-5), of host]) blast
  show ?thesis
  proof (cases "length (ownerAttempts ow) < N")
    case True
    then have "N - Suc (length (ownerAttempts ow)) < N - length (ownerAttempts ow)" by simp
    with a(1) show ?thesis by (simp add: drainMeasures_def)
  next
    case False
    with quiet have "fst (host (length (ownerAttempts ow))) = []" by simp
    note q = a(3) [OF this]
    obtain e' where e': "map_of (ownerEntries ?ow) k = Some e'" "\<not> eligible e'"
      using a(2) q by (auto simp: settledBy_def)
    then have "j \<in> eligibleKeys ?ow \<longleftrightarrow> j \<in> eligibleKeys ow - {k}" for j
      using q [of j] by (cases "j = k") (simp_all add: eligibleKeys_def)
    then have "eligibleKeys ?ow = eligibleKeys ow - {k}" by blast
    moreover have "k \<in> eligibleKeys ow" using assms(3,4) by (simp add: eligibleKeys_def)
    ultimately have "card (eligibleKeys ?ow) < card (eligibleKeys ow)"
      using card_Diff1_less [OF finite_eligibleKeys] by simp
    with a(1) False show ?thesis by (simp add: drainMeasures_def)
  qed
qed

lemma drainLoop_returns:
  assumes quiet: "\<And>n. N \<le> n \<Longrightarrow> fst (host n) = []"
    and keep: "\<And>ow k e ev. owner_inv ow \<Longrightarrow> \<not> ownerClosed ow \<Longrightarrow> map_of (ownerEntries ow) k = Some e \<Longrightarrow> eligible e \<Longrightarrow>
      deEvent e = Some ev \<Longrightarrow> P ow \<Longrightarrow> P (owner_send host k e ow)"
  shows "owner_inv ow \<Longrightarrow> P ow \<Longrightarrow> \<exists>f ow'. (\<forall>fuel \<ge> f. drainLoop fuel host i ow = Some (ow'\<lparr>ownerDraining := False\<rparr>)) \<and>
    owner_inv ow' \<and> P ow' \<and> eligibleKeys ow' = {}"
proof (induction "(i, ow)" arbitrary: i ow rule: wf_induct_rule [OF wf_drainMeasures [of N]])
  case (1 i ow)
  have next_step: ?case if "((i', ow'), (i, ow)) \<in> drainMeasures N" "owner_inv ow'" "P ow'"
    "\<And>fuel. drainLoop (Suc fuel) host i ow = drainLoop fuel host i' ow'" for i' ow'
  proof -
    from 1(1) [OF that(1-3)] obtain f ow'' where f:
      "\<forall>fuel \<ge> f. drainLoop fuel host i' ow' = Some (ow''\<lparr>ownerDraining := False\<rparr>)"
      "owner_inv ow'' \<and> P ow'' \<and> eligibleKeys ow'' = {}" by blast
    have "\<forall>fuel \<ge> Suc f. drainLoop fuel host i ow = Some (ow''\<lparr>ownerDraining := False\<rparr>)"
      using f(1) that(4) by (metis Suc_le_D Suc_le_mono)
    with f(2) show ?thesis by blast
  qed
  have stop: ?case if "eligibleKeys ow = {}" "\<And>fuel. drainLoop (Suc fuel) host i ow = Some (ow\<lparr>ownerDraining := False\<rparr>)"
    using that 1(2,3) by (metis Suc_le_D)
  have keys: "k \<in> eligibleKeys ow \<longleftrightarrow> (\<exists>j < length (ownerEntries ow). fst (ownerEntries ow ! j) = k \<and> eligible (snd (ownerEntries ow ! j)))" for k
    using owner_invD(1) [OF 1(2)] unfolding eligibleKeys_def mem_Collect_eq map_of_eq_Some_iff [OF owner_invD(1) [OF 1(2)]]
    by (force simp: in_set_conv_nth)
  obtain k e where at: "ownerEntries ow ! i = (k, e)" by fastforce
  consider "ownerClosed ow" | "\<not> ownerClosed ow" "i < length (ownerEntries ow)"
    | "\<not> ownerClosed ow" "\<not> i < length (ownerEntries ow)" by blast
  then show ?case
  proof cases
    case closed: 1
    then show ?thesis using owner_invD(2) [OF 1(2) closed] by (intro stop) (simp_all add: eligibleKeys_def)
  next
    case opn: 2
    note e = entry_at [OF 1(2) opn(2) at]
    show ?thesis
    proof (cases "eligible e")
      case True
      then obtain ev where ev: "deEvent e = Some ev"
        using owner_invD(3) [OF 1(2) e] by (auto simp: entry_ok_def eligible_def)
      show ?thesis
        by (rule next_step [of "i + 1" "owner_send host k e ow"])
          (use send_descends [OF 1(2) opn(1) e True ev quiet] owner_send_inv [OF 1(2) e True] keep [OF 1(2) opn(1) e True ev 1(3)]
             opn at True in simp_all)
    next
      case False
      then have "noneAhead (i + 1) ow = noneAhead i ow"
        using at by (auto simp: noneAhead_def) (metis Suc_leI le_neq_implies_less snd_conv)
      then show ?thesis using opn at False 1(2,3) by (intro next_step [of "i + 1" ow]) (auto simp: drainMeasures_def)
    qed
  next
    case opn: 3
    have some: "(\<exists>x \<in> snd ` set (ownerEntries ow). eligible x) \<longleftrightarrow> \<not> noneAhead 0 ow" "noneAhead i ow"
      using opn by (force simp: noneAhead_def in_set_conv_nth)+
    have none: "noneAhead 0 ow \<longleftrightarrow> eligibleKeys ow = {}" using keys by (auto simp: noneAhead_def)
    show ?thesis
    proof (cases "noneAhead 0 ow")
      case True
      with none some opn show ?thesis by (intro stop) simp_all
    next
      case False
      with some opn 1(2,3) show ?thesis by (intro next_step [of 0 ow]) (simp_all add: drainMeasures_def)
    qed
  qed
qed

section \<open>Between the calls of an owner\<close>

text \<open>When no call of the owner is running, no entry is being sent or left eligible.\<close>

definition noneSending :: "CompletionOwner \<Rightarrow> bool" where
  "noneSending ow \<longleftrightarrow> (\<forall>k e. map_of (ownerEntries ow) k = Some e \<longrightarrow> deState e \<noteq> SendingDelivery)"

definition owner_idle :: "CompletionOwner \<Rightarrow> bool" where
  "owner_idle ow \<longleftrightarrow> owner_inv ow \<and> \<not> ownerDraining ow \<and> eligibleKeys ow = {} \<and> noneSending ow"

lemma noneSending_frame [simp]:
  "noneSending (ow\<lparr>ownerDraining := b\<rparr>) = noneSending ow" "eligibleKeys (ow\<lparr>ownerDraining := b\<rparr>) = eligibleKeys ow"
  by (simp_all add: noneSending_def eligibleKeys_def)

lemma noneSending_update:
  "noneSending ow \<Longrightarrow> (\<And>e. map_of (ownerEntries ow) k = Some e \<Longrightarrow> deState (f e) \<noteq> SendingDelivery) \<Longrightarrow>
     noneSending (updateEntry k f ow)"
  by (auto simp: noneSending_def)

lemma closed_owner_idle:
  assumes "owner_inv ow" "ownerClosed ow"
  shows "eligibleKeys ow = {}" "noneSending ow"
  using owner_invD(2) [OF assms] by (simp_all add: eligibleKeys_def noneSending_def)

lemma noneSending_send:
  assumes "owner_inv ow" "\<not> ownerClosed ow" "map_of (ownerEntries ow) k = Some e" "eligible e" "noneSending ow"
  shows "noneSending (owner_send host k e ow)"
proof (cases "ownerClosed (owner_send host k e ow)")
  case True
  with closed_owner_idle(2) [OF owner_send_inv] assms(1,3,4) show ?thesis by blast
next
  case False
  obtain ev where ev: "deEvent e = Some ev" using owner_invD(3) [OF assms(1,3)] assms(4) by (auto simp: entry_ok_def eligible_def)
  obtain a where a: "\<exists>e'. map_of (ownerEntries (owner_send host k e ow)) k = Some e' \<and> settledBy a e'"
      "\<And>j. j \<noteq> k \<Longrightarrow> calledBack (map_of (ownerEntries ow) j) (map_of (ownerEntries (owner_send host k e ow)) j)"
    by (rule send_effect [OF assms(1-4) ev, of host]) (use False in blast)
  have "deState x \<noteq> SendingDelivery" if "map_of (ownerEntries (owner_send host k e ow)) j = Some x" for j x
  proof (cases "j = k")
    case True
    with a(1) that show ?thesis by (auto simp: settledBy_def split: if_splits)
  next
    case False
    with a(2) [OF False] that assms(5) show ?thesis by (auto simp: calledBack_def noneSending_def)
  qed
  then show ?thesis by (simp add: noneSending_def)
qed

lemma drainLoop_idle:
  "drainLoop fuel host i ow = Some ow' \<Longrightarrow> owner_inv ow \<Longrightarrow> noneSending ow \<Longrightarrow> owner_idle ow'"
proof (induction fuel host i ow rule: drainLoop.induct)
  case (2 fuel host i ow)
  obtain k e where at: "ownerEntries ow ! i = (k, e)" by fastforce
  consider "ownerClosed ow" | "\<not> ownerClosed ow" "i < length (ownerEntries ow)"
    | "\<not> ownerClosed ow" "\<not> i < length (ownerEntries ow)" by blast
  then show ?case
  proof cases
    case 1
    with 2(4-6) closed_owner_idle [OF 2(5) 1] show ?thesis by (auto simp: owner_idle_def)
  next
    case opn: 2
    note e = entry_at [OF 2(5) opn(2) at]
    have "owner_inv (owner_send host k e ow)" "noneSending (owner_send host k e ow)" if "eligible e"
      using owner_send_inv [OF 2(5) e that] noneSending_send [OF 2(5) opn(1) e that 2(6)] by simp_all
    with 2(1,2) [OF opn at [symmetric]] 2(4-6) opn at show ?thesis by (auto split: if_splits)
  next
    case opn: 3
    have "eligibleKeys ow = {}" if "\<not> (\<exists>x \<in> snd ` set (ownerEntries ow). eligible x)"
      using that by (force simp: eligibleKeys_def dest: map_of_SomeD)
    with 2(3) [OF opn] 2(4-6) opn show ?thesis by (auto simp: owner_idle_def split: if_splits)
  qed
qed simp

lemma owner_drain_idle:
  "owner_drain fuel host ow = Some ow' \<Longrightarrow> owner_inv ow \<Longrightarrow> noneSending ow \<Longrightarrow> \<not> ownerDraining ow \<Longrightarrow> owner_idle ow'"
  by (auto simp: owner_drain_def owner_idle_def closed_owner_idle split: if_splits dest!: drainLoop_idle)

lemma recordTerminal_cases:
  obtains "recordTerminal ev ow = (ow, False)"
  | e where "map_of (ownerEntries ow) (resAgentId (evResult ev)) = Some e" "deState e = Enrolled" "\<not> ownerClosed ow"
      "recordTerminal ev ow = (updateEntry (resAgentId (evResult ev)) (\<lambda>e. e\<lparr>deEvent := Some ev, deState := PendingDelivery\<rparr>) ow, True)"
  by (cases "recordTerminal ev ow = (ow, False)") (auto simp: recordTerminal_def Let_def split: option.splits if_splits)

lemma owner_step_idle: "owner_step ow ow' \<Longrightarrow> owner_idle ow \<Longrightarrow> owner_idle ow'"
proof (induction rule: owner_step.induct)
  case (owner_enrolls ow agentId)
  then show ?case
    using owner_enroll_inv [of ow agentId]
    by (auto simp: owner_idle_def owner_enroll_def eligibleKeys_def noneSending_def eligible_def map_of_append_single
        simp del: map_of_append split: if_splits)
next
  case (owner_terminates fuel host event ow ow')
  show ?case
  proof (cases rule: recordTerminal_cases [of event ow])
    case 1
    with owner_terminates show ?thesis by (simp add: owner_terminal_def)
  next
    case (2 e)
    with recordTerminal_inv [of ow event] owner_terminates show ?thesis
      by (intro owner_drain_idle [of fuel host "fst (recordTerminal event ow)"])
        (auto simp: owner_terminal_def owner_idle_def intro: noneSending_update)
  qed
next
  case (owner_closes ow)
  then show ?case by (simp add: owner_idle_def owner_close_inv) (simp add: owner_close_def eligibleKeys_def noneSending_def)
next
  case (owner_timer_fires ow k e fuel host ow')
  let ?ow = "updateEntry k (\<lambda>e. e\<lparr>deTimer := None\<rparr>) ow"
  have "noneSending ?ow" using owner_timer_fires(4) by (auto simp: owner_idle_def noneSending_def intro: noneSending_update)
  moreover have "owner_inv ?ow" using timer_cleared_inv owner_timer_fires by (simp add: owner_idle_def)
  ultimately show ?case
    using owner_timer_fires(3,4) closed_owner_idle [of ?ow]
    by (auto simp: owner_timer_def Let_def owner_idle_def [of ow] owner_idle_def [of ?ow] split: if_splits
        intro: owner_drain_idle)
qed

lemma newCompletionOwner_idle: "owner_idle (newCompletionOwner s l)"
  using newCompletionOwner_inv [of s l]
  by (simp add: owner_idle_def) (simp add: newCompletionOwner_def eligibleKeys_def noneSending_def)

interpretation idle_owner: state_machine "\<lambda>ow. ow = newCompletionOwner s l" owner_step owner_idle
  by unfold_locales (auto intro: newCompletionOwner_idle owner_step_idle)

section \<open>A drain with one eligible entry\<close>

text \<open>
  The outcome of a call that makes the entry of one agent eligible: one attempt for this agent,
  at most one for any other, no eligible entry left, and every agent whose event is known tried.
\<close>

definition deliveredOnce :: "string \<Rightarrow> AgentTerminalEvent \<Rightarrow> CompletionOwner \<Rightarrow> CompletionOwner \<Rightarrow> bool" where
  "deliveredOnce k event ow ow' \<longleftrightarrow>
     \<not> ownerDraining ow' \<and>
     (\<exists>a. attemptsFor k ow' = attemptsFor k ow @ [a] \<and> sentFor event a \<and>
        (\<not> ownerClosed ow' \<longrightarrow> map_option deState (map_of (ownerEntries ow') k) =
           Some (if saAccepted a then AcceptedDelivery else PendingDelivery))) \<and>
     (\<forall>j. length (attemptsFor j ow') \<le> length (attemptsFor j ow) + 1) \<and>
     (\<forall>j e. map_of (ownerEntries ow') j = Some e \<longrightarrow> \<not> eligible e \<and> (deState e \<noteq> Enrolled \<longrightarrow> attemptsFor j ow' \<noteq> []))"

lemma idle_entry_tried:
  assumes "owner_inv ow" "noneSending ow" "map_of (ownerEntries ow) j = Some e" "\<not> eligible e" "deState e \<noteq> Enrolled"
  shows "attemptsFor j ow \<noteq> []"
  using owner_invD(3) [OF assms(1,3)] assms
  by (cases "deState e") (auto simp: entry_ok_def eligible_def noneSending_def)

lemma deliveredOnce_frame [simp]: "deliveredOnce k event (updateEntry j f ow) = deliveredOnce k event ow"
  by (simp add: deliveredOnce_def fun_eq_iff)

lemma eligibleKeys_update:
  "map_of (ownerEntries ow) k = Some e \<Longrightarrow> eligible (f e) \<Longrightarrow> eligibleKeys (updateEntry k f ow) = insert k (eligibleKeys ow)"
  by (auto simp: eligibleKeys_def split: if_splits)

lemma drain_delivers:
  assumes ow: "owner_inv ow" "noneSending ow" "\<not> ownerClosed ow" "\<not> ownerDraining ow"
    and k: "eligibleKeys ow = {k}" "map_of (ownerEntries ow) k = Some e" "deEvent e = Some event"
    and stops: "\<forall>n \<ge> N. fst (host n) = []"
  shows "\<exists>f ow'. (\<forall>fuel \<ge> f. owner_drain fuel host ow = Some ow') \<and> deliveredOnce k event ow ow'"
proof -
  define P where "P x \<longleftrightarrow> triedOnce ow x \<and> noneSending x \<and>
    (if attemptsFor k x = attemptsFor k ow
     then \<not> ownerClosed x \<and> eligibleKeys x = {k} \<and> map_of (ownerEntries x) k = Some e
     else \<exists>a. attemptsFor k x = attemptsFor k ow @ [a] \<and> sentFor event a)" for x
  have keep: "P (owner_send host j x w)"
    if w: "owner_inv w" "\<not> ownerClosed w" "map_of (ownerEntries w) j = Some x" "eligible x" "deEvent x = Some ev" "P w" for w j x ev
  proof -
    obtain a where a: "saAgentId a = j" "sentFor ev a" "ownerAttempts (owner_send host j x w) = ownerAttempts w @ [a]"
      by (rule send_effect [OF w(1-5), of host]) blast
    have j: "j \<in> eligibleKeys w" using w(3,4) by (auto simp: eligibleKeys_def)
    have "\<exists>b. attemptsFor k (owner_send host j x w) = attemptsFor k ow @ [b] \<and> sentFor event b"
    proof (cases "attemptsFor k w = attemptsFor k ow")
      case True
      with w(3,5,6) j k(3) have "j = k" "ev = event" by (auto simp: P_def)
      with True a show ?thesis by (auto simp: attemptsFor_def)
    next
      case False
      then have "j \<noteq> k" using w(3,4,6) triedOnceD [of ow w k] by (metis P_def settledBy_def)
      with False a w(6) show ?thesis by (auto simp: P_def attemptsFor_def)
    qed
    then show ?thesis
      using triedOnce_send [OF w(1-5), of ow] noneSending_send [OF w(1-4)] w(6) by (auto simp: P_def)
  qed
  have "owner_inv (ow\<lparr>ownerDraining := True\<rparr>)" "P (ow\<lparr>ownerDraining := True\<rparr>)"
    using ow k by (simp_all add: P_def triedOnce_def)
  then have "\<exists>f ow'. (\<forall>fuel \<ge> f. drainLoop fuel host 0 (ow\<lparr>ownerDraining := True\<rparr>) = Some (ow'\<lparr>ownerDraining := False\<rparr>)) \<and>
      owner_inv ow' \<and> P ow' \<and> eligibleKeys ow' = {}"
  proof (rule drainLoop_returns [of N host P, rotated 2])
    show "fst (host n) = []" if "N \<le> n" for n using stops that by blast
    show "P (owner_send host j x w)"
      if "owner_inv w" "\<not> ownerClosed w" "map_of (ownerEntries w) j = Some x" "eligible x" "deEvent x = Some ev" "P w" for w j x ev
      using that by (rule keep)
  qed
  then obtain f ow' where f:
    "\<And>fuel. f \<le> fuel \<Longrightarrow> drainLoop fuel host 0 (ow\<lparr>ownerDraining := True\<rparr>) = Some (ow'\<lparr>ownerDraining := False\<rparr>)"
    "owner_inv ow'" "P ow'" "eligibleKeys ow' = {}" by blast
  obtain a where a: "attemptsFor k ow' = attemptsFor k ow @ [a]" "sentFor event a"
    using f(3,4) by (auto simp: P_def split: if_splits)
  have settled: "map_option deState (map_of (ownerEntries ow') k) = Some (if saAccepted a then AcceptedDelivery else PendingDelivery)"
    if "\<not> ownerClosed ow'"
  proof -
    have "triedOnce ow ow'" "attemptsFor k ow' \<noteq> attemptsFor k ow" using f(3) a(1) by (simp_all add: P_def)
    then obtain b where b: "attemptsFor k ow' = attemptsFor k ow @ [b]"
        "\<And>x. map_of (ownerEntries ow') k = Some x \<Longrightarrow> settledBy b x" by (rule triedOnceD) blast
    have "map_of (ownerEntries ow') k \<noteq> None" using owner_invD(5) [OF f(2) that, of k] a(1) by auto
    with a(1) b show ?thesis by (auto simp: settledBy_def)
  qed
  have once: "length (attemptsFor j ow') \<le> length (attemptsFor j ow) + 1" for j
    using f(3) unfolding P_def triedOnce_def by (elim conjE allE [of _ j]) auto
  have rest: "\<not> eligible x \<and> (deState x \<noteq> Enrolled \<longrightarrow> attemptsFor j ow' \<noteq> [])"
    if "map_of (ownerEntries ow') j = Some x" for j x
    using idle_entry_tried [OF f(2) _ that] f(3,4) that by (auto simp: P_def eligibleKeys_def)
  have "deliveredOnce k event ow (ow'\<lparr>ownerDraining := False\<rparr>)"
    using a settled once rest by (simp add: deliveredOnce_def)
  moreover have "owner_drain fuel host ow = Some (ow'\<lparr>ownerDraining := False\<rparr>)" if "f \<le> fuel" for fuel
    using f(1) [OF that] ow(3,4) by (simp add: owner_drain_def)
  ultimately show ?thesis by blast
qed

section \<open>Closed owners\<close>

lemma owner_step_closed:
  "owner_step ow ow' \<Longrightarrow> ownerClosed ow \<Longrightarrow> ownerClosed ow' \<and> ownerAttempts ow' = ownerAttempts ow"
  by (induction rule: owner_step.induct)
    (auto simp: owner_enroll_def owner_close_def owner_terminal_def recordTerminal_def owner_timer_def Let_def)

lemma owner_steps_closed:
  "owner_step\<^sup>*\<^sup>* ow ow' \<Longrightarrow> ownerClosed ow \<Longrightarrow> ownerClosed ow' \<and> ownerAttempts ow' = ownerAttempts ow"
  by (induction rule: rtranclp_induct) (auto dest: owner_step_closed)

section \<open>Escaping\<close>

fun xmlText :: "char \<Rightarrow> string" where
  "xmlText c = (if c = CHR ''&'' then ''&amp;'' else if c = CHR ''<'' then ''&lt;''
     else if c = CHR ''>'' then ''&gt;'' else [c])"

fun xmlAttribute :: "char \<Rightarrow> string" where
  "xmlAttribute c = (if c = CHR 0x22 then ''&quot;'' else if c = CHR 0x27 then ''&apos;'' else xmlText c)"

text \<open>The successive replacements are one pass that replaces each character.\<close>

lemma replaceAllChar_simps [simp]:
  "replaceAllChar c r [] = []" "replaceAllChar c r (x # xs) = (if x = c then r else [x]) @ replaceAllChar c r xs"
  "replaceAllChar c r (xs @ ys) = replaceAllChar c r xs @ replaceAllChar c r ys"
  by (simp_all add: replaceAllChar_def)

lemma escapeXmlText_one_pass: "escapeXmlText s = concat (map xmlText s)"
  by (induction s) (auto simp: escapeXmlText_def)

lemma escapeXmlAttribute_one_pass: "escapeXmlAttribute s = concat (map xmlAttribute s)"
  by (induction s) (auto simp: escapeXmlAttribute_def)

lemma xmlText_prefix_free: "xmlText a @ s = xmlText b @ t \<longleftrightarrow> a = b \<and> s = t"
  by auto

lemma xmlAttribute_prefix_free: "xmlAttribute a @ s = xmlAttribute b @ t \<longleftrightarrow> a = b \<and> s = t"
  by auto

lemma xmlText_nonempty: "xmlText c \<noteq> []"
  by simp

lemma xmlAttribute_nonempty: "xmlAttribute c \<noteq> []"
  by simp

lemma concat_map_injective:
  assumes "\<And>a b s t. f a @ s = f b @ t \<longleftrightarrow> a = b \<and> s = t" "\<And>a. f a \<noteq> []"
  shows "concat (map f s) = concat (map f t) \<longleftrightarrow> s = t"
proof (induction s arbitrary: t)
  case Nil
  show ?case using assms(2) by (cases t) auto
next
  case (Cons a s)
  show ?case using assms Cons.IH by (cases t) auto
qed

lemma count_list_concat: "count_list (concat xss) c = sum_list (map (\<lambda>xs. count_list xs c) xss)"
  by (induction xss) auto

lemma no_tag_chars:
  "c \<in> {CHR ''<'', CHR ''>''} \<Longrightarrow> c \<notin> set (escapeXmlText s)"
  "c \<in> {CHR ''<'', CHR ''>'', CHR 0x22, CHR 0x27} \<Longrightarrow> c \<notin> set (escapeXmlAttribute s)"
  by (auto simp: escapeXmlText_one_pass escapeXmlAttribute_one_pass split: if_splits)

end
