(* ===== verification/Completion_Properties.thy ===== *)
theory Completion_Properties
  imports Completion_Owner_Proofs
begin

text \<open>
  What the parent session can rely on when sub-agents report back: a result is delivered at
  most once and tried at most four times, a closed owner is silent, the end of an agent or a
  retry timer leads to one attempt and the drain returns, the message fits its limit and keeps the transcript reference, and a result
  cannot forge the tags it is wrapped in.
\<close>

section \<open>Shared facts\<close>

lemma js_slice0_prefix: "\<exists>q. s = js_slice0 n s @ q"
  by (metis js_slice0_def append_take_drop_id)

lemma count_js_join: "c \<notin> set sep \<Longrightarrow> count_list (js_join sep ps) c = sum_list (map (\<lambda>p. count_list p c) ps)"
  by (induction sep ps rule: js_join.induct) simp_all

text \<open>The block of one result, and the markup characters in it.\<close>

definition collectedPayload :: "AgentResult \<Rightarrow> string" where
  "collectedPayload r = nullish (nullish_option (resResponseText r) (resError r)) []"

definition collectedBlock :: "AgentResult \<Rightarrow> string" where
  "collectedBlock r = ''<subagent name='' @ [CHR 0x22] @ escapeXmlAttribute (resAgentName r) @ [CHR 0x22] @ ''>'' @ [CHR 0x0A] @
     escapeXmlText (collectedPayload r) @ [CHR 0x0A] @ ''</subagent>''"

lemma formatResultCollectorOutput_blocks:
  "formatResultCollectorOutput results = js_join [CHR 0x0A, CHR 0x0A] (map collectedBlock results)"
  by (simp only: formatResultCollectorOutput_def collectedBlock_def [abs_def] collectedPayload_def Let_def)

lemma count_quote_text: "count_list (escapeXmlText s) CHR 0x22 = count_list s CHR 0x22"
  by (induction s) (auto simp: escapeXmlText_one_pass)

lemma collectedBlock_counts:
  "count_list (collectedBlock r) CHR ''<'' = 2" "count_list (collectedBlock r) CHR ''>'' = 2"
  "count_list (collectedBlock r) CHR 0x22 = 2 + count_list (collectedPayload r) CHR 0x22"
  by (simp_all add: collectedBlock_def count_quote_text no_tag_chars count_notin)

text \<open>An owner with one enrolled agent, and the event that ends it.\<close>

definition sampleResult :: AgentResult where
  "sampleResult =
     \<lparr>resAgentId = ''a1'', resAgentName = ''scout'', resSessionId = Some ''c'', resSessionPath = Some ''/t'',
      resStatus = StatusCompleted, resResponseText = Some ''<done>'', resError = None,
      resUsage = \<lparr>usageInput = Fin 1, usageOutput = Fin 1, usageCacheRead = Fin 0, usageCacheWrite = Fin 0,
        usageCost = Fin 0, usageContextTokens = Fin 1, usageTurns = Fin 1\<rparr>,
      resCancellationOrigin = None\<rparr>"

definition sampleEvent :: AgentTerminalEvent where
  "sampleEvent = \<lparr>evResult = sampleResult,
     evParent = Some \<lparr>parentSessionId = ''s'', parentLifetime = Some ''l'', parentToolCallId = None, parentSource = None\<rparr>\<rparr>"

definition sampleOwner :: CompletionOwner where
  "sampleOwner = owner_enroll ''a1'' (newCompletionOwner ''s'' ''l'')"

definition sampleRefused :: CompletionOwner where
  "sampleRefused = the (owner_terminal 9 (\<lambda>n. ([], False)) sampleEvent sampleOwner)"

lemma sampleOwner_reachable: "owner_step\<^sup>*\<^sup>* (newCompletionOwner ''s'' ''l'') sampleOwner"
  by (auto simp: sampleOwner_def intro: owner_enrolls)

lemma sampleRefused_reachable: "owner_step\<^sup>*\<^sup>* (newCompletionOwner ''s'' ''l'') sampleRefused"
proof -
  have "owner_terminal 9 (\<lambda>n. ([], False)) sampleEvent sampleOwner \<noteq> None" by code_simp
  then have "owner_step sampleOwner sampleRefused" unfolding sampleRefused_def by (auto intro: owner_terminates)
  with sampleOwner_reachable show ?thesis by (rule rtranclp.rtrancl_into_rtrancl)
qed

text \<open>An idle owner right after an event was recorded, and right after a timer was cleared: one entry is
  eligible.\<close>

lemma terminal_recorded:
  assumes "owner_idle ow" "map_of (ownerEntries ow) (resAgentId (evResult event)) = Some e" "deState e = Enrolled"
    "\<not> ownerClosed ow"
  defines "ow1 \<equiv> updateEntry (resAgentId (evResult event)) (\<lambda>e. e\<lparr>deEvent := Some event, deState := PendingDelivery\<rparr>) ow"
  shows "owner_inv ow1" "noneSending ow1" "\<not> ownerClosed ow1" "\<not> ownerDraining ow1"
    "eligibleKeys ow1 = {resAgentId (evResult event)}"
    "map_of (ownerEntries ow1) (resAgentId (evResult event)) = Some (e\<lparr>deEvent := Some event, deState := PendingDelivery\<rparr>)"
    "deEvent (e\<lparr>deEvent := Some event, deState := PendingDelivery\<rparr>) = Some event"
proof -
  have inv: "owner_inv ow" "noneSending ow" "eligibleKeys ow = {}" "\<not> ownerDraining ow"
    using assms(1) by (simp_all add: owner_idle_def)
  have ok: "entry_ok (resAgentId (evResult event)) e (attemptsFor (resAgentId (evResult event)) ow)"
    using owner_invD(3) [OF inv(1) assms(2)] .
  with assms(2,3) show "owner_inv ow1"
    unfolding ow1_def by (intro owner_inv_update [OF inv(1)]) (auto simp: entry_ok_def allRefused_def)
  show "noneSending ow1" unfolding ow1_def by (rule noneSending_update [OF inv(2)]) simp
  show "eligibleKeys ow1 = {resAgentId (evResult event)}"
    using inv(3) ok assms(2,3) by (simp add: ow1_def eligibleKeys_update eligible_def entry_ok_def)
qed (use assms in \<open>simp_all add: ow1_def owner_idle_def\<close>)

lemma timer_entry:
  assumes "owner_idle ow" "map_of (ownerEntries ow) k = Some e" "deTimer e \<noteq> None"
  shows "deState e = PendingDelivery" "\<not> deExhausted e" "\<not> ownerClosed ow"
    "\<exists>event. deEvent e = Some event \<and> resAgentId (evResult event) = k"
proof -
  have inv: "owner_inv ow" using assms(1) by (simp add: owner_idle_def)
  have ok: "entry_ok k e (attemptsFor k ow)" using owner_invD(3) [OF inv assms(2)] .
  then show "deState e = PendingDelivery" using assms(3) by (auto simp: entry_ok_def)
  with ok assms(3) show "\<not> deExhausted e" "\<exists>event. deEvent e = Some event \<and> resAgentId (evResult event) = k"
    by (auto simp: entry_ok_def)
  show "\<not> ownerClosed ow" using owner_invD(2) [OF inv] assms(2) by auto
qed

lemma timer_cleared:
  assumes "owner_idle ow" "map_of (ownerEntries ow) k = Some e" "deTimer e \<noteq> None" "deEvent e = Some event"
  defines "ow1 \<equiv> updateEntry k (\<lambda>e. e\<lparr>deTimer := None\<rparr>) ow"
  shows "owner_inv ow1" "noneSending ow1" "\<not> ownerClosed ow1" "\<not> ownerDraining ow1" "eligibleKeys ow1 = {k}"
    "map_of (ownerEntries ow1) k = Some (e\<lparr>deTimer := None\<rparr>)" "deEvent (e\<lparr>deTimer := None\<rparr>) = Some event"
proof -
  note t = timer_entry [OF assms(1-3)]
  have inv: "owner_inv ow" "noneSending ow" "eligibleKeys ow = {}" "\<not> ownerDraining ow"
    using assms(1) by (simp_all add: owner_idle_def)
  show "owner_inv ow1" unfolding ow1_def using inv(1) assms(2,3) by (rule timer_cleared_inv)
  show "noneSending ow1" unfolding ow1_def by (rule noneSending_update [OF inv(2)]) (use t assms(2) in auto)
  show "eligibleKeys ow1 = {k}"
    using inv(3) t assms(2) by (simp add: ow1_def eligibleKeys_update eligible_def)
  show "\<not> ownerClosed ow1" using t by (simp add: ow1_def)
qed (use assms in \<open>simp_all add: ow1_def owner_idle_def\<close>)

section \<open>Properties\<close>

text \<open>C10: In every state an owner can reach, whatever the host does during a send (accept, throw, call
  back, close the owner), at most four attempts were made to deliver the result of an agent and none was
  made after one that was accepted. A retry timer is set for the delay that belongs to the number of
  attempts made so far (100, 500, 1500 ms), and an entry is given up exactly when four attempts failed.\<close>

theorem completion_delivered_at_most_once:
  assumes "owner_step\<^sup>*\<^sup>* (newCompletionOwner sessionId lifetime) ow"
  shows "length (attemptsFor k ow) \<le> 4 \<and> allRefused (butlast (attemptsFor k ow)) \<and>
    (\<forall>e. map_of (ownerEntries ow) k = Some e \<longrightarrow>
       (\<forall>d. deTimer e = Some d \<longrightarrow> attemptsFor k ow \<noteq> [] \<and> allRefused (attemptsFor k ow) \<and>
          d = RETRY_DELAYS_MS ! (length (attemptsFor k ow) - 1)) \<and>
       (deExhausted e \<longleftrightarrow> length (attemptsFor k ow) = 4 \<and> allRefused (attemptsFor k ow)))"
proof -
  have inv: "owner_inv ow" using assms by (rule owner.reachable_inv [OF refl])
  have "(\<forall>d. deTimer e = Some d \<longrightarrow> attemptsFor k ow \<noteq> [] \<and> allRefused (attemptsFor k ow) \<and>
          d = RETRY_DELAYS_MS ! (length (attemptsFor k ow) - 1)) \<and>
       (deExhausted e \<longleftrightarrow> length (attemptsFor k ow) = 4 \<and> allRefused (attemptsFor k ow))"
    if "map_of (ownerEntries ow) k = Some e" for e
    using owner_invD(3) [OF inv that]
    by (cases "deState e") (auto simp: entry_ok_def allRefused_def)
  with owner_invD(4) [OF inv, of k] show ?thesis unfolding attempts_ok_def by blast
qed

theorem completion_delivered_at_most_once_witness:
  "length (attemptsFor ''a1'' sampleRefused) \<le> 4 \<and> allRefused (butlast (attemptsFor ''a1'' sampleRefused)) \<and>
   length (attemptsFor ''a1'' sampleRefused) = 1"
proof -
  have "length (attemptsFor ''a1'' sampleRefused) = 1" by code_simp
  with completion_delivered_at_most_once [OF sampleRefused_reachable, of "''a1''"] show ?thesis by simp
qed

text \<open>Once an owner is closed no message leaves it any more: late terminal events and timers that
  still fire change neither the list of attempts nor the closed flag.\<close>

theorem closed_owner_never_sends:
  assumes "owner_step\<^sup>*\<^sup>* (owner_close ow) ow'"
  shows "ownerClosed ow' \<and> ownerAttempts ow' = ownerAttempts ow"
  using owner_steps_closed [OF assms] by (simp add: owner_close_def)

theorem closed_owner_never_sends_witness:
  "ownerAttempts (owner_enroll ''b'' (owner_close sampleRefused)) = ownerAttempts sampleRefused"
proof -
  have "owner_step\<^sup>*\<^sup>* (owner_close sampleRefused) (owner_enroll ''b'' (owner_close sampleRefused))"
    by (rule r_into_rtranclp) (rule owner_enrolls)
  from closed_owner_never_sends [OF this] show ?thesis by blast
qed

text \<open>C11: When an agent that the owner has enrolled ends (with an event of the owner's own session and
  lifetime), and when the retry timer of an entry fires, the call returns, provided the host stops calling
  back after some number of sends; before that it may enrol agents, report other events and close the
  owner in the middle of a send. Exactly one attempt was then made for the agent, with the
  completion message of its event and the turn triggered unless the user cancelled, and (unless the
  owner was closed) its entry is accepted if the host took the message and pending again if not. No
  other agent was tried more than once, no entry is left that could be sent now, every agent whose
  event was recorded has been tried, and the owner is ready for the next call.\<close>

theorem completion_delivery_returns:
  assumes reachable: "owner_step\<^sup>*\<^sup>* (newCompletionOwner sessionId lifetime) ow"
    and stops: "\<forall>n \<ge> N. fst (host n) = []"
  shows "(\<not> ownerClosed ow \<and> evParent event = Some p \<and> parentSessionId p = ownerSessionId ow \<and>
      parentLifetime p = Some (ownerLifetime ow) \<and>
      map_of (ownerEntries ow) (resAgentId (evResult event)) = Some e \<and> deState e = Enrolled \<longrightarrow>
      (\<exists>f ow'. (\<forall>fuel \<ge> f. owner_terminal fuel host event ow = Some ow') \<and>
         deliveredOnce (resAgentId (evResult event)) event ow ow')) \<and>
    (map_of (ownerEntries ow) k = Some e \<and> deTimer e \<noteq> None \<longrightarrow>
      (\<exists>f ow' event. deEvent e = Some event \<and> resAgentId (evResult event) = k \<and>
         (\<forall>fuel \<ge> f. owner_timer fuel host k ow = Some ow') \<and> deliveredOnce k event ow ow'))"
proof (intro conjI impI)
  have idle: "owner_idle ow" using reachable by (rule idle_owner.reachable_inv [OF refl])
  {
    assume h: "\<not> ownerClosed ow \<and> evParent event = Some p \<and> parentSessionId p = ownerSessionId ow \<and>
      parentLifetime p = Some (ownerLifetime ow) \<and>
      map_of (ownerEntries ow) (resAgentId (evResult event)) = Some e \<and> deState e = Enrolled"
    show "\<exists>f ow'. (\<forall>fuel \<ge> f. owner_terminal fuel host event ow = Some ow') \<and>
         deliveredOnce (resAgentId (evResult event)) event ow ow'"
      using drain_delivers [OF terminal_recorded [OF idle, of event e] stops] h
      by (simp add: owner_terminal_def recordTerminal_def)
  next
    assume h: "map_of (ownerEntries ow) k = Some e \<and> deTimer e \<noteq> None"
    then obtain event where event: "deEvent e = Some event" "resAgentId (evResult event) = k"
      using timer_entry [OF idle] by blast
    then show "\<exists>f ow' event. deEvent e = Some event \<and> resAgentId (evResult event) = k \<and>
         (\<forall>fuel \<ge> f. owner_timer fuel host k ow = Some ow') \<and> deliveredOnce k event ow ow'"
      using drain_delivers [OF timer_cleared [OF idle, of k e event] stops] h timer_entry(3) [OF idle]
      by (auto simp: owner_timer_def Let_def) blast
  }
qed

text \<open>A host that reports the end of a second agent while it takes the result of the first.\<close>

definition sampleEvent2 :: AgentTerminalEvent where
  "sampleEvent2 = sampleEvent\<lparr>evResult := sampleResult\<lparr>resAgentId := ''a2''\<rparr>\<rparr>"

definition sampleHost :: HostBehaviour where
  "sampleHost n = (if n = 0 then ([CallEnroll ''a2'', CallTerminal sampleEvent2], True) else ([], False))"

theorem completion_delivery_returns_witness:
  "\<exists>f ow'. owner_terminal f sampleHost sampleEvent sampleOwner = Some ow' \<and>
     deliveredOnce ''a1'' sampleEvent sampleOwner ow' \<and>
   (\<exists>f ow'. owner_timer f sampleHost ''a1'' sampleRefused = Some ow' \<and>
     deliveredOnce ''a1'' sampleEvent sampleRefused ow')"
proof -
  have host: "\<forall>n \<ge> 1. fst (sampleHost n) = []" by (simp add: sampleHost_def)
  have "\<not> ownerClosed sampleOwner" "evParent sampleEvent \<noteq> None" "map_of (ownerEntries sampleOwner) ''a1'' \<noteq> None"
    "parentSessionId (the (evParent sampleEvent)) = ownerSessionId sampleOwner"
    "parentLifetime (the (evParent sampleEvent)) = Some (ownerLifetime sampleOwner)"
    "deState (the (map_of (ownerEntries sampleOwner) ''a1'')) = Enrolled" "resAgentId (evResult sampleEvent) = ''a1''"
    by code_simp+
  then have first: "\<exists>f ow'. owner_terminal f sampleHost sampleEvent sampleOwner = Some ow' \<and>
      deliveredOnce ''a1'' sampleEvent sampleOwner ow'"
    using completion_delivery_returns [OF sampleOwner_reachable host, of sampleEvent "the (evParent sampleEvent)"
      "the (map_of (ownerEntries sampleOwner) ''a1'')"] by fastforce
  have "map_of (ownerEntries sampleRefused) ''a1'' \<noteq> None"
    "deTimer (the (map_of (ownerEntries sampleRefused) ''a1'')) \<noteq> None"
    "deEvent (the (map_of (ownerEntries sampleRefused) ''a1'')) = Some sampleEvent" by code_simp+
  then have "\<exists>f ow'. owner_timer f sampleHost ''a1'' sampleRefused = Some ow' \<and>
      deliveredOnce ''a1'' sampleEvent sampleRefused ow'"
    using completion_delivery_returns [OF sampleRefused_reachable host, of sampleEvent undefined
      "the (map_of (ownerEntries sampleRefused) ''a1'')" "''a1''"] by fastforce
  with first show ?thesis by blast
qed

text \<open>The completion message is at most 50,000 characters long as long as the transcript reference
  leaves room for the truncation notice. It is the whole body, or a prefix of it followed by the
  notice, and it always ends with the transcript reference; the body is cut exactly when body and
  reference together do not fit.\<close>

theorem completion_message_fits:
  assumes "int (length (completionReference result) + length truncationNotice) \<le> MAX_COMPLETION_LENGTH"
  shows "int (length (msgContent (buildCompletionMessage result))) \<le> MAX_COMPLETION_LENGTH \<and>
    (\<exists>p q. completionBody result = p @ q \<and>
       msgContent (buildCompletionMessage result) =
         p @ (if q = [] then [] else truncationNotice) @ completionReference result \<and>
       (q = [] \<longleftrightarrow> int (length (completionBody result) + length (completionReference result)) \<le> MAX_COMPLETION_LENGTH))"
proof -
  define n where "n = MAX_COMPLETION_LENGTH - int (length (completionReference result)) - int (length truncationNotice)"
  define p where "p = js_slice0 n (completionBody result)"
  have n: "0 \<le> n" using assms by (simp add: n_def)
  have notice: "truncationNotice \<noteq> []" by (simp add: truncationNotice_def)
  obtain q where q: "completionBody result = p @ q" using js_slice0_prefix unfolding p_def by blast
  have len: "int (length p) \<le> n" using n by (simp add: p_def js_slice0_def)
  show ?thesis
  proof (cases "MAX_COMPLETION_LENGTH - int (length (completionReference result)) < int (length (completionBody result))")
    case True
    have "msgContent (buildCompletionMessage result) = p @ truncationNotice @ completionReference result"
      using True by (simp add: buildCompletionMessage_def Let_def p_def n_def)
    moreover have "q \<noteq> []" using True len q by (auto simp: n_def)
    ultimately show ?thesis using True len q by (intro conjI exI [of _ p] exI [of _ q]) (simp_all add: n_def)
  next
    case False
    then have "msgContent (buildCompletionMessage result) = completionBody result @ completionReference result"
      by (simp add: buildCompletionMessage_def Let_def)
    with False show ?thesis by (auto intro!: exI [of _ "completionBody result"])
  qed
qed

theorem completion_message_fits_witness:
  "int (length (msgContent (buildCompletionMessage sampleResult))) \<le> MAX_COMPLETION_LENGTH"
proof -
  have "int (length (completionReference sampleResult) + length truncationNotice) \<le> MAX_COMPLETION_LENGTH"
    by code_simp
  from completion_message_fits [OF this] show ?thesis by blast
qed

text \<open>The collected results contain exactly one opening and one closing tag per result: no name and
  no response can add a tag of its own, and escaping loses nothing (two texts, or two names, that
  are escaped alike are equal).\<close>

theorem collected_results_not_forgeable:
  "count_list (formatResultCollectorOutput results) CHR ''<'' = 2 * length results \<and>
   count_list (formatResultCollectorOutput results) CHR ''>'' = 2 * length results \<and>
   count_list (formatResultCollectorOutput results) CHR 0x22 =
     2 * length results + sum_list (map (\<lambda>r. count_list (collectedPayload r) CHR 0x22) results) \<and>
   (escapeXmlText s = escapeXmlText t \<longleftrightarrow> s = t) \<and> (escapeXmlAttribute s = escapeXmlAttribute t \<longleftrightarrow> s = t)"
proof -
  have tag: "count_list (formatResultCollectorOutput results) c =
      sum_list (map (\<lambda>r. count_list (collectedBlock r) c) results)" if "c \<noteq> CHR 0x0A" for c
    unfolding formatResultCollectorOutput_blocks using that by (subst count_js_join) (simp_all add: comp_def)
  show ?thesis
    by (simp add: tag collectedBlock_counts sum_list_triv sum_list_addf escapeXmlText_one_pass escapeXmlAttribute_one_pass
        concat_map_injective [OF xmlText_prefix_free xmlText_nonempty]
        concat_map_injective [OF xmlAttribute_prefix_free xmlAttribute_nonempty]
        del: add_2_eq_Suc add_2_eq_Suc')
qed

end
