(* ===== verification/Agent_Manager.thy ===== *)
theory Agent_Manager
  imports Concurrency_Queue Completion_Owner
begin

text \<open>
  The lifecycle of sub-agent runs (\<open>src/packages/pi-subagents/src/delegation/agentManager.ts\<close>): admission,
  queueing, assembly of the child session, cancellation, completion and shutdown, on top of the
  concurrency queue.

  A run is identified by the number of its \<open>enqueue\<close> call. What the closure of \<open>start\<close> and the object
  in \<open>runningAgentStates\<close> hold for it (task, cancellation, handle, cancel promise) and the \<open>await\<close> at
  which its body is suspended are one record. The body up to its first \<open>await\<close> runs inside the
  queue operation that starts it; every continuation after an \<open>await\<close> is an operation of its own, so
  that any interleaving of them is covered. The child session (\<open>createAgentRun\<close> and the handle it
  returns) is the environment that triggers these operations. The clock is an argument, read once
  per operation. Snapshot listeners only observe and are left out; calls of terminal listeners, of
  \<open>createAgentRun\<close> and of \<open>handle.cancel\<close> are kept as histories.
\<close>

section \<open>Data\<close>

datatype AgentStatus = AgQueued | AgStarting | AgRunning | AgCompleted | AgFailed | AgCancelled | AgInterrupted

datatype AgentRunMode = Foreground | Background

text \<open>The fields of a task the manager itself reads.\<close>

record AgentTask =
  taskAgentName :: string
  taskPrompt :: string
  taskMode :: AgentRunMode
  taskWorkspaceAccess :: WorkspaceAccess
  taskParent :: "AgentParentCorrelation option"

record AgentRecord =
  recId :: string
  recAgentName :: string
  recPrompt :: string
  recStatus :: AgentStatus
  recMode :: AgentRunMode
  recCreatedAt :: nat
  recStartedAt :: "nat option"
  recCompletedAt :: "nat option"
  recSessionId :: "string option"
  recSessionPath :: "string option"
  recResponseText :: "string option"
  recError :: "string option"
  recUsage :: AgentUsageStats
  recCancellationOrigin :: "AgentCancellationOrigin option"

definition emptyAgentUsageStats :: AgentUsageStats where
  "emptyAgentUsageStats =
     \<lparr>usageInput = Fin 0, usageOutput = Fin 0, usageCacheRead = Fin 0, usageCacheWrite = Fin 0,
      usageCost = Fin 0, usageContextTokens = Fin 0, usageTurns = Fin 0\<rparr>"

record AgentRunHandle =
  handleSessionId :: string
  handleSessionPath :: "string option"

text \<open>Where the body of a run is: not started, at one of its three \<open>await\<close>s, returned, rejected by the queue
  before it started, or with its result promise settled.\<close>

datatype RunPhase = RunQueued | RunAssembling | RunStopping | RunAwaiting | RunReturned | RunRejected | RunFinished

record AgentRun =
  runAgentId :: string
  runAgentTask :: AgentTask
  runCancellation :: "AgentCancellationOrigin option"
  runHandle :: "AgentRunHandle option"
  runCancelCalled :: bool
  runAssemblyPending :: bool
  runPhase :: RunPhase

record AgentManager =
  amQueue :: ConcurrencyQueue
  amRuns :: "nat \<rightharpoonup> AgentRun"
  amRecords :: "(string \<times> AgentRecord) list"
  amQueuedCancels :: "string \<rightharpoonup> nat"
  amRunning :: "(string \<times> nat) list"
  amCompletions :: "string list"
  amParents :: "string \<rightharpoonup> AgentParentCorrelation"
  amNextSequence :: nat
  amShuttingDown :: bool
  amTerminal :: "(AgentRecord \<times> AgentTerminalEvent) list"
  amAssembled :: "nat list"
  amCancelCalls :: "nat list"

definition DEFAULT_MAX_CONCURRENCY :: js_number where
  "DEFAULT_MAX_CONCURRENCY = Fin 4"

definition newAgentManager :: "js_number option \<Rightarrow> QueueError + AgentManager" where
  "newAgentManager maxConc =
     (case newConcurrencyQueue (nullish maxConc DEFAULT_MAX_CONCURRENCY) of
        Inl e \<Rightarrow> Inl e
      | Inr q \<Rightarrow>
          Inr \<lparr>amQueue = q, amRuns = (\<lambda>_. None), amRecords = [], amQueuedCancels = (\<lambda>_. None), amRunning = [],
               amCompletions = [], amParents = (\<lambda>_. None), amNextSequence = 1, amShuttingDown = False,
               amTerminal = [], amAssembled = [], amCancelCalls = []\<rparr>)"

section \<open>Helpers\<close>

definition updRun :: "nat \<Rightarrow> (AgentRun \<Rightarrow> AgentRun) \<Rightarrow> AgentManager \<Rightarrow> AgentManager" where
  "updRun t f am = am\<lparr>amRuns := (amRuns am)(t := map_option f (amRuns am t))\<rparr>"

definition updRecord :: "string \<Rightarrow> (AgentRecord \<Rightarrow> AgentRecord) \<Rightarrow> AgentManager \<Rightarrow> AgentManager" where
  "updRecord k f am = am\<lparr>amRecords := map (\<lambda>(k', r). if k' = k then (k', f r) else (k', r)) (amRecords am)\<rparr>"

text \<open>\<open>AgentCancellation.request\<close>: the first request wins.\<close>

definition requestCancellation :: "AgentCancellationOrigin \<Rightarrow> AgentRun \<Rightarrow> AgentRun" where
  "requestCancellation origin run =
     (if runCancellation run \<noteq> None then run else run\<lparr>runCancellation := Some origin\<rparr>)"

text \<open>\<open>n.toString(36)\<close>.\<close>

fun show36 :: "nat \<Rightarrow> string" where
  "show36 n =
     (let digit = (\<lambda>d. char_of (if d < 10 then 48 + d else 87 + d)) in
      if n < 36 then [digit n] else show36 (n div 36) @ [digit (n mod 36)])"

declare show36.simps [simp del]

definition createAgentId :: "nat \<Rightarrow> nat \<Rightarrow> string" where
  "createAgentId now sequence = ''agent-'' @ show36 now @ ''-'' @ show36 sequence"

fun statusOf :: "ResultStatus \<Rightarrow> AgentStatus" where
  "statusOf StatusCompleted = AgCompleted"
| "statusOf StatusFailed = AgFailed"
| "statusOf StatusCancelled = AgCancelled"

definition interruptedResult ::
  "AgentRecord \<Rightarrow> AgentCancellationOrigin option \<Rightarrow> AgentResult option \<Rightarrow> AgentResult" where
  "interruptedResult record origin result =
     (let limited = (origin = Some OriginTimeout \<or> origin = Some OriginMaxTurns) in
      \<lparr>resAgentId = recId record, resAgentName = recAgentName record,
       resSessionId = Option.bind result resSessionId, resSessionPath = Option.bind result resSessionPath,
       resStatus = (if limited then StatusFailed else StatusCancelled),
       resResponseText = Option.bind result resResponseText,
       resError =
         (if Option.bind result resCancellationOrigin \<noteq> None then Option.bind result resError
          else if limited then Some (''Agent run interrupted: '' @ nullish (map_option showOrigin origin) [])
          else Some ''Agent run was cancelled''),
       resUsage = nullish (map_option resUsage result) emptyAgentUsageStats,
       resCancellationOrigin = origin\<rparr>)"

definition plainResult :: "string \<Rightarrow> string \<Rightarrow> ResultStatus \<Rightarrow> string \<Rightarrow> AgentCancellationOrigin option \<Rightarrow> AgentResult" where
  "plainResult agentId agentName status err origin =
     \<lparr>resAgentId = agentId, resAgentName = agentName, resSessionId = None, resSessionPath = None,
      resStatus = status, resResponseText = None, resError = Some err, resUsage = emptyAgentUsageStats,
      resCancellationOrigin = origin\<rparr>"

definition resultRecord :: "nat \<Rightarrow> AgentResult \<Rightarrow> AgentRecord \<Rightarrow> AgentRecord" where
  "resultRecord now result record =
     record\<lparr>recStatus := statusOf (resStatus result), recCompletedAt := Some now,
            recSessionId := resSessionId result, recSessionPath := resSessionPath result,
            recResponseText := resResponseText result, recError := resError result,
            recUsage := resUsage result, recCancellationOrigin := resCancellationOrigin result\<rparr>"

definition applyResult :: "nat \<Rightarrow> string \<Rightarrow> AgentResult \<Rightarrow> AgentManager \<Rightarrow> AgentManager" where
  "applyResult now k result am =
     (case map_of (amRecords am) k of
        None \<Rightarrow> am
      | Some record \<Rightarrow>
          if recCompletedAt record \<noteq> None then am
          else
            (updRecord k (resultRecord now result) am)
              \<lparr>amTerminal := amTerminal am @
                 [(resultRecord now result record, \<lparr>evResult = result, evParent = amParents am k\<rparr>)],
               amParents := (amParents am)(k := None)\<rparr>)"

text \<open>\<open>cancelRun\<close>: the handle is asked to cancel at most once.\<close>

definition cancelRun :: "nat \<Rightarrow> AgentManager \<Rightarrow> AgentManager" where
  "cancelRun t am =
     (case amRuns am t of
        None \<Rightarrow> am
      | Some run \<Rightarrow>
          if runCancelCalled run then am
          else (updRun t (\<lambda>r. r\<lparr>runCancelCalled := True\<rparr>) am)\<lparr>amCancelCalls := amCancelCalls am @ [t]\<rparr>)"

section \<open>The body of a run\<close>

text \<open>Removing a run from the two maps.\<close>

definition forgetRun :: "string \<Rightarrow> AgentManager \<Rightarrow> AgentManager" where
  "forgetRun k am =
     am\<lparr>amRunning := filter (\<lambda>(k', _). k' \<noteq> k) (amRunning am), amQueuedCancels := (amQueuedCancels am)(k := None)\<rparr>"

text \<open>The end of the body: the result is applied and the \<open>finally\<close> block runs.\<close>

definition returnRun :: "nat \<Rightarrow> nat \<Rightarrow> AgentResult \<Rightarrow> AgentManager \<Rightarrow> AgentManager" where
  "returnRun now t result am =
     (case amRuns am t of
        None \<Rightarrow> am
      | Some run \<Rightarrow>
          updRun t (\<lambda>r. r\<lparr>runPhase := RunReturned\<rparr>)
            (forgetRun (runAgentId run) (applyResult now (runAgentId run) result am)))"

text \<open>The \<open>catch\<close> block of the body.\<close>

definition failRun :: "nat \<Rightarrow> nat \<Rightarrow> string \<Rightarrow> AgentManager \<Rightarrow> AgentManager" where
  "failRun now t message am =
     (case amRuns am t of
        None \<Rightarrow> am
      | Some run \<Rightarrow>
          (case map_of (amRecords am) (runAgentId run) of
             None \<Rightarrow> am
           | Some record \<Rightarrow>
               returnRun now t
                 (if runCancellation run \<noteq> None then interruptedResult record (runCancellation run) None
                  else plainResult (runAgentId run) (taskAgentName (runAgentTask run)) StatusFailed message None) am))"

definition QUEUED_TASK_CANCELLED :: string where
  "QUEUED_TASK_CANCELLED = ''Queued task was cancelled''"

text \<open>The body up to its first \<open>await\<close>.\<close>

definition beginRun :: "nat \<Rightarrow> nat \<Rightarrow> AgentManager \<Rightarrow> AgentManager" where
  "beginRun now t am =
     (case amRuns am t of
        None \<Rightarrow> am
      | Some run \<Rightarrow>
          let am1 = updRecord (runAgentId run) (\<lambda>r. r\<lparr>recStatus := AgStarting, recStartedAt := Some now\<rparr>) am in
          if runCancellation run \<noteq> None then failRun now t QUEUED_TASK_CANCELLED am1
          else (updRun t (\<lambda>r. r\<lparr>runPhase := RunAssembling, runAssemblyPending := True\<rparr>) am1)
                 \<lparr>amAssembled := amAssembled am1 @ [t]\<rparr>)"

text \<open>A queue operation, followed by the bodies it started, in the order it started them.\<close>

definition withQueue :: "nat \<Rightarrow> ConcurrencyQueue \<Rightarrow> AgentManager \<Rightarrow> AgentManager" where
  "withQueue now q am =
     fold (beginRun now) (drop (length (startOrder (amQueue am))) (startOrder q)) (am\<lparr>amQueue := q\<rparr>)"

text \<open>\<open>this.queuedCancels.get(agentId)?.()\<close>.\<close>

definition cancelQueued :: "nat \<Rightarrow> string \<Rightarrow> AgentManager \<Rightarrow> AgentManager" where
  "cancelQueued now k am =
     (case amQueuedCancels am k of
        None \<Rightarrow> am
      | Some t \<Rightarrow>
          let (q, cancelled) = cq_cancelTask t (amQueue am);
              am1 = (if cancelled then updRun t (\<lambda>r. r\<lparr>runPhase := RunRejected\<rparr>) am else am)
          in withQueue now q am1)"

section \<open>Operations\<close>

datatype ManagerError = ManagerShutDown | AgentNotRunning string

definition am_start ::
  "nat \<Rightarrow> AgentTask \<Rightarrow> bool \<Rightarrow> AgentParentCorrelation option \<Rightarrow> AgentManager \<Rightarrow> ManagerError + (AgentManager \<times> string)" where
  "am_start now task signalAborted optionsParent am =
     (if amShuttingDown am then Inl ManagerShutDown
      else
        let agentId = createAgentId now (amNextSequence am);
            record = \<lparr>recId = agentId, recAgentName = taskAgentName task, recPrompt = taskPrompt task, recStatus = AgQueued,
                      recMode = taskMode task, recCreatedAt = now, recStartedAt = None, recCompletedAt = None,
                      recSessionId = None, recSessionPath = None, recResponseText = None, recError = None,
                      recUsage = emptyAgentUsageStats, recCancellationOrigin = None\<rparr>;
            run = \<lparr>runAgentId = agentId, runAgentTask = task,
                   runCancellation = (if signalAborted then Some OriginCaller else None), runHandle = None,
                   runCancelCalled = False, runAssemblyPending = False, runPhase = RunQueued\<rparr>;
            parent = nullish_option optionsParent (taskParent task);
            (q, t) = cq_enqueue (taskWorkspaceAccess task) (amQueue am);
            am1 = am\<lparr>amNextSequence := amNextSequence am + 1,
                     amRunning := amRunning am @ [(agentId, t)],
                     amRecords := amRecords am @ [(agentId, record)],
                     amParents := (case parent of None \<Rightarrow> amParents am | Some p \<Rightarrow> (amParents am)(agentId \<mapsto> p)),
                     amRuns := (amRuns am)(t \<mapsto> run)\<rparr>;
            am2 = withQueue now q am1;
            am3 = am2\<lparr>amQueuedCancels := (amQueuedCancels am2)(agentId \<mapsto> t)\<rparr>;
            am4 = (if signalAborted then cancelQueued now agentId am3 else am3)
        in Inr (am4\<lparr>amCompletions := amCompletions am4 @ [agentId]\<rparr>, agentId))"

definition am_runInBackground ::
  "nat \<Rightarrow> AgentTask \<Rightarrow> bool \<Rightarrow> AgentParentCorrelation option \<Rightarrow> AgentManager \<Rightarrow> ManagerError + (AgentManager \<times> string)" where
  "am_runInBackground now task = am_start now (task\<lparr>taskMode := Background\<rparr>)"

definition am_get :: "string \<Rightarrow> AgentManager \<Rightarrow> AgentRecord option" where
  "am_get agentId am = map_of (amRecords am) agentId"

definition resolveAgentId :: "AgentManager \<Rightarrow> string \<Rightarrow> string option" where
  "resolveAgentId am key =
     (if map_of (amRecords am) key \<noteq> None then Some key
      else map_option (recId \<circ> snd) (List.find (\<lambda>(_, r). recSessionId r = Some key) (amRecords am)))"

definition am_stop :: "nat \<Rightarrow> string \<Rightarrow> AgentCancellationOrigin \<Rightarrow> AgentManager \<Rightarrow> AgentManager \<times> bool" where
  "am_stop now key origin am =
     (case resolveAgentId am key of
        None \<Rightarrow> (am, False)
      | Some agentId \<Rightarrow>
          (case map_of (amRunning am) agentId of
             None \<Rightarrow> (am, False)
           | Some t \<Rightarrow>
               if Option.bind (map_of (amRecords am) agentId) recCompletedAt \<noteq> None then (am, False)
               else
                 let am1 = cancelQueued now agentId (updRun t (requestCancellation origin) am)
                 in (if Option.bind (amRuns am1 t) runHandle \<noteq> None then cancelRun t am1 else am1, True)))"

definition stopActive :: "nat \<Rightarrow> string \<times> nat \<Rightarrow> AgentManager \<Rightarrow> AgentManager" where
  "stopActive now = (\<lambda>(k, t) am.
     let am1 = cancelQueued now k am in
     if Option.bind (amRuns am1 t) runHandle \<noteq> None then cancelRun t am1 else am1)"

definition am_shutdown :: "nat \<Rightarrow> AgentManager \<Rightarrow> AgentManager" where
  "am_shutdown now am =
     (let active = amRunning am;
          am1 = fold (\<lambda>(_, t). updRun t (requestCancellation OriginShutdown)) active (am\<lparr>amShuttingDown := True\<rparr>)
      in fold (stopActive now) active am1)"

text \<open>The handle that \<open>steer\<close> passes its message to.\<close>

definition am_steer :: "string \<Rightarrow> AgentManager \<Rightarrow> ManagerError + AgentRunHandle" where
  "am_steer agentId am =
     (case Option.bind (map_of (amRunning am) agentId) (\<lambda>t. Option.bind (amRuns am t) runHandle) of
        None \<Rightarrow> Inl (AgentNotRunning agentId)
      | Some h \<Rightarrow> Inr h)"

definition am_collectResults :: "string list \<Rightarrow> AgentManager \<Rightarrow> string" where
  "am_collectResults agentIds am =
     formatResultCollectorOutput (List.map_filter (\<lambda>agentId.
       case map_of (amRecords am) agentId of
         None \<Rightarrow> None
       | Some r \<Rightarrow>
           map_option (\<lambda>status. \<lparr>resAgentId = recId r, resAgentName = recAgentName r, resSessionId = recSessionId r,
               resSessionPath = recSessionPath r, resStatus = status, resResponseText = recResponseText r,
               resError = recError r, resUsage = recUsage r, resCancellationOrigin = None\<rparr>)
             (case recStatus r of AgCompleted \<Rightarrow> Some StatusCompleted | AgFailed \<Rightarrow> Some StatusFailed
              | AgCancelled \<Rightarrow> Some StatusCancelled | _ \<Rightarrow> None)) agentIds)"

section \<open>Continuations\<close>

text \<open>The child session is assembled while the body waits for it.\<close>

definition am_assembled :: "nat \<Rightarrow> AgentRunHandle \<Rightarrow> AgentManager \<Rightarrow> AgentManager" where
  "am_assembled t h am =
     (case amRuns am t of
        None \<Rightarrow> am
      | Some run \<Rightarrow>
          let am1 = updRecord (runAgentId run)
                (\<lambda>r. r\<lparr>recSessionId := Some (handleSessionId h),
                      recSessionPath := nullish_option (handleSessionPath h) (recSessionPath r), recStatus := AgRunning\<rparr>)
                (updRun t (\<lambda>r. r\<lparr>runHandle := Some h, runAssemblyPending := False\<rparr>) am)
          in if runCancellation run \<noteq> None
             then updRun t (\<lambda>r. r\<lparr>runPhase := RunStopping\<rparr>) (cancelRun t am1)
             else updRun t (\<lambda>r. r\<lparr>runPhase := RunAwaiting\<rparr>) am1)"

text \<open>The child session is assembled after the body has given up on it.\<close>

definition am_lateAssembly :: "nat \<Rightarrow> AgentManager \<Rightarrow> AgentManager" where
  "am_lateAssembly t am =
     (let am1 = updRun t (\<lambda>r. r\<lparr>runAssemblyPending := False\<rparr>) am in
      if Option.bind (amRuns am t) runCancellation \<noteq> None then cancelRun t am1 else am1)"

definition am_assemblyFailed :: "nat \<Rightarrow> nat \<Rightarrow> string \<Rightarrow> AgentManager \<Rightarrow> AgentManager" where
  "am_assemblyFailed now t message am = failRun now t message (updRun t (\<lambda>r. r\<lparr>runAssemblyPending := False\<rparr>) am)"

text \<open>The handle's \<open>cancel\<close> settles: the body goes on to wait for the completion, or fails.\<close>

definition am_stopSettled :: "nat \<Rightarrow> nat \<Rightarrow> string option \<Rightarrow> AgentManager \<Rightarrow> AgentManager" where
  "am_stopSettled now t failure am =
     (case failure of
        None \<Rightarrow> updRun t (\<lambda>r. r\<lparr>runPhase := RunAwaiting\<rparr>) am
      | Some message \<Rightarrow> failRun now t message am)"

definition am_completed :: "nat \<Rightarrow> nat \<Rightarrow> AgentResult \<Rightarrow> AgentManager \<Rightarrow> AgentManager" where
  "am_completed now t completed am =
     (case amRuns am t of
        None \<Rightarrow> am
      | Some run \<Rightarrow>
          (case map_of (amRecords am) (runAgentId run) of
             None \<Rightarrow> am
           | Some record \<Rightarrow>
               returnRun now t
                 (if runCancellation run \<noteq> None then interruptedResult record (runCancellation run) (Some completed)
                  else completed) am))"

text \<open>The continuation of the queue after the body has returned, and the settled result promise.\<close>

definition am_settle :: "nat \<Rightarrow> nat \<Rightarrow> AgentManager \<Rightarrow> AgentManager" where
  "am_settle now t am =
     (case amRuns am t of
        None \<Rightarrow> am
      | Some run \<Rightarrow>
          withQueue now (cq_settle t True (amQueue am))
            ((updRun t (\<lambda>r. r\<lparr>runPhase := RunFinished\<rparr>) am)
               \<lparr>amCompletions := filter (\<lambda>k. k \<noteq> runAgentId run) (amCompletions am)\<rparr>))"

text \<open>The handler of a run that the queue rejected before it started.\<close>

definition am_rejected :: "nat \<Rightarrow> nat \<Rightarrow> AgentManager \<Rightarrow> AgentManager" where
  "am_rejected now t am =
     (case amRuns am t of
        None \<Rightarrow> am
      | Some run \<Rightarrow>
          let am1 = forgetRun (runAgentId run)
                (applyResult now (runAgentId run)
                   (plainResult (runAgentId run) (taskAgentName (runAgentTask run)) StatusCancelled
                      ''Agent run was cancelled before start'' (runCancellation run)) am)
          in (updRun t (\<lambda>r. r\<lparr>runPhase := RunFinished\<rparr>) am1)
               \<lparr>amCompletions := filter (\<lambda>k. k \<noteq> runAgentId run) (amCompletions am1)\<rparr>)"

definition phaseOf :: "AgentManager \<Rightarrow> nat \<Rightarrow> RunPhase option" where
  "phaseOf am t = map_option runPhase (amRuns am t)"

inductive am_step :: "AgentManager \<Rightarrow> AgentManager \<Rightarrow> bool" where
  am_starts: "am_start now task aborted parent am = Inr (am', k) \<Longrightarrow> am_step am am'"
| am_stops: "am_step am (fst (am_stop now key origin am))"
| am_shuts_down: "am_step am (am_shutdown now am)"
| am_assembles: "phaseOf am t = Some RunAssembling \<Longrightarrow> am_step am (am_assembled t h am)"
| am_assembles_late: "amRuns am t = Some run \<Longrightarrow> runAssemblyPending run \<Longrightarrow> runPhase run \<noteq> RunAssembling \<Longrightarrow>
    am_step am (am_lateAssembly t am)"
| am_assembly_fails: "phaseOf am t = Some RunAssembling \<Longrightarrow> am_step am (am_assemblyFailed now t message am)"
| am_assembly_timeout: "amRuns am t = Some run \<Longrightarrow> runPhase run = RunAssembling \<Longrightarrow> runCancellation run \<noteq> None \<Longrightarrow>
    am_step am (failRun now t QUEUED_TASK_CANCELLED am)"
| am_stop_settles: "phaseOf am t = Some RunStopping \<Longrightarrow> am_step am (am_stopSettled now t failure am)"
| am_completes: "phaseOf am t = Some RunAwaiting \<Longrightarrow> am_step am (am_completed now t completed am)"
| am_completion_fails: "phaseOf am t = Some RunAwaiting \<Longrightarrow> am_step am (failRun now t message am)"
| am_settles: "phaseOf am t = Some RunReturned \<Longrightarrow> am_step am (am_settle now t am)"
| am_handles_rejection: "phaseOf am t = Some RunRejected \<Longrightarrow> am_step am (am_rejected now t am)"
| am_runner_cancels: "phaseOf am t \<in> {Some RunAssembling, Some RunStopping, Some RunAwaiting} \<Longrightarrow>
    am_step am (updRun t (requestCancellation origin) am)"

end
