(* ===== verification/Run_Scheduler.thy ===== *)
theory Run_Scheduler
  imports Concurrency_Queue_Proofs
begin

text \<open>
  What the agent manager relies on of its queue, as an interface: which tasks wait, which are active and
  which an operation starts. The concurrency queue provides it.
\<close>

locale run_scheduler =
  fixes sound :: "'q \<Rightarrow> bool"
    and waiting :: "'q \<Rightarrow> nat set"
    and active :: "'q \<Rightarrow> nat set"
    and started :: "'q \<Rightarrow> nat list"
    and size_of :: "'q \<Rightarrow> nat"
    and kind :: "'q \<Rightarrow> nat \<Rightarrow> 'a"
    and enq :: "'a \<Rightarrow> 'q \<Rightarrow> 'q \<times> nat"
    and cancel :: "nat \<Rightarrow> 'q \<Rightarrow> 'q \<times> bool"
    and settle :: "nat \<Rightarrow> 'q \<Rightarrow> 'q"
  assumes disjoint: "sound q \<Longrightarrow> waiting q \<inter> active q = {}"
    and below: "sound q \<Longrightarrow> waiting q \<union> active q \<subseteq> {..<size_of q}"
    and enq_law: "sound q \<Longrightarrow> enq a q = (q', t) \<Longrightarrow>
      sound q' \<and> t = size_of q \<and> size_of q' = Suc t \<and> kind q' = (kind q)(t := a) \<and>
      (\<exists>S. started q' = started q @ S \<and> distinct S \<and> insert t (waiting q) = waiting q' \<union> set S \<and>
           active q' = active q \<union> set S)"
    and cancel_law: "sound q \<Longrightarrow> t < size_of q \<Longrightarrow> cancel t q = (q', ok) \<Longrightarrow>
      sound q' \<and> size_of q' = size_of q \<and> kind q' = kind q \<and> (ok \<longleftrightarrow> t \<in> waiting q) \<and>
      (\<exists>S. started q' = started q @ S \<and> distinct S \<and> waiting q - {t} = waiting q' \<union> set S \<and>
           active q' = active q \<union> set S)"
    and settle_law: "sound q \<Longrightarrow> t \<in> active q \<Longrightarrow>
      sound (settle t q) \<and> size_of (settle t q) = size_of q \<and> kind (settle t q) = kind q \<and>
      (\<exists>S. started (settle t q) = started q @ S \<and> distinct S \<and> waiting q = waiting (settle t q) \<union> set S \<and>
           active (settle t q) = (active q - {t}) \<union> set S)"
begin

text \<open>An operation takes the tasks it starts from those that wait, and a task that waits is not active.\<close>

lemma started_split:
  assumes "sound q'" "W = waiting q' \<union> set S" "active q' = A \<union> set S" "A \<inter> W = {}"
  shows "set S \<subseteq> W" "W - set S = waiting q'" "A \<union> set S = active q'"
  using disjoint [OF assms(1)] assms(2-4) by auto

end

section \<open>The concurrency queue is such a scheduler\<close>

definition accessOf :: "ConcurrencyQueue \<Rightarrow> nat \<Rightarrow> WorkspaceAccess" where
  "accessOf q t = qtAccess (taskOf q t)"

lemma drain_split:
  assumes "cq_core q"
  shows "\<exists>S. pendingTasks q = S @ pendingTasks (drain q) \<and> startOrder (drain q) = startOrder q @ S \<and>
    inFlight (drain q) = inFlight q @ S"
  using assms
proof (induction q rule: drain.induct)
  case (1 q)
  show ?case
  proof (cases "pendingTasks q")
    case Nil
    then show ?thesis by (simp add: drain.simps [of q])
  next
    case (Cons t rest)
    have live: "\<not> qtIsCancelled (taskOf q t)" using cq_coreD(5) [OF 1(3), of t] Cons by (simp add: task_kinds)
    show ?thesis
    proof (cases "canStartTask q t")
      case True
      let ?q = "startTask t (q\<lparr>pendingTasks := rest\<rparr>)"
      have d: "drain q = drain ?q" using Cons live True by (simp add: drain.simps [of q])
      have f: "pendingTasks ?q = rest" "startOrder ?q = startOrder q @ [t]" "inFlight ?q = inFlight q @ [t]"
        by (simp_all add: startTask_def Let_def)
      obtain S where "rest = S @ pendingTasks (drain ?q)" "startOrder (drain ?q) = (startOrder q @ [t]) @ S"
          "inFlight (drain ?q) = (inFlight q @ [t]) @ S"
        using 1(2) [OF Cons _ refl live startTask_core [OF 1(3) Cons True]] True unfolding f by blast
      with Cons d show ?thesis by (intro exI [of _ "t # S"]) simp
    next
      case False
      with Cons show ?thesis by (simp add: drain.simps [of q])
    qed
  qed
qed

lemma drain_sets:
  assumes "cq_core q"
  shows "\<exists>S. startOrder (drain q) = startOrder q @ S \<and> distinct S \<and>
    set (pendingTasks q) = set (pendingTasks (drain q)) \<union> set S \<and> set (inFlight (drain q)) = set (inFlight q) \<union> set S"
proof -
  obtain S where S: "pendingTasks q = S @ pendingTasks (drain q)" "startOrder (drain q) = startOrder q @ S"
      "inFlight (drain q) = inFlight q @ S" using drain_split [OF assms] by blast
  have "distinct (pendingTasks q)" using cq_coreD(3) [OF assms] by (simp add: strict_sorted_iff)
  then have "distinct S" using S(1) by (metis distinct_append)
  moreover have "set (pendingTasks q) = set (pendingTasks (drain q)) \<union> set S" by (subst S(1)) auto
  ultimately show ?thesis using S(2,3) by auto
qed

lemma drain_access: "accessOf (drain q) = accessOf q"
  by (rule ext) (simp add: accessOf_def drain_frame)

lemma enqueue_access: "accessOf (fst (cq_enqueue a q)) = (accessOf q)(nextTask q := a)"
  by (rule ext) (simp add: cq_enqueue_def Let_def drain_access accessOf_def taskOf_def)

interpretation cqs: run_scheduler cq_inv "\<lambda>q. set (pendingTasks q)" "\<lambda>q. set (inFlight q)" startOrder nextTask
    accessOf cq_enqueue cq_cancelTask "\<lambda>t. cq_settle t True"
proof unfold_locales
  fix q assume "cq_inv q"
  then have "cq_core q" by (simp add: cq_inv_def)
  note c = cq_coreD [OF this]
  show "set (pendingTasks q) \<inter> set (inFlight q) = {}" using c(5,6) by (auto simp: task_kinds)
  show "set (pendingTasks q) \<union> set (inFlight q) \<subseteq> {..<nextTask q}" using c(5,6) by auto
next
  fix q q' a t assume inv: "cq_inv q" and q': "cq_enqueue a q = (q', t)"
  then obtain p where "cq_core p" "q' = drain p" "t = nextTask q" "inFlight p = inFlight q"
      "pendingTasks p = pendingTasks q @ [nextTask q]" "startOrder p = startOrder q" "nextTask p = Suc (nextTask q)"
    using enqueue_core [OF inv, of a] by auto
  moreover have "accessOf q' = (accessOf q)(t := a)"
    using enqueue_access [of a q] q' calculation(3) by simp
  ultimately show "cq_inv q' \<and> t = nextTask q \<and> nextTask q' = Suc t \<and> accessOf q' = (accessOf q)(t := a) \<and>
      (\<exists>S. startOrder q' = startOrder q @ S \<and> distinct S \<and>
        insert t (set (pendingTasks q)) = set (pendingTasks q') \<union> set S \<and> set (inFlight q') = set (inFlight q) \<union> set S)"
    using drain_sets [of p] by (simp add: drain_inv drain_frame)
next
  fix q q' t ok assume inv: "cq_inv q" and t: "t < nextTask q" and q': "cq_cancelTask t q = (q', ok)"
  then have core: "cq_core q" by (simp add: cq_inv_def)
  have acc: "accessOf q' = accessOf q"
    using q' by (auto simp: cq_cancelTask_def Let_def drain_access accessOf_def split: if_splits)
  show "cq_inv q' \<and> nextTask q' = nextTask q \<and> accessOf q' = accessOf q \<and> ok = (t \<in> set (pendingTasks q)) \<and>
      (\<exists>S. startOrder q' = startOrder q @ S \<and> distinct S \<and>
        set (pendingTasks q) - {t} = set (pendingTasks q') \<union> set S \<and> set (inFlight q') = set (inFlight q) \<union> set S)"
  proof (cases "qtHasStarted (taskOf q t) \<or> qtIsCancelled (taskOf q t)")
    case True
    then have "t \<notin> set (pendingTasks q)" using cq_coreD(5) [OF core, of t] by (auto simp: task_kinds)
    with True q' inv show ?thesis by (simp add: cq_cancelTask_def)
  next
    case False
    have "set (pendingTasks q) - {t} = set (remove1 t (pendingTasks q))"
      using cq_coreD(3) [OF core] by (simp add: strict_sorted_iff)
    moreover have "t \<in> set (pendingTasks q)" using cancel_pending [OF core t] False by blast
    moreover obtain p where "cq_core p" "q' = drain p" "ok" "inFlight p = inFlight q"
        "pendingTasks p = remove1 t (pendingTasks q)" "startOrder p = startOrder q" "nextTask p = nextTask q"
      using cancel_core [OF inv t False] q' by auto
    ultimately show ?thesis using drain_sets [of p] acc by (simp add: drain_inv drain_frame)
  qed
next
  fix q t assume inv: "cq_inv q" and t: "t \<in> set (inFlight q)"
  then have "cq_core q" by (simp add: cq_inv_def)
  then have "set (inFlight q) - {t} = set (remove1 t (inFlight q))" using cq_coreD(4) by simp
  moreover obtain p where "cq_core p" "cq_settle t True q = drain p" "inFlight p = remove1 t (inFlight q)"
      "pendingTasks p = pendingTasks q" "startOrder p = startOrder q" "nextTask p = nextTask q"
    using settle_core [OF inv t, of True] by auto
  moreover have "accessOf (cq_settle t True q) = accessOf q"
    by (auto simp: cq_settle_def Let_def drain_access accessOf_def)
  ultimately show "cq_inv (cq_settle t True q) \<and> nextTask (cq_settle t True q) = nextTask q \<and>
      accessOf (cq_settle t True q) = accessOf q \<and>
      (\<exists>S. startOrder (cq_settle t True q) = startOrder q @ S \<and> distinct S \<and>
        set (pendingTasks q) = set (pendingTasks (cq_settle t True q)) \<union> set S \<and>
        set (inFlight (cq_settle t True q)) = set (inFlight q) - {t} \<union> set S)"
    using drain_sets [of p] by (simp add: drain_inv drain_frame)
qed

end
