(* ===== verification/Agent_Manager_Proofs.thy ===== *)
theory Agent_Manager_Proofs
  imports Agent_Manager Run_Scheduler
begin

text \<open>
  The invariant of the agent manager. It relates the phase of every run to the queue (through the
  interface of \<^theory_text>\<open>run_scheduler\<close>), to the record, to the map of running agents and to the
  terminal events sent. The part that does not depend on the queue is kept under every update of a
  single run (\<open>body_update\<close>); a queue operation changes which runs wait and which are active, and then
  begins the runs it started.
\<close>

section \<open>Agent ids\<close>

definition undigit36 :: "char \<Rightarrow> nat" where
  "undigit36 c = (let d = of_char c in if d < 58 then d - 48 else d - 87)"

definition val36 :: "string \<Rightarrow> nat" where
  "val36 s = foldl (\<lambda>v c. 36 * v + undigit36 c) 0 s"

lemma undigit36:
  fixes d :: nat
  shows "d < 10 \<Longrightarrow> undigit36 (char_of (48 + d)) = d" "10 \<le> d \<Longrightarrow> d < 36 \<Longrightarrow> undigit36 (char_of (87 + d)) = d"
  by (auto simp: undigit36_def Let_def)

lemma val36_show36 [simp]: "val36 (show36 n) = n"
proof (induction n rule: show36.induct)
  case (1 n)
  show ?case
  proof (cases "n < 36")
    case True
    then show ?thesis using undigit36 [of n] by (simp add: show36.simps [of n] val36_def Let_def)
  next
    case False
    with 1 have IH: "val36 (show36 (n div 36)) = n div 36" by blast
    have "n mod 36 < 36" by simp
    then have "val36 (show36 n) = 36 * val36 (show36 (n div 36)) + n mod 36"
      using False undigit36 [of "n mod 36"] by (simp add: show36.simps [of n] val36_def Let_def)
    with IH show ?thesis by simp
  qed
qed

lemma show36_no_dash: "CHR ''-'' \<notin> set (show36 n)"
proof (induction n rule: show36.induct)
  case (1 n)
  have d: "CHR ''-'' \<noteq> char_of (if d < 10 then 48 + d else 87 + d)" if "d < 36" for d :: nat
  proof
    assume "CHR ''-'' = char_of (if d < 10 then 48 + d else 87 + d)"
    then have "of_char (CHR ''-'') = (of_char (char_of (if d < 10 then 48 + d else 87 + d) :: char) :: nat)" by simp
    with that show False by (auto split: if_splits)
  qed
  show ?case using 1 d [of n] d [of "n mod 36"] by (simp add: show36.simps [of n] Let_def)
qed

text \<open>Two agents of one manager never share an id, whatever the clock says.\<close>

lemma createAgentId_inj: "createAgentId m s = createAgentId m' s' \<Longrightarrow> s = s'"
proof -
  assume a: "createAgentId m s = createAgentId m' s'"
  have tw: "takeWhile (\<lambda>c. c \<noteq> CHR ''-'') (rev (createAgentId n i)) = rev (show36 i)" for n i
    using show36_no_dash [of i] by (auto simp: createAgentId_def intro!: takeWhile_append2 [THEN trans])
  have "rev (show36 s) = rev (show36 s')" using tw [of m s] tw [of m' s'] a by simp
  then have "val36 (show36 s) = val36 (show36 s')" by simp
  then show "s = s'" by simp
qed

section \<open>The invariant\<close>

definition settledPhase :: "RunPhase \<Rightarrow> bool" where
  "settledPhase p \<longleftrightarrow> p = RunReturned \<or> p = RunFinished"

definition activePhase :: "RunPhase \<Rightarrow> bool" where
  "activePhase p \<longleftrightarrow> p = RunAssembling \<or> p = RunStopping \<or> p = RunAwaiting \<or> p = RunReturned"

definition limitOrigin :: "AgentCancellationOrigin \<Rightarrow> bool" where
  "limitOrigin origin \<longleftrightarrow> origin = OriginTimeout \<or> origin = OriginMaxTurns"

text \<open>How a cancelled run ends.\<close>

definition cancelledEnd :: "AgentCancellationOrigin \<Rightarrow> AgentRecord \<Rightarrow> bool" where
  "cancelledEnd origin r \<longleftrightarrow> recCancellationOrigin r = Some origin \<and> recStatus r \<in> {AgFailed, AgCancelled} \<and>
     (\<not> limitOrigin origin \<longrightarrow> recStatus r = AgCancelled)"

text \<open>One run and its record, given whether the run waits, is active, is in the map of running agents, and
  whether the manager shuts down.\<close>

definition run_ok :: "bool \<Rightarrow> bool \<Rightarrow> bool \<Rightarrow> bool \<Rightarrow> AgentRun \<Rightarrow> AgentRecord \<Rightarrow> bool" where
  "run_ok waits active running shut run r \<longleftrightarrow>
     recId r = runAgentId run \<and>
     (recCompletedAt r \<noteq> None \<longleftrightarrow> settledPhase (runPhase run)) \<and>
     (running \<longleftrightarrow> \<not> settledPhase (runPhase run)) \<and>
     (waits \<longleftrightarrow> runPhase run = RunQueued) \<and> (active \<longleftrightarrow> activePhase (runPhase run)) \<and>
     (runPhase run \<in> {RunRejected, RunStopping} \<longrightarrow> runCancellation run \<noteq> None) \<and>
     (shut \<and> \<not> settledPhase (runPhase run) \<longrightarrow> runCancellation run \<noteq> None) \<and>
     (\<forall>origin. settledPhase (runPhase run) \<and> runCancellation run = Some origin \<longrightarrow> cancelledEnd origin r)"

text \<open>A terminal event carries the record as it is from then on, and the result it was made of.\<close>

definition event_ok :: "(string \<times> AgentRecord) list \<Rightarrow> AgentRecord \<times> AgentTerminalEvent \<Rightarrow> bool" where
  "event_ok records = (\<lambda>(r, ev). map_of records (recId r) = Some r \<and>
     (\<exists>now. r = resultRecord now (evResult ev) r))"

definition am_body :: "nat \<Rightarrow> nat set \<Rightarrow> nat set \<Rightarrow> (nat \<Rightarrow> WorkspaceAccess) \<Rightarrow> AgentManager \<Rightarrow> bool" where
  "am_body n W A F am \<longleftrightarrow>
     (\<forall>t. amRuns am t \<noteq> None \<longleftrightarrow> t < n) \<and>
     (\<forall>t run. amRuns am t = Some run \<longrightarrow> (\<exists>m. runAgentId run = createAgentId m (Suc t)) \<and>
        taskWorkspaceAccess (runAgentTask run) = F t \<and>
        (\<exists>r. map_of (amRecords am) (runAgentId run) = Some r \<and>
             run_ok (t \<in> W) (t \<in> A) ((runAgentId run, t) \<in> set (amRunning am)) (amShuttingDown am) run r)) \<and>
     (\<forall>k r. map_of (amRecords am) k = Some r \<longrightarrow> (\<exists>t run. amRuns am t = Some run \<and> runAgentId run = k)) \<and>
     distinct (map fst (amRecords am)) \<and>
     (\<forall>e \<in> set (amTerminal am). event_ok (amRecords am) e) \<and>
     distinct (map (recId \<circ> fst) (amTerminal am)) \<and>
     (\<forall>k r. map_of (amRecords am) k = Some r \<and> recCompletedAt r \<noteq> None \<longrightarrow> k \<in> (recId \<circ> fst) ` set (amTerminal am)) \<and>
     (\<forall>k t. (k, t) \<in> set (amRunning am) \<or> amQueuedCancels am k = Some t \<longrightarrow>
        (\<exists>run. amRuns am t = Some run \<and> runAgentId run = k)) \<and>
     amNextSequence am = Suc n"

definition am_inv :: "AgentManager \<Rightarrow> bool" where
  "am_inv am \<longleftrightarrow> cq_inv (amQueue am) \<and>
     am_body (nextTask (amQueue am)) (set (pendingTasks (amQueue am))) (set (inFlight (amQueue am)))
       (accessOf (amQueue am)) am"

lemma am_bodyD:
  assumes "am_body n W A F am"
  shows "amRuns am t \<noteq> None \<longleftrightarrow> t < n"
    and "amRuns am t = Some run \<Longrightarrow> \<exists>m. runAgentId run = createAgentId m (Suc t)"
    and "amRuns am t = Some run \<Longrightarrow> taskWorkspaceAccess (runAgentTask run) = F t"
    and "amRuns am t = Some run \<Longrightarrow> \<exists>r. map_of (amRecords am) (runAgentId run) = Some r \<and>
           run_ok (t \<in> W) (t \<in> A) ((runAgentId run, t) \<in> set (amRunning am)) (amShuttingDown am) run r"
    and "map_of (amRecords am) k = Some r \<Longrightarrow> \<exists>t run. amRuns am t = Some run \<and> runAgentId run = k"
    and "distinct (map fst (amRecords am))"
    and "e \<in> set (amTerminal am) \<Longrightarrow> event_ok (amRecords am) e"
    and "distinct (map (recId \<circ> fst) (amTerminal am))"
    and "map_of (amRecords am) k = Some r \<Longrightarrow> recCompletedAt r \<noteq> None \<Longrightarrow> k \<in> (recId \<circ> fst) ` set (amTerminal am)"
    and "(k, t) \<in> set (amRunning am) \<Longrightarrow> \<exists>run. amRuns am t = Some run \<and> runAgentId run = k"
    and "amQueuedCancels am k = Some t \<Longrightarrow> \<exists>run. amRuns am t = Some run \<and> runAgentId run = k"
    and "amNextSequence am = Suc n"
  using assms unfolding am_body_def by blast+

lemma runs_inj:
  assumes "am_body n W A F am" "amRuns am t = Some run" "amRuns am u = Some run'" "runAgentId run = runAgentId run'"
  shows "t = u"
proof -
  obtain m m' where "runAgentId run = createAgentId m (Suc t)" "runAgentId run' = createAgentId m' (Suc u)"
    using am_bodyD(2) [OF assms(1)] assms(2,3) by blast
  with assms(4) createAgentId_inj show ?thesis by fastforce
qed

section \<open>Updates of one run\<close>

lemma map_of_updRecord [simp]:
  "map_of (amRecords (updRecord k f am)) k0 =
     (if k0 = k then map_option f (map_of (amRecords am) k) else map_of (amRecords am) k0)"
  by (simp add: updRecord_def map_of_update)

lemma keys_updRecord [simp]: "map fst (amRecords (updRecord k f am)) = map fst (amRecords am)"
  by (simp add: updRecord_def keys_update del: map_map)

lemma resultRecord_idem: "resultRecord now res r = resultRecord now res (resultRecord now res r)"
  by (simp add: resultRecord_def)

lemma resultRecord_simps [simp]:
  "recId (resultRecord now res r) = recId r" "recCompletedAt (resultRecord now res r) = Some now"
  "recStatus (resultRecord now res r) = statusOf (resStatus res)"
  "recCancellationOrigin (resultRecord now res r) = resCancellationOrigin res"
  by (simp_all add: resultRecord_def)

lemma event_completed: "event_ok records (r, ev) \<Longrightarrow> recCompletedAt r \<noteq> None"
  by (auto simp: event_ok_def) (metis option.distinct(1) resultRecord_simps(2))

text \<open>What an update does to the terminal events: nothing, or one event for a record that completes now.\<close>

definition terminal_update ::
  "AgentManager \<Rightarrow> AgentRecord \<Rightarrow> AgentManager \<Rightarrow> AgentRecord \<Rightarrow> bool" where
  "terminal_update am r am' r' \<longleftrightarrow>
     amTerminal am' = amTerminal am \<and> (r' = r \<or> recCompletedAt r = None \<and> recCompletedAt r' = None) \<or>
     (\<exists>now ev. amTerminal am' = amTerminal am @ [(r', ev)] \<and> recCompletedAt r = None \<and> r' = resultRecord now (evResult ev) r)"

lemma terminal_update_ok:
  assumes inv: "am_body n W A F am" and r: "map_of (amRecords am) k = Some r" "recId r' = k"
    and recs: "\<And>k0. map_of (amRecords am') k0 = (if k0 = k then Some r' else map_of (amRecords am) k0)"
    and tmu: "terminal_update am r am' r'"
  shows "\<forall>e \<in> set (amTerminal am'). event_ok (amRecords am') e"
    and "distinct (map (recId \<circ> fst) (amTerminal am'))"
    and "\<forall>k0 r0. map_of (amRecords am') k0 = Some r0 \<and> recCompletedAt r0 \<noteq> None \<longrightarrow>
           k0 \<in> (recId \<circ> fst) ` set (amTerminal am')"
proof -
  note d = am_bodyD [OF inv]
  have old: "event_ok (amRecords am') e" if e: "e \<in> set (amTerminal am)" and "recCompletedAt r = None \<or> r' = r" for e
  proof -
    obtain x ev where x: "e = (x, ev)" by (cases e)
    have ok: "event_ok (amRecords am) (x, ev)" using d(7) [OF e] x by simp
    then have "x = r \<or> recId x \<noteq> k" using r(1) by (auto simp: event_ok_def)
    with event_completed [OF ok] that(2) ok show ?thesis by (auto simp: x event_ok_def recs r(2))
  qed
  have fresh: "k \<notin> (recId \<circ> fst) ` set (amTerminal am)" if "recCompletedAt r = None"
  proof
    assume "k \<in> (recId \<circ> fst) ` set (amTerminal am)"
    then obtain x ev where x: "(x, ev) \<in> set (amTerminal am)" "recId x = k" by auto
    then have "event_ok (amRecords am) (x, ev)" using d(7) by blast
    with event_completed [OF this] x(2) r(1) that show False by (auto simp: event_ok_def)
  qed
  have new: "event_ok (amRecords am') (r', ev)" if "r' = resultRecord now (evResult ev) r" for now ev
  proof -
    have "r' = resultRecord now (evResult ev) r'" using that resultRecord_idem by metis
    then show ?thesis by (auto simp: event_ok_def recs r(2))
  qed
  show "\<forall>e \<in> set (amTerminal am'). event_ok (amRecords am') e"
    using tmu old new unfolding terminal_update_def by auto
  show "distinct (map (recId \<circ> fst) (amTerminal am'))"
    using tmu fresh d(8) r(2) unfolding terminal_update_def by auto
  show "\<forall>k0 r0. map_of (amRecords am') k0 = Some r0 \<and> recCompletedAt r0 \<noteq> None \<longrightarrow>
      k0 \<in> (recId \<circ> fst) ` set (amTerminal am')"
    using tmu d(9) r unfolding terminal_update_def recs by (auto split: if_splits)
qed

lemma body_update:
  assumes inv: "am_body n W A F am" and run: "amRuns am t = Some run"
    and runs: "amRuns am' = (amRuns am)(t \<mapsto> run')" "runAgentId run' = runAgentId run" "runAgentTask run' = runAgentTask run"
    and r: "map_of (amRecords am) (runAgentId run) = Some r"
    and recs: "\<And>k0. map_of (amRecords am') k0 = (if k0 = runAgentId run then Some r' else map_of (amRecords am) k0)"
      "map fst (amRecords am') = map fst (amRecords am)"
    and running: "\<And>x. x \<noteq> (runAgentId run, t) \<Longrightarrow> x \<in> set (amRunning am') \<longleftrightarrow> x \<in> set (amRunning am)"
    and qc: "\<And>k u. amQueuedCancels am' k = Some u \<Longrightarrow> amQueuedCancels am k = Some u"
    and frame: "amShuttingDown am' = amShuttingDown am" "amNextSequence am' = amNextSequence am"
    and sets: "\<And>u. u \<noteq> t \<Longrightarrow> (u \<in> W' \<longleftrightarrow> u \<in> W) \<and> (u \<in> A' \<longleftrightarrow> u \<in> A)"
    and ok: "run_ok (t \<in> W') (t \<in> A') ((runAgentId run, t) \<in> set (amRunning am')) (amShuttingDown am) run' r'"
    and tmu: "terminal_update am r am' r'"
  shows "am_body n W' A' F am'"
proof -
  note d = am_bodyD [OF inv]
  have "recId r' = runAgentId run" using ok runs(2) by (simp add: run_ok_def)
  note t = terminal_update_ok [OF inv r this recs(1) tmu]
  have other: "runAgentId x \<noteq> runAgentId run" if "amRuns am u = Some x" "u \<noteq> t" for u x
    using runs_inj [OF inv that(1) run] that(2) by auto
  show ?thesis
    unfolding am_body_def
  proof (intro conjI)
    show "\<forall>u. amRuns am' u \<noteq> None \<longleftrightarrow> u < n" using d(1) run runs(1) by (auto split: if_splits)
    show "\<forall>u x. amRuns am' u = Some x \<longrightarrow> (\<exists>m. runAgentId x = createAgentId m (Suc u)) \<and>
        taskWorkspaceAccess (runAgentTask x) = F u \<and>
        (\<exists>r. map_of (amRecords am') (runAgentId x) = Some r \<and>
             run_ok (u \<in> W') (u \<in> A') ((runAgentId x, u) \<in> set (amRunning am')) (amShuttingDown am') x r)"
    proof (intro allI impI)
      fix u x assume x: "amRuns am' u = Some x"
      show "(\<exists>m. runAgentId x = createAgentId m (Suc u)) \<and> taskWorkspaceAccess (runAgentTask x) = F u \<and>
        (\<exists>r. map_of (amRecords am') (runAgentId x) = Some r \<and>
             run_ok (u \<in> W') (u \<in> A') ((runAgentId x, u) \<in> set (amRunning am')) (amShuttingDown am') x r)"
      proof (cases "u = t")
        case True
        with x runs have "x = run'" by simp
        with True d(2,3) [OF run] ok show ?thesis by (simp add: runs recs frame)
      next
        case False
        with x runs have x: "amRuns am u = Some x" by simp
        with False d(2-4) [OF x] show ?thesis
          using other [OF x False] running [of "(runAgentId x, u)"] sets [OF False] by (simp add: recs frame)
      qed
    qed
    show "\<forall>k r. map_of (amRecords am') k = Some r \<longrightarrow> (\<exists>t run. amRuns am' t = Some run \<and> runAgentId run = k)"
    proof (intro allI impI)
      fix k x assume "map_of (amRecords am') k = Some x"
      then have "\<exists>y. map_of (amRecords am) k = Some y" using r by (auto simp: recs split: if_splits)
      then obtain u y where "amRuns am u = Some y" "runAgentId y = k" using d(5) by blast
      with run show "\<exists>t run. amRuns am' t = Some run \<and> runAgentId run = k"
        by (cases "u = t") (auto simp: runs intro: exI [of _ t] exI [of _ u])
    qed
    show "\<forall>k u. (k, u) \<in> set (amRunning am') \<or> amQueuedCancels am' k = Some u \<longrightarrow>
        (\<exists>run. amRuns am' u = Some run \<and> runAgentId run = k)"
    proof (intro allI impI)
      fix k u assume a: "(k, u) \<in> set (amRunning am') \<or> amQueuedCancels am' k = Some u"
      show "\<exists>run. amRuns am' u = Some run \<and> runAgentId run = k"
      proof (cases "(k, u) = (runAgentId run, t)")
        case True
        then show ?thesis by (simp add: runs)
      next
        case False
        with a have "(k, u) \<in> set (amRunning am) \<or> amQueuedCancels am k = Some u" using running qc by blast
        then obtain x where "amRuns am u = Some x" "runAgentId x = k" using d(10,11) by blast
        with run show ?thesis by (cases "u = t") (auto simp: runs)
      qed
    qed
  qed (use t d(6,12) recs(2) frame in simp_all)
qed

section \<open>The parts of a run\<close>

lemma body_frame [simp]:
  "am_body n W A F (am\<lparr>amQueue := q\<rparr>) = am_body n W A F am"
  "am_body n W A F (am\<lparr>amCompletions := c\<rparr>) = am_body n W A F am"
  "am_body n W A F (am\<lparr>amAssembled := ts\<rparr>) = am_body n W A F am"
  "am_body n W A F (am\<lparr>amCancelCalls := ts\<rparr>) = am_body n W A F am"
  by (simp_all add: am_body_def)

lemma updRun_frame [simp]:
  "amQueue (updRun t f am) = amQueue am" "amRecords (updRun t f am) = amRecords am"
  "amQueuedCancels (updRun t f am) = amQueuedCancels am" "amRunning (updRun t f am) = amRunning am"
  "amTerminal (updRun t f am) = amTerminal am" "amShuttingDown (updRun t f am) = amShuttingDown am"
  "amNextSequence (updRun t f am) = amNextSequence am" "amAssembled (updRun t f am) = amAssembled am"
  "amRuns (updRun t f am) u = (if u = t then map_option f (amRuns am t) else amRuns am u)"
  by (simp_all add: updRun_def)

lemma updRecord_frame [simp]:
  "amQueue (updRecord k g am) = amQueue am" "amRuns (updRecord k g am) = amRuns am"
  "amQueuedCancels (updRecord k g am) = amQueuedCancels am" "amRunning (updRecord k g am) = amRunning am"
  "amTerminal (updRecord k g am) = amTerminal am" "amShuttingDown (updRecord k g am) = amShuttingDown am"
  "amNextSequence (updRecord k g am) = amNextSequence am" "amAssembled (updRecord k g am) = amAssembled am"
  by (simp_all add: updRecord_def)

lemma body_run:
  assumes "am_body n W A F am" "amRuns am t = Some run"
  obtains r where "map_of (amRecords am) (runAgentId run) = Some r"
    "run_ok (t \<in> W) (t \<in> A) ((runAgentId run, t) \<in> set (amRunning am)) (amShuttingDown am) run r"
  using am_bodyD(4) [OF assms] by blast

text \<open>Only the run itself changes.\<close>

lemma body_updRun:
  assumes inv: "am_body n W A F am" and run: "amRuns am t = Some run"
    and f: "runAgentId (f run) = runAgentId run" "runAgentTask (f run) = runAgentTask run"
    and sets: "\<And>u. u \<noteq> t \<Longrightarrow> (u \<in> W' \<longleftrightarrow> u \<in> W) \<and> (u \<in> A' \<longleftrightarrow> u \<in> A)"
    and ok: "\<And>r. run_ok (t \<in> W) (t \<in> A) ((runAgentId run, t) \<in> set (amRunning am)) (amShuttingDown am) run r \<Longrightarrow>
      run_ok (t \<in> W') (t \<in> A') ((runAgentId run, t) \<in> set (amRunning am)) (amShuttingDown am) (f run) r"
  shows "am_body n W' A' F (updRun t f am)"
proof -
  obtain r where r: "map_of (amRecords am) (runAgentId run) = Some r"
    "run_ok (t \<in> W) (t \<in> A) ((runAgentId run, t) \<in> set (amRunning am)) (amShuttingDown am) run r"
    using body_run [OF inv run] .
  show ?thesis
  proof (rule body_update [OF inv run _ f r(1) _ _ _ _ _ _ sets, where r' = r])
    show "amRuns (updRun t f am) = (amRuns am)(t \<mapsto> f run)" using run by (auto simp: updRun_def)
  qed (use r ok in \<open>auto simp: terminal_update_def\<close>)
qed

text \<open>Updates that change neither the phase nor a cancellation already requested.\<close>

lemma body_updRun_same:
  assumes inv: "am_body n W A F am"
    and f: "\<And>run. amRuns am t = Some run \<Longrightarrow> runAgentId (f run) = runAgentId run \<and> runAgentTask (f run) = runAgentTask run \<and>
      runPhase (f run) = runPhase run \<and>
      (runCancellation (f run) = runCancellation run \<or> runCancellation run = None \<and> \<not> settledPhase (runPhase run))"
    and keep: "\<And>run. amRuns am t = Some run \<Longrightarrow> runCancellation run \<noteq> None \<Longrightarrow> runCancellation (f run) \<noteq> None"
  shows "am_body n W A F (updRun t f am)"
proof (cases "amRuns am t")
  case None
  then have "updRun t f am = am" by (simp add: updRun_def fun_upd_idem)
  with inv show ?thesis by simp
next
  case (Some run)
  note f = f [OF Some] and keep = keep [OF Some]
  from f show ?thesis
    by (intro body_updRun [OF inv Some]) (use keep in \<open>auto simp: run_ok_def\<close>)
qed

lemma request_simps [simp]:
  "runAgentId (requestCancellation origin run) = runAgentId run"
  "runAgentTask (requestCancellation origin run) = runAgentTask run"
  "runPhase (requestCancellation origin run) = runPhase run"
  "runHandle (requestCancellation origin run) = runHandle run"
  "runCancellation (requestCancellation origin run) = nullish_option (runCancellation run) (Some origin)"
  by (auto simp: requestCancellation_def nullish_option_conv split: option.split)

lemma body_request:
  assumes "am_body n W A F am" "amRuns am t = Some run" "\<not> settledPhase (runPhase run)"
  shows "am_body n W A F (updRun t (requestCancellation origin) am)"
  using assms(1)
  by (rule body_updRun_same) (use assms(2,3) in \<open>auto simp: nullish_option_conv split: option.split\<close>)

lemma body_cancelRun:
  assumes "am_body n W A F am"
  shows "am_body n W A F (cancelRun t am)"
proof -
  have "am_body n W A F (updRun t (\<lambda>r. r\<lparr>runCancelCalled := True\<rparr>) am)"
    by (rule body_updRun_same [OF assms]) auto
  with assms show ?thesis by (simp add: cancelRun_def split: option.split)
qed

text \<open>The run ends: the result is applied to its record, an event is sent and the maps forget the run.\<close>

lemma body_end:
  assumes inv: "am_body n W A F am" and run: "amRuns am t = Some run" and live: "\<not> settledPhase (runPhase run)"
    and res: "\<And>origin. runCancellation run = Some origin \<Longrightarrow> resCancellationOrigin res = Some origin \<and>
      resStatus res \<in> {StatusFailed, StatusCancelled} \<and> (\<not> limitOrigin origin \<longrightarrow> resStatus res = StatusCancelled)"
    and p: "p = RunReturned \<and> A' = insert t A \<or> p = RunFinished \<and> A' = A - {t}"
  shows "am_body n (W - {t}) A' F
    (updRun t (\<lambda>r. r\<lparr>runPhase := p\<rparr>) (forgetRun (runAgentId run) (applyResult now (runAgentId run) res am)))"
proof -
  obtain r where r: "map_of (amRecords am) (runAgentId run) = Some r"
    "run_ok (t \<in> W) (t \<in> A) ((runAgentId run, t) \<in> set (amRunning am)) (amShuttingDown am) run r"
    using body_run [OF inv run] .
  with live have open_rec: "recCompletedAt r = None" by (simp add: run_ok_def)
  let ?k = "runAgentId run"
  let ?am = "updRun t (\<lambda>r. r\<lparr>runPhase := p\<rparr>) (forgetRun ?k (applyResult now ?k res am))"
  have running: "(k, u) \<in> set (amRunning am) \<Longrightarrow> k = ?k \<Longrightarrow> u = t" for k u
    using am_bodyD(10) [OF inv] runs_inj [OF inv _ run] by blast
  show ?thesis
  proof (rule body_update [OF inv run _ _ _ r(1), where r' = "resultRecord now res r" and run' = "run\<lparr>runPhase := p\<rparr>"])
    show "amRuns ?am = (amRuns am)(t \<mapsto> run\<lparr>runPhase := p\<rparr>)"
      using run r(1) open_rec by (auto simp: updRun_def forgetRun_def applyResult_def)
    show "map_of (amRecords ?am) k0 = (if k0 = ?k then Some (resultRecord now res r) else map_of (amRecords am) k0)" for k0
      using r(1) open_rec by (simp add: forgetRun_def applyResult_def)
    show "map fst (amRecords ?am) = map fst (amRecords am)"
      using r(1) open_rec by (simp add: forgetRun_def applyResult_def)
    show "x \<in> set (amRunning ?am) \<longleftrightarrow> x \<in> set (amRunning am)" if "x \<noteq> (?k, t)" for x
      using r(1) open_rec that running by (cases x) (auto simp: forgetRun_def applyResult_def)
    show "terminal_update am r ?am (resultRecord now res r)"
      unfolding terminal_update_def using r(1) open_rec
      by (intro disjI2 exI [of _ now] exI [of _ "\<lparr>evResult = res, evParent = amParents am ?k\<rparr>"])
        (simp add: forgetRun_def applyResult_def)
    show "run_ok (t \<in> W - {t}) (t \<in> A') ((?k, t) \<in> set (amRunning ?am)) (amShuttingDown am)
        (run\<lparr>runPhase := p\<rparr>) (resultRecord now res r)"
      using r p res open_rec
      by (auto simp: run_ok_def forgetRun_def applyResult_def settledPhase_def activePhase_def cancelledEnd_def)
  qed (use r(1) open_rec p in \<open>auto simp: forgetRun_def applyResult_def split: if_splits\<close>)
qed

end
