(* ===== verification/Agent_Manager_Steps.thy ===== *)
theory Agent_Manager_Steps
  imports Agent_Manager_Proofs
begin

text \<open>
  Every operation and every continuation of the agent manager keeps its invariant.
\<close>

section \<open>Ending and beginning a run\<close>

lemma body_returnRun:
  assumes "am_body n W A F am" "amRuns am t = Some run" "\<not> settledPhase (runPhase run)"
    and "\<And>origin. runCancellation run = Some origin \<Longrightarrow> resCancellationOrigin res = Some origin \<and>
      resStatus res \<in> {StatusFailed, StatusCancelled} \<and> (\<not> limitOrigin origin \<longrightarrow> resStatus res = StatusCancelled)"
  shows "am_body n (W - {t}) (insert t A) F (returnRun now t res am)"
  using body_end [OF assms, of RunReturned "insert t A" now] assms(2) by (simp add: returnRun_def)

lemma body_failRun:
  assumes inv: "am_body n W A F am" and run: "amRuns am t = Some run" and live: "\<not> settledPhase (runPhase run)"
  shows "am_body n (W - {t}) (insert t A) F (failRun now t message am)"
proof -
  obtain r where r: "map_of (amRecords am) (runAgentId run) = Some r" using body_run [OF inv run] .
  show ?thesis
    unfolding failRun_def using run r
    by (auto intro!: body_returnRun [OF inv run live] simp: interruptedResult_def limitOrigin_def Let_def)
qed

text \<open>A record that is not completed may change in its other fields.\<close>

lemma body_updRecord:
  assumes inv: "am_body n W A F am" and run: "amRuns am t = Some run" and live: "\<not> settledPhase (runPhase run)"
    and g: "\<And>r. recId (g r) = recId r \<and> recCompletedAt (g r) = recCompletedAt r"
  shows "am_body n W A F (updRecord (runAgentId run) g am)"
proof -
  obtain r where r: "map_of (amRecords am) (runAgentId run) = Some r"
    "run_ok (t \<in> W) (t \<in> A) ((runAgentId run, t) \<in> set (amRunning am)) (amShuttingDown am) run r"
    using body_run [OF inv run] .
  show ?thesis
    by (rule body_update [OF inv run _ _ _ r(1), where r' = "g r" and run' = run])
      (use run r g live in \<open>auto simp: terminal_update_def run_ok_def\<close>)
qed

lemma body_beginRun:
  assumes inv: "am_body n W A F am" and t: "t \<in> W" "t < n" "t \<notin> A"
  shows "am_body n (W - {t}) (insert t A) F (beginRun now t am)"
proof -
  obtain run where run: "amRuns am t = Some run" using am_bodyD(1) [OF inv, of t] t(2) by auto
  obtain r where r: "map_of (amRecords am) (runAgentId run) = Some r"
    "run_ok (t \<in> W) (t \<in> A) ((runAgentId run, t) \<in> set (amRunning am)) (amShuttingDown am) run r"
    using body_run [OF inv run] .
  then have q: "runPhase run = RunQueued" using t(1) by (simp add: run_ok_def)
  then have live: "\<not> settledPhase (runPhase run)" by (simp add: settledPhase_def)
  let ?am = "updRecord (runAgentId run) (\<lambda>r. r\<lparr>recStatus := AgStarting, recStartedAt := Some now\<rparr>) am"
  have am: "am_body n W A F ?am" by (rule body_updRecord [OF inv run live]) simp
  have run': "amRuns ?am t = Some run" using run by simp
  have "am_body n (W - {t}) (insert t A) F
      (updRun t (\<lambda>r. r\<lparr>runPhase := RunAssembling, runAssemblyPending := True\<rparr>) ?am)" if "runCancellation run = None"
    by (rule body_updRun [OF am run'])
      (use q that in \<open>auto simp: run_ok_def settledPhase_def activePhase_def\<close>)
  then show ?thesis
    using run body_failRun [OF am run' live] by (simp add: beginRun_def Let_def)
qed

lemma body_begin_all:
  assumes "am_body n W A F am" "distinct S" "set S \<subseteq> W" "W \<subseteq> {..<n}" "A \<inter> W = {}"
  shows "am_body n (W - set S) (A \<union> set S) F (fold (beginRun now) S am)"
  using assms
proof (induction S arbitrary: W A am)
  case (Cons t S)
  have "am_body n (W - {t}) (insert t A) F (beginRun now t am)"
    using Cons.prems by (intro body_beginRun) auto
  then have "am_body n (W - {t} - set S) (insert t A \<union> set S) F (fold (beginRun now) S (beginRun now t am))"
    using Cons.prems by (intro Cons.IH) auto
  moreover have "W - {t} - set S = W - set (t # S)" "insert t A \<union> set S = A \<union> set (t # S)" by auto
  ultimately show ?case by simp
qed simp

section \<open>What no operation undoes\<close>

text \<open>A run keeps its id, its task and the first cancellation it got. Once the manager shuts down it stays so,
  and no child session is assembled any more.\<close>

definition run_keeps :: "AgentRun \<Rightarrow> AgentRun \<Rightarrow> bool" where
  "run_keeps run run' \<longleftrightarrow> runAgentId run' = runAgentId run \<and> runAgentTask run' = runAgentTask run \<and>
     (runCancellation run \<noteq> None \<longrightarrow> runCancellation run' = runCancellation run)"

definition advances :: "AgentManager \<Rightarrow> AgentManager \<Rightarrow> bool" where
  "advances am am' \<longleftrightarrow>
     (\<forall>t run. amRuns am t = Some run \<longrightarrow> (\<exists>run'. amRuns am' t = Some run' \<and> run_keeps run run')) \<and>
     (amShuttingDown am \<longrightarrow> amShuttingDown am' \<and> amAssembled am' = amAssembled am)"

lemma advances_refl [simp]: "advances am am"
  by (simp add: advances_def run_keeps_def)

lemma advances_trans [trans]: "advances am1 am2 \<Longrightarrow> advances am2 am3 \<Longrightarrow> advances am1 am3"
  unfolding advances_def run_keeps_def by (metis (no_types, lifting))

lemma advances_frame:
  "amRuns am' = amRuns am \<Longrightarrow> amShuttingDown am' = amShuttingDown am \<Longrightarrow> amAssembled am' = amAssembled am \<Longrightarrow>
   advances am am'"
  by (simp add: advances_def run_keeps_def)

lemma advances_updRun: "(\<And>run. amRuns am t = Some run \<Longrightarrow> run_keeps run (f run)) \<Longrightarrow> advances am (updRun t f am)"
  by (auto simp: advances_def run_keeps_def)

lemma keeps_request [simp]: "run_keeps run (requestCancellation origin run)"
  by (simp add: run_keeps_def nullish_option_conv split: option.split)

lemma keeps_fields [simp]:
  "run_keeps run (run\<lparr>runPhase := p\<rparr>)" "run_keeps run (run\<lparr>runCancelCalled := b\<rparr>)"
  "run_keeps run (run\<lparr>runAssemblyPending := b\<rparr>)" "run_keeps run (run\<lparr>runHandle := h, runAssemblyPending := b\<rparr>)"
  "run_keeps run (run\<lparr>runPhase := p, runAssemblyPending := b\<rparr>)"
  by (simp_all add: run_keeps_def)

lemma advances_end: "advances am (forgetRun k (applyResult now k res am))"
  by (rule advances_frame) (simp_all add: forgetRun_def applyResult_def split: option.split)

lemma advances_cancelRun: "advances am (cancelRun t am)"
proof -
  have "advances am (updRun t (\<lambda>r. r\<lparr>runCancelCalled := True\<rparr>) am)" by (rule advances_updRun) simp
  also have "advances \<dots> ((updRun t (\<lambda>r. r\<lparr>runCancelCalled := True\<rparr>) am)\<lparr>amCancelCalls := amCancelCalls am @ [t]\<rparr>)"
    by (rule advances_frame) simp_all
  finally show ?thesis by (simp add: cancelRun_def split: option.split)
qed

lemma advances_returnRun: "advances am (returnRun now t res am)"
  unfolding returnRun_def
  by (auto split: option.split intro: advances_trans [OF advances_end advances_updRun])

lemma advances_failRun: "advances am (failRun now t message am)"
  by (simp add: failRun_def advances_returnRun split: option.split)

lemma advances_updRecord: "advances am (updRecord k g am)"
  by (rule advances_frame) simp_all

lemma advances_beginRun:
  assumes "\<And>run. amShuttingDown am \<Longrightarrow> amRuns am t = Some run \<Longrightarrow> runCancellation run \<noteq> None"
  shows "advances am (beginRun now t am)"
proof (cases "amRuns am t")
  case None
  then show ?thesis by (simp add: beginRun_def)
next
  case (Some run)
  let ?am = "updRecord (runAgentId run) (\<lambda>r. r\<lparr>recStatus := AgStarting, recStartedAt := Some now\<rparr>) am"
  have "advances am ?am" by (rule advances_updRecord)
  also have "advances ?am (beginRun now t am)"
  proof (cases "runCancellation run = None")
    case True
    with assms Some have "\<not> amShuttingDown am" by blast
    with True Some show ?thesis by (simp add: beginRun_def Let_def) (simp add: advances_def run_keeps_def)
  next
    case False
    with Some show ?thesis by (simp add: beginRun_def Let_def advances_failRun)
  qed
  finally show ?thesis .
qed

lemma dom_updRun [simp]: "dom (amRuns (updRun t f am)) = dom (amRuns am)"
  by (auto simp: dom_def split: if_splits)

lemma returnRun_runs:
  "amShuttingDown (returnRun now t res am) = amShuttingDown am"
  "dom (amRuns (returnRun now t res am)) = dom (amRuns am)"
  by (simp_all add: returnRun_def forgetRun_def applyResult_def split: option.split)

lemma beginRun_runs:
  "amShuttingDown (beginRun now t am) = amShuttingDown am"
  "dom (amRuns (beginRun now t am)) = dom (amRuns am)"
  by (simp_all add: beginRun_def failRun_def Let_def returnRun_runs del: map_of_updRecord split: option.split)

text \<open>A run that is cancelled stays so, hence the runs that a queue operation starts are all refused.\<close>

lemma advances_begin_all:
  assumes "\<And>t run. amShuttingDown am \<Longrightarrow> t \<in> set S \<Longrightarrow> amRuns am t = Some run \<Longrightarrow> runCancellation run \<noteq> None"
  shows "advances am (fold (beginRun now) S am)"
  using assms
proof (induction S arbitrary: am)
  case (Cons t S)
  have 1: "advances am (beginRun now t am)" by (rule advances_beginRun) (use Cons.prems in auto)
  have "advances (beginRun now t am) (fold (beginRun now) S (beginRun now t am))"
  proof (rule Cons.IH)
    fix u run' assume u: "amShuttingDown (beginRun now t am)" "u \<in> set S" "amRuns (beginRun now t am) u = Some run'"
    then obtain run where run: "amRuns am u = Some run" using beginRun_runs(2) [of now t am] by blast
    moreover have "runCancellation run \<noteq> None" using Cons.prems [OF _ _ run] u(1,2) by (simp add: beginRun_runs)
    ultimately show "runCancellation run' \<noteq> None"
      using 1 u(3) unfolding advances_def run_keeps_def by force
  qed
  with 1 show ?case using advances_trans by simp
qed simp

section \<open>Frames\<close>

lemma returnRun_queue [simp]: "amQueue (returnRun now t res am) = amQueue am"
  by (simp add: returnRun_def forgetRun_def applyResult_def split: option.split)

lemma failRun_queue [simp]: "amQueue (failRun now t message am) = amQueue am"
  by (simp add: failRun_def split: option.split)

lemma beginRun_queue [simp]: "amQueue (beginRun now t am) = amQueue am"
  by (simp add: beginRun_def Let_def split: option.split)

lemma begin_all_queue [simp]: "amQueue (fold (beginRun now) S am) = amQueue am"
  by (induction S arbitrary: am) simp_all

lemma withQueue_queue [simp]: "amQueue (withQueue now q am) = q"
  by (simp add: withQueue_def)

lemma cancelRun_queue [simp]: "amQueue (cancelRun t am) = amQueue am"
  by (simp add: cancelRun_def split: option.split)

section \<open>Queue operations\<close>

text \<open>A queue operation that starts the tasks \<open>S\<close>: before it, the runs that wait or start now.\<close>

lemma withQueue_inv:
  assumes q: "cq_inv q" "nextTask q = n" "accessOf q = F"
    and S: "startOrder q = startOrder (amQueue am) @ S" "distinct S" "W = set (pendingTasks q) \<union> set S"
      "set (inFlight q) = A \<union> set S"
    and body: "am_body n W A F am" and dis: "A \<inter> W = {}"
  shows "am_inv (withQueue now q am)" "advances am (withQueue now q am)"
proof -
  note s = cqs.started_split [OF q(1) S(3,4) dis]
  have "W \<subseteq> {..<n}" using cqs.below [OF q(1)] S(3,4) q(2) by auto
  from body_begin_all [OF _ S(2) s(1) this dis, of F "am\<lparr>amQueue := q\<rparr>"] body
  have "am_body n (set (pendingTasks q)) (set (inFlight q)) F (fold (beginRun now) S (am\<lparr>amQueue := q\<rparr>))"
    by (simp add: s(2,3))
  moreover have "withQueue now q am = fold (beginRun now) S (am\<lparr>amQueue := q\<rparr>)"
    by (simp add: withQueue_def S(1))
  ultimately show "am_inv (withQueue now q am)" using q by (simp add: am_inv_def)
  have "runCancellation run \<noteq> None" if t: "amShuttingDown am" "t \<in> set S" "amRuns am t = Some run" for t run
  proof -
    obtain r where "run_ok (t \<in> W) (t \<in> A) ((runAgentId run, t) \<in> set (amRunning am)) (amShuttingDown am) run r"
      using body_run [OF body t(3)] .
    with t(1,2) s(1) show ?thesis by (auto simp: run_ok_def settledPhase_def)
  qed
  then have "advances (am\<lparr>amQueue := q\<rparr>) (fold (beginRun now) S (am\<lparr>amQueue := q\<rparr>))"
    by (intro advances_begin_all) simp
  moreover have "advances am (am\<lparr>amQueue := q\<rparr>)" by (rule advances_frame) simp_all
  ultimately show "advances am (withQueue now q am)" using advances_trans by (simp add: withQueue_def S(1))
qed

lemma am_invD:
  assumes "am_inv am"
  shows "cq_inv (amQueue am)"
    "am_body (nextTask (amQueue am)) (set (pendingTasks (amQueue am))) (set (inFlight (amQueue am)))
       (accessOf (amQueue am)) am"
  using assms by (simp_all add: am_inv_def)

lemma cancelQueued_inv:
  assumes inv: "am_inv am"
    and req: "\<And>t run. amQueuedCancels am k = Some t \<Longrightarrow> amRuns am t = Some run \<Longrightarrow> runPhase run = RunQueued \<Longrightarrow>
      runCancellation run \<noteq> None"
  shows "am_inv (cancelQueued now k am) \<and> advances am (cancelQueued now k am)"
proof (cases "amQueuedCancels am k")
  case None
  with inv show ?thesis by (simp add: cancelQueued_def)
next
  case (Some t)
  let ?q = "amQueue am"
  let ?W = "set (pendingTasks ?q)" and ?A = "set (inFlight ?q)"
  note q = am_invD(1) [OF inv] and body = am_invD(2) [OF inv]
  obtain run where run: "amRuns am t = Some run" using am_bodyD(11) [OF body Some] by blast
  then have t: "t < nextTask ?q" using am_bodyD(1) [OF body, of t] by simp
  obtain q' ok where c: "cq_cancelTask t ?q = (q', ok)" by (cases "cq_cancelTask t ?q")
  obtain S where law: "cq_inv q'" "nextTask q' = nextTask ?q" "accessOf q' = accessOf ?q" "ok = (t \<in> ?W)"
      "startOrder q' = startOrder ?q @ S" "distinct S" "?W - {t} = set (pendingTasks q') \<union> set S"
      "set (inFlight q') = ?A \<union> set S"
    using cqs.cancel_law [OF q t c] by blast
  let ?am = "if ok then updRun t (\<lambda>r. r\<lparr>runPhase := RunRejected\<rparr>) am else am"
  have "am_body (nextTask ?q) (?W - {t}) ?A (accessOf ?q) ?am"
  proof (cases ok)
    case True
    then have "t \<in> ?W" "t \<notin> ?A" using law(4) cqs.disjoint [OF q] by auto
    moreover obtain r where "run_ok (t \<in> ?W) (t \<in> ?A) ((runAgentId run, t) \<in> set (amRunning am)) (amShuttingDown am) run r"
      using body_run [OF body run] .
    then have "runPhase run = RunQueued" using \<open>t \<in> ?W\<close> by (simp add: run_ok_def)
    ultimately have "am_body (nextTask ?q) (?W - {t}) ?A (accessOf ?q) (updRun t (\<lambda>r. r\<lparr>runPhase := RunRejected\<rparr>) am)"
      by (intro body_updRun [OF body run])
        (use req [OF Some run] in \<open>auto simp: run_ok_def settledPhase_def activePhase_def\<close>)
    with True show ?thesis by simp
  next
    case False
    with law(4) body show ?thesis by (simp only: if_False) simp
  qed
  moreover have "?A \<inter> (?W - {t}) = {}" using cqs.disjoint [OF q] by blast
  ultimately have "am_inv (withQueue now q' ?am) \<and> advances ?am (withQueue now q' ?am)"
    using law by (intro conjI withQueue_inv [where S = S]) auto
  moreover have "advances am ?am" by (auto intro: advances_updRun)
  ultimately have "am_inv (withQueue now q' ?am) \<and> advances am (withQueue now q' ?am)"
    using advances_trans by blast
  with Some c show ?thesis by (simp add: cancelQueued_def Let_def)
qed

section \<open>Operations\<close>

lemma map_of_append_fresh:
  "map_of xs k = None \<Longrightarrow> map_of (xs @ [(k, v)]) k0 = (if k0 = k then Some v else map_of xs k0)"
  by (auto simp: map_add_def split: option.split)

lemma body_start:
  assumes inv: "am_body n W A F am" and below: "W \<union> A \<subseteq> {..<n}" and adm: "\<not> amShuttingDown am"
    and id: "k = createAgentId now (Suc n)"
    and run: "runAgentId run = k" "runPhase run = RunQueued" "taskWorkspaceAccess (runAgentTask run) = access"
    and rec: "recId rcd = k" "recCompletedAt rcd = None"
  shows "am_body (Suc n) (insert n W) A (F(n := access))
    (am\<lparr>amNextSequence := Suc (Suc n), amRunning := amRunning am @ [(k, n)], amRecords := amRecords am @ [(k, rcd)],
        amParents := ps, amRuns := (amRuns am)(n \<mapsto> run)\<rparr>)" (is "am_body _ _ _ _ ?am")
proof -
  note d = am_bodyD [OF inv]
  have none: "amRuns am n = None" using d(1) [of n] by simp
  have fresh: "runAgentId x \<noteq> k" if "amRuns am u = Some x" for u x
  proof
    assume "runAgentId x = k"
    then have "u = n" using d(2) [OF that] createAgentId_inj id by fastforce
    with that none show False by simp
  qed
  then have absent: "map_of (amRecords am) k = None" using d(5) [of k] by (cases "map_of (amRecords am) k") auto
  note look = map_of_append_fresh [OF absent]
  have old: "event_ok (amRecords ?am) e" if "e \<in> set (amTerminal am)" for e
    using d(7) [OF that] by (auto simp: event_ok_def look absent)
  show ?thesis
    unfolding am_body_def
  proof (intro conjI)
    show "\<forall>t. amRuns ?am t \<noteq> None \<longleftrightarrow> t < Suc n" using d(1) by (auto simp: less_Suc_eq)
    show "\<forall>t x. amRuns ?am t = Some x \<longrightarrow> (\<exists>m. runAgentId x = createAgentId m (Suc t)) \<and>
        taskWorkspaceAccess (runAgentTask x) = (F(n := access)) t \<and>
        (\<exists>r. map_of (amRecords ?am) (runAgentId x) = Some r \<and>
             run_ok (t \<in> insert n W) (t \<in> A) ((runAgentId x, t) \<in> set (amRunning ?am)) (amShuttingDown ?am) x r)"
    proof (intro allI impI)
      fix t x assume x: "amRuns ?am t = Some x"
      show "(\<exists>m. runAgentId x = createAgentId m (Suc t)) \<and> taskWorkspaceAccess (runAgentTask x) = (F(n := access)) t \<and>
        (\<exists>r. map_of (amRecords ?am) (runAgentId x) = Some r \<and>
             run_ok (t \<in> insert n W) (t \<in> A) ((runAgentId x, t) \<in> set (amRunning ?am)) (amShuttingDown ?am) x r)"
      proof (cases "t = n")
        case True
        with x have "x = run" by simp
        moreover have "map_of (amRecords ?am) k = Some rcd" using look [of rcd k] by simp
        moreover have "n \<notin> A" using below by auto
        then have "run_ok True (n \<in> A) True (amShuttingDown am) run rcd"
          using run rec adm by (simp add: run_ok_def settledPhase_def activePhase_def)
        ultimately show ?thesis using True run id
          by (intro conjI exI [of _ now] exI [of _ rcd]) (simp_all del: map_of_append)
      next
        case False
        with x have x: "amRuns am t = Some x" by simp
        show ?thesis using d(2-4) [OF x] fresh [OF x] False by (auto simp: look)
      qed
    qed
    show "\<forall>k0 r. map_of (amRecords ?am) k0 = Some r \<longrightarrow> (\<exists>t run. amRuns ?am t = Some run \<and> runAgentId run = k0)"
    proof (intro allI impI)
      fix k0 r assume "map_of (amRecords ?am) k0 = Some r"
      then have "k0 = k \<or> map_of (amRecords am) k0 = Some r" by (auto simp: look split: if_splits)
      then show "\<exists>t run. amRuns ?am t = Some run \<and> runAgentId run = k0"
      proof
        assume "k0 = k"
        then show ?thesis using run(1) by (intro exI [of _ n]) simp
      next
        assume "map_of (amRecords am) k0 = Some r"
        then obtain t x where "amRuns am t = Some x" "runAgentId x = k0" using d(5) by blast
        then show ?thesis using none by (intro exI [of _ t] exI [of _ x]) auto
      qed
    qed
    show "\<forall>k0 t. (k0, t) \<in> set (amRunning ?am) \<or> amQueuedCancels ?am k0 = Some t \<longrightarrow>
        (\<exists>run. amRuns ?am t = Some run \<and> runAgentId run = k0)"
      using d(10,11) none run(1) by fastforce
    show "distinct (map fst (amRecords ?am))" using d(6) absent by (auto simp: map_of_eq_None_iff)
    show "\<forall>k0 r. map_of (amRecords ?am) k0 = Some r \<and> recCompletedAt r \<noteq> None \<longrightarrow>
        k0 \<in> (recId \<circ> fst) ` set (amTerminal ?am)"
      using d(9) rec(2) by (auto simp: look split: if_splits)
  qed (use old d(8) in simp_all)
qed

lemma body_queuedCancel:
  assumes "am_body n W A F am" "amRuns am t = Some run" "runAgentId run = k"
  shows "am_body n W A F (am\<lparr>amQueuedCancels := (amQueuedCancels am)(k \<mapsto> t)\<rparr>)"
  using assms by (auto simp: am_body_def split: if_splits)

end
