(* ===== verification/Agent_Manager_Inv.thy ===== *)
theory Agent_Manager_Inv
  imports Agent_Manager_Steps
begin

text \<open>
  The operations and continuations of the agent manager, one by one, and the manager as a state machine.
\<close>

section \<open>Starting a run\<close>

lemma start_inv:
  assumes inv: "am_inv am" and st: "am_start now task aborted parent am = Inr (am', k)"
  shows "am_inv am' \<and> advances am am'"
proof -
  let ?q = "amQueue am"
  let ?n = "nextTask ?q" and ?W = "set (pendingTasks ?q)" and ?A = "set (inFlight ?q)"
  let ?a = "taskWorkspaceAccess task"
  note q = am_invD(1) [OF inv] and body = am_invD(2) [OF inv]
  obtain q' t where e: "cq_enqueue ?a ?q = (q', t)" by (cases "cq_enqueue ?a ?q")
  obtain S where law: "cq_inv q'" "t = ?n" "nextTask q' = Suc t" "accessOf q' = (accessOf ?q)(t := ?a)"
      "startOrder q' = startOrder ?q @ S" "distinct S" "insert t ?W = set (pendingTasks q') \<union> set S"
      "set (inFlight q') = ?A \<union> set S"
    using cqs.enq_law [OF q e] by blast
  have adm: "\<not> amShuttingDown am" using st by (auto simp: am_start_def)
  have seq: "amNextSequence am = Suc ?n" using am_bodyD(12) [OF body] .
  define rcd where "rcd = \<lparr>recId = createAgentId now (Suc ?n), recAgentName = taskAgentName task,
    recPrompt = taskPrompt task, recStatus = AgQueued, recMode = taskMode task, recCreatedAt = now, recStartedAt = None,
    recCompletedAt = None, recSessionId = None, recSessionPath = None, recResponseText = None, recError = None,
    recUsage = emptyAgentUsageStats, recCancellationOrigin = None\<rparr>"
  define run where "run = \<lparr>runAgentId = createAgentId now (Suc ?n), runAgentTask = task,
    runCancellation = (if aborted then Some OriginCaller else None), runHandle = None,
    runCancelCalled = False, runAssemblyPending = False, runPhase = RunQueued\<rparr>"
  let ?id = "createAgentId now (Suc ?n)"
  define ps where "ps = (case nullish_option parent (taskParent task) of None \<Rightarrow> amParents am | Some p \<Rightarrow> (amParents am)(?id \<mapsto> p))"
  define am1 where "am1 = am\<lparr>amNextSequence := Suc (Suc ?n), amRunning := amRunning am @ [(?id, ?n)],
    amRecords := amRecords am @ [(?id, rcd)], amParents := ps, amRuns := (amRuns am)(?n \<mapsto> run)\<rparr>"
  define am2 where "am2 = withQueue now q' am1"
  define am3 where "am3 = am2\<lparr>amQueuedCancels := (amQueuedCancels am2)(?id \<mapsto> t)\<rparr>"
  define am4 where "am4 = (if aborted then cancelQueued now ?id am3 else am3)"
  have am': "am' = am4\<lparr>amCompletions := amCompletions am4 @ [?id]\<rparr>"
    using st adm e law(2) unfolding am4_def am3_def am2_def am1_def ps_def rcd_def run_def
    by (auto simp: am_start_def Let_def seq)
  have "am_body (Suc ?n) (insert ?n ?W) ?A ((accessOf ?q)(?n := ?a)) am1"
    unfolding am1_def
    by (rule body_start [OF body cqs.below [OF q] adm refl]) (simp_all add: run_def rcd_def)
  moreover have "?A \<inter> insert ?n ?W = {}" using cqs.disjoint [OF q] cqs.below [OF q] by auto
  ultimately have two: "am_inv am2" "advances am1 am2"
    unfolding am2_def using law by (intro withQueue_inv [where S = S and W = "insert ?n ?W" and A = ?A]; simp add: am1_def)+
  have "advances am am1"
    using adm am_bodyD(1) [OF body, of ?n] by (auto simp: advances_def am1_def run_keeps_def)
  with two(2) have adv: "advances am am2" using advances_trans by blast
  have "amRuns am1 t = Some run" by (simp add: am1_def law(2))
  then obtain run' where run': "amRuns am2 t = Some run'" "run_keeps run run'"
    using two(2) unfolding advances_def by blast
  have "am_inv am3" unfolding am3_def using two(1) run'
    by (simp add: am_inv_def) (rule body_queuedCancel, auto simp: run_keeps_def run_def)
  moreover have "advances am2 am3" by (rule advances_frame) (simp_all add: am3_def)
  moreover have "am_inv am4 \<and> advances am3 am4"
  proof (cases aborted)
    case True
    have "am_inv (cancelQueued now ?id am3) \<and> advances am3 (cancelQueued now ?id am3)"
      by (rule cancelQueued_inv [OF \<open>am_inv am3\<close>])
        (use True run' in \<open>auto simp: am3_def run_keeps_def run_def\<close>)
    with True show ?thesis by (simp add: am4_def)
  next
    case False
    with \<open>am_inv am3\<close> show ?thesis by (simp add: am4_def)
  qed
  moreover have "am_inv am4 \<Longrightarrow> am_inv am'" by (simp add: am_inv_def am')
  moreover have "advances am4 am'" by (rule advances_frame) (simp_all add: am')
  ultimately show ?thesis using adv advances_trans by blast
qed

section \<open>Stopping\<close>

lemma am_inv_body:
  assumes "am_inv am" "amQueue am' = amQueue am"
    "am_body (nextTask (amQueue am)) (set (pendingTasks (amQueue am))) (set (inFlight (amQueue am))) (accessOf (amQueue am)) am'"
  shows "am_inv am'"
  using assms by (simp add: am_inv_def)

lemma cancelRun_inv: "am_inv am \<Longrightarrow> am_inv (cancelRun t am)"
  using am_inv_body [OF _ _ body_cancelRun [OF am_invD(2)]] by simp

lemma request_inv:
  assumes "am_inv am" "amRuns am t = Some run" "\<not> settledPhase (runPhase run)"
  shows "am_inv (updRun t (requestCancellation origin) am)"
  using assms by (intro am_inv_body [OF assms(1)]) (auto intro: body_request simp: am_inv_def)

lemma stop_inv:
  assumes inv: "am_inv am"
  shows "am_inv (fst (am_stop now key origin am)) \<and> advances am (fst (am_stop now key origin am))"
proof (cases "fst (am_stop now key origin am) = am")
  case True
  with inv show ?thesis by simp
next
  case False
  note body = am_invD(2) [OF inv]
  obtain k t where kt: "resolveAgentId am key = Some k" "map_of (amRunning am) k = Some t"
      "Option.bind (map_of (amRecords am) k) recCompletedAt = None"
    using False by (auto simp: am_stop_def split: option.splits if_splits)
  obtain run where run: "amRuns am t = Some run" "runAgentId run = k"
    using am_bodyD(10) [OF body map_of_SomeD [OF kt(2)]] by blast
  obtain r where r: "map_of (amRecords am) k = Some r" "recCompletedAt r \<noteq> None \<longleftrightarrow> settledPhase (runPhase run)"
    using am_bodyD(4) [OF body run(1)] run(2) by (auto simp: run_ok_def)
  then have live: "\<not> settledPhase (runPhase run)" using kt(3) by simp
  let ?am1 = "updRun t (requestCancellation origin) am"
  let ?am2 = "cancelQueued now k ?am1"
  have one: "am_inv ?am1" by (rule request_inv [OF inv run(1) live])
  have "am_inv ?am2 \<and> advances ?am1 ?am2"
  proof (rule cancelQueued_inv [OF one])
    fix u x assume u: "amQueuedCancels ?am1 k = Some u" "amRuns ?am1 u = Some x"
    then obtain y where "amRuns am u = Some y" "runAgentId y = k" using am_bodyD(11) [OF body, of k u] by auto
    then have "u = t" using runs_inj [OF body] run by blast
    with u run show "runCancellation x \<noteq> None" by (auto simp: nullish_option_conv split: option.split)
  qed
  moreover have "advances am ?am1" by (rule advances_updRun) simp
  ultimately have two: "am_inv ?am2" "advances am ?am2" using advances_trans by blast+
  have "am_inv (cancelRun t ?am2)" "advances am (cancelRun t ?am2)"
    using cancelRun_inv [OF two(1)] advances_trans [OF two(2) advances_cancelRun] by blast+
  with two show ?thesis using kt by (simp add: am_stop_def Let_def)
qed

section \<open>Shutting down\<close>

text \<open>Under the invariant, a run that still waits when the manager shuts down has been told.\<close>

lemma stopActive_inv:
  assumes inv: "am_inv am" and shut: "amShuttingDown am"
  shows "am_inv (stopActive now (k, t) am) \<and> advances am (stopActive now (k, t) am)"
proof -
  note body = am_invD(2) [OF inv]
  let ?am = "cancelQueued now k am"
  have one: "am_inv ?am \<and> advances am ?am"
  proof (rule cancelQueued_inv [OF inv])
    fix u x assume u: "amRuns am u = Some x" "runPhase x = RunQueued"
    obtain r where "run_ok (u \<in> set (pendingTasks (amQueue am))) (u \<in> set (inFlight (amQueue am)))
        ((runAgentId x, u) \<in> set (amRunning am)) (amShuttingDown am) x r"
      using body_run [OF body u(1)] .
    with shut u(2) show "runCancellation x \<noteq> None" by (simp add: run_ok_def settledPhase_def)
  qed
  then have "am_inv (cancelRun t ?am) \<and> advances am (cancelRun t ?am)"
    using cancelRun_inv advances_trans advances_cancelRun by blast
  with one show ?thesis by (simp add: stopActive_def Let_def)
qed

lemma stopActive_all_inv:
  assumes "am_inv am" "amShuttingDown am"
  shows "am_inv (fold (stopActive now) xs am) \<and> advances am (fold (stopActive now) xs am)"
  using assms
proof (induction xs arbitrary: am)
  case (Cons x xs)
  have one: "am_inv (stopActive now x am)" "advances am (stopActive now x am)"
    using stopActive_inv [OF Cons.prems, of now "fst x" "snd x"] by simp_all
  then have "amShuttingDown (stopActive now x am)" using Cons.prems(2) by (simp add: advances_def)
  from Cons.IH [OF one(1) this] one(2) show ?case using advances_trans by simp
qed simp

lemma request_idem [simp]: "requestCancellation o1 (requestCancellation o2 run) = requestCancellation o2 run"
  by (simp add: requestCancellation_def)

lemma request_all:
  "fold (\<lambda>(_, t). updRun t (requestCancellation origin)) xs am =
     am\<lparr>amRuns := (\<lambda>u. if u \<in> snd ` set xs then map_option (requestCancellation origin) (amRuns am u) else amRuns am u)\<rparr>"
proof (induction xs arbitrary: am)
  case (Cons x xs)
  obtain k t where x: "x = (k, t)" by (cases x)
  show ?case
    unfolding x fold_Cons comp_def split Cons.IH
    by (auto simp: updRun_def fun_eq_iff option.map_comp comp_def)
qed simp

lemma body_shutdown:
  assumes inv: "am_body n W A F am"
  shows "am_body n W A F (am\<lparr>amShuttingDown := True, amRuns := (\<lambda>u. if u \<in> snd ` set (amRunning am)
    then map_option (requestCancellation origin) (amRuns am u) else amRuns am u)\<rparr>)" (is "am_body n W A F ?am")
proof -
  note d = am_bodyD [OF inv]
  have runD: "\<exists>y. amRuns am u = Some y \<and> runAgentId x = runAgentId y \<and> runAgentTask x = runAgentTask y \<and>
      (\<forall>r. run_ok (u \<in> W) (u \<in> A) ((runAgentId y, u) \<in> set (amRunning am)) (amShuttingDown am) y r \<longrightarrow>
           run_ok (u \<in> W) (u \<in> A) ((runAgentId y, u) \<in> set (amRunning am)) True x r)"
    if x: "amRuns ?am u = Some x" for u x
  proof (cases "u \<in> snd ` set (amRunning am)")
    case True
    then obtain k where k: "(k, u) \<in> set (amRunning am)" by auto
    then obtain y where y: "amRuns am u = Some y" "runAgentId y = k" using d(10) by blast
    with x True have "x = requestCancellation origin y" by simp
    with y k show ?thesis by (auto simp: run_ok_def)
  next
    case False
    with x have "amRuns am u = Some x" "(runAgentId x, u) \<notin> set (amRunning am)" by force+
    then show ?thesis by (auto simp: run_ok_def)
  qed
  have runI: "\<exists>x. amRuns ?am u = Some x \<and> runAgentId x = runAgentId y" if "amRuns am u = Some y" for u y
    using that by auto
  show ?thesis
    unfolding am_body_def
  proof (intro conjI)
    show "\<forall>t. amRuns ?am t \<noteq> None \<longleftrightarrow> t < n" using d(1) by auto
    show "\<forall>t x. amRuns ?am t = Some x \<longrightarrow> (\<exists>m. runAgentId x = createAgentId m (Suc t)) \<and>
        taskWorkspaceAccess (runAgentTask x) = F t \<and>
        (\<exists>r. map_of (amRecords ?am) (runAgentId x) = Some r \<and>
             run_ok (t \<in> W) (t \<in> A) ((runAgentId x, t) \<in> set (amRunning ?am)) (amShuttingDown ?am) x r)"
    proof (intro allI impI)
      fix t x assume "amRuns ?am t = Some x"
      from runD [OF this] obtain y where y: "amRuns am t = Some y" "runAgentId x = runAgentId y"
          "runAgentTask x = runAgentTask y"
          "\<And>r. run_ok (t \<in> W) (t \<in> A) ((runAgentId y, t) \<in> set (amRunning am)) (amShuttingDown am) y r \<Longrightarrow>
             run_ok (t \<in> W) (t \<in> A) ((runAgentId y, t) \<in> set (amRunning am)) True x r" by blast
      show "(\<exists>m. runAgentId x = createAgentId m (Suc t)) \<and> taskWorkspaceAccess (runAgentTask x) = F t \<and>
        (\<exists>r. map_of (amRecords ?am) (runAgentId x) = Some r \<and>
             run_ok (t \<in> W) (t \<in> A) ((runAgentId x, t) \<in> set (amRunning ?am)) (amShuttingDown ?am) x r)"
        using d(2-4) [OF y(1)] y(2-4) by auto
    qed
    show "\<forall>k r. map_of (amRecords ?am) k = Some r \<longrightarrow> (\<exists>t run. amRuns ?am t = Some run \<and> runAgentId run = k)"
    proof (intro allI impI)
      fix k r assume "map_of (amRecords ?am) k = Some r"
      then have "map_of (amRecords am) k = Some r" by simp
      then obtain t y where "amRuns am t = Some y" "runAgentId y = k" using d(5) by blast
      then show "\<exists>t run. amRuns ?am t = Some run \<and> runAgentId run = k" using runI [of t y] by blast
    qed
    show "\<forall>k t. (k, t) \<in> set (amRunning ?am) \<or> amQueuedCancels ?am k = Some t \<longrightarrow>
        (\<exists>run. amRuns ?am t = Some run \<and> runAgentId run = k)"
      using d(10,11) by fastforce
    show "\<forall>k r. map_of (amRecords ?am) k = Some r \<and> recCompletedAt r \<noteq> None \<longrightarrow>
        k \<in> (recId \<circ> fst) ` set (amTerminal ?am)"
      using d(9) by simp
  qed (use d(6-8,12) in simp_all)
qed

lemma shutdown_inv:
  assumes inv: "am_inv am"
  shows "am_inv (am_shutdown now am) \<and> advances am (am_shutdown now am)"
proof -
  let ?am = "fold (\<lambda>(_, t). updRun t (requestCancellation OriginShutdown)) (amRunning am) (am\<lparr>amShuttingDown := True\<rparr>)"
  have one: "am_inv ?am"
    unfolding request_all using inv body_shutdown [OF am_invD(2) [OF inv], of OriginShutdown]
    by (simp add: am_inv_def cong: if_cong)
  have adv: "advances am ?am" unfolding request_all by (auto simp: advances_def) (simp add: run_keeps_def)
  have "amShuttingDown ?am" unfolding request_all by simp
  from stopActive_all_inv [OF one this] adv show ?thesis
    using advances_trans by (simp add: am_shutdown_def Let_def)
qed

section \<open>Continuations\<close>

lemma inv_run:
  assumes "am_inv am" "amRuns am t = Some run"
  shows "t \<in> set (pendingTasks (amQueue am)) \<longleftrightarrow> runPhase run = RunQueued"
    "t \<in> set (inFlight (amQueue am)) \<longleftrightarrow> activePhase (runPhase run)"
    "\<exists>r. map_of (amRecords am) (runAgentId run) = Some r \<and> recId r = runAgentId run \<and>
       (recCompletedAt r \<noteq> None \<longleftrightarrow> settledPhase (runPhase run)) \<and>
       (\<forall>origin. settledPhase (runPhase run) \<and> runCancellation run = Some origin \<longrightarrow> cancelledEnd origin r)"
    "amShuttingDown am \<Longrightarrow> \<not> settledPhase (runPhase run) \<Longrightarrow> runCancellation run \<noteq> None"
    "(runAgentId run, t) \<in> set (amRunning am) \<longleftrightarrow> \<not> settledPhase (runPhase run)"
  using am_bodyD(4) [OF am_invD(2) [OF assms(1)] assms(2)] by (auto simp: run_ok_def)

lemma am_step_body:
  assumes "am_inv am" "advances am am'" "amQueue am' = amQueue am"
    "am_body (nextTask (amQueue am)) (set (pendingTasks (amQueue am))) (set (inFlight (amQueue am))) (accessOf (amQueue am)) am'"
  shows "am_inv am' \<and> advances am am'"
  using assms am_inv_body by blast

lemma phaseOf_Some: "phaseOf am t = Some p \<longleftrightarrow> (\<exists>run. amRuns am t = Some run \<and> runPhase run = p)"
  by (simp add: phaseOf_def)

lemma fail_inv:
  assumes inv: "am_inv am" and run: "amRuns am t = Some run"
    and p: "activePhase (runPhase run)" "\<not> settledPhase (runPhase run)"
  shows "am_inv (failRun now t message am) \<and> advances am (failRun now t message am)"
proof (rule am_step_body [OF inv advances_failRun])
  have "runPhase run \<noteq> RunQueued" using p by (auto simp: activePhase_def)
  then have "set (pendingTasks (amQueue am)) - {t} = set (pendingTasks (amQueue am))"
      "insert t (set (inFlight (amQueue am))) = set (inFlight (amQueue am))"
    using inv_run(1,2) [OF inv run] p by auto
  then show "am_body (nextTask (amQueue am)) (set (pendingTasks (amQueue am))) (set (inFlight (amQueue am)))
      (accessOf (amQueue am)) (failRun now t message am)"
    using body_failRun [OF am_invD(2) [OF inv] run p(2), of now message] by simp
qed simp

lemma completed_inv:
  assumes inv: "am_inv am" and run: "amRuns am t = Some run" and p: "runPhase run = RunAwaiting"
  shows "am_inv (am_completed now t completed am) \<and> advances am (am_completed now t completed am)"
proof -
  let ?q = "amQueue am"
  have live: "\<not> settledPhase (runPhase run)" using p by (simp add: settledPhase_def)
  obtain r where r: "map_of (amRecords am) (runAgentId run) = Some r" using inv_run(3) [OF inv run] by blast
  let ?res = "if runCancellation run \<noteq> None then interruptedResult r (runCancellation run) (Some completed) else completed"
  have "am_body (nextTask ?q) (set (pendingTasks ?q) - {t}) (insert t (set (inFlight ?q))) (accessOf ?q) (returnRun now t ?res am)"
    by (rule body_returnRun [OF am_invD(2) [OF inv] run live])
      (auto simp: interruptedResult_def limitOrigin_def Let_def)
  moreover have "set (pendingTasks ?q) - {t} = set (pendingTasks ?q)" "insert t (set (inFlight ?q)) = set (inFlight ?q)"
    using inv_run(1,2) [OF inv run] p by (auto simp: activePhase_def)
  moreover have "am_completed now t completed am = returnRun now t ?res am" using run r by (simp add: am_completed_def)
  ultimately show ?thesis using am_step_body [OF inv advances_returnRun] by simp
qed

lemma cancelRun_run:
  "amRuns am t = Some run \<Longrightarrow>
   \<exists>x. amRuns (cancelRun t am) t = Some x \<and> runPhase x = runPhase run \<and> runCancellation x = runCancellation run"
  by (simp add: cancelRun_def)

lemma assembled_inv:
  assumes inv: "am_inv am" and run: "amRuns am t = Some run" and p: "runPhase run = RunAssembling"
  shows "am_inv (am_assembled t h am) \<and> advances am (am_assembled t h am)"
proof -
  let ?q = "amQueue am"
  let ?f = "\<lambda>r. r\<lparr>runHandle := Some h, runAssemblyPending := False\<rparr>"
  let ?g = "\<lambda>r. r\<lparr>recSessionId := Some (handleSessionId h),
    recSessionPath := nullish_option (handleSessionPath h) (recSessionPath r), recStatus := AgRunning\<rparr>"
  let ?am1 = "updRun t ?f am" and ?am2 = "updRecord (runAgentId run) ?g (updRun t ?f am)"
  let ?body = "am_body (nextTask ?q) (set (pendingTasks ?q)) (set (inFlight ?q)) (accessOf ?q)"
  have one: "?body ?am1" by (rule body_updRun_same [OF am_invD(2) [OF inv]]) auto
  have run1: "amRuns ?am1 t = Some (?f run)" using run by simp
  have "?body (updRecord (runAgentId (?f run)) ?g ?am1)"
    by (rule body_updRecord [OF one run1]) (simp_all add: p settledPhase_def)
  then have two: "?body ?am2" by simp
  have adv: "advances am ?am2"
    by (rule advances_trans [OF advances_updRun advances_updRecord]) simp
  have phase: "?body (updRun t (\<lambda>r. r\<lparr>runPhase := p'\<rparr>) am')"
    if "?body am'" "amRuns am' t = Some x" "runPhase x = RunAssembling" "p' = RunAwaiting \<or> p' = RunStopping \<and> runCancellation x \<noteq> None"
    for p' am' x
    by (rule body_updRun [OF that(1,2)]) (use that(3,4) in \<open>auto simp: run_ok_def settledPhase_def activePhase_def\<close>)
  show ?thesis
  proof (cases "runCancellation run = None")
    case True
    then have "am_assembled t h am = updRun t (\<lambda>r. r\<lparr>runPhase := RunAwaiting\<rparr>) ?am2"
      using run by (simp add: am_assembled_def Let_def)
    moreover have "?body (updRun t (\<lambda>r. r\<lparr>runPhase := RunAwaiting\<rparr>) ?am2)"
      by (rule phase [OF two, of "?f run"]) (use run p in simp_all)
    moreover have "advances am (updRun t (\<lambda>r. r\<lparr>runPhase := RunAwaiting\<rparr>) ?am2)"
      using advances_trans [OF adv advances_updRun] by simp
    ultimately show ?thesis using am_step_body [OF inv] by simp
  next
    case False
    let ?am3 = "cancelRun t ?am2"
    obtain run3 where run3: "amRuns ?am3 t = Some run3" "runPhase run3 = RunAssembling" "runCancellation run3 \<noteq> None"
      using cancelRun_run [of ?am2 t "?f run"] run p False by auto
    have "am_assembled t h am = updRun t (\<lambda>r. r\<lparr>runPhase := RunStopping\<rparr>) ?am3"
      using run False by (simp add: am_assembled_def Let_def)
    moreover have "?body (updRun t (\<lambda>r. r\<lparr>runPhase := RunStopping\<rparr>) ?am3)"
      by (rule phase [OF body_cancelRun [OF two] run3(1)]) (use run3 in auto)
    moreover have "advances am (updRun t (\<lambda>r. r\<lparr>runPhase := RunStopping\<rparr>) ?am3)"
      using advances_trans [OF advances_trans [OF adv advances_cancelRun] advances_updRun] by simp
    ultimately show ?thesis using am_step_body [OF inv] by simp
  qed
qed

lemma same_phase_inv:
  assumes "am_inv am" "\<And>run. amRuns am t = Some run \<Longrightarrow> runAgentId (f run) = runAgentId run \<and>
    runAgentTask (f run) = runAgentTask run \<and> runPhase (f run) = runPhase run \<and> runCancellation (f run) = runCancellation run"
  shows "am_inv (updRun t f am) \<and> advances am (updRun t f am)"
proof (rule am_step_body [OF assms(1)])
  show "advances am (updRun t f am)" by (rule advances_updRun) (use assms(2) in \<open>auto simp: run_keeps_def\<close>)
qed (auto intro!: body_updRun_same [OF am_invD(2) [OF assms(1)]] dest!: assms(2))

lemma late_inv:
  assumes inv: "am_inv am"
  shows "am_inv (am_lateAssembly t am) \<and> advances am (am_lateAssembly t am)"
proof -
  let ?am = "updRun t (\<lambda>r. r\<lparr>runAssemblyPending := False\<rparr>) am"
  have "am_inv ?am \<and> advances am ?am" by (rule same_phase_inv [OF inv]) simp
  then show ?thesis
    using cancelRun_inv advances_trans [OF _ advances_cancelRun] by (auto simp: am_lateAssembly_def Let_def)
qed

lemma assemblyFailed_inv:
  assumes inv: "am_inv am" and run: "amRuns am t = Some run" and p: "runPhase run = RunAssembling"
  shows "am_inv (am_assemblyFailed now t message am) \<and> advances am (am_assemblyFailed now t message am)"
proof -
  let ?am = "updRun t (\<lambda>r. r\<lparr>runAssemblyPending := False\<rparr>) am"
  have one: "am_inv ?am" "advances am ?am" using same_phase_inv [OF inv] by simp_all
  have "am_inv (failRun now t message ?am) \<and> advances ?am (failRun now t message ?am)"
    by (rule fail_inv [OF one(1), of t "run\<lparr>runAssemblyPending := False\<rparr>"])
      (use run p in \<open>auto simp: activePhase_def settledPhase_def\<close>)
  with one(2) show ?thesis using advances_trans by (auto simp: am_assemblyFailed_def)
qed

lemma stopSettled_inv:
  assumes inv: "am_inv am" and run: "amRuns am t = Some run" and p: "runPhase run = RunStopping"
  shows "am_inv (am_stopSettled now t failure am) \<and> advances am (am_stopSettled now t failure am)"
proof (cases failure)
  case None
  have "am_inv (updRun t (\<lambda>r. r\<lparr>runPhase := RunAwaiting\<rparr>) am) \<and> advances am (updRun t (\<lambda>r. r\<lparr>runPhase := RunAwaiting\<rparr>) am)"
  proof (rule am_step_body [OF inv advances_updRun])
    show "am_body (nextTask (amQueue am)) (set (pendingTasks (amQueue am))) (set (inFlight (amQueue am)))
        (accessOf (amQueue am)) (updRun t (\<lambda>r. r\<lparr>runPhase := RunAwaiting\<rparr>) am)"
      by (rule body_updRun [OF am_invD(2) [OF inv] run]) (use p in \<open>auto simp: run_ok_def settledPhase_def activePhase_def\<close>)
  qed simp_all
  with None show ?thesis by (simp add: am_stopSettled_def)
next
  case (Some message)
  with fail_inv [OF inv run, of now message] p show ?thesis
    by (simp add: am_stopSettled_def activePhase_def settledPhase_def)
qed

section \<open>The end of a run\<close>

lemma settle_inv_am:
  assumes inv: "am_inv am" and run: "amRuns am t = Some run" and p: "runPhase run = RunReturned"
  shows "am_inv (am_settle now t am) \<and> advances am (am_settle now t am)"
proof -
  let ?q = "amQueue am"
  let ?W = "set (pendingTasks ?q)" and ?A = "set (inFlight ?q)"
  note q = am_invD(1) [OF inv]
  have t: "t \<in> ?A" "t \<notin> ?W" using inv_run(1,2) [OF inv run] p by (simp_all add: activePhase_def)
  obtain S where law: "cq_inv (cq_settle t True ?q)" "nextTask (cq_settle t True ?q) = nextTask ?q"
      "accessOf (cq_settle t True ?q) = accessOf ?q" "startOrder (cq_settle t True ?q) = startOrder ?q @ S" "distinct S"
      "?W = set (pendingTasks (cq_settle t True ?q)) \<union> set S" "set (inFlight (cq_settle t True ?q)) = ?A - {t} \<union> set S"
    using cqs.settle_law [OF q t(1)] by blast
  let ?am1 = "updRun t (\<lambda>r. r\<lparr>runPhase := RunFinished\<rparr>) am"
  let ?am2 = "?am1\<lparr>amCompletions := filter (\<lambda>k. k \<noteq> runAgentId run) (amCompletions am)\<rparr>"
  have "am_body (nextTask ?q) ?W (?A - {t}) (accessOf ?q) ?am1"
    by (rule body_updRun [OF am_invD(2) [OF inv] run])
      (use p t in \<open>auto simp: run_ok_def settledPhase_def activePhase_def\<close>)
  then have body: "am_body (nextTask ?q) ?W (?A - {t}) (accessOf ?q) ?am2" by simp
  have dis: "(?A - {t}) \<inter> ?W = {}" using cqs.disjoint [OF q] by blast
  have "am_inv (withQueue now (cq_settle t True ?q) ?am2)" "advances ?am2 (withQueue now (cq_settle t True ?q) ?am2)"
    by (rule withQueue_inv [OF law(1-3) _ law(5-7) body dis], simp add: law(4))+
  moreover have "advances am ?am2"
    by (rule advances_trans [OF advances_updRun advances_frame]) simp_all
  moreover have "am_settle now t am = withQueue now (cq_settle t True ?q) ?am2" using run by (simp add: am_settle_def)
  ultimately show ?thesis using advances_trans by metis
qed

lemma rejected_inv:
  assumes inv: "am_inv am" and run: "amRuns am t = Some run" and p: "runPhase run = RunRejected"
  shows "am_inv (am_rejected now t am) \<and> advances am (am_rejected now t am)"
proof -
  let ?q = "amQueue am" and ?k = "runAgentId run"
  let ?res = "plainResult ?k (taskAgentName (runAgentTask run)) StatusCancelled
    ''Agent run was cancelled before start'' (runCancellation run)"
  let ?am1 = "forgetRun ?k (applyResult now ?k ?res am)"
  let ?am2 = "updRun t (\<lambda>r. r\<lparr>runPhase := RunFinished\<rparr>) ?am1"
  have "am_body (nextTask ?q) (set (pendingTasks ?q) - {t}) (set (inFlight ?q) - {t}) (accessOf ?q) ?am2"
    by (rule body_end [OF am_invD(2) [OF inv] run]) (simp_all add: p settledPhase_def plainResult_def)
  moreover have "set (pendingTasks ?q) - {t} = set (pendingTasks ?q)" "set (inFlight ?q) - {t} = set (inFlight ?q)"
    using inv_run(1,2) [OF inv run] p by (simp_all add: activePhase_def)
  ultimately have body: "am_body (nextTask ?q) (set (pendingTasks ?q)) (set (inFlight ?q)) (accessOf ?q) ?am2" by simp
  have am: "am_rejected now t am = ?am2\<lparr>amCompletions := filter (\<lambda>k. k \<noteq> ?k) (amCompletions ?am1)\<rparr>"
    using run by (simp add: am_rejected_def Let_def)
  have "advances am ?am2" by (rule advances_trans [OF advances_end advances_updRun]) simp
  moreover have "advances ?am2 (am_rejected now t am)" by (rule advances_frame) (simp_all add: am)
  ultimately have adv: "advances am (am_rejected now t am)" by (rule advances_trans)
  have "amQueue ?am2 = ?q" by (simp add: forgetRun_def applyResult_def split: option.split)
  then have "amQueue (am_rejected now t am) = ?q" by (simp add: am)
  from am_step_body [OF inv adv this] body show ?thesis by (simp add: am)
qed

lemma am_step_inv:
  assumes "am_step am am'" "am_inv am"
  shows "am_inv am' \<and> advances am am'"
  using assms
proof (cases rule: am_step.cases)
  case (am_starts now task aborted parent k)
  then show ?thesis using start_inv [OF assms(2)] by blast
next
  case (am_stops now key origin)
  then show ?thesis using stop_inv [OF assms(2)] by blast
next
  case (am_shuts_down now)
  then show ?thesis using shutdown_inv [OF assms(2)] by blast
next
  case (am_assembles t h)
  then show ?thesis using assembled_inv [OF assms(2)] by (auto simp: phaseOf_Some)
next
  case (am_assembles_late t run)
  then show ?thesis using late_inv [OF assms(2)] by blast
next
  case (am_assembly_fails t now message)
  then show ?thesis using assemblyFailed_inv [OF assms(2)] by (auto simp: phaseOf_Some)
next
  case (am_assembly_timeout t run now)
  then show ?thesis using fail_inv [OF assms(2)] by (auto simp: activePhase_def settledPhase_def)
next
  case (am_stop_settles t now failure)
  then show ?thesis using stopSettled_inv [OF assms(2)] by (auto simp: phaseOf_Some)
next
  case (am_completes t now completed)
  then show ?thesis using completed_inv [OF assms(2)] by (auto simp: phaseOf_Some)
next
  case (am_completion_fails t now message)
  then show ?thesis using fail_inv [OF assms(2)] by (auto simp: phaseOf_Some activePhase_def settledPhase_def)
next
  case (am_settles t now)
  then show ?thesis using settle_inv_am [OF assms(2)] by (auto simp: phaseOf_Some)
next
  case (am_handles_rejection t now)
  then show ?thesis using rejected_inv [OF assms(2)] by (auto simp: phaseOf_Some)
next
  case (am_runner_cancels t origin)
  then obtain run where run: "amRuns am t = Some run" "\<not> settledPhase (runPhase run)"
    by (auto simp: phaseOf_def settledPhase_def)
  have "advances am am'" unfolding am_runner_cancels(1) by (rule advances_updRun) simp
  with request_inv [OF assms(2) run] am_runner_cancels(1) show ?thesis by simp
qed

lemma new_manager:
  assumes "newAgentManager n = Inr am"
  obtains m q where "newConcurrencyQueue m = Inr q" "amQueue am = q" "amRuns am = (\<lambda>_. None)" "amRecords am = []"
    "amQueuedCancels am = (\<lambda>_. None)" "amRunning am = []" "amTerminal am = []" "amNextSequence am = 1"
  using assms by (auto simp: newAgentManager_def split: sum.splits)

interpretation manager: state_machine "\<lambda>am. \<exists>n. newAgentManager n = Inr am" am_step am_inv
proof unfold_locales
  fix am assume "\<exists>n. newAgentManager n = Inr am"
  then obtain m q where *: "newConcurrencyQueue m = Inr q" "amQueue am = q" "amRuns am = (\<lambda>_. None)" "amRecords am = []"
    "amQueuedCancels am = (\<lambda>_. None)" "amRunning am = []" "amTerminal am = []" "amNextSequence am = 1"
    using new_manager by blast
  then have "cq_inv q" "nextTask q = 0" using queue.inv_initial by (auto elim: new_queue)
  with * show "am_inv am" by (auto simp: am_inv_def am_body_def)
qed (use am_step_inv in blast)

lemma reachable_advances:
  assumes "am_inv am" "am_step\<^sup>*\<^sup>* am am'"
  shows "advances am am'"
  using assms(2)
proof (induction rule: rtranclp_induct)
  case (step y z)
  then show ?case using am_step_inv manager.steps_inv assms(1) advances_trans by metis
qed simp

end
