(* ===== verification/Agent_Manager_Properties.thy ===== *)
theory Agent_Manager_Properties
  imports Agent_Manager_Inv
begin

text \<open>
  What the agent manager promises its callers, for every state reached by any interleaving of requests,
  continuations and child sessions.
\<close>

section \<open>Examples\<close>

definition demoTask :: AgentTask where
  "demoTask = \<lparr>taskAgentName = ''scout'', taskPrompt = ''look'', taskMode = Background,
     taskWorkspaceAccess = WriteAccess, taskParent = None\<rparr>"

definition demoManager :: AgentManager where
  "demoManager = \<lparr>amQueue = \<lparr>pendingTasks = [], activeTaskCount = 0, hasActiveWriteTask = False, maxConcurrency = 4,
     queueTasks = (\<lambda>_. None), inFlight = [], startOrder = [], nextTask = 0\<rparr>,
     amRuns = (\<lambda>_. None), amRecords = [], amQueuedCancels = (\<lambda>_. None), amRunning = [],
     amCompletions = [], amParents = (\<lambda>_. None), amNextSequence = 1, amShuttingDown = False,
     amTerminal = [], amAssembled = [], amCancelCalls = []\<rparr>"

definition demoStart :: "AgentManager \<Rightarrow> AgentManager" where
  "demoStart am = (case am_start 7 demoTask False None am of Inl _ \<Rightarrow> am | Inr (am', _) \<Rightarrow> am')"

text \<open>Two write runs, of which the second waits; then a shutdown; then the first gives up its assembly.\<close>

definition demoTwo :: AgentManager where
  "demoTwo = demoStart (demoStart demoManager)"

definition demoShut :: AgentManager where
  "demoShut = am_shutdown 8 demoTwo"

definition demoEnd :: AgentManager where
  "demoEnd = failRun 9 0 QUEUED_TASK_CANCELLED demoShut"

lemma demoManager_new: "newAgentManager None = Inr demoManager"
  by (simp add: newAgentManager_def newConcurrencyQueue_def DEFAULT_MAX_CONCURRENCY_def demoManager_def)

lemma demoStart_step: "am_step\<^sup>*\<^sup>* am (demoStart am)"
proof (cases "am_start 7 demoTask False None am")
  case (Inr p)
  then have "am_start 7 demoTask False None am = Inr (fst p, snd p)" by simp
  then have "am_step am (fst p)" by (rule am_starts)
  with Inr show ?thesis by (simp add: demoStart_def split_def)
qed (simp add: demoStart_def)

lemma demoTwo_reachable: "am_step\<^sup>*\<^sup>* demoManager demoTwo"
  unfolding demoTwo_def by (rule rtranclp_trans [OF demoStart_step demoStart_step])

lemma demoTwo_phases: "phaseOf demoTwo 0 = Some RunAssembling \<and> phaseOf demoTwo 1 = Some RunQueued"
  by code_simp

lemma demoShut_state:
  "phaseOf demoShut 0 = Some RunAssembling \<and> Option.bind (amRuns demoShut 0) runCancellation = Some OriginShutdown \<and>
   amShuttingDown demoShut"
  by code_simp

lemma demoShut_reachable: "am_step\<^sup>*\<^sup>* demoManager demoShut"
  using demoTwo_reachable am_shuts_down [of demoTwo 8] unfolding demoShut_def by (rule rtranclp.rtrancl_into_rtrancl)

lemma demoEnd_step: "am_step\<^sup>*\<^sup>* demoShut demoEnd"
proof -
  obtain run where "amRuns demoShut 0 = Some run" "runPhase run = RunAssembling" "runCancellation run \<noteq> None"
    using demoShut_state by (auto simp: phaseOf_Some)
  then show ?thesis using am_assembly_timeout unfolding demoEnd_def by blast
qed

lemma demoEnd_reachable: "am_step\<^sup>*\<^sup>* demoManager demoEnd"
  using demoShut_reachable demoEnd_step by (rule rtranclp_trans)

section \<open>Properties\<close>

lemma reachable_manager: "newAgentManager n = Inr am0 \<Longrightarrow> am_step\<^sup>*\<^sup>* am0 am \<Longrightarrow> am_inv am"
  using manager.reachable_inv by blast

text \<open>C8: Every agent gets exactly one terminal event, at the moment it completes: no two events are for the
  same agent, the agents with an event are those whose record is completed, and the record in an event
  is the record as it stays, with status, error, usage and origin of the result the event carries.\<close>

theorem one_terminal_event_per_agent:
  assumes "newAgentManager n = Inr am0" "am_step\<^sup>*\<^sup>* am0 am"
  shows "distinct (map (recId \<circ> fst) (amTerminal am)) \<and>
    (\<forall>k. k \<in> (recId \<circ> fst) ` set (amTerminal am) \<longleftrightarrow>
       (\<exists>r. map_of (amRecords am) k = Some r \<and> recCompletedAt r \<noteq> None)) \<and>
    (\<forall>(r, ev) \<in> set (amTerminal am). map_of (amRecords am) (recId r) = Some r \<and>
       (\<exists>now. r = resultRecord now (evResult ev) r))"
proof -
  note d = am_bodyD [OF am_invD(2) [OF reachable_manager [OF assms]]]
  have ok: "map_of (amRecords am) (recId r) = Some r \<and> recCompletedAt r \<noteq> None" if "(r, ev) \<in> set (amTerminal am)" for r ev
    using d(7) [OF that] event_completed [OF d(7) [OF that]] by (simp add: event_ok_def)
  have "k \<in> (recId \<circ> fst) ` set (amTerminal am) \<longleftrightarrow>
      (\<exists>r. map_of (amRecords am) k = Some r \<and> recCompletedAt r \<noteq> None)" for k
    using ok d(9) [of k] by fastforce
  with d(7,8) show ?thesis by (auto simp: event_ok_def)
qed

theorem one_terminal_event_per_agent_witness:
  "distinct (map (recId \<circ> fst) (amTerminal demoEnd)) \<and> map (recId \<circ> fst) (amTerminal demoEnd) = [''agent-7-1'']"
proof -
  have "map (recId \<circ> fst) (amTerminal demoEnd) = [''agent-7-1'']" by code_simp
  with one_terminal_event_per_agent [OF demoManager_new demoEnd_reachable] show ?thesis by blast
qed

text \<open>C9: Once the manager shuts down, a start request is refused with an error, no child session is
  assembled any more, whatever the queue starts, and every run that has not ended has been told to stop.\<close>

theorem shutdown_closes_admission:
  assumes "newAgentManager n = Inr am0" "am_step\<^sup>*\<^sup>* am0 am" "amShuttingDown am" "am_step\<^sup>*\<^sup>* am am'"
  shows "am_start now task aborted parent am' = Inl ManagerShutDown \<and> amAssembled am' = amAssembled am \<and>
    (\<forall>t run. amRuns am' t = Some run \<and> \<not> settledPhase (runPhase run) \<longrightarrow> runCancellation run \<noteq> None)"
proof -
  have inv: "am_inv am" by (rule reachable_manager [OF assms(1,2)])
  have "advances am am'" by (rule reachable_advances [OF inv assms(4)])
  then have shut: "amShuttingDown am'" "amAssembled am' = amAssembled am" using assms(3) by (simp_all add: advances_def)
  moreover have "am_inv am'" by (rule manager.steps_inv [OF assms(4) inv])
  ultimately show ?thesis using inv_run(4) by (auto simp: am_start_def)
qed

theorem shutdown_closes_admission_witness:
  "am_start 10 demoTask False None demoEnd = Inl ManagerShutDown \<and> amAssembled demoEnd = [0]"
proof -
  have "amShuttingDown demoShut" "amAssembled demoShut = [0]" by code_simp+
  with shutdown_closes_admission [OF demoManager_new demoShut_reachable _ demoEnd_step] show ?thesis by auto
qed

text \<open>The runs that hold a slot are at most \<open>maxConcurrency\<close>; a run with write access to the workspace is
  then the only one; and as long as a run waits, some run holds a slot, so that the queue moves on.\<close>

theorem active_runs_within_limit:
  assumes "newAgentManager n = Inr am0" "am_step\<^sup>*\<^sup>* am0 am"
  shows "int (card {t. \<exists>run. amRuns am t = Some run \<and> activePhase (runPhase run)}) \<le> maxConcurrency (amQueue am) \<and>
    (\<forall>t run. amRuns am t = Some run \<and> activePhase (runPhase run) \<and>
       taskWorkspaceAccess (runAgentTask run) = WriteAccess \<longrightarrow>
       {u. \<exists>x. amRuns am u = Some x \<and> activePhase (runPhase x)} = {t}) \<and>
    ((\<exists>t. phaseOf am t = Some RunQueued) \<longrightarrow> (\<exists>t run. amRuns am t = Some run \<and> activePhase (runPhase run)))"
proof -
  let ?q = "amQueue am"
  let ?A = "{t. \<exists>run. amRuns am t = Some run \<and> activePhase (runPhase run)}"
  have inv: "am_inv am" by (rule reachable_manager [OF assms])
  note q = am_invD(1) [OF inv] and body = am_invD(2) [OF inv]
  have core: "cq_core ?q" using q by (simp add: cq_inv_def)
  note c = cq_coreD [OF core]
  have "\<exists>run. amRuns am t = Some run" if "t \<in> set (inFlight ?q)" for t
    using that c(6) [of t] am_bodyD(1) [OF body, of t] by auto
  then have A: "?A = set (inFlight ?q)" using inv_run(2) [OF inv] by blast
  have limit: "int (card ?A) \<le> maxConcurrency ?q" unfolding A using c(4,12) by (simp add: distinct_card)
  have alone: "?A = {t}" if t: "amRuns am t = Some run" "activePhase (runPhase run)"
      "taskWorkspaceAccess (runAgentTask run) = WriteAccess" for t run
  proof -
    have in_t: "t \<in> set (inFlight ?q)" using A t by blast
    moreover have "qtAccess (taskOf ?q t) = WriteAccess" using am_bodyD(3) [OF body t(1)] t(3) by (simp add: accessOf_def)
    ultimately have "length (inFlight ?q) = 1" using c(10,11) by blast
    with in_t show ?thesis unfolding A by (auto simp: length_Suc_conv)
  qed
  have moves: "?A \<noteq> {}" if "phaseOf am t = Some RunQueued" for t
  proof -
    obtain run where "amRuns am t = Some run" "runPhase run = RunQueued" using \<open>phaseOf am t = Some RunQueued\<close> by (auto simp: phaseOf_Some)
    then have "pendingTasks ?q \<noteq> []" using inv_run(1) [OF inv] by fastforce
    moreover have "pendingTasks ?q = []" if "inFlight ?q = []"
      using q that c(1,9,10) by (auto simp: cq_inv_def drained_def canStartTask_def split: list.splits if_splits)
    ultimately show ?thesis unfolding A by auto
  qed
  show ?thesis
  proof (intro conjI allI impI)
    fix t run
    assume "amRuns am t = Some run \<and> activePhase (runPhase run) \<and> taskWorkspaceAccess (runAgentTask run) = WriteAccess"
    then show "?A = {t}" using alone by blast
  qed (use limit moves in auto)
qed

theorem active_runs_within_limit_witness:
  "phaseOf demoTwo 1 = Some RunQueued \<and> (\<exists>t run. amRuns demoTwo t = Some run \<and> activePhase (runPhase run)) \<and>
   int (card {t. \<exists>run. amRuns demoTwo t = Some run \<and> activePhase (runPhase run)}) \<le> maxConcurrency (amQueue demoTwo)"
  using active_runs_within_limit [OF demoManager_new demoTwo_reachable] demoTwo_phases by blast

text \<open>A run that was told to stop never ends as completed, whatever its child session reports: its record
  gets the origin of the first request, and its status is cancelled, or failed for a limit.\<close>

theorem cancelled_run_ends_cancelled:
  assumes "newAgentManager n = Inr am0" "am_step\<^sup>*\<^sup>* am0 am" "amRuns am t = Some run" "runCancellation run = Some origin"
    "am_step\<^sup>*\<^sup>* am am'"
  shows "\<exists>run' r. amRuns am' t = Some run' \<and> runAgentId run' = runAgentId run \<and>
    map_of (amRecords am') (runAgentId run) = Some r \<and>
    (recCompletedAt r \<noteq> None \<longrightarrow> recCancellationOrigin r = Some origin \<and> recStatus r \<in> {AgFailed, AgCancelled} \<and>
       (\<not> limitOrigin origin \<longrightarrow> recStatus r = AgCancelled))"
proof -
  have inv: "am_inv am" by (rule reachable_manager [OF assms(1,2)])
  have inv': "am_inv am'" by (rule manager.steps_inv [OF assms(5) inv])
  obtain run' where run': "amRuns am' t = Some run'" "runAgentId run' = runAgentId run" "runCancellation run' = Some origin"
    using reachable_advances [OF inv assms(5)] assms(3,4) unfolding advances_def run_keeps_def by fastforce
  then show ?thesis using inv_run(3) [OF inv' run'(1)] by (fastforce simp: cancelledEnd_def)
qed

theorem cancelled_run_ends_cancelled_witness:
  "map_option recStatus (map_of (amRecords demoEnd) ''agent-7-1'') = Some AgCancelled"
proof -
  obtain run where run: "amRuns demoShut 0 = Some run" "runCancellation run = Some OriginShutdown"
    using demoShut_state by (cases "amRuns demoShut 0") auto
  have "map_option runAgentId (amRuns demoShut 0) = Some ''agent-7-1''" by code_simp
  with run have id: "runAgentId run = ''agent-7-1''" by simp
  have "Option.bind (map_of (amRecords demoEnd) ''agent-7-1'') recCompletedAt = Some 9" by code_simp
  with cancelled_run_ends_cancelled [OF demoManager_new demoShut_reachable run demoEnd_step] show ?thesis
    by (auto simp: id limitOrigin_def)
qed

end
