(* ===== verification/Cron.thy ===== *)
theory Cron
  imports Yishan_Prelude
begin

text \<open>
  Cron expressions of scheduled jobs (\<open>src/apps/api-service/src/scheduled/cron.ts\<close>): parsing of the
  five fields and the search for the next run.

  The time-zone database behind \<open>Intl.DateTimeFormat\<close> is a parameter \<open>intl\<close>: for a zone and an instant
  it gives the parts of \<open>formatToParts\<close> by type, or \<^term>\<open>None\<close> where the call throws. An instant is
  its number of milliseconds. \<open>Number\<close> is applied to the parts only, which are decimal digits; of its
  input language the digits, surrounding white space and the empty string are modelled. Errors carry
  what their message names.
\<close>

section \<open>Data\<close>

datatype CronError =
    NotANumber string string
  | OutOfRange string string int int
  | EmptyToken string
  | BadRange string string
  | RangeEndBeforeStart string
  | EmptyValueInList string
  | ResolvesToNoValues string
  | WrongFieldCount
  | TimezoneEmpty
  | UnsupportedTimezone string
  | IntlRangeError
  | DatePartsUnresolved
  | WeekdayUnresolved
  | NoRunWithinWindow

definition WEEKDAY_NAMES :: "string \<rightharpoonup> int" where
  "WEEKDAY_NAMES = map_of [(''SUN'', 0), (''MON'', 1), (''TUE'', 2), (''WED'', 3), (''THU'', 4), (''FRI'', 5), (''SAT'', 6)]"

definition MAX_CRON_SCAN_MINUTES :: nat where
  "MAX_CRON_SCAN_MINUTES = 60 * 24 * 400"

datatype FieldName = FieldMinute | FieldHour | FieldDayOfMonth | FieldMonth | FieldDayOfWeek

fun FIELD_BOUNDS :: "FieldName \<Rightarrow> int \<times> int" where
  "FIELD_BOUNDS FieldMinute = (0, 59)"
| "FIELD_BOUNDS FieldHour = (0, 23)"
| "FIELD_BOUNDS FieldDayOfMonth = (1, 31)"
| "FIELD_BOUNDS FieldMonth = (1, 12)"
| "FIELD_BOUNDS FieldDayOfWeek = (0, 6)"

fun fieldLabel :: "FieldName \<Rightarrow> string" where
  "fieldLabel FieldMinute = ''minute''"
| "fieldLabel FieldHour = ''hour''"
| "fieldLabel FieldDayOfMonth = ''dayOfMonth''"
| "fieldLabel FieldMonth = ''month''"
| "fieldLabel FieldDayOfWeek = ''dayOfWeek''"

record CronField =
  cfValues :: "int set"
  cfAny :: bool

record ParsedCron =
  cronSource :: string
  cronMinute :: CronField
  cronHour :: CronField
  cronDayOfMonth :: CronField
  cronMonth :: CronField
  cronDayOfWeek :: CronField

section \<open>Parsing helpers\<close>

definition upperChar :: "char \<Rightarrow> char" where
  "upperChar c =
     (let n = of_char c :: nat in if 97 \<le> n \<and> n \<le> 122 then char_of (n - 32) else c)"

text \<open>\<open>toUpperCase\<close>; characters beyond ASCII never become a letter of a weekday name.\<close>

definition toUpperCase :: "string \<Rightarrow> string" where
  "toUpperCase s = map upperChar s"

definition toNumber :: "string \<Rightarrow> int \<Rightarrow> int \<Rightarrow> string \<Rightarrow> CronError + int" where
  "toNumber value lo hi label =
     (case WEEKDAY_NAMES (toUpperCase value) of
        Some name \<Rightarrow> Inr name
      | None \<Rightarrow>
          if \<not> (value \<noteq> [] \<and> list_all isDigit value) then Inl (NotANumber label value)
          else let n = digitsValue value in
               if n < lo \<or> hi < n then Inl (OutOfRange label value lo hi) else Inr n)"

definition expandBase :: "string \<Rightarrow> int \<Rightarrow> int \<Rightarrow> string \<Rightarrow> CronError + int list" where
  "expandBase basePart lo hi label =
     (if basePart = ''*'' then Inr [lo..hi]
      else if CHR ''-'' \<in> set basePart then
        (let pieces = js_split CHR ''-'' basePart;
             startRaw = nullish (js_at pieces 0) [];
             endRaw = nullish (js_at pieces 1) [] in
         if startRaw = [] \<or> endRaw = [] then Inl (BadRange label basePart)
         else case toNumber startRaw lo hi label of
                Inl e \<Rightarrow> Inl e
              | Inr start \<Rightarrow>
                  (case toNumber endRaw lo hi label of
                     Inl e \<Rightarrow> Inl e
                   | Inr end' \<Rightarrow>
                       if end' < start then Inl (RangeEndBeforeStart label) else Inr [start..end']))
      else case toNumber basePart lo hi label of Inl e \<Rightarrow> Inl e | Inr n \<Rightarrow> Inr [n])"

text \<open>A remainder by zero is not a number, so a step of zero keeps no value.\<close>

definition applyStep :: "int \<Rightarrow> int list \<Rightarrow> int list" where
  "applyStep step values =
     (case values of
        [] \<Rightarrow> values
      | start # _ \<Rightarrow> filter (\<lambda>v. step \<noteq> 0 \<and> (v - start) mod step = 0) values)"

definition expandToken :: "string \<Rightarrow> int \<Rightarrow> int \<Rightarrow> string \<Rightarrow> CronError + int list" where
  "expandToken token lo hi label =
     (let pieces = js_split CHR ''/'' token;
          basePart = nullish (js_at pieces 0) [];
          stepPart = js_at pieces 1 in
      if basePart = [] then Inl (EmptyToken label)
      else case stepPart of
             None \<Rightarrow> expandBase basePart lo hi label
           | Some raw \<Rightarrow>
               (case toNumber raw 1 hi (label @ '' step'') of
                  Inl e \<Rightarrow> Inl e
                | Inr step \<Rightarrow>
                    (case expandBase basePart lo hi label of
                       Inl e \<Rightarrow> Inl e
                     | Inr values \<Rightarrow> Inr (applyStep step values))))"

fun addTokens :: "int \<Rightarrow> int \<Rightarrow> string \<Rightarrow> string list \<Rightarrow> int set \<Rightarrow> CronError + int set" where
  "addTokens lo hi label [] values = Inr values"
| "addTokens lo hi label (part # parts) values =
     (let token = js_trim part in
      if token = [] then Inl (EmptyValueInList label)
      else case expandToken token lo hi label of
             Inl e \<Rightarrow> Inl e
           | Inr vs \<Rightarrow> addTokens lo hi label parts (values \<union> set vs))"

definition parseField :: "string \<Rightarrow> FieldName \<Rightarrow> CronError + CronField" where
  "parseField input name =
     (let trimmed = js_trim input;
          (lo, hi) = FIELD_BOUNDS name in
      if trimmed = ''*'' then Inr \<lparr>cfValues = {}, cfAny = True\<rparr>
      else case addTokens lo hi (fieldLabel name) (js_split CHR '','' trimmed) {} of
             Inl e \<Rightarrow> Inl e
           | Inr values \<Rightarrow>
               if values = {} then Inl (ResolvesToNoValues (fieldLabel name))
               else Inr \<lparr>cfValues = values, cfAny = False\<rparr>)"

section \<open>Expressions\<close>

text \<open>\<open>replace(/\s+/g, " ")\<close>.\<close>

fun collapseSpaces :: "string \<Rightarrow> string" where
  "collapseSpaces [] = []"
| "collapseSpaces (c # s) =
     (if js_space c
      then (if s \<noteq> [] \<and> js_space (hd s) then collapseSpaces s else CHR '' '' # collapseSpaces s)
      else c # collapseSpaces s)"

definition parseCronExpression :: "string \<Rightarrow> CronError + ParsedCron" where
  "parseCronExpression expression =
     (let normalized = collapseSpaces (js_trim expression) in
      case js_split CHR '' '' normalized of
        [minute, hour, dayOfMonth, month, dayOfWeek] \<Rightarrow>
          (case parseField minute FieldMinute of
             Inl e \<Rightarrow> Inl e
           | Inr mi \<Rightarrow>
          case parseField hour FieldHour of
             Inl e \<Rightarrow> Inl e
           | Inr ho \<Rightarrow>
          case parseField dayOfMonth FieldDayOfMonth of
             Inl e \<Rightarrow> Inl e
           | Inr dm \<Rightarrow>
          case parseField month FieldMonth of
             Inl e \<Rightarrow> Inl e
           | Inr mo \<Rightarrow>
          case parseField dayOfWeek FieldDayOfWeek of
             Inl e \<Rightarrow> Inl e
           | Inr dw \<Rightarrow>
               Inr \<lparr>cronSource = normalized, cronMinute = mi, cronHour = ho, cronDayOfMonth = dm,
                    cronMonth = mo, cronDayOfWeek = dw\<rparr>)
      | _ \<Rightarrow> Inl WrongFieldCount)"

type_synonym Intl = "string \<Rightarrow> int \<Rightarrow> (string \<rightharpoonup> string) option"

text \<open>\<open>supported\<close> says for which zones \<open>new Intl.DateTimeFormat\<close> does not throw.\<close>

definition ensureTimezoneSupported :: "(string \<Rightarrow> bool) \<Rightarrow> string \<Rightarrow> CronError + string" where
  "ensureTimezoneSupported supported timezone =
     (let trimmed = js_trim timezone in
      if trimmed = [] then Inl TimezoneEmpty
      else if supported trimmed then Inr trimmed else Inl (UnsupportedTimezone trimmed))"

section \<open>Matching\<close>

record DateParts =
  dpYear :: int
  dpMonth :: int
  dpDay :: int
  dpHour :: int
  dpMinute :: int
  dpSecond :: int
  dpWeekday :: int

text \<open>\<open>Number\<close> of a part that may be missing; \<^term>\<open>None\<close> is \<open>NaN\<close>.\<close>

definition partNumber :: "string option \<Rightarrow> int option" where
  "partNumber part =
     (case part of
        None \<Rightarrow> None
      | Some s \<Rightarrow>
          let t = js_trim s in
          if t = [] then Some 0 else if list_all isDigit t then Some (digitsValue t) else None)"

definition toTimezoneParts :: "Intl \<Rightarrow> int \<Rightarrow> string \<Rightarrow> CronError + DateParts" where
  "toTimezoneParts intl date timezone =
     (case intl timezone date of
        None \<Rightarrow> Inl IntlRangeError
      | Some parts \<Rightarrow>
          (case (partNumber (parts ''year''), partNumber (parts ''month''), partNumber (parts ''day''),
                 partNumber (parts ''hour''), partNumber (parts ''minute''), partNumber (parts ''second'')) of
             (Some year, Some month, Some day, Some hour, Some minute, Some second) \<Rightarrow>
               (let weekdayRaw = map_option toUpperCase (parts ''weekday'');
                    weekday = (case truthy_string weekdayRaw of None \<Rightarrow> -1 | Some w \<Rightarrow> nullish (WEEKDAY_NAMES w) (-1)) in
                if weekday < 0 \<or> 6 < weekday then Inl WeekdayUnresolved
                else Inr \<lparr>dpYear = year, dpMonth = month, dpDay = day, dpHour = hour mod 24, dpMinute = minute,
                          dpSecond = second, dpWeekday = weekday\<rparr>)
           | _ \<Rightarrow> Inl DatePartsUnresolved))"

definition fieldMatches :: "CronField \<Rightarrow> int \<Rightarrow> bool" where
  "fieldMatches field value \<longleftrightarrow> cfAny field \<or> value \<in> cfValues field"

definition matchesCron :: "Intl \<Rightarrow> ParsedCron \<Rightarrow> int \<Rightarrow> string \<Rightarrow> CronError + bool" where
  "matchesCron intl parsed date timezone =
     (case toTimezoneParts intl date timezone of
        Inl e \<Rightarrow> Inl e
      | Inr p \<Rightarrow>
          if dpSecond p \<noteq> 0 then Inr False
          else Inr (fieldMatches (cronMinute parsed) (dpMinute p) \<and> fieldMatches (cronHour parsed) (dpHour p) \<and>
                    fieldMatches (cronDayOfMonth parsed) (dpDay p) \<and> fieldMatches (cronMonth parsed) (dpMonth p) \<and>
                    fieldMatches (cronDayOfWeek parsed) (dpWeekday p)))"

text \<open>The loop of \<open>computeNextRunAt\<close>, with \<open>n\<close> iterations left.\<close>

fun scanMinutes :: "Intl \<Rightarrow> ParsedCron \<Rightarrow> string \<Rightarrow> nat \<Rightarrow> int \<Rightarrow> CronError + int" where
  "scanMinutes intl parsed timezone n cursor =
     (if n = 0 then Inl NoRunWithinWindow
      else case matchesCron intl parsed cursor timezone of
             Inl e \<Rightarrow> Inl e
           | Inr True \<Rightarrow> Inr cursor
           | Inr False \<Rightarrow> scanMinutes intl parsed timezone (n - 1) (cursor + 60000))"

declare scanMinutes.simps [simp del]

definition computeNextRunAt :: "Intl \<Rightarrow> ParsedCron \<Rightarrow> string \<Rightarrow> int \<Rightarrow> CronError + int" where
  "computeNextRunAt intl parsed timezone fromDate =
     scanMinutes intl parsed timezone MAX_CRON_SCAN_MINUTES (fromDate - fromDate mod 60000 + 60000)"

end
