(* ===== verification/Cron_Properties.thy ===== *)
theory Cron_Properties
  imports Cron
begin

text \<open>
  Parsing gives each field the meaning of the text it was written with, and the next run is the
  first whole minute after the given instant at which all fields match.
\<close>

section \<open>Numbers as text\<close>

text \<open>Digits are not white space, separators or letters.\<close>

lemma digit_not_special:
  assumes "isDigit c"
  shows "\<not> js_space c" "c \<noteq> CHR ''-''" "c \<noteq> CHR ''/''" "c \<noteq> CHR '',''" "c \<noteq> CHR ''*''" "upperChar c = c"
proof -
  have all: "\<forall>c \<in> set ''0123456789''. \<not> js_space c \<and> c \<noteq> CHR ''-'' \<and> c \<noteq> CHR ''/'' \<and> c \<noteq> CHR '','' \<and>
      c \<noteq> CHR ''*'' \<and> upperChar c = c" by code_simp
  note c = bspec [OF all isDigit_cases [OF assms]]
  from c show "\<not> js_space c" by (elim conjE)
  from c show "c \<noteq> CHR ''-''" "c \<noteq> CHR ''/''" "c \<noteq> CHR '',''" "c \<noteq> CHR ''*''" "upperChar c = c" by simp_all
qed

lemma digit_not_initial:
  assumes "isDigit c"
  shows "c \<notin> set ''SMTWF''"
proof -
  have "\<forall>c \<in> set ''0123456789''. c \<notin> set ''SMTWF''" by code_simp
  from bspec [OF this isDigit_cases [OF assms]] show ?thesis .
qed

lemma weekday_initial: "WEEKDAY_NAMES w = Some n \<Longrightarrow> hd w \<in> set ''SMTWF''"
  by (auto simp: WEEKDAY_NAMES_def split: if_splits)

lemma weekday_not_digits:
  assumes "s \<noteq> []" "list_all isDigit s"
  shows "WEEKDAY_NAMES (toUpperCase s) = None"
proof (rule ccontr)
  assume "WEEKDAY_NAMES (toUpperCase s) \<noteq> None"
  then have "hd (toUpperCase s) \<in> set ''SMTWF''" using weekday_initial by blast
  moreover have "isDigit (hd s)" using assms by (cases s) simp_all
  then have "hd (toUpperCase s) = hd s" using assms(1) by (simp add: toUpperCase_def hd_map digit_not_special)
  ultimately show False using digit_not_initial [OF \<open>isDigit (hd s)\<close>] by (simp only:)
qed

lemma toNumber_show:
  "lo \<le> int n \<Longrightarrow> int n \<le> hi \<Longrightarrow> toNumber (js_show_nat n) lo hi label = Inr (int n)"
  using show_nat_digits [of n] by (simp add: toNumber_def weekday_not_digits digitsValue_show)

lemma show_nat_special:
  "c \<in> set (js_show_nat n) \<Longrightarrow> \<not> js_space c \<and> c \<noteq> CHR ''-'' \<and> c \<noteq> CHR ''/'' \<and> c \<noteq> CHR '','' \<and> c \<noteq> CHR ''*''"
  using show_nat_digits [of n] digit_not_special by (auto simp: list_all_iff)

section \<open>Splitting and trimming\<close>

lemma js_trim_no_space: "(\<And>c. c \<in> set s \<Longrightarrow> \<not> js_space c) \<Longrightarrow> js_trim s = s"
  by (metis js_trim_def dropWhile_eq_self_iff hd_in_set rev_rev_ident set_rev)

lemma set_js_join: "set (js_join sep ps) \<subseteq> set sep \<union> (\<Union>p \<in> set ps. set p)"
  by (induction sep ps rule: js_join.induct) auto

section \<open>The language of one field\<close>

datatype CronBase = StarBase | NumBase nat | RangeBase nat nat

type_synonym CronToken = "CronBase \<times> nat option"

fun printBase :: "CronBase \<Rightarrow> string" where
  "printBase StarBase = ''*''"
| "printBase (NumBase n) = js_show_nat n"
| "printBase (RangeBase a b) = js_show_nat a @ CHR ''-'' # js_show_nat b"

fun printToken :: "CronToken \<Rightarrow> string" where
  "printToken (b, None) = printBase b"
| "printToken (b, Some s) = printBase b @ CHR ''/'' # js_show_nat s"

fun baseBounds :: "int \<Rightarrow> int \<Rightarrow> CronBase \<Rightarrow> int \<times> int" where
  "baseBounds lo hi StarBase = (lo, hi)"
| "baseBounds lo hi (NumBase n) = (int n, int n)"
| "baseBounds lo hi (RangeBase a b) = (int a, int b)"

fun tokenWf :: "int \<Rightarrow> int \<Rightarrow> CronToken \<Rightarrow> bool" where
  "tokenWf lo hi (b, s) =
     (let (x, y) = baseBounds lo hi b in
      lo \<le> x \<and> x \<le> y \<and> y \<le> hi \<and> (case s of None \<Rightarrow> True | Some n \<Rightarrow> 1 \<le> n \<and> int n \<le> hi))"

text \<open>The values a token stands for: an interval, or every \<open>n\<close>-th value of it from its start.\<close>

fun tokenMeaning :: "int \<Rightarrow> int \<Rightarrow> CronToken \<Rightarrow> int set" where
  "tokenMeaning lo hi (b, s) =
     (let (x, y) = baseBounds lo hi b in
      {v. x \<le> v \<and> v \<le> y \<and> (case s of None \<Rightarrow> True | Some n \<Rightarrow> (v - x) mod int n = 0)})"

lemma printBase_chars:
  "c \<in> set (printBase b) \<Longrightarrow> \<not> js_space c \<and> c \<noteq> CHR ''/'' \<and> c \<noteq> CHR '',''"
  by (cases b) (auto dest: show_nat_special simp: js_space_def)

lemma printToken_chars: "c \<in> set (printToken t) \<Longrightarrow> \<not> js_space c \<and> c \<noteq> CHR '',''"
  by (induction t rule: printToken.induct) (auto dest: show_nat_special printBase_chars simp: js_space_def)

lemma printBase_nonempty [simp]: "printBase b \<noteq> []"
  using show_nat_digits by (cases b) auto

lemma printToken_nonempty [simp]: "printToken t \<noteq> []"
  by (induction t rule: printToken.induct) auto

lemma show_nat_not_star: "js_show_nat n \<noteq> ''*''"
  using show_nat_special [of "CHR ''*''" n] by auto

lemma expandBase_print:
  assumes "baseBounds lo hi b = (x, y)" "lo \<le> x" "x \<le> y" "y \<le> hi"
  shows "expandBase (printBase b) lo hi label = Inr [x..y]"
proof (cases b)
  case StarBase
  with assms show ?thesis by (simp add: expandBase_def)
next
  case (NumBase n)
  then show ?thesis using assms show_nat_special [of "CHR ''-''" n]
    by (auto simp: expandBase_def show_nat_not_star toNumber_show)
next
  case (RangeBase a c)
  have "CHR ''-'' \<notin> set (js_show_nat m)" for m using show_nat_special by blast
  then have "js_split CHR ''-'' (js_show_nat a @ CHR ''-'' # js_show_nat c) = [js_show_nat a, js_show_nat c]"
    by (simp add: js_split_append js_split_absent)
  moreover have "js_show_nat a @ CHR ''-'' # js_show_nat c \<noteq> ''*''" by (cases "js_show_nat a") auto
  ultimately show ?thesis using assms RangeBase show_nat_digits
    by (simp add: expandBase_def toNumber_show js_at_def Let_def)
qed

lemma applyStep_interval:
  "1 \<le> n \<Longrightarrow> x \<le> y \<Longrightarrow> set (applyStep (int n) [x..y]) = {v. x \<le> v \<and> v \<le> y \<and> (v - x) mod int n = 0}"
proof -
  assume n: "1 \<le> n" "x \<le> y"
  have "applyStep (int n) [x..y] = filter (\<lambda>v. int n \<noteq> 0 \<and> (v - x) mod int n = 0) [x..y]"
    using upto_rec1 [OF n(2)] by (simp add: applyStep_def)
  with n show ?thesis by auto
qed

lemma expandToken_print:
  assumes "tokenWf lo hi t"
  shows "\<exists>vs. expandToken (printToken t) lo hi label = Inr vs \<and> set vs = tokenMeaning lo hi t"
proof -
  obtain b s x y where t: "t = (b, s)" "baseBounds lo hi b = (x, y)" by (metis surj_pair)
  have base: "expandBase (printBase b) lo hi label = Inr [x..y]"
    using assms t by (auto intro!: expandBase_print)
  have nosep: "CHR ''/'' \<notin> set (printBase b)" using printBase_chars by blast
  show ?thesis
  proof (cases s)
    case None
    with t base nosep show ?thesis by (auto simp: expandToken_def js_split_absent js_at_def)
  next
    case (Some n)
    have "CHR ''/'' \<notin> set (js_show_nat n)" using show_nat_special by blast
    then have "js_split CHR ''/'' (printToken t) = [printBase b, js_show_nat n]"
      using t Some nosep by (simp add: js_split_append js_split_absent)
    moreover have "toNumber (js_show_nat n) 1 hi (label @ '' step'') = Inr (int n)"
      using assms t Some by (intro toNumber_show) auto
    moreover have "set (applyStep (int n) [x..y]) = tokenMeaning lo hi t"
      using assms t Some by (subst applyStep_interval) auto
    ultimately show ?thesis using base by (simp add: expandToken_def js_at_def)
  qed
qed

lemma addTokens_print:
  "(\<And>t. t \<in> set ts \<Longrightarrow> tokenWf lo hi t) \<Longrightarrow>
   addTokens lo hi label (map printToken ts) vs = Inr (vs \<union> (\<Union>t \<in> set ts. tokenMeaning lo hi t))"
proof (induction ts arbitrary: vs)
  case (Cons t ts)
  obtain us where us: "expandToken (printToken t) lo hi label = Inr us" "set us = tokenMeaning lo hi t"
    using expandToken_print [OF Cons.prems [OF list.set_intros(1)]] by blast
  have "js_trim (printToken t) = printToken t" using printToken_chars by (intro js_trim_no_space) blast
  with us Cons show ?case by (simp add: Un_assoc)
qed simp

lemma tokenMeaning_nonempty: "tokenWf lo hi t \<Longrightarrow> tokenMeaning lo hi t \<noteq> {}"
proof -
  assume wf: "tokenWf lo hi t"
  obtain b s x y where t: "t = (b, s)" "baseBounds lo hi b = (x, y)" by (metis surj_pair)
  with wf have "x \<in> tokenMeaning lo hi t" by (auto split: option.split)
  then show ?thesis by blast
qed

section \<open>The scan\<close>

lemma scanMinutes_Inr:
  "scanMinutes intl parsed tz n c = Inr t \<longleftrightarrow>
   (\<exists>i < n. t = c + 60000 * int i \<and> matchesCron intl parsed t tz = Inr True \<and>
      (\<forall>j < i. matchesCron intl parsed (c + 60000 * int j) tz = Inr False))"
proof (induction n arbitrary: c)
  case 0
  show ?case by (subst scanMinutes.simps) simp
next
  case (Suc n)
  have shift: "c + 60000 + 60000 * int i = c + 60000 * int (Suc i)" for i by simp
  show ?case
    by (subst scanMinutes.simps)
      (auto simp: Suc.IH shift Ex_less_Suc2 All_less_Suc2 simp del: of_nat_Suc split: sum.split bool.split)
qed

lemma scanMinutes_none:
  "scanMinutes intl parsed tz n c = Inl NoRunWithinWindow \<longleftrightarrow>
   (\<forall>j < n. matchesCron intl parsed (c + 60000 * int j) tz = Inr False)"
proof (induction n arbitrary: c)
  case 0
  show ?case by (subst scanMinutes.simps) simp
next
  case (Suc n)
  have shift: "c + 60000 + 60000 * int i = c + 60000 * int (Suc i)" for i by simp
  have "matchesCron intl parsed c tz \<noteq> Inl NoRunWithinWindow"
    by (auto simp: matchesCron_def toTimezoneParts_def Let_def split: sum.splits option.splits if_splits)
  then show ?case
    by (subst scanMinutes.simps)
      (auto simp: Suc.IH shift All_less_Suc2 simp del: of_nat_Suc split: sum.split bool.split)
qed

text \<open>The whole minutes of the window, by their number.\<close>

lemma whole_minute_index:
  fixes from' :: int
  defines "c \<equiv> from' - from' mod 60000 + 60000"
  shows "u mod 60000 = 0 \<and> from' < u \<and> u < c + 60000 * int n \<longleftrightarrow> (\<exists>i < n. u = c + 60000 * int i)"
proof
  assume u: "u mod 60000 = 0 \<and> from' < u \<and> u < c + 60000 * int n"
  have "c mod 60000 = 0" by (simp add: c_def mod_simps)
  define q where "q = u div 60000 - c div 60000"
  have uc: "u = c + 60000 * q"
    using u \<open>c mod 60000 = 0\<close> mult_div_mod_eq [of 60000 u] mult_div_mod_eq [of 60000 c] by (simp add: q_def)
  have "0 \<le> q" using u uc pos_mod_sign [of 60000 from'] pos_mod_bound [of 60000 from'] unfolding c_def by linarith
  moreover have "q < int n" using u uc by linarith
  ultimately show "\<exists>i < n. u = c + 60000 * int i" using uc by (intro exI [of _ "nat q"]) auto
next
  assume "\<exists>i < n. u = c + 60000 * int i"
  then obtain i where i: "i < n" "u = c + 60000 * int i" by blast
  have "u mod 60000 = 0" by (simp add: i c_def mod_simps)
  then show "u mod 60000 = 0 \<and> from' < u \<and> u < c + 60000 * int n"
    using i pos_mod_bound [of 60000 from'] unfolding c_def by auto
qed

section \<open>A sample zone\<close>

text \<open>Universal time as far as hours and minutes go, with a fixed day.\<close>

definition sampleIntl :: Intl where
  "sampleIntl tz t = Some (map_of
     [(''year'', ''2024''), (''month'', ''01''), (''day'', ''15''), (''weekday'', ''Mon''),
      (''hour'', js_show_nat (nat (t div 3600000 mod 24))), (''minute'', js_show_nat (nat (t div 60000 mod 60))),
      (''second'', js_show_nat (nat (t div 1000 mod 60)))])"

definition sampleCron :: ParsedCron where
  "sampleCron = (case parseCronExpression ''3-20/5 * * * MON-FRI'' of Inr p \<Rightarrow> p)"

section \<open>Properties\<close>

text \<open>C12: The next run is the first whole minute after the given instant, within 400 days, at which the
  expression matches in the given zone; \<open>computeNextRunAt\<close> returns it exactly when it exists and the zone
  data of all earlier minutes can be read, and it reports that there is no run exactly when no minute of
  the window matches.\<close>

theorem next_run_is_first_match:
  "(computeNextRunAt intl parsed tz from' = Inr t \<longleftrightarrow>
      t mod 60000 = 0 \<and> from' < t \<and> t < from' - from' mod 60000 + 60000 + 60000 * int MAX_CRON_SCAN_MINUTES \<and>
      matchesCron intl parsed t tz = Inr True \<and>
      (\<forall>u. u mod 60000 = 0 \<and> from' < u \<and> u < t \<longrightarrow> matchesCron intl parsed u tz = Inr False)) \<and>
   (computeNextRunAt intl parsed tz from' = Inl NoRunWithinWindow \<longleftrightarrow>
      (\<forall>u. u mod 60000 = 0 \<and> from' < u \<and> u < from' - from' mod 60000 + 60000 + 60000 * int MAX_CRON_SCAN_MINUTES \<longrightarrow>
         matchesCron intl parsed u tz = Inr False))"
proof -
  define c where "c = from' - from' mod 60000 + 60000"
  note minute = whole_minute_index [of _ from', folded c_def]
  have first: "(\<exists>i < n. t = c + 60000 * int i \<and> M t \<and> (\<forall>j < i. F (c + 60000 * int j))) \<longleftrightarrow>
      (t mod 60000 = 0 \<and> from' < t \<and> t < c + 60000 * int n) \<and> M t \<and>
      (\<forall>u. u mod 60000 = 0 \<and> from' < u \<and> u < t \<longrightarrow> F u)" for n M F
  proof -
    have upto: "(\<forall>u. u mod 60000 = 0 \<and> from' < u \<and> u < c + 60000 * int i \<longrightarrow> F u) \<longleftrightarrow> (\<forall>j < i. F (c + 60000 * int j))" for i
      unfolding minute by blast
    define Q where "Q \<longleftrightarrow> (\<forall>u. u mod 60000 = 0 \<and> from' < u \<and> u < t \<longrightarrow> F u)"
    have "t = c + 60000 * int i \<and> M t \<and> (\<forall>j < i. F (c + 60000 * int j)) \<longleftrightarrow> t = c + 60000 * int i \<and> M t \<and> Q" for i
      unfolding Q_def by (intro conj_cong refl) (simp only: upto)
    then have "(\<exists>i < n. t = c + 60000 * int i \<and> M t \<and> (\<forall>j < i. F (c + 60000 * int j))) \<longleftrightarrow>
        (\<exists>i < n. t = c + 60000 * int i) \<and> M t \<and> Q"
      by (simp only:) blast
    then show ?thesis unfolding Q_def minute [of t n] .
  qed
  have window: "(\<forall>j < n. F (c + 60000 * int j)) \<longleftrightarrow>
      (\<forall>u. u mod 60000 = 0 \<and> from' < u \<and> u < c + 60000 * int n \<longrightarrow> F u)" for n F
    unfolding minute by blast
  show ?thesis
    unfolding computeNextRunAt_def c_def [symmetric] scanMinutes_Inr scanMinutes_none
      first [of _ "\<lambda>t. matchesCron intl parsed t tz = Inr True" "\<lambda>u. matchesCron intl parsed u tz = Inr False"]
    unfolding window [of _ "\<lambda>u. matchesCron intl parsed u tz = Inr False"]
    by (simp only: conj_assoc)
qed

theorem next_run_is_first_match_witness:
  "computeNextRunAt sampleIntl sampleCron ''UTC'' 100000 = Inr 180000 \<and>
   matchesCron sampleIntl sampleCron 120000 ''UTC'' = Inr False"
proof -
  have m: "matchesCron sampleIntl sampleCron 180000 ''UTC'' = Inr True" by code_simp
  have run: "computeNextRunAt sampleIntl sampleCron ''UTC'' 100000 = Inr 180000"
  proof -
    have "matchesCron sampleIntl sampleCron 120000 ''UTC'' = Inr False" by code_simp
    with m show ?thesis by (simp add: computeNextRunAt_def MAX_CRON_SCAN_MINUTES_def scanMinutes.simps)
  qed
  with next_run_is_first_match [of sampleIntl sampleCron "''UTC''" 100000 180000] show ?thesis by simp
qed

text \<open>C13: Printing and parsing a field agree: a field written as a comma-separated list of stars, numbers
  and ranges within the bounds of the field, each with an optional step, parses, and the parsed
  field matches a value of its range exactly when one of the parts stands for that value.\<close>

theorem cron_field_roundtrip:
  assumes "FIELD_BOUNDS name = (lo, hi)" "ts \<noteq> []" "\<And>t. t \<in> set ts \<Longrightarrow> tokenWf lo hi t"
  shows "\<exists>field. parseField (js_join '','' (map printToken ts)) name = Inr field \<and>
    (\<forall>v. lo \<le> v \<and> v \<le> hi \<longrightarrow> (fieldMatches field v \<longleftrightarrow> (\<exists>t \<in> set ts. v \<in> tokenMeaning lo hi t)))"
proof -
  let ?s = "js_join '','' (map printToken ts)"
  have sp: "js_split CHR '','' ?s = map printToken ts"
    using assms(2) printToken_chars by (intro js_split_join) auto
  have "\<not> js_space c" if "c \<in> set ?s" for c
  proof -
    have comma: "\<not> js_space CHR '',''" by code_simp
    from that set_js_join [of "'',''" "map printToken ts"] have "c = CHR '','' \<or> (\<exists>t. c \<in> set (printToken t))" by auto
    with comma printToken_chars show ?thesis by blast
  qed
  then have trim: "js_trim ?s = ?s" by (rule js_trim_no_space)
  note tokens = addTokens_print [of ts lo hi "fieldLabel name" "{}", OF assms(3)]
  have ne: "(\<Union>t \<in> set ts. tokenMeaning lo hi t) \<noteq> {}"
    using assms(2,3) tokenMeaning_nonempty by (cases ts) auto
  show ?thesis
  proof (cases "?s = ''*''")
    case True
    with sp have "map printToken ts = [''*'']" by (simp add: js_split_absent)
    then obtain t where t: "ts = [t]" "printToken t = ''*''" by auto
    have "expandToken ''*'' lo hi (fieldLabel name) = Inr [lo..hi]"
      by (simp add: expandToken_def expandBase_def js_at_def)
    with expandToken_print [OF assms(3), of t "fieldLabel name"] t have "tokenMeaning lo hi t = {lo..hi}" by auto
    with trim True t show ?thesis
      by (intro exI [of _ "\<lparr>cfValues = {}, cfAny = True\<rparr>"]) (simp add: parseField_def assms(1) fieldMatches_def Let_def)
  next
    case False
    with tokens ne show ?thesis by (simp add: parseField_def trim sp assms(1) fieldMatches_def)
  qed
qed

theorem cron_field_roundtrip_witness:
  "\<exists>field. parseField (js_join '','' (map printToken [(RangeBase 3 20, Some 5), (NumBase 59, None)])) FieldMinute = Inr field \<and>
     fieldMatches field 13 \<and> \<not> fieldMatches field 14"
proof -
  let ?ts = "[(RangeBase 3 20, Some 5), (NumBase 59, None)]"
  have "\<And>t. t \<in> set ?ts \<Longrightarrow> tokenWf 0 59 t" by auto
  from cron_field_roundtrip [of FieldMinute 0 59 ?ts, OF _ _ this] obtain field where
    f: "parseField (js_join '','' (map printToken ?ts)) FieldMinute = Inr field"
      "\<And>v. 0 \<le> v \<Longrightarrow> v \<le> 59 \<Longrightarrow> fieldMatches field v \<longleftrightarrow> (\<exists>t \<in> set ?ts. v \<in> tokenMeaning 0 59 t)" by auto
  with f(2) [of 13] f(2) [of 14] show ?thesis by (intro exI [of _ field]) simp
qed

text \<open>A weekday name is accepted in every field and is not checked against the bounds of the field, so
  \<open>0 9 SUN * *\<close> parses with day of month 0. With any zone data whose days of month start at 1, such a
  job has no next run at all.\<close>

theorem weekday_name_as_day_never_runs:
  assumes "\<And>tz t parts d. intl tz t = Some parts \<Longrightarrow> partNumber (parts ''day'') = Some d \<Longrightarrow> 1 \<le> d"
  shows "\<exists>p. parseCronExpression ''0 9 SUN * *'' = Inr p \<and> cfValues (cronDayOfMonth p) = {0} \<and>
    computeNextRunAt intl p tz from' \<noteq> Inr t"
proof -
  have parse: "\<exists>p. parseCronExpression ''0 9 SUN * *'' = Inr p \<and> cronDayOfMonth p = \<lparr>cfValues = {0}, cfAny = False\<rparr>"
  proof -
    have "(case parseCronExpression ''0 9 SUN * *'' of Inl _ \<Rightarrow> False
        | Inr p \<Rightarrow> cronDayOfMonth p = \<lparr>cfValues = {0}, cfAny = False\<rparr>)" by code_simp
    then show ?thesis by (cases "parseCronExpression ''0 9 SUN * *''") simp_all
  qed
  have never: "computeNextRunAt intl p tz from' \<noteq> Inr t" if p: "cronDayOfMonth p = \<lparr>cfValues = {0}, cfAny = False\<rparr>" for p
  proof
    assume "computeNextRunAt intl p tz from' = Inr t"
    then have "matchesCron intl p t tz = Inr True" by (auto simp: computeNextRunAt_def scanMinutes_Inr)
    then obtain parts where "intl tz t = Some parts" "partNumber (parts ''day'') = Some 0"
      using p by (auto simp: matchesCron_def toTimezoneParts_def fieldMatches_def Let_def split: sum.splits option.splits if_splits)
    with assms show False by force
  qed
  from parse never show ?thesis by fastforce
qed

theorem weekday_name_as_day_never_runs_witness:
  "\<exists>p. parseCronExpression ''0 9 SUN * *'' = Inr p \<and> computeNextRunAt sampleIntl p ''UTC'' 0 \<noteq> Inr 32400000"
proof -
  have "partNumber (Some ''15'') = Some 15" by code_simp
  then have "1 \<le> d" if "sampleIntl tz t = Some parts" "partNumber (parts ''day'') = Some d" for tz t parts d
    using that by (auto simp: sampleIntl_def)
  with weekday_name_as_day_never_runs [of sampleIntl "''UTC''" 0 32400000] show ?thesis by blast
qed

end
