(* ===== verification/Git_Gutter.thy ===== *)
theory Git_Gutter
  imports Yishan_Prelude
begin

text \<open>
  The change markers of the editor gutter
  (\<open>src/apps/desktop/src/renderer/domains/files/features/file-editor/git-gutter/gitGutterDiff.ts\<close>): the
  committed and the edited text are split into lines, common prefix and suffix are trimmed, the
  middle is compared by a longest-common-subsequence table, and the unmatched regions become
  hunks.

  The first pass of \<open>computeLCS\<close> fills two local arrays that nothing reads afterwards; it has no effect
  on the result and is not repeated here.
\<close>

section \<open>Data\<close>

datatype GitLineChangeKind = AddedLine | ModifiedLine | DeletedLine

record GitLineChange =
  changeLineNumber :: int
  changeKind :: GitLineChangeKind

record DiffHunk =
  oldStart :: int
  oldLength :: int
  newStart :: int
  newLength :: int

section \<open>The longest common subsequence\<close>

text \<open>One cell of the table, then one row from left to right, then the table row by row.\<close>

definition lcsCell :: "'a \<Rightarrow> 'a list \<Rightarrow> nat list \<Rightarrow> nat list \<Rightarrow> nat \<Rightarrow> nat" where
  "lcsCell oldLine newLines previousRow currentRow j =
     (if oldLine = newLines ! (j - 1)
      then nullish (js_at previousRow (int j - 1)) 0 + 1
      else max (nullish (js_at previousRow (int j)) 0) (nullish (js_at currentRow (int j - 1)) 0))"

definition fillRow :: "'a \<Rightarrow> 'a list \<Rightarrow> nat list \<Rightarrow> nat list \<Rightarrow> nat list" where
  "fillRow oldLine newLines previousRow row =
     fold (\<lambda>j currentRow. currentRow[j := lcsCell oldLine newLines previousRow currentRow j])
       [1..<length newLines + 1] row"

definition lcsTable :: "'a list \<Rightarrow> 'a list \<Rightarrow> nat list list" where
  "lcsTable oldLines newLines =
     fold (\<lambda>i dp. dp[i := fillRow (oldLines ! (i - 1)) newLines (dp ! (i - 1)) (dp ! i)])
       [1..<length oldLines + 1]
       (replicate (length oldLines + 1) (replicate (length newLines + 1) 0))"

function backtrack ::
  "'a list \<Rightarrow> 'a list \<Rightarrow> nat list list \<Rightarrow> nat \<Rightarrow> nat \<Rightarrow> (nat \<times> nat) list \<Rightarrow> (nat \<times> nat) list" where
  "backtrack oldLines newLines dp i j pairs =
     (if 0 < i \<and> 0 < j then
        if oldLines ! (i - 1) = newLines ! (j - 1)
        then backtrack oldLines newLines dp (i - 1) (j - 1) ((i - 1, j - 1) # pairs)
        else if nullish (js_at (dp ! i) (int j - 1)) 0 \<le> nullish (js_at (dp ! (i - 1)) (int j)) 0
        then backtrack oldLines newLines dp (i - 1) j pairs
        else backtrack oldLines newLines dp i (j - 1) pairs
      else pairs)"
  by pat_completeness auto
termination
  by (relation "measure (\<lambda>(_, _, _, i, j, _). i + j)") auto

declare backtrack.simps [simp del]

definition reconstructLCSFull :: "'a list \<Rightarrow> 'a list \<Rightarrow> (nat \<times> nat) list" where
  "reconstructLCSFull oldLines newLines =
     backtrack oldLines newLines (lcsTable oldLines newLines) (length oldLines) (length newLines) []"

definition computeLCS :: "'a list \<Rightarrow> 'a list \<Rightarrow> (nat \<times> nat) list" where
  "computeLCS oldLines newLines =
     (if 10000000 < length oldLines * length newLines then []
      else if length oldLines * length newLines \<le> 1000000 then reconstructLCSFull oldLines newLines
      else [])"

section \<open>Hunks\<close>

fun hunkLoop :: "nat \<Rightarrow> (nat \<times> nat) list \<Rightarrow> nat \<times> nat \<times> DiffHunk list \<Rightarrow> nat \<times> nat \<times> DiffHunk list" where
  "hunkLoop prefixLen [] s = s"
| "hunkLoop prefixLen ((oldMatch, newMatch) # pairs) (oldIdx, newIdx, hunks) =
     hunkLoop prefixLen pairs
       (oldMatch + 1, newMatch + 1,
        (if oldIdx < oldMatch \<or> newIdx < newMatch
         then hunks @ [\<lparr>oldStart = int (prefixLen + oldIdx + 1), oldLength = int oldMatch - int oldIdx,
                        newStart = int (prefixLen + newIdx + 1), newLength = int newMatch - int newIdx\<rparr>]
         else hunks))"

definition buildHunksFromLCS :: "'a list \<Rightarrow> 'a list \<Rightarrow> (nat \<times> nat) list \<Rightarrow> nat \<Rightarrow> DiffHunk list" where
  "buildHunksFromLCS oldMiddle newMiddle lcsPairs prefixLen =
     (if length lcsPairs = 0 then
        (if 0 < length oldMiddle \<or> 0 < length newMiddle
         then [\<lparr>oldStart = int prefixLen + 1, oldLength = int (length oldMiddle),
                newStart = int prefixLen + 1, newLength = int (length newMiddle)\<rparr>]
         else [])
      else
        let (oldIdx, newIdx, hunks) = hunkLoop prefixLen lcsPairs (0, 0, []) in
        if oldIdx < length oldMiddle \<or> newIdx < length newMiddle
        then hunks @ [\<lparr>oldStart = int (prefixLen + oldIdx + 1), oldLength = int (length oldMiddle) - int oldIdx,
                       newStart = int (prefixLen + newIdx + 1), newLength = int (length newMiddle) - int newIdx\<rparr>]
        else hunks)"

function prefixLoop :: "'a list \<Rightarrow> 'a list \<Rightarrow> nat \<Rightarrow> nat" where
  "prefixLoop oldLines newLines prefixLen =
     (if prefixLen < min (length oldLines) (length newLines) \<and> oldLines ! prefixLen = newLines ! prefixLen
      then prefixLoop oldLines newLines (prefixLen + 1)
      else prefixLen)"
  by pat_completeness auto
termination
  by (relation "measure (\<lambda>(oldLines, _, prefixLen). length oldLines - prefixLen)") auto

function suffixLoop :: "'a list \<Rightarrow> 'a list \<Rightarrow> nat \<Rightarrow> nat \<Rightarrow> nat" where
  "suffixLoop oldLines newLines prefixLen suffixLen =
     (if suffixLen < min (length oldLines) (length newLines) - prefixLen \<and>
         oldLines ! (length oldLines - 1 - suffixLen) = newLines ! (length newLines - 1 - suffixLen)
      then suffixLoop oldLines newLines prefixLen (suffixLen + 1)
      else suffixLen)"
  by pat_completeness auto
termination
  by (relation "measure (\<lambda>(oldLines, _, _, suffixLen). length oldLines - suffixLen)") auto

declare prefixLoop.simps [simp del] suffixLoop.simps [simp del]

text \<open>\<open>xs.slice(from, to)\<close> for indices within the array.\<close>

definition slice :: "nat \<Rightarrow> nat \<Rightarrow> 'a list \<Rightarrow> 'a list" where
  "slice from' to xs = drop from' (take to xs)"

definition computeDiffHunks :: "'a list \<Rightarrow> 'a list \<Rightarrow> DiffHunk list" where
  "computeDiffHunks oldLines newLines =
     (let prefixLen = prefixLoop oldLines newLines 0;
          suffixLen = suffixLoop oldLines newLines prefixLen 0;
          oldMiddle = slice prefixLen (length oldLines - suffixLen) oldLines;
          newMiddle = slice prefixLen (length newLines - suffixLen) newLines
      in if length oldMiddle = 0 \<and> length newMiddle = 0 then []
         else buildHunksFromLCS oldMiddle newMiddle (computeLCS oldMiddle newMiddle) prefixLen)"

section \<open>Line changes\<close>

definition lineBreak :: char where
  "lineBreak = CHR 0x0A"

definition hunkChanges :: "DiffHunk \<Rightarrow> GitLineChange list" where
  "hunkChanges hunk =
     (let removedCount = oldLength hunk; addedCount = newLength hunk in
      if removedCount = 0 \<and> addedCount > 0 then
        map (\<lambda>i. \<lparr>changeLineNumber = newStart hunk + i, changeKind = AddedLine\<rparr>) [0..addedCount - 1]
      else if removedCount > 0 \<and> addedCount = 0 then
        [\<lparr>changeLineNumber = newStart hunk, changeKind = DeletedLine\<rparr>]
      else
        let modifiedCount = min removedCount addedCount in
        map (\<lambda>i. \<lparr>changeLineNumber = newStart hunk + i, changeKind = ModifiedLine\<rparr>) [0..modifiedCount - 1] @
        (if addedCount > modifiedCount
         then map (\<lambda>i. \<lparr>changeLineNumber = newStart hunk + i, changeKind = AddedLine\<rparr>) [modifiedCount..addedCount - 1]
         else []))"

definition computeGitLineChanges :: "string \<Rightarrow> string \<Rightarrow> GitLineChange list" where
  "computeGitLineChanges oldContent newContent =
     (if oldContent = newContent then []
      else concat (map hunkChanges
             (computeDiffHunks (js_split lineBreak oldContent) (js_split lineBreak newContent))))"

text \<open>The result of \<open>getHunkForLine\<close>: the hunk, its old lines and its new lines.\<close>

fun findHunk :: "string list \<Rightarrow> string list \<Rightarrow> int \<Rightarrow> DiffHunk list \<Rightarrow>
  (DiffHunk \<times> string list \<times> string list) option" where
  "findHunk oldLinesArr newLinesArr lineNumber [] = None"
| "findHunk oldLinesArr newLinesArr lineNumber (hunk # hunks) =
     (let hunkNewEnd = newStart hunk + max (newLength hunk - 1) 0;
          oldLines = slice (nat (oldStart hunk - 1)) (nat (oldStart hunk - 1 + oldLength hunk)) oldLinesArr in
      if newLength hunk = 0 then
        (if lineNumber = newStart hunk then Some (hunk, oldLines, [])
         else findHunk oldLinesArr newLinesArr lineNumber hunks)
      else if newStart hunk \<le> lineNumber \<and> lineNumber \<le> hunkNewEnd then
        Some (hunk, oldLines, slice (nat (newStart hunk - 1)) (nat (newStart hunk - 1 + newLength hunk)) newLinesArr)
      else findHunk oldLinesArr newLinesArr lineNumber hunks)"

definition getHunkForLine ::
  "string \<Rightarrow> string \<Rightarrow> int \<Rightarrow> (DiffHunk \<times> string list \<times> string list) option" where
  "getHunkForLine oldContent newContent lineNumber =
     (if oldContent = newContent then None
      else
        let oldLinesArr = js_split lineBreak oldContent;
            newLinesArr = js_split lineBreak newContent
        in findHunk oldLinesArr newLinesArr lineNumber (computeDiffHunks oldLinesArr newLinesArr))"

end
