(* ===== verification/Git_Gutter_Proofs.thy ===== *)
theory Git_Gutter_Proofs
  imports Git_Gutter
begin

text \<open>
  The diff against a reference: a recursive longest-common-subsequence length that bounds every
  common subsequence, the table of the code that computes it, the backtracking that realises it, and
  the hunks as a patch from the old lines to the new ones.
\<close>

section \<open>The reference\<close>

fun lcs :: "'a list \<Rightarrow> 'a list \<Rightarrow> nat" where
  "lcs [] ys = 0"
| "lcs (x # xs) [] = 0"
| "lcs (x # xs) (y # ys) = (if x = y then Suc (lcs xs ys) else max (lcs xs (y # ys)) (lcs (x # xs) ys))"

lemma lcs_Nil2 [simp]: "lcs xs [] = 0"
  by (cases xs) simp_all

lemma common_subseq_le_lcs: "subseq zs xs \<Longrightarrow> subseq zs ys \<Longrightarrow> length zs \<le> lcs xs ys"
proof (induction xs ys arbitrary: zs rule: lcs.induct)
  case (3 x xs y ys)
  show ?case
  proof (cases zs)
    case (Cons z zs')
    show ?thesis
    proof (cases "x = y")
      case True
      have "length zs' \<le> lcs xs ys"
        using "3.IH"(1) [OF True, of zs'] "3.prems" Cons by (metis subseq_Cons' subseq_Cons2_iff)
      with True Cons show ?thesis by simp
    next
      case False
      have "length zs \<le> lcs xs (y # ys)" if "z \<noteq> x"
        using "3.IH"(2) [OF False, of zs] "3.prems" Cons that by simp
      moreover have "length zs \<le> lcs (x # xs) ys" if "z \<noteq> y"
        using "3.IH"(3) [OF False, of zs] "3.prems" Cons that by simp
      ultimately show ?thesis using False by (cases "z = x") (auto simp: le_max_iff_disj)
    qed
  qed simp
qed simp_all

lemma lcs_achieved: "\<exists>zs. subseq zs xs \<and> subseq zs ys \<and> length zs = lcs xs ys"
proof (induction xs ys rule: lcs.induct)
  case (3 x xs y ys)
  show ?case
  proof (cases "x = y")
    case True
    from "3.IH"(1) [OF True] obtain zs where "subseq zs xs" "subseq zs ys" "length zs = lcs xs ys" by blast
    with True show ?thesis by (intro exI [of _ "x # zs"]) simp
  next
    case False
    then show ?thesis
    proof (cases "lcs xs (y # ys) \<le> lcs (x # xs) ys")
      case True
      with "3.IH"(3) False show ?thesis by (metis lcs.simps(3) max.absorb2 list_emb_Cons)
    next
      case le: False
      with "3.IH"(2) False show ?thesis by (metis lcs.simps(3) max.absorb1 nle_le list_emb_Cons)
    qed
  qed
qed (auto intro: exI [of _ "[]"])

lemma subseq_revI: "subseq xs ys \<Longrightarrow> subseq (rev xs) (rev ys)"
proof (induction rule: list_emb.induct)
  case (list_emb_Cons xs ys y)
  then show ?case using list_emb_append_mono [of "(=)" "rev xs" "rev ys" "[]" "[y]"] by simp
next
  case (list_emb_Cons2 x y xs ys)
  then show ?case using list_emb_append_mono [of "(=)" "rev xs" "rev ys" "[x]" "[y]"] by simp
qed simp

lemma lcs_rev_le: "lcs (rev xs) (rev ys) \<le> lcs xs ys"
proof -
  obtain zs where "subseq zs (rev xs)" "subseq zs (rev ys)" "length zs = lcs (rev xs) (rev ys)"
    using lcs_achieved by blast
  moreover from this have "subseq (rev zs) xs" "subseq (rev zs) ys"
    by (metis rev_rev_ident subseq_revI)+
  ultimately show ?thesis using common_subseq_le_lcs [of "rev zs" xs ys] by simp
qed

lemma lcs_rev: "lcs (rev xs) (rev ys) = lcs xs ys"
  using lcs_rev_le [of xs ys] lcs_rev_le [of "rev xs" "rev ys"] by simp

lemma lcs_prefix: "lcs (ps @ xs) (ps @ ys) = length ps + lcs xs ys"
  by (induction ps) simp_all

lemma lcs_suffix: "lcs (xs @ ss) (ys @ ss) = lcs xs ys + length ss"
  using lcs_prefix [of "rev ss" "rev xs" "rev ys"] lcs_rev [of "xs @ ss" "ys @ ss"] lcs_rev [of xs ys] by simp

section \<open>The table\<close>

definition lcsUpto :: "'a list \<Rightarrow> 'a list \<Rightarrow> nat \<Rightarrow> nat \<Rightarrow> nat" where
  "lcsUpto xs ys i j = lcs (rev (take i xs)) (rev (take j ys))"

lemma lcsUpto_0 [simp]: "lcsUpto xs ys 0 j = 0" "lcsUpto xs ys i 0 = 0"
  by (simp_all add: lcsUpto_def)

lemma lcsUpto_Suc:
  assumes "i < length xs" "j < length ys"
  shows "lcsUpto xs ys (Suc i) (Suc j) =
    (if xs ! i = ys ! j then Suc (lcsUpto xs ys i j) else max (lcsUpto xs ys i (Suc j)) (lcsUpto xs ys (Suc i) j))"
  using assms by (simp add: lcsUpto_def take_Suc_conv_app_nth)

lemma lcsUpto_full: "lcsUpto xs ys (length xs) (length ys) = lcs xs ys"
  by (simp add: lcsUpto_def lcs_rev)

lemma js_at_nat [simp]: "js_at xs (int i) = (if i < length xs then Some (xs ! i) else None)"
  by (simp add: js_at_def)

lemma js_at_one_plus [simp]: "js_at xs (1 + int i) = (if Suc i < length xs then Some (xs ! Suc i) else None)"
  using js_at_nat [of xs "Suc i"] by (simp del: js_at_nat)

definition rowOf :: "'a list \<Rightarrow> 'a list \<Rightarrow> nat \<Rightarrow> nat list" where
  "rowOf xs ys i = map (lcsUpto xs ys i) [0..<length ys + 1]"

lemma rowOf_simps [simp]: "length (rowOf xs ys i) = length ys + 1" "j \<le> length ys \<Longrightarrow> rowOf xs ys i ! j = lcsUpto xs ys i j"
  by (simp_all add: rowOf_def nth_append del: upt_Suc)

lemma upto_snoc: "[1..<Suc k + 1] = [1..<k + 1] @ [Suc k]"
  by simp

lemma fillRow_upto:
  assumes "i < length xs" "k \<le> length ys"
  shows "fold (\<lambda>j row. row[j := lcsCell (xs ! i) ys (rowOf xs ys i) row j]) [1..<k + 1]
      (replicate (length ys + 1) 0) =
    map (\<lambda>j. if j \<le> k then lcsUpto xs ys (Suc i) j else 0) [0..<length ys + 1]"
  using assms(2)
proof (induction k)
  case 0
  show ?case by (rule nth_equalityI) (auto simp del: upt_Suc replicate_Suc)
next
  case (Suc k)
  let ?row = "map (\<lambda>j. if j \<le> k then lcsUpto xs ys (Suc i) j else 0) [0..<length ys + 1]"
  have row_k: "js_at ?row (int k) = Some (lcsUpto xs ys (Suc i) k)" using Suc.prems by (simp del: upt_Suc)
  have "int (Suc k) - 1 = int k" by simp
  then have "lcsCell (xs ! i) ys (rowOf xs ys i) ?row (Suc k) = lcsUpto xs ys (Suc i) (Suc k)"
    using Suc.prems assms(1) row_k unfolding lcsCell_def by (simp add: lcsUpto_Suc del: upt_Suc)
  moreover have "?row[Suc k := lcsUpto xs ys (Suc i) (Suc k)] =
      map (\<lambda>j. if j \<le> Suc k then lcsUpto xs ys (Suc i) j else 0) [0..<length ys + 1]"
    using Suc.prems by (intro nth_equalityI) (auto simp: nth_list_update le_Suc_eq simp del: upt_Suc)
  ultimately show ?case using Suc by (simp only: upto_snoc fold_append fold_simps comp_def Suc_leD)
qed

lemma fillRow_correct:
  "i < length xs \<Longrightarrow> fillRow (xs ! i) ys (rowOf xs ys i) (replicate (length ys + 1) 0) = rowOf xs ys (Suc i)"
  unfolding fillRow_def fillRow_upto [OF _ order_refl] by (auto simp: rowOf_def)

lemma lcsTable_upto:
  assumes "k \<le> length xs"
  shows "fold (\<lambda>i dp. dp[i := fillRow (xs ! (i - 1)) ys (dp ! (i - 1)) (dp ! i)]) [1..<k + 1]
      (replicate (length xs + 1) (replicate (length ys + 1) 0)) =
    map (\<lambda>i. if i \<le> k then rowOf xs ys i else replicate (length ys + 1) 0) [0..<length xs + 1]"
  using assms
proof (induction k)
  case 0
  have "rowOf xs ys 0 = replicate (length ys + 1) 0" by (rule nth_equalityI) (auto simp del: replicate_Suc)
  then show ?case by (auto intro!: nth_equalityI simp del: upt_Suc replicate_Suc)
next
  case (Suc k)
  then have k: "k < length xs" by simp
  let ?z = "replicate (length ys + 1) 0"
  let ?dp = "map (\<lambda>i. if i \<le> k then rowOf xs ys i else ?z) [0..<length xs + 1]"
  have "?dp ! k = rowOf xs ys k" "?dp ! Suc k = ?z" using k by (simp_all del: upt_Suc replicate_Suc)
  then have "fillRow (xs ! (Suc k - 1)) ys (?dp ! (Suc k - 1)) (?dp ! Suc k) = rowOf xs ys (Suc k)"
    using fillRow_correct [OF k, of ys] by simp
  moreover have "?dp[Suc k := rowOf xs ys (Suc k)] =
      map (\<lambda>i. if i \<le> Suc k then rowOf xs ys i else ?z) [0..<length xs + 1]"
    using k by (intro nth_equalityI) (auto simp: nth_list_update le_Suc_eq simp del: upt_Suc replicate_Suc)
  ultimately show ?case using Suc by (simp only: upto_snoc fold_append fold_simps comp_def Suc_leD)
qed

lemma lcsTable_correct: "i \<le> length xs \<Longrightarrow> lcsTable xs ys ! i = rowOf xs ys i"
  unfolding lcsTable_def lcsTable_upto [OF order_refl] by (simp del: upt_Suc)

section \<open>Backtracking\<close>

text \<open>Increasing pairs of equal lines, all at or beyond the given positions.\<close>

fun aligned :: "'a list \<Rightarrow> 'a list \<Rightarrow> nat \<Rightarrow> nat \<Rightarrow> (nat \<times> nat) list \<Rightarrow> bool" where
  "aligned xs ys a b [] = True"
| "aligned xs ys a b ((i, j) # ps) \<longleftrightarrow>
     a \<le> i \<and> b \<le> j \<and> i < length xs \<and> j < length ys \<and> xs ! i = ys ! j \<and> aligned xs ys (i + 1) (j + 1) ps"

lemma aligned_mono: "aligned xs ys a b ps \<Longrightarrow> a' \<le> a \<Longrightarrow> b' \<le> b \<Longrightarrow> aligned xs ys a' b' ps"
  by (cases ps) auto

lemma backtrack_correct:
  "i \<le> length xs \<Longrightarrow> j \<le> length ys \<Longrightarrow> aligned xs ys i j ps \<Longrightarrow>
   aligned xs ys 0 0 (backtrack xs ys (lcsTable xs ys) i j ps) \<and>
   length (backtrack xs ys (lcsTable xs ys) i j ps) = length ps + lcsUpto xs ys i j"
proof (induction i j ps rule: measure_induct_rule [of "\<lambda>(i, j, _). i + j", split_format (complete)])
  case (less i j ps)
  show ?case
  proof (cases "0 < i \<and> 0 < j")
    case False
    then have "backtrack xs ys (lcsTable xs ys) i j ps = ps" by (subst backtrack.simps) (simp only: if_False)
    moreover have "lcsUpto xs ys i j = 0" using False by auto
    ultimately show ?thesis using aligned_mono [OF less.prems(3)] by simp
  next
    case True
    then obtain i' j' where ij: "i = Suc i'" "j = Suc j'" by (metis gr0_implies_Suc)
    have lt: "i' < length xs" "j' < length ys" using less.prems ij by simp_all
    have cells: "nullish (js_at (lcsTable xs ys ! i) (int j - 1)) 0 = lcsUpto xs ys i j'"
        "nullish (js_at (lcsTable xs ys ! (i - 1)) (int j)) 0 = lcsUpto xs ys i' j"
      using less.prems ij by (simp_all add: lcsTable_correct)
    note unfold = backtrack.simps [of xs ys "lcsTable xs ys" i j ps, unfolded cells]
    show ?thesis
    proof (cases "xs ! i' = ys ! j'")
      case eq: True
      then show ?thesis using less.IH [of i' j' "(i', j') # ps"] less.prems(3) ij lt
        by (subst (1 2) unfold) (simp add: lcsUpto_Suc)
    next
      case ne: False
      show ?thesis
      proof (cases "lcsUpto xs ys i j' \<le> lcsUpto xs ys i' j")
        case up: True
        have "aligned xs ys i' j ps" using aligned_mono [OF less.prems(3)] ij by simp
        with less.IH [of i' j ps] ij lt ne up show ?thesis
          by (subst (1 2) unfold) (simp add: lcsUpto_Suc max_def)
      next
        case left: False
        have "aligned xs ys i j' ps" using aligned_mono [OF less.prems(3)] ij by simp
        with less.IH [of i j' ps] ij lt ne left show ?thesis
          by (subst (1 2) unfold) (simp add: lcsUpto_Suc max_def)
      qed
    qed
  qed
qed

lemma reconstructLCSFull_correct:
  "aligned xs ys 0 0 (reconstructLCSFull xs ys) \<and> length (reconstructLCSFull xs ys) = lcs xs ys"
  using backtrack_correct [of "length xs" xs "length ys" ys "[]"] by (simp add: reconstructLCSFull_def lcsUpto_full)

lemma computeLCS_aligned: "aligned xs ys 0 0 (computeLCS xs ys)"
  using reconstructLCSFull_correct [of xs ys] by (simp add: computeLCS_def)

lemma computeLCS_length: "length xs * length ys \<le> 1000000 \<Longrightarrow> length (computeLCS xs ys) = lcs xs ys"
  using reconstructLCSFull_correct [of xs ys] by (simp add: computeLCS_def)

end
