(* ===== verification/Git_Gutter_Properties.thy ===== *)
theory Git_Gutter_Properties
  imports Git_Gutter_Proofs
begin

text \<open>
  The hunks are a patch: replacing the old lines of every hunk by its new lines turns the committed
  text into the edited one, with as few changed lines as possible; the gutter marks and the hunk
  lookup agree.
\<close>

section \<open>Hunks between aligned pairs\<close>

definition gap :: "nat \<Rightarrow> nat \<Rightarrow> nat \<Rightarrow> nat \<Rightarrow> nat \<Rightarrow> DiffHunk list" where
  "gap p a b i j =
     (if a < i \<or> b < j
      then [\<lparr>oldStart = int (p + a + 1), oldLength = int i - int a,
             newStart = int (p + b + 1), newLength = int j - int b\<rparr>]
      else [])"

fun hunksFrom :: "nat \<Rightarrow> nat \<Rightarrow> nat \<Rightarrow> nat \<Rightarrow> nat \<Rightarrow> (nat \<times> nat) list \<Rightarrow> DiffHunk list" where
  "hunksFrom p n m a b [] = gap p a b n m"
| "hunksFrom p n m a b ((i, j) # ps) = gap p a b i j @ hunksFrom p n m (i + 1) (j + 1) ps"

lemma hunkLoop_hunksFrom:
  "hunkLoop p ps (a, b, hs) = (a', b', hs') \<Longrightarrow> hs' @ gap p a' b' n m = hs @ hunksFrom p n m a b ps"
  by (induction p ps "(a, b, hs)" arbitrary: a b hs rule: hunkLoop.induct) (auto simp: gap_def)

lemma buildHunks_hunksFrom:
  "buildHunksFromLCS xs ys ps p = hunksFrom p (length xs) (length ys) 0 0 ps"
proof (cases ps)
  case (Cons q qs)
  obtain a b hs where loop: "hunkLoop p ps (0, 0, []) = (a, b, hs)" by (metis prod_cases3)
  have "buildHunksFromLCS xs ys ps p = hs @ gap p a b (length xs) (length ys)"
    using Cons loop by (simp add: buildHunksFromLCS_def gap_def)
  with hunkLoop_hunksFrom [OF loop] show ?thesis by simp
qed (auto simp: buildHunksFromLCS_def gap_def)

text \<open>Hunks are ordered, not empty, and leave at least one common line between them.\<close>

definition hunk_ok :: "DiffHunk \<Rightarrow> bool" where
  "hunk_ok h \<longleftrightarrow> 0 \<le> oldLength h \<and> 0 \<le> newLength h \<and> 0 < oldLength h + newLength h"

definition hunk_before :: "DiffHunk \<Rightarrow> DiffHunk \<Rightarrow> bool" where
  "hunk_before h k \<longleftrightarrow> oldStart h + oldLength h < oldStart k \<and> newStart h + newLength h < newStart k"

definition hunks_within :: "int \<Rightarrow> int \<Rightarrow> int \<Rightarrow> int \<Rightarrow> DiffHunk list \<Rightarrow> bool" where
  "hunks_within a b n m hs \<longleftrightarrow>
     list_all hunk_ok hs \<and> sorted_wrt hunk_before hs \<and>
     list_all (\<lambda>h. a < oldStart h \<and> b < newStart h \<and> oldStart h + oldLength h \<le> n + 1 \<and> newStart h + newLength h \<le> m + 1) hs"

lemma gap_within:
  "a \<le> i \<Longrightarrow> b \<le> j \<Longrightarrow> h \<in> set (gap p a b i j) \<Longrightarrow>
   hunk_ok h \<and> int (p + a) < oldStart h \<and> int (p + b) < newStart h \<and>
   oldStart h + oldLength h = int (p + i + 1) \<and> newStart h + newLength h = int (p + j + 1)"
  by (auto simp: gap_def hunk_ok_def split: if_splits)

lemma hunksFrom_within:
  "aligned xs ys a b ps \<Longrightarrow> a \<le> length xs \<Longrightarrow> b \<le> length ys \<Longrightarrow>
   hunks_within (int (p + a)) (int (p + b)) (int (p + length xs)) (int (p + length ys))
     (hunksFrom p (length xs) (length ys) a b ps)"
proof (induction ps arbitrary: a b)
  case Nil
  then show ?case by (auto simp: hunks_within_def gap_def hunk_ok_def)
next
  case (Cons q ps)
  obtain i j where q: "q = (i, j)" by fastforce
  with Cons.prems have ij: "a \<le> i" "b \<le> j" "i < length xs" "j < length ys" "aligned xs ys (i + 1) (j + 1) ps" by simp_all
  note rest = Cons.IH [OF ij(5)]
  note g = gap_within [OF ij(1,2), of _ p]
  show ?case using rest ij g unfolding q hunks_within_def
    by (simp add: sorted_wrt_append list_all_iff) (fastforce simp: gap_def hunk_before_def)
qed

lemma hunksFrom_lengths:
  "aligned xs ys a b ps \<Longrightarrow> a \<le> length xs \<Longrightarrow> b \<le> length ys \<Longrightarrow>
   sum_list (map oldLength (hunksFrom p (length xs) (length ys) a b ps)) = int (length xs - a) - int (length ps) \<and>
   sum_list (map newLength (hunksFrom p (length xs) (length ys) a b ps)) = int (length ys - b) - int (length ps)"
proof (induction ps arbitrary: a b)
  case Nil
  then show ?case by (auto simp: gap_def)
next
  case (Cons q ps)
  obtain i j where q: "q = (i, j)" by fastforce
  with Cons.prems have ij: "a \<le> i" "b \<le> j" "i < length xs" "j < length ys" "aligned xs ys (i + 1) (j + 1) ps" by simp_all
  have "sum_list (map oldLength (gap p a b i j)) = int i - int a \<and> sum_list (map newLength (gap p a b i j)) = int j - int b"
    using ij by (auto simp: gap_def)
  with Cons.IH [OF ij(5)] ij show ?case by (auto simp: q)
qed

section \<open>Hunks as a patch\<close>

text \<open>The text a list of hunks describes: old lines are copied up to the next hunk, whose old lines
  are replaced by its lines of the new text.\<close>

fun patch :: "'a list \<Rightarrow> 'a list \<Rightarrow> int \<Rightarrow> DiffHunk list \<Rightarrow> 'a list" where
  "patch old new pos [] = drop (nat pos) old"
| "patch old new pos (h # hs) =
     slice (nat pos) (nat (oldStart h - 1)) old @
     slice (nat (newStart h - 1)) (nat (newStart h - 1 + newLength h)) new @
     patch old new (oldStart h - 1 + oldLength h) hs"

lemma slice_split:
  assumes "a \<le> b" "b \<le> c"
  shows "slice a c xs = slice a b xs @ slice b c xs"
proof -
  have "take b (take c xs) = take b xs" using assms(2) by simp
  then have "take c xs = take b xs @ slice b c xs"
    unfolding slice_def using append_take_drop_id [of b "take c xs"] by simp
  then have "slice a c xs = drop a (take b xs @ slice b c xs)" by (simp add: slice_def)
  also have "\<dots> = slice a b xs @ slice b c xs"
    using assms(1) by (cases "b \<le> length xs") (simp_all add: slice_def)
  finally show ?thesis .
qed

lemma patch_skip:
  assumes "a \<le> b" "b \<le> length old" "\<And>h. h \<in> set hs \<Longrightarrow> int b \<le> oldStart h - 1"
  shows "patch old new (int a) hs = slice a b old @ patch old new (int b) hs"
proof (cases hs)
  case Nil
  have "drop a old = slice a b old @ drop b old"
    using slice_split [of a b "length old" old] assms(1,2) by (simp add: slice_def)
  with Nil show ?thesis by simp
next
  case (Cons h hs')
  then have "b \<le> nat (oldStart h - 1)" using assms(3) [of h] by simp
  with Cons show ?thesis using slice_split [OF assms(1), of "nat (oldStart h - 1)" old] by simp
qed

lemma patch_hunksFrom:
  assumes "old = P @ xs @ S" "new = P @ ys @ S"
  shows "aligned xs ys a b ps \<Longrightarrow> a \<le> length xs \<Longrightarrow> b \<le> length ys \<Longrightarrow>
    patch old new (int (length P + a)) (hunksFrom (length P) (length xs) (length ys) a b ps) = drop (length P + b) new"
proof (induction ps arbitrary: a b)
  case Nil
  then show ?case using assms by (auto simp: gap_def slice_def nat_add_distrib nat_diff_distrib)
next
  case (Cons q ps)
  obtain i j where q: "q = (i, j)" by fastforce
  with Cons.prems have ij: "a \<le> i" "b \<le> j" "i < length xs" "j < length ys" "xs ! i = ys ! j"
      "aligned xs ys (i + 1) (j + 1) ps" by simp_all
  let ?rest = "hunksFrom (length P) (length xs) (length ys) (i + 1) (j + 1) ps"
  have within: "int (length P + (i + 1)) \<le> oldStart h - 1" if "h \<in> set ?rest" for h
    using hunksFrom_within [OF ij(6), of "length P"] that ij by (auto simp: hunks_within_def list_all_iff)
  have "patch old new (int (length P + i)) ?rest =
      slice (length P + i) (length P + (i + 1)) old @ patch old new (int (length P + (i + 1))) ?rest"
    using ij assms by (intro patch_skip within) auto
  also have "slice (length P + i) (length P + (i + 1)) old = [ys ! j]"
    using ij assms by (simp add: slice_def take_Suc_conv_app_nth)
  also have "patch old new (int (length P + (i + 1))) ?rest = drop (length P + (j + 1)) new"
    using Cons.IH [OF ij(6)] ij by simp
  also have "[ys ! j] @ drop (length P + (j + 1)) new = drop (length P + j) new"
    using ij assms by (simp add: Cons_nth_drop_Suc nth_append)
  finally have step: "patch old new (int (length P + i)) ?rest = drop (length P + j) new" .
  have "slice (length P + b) (length P + j) new @ drop (length P + j) new = drop (length P + b) new"
    using slice_split [of "length P + b" "length P + j" "length new" new] ij assms by (simp add: slice_def)
  with step ij show ?case by (auto simp: q gap_def nat_add_distrib nat_diff_distrib slice_def)
qed

section \<open>Common prefix and suffix\<close>

lemma prefixLoop_spec:
  "i \<le> min (length xs) (length ys) \<Longrightarrow> take i xs = take i ys \<Longrightarrow>
   prefixLoop xs ys i \<le> min (length xs) (length ys) \<and>
   take (prefixLoop xs ys i) xs = take (prefixLoop xs ys i) ys"
proof (induction xs ys i rule: prefixLoop.induct)
  case (1 xs ys i)
  then show ?case
    by (subst (1 2 3) prefixLoop.simps) (simp add: take_Suc_conv_app_nth)
qed

lemma drop_before: "r < length xs \<Longrightarrow> drop (length xs - Suc r) xs = xs ! (length xs - 1 - r) # drop (length xs - r) xs"
  using Cons_nth_drop_Suc [of "length xs - Suc r" xs] by (simp add: Suc_diff_Suc)

lemma suffixLoop_spec:
  "r \<le> min (length xs) (length ys) - p \<Longrightarrow> drop (length xs - r) xs = drop (length ys - r) ys \<Longrightarrow>
   suffixLoop xs ys p r \<le> min (length xs) (length ys) - p \<and>
   drop (length xs - suffixLoop xs ys p r) xs = drop (length ys - suffixLoop xs ys p r) ys"
proof (induction xs ys p r rule: suffixLoop.induct)
  case (1 xs ys p r)
  then show ?case
    by (subst (1 2 3) suffixLoop.simps) (simp add: drop_before)
qed

lemma split_middle:
  assumes "p \<le> q" "q \<le> length xs"
  shows "xs = take p xs @ slice p q xs @ drop q xs"
  using slice_split [of 0 p q xs] assms by (simp add: slice_def) (metis append.assoc append_take_drop_id)

lemma computeDiffHunks_middle:
  obtains P S xs ys where "old = P @ xs @ S" "new = P @ ys @ S"
    "computeDiffHunks old new = hunksFrom (length P) (length xs) (length ys) 0 0 (computeLCS xs ys)"
proof -
  define p where "p = prefixLoop old new 0"
  define r where "r = suffixLoop old new p 0"
  have p: "p \<le> length old" "p \<le> length new" "take p old = take p new"
    using prefixLoop_spec [of 0 old new] by (simp_all add: p_def)
  have r: "r \<le> length old - p" "r \<le> length new - p" "drop (length old - r) old = drop (length new - r) new"
    using suffixLoop_spec [of 0 old new p] by (auto simp: r_def)
  let ?xs = "slice p (length old - r) old" and ?ys = "slice p (length new - r) new"
  have "old = take p old @ ?xs @ drop (length old - r) old"
    using p r by (intro split_middle) auto
  moreover have "new = take p old @ ?ys @ drop (length old - r) old"
    unfolding p(3) r(3) using p r by (intro split_middle) auto
  moreover have "computeDiffHunks old new = hunksFrom (length (take p old)) (length ?xs) (length ?ys) 0 0 (computeLCS ?xs ?ys)"
  proof (cases "?xs = [] \<and> ?ys = []")
    case True
    then have "computeLCS ?xs ?ys = []" by (simp add: computeLCS_def reconstructLCSFull_def backtrack.simps)
    with True show ?thesis by (simp add: computeDiffHunks_def p_def r_def gap_def)
  next
    case False
    with p(1) show ?thesis
      by (auto simp: computeDiffHunks_def p_def [symmetric] r_def [symmetric] buildHunks_hunksFrom Let_def min_absorb2)
  qed
  ultimately show ?thesis by (rule that)
qed

lemma computeDiffHunks_within:
  "hunks_within 0 0 (int (length old)) (int (length new)) (computeDiffHunks old new)"
proof -
  obtain P S xs ys where m: "old = P @ xs @ S" "new = P @ ys @ S"
      "computeDiffHunks old new = hunksFrom (length P) (length xs) (length ys) 0 0 (computeLCS xs ys)"
    by (rule computeDiffHunks_middle)
  from hunksFrom_within [OF computeLCS_aligned [of xs ys], of "length P"] show ?thesis
    unfolding m(3) by (auto simp: hunks_within_def list_all_iff m(1,2))
qed

section \<open>Marks\<close>

lemma map_add_upto: "map (\<lambda>i. s + i) [a..b] = [s + a..s + b :: int]"
  by (rule nth_equalityI) auto

lemma upto_append: "a \<le> m \<Longrightarrow> m \<le> b + 1 \<Longrightarrow> [a..m - 1] @ [m..b :: int] = [a..b]"
  using upto_split2 [of a "m - 1" b] by (cases "a = m") (simp_all add: algebra_simps)

definition markedLines :: "DiffHunk \<Rightarrow> int list" where
  "markedLines h = (if newLength h = 0 then [newStart h] else [newStart h..newStart h + newLength h - 1])"

lemma hunkChanges_lines:
  assumes "hunk_ok h"
  shows "map changeLineNumber (hunkChanges h) = markedLines h"
proof -
  let ?a = "oldLength h" and ?b = "newLength h"
  have line: "map changeLineNumber (map (\<lambda>i. \<lparr>changeLineNumber = newStart h + i, changeKind = k\<rparr>) [x..y]) =
      [newStart h + x..newStart h + y]" for k x y
    using map_add_upto [of "newStart h" x y] by (simp add: comp_def)
  consider "?a = 0" "0 < ?b" | "0 < ?a" "?b = 0" | "0 < ?a" "0 < ?b"
    using assms unfolding hunk_ok_def by linarith
  then show ?thesis
  proof cases
    case 3
    let ?m = "min ?a ?b"
    have "map changeLineNumber (hunkChanges h) =
        [newStart h..newStart h + ?m - 1] @ [newStart h + ?m..newStart h + ?b - 1]"
      using 3 line [of ModifiedLine 0 "?m - 1"] line [of AddedLine ?m "?b - 1"]
      by (cases "?a < ?b") (simp_all add: hunkChanges_def Let_def algebra_simps min_def)
    also have "\<dots> = [newStart h..newStart h + ?b - 1]" using 3 by (intro upto_append) auto
    finally show ?thesis using 3 by (simp add: markedLines_def)
  qed (use line [of AddedLine 0 "?b - 1"] in \<open>simp_all add: hunkChanges_def markedLines_def algebra_simps\<close>)
qed

lemma markedLines_before:
  "hunk_ok h \<Longrightarrow> hunk_ok k \<Longrightarrow> hunk_before h k \<Longrightarrow> x \<in> set (markedLines h) \<Longrightarrow> y \<in> set (markedLines k) \<Longrightarrow> x < y"
  by (auto simp: markedLines_def hunk_before_def hunk_ok_def split: if_splits)

lemma sorted_upto: "sorted_wrt (<) [a..b :: int]"
  by (simp add: sorted_wrt_iff_nth_less)

lemma sorted_marks:
  "list_all hunk_ok hs \<Longrightarrow> sorted_wrt hunk_before hs \<Longrightarrow> sorted_wrt (<) (concat (map markedLines hs))"
proof (induction hs)
  case (Cons h hs)
  have "sorted_wrt (<) (markedLines h)" by (simp add: markedLines_def sorted_upto)
  moreover have "x < y" if "x \<in> set (markedLines h)" "k \<in> set hs" "y \<in> set (markedLines k)" for x y k
    using markedLines_before [of h k x y] Cons.prems that by (simp add: list_all_iff)
  ultimately show ?case using Cons by (auto simp: sorted_wrt_append)
qed simp

lemma markedLines_range:
  "hunk_ok h \<Longrightarrow> (if newLength h = 0 then n = newStart h else newStart h \<le> n \<and> n \<le> newStart h + max (newLength h - 1) 0) \<longleftrightarrow>
     n \<in> set (markedLines h)"
  by (auto simp: markedLines_def hunk_ok_def)

lemma length_slice: "0 < a \<Longrightarrow> 0 \<le> n \<Longrightarrow> a + n \<le> int (length xs) + 1 \<Longrightarrow>
    int (length (slice (nat (a - 1)) (nat (a - 1 + n)) xs)) = n"
  by (simp add: slice_def)

lemma findHunk_conv:
  "findHunk xs ys n hs =
   map_option (\<lambda>h. (h, slice (nat (oldStart h - 1)) (nat (oldStart h - 1 + oldLength h)) xs,
       if newLength h = 0 then [] else slice (nat (newStart h - 1)) (nat (newStart h - 1 + newLength h)) ys))
     (List.find (\<lambda>h. if newLength h = 0 then n = newStart h
        else newStart h \<le> n \<and> n \<le> newStart h + max (newLength h - 1) 0) hs)"
  by (induction hs) (auto simp: Let_def)

section \<open>Properties\<close>

text \<open>C14: The hunks of two texts are a patch: copying the old lines outside the hunks and taking the new
  lines of every hunk rebuilds the new text, for texts of any size. The hunks are in order, none is
  empty, any two are separated by a common line in both texts, and all lie within the texts.\<close>

theorem gutter_hunks_are_patch:
  "patch old new 0 (computeDiffHunks old new) = new \<and>
   hunks_within 0 0 (int (length old)) (int (length new)) (computeDiffHunks old new)"
proof -
  obtain P S xs ys where m: "old = P @ xs @ S" "new = P @ ys @ S"
      "computeDiffHunks old new = hunksFrom (length P) (length xs) (length ys) 0 0 (computeLCS xs ys)"
    by (rule computeDiffHunks_middle)
  note al = computeLCS_aligned [of xs ys]
  note within = hunksFrom_within [OF al, of "length P"]
  have "int (length P) \<le> oldStart h - 1" if "h \<in> set (computeDiffHunks old new)" for h
    using within that unfolding m(3) by (auto simp: hunks_within_def list_all_iff)
  then have "patch old new (int 0) (computeDiffHunks old new) =
      slice 0 (length P) old @ patch old new (int (length P)) (computeDiffHunks old new)"
    using m(1) by (intro patch_skip) auto
  also have "\<dots> = new" using patch_hunksFrom [OF m(1,2) al] m by (simp add: slice_def)
  finally show ?thesis using computeDiffHunks_within [of old new] by simp
qed

text \<open>C15: For texts whose numbers of lines multiply to at most one million, the diff is minimal: the lines
  outside the hunks are as many as the longest common subsequence of the two texts, so no other
  way to keep common lines marks fewer lines as changed.\<close>

theorem gutter_diff_is_minimal:
  assumes "length old * length new \<le> 1000000"
  shows "int (length old) - sum_list (map oldLength (computeDiffHunks old new)) = int (lcs old new) \<and>
    int (length new) - sum_list (map newLength (computeDiffHunks old new)) = int (lcs old new) \<and>
    (\<forall>zs. subseq zs old \<and> subseq zs new \<longrightarrow>
       int (length zs) \<le> int (length old) - sum_list (map oldLength (computeDiffHunks old new)))"
proof -
  obtain P S xs ys where m: "old = P @ xs @ S" "new = P @ ys @ S"
      "computeDiffHunks old new = hunksFrom (length P) (length xs) (length ys) 0 0 (computeLCS xs ys)"
    by (rule computeDiffHunks_middle)
  have "length xs * length ys \<le> length old * length new" using m(1,2) by (intro mult_le_mono) simp_all
  then have len: "length (computeLCS xs ys) = lcs xs ys" using assms by (intro computeLCS_length) simp
  have "lcs old new = length P + (lcs xs ys + length S)" unfolding m(1,2) lcs_prefix lcs_suffix ..
  then have "int (length old) - sum_list (map oldLength (computeDiffHunks old new)) = int (lcs old new)"
      "int (length new) - sum_list (map newLength (computeDiffHunks old new)) = int (lcs old new)"
    using hunksFrom_lengths [OF computeLCS_aligned [of xs ys], of "length P"] len
    unfolding m(3) by (simp_all add: m(1,2))
  with common_subseq_le_lcs show ?thesis by fastforce
qed

theorem gutter_diff_is_minimal_witness:
  "int (lcs [1, 2, 3, 4, 5 :: nat] [1, 9, 3, 5]) = 3 \<and>
   5 - sum_list (map oldLength (computeDiffHunks [1, 2, 3, 4, 5 :: nat] [1, 9, 3, 5])) = 3"
  using gutter_diff_is_minimal [of "[1, 2, 3, 4, 5 :: nat]" "[1, 9, 3, 5]"] by simp

text \<open>The gutter marks and the hunk lookup agree: marks come in strictly increasing line order, a line
  has a mark exactly when a hunk is found for it, and the hunk that is found comes with as many old
  and new lines as its lengths say.\<close>

theorem gutter_marks_have_hunks:
  "sorted_wrt (<) (map changeLineNumber (computeGitLineChanges old new)) \<and>
   (n \<in> set (map changeLineNumber (computeGitLineChanges old new)) \<longleftrightarrow> getHunkForLine old new n \<noteq> None) \<and>
   (\<forall>h olds news. getHunkForLine old new n = Some (h, olds, news) \<longrightarrow>
      int (length olds) = oldLength h \<and> int (length news) = newLength h)"
proof (cases "old = new")
  case True
  then show ?thesis by (simp add: computeGitLineChanges_def getHunkForLine_def)
next
  case False
  define xs ys where "xs = js_split lineBreak old" and "ys = js_split lineBreak new"
  define hs where "hs = computeDiffHunks xs ys"
  have w: "list_all hunk_ok hs" "sorted_wrt hunk_before hs"
      "\<And>h. h \<in> set hs \<Longrightarrow> 0 < oldStart h \<and> 0 < newStart h \<and> oldStart h + oldLength h \<le> int (length xs) + 1 \<and>
        newStart h + newLength h \<le> int (length ys) + 1"
    using computeDiffHunks_within [of xs ys] by (auto simp: hunks_within_def hs_def list_all_iff)
  have "map changeLineNumber (concat (map hunkChanges hs)) = concat (map markedLines hs)"
    using w(1) by (induction hs) (auto simp: hunkChanges_lines)
  then have lines: "map changeLineNumber (computeGitLineChanges old new) = concat (map markedLines hs)"
    using False by (simp add: computeGitLineChanges_def hs_def xs_def ys_def)
  have found: "getHunkForLine old new n = findHunk xs ys n hs"
    using False by (simp add: getHunkForLine_def hs_def xs_def ys_def Let_def)
  have "n \<in> set (concat (map markedLines hs)) \<longleftrightarrow> getHunkForLine old new n \<noteq> None"
    using w(1) unfolding found findHunk_conv by (auto simp: find_None_iff list_all_iff markedLines_range)
  moreover have "int (length olds) = oldLength h \<and> int (length news) = newLength h"
    if "getHunkForLine old new n = Some (h, olds, news)" for h olds news
  proof -
    from that have "h \<in> set hs" unfolding found findHunk_conv by (auto dest: find_SomeD)
    with w(1) w(3) [of h] that show ?thesis
      unfolding found findHunk_conv by (auto simp: length_slice list_all_iff hunk_ok_def)
  qed
  ultimately show ?thesis using sorted_marks [OF w(1,2)] unfolding lines by blast
qed

theorem gutter_marks_have_hunks_witness:
  "map changeLineNumber (computeGitLineChanges [CHR ''a'', CHR 0x0A, CHR ''b''] [CHR ''a'', CHR 0x0A, CHR ''c'']) = [2] \<and>
   getHunkForLine [CHR ''a'', CHR 0x0A, CHR ''b''] [CHR ''a'', CHR 0x0A, CHR ''c''] 2 \<noteq> None"
proof -
  have "map changeLineNumber (computeGitLineChanges [CHR ''a'', CHR 0x0A, CHR ''b''] [CHR ''a'', CHR 0x0A, CHR ''c'']) = [2]"
    by (simp add: computeGitLineChanges_def lineBreak_def computeDiffHunks_def Let_def prefixLoop.simps suffixLoop.simps slice_def
        computeLCS_def reconstructLCSFull_def lcsTable_def fillRow_def lcsCell_def backtrack.simps js_at_def
        buildHunksFromLCS_def hunkChanges_def)
  with gutter_marks_have_hunks [of "[CHR ''a'', CHR 0x0A, CHR ''b'']" "[CHR ''a'', CHR 0x0A, CHR ''c'']" 2] show ?thesis by simp
qed

end
