(* ===== verification/Text_Edits.thy ===== *)
theory Text_Edits
  imports Yishan_Prelude
begin

text \<open>
  Text edits of language servers (\<open>src/packages/pi-lsp/src/helpers/textEdits.ts\<close>, with the data of
  \<open>types.ts\<close>) and the part of \<open>tools/runFix.ts\<close> that selects and applies them. Lines, characters
  and offsets are integers; \<open>slice\<close> counts a negative index from the end of the string.
\<close>

section \<open>Data\<close>

record LspPosition =
  posLine :: int
  posCharacter :: int

record LspRange =
  rangeStart :: LspPosition
  rangeEnd :: LspPosition

record LspTextEdit =
  editRange :: LspRange
  editNewText :: string

text \<open>One entry of \<open>documentChanges\<close>: the uri of its document, if any, and its edits, if any.\<close>

record DocumentChange =
  dcUri :: "string option"
  dcEdits :: "LspTextEdit list option"

record WorkspaceEdit =
  weChanges :: "(string \<rightharpoonup> LspTextEdit list) option"
  weDocumentChanges :: "DocumentChange list option"

record CodeAction =
  caTitle :: string
  caKind :: "string option"
  caEdit :: "WorkspaceEdit option"

section \<open>Positions\<close>

definition newlineChar :: char where
  "newlineChar = CHR 0x0A"

text \<open>The loop over the characters before the offset: the remaining text, the index, and the two locals.\<close>

fun offsetLoop :: "string \<Rightarrow> int \<Rightarrow> int \<Rightarrow> int \<Rightarrow> int \<times> int" where
  "offsetLoop [] index line lineStart = (line, lineStart)"
| "offsetLoop (c # rest) index line lineStart =
     (if c = newlineChar then offsetLoop rest (index + 1) (line + 1) (index + 1)
      else offsetLoop rest (index + 1) line lineStart)"

definition offsetToPosition :: "string \<Rightarrow> int \<Rightarrow> LspPosition" where
  "offsetToPosition text offset =
     (let bounded = max 0 (min offset (int (length text)));
          (line, lineStart) = offsetLoop (take (nat bounded) text) 0 0 0
      in \<lparr>posLine = line, posCharacter = bounded - lineStart\<rparr>)"

fun positionLoop :: "int \<Rightarrow> string \<Rightarrow> int \<Rightarrow> int \<Rightarrow> int \<Rightarrow> int \<times> int" where
  "positionLoop target [] index line lineStart = (line, lineStart)"
| "positionLoop target (c # rest) index line lineStart =
     (if line < target then
        (if c = newlineChar then positionLoop target rest (index + 1) (line + 1) (index + 1)
         else positionLoop target rest (index + 1) line lineStart)
      else (line, lineStart))"

text \<open>\<open>text.indexOf(c, from)\<close> for a start within the text.\<close>

definition indexOfFrom :: "string \<Rightarrow> char \<Rightarrow> int \<Rightarrow> int" where
  "indexOfFrom text c from' =
     (let i = js_indexOf (drop (nat from') text) c in if i < 0 then -1 else from' + i)"

definition positionToOffset :: "string \<Rightarrow> LspPosition \<Rightarrow> int" where
  "positionToOffset text position =
     (let (line, lineStart) = positionLoop (posLine position) text 0 0 0 in
      if line < posLine position then int (length text)
      else
        let found = indexOfFrom text newlineChar lineStart;
            lineEnd = (if found < 0 then int (length text) else found)
        in min (lineStart + posCharacter position) lineEnd)"

section \<open>Edits\<close>

record PositionedEdit =
  peEdit :: LspTextEdit
  peIndex :: int
  peStart :: int
  peEnd :: int

definition positionEdits :: "string \<Rightarrow> LspTextEdit list \<Rightarrow> PositionedEdit list" where
  "positionEdits text edits =
     map (\<lambda>(index, edit). \<lparr>peEdit = edit, peIndex = int index,
            peStart = positionToOffset text (rangeStart (editRange edit)),
            peEnd = positionToOffset text (rangeEnd (editRange edit))\<rparr>)
       (zip [0..<length edits] edits)"

definition compareEdits :: "PositionedEdit \<Rightarrow> PositionedEdit \<Rightarrow> int" where
  "compareEdits left right =
     (if peStart left \<noteq> peStart right then peStart right - peStart left
      else if peEnd left \<noteq> peEnd right then peEnd right - peEnd left
      else peIndex right - peIndex left)"

definition sliceTo :: "int \<Rightarrow> string \<Rightarrow> string" where
  "sliceTo n s = (if 0 \<le> n then take (nat n) s else take (nat (int (length s) + n)) s)"

definition sliceFrom :: "int \<Rightarrow> string \<Rightarrow> string" where
  "sliceFrom n s = (if 0 \<le> n then drop (nat n) s else drop (nat (int (length s) + n)) s)"

definition applyOne :: "PositionedEdit \<Rightarrow> string \<Rightarrow> string" where
  "applyOne e output = sliceTo (peStart e) output @ editNewText (peEdit e) @ sliceFrom (peEnd e) output"

definition applyEdits :: "string \<Rightarrow> LspTextEdit list \<Rightarrow> string" where
  "applyEdits text edits = fold applyOne (sortBy compareEdits (positionEdits text edits)) text"

definition rangesConflict :: "PositionedEdit \<Rightarrow> PositionedEdit \<Rightarrow> bool" where
  "rangesConflict left right =
     (if peStart left = peEnd left \<and> peStart right = peEnd right then False
      else if peStart left = peEnd left \<or> peStart right = peEnd right then
        let insertion = (if peStart left = peEnd left then left else right);
            replacement = (if peStart left = peEnd left then right else left)
        in peStart replacement < peStart insertion \<and> peStart insertion < peEnd replacement
      else max (peStart left) (peStart right) < min (peEnd left) (peEnd right))"

fun anyPairConflicts :: "PositionedEdit list \<Rightarrow> bool" where
  "anyPairConflicts [] = False"
| "anyPairConflicts (left # rest) \<longleftrightarrow> list_ex (rangesConflict left) rest \<or> anyPairConflicts rest"

definition hasConflictingEdits :: "string \<Rightarrow> LspTextEdit list \<Rightarrow> bool" where
  "hasConflictingEdits text edits = anyPairConflicts (positionEdits text edits)"

definition collectEditsForUri :: "WorkspaceEdit option \<Rightarrow> string \<Rightarrow> LspTextEdit list" where
  "collectEditsForUri edit uri =
     (case edit of
        None \<Rightarrow> []
      | Some we \<Rightarrow>
          (case weDocumentChanges we of
             Some changes \<Rightarrow>
               concat (map (\<lambda>change. if dcUri change = Some uri then nullish (dcEdits change) [] else []) changes)
           | None \<Rightarrow> nullish (Option.bind (weChanges we) (\<lambda>m. m uri)) []))"

section \<open>Applying the edits of code actions\<close>

definition matchActionKind :: "CodeAction list \<Rightarrow> string \<Rightarrow> CodeAction list" where
  "matchActionKind actions requestedKind =
     filter (\<lambda>action. caKind action = Some requestedKind \<or>
       (case caKind action of None \<Rightarrow> False | Some k \<Rightarrow> js_startsWith k (requestedKind @ ''.''))) actions"

datatype FixError = OverlappingEdits

definition fixText :: "string \<Rightarrow> string \<Rightarrow> CodeAction list \<Rightarrow> string \<Rightarrow> FixError + string" where
  "fixText uri text resolvedActions actionKind =
     (let appliedActions = matchActionKind resolvedActions actionKind;
          edits = concat (map (\<lambda>action. collectEditsForUri (caEdit action) uri) appliedActions)
      in if hasConflictingEdits text edits then Inl OverlappingEdits else Inr (applyEdits text edits))"

end
