(* ===== verification/Text_Edits_Properties.thy ===== *)
theory Text_Edits_Properties
  imports Text_Edits
begin

text \<open>
  Applying edits one after the other from the end of the text is the same as applying all of them at
  once to the original text, if they do not conflict; and positions and offsets are converted back
  and forth without loss.
\<close>

section \<open>Positions\<close>

text \<open>A text up to an offset is whole lines followed by a part of one line.\<close>

definition whole_lines :: "string \<Rightarrow> bool" where
  "whole_lines a \<longleftrightarrow> a = [] \<or> last a = newlineChar"

lemma split_lines: "\<exists>a s. t = a @ s \<and> whole_lines a \<and> newlineChar \<notin> set s"
proof (induction t rule: rev_induct)
  case (snoc c t)
  then obtain a s where "t = a @ s" "whole_lines a" "newlineChar \<notin> set s" by blast
  then show ?case
    by (cases "c = newlineChar")
      (auto simp: whole_lines_def intro: exI [of _ "a @ s @ [c]"] exI [of _ a])
qed (auto simp: whole_lines_def)

lemma offsetLoop_append:
  "newlineChar \<notin> set s \<Longrightarrow> offsetLoop s i l b = (l, b)"
  by (induction s arbitrary: i) auto

lemma offsetLoop_lines:
  "whole_lines a \<Longrightarrow> a \<noteq> [] \<Longrightarrow> newlineChar \<notin> set s \<Longrightarrow>
   offsetLoop (a @ s) i l b = (l + int (count_list a newlineChar), i + int (length a))"
proof (induction a arbitrary: i l b)
  case (Cons c a)
  then show ?case by (cases "a = []") (auto simp: whole_lines_def offsetLoop_append)
qed simp

lemma positionLoop_lines:
  "whole_lines a \<Longrightarrow> a \<noteq> [] \<Longrightarrow>
   positionLoop (l + int (count_list a newlineChar)) (a @ t) i l b = (l + int (count_list a newlineChar), i + int (length a))"
proof (induction a arbitrary: i l b)
  case (Cons c a)
  have pos: "0 < count_list a newlineChar" if "a \<noteq> []"
    using that Cons.prems last_in_set [OF that] by (auto simp: whole_lines_def intro!: gr0I dest: count_list_0_iff [THEN iffD1])
  have stop: "positionLoop (l + 1) t (i + 1) (l + 1) (i + 1) = (l + 1, i + 1)" by (cases t) simp_all
  show ?case
  proof (cases "a = []")
    case True
    with Cons.prems stop show ?thesis by (simp add: whole_lines_def)
  next
    case False
    note IH = Cons.IH [OF _ False]
    show ?thesis
    proof (cases "c = newlineChar")
      case True
      with IH [of "l + 1" "i + 1" "i + 1"] Cons.prems False show ?thesis by (simp add: whole_lines_def algebra_simps)
    next
      case ne: False
      with IH [of l "i + 1" b] Cons.prems False pos show ?thesis by (simp add: whole_lines_def algebra_simps)
    qed
  qed
qed simp

lemma js_indexOf_none: "x \<notin> set xs \<Longrightarrow> js_indexOf xs x < 0"
  by (auto simp: js_indexOf_def)

lemma js_findIndex_append:
  "(\<And>y. y \<in> set xs \<Longrightarrow> \<not> P y) \<Longrightarrow> 0 \<le> js_findIndex P (xs @ ys) \<Longrightarrow> int (length xs) \<le> js_findIndex P (xs @ ys)"
  by (induction xs) (auto simp: Let_def simp del: js_findIndex_absent split: if_splits)

lemma indexOf_after: "c \<notin> set s \<Longrightarrow> 0 \<le> js_indexOf (s @ t) c \<Longrightarrow> int (length s) \<le> js_indexOf (s @ t) c"
  unfolding js_indexOf_def by (rule js_findIndex_append) auto

lemma position_offset_inverse:
  assumes "n \<le> length text"
  shows "positionToOffset text (offsetToPosition text (int n)) = int n"
proof -
  obtain a s where sp: "take n text = a @ s" "whole_lines a" "newlineChar \<notin> set s" using split_lines by blast
  define t where "t = drop n text"
  have whole: "text = a @ s @ t" using sp(1) unfolding t_def by (metis append.assoc append_take_drop_id)
  have n: "int n = int (length a) + int (length s)" using sp(1) assms by (metis length_append length_take min.absorb2 of_nat_add)
  let ?L = "int (count_list a newlineChar)"
  have "offsetLoop (take n text) 0 0 0 = (?L, int (length a))"
    unfolding sp(1) using offsetLoop_lines [OF sp(2) _ sp(3), of 0 0 0] offsetLoop_append [OF sp(3)] by (cases "a = []") simp_all
  then have pos: "offsetToPosition text (int n) = \<lparr>posLine = ?L, posCharacter = int (length s)\<rparr>"
  proof -
    have "max 0 (min (int n) (int (length text))) = int n" using assms by simp
    with \<open>offsetLoop (take n text) 0 0 0 = (?L, int (length a))\<close> show ?thesis
      unfolding offsetToPosition_def by (simp only: Let_def nat_int prod.case) (use n in simp)
  qed
  have loop: "positionLoop ?L text 0 0 0 = (?L, int (length a))"
    unfolding whole using positionLoop_lines [OF sp(2), of 0 "s @ t" 0 0] by (cases "a = []"; cases "s @ t") simp_all
  define found where "found = indexOfFrom text newlineChar (int (length a))"
  have "int n \<le> found" if "0 \<le> found"
    using that indexOf_after [OF sp(3), of t] n
    by (auto simp: found_def indexOfFrom_def whole Let_def split: if_splits)
  then have "min (int (length a) + int (length s)) (if found < 0 then int (length text) else found) = int n"
    using n assms by auto
  then show ?thesis unfolding pos positionToOffset_def by (simp add: loop found_def [symmetric] Let_def split: if_splits)
qed

section \<open>Sorting\<close>

interpretation edits: comparator compareEdits
  by unfold_locales (auto simp: compareEdits_def split: if_splits)

definition editBefore :: "PositionedEdit \<Rightarrow> PositionedEdit \<Rightarrow> bool" where
  "editBefore x y \<longleftrightarrow> compareEdits x y \<le> 0"

lemma sorted_edits: "sorted_wrt editBefore (sortBy compareEdits xs)"
  using edits.sorted_sortBy by (simp add: editBefore_def [abs_def])

section \<open>Simultaneous application\<close>

text \<open>All edits at once: the pieces of the original text between consecutive ranges, with the new texts
  in between.\<close>

fun weave :: "string \<Rightarrow> int \<Rightarrow> PositionedEdit list \<Rightarrow> string" where
  "weave text pos [] = drop (nat pos) text"
| "weave text pos (e # es) = drop (nat pos) (take (nat (peStart e)) text) @ editNewText (peEdit e) @ weave text (peEnd e) es"

definition edit_in :: "string \<Rightarrow> PositionedEdit \<Rightarrow> bool" where
  "edit_in text e \<longleftrightarrow> 0 \<le> peStart e \<and> peStart e \<le> peEnd e \<and> peEnd e \<le> int (length text)"

text \<open>Going backwards keeps the text before the next edit as it was.\<close>

lemma weave_skip:
  assumes "0 \<le> b" "b \<le> int (length text)" "\<And>e. e \<in> set es \<Longrightarrow> b \<le> peStart e"
  shows "weave text 0 es = take (nat b) text @ weave text b es"
proof (cases es)
  case (Cons e es')
  then have "nat b \<le> nat (peStart e)" using assms(3) [of e] by simp
  then have "take (nat (peStart e)) text = take (nat b) text @ drop (nat b) (take (nat (peStart e)) text)"
    by (metis append_take_drop_id min.absorb1 take_take)
  with Cons show ?thesis by simp
qed simp

lemma applyOne_at: "edit_in text e \<Longrightarrow> applyOne e (take (nat (peEnd e)) text @ X) = take (nat (peStart e)) text @ editNewText (peEdit e) @ X"
  by (simp add: applyOne_def edit_in_def sliceTo_def sliceFrom_def nat_le_iff min_def)

lemma fold_applyOne_weave:
  "(\<And>e. e \<in> set es \<Longrightarrow> edit_in text e) \<Longrightarrow> sorted_wrt (\<lambda>x y. peEnd y \<le> peStart x) es \<Longrightarrow>
   fold applyOne es text = weave text 0 (rev es)"
proof (induction es rule: rev_induct)
  case (snoc e es)
  have e: "edit_in text e" using snoc.prems(1) by simp
  have "weave text 0 (rev es) = take (nat (peEnd e)) text @ weave text (peEnd e) (rev es)"
    using snoc.prems(2) e by (intro weave_skip) (auto simp: edit_in_def sorted_wrt_append)
  with snoc applyOne_at [OF e] show ?case by (simp add: sorted_wrt_append)
qed simp

section \<open>Conflicts\<close>

lemma rangesConflict_sym: "rangesConflict x y = rangesConflict y x"
  by (auto simp: rangesConflict_def Let_def)

lemma no_conflict_ordered:
  "edit_in t x \<Longrightarrow> edit_in t y \<Longrightarrow> \<not> rangesConflict x y \<Longrightarrow> editBefore x y \<Longrightarrow> peEnd y \<le> peStart x"
  by (auto simp: edit_in_def rangesConflict_def editBefore_def compareEdits_def Let_def split: if_splits)

lemma anyPairConflicts_conv:
  "distinct es \<Longrightarrow> \<not> anyPairConflicts es \<longleftrightarrow> (\<forall>x \<in> set es. \<forall>y \<in> set es. x \<noteq> y \<longrightarrow> \<not> rangesConflict x y)"
  by (induction es) (auto simp: list_ex_iff dest: rangesConflict_sym [THEN iffD1])

lemma sorted_wrt_distinct_mono:
  "sorted_wrt P xs \<Longrightarrow> distinct xs \<Longrightarrow> (\<And>x y. x \<in> set xs \<Longrightarrow> y \<in> set xs \<Longrightarrow> x \<noteq> y \<Longrightarrow> P x y \<Longrightarrow> Q x y) \<Longrightarrow> sorted_wrt Q xs"
  by (induction xs) auto

lemma distinct_indices: "distinct (map peIndex (positionEdits text edits))"
proof -
  have "map peIndex (positionEdits text edits) = map int [0..<length edits]"
    by (rule nth_equalityI) (auto simp: positionEdits_def)
  then show ?thesis by (simp add: distinct_map)
qed

lemmas distinct_positionEdits = distinct_indices [THEN distinct_map [THEN iffD1], THEN conjunct1]

lemmas index_injective = distinct_indices [THEN distinct_map [THEN iffD1], THEN conjunct2, THEN inj_onD]

text \<open>Edits in the order of application: each ends before the one applied before it begins.\<close>

lemma applied_backwards:
  assumes "\<not> hasConflictingEdits text edits" "\<And>e. e \<in> set (positionEdits text edits) \<Longrightarrow> edit_in text e"
  shows "sorted_wrt (\<lambda>x y. peEnd y \<le> peStart x \<and> (peStart y = peEnd x \<longrightarrow> peIndex y < peIndex x))
    (sortBy compareEdits (positionEdits text edits))"
proof (rule sorted_wrt_distinct_mono [OF sorted_edits])
  let ?es = "sortBy compareEdits (positionEdits text edits)"
  have same: "set ?es = set (positionEdits text edits)" by (metis mset_sortBy set_mset_mset)
  show "distinct ?es" using distinct_positionEdits by (metis mset_eq_imp_distinct_iff mset_sortBy)
  fix x y assume xy: "x \<in> set ?es" "y \<in> set ?es" "x \<noteq> y" "editBefore x y"
  then have "\<not> rangesConflict x y"
    using assms(1) anyPairConflicts_conv [OF distinct_positionEdits, of "text" edits] same
    by (auto simp: hasConflictingEdits_def)
  with xy assms(2) same have le: "peEnd y \<le> peStart x" by (intro no_conflict_ordered) auto
  have "peIndex x \<noteq> peIndex y" using index_injective xy same by metis
  with le xy assms(2) [of x] assms(2) [of y] same
  show "peEnd y \<le> peStart x \<and> (peStart y = peEnd x \<longrightarrow> peIndex y < peIndex x)"
    by (auto simp: edit_in_def editBefore_def compareEdits_def split: if_splits)
qed

lemma applyEdits_weave:
  assumes "\<not> hasConflictingEdits text edits" "\<And>e. e \<in> set (positionEdits text edits) \<Longrightarrow> edit_in text e"
  shows "applyEdits text edits = weave text 0 (rev (sortBy compareEdits (positionEdits text edits)))"
proof -
  let ?es = "sortBy compareEdits (positionEdits text edits)"
  have "set ?es = set (positionEdits text edits)" by (metis mset_sortBy set_mset_mset)
  moreover have "sorted_wrt (\<lambda>x y. peEnd y \<le> peStart x) ?es"
    by (rule sorted_wrt_mono_rel [OF _ applied_backwards [OF assms]]) blast
  ultimately show ?thesis unfolding applyEdits_def using assms(2) by (intro fold_applyOne_weave) auto
qed

lemma positionLoop_bounds:
  "positionLoop target s i l b = (l', b') \<Longrightarrow> 0 \<le> b \<Longrightarrow> b \<le> i \<Longrightarrow> 0 \<le> b' \<and> b' \<le> i + int (length s)"
  by (induction s arbitrary: i l b) (force split: if_splits)+

lemma positionToOffset_bounds:
  assumes "0 \<le> posCharacter p"
  shows "0 \<le> positionToOffset text p \<and> positionToOffset text p \<le> int (length text)"
proof -
  obtain l b where loop: "positionLoop (posLine p) text 0 0 0 = (l, b)" by fastforce
  note b = positionLoop_bounds [OF loop]
  have "0 \<le> indexOfFrom text c b \<Longrightarrow> indexOfFrom text c b \<le> int (length text)" for c
    using b js_findIndex_less [of "\<lambda>y. y = c" "drop (nat b) text"]
    by (auto simp: indexOfFrom_def js_indexOf_def Let_def split: if_splits)
  from this [of newlineChar] b assms show ?thesis by (auto simp: positionToOffset_def loop Let_def min_def)
qed

section \<open>Properties\<close>

text \<open>C16: Edits that do not conflict are applied as if all at once: there is one order of the edits, in which
  their ranges in the original text do not overlap and insertions at the same place keep the order
  in which they were given, such that the result is the original text with every range replaced by
  its new text.\<close>

theorem apply_edits_is_simultaneous:
  assumes "\<not> hasConflictingEdits text edits"
    and "\<And>e. e \<in> set edits \<Longrightarrow> 0 \<le> posCharacter (rangeStart (editRange e)) \<and> 0 \<le> posCharacter (rangeEnd (editRange e)) \<and>
      positionToOffset text (rangeStart (editRange e)) \<le> positionToOffset text (rangeEnd (editRange e))"
  shows "\<exists>es. mset es = mset (positionEdits text edits) \<and> applyEdits text edits = weave text 0 es \<and>
    sorted_wrt (\<lambda>x y. peEnd x \<le> peStart y \<and> (peStart x = peEnd y \<longrightarrow> peIndex x < peIndex y)) es"
proof -
  let ?es = "sortBy compareEdits (positionEdits text edits)"
  have inside: "edit_in text e" if "e \<in> set (positionEdits text edits)" for e
    using that assms(2) positionToOffset_bounds by (auto simp: positionEdits_def edit_in_def dest!: set_zip_rightD)
  show ?thesis
    using applyEdits_weave [OF assms(1) inside] applied_backwards [OF assms(1) inside]
    by (intro exI [of _ "rev ?es"]) (simp add: mset_sortBy sorted_wrt_rev)
qed

definition sampleEdit :: "int \<Rightarrow> int \<Rightarrow> string \<Rightarrow> LspTextEdit" where
  "sampleEdit a b s = \<lparr>editRange = \<lparr>rangeStart = \<lparr>posLine = 0, posCharacter = a\<rparr>, rangeEnd = \<lparr>posLine = 0, posCharacter = b\<rparr>\<rparr>,
     editNewText = s\<rparr>"

theorem apply_edits_is_simultaneous_witness:
  "applyEdits ''hello'' [sampleEdit 0 1 ''J'', sampleEdit 5 5 ''!''] = ''Jello!'' \<and>
   (\<exists>es. applyEdits ''hello'' [sampleEdit 0 1 ''J'', sampleEdit 5 5 ''!''] = weave ''hello'' 0 es)"
proof -
  let ?edits = "[sampleEdit 0 1 ''J'', sampleEdit 5 5 ''!'']"
  have "\<not> hasConflictingEdits ''hello'' ?edits" by code_simp
  moreover have "positionToOffset ''hello'' \<lparr>posLine = 0, posCharacter = 0\<rparr> = 0"
      "positionToOffset ''hello'' \<lparr>posLine = 0, posCharacter = 1\<rparr> = 1" by code_simp+
  then have "0 \<le> posCharacter (rangeStart (editRange e)) \<and> 0 \<le> posCharacter (rangeEnd (editRange e)) \<and>
      positionToOffset ''hello'' (rangeStart (editRange e)) \<le> positionToOffset ''hello'' (rangeEnd (editRange e))"
    if "e \<in> set ?edits" for e using that by (auto simp: sampleEdit_def)
  ultimately have "\<exists>es. applyEdits ''hello'' ?edits = weave ''hello'' 0 es"
    using apply_edits_is_simultaneous [of "''hello''" ?edits] by blast
  moreover have "applyEdits ''hello'' ?edits = ''Jello!''" by code_simp
  ultimately show ?thesis by simp
qed

text \<open>Turning an offset into a position and back gives the offset again, clamped to the text; positions
  of every offset are exact, also at line ends and at the end of the text.\<close>

theorem offset_position_roundtrip:
  "positionToOffset text (offsetToPosition text offset) = max 0 (min offset (int (length text)))"
proof -
  define n where "n = nat (max 0 (min offset (int (length text))))"
  have n: "int n = max 0 (min offset (int (length text)))" by (simp add: n_def)
  then have "n \<le> length text" by linarith
  moreover have "offsetToPosition text offset = offsetToPosition text (int n)"
    unfolding offsetToPosition_def n by simp
  ultimately show ?thesis using position_offset_inverse [of n "text"] n by simp
qed

end
