(* ===== verification/Lsp_Transport.thy ===== *)
theory Lsp_Transport
  imports Yishan_Prelude
begin

text \<open>
  The JSON-RPC transport to a language server (\<open>src/packages/pi-lsp/src/lsp/transport.ts\<close>): messages framed by
  \<open>Content-Length\<close> headers over a byte stream that arrives in arbitrary chunks, and the requests in flight.

  A string is a sequence of bytes here. Node's \<open>JSON.stringify\<close> (followed by the UTF-8 encoding) and \<open>JSON.parse\<close>
  are the arguments \<open>stringify\<close> and \<open>parse\<close>; the latter returns its error message or the message. JSON values
  are a type variable. Headers are ASCII, as the protocol has them. The child process is the number of
  its \<open>spawn\<close> call; its events (data, exit, errors) and the timers are operations of their own. What is
  written, killed, resolved, rejected and forwarded is kept as a history; the messages that the callback
  \<open>onMessage\<close> sends are operations that follow.
\<close>

section \<open>Messages and state\<close>

datatype JsonId = NumId real | StrId string | NullId

record JsonRpcError =
  errCode :: real
  errMessage :: string

record 'j JsonRpcMessage =
  msgId :: "JsonId option"
  msgMethod :: "string option"
  msgParams :: "'j option"
  msgResult :: "'j option"
  msgError :: "JsonRpcError option"

datatype 'j RequestOutcome = RequestResolved "'j option" | RequestRejected string

record 'j LspTransport =
  ltServerName :: string
  ltChild :: "nat option"
  ltNextChild :: nat
  ltBuffer :: string
  ltNextId :: nat
  ltPending :: "(nat \<times> string) list"
  ltStderr :: string
  ltWritten :: "string list"
  ltSettled :: "(nat \<times> 'j RequestOutcome) list"
  ltForwarded :: "'j JsonRpcMessage list"
  ltKilled :: "nat list"
  ltClosedCalls :: nat

definition newLspTransport :: "string \<Rightarrow> 'j LspTransport" where
  "newLspTransport name = \<lparr>ltServerName = name, ltChild = None, ltNextChild = 0, ltBuffer = [], ltNextId = 1,
     ltPending = [], ltStderr = [], ltWritten = [], ltSettled = [], ltForwarded = [], ltKilled = [], ltClosedCalls = 0\<rparr>"

section \<open>Failure and closing\<close>

definition stderrSuffix :: "'j LspTransport \<Rightarrow> string" where
  "stderrSuffix tr =
     (let stderr = js_trim (ltStderr tr) in
      if stderr = [] then [] else CHR 0x0A # ''Server stderr:'' @ CHR 0x0A # stderr)"

definition rejectPending :: "(nat \<Rightarrow> string) \<Rightarrow> 'j LspTransport \<Rightarrow> 'j LspTransport" where
  "rejectPending message tr =
     tr\<lparr>ltSettled := ltSettled tr @ map (\<lambda>(i, _). (i, RequestRejected (message i))) (ltPending tr), ltPending := []\<rparr>"

definition lt_fail :: "string \<Rightarrow> 'j LspTransport \<Rightarrow> 'j LspTransport" where
  "lt_fail message tr =
     (let tr1 = rejectPending (\<lambda>_. message) tr in
      tr1\<lparr>ltKilled := ltKilled tr1 @ (case ltChild tr1 of None \<Rightarrow> [] | Some c \<Rightarrow> [c]), ltChild := None,
          ltClosedCalls := ltClosedCalls tr1 + 1\<rparr>)"

definition lt_close :: "'j LspTransport \<Rightarrow> 'j LspTransport" where
  "lt_close tr = lt_fail (ltServerName tr @ '' LSP request cancelled.'') tr"

section \<open>The child process\<close>

definition lt_start :: "bool \<Rightarrow> string \<Rightarrow> 'j LspTransport \<Rightarrow> string + 'j LspTransport" where
  "lt_start executable command tr =
     (if \<not> executable
      then Inl (ltServerName tr @ '' LSP command not found: '' @ command @ ''. Install '' @ ltServerName tr @
                '' or update its command in lsp.json.'')
      else Inr (tr\<lparr>ltChild := Some (ltNextChild tr), ltNextChild := ltNextChild tr + 1\<rparr>))"

definition lt_spawnError :: "nat \<Rightarrow> string \<Rightarrow> 'j LspTransport \<Rightarrow> 'j LspTransport" where
  "lt_spawnError c message tr =
     (let tr1 = rejectPending (\<lambda>_. ltServerName tr @ '' LSP process failed to start: '' @ message @ ''.'' @ stderrSuffix tr) tr
      in if ltChild tr1 = Some c then tr1\<lparr>ltChild := None\<rparr> else tr1)"

definition lt_exit :: "nat \<Rightarrow> string \<Rightarrow> 'j LspTransport \<Rightarrow> 'j LspTransport" where
  "lt_exit c reason tr =
     (let tr1 = (if ltChild tr = Some c then tr\<lparr>ltChild := None\<rparr> else tr) in
      rejectPending (\<lambda>i. ltServerName tr1 @ '' LSP server exited before response '' @ js_show_nat i @ '' ('' @ reason @ '').'' @
        stderrSuffix tr1) tr1)"

definition lt_stderr :: "string \<Rightarrow> 'j LspTransport \<Rightarrow> 'j LspTransport" where
  "lt_stderr chunk tr = tr\<lparr>ltStderr := ltStderr tr @ chunk\<rparr>"

definition lt_stdinError :: "string \<Rightarrow> 'j LspTransport \<Rightarrow> 'j LspTransport" where
  "lt_stdinError message tr =
     lt_fail (ltServerName tr @ '' LSP stdin write failed: '' @ message @ ''.'' @ stderrSuffix tr) tr"

section \<open>Sending\<close>

definition headerEnd :: string where
  "headerEnd = [CHR 0x0D, CHR 0x0A, CHR 0x0D, CHR 0x0A]"

definition encodeFrame :: "string \<Rightarrow> string" where
  "encodeFrame body = ''Content-Length: '' @ js_show_nat (length body) @ headerEnd @ body"

text \<open>The error that is thrown, if any, and the new state; \<open>writeError\<close> is what the stream's \<open>write\<close> throws.\<close>

definition lt_send :: "string option \<Rightarrow> string \<Rightarrow> 'j LspTransport \<Rightarrow> string option \<times> 'j LspTransport" where
  "lt_send writeError body tr =
     (if ltChild tr = None then (Some (ltServerName tr @ '' LSP server is not running.''), tr)
      else case writeError of
        None \<Rightarrow> (None, tr\<lparr>ltWritten := ltWritten tr @ [encodeFrame body]\<rparr>)
      | Some e \<Rightarrow>
          let message = ltServerName tr @ '' LSP stdin write failed: '' @ e @ ''.'' @ stderrSuffix tr
          in (Some message, lt_fail message tr))"

definition lt_request ::
  "('j JsonRpcMessage \<Rightarrow> string) \<Rightarrow> string option \<Rightarrow> string \<Rightarrow> 'j \<Rightarrow> 'j LspTransport \<Rightarrow> 'j LspTransport \<times> nat" where
  "lt_request stringify writeError rpc params tr =
     (let i = ltNextId tr;
          message = \<lparr>msgId = Some (NumId (real i)), msgMethod = Some rpc, msgParams = Some params,
                     msgResult = None, msgError = None\<rparr>;
          tr1 = tr\<lparr>ltNextId := i + 1, ltPending := ltPending tr @ [(i, rpc)]\<rparr>;
          (err, tr2) = lt_send writeError (stringify message) tr1
      in (case err of
            None \<Rightarrow> tr2
          | Some e \<Rightarrow> tr2\<lparr>ltPending := filter (\<lambda>(k, _). k \<noteq> i) (ltPending tr2),
                         ltSettled := ltSettled tr2 @ [(i, RequestRejected e)]\<rparr>, i))"

definition lt_notify ::
  "('j JsonRpcMessage \<Rightarrow> string) \<Rightarrow> string option \<Rightarrow> string \<Rightarrow> 'j option \<Rightarrow> 'j LspTransport \<Rightarrow> string option \<times> 'j LspTransport" where
  "lt_notify stringify writeError rpc params =
     lt_send writeError (stringify \<lparr>msgId = None, msgMethod = Some rpc, msgParams = params, msgResult = None, msgError = None\<rparr>)"

definition lt_respond ::
  "('j JsonRpcMessage \<Rightarrow> string) \<Rightarrow> string option \<Rightarrow> JsonId \<Rightarrow> 'j \<Rightarrow> 'j LspTransport \<Rightarrow> string option \<times> 'j LspTransport" where
  "lt_respond stringify writeError i result =
     lt_send writeError (stringify \<lparr>msgId = Some i, msgMethod = None, msgParams = None, msgResult = Some result, msgError = None\<rparr>)"

definition lt_respondError ::
  "('j JsonRpcMessage \<Rightarrow> string) \<Rightarrow> string option \<Rightarrow> JsonId \<Rightarrow> real \<Rightarrow> string \<Rightarrow> 'j LspTransport \<Rightarrow> string option \<times> 'j LspTransport" where
  "lt_respondError stringify writeError i code message =
     lt_send writeError (stringify \<lparr>msgId = Some i, msgMethod = None, msgParams = None, msgResult = None,
       msgError = Some \<lparr>errCode = code, errMessage = message\<rparr>\<rparr>)"

text \<open>The timer of a request; settling the request clears it.\<close>

definition lt_timeout :: "nat \<Rightarrow> string \<Rightarrow> 'j LspTransport \<Rightarrow> 'j LspTransport" where
  "lt_timeout i rpc tr =
     tr\<lparr>ltPending := filter (\<lambda>(k, _). k \<noteq> i) (ltPending tr),
        ltSettled := ltSettled tr @
          [(i, RequestRejected (ltServerName tr @ '' LSP request timed out: '' @ rpc @ ''.'' @ stderrSuffix tr))]\<rparr>"

section \<open>Receiving\<close>

text \<open>\<open>this.#pending.get\<close> for the id of a message, if that is a number.\<close>

definition pendingFor :: "JsonId option \<Rightarrow> (nat \<times> string) list \<Rightarrow> (nat \<times> string) option" where
  "pendingFor i pending =
     (case i of Some (NumId x) \<Rightarrow> List.find (\<lambda>(k, _). real k = x) pending | _ \<Rightarrow> None)"

definition lt_handle :: "'j JsonRpcMessage \<Rightarrow> 'j LspTransport \<Rightarrow> 'j LspTransport" where
  "lt_handle message tr =
     (if msgId message \<noteq> None \<and> truthy_string (msgMethod message) = None
      then case pendingFor (msgId message) (ltPending tr) of
             None \<Rightarrow> tr
           | Some (i, _) \<Rightarrow>
               tr\<lparr>ltPending := filter (\<lambda>(k, _). k \<noteq> i) (ltPending tr),
                  ltSettled := ltSettled tr @
                    [(i, case msgError message of
                           Some e \<Rightarrow> RequestRejected (ltServerName tr @ '' LSP error: '' @ errMessage e)
                         | None \<Rightarrow> RequestResolved (msgResult message))]\<rparr>
      else tr\<lparr>ltForwarded := ltForwarded tr @ [message]\<rparr>)"

text \<open>\<open>Buffer.indexOf\<close>.\<close>

fun indexOfBytes :: "string \<Rightarrow> string \<Rightarrow> nat option" where
  "indexOfBytes p [] = (if p = [] then Some 0 else None)"
| "indexOfBytes p (c # cs) = (if js_startsWith (c # cs) p then Some 0 else map_option Suc (indexOfBytes p cs))"

text \<open>The expression \<open>/Content-Length:\s*(\d+)/i\<close>: a match at the start of a text, and the leftmost match.\<close>

definition headerSpace :: "char \<Rightarrow> bool" where
  "headerSpace c \<longleftrightarrow> c \<in> {CHR 0x09, CHR 0x0A, CHR 0x0B, CHR 0x0C, CHR 0x0D, CHR '' ''}"

definition matchLength :: "string \<Rightarrow> string option" where
  "matchLength s =
     (if js_toLowerCase (take 15 s) \<noteq> ''content-length:'' then None
      else let digits = takeWhile isDigit (dropWhile headerSpace (drop 15 s)) in
           if digits = [] then None else Some digits)"

fun searchLength :: "string \<Rightarrow> string option" where
  "searchLength [] = None"
| "searchLength (c # cs) = (case matchLength (c # cs) of Some digits \<Rightarrow> Some digits | None \<Rightarrow> searchLength cs)"

lemma indexOfBytes_bound: "indexOfBytes p b = Some i \<Longrightarrow> i + length p \<le> length b"
  by (induction p b arbitrary: i rule: indexOfBytes.induct)
    (auto simp: js_startsWith_append split: if_splits dest: arg_cong [where f = length])

lemma lt_handle_buffer [simp]: "ltBuffer (lt_handle m tr) = ltBuffer tr"
  by (simp add: lt_handle_def split: option.split prod.split)

text \<open>The loop of \<open>#consume\<close>: the new state and the error that is thrown, if any.\<close>

function consumeLoop ::
  "(string \<Rightarrow> string + 'j JsonRpcMessage) \<Rightarrow> 'j LspTransport \<Rightarrow> 'j LspTransport \<times> string option" where
  "consumeLoop parse tr =
     (case indexOfBytes headerEnd (ltBuffer tr) of
        None \<Rightarrow> (tr, None)
      | Some separator \<Rightarrow>
          (case searchLength (take separator (ltBuffer tr)) of
             None \<Rightarrow> (tr, Some (''Invalid LSP response header: '' @ take separator (ltBuffer tr)))
           | Some digits \<Rightarrow>
               let bodyStart = separator + 4; bodyLength = nat (digitsValue digits) in
               if length (ltBuffer tr) < bodyStart + bodyLength then (tr, None)
               else
                 let rawBody = take bodyLength (drop bodyStart (ltBuffer tr));
                     tr1 = tr\<lparr>ltBuffer := drop (bodyStart + bodyLength) (ltBuffer tr)\<rparr>
                 in (case parse rawBody of
                       Inl e \<Rightarrow> (tr1, Some e)
                     | Inr message \<Rightarrow> consumeLoop parse (lt_handle message tr1))))"
  by pat_completeness auto
termination
  by (relation "measure (\<lambda>(_, tr). length (ltBuffer tr))") (auto dest: indexOfBytes_bound simp: headerEnd_def)

declare consumeLoop.simps [simp del]

definition lt_consume ::
  "(string \<Rightarrow> string + 'j JsonRpcMessage) \<Rightarrow> string \<Rightarrow> 'j LspTransport \<Rightarrow> 'j LspTransport \<times> string option" where
  "lt_consume parse chunk tr = consumeLoop parse (tr\<lparr>ltBuffer := ltBuffer tr @ chunk\<rparr>)"

definition lt_data ::
  "(string \<Rightarrow> string + 'j JsonRpcMessage) \<Rightarrow> string \<Rightarrow> 'j LspTransport \<Rightarrow> 'j LspTransport" where
  "lt_data parse chunk tr =
     (case lt_consume parse chunk tr of
        (tr1, None) \<Rightarrow> tr1
      | (tr1, Some e) \<Rightarrow>
          lt_fail (ltServerName tr1 @ '' LSP server sent invalid JSON-RPC data: '' @ e @ ''.'' @ stderrSuffix tr1) tr1)"

inductive lt_step ::
  "('j JsonRpcMessage \<Rightarrow> string) \<Rightarrow> (string \<Rightarrow> string + 'j JsonRpcMessage) \<Rightarrow> 'j LspTransport \<Rightarrow> 'j LspTransport \<Rightarrow> bool"
  for stringify parse where
  lt_starts: "lt_start executable command tr = Inr tr' \<Longrightarrow> lt_step stringify parse tr tr'"
| lt_requests: "lt_step stringify parse tr (fst (lt_request stringify writeError rpc params tr))"
| lt_sends: "lt_step stringify parse tr (snd (lt_send writeError body tr))"
| lt_times_out: "(i, rpc) \<in> set (ltPending tr) \<Longrightarrow> lt_step stringify parse tr (lt_timeout i rpc tr)"
| lt_receives: "lt_step stringify parse tr (lt_data parse chunk tr)"
| lt_collects_stderr: "lt_step stringify parse tr (lt_stderr chunk tr)"
| lt_stdin_fails: "lt_step stringify parse tr (lt_stdinError message tr)"
| lt_exits: "c < ltNextChild tr \<Longrightarrow> lt_step stringify parse tr (lt_exit c reason tr)"
| lt_spawn_fails: "c < ltNextChild tr \<Longrightarrow> lt_step stringify parse tr (lt_spawnError c message tr)"
| lt_closes: "lt_step stringify parse tr (lt_close tr)"

end
