(* ===== verification/Lsp_Transport_Properties.thy ===== *)
theory Lsp_Transport_Properties
  imports Lsp_Transport
begin

text \<open>
  How the byte stream is cut into chunks makes no difference, framed messages arrive as they were sent,
  and no request is left without an answer.
\<close>

section \<open>Framing\<close>

lemma indexOfBytes_append: "indexOfBytes p b = Some i \<Longrightarrow> indexOfBytes p (b @ c) = Some i"
proof (induction p b arbitrary: i rule: indexOfBytes.induct)
  case (1 p)
  then show ?case by (cases c) (auto simp: js_startsWith_def split: if_splits)
next
  case (2 p a b)
  have "length p \<le> length (a # b)" using indexOfBytes_bound [OF 2(2)] by simp
  then have "js_startsWith ((a # b) @ c) p = js_startsWith (a # b) p" by (simp add: js_startsWith_def del: append_Cons)
  with 2 show ?case by (auto split: if_splits)
qed

lemma lt_handle_set_buffer: "lt_handle m (tr\<lparr>ltBuffer := b\<rparr>) = (lt_handle m tr)\<lparr>ltBuffer := b\<rparr>"
  by (cases "pendingFor (msgId m) (ltPending tr)"; cases "msgError m") (simp_all add: lt_handle_def split_def)

text \<open>What arrives later does not change what the loop does with the bytes it has: it goes on from where it
  stopped, and an error stays an error.\<close>

lemma consume_more:
  assumes "consumeLoop parse tr = (tr1, err)"
  shows "(err = None \<longrightarrow> consumeLoop parse tr1 = (tr1, None) \<and>
      consumeLoop parse (tr\<lparr>ltBuffer := ltBuffer tr @ c\<rparr>) = consumeLoop parse (tr1\<lparr>ltBuffer := ltBuffer tr1 @ c\<rparr>)) \<and>
    (err \<noteq> None \<longrightarrow> snd (consumeLoop parse (tr\<lparr>ltBuffer := ltBuffer tr @ c\<rparr>)) \<noteq> None)"
  using assms
proof (induction parse tr rule: consumeLoop.induct)
  case (1 parse tr)
  let ?b = "ltBuffer tr" and ?tr = "tr\<lparr>ltBuffer := ltBuffer tr @ c\<rparr>"
  note loop = consumeLoop.simps [of parse tr] and loop' = consumeLoop.simps [of parse ?tr]
  show ?case
  proof (cases "indexOfBytes headerEnd ?b")
    case None
    then have "consumeLoop parse tr = (tr, None)" by (simp add: loop)
    with 1(2) show ?thesis by auto
  next
    case (Some sep)
    note sep = Some
    have le: "sep \<le> length ?b" using indexOfBytes_bound [OF sep] by simp
    note sep' = indexOfBytes_append [OF sep, of c]
    show ?thesis
    proof (cases "searchLength (take sep ?b)")
      case None
      then have "snd (consumeLoop parse tr) \<noteq> None" "snd (consumeLoop parse ?tr) \<noteq> None"
        using sep sep' le by (simp_all add: loop loop')
      with 1(2) show ?thesis by auto
    next
      case (Some ds)
      let ?n = "sep + 4 + nat (digitsValue ds)"
      show ?thesis
      proof (cases "length ?b < ?n")
        case True
        with sep Some have "consumeLoop parse tr = (tr, None)" by (simp add: loop)
        with 1(2) show ?thesis by auto
      next
        case False
        let ?raw = "take (nat (digitsValue ds)) (drop (sep + 4) ?b)"
        let ?rest = "tr\<lparr>ltBuffer := drop ?n ?b\<rparr>"
        have raw: "take (nat (digitsValue ds)) (drop (sep + 4) (?b @ c)) = ?raw" "drop ?n (?b @ c) = drop ?n ?b @ c"
          using False by simp_all
        show ?thesis
        proof (cases "parse ?raw")
          case (Inl e)
          then have "snd (consumeLoop parse tr) \<noteq> None" "snd (consumeLoop parse ?tr) \<noteq> None"
            using sep sep' Some False le raw by (simp_all add: loop loop' Let_def)
          with 1(2) show ?thesis by auto
        next
          case (Inr m)
          let ?next = "lt_handle m ?rest"
          have a: "consumeLoop parse tr = consumeLoop parse ?next" using sep Some False Inr by (simp add: loop Let_def)
          have "consumeLoop parse ?tr = consumeLoop parse (lt_handle m (tr\<lparr>ltBuffer := drop ?n ?b @ c\<rparr>))"
            using sep' Some False Inr le raw by (simp add: loop' Let_def)
          also have "lt_handle m (tr\<lparr>ltBuffer := drop ?n ?b @ c\<rparr>) = ?next\<lparr>ltBuffer := ltBuffer ?next @ c\<rparr>"
            by (simp add: lt_handle_set_buffer)
          finally have b: "consumeLoop parse ?tr = consumeLoop parse (?next\<lparr>ltBuffer := ltBuffer ?next @ c\<rparr>)" .
          show ?thesis unfolding b by (rule 1(1) [OF sep Some refl refl False refl refl Inr]) (use 1(2) a in simp)
        qed
      qed
    qed
  qed
qed

lemma data_chunks:
  assumes "consumeLoop parse tr = (tr, None)"
    and "consumeLoop parse (tr\<lparr>ltBuffer := ltBuffer tr @ concat chunks\<rparr>) = (result, None)"
  shows "fold (lt_data parse) chunks tr = result"
  using assms
proof (induction chunks arbitrary: tr)
  case Nil
  then show ?case by simp
next
  case (Cons c cs)
  obtain tr1 err where c: "consumeLoop parse (tr\<lparr>ltBuffer := ltBuffer tr @ c\<rparr>) = (tr1, err)"
    by (cases "consumeLoop parse (tr\<lparr>ltBuffer := ltBuffer tr @ c\<rparr>)")
  from consume_more [OF this, of "concat cs"] Cons.prems(2)
  have "err = None" and "consumeLoop parse tr1 = (tr1, None)"
      "consumeLoop parse (tr1\<lparr>ltBuffer := ltBuffer tr1 @ concat cs\<rparr>) = (result, None)"
    by (auto split: if_splits)
  with Cons.IH [of tr1] c show ?case by (simp add: lt_data_def lt_consume_def)
qed

section \<open>Frames\<close>

lemma indexOf_headerEnd: "CHR 0x0D \<notin> set h \<Longrightarrow> indexOfBytes headerEnd (h @ headerEnd @ r) = Some (length h)"
proof (induction h)
  case Nil
  then show ?case by (simp add: headerEnd_def js_startsWith_def)
next
  case (Cons a h)
  then have "\<not> js_startsWith ((a # h) @ headerEnd @ r) headerEnd" by (auto simp: headerEnd_def js_startsWith_def)
  with Cons show ?case by simp
qed

lemma digit_char:
  assumes "isDigit c"
  shows "\<not> headerSpace c" "c \<noteq> CHR 0x0D"
proof -
  have "\<forall>c \<in> set ''0123456789''. \<not> headerSpace c \<and> c \<noteq> CHR 0x0D" by code_simp
  with isDigit_cases [OF assms] show "\<not> headerSpace c" "c \<noteq> CHR 0x0D" by blast+
qed

lemma header_name: "js_toLowerCase ''Content-Length:'' = ''content-length:''"
  by code_simp

lemma searchLength_header:
  assumes "ds \<noteq> []" "list_all isDigit ds"
  shows "searchLength (''Content-Length: '' @ ds) = Some ds"
proof -
  have "dropWhile headerSpace ds = ds" using assms digit_char(1) by (cases ds) auto
  then have "dropWhile headerSpace ('' '' @ ds) = ds" by (simp add: headerSpace_def)
  moreover have "takeWhile isDigit ds = ds" using assms(2) by (simp add: list_all_iff)
  moreover have "take 15 (''Content-Length: '' @ ds) = ''Content-Length:''" "drop 15 (''Content-Length: '' @ ds) = '' '' @ ds"
    by simp_all
  ultimately have "matchLength (''Content-Length: '' @ ds) = Some ds"
    using assms(1) header_name unfolding matchLength_def by presburger
  then show ?thesis by simp
qed

lemma consume_frame:
  assumes "ltBuffer tr = encodeFrame body @ rest" "parse body = Inr m"
  shows "consumeLoop parse tr = consumeLoop parse (lt_handle m (tr\<lparr>ltBuffer := rest\<rparr>))"
proof -
  let ?ds = "js_show_nat (length body)"
  define h where "h = ''Content-Length: '' @ ?ds"
  have ds: "?ds \<noteq> []" "list_all isDigit ?ds" using show_nat_digits by blast+
  have b: "ltBuffer tr = h @ headerEnd @ body @ rest" using assms(1) by (simp add: encodeFrame_def h_def)
  have "CHR 0x0D \<notin> set ?ds" using ds(2) digit_char(2) by (auto simp: list_all_iff)
  then have "CHR 0x0D \<notin> set h" by (simp add: h_def)
  then have sep: "indexOfBytes headerEnd (ltBuffer tr) = Some (length h)" unfolding b by (rule indexOf_headerEnd)
  have len: "length headerEnd = 4" by (simp add: headerEnd_def)
  have h: "take (length h) (ltBuffer tr) = h" "drop (length h + 4) (ltBuffer tr) = body @ rest"
      "length (ltBuffer tr) = length h + 4 + length body + length rest"
      "drop (length h + 4 + length body) (ltBuffer tr) = rest"
    unfolding b using len by simp_all
  have n: "nat (digitsValue ?ds) = length body" by (simp add: digitsValue_show)
  have s: "searchLength h = Some ?ds" unfolding h_def by (rule searchLength_header [OF ds])
  show ?thesis
    unfolding consumeLoop.simps [of parse tr] sep option.case h(1) s Let_def n
    using h(2-4) assms(2) by simp
qed

lemma consume_frames:
  assumes "\<forall>m \<in> set ms. parse (stringify m) = Inr m"
    and "ltBuffer tr = concat (map (\<lambda>m. encodeFrame (stringify m)) ms)"
  shows "consumeLoop parse tr = (fold lt_handle ms (tr\<lparr>ltBuffer := []\<rparr>), None)"
  using assms
proof (induction ms arbitrary: tr)
  case Nil
  then have "tr\<lparr>ltBuffer := []\<rparr> = tr" by simp
  then show ?case using Nil by (simp add: consumeLoop.simps [of parse tr] headerEnd_def)
next
  case (Cons m ms)
  let ?rest = "concat (map (\<lambda>m. encodeFrame (stringify m)) ms)"
  have "consumeLoop parse tr = consumeLoop parse (lt_handle m (tr\<lparr>ltBuffer := ?rest\<rparr>))"
    using Cons.prems by (intro consume_frame [where body = "stringify m"]) simp_all
  also have "\<dots> = (fold lt_handle ms ((lt_handle m (tr\<lparr>ltBuffer := ?rest\<rparr>))\<lparr>ltBuffer := []\<rparr>), None)"
    using Cons.prems by (intro Cons.IH) simp_all
  finally show ?case by (simp add: lt_handle_set_buffer)
qed

section \<open>Requests\<close>

text \<open>Every request is either in flight or settled, and without a child process none is in flight.\<close>

definition lt_inv :: "'j LspTransport \<Rightarrow> bool" where
  "lt_inv tr \<longleftrightarrow>
     fst ` set (ltPending tr) \<inter> fst ` set (ltSettled tr) = {} \<and>
     fst ` set (ltPending tr) \<union> fst ` set (ltSettled tr) = {1..<ltNextId tr} \<and> 1 \<le> ltNextId tr \<and>
     (ltChild tr = None \<longrightarrow> ltPending tr = [])"

lemma fst_filter: "fst ` set (filter (\<lambda>(k, _). k \<noteq> i) xs) = fst ` set xs - {i}"
  by auto

lemma fst_map_id: "fst ` set (map (\<lambda>(i, _). (i, f i)) xs) = fst ` set xs"
  by force

lemma inv_frame [simp]:
  "lt_inv (tr\<lparr>ltBuffer := b\<rparr>) = lt_inv tr" "lt_inv (tr\<lparr>ltWritten := w\<rparr>) = lt_inv tr"
  "lt_inv (tr\<lparr>ltForwarded := f\<rparr>) = lt_inv tr" "lt_inv (tr\<lparr>ltStderr := e\<rparr>) = lt_inv tr"
  by (simp_all add: lt_inv_def)

lemma reject_inv: "lt_inv tr \<Longrightarrow> ltPending (rejectPending f tr) = [] \<and> lt_inv (rejectPending f tr)"
  by (auto simp: lt_inv_def rejectPending_def fst_map_id image_Un simp del: set_map)

lemma no_pending_inv: "lt_inv tr \<Longrightarrow> ltPending tr = [] \<Longrightarrow> lt_inv (tr\<lparr>ltChild := c\<rparr>)"
  by (simp add: lt_inv_def)

lemma fail_lt_inv:
  assumes "lt_inv tr"
  shows "lt_inv (lt_fail message tr)"
proof -
  have "ltPending (rejectPending (\<lambda>_. message) tr) = []" "lt_inv (rejectPending (\<lambda>_. message) tr)"
    using reject_inv [OF assms] by blast+
  then show ?thesis by (simp add: lt_fail_def lt_inv_def Let_def)
qed

text \<open>One request in flight is settled.\<close>

lemma settle_one_inv:
  assumes "lt_inv tr" "i \<in> fst ` set (ltPending tr)"
  shows "lt_inv (tr\<lparr>ltPending := filter (\<lambda>(k, _). k \<noteq> i) (ltPending tr), ltSettled := ltSettled tr @ [(i, o')]\<rparr>)"
  using assms by (auto simp: lt_inv_def fst_filter simp del: set_filter)

lemma pendingFor_SomeD: "pendingFor i ps = Some (k, m) \<Longrightarrow> k \<in> fst ` set ps"
  by (auto simp: pendingFor_def split: option.splits JsonId.splits dest!: find_SomeD intro: rev_image_eqI)

lemma handle_inv:
  assumes "lt_inv tr"
  shows "lt_inv (lt_handle m tr)"
proof (cases "pendingFor (msgId m) (ltPending tr)")
  case None
  with assms show ?thesis by (simp add: lt_handle_def)
next
  case (Some p)
  then have "fst p \<in> fst ` set (ltPending tr)" using pendingFor_SomeD by (metis prod.collapse)
  from settle_one_inv [OF assms this] Some assms show ?thesis by (simp add: lt_handle_def split_def)
qed

lemma consume_inv: "lt_inv tr \<Longrightarrow> lt_inv (fst (consumeLoop parse tr))"
proof (induction parse tr rule: consumeLoop.induct)
  case (1 parse tr)
  show ?case
    using 1 handle_inv [of "tr\<lparr>ltBuffer := b\<rparr>" for b]
    by (subst consumeLoop.simps) (auto simp: Let_def split: option.split sum.split)
qed

lemma data_inv: "lt_inv tr \<Longrightarrow> lt_inv (lt_data parse chunk tr)"
  using consume_inv [of "tr\<lparr>ltBuffer := ltBuffer tr @ chunk\<rparr>" parse]
  by (auto simp: lt_data_def lt_consume_def fail_lt_inv split: prod.split option.split)

lemma send_inv: "lt_inv tr \<Longrightarrow> lt_inv (snd (lt_send writeError body tr))"
  by (simp add: lt_send_def Let_def fail_lt_inv split: option.split)

lemma request_lt_inv:
  assumes inv: "lt_inv tr"
  shows "lt_inv (fst (lt_request stringify writeError rpc params tr))"
proof -
  let ?i = "ltNextId tr"
  let ?tr = "tr\<lparr>ltNextId := ?i + 1, ltPending := ltPending tr @ [(?i, rpc)]\<rparr>"
  have ids: "fst ` set (ltPending tr) \<union> fst ` set (ltSettled tr) = {1..<?i}" "1 \<le> ?i" using inv by (simp_all add: lt_inv_def)
  then have fresh: "?i \<notin> fst ` set (ltPending tr)" "?i \<notin> fst ` set (ltSettled tr)" by auto
  show ?thesis
  proof (cases "ltChild tr")
    case None
    then have "ltPending tr = []" using inv by (simp add: lt_inv_def)
    with None ids fresh show ?thesis by (simp add: lt_request_def lt_send_def Let_def lt_inv_def) auto
  next
    case (Some c)
    have new: "lt_inv ?tr" using inv ids fresh Some by (auto simp: lt_inv_def)
    show ?thesis
    proof (cases writeError)
      case None
      with new Some show ?thesis by (simp add: lt_request_def lt_send_def Let_def)
    next
      case (Some e)
      let ?m = "ltServerName tr @ '' LSP stdin write failed: '' @ e @ ''.'' @ stderrSuffix ?tr"
      let ?f = "lt_fail ?m ?tr"
      have f: "ltPending ?f = []" "ltChild ?f = None" "?i \<in> fst ` set (ltSettled ?f)"
        by (simp_all add: lt_fail_def Let_def rejectPending_def)
      have "lt_inv ?f" by (rule fail_lt_inv [OF new])
      then have "lt_inv (?f\<lparr>ltPending := [], ltSettled := ltSettled ?f @ [(?i, RequestRejected ?m)]\<rparr>)"
        using f by (simp add: lt_inv_def insert_absorb)
      with Some \<open>ltChild tr = Some c\<close> f(1) show ?thesis by (simp add: lt_request_def lt_send_def Let_def)
    qed
  qed
qed

lemma lt_step_inv:
  assumes "lt_step stringify parse tr tr'" "lt_inv tr"
  shows "lt_inv tr'"
  using assms
proof (cases rule: lt_step.cases)
  case (lt_starts executable command)
  then have "tr' = tr\<lparr>ltChild := Some (ltNextChild tr), ltNextChild := ltNextChild tr + 1\<rparr>"
    by (simp add: lt_start_def split: if_splits)
  with assms(2) show ?thesis by (simp add: lt_inv_def)
next
  case (lt_times_out i rpc)
  with settle_one_inv [OF assms(2), of i] show ?thesis by (force simp: lt_timeout_def)
next
  case (lt_exits c reason)
  let ?tr = "if ltChild tr = Some c then tr\<lparr>ltChild := None\<rparr> else tr"
  define f where "f i = ltServerName ?tr @ '' LSP server exited before response '' @ js_show_nat i @ '' ('' @ reason @ '').'' @
    stderrSuffix ?tr" for i
  have "tr' = rejectPending f ?tr" unfolding lt_exits(1) lt_exit_def f_def Let_def ..
  moreover have "rejectPending f (tr\<lparr>ltChild := None\<rparr>) = (rejectPending f tr)\<lparr>ltChild := None\<rparr>"
    by (simp add: rejectPending_def)
  ultimately show ?thesis using reject_inv [OF assms(2), of f] no_pending_inv by (auto split: if_splits)
next
  case (lt_spawn_fails c message)
  then show ?thesis using reject_inv [OF assms(2)] no_pending_inv by (auto simp: lt_spawnError_def Let_def)
qed (use assms(2) in \<open>simp_all add: request_lt_inv send_inv data_inv fail_lt_inv lt_stderr_def lt_stdinError_def lt_close_def\<close>)

interpretation transport: state_machine "\<lambda>tr. tr = newLspTransport name" "lt_step stringify parse" lt_inv for name stringify parse
proof unfold_locales
  fix tr :: "'a LspTransport" assume "tr = newLspTransport name"
  then show "lt_inv tr" by (simp add: lt_inv_def newLspTransport_def)
qed (rule lt_step_inv)

section \<open>Properties\<close>

text \<open>For the examples, the text of a message is its method.\<close>

definition demoMessage :: "string \<Rightarrow> unit JsonRpcMessage" where
  "demoMessage rpc = \<lparr>msgId = None, msgMethod = Some rpc, msgParams = None, msgResult = None, msgError = None\<rparr>"

definition demoStringify :: "unit JsonRpcMessage \<Rightarrow> string" where
  "demoStringify m = nullish (msgMethod m) []"

definition demoParse :: "string \<Rightarrow> string + unit JsonRpcMessage" where
  "demoParse s = Inr (demoMessage s)"

text \<open>C17: Messages framed by the sender arrive at the receiver exactly as sent, in order, however the byte stream is
  cut into chunks, with nothing left in the buffer; given that parsing a message's JSON text returns it.\<close>

theorem lsp_messages_survive_chunking:
  fixes tr :: "'j LspTransport"
  assumes json: "\<forall>m \<in> set ms. parse (stringify m) = Inr m"
    and "ltBuffer tr = []" "concat chunks = concat (map (\<lambda>m. encodeFrame (stringify m)) ms)"
  shows "fold (lt_data parse) chunks tr = fold lt_handle ms tr \<and> ltBuffer (fold (lt_data parse) chunks tr) = []"
proof -
  have "consumeLoop parse tr = (tr, None)" using assms(2) by (simp add: consumeLoop.simps [of parse tr] headerEnd_def)
  moreover have same: "tr\<lparr>ltBuffer := []\<rparr> = tr" using assms(2) by simp
  have "consumeLoop parse (tr\<lparr>ltBuffer := ltBuffer tr @ concat chunks\<rparr>) = (fold lt_handle ms tr, None)"
    using consume_frames [OF json, of "tr\<lparr>ltBuffer := concat chunks\<rparr>"] assms(2,3) same by simp
  ultimately have "fold (lt_data parse) chunks tr = fold lt_handle ms tr" by (rule data_chunks)
  moreover have "ltBuffer (fold lt_handle ms tr) = ltBuffer tr" by (induction ms arbitrary: tr) simp_all
  ultimately show ?thesis using assms(2) by simp
qed

theorem lsp_messages_survive_chunking_witness:
  "ltForwarded (fold (lt_data demoParse)
     [''Content-Len'', ''gth: 2'', headerEnd @ ''h'', ''i'' @ encodeFrame ''bye''] (newLspTransport ''ts'')) =
   [demoMessage ''hi'', demoMessage ''bye'']"
proof -
  have wire: "concat [''Content-Len'', ''gth: 2'', headerEnd @ ''h'', ''i'' @ encodeFrame ''bye''] =
      concat (map (\<lambda>m. encodeFrame (demoStringify m)) [demoMessage ''hi'', demoMessage ''bye''])" by code_simp
  have "fold (lt_data demoParse) [''Content-Len'', ''gth: 2'', headerEnd @ ''h'', ''i'' @ encodeFrame ''bye''] (newLspTransport ''ts'') =
      fold lt_handle [demoMessage ''hi'', demoMessage ''bye''] (newLspTransport ''ts'') \<and>
    ltBuffer (fold (lt_data demoParse) [''Content-Len'', ''gth: 2'', headerEnd @ ''h'', ''i'' @ encodeFrame ''bye''] (newLspTransport ''ts'')) = []"
    by (rule lsp_messages_survive_chunking [OF _ _ wire])
      (simp_all add: demoParse_def demoStringify_def demoMessage_def newLspTransport_def)
  then show ?thesis by (simp add: lt_handle_def demoMessage_def newLspTransport_def)
qed

text \<open>C18: No request is left hanging or answered by two paths: in every reachable state each request ever made is
  in flight or settled, never both, and once there is no child process every request is settled.\<close>

theorem lsp_requests_are_settled:
  assumes "(lt_step stringify parse)\<^sup>*\<^sup>* (newLspTransport name) tr"
  shows "(\<forall>i. 1 \<le> i \<and> i < ltNextId tr \<longleftrightarrow> i \<in> fst ` set (ltPending tr) \<union> fst ` set (ltSettled tr)) \<and>
    fst ` set (ltPending tr) \<inter> fst ` set (ltSettled tr) = {} \<and>
    (ltChild tr = None \<longrightarrow> fst ` set (ltSettled tr) = {1..<ltNextId tr})"
proof -
  have "lt_inv tr" using transport.reachable_inv [OF refl assms] .
  then show ?thesis by (auto simp: lt_inv_def)
qed

definition demoTransport :: "unit LspTransport" where
  "demoTransport = lt_exit 0 ''code 1'' (fst (lt_request demoStringify None ''initialize'' ()
     (case lt_start True ''tsc'' (newLspTransport ''ts'') of Inl _ \<Rightarrow> newLspTransport ''ts'' | Inr tr \<Rightarrow> tr)))"

lemma demoTransport_reachable: "(lt_step demoStringify demoParse)\<^sup>*\<^sup>* (newLspTransport ''ts'') demoTransport"
proof -
  define tr1 :: "unit LspTransport" where "tr1 = (newLspTransport ''ts'')\<lparr>ltChild := Some 0, ltNextChild := 1\<rparr>"
  have start: "lt_start True ''tsc'' (newLspTransport ''ts'' :: unit LspTransport) = Inr tr1"
    by (simp add: lt_start_def tr1_def newLspTransport_def)
  let ?tr2 = "fst (lt_request demoStringify None ''initialize'' () tr1)"
  have "lt_step demoStringify demoParse (newLspTransport ''ts'') tr1" by (rule lt_starts [OF start])
  moreover have "lt_step demoStringify demoParse tr1 ?tr2" by (rule lt_requests)
  moreover have "ltNextChild ?tr2 = 1" by (simp add: lt_request_def lt_send_def tr1_def Let_def newLspTransport_def)
  then have "lt_step demoStringify demoParse ?tr2 demoTransport"
    unfolding demoTransport_def start sum.case by (intro lt_exits) simp
  ultimately show ?thesis by (meson converse_rtranclp_into_rtranclp rtranclp.rtrancl_refl)
qed

theorem lsp_requests_are_settled_witness:
  "ltChild demoTransport = None \<and> fst ` set (ltSettled demoTransport) = {1..<2}"
proof -
  have "ltChild demoTransport = None" "ltNextId demoTransport = 2" by code_simp+
  with lsp_requests_are_settled [OF demoTransport_reachable] show ?thesis by simp
qed

end
