(* ===== verification/Lsp_Diagnostics.thy ===== *)
theory Lsp_Diagnostics
  imports Yishan_Prelude
begin

text \<open>
  Push diagnostics of a language server (\<open>src/packages/pi-lsp/src/lsp/diagnostics.ts\<close>): publications per document,
  and callers that wait for a settled result with a settle timer, a grace timer and an overall timer.

  A wait is the number of its call. Durations only decide which timer fires when, so a timer is a flag
  that says whether it is set, and firing is an operation. The waits are kept in the order of their calls.
  The diagnostics themselves are a type variable. All publications and all settled waits are kept as histories.
\<close>

section \<open>State\<close>

record 'd Publication =
  pubVersion :: int
  pubDiagnostics :: "'d list"

record 'd WaitOptions =
  woAfterVersion :: "int option"
  woHasGrace :: bool
  woFallback :: "'d list option"
  woServerName :: string

record 'd Waiter =
  wNumber :: nat
  wUri :: string
  wOptions :: "'d WaitOptions"
  wSawNonEmpty :: bool
  wSettleTimer :: bool
  wGraceTimer :: bool

datatype 'd WaitOutcome = WaitResolved "'d list" | WaitRejected string

record 'd Tracker =
  trPublications :: "string \<rightharpoonup> 'd Publication"
  trWaiters :: "'d Waiter list"
  trNextWait :: nat
  trPublished :: "(string \<times> 'd Publication) list"
  trSettled :: "('d Waiter \<times> 'd WaitOutcome) list"

definition newTracker :: "'d Tracker" where
  "newTracker = \<lparr>trPublications = (\<lambda>_. None), trWaiters = [], trNextWait = 0, trPublished = [], trSettled = []\<rparr>"

definition waitAfter :: "'d Waiter \<Rightarrow> int" where
  "waitAfter w = nullish (woAfterVersion (wOptions w)) 0"

section \<open>Operations\<close>

definition versionOf :: "'d Tracker \<Rightarrow> string \<Rightarrow> int" where
  "versionOf tr uri = nullish (map_option pubVersion (trPublications tr uri)) 0"

definition hasDiagnostics :: "'d Tracker \<Rightarrow> string \<Rightarrow> bool" where
  "hasDiagnostics tr uri \<longleftrightarrow> nullish (map_option (length \<circ> pubDiagnostics) (trPublications tr uri)) 0 > 0"

text \<open>The callback of a wait for a publication. A provisional empty publication does not settle a wait that has
  a fallback.\<close>

definition onPublish :: "'d Publication \<Rightarrow> 'd Waiter \<Rightarrow> 'd Waiter" where
  "onPublish publication w =
     (if pubVersion publication \<le> waitAfter w then w
      else if woFallback (wOptions w) \<noteq> None \<and> pubDiagnostics publication = [] \<and> \<not> wSawNonEmpty w then w
      else w\<lparr>wSawNonEmpty := wSawNonEmpty w \<or> pubDiagnostics publication \<noteq> [], wGraceTimer := False, wSettleTimer := True\<rparr>)"

definition registerPublication :: "string \<Rightarrow> 'd list \<Rightarrow> 'd Tracker \<Rightarrow> 'd Tracker" where
  "registerPublication uri diagnostics tr =
     (let publication = \<lparr>pubVersion = versionOf tr uri + 1, pubDiagnostics = diagnostics\<rparr> in
      tr\<lparr>trPublications := (trPublications tr)(uri \<mapsto> publication),
         trPublished := trPublished tr @ [(uri, publication)],
         trWaiters := map (\<lambda>w. if wUri w = uri then onPublish publication w else w) (trWaiters tr)\<rparr>)"

definition waitForDiagnostics :: "string \<Rightarrow> 'd WaitOptions \<Rightarrow> 'd Tracker \<Rightarrow> 'd Tracker \<times> nat" where
  "waitForDiagnostics uri options tr =
     (let w = \<lparr>wNumber = trNextWait tr, wUri = uri, wOptions = options, wSawNonEmpty = False,
               wSettleTimer = False, wGraceTimer = woHasGrace options\<rparr>;
          w1 = (case trPublications tr uri of None \<Rightarrow> w | Some existing \<Rightarrow> onPublish existing w)
      in (tr\<lparr>trWaiters := trWaiters tr @ [w1], trNextWait := trNextWait tr + 1\<rparr>, trNextWait tr))"

text \<open>\<open>settleWith\<close> and \<open>fail\<close>: the wait is disposed of, with its timers, and its promise is settled.\<close>

definition settleWait :: "'d Waiter \<Rightarrow> 'd WaitOutcome \<Rightarrow> 'd Tracker \<Rightarrow> 'd Tracker" where
  "settleWait w outcome tr =
     tr\<lparr>trWaiters := filter (\<lambda>x. wNumber x \<noteq> wNumber w) (trWaiters tr), trSettled := trSettled tr @ [(w, outcome)]\<rparr>"

definition settleTimerFires :: "'d Waiter \<Rightarrow> 'd Tracker \<Rightarrow> 'd Tracker" where
  "settleTimerFires w tr =
     settleWait w (WaitResolved (nullish (map_option pubDiagnostics (trPublications tr (wUri w))) [])) tr"

definition graceTimerFires :: "'d Waiter \<Rightarrow> 'd Tracker \<Rightarrow> 'd Tracker" where
  "graceTimerFires w tr =
     settleWait w
       (WaitResolved
          (case trPublications tr (wUri w) of
             Some latest \<Rightarrow>
               if pubVersion latest > waitAfter w then pubDiagnostics latest else nullish (woFallback (wOptions w)) []
           | None \<Rightarrow> nullish (woFallback (wOptions w)) [])) tr"

definition overallTimerFires :: "'d Waiter \<Rightarrow> 'd Tracker \<Rightarrow> 'd Tracker" where
  "overallTimerFires w tr =
     (let newer = (case trPublications tr (wUri w) of
            Some latest \<Rightarrow> if pubVersion latest > waitAfter w then Some (pubDiagnostics latest) else None | None \<Rightarrow> None)
      in settleWait w
           (case newer of
              Some diagnostics \<Rightarrow> WaitResolved diagnostics
            | None \<Rightarrow>
                (case woFallback (wOptions w) of
                   Some diagnostics \<Rightarrow> WaitResolved diagnostics
                 | None \<Rightarrow> WaitRejected (woServerName (wOptions w) @ '' LSP did not return diagnostics for '' @ wUri w @
                              '' before timeout.''))) tr)"

definition rejectAll :: "string \<Rightarrow> 'd Tracker \<Rightarrow> 'd Tracker" where
  "rejectAll message tr = (fold (\<lambda>w. settleWait w (WaitRejected message)) (trWaiters tr) tr)\<lparr>trWaiters := []\<rparr>"

inductive tracker_step :: "'d Tracker \<Rightarrow> 'd Tracker \<Rightarrow> bool" where
  tracker_publishes: "tracker_step tr (registerPublication uri diagnostics tr)"
| tracker_waits: "tracker_step tr (fst (waitForDiagnostics uri options tr))"
| tracker_settles: "w \<in> set (trWaiters tr) \<Longrightarrow> wSettleTimer w \<Longrightarrow> tracker_step tr (settleTimerFires w tr)"
| tracker_grace: "w \<in> set (trWaiters tr) \<Longrightarrow> wGraceTimer w \<Longrightarrow> tracker_step tr (graceTimerFires w tr)"
| tracker_timeout: "w \<in> set (trWaiters tr) \<Longrightarrow> tracker_step tr (overallTimerFires w tr)"
| tracker_rejects: "tracker_step tr (rejectAll message tr)"

section \<open>The invariant\<close>

text \<open>A result is fresh: it is a publication newer than the wait asked for, its fallback, or nothing after the grace
  period of a silent server.\<close>

definition fresh_result :: "(string \<times> 'd Publication) list \<Rightarrow> 'd Waiter \<Rightarrow> 'd WaitOutcome \<Rightarrow> bool" where
  "fresh_result published w outcome \<longleftrightarrow>
     (case outcome of
        WaitRejected _ \<Rightarrow> True
      | WaitResolved diagnostics \<Rightarrow>
          (\<exists>p. (wUri w, p) \<in> set published \<and> pubVersion p > waitAfter w \<and> pubDiagnostics p = diagnostics) \<or>
          woFallback (wOptions w) = Some diagnostics \<or>
          woFallback (wOptions w) = None \<and> woHasGrace (wOptions w) \<and> diagnostics = [])"

definition waiter_ok :: "'d Tracker \<Rightarrow> 'd Waiter \<Rightarrow> bool" where
  "waiter_ok tr w \<longleftrightarrow>
     (wGraceTimer w \<longrightarrow> woHasGrace (wOptions w)) \<and>
     (wSettleTimer w \<longrightarrow> (\<exists>p. trPublications tr (wUri w) = Some p \<and> pubVersion p > waitAfter w)) \<and>
     (wSettleTimer w \<and> woFallback (wOptions w) \<noteq> None \<longrightarrow> wSawNonEmpty w)"

definition tracker_inv :: "'d Tracker \<Rightarrow> bool" where
  "tracker_inv tr \<longleftrightarrow>
     (\<forall>uri p. trPublications tr uri = Some p \<longrightarrow> (uri, p) \<in> set (trPublished tr)) \<and>
     (\<forall>w \<in> set (trWaiters tr). waiter_ok tr w) \<and>
     (\<forall>(w, outcome) \<in> set (trSettled tr). fresh_result (trPublished tr) w outcome) \<and>
     distinct (map wNumber (trWaiters tr) @ map (wNumber \<circ> fst) (trSettled tr)) \<and>
     set (map wNumber (trWaiters tr) @ map (wNumber \<circ> fst) (trSettled tr)) = {..<trNextWait tr}"

end
