(* ===== verification/Lsp_Diagnostics_Properties.thy ===== *)
theory Lsp_Diagnostics_Properties
  imports Lsp_Diagnostics
begin

text \<open>
  Every wait for diagnostics is settled exactly once, with a result that is new enough.
\<close>

lemma settleWait_inv:
  assumes inv: "tracker_inv tr" and w: "w \<in> set (trWaiters tr)" and fresh: "fresh_result (trPublished tr) w outcome"
  shows "tracker_inv (settleWait w outcome tr)"
proof -
  let ?ws = "map wNumber (trWaiters tr)" and ?ss = "map (wNumber \<circ> fst) (trSettled tr)"
  have d: "distinct ?ws" "distinct ?ss" "set ?ws \<inter> set ?ss = {}" "set ?ws \<union> set ?ss = {..<trNextWait tr}"
    using inv by (simp_all add: tracker_inv_def del: set_map)
  have rest: "map wNumber (filter (\<lambda>x. wNumber x \<noteq> wNumber w) (trWaiters tr)) = filter (\<lambda>n. n \<noteq> wNumber w) ?ws"
    by (simp add: filter_map comp_def)
  have mem: "wNumber w \<in> set ?ws" using w by simp
  have "distinct (filter (\<lambda>n. n \<noteq> wNumber w) ?ws @ ?ss @ [wNumber w])" using d mem by auto
  moreover have "set (filter (\<lambda>n. n \<noteq> wNumber w) ?ws @ ?ss @ [wNumber w]) = {..<trNextWait tr}" using d mem by auto
  ultimately show ?thesis
    using inv fresh unfolding tracker_inv_def settleWait_def by (auto simp: rest waiter_ok_def)
qed

lemma fresh_result_mono: "fresh_result ps w r \<Longrightarrow> set ps \<subseteq> set ps' \<Longrightarrow> fresh_result ps' w r"
  unfolding fresh_result_def by (cases r) auto

lemma onPublish_keeps [simp]:
  "wNumber (onPublish p w) = wNumber w" "wUri (onPublish p w) = wUri w" "wOptions (onPublish p w) = wOptions w"
  "waitAfter (onPublish p w) = waitAfter w"
  by (simp_all add: onPublish_def waitAfter_def)

lemma onPublish_ok:
  assumes "wGraceTimer w \<longrightarrow> woHasGrace (wOptions w)"
    "wSettleTimer w \<longrightarrow> waitAfter w < pubVersion p" "wSettleTimer w \<and> woFallback (wOptions w) \<noteq> None \<longrightarrow> wSawNonEmpty w"
    "trPublications tr (wUri w) = Some p"
  shows "waiter_ok tr (onPublish p w)"
  using assms by (auto simp: onPublish_def waiter_ok_def waitAfter_def)

lemma publish_inv:
  assumes inv: "tracker_inv tr"
  shows "tracker_inv (registerPublication uri ds tr)"
proof -
  let ?p = "\<lparr>pubVersion = versionOf tr uri + 1, pubDiagnostics = ds\<rparr>"
  let ?tr = "registerPublication uri ds tr"
  let ?f = "\<lambda>w. if wUri w = uri then onPublish ?p w else w"
  have ok: "waiter_ok tr w" if "w \<in> set (trWaiters tr)" for w using inv that by (simp add: tracker_inv_def)
  have ok': "waiter_ok ?tr (?f w)" if "w \<in> set (trWaiters tr)" for w
  proof (cases "wUri w = uri")
    case True
    with ok [OF that] have "waiter_ok ?tr (onPublish ?p w)"
      by (intro onPublish_ok) (auto simp: waiter_ok_def versionOf_def registerPublication_def Let_def)
    with True show ?thesis by simp
  next
    case False
    with ok [OF that] show ?thesis by (simp add: waiter_ok_def registerPublication_def Let_def)
  qed
  have fields: "trWaiters ?tr = map ?f (trWaiters tr)" "trSettled ?tr = trSettled tr" "trNextWait ?tr = trNextWait tr"
      "trPublished ?tr = trPublished tr @ [(uri, ?p)]" "trPublications ?tr = (trPublications tr)(uri \<mapsto> ?p)"
    by (simp_all add: registerPublication_def Let_def)
  have nums: "map wNumber (trWaiters ?tr) = map wNumber (trWaiters tr)" unfolding fields by simp
  have fresh: "fresh_result (trPublished ?tr) w r" if "(w, r) \<in> set (trSettled tr)" for w r
  proof -
    have "fresh_result (trPublished tr) w r" using inv that unfolding tracker_inv_def by blast
    then show ?thesis by (rule fresh_result_mono) (auto simp: fields)
  qed
  show ?thesis
    unfolding tracker_inv_def nums
  proof (intro conjI)
    show "\<forall>u p. trPublications ?tr u = Some p \<longrightarrow> (u, p) \<in> set (trPublished ?tr)"
      using inv by (auto simp: tracker_inv_def fields)
    show "\<forall>w \<in> set (trWaiters ?tr). waiter_ok ?tr w" unfolding fields(1) set_map using ok' by blast
    show "\<forall>(w, r) \<in> set (trSettled ?tr). fresh_result (trPublished ?tr) w r" using fresh by (auto simp: fields(2))
  qed (use inv in \<open>simp_all add: tracker_inv_def fields(2,3)\<close>)
qed

lemma wait_inv:
  assumes inv: "tracker_inv tr"
  shows "tracker_inv (fst (waitForDiagnostics uri opts tr))"
proof -
  let ?w = "\<lparr>wNumber = trNextWait tr, wUri = uri, wOptions = opts, wSawNonEmpty = False, wSettleTimer = False,
    wGraceTimer = woHasGrace opts\<rparr>"
  let ?w1 = "case trPublications tr uri of None \<Rightarrow> ?w | Some p \<Rightarrow> onPublish p ?w"
  have "waiter_ok tr ?w1"
    by (cases "trPublications tr uri") (simp_all add: waiter_ok_def [of _ ?w] onPublish_ok)
  moreover have "wNumber ?w1 = trNextWait tr" by (simp split: option.split)
  moreover have "trNextWait tr \<notin> set (map wNumber (trWaiters tr) @ map (wNumber \<circ> fst) (trSettled tr))"
    using inv by (simp add: tracker_inv_def)
  ultimately show ?thesis
    using inv unfolding tracker_inv_def waitForDiagnostics_def Let_def
    by (simp add: waiter_ok_def lessThan_Suc)
qed

lemma reject_all_inv:
  assumes "tracker_inv tr" "distinct (map wNumber ws)" "set ws \<subseteq> set (trWaiters tr)"
  shows "tracker_inv (fold (\<lambda>w. settleWait w (WaitRejected m)) ws tr) \<and>
    trWaiters (fold (\<lambda>w. settleWait w (WaitRejected m)) ws tr) = filter (\<lambda>x. wNumber x \<notin> wNumber ` set ws) (trWaiters tr)"
  using assms
proof (induction ws arbitrary: tr)
  case (Cons w ws)
  let ?tr = "settleWait w (WaitRejected m) tr"
  have "tracker_inv ?tr" using Cons.prems by (intro settleWait_inv) (auto simp: fresh_result_def)
  moreover have "set ws \<subseteq> set (trWaiters ?tr)"
  proof
    fix x assume x: "x \<in> set ws"
    then have "wNumber x \<noteq> wNumber w" using Cons.prems(2) by (metis distinct.simps(2) image_eqI list.simps(9) set_map)
    with x Cons.prems(3) show "x \<in> set (trWaiters ?tr)" by (auto simp: settleWait_def)
  qed
  ultimately show ?case using Cons.IH [of ?tr] Cons.prems(2) by (auto simp: settleWait_def intro: filter_cong)
qed simp

lemma fresh_latest:
  assumes "tracker_inv tr" "trPublications tr (wUri w) = Some p" "waitAfter w < pubVersion p"
  shows "fresh_result (trPublished tr) w (WaitResolved (pubDiagnostics p))"
proof -
  have "(wUri w, p) \<in> set (trPublished tr)" using assms(1,2) by (simp add: tracker_inv_def)
  with assms(3) show ?thesis by (auto simp: fresh_result_def)
qed

lemma tracker_step_inv: "tracker_step tr tr' \<Longrightarrow> tracker_inv tr \<Longrightarrow> tracker_inv tr'"
proof (induction rule: tracker_step.induct)
  case (tracker_settles w tr)
  then obtain p where "trPublications tr (wUri w) = Some p" "pubVersion p > waitAfter w"
    by (auto simp: tracker_inv_def waiter_ok_def)
  then show ?case unfolding settleTimerFires_def using tracker_settles
    by (intro settleWait_inv) (simp_all add: fresh_latest)
next
  case (tracker_grace w tr)
  then have "woHasGrace (wOptions w)" by (auto simp: tracker_inv_def waiter_ok_def)
  then have "fresh_result (trPublished tr) w (WaitResolved (nullish (woFallback (wOptions w)) []))"
    by (cases "woFallback (wOptions w)") (simp_all add: fresh_result_def)
  then show ?case unfolding graceTimerFires_def using tracker_grace
    by (intro settleWait_inv) (simp_all add: fresh_latest split: option.split)
next
  case (tracker_timeout w tr)
  have "fresh_result (trPublished tr) w
      (case woFallback (wOptions w) of Some ds \<Rightarrow> WaitResolved ds | None \<Rightarrow> WaitRejected m)" for m
    by (simp add: fresh_result_def split: option.split)
  then show ?case unfolding overallTimerFires_def Let_def using tracker_timeout
    by (intro settleWait_inv) (simp_all add: fresh_latest split: option.split)
next
  case (tracker_rejects tr message)
  let ?tr = "fold (\<lambda>w. settleWait w (WaitRejected message)) (trWaiters tr) tr"
  have "distinct (map wNumber (trWaiters tr))" using tracker_rejects by (simp add: tracker_inv_def)
  then have "tracker_inv ?tr" "trWaiters ?tr = []"
    using reject_all_inv [OF tracker_rejects, of "trWaiters tr" message] by (auto simp: filter_empty_conv)
  then show ?case by (simp add: rejectAll_def tracker_inv_def)
qed (auto intro: publish_inv wait_inv)

interpretation tracker: state_machine "\<lambda>tr. tr = newTracker" tracker_step tracker_inv
proof unfold_locales
  fix tr :: "'a Tracker" assume "tr = newTracker"
  then show "tracker_inv tr" by (simp add: tracker_inv_def newTracker_def)
qed (rule tracker_step_inv)

section \<open>Properties\<close>

text \<open>C19: Every wait for diagnostics is either still waiting or settled, never both and at most once; a result that was
  delivered is a publication for that document newer than the wait asked for, or the fallback of the wait, or
  empty for a silent server with a grace period. A closed tracker keeps nobody waiting, and a wait with a
  fallback is not settled by a provisional empty publication.\<close>

theorem diagnostics_waits_settle_once_and_fresh:
  assumes "tracker_step\<^sup>*\<^sup>* newTracker tr"
  shows "distinct (map wNumber (trWaiters tr) @ map (wNumber \<circ> fst) (trSettled tr)) \<and>
    set (map wNumber (trWaiters tr) @ map (wNumber \<circ> fst) (trSettled tr)) = {..<trNextWait tr} \<and>
    (\<forall>w ds. (w, WaitResolved ds) \<in> set (trSettled tr) \<longrightarrow>
       (\<exists>p. (wUri w, p) \<in> set (trPublished tr) \<and> pubVersion p > waitAfter w \<and> pubDiagnostics p = ds) \<or>
       woFallback (wOptions w) = Some ds \<or> woFallback (wOptions w) = None \<and> woHasGrace (wOptions w) \<and> ds = []) \<and>
    (\<forall>w \<in> set (trWaiters tr). wSettleTimer w \<and> woFallback (wOptions w) \<noteq> None \<longrightarrow> wSawNonEmpty w) \<and>
    trWaiters (rejectAll message tr) = []"
proof -
  have inv: "tracker_inv tr" using tracker.reachable_inv [OF refl assms] .
  then have "(w, WaitResolved ds) \<in> set (trSettled tr) \<Longrightarrow> fresh_result (trPublished tr) w (WaitResolved ds)" for w ds
    by (auto simp: tracker_inv_def)
  with inv show ?thesis by (auto simp: tracker_inv_def waiter_ok_def fresh_result_def rejectAll_def)
qed

definition demoWait :: "nat WaitOptions" where
  "demoWait = \<lparr>woAfterVersion = None, woHasGrace = False, woFallback = None, woServerName = ''ts''\<rparr>"

definition demoWaiter :: "nat Waiter" where
  "demoWaiter = \<lparr>wNumber = 0, wUri = ''a'', wOptions = demoWait, wSawNonEmpty = True, wSettleTimer = True, wGraceTimer = False\<rparr>"

definition demoTracker :: "nat Tracker" where
  "demoTracker = registerPublication ''a'' [7] (fst (waitForDiagnostics ''a'' demoWait newTracker))"

lemma demoTracker_waiters: "trWaiters demoTracker = [demoWaiter]"
  by (simp add: demoTracker_def registerPublication_def waitForDiagnostics_def newTracker_def onPublish_def waitAfter_def
      demoWait_def demoWaiter_def versionOf_def Let_def)

lemma demoTracker_reachable: "tracker_step\<^sup>*\<^sup>* newTracker (settleTimerFires demoWaiter demoTracker)"
proof -
  have "tracker_step newTracker (fst (waitForDiagnostics ''a'' demoWait newTracker))" by (rule tracker_waits)
  moreover have "tracker_step (fst (waitForDiagnostics ''a'' demoWait newTracker)) demoTracker"
    unfolding demoTracker_def by (rule tracker_publishes)
  moreover have "tracker_step demoTracker (settleTimerFires demoWaiter demoTracker)"
    by (rule tracker_settles) (simp_all add: demoTracker_waiters, simp add: demoWaiter_def)
  ultimately show ?thesis by (meson converse_rtranclp_into_rtranclp rtranclp.rtrancl_refl)
qed

theorem diagnostics_waits_settle_once_and_fresh_witness:
  "trSettled (settleTimerFires demoWaiter demoTracker) = [(demoWaiter, WaitResolved [7])] \<and>
   (\<exists>p. (''a'', p) \<in> set (trPublished (settleTimerFires demoWaiter demoTracker)) \<and> pubVersion p > 0 \<and> pubDiagnostics p = [7])"
proof -
  have s: "trSettled (settleTimerFires demoWaiter demoTracker) = [(demoWaiter, WaitResolved [7])]"
    by (simp add: settleTimerFires_def settleWait_def demoTracker_def registerPublication_def waitForDiagnostics_def
        newTracker_def demoWaiter_def Let_def)
  with diagnostics_waits_settle_once_and_fresh [OF demoTracker_reachable] show ?thesis
    by (auto simp: demoWaiter_def demoWait_def waitAfter_def)
qed

end
