(* ===== verification/Terminal_Queue.thy ===== *)
theory Terminal_Queue
  imports Yishan_Prelude "HOL-Library.Word"
begin

text \<open>
  The write queue in front of a terminal
  (\<open>src/apps/desktop/src/renderer/domains/terminal/runtime/terminalWriteQueue.ts\<close>): output chunks are
  batched per animation frame, or by a timer while the terminal is hidden, and only one write is
  in flight at a time.

  The local variables of \<open>createTerminalWriteQueue\<close> are the fields of the state; the identifiers of the
  scheduled frame and timer are only compared with \<open>null\<close>, so they are flags. The callbacks of the
  frame, the timer and of \<open>terminal.write\<close> are operations of their own. The clock is an argument.
  \<open>twWritten\<close>, \<open>twEnqueued\<close> and \<open>twDropped\<close> are histories: the calls of \<open>terminal.write\<close>, the chunks given
  to \<open>enqueue\<close> before disposal, and the chunks the queue threw away.
\<close>

section \<open>State\<close>

datatype TerminalWriteChunk = TextChunk string | BytesChunk "8 word list"

record TerminalWriteQueue =
  twChunks :: "TerminalWriteChunk list"
  twPendingBytes :: int
  twDisposed :: bool
  twFrame :: bool
  twTimer :: bool
  twWriteInFlight :: bool
  twDetached :: bool
  twLastWriteCompletedAt :: int
  twWritten :: "TerminalWriteChunk list"
  twEnqueued :: "TerminalWriteChunk list"
  twDropped :: "TerminalWriteChunk list"

definition MAX_TERMINAL_LIVE_WRITE_QUEUE_BYTES :: int where
  "MAX_TERMINAL_LIVE_WRITE_QUEUE_BYTES = 1024 * 1024"

definition MAX_IMMEDIATE_TERMINAL_CHUNK_BYTES :: int where
  "MAX_IMMEDIATE_TERMINAL_CHUNK_BYTES = 256"

definition MAX_ATTACHED_BATCH_BYTES :: int where
  "MAX_ATTACHED_BATCH_BYTES = 32 * 1024"

definition INTERACTIVE_BURST_WINDOW_MS :: int where
  "INTERACTIVE_BURST_WINDOW_MS = 24"

definition createTerminalWriteQueue :: TerminalWriteQueue where
  "createTerminalWriteQueue =
     \<lparr>twChunks = [], twPendingBytes = 0, twDisposed = False, twFrame = False, twTimer = False,
      twWriteInFlight = False, twDetached = False, twLastWriteCompletedAt = 0,
      twWritten = [], twEnqueued = [], twDropped = []\<rparr>"

section \<open>Chunks\<close>

fun getTerminalWriteChunkLength :: "TerminalWriteChunk \<Rightarrow> int" where
  "getTerminalWriteChunkLength (TextChunk s) = int (length s)"
| "getTerminalWriteChunkLength (BytesChunk bs) = int (length bs)"

definition isInteractiveTerminalChunk :: "TerminalWriteChunk \<Rightarrow> bool" where
  "isInteractiveTerminalChunk chunk \<longleftrightarrow> getTerminalWriteChunkLength chunk \<le> MAX_IMMEDIATE_TERMINAL_CHUNK_BYTES"

definition isBurstingOutput :: "int \<Rightarrow> int \<Rightarrow> bool" where
  "isBurstingOutput now lastWriteCompletedAt =
     (if lastWriteCompletedAt \<le> 0 then False
      else now - lastWriteCompletedAt \<le> INTERACTIVE_BURST_WINDOW_MS)"

text \<open>A limit of \<^term>\<open>None\<close> is positive infinity.\<close>

definition fitsBatch :: "int option \<Rightarrow> int \<Rightarrow> bool" where
  "fitsBatch maxBatchBytes n \<longleftrightarrow> (case maxBatchBytes of None \<Rightarrow> True | Some m \<Rightarrow> n \<le> m)"

fun takeText :: "int option \<Rightarrow> string \<Rightarrow> int \<Rightarrow> TerminalWriteChunk list \<Rightarrow> string \<times> TerminalWriteChunk list" where
  "takeText maxBatchBytes output byteLength (TextChunk next # chunks) =
     (if fitsBatch maxBatchBytes (byteLength + int (length next))
      then takeText maxBatchBytes (output @ next) (byteLength + int (length next)) chunks
      else (output, TextChunk next # chunks))"
| "takeText maxBatchBytes output byteLength chunks = (output, chunks)"

fun takeBytes ::
  "int option \<Rightarrow> 8 word list list \<Rightarrow> int \<Rightarrow> TerminalWriteChunk list \<Rightarrow> 8 word list list \<times> TerminalWriteChunk list" where
  "takeBytes maxBatchBytes byteChunks byteLength (BytesChunk next # chunks) =
     (if fitsBatch maxBatchBytes (byteLength + int (length next))
      then takeBytes maxBatchBytes (byteChunks @ [next]) (byteLength + int (length next)) chunks
      else (byteChunks, BytesChunk next # chunks))"
| "takeBytes maxBatchBytes byteChunks byteLength chunks = (byteChunks, chunks)"

text \<open>The batch and the chunks that are left. An empty text at the head is falsy and is returned alone;
  copying the byte chunks one after the other into one array is their concatenation.\<close>

fun takeTerminalWriteBatch ::
  "int option \<Rightarrow> TerminalWriteChunk list \<Rightarrow> TerminalWriteChunk \<times> TerminalWriteChunk list" where
  "takeTerminalWriteBatch maxBatchBytes [] = (TextChunk [], [])"
| "takeTerminalWriteBatch maxBatchBytes (TextChunk first # chunks) =
     (if first = [] then (TextChunk [], chunks)
      else let (output, rest) = takeText maxBatchBytes first (int (length first)) chunks
           in (TextChunk output, rest))"
| "takeTerminalWriteBatch maxBatchBytes (BytesChunk first # chunks) =
     (let (byteChunks, rest) = takeBytes maxBatchBytes [first] (int (length first)) chunks
      in (BytesChunk (concat byteChunks), rest))"

section \<open>Operations\<close>

definition cancelScheduledFlush :: "TerminalWriteQueue \<Rightarrow> TerminalWriteQueue" where
  "cancelScheduledFlush q = q\<lparr>twFrame := False, twTimer := False\<rparr>"

definition scheduleFlush :: "TerminalWriteQueue \<Rightarrow> TerminalWriteQueue" where
  "scheduleFlush q =
     (if twDisposed q \<or> twWriteInFlight q \<or> twChunks q = [] then q
      else if twDetached q then (if twTimer q then q else q\<lparr>twTimer := True\<rparr>)
      else if twFrame q then q
      else q\<lparr>twFrame := True\<rparr>)"

definition writeChunk :: "TerminalWriteChunk \<Rightarrow> TerminalWriteQueue \<Rightarrow> TerminalWriteQueue" where
  "writeChunk chunk q = q\<lparr>twWriteInFlight := True, twWritten := twWritten q @ [chunk]\<rparr>"

definition flushNextBatch :: "TerminalWriteQueue \<Rightarrow> TerminalWriteQueue" where
  "flushNextBatch q =
     (if twDisposed q \<or> twWriteInFlight q \<or> twChunks q = [] then q
      else
        let (batch, rest) =
              takeTerminalWriteBatch (if twDetached q then None else Some MAX_ATTACHED_BATCH_BYTES) (twChunks q)
        in writeChunk batch
             (q\<lparr>twChunks := rest, twPendingBytes := max 0 (twPendingBytes q - getTerminalWriteChunkLength batch)\<rparr>))"

definition flushAllRemaining :: "TerminalWriteQueue \<Rightarrow> TerminalWriteQueue" where
  "flushAllRemaining q =
     (if twDisposed q \<or> twChunks q = [] then q
      else
        let q1 = cancelScheduledFlush q in
        if \<not> twWriteInFlight q1 then flushNextBatch q1 else q1)"

text \<open>The loop that keeps the queue below its limit: an empty text at the head is removed and ends the loop.\<close>

fun dropExcess :: "TerminalWriteChunk list \<Rightarrow> int \<Rightarrow> TerminalWriteChunk list \<Rightarrow>
  TerminalWriteChunk list \<times> int \<times> TerminalWriteChunk list" where
  "dropExcess [] pendingBytes dropped = ([], pendingBytes, dropped)"
| "dropExcess (c # chunks) pendingBytes dropped =
     (if MAX_TERMINAL_LIVE_WRITE_QUEUE_BYTES < pendingBytes \<and> chunks \<noteq> [] then
        (if c = TextChunk [] then (chunks, pendingBytes, dropped @ [c])
         else dropExcess chunks (max 0 (pendingBytes - getTerminalWriteChunkLength c)) (dropped @ [c]))
      else (c # chunks, pendingBytes, dropped))"

definition tw_enqueue :: "int \<Rightarrow> TerminalWriteChunk \<Rightarrow> TerminalWriteQueue \<Rightarrow> TerminalWriteQueue" where
  "tw_enqueue now chunk q0 =
     (if twDisposed q0 then q0
      else
        let q = q0\<lparr>twEnqueued := twEnqueued q0 @ [chunk]\<rparr> in
        if \<not> twDetached q \<and> \<not> twWriteInFlight q \<and> twChunks q = [] \<and>
           isInteractiveTerminalChunk chunk \<and> \<not> isBurstingOutput now (twLastWriteCompletedAt q)
        then writeChunk chunk q
        else
          let shouldScheduleFlush = (twChunks q = []);
              (chunks, pendingBytes, dropped) =
                dropExcess (twChunks q @ [chunk]) (twPendingBytes q + getTerminalWriteChunkLength chunk) (twDropped q);
              q1 = q\<lparr>twChunks := chunks, twPendingBytes := pendingBytes, twDropped := dropped\<rparr>
          in if shouldScheduleFlush then scheduleFlush q1 else q1)"

definition tw_setDetached :: "bool \<Rightarrow> TerminalWriteQueue \<Rightarrow> TerminalWriteQueue" where
  "tw_setDetached value q =
     (if twDisposed q \<or> twDetached q = value then q
      else
        let q1 = q\<lparr>twDetached := value\<rparr> in
        if \<not> value then flushAllRemaining q1 else q1)"

definition tw_dispose :: "TerminalWriteQueue \<Rightarrow> TerminalWriteQueue" where
  "tw_dispose q = (cancelScheduledFlush (q\<lparr>twDisposed := True\<rparr>))\<lparr>twChunks := [], twPendingBytes := 0\<rparr>"

text \<open>The three callbacks.\<close>

definition tw_frame :: "TerminalWriteQueue \<Rightarrow> TerminalWriteQueue" where
  "tw_frame q = flushNextBatch (q\<lparr>twFrame := False\<rparr>)"

definition tw_timer :: "TerminalWriteQueue \<Rightarrow> TerminalWriteQueue" where
  "tw_timer q = flushNextBatch (q\<lparr>twTimer := False\<rparr>)"

definition tw_written :: "int \<Rightarrow> TerminalWriteQueue \<Rightarrow> TerminalWriteQueue" where
  "tw_written now q = flushNextBatch (q\<lparr>twWriteInFlight := False, twLastWriteCompletedAt := now\<rparr>)"

inductive tw_callback :: "TerminalWriteQueue \<Rightarrow> TerminalWriteQueue \<Rightarrow> bool" where
  frame_fires: "twFrame q \<Longrightarrow> tw_callback q (tw_frame q)"
| timer_fires: "twTimer q \<Longrightarrow> tw_callback q (tw_timer q)"
| write_completes: "twWriteInFlight q \<Longrightarrow> tw_callback q (tw_written now q)"

inductive tw_step :: "TerminalWriteQueue \<Rightarrow> TerminalWriteQueue \<Rightarrow> bool" where
  tw_enqueues: "tw_step q (tw_enqueue now chunk q)"
| tw_detaches: "tw_step q (tw_setDetached value q)"
| tw_disposes: "tw_step q (tw_dispose q)"
| tw_calls_back: "tw_callback q q' \<Longrightarrow> tw_step q q'"

end
