(* ===== verification/Terminal_Queue_Properties.thy ===== *)
theory Terminal_Queue_Properties
  imports Terminal_Queue
begin

text \<open>
  The queue writes the terminal output in order, accounts for every byte, stays below its limit and
  never stalls: while output is waiting, a write is in flight or a flush is scheduled.
\<close>

section \<open>Data of chunks\<close>

fun chunkData :: "TerminalWriteChunk \<Rightarrow> (char + 8 word) list" where
  "chunkData (TextChunk s) = map Inl s"
| "chunkData (BytesChunk bs) = map Inr bs"

definition streamData :: "TerminalWriteChunk list \<Rightarrow> (char + 8 word) list" where
  "streamData cs = concat (map chunkData cs)"

definition streamBytes :: "TerminalWriteChunk list \<Rightarrow> int" where
  "streamBytes cs = sum_list (map getTerminalWriteChunkLength cs)"

lemma stream_simps [simp]:
  "streamData [] = []" "streamData (c # cs) = chunkData c @ streamData cs" "streamData (cs @ ds) = streamData cs @ streamData ds"
  "streamBytes [] = 0" "streamBytes (c # cs) = getTerminalWriteChunkLength c + streamBytes cs"
  "streamBytes (cs @ ds) = streamBytes cs + streamBytes ds"
  by (simp_all add: streamData_def streamBytes_def)

lemma chunkLength_data: "getTerminalWriteChunkLength c = int (length (chunkData c))"
  by (cases c) simp_all

lemma chunkLength_nonneg [simp]: "0 \<le> getTerminalWriteChunkLength c"
  by (simp add: chunkLength_data)

lemma streamBytes_nonneg [simp]: "0 \<le> streamBytes cs"
  by (induction cs) simp_all

section \<open>Batches\<close>

lemma takeText_correct:
  "takeText m out n cs = (out', rest) \<Longrightarrow>
   map Inl out' @ streamData rest = map Inl out @ streamData cs \<and>
   int (length out') + streamBytes rest = int (length out) + streamBytes cs \<and> (\<exists>ks. cs = ks @ rest) \<and>
   (n = int (length out) \<longrightarrow> (case m of None \<Rightarrow> True | Some k \<Rightarrow> int (length out') \<le> max k (int (length out))))"
  by (induction m out n cs rule: takeText.induct)
    (fastforce simp: fitsBatch_def split: if_splits option.splits)+

lemma takeBytes_correct:
  "takeBytes m bss n cs = (bss', rest) \<Longrightarrow>
   map Inr (concat bss') @ streamData rest = map Inr (concat bss) @ streamData cs \<and>
   int (length (concat bss')) + streamBytes rest = int (length (concat bss)) + streamBytes cs \<and> (\<exists>ks. cs = ks @ rest) \<and>
   (n = int (length (concat bss)) \<longrightarrow> (case m of None \<Rightarrow> True | Some k \<Rightarrow> int (length (concat bss')) \<le> max k (int (length (concat bss)))))"
  by (induction m bss n cs rule: takeBytes.induct)
    (fastforce simp: fitsBatch_def split: if_splits option.splits)+

lemma takeBatch_correct:
  assumes "takeTerminalWriteBatch m (c # cs) = (batch, rest)"
  shows "chunkData batch @ streamData rest = streamData (c # cs) \<and>
    getTerminalWriteChunkLength batch + streamBytes rest = streamBytes (c # cs) \<and> (\<exists>ks. cs = ks @ rest) \<and>
    (case m of None \<Rightarrow> True | Some k \<Rightarrow> getTerminalWriteChunkLength batch \<le> max k (getTerminalWriteChunkLength c))"
proof (cases c)
  case (TextChunk s)
  show ?thesis
  proof (cases "s = []")
    case True
    with assms TextChunk show ?thesis by (auto split: option.split)
  next
    case False
    obtain out rest' where t: "takeText m s (int (length s)) cs = (out, rest')" by fastforce
    with assms TextChunk False have "batch = TextChunk out" "rest = rest'" by simp_all
    with takeText_correct [OF t] TextChunk show ?thesis by (cases m) simp_all
  qed
next
  case (BytesChunk bs)
  obtain bss rest' where t: "takeBytes m [bs] (int (length bs)) cs = (bss, rest')" by fastforce
  with assms BytesChunk have "batch = BytesChunk (concat bss)" "rest = rest'" by simp_all
  with takeBytes_correct [OF t] BytesChunk show ?thesis by (cases m) simp_all
qed

lemma dropExcess_correct:
  "dropExcess cs p ds = (cs', p', ds') \<Longrightarrow> p = streamBytes cs \<Longrightarrow>
   (\<exists>ks. cs = ks @ cs' \<and> ds' = ds @ ks) \<and> p' = streamBytes cs' \<and> (cs \<noteq> [] \<longrightarrow> cs' \<noteq> []) \<and>
   (TextChunk [] \<notin> set cs \<longrightarrow> p' \<le> MAX_TERMINAL_LIVE_WRITE_QUEUE_BYTES \<or> length cs' = 1)"
proof (induction cs arbitrary: p ds)
  case (Cons c cs)
  show ?case
  proof (cases "MAX_TERMINAL_LIVE_WRITE_QUEUE_BYTES < p \<and> cs \<noteq> []")
    case True
    show ?thesis
    proof (cases "c = TextChunk []")
      case empty: True
      with True Cons.prems show ?thesis by auto
    next
      case False
      have "max 0 (p - getTerminalWriteChunkLength c) = streamBytes cs" using Cons.prems(2) by simp
      with Cons.IH [of "max 0 (p - getTerminalWriteChunkLength c)" "ds @ [c]"] True False Cons.prems(1)
      show ?thesis by auto
    qed
  next
    case False
    with Cons.prems show ?thesis by auto
  qed
qed (simp add: MAX_TERMINAL_LIVE_WRITE_QUEUE_BYTES_def)

section \<open>The invariant\<close>

definition tw_inv :: "TerminalWriteQueue \<Rightarrow> bool" where
  "tw_inv q \<longleftrightarrow>
     twPendingBytes q = streamBytes (twChunks q) \<and>
     (\<not> twDisposed q \<and> twChunks q \<noteq> [] \<longrightarrow> twWriteInFlight q \<or> twFrame q \<or> twTimer q) \<and>
     (twDisposed q \<longrightarrow> twChunks q = []) \<and>
     subseq (streamData (twWritten q) @ streamData (twChunks q)) (streamData (twEnqueued q)) \<and>
     (\<not> twDisposed q \<and> twDropped q = [] \<longrightarrow>
        streamData (twWritten q) @ streamData (twChunks q) = streamData (twEnqueued q)) \<and>
     (\<not> twDisposed q \<longrightarrow> set (twChunks q) \<subseteq> set (twEnqueued q)) \<and>
     (TextChunk [] \<notin> set (twEnqueued q) \<longrightarrow>
        twPendingBytes q \<le> MAX_TERMINAL_LIVE_WRITE_QUEUE_BYTES \<or> length (twChunks q) = 1)"

lemma tw_invD:
  assumes "tw_inv q"
  shows "twPendingBytes q = streamBytes (twChunks q)"
    "\<not> twDisposed q \<Longrightarrow> twChunks q \<noteq> [] \<Longrightarrow> twWriteInFlight q \<or> twFrame q \<or> twTimer q"
    "twDisposed q \<Longrightarrow> twChunks q = []"
    "subseq (streamData (twWritten q) @ streamData (twChunks q)) (streamData (twEnqueued q))"
    "\<not> twDisposed q \<Longrightarrow> twDropped q = [] \<Longrightarrow> streamData (twWritten q) @ streamData (twChunks q) = streamData (twEnqueued q)"
    "\<not> twDisposed q \<Longrightarrow> set (twChunks q) \<subseteq> set (twEnqueued q)"
    "TextChunk [] \<notin> set (twEnqueued q) \<Longrightarrow>
       twPendingBytes q \<le> MAX_TERMINAL_LIVE_WRITE_QUEUE_BYTES \<or> length (twChunks q) = 1"
  using assms unfolding tw_inv_def by blast+

text \<open>Everything but the promise that a flush is on its way.\<close>

definition tw_core :: "TerminalWriteQueue \<Rightarrow> bool" where
  "tw_core q \<longleftrightarrow> tw_inv (q\<lparr>twFrame := True\<rparr>)"

lemma tw_core_frame [simp]:
  "tw_core (q\<lparr>twFrame := f\<rparr>) = tw_core q" "tw_core (q\<lparr>twTimer := f\<rparr>) = tw_core q"
  "tw_core (q\<lparr>twWriteInFlight := f\<rparr>) = tw_core q" "tw_core (q\<lparr>twDetached := f\<rparr>) = tw_core q"
  "tw_core (q\<lparr>twLastWriteCompletedAt := t\<rparr>) = tw_core q"
  by (simp_all add: tw_core_def tw_inv_def)

lemma tw_inv_core: "tw_inv q \<longleftrightarrow> tw_core q \<and> (\<not> twDisposed q \<and> twChunks q \<noteq> [] \<longrightarrow> twWriteInFlight q \<or> twFrame q \<or> twTimer q)"
  by (auto simp: tw_core_def tw_inv_def)

lemma MAX_pos [simp]: "0 \<le> MAX_TERMINAL_LIVE_WRITE_QUEUE_BYTES"
  by (simp add: MAX_TERMINAL_LIVE_WRITE_QUEUE_BYTES_def)

text \<open>A flush either finds nothing to do or puts a write in flight and shortens the queue.\<close>

lemma flushNextBatch_core:
  assumes core: "tw_core q" and todo: "\<not> twDisposed q" "\<not> twWriteInFlight q" "twChunks q \<noteq> []"
  shows "tw_core (flushNextBatch q) \<and> twWriteInFlight (flushNextBatch q) \<and>
    length (twChunks (flushNextBatch q)) < length (twChunks q) \<and> \<not> twDisposed (flushNextBatch q) \<and>
    streamData (twWritten (flushNextBatch q)) @ streamData (twChunks (flushNextBatch q)) =
      streamData (twWritten q) @ streamData (twChunks q)"
proof -
  obtain c cs where cs: "twChunks q = c # cs" using todo(3) by (cases "twChunks q") auto
  let ?m = "if twDetached q then None else Some MAX_ATTACHED_BATCH_BYTES"
  obtain b rest where t: "takeTerminalWriteBatch ?m (c # cs) = (b, rest)" by fastforce
  obtain ks where ks: "cs = ks @ rest" using takeBatch_correct [OF t] by blast
  note inv = tw_invD [OF core [unfolded tw_core_def], simplified]
  have bytes: "max 0 (twPendingBytes q - getTerminalWriteChunkLength b) = streamBytes rest"
    using takeBatch_correct [OF t] inv(1) cs streamBytes_nonneg [of rest] by (auto simp: max_def)
  have fl: "flushNextBatch q = q\<lparr>twChunks := rest, twPendingBytes := streamBytes rest, twWriteInFlight := True,
      twWritten := twWritten q @ [b]\<rparr>"
    using todo t cs by (simp add: flushNextBatch_def writeChunk_def bytes)
  have data: "streamData (twWritten q @ [b]) @ streamData rest = streamData (twWritten q) @ streamData (twChunks q)"
    using takeBatch_correct [OF t] cs by simp
  have le: "streamBytes rest \<le> streamBytes (twChunks q)"
    unfolding cs ks stream_simps using chunkLength_nonneg [of c] streamBytes_nonneg [of ks] by linarith
  have "streamBytes rest \<le> MAX_TERMINAL_LIVE_WRITE_QUEUE_BYTES" if "TextChunk [] \<notin> set (twEnqueued q)"
  proof (cases "length (twChunks q) = 1")
    case True
    then show ?thesis using cs ks by simp
  next
    case False
    then show ?thesis using inv(7) [OF that] inv(1) le by simp
  qed
  with inv(4,5,6) data cs ks todo have "tw_core (flushNextBatch q)"
    unfolding fl tw_core_def tw_inv_def by auto
  with data ks cs todo show ?thesis by (simp add: fl)
qed

lemma flushNextBatch_inv: "tw_core q \<Longrightarrow> tw_inv (flushNextBatch q)"
proof (cases "twDisposed q \<or> twWriteInFlight q \<or> twChunks q = []")
  case True
  then have "flushNextBatch q = q" by (simp add: flushNextBatch_def)
  then show "tw_core q \<Longrightarrow> ?thesis" using True by (auto simp: tw_inv_core)
next
  case False
  then show "tw_core q \<Longrightarrow> ?thesis" using flushNextBatch_core [of q] by (simp add: tw_inv_core)
qed

lemma tw_inv_tw_core: "tw_inv q \<Longrightarrow> tw_core q"
  by (simp add: tw_inv_core)

lemma tw_callback_inv: "tw_callback q q' \<Longrightarrow> tw_inv q \<Longrightarrow> tw_inv q'"
  by (induction rule: tw_callback.induct)
    (auto simp: tw_frame_def tw_timer_def tw_written_def dest!: tw_inv_tw_core intro!: flushNextBatch_inv)

lemma scheduleFlush_inv: "tw_core q \<Longrightarrow> tw_inv (scheduleFlush q)"
  by (auto simp: tw_inv_core scheduleFlush_def)

lemma flushAllRemaining_inv: "tw_core q \<Longrightarrow> tw_inv (flushAllRemaining q)"
proof -
  assume core: "tw_core q"
  have "tw_inv (flushNextBatch (cancelScheduledFlush q))"
    using core by (intro flushNextBatch_inv) (simp add: cancelScheduledFlush_def)
  moreover have "tw_inv (cancelScheduledFlush q)" if "twWriteInFlight q"
    using core that by (simp add: cancelScheduledFlush_def tw_inv_core)
  ultimately show ?thesis
    using core by (auto simp: flushAllRemaining_def Let_def tw_inv_core cancelScheduledFlush_def)
qed

lemma tw_setDetached_inv: "tw_inv q \<Longrightarrow> tw_inv (tw_setDetached v q)"
  using flushAllRemaining_inv [of "q\<lparr>twDetached := v\<rparr>"]
  by (auto simp: tw_setDetached_def Let_def tw_inv_core)

lemma tw_dispose_inv: "tw_inv q \<Longrightarrow> tw_inv (tw_dispose q)"
  by (auto simp: tw_dispose_def cancelScheduledFlush_def tw_inv_def intro: subseq_order.trans)

lemma tw_enqueue_inv:
  assumes inv: "tw_inv q"
  shows "tw_inv (tw_enqueue now c q)"
proof (cases "twDisposed q")
  case True
  with inv show ?thesis by (simp add: tw_enqueue_def)
next
  case opn: False
  note i = tw_invD [OF inv]
  let ?q = "q\<lparr>twEnqueued := twEnqueued q @ [c]\<rparr>"
  show ?thesis
  proof (cases "\<not> twDetached q \<and> \<not> twWriteInFlight q \<and> twChunks q = [] \<and> isInteractiveTerminalChunk c \<and>
      \<not> isBurstingOutput now (twLastWriteCompletedAt q)")
    case True
    then have "tw_enqueue now c q = writeChunk c ?q" using opn by (simp add: tw_enqueue_def Let_def)
    moreover have "tw_inv (writeChunk c ?q)"
      using i(1,4,5) True opn by (auto simp: tw_inv_def writeChunk_def intro: list_emb_append_mono)
    ultimately show ?thesis by simp
  next
    case False
    obtain cs p ds where d: "dropExcess (twChunks q @ [c]) (twPendingBytes q + getTerminalWriteChunkLength c) (twDropped q) = (cs, p, ds)"
      by (metis prod_cases3)
    let ?q1 = "?q\<lparr>twChunks := cs, twPendingBytes := p, twDropped := ds\<rparr>"
    have eq: "tw_enqueue now c q = (if twChunks q = [] then scheduleFlush ?q1 else ?q1)"
      using False opn d by (auto simp: tw_enqueue_def Let_def simp del: dropExcess.simps)
    obtain ks where ks: "twChunks q @ [c] = ks @ cs" "ds = twDropped q @ ks" and p: "p = streamBytes cs"
      and bound: "TextChunk [] \<notin> set (twChunks q @ [c]) \<Longrightarrow> p \<le> MAX_TERMINAL_LIVE_WRITE_QUEUE_BYTES \<or> length cs = 1"
    proof -
      have "twPendingBytes q + getTerminalWriteChunkLength c = streamBytes (twChunks q @ [c])" using i(1) by simp
      from dropExcess_correct [OF d this] show thesis by (elim conjE exE, intro that) blast+
    qed
    have data: "streamData (twChunks q) @ chunkData c = streamData ks @ streamData cs"
      using arg_cong [OF ks(1), of streamData] by simp
    have "subseq (streamData (twWritten q) @ streamData cs) (streamData (twWritten q) @ streamData ks @ streamData cs)"
      by (intro list_emb_append_mono subseq_order.refl list_emb_append2)
    also have "streamData (twWritten q) @ streamData ks @ streamData cs =
        (streamData (twWritten q) @ streamData (twChunks q)) @ chunkData c" using data by simp
    also have "subseq \<dots> (streamData (twEnqueued q) @ chunkData c)"
      by (intro list_emb_append_mono i(4) subseq_order.refl)
    finally have sub: "subseq (streamData (twWritten q) @ streamData cs) (streamData (twEnqueued q) @ chunkData c)" .
    have full: "streamData (twWritten q) @ streamData cs = streamData (twEnqueued q) @ chunkData c" if "ds = []"
    proof -
      have "streamData (twWritten q) @ streamData cs = streamData (twWritten q) @ streamData (twChunks q) @ chunkData c"
        using data that ks(2) by simp
      then show ?thesis using i(5) [OF opn] that ks(2) by (simp flip: append_assoc)
    qed
    have "set cs \<subseteq> set (twChunks q @ [c])" unfolding ks(1) by simp
    then have "tw_core ?q1"
      using sub p bound i(6) full opn unfolding tw_core_def tw_inv_def by auto
    moreover have "tw_inv ?q1" if "twChunks q \<noteq> []"
      using \<open>tw_core ?q1\<close> i(2) [OF opn that] by (simp add: tw_inv_core)
    ultimately show ?thesis unfolding eq using scheduleFlush_inv [of ?q1] by simp
  qed
qed

lemma tw_step_inv: "tw_step q q' \<Longrightarrow> tw_inv q \<Longrightarrow> tw_inv q'"
  by (induction rule: tw_step.induct) (auto intro: tw_enqueue_inv tw_setDetached_inv tw_dispose_inv tw_callback_inv)

interpretation terminal_queue: state_machine "\<lambda>q. q = createTerminalWriteQueue" tw_step tw_inv
proof unfold_locales
  show "tw_inv q" if "q = createTerminalWriteQueue" for q
    using that by (simp add: tw_inv_def createTerminalWriteQueue_def)
qed (rule tw_step_inv)

section \<open>Draining\<close>

text \<open>While output is waiting, some callback is due, and it shortens the queue.\<close>

lemma callback_progress:
  assumes inv: "tw_inv q" and opn: "\<not> twDisposed q" "twChunks q \<noteq> []"
  shows "\<exists>q'. tw_callback q q' \<and> \<not> twDisposed q' \<and> length (twChunks q') < length (twChunks q) \<and>
    streamData (twWritten q') @ streamData (twChunks q') = streamData (twWritten q) @ streamData (twChunks q)"
proof -
  have core: "tw_core q" using inv by (rule tw_inv_tw_core)
  consider "twWriteInFlight q" | "\<not> twWriteInFlight q" "twFrame q" | "\<not> twWriteInFlight q" "twTimer q"
    using tw_invD(2) [OF inv opn] by blast
  then show ?thesis
  proof cases
    case 1
    with flushNextBatch_core [of "q\<lparr>twWriteInFlight := False, twLastWriteCompletedAt := 0\<rparr>"] core opn
    show ?thesis by (intro exI [of _ "tw_written 0 q"]) (simp add: tw_written_def write_completes [unfolded tw_written_def])
  next
    case 2
    with flushNextBatch_core [of "q\<lparr>twFrame := False\<rparr>"] core opn
    show ?thesis by (intro exI [of _ "tw_frame q"]) (simp add: tw_frame_def frame_fires [unfolded tw_frame_def])
  next
    case 3
    with flushNextBatch_core [of "q\<lparr>twTimer := False\<rparr>"] core opn
    show ?thesis by (intro exI [of _ "tw_timer q"]) (simp add: tw_timer_def timer_fires [unfolded tw_timer_def])
  qed
qed

lemma callbacks_drain:
  "tw_inv q \<Longrightarrow> \<not> twDisposed q \<Longrightarrow>
   \<exists>q'. tw_callback\<^sup>*\<^sup>* q q' \<and> twChunks q' = [] \<and> streamData (twWritten q') = streamData (twWritten q) @ streamData (twChunks q)"
proof (induction "length (twChunks q)" arbitrary: q rule: less_induct)
  case less
  show ?case
  proof (cases "twChunks q = []")
    case False
    from callback_progress [OF less.prems(1,2) False] obtain q' where
      q': "tw_callback q q'" "\<not> twDisposed q'" "length (twChunks q') < length (twChunks q)"
        "streamData (twWritten q') @ streamData (twChunks q') = streamData (twWritten q) @ streamData (twChunks q)" by blast
    from less.hyps [OF q'(3) tw_callback_inv [OF q'(1) less.prems(1)] q'(2)] q' show ?thesis
      by (metis converse_rtranclp_into_rtranclp)
  qed auto
qed

section \<open>Properties\<close>

definition sampleQueue :: TerminalWriteQueue where
  "sampleQueue = tw_enqueue 1 (BytesChunk [7]) (tw_enqueue 0 (TextChunk ''ls'') createTerminalWriteQueue)"

lemma sampleQueue_reachable: "tw_step\<^sup>*\<^sup>* createTerminalWriteQueue sampleQueue"
  unfolding sampleQueue_def by (meson r_into_rtranclp rtranclp.rtrancl_into_rtrancl tw_enqueues)

lemma sampleQueue_eval:
  "twChunks sampleQueue = [BytesChunk [7]] \<and> twWritten sampleQueue = [TextChunk ''ls''] \<and> twDropped sampleQueue = [] \<and>
   \<not> twDisposed sampleQueue \<and> twEnqueued sampleQueue = [TextChunk ''ls'', BytesChunk [7]]"
  by (simp add: sampleQueue_def tw_enqueue_def createTerminalWriteQueue_def isInteractiveTerminalChunk_def isBurstingOutput_def
      MAX_IMMEDIATE_TERMINAL_CHUNK_BYTES_def MAX_TERMINAL_LIVE_WRITE_QUEUE_BYTES_def writeChunk_def scheduleFlush_def)

text \<open>C20: In every state of the queue, what was written to the terminal followed by what is waiting is, character
  by character and byte by byte, a subsequence of what was enqueued, in the same order; as long as
  nothing was thrown away it is everything that was enqueued. The byte counter is the size of what
  is waiting.\<close>

theorem terminal_output_in_order:
  assumes "tw_step\<^sup>*\<^sup>* createTerminalWriteQueue q"
  shows "subseq (streamData (twWritten q) @ streamData (twChunks q)) (streamData (twEnqueued q)) \<and>
    (\<not> twDisposed q \<and> twDropped q = [] \<longrightarrow>
       streamData (twWritten q) @ streamData (twChunks q) = streamData (twEnqueued q)) \<and>
    twPendingBytes q = streamBytes (twChunks q)"
  using tw_invD(1,4,5) [OF terminal_queue.reachable_inv [OF refl assms]] by blast

theorem terminal_output_in_order_witness:
  "streamData (twWritten sampleQueue) @ streamData (twChunks sampleQueue) = streamData (twEnqueued sampleQueue) \<and>
   twWritten sampleQueue = [TextChunk ''ls'']"
  using terminal_output_in_order [OF sampleQueue_reachable] sampleQueue_eval by simp

text \<open>Unless an empty text is enqueued, the queue holds at most one mebibyte, or a single chunk.\<close>

theorem terminal_queue_bounded:
  assumes "tw_step\<^sup>*\<^sup>* createTerminalWriteQueue q" "TextChunk [] \<notin> set (twEnqueued q)"
  shows "streamBytes (twChunks q) \<le> 1048576 \<or> length (twChunks q) = 1"
  using tw_invD(1,7) [OF terminal_queue.reachable_inv [OF refl assms(1)]] assms(2)
  by (simp add: MAX_TERMINAL_LIVE_WRITE_QUEUE_BYTES_def)

theorem terminal_queue_bounded_witness:
  "streamBytes (twChunks sampleQueue) \<le> 1048576 \<or> length (twChunks sampleQueue) = 1"
  using terminal_queue_bounded [OF sampleQueue_reachable] sampleQueue_eval by simp

text \<open>The queue never stalls: while output is waiting in an open queue, a write is in flight or a flush is
  scheduled, and letting these callbacks run writes everything that is waiting, in order, and leaves
  the queue empty.\<close>

theorem terminal_queue_never_stalls:
  assumes "tw_step\<^sup>*\<^sup>* createTerminalWriteQueue q" "\<not> twDisposed q"
  shows "(twChunks q \<noteq> [] \<longrightarrow> twWriteInFlight q \<or> twFrame q \<or> twTimer q) \<and>
    (\<exists>q'. tw_callback\<^sup>*\<^sup>* q q' \<and> twChunks q' = [] \<and>
       streamData (twWritten q') = streamData (twWritten q) @ streamData (twChunks q))"
proof -
  have inv: "tw_inv q" using terminal_queue.reachable_inv [OF refl assms(1)] .
  show ?thesis using tw_invD(2) [OF inv assms(2)] callbacks_drain [OF inv assms(2)] by blast
qed

theorem terminal_queue_never_stalls_witness:
  "\<exists>q'. tw_callback\<^sup>*\<^sup>* sampleQueue q' \<and> twChunks q' = []"
  using terminal_queue_never_stalls [OF sampleQueue_reachable] sampleQueue_eval by blast

end
