(* ===== verification/Chat_Messages.thy ===== *)
theory Chat_Messages
  imports Yishan_Prelude "HOL-Library.AList" "HOL-Library.Log_Nat"
begin

text \<open>
  Messages of an agent chat (\<open>domains/agent/chat/agentChatTypes.ts\<close>), the hidden messages that
  report the life of a sub-agent (\<open>agentChatSubagents.ts\<close>), and the byte accounting of
  \<open>agentChatBudget.ts\<close>.

  Values of type \<open>unknown\<close> are JSON values. A field that is absent is \<^term>\<open>None\<close>, and
  \<open>JUndefined\<close> where the source reads it as an unknown value. \<open>JSON.parse\<close> (with
  \<^term>\<open>None\<close> for the error it throws) and \<open>JSON.stringify\<close> are arguments of the definitions
  that call them. A record of the source that is summed or listed is an association list:
  \<open>{...r, [k]: v}\<close> is \<^const>\<open>AList.update\<close>.
\<close>

section \<open>Values and messages\<close>

datatype js_value =
    JUndefined
  | JNull
  | JBool bool
  | JNum js_number
  | JStr string
  | JArr "js_value list"
  | JObj "(string \<times> js_value) list"

text \<open>A property read \<open>o.k\<close> on a plain object.\<close>

definition js_get :: "(string \<times> js_value) list \<Rightarrow> string \<Rightarrow> js_value" where
  "js_get kvs k = (case map_of kvs k of None \<Rightarrow> JUndefined | Some v \<Rightarrow> v)"

datatype AgentThinkingSignature =
    NoSignature
  | SignatureText string
  | SignatureObject "string list option"

text \<open>Of an object signature only the texts of its optional summary are read.\<close>

datatype AgentContentBlock =
    TextBlock string
  | ThinkingBlock string AgentThinkingSignature
  | ToolCallBlock string string "(string \<times> js_value) list"

datatype MessageContent =
    ContentText string
  | ContentBlocks "AgentContentBlock list"

datatype MessageRole = UserRole | AssistantRole | ToolResultRole | CustomRole

record MessageUsage =
  mu_input :: "js_number option"
  mu_output :: "js_number option"
  mu_cacheRead :: "js_number option"
  mu_cacheWrite :: "js_number option"
  mu_reasoning :: "js_number option"
  mu_total :: "js_number option"
  mu_totalTokens :: "js_number option"
  mu_costTotal :: "js_number option"

record AgentMessage =
  msg_id :: string
  msg_role :: MessageRole
  msg_content :: MessageContent
  msg_customType :: "string option"
  msg_display :: "bool option"
  msg_toolCallId :: "string option"
  msg_toolName :: "string option"
  msg_isError :: "bool option"
  msg_details :: js_value
  msg_usage :: "MessageUsage option"
  msg_stopReason :: "string option"
  msg_errorMessage :: "string option"
  msg_timestamp :: "js_number option"
  msg_startedAtMs :: "js_number option"
  msg_durationMs :: "js_number option"

text \<open>The identifiers of the tool calls of a content, the \<open>flatMap\<close> the sources use throughout.\<close>

fun blockToolCallId :: "AgentContentBlock \<Rightarrow> string list" where
  "blockToolCallId (ToolCallBlock i n args) = [i]"
| "blockToolCallId _ = []"

fun contentToolCallIds :: "MessageContent \<Rightarrow> string list" where
  "contentToolCallIds (ContentText s) = []"
| "contentToolCallIds (ContentBlocks bs) = concat (map blockToolCallId bs)"

section \<open>Billed usage\<close>

text \<open>
  The value of a number of the source: the closest IEEE double, a multiple of $2^{-1074}$ with at most 53
  significant bits, and the even one of two that are equally close. Amounts above $2^{1024}$, which
  would become infinite, are not treated.
\<close>

definition roundHalfEven :: "real \<Rightarrow> int" where
  "roundHalfEven x =
     (let n = \<lfloor>x\<rfloor>; d = x - of_int n in if d < 1 / 2 \<or> d = 1 / 2 \<and> even n then n else n + 1)"

definition dbl :: "real \<Rightarrow> real" where
  "dbl x =
     (let excess = nat (bitlen \<lfloor>\<bar>x\<bar> * 2 ^ 1074\<rfloor> - 53)
      in of_int (roundHalfEven (x * 2 ^ 1074 / 2 ^ excess)) * 2 ^ excess / 2 ^ 1074)"

text \<open>
  \<open>AgentChatBilledUsage\<close>. Every addition of costs is rounded to a double. Token counts are added
  exactly: they are integers below $2^{53}$, whose sums the doubles represent
  (\<open>dbl_integer\<close> below).
\<close>

record AgentChatBilledUsage =
  bu_input :: real
  bu_output :: real
  bu_cacheRead :: real
  bu_cacheWrite :: real
  bu_cost :: real

fun getNonNegativeFiniteNumber :: "js_value \<Rightarrow> real" where
  "getNonNegativeFiniteNumber (JNum (Fin x)) = (if x \<ge> 0 then x else 0)"
| "getNonNegativeFiniteNumber _ = 0"

fun getRequiredNonNegativeFiniteNumber :: "js_value \<Rightarrow> real option" where
  "getRequiredNonNegativeFiniteNumber (JNum (Fin x)) = (if x \<ge> 0 then Some x else None)"
| "getRequiredNonNegativeFiniteNumber _ = None"

definition getAgentChatBilledTokenTotal :: "AgentChatBilledUsage \<Rightarrow> real" where
  "getAgentChatBilledTokenTotal u = bu_input u + bu_output u + bu_cacheRead u + bu_cacheWrite u"

definition addUsage :: "AgentChatBilledUsage \<Rightarrow> AgentChatBilledUsage \<Rightarrow> AgentChatBilledUsage" where
  "addUsage t u =
     \<lparr>bu_input = bu_input t + bu_input u, bu_output = bu_output t + bu_output u,
      bu_cacheRead = bu_cacheRead t + bu_cacheRead u, bu_cacheWrite = bu_cacheWrite t + bu_cacheWrite u,
      bu_cost = dbl (bu_cost t + bu_cost u)\<rparr>"

definition EMPTY_BILLED_USAGE :: AgentChatBilledUsage where
  "EMPTY_BILLED_USAGE = \<lparr>bu_input = 0, bu_output = 0, bu_cacheRead = 0, bu_cacheWrite = 0, bu_cost = 0\<rparr>"

definition sumAgentChatBilledUsage :: "AgentChatBilledUsage list \<Rightarrow> AgentChatBilledUsage" where
  "sumAgentChatBilledUsage usages = foldl addUsage EMPTY_BILLED_USAGE usages"

text \<open>\<open>parseAgentChatBilledUsage\<close>: all five fields must be non-negative finite numbers.\<close>

fun parseAgentChatBilledUsage :: "js_value \<Rightarrow> AgentChatBilledUsage option" where
  "parseAgentChatBilledUsage (JObj usage) =
     (case (getRequiredNonNegativeFiniteNumber (js_get usage ''input''),
            getRequiredNonNegativeFiniteNumber (js_get usage ''output''),
            getRequiredNonNegativeFiniteNumber (js_get usage ''cacheRead''),
            getRequiredNonNegativeFiniteNumber (js_get usage ''cacheWrite''),
            getRequiredNonNegativeFiniteNumber (js_get usage ''cost'')) of
        (Some i, Some out, Some cr, Some cw, Some c) \<Rightarrow>
          Some \<lparr>bu_input = i, bu_output = out, bu_cacheRead = cr, bu_cacheWrite = cw, bu_cost = c\<rparr>
      | _ \<Rightarrow> None)"
| "parseAgentChatBilledUsage _ = None"

section \<open>Lifecycle messages of sub-agents\<close>

datatype AgentSubagentLifecycleEvent = LifecycleStarted | LifecycleCompleted

record AgentSubagentLifecycleDetails =
  lc_event :: AgentSubagentLifecycleEvent
  lc_agentId :: string
  lc_agentName :: string
  lc_childSessionId :: string
  lc_parentToolCallId :: "string option"
  lc_title :: "string option"
  lc_summary :: "string option"
  lc_status :: "string option"
  lc_usage :: "AgentChatBilledUsage option"

record ChildSessionSubagentMetadata =
  cs_agentId :: string
  cs_agentName :: string
  cs_childSessionId :: string
  cs_parentSessionId :: "string option"
  cs_parentSessionPath :: "string option"
  cs_title :: "string option"
  cs_summary :: "string option"

definition SUBAGENT_PARENT_CUSTOM_TYPE :: string where
  "SUBAGENT_PARENT_CUSTOM_TYPE = ''pi-subagent-parent''"

definition SUBAGENT_CUSTOM_TYPE :: string where
  "SUBAGENT_CUSTOM_TYPE = ''pi-subagent-child''"

text \<open>\<open>normalizeRequiredText\<close> and \<open>normalizeOptionalText\<close> differ only in \<open>null\<close> and \<open>undefined\<close>.\<close>

fun normalizeRequiredText :: "js_value \<Rightarrow> string option" where
  "normalizeRequiredText (JStr s) = (if js_trim s \<noteq> [] then Some (js_trim s) else None)"
| "normalizeRequiredText _ = None"

fun normalizeOptionalText :: "js_value \<Rightarrow> string option" where
  "normalizeOptionalText (JStr s) = (if js_trim s \<noteq> [] then Some (js_trim s) else None)"
| "normalizeOptionalText _ = None"

definition normalizeLifecycleEvent :: "js_value \<Rightarrow> AgentSubagentLifecycleEvent option" where
  "normalizeLifecycleEvent v =
     (if normalizeRequiredText v = Some ''started'' then Some LifecycleStarted
      else if normalizeRequiredText v = Some ''completed'' then Some LifecycleCompleted
      else None)"

fun parseLifecyclePayload :: "(string \<Rightarrow> js_value option) \<Rightarrow> js_value \<Rightarrow> (string \<times> js_value) list option" where
  "parseLifecyclePayload jsonParse (JObj kvs) = Some kvs"
| "parseLifecyclePayload jsonParse (JStr s) =
     (if js_startsWith (js_trim s) ''{'' then
        case jsonParse (js_trim s) of Some (JObj kvs) \<Rightarrow> Some kvs | _ \<Rightarrow> None
      else None)"
| "parseLifecyclePayload jsonParse _ = None"

text \<open>A content of blocks is an array, which is no payload.\<close>

fun contentValue :: "MessageContent \<Rightarrow> js_value" where
  "contentValue (ContentText s) = JStr s"
| "contentValue (ContentBlocks bs) = JArr []"

definition messagePayload :: "(string \<Rightarrow> js_value option) \<Rightarrow> AgentMessage \<Rightarrow> (string \<times> js_value) list option" where
  "messagePayload jsonParse m =
     nullish_option (parseLifecyclePayload jsonParse (msg_details m))
       (parseLifecyclePayload jsonParse (contentValue (msg_content m)))"

definition getCompletedChildUsage :: "js_value \<Rightarrow> AgentChatBilledUsage option" where
  "getCompletedChildUsage usage = parseAgentChatBilledUsage usage"

definition parseSubagentLifecycleMessage ::
    "(string \<Rightarrow> js_value option) \<Rightarrow> AgentMessage \<Rightarrow> AgentSubagentLifecycleDetails option" where
  "parseSubagentLifecycleMessage jsonParse m =
     (if msg_role m \<noteq> CustomRole \<or> msg_customType m \<noteq> Some SUBAGENT_CUSTOM_TYPE then None
      else case messagePayload jsonParse m of
        None \<Rightarrow> None
      | Some payload \<Rightarrow>
          (case (normalizeLifecycleEvent (js_get payload ''event''),
                 normalizeRequiredText (js_get payload ''agentId''),
                 normalizeRequiredText (js_get payload ''agentName''),
                 normalizeRequiredText (js_get payload ''childSessionId'')) of
             (Some event, Some agentId, Some agentName, Some childSessionId) \<Rightarrow>
               Some \<lparr>lc_event = event, lc_agentId = agentId, lc_agentName = agentName,
                     lc_childSessionId = childSessionId,
                     lc_parentToolCallId = normalizeOptionalText (js_get payload ''parentToolCallId''),
                     lc_title = normalizeOptionalText (js_get payload ''title''),
                     lc_summary = normalizeOptionalText (js_get payload ''summary''),
                     lc_status = normalizeOptionalText (js_get payload ''status''),
                     lc_usage = (if event = LifecycleCompleted
                                 then getCompletedChildUsage (js_get payload ''usage'') else None)\<rparr>
           | _ \<Rightarrow> None))"

text \<open>The metadata a child session carries: the first usable parent message.\<close>

fun deriveChildSessionSubagentMetadata ::
    "(string \<Rightarrow> js_value option) \<Rightarrow> AgentMessage list \<Rightarrow> ChildSessionSubagentMetadata option" where
  "deriveChildSessionSubagentMetadata jsonParse [] = None"
| "deriveChildSessionSubagentMetadata jsonParse (m # ms) =
     (if msg_role m \<noteq> CustomRole \<or> msg_customType m \<noteq> Some SUBAGENT_PARENT_CUSTOM_TYPE
      then deriveChildSessionSubagentMetadata jsonParse ms
      else case messagePayload jsonParse m of
        None \<Rightarrow> deriveChildSessionSubagentMetadata jsonParse ms
      | Some payload \<Rightarrow>
          (case (normalizeRequiredText (js_get payload ''agentId''),
                 normalizeRequiredText (js_get payload ''agentName''),
                 normalizeRequiredText (js_get payload ''childSessionId'')) of
             (Some agentId, Some agentName, Some childSessionId) \<Rightarrow>
               Some \<lparr>cs_agentId = agentId, cs_agentName = agentName, cs_childSessionId = childSessionId,
                     cs_parentSessionId = normalizeOptionalText (js_get payload ''parentSessionId''),
                     cs_parentSessionPath = normalizeOptionalText (js_get payload ''parentSessionPath''),
                     cs_title = normalizeOptionalText (js_get payload ''title''),
                     cs_summary = normalizeOptionalText (js_get payload ''summary'')\<rparr>
           | _ \<Rightarrow> deriveChildSessionSubagentMetadata jsonParse ms))"

section \<open>Byte accounting\<close>

text \<open>
  The length of the UTF-8 encoding: one byte for a code unit below 128, two for the other code
  units of the model.
\<close>

definition utf8Length :: "string \<Rightarrow> nat" where
  "utf8Length s = sum_list (map (\<lambda>c. if (of_char c :: nat) < 128 then 1 else 2) s)"

definition utf8OfTruthy :: "string option \<Rightarrow> nat" where
  "utf8OfTruthy s = (case s of None \<Rightarrow> 0 | Some v \<Rightarrow> utf8Length v)"

fun signatureBytes :: "AgentThinkingSignature \<Rightarrow> nat" where
  "signatureBytes NoSignature = 0"
| "signatureBytes (SignatureText s) = utf8Length s"
| "signatureBytes (SignatureObject None) = 0"
| "signatureBytes (SignatureObject (Some texts)) = sum_list (map utf8Length texts)"

fun blockBytes :: "(js_value \<Rightarrow> string) \<Rightarrow> AgentContentBlock \<Rightarrow> nat" where
  "blockBytes stringify (TextBlock s) = utf8Length s"
| "blockBytes stringify (ThinkingBlock s signature) = utf8Length s + signatureBytes signature"
| "blockBytes stringify (ToolCallBlock i n args) = utf8Length (stringify (JObj args))"

fun contentBytes :: "(js_value \<Rightarrow> string) \<Rightarrow> MessageContent \<Rightarrow> nat" where
  "contentBytes stringify (ContentText s) = utf8Length s"
| "contentBytes stringify (ContentBlocks bs) = sum_list (map (blockBytes stringify) bs)"

text \<open>Every JSON value but these is truthy; \<open>details\<close> is an object when it is present.\<close>

fun js_falsy :: "js_value \<Rightarrow> bool" where
  "js_falsy JUndefined = True"
| "js_falsy JNull = True"
| "js_falsy (JBool b) = (\<not> b)"
| "js_falsy (JNum x) = (x = NaN \<or> x = Fin 0)"
| "js_falsy (JStr s) = (s = [])"
| "js_falsy _ = False"

definition countMessageUtf8Bytes :: "(js_value \<Rightarrow> string) \<Rightarrow> AgentMessage \<Rightarrow> nat" where
  "countMessageUtf8Bytes stringify m =
     contentBytes stringify (msg_content m) + utf8OfTruthy (msg_errorMessage m) +
     utf8OfTruthy (msg_stopReason m) + utf8OfTruthy (msg_customType m) + utf8OfTruthy (msg_toolName m) +
     utf8OfTruthy (msg_toolCallId m) +
     (if js_falsy (msg_details m) then 0 else utf8Length (stringify (msg_details m)))"

section \<open>Facts\<close>

text \<open>Rounding leaves a number alone that is an integer below $2^{53}$ in size.\<close>

lemma roundHalfEven_integer [simp]: "roundHalfEven (of_int n) = n"
  by (simp add: roundHalfEven_def)

lemma dbl_zero [simp]: "dbl 0 = 0"
  by (simp add: dbl_def roundHalfEven_def)

lemma dbl_integer:
  assumes "\<bar>n\<bar> < 2 ^ 53"
  shows "dbl (of_int n) = of_int n"
proof (cases "n = 0")
  case False
  define k where "k = nat (bitlen \<lfloor>\<bar>real_of_int n\<bar> * 2 ^ 1074\<rfloor> - 53)"
  have "\<bar>real_of_int n\<bar> * 2 ^ 1074 = of_int (\<bar>n\<bar> * 2 ^ 1074)" by simp
  then have floor: "\<lfloor>\<bar>real_of_int n\<bar> * 2 ^ 1074\<rfloor> = \<bar>n\<bar> * 2 ^ 1074" by (simp only: floor_of_int)
  have "\<bar>n\<bar> * 2 ^ 1074 < 2 ^ 53 * 2 ^ 1074" using assms by simp
  then have "bitlen (\<bar>n\<bar> * 2 ^ 1074) \<le> 53 + 1074"
    using bitlen_le_iff_power [of "\<bar>n\<bar> * 2 ^ 1074" "53 + 1074"] by (simp add: power_add)
  then have k: "k \<le> 1074" unfolding k_def floor by simp
  then have pow: "(2 :: real) ^ 1074 = 2 ^ (1074 - k) * 2 ^ k" by (metis le_add_diff_inverse2 power_add)
  have "real_of_int n * 2 ^ 1074 / 2 ^ k = of_int (n * 2 ^ (1074 - k))" unfolding pow by simp
  then have "roundHalfEven (real_of_int n * 2 ^ 1074 / 2 ^ k) = n * 2 ^ (1074 - k)" by (simp only: roundHalfEven_integer)
  then have "dbl (of_int n) = of_int (n * 2 ^ (1074 - k)) * 2 ^ k / 2 ^ 1074" unfolding dbl_def Let_def k_def [symmetric] by simp
  also have "\<dots> = of_int n" unfolding pow by simp
  finally show ?thesis .
qed simp

text \<open>
  The specification of the sums: the token counts of a usage, their exact sum, which does not depend on the
  order, and the sum of costs from left to right with a rounding at every addition.
\<close>

definition tokenCounts :: "AgentChatBilledUsage \<Rightarrow> AgentChatBilledUsage" where
  "tokenCounts u = u\<lparr>bu_cost := 0\<rparr>"

definition addTokens :: "AgentChatBilledUsage \<Rightarrow> AgentChatBilledUsage \<Rightarrow> AgentChatBilledUsage" where
  "addTokens t u =
     \<lparr>bu_input = bu_input t + bu_input u, bu_output = bu_output t + bu_output u,
      bu_cacheRead = bu_cacheRead t + bu_cacheRead u, bu_cacheWrite = bu_cacheWrite t + bu_cacheWrite u, bu_cost = 0\<rparr>"

definition sumTokens :: "AgentChatBilledUsage list \<Rightarrow> AgentChatBilledUsage" where
  "sumTokens us =
     \<lparr>bu_input = sum_list (map bu_input us), bu_output = sum_list (map bu_output us),
      bu_cacheRead = sum_list (map bu_cacheRead us), bu_cacheWrite = sum_list (map bu_cacheWrite us), bu_cost = 0\<rparr>"

definition costSum :: "real list \<Rightarrow> real" where
  "costSum cs = foldl (\<lambda>t c. dbl (t + c)) 0 cs"

lemma addTokens_comm: "addTokens a b = addTokens b a"
  by (simp add: addTokens_def)

lemma addTokens_assoc: "addTokens (addTokens a b) c = addTokens a (addTokens b c)"
  by (simp add: addTokens_def)

lemma addTokens_left_comm: "addTokens a (addTokens b c) = addTokens b (addTokens a c)"
  by (simp add: addTokens_def)

lemmas addTokens_ac = addTokens_comm addTokens_assoc addTokens_left_comm

lemma tokenCounts_simps [simp]:
  "tokenCounts (addUsage a b) = addTokens (tokenCounts a) (tokenCounts b)"
  "tokenCounts EMPTY_BILLED_USAGE = EMPTY_BILLED_USAGE" "tokenCounts (tokenCounts u) = tokenCounts u"
  by (simp_all add: tokenCounts_def addUsage_def addTokens_def EMPTY_BILLED_USAGE_def)

lemma addTokens_tokenCounts [simp]:
  "addTokens (tokenCounts a) b = addTokens a b" "addTokens a (tokenCounts b) = addTokens a b"
  by (simp_all add: tokenCounts_def addTokens_def)

lemma addTokens_empty [simp]:
  "addTokens EMPTY_BILLED_USAGE u = tokenCounts u" "addTokens u EMPTY_BILLED_USAGE = tokenCounts u"
  by (simp_all add: addTokens_def tokenCounts_def EMPTY_BILLED_USAGE_def)

lemma sumTokens_simps [simp]:
  "sumTokens [] = EMPTY_BILLED_USAGE" "sumTokens (u # us) = addTokens u (sumTokens us)"
  "tokenCounts (sumTokens us) = sumTokens us"
  by (simp_all add: sumTokens_def addTokens_def tokenCounts_def EMPTY_BILLED_USAGE_def)

lemma sum_usage_fields:
  "bu_input (foldl addUsage a us) = bu_input a + sum_list (map bu_input us)"
  "bu_output (foldl addUsage a us) = bu_output a + sum_list (map bu_output us)"
  "bu_cacheRead (foldl addUsage a us) = bu_cacheRead a + sum_list (map bu_cacheRead us)"
  "bu_cacheWrite (foldl addUsage a us) = bu_cacheWrite a + sum_list (map bu_cacheWrite us)"
  "bu_cost (foldl addUsage a us) = foldl (\<lambda>t c. dbl (t + c)) (bu_cost a) (map bu_cost us)"
  by (induction us arbitrary: a) (simp_all add: addUsage_def)

text \<open>The loop of the source computes the exact sum of the tokens and the rounded sum of the costs.\<close>

lemma tokenCounts_sum [simp]: "tokenCounts (sumAgentChatBilledUsage us) = sumTokens us"
  unfolding sumAgentChatBilledUsage_def
  by (rule AgentChatBilledUsage.equality)
    (simp_all add: tokenCounts_def sumTokens_def sum_usage_fields EMPTY_BILLED_USAGE_def)

lemma cost_sum [simp]: "bu_cost (sumAgentChatBilledUsage us) = costSum (map bu_cost us)"
  by (simp add: sumAgentChatBilledUsage_def costSum_def sum_usage_fields EMPTY_BILLED_USAGE_def)

text \<open>Replacing or adding the entry of a key changes the sum by the difference.\<close>

lemma sum_tokens_update_absent:
  assumes "map_of r k = None"
  shows "sumTokens (map snd (AList.update k u r)) = addTokens (sumTokens (map snd r)) u"
  using assms by (induction r) (auto simp: addTokens_ac split: if_splits)

lemma sum_tokens_update_present:
  assumes "map_of r k = Some v"
  shows "addTokens v (sumTokens (map snd (AList.update k u r))) = addTokens (sumTokens (map snd r)) u"
  using assms by (induction r) (auto simp: addTokens_ac split: if_splits)

end
