(* ===== verification/Chat_Usage.thy ===== *)
theory Chat_Usage
  imports Chat_Messages
begin

text \<open>
  Usage accounting of an agent chat: the context estimate and totals of
  \<open>agentChatUsageSummary.ts\<close>, and the ledger of \<open>agentChatUsageLedger.ts\<close>, which combines
  a statistics snapshot of the agent process with the messages the renderer has seen since the
  snapshot was requested. One definition per function; the loop over the messages is a fold of
  \<open>mergeMessage\<close> whose state is the ledger itself, since the loop variables of the source are
  exactly the fields it writes back.
\<close>

section \<open>Usage of the retained messages\<close>

text \<open>Addition of numbers, and scaling by a positive factor.\<close>

fun js_add :: "js_number \<Rightarrow> js_number \<Rightarrow> js_number" where
  "js_add (Fin x) (Fin y) = Fin (x + y)"
| "js_add NaN _ = NaN"
| "js_add _ NaN = NaN"
| "js_add PosInf NegInf = NaN"
| "js_add NegInf PosInf = NaN"
| "js_add PosInf _ = PosInf"
| "js_add _ PosInf = PosInf"
| "js_add NegInf _ = NegInf"
| "js_add _ NegInf = NegInf"

fun js_scale :: "real \<Rightarrow> js_number \<Rightarrow> js_number" where
  "js_scale c (Fin x) = Fin (c * x)"
| "js_scale c x = x"

definition CHARS_PER_TOKEN :: nat where
  "CHARS_PER_TOKEN = 4"

text \<open>\<open>Math.round\<close> takes halves upwards.\<close>

definition js_round :: "real \<Rightarrow> real" where
  "js_round x = of_int \<lfloor>x + 1 / 2\<rfloor>"

definition numberValue :: "js_number option \<Rightarrow> js_value" where
  "numberValue x = (case x of None \<Rightarrow> JUndefined | Some n \<Rightarrow> JNum n)"

definition getAgentChatAssistantBilledUsage :: "MessageUsage \<Rightarrow> AgentChatBilledUsage" where
  "getAgentChatAssistantBilledUsage usage =
     \<lparr>bu_input = getNonNegativeFiniteNumber (numberValue (mu_input usage)),
      bu_output = getNonNegativeFiniteNumber (numberValue (mu_output usage)),
      bu_cacheRead = getNonNegativeFiniteNumber (numberValue (mu_cacheRead usage)),
      bu_cacheWrite = getNonNegativeFiniteNumber (numberValue (mu_cacheWrite usage)),
      bu_cost = getNonNegativeFiniteNumber (numberValue (mu_costTotal usage))\<rparr>"

fun finitePositive :: "js_number option \<Rightarrow> bool" where
  "finitePositive (Some (Fin x)) = (x > 0)"
| "finitePositive _ = False"

definition getUsageTotalTokens :: "MessageUsage \<Rightarrow> js_number" where
  "getUsageTotalTokens usage =
     (if finitePositive (mu_totalTokens usage) then nullish (mu_totalTokens usage) (Fin 0)
      else if finitePositive (mu_total usage) then nullish (mu_total usage) (Fin 0)
      else js_add (js_add (js_add (nullish (mu_input usage) (Fin 0)) (nullish (mu_output usage) (Fin 0)))
             (nullish (mu_cacheRead usage) (Fin 0))) (nullish (mu_cacheWrite usage) (Fin 0)))"

definition estimateTextTokens :: "string \<Rightarrow> real" where
  "estimateTextTokens s = of_int \<lceil>real (length s) / real CHARS_PER_TOKEN\<rceil>"

text \<open>The arguments of a tool call are an object, on which \<open>JSON.stringify\<close> yields a string.\<close>

fun blockChars :: "(js_value \<Rightarrow> string) \<Rightarrow> AgentContentBlock \<Rightarrow> nat" where
  "blockChars stringify (TextBlock s) = length s"
| "blockChars stringify (ThinkingBlock s signature) = 0"
| "blockChars stringify (ToolCallBlock i n args) = length n + length (stringify (JObj args))"

definition estimateContentBlockTokens :: "(js_value \<Rightarrow> string) \<Rightarrow> AgentContentBlock list \<Rightarrow> real" where
  "estimateContentBlockTokens stringify bs =
     of_int \<lceil>real (sum_list (map (blockChars stringify) bs)) / real CHARS_PER_TOKEN\<rceil>"

definition estimateMessageTokens :: "(js_value \<Rightarrow> string) \<Rightarrow> AgentMessage \<Rightarrow> real" where
  "estimateMessageTokens stringify m =
     (case msg_content m of
        ContentText s \<Rightarrow> estimateTextTokens s
      | ContentBlocks bs \<Rightarrow> estimateContentBlockTokens stringify bs)"

definition hasPositiveUsage :: "AgentMessage \<Rightarrow> bool" where
  "hasPositiveUsage m \<longleftrightarrow> msg_role m = AssistantRole \<and>
     (case msg_usage m of None \<Rightarrow> False | Some u \<Rightarrow> js_less (Fin 0) (getUsageTotalTokens u))"

text \<open>The loop runs from the last message downwards.\<close>

fun lastUsageFrom :: "AgentMessage list \<Rightarrow> nat \<Rightarrow> nat option" where
  "lastUsageFrom ms 0 = None"
| "lastUsageFrom ms (Suc i) = (if hasPositiveUsage (ms ! i) then Some i else lastUsageFrom ms i)"

definition findLastAssistantUsageIndex :: "AgentMessage list \<Rightarrow> nat option" where
  "findLastAssistantUsageIndex ms = lastUsageFrom ms (length ms)"

definition estimateAgentChatContextTokens :: "(js_value \<Rightarrow> string) \<Rightarrow> AgentMessage list \<Rightarrow> js_number" where
  "estimateAgentChatContextTokens stringify ms =
     (case findLastAssistantUsageIndex ms of
        None \<Rightarrow> Fin (sum_list (map (estimateMessageTokens stringify) ms))
      | Some i \<Rightarrow>
          (case msg_usage (ms ! i) of
             None \<Rightarrow> Fin (sum_list (map (estimateMessageTokens stringify) ms))
           | Some u \<Rightarrow>
               foldl (\<lambda>t m. js_add t (Fin (estimateMessageTokens stringify m)))
                 (getUsageTotalTokens u) (drop (Suc i) ms)))"

record UsageTotals =
  ut_inputTokens :: real
  ut_outputTokens :: real
  ut_cacheReadTokens :: real
  ut_cacheWriteTokens :: real
  ut_reasoningTokens :: real
  ut_totalSessionTokens :: real
  ut_totalCostUsd :: real

definition addMessageUsage :: "UsageTotals \<Rightarrow> AgentMessage \<Rightarrow> UsageTotals" where
  "addMessageUsage t m =
     (if msg_role m \<noteq> AssistantRole then t
      else case msg_usage m of
        None \<Rightarrow> t
      | Some usage \<Rightarrow>
          (let billed = getAgentChatAssistantBilledUsage usage in
           \<lparr>ut_inputTokens = ut_inputTokens t + bu_input billed,
            ut_outputTokens = ut_outputTokens t + bu_output billed,
            ut_cacheReadTokens = ut_cacheReadTokens t + bu_cacheRead billed,
            ut_cacheWriteTokens = ut_cacheWriteTokens t + bu_cacheWrite billed,
            ut_reasoningTokens = ut_reasoningTokens t + getNonNegativeFiniteNumber (numberValue (mu_reasoning usage)),
            ut_totalSessionTokens = ut_totalSessionTokens t + getAgentChatBilledTokenTotal billed,
            ut_totalCostUsd = dbl (ut_totalCostUsd t + bu_cost billed)\<rparr>))"

definition sumAgentChatUsageTotals :: "AgentMessage list \<Rightarrow> UsageTotals" where
  "sumAgentChatUsageTotals ms =
     foldl addMessageUsage
       \<lparr>ut_inputTokens = 0, ut_outputTokens = 0, ut_cacheReadTokens = 0, ut_cacheWriteTokens = 0,
        ut_reasoningTokens = 0, ut_totalSessionTokens = 0, ut_totalCostUsd = 0\<rparr> ms"

fun roundContextPercent :: "js_number \<Rightarrow> js_number" where
  "roundContextPercent (Fin x) = Fin (js_round (x * 10) / 10)"
| "roundContextPercent x = x"

definition calculateCacheRatePercent :: "real \<Rightarrow> real \<Rightarrow> real" where
  "calculateCacheRatePercent inputTokens cacheReadTokens =
     (if inputTokens + cacheReadTokens \<le> 0 then 0
      else js_round (cacheReadTokens / (inputTokens + cacheReadTokens) * 100))"

record AgentChatUsageSummary =
  us_contextTokens :: js_number
  us_contextWindow :: real
  us_contextPercent :: js_number
  us_totals :: UsageTotals
  us_cacheRatePercent :: real

text \<open>\<open>contextWindow\<close> is that of the current model, absent without a model.\<close>

fun buildAgentChatUsageSummary ::
    "(js_value \<Rightarrow> string) \<Rightarrow> AgentMessage list \<Rightarrow> js_number option \<Rightarrow> AgentChatUsageSummary option" where
  "buildAgentChatUsageSummary stringify ms (Some (Fin w)) =
     (if w \<le> 0 then None
      else
        let tokens = estimateAgentChatContextTokens stringify ms;
            totals = sumAgentChatUsageTotals ms in
        Some \<lparr>us_contextTokens = tokens, us_contextWindow = w,
              us_contextPercent = roundContextPercent (js_scale 100 (js_scale (1 / w) tokens)),
              us_totals = totals,
              us_cacheRatePercent = calculateCacheRatePercent (ut_inputTokens totals) (ut_cacheReadTokens totals)\<rparr>)"
| "buildAgentChatUsageSummary stringify ms _ = None"

record AgentSessionStats =
  ss_input :: real
  ss_output :: real
  ss_cacheRead :: real
  ss_cacheWrite :: real
  ss_total :: real
  ss_cost :: real
  ss_contextPercent :: "js_number option"

definition getCompactContextPercent ::
    "(js_value \<Rightarrow> string) \<Rightarrow> AgentMessage list \<Rightarrow> js_number option \<Rightarrow> AgentSessionStats option \<Rightarrow> js_number" where
  "getCompactContextPercent stringify ms window stats =
     (case Option.bind stats ss_contextPercent of
        Some percent \<Rightarrow> percent
      | None \<Rightarrow>
          (case buildAgentChatUsageSummary stringify ms window of
             Some summary \<Rightarrow> us_contextPercent summary
           | None \<Rightarrow> Fin 0))"

section \<open>The usage ledger\<close>

record AgentChatUsageLedger =
  parentBaseline :: "AgentChatBilledUsage option"
  parentPostBaselineDeltas :: "(string \<times> AgentChatBilledUsage) list"
  parentPostBaselineDeltaSequenceById :: "(string \<times> nat) list"
  fallbackParentTotal :: AgentChatBilledUsage
  parentAssistantUsageById :: "(string \<times> AgentChatBilledUsage) list"
  liveParentAssistantIds :: "string set"
  parentLiveFinalSequence :: nat
  parentLiveFinalSequenceById :: "(string \<times> nat) list"
  statsRequestBoundaryById :: "(string \<times> nat) list"
  childUsageBySessionId :: "(string \<times> AgentChatBilledUsage) list"

definition createAgentChatUsageLedger :: AgentChatUsageLedger where
  "createAgentChatUsageLedger =
     \<lparr>parentBaseline = None, parentPostBaselineDeltas = [], parentPostBaselineDeltaSequenceById = [],
      fallbackParentTotal = EMPTY_BILLED_USAGE, parentAssistantUsageById = [], liveParentAssistantIds = {},
      parentLiveFinalSequence = 0, parentLiveFinalSequenceById = [], statsRequestBoundaryById = [],
      childUsageBySessionId = []\<rparr>"

datatype UsageSource = HistorySource | LiveSource

definition negateBilledUsage :: "AgentChatBilledUsage \<Rightarrow> AgentChatBilledUsage" where
  "negateBilledUsage u =
     \<lparr>bu_input = - bu_input u, bu_output = - bu_output u, bu_cacheRead = - bu_cacheRead u,
      bu_cacheWrite = - bu_cacheWrite u, bu_cost = - bu_cost u\<rparr>"

fun replaceBilledUsage ::
    "AgentChatBilledUsage \<Rightarrow> AgentChatBilledUsage option \<Rightarrow> AgentChatBilledUsage \<Rightarrow> AgentChatBilledUsage" where
  "replaceBilledUsage t (Some previous) u = sumAgentChatBilledUsage [t, negateBilledUsage previous, u]"
| "replaceBilledUsage t None u = sumAgentChatBilledUsage [t, u]"

text \<open>A live assistant message gets the next sequence number the first time it is seen.\<close>

definition markLive :: "AgentChatUsageLedger \<Rightarrow> string \<Rightarrow> AgentChatUsageLedger" where
  "markLive l i =
     l\<lparr>liveParentAssistantIds := insert i (liveParentAssistantIds l),
       parentLiveFinalSequence := Suc (parentLiveFinalSequence l),
       parentLiveFinalSequenceById :=
         AList.update i (Suc (parentLiveFinalSequence l)) (parentLiveFinalSequenceById l)\<rparr>"

text \<open>The usage of a message is stored, and counted in the deltas or in the fallback total.\<close>

definition storeUsage ::
    "UsageSource \<Rightarrow> AgentChatUsageLedger \<Rightarrow> string \<Rightarrow> AgentChatBilledUsage \<Rightarrow> AgentChatUsageLedger" where
  "storeUsage source l i usage =
     (let l' = l\<lparr>parentAssistantUsageById := AList.update i usage (parentAssistantUsageById l)\<rparr> in
      if source = LiveSource then
        (if parentBaseline l \<noteq> None then
           (case map_of (parentLiveFinalSequenceById l) i of
              Some sequence \<Rightarrow>
                l'\<lparr>parentPostBaselineDeltas := AList.update i usage (parentPostBaselineDeltas l),
                   parentPostBaselineDeltaSequenceById :=
                     AList.update i sequence (parentPostBaselineDeltaSequenceById l)\<rparr>
            | None \<Rightarrow> l')
         else l'\<lparr>fallbackParentTotal :=
                   replaceBilledUsage (fallbackParentTotal l) (map_of (parentAssistantUsageById l) i) usage\<rparr>)
      else if parentBaseline l = None then
        l'\<lparr>fallbackParentTotal := sumAgentChatBilledUsage [fallbackParentTotal l, usage]\<rparr>
      else l')"

definition mergeAssistant :: "UsageSource \<Rightarrow> AgentChatUsageLedger \<Rightarrow> AgentMessage \<Rightarrow> AgentChatUsageLedger" where
  "mergeAssistant source l m =
     (let isLiveReplacement = (source = LiveSource \<and> msg_id m \<notin> liveParentAssistantIds l);
          l1 = (if isLiveReplacement then markLive l (msg_id m) else l) in
      case msg_usage m of
        None \<Rightarrow> l1
      | Some usage \<Rightarrow>
          if map_of (parentAssistantUsageById l1) (msg_id m) = None \<or> isLiveReplacement
          then storeUsage source l1 (msg_id m) (getAgentChatAssistantBilledUsage usage)
          else l1)"

definition mergeChild ::
    "(string \<Rightarrow> js_value option) \<Rightarrow> UsageSource \<Rightarrow> AgentChatUsageLedger \<Rightarrow> AgentMessage \<Rightarrow> AgentChatUsageLedger" where
  "mergeChild jsonParse source l m =
     (case parseSubagentLifecycleMessage jsonParse m of
        None \<Rightarrow> l
      | Some lifecycle \<Rightarrow>
          if lc_event lifecycle = LifecycleCompleted then
            (case lc_usage lifecycle of
               None \<Rightarrow> l
             | Some usage \<Rightarrow>
                 if source = LiveSource \<or> map_of (childUsageBySessionId l) (lc_childSessionId lifecycle) = None
                 then l\<lparr>childUsageBySessionId :=
                          AList.update (lc_childSessionId lifecycle) usage (childUsageBySessionId l)\<rparr>
                 else l)
          else l)"

definition mergeMessage ::
    "(string \<Rightarrow> js_value option) \<Rightarrow> UsageSource \<Rightarrow> AgentChatUsageLedger \<Rightarrow> AgentMessage \<Rightarrow> AgentChatUsageLedger" where
  "mergeMessage jsonParse source l m =
     (let l1 = (if msg_role m = AssistantRole \<and> (source = LiveSource \<or> parentBaseline l = None)
                then mergeAssistant source l m else l) in
      mergeChild jsonParse source l1 m)"

definition mergeAgentChatUsageLedgerMessages ::
    "(string \<Rightarrow> js_value option) \<Rightarrow> AgentChatUsageLedger \<Rightarrow> AgentMessage list \<Rightarrow> UsageSource \<Rightarrow> AgentChatUsageLedger" where
  "mergeAgentChatUsageLedgerMessages jsonParse l ms source = foldl (mergeMessage jsonParse source) l ms"

definition mergeAgentChatUsageLedgerHistory ::
    "(string \<Rightarrow> js_value option) \<Rightarrow> AgentChatUsageLedger \<Rightarrow> AgentMessage list \<Rightarrow> AgentChatUsageLedger" where
  "mergeAgentChatUsageLedgerHistory jsonParse l ms =
     mergeAgentChatUsageLedgerMessages jsonParse l ms HistorySource"

definition recordAgentChatUsageLedgerLiveMessages ::
    "(string \<Rightarrow> js_value option) \<Rightarrow> AgentChatUsageLedger \<Rightarrow> AgentMessage list \<Rightarrow> AgentChatUsageLedger" where
  "recordAgentChatUsageLedgerLiveMessages jsonParse l ms =
     mergeAgentChatUsageLedgerMessages jsonParse l ms LiveSource"

definition recordAgentChatUsageLedgerStatsRequest :: "AgentChatUsageLedger \<Rightarrow> string \<Rightarrow> AgentChatUsageLedger" where
  "recordAgentChatUsageLedgerStatsRequest l requestId =
     l\<lparr>statsRequestBoundaryById :=
         AList.update requestId (parentLiveFinalSequence l) (statsRequestBoundaryById l)\<rparr>"

definition omitDeltaSequencesBeforeBoundary :: "(string \<times> nat) list \<Rightarrow> nat \<Rightarrow> (string \<times> nat) list" where
  "omitDeltaSequencesBeforeBoundary sequences boundary = filter (\<lambda>(i, sequence). sequence > boundary) sequences"

text \<open>\<open>flatMap\<close> over identifiers: those with a stored usage.\<close>

definition usagesOf :: "(string \<times> AgentChatBilledUsage) list \<Rightarrow> string list \<Rightarrow> (string \<times> AgentChatBilledUsage) list" where
  "usagesOf usages ids =
     concat (map (\<lambda>i. case map_of usages i of None \<Rightarrow> [] | Some u \<Rightarrow> [(i, u)]) ids)"

definition getDeltasAfterBoundary :: "AgentChatUsageLedger \<Rightarrow> nat \<Rightarrow> (string \<times> AgentChatBilledUsage) list" where
  "getDeltasAfterBoundary l boundary =
     usagesOf (parentAssistantUsageById l)
       (map fst (filter (\<lambda>(i, sequence). sequence > boundary) (parentLiveFinalSequenceById l)))"

definition getStatsBilledUsage :: "AgentSessionStats \<Rightarrow> AgentChatBilledUsage" where
  "getStatsBilledUsage stats =
     \<lparr>bu_input = ss_input stats, bu_output = ss_output stats, bu_cacheRead = ss_cacheRead stats,
      bu_cacheWrite = ss_cacheWrite stats, bu_cost = ss_cost stats\<rparr>"

definition statsBoundary :: "AgentChatUsageLedger \<Rightarrow> string option \<Rightarrow> nat" where
  "statsBoundary l requestId =
     (case truthy_string requestId of
        Some r \<Rightarrow> nullish (map_of (statsRequestBoundaryById l) r) (parentLiveFinalSequence l)
      | None \<Rightarrow> parentLiveFinalSequence l)"

definition reconcileAgentChatUsageLedgerStats ::
    "AgentChatUsageLedger \<Rightarrow> AgentSessionStats \<Rightarrow> string option \<Rightarrow> AgentChatUsageLedger" where
  "reconcileAgentChatUsageLedgerStats l stats requestId =
     (let boundary = statsBoundary l requestId;
          sequences = omitDeltaSequencesBeforeBoundary (parentLiveFinalSequenceById l) boundary in
      l\<lparr>parentBaseline := Some (getStatsBilledUsage stats),
        parentPostBaselineDeltas := getDeltasAfterBoundary l boundary,
        parentPostBaselineDeltaSequenceById := sequences,
        fallbackParentTotal := EMPTY_BILLED_USAGE,
        parentAssistantUsageById := usagesOf (parentAssistantUsageById l) (map fst sequences),
        liveParentAssistantIds := set (map fst sequences),
        parentLiveFinalSequenceById := sequences,
        statsRequestBoundaryById :=
          filter (\<lambda>(i, requestBoundary). Some i \<noteq> requestId \<and> requestBoundary > boundary)
            (statsRequestBoundaryById l)\<rparr>)"

definition getAgentChatUsageLedgerTotal :: "AgentChatUsageLedger \<Rightarrow> AgentChatBilledUsage" where
  "getAgentChatUsageLedgerTotal l =
     (let parentTotal =
        (case parentBaseline l of
           Some baseline \<Rightarrow> sumAgentChatBilledUsage (baseline # map snd (parentPostBaselineDeltas l))
         | None \<Rightarrow> fallbackParentTotal l) in
      sumAgentChatBilledUsage (parentTotal # map snd (childUsageBySessionId l)))"

end
