(* ===== verification/Chat_Usage_Properties.thy ===== *)
theory Chat_Usage_Properties
  imports Chat_Usage
begin

text \<open>
  What the usage ledger guarantees. A ledger receives four kinds of events: history, live
  messages, the sending of a statistics request and the arrival of statistics. The invariant
  \<open>ledger_inv\<close> ties the token totals that are kept incrementally to the usages stored per message;
  it is kept by every event, so the reported token totals never drift. Costs are rounded at every
  addition, so a total that was adjusted by subtracting and adding may differ in the last digits from
  the sum of the entries until a statistics snapshot replaces it. The second part follows one
  statistics request to its reply, the third replays history.
\<close>

section \<open>Events\<close>

datatype LedgerEvent =
    HistoryEvent "AgentMessage list"
  | LiveEvent "AgentMessage list"
  | StatsRequestEvent string
  | StatsEvent AgentSessionStats "string option"

fun ledgerEvent :: "(string \<Rightarrow> js_value option) \<Rightarrow> AgentChatUsageLedger \<Rightarrow> LedgerEvent \<Rightarrow> AgentChatUsageLedger" where
  "ledgerEvent jsonParse l (HistoryEvent ms) = mergeAgentChatUsageLedgerHistory jsonParse l ms"
| "ledgerEvent jsonParse l (LiveEvent ms) = recordAgentChatUsageLedgerLiveMessages jsonParse l ms"
| "ledgerEvent jsonParse l (StatsRequestEvent r) = recordAgentChatUsageLedgerStatsRequest l r"
| "ledgerEvent jsonParse l (StatsEvent stats r) = reconcileAgentChatUsageLedgerStats l stats r"

definition runLedger :: "(string \<Rightarrow> js_value option) \<Rightarrow> AgentChatUsageLedger \<Rightarrow> LedgerEvent list \<Rightarrow> AgentChatUsageLedger" where
  "runLedger jsonParse l es = foldl (ledgerEvent jsonParse) l es"

lemmas merge_defs = mergeAgentChatUsageLedgerHistory_def recordAgentChatUsageLedgerLiveMessages_def
  mergeAgentChatUsageLedgerMessages_def

section \<open>The invariant\<close>

definition ledger_inv :: "AgentChatUsageLedger \<Rightarrow> bool" where
  "ledger_inv l \<longleftrightarrow>
     set (map fst (parentLiveFinalSequenceById l)) = liveParentAssistantIds l \<and>
     distinct (map fst (parentLiveFinalSequenceById l)) \<and>
     distinct (map fst (parentAssistantUsageById l)) \<and>
     distinct (map fst (childUsageBySessionId l)) \<and>
     (\<forall>(i, sequence) \<in> set (parentLiveFinalSequenceById l). sequence \<le> parentLiveFinalSequence l) \<and>
     (if parentBaseline l = None
      then tokenCounts (fallbackParentTotal l) = sumTokens (map snd (parentAssistantUsageById l))
      else parentPostBaselineDeltas l = parentAssistantUsageById l)"

lemma negate_cancel: "addTokens (negateBilledUsage u) (addTokens u v) = tokenCounts v"
  by (simp add: addTokens_def negateBilledUsage_def tokenCounts_def)

lemma replace_keeps_sum:
  assumes "tokenCounts t = sumTokens (map snd r)"
  shows "tokenCounts (replaceBilledUsage t (map_of r i) u) = sumTokens (map snd (AList.update i u r))"
proof -
  have t: "addTokens t v = addTokens (sumTokens (map snd r)) v" for v using addTokens_tokenCounts(1) [of t v] assms by simp
  show ?thesis
  proof (cases "map_of r i")
    case None
    then show ?thesis by (simp add: sum_tokens_update_absent t)
  next
    case (Some v)
    have "tokenCounts (replaceBilledUsage t (map_of r i) u) = addTokens (negateBilledUsage v) (addTokens (sumTokens (map snd r)) u)"
      using Some by (simp add: t addTokens_ac)
    also have "\<dots> = sumTokens (map snd (AList.update i u r))"
      by (simp add: sum_tokens_update_present [OF Some, of u, symmetric] negate_cancel)
    finally show ?thesis .
  qed
qed

lemma tokenCounts_add: "tokenCounts (addTokens u v) = addTokens u v"
  by (simp add: addTokens_def tokenCounts_def)

lemma sum_then_add: "addTokens (sumAgentChatBilledUsage us) v = addTokens (sumTokens us) v"
  using addTokens_tokenCounts(1) [of "sumAgentChatBilledUsage us" v] by simp

lemma distinct_keys_update: "distinct (map fst r) \<Longrightarrow> distinct (map fst (AList.update k v r))"
  by (simp only: distinct_update)

lemma set_keys_update: "set (map fst (AList.update k v r)) = insert k (set (map fst r))"
  using dom_update [of k v r] by simp

lemma set_update_subset: "(a, b) \<in> set (AList.update k v r) \<Longrightarrow> (a, b) = (k, v) \<or> (a, b) \<in> set r"
  by (induction r) (auto split: if_splits)

lemma markLive_inv:
  assumes "ledger_inv l"
  shows "ledger_inv (markLive l i)"
  using assms
  by (auto simp: ledger_inv_def markLive_def distinct_keys_update dom_update image_iff
        simp del: map_map dest!: set_update_subset split: if_splits)

lemma storeUsage_inv:
  assumes inv: "ledger_inv l"
    and live: "source = LiveSource \<Longrightarrow> i \<in> liveParentAssistantIds l"
    and history: "source = HistorySource \<Longrightarrow> parentBaseline l = None \<and> map_of (parentAssistantUsageById l) i = None"
  shows "ledger_inv (storeUsage source l i u)"
proof (cases source)
  case HistorySource
  with history inv show ?thesis
    by (simp add: ledger_inv_def storeUsage_def distinct_keys_update sum_tokens_update_absent
        addTokens_tokenCounts(1) [symmetric, of "fallbackParentTotal l"])
next
  case LiveSource
  show ?thesis
  proof (cases "parentBaseline l")
    case None
    with inv LiveSource show ?thesis
      by (simp add: ledger_inv_def storeUsage_def distinct_keys_update replace_keeps_sum)
  next
    case (Some b)
    from live LiveSource inv have "i \<in> set (map fst (parentLiveFinalSequenceById l))"
      by (simp add: ledger_inv_def)
    then obtain s where "map_of (parentLiveFinalSequenceById l) i = Some s"
      by (metis list.set_map map_of_eq_None_iff option.exhaust)
    with inv LiveSource Some show ?thesis
      by (simp add: ledger_inv_def storeUsage_def distinct_keys_update)
  qed
qed

lemma mergeAssistant_inv:
  assumes "ledger_inv l" "source = LiveSource \<or> parentBaseline l = None"
  shows "ledger_inv (mergeAssistant source l m)"
proof -
  let ?l1 = "if source = LiveSource \<and> msg_id m \<notin> liveParentAssistantIds l then markLive l (msg_id m) else l"
  have 1: "ledger_inv ?l1" using assms(1) by (simp add: markLive_inv)
  have 2: "source = LiveSource \<Longrightarrow> msg_id m \<in> liveParentAssistantIds ?l1" by (simp add: markLive_def)
  have 3: "source = HistorySource \<Longrightarrow> ?l1 = l \<and> parentBaseline l = None" using assms(2) by auto
  show ?thesis
    unfolding mergeAssistant_def Let_def
    using 1 2 3 by (auto simp only: split: option.split if_split intro!: storeUsage_inv) simp_all
qed

lemma mergeChild_inv:
  assumes "ledger_inv l"
  shows "ledger_inv (mergeChild jsonParse source l m)"
  using assms
  by (auto simp: ledger_inv_def mergeChild_def distinct_keys_update split: option.split)

lemma merge_inv:
  assumes "ledger_inv l"
  shows "ledger_inv (foldl (mergeMessage jsonParse source) l ms)"
  using assms
proof (induction ms arbitrary: l)
  case (Cons m ms)
  have "ledger_inv (mergeMessage jsonParse source l m)"
    using Cons.prems by (auto simp: mergeMessage_def Let_def intro!: mergeChild_inv mergeAssistant_inv)
  with Cons.IH show ?case by simp
qed simp

lemma keys_usagesOf: "map fst (usagesOf r ids) = filter (\<lambda>i. map_of r i \<noteq> None) ids"
  by (induction ids) (auto simp: usagesOf_def split: option.splits)

lemma distinct_keys_filter: "distinct (map fst r) \<Longrightarrow> distinct (map fst (filter P r))"
  by (rule distinct_map_filter)

lemma reconcile_inv:
  assumes "ledger_inv l"
  shows "ledger_inv (reconcileAgentChatUsageLedgerStats l stats r)"
  using assms
  by (auto simp: ledger_inv_def reconcileAgentChatUsageLedgerStats_def Let_def getDeltasAfterBoundary_def
        omitDeltaSequencesBeforeBoundary_def keys_usagesOf distinct_keys_filter)

lemma statsRequest_inv: "ledger_inv l \<Longrightarrow> ledger_inv (recordAgentChatUsageLedgerStatsRequest l r)"
  by (simp add: recordAgentChatUsageLedgerStatsRequest_def ledger_inv_def)

lemma ledgerEvent_inv: "ledger_inv l \<Longrightarrow> ledger_inv (ledgerEvent jsonParse l e)"
  by (cases e) (simp_all add: merge_defs merge_inv reconcile_inv statsRequest_inv)

interpretation ledger: state_machine "\<lambda>l. l = createAgentChatUsageLedger"
  "\<lambda>l l'. \<exists>e. l' = ledgerEvent jsonParse l e" ledger_inv for jsonParse
proof unfold_locales
  show "ledger_inv l" if "l = createAgentChatUsageLedger" for l
    using that by (simp add: ledger_inv_def createAgentChatUsageLedger_def)
  show "ledger_inv l'" if "ledger_inv l" "\<exists>e. l' = ledgerEvent jsonParse l e" for l l'
    using that ledgerEvent_inv by blast
qed

lemma runLedger_steps: "(\<lambda>l l'. \<exists>e. l' = ledgerEvent jsonParse l e)\<^sup>*\<^sup>* l (runLedger jsonParse l es)"
proof (induction es rule: rev_induct)
  case (snoc e es)
  then show ?case by (auto simp: runLedger_def intro: rtranclp.rtrancl_into_rtrancl)
qed (simp add: runLedger_def)

lemma reachable_ledger_inv: "ledger_inv (runLedger jsonParse createAgentChatUsageLedger es)"
  using ledger.reachable_inv runLedger_steps by blast

lemma ledger_total:
  assumes "ledger_inv l"
  shows "tokenCounts (getAgentChatUsageLedgerTotal l) =
    addTokens (nullish (parentBaseline l) EMPTY_BILLED_USAGE)
      (addTokens (sumTokens (map snd (parentAssistantUsageById l))) (sumTokens (map snd (childUsageBySessionId l))))"
proof (cases "parentBaseline l")
  case None
  have "tokenCounts (getAgentChatUsageLedgerTotal l) =
      addTokens (tokenCounts (fallbackParentTotal l)) (sumTokens (map snd (childUsageBySessionId l)))"
    using None by (simp add: getAgentChatUsageLedgerTotal_def)
  also have "tokenCounts (fallbackParentTotal l) = sumTokens (map snd (parentAssistantUsageById l))"
    using assms None by (simp add: ledger_inv_def)
  finally show ?thesis using None tokenCounts_add by simp
next
  case (Some base)
  with assms show ?thesis
    by (simp add: ledger_inv_def getAgentChatUsageLedgerTotal_def addTokens_assoc sum_then_add)
qed

lemma ledger_cost:
  assumes "ledger_inv l" "parentBaseline l = Some base"
  shows "bu_cost (getAgentChatUsageLedgerTotal l) =
    costSum (costSum (bu_cost base # map (bu_cost \<circ> snd) (parentAssistantUsageById l)) #
      map (bu_cost \<circ> snd) (childUsageBySessionId l))"
  using assms by (simp add: ledger_inv_def getAgentChatUsageLedgerTotal_def)

section \<open>From a statistics request to its reply\<close>

text \<open>Sums do not depend on the order in which a record lists its entries.\<close>

lemma sum_tokens_mset:
  assumes "mset us = mset vs"
  shows "sumTokens us = sumTokens vs"
proof -
  have *: "sum_list (map f us) = sum_list (map f vs)" for f :: "AgentChatBilledUsage \<Rightarrow> real"
    using assms by (metis mset_map sum_mset_sum_list)
  show ?thesis by (simp add: sumTokens_def *)
qed

lemma set_usagesOf: "set (usagesOf r ids) = {(i, u). i \<in> set ids \<and> map_of r i = Some u}"
  by (induction ids) (auto simp: usagesOf_def split: option.splits)

lemma mset_usagesOf:
  assumes "distinct ids" "distinct (map fst r)"
  shows "mset (usagesOf r ids) = mset (filter (\<lambda>(i, u). i \<in> set ids) r)"
proof -
  have "distinct (usagesOf r ids)"
    using assms(1) by (metis distinct_filter distinct_map keys_usagesOf)
  moreover have "distinct (filter (\<lambda>(i, u). i \<in> set ids) r)"
    using assms(2) by (metis distinct_filter distinct_map)
  moreover have "set (usagesOf r ids) = set (filter (\<lambda>(i, u). i \<in> set ids) r)"
    using assms(2) by (auto simp: set_usagesOf)
  ultimately show ?thesis by (simp only: set_eq_iff_mset_eq_distinct)
qed

lemma sum_usagesOf:
  assumes "distinct ids" "distinct (map fst r)"
  shows "sumTokens (map snd (usagesOf r ids)) = sumTokens (map snd (filter (\<lambda>(i, u). i \<in> set ids) r))"
  using mset_usagesOf [OF assms] by (intro sum_tokens_mset) (metis mset_map)

text \<open>
  What holds between the request and its reply: the boundary is stored, a message that was live
  at the request keeps its number, and every message that becomes live afterwards gets a larger one.
\<close>

definition since_request :: "AgentChatUsageLedger \<Rightarrow> string \<Rightarrow> AgentChatUsageLedger \<Rightarrow> bool" where
  "since_request l0 r l \<longleftrightarrow>
     ledger_inv l \<and> map_of (statsRequestBoundaryById l) r = Some (parentLiveFinalSequence l0) \<and>
     parentLiveFinalSequence l0 \<le> parentLiveFinalSequence l \<and>
     liveParentAssistantIds l0 \<subseteq> liveParentAssistantIds l \<and>
     (\<forall>(i, sequence) \<in> set (parentLiveFinalSequenceById l).
        parentLiveFinalSequence l0 < sequence \<longleftrightarrow> i \<notin> liveParentAssistantIds l0)"

lemma storeUsage_frame [simp]:
  "parentLiveFinalSequenceById (storeUsage source l i u) = parentLiveFinalSequenceById l"
  "liveParentAssistantIds (storeUsage source l i u) = liveParentAssistantIds l"
  "parentLiveFinalSequence (storeUsage source l i u) = parentLiveFinalSequence l"
  "statsRequestBoundaryById (storeUsage source l i u) = statsRequestBoundaryById l"
  "childUsageBySessionId (storeUsage source l i u) = childUsageBySessionId l"
  "parentBaseline (storeUsage source l i u) = parentBaseline l"
  "parentAssistantUsageById (storeUsage source l i u) = AList.update i u (parentAssistantUsageById l)"
  by (simp_all add: storeUsage_def Let_def split: option.split)

lemma mergeChild_frame [simp]:
  "parentLiveFinalSequenceById (mergeChild jsonParse source l m) = parentLiveFinalSequenceById l"
  "liveParentAssistantIds (mergeChild jsonParse source l m) = liveParentAssistantIds l"
  "parentLiveFinalSequence (mergeChild jsonParse source l m) = parentLiveFinalSequence l"
  "statsRequestBoundaryById (mergeChild jsonParse source l m) = statsRequestBoundaryById l"
  "parentAssistantUsageById (mergeChild jsonParse source l m) = parentAssistantUsageById l"
  "parentBaseline (mergeChild jsonParse source l m) = parentBaseline l"
  by (simp_all add: mergeChild_def split: option.split)

text \<open>The sequence bookkeeping of a merge is that of marking, where it takes place.\<close>

lemma mergeMessage_sequences:
  assumes "parentLiveFinalSequenceById (mergeMessage jsonParse source l m) \<noteq> parentLiveFinalSequenceById l \<or>
    liveParentAssistantIds (mergeMessage jsonParse source l m) \<noteq> liveParentAssistantIds l \<or>
    parentLiveFinalSequence (mergeMessage jsonParse source l m) \<noteq> parentLiveFinalSequence l"
  shows "msg_id m \<notin> liveParentAssistantIds l \<and>
    parentLiveFinalSequenceById (mergeMessage jsonParse source l m) = parentLiveFinalSequenceById (markLive l (msg_id m)) \<and>
    liveParentAssistantIds (mergeMessage jsonParse source l m) = liveParentAssistantIds (markLive l (msg_id m)) \<and>
    parentLiveFinalSequence (mergeMessage jsonParse source l m) = parentLiveFinalSequence (markLive l (msg_id m))"
  using assms by (auto simp: mergeMessage_def mergeAssistant_def Let_def split: option.splits if_splits)

lemma mergeMessage_boundaries [simp]:
  "statsRequestBoundaryById (mergeMessage jsonParse source l m) = statsRequestBoundaryById l"
  by (simp add: mergeMessage_def mergeAssistant_def markLive_def Let_def split: option.split)

lemma mergeMessage_inv: "ledger_inv l \<Longrightarrow> ledger_inv (mergeMessage jsonParse source l m)"
  using merge_inv [of l jsonParse source "[m]"] by simp

lemma since_request_merge:
  assumes "since_request l0 r l"
  shows "since_request l0 r (mergeMessage jsonParse source l m)"
proof -
  let ?l = "mergeMessage jsonParse source l m"
  note inv = mergeMessage_inv [of l jsonParse source m]
  show ?thesis
  proof (cases "parentLiveFinalSequenceById ?l \<noteq> parentLiveFinalSequenceById l \<or>
      liveParentAssistantIds ?l \<noteq> liveParentAssistantIds l \<or> parentLiveFinalSequence ?l \<noteq> parentLiveFinalSequence l")
    case False
    with assms inv show ?thesis by (simp add: since_request_def)
  next
    case True
    note eqs = mergeMessage_sequences [OF True]
    show ?thesis
      using assms inv eqs
      by (auto simp: since_request_def markLive_def dest!: set_update_subset)
  qed
qed

lemma since_request_merges:
  "since_request l0 r l \<Longrightarrow> since_request l0 r (foldl (mergeMessage jsonParse source) l ms)"
  by (induction ms arbitrary: l) (simp_all add: since_request_merge)

fun noStatsFor :: "string \<Rightarrow> LedgerEvent \<Rightarrow> bool" where
  "noStatsFor r (StatsEvent stats i) = False"
| "noStatsFor r (StatsRequestEvent i) = (i \<noteq> r)"
| "noStatsFor r _ = True"

lemma since_request_event:
  assumes "since_request l0 r l" "noStatsFor r e"
  shows "since_request l0 r (ledgerEvent jsonParse l e)"
proof (cases e)
  case (StatsRequestEvent i)
  have "ledger_inv (recordAgentChatUsageLedgerStatsRequest l i)"
    using assms(1) by (simp add: since_request_def statsRequest_inv)
  with StatsRequestEvent assms show ?thesis
    by (simp add: since_request_def recordAgentChatUsageLedgerStatsRequest_def update_conv')
qed (use assms in \<open>simp_all add: merge_defs since_request_merges\<close>)

lemma since_request_run:
  "since_request l0 r l \<Longrightarrow> list_all (noStatsFor r) es \<Longrightarrow> since_request l0 r (runLedger jsonParse l es)"
  by (induction es arbitrary: l) (simp_all add: runLedger_def since_request_event)

lemma since_request_start:
  assumes "ledger_inv l"
  shows "since_request l r (recordAgentChatUsageLedgerStatsRequest l r)"
proof -
  let ?l = "recordAgentChatUsageLedgerStatsRequest l r"
  have "parentLiveFinalSequence l < sequence \<longleftrightarrow> i \<notin> liveParentAssistantIds l"
    if "(i, sequence) \<in> set (parentLiveFinalSequenceById l)" for i sequence
  proof -
    have "sequence \<le> parentLiveFinalSequence l" using assms that by (auto simp: ledger_inv_def)
    moreover have "i \<in> liveParentAssistantIds l"
      using assms image_eqI [of i fst "(i, sequence)", OF _ that] by (simp add: ledger_inv_def)
    ultimately show ?thesis by simp
  qed
  moreover have "ledger_inv ?l" using assms by (rule statsRequest_inv)
  ultimately show ?thesis
    by (auto simp: since_request_def recordAgentChatUsageLedgerStatsRequest_def update_conv')
qed

lemma since_request_ids:
  assumes "since_request l0 r l"
  shows "set (map fst (omitDeltaSequencesBeforeBoundary (parentLiveFinalSequenceById l) (parentLiveFinalSequence l0))) =
    liveParentAssistantIds l - liveParentAssistantIds l0"
proof -
  let ?S = "set (parentLiveFinalSequenceById l)"
  have live: "fst ` ?S = liveParentAssistantIds l"
    using assms by (simp add: since_request_def ledger_inv_def)
  have later: "parentLiveFinalSequence l0 < snd p \<longleftrightarrow> fst p \<notin> liveParentAssistantIds l0" if "p \<in> ?S" for p
    using assms that by (cases p) (auto simp: since_request_def)
  have "{p \<in> ?S. parentLiveFinalSequence l0 < snd p} = {p \<in> ?S. fst p \<notin> liveParentAssistantIds l0}"
    using later by blast
  then have "fst ` {p \<in> ?S. parentLiveFinalSequence l0 < snd p} = fst ` ?S - liveParentAssistantIds l0"
    by auto
  with live show ?thesis by (simp add: omitDeltaSequencesBeforeBoundary_def case_prod_unfold)
qed

lemma reconcile_since_request:
  assumes "since_request l0 r l" "r \<noteq> []"
  shows "tokenCounts (getAgentChatUsageLedgerTotal (reconcileAgentChatUsageLedgerStats l stats (Some r))) =
    addTokens (getStatsBilledUsage stats)
      (addTokens
        (sumTokens (map snd (filter (\<lambda>(i, u).
           i \<in> liveParentAssistantIds l - liveParentAssistantIds l0) (parentAssistantUsageById l))))
        (sumTokens (map snd (childUsageBySessionId l))))"
proof -
  let ?b = "parentLiveFinalSequence l0"
  let ?ids = "map fst (omitDeltaSequencesBeforeBoundary (parentLiveFinalSequenceById l) ?b)"
  have inv: "ledger_inv l" using assms(1) by (simp add: since_request_def)
  have b: "statsBoundary l (Some r) = ?b"
    using assms by (simp add: since_request_def statsBoundary_def truthy_string_def)
  have "set ?ids = liveParentAssistantIds l - liveParentAssistantIds l0"
    using since_request_ids [OF assms(1)] .
  moreover have "distinct ?ids"
    using inv by (simp add: ledger_inv_def omitDeltaSequencesBeforeBoundary_def distinct_keys_filter)
  moreover have "distinct (map fst (parentAssistantUsageById l))" using inv by (simp add: ledger_inv_def)
  ultimately show ?thesis
    by (simp add: ledger_total [OF reconcile_inv [OF inv]])
       (simp add: reconcileAgentChatUsageLedgerStats_def b Let_def sum_usagesOf)
qed

section \<open>Replayed history\<close>

text \<open>Nothing of a message is left to be counted from history.\<close>

definition covered :: "(string \<Rightarrow> js_value option) \<Rightarrow> AgentChatUsageLedger \<Rightarrow> AgentMessage \<Rightarrow> bool" where
  "covered jsonParse l m \<longleftrightarrow>
     (msg_role m = AssistantRole \<and> parentBaseline l = None \<and> msg_usage m \<noteq> None \<longrightarrow>
        map_of (parentAssistantUsageById l) (msg_id m) \<noteq> None) \<and>
     (case parseSubagentLifecycleMessage jsonParse m of
        None \<Rightarrow> True
      | Some lifecycle \<Rightarrow> lc_event lifecycle = LifecycleCompleted \<and> lc_usage lifecycle \<noteq> None \<longrightarrow>
          map_of (childUsageBySessionId l) (lc_childSessionId lifecycle) \<noteq> None)"

lemma covered_child: "covered jsonParse l m \<Longrightarrow> mergeChild jsonParse HistorySource l m = l"
  by (cases "parseSubagentLifecycleMessage jsonParse m") (auto simp: covered_def mergeChild_def split: option.split)

lemma covered_assistant:
  assumes "covered jsonParse l m" "msg_role m = AssistantRole" "parentBaseline l = None"
  shows "mergeAssistant HistorySource l m = l"
  using assms by (auto simp: covered_def mergeAssistant_def Let_def split: option.split)

lemma covered_merge: "covered jsonParse l m \<Longrightarrow> mergeMessage jsonParse HistorySource l m = l"
  by (simp add: mergeMessage_def Let_def covered_assistant covered_child)

lemma coveredI_mono:
  assumes "covered jsonParse l m"
    and "parentBaseline l' = None \<Longrightarrow> parentBaseline l = None \<and>
      (\<forall>i. map_of (parentAssistantUsageById l) i \<noteq> None \<longrightarrow> map_of (parentAssistantUsageById l') i \<noteq> None)"
    and "\<And>i. map_of (childUsageBySessionId l) i \<noteq> None \<Longrightarrow> map_of (childUsageBySessionId l') i \<noteq> None"
  shows "covered jsonParse l' m"
  unfolding covered_def
proof (intro conjI)
  show "msg_role m = AssistantRole \<and> parentBaseline l' = None \<and> msg_usage m \<noteq> None \<longrightarrow>
      map_of (parentAssistantUsageById l') (msg_id m) \<noteq> None"
    using assms(1,2) by (simp add: covered_def)
  show "case parseSubagentLifecycleMessage jsonParse m of None \<Rightarrow> True
      | Some lifecycle \<Rightarrow> lc_event lifecycle = LifecycleCompleted \<and> lc_usage lifecycle \<noteq> None \<longrightarrow>
          map_of (childUsageBySessionId l') (lc_childSessionId lifecycle) \<noteq> None"
    using assms(1,3) by (auto simp: covered_def split: option.splits)
qed

lemma mergeAssistant_frame:
  "parentBaseline (mergeAssistant source l m) = parentBaseline l"
  "childUsageBySessionId (mergeAssistant source l m) = childUsageBySessionId l"
  "map_of (parentAssistantUsageById l) i \<noteq> None \<Longrightarrow>
     map_of (parentAssistantUsageById (mergeAssistant source l m)) i \<noteq> None"
  by (auto simp: mergeAssistant_def Let_def markLive_def update_conv' split: option.splits)

lemma mergeMessage_mono:
  "parentBaseline (mergeMessage jsonParse source l m) = parentBaseline l"
  "map_of (parentAssistantUsageById l) i \<noteq> None \<Longrightarrow>
     map_of (parentAssistantUsageById (mergeMessage jsonParse source l m)) i \<noteq> None"
  "map_of (childUsageBySessionId l) i \<noteq> None \<Longrightarrow>
     map_of (childUsageBySessionId (mergeMessage jsonParse source l m)) i \<noteq> None"
proof -
  show "parentBaseline (mergeMessage jsonParse source l m) = parentBaseline l"
    by (simp add: mergeMessage_def mergeAssistant_frame)
  show "map_of (parentAssistantUsageById l) i \<noteq> None \<Longrightarrow>
      map_of (parentAssistantUsageById (mergeMessage jsonParse source l m)) i \<noteq> None"
    using mergeAssistant_frame(3) [of l i source m] by (simp add: mergeMessage_def)
  have "map_of (childUsageBySessionId l') i \<noteq> None \<Longrightarrow>
      map_of (childUsageBySessionId (mergeChild jsonParse source l' m)) i \<noteq> None" for l'
    by (auto simp: mergeChild_def update_conv' split: option.splits)
  then show "map_of (childUsageBySessionId l) i \<noteq> None \<Longrightarrow>
      map_of (childUsageBySessionId (mergeMessage jsonParse source l m)) i \<noteq> None"
    by (simp add: mergeMessage_def mergeAssistant_frame)
qed

lemma covered_merge_mono: "covered jsonParse l m \<Longrightarrow> covered jsonParse (mergeMessage jsonParse source l m') m"
  by (erule coveredI_mono) (use mergeMessage_mono in \<open>metis+\<close>)

lemma covered_merges_mono:
  "covered jsonParse l m \<Longrightarrow> covered jsonParse (foldl (mergeMessage jsonParse source) l ms) m"
  by (induction ms arbitrary: l) (simp_all add: covered_merge_mono)

lemma merged_covered: "covered jsonParse (mergeMessage jsonParse HistorySource l m) m"
  by (auto simp: covered_def mergeMessage_def mergeChild_def mergeAssistant_def Let_def update_conv'
        split: option.splits)

lemma history_covered:
  "m \<in> set ms \<Longrightarrow> covered jsonParse (foldl (mergeMessage jsonParse HistorySource) l ms) m"
  by (induction ms arbitrary: l) (auto simp: covered_merges_mono merged_covered)

lemma covered_event: "covered jsonParse l m \<Longrightarrow> covered jsonParse (ledgerEvent jsonParse l e) m"
proof (cases e)
  case (StatsRequestEvent r)
  assume "covered jsonParse l m"
  then show ?thesis
    by (rule coveredI_mono) (simp_all add: StatsRequestEvent recordAgentChatUsageLedgerStatsRequest_def)
next
  case (StatsEvent stats r)
  assume "covered jsonParse l m"
  then show ?thesis
    by (rule coveredI_mono) (simp_all add: StatsEvent reconcileAgentChatUsageLedgerStats_def Let_def)
qed (simp_all add: merge_defs covered_merges_mono)

lemma covered_run: "covered jsonParse l m \<Longrightarrow> covered jsonParse (runLedger jsonParse l es) m"
  by (induction es arbitrary: l) (simp_all add: runLedger_def covered_event)

lemma covered_history: "list_all (covered jsonParse l) ms \<Longrightarrow> mergeAgentChatUsageLedgerHistory jsonParse l ms = l"
  by (induction ms) (simp_all add: merge_defs covered_merge)

section \<open>The summary of the retained messages\<close>

definition billedUsages :: "AgentMessage list \<Rightarrow> AgentChatBilledUsage list" where
  "billedUsages ms = concat (map (\<lambda>m. if msg_role m = AssistantRole
     then (case msg_usage m of None \<Rightarrow> [] | Some u \<Rightarrow> [getAgentChatAssistantBilledUsage u]) else []) ms)"

lemma billed_nonneg: "u \<in> set (billedUsages ms) \<Longrightarrow> 0 \<le> bu_input u \<and> 0 \<le> bu_cacheRead u"
proof -
  have nn: "0 \<le> getNonNegativeFiniteNumber v" for v by (cases v rule: getNonNegativeFiniteNumber.cases) simp_all
  assume "u \<in> set (billedUsages ms)"
  then obtain mu where "u = getAgentChatAssistantBilledUsage mu"
    by (auto simp: billedUsages_def split: if_splits option.splits)
  then show ?thesis by (simp add: getAgentChatAssistantBilledUsage_def nn)
qed

lemma usage_totals_fold:
  "ut_inputTokens (foldl addMessageUsage t ms) = ut_inputTokens t + sum_list (map bu_input (billedUsages ms)) \<and>
   ut_cacheReadTokens (foldl addMessageUsage t ms) = ut_cacheReadTokens t + sum_list (map bu_cacheRead (billedUsages ms)) \<and>
   ut_totalSessionTokens (foldl addMessageUsage t ms) =
     ut_totalSessionTokens t + sum_list (map getAgentChatBilledTokenTotal (billedUsages ms)) \<and>
   ut_totalCostUsd (foldl addMessageUsage t ms) = foldl (\<lambda>t c. dbl (t + c)) (ut_totalCostUsd t) (map bu_cost (billedUsages ms))"
proof (induction ms arbitrary: t)
  case (Cons m ms)
  show ?case
    using Cons.IH [of "addMessageUsage t m"]
    by (auto simp: addMessageUsage_def billedUsages_def Let_def split: option.splits)
qed (simp add: billedUsages_def)

lemma token_total_sum:
  "sum_list (map getAgentChatBilledTokenTotal us) = getAgentChatBilledTokenTotal (sumAgentChatBilledUsage us)"
  by (simp add: getAgentChatBilledTokenTotal_def [abs_def] sumAgentChatBilledUsage_def sum_usage_fields EMPTY_BILLED_USAGE_def
      sum_list_addf)

lemma cache_rate_bounds:
  assumes "0 \<le> i" "0 \<le> c"
  shows "0 \<le> calculateCacheRatePercent i c \<and> calculateCacheRatePercent i c \<le> 100"
proof (cases "i + c \<le> 0")
  case False
  then have "0 \<le> c / (i + c) * 100" "c / (i + c) * 100 \<le> 100" using assms by (simp_all add: field_simps)
  then have "0 \<le> \<lfloor>c / (i + c) * 100 + 1 / 2\<rfloor>" "\<lfloor>c / (i + c) * 100 + 1 / 2\<rfloor> \<le> 100"
    by (linarith, linarith)
  then show ?thesis using False by (simp add: calculateCacheRatePercent_def js_round_def)
qed (simp add: calculateCacheRatePercent_def)

text \<open>The footer and the ledger count alike: the summary's session total is the billed total of the
retained assistant messages, and the cache rate is a percentage.\<close>

theorem usage_summary_consistent:
  assumes "buildAgentChatUsageSummary stringify ms window = Some summary"
  shows "ut_totalSessionTokens (us_totals summary) =
      getAgentChatBilledTokenTotal (sumAgentChatBilledUsage (billedUsages ms)) \<and>
    ut_totalCostUsd (us_totals summary) = bu_cost (sumAgentChatBilledUsage (billedUsages ms)) \<and>
    0 \<le> us_cacheRatePercent summary \<and> us_cacheRatePercent summary \<le> 100"
proof -
  let ?t = "sumAgentChatUsageTotals ms"
  have s: "us_totals summary = ?t"
    "us_cacheRatePercent summary = calculateCacheRatePercent (ut_inputTokens ?t) (ut_cacheReadTokens ?t)"
    using assms by (cases "(stringify, ms, window)" rule: buildAgentChatUsageSummary.cases; auto simp: Let_def split: if_splits)+
  have f: "ut_inputTokens ?t = sum_list (map bu_input (billedUsages ms))"
    "ut_cacheReadTokens ?t = sum_list (map bu_cacheRead (billedUsages ms))"
    "ut_totalSessionTokens ?t = sum_list (map getAgentChatBilledTokenTotal (billedUsages ms))"
    "ut_totalCostUsd ?t = costSum (map bu_cost (billedUsages ms))"
    by (simp_all add: sumAgentChatUsageTotals_def usage_totals_fold costSum_def)
  have "0 \<le> ut_inputTokens ?t" "0 \<le> ut_cacheReadTokens ?t"
    unfolding f by (rule sum_list_nonneg, use billed_nonneg in force)+
  then have "0 \<le> us_cacheRatePercent summary \<and> us_cacheRatePercent summary \<le> 100"
    unfolding s(2) by (rule cache_rate_bounds)
  then show ?thesis by (simp add: s(1) f(3,4) token_total_sum)
qed

section \<open>Properties\<close>

text \<open>C21: After any sequence of history, live messages, statistics requests and statistics replies, the token
totals that the ledger reports are exactly those of the last statistics snapshot (nothing before the
first one) plus those stored for each assistant message and each completed child session, and each
message and each child session is stored at most once: the token totals that are adjusted
incrementally never drift from the entries they summarise. Once a snapshot has arrived the
reported cost is the sum, in doubles and in the order of the entries, of the snapshot and the
messages stored since, and then of the children. (Before the first snapshot the cost is adjusted by
subtracting and adding in doubles and may differ from that sum by rounding.)\<close>

theorem usage_ledger_totals:
  assumes "l = runLedger jsonParse createAgentChatUsageLedger es"
  shows "tokenCounts (getAgentChatUsageLedgerTotal l) =
      addTokens (nullish (parentBaseline l) EMPTY_BILLED_USAGE)
        (addTokens (sumTokens (map snd (parentAssistantUsageById l))) (sumTokens (map snd (childUsageBySessionId l)))) \<and>
    (\<forall>base. parentBaseline l = Some base \<longrightarrow> bu_cost (getAgentChatUsageLedgerTotal l) =
       costSum (costSum (bu_cost base # map (bu_cost \<circ> snd) (parentAssistantUsageById l)) #
         map (bu_cost \<circ> snd) (childUsageBySessionId l))) \<and>
    distinct (map fst (parentAssistantUsageById l)) \<and> distinct (map fst (childUsageBySessionId l))"
proof -
  have inv: "ledger_inv l" unfolding assms by (rule reachable_ledger_inv)
  moreover from this have "distinct (map fst (parentAssistantUsageById l))" "distinct (map fst (childUsageBySessionId l))"
    by (simp_all add: ledger_inv_def)
  ultimately show ?thesis using ledger_total ledger_cost by blast
qed

text \<open>When the statistics for a request arrive, the token total is the statistics plus the usage of
exactly those assistant messages that were finalised live after the request was sent, plus the
completed children: no message that the statistics may already include is added again, and no
message finalised while the request was under way is lost, whatever history, live messages and
other requests come in between.\<close>

theorem stats_reply_counts_later_messages:
  assumes "l0 = runLedger jsonParse createAgentChatUsageLedger es0" and "r \<noteq> []"
    and "list_all (noStatsFor r) es"
    and "l = runLedger jsonParse (recordAgentChatUsageLedgerStatsRequest l0 r) es"
  shows "tokenCounts (getAgentChatUsageLedgerTotal (reconcileAgentChatUsageLedgerStats l stats (Some r))) =
    addTokens (getStatsBilledUsage stats)
      (addTokens
        (sumTokens (map snd (filter (\<lambda>(i, u).
           i \<in> liveParentAssistantIds l - liveParentAssistantIds l0) (parentAssistantUsageById l))))
        (sumTokens (map snd (childUsageBySessionId l))))"
proof (rule reconcile_since_request [OF _ assms(2)])
  have "ledger_inv l0" unfolding assms(1) by (rule reachable_ledger_inv)
  then show "since_request l0 r l"
    unfolding assms(4) by (intro since_request_run since_request_start assms(3))
qed

text \<open>History that has been merged once bills nothing when any part of it is delivered again,
however many live messages, requests and statistics came in between: the ledger is unchanged.\<close>

theorem history_replay_bills_nothing:
  assumes "l = runLedger jsonParse (mergeAgentChatUsageLedgerHistory jsonParse l0 ms) es"
    and "set ms' \<subseteq> set ms"
  shows "mergeAgentChatUsageLedgerHistory jsonParse l ms' = l"
proof (rule covered_history)
  have "covered jsonParse l m" if "m \<in> set ms" for m
    unfolding assms(1) by (intro covered_run) (simp add: merge_defs history_covered that)
  with assms(2) show "list_all (covered jsonParse l) ms'" by (auto simp: list_all_iff)
qed

section \<open>Examples\<close>

definition exampleUsage :: "real \<Rightarrow> MessageUsage" where
  "exampleUsage x =
     \<lparr>mu_input = Some (Fin x), mu_output = Some (Fin 1), mu_cacheRead = None, mu_cacheWrite = None,
      mu_reasoning = None, mu_total = None, mu_totalTokens = None, mu_costTotal = None\<rparr>"

definition exampleAssistant :: "string \<Rightarrow> real \<Rightarrow> AgentMessage" where
  "exampleAssistant i x =
     \<lparr>msg_id = i, msg_role = AssistantRole, msg_content = ContentBlocks [], msg_customType = None,
      msg_display = None, msg_toolCallId = None, msg_toolName = None, msg_isError = None,
      msg_details = JUndefined, msg_usage = Some (exampleUsage x), msg_stopReason = None,
      msg_errorMessage = None, msg_timestamp = None, msg_startedAtMs = None, msg_durationMs = None\<rparr>"

definition exampleChild :: "string \<Rightarrow> real \<Rightarrow> AgentMessage" where
  "exampleChild i x =
     (exampleAssistant i x)\<lparr>msg_role := CustomRole, msg_customType := Some SUBAGENT_CUSTOM_TYPE,
       msg_usage := None,
       msg_details := JObj [(''event'', JStr ''completed''), (''agentId'', JStr ''a''), (''agentName'', JStr ''scout''),
         (''childSessionId'', JStr ''s''),
         (''usage'', JObj [(''input'', JNum (Fin x)), (''output'', JNum (Fin 0)), (''cacheRead'', JNum (Fin 0)),
            (''cacheWrite'', JNum (Fin 0)), (''cost'', JNum (Fin 0))])]\<rparr>"

definition exampleStats :: "real \<Rightarrow> AgentSessionStats" where
  "exampleStats x =
     \<lparr>ss_input = x, ss_output = 0, ss_cacheRead = 0, ss_cacheWrite = 0, ss_total = x, ss_cost = 0,
      ss_contextPercent = None\<rparr>"

lemmas ledger_example_defs = exampleUsage_def exampleAssistant_def exampleChild_def exampleStats_def
  runLedger_def merge_defs mergeMessage_def mergeAssistant_def mergeChild_def markLive_def storeUsage_def
  createAgentChatUsageLedger_def recordAgentChatUsageLedgerStatsRequest_def reconcileAgentChatUsageLedgerStats_def
  statsBoundary_def truthy_string_def getDeltasAfterBoundary_def omitDeltaSequencesBeforeBoundary_def usagesOf_def
  getAgentChatAssistantBilledUsage_def numberValue_def sumAgentChatBilledUsage_def addUsage_def tokenCounts_def addTokens_def sumTokens_def EMPTY_BILLED_USAGE_def negateBilledUsage_def
  getStatsBilledUsage_def getAgentChatUsageLedgerTotal_def parseSubagentLifecycleMessage_def messagePayload_def
  SUBAGENT_CUSTOM_TYPE_def js_get_def normalizeLifecycleEvent_def js_trim_def js_space_def getCompletedChildUsage_def

text \<open>A message seen in history with 5 tokens and finalised live with 7, and a child with 20.\<close>

theorem usage_ledger_totals_witness:
  "bu_input (getAgentChatUsageLedgerTotal
     (runLedger (\<lambda>s. None) createAgentChatUsageLedger
        [HistoryEvent [exampleAssistant ''m'' 5], LiveEvent [exampleAssistant ''m'' 7, exampleChild ''c'' 20]])) = 27"
proof -
  let ?l = "runLedger (\<lambda>s. None) createAgentChatUsageLedger
    [HistoryEvent [exampleAssistant ''m'' 5], LiveEvent [exampleAssistant ''m'' 7, exampleChild ''c'' 20]]"
  have "tokenCounts (getAgentChatUsageLedgerTotal ?l) =
      addTokens (nullish (parentBaseline ?l) EMPTY_BILLED_USAGE)
        (addTokens (sumTokens (map snd (parentAssistantUsageById ?l))) (sumTokens (map snd (childUsageBySessionId ?l))))"
    using usage_ledger_totals [OF refl] by blast
  from arg_cong [OF this, of bu_input] show ?thesis by (simp add: ledger_example_defs)
qed

text \<open>The reply reports 100 tokens; only the message finalised after the request is added to it.\<close>

theorem stats_reply_counts_later_messages_witness:
  "bu_input (getAgentChatUsageLedgerTotal (reconcileAgentChatUsageLedgerStats
     (runLedger (\<lambda>s. None) (recordAgentChatUsageLedgerStatsRequest
        (runLedger (\<lambda>s. None) createAgentChatUsageLedger [LiveEvent [exampleAssistant ''m'' 5]]) ''r'')
        [LiveEvent [exampleAssistant ''n'' 7], HistoryEvent [exampleAssistant ''h'' 9]])
     (exampleStats 100) (Some ''r''))) = 107"
  using arg_cong [where f = bu_input, OF stats_reply_counts_later_messages [of _ "\<lambda>s. None" "[LiveEvent [exampleAssistant ''m'' 5]]" "''r''"
    "[LiveEvent [exampleAssistant ''n'' 7], HistoryEvent [exampleAssistant ''h'' 9]]" _ "exampleStats 100", OF refl _ _ refl]]
  by (simp add: ledger_example_defs)

theorem history_replay_bills_nothing_witness:
  "mergeAgentChatUsageLedgerHistory (\<lambda>s. None)
     (runLedger (\<lambda>s. None)
        (mergeAgentChatUsageLedgerHistory (\<lambda>s. None) createAgentChatUsageLedger [exampleAssistant ''m'' 5, exampleChild ''c'' 2])
        [StatsEvent (exampleStats 5) None]) [exampleChild ''c'' 2] =
   runLedger (\<lambda>s. None)
     (mergeAgentChatUsageLedgerHistory (\<lambda>s. None) createAgentChatUsageLedger [exampleAssistant ''m'' 5, exampleChild ''c'' 2])
     [StatsEvent (exampleStats 5) None]"
  by (rule history_replay_bills_nothing [OF refl]) simp

text \<open>
  A live message that is delivered again after the statistics that already include it is billed a
  second time: the reply drops the message from the set of live identifiers, and \<open>appendMessage\<close>
  records the ledger before it checks whether the transcript already holds the message.
\<close>

theorem redelivery_after_stats_is_billed_twice:
  "bu_input (getAgentChatUsageLedgerTotal
     (runLedger (\<lambda>s. None) createAgentChatUsageLedger
        [LiveEvent [exampleAssistant ''m'' 5], StatsRequestEvent ''r'', StatsEvent (exampleStats 5) (Some ''r'')])) = 5 \<and>
   bu_input (getAgentChatUsageLedgerTotal
     (runLedger (\<lambda>s. None) createAgentChatUsageLedger
        [LiveEvent [exampleAssistant ''m'' 5], StatsRequestEvent ''r'', StatsEvent (exampleStats 5) (Some ''r''),
         LiveEvent [exampleAssistant ''m'' 5]])) = 10"
  by (simp add: ledger_example_defs)

end
