(* ===== verification/Chat_Associations.thy ===== *)
theory Chat_Associations
  imports Chat_Messages
begin

text \<open>
  Removal of split tool-call associations (\<open>chat/transcript/associations.ts\<close>). An assistant
  message owns the tool calls in its content, a tool-result message belongs to the call it names.
  When a transcript is cut to a suffix, a message whose partner was cut off has to go as well,
  and so on through messages that own several calls. The source collects the members of each
  call, links them through the first owner, and searches the graph from the positions that were
  cut off. Here the search is a terminating function, and \<open>removeIncompleteAssociations_reference\<close>
  shows that it removes exactly the messages connected to a message before the cut.
\<close>

section \<open>The members of each call\<close>

text \<open>\<open>calls\<close> maps a call identifier to its owners and results, in the order of first use.\<close>

type_synonym CallMembers = "nat list \<times> nat list"

definition getMembers :: "string \<Rightarrow> (string \<times> CallMembers) list \<Rightarrow> CallMembers" where
  "getMembers callId calls = (case map_of calls callId of None \<Rightarrow> ([], []) | Some members \<Rightarrow> members)"

definition addOwner :: "nat \<Rightarrow> (string \<times> CallMembers) list \<Rightarrow> string \<Rightarrow> (string \<times> CallMembers) list" where
  "addOwner index calls callId =
     AList.update callId (case getMembers callId calls of (owners, results) \<Rightarrow> (owners @ [index], results)) calls"

definition addResult :: "nat \<Rightarrow> (string \<times> CallMembers) list \<Rightarrow> string \<Rightarrow> (string \<times> CallMembers) list" where
  "addResult index calls callId =
     AList.update callId (case getMembers callId calls of (owners, results) \<Rightarrow> (owners, results @ [index])) calls"

definition ownedCalls :: "AgentMessage \<Rightarrow> string list" where
  "ownedCalls m = (if msg_role m = AssistantRole then contentToolCallIds (msg_content m) else [])"

text \<open>An assistant message whose content is a text falls through to the second branch, where its role fails.\<close>

definition resultCalls :: "AgentMessage \<Rightarrow> string list" where
  "resultCalls m =
     (if msg_role m = ToolResultRole then (case msg_toolCallId m of None \<Rightarrow> [] | Some i \<Rightarrow> [i]) else [])"

definition addMessageCalls :: "(string \<times> CallMembers) list \<Rightarrow> nat \<times> AgentMessage \<Rightarrow> (string \<times> CallMembers) list" where
  "addMessageCalls calls p =
     (case p of (index, m) \<Rightarrow>
        foldl (addResult index) (foldl (addOwner index) calls (ownedCalls m)) (resultCalls m))"

definition collectCalls :: "AgentMessage list \<Rightarrow> (string \<times> CallMembers) list" where
  "collectCalls ms = foldl addMessageCalls [] (enumerate 0 ms)"

section \<open>The graph and the search\<close>

definition neighborsOf :: "(nat \<times> nat list) list \<Rightarrow> nat \<Rightarrow> nat list" where
  "neighborsOf neighbors index = (case map_of neighbors index of None \<Rightarrow> [] | Some adjacent \<Rightarrow> adjacent)"

definition connect :: "nat \<Rightarrow> nat \<Rightarrow> (nat \<times> nat list) list \<Rightarrow> (nat \<times> nat list) list" where
  "connect from_index to_index neighbors =
     AList.update from_index (neighborsOf neighbors from_index @ [to_index]) neighbors"

fun connectCall :: "(nat \<times> nat list) list \<Rightarrow> CallMembers \<Rightarrow> (nat \<times> nat list) list" where
  "connectCall neighbors (owners, results) =
     (case (owners, results) of
        (anchor # _, _ # _) \<Rightarrow>
          foldl (\<lambda>nb member. connect member anchor (connect anchor member nb)) neighbors (owners @ results)
      | _ \<Rightarrow> neighbors)"

definition callGraph :: "AgentMessage list \<Rightarrow> (nat \<times> nat list) list" where
  "callGraph ms = foldl connectCall [] (map snd (collectCalls ms))"

text \<open>One round of the loop: the unvisited neighbours of a position are marked and pushed.\<close>

fun visitNeighbors :: "nat list \<Rightarrow> nat set \<Rightarrow> nat list \<Rightarrow> nat set \<times> nat list" where
  "visitNeighbors [] removed pending = (removed, pending)"
| "visitNeighbors (n # ns) removed pending =
     (if n \<in> removed then visitNeighbors ns removed pending
      else visitNeighbors ns (insert n removed) (pending @ [n]))"

definition graphTargets :: "(nat \<times> nat list) list \<Rightarrow> nat set" where
  "graphTargets neighbors = \<Union> (set (map (set \<circ> snd) neighbors))"

lemma finite_targets [simp]: "finite (graphTargets neighbors)"
  by (auto simp: graphTargets_def)

lemma neighbors_targets: "set (neighborsOf neighbors i) \<subseteq> graphTargets neighbors"
proof (cases "map_of neighbors i")
  case (Some ns)
  then have "(i, ns) \<in> set neighbors" by (rule map_of_SomeD)
  with Some show ?thesis by (force simp: neighborsOf_def graphTargets_def)
qed (simp add: neighborsOf_def)

lemma visit_measure:
  assumes "finite T" "set ns \<subseteq> T" "visitNeighbors ns removed pending = (removed', pending')"
  shows "(card (T - removed'), length pending') = (card (T - removed), length pending) \<or>
    card (T - removed') < card (T - removed)"
  using assms
proof (induction ns removed pending rule: visitNeighbors.induct)
  case (2 n ns removed pending)
  show ?case
  proof (cases "n \<in> removed")
    case False
    have "T - insert n removed \<subset> T - removed" using 2 False by auto
    then have "card (T - insert n removed) < card (T - removed)"
      using 2 by (intro psubset_card_mono) simp_all
    with 2 False show ?thesis by fastforce
  qed (use 2 in simp)
qed simp

function searchSplit :: "(nat \<times> nat list) list \<Rightarrow> nat set \<Rightarrow> nat list \<Rightarrow> nat set" where
  "searchSplit neighbors removed pending =
     (if pending = [] then removed
      else case visitNeighbors (neighborsOf neighbors (last pending)) removed (butlast pending) of
        (removed', pending') \<Rightarrow> searchSplit neighbors removed' pending')"
  by pat_completeness auto

termination
proof (relation "inv_image (less_than <*lex*> less_than)
    (\<lambda>(neighbors, removed, pending). (card (graphTargets neighbors - removed), length pending))", goal_cases)
  case (2 neighbors removed pending removed' pending')
  then have "visitNeighbors (neighborsOf neighbors (last pending)) removed (butlast pending) = (removed', pending')"
    by simp
  from visit_measure [OF finite_targets neighbors_targets this] 2(1)
  show ?case by auto
qed auto

declare searchSplit.simps [simp del]

definition removeIncompleteAssociations :: "AgentMessage list \<Rightarrow> nat \<Rightarrow> AgentMessage list" where
  "removeIncompleteAssociations ms suffixStart =
     (let neighbors = callGraph ms;
          start = filter (\<lambda>index. index < suffixStart) (map fst neighbors);
          removed = searchSplit neighbors (set start) start in
      map snd (filter (\<lambda>(index, m). index + suffixStart \<notin> removed) (enumerate 0 (drop suffixStart ms))))"

section \<open>The search finds what is reachable\<close>

definition graphEdges :: "(nat \<times> nat list) list \<Rightarrow> (nat \<times> nat) set" where
  "graphEdges neighbors = {(i, j). j \<in> set (neighborsOf neighbors i)}"

lemma visit_result:
  "visitNeighbors ns removed pending = (removed', pending') \<Longrightarrow>
    removed' = removed \<union> set ns \<and> set pending' = set pending \<union> (set ns - removed)"
  by (induction ns removed pending arbitrary: removed' pending' rule: visitNeighbors.induct) (auto split: if_splits)

lemma search_closed:
  assumes "set pending \<subseteq> removed" "\<forall>i \<in> removed - set pending. set (neighborsOf neighbors i) \<subseteq> removed"
  shows "removed \<subseteq> searchSplit neighbors removed pending \<and>
    graphEdges neighbors `` searchSplit neighbors removed pending \<subseteq> searchSplit neighbors removed pending"
  using assms
proof (induction neighbors removed pending rule: searchSplit.induct)
  case (1 neighbors removed pending)
  show ?case
  proof (cases "pending = []")
    case True
    with 1 show ?thesis by (auto simp: searchSplit.simps graphEdges_def)
  next
    case False
    let ?ns = "neighborsOf neighbors (last pending)"
    obtain removed' pending' where v: "visitNeighbors ?ns removed (butlast pending) = (removed', pending')"
      by fastforce
    note r = visit_result [OF v]
    have split: "set pending = insert (last pending) (set (butlast pending))"
      using False by (metis append_butlast_last_id list.simps(15) rotate1.simps(2) set_rotate1)
    have "set pending' \<subseteq> removed'" using 1(2) r split by auto
    moreover have "\<forall>i \<in> removed' - set pending'. set (neighborsOf neighbors i) \<subseteq> removed'"
      using 1(3) r split by auto
    ultimately have "removed' \<subseteq> searchSplit neighbors removed' pending' \<and>
        graphEdges neighbors `` searchSplit neighbors removed' pending' \<subseteq> searchSplit neighbors removed' pending'"
      using 1(1) [OF False v [symmetric]] by blast
    moreover have "searchSplit neighbors removed pending = searchSplit neighbors removed' pending'"
      by (subst searchSplit.simps) (simp add: False v)
    ultimately show ?thesis using r by auto
  qed
qed

lemma search_sound:
  assumes "set pending \<subseteq> removed"
  shows "searchSplit neighbors removed pending \<subseteq> (graphEdges neighbors)\<^sup>* `` removed"
  using assms
proof (induction neighbors removed pending rule: searchSplit.induct)
  case (1 neighbors removed pending)
  show ?case
  proof (cases "pending = []")
    case True
    then show ?thesis by (auto simp: searchSplit.simps)
  next
    case False
    let ?ns = "neighborsOf neighbors (last pending)"
    obtain removed' pending' where v: "visitNeighbors ?ns removed (butlast pending) = (removed', pending')"
      by fastforce
    note r = visit_result [OF v]
    have last: "last pending \<in> removed" using False 1(2) by auto
    have "set pending' \<subseteq> removed'" using 1(2) r in_set_butlastD [of _ pending] by auto
    with 1(1) [OF False v [symmetric]]
    have "searchSplit neighbors removed' pending' \<subseteq> (graphEdges neighbors)\<^sup>* `` removed'" by blast
    also have "removed' \<subseteq> (graphEdges neighbors)\<^sup>* `` removed"
      using r last by (auto simp: graphEdges_def)
    finally have "searchSplit neighbors removed' pending' \<subseteq>
        (graphEdges neighbors)\<^sup>* `` ((graphEdges neighbors)\<^sup>* `` removed)" by blast
    then show ?thesis
      by (subst searchSplit.simps) (simp add: False v, metis relcomp_Image rtrancl_idemp_self_comp)
  qed
qed

lemma search_reachable:
  "searchSplit neighbors (set start) start = (graphEdges neighbors)\<^sup>* `` set start"
proof
  show "searchSplit neighbors (set start) start \<subseteq> (graphEdges neighbors)\<^sup>* `` set start"
    by (rule search_sound) simp
  let ?R = "searchSplit neighbors (set start) start"
  have c: "set start \<subseteq> ?R" "graphEdges neighbors `` ?R \<subseteq> ?R"
    using search_closed [of start "set start" neighbors] by simp_all
  have "(graphEdges neighbors)\<^sup>* `` ?R \<subseteq> ?R"
    using Image_closed_trancl [OF c(2)] by simp
  with c(1) show "(graphEdges neighbors)\<^sup>* `` set start \<subseteq> ?R" by blast
qed

section \<open>The graph is that of the associations\<close>

text \<open>The positions that own a call, and those that hold its results.\<close>

definition callOwners :: "AgentMessage list \<Rightarrow> string \<Rightarrow> nat set" where
  "callOwners ms c = {i. i < length ms \<and> c \<in> set (ownedCalls (ms ! i))}"

definition callResults :: "AgentMessage list \<Rightarrow> string \<Rightarrow> nat set" where
  "callResults ms c = {i. i < length ms \<and> c \<in> set (resultCalls (ms ! i))}"

text \<open>Two positions are associated when they take part in the same call and the call has both an
owner and a result.\<close>

definition associated :: "AgentMessage list \<Rightarrow> (nat \<times> nat) set" where
  "associated ms = {(i, j). \<exists>c. callOwners ms c \<noteq> {} \<and> callResults ms c \<noteq> {} \<and>
     i \<in> callOwners ms c \<union> callResults ms c \<and> j \<in> callOwners ms c \<union> callResults ms c}"

lemma getMembers_addOwners:
  "set (fst (getMembers c (foldl (addOwner i) calls cs))) =
     set (fst (getMembers c calls)) \<union> (if c \<in> set cs then {i} else {}) \<and>
   snd (getMembers c (foldl (addOwner i) calls cs)) = snd (getMembers c calls)"
proof (induction cs arbitrary: calls)
  case (Cons d cs)
  have "set (fst (getMembers c (addOwner i calls d))) = set (fst (getMembers c calls)) \<union> (if c = d then {i} else {}) \<and>
      snd (getMembers c (addOwner i calls d)) = snd (getMembers c calls)"
    by (auto simp: addOwner_def getMembers_def update_conv' split: option.splits prod.splits)
  with Cons.IH [of "addOwner i calls d"] show ?case by auto
qed simp

lemma getMembers_addResults:
  "fst (getMembers c (foldl (addResult i) calls cs)) = fst (getMembers c calls) \<and>
   set (snd (getMembers c (foldl (addResult i) calls cs))) =
     set (snd (getMembers c calls)) \<union> (if c \<in> set cs then {i} else {})"
proof (induction cs arbitrary: calls)
  case (Cons d cs)
  have "fst (getMembers c (addResult i calls d)) = fst (getMembers c calls) \<and>
      set (snd (getMembers c (addResult i calls d))) = set (snd (getMembers c calls)) \<union> (if c = d then {i} else {})"
    by (auto simp: addResult_def getMembers_def update_conv' split: option.splits prod.splits)
  with Cons.IH [of "addResult i calls d"] show ?case by auto
qed simp

lemma collect_snoc:
  "collectCalls (ms @ [m]) = addMessageCalls (collectCalls ms) (length ms, m)"
  by (simp add: collectCalls_def enumerate_append_eq)

lemma collect_members:
  "set (fst (getMembers c (collectCalls ms))) = callOwners ms c \<and>
   set (snd (getMembers c (collectCalls ms))) = callResults ms c"
proof (induction ms rule: rev_induct)
  case Nil
  then show ?case by (simp add: collectCalls_def getMembers_def callOwners_def callResults_def)
next
  case (snoc m ms)
  have o: "callOwners (ms @ [m]) c = callOwners ms c \<union> (if c \<in> set (ownedCalls m) then {length ms} else {})"
    by (auto simp: callOwners_def nth_append less_Suc_eq)
  have r: "callResults (ms @ [m]) c = callResults ms c \<union> (if c \<in> set (resultCalls m) then {length ms} else {})"
    by (auto simp: callResults_def nth_append less_Suc_eq)
  show ?case
    unfolding collect_snoc o r using snoc
    by (simp add: addMessageCalls_def getMembers_addOwners getMembers_addResults)
qed

lemma distinct_keys_fold:
  assumes "\<And>r x. distinct (map fst r) \<Longrightarrow> distinct (map fst (f r x))" "distinct (map fst r)"
  shows "distinct (map fst (foldl f r xs))"
  using assms by (induction xs arbitrary: r) simp_all

lemma collect_distinct: "distinct (map fst (collectCalls ms))"
  unfolding collectCalls_def
proof (rule distinct_keys_fold)
  fix r p
  assume "distinct (map fst (r :: (string \<times> CallMembers) list))"
  then show "distinct (map fst (addMessageCalls r p))"
    unfolding addMessageCalls_def case_prod_unfold
    by (intro distinct_keys_fold) (simp_all add: addOwner_def addResult_def distinct_update)
qed simp

text \<open>The edges that one call contributes: a star around its first owner.\<close>

fun star :: "CallMembers \<Rightarrow> (nat \<times> nat) set" where
  "star (a # os, r # rs) = (\<Union>m \<in> set (a # os @ r # rs). {(a, m), (m, a)})"
| "star _ = {}"

lemma edges_connect: "graphEdges (connect i j nb) = insert (i, j) (graphEdges nb)"
  by (auto simp: graphEdges_def connect_def neighborsOf_def update_conv' split: option.splits if_splits)

lemma connectCall_simps:
  "connectCall nb (a # os, r # rs) =
     foldl (\<lambda>nb m. connect m a (connect a m nb)) nb ((a # os) @ r # rs)"
  "connectCall nb ([], rs) = nb"
  "connectCall nb (os, []) = nb"
proof -
  show "connectCall nb (os, []) = nb" by (cases os) simp_all
qed simp_all

declare connectCall.simps [simp del]

lemma edges_connectCall: "graphEdges (connectCall nb c) = graphEdges nb \<union> star c"
proof -
  have fold: "graphEdges (foldl (\<lambda>nb m. connect m a (connect a m nb)) nb ms) =
      graphEdges nb \<union> (\<Union>m \<in> set ms. {(a, m), (m, a)})" for a ms nb
    by (induction ms arbitrary: nb) (auto simp: edges_connect)
  show ?thesis
    by (cases c rule: star.cases) (simp_all only: connectCall_simps fold star.simps Un_empty_right append_Cons)
qed

lemma edges_callGraph: "graphEdges (callGraph ms) = (\<Union>c. star (getMembers c (collectCalls ms)))"
proof -
  have fold: "graphEdges (foldl connectCall nb cs) = graphEdges nb \<union> (\<Union>c \<in> set cs. star c)" for nb cs
    by (induction cs arbitrary: nb) (auto simp: edges_connectCall)
  have "(\<Union>c \<in> set (map snd (collectCalls ms)). star c) = (\<Union>c. star (getMembers c (collectCalls ms)))"
  proof (intro equalityI subsetI)
    fix e
    assume "e \<in> (\<Union>c \<in> set (map snd (collectCalls ms)). star c)"
    then obtain k c where kc: "(k, c) \<in> set (collectCalls ms)" "e \<in> star c" by auto
    then have "getMembers k (collectCalls ms) = c" using collect_distinct [of ms] by (simp add: getMembers_def)
    with kc show "e \<in> (\<Union>c. star (getMembers c (collectCalls ms)))" by blast
  next
    fix e
    assume "e \<in> (\<Union>c. star (getMembers c (collectCalls ms)))"
    then obtain c where c: "e \<in> star (getMembers c (collectCalls ms))" by blast
    then obtain members where m: "map_of (collectCalls ms) c = Some members"
      by (cases "map_of (collectCalls ms) c") (simp_all add: getMembers_def)
    then have "members \<in> set (map snd (collectCalls ms))" by (force dest: map_of_SomeD)
    moreover have "e \<in> star members" using c m by (simp add: getMembers_def)
    ultimately show "e \<in> (\<Union>c \<in> set (map snd (collectCalls ms)). star c)" by blast
  qed
  then show ?thesis by (simp add: callGraph_def fold) (simp add: graphEdges_def neighborsOf_def)
qed

lemma star_clique:
  assumes "set os = A" "set rs = B"
  shows "star (os, rs) \<subseteq> {(i, j). A \<noteq> {} \<and> B \<noteq> {} \<and> i \<in> A \<union> B \<and> j \<in> A \<union> B}"
    and "{(i, j). A \<noteq> {} \<and> B \<noteq> {} \<and> i \<in> A \<union> B \<and> j \<in> A \<union> B} \<subseteq> (star (os, rs))\<^sup>*"
proof -
  show "star (os, rs) \<subseteq> {(i, j). A \<noteq> {} \<and> B \<noteq> {} \<and> i \<in> A \<union> B \<and> j \<in> A \<union> B}"
    using assms by (cases "(os, rs)" rule: star.cases) auto
  show "{(i, j). A \<noteq> {} \<and> B \<noteq> {} \<and> i \<in> A \<union> B \<and> j \<in> A \<union> B} \<subseteq> (star (os, rs))\<^sup>*"
  proof (cases "(os, rs)" rule: star.cases)
    case (1 a os' r rs')
    have "(i, a) \<in> star (os, rs) \<and> (a, i) \<in> star (os, rs)" if "i \<in> A \<union> B" for i
      using that assms 1 by auto
    then show ?thesis by (blast intro: r_into_rtrancl rtrancl_trans)
  qed (use assms in auto)
qed

lemma star_members:
  defines "clique \<equiv> \<lambda>ms c. {(i, j). callOwners ms c \<noteq> {} \<and> callResults ms c \<noteq> {} \<and>
      i \<in> callOwners ms c \<union> callResults ms c \<and> j \<in> callOwners ms c \<union> callResults ms c}"
  shows "star (getMembers c (collectCalls ms)) \<subseteq> clique ms c"
    and "clique ms c \<subseteq> (star (getMembers c (collectCalls ms)))\<^sup>*"
  unfolding clique_def
  using star_clique [OF conjunct1 [OF collect_members [of c ms]] conjunct2 [OF collect_members [of c ms]]]
  by simp_all

lemma rtrancl_edges_associated: "(graphEdges (callGraph ms))\<^sup>* = (associated ms)\<^sup>*"
proof
  have "star (getMembers c (collectCalls ms)) \<subseteq> associated ms" for c
  proof -
    have "star (getMembers c (collectCalls ms)) \<subseteq> {(i, j). callOwners ms c \<noteq> {} \<and> callResults ms c \<noteq> {} \<and>
        i \<in> callOwners ms c \<union> callResults ms c \<and> j \<in> callOwners ms c \<union> callResults ms c}"
      by (rule star_members)
    also have "\<dots> \<subseteq> associated ms" unfolding associated_def by blast
    finally show ?thesis .
  qed
  then have "graphEdges (callGraph ms) \<subseteq> associated ms" by (auto simp: edges_callGraph)
  then show "(graphEdges (callGraph ms))\<^sup>* \<subseteq> (associated ms)\<^sup>*" by (rule rtrancl_mono)
  have "associated ms \<subseteq> (graphEdges (callGraph ms))\<^sup>*"
  proof
    fix p
    assume "p \<in> associated ms"
    then obtain c where "p \<in> {(i, j). callOwners ms c \<noteq> {} \<and> callResults ms c \<noteq> {} \<and>
        i \<in> callOwners ms c \<union> callResults ms c \<and> j \<in> callOwners ms c \<union> callResults ms c}"
      by (auto simp: associated_def)
    also have "\<dots> \<subseteq> (star (getMembers c (collectCalls ms)))\<^sup>*"
      by (rule star_members)
    also have "\<dots> \<subseteq> (graphEdges (callGraph ms))\<^sup>*"
      by (intro rtrancl_mono) (auto simp: edges_callGraph)
    finally show "p \<in> (graphEdges (callGraph ms))\<^sup>*" .
  qed
  then show "(associated ms)\<^sup>* \<subseteq> (graphEdges (callGraph ms))\<^sup>*"
    by (metis rtrancl_idemp rtrancl_mono)
qed

text \<open>The positions that occur in the graph are those with an edge.\<close>

lemma keys_callGraph: "set (map fst (callGraph ms)) = Domain (graphEdges (callGraph ms))"
proof -
  have step: "set (map fst (connect i j nb)) = Domain (graphEdges (connect i j nb))"
    if "set (map fst nb) = Domain (graphEdges nb)" for i j nb
    using that by (simp add: edges_connect) (simp add: connect_def dom_update)
  have "set (map fst (connectCall nb c)) = Domain (graphEdges (connectCall nb c))"
    if "set (map fst nb) = Domain (graphEdges nb)" for nb c
  proof -
    have fold: "set (map fst (foldl (\<lambda>nb m. connect m a (connect a m nb)) nb ms)) =
        Domain (graphEdges (foldl (\<lambda>nb m. connect m a (connect a m nb)) nb ms))"
      if "set (map fst nb) = Domain (graphEdges nb)" for a ms nb
      using that by (induction ms arbitrary: nb) (simp_all only: foldl.simps step)
    show ?thesis
      using that fold by (cases c rule: star.cases) (simp_all only: connectCall_simps)
  qed
  then have "set (map fst (foldl connectCall nb cs)) = Domain (graphEdges (foldl connectCall nb cs))"
    if "set (map fst nb) = Domain (graphEdges nb)" for nb cs
    using that by (induction cs arbitrary: nb) (simp_all only: foldl.simps)
  then show ?thesis unfolding callGraph_def by (simp add: graphEdges_def neighborsOf_def)
qed

text \<open>
  The reference definition: a message of the suffix stays exactly when no message before the cut
  is connected to it by a chain of associations.
\<close>

lemma nths_empty_when: "(\<And>i. i < length xs \<Longrightarrow> i \<notin> A) \<Longrightarrow> nths xs A = []"
  by (induction xs arbitrary: A) (auto simp: nths_Cons)

lemma filter_enumerate_nths:
  "map snd (filter (\<lambda>(i, m). P (i + s)) (enumerate 0 (drop s ms))) = nths ms {j. s \<le> j \<and> P j}"
proof -
  have gen: "map snd (filter (\<lambda>(i, m). P (i + s)) (enumerate n xs)) = nths xs {j. P (j + n + s)}" for n xs
    by (induction xs arbitrary: n) (simp_all add: nths_Cons)
  have "nths ms {j. s \<le> j \<and> P j} = nths (take s ms) {j. s \<le> j \<and> P j} @ nths (drop s ms) {j. s \<le> j + length (take s ms) \<and> P (j + length (take s ms))}"
    using nths_append [of "take s ms" "drop s ms"] by simp
  also have "nths (take s ms) {j. s \<le> j \<and> P j} = []"
    by (intro nths_empty_when) auto
  also have "nths (drop s ms) {j. s \<le> j + length (take s ms) \<and> P (j + length (take s ms))} = nths (drop s ms) {j. P (j + s)}"
    by (cases "s \<le> length ms") simp_all
  finally show ?thesis using gen [of 0 "drop s ms"] by simp
qed

lemma removeIncompleteAssociations_reference:
  "removeIncompleteAssociations ms s =
     nths ms {j. s \<le> j \<and> (\<forall>i. i < s \<longrightarrow> (i, j) \<notin> (associated ms)\<^sup>*)}"
proof -
  let ?start = "filter (\<lambda>index. index < s) (map fst (callGraph ms))"
  let ?R = "searchSplit (callGraph ms) (set ?start) ?start"
  have "j \<in> ?R \<longleftrightarrow> (\<exists>i < s. (i, j) \<in> (associated ms)\<^sup>*)" if "s \<le> j" for j
  proof
    assume "j \<in> ?R"
    then show "\<exists>i < s. (i, j) \<in> (associated ms)\<^sup>*"
      unfolding search_reachable rtrancl_edges_associated by auto
  next
    assume "\<exists>i < s. (i, j) \<in> (associated ms)\<^sup>*"
    then obtain i where i: "i < s" "(i, j) \<in> (graphEdges (callGraph ms))\<^sup>*"
      by (auto simp: rtrancl_edges_associated)
    with that have "i \<in> Domain (graphEdges (callGraph ms))" by (auto elim: converse_rtranclE)
    with i show "j \<in> ?R" unfolding search_reachable using keys_callGraph [of ms] by auto
  qed
  then have "{j. s \<le> j \<and> j \<notin> ?R} = {j. s \<le> j \<and> (\<forall>i. i < s \<longrightarrow> (i, j) \<notin> (associated ms)\<^sup>*)}" by blast
  then show ?thesis
    unfolding removeIncompleteAssociations_def Let_def
    using filter_enumerate_nths [of "\<lambda>j. j \<notin> ?R" s ms] by simp
qed

end
