(* ===== verification/Chat_Retention.thy ===== *)
theory Chat_Retention
  imports Chat_Associations "HOL-Library.List_Lexorder" "HOL-Library.Char_ord"
begin

text \<open>
  Retention of chat transcripts (\<open>chat/agentChatRetention.ts\<close>): the merge of a history reply with
  what the renderer has already seen of the running turn, the trimming of a transcript to its
  message and byte budgets, and the trimming of the live transcripts of sub-agents.

  Sets and read-only maps of the source are sets and functions. A loop that runs from the last
  element to the first and prepends is a \<open>foldr\<close>. The records of renderer-final identifiers are
  predicates (\<open>rendererFinalAssistantIds\<close> optional as in the source). \<open>stringify\<close> stands for
  \<open>JSON.stringify\<close>.
\<close>

section \<open>Tool calls\<close>

definition toolCallIdsOf :: "AgentMessage \<Rightarrow> string list" where
  "toolCallIdsOf m = (if msg_role m = AssistantRole then contentToolCallIds (msg_content m) else [])"

definition getToolCallIds :: "AgentMessage list \<Rightarrow> string set" where
  "getToolCallIds ms = set (concat (map toolCallIdsOf ms))"

definition hasToolCalls :: "AgentMessage \<Rightarrow> bool" where
  "hasToolCalls m \<longleftrightarrow> toolCallIdsOf m \<noteq> []"

definition hasFullyRepresentedToolCalls :: "AgentMessage \<Rightarrow> string set \<Rightarrow> bool" where
  "hasFullyRepresentedToolCalls m historyToolCallIds \<longleftrightarrow>
     toolCallIdsOf m \<noteq> [] \<and> list_all (\<lambda>i. i \<in> historyToolCallIds) (toolCallIdsOf m)"

text \<open>The last owner of a call wins.\<close>

definition getFinalToolCallOwnersByToolCallId ::
    "AgentMessage list \<Rightarrow> (AgentMessage \<Rightarrow> bool) \<Rightarrow> string \<Rightarrow> AgentMessage option" where
  "getFinalToolCallOwnersByToolCallId ms isRendererFinalAssistant =
     foldl (\<lambda>owners m. if isRendererFinalAssistant m
              then foldl (\<lambda>o' i. o'(i \<mapsto> m)) owners (toolCallIdsOf m) else owners)
       Map.empty ms"

definition getToolCallOwnerReplacement ::
    "AgentMessage \<Rightarrow> (string \<Rightarrow> AgentMessage option) \<Rightarrow> AgentMessage option" where
  "getToolCallOwnerReplacement m owners =
     (case toolCallIdsOf m of
        [] \<Rightarrow> None
      | i # is \<Rightarrow>
          if i = [] then None
          else case owners i of
            None \<Rightarrow> None
          | Some replacement \<Rightarrow>
              if list_all (\<lambda>j. map_option msg_id (owners j) = Some (msg_id replacement)) (i # is)
              then Some replacement else None)"

definition getRendererFinalToolCallIds :: "AgentMessage list \<Rightarrow> (AgentMessage \<Rightarrow> bool) \<Rightarrow> string set" where
  "getRendererFinalToolCallIds ms isRendererFinalAssistant =
     set (concat (map toolCallIdsOf (filter isRendererFinalAssistant ms)))"

section \<open>Lifecycle messages\<close>

definition isLiveSubagentLifecycleMessage :: "AgentMessage \<Rightarrow> bool" where
  "isLiveSubagentLifecycleMessage m \<longleftrightarrow> msg_role m = CustomRole \<and> msg_customType m = Some ''pi-subagent-child''"

text \<open>\<open>message.details?.k\<close>.\<close>

fun detailsField :: "js_value \<Rightarrow> string \<Rightarrow> js_value" where
  "detailsField (JObj kvs) k = js_get kvs k"
| "detailsField _ k = JUndefined"

definition isCompletedSubagentLifecycleMessage :: "AgentMessage \<Rightarrow> bool" where
  "isCompletedSubagentLifecycleMessage m \<longleftrightarrow>
     isLiveSubagentLifecycleMessage m \<and> detailsField (msg_details m) ''event'' = JStr ''completed''"

definition getSubagentChildSessionId :: "AgentMessage \<Rightarrow> string option" where
  "getSubagentChildSessionId m =
     (if isLiveSubagentLifecycleMessage m then
        (case detailsField (msg_details m) ''childSessionId'' of JStr s \<Rightarrow> Some s | _ \<Rightarrow> None)
      else None)"

text \<open>\<open>map(getSubagentChildSessionId).filter(Boolean)\<close> as a set.\<close>

definition truthyChildSessionIds :: "AgentMessage list \<Rightarrow> string set" where
  "truthyChildSessionIds ms = {i. i \<noteq> [] \<and> Some i \<in> set (map getSubagentChildSessionId ms)}"

section \<open>Merging history into an active turn\<close>

definition hasTruthyToolCallId :: "AgentMessage \<Rightarrow> bool" where
  "hasTruthyToolCallId m \<longleftrightarrow> msg_role m = ToolResultRole \<and> truthy_string (msg_toolCallId m) \<noteq> None"

definition historyResultIds :: "AgentMessage list \<Rightarrow> string set" where
  "historyResultIds ms = set (map (the \<circ> msg_toolCallId) (filter hasTruthyToolCallId ms))"

definition keepToolResult ::
    "string set \<Rightarrow> string set \<Rightarrow> string set \<Rightarrow> AgentMessage \<Rightarrow>
     AgentMessage list \<times> string set \<Rightarrow> AgentMessage list \<times> string set" where
  "keepToolResult rendererFinalToolCallIds historyMessageIds historyResultToolCallIds m acc =
     (case (acc, msg_toolCallId m) of
        ((results, seen), Some i) \<Rightarrow>
          if msg_role m \<noteq> ToolResultRole \<or> i \<in> seen \<or> i \<notin> rendererFinalToolCallIds \<or>
             msg_id m \<in> historyMessageIds \<or> i \<in> historyResultToolCallIds
          then (results, seen) else (m # results, insert i seen)
      | ((results, seen), None) \<Rightarrow> (results, seen))"

definition getRetainedToolResults ::
    "AgentMessage list \<Rightarrow> AgentMessage list \<Rightarrow> (AgentMessage \<Rightarrow> bool) \<Rightarrow> AgentMessage list" where
  "getRetainedToolResults historyMessages committedMessages isRendererFinalAssistant =
     fst (foldr (keepToolResult (getRendererFinalToolCallIds committedMessages isRendererFinalAssistant)
                   (set (map msg_id historyMessages)) (historyResultIds historyMessages))
            committedMessages ([], {}))"

definition keepOwner ::
    "string set \<Rightarrow> string set \<Rightarrow> AgentMessage \<Rightarrow>
     AgentMessage list \<times> string set \<Rightarrow> AgentMessage list \<times> string set" where
  "keepOwner historyMessageIds unowned m acc =
     (case (acc, msg_content m) of
        ((owners, seen), ContentBlocks bs) \<Rightarrow>
          if msg_role m \<noteq> AssistantRole \<or> msg_id m \<in> historyMessageIds then (owners, seen)
          else
            let newlyOwned = filter (\<lambda>i. i \<in> unowned \<and> i \<notin> seen) (concat (map blockToolCallId bs));
                retainedContent = filter (\<lambda>b. list_all (\<lambda>i. i \<in> set newlyOwned) (blockToolCallId b)) bs in
            if newlyOwned = [] then (owners, seen)
            else ((if length retainedContent = length bs then m
                   else m\<lparr>msg_content := ContentBlocks retainedContent\<rparr>) # owners,
                  seen \<union> set newlyOwned)
      | ((owners, seen), ContentText s) \<Rightarrow> (owners, seen))"

text \<open>The two early returns yield the empty list, as the loop does when no call is unowned.\<close>

definition getRetainedToolCallOwners ::
    "AgentMessage list \<Rightarrow> string set \<Rightarrow> AgentMessage list \<Rightarrow> AgentMessage list" where
  "getRetainedToolCallOwners historyMessages historyMessageIds committedMessages =
     (let unowned = historyResultIds historyMessages - getToolCallIds historyMessages in
      if unowned = {} then []
      else fst (foldr (keepOwner historyMessageIds unowned) committedMessages ([], {})))"

text \<open>Owners that are not emitted yet go before the first result of one of their calls.\<close>

definition emitOwners ::
    "AgentMessage list \<Rightarrow> AgentMessage \<Rightarrow> AgentMessage list \<times> string set \<Rightarrow> AgentMessage list \<times> string set" where
  "emitOwners retainedOwners historyMessage state =
     (if hasTruthyToolCallId historyMessage then
        foldl (\<lambda>(merged, emitted) owner.
            if msg_id owner \<notin> emitted \<and>
               the (msg_toolCallId historyMessage) \<in> set (contentToolCallIds (msg_content owner))
            then (merged @ [owner], insert (msg_id owner) emitted) else (merged, emitted))
          state retainedOwners
      else state)"

definition mergeHistoryMessage ::
    "AgentMessage list \<Rightarrow> (AgentMessage \<Rightarrow> AgentMessage) \<Rightarrow> AgentMessage list \<times> string set \<Rightarrow> AgentMessage \<Rightarrow>
     AgentMessage list \<times> string set" where
  "mergeHistoryMessage retainedOwners replaceFinalAssistant state historyMessage =
     (case emitOwners retainedOwners historyMessage state of
        (merged, emitted) \<Rightarrow>
          let replacement = replaceFinalAssistant historyMessage;
              isDifferentOwner = (msg_id replacement \<noteq> msg_id historyMessage \<and> hasToolCalls replacement) in
          if isDifferentOwner \<and> msg_id replacement \<in> emitted then (merged, emitted)
          else (merged @ [replacement],
                if isDifferentOwner then insert (msg_id replacement) emitted else emitted))"

definition mergeHistoryWithRetainedToolCallOwners ::
    "AgentMessage list \<Rightarrow> AgentMessage list \<Rightarrow> (AgentMessage \<Rightarrow> AgentMessage) \<Rightarrow> AgentMessage list" where
  "mergeHistoryWithRetainedToolCallOwners historyMessages retainedOwners replaceFinalAssistant =
     fst (foldl (mergeHistoryMessage retainedOwners replaceFinalAssistant) ([], {}) historyMessages)"

text \<open>Within one source the last message of an identifier stays, among sources the first source wins.\<close>

definition uniqueSource :: "string set \<Rightarrow> AgentMessage list \<Rightarrow> AgentMessage list \<times> string set" where
  "uniqueSource messageIds ms =
     foldr (\<lambda>m (kept, ids). if msg_id m \<in> ids then (kept, ids) else (m # kept, insert (msg_id m) ids))
       ms ([], messageIds)"

definition getUniqueMessagesById :: "AgentMessage list list \<Rightarrow> AgentMessage list" where
  "getUniqueMessagesById sources =
     fst (foldl (\<lambda>(unique, ids) ms. case uniqueSource ids ms of (kept, ids') \<Rightarrow> (unique @ kept, ids'))
            ([], {}) sources)"

text \<open>
  The replacement of a history message: the committed message with its identifier where the
  renderer has seen it final, otherwise the renderer-final owner of all its tool calls.
\<close>

definition historyReplacement ::
    "(AgentMessage \<Rightarrow> bool) \<Rightarrow> AgentMessage list \<Rightarrow> AgentMessage \<Rightarrow> AgentMessage option" where
  "historyReplacement canRetain committedMessages m =
     nullish_option
       (if canRetain m then map_of (rev (map (\<lambda>c. (msg_id c, c)) committedMessages)) (msg_id m) else None)
       (getToolCallOwnerReplacement m (getFinalToolCallOwnersByToolCallId committedMessages canRetain))"

definition staleFreeHistory :: "AgentMessage list \<Rightarrow> AgentMessage list \<Rightarrow> AgentMessage list" where
  "staleFreeHistory historyMessages liveLifecycleMessages =
     filter (\<lambda>m. case truthy_string (getSubagentChildSessionId m) of
               None \<Rightarrow> True
             | Some i \<Rightarrow> i \<notin> truthyChildSessionIds liveLifecycleMessages) historyMessages"

definition liveLifecycle :: "AgentMessage list \<Rightarrow> AgentMessage list \<Rightarrow> AgentMessage list" where
  "liveLifecycle historyMessages committedMessages =
     filter (\<lambda>m. isLiveSubagentLifecycleMessage m \<and>
        nullish (getSubagentChildSessionId m) [] \<notin>
          truthyChildSessionIds (filter isCompletedSubagentLifecycleMessage historyMessages)) committedMessages"

definition rendererFinal ::
    "(string \<Rightarrow> bool) option \<Rightarrow> (string \<Rightarrow> bool) option \<Rightarrow> AgentMessage \<Rightarrow> bool" where
  "rendererFinal finalIds finalToolCallIds m \<longleftrightarrow>
     (case finalIds of None \<Rightarrow> True | Some ids \<Rightarrow> ids (msg_id m)) \<or>
     (case finalToolCallIds of None \<Rightarrow> False | Some ids \<Rightarrow> ids (msg_id m))"

definition mergeActiveTurnHistory ::
    "AgentMessage list \<Rightarrow> AgentMessage list \<Rightarrow> (string \<Rightarrow> bool) option \<Rightarrow> (string \<Rightarrow> bool) option \<Rightarrow>
     AgentMessage list" where
  "mergeActiveTurnHistory historyMessages committedMessages finalIds finalToolCallIds =
     (let canRetain = rendererFinal finalIds finalToolCallIds;
          liveMessages = liveLifecycle historyMessages committedMessages;
          history = staleFreeHistory historyMessages liveMessages;
          historyMessageIds = set (map msg_id history);
          retainedLifecycle = filter (\<lambda>m. msg_id m \<notin> historyMessageIds) liveMessages;
          retainedToolResults = getRetainedToolResults history committedMessages canRetain;
          retainedOwners = getRetainedToolCallOwners historyMessages historyMessageIds committedMessages;
          replacement = historyReplacement canRetain committedMessages;
          replacementIds = set (map msg_id (List.map_filter replacement history));
          merged = mergeHistoryWithRetainedToolCallOwners history retainedOwners
                     (\<lambda>m. nullish (replacement m) m) in
      getUniqueMessagesById
        [retainedLifecycle, merged,
         filter (\<lambda>m. canRetain m \<and> msg_id m \<notin> historyMessageIds \<and>
            msg_id m \<notin> set (map msg_id retainedLifecycle) \<and>
            msg_id m \<notin> set (map msg_id retainedOwners) \<and>
            msg_id m \<notin> set (map msg_id retainedToolResults) \<and>
            msg_id m \<notin> replacementIds \<and>
            \<not> hasFullyRepresentedToolCalls m (getToolCallIds history)) committedMessages,
         retainedToolResults])"

definition getRetainedToolResultIds ::
    "AgentMessage list \<Rightarrow> AgentMessage list \<Rightarrow> (string \<Rightarrow> bool) option \<Rightarrow> (string \<Rightarrow> bool) option \<Rightarrow> string set" where
  "getRetainedToolResultIds historyMessages committedMessages finalIds finalToolCallIds =
     (let retained = getRetainedToolResults historyMessages committedMessages (rendererFinal finalIds finalToolCallIds);
          owners = getRetainedToolCallOwners historyMessages (set (map msg_id historyMessages)) committedMessages;
          injected = set (concat (map (\<lambda>m. contentToolCallIds (msg_content m)) owners)) in
      set (map msg_id retained) \<union>
      set (map msg_id (filter (\<lambda>m. hasTruthyToolCallId m \<and> the (msg_toolCallId m) \<in> injected) historyMessages)))"

section \<open>Trimming\<close>

definition MAX_MESSAGES_PER_TAB :: nat where
  "MAX_MESSAGES_PER_TAB = 1000"

definition MAX_PER_TAB_AGGREGATE_UTF8_BYTES :: nat where
  "MAX_PER_TAB_AGGREGATE_UTF8_BYTES = 8 * 1024 * 1024"

definition MAX_SUBAGENT_CHILDREN :: nat where
  "MAX_SUBAGENT_CHILDREN = 20"

definition MAX_SUBAGENT_MESSAGES_PER_CHILD :: nat where
  "MAX_SUBAGENT_MESSAGES_PER_CHILD = 100"

definition MAX_SUBAGENT_AGGREGATE_UTF8_BYTES :: nat where
  "MAX_SUBAGENT_AGGREGATE_UTF8_BYTES = 2 * 1024 * 1024"

text \<open>\<open>xs.slice(-n)\<close>.\<close>

definition lastN :: "nat \<Rightarrow> 'a list \<Rightarrow> 'a list" where
  "lastN n xs = drop (length xs - n) xs"

text \<open>
  The loop that keeps elements from the end while their sizes fit a budget; the first is kept in
  any case. It runs on the reversed list and stops at the first element that does not fit.
\<close>

fun keepWithin :: "('a \<Rightarrow> nat) \<Rightarrow> nat \<Rightarrow> 'a list \<Rightarrow> nat \<Rightarrow> 'a list \<Rightarrow> 'a list" where
  "keepWithin size_of limit [] totalBytes kept = kept"
| "keepWithin size_of limit (x # xs) totalBytes kept =
     (if totalBytes + size_of x \<le> limit \<or> kept = []
      then keepWithin size_of limit xs (totalBytes + size_of x) (x # kept) else kept)"

definition trimSessionMessages ::
    "(js_value \<Rightarrow> string) \<Rightarrow> AgentMessage list \<Rightarrow> string set option \<Rightarrow> AgentMessage list" where
  "trimSessionMessages stringify messages transientToolResultIds =
     (let trimmed = (if length messages > MAX_MESSAGES_PER_TAB
                     then lastN MAX_MESSAGES_PER_TAB messages else messages);
          kept = keepWithin (countMessageUtf8Bytes stringify) MAX_PER_TAB_AGGREGATE_UTF8_BYTES (rev trimmed) 0 [];
          associated = removeIncompleteAssociations messages (length messages - length kept) in
      case transientToolResultIds of
        None \<Rightarrow> associated
      | Some ids \<Rightarrow>
          if ids = {} then associated
          else filter (\<lambda>m. msg_id m \<notin> ids \<or> msg_role m \<noteq> ToolResultRole \<or>
                 (case msg_toolCallId m of None \<Rightarrow> True | Some i \<Rightarrow> i \<in> getToolCallIds associated)) associated)"

text \<open>The transcripts of the children, by session identifier; an empty identifier is skipped in the byte loop.\<close>

definition trimSubagentLiveTranscripts ::
    "(js_value \<Rightarrow> string) \<Rightarrow> (string \<times> AgentMessage list) list \<Rightarrow> (string \<times> AgentMessage list) list" where
  "trimSubagentLiveTranscripts stringify transcripts =
     (let cappedChildIds = lastN MAX_SUBAGENT_CHILDREN (sort (map fst transcripts));
          perChildCapped = map (\<lambda>i. (i, let ms = the (map_of transcripts i) in
             removeIncompleteAssociations ms (length ms - MAX_SUBAGENT_MESSAGES_PER_CHILD))) cappedChildIds in
      keepWithin (\<lambda>(i, ms). sum_list (map (countMessageUtf8Bytes stringify) ms)) MAX_SUBAGENT_AGGREGATE_UTF8_BYTES
        (rev (filter (\<lambda>(i, ms). i \<noteq> []) perChildCapped)) 0 [])"

end
