(* ===== verification/Chat_Retention_Properties.thy ===== *)
theory Chat_Retention_Properties
  imports Chat_Retention
begin

text \<open>
  What transcript retention guarantees: the budgets hold, a kept message keeps all the messages it
  is associated with, and merging a history reply loses neither persisted messages nor the final
  messages the renderer has already shown.
\<close>

section \<open>Keeping the newest elements\<close>

lemma keepWithin_suffix: "\<exists>n. keepWithin f limit xs t kept = rev (take n xs) @ kept"
proof (induction f limit xs t kept rule: keepWithin.induct)
  case (2 f limit x xs t kept)
  show ?case
  proof (cases "t + f x \<le> limit \<or> kept = []")
    case True
    with 2 obtain n where "keepWithin f limit xs (t + f x) (x # kept) = rev (take n xs) @ x # kept" by blast
    with True show ?thesis by (intro exI [of _ "Suc n"]) simp
  qed (auto intro: exI [of _ 0])
qed simp

lemma keepWithin_budget:
  assumes "t = sum_list (map f kept)" "t \<le> limit \<or> length kept \<le> 1"
  shows "sum_list (map f (keepWithin f limit xs t kept)) \<le> limit \<or> length (keepWithin f limit xs t kept) \<le> 1"
  using assms by (induction f limit xs t kept rule: keepWithin.induct) auto

lemma keepWithin_stops:
  assumes "t = sum_list (map f kept)"
  shows "\<exists>n \<le> length xs. keepWithin f limit xs t kept = rev (take n xs) @ kept \<and>
    (n < length xs \<longrightarrow> rev (take n xs) @ kept \<noteq> [] \<and> limit < f (xs ! n) + sum_list (map f (rev (take n xs) @ kept)))"
  using assms
proof (induction f limit xs t kept rule: keepWithin.induct)
  case (2 f limit x xs t kept)
  show ?case
  proof (cases "t + f x \<le> limit \<or> kept = []")
    case True
    with 2 obtain n where "n \<le> length xs" "keepWithin f limit xs (t + f x) (x # kept) = rev (take n xs) @ x # kept"
      "n < length xs \<longrightarrow> limit < f (xs ! n) + sum_list (map f (rev (take n xs) @ x # kept))" by auto
    with True show ?thesis by (intro exI [of _ "Suc n"]) simp
  qed (use 2(2) in \<open>auto intro!: exI [of _ 0]\<close>)
qed simp

lemma keepWithin_rev:
  obtains ys where "xs = ys @ keepWithin f limit (rev xs) 0 []"
proof -
  obtain n where "keepWithin f limit (rev xs) 0 [] = rev (take n (rev xs))"
    using keepWithin_suffix [of f limit "rev xs" 0 "[]"] by auto
  then have "xs = take (length xs - n) xs @ keepWithin f limit (rev xs) 0 []"
    by (simp add: take_rev)
  then show ?thesis by (rule that)
qed

lemma lastN_suffix: "lastN n xs = drop (length xs - n) xs" "length (lastN n xs) \<le> n"
  by (simp_all add: lastN_def)

section \<open>Removal keeps a subsequence of the suffix\<close>

lemma subseq_filter_enumerate: "subseq (map snd (filter P (enumerate n xs))) xs"
proof -
  have "subseq (map snd (filter P (enumerate n xs))) (map snd (enumerate n xs))"
    by (intro subseq_map subseq_filter_left)
  then show ?thesis by simp
qed

lemma removeIncomplete_subseq: "subseq (removeIncompleteAssociations ms s) (drop s ms)"
  unfolding removeIncompleteAssociations_def Let_def by (rule subseq_filter_enumerate)

lemma subseq_sum_le:
  assumes "subseq xs ys"
  shows "sum_list (map f xs) \<le> (sum_list (map f ys) :: nat)"
  using assms by (induction rule: list_emb.induct) auto

text \<open>The limits on a part of the transcript: the number of messages, and the bytes unless it is a single message.\<close>

definition fitsTab :: "(js_value \<Rightarrow> string) \<Rightarrow> AgentMessage list \<Rightarrow> bool" where
  "fitsTab stringify ms \<longleftrightarrow> length ms \<le> MAX_MESSAGES_PER_TAB \<and>
     (sum_list (map (countMessageUtf8Bytes stringify) ms) \<le> MAX_PER_TAB_AGGREGATE_UTF8_BYTES \<or> length ms \<le> 1)"

lemma fitsTab_subseq:
  assumes "subseq xs ys" "fitsTab stringify ys"
  shows "fitsTab stringify xs"
  using assms(2) list_emb_length [OF assms(1)] subseq_sum_le [OF assms(1), of "countMessageUtf8Bytes stringify"]
  unfolding fitsTab_def by (meson le_trans)

text \<open>The part that the two loops keep is the longest suffix within the limits.\<close>

lemma suffix_longer:
  assumes "suffix k ms" "suffix (x # kept) ms" "length kept < length k"
  shows "suffix (x # kept) k"
  using assms by (metis suffix_length_suffix length_Cons Suc_leI)

lemma newest_suffix:
  assumes "n < length t"
  shows "suffix (rev t ! n # rev (take n (rev t))) t"
proof -
  have "rev t ! n # rev (take n (rev t)) = drop (length t - Suc n) t"
    using assms by (simp add: rev_nth take_rev Cons_nth_drop_Suc [symmetric] Suc_diff_Suc)
  then show ?thesis by (simp add: suffix_drop)
qed

lemma drop_suffix: "suffix k xs \<Longrightarrow> drop (length xs - length k) xs = k"
  by (auto simp: suffix_def)

definition keptSuffix :: "(js_value \<Rightarrow> string) \<Rightarrow> AgentMessage list \<Rightarrow> AgentMessage list" where
  "keptSuffix stringify ms = keepWithin (countMessageUtf8Bytes stringify) MAX_PER_TAB_AGGREGATE_UTF8_BYTES
     (rev (if length ms > MAX_MESSAGES_PER_TAB then lastN MAX_MESSAGES_PER_TAB ms else ms)) 0 []"

lemma keptSuffix_fits: "suffix (keptSuffix stringify ms) ms" "fitsTab stringify (keptSuffix stringify ms)"
proof -
  let ?t = "if length ms > MAX_MESSAGES_PER_TAB then lastN MAX_MESSAGES_PER_TAB ms else ms"
  obtain ys where ys: "?t = ys @ keptSuffix stringify ms" unfolding keptSuffix_def by (rule keepWithin_rev)
  have "suffix ?t ms" by (simp add: lastN_def suffix_drop)
  moreover have "suffix (keptSuffix stringify ms) ?t" using ys by (auto simp: suffix_def)
  ultimately show "suffix (keptSuffix stringify ms) ms" by (rule suffix_order.trans [rotated])
  have "length ?t \<le> MAX_MESSAGES_PER_TAB" by (simp add: lastN_def)
  moreover have "length ?t = length ys + length (keptSuffix stringify ms)" by (simp only: ys length_append)
  ultimately have "length (keptSuffix stringify ms) \<le> MAX_MESSAGES_PER_TAB" by linarith
  moreover have "sum_list (map (countMessageUtf8Bytes stringify) (keptSuffix stringify ms)) \<le> MAX_PER_TAB_AGGREGATE_UTF8_BYTES \<or>
      length (keptSuffix stringify ms) \<le> 1"
    unfolding keptSuffix_def by (rule keepWithin_budget) simp_all
  ultimately show "fitsTab stringify (keptSuffix stringify ms)" by (simp add: fitsTab_def)
qed

lemma keptSuffix_longest:
  assumes "suffix k ms" "fitsTab stringify k"
  shows "length k \<le> length (keptSuffix stringify ms)"
proof (rule ccontr)
  let ?t = "if length ms > MAX_MESSAGES_PER_TAB then lastN MAX_MESSAGES_PER_TAB ms else ms"
  let ?f = "countMessageUtf8Bytes stringify"
  assume "\<not> length k \<le> length (keptSuffix stringify ms)"
  then have longer: "length (keptSuffix stringify ms) < length k" by simp
  obtain n where n: "n \<le> length ?t" "keptSuffix stringify ms = rev (take n (rev ?t))"
    "n < length ?t \<Longrightarrow> keptSuffix stringify ms \<noteq> [] \<and>
       MAX_PER_TAB_AGGREGATE_UTF8_BYTES < ?f (rev ?t ! n) + sum_list (map ?f (keptSuffix stringify ms))"
    using keepWithin_stops [of 0 ?f "[]" "rev ?t" MAX_PER_TAB_AGGREGATE_UTF8_BYTES] unfolding keptSuffix_def by auto
  show False
  proof (cases "n < length ?t")
    case False
    then have "keptSuffix stringify ms = ?t" using n(1,2) by simp
    with longer assms show False
      by (auto simp: lastN_def fitsTab_def dest: suffix_length_le split: if_splits)
  next
    case True
    let ?x = "rev ?t ! n"
    have "suffix (?x # keptSuffix stringify ms) ?t" unfolding n(2) by (rule newest_suffix [OF True])
    moreover have "suffix ?t ms" by (simp add: lastN_def suffix_drop)
    ultimately have "suffix (?x # keptSuffix stringify ms) ms" by (rule suffix_order.trans)
    from suffix_longer [OF assms(1) this longer] obtain zs where "k = zs @ ?x # keptSuffix stringify ms" by (auto simp: suffix_def)
    with n(3) [OF True] assms(2) show False by (auto simp: fitsTab_def)
  qed
qed

text \<open>A tool result that is only shown for the moment and whose call is not retained.\<close>

definition ownerlessTransient :: "string set option \<Rightarrow> AgentMessage list \<Rightarrow> AgentMessage \<Rightarrow> bool" where
  "ownerlessTransient transient retained m \<longleftrightarrow>
     (\<exists>ids i. transient = Some ids \<and> msg_id m \<in> ids \<and> msg_role m = ToolResultRole \<and> msg_toolCallId m = Some i \<and>
        i \<notin> getToolCallIds retained)"

lemma trim_filtered:
  "trimSessionMessages stringify ms transient =
     (let retained = removeIncompleteAssociations ms (length ms - length (keptSuffix stringify ms))
      in filter (\<lambda>m. \<not> ownerlessTransient transient retained m) retained)"
proof -
  have "ownerlessTransient None rs m = False" "ownerlessTransient (Some {}) rs m = False" for rs m
    by (simp_all add: ownerlessTransient_def)
  moreover have "ownerlessTransient (Some ids) rs m \<longleftrightarrow> \<not> (msg_id m \<notin> ids \<or> msg_role m \<noteq> ToolResultRole \<or>
      (case msg_toolCallId m of None \<Rightarrow> True | Some i \<Rightarrow> i \<in> getToolCallIds rs))" for ids rs m
    by (auto simp: ownerlessTransient_def split: option.split)
  ultimately show ?thesis
    unfolding trimSessionMessages_def Let_def keptSuffix_def [symmetric]
    by (cases transient) (auto intro!: filter_cong)
qed

section \<open>Unique messages\<close>

definition messageIds :: "AgentMessage list \<Rightarrow> string set" where
  "messageIds ms = set (map msg_id ms)"

lemma messageIds_simps [simp]:
  "messageIds [] = {}"
  "messageIds (m # ms) = insert (msg_id m) (messageIds ms)"
  "messageIds (ms @ ns) = messageIds ms \<union> messageIds ns"
  by (simp_all add: messageIds_def)

lemma messageIds_I: "m \<in> set ms \<Longrightarrow> msg_id m \<in> messageIds ms"
  by (simp add: messageIds_def)

lemma uniqueSource_spec:
  "case uniqueSource ids ms of (kept, ids') \<Rightarrow>
     ids' = ids \<union> messageIds ms \<and> messageIds kept = messageIds ms - ids \<and> distinct (map msg_id kept) \<and> subseq kept ms"
proof (induction ms)
  case (Cons m ms)
  obtain kept ids' where k: "uniqueSource ids ms = (kept, ids')" by fastforce
  have "uniqueSource ids (m # ms) =
      (if msg_id m \<in> ids' then (kept, ids') else (m # kept, insert (msg_id m) ids'))"
    using k by (simp add: uniqueSource_def)
  with Cons k show ?case by (auto simp: messageIds_def)
qed (simp add: uniqueSource_def)

lemma unique_fold:
  assumes "distinct (map msg_id unique)" "ids = messageIds unique"
  shows "case foldl (\<lambda>(unique, ids) ms. case uniqueSource ids ms of (kept, ids') \<Rightarrow> (unique @ kept, ids')) (unique, ids) sources of
    (unique', ids') \<Rightarrow> distinct (map msg_id unique') \<and> ids' = messageIds unique' \<and>
      messageIds unique' = messageIds unique \<union> (\<Union>ms \<in> set sources. messageIds ms)"
  using assms
proof (induction sources arbitrary: unique ids)
  case (Cons ms sources)
  obtain kept ids' where k: "uniqueSource ids ms = (kept, ids')" by fastforce
  have spec: "ids' = ids \<union> messageIds ms" "messageIds kept = messageIds ms - ids" "distinct (map msg_id kept)"
    using uniqueSource_spec [of ids ms] k by auto
  have "distinct (map msg_id (unique @ kept))" using Cons.prems spec by (auto simp: messageIds_def)
  moreover have ids': "ids' = messageIds (unique @ kept)" using Cons.prems(2) spec(1,2) by auto
  ultimately show ?case
    using Cons.IH [of "unique @ kept" ids'] k Cons.prems(2) spec(1) by (auto simp: case_prod_unfold)
qed simp

lemma getUnique_spec:
  "distinct (map msg_id (getUniqueMessagesById sources))"
  "messageIds (getUniqueMessagesById sources) = (\<Union>ms \<in> set sources. messageIds ms)"
  using unique_fold [of "[]" "{}" sources] by (simp_all add: getUniqueMessagesById_def case_prod_unfold)

section \<open>Merging into history\<close>

lemma emitOwners_spec:
  assumes "emitOwners owners h (merged, emitted) = (merged', emitted')" "emitted \<subseteq> messageIds merged"
  shows "emitted' \<subseteq> messageIds merged' \<and> messageIds merged \<subseteq> messageIds merged' \<and>
    (\<forall>c \<in> set owners. hasTruthyToolCallId h \<longrightarrow>
       the (msg_toolCallId h) \<in> set (contentToolCallIds (msg_content c)) \<longrightarrow> msg_id c \<in> messageIds merged')"
proof -
  let ?step = "\<lambda>(merged, emitted) c. if msg_id c \<notin> emitted \<and>
      the (msg_toolCallId h) \<in> set (contentToolCallIds (msg_content c))
      then (merged @ [c], insert (msg_id c) emitted) else (merged, emitted)"
  have "foldl ?step (merged, emitted) owners = (merged', emitted') \<Longrightarrow> emitted \<subseteq> messageIds merged \<Longrightarrow>
      emitted' \<subseteq> messageIds merged' \<and> messageIds merged \<subseteq> messageIds merged' \<and>
      (\<forall>c \<in> set owners. the (msg_toolCallId h) \<in> set (contentToolCallIds (msg_content c)) \<longrightarrow> msg_id c \<in> messageIds merged')"
  proof (induction owners arbitrary: merged emitted)
    case (Cons c owners)
    obtain merged1 emitted1 where 1: "?step (merged, emitted) c = (merged1, emitted1)" by fastforce
    with Cons.prems(2) have "emitted1 \<subseteq> messageIds merged1" "messageIds merged \<subseteq> messageIds merged1"
      "the (msg_toolCallId h) \<in> set (contentToolCallIds (msg_content c)) \<Longrightarrow> msg_id c \<in> messageIds merged1"
      by (auto split: if_splits)
    moreover have "foldl ?step (merged1, emitted1) owners = (merged', emitted')" using Cons.prems(1) 1 by simp
    ultimately show ?case using Cons.IH [of merged1 emitted1] by (simp, blast)
  qed simp
  then show ?thesis using assms by (auto simp: emitOwners_def split: if_splits)
qed

lemma mergeHistoryMessage_spec:
  assumes "mergeHistoryMessage owners f (merged, emitted) h = (merged', emitted')" "emitted \<subseteq> messageIds merged"
  shows "emitted' \<subseteq> messageIds merged' \<and> messageIds merged \<subseteq> messageIds merged' \<and> msg_id (f h) \<in> messageIds merged' \<and>
    (\<forall>c \<in> set owners. hasTruthyToolCallId h \<longrightarrow>
       the (msg_toolCallId h) \<in> set (contentToolCallIds (msg_content c)) \<longrightarrow> msg_id c \<in> messageIds merged')"
proof -
  obtain merged1 emitted1 where 1: "emitOwners owners h (merged, emitted) = (merged1, emitted1)" by fastforce
  have "merged' = merged1 \<and> emitted' = emitted1 \<and> msg_id (f h) \<in> emitted1 \<or>
      merged' = merged1 @ [f h] \<and> emitted' \<subseteq> insert (msg_id (f h)) emitted1"
    using assms(1) 1 by (auto simp: mergeHistoryMessage_def Let_def split: if_splits)
  with emitOwners_spec [OF 1 assms(2)] show ?thesis by (elim disjE) (simp, blast, simp, blast)
qed

lemma merge_fold:
  assumes "foldl (mergeHistoryMessage owners f) (merged, emitted) hs = (merged', emitted')" "emitted \<subseteq> messageIds merged"
  shows "messageIds merged \<subseteq> messageIds merged' \<and> (\<forall>h \<in> set hs. msg_id (f h) \<in> messageIds merged') \<and>
    (\<forall>h \<in> set hs. \<forall>c \<in> set owners. hasTruthyToolCallId h \<longrightarrow>
       the (msg_toolCallId h) \<in> set (contentToolCallIds (msg_content c)) \<longrightarrow> msg_id c \<in> messageIds merged')"
  using assms
proof (induction hs arbitrary: merged emitted)
  case (Cons h hs)
  obtain merged1 emitted1 where 1: "mergeHistoryMessage owners f (merged, emitted) h = (merged1, emitted1)" by fastforce
  note spec = mergeHistoryMessage_spec [OF 1 Cons.prems(2)]
  have "foldl (mergeHistoryMessage owners f) (merged1, emitted1) hs = (merged', emitted')"
    using Cons.prems(1) 1 by simp
  note ih = Cons.IH [OF this conjunct1 [OF spec]]
  show ?case using spec ih by auto
qed simp

lemma merged_contains:
  assumes "h \<in> set hs"
  shows "msg_id (f h) \<in> messageIds (mergeHistoryWithRetainedToolCallOwners hs owners f)"
    and "c \<in> set owners \<Longrightarrow> hasTruthyToolCallId h \<Longrightarrow>
      the (msg_toolCallId h) \<in> set (contentToolCallIds (msg_content c)) \<Longrightarrow>
      msg_id c \<in> messageIds (mergeHistoryWithRetainedToolCallOwners hs owners f)"
proof -
  obtain merged' emitted' where r: "foldl (mergeHistoryMessage owners f) ([], {}) hs = (merged', emitted')" by fastforce
  note spec = merge_fold [OF r]
  show "msg_id (f h) \<in> messageIds (mergeHistoryWithRetainedToolCallOwners hs owners f)"
    using spec assms by (simp add: mergeHistoryWithRetainedToolCallOwners_def r)
  show "c \<in> set owners \<Longrightarrow> hasTruthyToolCallId h \<Longrightarrow>
      the (msg_toolCallId h) \<in> set (contentToolCallIds (msg_content c)) \<Longrightarrow>
      msg_id c \<in> messageIds (mergeHistoryWithRetainedToolCallOwners hs owners f)"
    using spec assms by (simp add: mergeHistoryWithRetainedToolCallOwners_def r)
qed

text \<open>A retained owner owns a call whose result is in history without an owner there.\<close>

lemma keepOwner_spec:
  assumes "c \<in> set (fst (foldr (keepOwner ids unowned) ms ([], {})))"
  shows "\<exists>i \<in> unowned. i \<in> set (contentToolCallIds (msg_content c))"
  using assms
proof (induction ms)
  case (Cons m ms)
  obtain owners seen where f: "foldr (keepOwner ids unowned) ms ([], {}) = (owners, seen)" by fastforce
  show ?case
  proof (cases "c \<in> set owners")
    case True
    with Cons.IH f show ?thesis by simp
  next
    case False
    show ?thesis
    proof (cases "msg_content m")
      case (ContentBlocks bs)
      define new where "new = filter (\<lambda>i. i \<in> unowned \<and> i \<notin> seen) (concat (map blockToolCallId bs))"
      define kept where "kept = filter (\<lambda>b. list_all (\<lambda>i. i \<in> set new) (blockToolCallId b)) bs"
      have "keepOwner ids unowned m (owners, seen) =
          (if msg_role m \<noteq> AssistantRole \<or> msg_id m \<in> ids then (owners, seen)
           else if new = [] then (owners, seen)
           else ((if length kept = length bs then m else m\<lparr>msg_content := ContentBlocks kept\<rparr>) # owners, seen \<union> set new))"
        by (simp only: keepOwner_def prod.case MessageContent.case ContentBlocks Let_def new_def kept_def)
      then have c: "new \<noteq> []" "c = (if length kept = length bs then m else m\<lparr>msg_content := ContentBlocks kept\<rparr>)"
        using Cons.prems False f by (simp_all split: if_splits)
      then obtain i where i: "i \<in> set new" by (metis list.set_sel(1))
      then obtain b where b: "b \<in> set bs" "i \<in> set (blockToolCallId b)" by (auto simp: new_def)
      then have bid: "blockToolCallId b = [i]" by (cases b rule: blockToolCallId.cases) simp_all
      have "b \<in> set kept" using b(1) i bid by (simp add: kept_def)
      then have "i \<in> set (concat (map blockToolCallId kept))" using bid by force
      moreover have "i \<in> set (concat (map blockToolCallId bs))" using b by auto
      moreover have "i \<in> unowned" using i by (simp add: new_def)
      ultimately show ?thesis using c(2) ContentBlocks by (cases "length kept = length bs") auto
    next
      case (ContentText t)
      then have "keepOwner ids unowned m (owners, seen) = (owners, seen)" by (simp add: keepOwner_def)
      with Cons.prems False f show ?thesis by simp
    qed
  qed
qed simp

text \<open>The owner map sends a call to a committed renderer-final message that owns it.\<close>

lemma owners_map_spec:
  assumes "getFinalToolCallOwnersByToolCallId ms final i = Some c"
  shows "c \<in> set ms \<and> final c \<and> i \<in> set (toolCallIdsOf c)"
  using assms
proof (induction ms rule: rev_induct)
  case Nil
  then show ?case by (simp add: getFinalToolCallOwnersByToolCallId_def)
next
  case (snoc m ms)
  have fold: "foldl (\<lambda>o' j. o'(j \<mapsto> m)) owners is i = (if i \<in> set is then Some m else owners i)" for owners "is"
    by (induction "is" arbitrary: owners) auto
  show ?case using snoc by (auto simp: getFinalToolCallOwnersByToolCallId_def fold split: if_splits)
qed

lemma ownerReplacement_spec:
  assumes "getToolCallOwnerReplacement h (getFinalToolCallOwnersByToolCallId ms final) = Some c"
  shows "c \<in> set ms \<and> final c \<and>
    (\<forall>i \<in> set (toolCallIdsOf h). \<exists>c' \<in> set ms. msg_id c' = msg_id c \<and> final c' \<and> i \<in> set (toolCallIdsOf c'))"
proof -
  let ?owners = "getFinalToolCallOwnersByToolCallId ms final"
  from assms obtain i "is" where "toolCallIdsOf h = i # is" "?owners i = Some c"
    and all: "list_all (\<lambda>j. map_option msg_id (?owners j) = Some (msg_id c)) (i # is)"
    by (auto simp: getToolCallOwnerReplacement_def split: list.splits if_splits option.splits)
  moreover have "\<exists>c' \<in> set ms. msg_id c' = msg_id c \<and> final c' \<and> j \<in> set (toolCallIdsOf c')" if "j \<in> set (i # is)" for j
  proof -
    from all that obtain c' where "?owners j = Some c'" "msg_id c' = msg_id c" by (auto simp: list_all_iff)
    then show ?thesis using owners_map_spec by blast
  qed
  ultimately show ?thesis using owners_map_spec [of ms final i c] by simp
qed

lemma final_by_id: "msg_id c = msg_id m \<Longrightarrow> rendererFinal a b c = rendererFinal a b m"
  by (simp add: rendererFinal_def split: option.split)

lemma committed_by_id:
  assumes "m \<in> set ms"
  shows "\<exists>c \<in> set ms. map_of (rev (map (\<lambda>c. (msg_id c, c)) ms)) (msg_id m) = Some c \<and> msg_id c = msg_id m"
proof -
  let ?al = "rev (map (\<lambda>c. (msg_id c, c)) ms)"
  have "msg_id m \<in> fst ` set ?al" using assms by force
  then obtain c where c: "map_of ?al (msg_id m) = Some c" by (metis map_of_eq_None_iff option.exhaust)
  then have "(msg_id m, c) \<in> set ?al" by (rule map_of_SomeD)
  with c show ?thesis by auto
qed

lemma committed_by_id_Some:
  assumes "map_of (rev (map (\<lambda>c. (msg_id c, c)) ms)) i = Some c"
  shows "c \<in> set ms \<and> msg_id c = i"
  using map_of_SomeD [OF assms] by auto

lemma toolResult_not_stale: "msg_role h = ToolResultRole \<Longrightarrow> h \<in> set hs \<Longrightarrow> h \<in> set (staleFreeHistory hs ls)"
  by (simp add: staleFreeHistory_def getSubagentChildSessionId_def isLiveSubagentLifecycleMessage_def truthy_string_def)

lemma other_not_stale: "\<not> isLiveSubagentLifecycleMessage h \<Longrightarrow> h \<in> set hs \<Longrightarrow> h \<in> set (staleFreeHistory hs ls)"
  by (simp add: staleFreeHistory_def getSubagentChildSessionId_def truthy_string_def)

lemma retained_owner_merged:
  assumes "c \<in> set (getRetainedToolCallOwners hs ids ms)"
  shows "msg_id c \<in> messageIds (mergeHistoryWithRetainedToolCallOwners (staleFreeHistory hs ls)
    (getRetainedToolCallOwners hs ids ms) f)"
proof -
  let ?unowned = "historyResultIds hs - getToolCallIds hs"
  have "c \<in> set (fst (foldr (keepOwner ids ?unowned) ms ([], {})))"
    using assms by (simp add: getRetainedToolCallOwners_def Let_def split: if_splits)
  from keepOwner_spec [OF this] obtain i where i: "i \<in> ?unowned" "i \<in> set (contentToolCallIds (msg_content c))" by blast
  then obtain h where h: "h \<in> set hs" "hasTruthyToolCallId h" "i = the (msg_toolCallId h)"
    by (auto simp: historyResultIds_def)
  then have "h \<in> set (staleFreeHistory hs ls)" by (simp add: hasTruthyToolCallId_def toolResult_not_stale)
  with merged_contains(2) [OF this assms h(2)] i(2) h(3) show ?thesis by blast
qed

text \<open>The four sources of the merge, by name.\<close>

definition mergedHistory :: "AgentMessage list \<Rightarrow> AgentMessage list \<Rightarrow> (AgentMessage \<Rightarrow> bool) \<Rightarrow> AgentMessage list" where
  "mergedHistory history committed final =
     (let hs = staleFreeHistory history (liveLifecycle history committed) in
      mergeHistoryWithRetainedToolCallOwners hs
        (getRetainedToolCallOwners history (set (map msg_id hs)) committed)
        (\<lambda>m. nullish (historyReplacement final committed m) m))"

lemma merge_distinct: "distinct (map msg_id (mergeActiveTurnHistory history committed a b))"
  unfolding mergeActiveTurnHistory_def Let_def by (rule getUnique_spec)

lemma merged_in_result:
  "messageIds (mergedHistory history committed (rendererFinal a b)) \<subseteq> messageIds (mergeActiveTurnHistory history committed a b)"
  unfolding mergeActiveTurnHistory_def mergedHistory_def Let_def getUnique_spec by simp blast

text \<open>A history message that is not stale is merged under the identifier of its replacement.\<close>

lemma replacement_merged:
  assumes "h \<in> set (staleFreeHistory history (liveLifecycle history committed))"
  shows "msg_id (nullish (historyReplacement final committed h) h) \<in> messageIds (mergedHistory history committed final)"
  unfolding mergedHistory_def Let_def by (rule merged_contains(1) [OF assms])

lemma same_id_replacement:
  assumes "m \<in> set committed" "rendererFinal a b m" "msg_id h = msg_id m"
  shows "\<exists>c. historyReplacement (rendererFinal a b) committed h = Some c \<and> msg_id c = msg_id m"
  using committed_by_id [OF assms(1)] assms(2,3) final_by_id [OF assms(3)]
  by (auto simp: historyReplacement_def)

lemma merge_keeps_history:
  assumes "h \<in> set history" "\<not> isLiveSubagentLifecycleMessage h"
  shows "msg_id h \<in> messageIds (mergeActiveTurnHistory history committed a b) \<or>
    (\<exists>i \<in> messageIds (mergeActiveTurnHistory history committed a b). \<forall>j \<in> set (toolCallIdsOf h). \<exists>c \<in> set committed.
       msg_id c = i \<and> rendererFinal a b c \<and> j \<in> set (toolCallIdsOf c))"
proof -
  let ?final = "rendererFinal a b" and ?owners = "getFinalToolCallOwnersByToolCallId committed (rendererFinal a b)"
  have "h \<in> set (staleFreeHistory history (liveLifecycle history committed))"
    using assms by (simp add: other_not_stale)
  note merged = subsetD [OF merged_in_result [of history committed a b] replacement_merged [OF this]]
  show ?thesis
  proof (cases "historyReplacement ?final committed h")
    case None
    with merged show ?thesis by simp
  next
    case (Some c)
    then consider "msg_id c = msg_id h" | "getToolCallOwnerReplacement h ?owners = Some c"
      by (auto simp: historyReplacement_def nullish_option_conv split: option.splits if_splits dest: committed_by_id_Some)
    then show ?thesis
    proof cases
      case 1
      with merged Some show ?thesis by simp
    next
      case 2
      with merged Some ownerReplacement_spec [OF 2] show ?thesis by auto
    qed
  qed
qed

lemma merge_keeps_final:
  assumes m: "m \<in> set committed" "rendererFinal a b m"
  shows "msg_id m \<in> messageIds (mergeActiveTurnHistory history committed a b) \<or>
    hasFullyRepresentedToolCalls m (getToolCallIds history)"
proof -
  let ?final = "rendererFinal a b" and ?live = "liveLifecycle history committed"
  let ?hs = "staleFreeHistory history ?live"
  let ?ids = "set (map msg_id ?hs)"
  let ?owners = "getRetainedToolCallOwners history ?ids committed"
  let ?replacement = "historyReplacement ?final committed"
  note merged = subsetD [OF merged_in_result [of history committed a b]]
  consider (history) "msg_id m \<in> ?ids" | (owner) "msg_id m \<in> set (map msg_id ?owners)"
    | (replaced) "msg_id m \<in> set (map msg_id (List.map_filter ?replacement ?hs))"
    | (represented) "hasFullyRepresentedToolCalls m (getToolCallIds ?hs)"
    | (appended) "msg_id m \<notin> ?ids" "msg_id m \<notin> set (map msg_id ?owners)"
        "msg_id m \<notin> set (map msg_id (List.map_filter ?replacement ?hs))"
        "\<not> hasFullyRepresentedToolCalls m (getToolCallIds ?hs)"
    by blast
  then show ?thesis
  proof cases
    case history
    then obtain h where h: "h \<in> set ?hs" "msg_id h = msg_id m" by auto
    from same_id_replacement [OF m h(2)] replacement_merged [OF h(1), of ?final] merged
    show ?thesis by auto
  next
    case owner
    then obtain c where c: "c \<in> set ?owners" "msg_id c = msg_id m" by auto
    have "msg_id c \<in> messageIds (mergedHistory history committed ?final)"
      unfolding mergedHistory_def Let_def by (rule retained_owner_merged [OF c(1)])
    with c(2) merged show ?thesis by simp
  next
    case replaced
    then obtain h c where h: "h \<in> set ?hs" "?replacement h = Some c" "msg_id c = msg_id m"
      by (auto simp: set_map_filter)
    with replacement_merged [OF h(1), of ?final] merged show ?thesis by simp
  next
    case represented
    have "getToolCallIds ?hs \<subseteq> getToolCallIds history"
      by (auto simp: getToolCallIds_def staleFreeHistory_def)
    with represented show ?thesis by (auto simp: hasFullyRepresentedToolCalls_def list_all_iff)
  next
    case appended
    then show ?thesis using m
      unfolding mergeActiveTurnHistory_def Let_def getUnique_spec by (auto simp: messageIds_def)
  qed
qed

section \<open>Properties\<close>

text \<open>C22: Cutting a transcript to a suffix removes exactly the messages that are connected, through
any chain of tool calls with both an owner and a result, to a message before the cut; so the
messages that stay keep all their partners, and no other message of the suffix is removed.\<close>

theorem split_associations_removed_exactly:
  "removeIncompleteAssociations ms s = nths ms ({s..} - (associated ms)\<^sup>* `` {..<s}) \<and>
   associated ms `` ({s..} - (associated ms)\<^sup>* `` {..<s}) \<subseteq> {s..} - (associated ms)\<^sup>* `` {..<s}"
proof
  have "{j. s \<le> j \<and> (\<forall>i. i < s \<longrightarrow> (i, j) \<notin> (associated ms)\<^sup>*)} = {s..} - (associated ms)\<^sup>* `` {..<s}" by auto
  then show "removeIncompleteAssociations ms s = nths ms ({s..} - (associated ms)\<^sup>* `` {..<s})"
    by (simp add: removeIncompleteAssociations_reference)
  have sym: "(j, k) \<in> associated ms \<Longrightarrow> (k, j) \<in> associated ms" for j k by (auto simp: associated_def)
  show "associated ms `` ({s..} - (associated ms)\<^sup>* `` {..<s}) \<subseteq> {s..} - (associated ms)\<^sup>* `` {..<s}"
  proof
    fix k
    assume "k \<in> associated ms `` ({s..} - (associated ms)\<^sup>* `` {..<s})"
    then obtain j where j: "(j, k) \<in> associated ms" "s \<le> j" "j \<notin> (associated ms)\<^sup>* `` {..<s}" by auto
    then have "k \<notin> (associated ms)\<^sup>* `` {..<s}" using sym [OF j(1)] by (blast intro: rtrancl_into_rtrancl)
    moreover from this have "s \<le> k" by (meson ImageI lessThan_iff not_le rtrancl.rtrancl_refl)
    ultimately show "k \<in> {s..} - (associated ms)\<^sup>* `` {..<s}" by simp
  qed
qed

text \<open>C23: Trimming keeps the newest messages: the longest suffix of at most a thousand messages that stays within
the byte budget, or else consists of a single message, which is kept even when it alone exceeds the
budget. From this suffix exactly the messages are removed that are connected, through any chain of
tool calls with both an owner and a result, to a message before it, and of what is left the
transient tool results whose call is not retained. The result keeps the same bounds.\<close>

theorem trimmed_transcript_is_newest:
  "\<exists>kept. suffix kept ms \<and> fitsTab stringify kept \<and> (\<forall>k. suffix k ms \<and> fitsTab stringify k \<longrightarrow> suffix k kept) \<and>
     (let s = length ms - length kept; retained = nths ms ({s..} - (associated ms)\<^sup>* `` {..<s})
      in trimSessionMessages stringify ms transient = filter (\<lambda>m. \<not> ownerlessTransient transient retained m) retained) \<and>
     fitsTab stringify (trimSessionMessages stringify ms transient)"
proof (intro exI [of _ "keptSuffix stringify ms"] conjI allI impI)
  let ?kept = "keptSuffix stringify ms"
  let ?s = "length ms - length ?kept"
  show kept: "suffix ?kept ms" "fitsTab stringify ?kept" by (rule keptSuffix_fits)+
  show "suffix k ?kept" if "suffix k ms \<and> fitsTab stringify k" for k
    using that kept(1) keptSuffix_longest by (blast intro: suffix_length_suffix)
  have "{j. ?s \<le> j \<and> (\<forall>i. i < ?s \<longrightarrow> (i, j) \<notin> (associated ms)\<^sup>*)} = {?s..} - (associated ms)\<^sup>* `` {..<?s}" by auto
  then show "let s = ?s; retained = nths ms ({s..} - (associated ms)\<^sup>* `` {..<s})
      in trimSessionMessages stringify ms transient = filter (\<lambda>m. \<not> ownerlessTransient transient retained m) retained"
    by (simp add: trim_filtered Let_def removeIncompleteAssociations_reference)
  have "drop ?s ms = ?kept" using kept(1) by (rule drop_suffix)
  then have "subseq (removeIncompleteAssociations ms ?s) ?kept" using removeIncomplete_subseq [of ms ?s] by simp
  moreover have "subseq (trimSessionMessages stringify ms transient) (removeIncompleteAssociations ms ?s)"
    by (simp add: trim_filtered Let_def)
  ultimately show "fitsTab stringify (trimSessionMessages stringify ms transient)"
    using kept(2) by (blast intro: fitsTab_subseq)
qed

text \<open>A tool call and its result, which fit and are kept whole.\<close>

definition exampleOwner :: AgentMessage where
  "exampleOwner =
     \<lparr>msg_id = ''a'', msg_role = AssistantRole, msg_content = ContentBlocks [ToolCallBlock ''t'' ''read'' []],
      msg_customType = None, msg_display = None, msg_toolCallId = None, msg_toolName = None, msg_isError = None,
      msg_details = JUndefined, msg_usage = None, msg_stopReason = None, msg_errorMessage = None,
      msg_timestamp = None, msg_startedAtMs = None, msg_durationMs = None\<rparr>"

definition exampleResult :: AgentMessage where
  "exampleResult = exampleOwner\<lparr>msg_id := ''r'', msg_role := ToolResultRole, msg_content := ContentBlocks [TextBlock ''ok''],
     msg_toolCallId := Some ''t''\<rparr>"

theorem trimmed_transcript_is_newest_witness:
  "trimSessionMessages (\<lambda>_. ''{}'') [exampleOwner, exampleResult] None = [exampleOwner, exampleResult]"
proof -
  let ?ms = "[exampleOwner, exampleResult]"
  obtain kept where kept: "suffix kept ?ms" "\<forall>k. suffix k ?ms \<and> fitsTab (\<lambda>_. ''{}'') k \<longrightarrow> suffix k kept"
      "let s = length ?ms - length kept; retained = nths ?ms ({s..} - (associated ?ms)\<^sup>* `` {..<s})
       in trimSessionMessages (\<lambda>_. ''{}'') ?ms None = filter (\<lambda>m. \<not> ownerlessTransient None retained m) retained"
    using trimmed_transcript_is_newest [of ?ms "\<lambda>_. ''{}''" None] by blast
  have "fitsTab (\<lambda>_. ''{}'') ?ms"
    by (simp add: fitsTab_def MAX_MESSAGES_PER_TAB_def MAX_PER_TAB_AGGREGATE_UTF8_BYTES_def countMessageUtf8Bytes_def
        utf8Length_def utf8OfTruthy_def exampleOwner_def exampleResult_def)
  with kept(1,2) have "kept = ?ms" by (meson suffix_order.antisym suffix_order.refl)
  with kept(3) show ?thesis by (simp add: ownerlessTransient_def nths_Cons)
qed

text \<open>The same for the live transcripts of sub-agents: at most twenty children with at most a hundred
messages each, within the byte budget or a single child.\<close>

theorem trimmed_children_bounded:
  "length (trimSubagentLiveTranscripts stringify ts) \<le> MAX_SUBAGENT_CHILDREN"
  "(i, ms) \<in> set (trimSubagentLiveTranscripts stringify ts) \<Longrightarrow> length ms \<le> MAX_SUBAGENT_MESSAGES_PER_CHILD"
  "sum_list (map (\<lambda>(i, ms). sum_list (map (countMessageUtf8Bytes stringify) ms)) (trimSubagentLiveTranscripts stringify ts))
     \<le> MAX_SUBAGENT_AGGREGATE_UTF8_BYTES \<or> length (trimSubagentLiveTranscripts stringify ts) \<le> 1"
proof -
  let ?size = "\<lambda>(i, ms). sum_list (map (countMessageUtf8Bytes stringify) ms)"
  define capped where "capped = map (\<lambda>i. (i, let ms = the (map_of ts i) in
     removeIncompleteAssociations ms (length ms - MAX_SUBAGENT_MESSAGES_PER_CHILD)))
     (lastN MAX_SUBAGENT_CHILDREN (sort (map fst ts)))"
  have r: "trimSubagentLiveTranscripts stringify ts =
      keepWithin ?size MAX_SUBAGENT_AGGREGATE_UTF8_BYTES (rev (filter (\<lambda>(i, ms). i \<noteq> []) capped)) 0 []"
    by (simp only: trimSubagentLiveTranscripts_def capped_def Let_def)
  obtain ys where ys: "filter (\<lambda>(i, ms). i \<noteq> []) capped = ys @ trimSubagentLiveTranscripts stringify ts"
    unfolding r by (rule keepWithin_rev)
  have "length (filter (\<lambda>(i, ms). i \<noteq> []) capped) \<le> length capped" by simp
  also have "\<dots> \<le> MAX_SUBAGENT_CHILDREN" by (simp add: capped_def lastN_suffix)
  finally show "length (trimSubagentLiveTranscripts stringify ts) \<le> MAX_SUBAGENT_CHILDREN"
    unfolding ys by simp
  show "length ms \<le> MAX_SUBAGENT_MESSAGES_PER_CHILD" if "(i, ms) \<in> set (trimSubagentLiveTranscripts stringify ts)"
  proof -
    have "(i, ms) \<in> set (filter (\<lambda>(i, ms). i \<noteq> []) capped)" unfolding ys using that by simp
    then obtain xs where "ms = removeIncompleteAssociations xs (length xs - MAX_SUBAGENT_MESSAGES_PER_CHILD)"
      by (auto simp: capped_def Let_def)
    then have "length ms \<le> length (drop (length xs - MAX_SUBAGENT_MESSAGES_PER_CHILD) xs)"
      using list_emb_length [OF removeIncomplete_subseq] by simp
    then show ?thesis by simp
  qed
  show "sum_list (map ?size (trimSubagentLiveTranscripts stringify ts)) \<le> MAX_SUBAGENT_AGGREGATE_UTF8_BYTES \<or>
      length (trimSubagentLiveTranscripts stringify ts) \<le> 1"
    unfolding r by (rule keepWithin_budget) simp_all
qed

text \<open>Merging a history reply into a running turn shows every message once and loses none: a
final message the renderer has shown is still there unless history already has all of
its tool calls, and a history message is there under its own identifier or is represented by a
shown final message that owns all of its tool calls.\<close>

theorem history_merge_loses_nothing:
  "distinct (map msg_id (mergeActiveTurnHistory history committed finalIds finalToolCallIds)) \<and>
   (\<forall>m \<in> set committed. rendererFinal finalIds finalToolCallIds m \<longrightarrow>
      msg_id m \<in> messageIds (mergeActiveTurnHistory history committed finalIds finalToolCallIds) \<or>
      hasFullyRepresentedToolCalls m (getToolCallIds history)) \<and>
   (\<forall>h \<in> set history. \<not> isLiveSubagentLifecycleMessage h \<longrightarrow>
      msg_id h \<in> messageIds (mergeActiveTurnHistory history committed finalIds finalToolCallIds) \<or>
      (\<exists>i \<in> messageIds (mergeActiveTurnHistory history committed finalIds finalToolCallIds).
         \<forall>j \<in> set (toolCallIdsOf h). \<exists>c \<in> set committed.
           msg_id c = i \<and> rendererFinal finalIds finalToolCallIds c \<and> j \<in> set (toolCallIdsOf c)))"
proof (intro conjI ballI impI)
  show "distinct (map msg_id (mergeActiveTurnHistory history committed finalIds finalToolCallIds))"
    by (rule merge_distinct)
next
  fix m
  assume "m \<in> set committed" "rendererFinal finalIds finalToolCallIds m"
  then show "msg_id m \<in> messageIds (mergeActiveTurnHistory history committed finalIds finalToolCallIds) \<or>
      hasFullyRepresentedToolCalls m (getToolCallIds history)"
    by (rule merge_keeps_final)
next
  fix h
  assume "h \<in> set history" "\<not> isLiveSubagentLifecycleMessage h"
  then show "msg_id h \<in> messageIds (mergeActiveTurnHistory history committed finalIds finalToolCallIds) \<or>
      (\<exists>i \<in> messageIds (mergeActiveTurnHistory history committed finalIds finalToolCallIds).
         \<forall>j \<in> set (toolCallIdsOf h). \<exists>c \<in> set committed.
           msg_id c = i \<and> rendererFinal finalIds finalToolCallIds c \<and> j \<in> set (toolCallIdsOf c))"
    by (rule merge_keeps_history)
qed

theorem history_merge_loses_nothing_witness:
  "''a'' \<in> messageIds (mergeActiveTurnHistory [exampleResult] [exampleOwner] (Some (\<lambda>i. i = ''a'')) None)"
  using history_merge_loses_nothing [of "[exampleResult]" "[exampleOwner]" "Some (\<lambda>i. i = ''a'')" None]
  by (simp add: exampleOwner_def exampleResult_def rendererFinal_def hasFullyRepresentedToolCalls_def
      toolCallIdsOf_def getToolCallIds_def)

end
