(* ===== verification/Local_Task_Store.thy ===== *)
theory Local_Task_Store
  imports Yishan_Prelude "HOL-Library.AList"
begin

text \<open>
  The store of local tasks (\<open>domains/local-task/state/localTaskStore.ts\<close>, state type in
  \<open>localTaskStoreState.ts\<close>, data in \<open>localTaskTypes.ts\<close>): the task cache, the hub, workspace and
  link-candidate lists, per-task context, details and links, the tag catalog, and the state of
  mutations.

  Every load takes a request number from a generation counter and its response is dropped when
  the counter has moved on. The counters are local variables of the store's closure; here they
  are fields of the store like the rest. A record of the source indexed by a task identifier is
  a map; \<open>taskById\<close>, which is iterated, is an association list. Every action of the store is one
  definition; \<open>task_step\<close> collects them.
\<close>

section \<open>Data\<close>

datatype LocalTaskStatus = TaskNew | TaskProgressing | TaskDone | TaskCancelled

datatype LocalTaskPriority = PriorityLow | PriorityMedium | PriorityHigh

datatype LocalTaskLoadState = LoadIdle | LoadLoading | LoadLoaded | LoadError

record LocalTaskTagRef =
  tr_id :: string
  tr_name :: "string option"

record LocalTask =
  tsk_id :: string
  tsk_key :: "string option"
  tsk_projectId :: "string option"
  tsk_projectKind :: "string option"
  tsk_projectName :: "string option"
  tsk_title :: string
  tsk_description :: string
  tsk_status :: LocalTaskStatus
  tsk_priority :: LocalTaskPriority
  tsk_createdAt :: string
  tsk_updatedAt :: string
  tsk_completedAt :: "string option"
  tsk_hasActiveWorkspace :: bool
  tsk_tags :: "string list"
  tsk_tagRefs :: "LocalTaskTagRef list"

record LocalTaskContextDetails =
  ctx_directory :: string
  ctx_files :: "(string \<times> string) list"

record LocalTaskProjectDisplay =
  pd_id :: string
  pd_name :: string
  pd_icon :: string
  pd_color :: string

record LocalTaskWorkspaceDisplay =
  wd_id :: string
  wd_projectId :: string
  wd_name :: string
  wd_kind :: string
  wd_status :: string

record LocalTaskDetails =
  dt_task :: LocalTask
  dt_project :: "LocalTaskProjectDisplay option"
  dt_workspaces :: "LocalTaskWorkspaceDisplay list"

record LocalTaskWorkspaceLink =
  wl_id :: string
  wl_localTaskId :: string
  wl_workspaceId :: string
  wl_status :: LocalTaskStatus
  wl_linkedAt :: string
  wl_unlinkedAt :: "string option"

record LocalTaskFilters =
  tf_projectId :: "string option"
  tf_status :: "LocalTaskStatus list option"
  tf_priority :: "LocalTaskPriority option"
  tf_workspaceId :: "string option"
  tf_tags :: "string list option"
  tf_tagIds :: "string list option"

record LocalTaskTagCatalogEntry =
  tc_id :: string
  tc_key :: string
  tc_name :: string
  tc_aliases :: "string list"
  tc_color :: "string option"

section \<open>State\<close>

text \<open>One load per task: its state, its error and its request counter.\<close>

record LoadSlots =
  sl_state :: "string \<rightharpoonup> LocalTaskLoadState"
  sl_error :: "string \<rightharpoonup> string option"
  sl_generation :: "string \<rightharpoonup> nat"

text \<open>The state is declared in two parts: lists and their loads, then tags, single tasks and counters.\<close>

record LocalTaskLists =
  taskById :: "(string \<times> LocalTask) list"
  hubTasks :: "LocalTask list"
  hubProjectDisplayById :: "string \<rightharpoonup> LocalTaskProjectDisplay"
  hubFilters :: LocalTaskFilters
  hubSearchQuery :: string
  progressingTaskCount :: nat
  hubLoadState :: LocalTaskLoadState
  hubError :: "string option"
  taskWorkspaceId :: "string option"
  selectedWorkspaceTaskId :: "string option"
  workspaceTasks :: "LocalTask list"
  workspaceLinks :: "LocalTaskWorkspaceLink list"
  workspaceProgressingTaskCount :: nat
  workspaceLoadState :: LocalTaskLoadState
  workspaceError :: "string option"
  linkCandidateWorkspaceId :: "string option"
  linkCandidateTasks :: "LocalTask list"
  linkCandidateLoadState :: LocalTaskLoadState
  linkCandidateError :: "string option"

record LocalTaskStoreState = LocalTaskLists +
  tagCatalog :: "LocalTaskTagCatalogEntry list"
  tagSuggestions :: "string list"
  tagSuggestionsLoadState :: LocalTaskLoadState
  tagSuggestionsError :: "string option"
  taskLoads :: LoadSlots
  contextByTaskId :: "string \<rightharpoonup> LocalTaskContextDetails"
  contextLoads :: LoadSlots
  detailsByTaskId :: "string \<rightharpoonup> LocalTaskDetails"
  detailsLoads :: LoadSlots
  taskLinksByTaskId :: "string \<rightharpoonup> LocalTaskWorkspaceLink list"
  taskLinksLoads :: LoadSlots
  pendingMutationCount :: nat
  isMutationLoading :: bool
  mutationError :: "string option"
  progressingTaskCountRequestGeneration :: nat
  hubRequestGeneration :: nat
  workspaceRequestGeneration :: nat
  tagSuggestionsRequestGeneration :: nat
  linkCandidateRequestGeneration :: nat
  taskEntityRevisionByTaskId :: "string \<rightharpoonup> nat"
  taskLoadRevisionByTaskId :: "string \<rightharpoonup> nat"

definition noFilters :: LocalTaskFilters where
  "noFilters = \<lparr>tf_projectId = None, tf_status = None, tf_priority = None, tf_workspaceId = None,
     tf_tags = None, tf_tagIds = None\<rparr>"

definition noLoads :: LoadSlots where
  "noLoads = \<lparr>sl_state = Map.empty, sl_error = Map.empty, sl_generation = Map.empty\<rparr>"

definition initialTaskStore :: LocalTaskStoreState where
  "initialTaskStore =
     \<lparr>taskById = [], hubTasks = [], hubProjectDisplayById = Map.empty, hubFilters = noFilters, hubSearchQuery = [],
      progressingTaskCount = 0, hubLoadState = LoadIdle, hubError = None, taskWorkspaceId = None,
      selectedWorkspaceTaskId = None, workspaceTasks = [], workspaceLinks = [], workspaceProgressingTaskCount = 0,
      workspaceLoadState = LoadIdle, workspaceError = None, linkCandidateWorkspaceId = None, linkCandidateTasks = [],
      linkCandidateLoadState = LoadIdle, linkCandidateError = None,
      tagCatalog = [], tagSuggestions = [], tagSuggestionsLoadState = LoadIdle, tagSuggestionsError = None, taskLoads = noLoads, contextByTaskId = Map.empty,
      contextLoads = noLoads, detailsByTaskId = Map.empty, detailsLoads = noLoads, taskLinksByTaskId = Map.empty,
      taskLinksLoads = noLoads, pendingMutationCount = 0, isMutationLoading = False, mutationError = None,
      progressingTaskCountRequestGeneration = 0, hubRequestGeneration = 0, workspaceRequestGeneration = 0,
      tagSuggestionsRequestGeneration = 0, linkCandidateRequestGeneration = 0,
      taskEntityRevisionByTaskId = Map.empty, taskLoadRevisionByTaskId = Map.empty\<rparr>"

section \<open>Entities and tags\<close>

definition nextNumber :: "(string \<rightharpoonup> nat) \<Rightarrow> string \<Rightarrow> nat" where
  "nextNumber counters i = nullish (counters i) 0 + 1"

definition writeTaskEntity :: "LocalTaskStoreState \<Rightarrow> LocalTask \<Rightarrow> LocalTaskStoreState" where
  "writeTaskEntity s task =
     s\<lparr>taskById := AList.update (tsk_id task) task (taskById s),
       taskEntityRevisionByTaskId :=
         (taskEntityRevisionByTaskId s)(tsk_id task \<mapsto> nextNumber (taskEntityRevisionByTaskId s) (tsk_id task))\<rparr>"

text \<open>
  The loop over the tag references of a task: the references kept so far, and whether anything
  changed. A reference of the renamed tag is replaced by a new object and counts as a change.
\<close>

definition reconciledRef :: "string \<Rightarrow> LocalTaskTagCatalogEntry option \<Rightarrow> LocalTaskTagRef \<Rightarrow> LocalTaskTagRef option" where
  "reconciledRef removedTagId renamedTag ref =
     (case renamedTag of
        None \<Rightarrow> None
      | Some tag \<Rightarrow>
          if tr_id ref = removedTagId \<or> tr_id ref = tc_id tag
          then Some \<lparr>tr_id = tc_id tag, tr_name = Some (tc_name tag)\<rparr> else None)"

fun reconcileRefs ::
    "string \<Rightarrow> LocalTaskTagCatalogEntry option \<Rightarrow> LocalTaskTagRef list \<Rightarrow> LocalTaskTagRef list \<Rightarrow> bool \<Rightarrow>
     LocalTaskTagRef list \<times> bool" where
  "reconcileRefs removedTagId renamedTag [] kept changed = (kept, changed)"
| "reconcileRefs removedTagId renamedTag (ref # refs) kept changed =
     (if renamedTag = None \<and> tr_id ref = removedTagId
      then reconcileRefs removedTagId renamedTag refs kept True
      else
        let ref' = nullish (reconciledRef removedTagId renamedTag ref) ref in
        if tr_id ref' \<in> set (map tr_id kept) then reconcileRefs removedTagId renamedTag refs kept True
        else reconcileRefs removedTagId renamedTag refs (kept @ [ref'])
               (changed \<or> reconciledRef removedTagId renamedTag ref \<noteq> None))"

text \<open>\<^term>\<open>None\<close> when the task itself is returned.\<close>

definition reconcileTaskTagRefs ::
    "LocalTask \<Rightarrow> string \<Rightarrow> LocalTaskTagCatalogEntry option \<Rightarrow> LocalTask option" where
  "reconcileTaskTagRefs task removedTagId renamedTag =
     (case reconcileRefs removedTagId renamedTag (tsk_tagRefs task) [] False of
        (refs, changed) \<Rightarrow> if changed then Some (task\<lparr>tsk_tagRefs := refs\<rparr>) else None)"

definition reconciledTask :: "string \<Rightarrow> LocalTaskTagCatalogEntry option \<Rightarrow> LocalTask \<Rightarrow> LocalTask" where
  "reconciledTask removedTagId renamedTag task = nullish (reconcileTaskTagRefs task removedTagId renamedTag) task"

definition reconcileCachedTaskTagRefs ::
    "LocalTaskStoreState \<Rightarrow> string \<Rightarrow> LocalTaskTagCatalogEntry option \<Rightarrow> LocalTaskStoreState" where
  "reconcileCachedTaskTagRefs s removedTagId renamedTag =
     (let s' = foldl (\<lambda>s task. case reconcileTaskTagRefs task removedTagId renamedTag of
                 None \<Rightarrow> s | Some task' \<Rightarrow> writeTaskEntity s task') s (map snd (taskById s)) in
      s'\<lparr>hubTasks := map (reconciledTask removedTagId renamedTag) (hubTasks s'),
         workspaceTasks := map (reconciledTask removedTagId renamedTag) (workspaceTasks s'),
         linkCandidateTasks := map (reconciledTask removedTagId renamedTag) (linkCandidateTasks s')\<rparr>)"

section \<open>Actions\<close>

definition task_setHubFilters :: "LocalTaskFilters \<Rightarrow> LocalTaskStoreState \<Rightarrow> LocalTaskStoreState" where
  "task_setHubFilters filters s = s\<lparr>hubFilters := filters\<rparr>"

text \<open>\<open>[...new Set(tagIds)]\<close> keeps the first of each identifier.\<close>

definition js_unique :: "'a list \<Rightarrow> 'a list" where
  "js_unique xs = rev (remdups (rev xs))"

definition task_reconcileHubTagFilter :: "string \<Rightarrow> string option \<Rightarrow> LocalTaskStoreState \<Rightarrow> LocalTaskStoreState" where
  "task_reconcileHubTagFilter removedTagId survivingTagId s =
     (case tf_tagIds (hubFilters s) of
        None \<Rightarrow> s
      | Some ids \<Rightarrow>
          if removedTagId \<notin> set ids then s
          else
            let ids' = concat (map (\<lambda>i. if i \<noteq> removedTagId then [i]
                   else case truthy_string survivingTagId of None \<Rightarrow> [] | Some t \<Rightarrow> [t]) ids) in
            s\<lparr>hubFilters := (hubFilters s)\<lparr>tf_tagIds := Some (js_unique ids')\<rparr>\<rparr>)"

definition task_setHubSearchQuery :: "string \<Rightarrow> LocalTaskStoreState \<Rightarrow> LocalTaskStoreState" where
  "task_setHubSearchQuery query s = s\<lparr>hubSearchQuery := query\<rparr>"

definition task_beginTagCatalogLoad :: "LocalTaskStoreState \<Rightarrow> LocalTaskStoreState \<times> nat" where
  "task_beginTagCatalogLoad s =
     (let requestId = tagSuggestionsRequestGeneration s + 1 in
      (s\<lparr>tagSuggestionsRequestGeneration := requestId, tagSuggestionsLoadState := LoadLoading,
         tagSuggestionsError := None\<rparr>, requestId))"

text \<open>The suggestions are the names of the catalog; four actions publish a catalog this way.\<close>

definition publishCatalog :: "LocalTaskTagCatalogEntry list \<Rightarrow> LocalTaskStoreState \<Rightarrow> LocalTaskStoreState" where
  "publishCatalog catalog s =
     s\<lparr>tagCatalog := catalog, tagSuggestions := map tc_name catalog, tagSuggestionsLoadState := LoadLoaded,
       tagSuggestionsError := None\<rparr>"

definition task_setTagCatalog :: "nat \<Rightarrow> LocalTaskTagCatalogEntry list \<Rightarrow> LocalTaskStoreState \<Rightarrow> LocalTaskStoreState" where
  "task_setTagCatalog requestId catalog s =
     (if requestId = tagSuggestionsRequestGeneration s then publishCatalog catalog s else s)"

definition task_setTagCatalogError :: "nat \<Rightarrow> string \<Rightarrow> LocalTaskStoreState \<Rightarrow> LocalTaskStoreState" where
  "task_setTagCatalogError requestId error s =
     (if requestId = tagSuggestionsRequestGeneration s
      then s\<lparr>tagSuggestionsLoadState := LoadError, tagSuggestionsError := Some error\<rparr> else s)"

text \<open>\<open>findIndex\<close>, then push or overwrite in place.\<close>

definition upsertEntry ::
    "(LocalTaskTagCatalogEntry \<Rightarrow> bool) \<Rightarrow> LocalTaskTagCatalogEntry \<Rightarrow> LocalTaskTagCatalogEntry list \<Rightarrow>
     LocalTaskTagCatalogEntry list" where
  "upsertEntry P entry catalog =
     (let i = js_findIndex P catalog in if i = -1 then catalog @ [entry] else catalog[nat i := entry])"

definition task_upsertTagCatalogEntry :: "LocalTaskTagCatalogEntry \<Rightarrow> LocalTaskStoreState \<Rightarrow> LocalTaskStoreState" where
  "task_upsertTagCatalogEntry entry s =
     publishCatalog (upsertEntry (\<lambda>e. tc_key e = tc_key entry) entry (tagCatalog s)) s"

definition task_reconcileTagRename ::
    "LocalTaskTagCatalogEntry \<Rightarrow> string option \<Rightarrow> LocalTaskStoreState \<Rightarrow> LocalTaskStoreState" where
  "task_reconcileTagRename renamedTag removedTagId s =
     (let replacedTagId = nullish removedTagId (tc_id renamedTag);
          catalog = filter (\<lambda>e. tc_id e \<noteq> replacedTagId) (tagCatalog s) in
      reconcileCachedTaskTagRefs
        (publishCatalog (upsertEntry (\<lambda>e. tc_id e = tc_id renamedTag) renamedTag catalog) s)
        replacedTagId (Some renamedTag))"

definition task_reconcileTagDeletion :: "string \<Rightarrow> LocalTaskStoreState \<Rightarrow> LocalTaskStoreState" where
  "task_reconcileTagDeletion deletedTagId s =
     reconcileCachedTaskTagRefs
       (publishCatalog (filter (\<lambda>e. tc_id e \<noteq> deletedTagId) (tagCatalog s)) s) deletedTagId None"

definition task_beginProgressingTaskCountLoad :: "LocalTaskStoreState \<Rightarrow> LocalTaskStoreState \<times> nat" where
  "task_beginProgressingTaskCountLoad s =
     (let requestId = progressingTaskCountRequestGeneration s + 1 in
      (s\<lparr>progressingTaskCountRequestGeneration := requestId\<rparr>, requestId))"

definition task_setProgressingTaskCount :: "nat \<Rightarrow> nat \<Rightarrow> LocalTaskStoreState \<Rightarrow> LocalTaskStoreState" where
  "task_setProgressingTaskCount requestId newCount s =
     (if requestId = progressingTaskCountRequestGeneration s then s\<lparr>progressingTaskCount := newCount\<rparr> else s)"

definition task_beginHubLoad :: "LocalTaskStoreState \<Rightarrow> LocalTaskStoreState \<times> nat" where
  "task_beginHubLoad s =
     (let requestId = progressingTaskCountRequestGeneration s + 1 in
      (s\<lparr>progressingTaskCountRequestGeneration := requestId, hubRequestGeneration := requestId,
         hubLoadState := LoadLoading, hubError := None\<rparr>, requestId))"

definition task_setHubResults ::
    "nat \<Rightarrow> LocalTask list \<Rightarrow> (string \<rightharpoonup> LocalTaskProjectDisplay) \<Rightarrow> nat \<Rightarrow> LocalTaskStoreState \<Rightarrow> LocalTaskStoreState" where
  "task_setHubResults requestId tasks projects newCount s =
     (if requestId \<noteq> hubRequestGeneration s then s
      else foldl writeTaskEntity
        (s\<lparr>hubTasks := tasks, hubProjectDisplayById := projects,
           progressingTaskCount := (if requestId = progressingTaskCountRequestGeneration s then newCount
                                    else progressingTaskCount s),
           hubLoadState := LoadLoaded, hubError := None\<rparr>) tasks)"

definition task_setHubError :: "nat \<Rightarrow> string \<Rightarrow> LocalTaskStoreState \<Rightarrow> LocalTaskStoreState" where
  "task_setHubError requestId error s =
     (if requestId = hubRequestGeneration s then s\<lparr>hubLoadState := LoadError, hubError := Some error\<rparr> else s)"

definition task_beginWorkspaceLoad :: "string \<Rightarrow> LocalTaskStoreState \<Rightarrow> LocalTaskStoreState \<times> nat" where
  "task_beginWorkspaceLoad workspaceId s =
     (let requestId = workspaceRequestGeneration s + 1;
          s1 = s\<lparr>workspaceRequestGeneration := requestId\<rparr>;
          s2 = (if taskWorkspaceId s \<noteq> Some workspaceId
                then s1\<lparr>workspaceTasks := [], selectedWorkspaceTaskId := None, workspaceLinks := [],
                        workspaceProgressingTaskCount := 0\<rparr>
                else s1) in
      (s2\<lparr>taskWorkspaceId := Some workspaceId, workspaceLoadState := LoadLoading, workspaceError := None\<rparr>, requestId))"

definition task_clearSelectedWorkspace :: "LocalTaskStoreState \<Rightarrow> LocalTaskStoreState" where
  "task_clearSelectedWorkspace s =
     s\<lparr>workspaceRequestGeneration := workspaceRequestGeneration s + 1, taskWorkspaceId := None,
       selectedWorkspaceTaskId := None, workspaceTasks := [], workspaceLinks := [],
       workspaceProgressingTaskCount := 0, workspaceLoadState := LoadIdle, workspaceError := None\<rparr>"

definition countProgressing :: "LocalTask list \<Rightarrow> nat" where
  "countProgressing tasks = length (filter (\<lambda>task. tsk_status task = TaskProgressing) tasks)"

definition task_setWorkspaceData ::
    "nat \<Rightarrow> string \<Rightarrow> LocalTask list \<Rightarrow> LocalTaskWorkspaceLink list \<Rightarrow> LocalTaskStoreState \<Rightarrow> LocalTaskStoreState" where
  "task_setWorkspaceData requestId workspaceId tasks links s =
     (if requestId \<noteq> workspaceRequestGeneration s \<or> taskWorkspaceId s \<noteq> Some workspaceId then s
      else
        let keepsSelection = (case truthy_string (selectedWorkspaceTaskId s) of
               None \<Rightarrow> False | Some t \<Rightarrow> t \<in> set (map wl_localTaskId links)) in
        foldl writeTaskEntity
          (s\<lparr>selectedWorkspaceTaskId :=
               (if keepsSelection then selectedWorkspaceTaskId s else map_option wl_localTaskId (js_at links 0)),
             workspaceTasks := tasks, workspaceLinks := links,
             workspaceProgressingTaskCount := countProgressing tasks,
             workspaceLoadState := LoadLoaded, workspaceError := None\<rparr>) tasks)"

definition task_selectWorkspaceTask :: "string \<Rightarrow> LocalTaskStoreState \<Rightarrow> LocalTaskStoreState" where
  "task_selectWorkspaceTask taskId s = s\<lparr>selectedWorkspaceTaskId := Some taskId\<rparr>"

definition task_setWorkspaceError :: "nat \<Rightarrow> string \<Rightarrow> string \<Rightarrow> LocalTaskStoreState \<Rightarrow> LocalTaskStoreState" where
  "task_setWorkspaceError requestId workspaceId error s =
     (if requestId \<noteq> workspaceRequestGeneration s \<or> taskWorkspaceId s \<noteq> Some workspaceId then s
      else s\<lparr>workspaceLoadState := LoadError, workspaceError := Some error\<rparr>)"

definition task_beginLinkCandidateLoad :: "string \<Rightarrow> LocalTaskStoreState \<Rightarrow> LocalTaskStoreState \<times> nat" where
  "task_beginLinkCandidateLoad workspaceId s =
     (let requestId = linkCandidateRequestGeneration s + 1 in
      (s\<lparr>linkCandidateRequestGeneration := requestId,
         linkCandidateTasks := (if linkCandidateWorkspaceId s \<noteq> Some workspaceId then [] else linkCandidateTasks s),
         linkCandidateWorkspaceId := Some workspaceId, linkCandidateLoadState := LoadLoading,
         linkCandidateError := None\<rparr>, requestId))"

definition task_setLinkCandidates :: "nat \<Rightarrow> string \<Rightarrow> LocalTask list \<Rightarrow> LocalTaskStoreState \<Rightarrow> LocalTaskStoreState" where
  "task_setLinkCandidates requestId workspaceId tasks s =
     (if requestId \<noteq> linkCandidateRequestGeneration s \<or> linkCandidateWorkspaceId s \<noteq> Some workspaceId then s
      else foldl writeTaskEntity
        (s\<lparr>linkCandidateTasks := tasks, linkCandidateLoadState := LoadLoaded, linkCandidateError := None\<rparr>) tasks)"

definition task_setLinkCandidateError :: "nat \<Rightarrow> string \<Rightarrow> string \<Rightarrow> LocalTaskStoreState \<Rightarrow> LocalTaskStoreState" where
  "task_setLinkCandidateError requestId workspaceId error s =
     (if requestId \<noteq> linkCandidateRequestGeneration s \<or> linkCandidateWorkspaceId s \<noteq> Some workspaceId then s
      else s\<lparr>linkCandidateLoadState := LoadError, linkCandidateError := Some error\<rparr>)"

text \<open>The three assignments that begin, complete and fail a load of one task.\<close>

definition beginSlot :: "string \<Rightarrow> LoadSlots \<Rightarrow> LoadSlots \<times> nat" where
  "beginSlot i slots =
     (let requestId = nextNumber (sl_generation slots) i in
      (slots\<lparr>sl_generation := (sl_generation slots)(i \<mapsto> requestId),
             sl_state := (sl_state slots)(i \<mapsto> LoadLoading), sl_error := (sl_error slots)(i \<mapsto> None)\<rparr>, requestId))"

definition loadedSlot :: "string \<Rightarrow> LoadSlots \<Rightarrow> LoadSlots" where
  "loadedSlot i slots =
     slots\<lparr>sl_state := (sl_state slots)(i \<mapsto> LoadLoaded), sl_error := (sl_error slots)(i \<mapsto> None)\<rparr>"

definition failedSlot :: "string \<Rightarrow> string \<Rightarrow> LoadSlots \<Rightarrow> LoadSlots" where
  "failedSlot i error slots =
     slots\<lparr>sl_state := (sl_state slots)(i \<mapsto> LoadError), sl_error := (sl_error slots)(i \<mapsto> Some error)\<rparr>"

definition bumpSlot :: "LoadSlots \<Rightarrow> string \<Rightarrow> LoadSlots" where
  "bumpSlot slots i = slots\<lparr>sl_generation := (sl_generation slots)(i \<mapsto> nextNumber (sl_generation slots) i)\<rparr>"

definition idleSlot :: "LoadSlots \<Rightarrow> string \<Rightarrow> LoadSlots" where
  "idleSlot slots i =
     slots\<lparr>sl_state := (sl_state slots)(i \<mapsto> LoadIdle), sl_error := (sl_error slots)(i \<mapsto> None)\<rparr>"

definition task_beginTaskLoad :: "string \<Rightarrow> LocalTaskStoreState \<Rightarrow> LocalTaskStoreState \<times> nat" where
  "task_beginTaskLoad i s =
     (case beginSlot i (taskLoads s) of
        (slots, requestId) \<Rightarrow>
          (s\<lparr>taskLoads := slots,
             taskLoadRevisionByTaskId :=
               (taskLoadRevisionByTaskId s)(i \<mapsto> nullish (taskEntityRevisionByTaskId s i) 0)\<rparr>, requestId))"

definition currentTaskLoad :: "nat \<Rightarrow> string \<Rightarrow> LocalTaskStoreState \<Rightarrow> bool" where
  "currentTaskLoad requestId i s \<longleftrightarrow>
     sl_generation (taskLoads s) i = Some requestId \<and>
     taskLoadRevisionByTaskId s i = Some (nullish (taskEntityRevisionByTaskId s i) 0)"

definition task_setTaskEntity :: "nat \<Rightarrow> string \<Rightarrow> LocalTask \<Rightarrow> LocalTaskStoreState \<Rightarrow> LocalTaskStoreState" where
  "task_setTaskEntity requestId i task s =
     (if \<not> currentTaskLoad requestId i s then s
      else (writeTaskEntity s task)\<lparr>taskLoads := loadedSlot i (taskLoads s)\<rparr>)"

definition task_setTaskError :: "nat \<Rightarrow> string \<Rightarrow> string \<Rightarrow> LocalTaskStoreState \<Rightarrow> LocalTaskStoreState" where
  "task_setTaskError requestId i error s =
     (if \<not> currentTaskLoad requestId i s then s else s\<lparr>taskLoads := failedSlot i error (taskLoads s)\<rparr>)"

definition task_beginContextLoad :: "string \<Rightarrow> LocalTaskStoreState \<Rightarrow> LocalTaskStoreState \<times> nat" where
  "task_beginContextLoad i s =
     (case beginSlot i (contextLoads s) of (slots, requestId) \<Rightarrow> (s\<lparr>contextLoads := slots\<rparr>, requestId))"

definition task_setContext :: "nat \<Rightarrow> string \<Rightarrow> LocalTaskContextDetails \<Rightarrow> LocalTaskStoreState \<Rightarrow> LocalTaskStoreState" where
  "task_setContext requestId i ctx s =
     (if sl_generation (contextLoads s) i \<noteq> Some requestId then s
      else s\<lparr>contextByTaskId := (contextByTaskId s)(i \<mapsto> ctx), contextLoads := loadedSlot i (contextLoads s)\<rparr>)"

definition task_setContextError :: "nat \<Rightarrow> string \<Rightarrow> string \<Rightarrow> LocalTaskStoreState \<Rightarrow> LocalTaskStoreState" where
  "task_setContextError requestId i error s =
     (if sl_generation (contextLoads s) i \<noteq> Some requestId then s
      else s\<lparr>contextLoads := failedSlot i error (contextLoads s)\<rparr>)"

definition task_beginDetailsLoad :: "string \<Rightarrow> LocalTaskStoreState \<Rightarrow> LocalTaskStoreState \<times> nat" where
  "task_beginDetailsLoad i s =
     (case beginSlot i (detailsLoads s) of (slots, requestId) \<Rightarrow> (s\<lparr>detailsLoads := slots\<rparr>, requestId))"

definition task_setDetails :: "nat \<Rightarrow> string \<Rightarrow> LocalTaskDetails \<Rightarrow> LocalTaskStoreState \<Rightarrow> LocalTaskStoreState" where
  "task_setDetails requestId i details s =
     (if sl_generation (detailsLoads s) i \<noteq> Some requestId then s
      else (writeTaskEntity (s\<lparr>detailsByTaskId := (detailsByTaskId s)(i \<mapsto> details)\<rparr>) (dt_task details))
             \<lparr>detailsLoads := loadedSlot i (detailsLoads s)\<rparr>)"

definition task_setDetailsError :: "nat \<Rightarrow> string \<Rightarrow> string \<Rightarrow> LocalTaskStoreState \<Rightarrow> LocalTaskStoreState" where
  "task_setDetailsError requestId i error s =
     (if sl_generation (detailsLoads s) i \<noteq> Some requestId then s
      else s\<lparr>detailsLoads := failedSlot i error (detailsLoads s)\<rparr>)"

definition task_invalidateDetailsLoads :: "string list \<Rightarrow> LocalTaskStoreState \<Rightarrow> LocalTaskStoreState" where
  "task_invalidateDetailsLoads ids s =
     s\<lparr>detailsByTaskId := foldl (\<lambda>m i. m(i := None)) (detailsByTaskId s) ids,
       detailsLoads := foldl idleSlot (foldl bumpSlot (detailsLoads s) ids) ids\<rparr>"

definition task_beginTaskLinksLoad :: "string \<Rightarrow> LocalTaskStoreState \<Rightarrow> LocalTaskStoreState \<times> nat" where
  "task_beginTaskLinksLoad i s =
     (case beginSlot i (taskLinksLoads s) of (slots, requestId) \<Rightarrow> (s\<lparr>taskLinksLoads := slots\<rparr>, requestId))"

definition idleIfLoading :: "LoadSlots \<Rightarrow> string \<Rightarrow> LoadSlots" where
  "idleIfLoading slots i =
     (if sl_state slots i = Some LoadLoading then slots\<lparr>sl_state := (sl_state slots)(i \<mapsto> LoadIdle)\<rparr> else slots)"

definition task_invalidateTaskLinksLoads :: "string list \<Rightarrow> LocalTaskStoreState \<Rightarrow> LocalTaskStoreState" where
  "task_invalidateTaskLinksLoads ids s =
     s\<lparr>taskLinksLoads := foldl idleIfLoading (foldl bumpSlot (taskLinksLoads s) ids) ids\<rparr>"

definition task_setTaskLinks :: "nat \<Rightarrow> string \<Rightarrow> LocalTaskWorkspaceLink list \<Rightarrow> LocalTaskStoreState \<Rightarrow> LocalTaskStoreState" where
  "task_setTaskLinks requestId i links s =
     (if sl_generation (taskLinksLoads s) i \<noteq> Some requestId then s
      else s\<lparr>taskLinksByTaskId := (taskLinksByTaskId s)(i \<mapsto> links), taskLinksLoads := loadedSlot i (taskLinksLoads s)\<rparr>)"

definition task_setTaskLinksError :: "nat \<Rightarrow> string \<Rightarrow> string \<Rightarrow> LocalTaskStoreState \<Rightarrow> LocalTaskStoreState" where
  "task_setTaskLinksError requestId i error s =
     (if sl_generation (taskLinksLoads s) i \<noteq> Some requestId then s
      else s\<lparr>taskLinksLoads := failedSlot i error (taskLinksLoads s)\<rparr>)"

definition task_beginMutation :: "LocalTaskStoreState \<Rightarrow> LocalTaskStoreState" where
  "task_beginMutation s =
     s\<lparr>mutationError := (if pendingMutationCount s = 0 then None else mutationError s),
       pendingMutationCount := pendingMutationCount s + 1, isMutationLoading := True\<rparr>"

text \<open>\<open>Math.max(0, count - 1)\<close> is subtraction on natural numbers.\<close>

definition task_finishMutation :: "string option \<Rightarrow> LocalTaskStoreState \<Rightarrow> LocalTaskStoreState" where
  "task_finishMutation error s =
     s\<lparr>pendingMutationCount := pendingMutationCount s - 1, isMutationLoading := pendingMutationCount s - 1 > 0,
       mutationError := nullish_option error (mutationError s)\<rparr>"

definition task_upsertTaskEntity :: "LocalTask \<Rightarrow> LocalTaskStoreState \<Rightarrow> LocalTaskStoreState" where
  "task_upsertTaskEntity task s = writeTaskEntity s task"

definition loadedIfShown :: "LocalTaskLoadState \<Rightarrow> LocalTask list \<Rightarrow> LocalTaskLoadState" where
  "loadedIfShown loadState tasks = (if loadState = LoadLoading \<and> tasks \<noteq> [] then LoadLoaded else loadState)"

text \<open>The second component is what the caller has to reload: the workspace and the link candidates.\<close>

definition task_invalidateTaskListProjections ::
    "LocalTaskStoreState \<Rightarrow> LocalTaskStoreState \<times> (string option \<times> string option)" where
  "task_invalidateTaskListProjections s =
     (let workspaceId = (if workspaceLoadState s = LoadLoading \<and> workspaceTasks s = [] then taskWorkspaceId s else None);
          candidateId = (if linkCandidateLoadState s = LoadLoading \<and> linkCandidateTasks s = []
                         then linkCandidateWorkspaceId s else None) in
      (s\<lparr>progressingTaskCountRequestGeneration := progressingTaskCountRequestGeneration s + 1,
         hubRequestGeneration := hubRequestGeneration s + 1,
         workspaceRequestGeneration := workspaceRequestGeneration s + 1,
         linkCandidateRequestGeneration := linkCandidateRequestGeneration s + 1,
         hubLoadState := loadedIfShown (hubLoadState s) (hubTasks s),
         workspaceLoadState := loadedIfShown (workspaceLoadState s) (workspaceTasks s),
         linkCandidateLoadState := loadedIfShown (linkCandidateLoadState s) (linkCandidateTasks s)\<rparr>,
       (workspaceId, candidateId)))"

text \<open>\<open>Math.max(0, count + delta)\<close>.\<close>

definition adjustCount :: "nat \<Rightarrow> int \<Rightarrow> nat" where
  "adjustCount newCount delta = nat (max 0 (int newCount + delta))"

definition statusDelta :: "LocalTask option \<Rightarrow> LocalTask \<Rightarrow> int" where
  "statusDelta previous task =
     (if map_option tsk_status previous = Some TaskProgressing \<and> tsk_status task \<noteq> TaskProgressing then -1
      else if map_option tsk_status previous \<noteq> Some TaskProgressing \<and> tsk_status task = TaskProgressing then 1
      else 0)"

definition matchesHubStatusFilter :: "LocalTaskFilters \<Rightarrow> LocalTask \<Rightarrow> bool" where
  "matchesHubStatusFilter filters task \<longleftrightarrow>
     (case tf_status filters of None \<Rightarrow> True | Some statuses \<Rightarrow> statuses = [] \<or> tsk_status task \<in> set statuses)"

definition task_reconcileTaskStatus :: "LocalTask \<Rightarrow> LocalTaskStoreState \<Rightarrow> LocalTaskStoreState" where
  "task_reconcileTaskStatus task s =
     (let delta = statusDelta (map_of (taskById s) (tsk_id task)) task;
          s1 = writeTaskEntity s task;
          inPlace = map (\<lambda>t. if tsk_id t = tsk_id task then task else t) in
      s1\<lparr>progressingTaskCount := adjustCount (progressingTaskCount s) delta,
         hubTasks := concat (map (\<lambda>t. if tsk_id t \<noteq> tsk_id task then [t]
           else if matchesHubStatusFilter (hubFilters s) task then [task] else []) (hubTasks s)),
         workspaceTasks := inPlace (workspaceTasks s),
         workspaceProgressingTaskCount :=
           (if tsk_id task \<in> set (map tsk_id (workspaceTasks s))
            then adjustCount (workspaceProgressingTaskCount s) delta else workspaceProgressingTaskCount s),
         linkCandidateTasks := inPlace (linkCandidateTasks s)\<rparr>)"

definition task_invalidateTaskEntities :: "string list \<Rightarrow> LocalTaskStoreState \<Rightarrow> LocalTaskStoreState" where
  "task_invalidateTaskEntities ids s =
     s\<lparr>taskEntityRevisionByTaskId := foldl (\<lambda>m i. m(i \<mapsto> nextNumber m i)) (taskEntityRevisionByTaskId s) ids,
       taskById := filter (\<lambda>(i, t). i \<notin> set ids) (taskById s),
       taskLoads := foldl idleSlot (foldl bumpSlot (taskLoads s) ids) ids\<rparr>"

section \<open>The store as a machine\<close>

text \<open>The actions, grouped as the store lists them.\<close>

datatype HubAction =
    SetHubFilters LocalTaskFilters
  | ReconcileHubTagFilter string "string option"
  | SetHubSearchQuery string
  | BeginProgressingTaskCountLoad
  | SetProgressingTaskCount nat nat
  | BeginHubLoad
  | SetHubResults nat "LocalTask list" "string \<rightharpoonup> LocalTaskProjectDisplay" nat
  | SetHubError nat string

datatype TagAction =
    BeginTagCatalogLoad
  | SetTagCatalog nat "LocalTaskTagCatalogEntry list"
  | SetTagCatalogError nat string
  | UpsertTagCatalogEntry LocalTaskTagCatalogEntry
  | ReconcileTagRename LocalTaskTagCatalogEntry "string option"
  | ReconcileTagDeletion string

datatype WorkspaceAction =
    BeginWorkspaceLoad string
  | ClearSelectedWorkspace
  | SetWorkspaceData nat string "LocalTask list" "LocalTaskWorkspaceLink list"
  | SelectWorkspaceTask string
  | SetWorkspaceError nat string string
  | BeginLinkCandidateLoad string
  | SetLinkCandidates nat string "LocalTask list"
  | SetLinkCandidateError nat string string

datatype TaskLoadAction =
    BeginTaskLoad string
  | SetTaskEntity nat string LocalTask
  | SetTaskError nat string string
  | BeginContextLoad string
  | SetContext nat string LocalTaskContextDetails
  | SetContextError nat string string

datatype DetailsAction =
    BeginDetailsLoad string
  | SetDetails nat string LocalTaskDetails
  | SetDetailsError nat string string
  | InvalidateDetailsLoads "string list"
  | BeginTaskLinksLoad string
  | InvalidateTaskLinksLoads "string list"
  | SetTaskLinks nat string "LocalTaskWorkspaceLink list"
  | SetTaskLinksError nat string string

datatype MutationAction =
    BeginMutation
  | FinishMutation "string option"
  | UpsertTaskEntity LocalTask
  | InvalidateTaskListProjections
  | ReconcileTaskStatus LocalTask
  | InvalidateTaskEntities "string list"

datatype TaskAction =
    OnHub HubAction
  | OnTags TagAction
  | OnWorkspace WorkspaceAction
  | OnTaskLoad TaskLoadAction
  | OnDetails DetailsAction
  | OnMutation MutationAction

fun hubAction :: "HubAction \<Rightarrow> LocalTaskStoreState \<Rightarrow> LocalTaskStoreState" where
  "hubAction (SetHubFilters f) s = task_setHubFilters f s"
| "hubAction (ReconcileHubTagFilter r t) s = task_reconcileHubTagFilter r t s"
| "hubAction (SetHubSearchQuery q) s = task_setHubSearchQuery q s"
| "hubAction BeginProgressingTaskCountLoad s = fst (task_beginProgressingTaskCountLoad s)"
| "hubAction (SetProgressingTaskCount n c) s = task_setProgressingTaskCount n c s"
| "hubAction BeginHubLoad s = fst (task_beginHubLoad s)"
| "hubAction (SetHubResults n ts p c) s = task_setHubResults n ts p c s"
| "hubAction (SetHubError n e) s = task_setHubError n e s"

fun tagAction :: "TagAction \<Rightarrow> LocalTaskStoreState \<Rightarrow> LocalTaskStoreState" where
  "tagAction BeginTagCatalogLoad s = fst (task_beginTagCatalogLoad s)"
| "tagAction (SetTagCatalog n c) s = task_setTagCatalog n c s"
| "tagAction (SetTagCatalogError n e) s = task_setTagCatalogError n e s"
| "tagAction (UpsertTagCatalogEntry c) s = task_upsertTagCatalogEntry c s"
| "tagAction (ReconcileTagRename c r) s = task_reconcileTagRename c r s"
| "tagAction (ReconcileTagDeletion i) s = task_reconcileTagDeletion i s"

fun workspaceAction :: "WorkspaceAction \<Rightarrow> LocalTaskStoreState \<Rightarrow> LocalTaskStoreState" where
  "workspaceAction (BeginWorkspaceLoad w) s = fst (task_beginWorkspaceLoad w s)"
| "workspaceAction ClearSelectedWorkspace s = task_clearSelectedWorkspace s"
| "workspaceAction (SetWorkspaceData n w ts ls) s = task_setWorkspaceData n w ts ls s"
| "workspaceAction (SelectWorkspaceTask i) s = task_selectWorkspaceTask i s"
| "workspaceAction (SetWorkspaceError n w e) s = task_setWorkspaceError n w e s"
| "workspaceAction (BeginLinkCandidateLoad w) s = fst (task_beginLinkCandidateLoad w s)"
| "workspaceAction (SetLinkCandidates n w ts) s = task_setLinkCandidates n w ts s"
| "workspaceAction (SetLinkCandidateError n w e) s = task_setLinkCandidateError n w e s"

fun taskLoadAction :: "TaskLoadAction \<Rightarrow> LocalTaskStoreState \<Rightarrow> LocalTaskStoreState" where
  "taskLoadAction (BeginTaskLoad i) s = fst (task_beginTaskLoad i s)"
| "taskLoadAction (SetTaskEntity n i t) s = task_setTaskEntity n i t s"
| "taskLoadAction (SetTaskError n i e) s = task_setTaskError n i e s"
| "taskLoadAction (BeginContextLoad i) s = fst (task_beginContextLoad i s)"
| "taskLoadAction (SetContext n i c) s = task_setContext n i c s"
| "taskLoadAction (SetContextError n i e) s = task_setContextError n i e s"

fun detailsAction :: "DetailsAction \<Rightarrow> LocalTaskStoreState \<Rightarrow> LocalTaskStoreState" where
  "detailsAction (BeginDetailsLoad i) s = fst (task_beginDetailsLoad i s)"
| "detailsAction (SetDetails n i d) s = task_setDetails n i d s"
| "detailsAction (SetDetailsError n i e) s = task_setDetailsError n i e s"
| "detailsAction (InvalidateDetailsLoads ids) s = task_invalidateDetailsLoads ids s"
| "detailsAction (BeginTaskLinksLoad i) s = fst (task_beginTaskLinksLoad i s)"
| "detailsAction (InvalidateTaskLinksLoads ids) s = task_invalidateTaskLinksLoads ids s"
| "detailsAction (SetTaskLinks n i ls) s = task_setTaskLinks n i ls s"
| "detailsAction (SetTaskLinksError n i e) s = task_setTaskLinksError n i e s"

fun mutationAction :: "MutationAction \<Rightarrow> LocalTaskStoreState \<Rightarrow> LocalTaskStoreState" where
  "mutationAction BeginMutation s = task_beginMutation s"
| "mutationAction (FinishMutation e) s = task_finishMutation e s"
| "mutationAction (UpsertTaskEntity t) s = task_upsertTaskEntity t s"
| "mutationAction InvalidateTaskListProjections s = fst (task_invalidateTaskListProjections s)"
| "mutationAction (ReconcileTaskStatus t) s = task_reconcileTaskStatus t s"
| "mutationAction (InvalidateTaskEntities ids) s = task_invalidateTaskEntities ids s"

fun task_step :: "TaskAction \<Rightarrow> LocalTaskStoreState \<Rightarrow> LocalTaskStoreState" where
  "task_step (OnHub a) s = hubAction a s"
| "task_step (OnTags a) s = tagAction a s"
| "task_step (OnWorkspace a) s = workspaceAction a s"
| "task_step (OnTaskLoad a) s = taskLoadAction a s"
| "task_step (OnDetails a) s = detailsAction a s"
| "task_step (OnMutation a) s = mutationAction a s"

end
