(* ===== verification/Local_Task_Properties.thy ===== *)
theory Local_Task_Properties
  imports Local_Task_Store
begin

text \<open>
  What the task store guarantees. The locale \<open>request_family\<close> is the contract of a load that is
  guarded by a generation counter; it is interpreted for all eight kinds of loads of the store at
  once, and its consequence is that a response is dropped as soon as its request was superseded.
  The rest: a response that is still current settles its load, the flag of running mutations, and
  the reconciliation of tags.
\<close>

section \<open>Loads guarded by a generation counter\<close>

locale request_family = state_machine +
  fixes gen :: "'a \<Rightarrow> nat"
    and issue :: "'a \<Rightarrow> 'a \<times> nat"
    and respond :: "'r \<Rightarrow> nat \<Rightarrow> 'a \<Rightarrow> 'a"
  assumes gen_mono: "inv s \<Longrightarrow> step s t \<Longrightarrow> gen s \<le> gen t"
    and issue_step: "issue s = (t, n) \<Longrightarrow> step s t"
    and issue_gen: "issue s = (t, n) \<Longrightarrow> n = gen t"
    and stale_ignored: "n \<noteq> gen s \<Longrightarrow> respond r n s = s"
begin

lemma steps_gen_mono: "step\<^sup>*\<^sup>* s t \<Longrightarrow> inv s \<Longrightarrow> gen s \<le> gen t"
proof (induction rule: rtranclp_induct)
  case (step t u)
  then have "gen t \<le> gen u" by (blast intro: gen_mono steps_inv)
  with step show ?case by simp
qed simp

lemma superseded_ignored:
  assumes "inv s" "issue s = (s1, n)" "step\<^sup>*\<^sup>* s1 s2" "step s2 s3" "gen s2 < gen s3" "step\<^sup>*\<^sup>* s3 s4"
  shows "respond r n s4 = s4"
proof (rule stale_ignored)
  have "inv s1" using assms(1,2) issue_step inv_step by blast
  then have "gen s1 \<le> gen s2" "inv s2" using assms(3) steps_gen_mono steps_inv by blast+
  moreover have "gen s3 \<le> gen s4" using \<open>inv s2\<close> assms(4,6) inv_step steps_gen_mono by blast
  ultimately show "n \<noteq> gen s4" using issue_gen [OF assms(2)] assms(5) by simp
qed

end

section \<open>The eight kinds of loads\<close>

datatype LoadKind =
    HubLoad
  | CatalogLoad
  | WorkspaceLoad string
  | CandidateLoad string
  | TaskLoad string
  | ContextLoad string
  | DetailsLoad string
  | LinksLoad string

definition slotGen :: "LoadSlots \<Rightarrow> string \<Rightarrow> nat" where
  "slotGen slots i = nullish (sl_generation slots i) 0"

fun loadGen :: "LoadKind \<Rightarrow> LocalTaskStoreState \<Rightarrow> nat" where
  "loadGen HubLoad s = hubRequestGeneration s"
| "loadGen CatalogLoad s = tagSuggestionsRequestGeneration s"
| "loadGen (WorkspaceLoad w) s = workspaceRequestGeneration s"
| "loadGen (CandidateLoad w) s = linkCandidateRequestGeneration s"
| "loadGen (TaskLoad i) s = slotGen (taskLoads s) i"
| "loadGen (ContextLoad i) s = slotGen (contextLoads s) i"
| "loadGen (DetailsLoad i) s = slotGen (detailsLoads s) i"
| "loadGen (LinksLoad i) s = slotGen (taskLinksLoads s) i"

fun issueLoad :: "LoadKind \<Rightarrow> LocalTaskStoreState \<Rightarrow> LocalTaskStoreState \<times> nat" where
  "issueLoad HubLoad s = task_beginHubLoad s"
| "issueLoad CatalogLoad s = task_beginTagCatalogLoad s"
| "issueLoad (WorkspaceLoad w) s = task_beginWorkspaceLoad w s"
| "issueLoad (CandidateLoad w) s = task_beginLinkCandidateLoad w s"
| "issueLoad (TaskLoad i) s = task_beginTaskLoad i s"
| "issueLoad (ContextLoad i) s = task_beginContextLoad i s"
| "issueLoad (DetailsLoad i) s = task_beginDetailsLoad i s"
| "issueLoad (LinksLoad i) s = task_beginTaskLinksLoad i s"

text \<open>The action that begins a load, and the actions that supersede it.\<close>

fun beginAction :: "LoadKind \<Rightarrow> TaskAction" where
  "beginAction HubLoad = OnHub BeginHubLoad"
| "beginAction CatalogLoad = OnTags BeginTagCatalogLoad"
| "beginAction (WorkspaceLoad w) = OnWorkspace (BeginWorkspaceLoad w)"
| "beginAction (CandidateLoad w) = OnWorkspace (BeginLinkCandidateLoad w)"
| "beginAction (TaskLoad i) = OnTaskLoad (BeginTaskLoad i)"
| "beginAction (ContextLoad i) = OnTaskLoad (BeginContextLoad i)"
| "beginAction (DetailsLoad i) = OnDetails (BeginDetailsLoad i)"
| "beginAction (LinksLoad i) = OnDetails (BeginTaskLinksLoad i)"

definition supersedes :: "LoadKind \<Rightarrow> TaskAction \<Rightarrow> bool" where
  "supersedes k a \<longleftrightarrow>
     (case k of
        HubLoad \<Rightarrow> a = OnHub BeginHubLoad \<or> a = OnMutation InvalidateTaskListProjections
      | CatalogLoad \<Rightarrow> a = OnTags BeginTagCatalogLoad
      | WorkspaceLoad w \<Rightarrow> (case a of
            OnWorkspace (BeginWorkspaceLoad w') \<Rightarrow> True | OnWorkspace ClearSelectedWorkspace \<Rightarrow> True
          | OnMutation InvalidateTaskListProjections \<Rightarrow> True | _ \<Rightarrow> False)
      | CandidateLoad w \<Rightarrow> (case a of
            OnWorkspace (BeginLinkCandidateLoad w') \<Rightarrow> True
          | OnMutation InvalidateTaskListProjections \<Rightarrow> True | _ \<Rightarrow> False)
      | TaskLoad i \<Rightarrow> (case a of
            OnTaskLoad (BeginTaskLoad j) \<Rightarrow> i = j
          | OnMutation (InvalidateTaskEntities ids) \<Rightarrow> i \<in> set ids | _ \<Rightarrow> False)
      | ContextLoad i \<Rightarrow> a = OnTaskLoad (BeginContextLoad i)
      | DetailsLoad i \<Rightarrow> (case a of
            OnDetails (BeginDetailsLoad j) \<Rightarrow> i = j
          | OnDetails (InvalidateDetailsLoads ids) \<Rightarrow> i \<in> set ids | _ \<Rightarrow> False)
      | LinksLoad i \<Rightarrow> (case a of
            OnDetails (BeginTaskLinksLoad j) \<Rightarrow> i = j
          | OnDetails (InvalidateTaskLinksLoads ids) \<Rightarrow> i \<in> set ids | _ \<Rightarrow> False))"

text \<open>The outcome an action reports for a request: success or failure, \<^term>\<open>None\<close> for any other action.\<close>

definition responseOutcome :: "LoadKind \<Rightarrow> nat \<Rightarrow> TaskAction \<Rightarrow> bool option" where
  "responseOutcome k n a =
     (case k of
        HubLoad \<Rightarrow> (case a of
            OnHub (SetHubResults m ts p c) \<Rightarrow> if m = n then Some True else None
          | OnHub (SetHubError m e) \<Rightarrow> if m = n then Some False else None | _ \<Rightarrow> None)
      | CatalogLoad \<Rightarrow> (case a of
            OnTags (SetTagCatalog m c) \<Rightarrow> if m = n then Some True else None
          | OnTags (SetTagCatalogError m e) \<Rightarrow> if m = n then Some False else None | _ \<Rightarrow> None)
      | WorkspaceLoad w \<Rightarrow> (case a of
            OnWorkspace (SetWorkspaceData m w' ts ls) \<Rightarrow> if m = n \<and> w' = w then Some True else None
          | OnWorkspace (SetWorkspaceError m w' e) \<Rightarrow> if m = n \<and> w' = w then Some False else None | _ \<Rightarrow> None)
      | CandidateLoad w \<Rightarrow> (case a of
            OnWorkspace (SetLinkCandidates m w' ts) \<Rightarrow> if m = n \<and> w' = w then Some True else None
          | OnWorkspace (SetLinkCandidateError m w' e) \<Rightarrow> if m = n \<and> w' = w then Some False else None | _ \<Rightarrow> None)
      | TaskLoad i \<Rightarrow> (case a of
            OnTaskLoad (SetTaskEntity m j t) \<Rightarrow> if m = n \<and> j = i then Some True else None
          | OnTaskLoad (SetTaskError m j e) \<Rightarrow> if m = n \<and> j = i then Some False else None | _ \<Rightarrow> None)
      | ContextLoad i \<Rightarrow> (case a of
            OnTaskLoad (SetContext m j c) \<Rightarrow> if m = n \<and> j = i then Some True else None
          | OnTaskLoad (SetContextError m j e) \<Rightarrow> if m = n \<and> j = i then Some False else None | _ \<Rightarrow> None)
      | DetailsLoad i \<Rightarrow> (case a of
            OnDetails (SetDetails m j d) \<Rightarrow> if m = n \<and> j = i then Some True else None
          | OnDetails (SetDetailsError m j e) \<Rightarrow> if m = n \<and> j = i then Some False else None | _ \<Rightarrow> None)
      | LinksLoad i \<Rightarrow> (case a of
            OnDetails (SetTaskLinks m j ls) \<Rightarrow> if m = n \<and> j = i then Some True else None
          | OnDetails (SetTaskLinksError m j e) \<Rightarrow> if m = n \<and> j = i then Some False else None | _ \<Rightarrow> None))"

fun loadStateOf :: "LoadKind \<Rightarrow> LocalTaskStoreState \<Rightarrow> LocalTaskLoadState option" where
  "loadStateOf HubLoad s = Some (hubLoadState s)"
| "loadStateOf CatalogLoad s = Some (tagSuggestionsLoadState s)"
| "loadStateOf (WorkspaceLoad w) s = Some (workspaceLoadState s)"
| "loadStateOf (CandidateLoad w) s = Some (linkCandidateLoadState s)"
| "loadStateOf (TaskLoad i) s = sl_state (taskLoads s) i"
| "loadStateOf (ContextLoad i) s = sl_state (contextLoads s) i"
| "loadStateOf (DetailsLoad i) s = sl_state (detailsLoads s) i"
| "loadStateOf (LinksLoad i) s = sl_state (taskLinksLoads s) i"

section \<open>Frames\<close>

text \<open>Writing entities touches the cache and its revisions only, reconciling tags also the lists.\<close>

lemma write_frame [simp]:
  "hubRequestGeneration (writeTaskEntity s t) = hubRequestGeneration s"
  "progressingTaskCountRequestGeneration (writeTaskEntity s t) = progressingTaskCountRequestGeneration s"
  "tagSuggestionsRequestGeneration (writeTaskEntity s t) = tagSuggestionsRequestGeneration s"
  "workspaceRequestGeneration (writeTaskEntity s t) = workspaceRequestGeneration s"
  "linkCandidateRequestGeneration (writeTaskEntity s t) = linkCandidateRequestGeneration s"
  "taskLoads (writeTaskEntity s t) = taskLoads s" "contextLoads (writeTaskEntity s t) = contextLoads s"
  "detailsLoads (writeTaskEntity s t) = detailsLoads s" "taskLinksLoads (writeTaskEntity s t) = taskLinksLoads s"
  "pendingMutationCount (writeTaskEntity s t) = pendingMutationCount s"
  "isMutationLoading (writeTaskEntity s t) = isMutationLoading s"
  "tagCatalog (writeTaskEntity s t) = tagCatalog s" "tagSuggestions (writeTaskEntity s t) = tagSuggestions s"
  "hubTasks (writeTaskEntity s t) = hubTasks s" "workspaceTasks (writeTaskEntity s t) = workspaceTasks s"
  "linkCandidateTasks (writeTaskEntity s t) = linkCandidateTasks s"
  "hubLoadState (writeTaskEntity s t) = hubLoadState s" "workspaceLoadState (writeTaskEntity s t) = workspaceLoadState s"
  "linkCandidateLoadState (writeTaskEntity s t) = linkCandidateLoadState s"
  "tagSuggestionsLoadState (writeTaskEntity s t) = tagSuggestionsLoadState s"
  "taskWorkspaceId (writeTaskEntity s t) = taskWorkspaceId s"
  "linkCandidateWorkspaceId (writeTaskEntity s t) = linkCandidateWorkspaceId s"
  by (simp_all add: writeTaskEntity_def)

text \<open>What a fold of writes keeps.\<close>

lemma write_fold:
  assumes "\<And>s t. f (writeTaskEntity s t) = f s"
  shows "f (foldl writeTaskEntity s ts) = f s"
  using assms by (induction ts arbitrary: s) simp_all

lemmas writes_frame [simp] = write_frame [THEN write_fold]

lemma reconcile_frame:
  assumes "\<And>s t. f (writeTaskEntity s t) = f s"
    and "\<And>s x y z. f (s\<lparr>hubTasks := x, workspaceTasks := y, linkCandidateTasks := z\<rparr>) = f s"
  shows "f (reconcileCachedTaskTagRefs s r c) = f s"
proof -
  have "f (foldl (\<lambda>s task. case reconcileTaskTagRefs task r c of None \<Rightarrow> s | Some t \<Rightarrow> writeTaskEntity s t) s ts) = f s" for s ts
    by (induction ts arbitrary: s) (simp_all add: assms(1) split: option.split)
  then show ?thesis by (simp add: reconcileCachedTaskTagRefs_def Let_def assms(2))
qed

lemma reconcile_frames [simp]:
  "hubRequestGeneration (reconcileCachedTaskTagRefs s r c) = hubRequestGeneration s"
  "progressingTaskCountRequestGeneration (reconcileCachedTaskTagRefs s r c) = progressingTaskCountRequestGeneration s"
  "tagSuggestionsRequestGeneration (reconcileCachedTaskTagRefs s r c) = tagSuggestionsRequestGeneration s"
  "workspaceRequestGeneration (reconcileCachedTaskTagRefs s r c) = workspaceRequestGeneration s"
  "linkCandidateRequestGeneration (reconcileCachedTaskTagRefs s r c) = linkCandidateRequestGeneration s"
  "taskLoads (reconcileCachedTaskTagRefs s r c) = taskLoads s"
  "contextLoads (reconcileCachedTaskTagRefs s r c) = contextLoads s"
  "detailsLoads (reconcileCachedTaskTagRefs s r c) = detailsLoads s"
  "taskLinksLoads (reconcileCachedTaskTagRefs s r c) = taskLinksLoads s"
  "pendingMutationCount (reconcileCachedTaskTagRefs s r c) = pendingMutationCount s"
  "isMutationLoading (reconcileCachedTaskTagRefs s r c) = isMutationLoading s"
  "tagCatalog (reconcileCachedTaskTagRefs s r c) = tagCatalog s"
  "tagSuggestions (reconcileCachedTaskTagRefs s r c) = tagSuggestions s"
  "taskWorkspaceId (reconcileCachedTaskTagRefs s r c) = taskWorkspaceId s"
  "linkCandidateWorkspaceId (reconcileCachedTaskTagRefs s r c) = linkCandidateWorkspaceId s"
  by (rule reconcile_frame; simp)+

lemmas task_action_defs = task_setHubFilters_def task_reconcileHubTagFilter_def task_setHubSearchQuery_def
  task_beginTagCatalogLoad_def task_setTagCatalog_def task_setTagCatalogError_def task_upsertTagCatalogEntry_def
  task_reconcileTagRename_def task_reconcileTagDeletion_def publishCatalog_def
  task_beginProgressingTaskCountLoad_def task_setProgressingTaskCount_def task_beginHubLoad_def
  task_setHubResults_def task_setHubError_def task_beginWorkspaceLoad_def task_clearSelectedWorkspace_def
  task_setWorkspaceData_def task_selectWorkspaceTask_def task_setWorkspaceError_def task_beginLinkCandidateLoad_def
  task_setLinkCandidates_def task_setLinkCandidateError_def task_beginTaskLoad_def task_setTaskEntity_def
  task_setTaskError_def task_beginContextLoad_def task_setContext_def task_setContextError_def
  task_beginDetailsLoad_def task_setDetails_def task_setDetailsError_def task_invalidateDetailsLoads_def
  task_beginTaskLinksLoad_def task_invalidateTaskLinksLoads_def task_setTaskLinks_def task_setTaskLinksError_def
  task_beginMutation_def task_finishMutation_def task_upsertTaskEntity_def task_invalidateTaskListProjections_def
  task_reconcileTaskStatus_def task_invalidateTaskEntities_def

section \<open>Generations of one task\<close>

lemma slotGen_simps [simp]:
  "slotGen (loadedSlot i slots) j = slotGen slots j"
  "slotGen (failedSlot i e slots) j = slotGen slots j"
  "slotGen (idleSlot slots i) j = slotGen slots j"
  "slotGen (idleIfLoading slots i) j = slotGen slots j"
  "slotGen (bumpSlot slots i) j = (if i = j then Suc (slotGen slots j) else slotGen slots j)"
  "slotGen (fst (beginSlot i slots)) j = (if i = j then Suc (slotGen slots j) else slotGen slots j)"
  by (simp_all add: slotGen_def loadedSlot_def failedSlot_def idleSlot_def idleIfLoading_def bumpSlot_def
      beginSlot_def Let_def nextNumber_def)

lemma slotGen_folds [simp]:
  "slotGen (foldl idleSlot slots ids) j = slotGen slots j"
  "slotGen (foldl idleIfLoading slots ids) j = slotGen slots j"
  by (induction ids arbitrary: slots) simp_all

lemma slotGen_bumps:
  "slotGen slots j \<le> slotGen (foldl bumpSlot slots ids) j"
  "j \<in> set ids \<Longrightarrow> slotGen slots j < slotGen (foldl bumpSlot slots ids) j"
  "j \<notin> set ids \<Longrightarrow> slotGen (foldl bumpSlot slots ids) j = slotGen slots j"
proof (induction ids arbitrary: slots)
  case (Cons i ids)
  { case 1 show ?case using Cons(1) [of "bumpSlot slots i"] by (auto split: if_splits) }
  { case 2 show ?case using Cons(1,2) [of "bumpSlot slots i"] 2 by (cases "j = i") (auto split: if_splits) }
  { case 3 then show ?case using Cons(3) [of "bumpSlot slots i"] by auto }
qed simp_all

section \<open>The invariant and the counters\<close>

definition task_inv :: "LocalTaskStoreState \<Rightarrow> bool" where
  "task_inv s \<longleftrightarrow>
     hubRequestGeneration s \<le> progressingTaskCountRequestGeneration s \<and>
     (isMutationLoading s \<longleftrightarrow> pendingMutationCount s > 0) \<and>
     tagSuggestions s = map tc_name (tagCatalog s)"

lemma task_inv_initial: "task_inv initialTaskStore"
  by (simp add: task_inv_def initialTaskStore_def)

lemma task_inv_groups:
  assumes "task_inv s"
  shows "task_inv (hubAction h s)" "task_inv (tagAction g s)" "task_inv (workspaceAction w s)"
    "task_inv (taskLoadAction l s)" "task_inv (detailsAction d s)" "task_inv (mutationAction m s)"
proof -
  show "task_inv (hubAction h s)"
    using assms by (cases h) (auto simp: task_inv_def task_action_defs Let_def split: option.split)
  show "task_inv (tagAction g s)"
    using assms by (cases g) (simp_all add: task_inv_def task_action_defs Let_def)
  show "task_inv (workspaceAction w s)"
    using assms by (cases w) (simp_all add: task_inv_def task_action_defs Let_def)
  show "task_inv (taskLoadAction l s)"
    using assms by (cases l) (simp_all add: task_inv_def task_action_defs Let_def split: prod.split)
  show "task_inv (detailsAction d s)"
    using assms by (cases d) (simp_all add: task_inv_def task_action_defs Let_def split: prod.split)
  show "task_inv (mutationAction m s)"
    using assms by (cases m) (simp_all add: task_inv_def task_action_defs Let_def)
qed

lemma task_inv_step: "task_inv s \<Longrightarrow> task_inv (task_step a s)"
  by (cases a) (simp_all add: task_inv_groups)

lemma begin_slot_state:
  "fst (task_beginTaskLoad i s) = s\<lparr>taskLoads := fst (beginSlot i (taskLoads s)),
     taskLoadRevisionByTaskId := (taskLoadRevisionByTaskId s)(i \<mapsto> nullish (taskEntityRevisionByTaskId s i) 0)\<rparr>"
  "fst (task_beginContextLoad i s) = s\<lparr>contextLoads := fst (beginSlot i (contextLoads s))\<rparr>"
  "fst (task_beginDetailsLoad i s) = s\<lparr>detailsLoads := fst (beginSlot i (detailsLoads s))\<rparr>"
  "fst (task_beginTaskLinksLoad i s) = s\<lparr>taskLinksLoads := fst (beginSlot i (taskLinksLoads s))\<rparr>"
  by (simp_all add: task_beginTaskLoad_def task_beginContextLoad_def task_beginDetailsLoad_def
      task_beginTaskLinksLoad_def split: prod.split)

text \<open>An action moves the counter of a load exactly when it supersedes it.\<close>

definition moves :: "LoadKind \<Rightarrow> TaskAction \<Rightarrow> LocalTaskStoreState \<Rightarrow> bool" where
  "moves k a s \<longleftrightarrow>
     (if supersedes k a then loadGen k s < loadGen k (task_step a s) else loadGen k (task_step a s) = loadGen k s)"

lemma moves_hub: "task_inv s \<Longrightarrow> moves k (OnHub h) s"
  by (cases k; cases h) (auto simp: moves_def supersedes_def task_inv_def task_action_defs Let_def split: option.split)

lemma moves_tags: "moves k (OnTags h) s"
  by (cases k; cases h) (simp_all add: moves_def supersedes_def task_action_defs Let_def)

lemma moves_workspace: "moves k (OnWorkspace h) s"
  by (cases k; cases h) (simp_all add: moves_def supersedes_def task_action_defs Let_def)

lemma moves_taskLoad: "moves k (OnTaskLoad h) s"
  by (cases k; cases h) (simp_all add: moves_def supersedes_def begin_slot_state task_setTaskEntity_def
      task_setTaskError_def task_setContext_def task_setContextError_def)

lemma moves_details: "moves k (OnDetails h) s"
  by (cases k; cases h) (simp_all add: moves_def supersedes_def begin_slot_state task_setDetails_def
      task_setDetailsError_def task_invalidateDetailsLoads_def task_invalidateTaskLinksLoads_def
      task_setTaskLinks_def task_setTaskLinksError_def slotGen_bumps)

lemma moves_mutation: "moves k (OnMutation h) s"
  by (cases k; cases h) (simp_all add: moves_def supersedes_def task_action_defs Let_def slotGen_bumps)

lemma moves_step: "task_inv s \<Longrightarrow> moves k a s"
  by (cases a) (simp_all add: moves_hub moves_tags moves_workspace moves_taskLoad moves_details moves_mutation)

section \<open>Responses\<close>

text \<open>Which group of actions answers which kind of load.\<close>

lemma response_group:
  assumes "responseOutcome k n a \<noteq> None"
  shows "(\<exists>h. a = OnHub h) \<or> (\<exists>h. a = OnTags h) \<or> (\<exists>h. a = OnWorkspace h) \<or> (\<exists>h. a = OnTaskLoad h) \<or> (\<exists>h. a = OnDetails h)"
  using assms by (cases a; cases k) (simp_all add: responseOutcome_def)

lemma stale_slot: "n \<noteq> slotGen slots i \<Longrightarrow> sl_generation slots i \<noteq> Some n"
  by (auto simp: slotGen_def)

lemma stale_hub: "responseOutcome k n (OnHub h) \<noteq> None \<Longrightarrow> n \<noteq> loadGen k s \<Longrightarrow> hubAction h s = s"
  by (cases h; cases k) (simp_all add: responseOutcome_def task_setHubResults_def task_setHubError_def split: if_splits)

lemma stale_tags: "responseOutcome k n (OnTags h) \<noteq> None \<Longrightarrow> n \<noteq> loadGen k s \<Longrightarrow> tagAction h s = s"
  by (cases h; cases k) (simp_all add: responseOutcome_def task_setTagCatalog_def task_setTagCatalogError_def split: if_splits)

lemma stale_workspace: "responseOutcome k n (OnWorkspace h) \<noteq> None \<Longrightarrow> n \<noteq> loadGen k s \<Longrightarrow> workspaceAction h s = s"
  by (cases h; cases k) (simp_all add: responseOutcome_def task_setWorkspaceData_def task_setWorkspaceError_def
      task_setLinkCandidates_def task_setLinkCandidateError_def split: if_splits)

lemma stale_taskLoad: "responseOutcome k n (OnTaskLoad h) \<noteq> None \<Longrightarrow> n \<noteq> loadGen k s \<Longrightarrow> taskLoadAction h s = s"
  by (cases h; cases k) (simp_all add: responseOutcome_def task_setTaskEntity_def task_setTaskError_def
      task_setContext_def task_setContextError_def currentTaskLoad_def stale_slot split: if_splits)

lemma stale_details: "responseOutcome k n (OnDetails h) \<noteq> None \<Longrightarrow> n \<noteq> loadGen k s \<Longrightarrow> detailsAction h s = s"
  by (cases h; cases k) (simp_all add: responseOutcome_def task_setDetails_def task_setDetailsError_def
      task_setTaskLinks_def task_setTaskLinksError_def stale_slot split: if_splits)

lemma stale_response:
  assumes "responseOutcome k n a \<noteq> None" "n \<noteq> loadGen k s"
  shows "task_step a s = s"
  using response_group [OF assms(1)] assms
  by (elim disjE exE) (simp_all add: stale_hub stale_tags stale_workspace stale_taskLoad stale_details)

lemma issue_is_begin: "fst (issueLoad k s) = task_step (beginAction k) s"
  by (cases k) simp_all

lemma issue_number: "snd (issueLoad k s) = loadGen k (fst (issueLoad k s))"
  by (cases k) (simp_all add: task_beginHubLoad_def task_beginTagCatalogLoad_def task_beginWorkspaceLoad_def
      task_beginLinkCandidateLoad_def task_beginTaskLoad_def task_beginContextLoad_def task_beginDetailsLoad_def
      task_beginTaskLinksLoad_def beginSlot_def slotGen_def Let_def)

interpretation loads: request_family "\<lambda>s. s = initialTaskStore" "\<lambda>s t. \<exists>a. t = task_step a s" task_inv
  "loadGen k" "issueLoad k" "\<lambda>a n s. if responseOutcome k n a \<noteq> None then task_step a s else s" for k
proof unfold_locales
  show "task_inv s" if "s = initialTaskStore" for s using that task_inv_initial by simp
  show "task_inv t" if "task_inv s" "\<exists>a. t = task_step a s" for s t using that task_inv_step by blast
  show "loadGen k s \<le> loadGen k t" if "task_inv s" "\<exists>a. t = task_step a s" for s t
  proof -
    from that(2) obtain a where "t = task_step a s" by blast
    with moves_step [OF that(1), of k a] show ?thesis by (auto simp: moves_def split: if_splits)
  qed
  show "\<exists>a. t = task_step a s" if "issueLoad k s = (t, n)" for s t n
    using issue_is_begin [of k s] that by auto
  show "n = loadGen k t" if "issueLoad k s = (t, n)" for s t n
    using issue_number [of k s] that by simp
  show "(if responseOutcome k n a \<noteq> None then task_step a s else s) = s" if "n \<noteq> loadGen k s" for n s a
    using stale_response [of k n a s] that by simp
qed

definition task_run :: "TaskAction list \<Rightarrow> LocalTaskStoreState \<Rightarrow> LocalTaskStoreState" where
  "task_run as s = fold task_step as s"

lemma task_run_steps: "(\<lambda>s t. \<exists>a. t = task_step a s)\<^sup>*\<^sup>* s (task_run as s)"
  by (induction as arbitrary: s) (auto simp: task_run_def intro: converse_rtranclp_into_rtranclp)

lemma task_run_inv: "task_inv s \<Longrightarrow> task_inv (task_run as s)"
  using loads.steps_inv task_run_steps by blast

lemma reachable_task_inv: "task_inv (task_run as initialTaskStore)"
  by (rule task_run_inv [OF task_inv_initial])

text \<open>As long as nothing supersedes a load its number stays the current one.\<close>

lemma gen_kept:
  "task_inv s \<Longrightarrow> list_all (\<lambda>a. \<not> supersedes k a) as \<Longrightarrow> loadGen k (task_run as s) = loadGen k s"
proof (induction as arbitrary: s)
  case (Cons a as)
  then have "loadGen k (task_step a s) = loadGen k s" using moves_step [of s k a] by (simp add: moves_def)
  with Cons show ?case by (simp add: task_run_def task_inv_step)
qed (simp add: task_run_def)

text \<open>The workspace a list belongs to changes only when a load of that list is superseded.\<close>

fun loadTarget :: "LoadKind \<Rightarrow> LocalTaskStoreState \<Rightarrow> bool" where
  "loadTarget (WorkspaceLoad w) s = (taskWorkspaceId s = Some w)"
| "loadTarget (CandidateLoad w) s = (linkCandidateWorkspaceId s = Some w)"
| "loadTarget _ s = True"

lemma target_groups:
  assumes "loadTarget k s"
  shows "loadTarget k (hubAction h s)" "loadTarget k (tagAction g s)"
    "\<not> supersedes k (OnWorkspace w) \<Longrightarrow> loadTarget k (workspaceAction w s)"
    "loadTarget k (taskLoadAction l s)" "loadTarget k (detailsAction d s)" "loadTarget k (mutationAction m s)"
proof -
  show "loadTarget k (hubAction h s)"
    using assms by (cases k; cases h) (simp_all add: task_action_defs Let_def split: option.split)
  show "loadTarget k (tagAction g s)"
    using assms by (cases k; cases g) (simp_all add: task_action_defs Let_def)
  show "loadTarget k (workspaceAction w s)" if "\<not> supersedes k (OnWorkspace w)"
    using assms that by (cases k; cases w) (simp_all add: supersedes_def task_action_defs Let_def)
  show "loadTarget k (taskLoadAction l s)"
    using assms by (cases k; cases l) (simp_all add: task_action_defs Let_def split: prod.split)
  show "loadTarget k (detailsAction d s)"
    using assms by (cases k; cases d) (simp_all add: task_action_defs Let_def split: prod.split)
  show "loadTarget k (mutationAction m s)"
    using assms by (cases k; cases m) (simp_all add: task_action_defs Let_def)
qed

lemma target_step: "loadTarget k s \<Longrightarrow> \<not> supersedes k a \<Longrightarrow> loadTarget k (task_step a s)"
  by (cases a) (simp_all only: task_step.simps target_groups not_False_eq_True)

lemma target_kept: "loadTarget k s \<Longrightarrow> list_all (\<lambda>a. \<not> supersedes k a) as \<Longrightarrow> loadTarget k (task_run as s)"
  by (induction as arbitrary: s) (simp_all add: task_run_def target_step)

lemma issue_target: "loadTarget k (fst (issueLoad k s))"
  by (cases k) (simp_all add: task_beginWorkspaceLoad_def task_beginLinkCandidateLoad_def Let_def)

lemma issue_positive: "0 < loadGen k (fst (issueLoad k s))"
  by (cases k) (simp_all add: task_beginHubLoad_def task_beginTagCatalogLoad_def task_beginWorkspaceLoad_def
      task_beginLinkCandidateLoad_def begin_slot_state Let_def)

lemma current_slot: "0 < slotGen slots i \<Longrightarrow> sl_generation slots i = Some (slotGen slots i)"
  by (cases "sl_generation slots i") (simp_all add: slotGen_def)

lemma slot_states [simp]:
  "sl_state (loadedSlot i slots) i = Some LoadLoaded" "sl_state (failedSlot i e slots) i = Some LoadError"
  by (simp_all add: loadedSlot_def failedSlot_def)

lemma current_groups:
  assumes "loadTarget k s" "n = loadGen k s" "0 < n" "\<forall>i. k \<noteq> TaskLoad i" "responseOutcome k n a = Some ok"
  shows "loadStateOf k (task_step a s) = Some (if ok then LoadLoaded else LoadError)"
proof (cases a)
  case (OnHub h)
  with assms show ?thesis
    by (cases k; cases h) (simp_all add: responseOutcome_def task_setHubResults_def task_setHubError_def split: if_splits)
next
  case (OnTags h)
  with assms show ?thesis
    by (cases k; cases h) (simp_all add: responseOutcome_def task_setTagCatalog_def task_setTagCatalogError_def publishCatalog_def split: if_splits)
next
  case (OnWorkspace h)
  with assms show ?thesis
    by (cases k; cases h) (auto simp: responseOutcome_def task_setWorkspaceData_def task_setWorkspaceError_def
        task_setLinkCandidates_def task_setLinkCandidateError_def Let_def split: if_splits)
next
  case (OnTaskLoad h)
  with assms show ?thesis
    by (cases k; cases h) (auto simp: responseOutcome_def task_setContext_def task_setContextError_def
        current_slot split: if_splits)
next
  case (OnDetails h)
  with assms show ?thesis
    by (cases k; cases h) (auto simp: responseOutcome_def task_setDetails_def task_setDetailsError_def
        task_setTaskLinks_def task_setTaskLinksError_def current_slot split: if_splits)
next
  case (OnMutation h)
  with assms show ?thesis by (cases k) (simp_all add: responseOutcome_def)
qed

section \<open>Tags\<close>

definition refIds :: "LocalTask \<Rightarrow> string list" where
  "refIds task = map tr_id (tsk_tagRefs task)"

text \<open>Where a rename or a deletion sends the identifier of a tag.\<close>

definition mappedId :: "string \<Rightarrow> LocalTaskTagCatalogEntry option \<Rightarrow> string \<Rightarrow> string option" where
  "mappedId removed renamed i =
     (case renamed of
        None \<Rightarrow> if i = removed then None else Some i
      | Some tag \<Rightarrow> Some (if i = removed then tc_id tag else i))"

definition mappedIds :: "string \<Rightarrow> LocalTaskTagCatalogEntry option \<Rightarrow> string set \<Rightarrow> string set" where
  "mappedIds removed renamed I = {j. \<exists>i \<in> I. mappedId removed renamed i = Some j}"

lemma mappedIds_simps [simp]:
  "mappedIds removed renamed {} = {}"
  "mappedIds removed renamed (insert i I) = set_option (mappedId removed renamed i) \<union> mappedIds removed renamed I"
  by (auto simp: mappedIds_def)

lemma reconcileRefs_changed: "reconcileRefs r c refs kept True = (kept', changed') \<Longrightarrow> changed'"
  by (induction refs arbitrary: kept) (auto simp: Let_def split: if_splits)

lemma reconcileRefs_ids:
  assumes "distinct (map tr_id kept)" "reconcileRefs r c refs kept changed = (kept', changed')"
  shows "distinct (map tr_id kept') \<and>
    set (map tr_id kept') = set (map tr_id kept) \<union> mappedIds r c (set (map tr_id refs))"
  using assms
proof (induction refs arbitrary: kept changed)
  case (Cons ref refs)
  let ?ref = "nullish (reconciledRef r c ref) ref"
  have id: "c \<noteq> None \<or> tr_id ref \<noteq> r \<Longrightarrow> mappedId r c (tr_id ref) = Some (tr_id ?ref)"
    by (auto simp: mappedId_def reconciledRef_def split: option.splits)
  consider (drop) "c = None" "tr_id ref = r" | (dup) "c \<noteq> None \<or> tr_id ref \<noteq> r" "tr_id ?ref \<in> set (map tr_id kept)"
    | (keep) "c \<noteq> None \<or> tr_id ref \<noteq> r" "tr_id ?ref \<notin> set (map tr_id kept)" by blast
  then show ?case
  proof cases
    case drop
    then show ?thesis using Cons.IH [of kept True] Cons.prems by (simp add: mappedId_def)
  next
    case dup
    then have "reconcileRefs r c refs kept True = (kept', changed')" using Cons.prems(2) by (auto simp: Let_def)
    from Cons.IH [OF Cons.prems(1) this] dup(2) id [OF dup(1)] show ?thesis by auto
  next
    case keep
    then obtain ch where "reconcileRefs r c refs (kept @ [?ref]) ch = (kept', changed')"
      using Cons.prems(2) by (auto simp: Let_def)
    from Cons.IH [OF _ this] keep(2) Cons.prems(1) id [OF keep(1)] show ?thesis by auto
  qed
qed simp

lemma reconcileRefs_unchanged: "reconcileRefs r c refs kept False = (kept', False) \<Longrightarrow> kept' = kept @ refs"
proof (induction refs arbitrary: kept)
  case (Cons ref refs)
  let ?ref = "nullish (reconciledRef r c ref) ref"
  have kept: "\<not> (c = None \<and> tr_id ref = r)" "tr_id ?ref \<notin> set (map tr_id kept)" "reconciledRef r c ref = None"
    using Cons.prems reconcileRefs_changed [of r c refs _ kept' False]
    by (cases "reconciledRef r c ref"; auto simp: Let_def split: if_splits)+
  with Cons.prems have "reconcileRefs r c refs (kept @ [ref]) False = (kept', False)"
    by (simp add: Let_def split: if_splits)
  from Cons.IH [OF this] show ?case by simp
qed simp

lemma reconciledTask_refs:
  "set (refIds (reconciledTask r c task)) = mappedIds r c (set (refIds task)) \<and> distinct (refIds (reconciledTask r c task))"
proof -
  obtain refs changed where f: "reconcileRefs r c (tsk_tagRefs task) [] False = (refs, changed)" by fastforce
  have ids: "distinct (map tr_id refs)" "set (map tr_id refs) = mappedIds r c (set (refIds task))"
    using reconcileRefs_ids [OF _ f] by (simp_all add: refIds_def)
  show ?thesis
  proof (cases changed)
    case True
    with f ids show ?thesis by (simp add: reconciledTask_def reconcileTaskTagRefs_def refIds_def)
  next
    case False
    with f have "refs = tsk_tagRefs task" using reconcileRefs_unchanged [of r c "tsk_tagRefs task" "[]" refs] by simp
    with f ids False show ?thesis by (simp add: reconciledTask_def reconcileTaskTagRefs_def refIds_def)
  qed
qed

lemma reconciledTask_id [simp]: "tsk_id (reconciledTask r c task) = tsk_id task"
  by (simp add: reconciledTask_def reconcileTaskTagRefs_def split: prod.split)

section \<open>The task cache\<close>

text \<open>Every entry of the cache is stored under the identifier of its task, once.\<close>

definition cache_list :: "(string \<times> LocalTask) list \<Rightarrow> bool" where
  "cache_list r \<longleftrightarrow> distinct (map fst r) \<and> (\<forall>(i, t) \<in> set r. tsk_id t = i)"

lemma set_alist_update: "(a, b) \<in> set (AList.update k v r) \<Longrightarrow> (a, b) = (k, v) \<or> (a, b) \<in> set r"
  by (induction r) (auto split: if_splits)

lemma cache_update: "cache_list r \<Longrightarrow> cache_list (AList.update (tsk_id t) t r)"
  by (auto simp: cache_list_def distinct_update dest!: set_alist_update)

lemma cache_filter: "cache_list r \<Longrightarrow> cache_list (filter P r)"
  by (auto simp: cache_list_def distinct_map_filter)

lemma cache_write [simp]: "cache_list (taskById s) \<Longrightarrow> cache_list (taskById (writeTaskEntity s t))"
  by (simp add: writeTaskEntity_def cache_update)

lemma cache_writes [simp]: "cache_list (taskById s) \<Longrightarrow> cache_list (taskById (foldl writeTaskEntity s ts))"
  by (induction ts arbitrary: s) simp_all

definition reconcileStep ::
    "string \<Rightarrow> LocalTaskTagCatalogEntry option \<Rightarrow> LocalTaskStoreState \<Rightarrow> LocalTask \<Rightarrow> LocalTaskStoreState" where
  "reconcileStep r c s task = (case reconcileTaskTagRefs task r c of None \<Rightarrow> s | Some t \<Rightarrow> writeTaskEntity s t)"

lemma reconcileStep_cache: "cache_list (taskById s) \<Longrightarrow> cache_list (taskById (foldl (reconcileStep r c) s ts))"
  by (induction ts arbitrary: s) (simp_all add: reconcileStep_def split: option.split)

lemma reconcileCached_taskById:
  "taskById (reconcileCachedTaskTagRefs s r c) = taskById (foldl (reconcileStep r c) s (map snd (taskById s)))"
  by (simp add: reconcileCachedTaskTagRefs_def Let_def reconcileStep_def [abs_def])

lemma cache_reconcile [simp]: "cache_list (taskById s) \<Longrightarrow> cache_list (taskById (reconcileCachedTaskTagRefs s r c))"
  by (simp add: reconcileCached_taskById reconcileStep_cache)

lemma map_of_reconcileStep:
  assumes "map_of (taskById s) (tsk_id t) = Some t"
  shows "map_of (taskById (reconcileStep r c s t)) = (map_of (taskById s))(tsk_id t \<mapsto> reconciledTask r c t)"
proof (cases "reconcileTaskTagRefs t r c")
  case None
  then show ?thesis using assms by (auto simp: reconcileStep_def reconciledTask_def)
next
  case (Some t')
  then have "t' = reconciledTask r c t" by (simp add: reconciledTask_def)
  moreover have "tsk_id t' = tsk_id t" using calculation by simp
  ultimately show ?thesis using Some by (simp add: reconcileStep_def writeTaskEntity_def update_conv')
qed

lemma map_of_reconcileSteps:
  assumes "distinct (map tsk_id ts)" "\<forall>t \<in> set ts. map_of (taskById s) (tsk_id t) = Some t"
  shows "map_of (taskById (foldl (reconcileStep r c) s ts)) i =
    (if i \<in> tsk_id ` set ts then map_option (reconciledTask r c) (map_of (taskById s) i) else map_of (taskById s) i)"
  using assms
proof (induction ts arbitrary: s)
  case (Cons t ts)
  have t: "map_of (taskById s) (tsk_id t) = Some t" using Cons.prems(2) by simp
  note m = map_of_reconcileStep [OF t, of r c]
  have "map_of (taskById (reconcileStep r c s t)) (tsk_id u) = Some u" if "u \<in> set ts" for u
  proof -
    have "tsk_id u \<in> tsk_id ` set ts" using that by (rule imageI)
    then have "tsk_id u \<noteq> tsk_id t" using Cons.prems(1) by auto
    then show ?thesis using Cons.prems(2) that by (simp add: m)
  qed
  with Cons.prems(1) have ih: "map_of (taskById (foldl (reconcileStep r c) (reconcileStep r c s t) ts)) i =
      (if i \<in> tsk_id ` set ts then map_option (reconciledTask r c) (map_of (taskById (reconcileStep r c s t)) i)
       else map_of (taskById (reconcileStep r c s t)) i)"
    by (intro Cons.IH) simp_all
  have "tsk_id t \<notin> tsk_id ` set ts" using Cons.prems(1) by simp
  then show ?case unfolding foldl.simps ih m by (cases "i = tsk_id t") (simp_all add: t)
qed simp

lemma reconcileCached_lookup:
  assumes "cache_list (taskById s)"
  shows "map_of (taskById (reconcileCachedTaskTagRefs s r c)) i = map_option (reconciledTask r c) (map_of (taskById s) i)"
proof -
  let ?ts = "map snd (taskById s)"
  have ids: "map tsk_id ?ts = map fst (taskById s)" using assms by (auto simp: cache_list_def)
  have "distinct (map tsk_id ?ts)" unfolding ids using assms by (simp add: cache_list_def)
  moreover have "map_of (taskById s) (tsk_id t) = Some t" if "t \<in> set ?ts" for t
  proof -
    from that obtain i where i: "(i, t) \<in> set (taskById s)" by auto
    then have "tsk_id t = i" using assms by (auto simp: cache_list_def)
    with i assms show ?thesis by (simp add: cache_list_def)
  qed
  ultimately have "map_of (taskById (reconcileCachedTaskTagRefs s r c)) i =
      (if i \<in> tsk_id ` set ?ts then map_option (reconciledTask r c) (map_of (taskById s) i) else map_of (taskById s) i)"
    unfolding reconcileCached_taskById by (intro map_of_reconcileSteps) simp_all
  moreover have "tsk_id ` set ?ts = fst ` set (taskById s)" using ids by (metis list.set_map)
  moreover have "map_of (taskById s) i = None" if "i \<notin> fst ` set (taskById s)"
    using that by (simp add: map_of_eq_None_iff)
  ultimately show ?thesis by (cases "i \<in> fst ` set (taskById s)") simp_all
qed

lemma cache_groups:
  assumes "cache_list (taskById s)"
  shows "cache_list (taskById (hubAction h s))" "cache_list (taskById (tagAction g s))"
    "cache_list (taskById (workspaceAction w s))" "cache_list (taskById (taskLoadAction l s))"
    "cache_list (taskById (detailsAction d s))" "cache_list (taskById (mutationAction m s))"
proof -
  show "cache_list (taskById (hubAction h s))"
    using assms by (cases h) (simp_all add: task_action_defs Let_def split: option.split)
  show "cache_list (taskById (tagAction g s))"
    using assms by (cases g) (simp_all add: task_action_defs Let_def)
  show "cache_list (taskById (workspaceAction w s))"
    using assms by (cases w) (simp_all add: task_action_defs Let_def)
  show "cache_list (taskById (taskLoadAction l s))"
    using assms by (cases l) (simp_all add: task_action_defs Let_def split: prod.split)
  show "cache_list (taskById (detailsAction d s))"
    using assms by (cases d) (simp_all add: task_action_defs Let_def split: prod.split)
  show "cache_list (taskById (mutationAction m s))"
    using assms by (cases m) (simp_all add: task_action_defs Let_def cache_filter)
qed

lemma cache_step: "cache_list (taskById s) \<Longrightarrow> cache_list (taskById (task_step a s))"
  by (cases a) (simp_all add: cache_groups)

lemma cache_run: "cache_list (taskById s) \<Longrightarrow> cache_list (taskById (task_run as s))"
  by (induction as arbitrary: s) (simp_all add: task_run_def cache_step)

lemma reachable_cache: "cache_list (taskById (task_run as initialTaskStore))"
  by (rule cache_run) (simp add: cache_list_def initialTaskStore_def)

lemma reconcileCached_lists:
  "hubTasks (reconcileCachedTaskTagRefs s r c) = map (reconciledTask r c) (hubTasks s)"
  "workspaceTasks (reconcileCachedTaskTagRefs s r c) = map (reconciledTask r c) (workspaceTasks s)"
  "linkCandidateTasks (reconcileCachedTaskTagRefs s r c) = map (reconciledTask r c) (linkCandidateTasks s)"
proof -
  let ?s = "foldl (reconcileStep r c) s (map snd (taskById s))"
  have kept: "f (foldl (reconcileStep r c) s ts) = f s" if "\<And>s t. f (writeTaskEntity s t) = f s" for f :: "LocalTaskStoreState \<Rightarrow> LocalTask list" and ts
    using that by (induction ts arbitrary: s) (simp_all add: reconcileStep_def split: option.split)
  have "reconcileCachedTaskTagRefs s r c = ?s\<lparr>hubTasks := map (reconciledTask r c) (hubTasks ?s),
      workspaceTasks := map (reconciledTask r c) (workspaceTasks ?s),
      linkCandidateTasks := map (reconciledTask r c) (linkCandidateTasks ?s)\<rparr>"
    by (simp add: reconcileCachedTaskTagRefs_def Let_def reconcileStep_def [abs_def])
  then show "hubTasks (reconcileCachedTaskTagRefs s r c) = map (reconciledTask r c) (hubTasks s)"
    "workspaceTasks (reconcileCachedTaskTagRefs s r c) = map (reconciledTask r c) (workspaceTasks s)"
    "linkCandidateTasks (reconcileCachedTaskTagRefs s r c) = map (reconciledTask r c) (linkCandidateTasks s)"
    by (simp_all add: kept)
qed

text \<open>The tag change an action makes: the identifier that goes away and, for a rename, its successor.\<close>

fun tagChange :: "TagAction \<Rightarrow> (string \<times> LocalTaskTagCatalogEntry option) option" where
  "tagChange (ReconcileTagRename tag removed) = Some (nullish removed (tc_id tag), Some tag)"
| "tagChange (ReconcileTagDeletion i) = Some (i, None)"
| "tagChange _ = None"

definition reconciledFrom :: "string \<Rightarrow> LocalTaskTagCatalogEntry option \<Rightarrow> LocalTask \<Rightarrow> LocalTask \<Rightarrow> bool" where
  "reconciledFrom r c t t' \<longleftrightarrow>
     tsk_id t' = tsk_id t \<and> set (refIds t') = mappedIds r c (set (refIds t)) \<and> distinct (refIds t')"

lemma reconciledFrom_task: "reconciledFrom r c t (reconciledTask r c t)"
  by (simp add: reconciledFrom_def reconciledTask_refs)

lemma tagChange_state:
  assumes "tagChange g = Some (r, c)"
  shows "\<exists>s'. tagAction g s = reconcileCachedTaskTagRefs s' r c \<and> hubTasks s' = hubTasks s \<and>
    workspaceTasks s' = workspaceTasks s \<and> linkCandidateTasks s' = linkCandidateTasks s \<and> taskById s' = taskById s"
  using assms
  by (cases g rule: tagChange.cases)
    (auto simp: task_reconcileTagRename_def task_reconcileTagDeletion_def Let_def publishCatalog_def
      intro!: exI [where x = "publishCatalog _ s" for s])

section \<open>Properties\<close>

text \<open>C24: A response never overwrites newer data: once a load of any of the eight kinds was
superseded, by a newer load of its kind or by an invalidation, its response changes nothing,
whatever actions came before, between and after, whether the response is a result or an error.\<close>

theorem stale_task_responses_ignored:
  assumes "s = task_run before initialTaskStore" "issueLoad k s = (s1, n)"
    and "supersedes k a" "responseOutcome k n response \<noteq> None"
  shows "task_step response (task_run (as @ a # as') s1) = task_run (as @ a # as') s1"
proof -
  let ?s2 = "task_run as s1" and ?s3 = "task_step a (task_run as s1)"
  have inv: "task_inv s" unfolding assms(1) by (rule reachable_task_inv)
  have "s1 = task_step (beginAction k) s" using issue_is_begin [of k s] assms(2) by simp
  then have inv2: "task_inv ?s2" using inv by (simp add: task_inv_step task_run_inv)
  have "loadGen k ?s2 < loadGen k ?s3" using moves_step [OF inv2, of k a] assms(3) by (simp add: moves_def)
  from loads.superseded_ignored [OF inv assms(2) task_run_steps [of s1 as] _ this task_run_steps [of ?s3 as'], of response]
  have "task_step response (task_run as' ?s3) = task_run as' ?s3" using assms(4) by auto
  then show ?thesis by (simp add: task_run_def)
qed

text \<open>A response that is still current settles its load: after a hub, catalog, workspace,
link-candidate, context, details or links load was begun and as long as nothing superseded it, its
result leaves the load in the state loaded and its error in the state error, whatever other
actions came in between.\<close>

theorem current_task_responses_settle:
  assumes "s = task_run before initialTaskStore" "issueLoad k s = (s1, n)" "\<forall>i. k \<noteq> TaskLoad i"
    and "list_all (\<lambda>a. \<not> supersedes k a) as" "responseOutcome k n response = Some ok"
  shows "loadStateOf k (task_step response (task_run as s1)) = Some (if ok then LoadLoaded else LoadError)"
proof (rule current_groups [OF _ _ _ assms(3,5)])
  have inv: "task_inv s" unfolding assms(1) by (rule reachable_task_inv)
  have s1: "s1 = fst (issueLoad k s)" "n = snd (issueLoad k s)" using assms(2) by simp_all
  have "task_inv s1" unfolding s1 issue_is_begin using inv by (rule task_inv_step)
  then have "loadGen k (task_run as s1) = loadGen k s1" using assms(4) by (rule gen_kept)
  then show "n = loadGen k (task_run as s1)" "0 < n" using issue_number [of k s] issue_positive [of k s] s1 by simp_all
  show "loadTarget k (task_run as s1)" unfolding s1 by (rule target_kept [OF issue_target assms(4)])
qed

text \<open>Renaming, merging or deleting a tag reconciles every copy of every task: in the cache, the
hub, the workspace list and the link candidates each task keeps its other tags, refers to the
successor instead of the tag that went away (to nothing after a deletion), and refers to no tag
twice.\<close>

theorem tag_changes_reach_every_task:
  assumes "s = task_run before initialTaskStore" "tagChange g = Some (r, c)"
  shows "list_all2 (reconciledFrom r c) (hubTasks s) (hubTasks (tagAction g s)) \<and>
    list_all2 (reconciledFrom r c) (workspaceTasks s) (workspaceTasks (tagAction g s)) \<and>
    list_all2 (reconciledFrom r c) (linkCandidateTasks s) (linkCandidateTasks (tagAction g s)) \<and>
    rel_option (reconciledFrom r c) (map_of (taskById s) i) (map_of (taskById (tagAction g s)) i)"
proof -
  obtain s' where s': "tagAction g s = reconcileCachedTaskTagRefs s' r c" "hubTasks s' = hubTasks s"
    "workspaceTasks s' = workspaceTasks s" "linkCandidateTasks s' = linkCandidateTasks s" "taskById s' = taskById s"
    using tagChange_state [OF assms(2), of s] by blast
  have lists: "list_all2 (reconciledFrom r c) ts (map (reconciledTask r c) ts)" for ts
    by (induction ts) (simp_all add: reconciledFrom_task)
  have "cache_list (taskById s')" unfolding s'(5) assms(1) by (rule reachable_cache)
  from reconcileCached_lookup [OF this, of r c i]
  have "rel_option (reconciledFrom r c) (map_of (taskById s) i) (map_of (taskById (tagAction g s)) i)"
    unfolding s'(1,5) by (cases "map_of (taskById s) i") (simp_all add: reconciledFrom_task)
  then show ?thesis using lists by (simp add: s' reconcileCached_lists)
qed

text \<open>The flag of running mutations, the tag suggestions and the hub counter stay consistent.\<close>

theorem task_store_consistent:
  assumes "s = task_run as initialTaskStore"
  shows "(isMutationLoading s \<longleftrightarrow> pendingMutationCount s > 0) \<and> tagSuggestions s = map tc_name (tagCatalog s) \<and>
    cache_list (taskById s)"
  using reachable_task_inv [of as] reachable_cache [of as] assms by (simp add: task_inv_def)

text \<open>
  A status update invalidates the lists. The workspace and link-candidate loads that were dropped
  are begun again by the caller, a first hub load is not: its response is ignored and the hub
  stays in the state loading.
\<close>

theorem status_update_strands_first_hub_load:
  "case issueLoad HubLoad initialTaskStore of (s1, n) \<Rightarrow>
     case task_invalidateTaskListProjections s1 of (s2, reload) \<Rightarrow>
       reload = (None, None) \<and> hubLoadState (task_setHubResults n ts ps m (task_reconcileTaskStatus t s2)) = LoadLoading"
  by (simp add: task_beginHubLoad_def task_invalidateTaskListProjections_def task_reconcileTaskStatus_def
      task_setHubResults_def initialTaskStore_def loadedIfShown_def Let_def)

section \<open>Examples\<close>

definition exampleTask :: "string list \<Rightarrow> LocalTask" where
  "exampleTask ids =
     \<lparr>tsk_id = ''t'', tsk_key = None, tsk_projectId = None, tsk_projectKind = None, tsk_projectName = None,
      tsk_title = ''task'', tsk_description = [], tsk_status = TaskNew, tsk_priority = PriorityLow,
      tsk_createdAt = [], tsk_updatedAt = [], tsk_completedAt = None, tsk_hasActiveWorkspace = False,
      tsk_tags = [], tsk_tagRefs = map (\<lambda>i. \<lparr>tr_id = i, tr_name = None\<rparr>) ids\<rparr>"

theorem stale_task_responses_ignored_witness:
  "task_step (OnHub (SetHubError 1 ''late''))
     (task_run [OnHub BeginProgressingTaskCountLoad, OnHub BeginHubLoad] (fst (task_beginHubLoad initialTaskStore))) =
   task_run [OnHub BeginProgressingTaskCountLoad, OnHub BeginHubLoad] (fst (task_beginHubLoad initialTaskStore))"
  using stale_task_responses_ignored [of initialTaskStore "[]" HubLoad "fst (task_beginHubLoad initialTaskStore)" 1
      "OnHub BeginHubLoad" "OnHub (SetHubError 1 ''late'')" "[OnHub BeginProgressingTaskCountLoad]" "[]"]
  by (simp add: task_run_def supersedes_def responseOutcome_def task_beginHubLoad_def initialTaskStore_def Let_def)

theorem current_task_responses_settle_witness:
  "loadStateOf (ContextLoad ''t'') (task_step (OnTaskLoad (SetContextError 1 ''t'' ''gone''))
     (task_run [OnTaskLoad (BeginContextLoad ''u'')] (fst (task_beginContextLoad ''t'' initialTaskStore)))) = Some LoadError"
  using current_task_responses_settle [of initialTaskStore "[]" "ContextLoad ''t''"
      "fst (task_beginContextLoad ''t'' initialTaskStore)" 1 "[OnTaskLoad (BeginContextLoad ''u'')]"
      "OnTaskLoad (SetContextError 1 ''t'' ''gone'')" False]
  by (simp add: task_run_def supersedes_def responseOutcome_def task_beginContextLoad_def beginSlot_def nextNumber_def
      initialTaskStore_def noLoads_def Let_def)

text \<open>A task with the tags a, b and c; tag a is merged into tag b.\<close>

theorem tag_changes_reach_every_task_witness:
  "map_option (\<lambda>t. set (refIds t)) (map_of (taskById (tagAction
     (ReconcileTagRename \<lparr>tc_id = ''b'', tc_key = ''b'', tc_name = ''B'', tc_aliases = [], tc_color = None\<rparr> (Some ''a''))
     (task_run [OnMutation (UpsertTaskEntity (exampleTask [''a'', ''b'', ''c'']))] initialTaskStore))) ''t'') = Some {''b'', ''c''}"
proof -
  let ?tag = "\<lparr>tc_id = ''b'', tc_key = ''b'', tc_name = ''B'', tc_aliases = [], tc_color = None\<rparr>"
  let ?s = "task_run [OnMutation (UpsertTaskEntity (exampleTask [''a'', ''b'', ''c'']))] initialTaskStore"
  have old: "map_of (taskById ?s) ''t'' = Some (exampleTask [''a'', ''b'', ''c''])"
    by (simp add: task_run_def task_upsertTaskEntity_def writeTaskEntity_def initialTaskStore_def exampleTask_def)
  have "rel_option (reconciledFrom ''a'' (Some ?tag)) (map_of (taskById ?s) ''t'')
      (map_of (taskById (tagAction (ReconcileTagRename ?tag (Some ''a'')) ?s)) ''t'')"
    using tag_changes_reach_every_task [OF refl, of "ReconcileTagRename ?tag (Some ''a'')" "''a''" "Some ?tag"
        "[OnMutation (UpsertTaskEntity (exampleTask [''a'', ''b'', ''c'']))]" "''t''"] by simp
  then show ?thesis
    unfolding old option_rel_Some1
    by (auto simp: reconciledFrom_def mappedId_def refIds_def exampleTask_def)
qed

end
