(* ===== verification/File_Tree.thy ===== *)
theory File_Tree
  imports Yishan_Prelude
begin

text \<open>
  The file tree of the file manager
  (\<open>domains/files/features/file-manager/file-tree/treeRows.ts\<close>): the tree that is built from
  a flat list of workspace-relative paths, the rows shown for a set of expanded directories, and
  the helpers on paths. \<open>localeCompare\<close>, whose order depends on the locale data of the host, is
  an argument. The children of a node, an array in one function and an insertion-ordered map in
  the other, are a list. The search for an unused name runs with a fuel that is shown to be
  enough.
\<close>

section \<open>Paths\<close>

definition slash :: char where
  "slash = CHR 0x2F"

definition js_endsWithSlash :: "string \<Rightarrow> bool" where
  "js_endsWithSlash s \<longleftrightarrow> s \<noteq> [] \<and> last s = slash"

text \<open>\<open>path.replace(/\/$/, "")\<close>.\<close>

definition stripTrailingSlash :: "string \<Rightarrow> string" where
  "stripTrailingSlash s = (if js_endsWithSlash s then butlast s else s)"

text \<open>\<open>path.split("/").filter(Boolean)\<close>.\<close>

definition pathParts :: "string \<Rightarrow> string list" where
  "pathParts s = filter (\<lambda>p. p \<noteq> []) (js_split slash s)"

definition joinParts :: "string list \<Rightarrow> string" where
  "joinParts ps = js_join [slash] ps"

definition collectAncestorDirectoryPaths :: "string \<Rightarrow> string list" where
  "collectAncestorDirectoryPaths path =
     (let parts = pathParts (rev (dropWhile (\<lambda>c. c = slash) (rev path))) in
      map (\<lambda>index. joinParts (take (index + 1) parts)) [0..<length parts - 1])"

definition getEntryName :: "string \<Rightarrow> string" where
  "getEntryName path = (case rev (pathParts path) of [] \<Rightarrow> [] | p # ps \<Rightarrow> p)"

definition getParentDirectoryPath :: "string \<Rightarrow> string" where
  "getParentDirectoryPath path = joinParts (butlast (pathParts path))"

definition resolveDestinationDirectoryPath :: "string \<Rightarrow> bool \<Rightarrow> string" where
  "resolveDestinationDirectoryPath targetPath targetIsDirectory =
     (if targetPath = [] then [] else if targetIsDirectory then targetPath else getParentDirectoryPath targetPath)"

definition joinChildPath :: "string \<Rightarrow> string \<Rightarrow> string" where
  "joinChildPath basePath name = (if basePath \<noteq> [] then basePath @ slash # name else name)"

text \<open>The loop of \<open>resolveUniqueChildName\<close>, counting down a fuel.\<close>

fun uniqueAttempt :: "string set \<Rightarrow> string \<Rightarrow> string \<Rightarrow> nat \<Rightarrow> string \<Rightarrow> nat \<Rightarrow> string option" where
  "uniqueAttempt existing basePath seedName 0 attempt index = None"
| "uniqueAttempt existing basePath seedName (Suc fuel) attempt index =
     (if joinChildPath basePath attempt \<in> existing
      then uniqueAttempt existing basePath seedName fuel (seedName @ ''-'' @ js_show_nat index) (index + 1)
      else Some attempt)"

definition resolveUniqueChildName :: "nat \<Rightarrow> string list \<Rightarrow> string \<Rightarrow> string \<Rightarrow> string option" where
  "resolveUniqueChildName fuel existingEntries basePath seedName =
     uniqueAttempt (set (map stripTrailingSlash existingEntries)) basePath seedName fuel seedName 1"

section \<open>The tree\<close>

datatype FileNode = FileNode (fnName: string) (fnPath: string) (fnDir: bool) (fnChildren: "FileNode list")

record VisibleRow =
  row_path :: string
  row_name :: string
  row_depth :: nat
  row_isDirectory :: bool
  row_hasChildren :: bool

text \<open>
  One entry is added below the nodes of a directory; \<open>before\<close> are the parts already walked.
  \<open>implicitDirectory\<close> is the flag of a new inner node: false in \<open>computeVisibleRows\<close>, true in
  \<open>buildTree\<close>.
\<close>

fun insertParts :: "bool \<Rightarrow> bool \<Rightarrow> string list \<Rightarrow> string list \<Rightarrow> FileNode list \<Rightarrow> FileNode list" where
  "insertParts implicitDirectory isDir before [] nodes = nodes"
| "insertParts implicitDirectory isDir before (part # parts) nodes =
     (if part \<in> set (map fnName nodes)
      then updateFirst (\<lambda>n. fnName n = part)
        (\<lambda>n. FileNode (fnName n) (fnPath n) (fnDir n \<or> (isDir \<and> parts = []))
               (insertParts implicitDirectory isDir (before @ [part]) parts (fnChildren n))) nodes
      else nodes @
        [FileNode part (joinParts (before @ [part])) (if parts = [] then isDir else implicitDirectory)
           (insertParts implicitDirectory isDir (before @ [part]) parts [])])"

definition entryParts :: "string \<Rightarrow> string list" where
  "entryParts entry = pathParts (stripTrailingSlash entry)"

definition insertEntry :: "bool \<Rightarrow> FileNode list \<Rightarrow> string \<Rightarrow> FileNode list" where
  "insertEntry implicitDirectory nodes entry =
     insertParts implicitDirectory (js_endsWithSlash entry) [] (entryParts entry) nodes"

definition buildTree :: "string list \<Rightarrow> FileNode" where
  "buildTree files = FileNode [] [] True (foldl (insertEntry True) [] files)"

section \<open>Visible rows\<close>

definition isFolder :: "FileNode \<Rightarrow> bool" where
  "isFolder n \<longleftrightarrow> fnDir n \<or> fnChildren n \<noteq> []"

definition sortNodes :: "(string \<Rightarrow> string \<Rightarrow> int) \<Rightarrow> FileNode \<Rightarrow> FileNode \<Rightarrow> int" where
  "sortNodes localeCompare a b =
     (if isFolder a \<noteq> isFolder b then (if isFolder a then -1 else 1) else localeCompare (fnName a) (fnName b))"

definition nodeRow :: "FileNode \<Rightarrow> nat \<Rightarrow> VisibleRow" where
  "nodeRow n depth =
     \<lparr>row_path = fnPath n, row_name = fnName n, row_depth = depth, row_isDirectory = isFolder n,
      row_hasChildren = (fnChildren n \<noteq> [])\<rparr>"

lemma size_child: "c \<in> set (fnChildren n) \<Longrightarrow> size c < size n"
  by (cases n) (simp add: size_list_estimation' less_Suc_eq_le)

text \<open>The row of a node and, when it is an expanded folder, those of its sorted children.\<close>

function nodeRows :: "(string \<Rightarrow> string \<Rightarrow> int) \<Rightarrow> string set \<Rightarrow> nat \<Rightarrow> FileNode \<Rightarrow> VisibleRow list" where
  "nodeRows localeCompare expanded depth n =
     nodeRow n depth #
     (if isFolder n \<and> fnPath n \<in> expanded
      then concat (map (nodeRows localeCompare expanded (depth + 1)) (sortBy (sortNodes localeCompare) (fnChildren n)))
      else [])"
  by pat_completeness auto

termination
  by (relation "measure (\<lambda>(localeCompare, expanded, depth, n). size n)") (simp_all add: size_child)

declare nodeRows.simps [simp del]

definition computeVisibleRows :: "(string \<Rightarrow> string \<Rightarrow> int) \<Rightarrow> string list \<Rightarrow> string set \<Rightarrow> VisibleRow list" where
  "computeVisibleRows localeCompare files expanded =
     concat (map (nodeRows localeCompare expanded 0)
       (sortBy (sortNodes localeCompare) (foldl (insertEntry False) [] files)))"

section \<open>Directories of a tree\<close>

fun collectExpandedItems :: "string set \<Rightarrow> string set \<Rightarrow> FileNode list \<Rightarrow> string list" where
  "collectExpandedItems ignored explicit [] = []"
| "collectExpandedItems ignored explicit (FileNode name path isDir children # nodes) =
     (if children \<noteq> [] \<and> path \<notin> ignored \<and> path \<notin> explicit
      then path # collectExpandedItems ignored explicit children else []) @
     collectExpandedItems ignored explicit nodes"

fun collectDirectoryPaths :: "FileNode list \<Rightarrow> string set" where
  "collectDirectoryPaths [] = {}"
| "collectDirectoryPaths (FileNode name path isDir children # nodes) =
     (if isDir \<or> children \<noteq> [] then insert path (collectDirectoryPaths children) else {}) \<union>
     collectDirectoryPaths nodes"

end
