(* ===== verification/File_Tree_Properties.thy ===== *)
theory File_Tree_Properties
  imports File_Tree
begin

text \<open>
  What the file tree shows. A forest is read through \<open>nodeAt\<close>, the node at a list of path parts;
  inserting an entry adds exactly the non-empty prefixes of its parts. From this the visible rows
  are characterised without the tree: which paths have a row for a set of expanded directories,
  and what each row says.
\<close>

section \<open>Joining and splitting\<close>

definition part_ok :: "string \<Rightarrow> bool" where
  "part_ok p \<longleftrightarrow> p \<noteq> [] \<and> slash \<notin> set p"

lemma split_join: "ps \<noteq> [] \<Longrightarrow> \<forall>p \<in> set ps. slash \<notin> set p \<Longrightarrow> js_split slash (joinParts ps) = ps"
  unfolding joinParts_def by (rule js_split_join) auto

lemma join_inj:
  assumes "joinParts ps = joinParts qs" "ps \<noteq> []" "qs \<noteq> []" "\<forall>p \<in> set ps. part_ok p" "\<forall>p \<in> set qs. part_ok p"
  shows "ps = qs"
  using assms split_join [of ps] split_join [of qs] by (metis part_ok_def)

lemma js_split_parts: "p \<in> set (js_split c s) \<Longrightarrow> c \<notin> set p"
  by (induction s arbitrary: p) (auto split: if_splits list.splits)

lemma pathParts_ok: "p \<in> set (pathParts s) \<Longrightarrow> part_ok p"
  by (auto simp: pathParts_def part_ok_def js_split_parts)

section \<open>Well-formed forests\<close>

fun node_ok :: "string list \<Rightarrow> FileNode \<Rightarrow> bool" where
  "node_ok before (FileNode name path isDir children) \<longleftrightarrow>
     path = joinParts (before @ [name]) \<and> part_ok name \<and> distinct (map fnName children) \<and>
     (\<forall>c \<in> set children. node_ok (before @ [name]) c)"

definition forest_ok :: "string list \<Rightarrow> FileNode list \<Rightarrow> bool" where
  "forest_ok before ns \<longleftrightarrow> distinct (map fnName ns) \<and> (\<forall>n \<in> set ns. node_ok before n)"

lemma node_ok_children: "node_ok before n \<Longrightarrow> forest_ok (before @ [fnName n]) (fnChildren n)"
  by (cases n) (simp add: forest_ok_def)

lemma node_ok_fields: "node_ok before n \<Longrightarrow> fnPath n = joinParts (before @ [fnName n]) \<and> part_ok (fnName n)"
  by (cases n) simp

lemma node_okI:
  "fnPath n = joinParts (before @ [fnName n]) \<Longrightarrow> part_ok (fnName n) \<Longrightarrow>
   forest_ok (before @ [fnName n]) (fnChildren n) \<Longrightarrow> node_ok before n"
  by (cases n) (simp add: forest_ok_def)

abbreviation findName :: "string \<Rightarrow> FileNode list \<Rightarrow> FileNode option" where
  "findName p ns \<equiv> List.find (\<lambda>n. fnName n = p) ns"

lemma findName_None: "findName p ns = None \<longleftrightarrow> p \<notin> set (map fnName ns)"
  by (auto simp: find_None_iff)

lemma findName_map:
  assumes "\<And>n. fnName (f n) = fnName n"
  shows "findName p (map f ns) = map_option f (findName p ns)"
  using assms by (induction ns) auto

lemma findName_mem: "distinct (map fnName ns) \<Longrightarrow> n \<in> set ns \<Longrightarrow> findName (fnName n) ns = Some n"
  by (induction ns) auto

lemma findName_Some: "findName p ns = Some n \<Longrightarrow> n \<in> set ns \<and> fnName n = p"
  using find_SomeD by fastforce

text \<open>The node after the insertion: found and updated, or new.\<close>

definition insertedNode :: "bool \<Rightarrow> bool \<Rightarrow> string list \<Rightarrow> string list \<Rightarrow> FileNode \<Rightarrow> FileNode" where
  "insertedNode implicit isDir before parts n =
     FileNode (fnName n) (fnPath n) (fnDir n \<or> (isDir \<and> parts = []))
       (insertParts implicit isDir (before @ [fnName n]) parts (fnChildren n))"

definition freshNode :: "bool \<Rightarrow> bool \<Rightarrow> string list \<Rightarrow> string \<Rightarrow> string list \<Rightarrow> FileNode" where
  "freshNode implicit isDir before part parts =
     FileNode part (joinParts (before @ [part])) (if parts = [] then isDir else implicit)
       (insertParts implicit isDir (before @ [part]) parts [])"

lemma insertParts_Cons:
  assumes "distinct (map fnName ns)"
  shows "insertParts implicit isDir before (part # parts) ns =
    (if part \<in> set (map fnName ns)
     then map (\<lambda>n. if fnName n = part then insertedNode implicit isDir before parts n else n) ns
     else ns @ [freshNode implicit isDir before part parts])"
proof -
  have "map (\<lambda>n. if fnName n = part then FileNode (fnName n) (fnPath n) (fnDir n \<or> (isDir \<and> parts = []))
        (insertParts implicit isDir (before @ [part]) parts (fnChildren n)) else n) ns =
      map (\<lambda>n. if fnName n = part then insertedNode implicit isDir before parts n else n) ns"
    by (auto simp: insertedNode_def)
  then show ?thesis using updateFirst_map [OF assms, of "\<lambda>n. fnName n = part"] by (simp add: freshNode_def)
qed

declare insertParts.simps(2) [simp del]

lemma insertParts_ok:
  assumes "forest_ok before ns" "\<forall>p \<in> set parts. part_ok p"
  shows "forest_ok before (insertParts implicit isDir before parts ns)"
  using assms
proof (induction parts arbitrary: before ns)
  case (Cons part parts)
  have d: "distinct (map fnName ns)" using Cons.prems by (simp add: forest_ok_def)
  have names: "map fnName (map (\<lambda>n. if fnName n = part then insertedNode implicit isDir before parts n else n) ns) = map fnName ns"
    by (simp add: insertedNode_def)
  have upd: "node_ok before (insertedNode implicit isDir before parts n)" if "n \<in> set ns" for n
  proof -
    have "node_ok before n" using that Cons.prems(1) by (simp add: forest_ok_def)
    with Cons.IH [OF node_ok_children] Cons.prems(2) node_ok_fields show ?thesis
      by (intro node_okI) (auto simp: insertedNode_def)
  qed
  have "forest_ok (before @ [part]) []" by (simp add: forest_ok_def)
  with Cons.IH [OF this] Cons.prems(2) have new: "node_ok before (freshNode implicit isDir before part parts)"
    by (intro node_okI) (auto simp: freshNode_def)
  show ?case
  proof (cases "part \<in> set (map fnName ns)")
    case True
    have "distinct (map fnName (map (\<lambda>n. if fnName n = part then insertedNode implicit isDir before parts n else n) ns))"
      unfolding names by (rule d)
    with True upd Cons.prems(1) show ?thesis
      unfolding insertParts_Cons [OF d] by (auto simp: forest_ok_def simp del: map_map)
  next
    case False
    with new d Cons.prems(1) show ?thesis
      unfolding insertParts_Cons [OF d] by (auto simp: forest_ok_def freshNode_def)
  qed
qed simp

section \<open>The node at a path\<close>

fun nodeAt :: "FileNode list \<Rightarrow> string list \<Rightarrow> FileNode option" where
  "nodeAt ns [] = None"
| "nodeAt ns (p # ps) =
     (case findName p ns of None \<Rightarrow> None | Some n \<Rightarrow> if ps = [] then Some n else nodeAt (fnChildren n) ps)"

definition dirAt :: "FileNode list \<Rightarrow> string list \<Rightarrow> bool" where
  "dirAt ns q \<longleftrightarrow> (case nodeAt ns q of None \<Rightarrow> False | Some n \<Rightarrow> fnDir n)"

lemma nodeAt_Nil [simp]: "nodeAt [] q = None"
  by (cases q) simp_all

lemma dirAt_Nil [simp]: "\<not> dirAt [] q"
  by (simp add: dirAt_def)

lemma findName_insert:
  assumes "distinct (map fnName ns)"
  shows "findName p (insertParts implicit isDir before (part # parts) ns) =
    (if p = part
     then Some (case findName part ns of Some n \<Rightarrow> insertedNode implicit isDir before parts n
                | None \<Rightarrow> freshNode implicit isDir before part parts)
     else findName p ns)"
proof (cases "part \<in> set (map fnName ns)")
  case True
  then obtain n where n: "findName part ns = Some n" by (metis findName_None option.exhaust)
  let ?f = "\<lambda>n. if fnName n = part then insertedNode implicit isDir before parts n else n"
  have "findName p (map ?f ns) = map_option ?f (findName p ns)"
    by (rule findName_map) (simp add: insertedNode_def)
  moreover have "map_option ?f (findName p ns) = findName p ns" if "p \<noteq> part"
    using that by (cases "findName p ns") (auto dest: findName_Some)
  ultimately show ?thesis
    unfolding insertParts_Cons [OF assms] using True n findName_Some [OF n] by auto
next
  case False
  then have "findName part ns = None" by (simp add: findName_None)
  then show ?thesis
    unfolding insertParts_Cons [OF assms] using False
    by (auto simp: find_append nullish_option_conv freshNode_def split: option.split)
qed

lemma nodeAt_insert:
  assumes "forest_ok before ns"
  shows "nodeAt (insertParts implicit isDir before parts ns) q \<noteq> None \<longleftrightarrow>
    nodeAt ns q \<noteq> None \<or> (q \<noteq> [] \<and> prefix q parts)"
  using assms
proof (induction parts arbitrary: before ns q)
  case Nil
  then show ?case by simp
next
  case (Cons part parts)
  have d: "distinct (map fnName ns)" using Cons.prems by (simp add: forest_ok_def)
  show ?case
  proof (cases q)
    case (Cons p ps)
    note q = this
    show ?thesis
    proof (cases "p = part")
      case True
      show ?thesis
      proof (cases "findName part ns")
        case None
        have "forest_ok (before @ [part]) []" by (simp add: forest_ok_def)
        from Cons.IH [OF this, of ps] show ?thesis
          unfolding q True by (simp add: findName_insert [OF d] None freshNode_def)
      next
        case (Some n)
        then have "forest_ok (before @ [fnName n]) (fnChildren n)"
          using Cons.prems findName_Some [OF Some] by (auto simp: forest_ok_def intro!: node_ok_children [unfolded forest_ok_def])
        from Cons.IH [OF this, of ps] show ?thesis
          unfolding q True by (simp add: findName_insert [OF d] Some insertedNode_def)
      qed
    next
      case False
      then show ?thesis unfolding q by (simp add: findName_insert [OF d])
    qed
  qed simp
qed

lemma dirAt_insert:
  assumes "forest_ok before ns"
  shows "dirAt (insertParts False isDir before parts ns) q \<longleftrightarrow> dirAt ns q \<or> (isDir \<and> q \<noteq> [] \<and> q = parts)"
  using assms
proof (induction parts arbitrary: before ns q)
  case Nil
  then show ?case by simp
next
  case (Cons part parts)
  have d: "distinct (map fnName ns)" using Cons.prems by (simp add: forest_ok_def)
  show ?case
  proof (cases q)
    case (Cons p ps)
    note q = this
    show ?thesis
    proof (cases "p = part")
      case True
      show ?thesis
      proof (cases "findName part ns")
        case None
        have "forest_ok (before @ [part]) []" by (simp add: forest_ok_def)
        from Cons.IH [OF this, of ps] show ?thesis
          unfolding q True by (auto simp: findName_insert [OF d] None freshNode_def dirAt_def)
      next
        case (Some n)
        then have "forest_ok (before @ [fnName n]) (fnChildren n)"
          using Cons.prems findName_Some [OF Some] by (auto simp: forest_ok_def intro!: node_ok_children [unfolded forest_ok_def])
        from Cons.IH [OF this, of ps] show ?thesis
          unfolding q True by (auto simp: findName_insert [OF d] Some insertedNode_def dirAt_def)
      qed
    next
      case False
      then show ?thesis unfolding q by (simp add: findName_insert [OF d] dirAt_def)
    qed
  qed (simp add: dirAt_def)
qed

text \<open>What a node says of itself and of its children.\<close>

lemma nodeAt_spec:
  assumes "forest_ok before ns" "nodeAt ns q = Some n"
  shows "node_ok (before @ butlast q) n \<and> q \<noteq> [] \<and> fnName n = last q \<and> (\<forall>p \<in> set q. part_ok p) \<and>
    (\<forall>x. nodeAt ns (q @ [x]) = findName x (fnChildren n))"
  using assms
proof (induction q arbitrary: before ns)
  case (Cons p ps)
  then obtain c where c: "findName p ns = Some c" "if ps = [] then n = c else nodeAt (fnChildren c) ps = Some n"
    by (auto split: option.splits if_splits)
  have cn: "node_ok before c" "fnName c = p" using findName_Some [OF c(1)] Cons.prems(1) by (auto simp: forest_ok_def)
  show ?case
  proof (cases "ps = []")
    case True
    with c cn node_ok_fields [OF cn(1)] show ?thesis by (auto split: option.split)
  next
    case False
    with Cons.IH [OF node_ok_children [OF cn(1)], of ] c cn node_ok_fields [OF cn(1)] show ?thesis by simp
  qed
qed simp

section \<open>The tree of a list of entries\<close>

lemma entryParts_ok: "p \<in> set (entryParts e) \<Longrightarrow> part_ok p"
  unfolding entryParts_def by (rule pathParts_ok)

lemma tree_of_entries:
  "forest_ok [] (foldl (insertEntry False) [] files) \<and>
   (\<forall>q. nodeAt (foldl (insertEntry False) [] files) q \<noteq> None \<longleftrightarrow>
      q \<noteq> [] \<and> (\<exists>f \<in> set files. prefix q (entryParts f))) \<and>
   (\<forall>q. dirAt (foldl (insertEntry False) [] files) q \<longleftrightarrow>
      q \<noteq> [] \<and> (\<exists>f \<in> set files. js_endsWithSlash f \<and> q = entryParts f))"
proof (induction files rule: rev_induct)
  case Nil
  then show ?case by (simp add: forest_ok_def)
next
  case (snoc e files)
  define ns where "ns = foldl (insertEntry False) [] files"
  have ok: "forest_ok [] ns" using snoc by (simp add: ns_def)
  have new: "foldl (insertEntry False) [] (files @ [e]) = insertParts False (js_endsWithSlash e) [] (entryParts e) ns"
    by (simp add: ns_def insertEntry_def [of False _ e])
  have "forest_ok [] (insertParts False (js_endsWithSlash e) [] (entryParts e) ns)"
    by (rule insertParts_ok [OF ok]) (simp add: entryParts_ok)
  with snoc nodeAt_insert [OF ok] dirAt_insert [OF ok] show ?case
    unfolding new ns_def [symmetric] by auto
qed

section \<open>Rows\<close>

text \<open>All proper ancestors of a path are expanded.\<close>

definition revealed :: "string set \<Rightarrow> string list \<Rightarrow> string list \<Rightarrow> bool" where
  "revealed expanded before q \<longleftrightarrow> (\<forall>k. 0 < k \<and> k < length q \<longrightarrow> joinParts (before @ take k q) \<in> expanded)"

lemma revealed_single [simp]: "revealed expanded before [p]"
  by (simp add: revealed_def)

lemma revealed_Cons:
  assumes "q \<noteq> []"
  shows "revealed expanded before (p # q) \<longleftrightarrow>
    joinParts (before @ [p]) \<in> expanded \<and> revealed expanded (before @ [p]) q"
proof -
  have "(\<forall>k. 0 < k \<and> k < Suc (length q) \<longrightarrow> joinParts (before @ take k (p # q)) \<in> expanded) \<longleftrightarrow>
      (\<forall>k. k < length q \<longrightarrow> joinParts (before @ p # take k q) \<in> expanded)"
    by (metis Suc_less_eq gr0_conv_Suc take_Suc_Cons zero_less_Suc)
  also have "\<dots> \<longleftrightarrow> joinParts (before @ [p]) \<in> expanded \<and> (\<forall>k. 0 < k \<and> k < length q \<longrightarrow> joinParts (before @ p # take k q) \<in> expanded)"
    using assms by (metis gr0I length_greater_0_conv take0)
  finally show ?thesis by (simp add: revealed_def)
qed

text \<open>Reading a forest one level at a time.\<close>

lemma forest_step:
  assumes "forest_ok before ns"
  shows "(\<exists>q m. nodeAt ns q = Some m \<and> revealed expanded before q \<and> R m (length q)) \<longleftrightarrow>
    (\<exists>c \<in> set ns. R c 1 \<or> (joinParts (before @ [fnName c]) \<in> expanded \<and>
       (\<exists>q m. nodeAt (fnChildren c) q = Some m \<and> revealed expanded (before @ [fnName c]) q \<and> R m (Suc (length q)))))"
    (is "?l \<longleftrightarrow> ?r")
proof
  assume ?l
  then obtain q m where q: "nodeAt ns q = Some m" "revealed expanded before q" "R m (length q)" by blast
  then obtain p ps c where c: "q = p # ps" "findName p ns = Some c" "if ps = [] then m = c else nodeAt (fnChildren c) ps = Some m"
    by (cases q) (auto split: option.splits if_splits)
  then have "c \<in> set ns" "fnName c = p" using findName_Some by blast+
  with c q show ?r by (cases "ps = []") (auto simp: revealed_Cons intro!: bexI [of _ c])
next
  assume ?r
  then obtain c where c: "c \<in> set ns" and
    cases: "R c 1 \<or> (joinParts (before @ [fnName c]) \<in> expanded \<and>
       (\<exists>q m. nodeAt (fnChildren c) q = Some m \<and> revealed expanded (before @ [fnName c]) q \<and> R m (Suc (length q))))"
    by blast
  have f: "findName (fnName c) ns = Some c" using c assms by (simp add: forest_ok_def findName_mem)
  from cases show ?l
  proof (elim disjE conjE exE)
    assume "R c 1"
    with f show ?l by (intro exI [of _ "[fnName c]"] exI [of _ c]) simp
  next
    fix q m
    assume a: "joinParts (before @ [fnName c]) \<in> expanded" "nodeAt (fnChildren c) q = Some m"
      "revealed expanded (before @ [fnName c]) q" "R m (Suc (length q))"
    then have "q \<noteq> []" by auto
    with a f show ?l by (intro exI [of _ "fnName c # q"] exI [of _ m]) (simp add: revealed_Cons)
  qed
qed

lemma nodeRows_spec:
  assumes "node_ok before n"
  shows "r \<in> set (nodeRows lc expanded depth n) \<longleftrightarrow>
    r = nodeRow n depth \<or> (fnPath n \<in> expanded \<and>
      (\<exists>q m. nodeAt (fnChildren n) q = Some m \<and> revealed expanded (before @ [fnName n]) q \<and> r = nodeRow m (depth + length q)))"
  using assms
proof (induction lc expanded depth n arbitrary: before rule: nodeRows.induct)
  case (1 lc expanded depth n)
  let ?b = "before @ [fnName n]"
  have ok: "forest_ok ?b (fnChildren n)" using 1(2) by (rule node_ok_children)
  have rows: "r \<in> set (nodeRows lc expanded depth n) \<longleftrightarrow> r = nodeRow n depth \<or>
      (isFolder n \<and> fnPath n \<in> expanded \<and> (\<exists>c \<in> set (fnChildren n). r \<in> set (nodeRows lc expanded (depth + 1) c)))"
    by (subst nodeRows.simps) simp
  have ih: "r \<in> set (nodeRows lc expanded (depth + 1) c) \<longleftrightarrow> r = nodeRow c (depth + 1) \<or> (fnPath c \<in> expanded \<and>
      (\<exists>q m. nodeAt (fnChildren c) q = Some m \<and> revealed expanded (?b @ [fnName c]) q \<and> r = nodeRow m (depth + 1 + length q)))"
    if "c \<in> set (fnChildren n)" "isFolder n \<and> fnPath n \<in> expanded" for c
    using 1(1) [of c ?b] that ok by (simp add: forest_ok_def)
  have path: "fnPath c = joinParts (?b @ [fnName c])" if "c \<in> set (fnChildren n)" for c
    using that ok node_ok_fields by (auto simp: forest_ok_def)
  have folder: "isFolder n" if "c \<in> set (fnChildren n)" for c using that by (auto simp: isFolder_def)
  have "(\<exists>c \<in> set (fnChildren n). r \<in> set (nodeRows lc expanded (depth + 1) c)) \<longleftrightarrow>
      (\<exists>q m. nodeAt (fnChildren n) q = Some m \<and> revealed expanded ?b q \<and> r = nodeRow m (depth + length q))"
    if "fnPath n \<in> expanded"
    unfolding forest_step [OF ok, where R = "\<lambda>m k. r = nodeRow m (depth + k)"]
    using ih path folder that by (intro bex_cong) auto
  then show ?case unfolding rows
    using forest_step [OF ok, where R = "\<lambda>m k. r = nodeRow m (depth + k)"] folder by blast
qed

text \<open>No path has two rows.\<close>

lemma forest_ok_sort: "forest_ok before ns \<Longrightarrow> forest_ok before (sortBy cmp ns)"
  unfolding forest_ok_def by (metis mset_map mset_sortBy set_sortBy mset_eq_imp_distinct_iff)

lemma row_paths:
  assumes "node_ok before n" "r \<in> set (nodeRows lc expanded depth n)"
  obtains q where "row_path r = joinParts (before @ fnName n # q)" "\<forall>p \<in> set q. part_ok p"
proof -
  from assms(2) consider "r = nodeRow n depth"
    | q m where "nodeAt (fnChildren n) q = Some m" "r = nodeRow m (depth + length q)"
    unfolding nodeRows_spec [OF assms(1)] by blast
  then show thesis
  proof cases
    case 1
    with node_ok_fields [OF assms(1)] that [of "[]"] show thesis by (simp add: nodeRow_def)
  next
    case 2
    note m = nodeAt_spec [OF node_ok_children [OF assms(1)] 2(1)]
    then have "fnPath m = joinParts (before @ fnName n # q)" using node_ok_fields by fastforce
    with m 2 that show thesis by (simp add: nodeRow_def)
  qed
qed

lemma distinct_concat_rows:
  assumes "forest_ok before ns" "\<forall>p \<in> set before. part_ok p"
    and "\<And>n. n \<in> set ns \<Longrightarrow> distinct (map row_path (nodeRows lc expanded depth n))"
  shows "distinct (map row_path (concat (map (nodeRows lc expanded depth) ns)))"
  using assms
proof (induction ns)
  case (Cons n ns)
  have ok: "node_ok before n" "forest_ok before ns" "fnName n \<notin> fnName ` set ns"
    using Cons.prems(1) by (auto simp: forest_ok_def)
  have "row_path r \<noteq> row_path r'"
    if r: "r \<in> set (nodeRows lc expanded depth n)" and r': "m \<in> set ns" "r' \<in> set (nodeRows lc expanded depth m)" for r r' m
  proof
    assume same: "row_path r = row_path r'"
    have m: "node_ok before m" using ok(2) r'(1) by (simp add: forest_ok_def)
    from row_paths [OF ok(1) r] obtain q where
      q: "row_path r = joinParts (before @ fnName n # q)" "\<forall>p \<in> set q. part_ok p" by blast
    from row_paths [OF m r'(2)] obtain q' where
      q': "row_path r' = joinParts (before @ fnName m # q')" "\<forall>p \<in> set q'. part_ok p" by blast
    have "before @ fnName n # q = before @ fnName m # q'"
      using q q' same Cons.prems(2) node_ok_fields [OF ok(1)] node_ok_fields [OF m]
      by (intro join_inj) auto
    with ok(3) r'(1) show False by auto
  qed
  with Cons ok(2) show ?case by (fastforce simp: image_iff)
qed simp

lemma nodeRows_distinct:
  assumes "node_ok before n" "\<forall>p \<in> set before. part_ok p"
  shows "distinct (map row_path (nodeRows lc expanded depth n))"
  using assms
proof (induction lc expanded depth n arbitrary: before rule: nodeRows.induct)
  case (1 lc expanded depth n)
  let ?b = "before @ [fnName n]"
  let ?cs = "sortBy (sortNodes lc) (fnChildren n)"
  have b: "\<forall>p \<in> set ?b. part_ok p" using 1(2,3) node_ok_fields by auto
  have ok: "forest_ok ?b ?cs" by (rule forest_ok_sort [OF node_ok_children [OF 1(2)]])
  have rest: "distinct (map row_path (concat (map (nodeRows lc expanded (depth + 1)) ?cs)))"
    if "isFolder n \<and> fnPath n \<in> expanded"
  proof (rule distinct_concat_rows [OF ok b])
    fix c assume "c \<in> set ?cs"
    with 1(1) [of c ?b] that b ok show "distinct (map row_path (nodeRows lc expanded (depth + 1) c))"
      by (simp add: forest_ok_def)
  qed
  have "fnPath n \<noteq> row_path r" if c: "c \<in> set ?cs" "r \<in> set (nodeRows lc expanded (depth + 1) c)" for c r
  proof
    assume same: "fnPath n = row_path r"
    have okc: "node_ok ?b c" using ok c(1) by (simp add: forest_ok_def)
    from row_paths [OF okc c(2)] obtain q where
      q: "row_path r = joinParts (?b @ fnName c # q)" "\<forall>p \<in> set q. part_ok p" by blast
    have "?b = ?b @ fnName c # q"
      using q same b node_ok_fields [OF 1(2)] node_ok_fields [OF okc] by (intro join_inj) auto
    then show False by simp
  qed
  with rest show ?case by (subst nodeRows.simps) (auto simp: nodeRow_def simp del: set_sortBy)
qed

section \<open>The rows without the tree\<close>

text \<open>The reference: which paths are folders, which are shown, and their rows.\<close>

definition hasEntryBelow :: "string list \<Rightarrow> string list \<Rightarrow> bool" where
  "hasEntryBelow files q \<longleftrightarrow> (\<exists>f \<in> set files. strict_prefix q (entryParts f))"

definition folderAt :: "string list \<Rightarrow> string list \<Rightarrow> bool" where
  "folderAt files q \<longleftrightarrow> hasEntryBelow files q \<or> (\<exists>f \<in> set files. js_endsWithSlash f \<and> q = entryParts f)"

definition shownAt :: "string list \<Rightarrow> string set \<Rightarrow> string list \<Rightarrow> bool" where
  "shownAt files expanded q \<longleftrightarrow>
     q \<noteq> [] \<and> (\<exists>f \<in> set files. prefix q (entryParts f)) \<and> revealed expanded [] q"

definition rowAt :: "string list \<Rightarrow> string list \<Rightarrow> VisibleRow" where
  "rowAt files q =
     \<lparr>row_path = joinParts q, row_name = last q, row_depth = length q - 1, row_isDirectory = folderAt files q,
      row_hasChildren = hasEntryBelow files q\<rparr>"

lemma strict_prefix_snoc: "strict_prefix q qs \<longleftrightarrow> (\<exists>x. prefix (q @ [x]) qs)"
proof
  assume "strict_prefix q qs"
  then obtain x xs where "qs = q @ x # xs" by (auto elim: strict_prefixE')
  then show "\<exists>x. prefix (q @ [x]) qs" by (intro exI [of _ x]) simp
next
  assume "\<exists>x. prefix (q @ [x]) qs"
  then show "strict_prefix q qs" by (auto simp: prefix_def strict_prefix_def)
qed

lemma tree_node:
  assumes "nodeAt (foldl (insertEntry False) [] files) q = Some n"
  shows "nodeRow n (length q - 1) = rowAt files q" "isFolder n \<longleftrightarrow> folderAt files q"
proof -
  let ?ns = "foldl (insertEntry False) [] files"
  note tree = tree_of_entries [of files]
  have ok: "forest_ok [] ?ns" using tree by blast
  note n = nodeAt_spec [OF ok assms]
  have path: "fnPath n = joinParts q" using n node_ok_fields [of "butlast q" n] by simp
  have "fnChildren n \<noteq> [] \<longleftrightarrow> (\<exists>x. findName x (fnChildren n) \<noteq> None)"
    unfolding findName_None by (cases "fnChildren n") auto
  also have "\<dots> \<longleftrightarrow> hasEntryBelow files q"
    using n tree by (metis hasEntryBelow_def strict_prefix_snoc snoc_eq_iff_butlast)
  finally have children: "fnChildren n \<noteq> [] \<longleftrightarrow> hasEntryBelow files q" .
  have "fnDir n \<longleftrightarrow> dirAt ?ns q" by (simp add: dirAt_def assms)
  then have "fnDir n \<longleftrightarrow> (\<exists>f \<in> set files. js_endsWithSlash f \<and> q = entryParts f)"
    using tree n by blast
  then show folder: "isFolder n \<longleftrightarrow> folderAt files q"
    using children by (auto simp: isFolder_def folderAt_def)
  with n path children show "nodeRow n (length q - 1) = rowAt files q"
    by (simp add: nodeRow_def rowAt_def)
qed

lemma visible_rows_set:
  "set (computeVisibleRows lc files expanded) = rowAt files ` Collect (shownAt files expanded)"
proof -
  let ?ns = "foldl (insertEntry False) [] files"
  note tree = tree_of_entries [of files]
  have ok: "forest_ok [] ?ns" using tree by blast
  have "r \<in> set (computeVisibleRows lc files expanded) \<longleftrightarrow> r \<in> rowAt files ` Collect (shownAt files expanded)" for r
  proof -
    have "r \<in> set (computeVisibleRows lc files expanded) \<longleftrightarrow>
        (\<exists>c \<in> set ?ns. r = nodeRow c 0 \<or> (joinParts ([] @ [fnName c]) \<in> expanded \<and>
           (\<exists>q m. nodeAt (fnChildren c) q = Some m \<and> revealed expanded ([] @ [fnName c]) q \<and> r = nodeRow m (length q))))"
      unfolding computeVisibleRows_def set_concat set_map set_sortBy image_image
      using ok nodeRows_spec [of "[]"] node_ok_fields [of "[]"]
      by (simp add: forest_ok_def)
    also have "\<dots> \<longleftrightarrow> (\<exists>q m. nodeAt ?ns q = Some m \<and> revealed expanded [] q \<and> r = nodeRow m (length q - 1))"
      using forest_step [OF ok, where R = "\<lambda>m k. r = nodeRow m (k - 1)" and expanded = expanded] by simp
    also have "\<dots> \<longleftrightarrow> (\<exists>q. nodeAt ?ns q \<noteq> None \<and> revealed expanded [] q \<and> r = rowAt files q)"
      using tree_node by (metis not_Some_eq)
    also have "\<dots> \<longleftrightarrow> (\<exists>q. shownAt files expanded q \<and> r = rowAt files q)"
      using tree by (auto simp: shownAt_def)
    finally show ?thesis by auto
  qed
  then show ?thesis by blast
qed

lemma visible_rows_distinct: "distinct (map row_path (computeVisibleRows lc files expanded))"
proof -
  have ok: "forest_ok [] (foldl (insertEntry False) [] files)" using tree_of_entries by blast
  show ?thesis unfolding computeVisibleRows_def
    by (rule distinct_concat_rows [where before = "[]", OF forest_ok_sort [OF ok]])
      (use ok in \<open>auto simp: forest_ok_def intro: nodeRows_distinct [of "[]"]\<close>)
qed

text \<open>
  The order of the rows: a directory before what it contains, and siblings as \<open>sortNodes\<close> orders
  them.
\<close>

definition siblingCmp :: "(string \<Rightarrow> string \<Rightarrow> int) \<Rightarrow> string list \<Rightarrow> string list \<Rightarrow> string list \<Rightarrow> int" where
  "siblingCmp localeCompare files q q' =
     (if folderAt files q \<noteq> folderAt files q' then (if folderAt files q then -1 else 1)
      else localeCompare (last q) (last q'))"

definition listedBefore :: "(string \<Rightarrow> string \<Rightarrow> int) \<Rightarrow> string list \<Rightarrow> string list \<Rightarrow> string list \<Rightarrow> bool" where
  "listedBefore localeCompare files q q' \<longleftrightarrow>
     prefix q q' \<or>
     (\<exists>b x y u v. q = b @ x # u \<and> q' = b @ y # v \<and> x \<noteq> y \<and>
        siblingCmp localeCompare files (b @ [x]) (b @ [y]) \<le> 0)"

lemma sortNodes_comparator:
  assumes "comparator localeCompare"
  shows "comparator (sortNodes localeCompare)"
proof
  fix a b c :: FileNode
  show "sortNodes localeCompare a b \<le> 0 \<Longrightarrow> sortNodes localeCompare b c \<le> 0 \<Longrightarrow> sortNodes localeCompare a c \<le> 0"
    using comparator.cmp_trans [OF assms, of "fnName a" "fnName b" "fnName c"] by (auto simp: sortNodes_def split: if_splits)
  show "\<not> sortNodes localeCompare a b < 0 \<Longrightarrow> sortNodes localeCompare b a \<le> 0"
    using comparator.cmp_total [OF assms, of "fnName a" "fnName b"] by (auto simp: sortNodes_def split: if_splits)
qed

lemma pathParts_join: "ps \<noteq> [] \<Longrightarrow> \<forall>p \<in> set ps. part_ok p \<Longrightarrow> pathParts (joinParts ps) = ps"
  by (simp add: pathParts_def split_join part_ok_def)

abbreviation rowParts :: "VisibleRow \<Rightarrow> string list" where
  "rowParts r \<equiv> pathParts (row_path r)"

lemma row_parts:
  assumes "node_ok before n" "\<forall>p \<in> set before. part_ok p" "r \<in> set (nodeRows lc expanded depth n)"
  obtains q where "rowParts r = before @ fnName n # q"
proof -
  from row_paths [OF assms(1,3)] obtain q where
    q: "row_path r = joinParts (before @ fnName n # q)" "\<forall>p \<in> set q. part_ok p" by blast
  with assms(2) node_ok_fields [OF assms(1)] have "rowParts r = before @ fnName n # q"
    unfolding q(1) by (intro pathParts_join) auto
  then show thesis by (rule that)
qed

lemma rows_of_siblings_sorted:
  assumes "forest_ok before ns" "\<forall>p \<in> set before. part_ok p"
    and "\<And>n. n \<in> set ns \<Longrightarrow> isFolder n \<longleftrightarrow> folderAt files (before @ [fnName n])"
    and "sorted_wrt (\<lambda>a b. sortNodes lc a b \<le> 0) ns"
    and "\<And>n. n \<in> set ns \<Longrightarrow> sorted_wrt (\<lambda>r r'. listedBefore lc files (rowParts r) (rowParts r')) (nodeRows lc expanded depth n)"
  shows "sorted_wrt (\<lambda>r r'. listedBefore lc files (rowParts r) (rowParts r')) (concat (map (nodeRows lc expanded depth) ns))"
  using assms
proof (induction ns)
  case (Cons n ns)
  have "listedBefore lc files (rowParts r) (rowParts r')"
    if r: "r \<in> set (nodeRows lc expanded depth n)" and r': "m \<in> set ns" "r' \<in> set (nodeRows lc expanded depth m)" for r r' m
  proof -
    have ok: "node_ok before n" "node_ok before m" "fnName n \<noteq> fnName m"
      using Cons.prems(1) r'(1) by (auto simp: forest_ok_def)
    from row_parts [OF ok(1) Cons.prems(2) r] obtain q where q: "rowParts r = before @ fnName n # q" .
    from row_parts [OF ok(2) Cons.prems(2) r'(2)] obtain q' where q': "rowParts r' = before @ fnName m # q'" .
    have "sortNodes lc n m \<le> 0" using Cons.prems(4) r'(1) by simp
    then have "siblingCmp lc files (before @ [fnName n]) (before @ [fnName m]) \<le> 0"
      using Cons.prems(3) [of n] Cons.prems(3) [of m] r'(1) by (auto simp: siblingCmp_def sortNodes_def split: if_splits)
    with ok(3) show ?thesis unfolding q q' listedBefore_def by blast
  qed
  moreover have "forest_ok before ns" using Cons.prems(1) by (simp add: forest_ok_def)
  ultimately show ?case using Cons by (auto simp: sorted_wrt_append)
qed simp

lemma nodeRows_sorted:
  assumes "comparator lc"
    and "nodeAt (foldl (insertEntry False) [] files) (before @ [fnName n]) = Some n"
  shows "sorted_wrt (\<lambda>r r'. listedBefore lc files (rowParts r) (rowParts r')) (nodeRows lc expanded depth n)"
  using assms
proof (induction lc expanded depth n arbitrary: before rule: nodeRows.induct)
  case (1 lc expanded depth n)
  let ?b = "before @ [fnName n]" and ?ns = "foldl (insertEntry False) [] files"
  let ?cs = "sortBy (sortNodes lc) (fnChildren n)"
  have "forest_ok [] ?ns" using tree_of_entries by blast
  note n = nodeAt_spec [OF this 1(3)]
  then have ok: "node_ok before n" by simp
  have b: "\<forall>p \<in> set ?b. part_ok p" using n by simp
  have cs: "forest_ok ?b ?cs" by (rule forest_ok_sort [OF node_ok_children [OF ok]])
  have at: "nodeAt ?ns (?b @ [fnName c]) = Some c" if "c \<in> set ?cs" for c
    using n that node_ok_children [OF ok] findName_mem [of "fnChildren n" c] by (simp add: forest_ok_def)
  have head: "listedBefore lc files (rowParts (nodeRow n depth)) (rowParts r)"
    if c: "c \<in> set ?cs" "r \<in> set (nodeRows lc expanded (depth + 1) c)" for c r
  proof -
    have "node_ok ?b c" using cs c(1) by (simp add: forest_ok_def)
    from row_parts [OF this b c(2)] obtain q where q: "rowParts r = ?b @ fnName c # q" .
    have "rowParts (nodeRow n depth) = ?b"
      using node_ok_fields [OF ok] b by (simp add: nodeRow_def pathParts_join)
    with q show ?thesis by (simp add: listedBefore_def)
  qed
  have "sorted_wrt (\<lambda>r r'. listedBefore lc files (rowParts r) (rowParts r'))
      (concat (map (nodeRows lc expanded (depth + 1)) ?cs))" if "isFolder n \<and> fnPath n \<in> expanded"
  proof (rule rows_of_siblings_sorted [OF cs b])
    show "isFolder c \<longleftrightarrow> folderAt files (?b @ [fnName c])" if "c \<in> set ?cs" for c
      using tree_node(2) [OF at [OF that]] .
    show "sorted_wrt (\<lambda>a b. sortNodes lc a b \<le> 0) ?cs"
      by (rule comparator.sorted_sortBy [OF sortNodes_comparator [OF 1(2)]])
    show "sorted_wrt (\<lambda>r r'. listedBefore lc files (rowParts r) (rowParts r')) (nodeRows lc expanded (depth + 1) c)"
      if "c \<in> set ?cs" for c
      using 1(1) [of c ?b] that \<open>isFolder n \<and> fnPath n \<in> expanded\<close> 1(2) at by blast
  qed
  with head show ?case by (subst nodeRows.simps) (auto simp del: set_sortBy)
qed

lemma visible_rows_sorted:
  assumes "comparator lc"
  shows "sorted_wrt (\<lambda>r r'. listedBefore lc files (rowParts r) (rowParts r')) (computeVisibleRows lc files expanded)"
proof -
  let ?ns = "foldl (insertEntry False) [] files"
  have ok: "forest_ok [] ?ns" using tree_of_entries by blast
  have at: "nodeAt ?ns ([] @ [fnName c]) = Some c" if "c \<in> set ?ns" for c
    using ok that findName_mem [of ?ns c] by (simp add: forest_ok_def)
  show ?thesis unfolding computeVisibleRows_def
  proof (rule rows_of_siblings_sorted [where before = "[]"])
    show "forest_ok [] (sortBy (sortNodes lc) ?ns)" using ok by (rule forest_ok_sort)
    show "sorted_wrt (\<lambda>a b. sortNodes lc a b \<le> 0) (sortBy (sortNodes lc) ?ns)"
      by (rule comparator.sorted_sortBy [OF sortNodes_comparator [OF assms]])
  qed (use at tree_node(2) nodeRows_sorted [OF assms at] in simp_all)
qed

section \<open>Visible rows\<close>

lemma shownAt_parts_ok: "shownAt files expanded q \<Longrightarrow> q \<noteq> [] \<and> (\<forall>p \<in> set q. part_ok p)"
  unfolding shownAt_def by (metis entryParts_ok set_mono_prefix subsetD)

text \<open>C25: The rows of the file tree are those of the paths that are shown, each once: the non-empty
  prefixes of the parts of an entry all of whose proper ancestors are expanded. A row names the
  last part, its depth counts the parts before it, it is a folder when an entry lies below it or
  is listed with a trailing slash, and it has children when an entry lies below it. A directory
  stands before its contents, folders before files, and siblings of one kind in the order of
  \<open>localeCompare\<close>.
\<close>

theorem visible_rows_exact:
  assumes "comparator localeCompare"
  shows "\<exists>qs. computeVisibleRows localeCompare files expanded = map (rowAt files) qs \<and> distinct qs \<and>
    set qs = Collect (shownAt files expanded) \<and> sorted_wrt (listedBefore localeCompare files) qs"
proof (intro exI conjI)
  let ?rows = "computeVisibleRows localeCompare files expanded"
  have parts: "rowParts (rowAt files q) = q" if "shownAt files expanded q" for q
    using shownAt_parts_ok [OF that] by (simp add: rowAt_def pathParts_join)
  have again: "rowAt files (rowParts r) = r" if "r \<in> set ?rows" for r
    using that parts unfolding visible_rows_set by auto
  show "?rows = map (rowAt files) (map rowParts ?rows)"
    using again by (simp add: map_idI)
  show "set (map rowParts ?rows) = Collect (shownAt files expanded)"
    using parts unfolding set_map visible_rows_set by force
  have "inj_on pathParts (set (map row_path ?rows))"
    using again by (auto simp: inj_on_def) metis
  then show "distinct (map rowParts ?rows)"
    using visible_rows_distinct [of localeCompare files expanded] distinct_map [of pathParts "map row_path ?rows"] by (simp add: o_def)
  show "sorted_wrt (listedBefore localeCompare files) (map rowParts ?rows)"
    using visible_rows_sorted [OF assms] by (simp add: sorted_wrt_map)
qed

theorem visible_rows_exact_witness:
  "\<exists>qs. computeVisibleRows (\<lambda>a b. int (length a) - int (length b)) [''src/a.ts'', ''doc/'', ''b''] {''src''} =
       map (rowAt [''src/a.ts'', ''doc/'', ''b'']) qs \<and> distinct qs \<and>
     set qs = Collect (shownAt [''src/a.ts'', ''doc/'', ''b''] {''src''}) \<and>
     sorted_wrt (listedBefore (\<lambda>a b. int (length a) - int (length b)) [''src/a.ts'', ''doc/'', ''b'']) qs"
  by (rule visible_rows_exact) (unfold_locales, simp_all)

text \<open>Expanding the ancestors of an entry reveals it.\<close>

lemma pathParts_strip: "pathParts (s @ [slash]) = pathParts s"
proof -
  have "js_split slash (s @ [slash]) = js_split slash s @ [[]]"
    by (induction s) (auto split: list.split)
  then show ?thesis by (simp add: pathParts_def)
qed

lemma pathParts_stripTrailingSlash: "pathParts (stripTrailingSlash s) = pathParts s"
  by (cases s rule: rev_cases) (simp_all add: stripTrailingSlash_def js_endsWithSlash_def pathParts_strip)

lemma pathParts_stripTrailing: "pathParts (rev (dropWhile (\<lambda>c. c = slash) (rev s))) = pathParts s"
  by (induction s rule: rev_induct) (simp_all add: pathParts_strip)

theorem ancestors_reveal_entry:
  assumes "f \<in> set files" "entryParts f \<noteq> []"
  shows "shownAt files (set (collectAncestorDirectoryPaths f) \<union> expanded) (entryParts f)"
proof -
  have "joinParts (take k (entryParts f)) \<in> set (collectAncestorDirectoryPaths f)" if "0 < k" "k < length (entryParts f)" for k
  proof -
    have "entryParts f = pathParts (rev (dropWhile (\<lambda>c. c = slash) (rev f)))"
      by (simp add: entryParts_def pathParts_stripTrailingSlash pathParts_stripTrailing)
    with that show ?thesis
      by (auto simp: collectAncestorDirectoryPaths_def Let_def image_iff intro!: bexI [of _ "k - 1"])
  qed
  with assms show ?thesis by (auto simp: shownAt_def revealed_def)
qed

section \<open>Unused names\<close>

text \<open>The names that are tried: the seed, then the seed with a counter.\<close>

definition attemptName :: "string \<Rightarrow> nat \<Rightarrow> string" where
  "attemptName seed k = (if k = 0 then seed else seed @ ''-'' @ js_show_nat k)"

lemma attemptName_inj: "inj (\<lambda>k. joinChildPath base (attemptName seed k))"
  by (auto simp: inj_def attemptName_def joinChildPath_def dest: js_show_nat_inj split: if_splits)

interpretation childNames: name_search
  "\<lambda>fuel k. uniqueAttempt (set entries) base seed fuel (attemptName seed k) (k + 1)"
  "attemptName seed" "joinChildPath base" "set entries" for entries base seed
proof
  show "inj (\<lambda>k. joinChildPath base (attemptName seed k))" by (rule attemptName_inj)
qed (simp_all add: attemptName_def)

text \<open>The search for an unused child name ends, after at most one round more than there are
  entries, with the first of the names \<open>seed\<close>, \<open>seed-1\<close>, \<open>seed-2\<close>, ... whose path is not taken.
\<close>

theorem unique_child_name_found:
  "\<exists>k \<le> length entries.
     resolveUniqueChildName (Suc (length entries)) entries base seed = Some (attemptName seed k) \<and>
     joinChildPath base (attemptName seed k) \<notin> set (map stripTrailingSlash entries) \<and>
     (\<lambda>i. joinChildPath base (attemptName seed i)) ` {..<k} \<subseteq> set (map stripTrailingSlash entries)"
proof -
  let ?E = "map stripTrailingSlash entries"
  have "card (set ?E) < Suc (length entries)" using card_length [of ?E] by simp
  from childNames.found [OF this, of base seed] obtain k where "k \<le> card (set ?E)"
    "uniqueAttempt (set ?E) base seed (Suc (length entries)) (attemptName seed 0) (0 + 1) = Some (attemptName seed k)"
    "joinChildPath base (attemptName seed k) \<notin> set ?E"
    "(\<lambda>i. joinChildPath base (attemptName seed i)) ` {..<k} \<subseteq> set ?E" by blast
  then show ?thesis using card_length [of ?E]
    by (intro exI [of _ k]) (auto simp: resolveUniqueChildName_def attemptName_def [of seed 0])
qed

end
