(* ===== verification/File_Refresh.thy ===== *)
theory File_Refresh
  imports File_Tree "HOL-Library.AList"
begin

text \<open>
  The pure rules of the file manager on workspace-relative paths and directory listings: path
  normalisation, duplicate names, the undo entries of a move and the preferred focus after a paste
  (\<open>fileTreePaths.ts\<close>), merging of listings (\<open>fileTreeMerge.ts\<close>) and the choice and application
  of directory refreshes (\<open>fileTreeRefreshRules.ts\<close>). A JavaScript \<open>Set\<close> that is iterated is a
  list without duplicates in insertion order; \<open>localeCompare\<close> is an argument.
\<close>

section \<open>Paths\<close>

definition backslash :: char where
  "backslash = CHR 0x5C"

definition dropTrailingSlashes :: "string \<Rightarrow> string" where
  "dropTrailingSlashes s = rev (dropWhile (\<lambda>c. c = slash) (rev s))"

definition normalizeRelativePath :: "string \<Rightarrow> string" where
  "normalizeRelativePath path =
     dropTrailingSlashes (dropWhile (\<lambda>c. c = slash) (map (\<lambda>c. if c = backslash then slash else c) (js_trim path)))"

definition getPathName :: "string \<Rightarrow> string" where
  "getPathName path = (case rev (pathParts (normalizeRelativePath path)) of [] \<Rightarrow> [] | p # ps \<Rightarrow> p)"

definition getParentRelativePath :: "string \<Rightarrow> string" where
  "getParentRelativePath path = joinParts (butlast (pathParts (normalizeRelativePath path)))"

definition joinRelativePath :: "string \<Rightarrow> string \<Rightarrow> string" where
  "joinRelativePath basePath childName =
     (let normalizedBasePath = normalizeRelativePath basePath in
      if normalizedBasePath \<noteq> [] then normalizedBasePath @ slash # childName else childName)"

definition js_lastIndexOf :: "char \<Rightarrow> string \<Rightarrow> int" where
  "js_lastIndexOf c s = (if c \<in> set s then int (length s) - 1 - js_indexOf (rev s) c else -1)"

text \<open>The name without an extension to keep: no dot, a leading dot only, or a trailing dot.\<close>

definition hasNoExtension :: "string \<Rightarrow> bool" where
  "hasNoExtension entryName \<longleftrightarrow>
     js_lastIndexOf (CHR ''.'') entryName \<le> 0 \<or>
     js_lastIndexOf (CHR ''.'') entryName = int (length entryName) - 1"

definition nameStem :: "string \<Rightarrow> string" where
  "nameStem entryName = take (nat (js_lastIndexOf (CHR ''.'') entryName)) entryName"

definition nameExtension :: "string \<Rightarrow> string" where
  "nameExtension entryName = drop (nat (js_lastIndexOf (CHR ''.'') entryName)) entryName"

definition createIndexedPathName :: "string \<Rightarrow> nat \<Rightarrow> string" where
  "createIndexedPathName entryName index =
     (if hasNoExtension entryName then entryName @ ''-'' @ js_show_nat index
      else nameStem entryName @ ''-'' @ js_show_nat index @ nameExtension entryName)"

text \<open>The endless loop of \<open>resolveUniqueDestinationPath\<close>, counting down a fuel.\<close>

fun destinationAttempt :: "string set \<Rightarrow> string \<Rightarrow> string \<Rightarrow> nat \<Rightarrow> string \<Rightarrow> nat \<Rightarrow> string option" where
  "destinationAttempt existing directory entryName 0 attemptName index = None"
| "destinationAttempt existing directory entryName (Suc fuel) attemptName index =
     (let attemptPath = joinRelativePath directory attemptName in
      if attemptPath \<notin> existing then Some attemptPath
      else destinationAttempt existing directory entryName fuel (createIndexedPathName entryName index) (index + 1))"

definition resolveUniqueDestinationPath :: "nat \<Rightarrow> string set \<Rightarrow> string \<Rightarrow> string \<Rightarrow> string option" where
  "resolveUniqueDestinationPath fuel existing directory entryName =
     destinationAttempt existing directory entryName fuel entryName 1"

definition isPathWithinOrEqual :: "string \<Rightarrow> string \<Rightarrow> bool" where
  "isPathWithinOrEqual path candidateParentPath \<longleftrightarrow>
     path = candidateParentPath \<or> js_startsWith path (candidateParentPath @ [slash])"

record FileTreeMoveUndoEntry =
  undoFromPath :: string
  undoToPath :: string

text \<open>One source path of \<open>buildMoveUndoEntries\<close>: the paths known so far and the entries.\<close>

definition moveUndoStep ::
  "nat \<Rightarrow> string \<Rightarrow> string set \<times> FileTreeMoveUndoEntry list \<Rightarrow> string \<Rightarrow>
   (string set \<times> FileTreeMoveUndoEntry list) option" where
  "moveUndoStep fuel destination acc sourcePath =
     (let existing = fst acc; source = normalizeRelativePath sourcePath; sourceName = getPathName source in
      if source = [] \<or> getParentRelativePath source = destination \<or> sourceName = [] then Some acc
      else case resolveUniqueDestinationPath fuel existing destination sourceName of
        None \<Rightarrow> None
      | Some target \<Rightarrow>
          Some (insert target (Set.filter (\<lambda>p. \<not> isPathWithinOrEqual p source) existing),
                snd acc @ [\<lparr>undoFromPath = source, undoToPath = target\<rparr>]))"

fun moveUndoLoop ::
  "nat \<Rightarrow> string \<Rightarrow> string set \<times> FileTreeMoveUndoEntry list \<Rightarrow> string list \<Rightarrow>
   (string set \<times> FileTreeMoveUndoEntry list) option" where
  "moveUndoLoop fuel destination acc [] = Some acc"
| "moveUndoLoop fuel destination acc (p # ps) =
     (case moveUndoStep fuel destination acc p of
        None \<Rightarrow> None
      | Some acc' \<Rightarrow> moveUndoLoop fuel destination acc' ps)"

definition buildMoveUndoEntries :: "nat \<Rightarrow> string list \<Rightarrow> string list \<Rightarrow> string \<Rightarrow> FileTreeMoveUndoEntry list option" where
  "buildMoveUndoEntries fuel repoFiles sourcePaths destinationPath =
     map_option snd (moveUndoLoop fuel (normalizeRelativePath destinationPath)
       (set (filter (\<lambda>p. p \<noteq> []) (map normalizeRelativePath repoFiles)), []) sourcePaths)"

definition js_endsWith :: "string \<Rightarrow> string \<Rightarrow> bool" where
  "js_endsWith s e \<longleftrightarrow> suffix e s"

definition allDigits :: "string \<Rightarrow> bool" where
  "allDigits s \<longleftrightarrow> s \<noteq> [] \<and> list_all isDigit s"

definition isIndexedDuplicatePathName :: "string \<Rightarrow> string \<Rightarrow> bool" where
  "isIndexedDuplicatePathName candidateName sourceName \<longleftrightarrow>
     (if hasNoExtension sourceName
      then js_startsWith candidateName (sourceName @ ''-'') \<and> allDigits (drop (length sourceName + 1) candidateName)
      else
        let sourceStem = nameStem sourceName; sourceExtension = nameExtension sourceName in
        js_startsWith candidateName (sourceStem @ ''-'') \<and> js_endsWith candidateName sourceExtension \<and>
        allDigits (take (length candidateName - length sourceExtension - (length sourceStem + 1))
          (drop (length sourceStem + 1) candidateName)))"

definition compareDepth :: "(string \<Rightarrow> string \<Rightarrow> int) \<Rightarrow> string \<Rightarrow> string \<Rightarrow> int" where
  "compareDepth localeCompare leftPath rightPath =
     (let depthDiff = int (length (js_split slash leftPath)) - int (length (js_split slash rightPath)) in
      if depthDiff \<noteq> 0 then depthDiff else localeCompare leftPath rightPath)"

text \<open>The first source name with an exact or an indexed match among the candidates.\<close>

fun matchSourceNames :: "string list \<Rightarrow> string list \<Rightarrow> string option" where
  "matchSourceNames candidates [] = js_at candidates 0"
| "matchSourceNames candidates (sourceName # names) =
     (case truthy_string (List.find (\<lambda>path. getPathName path = sourceName) candidates) of
        Some exactMatch \<Rightarrow> Some exactMatch
      | None \<Rightarrow>
          (case truthy_string (List.find (\<lambda>path. isIndexedDuplicatePathName (getPathName path) sourceName) candidates) of
             Some duplicateMatch \<Rightarrow> Some duplicateMatch
           | None \<Rightarrow> matchSourceNames candidates names))"

definition resolvePreferredImportedPath ::
  "(string \<Rightarrow> string \<Rightarrow> int) \<Rightarrow> string list \<Rightarrow> string list \<Rightarrow> string \<Rightarrow> string list \<Rightarrow> string option" where
  "resolvePreferredImportedPath localeCompare previousRepoFiles nextRepoFiles destinationPath sourcePaths =
     (let previous = set (filter (\<lambda>p. p \<noteq> []) (map normalizeRelativePath previousRepoFiles));
          added = sortBy (compareDepth localeCompare)
            (filter (\<lambda>p. p \<noteq> [] \<and> p \<notin> previous) (map normalizeRelativePath nextRepoFiles));
          destination = normalizeRelativePath destinationPath;
          inDestination = filter (\<lambda>p. destination = [] \<or> isPathWithinOrEqual p destination) added;
          candidates = (if inDestination \<noteq> [] then inDestination else added)
      in if added = [] then None
         else matchSourceNames candidates (filter (\<lambda>n. n \<noteq> []) (map getPathName sourcePaths)))"

section \<open>Listings\<close>

record WorkspaceFileEntry =
  entry_path :: string
  entry_isIgnored :: bool

definition mergeEntry ::
  "(string \<times> WorkspaceFileEntry) list \<Rightarrow> WorkspaceFileEntry \<Rightarrow> (string \<times> WorkspaceFileEntry) list" where
  "mergeEntry merged entry =
     (case map_of merged (entry_path entry) of
        None \<Rightarrow> AList.update (entry_path entry) entry merged
      | Some existing \<Rightarrow>
          AList.update (entry_path entry)
            (entry\<lparr>entry_isIgnored := entry_isIgnored existing \<or> entry_isIgnored entry\<rparr>) merged)"

definition mergeWorkspaceEntries ::
  "(string \<Rightarrow> string \<Rightarrow> int) \<Rightarrow> WorkspaceFileEntry list \<Rightarrow> WorkspaceFileEntry list \<Rightarrow> WorkspaceFileEntry list" where
  "mergeWorkspaceEntries localeCompare current incoming =
     sortBy (\<lambda>left right. localeCompare (entry_path left) (entry_path right))
       (map snd (foldl mergeEntry (foldl (\<lambda>m e. AList.update (entry_path e) e m) [] current) incoming))"

definition buildNormalizedPathSet :: "WorkspaceFileEntry list \<Rightarrow> string set" where
  "buildNormalizedPathSet entries =
     set (filter (\<lambda>p. p \<noteq> []) (map (normalizeRelativePath \<circ> entry_path) entries))"

definition hasVisibleImmediateChildren :: "string \<Rightarrow> WorkspaceFileEntry list \<Rightarrow> bool" where
  "hasVisibleImmediateChildren directoryPath entries \<longleftrightarrow>
     (let directory = normalizeRelativePath directoryPath in
      directory \<noteq> [] \<and>
      list_ex (\<lambda>entry. \<not> entry_isIgnored entry \<and>
        (let path = normalizeRelativePath (entry_path entry) in
         path \<noteq> [] \<and> path \<noteq> directory \<and> js_startsWith path (directory @ [slash]))) entries)"

definition mapWorkspaceEntryPaths :: "(string \<Rightarrow> string \<Rightarrow> int) \<Rightarrow> WorkspaceFileEntry list \<Rightarrow> string list" where
  "mapWorkspaceEntryPaths localeCompare entries = sortBy localeCompare (map entry_path entries)"

definition mapIgnoredWorkspaceEntryPaths :: "(string \<Rightarrow> string \<Rightarrow> int) \<Rightarrow> WorkspaceFileEntry list \<Rightarrow> string list" where
  "mapIgnoredWorkspaceEntryPaths localeCompare entries =
     sortBy localeCompare (map entry_path (filter entry_isIgnored entries))"

section \<open>Refresh rules\<close>

definition firstPart :: "string \<Rightarrow> string option" where
  "firstPart s = js_at (pathParts s) 0"

definition getImmediateChildPath :: "string \<Rightarrow> string \<Rightarrow> string option" where
  "getImmediateChildPath parentPath descendantPath =
     (let parent = normalizeRelativePath parentPath; descendant = normalizeRelativePath descendantPath in
      if descendant = [] then None
      else if parent = [] then firstPart descendant
      else if \<not> js_startsWith descendant (parent @ [slash]) then None
      else case truthy_string (firstPart (drop (length parent + 1) descendant)) of
        None \<Rightarrow> None
      | Some part \<Rightarrow> Some (parent @ slash # part))"

text \<open>\<open>Set.add\<close> on a set that is iterated in insertion order.\<close>

definition js_setAdd :: "'a \<Rightarrow> 'a list \<Rightarrow> 'a list" where
  "js_setAdd x xs = (if x \<in> set xs then xs else xs @ [x])"

lemma normalize_length: "length (normalizeRelativePath p) \<le> length p"
proof -
  have trail: "length (dropTrailingSlashes s) \<le> length s" for s
    using length_dropWhile_le [of "\<lambda>c. c = slash" "rev s"] by (simp add: dropTrailingSlashes_def)
  have trim: "length (js_trim s) \<le> length s" for s
    using length_dropWhile_le [of js_space "rev (dropWhile js_space s)"] length_dropWhile_le [of js_space s]
    by (simp add: js_trim_def)
  show ?thesis unfolding normalizeRelativePath_def
    by (rule order.trans [OF trail order.trans [OF length_dropWhile_le]]) (simp add: trim)
qed

lemma join_parts_length: "length (joinParts (filter (\<lambda>p. p \<noteq> []) ps)) \<le> length (joinParts ps)"
proof (induction ps)
  case (Cons p ps)
  have cons: "joinParts (p # qs) = (if qs = [] then p else p @ slash # joinParts qs)" for p qs
    by (cases qs) (simp_all add: joinParts_def)
  have "filter (\<lambda>p. p \<noteq> []) ps \<noteq> [] \<Longrightarrow> ps \<noteq> []" by auto
  with Cons show ?case by (auto simp: cons joinParts_def [of "[]"])
qed (simp add: joinParts_def)

lemma join_butlast_length:
  "joinParts (butlast ps) \<noteq> [] \<Longrightarrow> length (joinParts (butlast ps)) < length (joinParts ps)"
proof (induction ps)
  case (Cons p ps)
  have cons: "joinParts (p # qs) = (if qs = [] then p else p @ slash # joinParts qs)" for p qs
    by (cases qs) (simp_all add: joinParts_def)
  show ?case
  proof (cases "butlast ps = [] \<or> joinParts (butlast ps) = []")
    case True
    with Cons.prems show ?thesis by (cases ps) (auto simp: cons joinParts_def [of "[]"] split: if_splits)
  next
    case False
    with Cons show ?thesis by (auto simp: cons)
  qed
qed (simp add: joinParts_def)

lemma parent_shorter:
  assumes "getParentRelativePath c \<noteq> []"
  shows "length (getParentRelativePath c) < length c"
proof -
  have "length (getParentRelativePath c) < length (joinParts (pathParts (normalizeRelativePath c)))"
    using assms join_butlast_length by (simp add: getParentRelativePath_def)
  also have "\<dots> \<le> length (normalizeRelativePath c)"
    using join_parts_length [of "js_split slash (normalizeRelativePath c)"] by (simp add: pathParts_def joinParts_def)
  also have "\<dots> \<le> length c" by (rule normalize_length)
  finally show ?thesis .
qed

text \<open>The inner loop of \<open>resolveRefreshDirectoryPaths\<close>: up to the nearest loaded directory.\<close>

function nearestLoaded :: "string list \<Rightarrow> string \<Rightarrow> string" where
  "nearestLoaded loaded candidate =
     (if candidate \<in> set loaded then candidate
      else let parentPath = getParentRelativePath candidate in
        if parentPath = [] then [] else nearestLoaded loaded parentPath)"
  by pat_completeness auto

termination
  by (relation "measure (\<lambda>(loaded, candidate). length candidate)") (auto simp: parent_shorter)

declare nearestLoaded.simps [simp del]

definition resolveRefreshDirectoryPaths :: "(string \<Rightarrow> string \<Rightarrow> int) \<Rightarrow> string list \<Rightarrow> string list \<Rightarrow> string list" where
  "resolveRefreshDirectoryPaths localeCompare changedRelativePaths loaded =
     (if changedRelativePaths = [] then sortBy localeCompare ([] # loaded)
      else sortBy localeCompare
        (foldl (\<lambda>refreshPaths changedPath.
           let path = normalizeRelativePath changedPath in
           js_setAdd (if path = [] then [] else nearestLoaded loaded path) refreshPaths) [] changedRelativePaths))"

definition shouldEvictChangedEntry :: "string \<Rightarrow> string \<Rightarrow> string set option \<Rightarrow> string set \<Rightarrow> bool" where
  "shouldEvictChangedEntry directoryPath entryPath changedPaths incoming =
     (case changedPaths of
        None \<Rightarrow> True
      | Some paths \<Rightarrow>
          (\<exists>changedPath \<in> paths. changedPath = directoryPath \<or> entryPath = changedPath \<or>
             js_startsWith entryPath (changedPath @ [slash])) \<and> entryPath \<notin> incoming)"

record DirectoryListing =
  listing_directoryPath :: string
  listing_files :: "WorkspaceFileEntry list"

text \<open>One round of \<open>applyDirectoryRefreshes\<close>: the tree and the loaded directories.\<close>

definition incomingPaths :: "WorkspaceFileEntry list \<Rightarrow> string set" where
  "incomingPaths files = set (filter (\<lambda>p. p \<noteq> []) (map (normalizeRelativePath \<circ> entry_path) files))"

definition keepsLoaded :: "string \<Rightarrow> string set \<Rightarrow> string \<Rightarrow> bool" where
  "keepsLoaded directoryPath incoming path \<longleftrightarrow>
     (case truthy_string (getImmediateChildPath directoryPath path) of None \<Rightarrow> True | Some child \<Rightarrow> child \<in> incoming)"

definition keepsEntry :: "string \<Rightarrow> string set \<Rightarrow> WorkspaceFileEntry \<Rightarrow> bool" where
  "keepsEntry directoryPath incoming entry \<longleftrightarrow>
     (let path = normalizeRelativePath (entry_path entry) in
      path \<noteq> [] \<and> (case getImmediateChildPath directoryPath path of None \<Rightarrow> True | Some child \<Rightarrow> child \<in> incoming))"

definition applyDirectoryRefresh ::
  "(string \<Rightarrow> string \<Rightarrow> int) \<Rightarrow> WorkspaceFileEntry list \<times> string list \<Rightarrow> DirectoryListing \<Rightarrow>
   WorkspaceFileEntry list \<times> string list" where
  "applyDirectoryRefresh localeCompare acc listing =
     (let directoryPath = listing_directoryPath listing; files = listing_files listing;
          incoming = incomingPaths files in
      (if directoryPath = [] then mergeWorkspaceEntries localeCompare [] files
       else mergeWorkspaceEntries localeCompare (filter (keepsEntry directoryPath incoming) (fst acc)) files,
       filter (keepsLoaded directoryPath incoming) (snd acc)))"

definition applyDirectoryRefreshes ::
  "(string \<Rightarrow> string \<Rightarrow> int) \<Rightarrow> WorkspaceFileEntry list \<Rightarrow> DirectoryListing list \<Rightarrow> string list \<Rightarrow>
   WorkspaceFileEntry list \<times> string list" where
  "applyDirectoryRefreshes localeCompare currentEntries refreshResults loaded =
     foldl (applyDirectoryRefresh localeCompare) (currentEntries, loaded) refreshResults"

end
