(* ===== verification/File_Listing_Properties.thy ===== *)
theory File_Listing_Properties
  imports File_Refresh File_Tree_Properties
begin

text \<open>
  What the rules for directory listings do, on paths made of clean parts: no empty part, no
  slash or backslash inside a part and no white space at its ends. A listing replaces the contents
  of its directory; merging keeps one entry per path; the search for a free destination ends.
\<close>

section \<open>Clean paths\<close>

definition clean_part :: "string \<Rightarrow> bool" where
  "clean_part p \<longleftrightarrow> part_ok p \<and> backslash \<notin> set p \<and> \<not> js_space (hd p) \<and> \<not> js_space (last p)"

definition clean_parts :: "string list \<Rightarrow> bool" where
  "clean_parts ps \<longleftrightarrow> ps \<noteq> [] \<and> list_all clean_part ps"

text \<open>A clean path, with a trailing slash when it is listed as a directory.\<close>

definition clean_path :: "string \<Rightarrow> bool" where
  "clean_path path \<longleftrightarrow> clean_parts (entryParts path) \<and>
     (path = joinParts (entryParts path) \<or> path = joinParts (entryParts path) @ [slash])"

lemma join_Cons: "joinParts (p # ps) = (if ps = [] then p else p @ slash # joinParts ps)"
  by (cases ps) (simp_all add: joinParts_def)

lemma join_Nil [simp]: "joinParts [] = []"
  by (simp add: joinParts_def)

lemma join_append: "ds \<noteq> [] \<Longrightarrow> es \<noteq> [] \<Longrightarrow> joinParts (ds @ es) = joinParts ds @ slash # joinParts es"
  by (induction ds) (auto simp: join_Cons)

lemma clean_parts_ok: "clean_parts ps \<Longrightarrow> p \<in> set ps \<Longrightarrow> part_ok p"
  by (auto simp: clean_parts_def list_all_iff clean_part_def)

lemma clean_join:
  assumes "clean_parts ps"
  shows "joinParts ps \<noteq> []" "hd (joinParts ps) = hd (hd ps)" "last (joinParts ps) = last (last ps)"
    "backslash \<notin> set (joinParts ps)"
  using assms unfolding clean_parts_def
  by (induction ps) (auto simp: join_Cons clean_part_def part_ok_def slash_def backslash_def hd_append)

lemma js_trim_id:
  assumes "s = [] \<or> (\<not> js_space (hd s) \<and> \<not> js_space (last s))"
  shows "js_trim s = s"
proof -
  have "dropWhile js_space s = s" using assms by (cases s) auto
  moreover have "dropWhile js_space (rev s) = rev s" using assms by (cases s rule: rev_cases) auto
  ultimately show ?thesis by (simp add: js_trim_def)
qed

lemma clean_ends:
  assumes "clean_parts ps"
  shows "hd (joinParts ps) \<noteq> slash \<and> \<not> js_space (hd (joinParts ps)) \<and>
    last (joinParts ps) \<noteq> slash \<and> \<not> js_space (last (joinParts ps))"
proof -
  have "clean_part (hd ps)" "clean_part (last ps)" using assms by (auto simp: clean_parts_def list_all_iff)
  then have "hd (hd ps) \<noteq> slash" "last (last ps) \<noteq> slash" "\<not> js_space (hd (hd ps))" "\<not> js_space (last (last ps))"
    by (metis clean_part_def part_ok_def hd_in_set last_in_set)+
  then show ?thesis by (simp add: clean_join [OF assms])
qed

lemma dropTrailing_join: "s \<noteq> [] \<Longrightarrow> last s \<noteq> slash \<Longrightarrow> dropTrailingSlashes s = s \<and> dropTrailingSlashes (s @ [slash]) = s"
  by (cases s rule: rev_cases) (simp_all add: dropTrailingSlashes_def)

lemma normalize_clean:
  assumes "clean_parts ps"
  shows "normalizeRelativePath (joinParts ps) = joinParts ps" "normalizeRelativePath (joinParts ps @ [slash]) = joinParts ps"
proof -
  let ?s = "joinParts ps"
  note ends = clean_ends [OF assms] and join = clean_join [OF assms]
  have "\<not> js_space slash" "slash \<noteq> backslash" by (simp_all add: js_space_def slash_def backslash_def)
  then have trim: "js_trim ?s = ?s" "js_trim (?s @ [slash]) = ?s @ [slash]"
    using ends join(1) by (simp_all add: js_trim_id)
  have noback: "map (\<lambda>c. if c = backslash then slash else c) s = s" if "backslash \<notin> set s" for s
    using that by (induction s) auto
  have lead: "dropWhile (\<lambda>c. c = slash) (?s @ t) = ?s @ t" for t
    using ends join(1) by (cases ?s) simp_all
  show "normalizeRelativePath ?s = ?s" "normalizeRelativePath (?s @ [slash]) = ?s"
    using lead [of "[]"] lead dropTrailing_join [of ?s] ends join(1) noback [of ?s] join(4) \<open>slash \<noteq> backslash\<close>
    by (simp_all add: normalizeRelativePath_def trim)
qed

lemma clean_path_normalize:
  assumes "clean_path path"
  shows "normalizeRelativePath path = joinParts (entryParts path)" "clean_parts (entryParts path)"
  using assms normalize_clean unfolding clean_path_def by metis+

lemma js_split_append_sep: "js_split c (s @ c # t) = js_split c s @ js_split c t"
proof (induction s)
  case (Cons x s)
  obtain p ps where "js_split c s = p # ps" by (cases "js_split c s") simp_all
  with Cons show ?case by simp
qed simp

lemma split_clean: "clean_parts ps \<Longrightarrow> js_split slash (joinParts ps) = ps"
  by (rule split_join) (auto simp: clean_parts_def list_all_iff clean_part_def part_ok_def)

text \<open>The child of a directory in which a path lies.\<close>

lemma startsWith_clean:
  assumes "clean_parts ds" "clean_parts ps"
  shows "js_startsWith (joinParts ps) (joinParts ds @ [slash]) \<longleftrightarrow> strict_prefix ds ps"
proof
  assume "js_startsWith (joinParts ps) (joinParts ds @ [slash])"
  then obtain rest where "joinParts ps = joinParts ds @ slash # rest"
    unfolding js_startsWith_def by (metis append_take_drop_id append.assoc append_Cons append_Nil)
  then have "ps = ds @ js_split slash rest"
    using split_clean [OF assms(1)] split_clean [OF assms(2)] js_split_append_sep by metis
  then show "strict_prefix ds ps" by (cases "js_split slash rest") (auto simp: strict_prefix_def)
next
  assume "strict_prefix ds ps"
  then obtain x es where "ps = ds @ x # es" by (auto elim: strict_prefixE')
  then show "js_startsWith (joinParts ps) (joinParts ds @ [slash])"
    using assms(1) join_append [of ds "x # es"] by (simp add: clean_parts_def js_startsWith_def)
qed

lemma immediateChild_clean:
  assumes "clean_parts ds" "clean_parts ps"
  shows "getImmediateChildPath (joinParts ds) (joinParts ps) =
    (if strict_prefix ds ps then Some (joinParts (take (Suc (length ds)) ps)) else None)"
proof -
  have norm: "normalizeRelativePath (joinParts ds) = joinParts ds" "normalizeRelativePath (joinParts ps) = joinParts ps"
    using assms by (simp_all add: normalize_clean)
  have ne: "joinParts ds \<noteq> []" "joinParts ps \<noteq> []" using assms clean_join(1) by blast+
  show ?thesis
  proof (cases "strict_prefix ds ps")
    case False
    then show ?thesis using startsWith_clean [OF assms] by (simp add: getImmediateChildPath_def norm ne)
  next
    case True
    then obtain x es where ps: "ps = ds @ x # es" by (auto elim: strict_prefixE')
    have ds: "ds \<noteq> []" using assms(1) by (simp add: clean_parts_def)
    have "clean_parts (x # es)" using assms(2) ps by (simp add: clean_parts_def)
    then have x: "x \<noteq> []" and first: "firstPart (joinParts (x # es)) = Some x"
      using split_clean [of "x # es"] by (simp_all add: firstPart_def pathParts_def js_at_def clean_parts_def clean_part_def part_ok_def)
    have "drop (length (joinParts ds) + 1) (joinParts ps) = joinParts (x # es)"
      unfolding ps by (simp add: join_append [OF ds])
    then show ?thesis
      using True startsWith_clean [OF assms] first x ne norm join_append [OF ds, of "[x]"]
      by (simp add: getImmediateChildPath_def ps truthy_string_def join_Cons)
  qed
qed

section \<open>Merging\<close>

definition keyed_ok :: "(string \<times> WorkspaceFileEntry) list \<Rightarrow> bool" where
  "keyed_ok m \<longleftrightarrow> distinct (map fst m) \<and> (\<forall>(k, e) \<in> set m. entry_path e = k)"

lemma update_mem: "x \<in> set (AList.update k e m) \<Longrightarrow> x = (k, e) \<or> x \<in> set m"
  by (induction m) (auto split: if_splits)

lemma keyed_update:
  assumes "keyed_ok m" "entry_path e = k"
  shows "keyed_ok (AList.update k e m) \<and> fst ` set (AList.update k e m) = insert k (fst ` set m)"
proof -
  have "fst ` set (AList.update k e m) = insert k (fst ` set m)" by (induction m) auto
  moreover have "\<forall>(k', e') \<in> set (AList.update k e m). entry_path e' = k'"
    using assms update_mem unfolding keyed_ok_def by fastforce
  ultimately show ?thesis using assms(1) by (simp add: keyed_ok_def distinct_update)
qed

lemma keyed_foldl:
  assumes "\<And>m e. keyed_ok m \<Longrightarrow> keyed_ok (f m e) \<and> fst ` set (f m e) = insert (entry_path e) (fst ` set m)" "keyed_ok m"
  shows "keyed_ok (foldl f m es) \<and> fst ` set (foldl f m es) = fst ` set m \<union> entry_path ` set es"
  using assms(2) by (induction es arbitrary: m) (auto simp: assms(1))

lemma keyed_merge: "keyed_ok m \<Longrightarrow> keyed_ok (mergeEntry m e) \<and> fst ` set (mergeEntry m e) = insert (entry_path e) (fst ` set m)"
  unfolding mergeEntry_def by (auto simp: keyed_update split: option.split)

lemma merge_entries:
  "distinct (map entry_path (mergeWorkspaceEntries lc current incoming)) \<and>
   entry_path ` set (mergeWorkspaceEntries lc current incoming) = entry_path ` set current \<union> entry_path ` set incoming"
proof -
  let ?m = "foldl mergeEntry (foldl (\<lambda>m e. AList.update (entry_path e) e m) [] current) incoming"
  have "keyed_ok []" by (simp add: keyed_ok_def)
  from keyed_foldl [OF keyed_update [OF _ refl] this, of current]
  have current: "keyed_ok (foldl (\<lambda>m e. AList.update (entry_path e) e m) [] current)"
    "fst ` set (foldl (\<lambda>m e. AList.update (entry_path e) e m) [] current) = entry_path ` set current" by auto
  from keyed_foldl [OF keyed_merge current(1), of incoming] current(2)
  have m: "keyed_ok ?m" "fst ` set ?m = entry_path ` set current \<union> entry_path ` set incoming" by auto
  let ?r = "mergeWorkspaceEntries lc current incoming"
  have keys: "map (entry_path \<circ> snd) ?m = map fst ?m" using m(1) by (auto simp: keyed_ok_def)
  have "mset (map entry_path ?r) = mset (map (entry_path \<circ> snd) ?m)"
    unfolding mergeWorkspaceEntries_def by (simp add: multiset.map_comp)
  then have paths: "mset (map entry_path ?r) = mset (map fst ?m)" unfolding keys .
  have "distinct (map entry_path ?r)" using mset_eq_imp_distinct_iff [OF paths] m(1) by (simp add: keyed_ok_def)
  moreover have "entry_path ` set ?r = fst ` set ?m" using mset_eq_setD [OF paths] by simp
  ultimately show ?thesis using m(2) by simp
qed

section \<open>Directory listings\<close>

text \<open>An old path survives when it lies outside the directory or in a child that is listed.\<close>

definition survives :: "string list \<Rightarrow> WorkspaceFileEntry list \<Rightarrow> string \<Rightarrow> bool" where
  "survives ds files path \<longleftrightarrow>
     (strict_prefix ds (entryParts path) \<longrightarrow>
      take (Suc (length ds)) (entryParts path) \<in> (entryParts \<circ> entry_path) ` set files)"

lemma incoming_clean:
  assumes "\<forall>e \<in> set files. clean_path (entry_path e)"
  shows "incomingPaths files = joinParts ` (entryParts \<circ> entry_path) ` set files"
proof -
  have "joinParts (entryParts (entry_path e)) \<noteq> []" "normalizeRelativePath (entry_path e) = joinParts (entryParts (entry_path e))"
    if "e \<in> set files" for e
    using that assms clean_path_normalize clean_join(1) by blast+
  then show ?thesis by (force simp: incomingPaths_def image_iff)
qed

lemma join_mem_clean:
  assumes "clean_parts q" "\<forall>r \<in> R. clean_parts r"
  shows "joinParts q \<in> joinParts ` R \<longleftrightarrow> q \<in> R"
proof
  assume "joinParts q \<in> joinParts ` R"
  then obtain r where r: "r \<in> R" "joinParts q = joinParts r" by auto
  then have "q = r" using assms by (intro join_inj) (auto simp: clean_parts_def list_all_iff clean_part_def)
  with r(1) show "q \<in> R" by simp
qed simp

lemma survives_iff:
  assumes "clean_parts ds" "\<forall>e \<in> set files. clean_path (entry_path e)" "clean_path p"
  shows "(case getImmediateChildPath (joinParts ds) (joinParts (entryParts p)) of None \<Rightarrow> True | Some c \<Rightarrow> c \<in> incomingPaths files) \<longleftrightarrow>
    survives ds files p"
proof -
  have ps: "clean_parts (entryParts p)" using clean_path_normalize(2) [OF assms(3)] .
  then have q: "clean_parts (take (Suc (length ds)) (entryParts p))"
    by (auto simp: clean_parts_def list_all_iff dest: in_set_takeD)
  have "\<forall>r \<in> (entryParts \<circ> entry_path) ` set files. clean_parts r"
    using assms(2) clean_path_normalize(2) by auto
  from join_mem_clean [OF q this] show ?thesis
    unfolding survives_def incoming_clean [OF assms(2)] immediateChild_clean [OF assms(1) ps] by simp
qed

lemma immediateChild_normal:
  assumes "clean_path p"
  shows "getImmediateChildPath d p = getImmediateChildPath d (joinParts (entryParts p))"
  using clean_path_normalize [OF assms] normalize_clean by (simp add: getImmediateChildPath_def)

lemma immediateChild_truthy:
  assumes "clean_parts ds" "clean_path p"
  shows "truthy_string (getImmediateChildPath (joinParts ds) (joinParts (entryParts p))) =
    getImmediateChildPath (joinParts ds) (joinParts (entryParts p))"
proof -
  have ps: "clean_parts (entryParts p)" using clean_path_normalize(2) [OF assms(2)] .
  then have "joinParts (take (Suc (length ds)) (entryParts p)) \<noteq> []"
    by (intro clean_join(1)) (auto simp: clean_parts_def list_all_iff dest: in_set_takeD)
  then show ?thesis unfolding immediateChild_clean [OF assms(1) ps] by (simp add: truthy_string_def)
qed

lemma keepsEntry_clean:
  assumes "clean_parts ds" "\<forall>e \<in> set files. clean_path (entry_path e)" "clean_path (entry_path e)"
  shows "keepsEntry (joinParts ds) (incomingPaths files) e \<longleftrightarrow> survives ds files (entry_path e)"
  using survives_iff [OF assms] clean_path_normalize [OF assms(3)] clean_join(1) by (simp add: keepsEntry_def)

lemma keepsLoaded_clean:
  assumes "clean_parts ds" "\<forall>e \<in> set files. clean_path (entry_path e)" "clean_path p"
  shows "keepsLoaded (joinParts ds) (incomingPaths files) p \<longleftrightarrow> survives ds files p"
  using survives_iff [OF assms] immediateChild_truthy [OF assms(1,3)] immediateChild_normal [OF assms(3)]
  by (simp add: keepsLoaded_def)

text \<open>C26: What a listing of a directory other than the root leaves, for paths without empty or dot components:
  the listed paths, and of the old ones exactly those that lie outside the directory or under a
  child name that the listing still shows, each path once. The directories that count as loaded are
  thinned out by the same rule. A child that vanished is thus removed with all its descendants. A
  directory that the listing now shows as a file still counts as shown, so its old entries stay
  (\<open>replaced_directory_stays_listed\<close> below).\<close>

theorem directory_listing_merge_exact:
  assumes "clean_parts ds" "\<forall>e \<in> set entries \<union> set files. clean_path (entry_path e)" "\<forall>p \<in> set loaded. clean_path p"
  shows "case applyDirectoryRefresh lc (entries, loaded) \<lparr>listing_directoryPath = joinParts ds, listing_files = files\<rparr> of
    (entries', loaded') \<Rightarrow>
      distinct (map entry_path entries') \<and>
      entry_path ` set entries' = entry_path ` set files \<union> {p \<in> entry_path ` set entries. survives ds files p} \<and>
      loaded' = filter (survives ds files) loaded"
proof -
  have files: "\<forall>e \<in> set files. clean_path (entry_path e)" using assms(2) by blast
  let ?kept = "filter (keepsEntry (joinParts ds) (incomingPaths files)) entries"
  have "entry_path ` set ?kept = {p \<in> entry_path ` set entries. survives ds files p}"
    using keepsEntry_clean [OF assms(1) files] assms(2) by auto
  moreover have "filter (keepsLoaded (joinParts ds) (incomingPaths files)) loaded = filter (survives ds files) loaded"
    using keepsLoaded_clean [OF assms(1) files] assms(3) by (intro filter_cong) auto
  moreover have "joinParts ds \<noteq> []" using assms(1) by (rule clean_join(1))
  ultimately show ?thesis using merge_entries [of lc ?kept files] by (auto simp: applyDirectoryRefresh_def Let_def)
qed

theorem directory_listing_merge_exact_witness:
  "applyDirectoryRefresh (\<lambda>a b. 0)
      ([\<lparr>entry_path = ''a/x'', entry_isIgnored = False\<rparr>, \<lparr>entry_path = ''b'', entry_isIgnored = False\<rparr>], [])
      \<lparr>listing_directoryPath = joinParts [''a''], listing_files = [\<lparr>entry_path = ''a/y'', entry_isIgnored = False\<rparr>]\<rparr> =
     ([\<lparr>entry_path = ''b'', entry_isIgnored = False\<rparr>, \<lparr>entry_path = ''a/y'', entry_isIgnored = False\<rparr>], []) \<and>
   entry_path ` {\<lparr>entry_path = ''b'', entry_isIgnored = False\<rparr>, \<lparr>entry_path = ''a/y'', entry_isIgnored = False\<rparr>} =
     {''a/y''} \<union> {p \<in> {''a/x'', ''b''}. survives [''a''] [\<lparr>entry_path = ''a/y'', entry_isIgnored = False\<rparr>] p}"
proof -
  let ?e = "\<lambda>p. \<lparr>entry_path = p, entry_isIgnored = False\<rparr>"
  have run: "applyDirectoryRefresh (\<lambda>a b. 0) ([?e ''a/x'', ?e ''b''], []) \<lparr>listing_directoryPath = joinParts [''a''], listing_files = [?e ''a/y'']\<rparr> =
      ([?e ''b'', ?e ''a/y''], [])"
    by code_simp
  have "clean_parts [''a'']" by code_simp
  moreover have "\<forall>e \<in> set [?e ''a/x'', ?e ''b''] \<union> set [?e ''a/y'']. clean_path (entry_path e)" by code_simp
  ultimately have "case applyDirectoryRefresh (\<lambda>a b. 0) ([?e ''a/x'', ?e ''b''], []) \<lparr>listing_directoryPath = joinParts [''a''], listing_files = [?e ''a/y'']\<rparr> of
    (entries', loaded') \<Rightarrow>
      distinct (map entry_path entries') \<and>
      entry_path ` set entries' = entry_path ` set [?e ''a/y''] \<union> {p \<in> entry_path ` set [?e ''a/x'', ?e ''b'']. survives [''a''] [?e ''a/y''] p} \<and>
      loaded' = filter (survives [''a''] [?e ''a/y'']) []"
    by (rule directory_listing_merge_exact) simp
  with run show ?thesis by simp
qed

text \<open>
  A directory that was replaced by a file of the same name keeps its entry: the old path, with a
  slash, and the new one, without, count as the same child, but both stay, so the tree still shows
  a folder.
\<close>

theorem replaced_directory_stays_listed:
  "map entry_path (fst (applyDirectoryRefresh (\<lambda>a b. 0)
     ([\<lparr>entry_path = ''a/x/'', entry_isIgnored = False\<rparr>, \<lparr>entry_path = ''a/x/old.ts'', entry_isIgnored = False\<rparr>], [])
     \<lparr>listing_directoryPath = ''a'', listing_files = [\<lparr>entry_path = ''a/x'', entry_isIgnored = False\<rparr>]\<rparr>)) =
   [''a/x/'', ''a/x/old.ts'', ''a/x'']"
  by code_simp

section \<open>Free destinations\<close>

text \<open>The names that are tried for a moved entry: its own, then the indexed duplicates.\<close>

definition destinationName :: "string \<Rightarrow> nat \<Rightarrow> string" where
  "destinationName entryName k = (if k = 0 then entryName else createIndexedPathName entryName k)"

lemma stem_extension: "nameStem n @ nameExtension n = n"
  by (simp add: nameStem_def nameExtension_def)

lemma indexed_longer: "length n < length (createIndexedPathName n k)"
proof -
  have "length n = length (nameStem n) + length (nameExtension n)" using stem_extension [of n] by (metis length_append)
  then show ?thesis by (simp add: createIndexedPathName_def)
qed

lemma indexed_inj: "createIndexedPathName n k = createIndexedPathName n j \<Longrightarrow> k = j"
  by (auto simp: createIndexedPathName_def dest: js_show_nat_inj split: if_splits)

lemma destinationName_inj: "inj (\<lambda>k. joinRelativePath directory (destinationName entryName k))"
proof (rule injI)
  fix k j
  assume "joinRelativePath directory (destinationName entryName k) = joinRelativePath directory (destinationName entryName j)"
  then have "destinationName entryName k = destinationName entryName j"
    by (auto simp: joinRelativePath_def Let_def split: if_splits)
  then show "k = j"
    using indexed_longer [of entryName k] indexed_longer [of entryName j] indexed_inj
    by (auto simp: destinationName_def split: if_splits)
qed

interpretation destinations: name_search
  "\<lambda>fuel k. destinationAttempt (set existing) directory entryName fuel (destinationName entryName k) (k + 1)"
  "\<lambda>k. joinRelativePath directory (destinationName entryName k)" "\<lambda>p. p" "set existing" for existing directory entryName
proof
  show "inj (\<lambda>k. joinRelativePath directory (destinationName entryName k))" by (rule destinationName_inj)
qed (simp_all add: destinationName_def Let_def)

lemma destination_found:
  assumes "finite existing" "card existing < fuel"
  obtains target where "resolveUniqueDestinationPath fuel existing directory entryName = Some target" "target \<notin> existing"
proof -
  obtain xs where xs: "existing = set xs" using finite_list [OF assms(1)] by metis
  from destinations.found [of xs fuel directory entryName] assms(2) obtain k where
    "destinationAttempt (set xs) directory entryName fuel (destinationName entryName 0) (0 + 1) =
       Some (joinRelativePath directory (destinationName entryName k))"
    "joinRelativePath directory (destinationName entryName k) \<notin> set xs" unfolding xs by blast
  then show thesis using that by (simp add: resolveUniqueDestinationPath_def xs destinationName_def [of _ 0])
qed

lemma move_undo_step:
  assumes "finite (fst acc)" "card (fst acc) < fuel"
  obtains acc' where "moveUndoStep fuel destination acc p = Some acc'" "finite (fst acc')" "card (fst acc') \<le> Suc (card (fst acc))"
proof (cases "moveUndoStep fuel destination acc p = Some acc")
  case True
  with that assms show thesis by simp
next
  case False
  let ?source = "normalizeRelativePath p"
  obtain target where t: "resolveUniqueDestinationPath fuel (fst acc) destination (getPathName ?source) = Some target"
    using destination_found [OF assms] by metis
  let ?kept = "Set.filter (\<lambda>q. \<not> isPathWithinOrEqual q ?source) (fst acc)"
  have sub: "?kept \<subseteq> fst acc" by auto
  then have "finite ?kept" "card ?kept \<le> card (fst acc)" using assms(1) by (auto intro: finite_subset card_mono)
  then have "card (insert target ?kept) \<le> Suc (card (fst acc))" by (metis card_insert_le_m1 card.insert_remove card_insert_if le_SucI Suc_le_mono)
  with False t \<open>finite ?kept\<close> that show thesis by (auto simp: moveUndoStep_def Let_def split: if_splits)
qed

text \<open>The undo entries of a move are always found: the fuel is enough.\<close>

theorem move_undo_entries_found:
  "\<exists>entries. buildMoveUndoEntries (Suc (length repoFiles + length sourcePaths)) repoFiles sourcePaths destinationPath = Some entries"
proof -
  have loop: "\<exists>acc'. moveUndoLoop fuel destination acc ps = Some acc'"
    if "finite (fst acc)" "card (fst acc) + length ps < fuel" for fuel destination acc ps
    using that
  proof (induction ps arbitrary: acc)
    case (Cons p ps)
    obtain acc' where "moveUndoStep fuel destination acc p = Some acc'" "finite (fst acc')" "card (fst acc') \<le> Suc (card (fst acc))"
      using move_undo_step [of acc fuel destination p] Cons.prems by auto
    with Cons show ?case by simp
  qed simp
  let ?existing = "filter (\<lambda>p. p \<noteq> []) (map normalizeRelativePath repoFiles)"
  have "length ?existing \<le> length repoFiles" by (metis length_filter_le length_map)
  with card_length [of ?existing] have "card (set ?existing) \<le> length repoFiles" by (rule order.trans)
  then show ?thesis
    using loop [of "(set ?existing, [])" sourcePaths "Suc (length repoFiles + length sourcePaths)" "normalizeRelativePath destinationPath"]
    by (auto simp: buildMoveUndoEntries_def)
qed

end
