(* ===== verification/Scheduled_Jobs.thy ===== *)
theory Scheduled_Jobs
  imports Cron
begin

text \<open>
  Scheduled jobs of the API service: the tables (\<open>db/schema.ts\<close>) and the operations the node of a
  job performs on them (\<open>services/node-scheduled-job-service.ts\<close>,
  \<open>services/node-scheduled-job-run-service.ts\<close>). A table is the list of its rows; a query with
  limit one returns the first row that qualifies. The statements of an operation do not run at one
  instant: what an operation reads before its first write comes from the state \<open>seen\<close>, which may be
  out of date, and the writing statement, with the ones after it in its transaction, acts on the
  state \<open>db\<close>. The clock, new identifiers and the serialisation of JSON values are arguments, and so
  are the time zone data, as in the model of cron expressions. Dates are milliseconds.
\<close>

section \<open>Rows\<close>

datatype ScheduledJobStatus = JobActive | JobPaused | JobDisabled | JobDeleted

datatype ScheduledJobRunStatus = RunPending | RunRunning | RunSucceeded | RunFailed | RunSkippedOffline

datatype ScheduledJobRunTrigger = TriggerManual | TriggerSchedule

record ScheduledJob =
  job_id :: string
  job_organizationId :: string
  job_projectId :: string
  job_nodeId :: string
  job_name :: string
  job_agentKind :: string
  job_prompt :: string
  job_model :: "string option"
  job_command :: "string option"
  job_cronExpression :: string
  job_timezone :: string
  job_status :: ScheduledJobStatus
  job_nextRunAt :: int
  job_lastScheduledFor :: "int option"
  job_lastRunAt :: "int option"
  job_lastRunStatus :: "ScheduledJobRunStatus option"
  job_lastErrorCode :: "string option"
  job_lastErrorMessage :: "string option"
  job_createdByUserId :: string
  job_createdAt :: int
  job_updatedAt :: int

record ScheduledJobRun =
  run_id :: string
  run_jobId :: string
  run_organizationId :: string
  run_projectId :: string
  run_nodeId :: string
  run_scheduledFor :: int
  run_trigger :: ScheduledJobRunTrigger
  run_startedAt :: "int option"
  run_finishedAt :: "int option"
  run_status :: ScheduledJobRunStatus
  run_responseBody :: "string option"
  run_errorCode :: "string option"
  run_errorMessage :: "string option"
  run_errorDetails :: "string option"
  run_createdAt :: int

record NodeRow =
  node_id :: string
  node_scope :: string
  node_ownerUserId :: "string option"

record MemberRow =
  member_organizationId :: string
  member_userId :: string
  member_role :: string

record ProjectRow =
  project_id :: string
  project_organizationId :: string

record WorkspaceRow =
  ws_projectId :: string
  ws_nodeId :: string
  ws_kind :: string
  ws_status :: string
  ws_localPath :: string
  ws_updatedAt :: int

record JobDatabase =
  db_jobs :: "ScheduledJob list"
  db_runs :: "ScheduledJobRun list"
  db_nodes :: "NodeRow list"
  db_members :: "MemberRow list"
  db_projects :: "ProjectRow list"
  db_workspaces :: "WorkspaceRow list"

datatype JobError =
    NodeNotFoundError string
  | WorkspaceLocalNodeScopeInvalidError string
  | WorkspaceLocalNodePermissionRequiredError
  | OrganizationMembershipRequiredError
  | ProjectNotFoundError string
  | ScheduledJobNotFoundError string
  | ScheduledJobClaimUnavailableError
  | ScheduledJobRunTransitionUnavailableError
  | ScheduledJobInvalidCronError string CronError
  | ScheduledJobInvalidTimezoneError string CronError
  | NextRunError CronError
  | DuplicateKeyError

text \<open>The result of an operation and the state it leaves.\<close>

type_synonym 'a JobResult = "(JobError + 'a) \<times> JobDatabase"

definition ensure :: "'e + 'b \<Rightarrow> 's \<Rightarrow> ('b \<Rightarrow> ('e + 'a) \<times> 's) \<Rightarrow> ('e + 'a) \<times> 's" where
  "ensure check db continue = (case check of Inl e \<Rightarrow> (Inl e, db) | Inr x \<Rightarrow> continue x)"

text \<open>\<open>update ... set ... where ...\<close>: the rows that qualify are changed.\<close>

definition updateWhere :: "('r \<Rightarrow> bool) \<Rightarrow> ('r \<Rightarrow> 'r) \<Rightarrow> 'r list \<Rightarrow> 'r list" where
  "updateWhere P f rows = map (\<lambda>r. if P r then f r else r) rows"

section \<open>Authorisation\<close>

definition privateScope :: string where
  "privateScope = ''private''"

definition assertNodeOwnedByActor :: "JobDatabase \<Rightarrow> string \<Rightarrow> string \<Rightarrow> JobError + unit" where
  "assertNodeOwnedByActor db nodeId actorUserId =
     (case List.find (\<lambda>n. node_id n = nodeId) (db_nodes db) of
        None \<Rightarrow> Inl (NodeNotFoundError nodeId)
      | Some n \<Rightarrow>
          if node_scope n \<noteq> privateScope then Inl (WorkspaceLocalNodeScopeInvalidError nodeId)
          else if node_ownerUserId n \<noteq> Some actorUserId then Inl WorkspaceLocalNodePermissionRequiredError
          else Inr ())"

definition getMembershipRole :: "MemberRow list \<Rightarrow> string \<Rightarrow> string \<Rightarrow> string option" where
  "getMembershipRole members organizationId userId =
     (case List.find (\<lambda>m. member_organizationId m = organizationId \<and> member_userId m = userId) members of
        None \<Rightarrow> None
      | Some m \<Rightarrow> if member_role m \<in> {''owner'', ''admin'', ''member''} then Some (member_role m) else None)"

definition assertOrganizationMember :: "JobDatabase \<Rightarrow> string \<Rightarrow> string \<Rightarrow> string option \<Rightarrow> JobError + string" where
  "assertOrganizationMember db organizationId userId preResolvedRole =
     (case truthy_string preResolvedRole of
        Some role \<Rightarrow> Inr role
      | None \<Rightarrow>
          (case getMembershipRole (db_members db) organizationId userId of
             None \<Rightarrow> Inl OrganizationMembershipRequiredError
           | Some role \<Rightarrow> Inr role))"

text \<open>The two \<open>exists\<close> subqueries of the guarded updates.\<close>

definition nodeOwnedIn :: "JobDatabase \<Rightarrow> string \<Rightarrow> string \<Rightarrow> bool" where
  "nodeOwnedIn db nodeId actorUserId \<longleftrightarrow>
     list_ex (\<lambda>n. node_id n = nodeId \<and> node_scope n = privateScope \<and> node_ownerUserId n = Some actorUserId) (db_nodes db)"

definition memberIn :: "JobDatabase \<Rightarrow> string \<Rightarrow> string \<Rightarrow> bool" where
  "memberIn db organizationId userId \<longleftrightarrow>
     list_ex (\<lambda>m. member_organizationId m = organizationId \<and> member_userId m = userId) (db_members db)"

section \<open>The schedule of a node\<close>

record JobEnv =
  env_intl :: Intl
  env_supported :: "string \<Rightarrow> bool"

text \<open>The errors of a time zone are told apart from the others by their message.\<close>

definition getNextRunAtOrThrow :: "JobEnv \<Rightarrow> ScheduledJob \<Rightarrow> int \<Rightarrow> JobError + int" where
  "getNextRunAtOrThrow env job now =
     (case ensureTimezoneSupported (env_supported env) (job_timezone job) of
        Inl e \<Rightarrow> Inl (ScheduledJobInvalidTimezoneError (job_timezone job) e)
      | Inr timezone \<Rightarrow>
          (case parseCronExpression (job_cronExpression job) of
             Inl e \<Rightarrow> Inl (ScheduledJobInvalidCronError (job_cronExpression job) e)
           | Inr parsed \<Rightarrow>
               (case computeNextRunAt (env_intl env) parsed timezone now of
                  Inl e \<Rightarrow> Inl (ScheduledJobInvalidCronError (job_cronExpression job) e)
                | Inr nextRunAt \<Rightarrow> Inr nextRunAt)))"

definition getAuthorizedActiveJobs :: "JobDatabase \<Rightarrow> string \<Rightarrow> string \<Rightarrow> ScheduledJob list" where
  "getAuthorizedActiveJobs db nodeId actorUserId =
     filter (\<lambda>j. job_nodeId j = nodeId \<and> job_status j = JobActive \<and> nodeOwnedIn db nodeId actorUserId \<and>
       memberIn db (job_organizationId j) actorUserId) (db_jobs db)"

text \<open>One overdue job is moved to its next occurrence, unless it changed since it was read.\<close>

definition fastForwardOverdueJob :: "JobEnv \<Rightarrow> int \<Rightarrow> string \<Rightarrow> ScheduledJob \<Rightarrow> JobDatabase \<Rightarrow> unit JobResult" where
  "fastForwardOverdueJob env now actorUserId job db =
     (if job_nextRunAt job > now then (Inr (), db)
      else ensure (getNextRunAtOrThrow env job now) db (\<lambda>nextRunAt.
        (Inr (), db\<lparr>db_jobs := updateWhere
          (\<lambda>j. job_id j = job_id job \<and> job_nodeId j = job_nodeId job \<and> job_status j = JobActive \<and>
             job_nextRunAt j = job_nextRunAt job \<and> nodeOwnedIn db (job_nodeId job) actorUserId \<and>
             memberIn db (job_organizationId job) actorUserId)
          (\<lambda>j. j\<lparr>job_nextRunAt := nextRunAt, job_updatedAt := now\<rparr>) (db_jobs db)\<rparr>)))"

text \<open>The updates run concurrently: the first error is reported, the other updates still happen.\<close>

fun fastForwardAll :: "JobEnv \<Rightarrow> int \<Rightarrow> string \<Rightarrow> ScheduledJob list \<Rightarrow> JobDatabase \<Rightarrow> unit JobResult" where
  "fastForwardAll env now actorUserId [] db = (Inr (), db)"
| "fastForwardAll env now actorUserId (job # jobs) db =
     (case fastForwardOverdueJob env now actorUserId job db of
        (r, db1) \<Rightarrow>
          (case fastForwardAll env now actorUserId jobs db1 of
             (r', db2) \<Rightarrow> (case r of Inl e \<Rightarrow> (Inl e, db2) | Inr _ \<Rightarrow> (r', db2))))"

definition reconcileScheduledJobs ::
  "JobEnv \<Rightarrow> int \<Rightarrow> string \<Rightarrow> string \<Rightarrow> (string \<times> int) list \<Rightarrow> JobDatabase \<Rightarrow> JobDatabase \<Rightarrow> ScheduledJob list JobResult" where
  "reconcileScheduledJobs env now actorUserId nodeId protectedJobs seen db =
     ensure (assertNodeOwnedByActor seen nodeId actorUserId) db (\<lambda>_.
       let protectedNextRunAts = map_of (rev protectedJobs);
           overdue = filter (\<lambda>job. \<not> (protectedNextRunAts (job_id job) = Some (job_nextRunAt job) \<or> job_nextRunAt job > now))
             (getAuthorizedActiveJobs seen nodeId actorUserId)
       in case fastForwardAll env now actorUserId overdue db of
         (Inl e, db') \<Rightarrow> (Inl e, db')
       | (Inr _, db') \<Rightarrow> (Inr (getAuthorizedActiveJobs db' nodeId actorUserId), db'))"

section \<open>Claiming an occurrence\<close>

record NodeScheduledJobClaim =
  claim_runId :: string
  claim_scheduledFor :: int
  claim_projectPath :: string
  claim_job :: ScheduledJob

definition CLAIM_GRACE_MS :: int where
  "CLAIM_GRACE_MS = 60000"

definition newRun ::
  "string \<Rightarrow> ScheduledJob \<Rightarrow> int \<Rightarrow> ScheduledJobRunTrigger \<Rightarrow> int \<Rightarrow> ScheduledJobRun" where
  "newRun runId job scheduledFor trigger createdAt =
     \<lparr>run_id = runId, run_jobId = job_id job, run_organizationId = job_organizationId job,
      run_projectId = job_projectId job, run_nodeId = job_nodeId job, run_scheduledFor = scheduledFor,
      run_trigger = trigger, run_startedAt = None, run_finishedAt = None, run_status = RunPending,
      run_responseBody = None, run_errorCode = None, run_errorMessage = None, run_errorDetails = None,
      run_createdAt = createdAt\<rparr>"

text \<open>The primary key and the unique index over the occurrences of a schedule.\<close>

definition runConflicts :: "ScheduledJobRun \<Rightarrow> ScheduledJobRun list \<Rightarrow> bool" where
  "runConflicts r rows \<longleftrightarrow>
     list_ex (\<lambda>r'. run_id r' = run_id r \<or>
       (run_trigger r = TriggerSchedule \<and> run_trigger r' = TriggerSchedule \<and> run_jobId r' = run_jobId r \<and>
        run_scheduledFor r' = run_scheduledFor r)) rows"

definition latestWorkspacePath :: "JobDatabase \<Rightarrow> string \<Rightarrow> string \<Rightarrow> string option" where
  "latestWorkspacePath db projectId nodeId =
     (case sortBy (\<lambda>a b. ws_updatedAt b - ws_updatedAt a)
        (filter (\<lambda>w. ws_projectId w = projectId \<and> ws_nodeId w = nodeId \<and> ws_kind w = ''primary'' \<and> ws_status w = ''active'')
          (db_workspaces db)) of
        [] \<Rightarrow> None
      | w # ws \<Rightarrow> Some (ws_localPath w))"

definition claimedBy :: "JobDatabase \<Rightarrow> string \<Rightarrow> string \<Rightarrow> ScheduledJob \<Rightarrow> int \<Rightarrow> ScheduledJob \<Rightarrow> bool" where
  "claimedBy db actorUserId nodeId job expectedNextRunAt j \<longleftrightarrow>
     job_id j = job_id job \<and> job_nodeId j = nodeId \<and> job_status j = JobActive \<and> job_nextRunAt j = expectedNextRunAt \<and>
     nodeOwnedIn db nodeId actorUserId \<and> memberIn db (job_organizationId job) actorUserId"

definition claimScheduledJob ::
  "JobEnv \<Rightarrow> int \<Rightarrow> string \<Rightarrow> string \<Rightarrow> string \<Rightarrow> string \<Rightarrow> int \<Rightarrow> JobDatabase \<Rightarrow> JobDatabase \<Rightarrow> NodeScheduledJobClaim JobResult" where
  "claimScheduledJob env now newId actorUserId nodeId jobId expectedNextRunAt seen db =
     ensure (assertNodeOwnedByActor seen nodeId actorUserId) db (\<lambda>_.
     case List.find (\<lambda>j. job_id j = jobId \<and> job_nodeId j = nodeId) (db_jobs seen) of
       None \<Rightarrow> (Inl ScheduledJobClaimUnavailableError, db)
     | Some job \<Rightarrow>
         ensure (assertOrganizationMember seen (job_organizationId job) actorUserId None) db (\<lambda>_.
         let dueAt = job_nextRunAt job in
         if dueAt \<noteq> expectedNextRunAt \<or> now < dueAt \<or> now > dueAt + CLAIM_GRACE_MS
         then (Inl ScheduledJobClaimUnavailableError, db)
         else ensure (getNextRunAtOrThrow env job now) db (\<lambda>nextRunAt.
           let claim = (\<lambda>j. j\<lparr>job_nextRunAt := nextRunAt, job_lastScheduledFor := Some dueAt, job_updatedAt := now\<rparr>) in
           case List.find (claimedBy db actorUserId nodeId job expectedNextRunAt) (db_jobs db) of
             None \<Rightarrow> (Inl ScheduledJobClaimUnavailableError, db)
           | Some claimed \<Rightarrow>
               let claimedJob = claim claimed;
                   run = newRun newId claimedJob dueAt TriggerSchedule now
               in if runConflicts run (db_runs db) then (Inl ScheduledJobClaimUnavailableError, db)
                  else (Inr \<lparr>claim_runId = newId, claim_scheduledFor = dueAt,
                             claim_projectPath = nullish (latestWorkspacePath db (job_projectId claimedJob) nodeId) [],
                             claim_job = claimedJob\<rparr>,
                        db\<lparr>db_jobs := updateWhere (claimedBy db actorUserId nodeId job expectedNextRunAt) claim (db_jobs db),
                           db_runs := db_runs db @ [run]\<rparr>))))"

section \<open>Running\<close>

definition findRun :: "JobDatabase \<Rightarrow> string \<Rightarrow> string \<Rightarrow> ScheduledJobRun option" where
  "findRun db runId nodeId = List.find (\<lambda>r. run_id r = runId \<and> run_nodeId r = nodeId) (db_runs db)"

text \<open>A recurring run may start only while its job is active on this node.\<close>

definition parentAllowsStart :: "JobDatabase \<Rightarrow> string \<Rightarrow> ScheduledJobRun \<Rightarrow> bool" where
  "parentAllowsStart db nodeId r \<longleftrightarrow>
     run_trigger r = TriggerManual \<or>
     list_ex (\<lambda>j. job_id j = run_jobId r \<and> job_nodeId j = nodeId \<and> job_status j = JobActive) (db_jobs db)"

definition startableRun :: "JobDatabase \<Rightarrow> string \<Rightarrow> string \<Rightarrow> string \<Rightarrow> ScheduledJobRun \<Rightarrow> bool" where
  "startableRun db actorUserId nodeId runId r \<longleftrightarrow>
     run_id r = runId \<and> run_nodeId r = nodeId \<and> run_status r = RunPending \<and>
     nodeOwnedIn db nodeId actorUserId \<and> memberIn db (run_organizationId r) actorUserId \<and> parentAllowsStart db nodeId r"

definition markRunStarted ::
  "int \<Rightarrow> string \<Rightarrow> string \<Rightarrow> string \<Rightarrow> int option \<Rightarrow> JobDatabase \<Rightarrow> JobDatabase \<Rightarrow> bool JobResult" where
  "markRunStarted now actorUserId nodeId runId startedAt seen db =
     ensure (assertNodeOwnedByActor seen nodeId actorUserId) db (\<lambda>_.
     case findRun seen runId nodeId of
       None \<Rightarrow> (Inl ScheduledJobRunTransitionUnavailableError, db)
     | Some run \<Rightarrow>
         ensure (assertOrganizationMember seen (run_organizationId run) actorUserId None) db (\<lambda>_.
         if run_status run = RunRunning then (Inr False, db)
         else if list_ex (startableRun db actorUserId nodeId runId) (db_runs db)
         then (Inr True, db\<lparr>db_runs := updateWhere (startableRun db actorUserId nodeId runId)
                 (\<lambda>r. r\<lparr>run_status := RunRunning, run_startedAt := Some (nullish startedAt now)\<rparr>) (db_runs db)\<rparr>)
         else ensure (assertNodeOwnedByActor db nodeId actorUserId) db (\<lambda>_.
           ensure (assertOrganizationMember db (run_organizationId run) actorUserId None) db (\<lambda>_.
           case findRun db runId nodeId of
             None \<Rightarrow> (Inl ScheduledJobRunTransitionUnavailableError, db)
           | Some current \<Rightarrow>
               if run_status current = RunRunning
               then ensure (assertOrganizationMember db (run_organizationId current) actorUserId None) db (\<lambda>_. (Inr False, db))
               else (Inl ScheduledJobRunTransitionUnavailableError, db)))))"

section \<open>Completing\<close>

record CompleteRunInput =
  done_actorUserId :: string
  done_nodeId :: string
  done_runId :: string
  done_status :: ScheduledJobRunStatus
  done_finishedAt :: "int option"
  done_responseBody :: "string option"
  done_errorCode :: "string option"
  done_errorMessage :: "string option"
  done_errorDetails :: "string option"

definition completableRun :: "JobDatabase \<Rightarrow> CompleteRunInput \<Rightarrow> ScheduledJobRun \<Rightarrow> bool" where
  "completableRun db input r \<longleftrightarrow>
     run_id r = done_runId input \<and> run_nodeId r = done_nodeId input \<and> run_status r \<in> {RunPending, RunRunning} \<and>
     nodeOwnedIn db (done_nodeId input) (done_actorUserId input) \<and>
     memberIn db (run_organizationId r) (done_actorUserId input)"

text \<open>The summary of a job never goes back in time.\<close>

definition summaryAccepts :: "string \<Rightarrow> int \<Rightarrow> ScheduledJob \<Rightarrow> bool" where
  "summaryAccepts jobId moment j \<longleftrightarrow>
     job_id j = jobId \<and> (case job_lastRunAt j of None \<Rightarrow> True | Some lastRun \<Rightarrow> lastRun \<le> moment)"

definition hasSameJsonValue :: "(string \<Rightarrow> string) \<Rightarrow> string option \<Rightarrow> string option \<Rightarrow> bool" where
  "hasSameJsonValue canonicalJson left right \<longleftrightarrow> map_option canonicalJson left = map_option canonicalJson right"

definition isSameTerminalResult :: "(string \<Rightarrow> string) \<Rightarrow> CompleteRunInput \<Rightarrow> ScheduledJobRun \<Rightarrow> bool" where
  "isSameTerminalResult canonicalJson input current \<longleftrightarrow>
     run_status current = done_status input \<and> run_responseBody current = done_responseBody input \<and>
     run_errorCode current = done_errorCode input \<and> run_errorMessage current = done_errorMessage input \<and>
     hasSameJsonValue canonicalJson (run_errorDetails current) (done_errorDetails input)"

definition isScheduledTerminalResult :: "ScheduledJobRun \<Rightarrow> bool" where
  "isScheduledTerminalResult current \<longleftrightarrow>
     run_trigger current = TriggerSchedule \<and> run_status current \<in> {RunSucceeded, RunFailed, RunSkippedOffline}"

definition applyCompletion :: "CompleteRunInput \<Rightarrow> int \<Rightarrow> ScheduledJobRun \<Rightarrow> ScheduledJobRun" where
  "applyCompletion input finishedAt r =
     r\<lparr>run_status := done_status input, run_finishedAt := Some finishedAt, run_responseBody := done_responseBody input,
       run_errorCode := done_errorCode input, run_errorMessage := done_errorMessage input,
       run_errorDetails := done_errorDetails input\<rparr>"

definition applyCompletionSummary :: "CompleteRunInput \<Rightarrow> int \<Rightarrow> ScheduledJob \<Rightarrow> ScheduledJob" where
  "applyCompletionSummary input finishedAt j =
     j\<lparr>job_lastRunAt := Some finishedAt, job_lastRunStatus := Some (done_status input),
       job_lastErrorCode := (if done_status input = RunFailed then done_errorCode input else None),
       job_lastErrorMessage := (if done_status input = RunFailed then done_errorMessage input else None),
       job_updatedAt := finishedAt\<rparr>"

definition completeRun ::
  "(string \<Rightarrow> string) \<Rightarrow> int \<Rightarrow> CompleteRunInput \<Rightarrow> JobDatabase \<Rightarrow> JobDatabase \<Rightarrow> bool JobResult" where
  "completeRun canonicalJson now input seen db =
     (let actor = done_actorUserId input; finishedAt = nullish (done_finishedAt input) now in
      ensure (assertNodeOwnedByActor seen (done_nodeId input) actor) db (\<lambda>_.
      case findRun seen (done_runId input) (done_nodeId input) of
        None \<Rightarrow> (Inl ScheduledJobRunTransitionUnavailableError, db)
      | Some run \<Rightarrow>
          ensure (assertOrganizationMember seen (run_organizationId run) actor None) db (\<lambda>_.
          case List.find (completableRun db input) (db_runs db) of
            Some completed \<Rightarrow>
              (Inr True, db\<lparr>db_runs := updateWhere (completableRun db input) (applyCompletion input finishedAt) (db_runs db),
                 db_jobs := updateWhere (summaryAccepts (run_jobId completed) finishedAt)
                   (applyCompletionSummary input finishedAt) (db_jobs db)\<rparr>)
          | None \<Rightarrow>
              ensure (assertNodeOwnedByActor db (done_nodeId input) actor) db (\<lambda>_.
              ensure (assertOrganizationMember db (run_organizationId run) actor None) db (\<lambda>_.
              case findRun db (done_runId input) (done_nodeId input) of
                None \<Rightarrow> (Inl ScheduledJobRunTransitionUnavailableError, db)
              | Some current \<Rightarrow>
                  ensure (assertOrganizationMember db (run_organizationId current) actor None) db (\<lambda>_.
                  if isSameTerminalResult canonicalJson input current then (Inr True, db)
                  else if isScheduledTerminalResult current then (Inr False, db)
                  else (Inl ScheduledJobRunTransitionUnavailableError, db)))))))"

end
