(* ===== verification/Scheduled_Job_Service.thy ===== *)
theory Scheduled_Job_Service
  imports Scheduled_Jobs
begin

text \<open>
  The operations of users and of the service itself on scheduled jobs: the HTTP service
  (\<open>services/scheduled-job-service.ts\<close>), the clean-up of abandoned runs and the dispatch of manual runs
  (\<open>services/job-evaluator-service.ts\<close>, \<open>scheduled/consumer.ts\<close>) and the bounded publication of
  dispatch messages (\<open>scheduled/queue.ts\<close>). As in the operations of the node, \<open>seen\<close> is the state an
  operation reads before it writes.
\<close>

section \<open>Checks\<close>

definition visibleStatus :: "ScheduledJobStatus \<Rightarrow> bool" where
  "visibleStatus s \<longleftrightarrow> s \<in> {JobActive, JobPaused, JobDisabled}"

definition assertProjectBelongsToOrganization :: "JobDatabase \<Rightarrow> string \<Rightarrow> string \<Rightarrow> JobError + unit" where
  "assertProjectBelongsToOrganization db projectId organizationId =
     (if list_ex (\<lambda>p. project_id p = projectId \<and> project_organizationId p = organizationId) (db_projects db)
      then Inr () else Inl (ProjectNotFoundError projectId))"

definition visibleJob :: "string \<Rightarrow> string \<Rightarrow> ScheduledJob \<Rightarrow> bool" where
  "visibleJob jobId organizationId j \<longleftrightarrow>
     job_id j = jobId \<and> job_organizationId j = organizationId \<and> visibleStatus (job_status j)"

definition getJobOrThrow :: "JobDatabase \<Rightarrow> string \<Rightarrow> string \<Rightarrow> JobError + ScheduledJob" where
  "getJobOrThrow db jobId organizationId =
     (case List.find (visibleJob jobId organizationId) (db_jobs db) of
        None \<Rightarrow> Inl (ScheduledJobNotFoundError jobId)
      | Some j \<Rightarrow> Inr j)"

definition assertJobExistsInOrg :: "JobDatabase \<Rightarrow> string \<Rightarrow> string \<Rightarrow> JobError + unit" where
  "assertJobExistsInOrg db jobId organizationId =
     (if list_ex (visibleJob jobId organizationId) (db_jobs db) then Inr () else Inl (ScheduledJobNotFoundError jobId))"

definition validateCronOrThrow :: "string \<Rightarrow> JobError + ParsedCron" where
  "validateCronOrThrow expression =
     (case parseCronExpression expression of
        Inl e \<Rightarrow> Inl (ScheduledJobInvalidCronError expression e)
      | Inr p \<Rightarrow> Inr p)"

definition validateTimezoneOrThrow :: "JobEnv \<Rightarrow> string \<Rightarrow> JobError + string" where
  "validateTimezoneOrThrow env timezone =
     (case ensureTimezoneSupported (env_supported env) timezone of
        Inl e \<Rightarrow> Inl (ScheduledJobInvalidTimezoneError timezone e)
      | Inr t \<Rightarrow> Inr t)"

definition nextRunOrThrow :: "JobEnv \<Rightarrow> ParsedCron \<Rightarrow> string \<Rightarrow> int \<Rightarrow> JobError + int" where
  "nextRunOrThrow env parsed timezone now =
     (case computeNextRunAt (env_intl env) parsed timezone now of Inl e \<Rightarrow> Inl (NextRunError e) | Inr t \<Rightarrow> Inr t)"

record JobActor =
  actor_userId :: string
  actor_role :: "string option"
  actor_organizationId :: string

definition assertActor :: "JobDatabase \<Rightarrow> JobActor \<Rightarrow> JobError + string" where
  "assertActor db actor = assertOrganizationMember db (actor_organizationId actor) (actor_userId actor) (actor_role actor)"

section \<open>Creating and changing jobs\<close>

text \<open>The project and the node are checked concurrently; when both fail, the project is reported here.\<close>

record CreateScheduledJobInput =
  new_projectId :: string
  new_name :: string
  new_nodeId :: string
  new_agentKind :: "string option"
  new_prompt :: string
  new_model :: "string option"
  new_command :: "string option"
  new_cronExpression :: string
  new_timezone :: "string option"

definition createScheduledJob ::
  "JobEnv \<Rightarrow> int \<Rightarrow> string \<Rightarrow> JobActor \<Rightarrow> CreateScheduledJobInput \<Rightarrow> JobDatabase \<Rightarrow> JobDatabase \<Rightarrow> ScheduledJob JobResult" where
  "createScheduledJob env now newId actor input seen db =
     ensure (assertActor seen actor) db (\<lambda>_.
     ensure (assertProjectBelongsToOrganization seen (new_projectId input) (actor_organizationId actor)) db (\<lambda>_.
     ensure (assertNodeOwnedByActor seen (new_nodeId input) (actor_userId actor)) db (\<lambda>_.
     let cronExpression = js_trim (new_cronExpression input) in
     ensure (validateTimezoneOrThrow env (falsy_or (js_trim (nullish (new_timezone input) [])) ''UTC'')) db (\<lambda>timezone.
     ensure (validateCronOrThrow cronExpression) db (\<lambda>parsed.
     ensure (nextRunOrThrow env parsed timezone now) db (\<lambda>nextRunAt.
     let job = \<lparr>job_id = newId, job_organizationId = actor_organizationId actor, job_projectId = new_projectId input,
                job_nodeId = js_trim (new_nodeId input), job_name = js_trim (new_name input),
                job_agentKind = nullish (new_agentKind input) ''pi'', job_prompt = js_trim (new_prompt input),
                job_model = map_option js_trim (new_model input), job_command = map_option js_trim (new_command input),
                job_cronExpression = cronExpression, job_timezone = timezone, job_status = JobActive,
                job_nextRunAt = nextRunAt, job_lastScheduledFor = None, job_lastRunAt = None, job_lastRunStatus = None,
                job_lastErrorCode = None, job_lastErrorMessage = None, job_createdByUserId = actor_userId actor,
                job_createdAt = now, job_updatedAt = now\<rparr>
     in if list_ex (\<lambda>j. job_id j = newId) (db_jobs db) then (Inl DuplicateKeyError, db)
        else (Inr job, db\<lparr>db_jobs := db_jobs db @ [job]\<rparr>)))))))"

text \<open>A change; an absent field stays, a model or command can be set to null.\<close>

record UpdateScheduledJobInput =
  upd_jobId :: string
  upd_name :: "string option"
  upd_nodeId :: "string option"
  upd_agentKind :: "string option"
  upd_prompt :: "string option"
  upd_model :: "string option option"
  upd_command :: "string option option"
  upd_cronExpression :: "string option"
  upd_timezone :: "string option"

definition applyJobUpdate ::
  "int \<Rightarrow> UpdateScheduledJobInput \<Rightarrow> string \<Rightarrow> string \<Rightarrow> string \<Rightarrow> int \<Rightarrow> ScheduledJob \<Rightarrow> ScheduledJob \<Rightarrow> ScheduledJob" where
  "applyJobUpdate now input nodeId nextCron nextTimezone nextRunAt existing j =
     j\<lparr>job_name := nullish (map_option js_trim (upd_name input)) (job_name existing),
       job_nodeId := nodeId,
       job_agentKind := nullish (upd_agentKind input) (job_agentKind existing),
       job_prompt := nullish (map_option js_trim (upd_prompt input)) (job_prompt existing),
       job_model := (case upd_model input of None \<Rightarrow> job_model existing | Some m \<Rightarrow> map_option js_trim m),
       job_command := (case upd_command input of None \<Rightarrow> job_command existing | Some c \<Rightarrow> map_option js_trim c),
       job_cronExpression := nextCron, job_timezone := nextTimezone, job_nextRunAt := nextRunAt, job_updatedAt := now\<rparr>"

text \<open>The row is locked when it is read, so reading and writing it see one state.\<close>

definition updateScheduledJob ::
  "JobEnv \<Rightarrow> int \<Rightarrow> JobActor \<Rightarrow> UpdateScheduledJobInput \<Rightarrow> JobDatabase \<Rightarrow> JobDatabase \<Rightarrow> (ScheduledJob \<times> string) JobResult" where
  "updateScheduledJob env now actor input seen db =
     ensure (assertActor seen actor) db (\<lambda>_.
     ensure (getJobOrThrow db (upd_jobId input) (actor_organizationId actor)) db (\<lambda>existing.
     let nodeId = nullish (map_option js_trim (upd_nodeId input)) (job_nodeId existing) in
     ensure (if upd_nodeId input \<noteq> None then assertNodeOwnedByActor db nodeId (actor_userId actor) else Inr ()) db (\<lambda>_.
     let nextCron = nullish (map_option js_trim (upd_cronExpression input)) (job_cronExpression existing) in
     ensure (validateTimezoneOrThrow env (js_trim (nullish (upd_timezone input) (job_timezone existing)))) db (\<lambda>nextTimezone.
     ensure (validateCronOrThrow nextCron) db (\<lambda>parsed.
     let shouldRecomputeNextRun =
           upd_cronExpression input \<noteq> None \<or> upd_timezone input \<noteq> None \<or> job_status existing = JobActive in
     ensure (if shouldRecomputeNextRun then nextRunOrThrow env parsed nextTimezone now else Inr (job_nextRunAt existing)) db
       (\<lambda>nextRunAt.
        let change = applyJobUpdate now input nodeId nextCron nextTimezone nextRunAt existing in
        (Inr (change existing, job_nodeId existing),
         db\<lparr>db_jobs := updateWhere (\<lambda>j. job_id j = job_id existing) change (db_jobs db)\<rparr>)))))))"

text \<open>\<open>pauseScheduledJob\<close>, \<open>disableScheduledJob\<close> and \<open>deleteScheduledJob\<close> differ in the new status.\<close>

definition setJobStatus ::
  "ScheduledJobStatus \<Rightarrow> int \<Rightarrow> JobActor \<Rightarrow> string \<Rightarrow> JobDatabase \<Rightarrow> JobDatabase \<Rightarrow> ScheduledJob JobResult" where
  "setJobStatus status now actor jobId seen db =
     ensure (assertActor seen actor) db (\<lambda>_.
     ensure (assertJobExistsInOrg seen jobId (actor_organizationId actor)) db (\<lambda>_.
     let target = (\<lambda>j. job_id j = jobId \<and> job_organizationId j = actor_organizationId actor);
         change = (\<lambda>j. j\<lparr>job_status := status, job_updatedAt := now\<rparr>)
     in case List.find target (db_jobs db) of
          None \<Rightarrow> (Inl (ScheduledJobNotFoundError jobId), db)
        | Some j \<Rightarrow> (Inr (change j), db\<lparr>db_jobs := updateWhere target change (db_jobs db)\<rparr>)))"

definition pauseScheduledJob :: "int \<Rightarrow> JobActor \<Rightarrow> string \<Rightarrow> JobDatabase \<Rightarrow> JobDatabase \<Rightarrow> ScheduledJob JobResult" where
  "pauseScheduledJob = setJobStatus JobPaused"

definition disableScheduledJob :: "int \<Rightarrow> JobActor \<Rightarrow> string \<Rightarrow> JobDatabase \<Rightarrow> JobDatabase \<Rightarrow> ScheduledJob JobResult" where
  "disableScheduledJob = setJobStatus JobDisabled"

definition deleteScheduledJob :: "int \<Rightarrow> JobActor \<Rightarrow> string \<Rightarrow> JobDatabase \<Rightarrow> JobDatabase \<Rightarrow> ScheduledJob JobResult" where
  "deleteScheduledJob = setJobStatus JobDeleted"

definition resumeScheduledJob ::
  "JobEnv \<Rightarrow> int \<Rightarrow> JobActor \<Rightarrow> string \<Rightarrow> JobDatabase \<Rightarrow> JobDatabase \<Rightarrow> ScheduledJob JobResult" where
  "resumeScheduledJob env now actor jobId seen db =
     ensure (assertActor seen actor) db (\<lambda>_.
     ensure (getJobOrThrow seen jobId (actor_organizationId actor)) db (\<lambda>existing.
     ensure (validateCronOrThrow (job_cronExpression existing)) db (\<lambda>parsed.
     ensure (validateTimezoneOrThrow env (job_timezone existing)) db (\<lambda>timezone.
     ensure (nextRunOrThrow env parsed timezone now) db (\<lambda>nextRunAt.
     let change = (\<lambda>j. j\<lparr>job_status := JobActive, job_nextRunAt := nextRunAt, job_updatedAt := now\<rparr>)
     in case List.find (\<lambda>j. job_id j = job_id existing) (db_jobs db) of
          None \<Rightarrow> (Inl (ScheduledJobNotFoundError jobId), db)
        | Some j \<Rightarrow> (Inr (change j), db\<lparr>db_jobs := updateWhere (\<lambda>j. job_id j = job_id existing) change (db_jobs db)\<rparr>))))))"

section \<open>Queries\<close>

definition listScheduledJobs :: "JobActor \<Rightarrow> string option \<Rightarrow> nat option \<Rightarrow> JobDatabase \<Rightarrow> JobError + ScheduledJob list" where
  "listScheduledJobs actor projectId limit db =
     (case assertActor db actor of
        Inl e \<Rightarrow> Inl e
      | Inr _ \<Rightarrow>
          (case (case truthy_string projectId of
                   None \<Rightarrow> Inr ()
                 | Some p \<Rightarrow> assertProjectBelongsToOrganization db p (actor_organizationId actor)) of
             Inl e \<Rightarrow> Inl e
           | Inr _ \<Rightarrow>
               let rows = sortBy (\<lambda>a b. job_createdAt b - job_createdAt a)
                     (filter (\<lambda>j. job_organizationId j = actor_organizationId actor \<and> visibleStatus (job_status j) \<and>
                        (case truthy_string projectId of None \<Rightarrow> True | Some p \<Rightarrow> job_projectId j = p)) (db_jobs db))
               in Inr (case limit of None \<Rightarrow> rows | Some n \<Rightarrow> take n rows)))"

definition DEFAULT_RUN_LIMIT :: nat where
  "DEFAULT_RUN_LIMIT = 20"

definition listJobRuns :: "JobActor \<Rightarrow> string \<Rightarrow> nat option \<Rightarrow> JobDatabase \<Rightarrow> JobError + ScheduledJobRun list" where
  "listJobRuns actor jobId limit db =
     (case assertActor db actor of
        Inl e \<Rightarrow> Inl e
      | Inr _ \<Rightarrow>
          (case assertJobExistsInOrg db jobId (actor_organizationId actor) of
             Inl e \<Rightarrow> Inl e
           | Inr _ \<Rightarrow> Inr (take (nullish limit DEFAULT_RUN_LIMIT)
               (sortBy (\<lambda>a b. run_scheduledFor b - run_scheduledFor a)
                 (filter (\<lambda>r. run_jobId r = jobId \<and> run_organizationId r = actor_organizationId actor) (db_runs db))))))"

section \<open>Manual runs\<close>

record PendingRun =
  pending_runId :: string
  pending_scheduledFor :: int
  pending_job :: ScheduledJob

definition triggerRunNow :: "int \<Rightarrow> string \<Rightarrow> JobActor \<Rightarrow> string \<Rightarrow> JobDatabase \<Rightarrow> JobDatabase \<Rightarrow> PendingRun JobResult" where
  "triggerRunNow now newId actor jobId seen db =
     ensure (assertActor seen actor) db (\<lambda>_.
     ensure (getJobOrThrow seen jobId (actor_organizationId actor)) db (\<lambda>job.
     let run = newRun newId job now TriggerManual now in
     if runConflicts run (db_runs db) then (Inl DuplicateKeyError, db)
     else (Inr \<lparr>pending_runId = newId, pending_scheduledFor = now, pending_job = job\<rparr>, db\<lparr>db_runs := db_runs db @ [run]\<rparr>)))"

definition dispatchFailable :: "JobActor \<Rightarrow> string \<Rightarrow> string \<Rightarrow> ScheduledJobRun \<Rightarrow> bool" where
  "dispatchFailable actor jobId runId r \<longleftrightarrow>
     run_id r = runId \<and> run_jobId r = jobId \<and> run_organizationId r = actor_organizationId actor \<and>
     run_status r = RunPending \<and> run_trigger r = TriggerManual"

definition failDispatch :: "int \<Rightarrow> ScheduledJobRun \<Rightarrow> ScheduledJobRun" where
  "failDispatch now r =
     r\<lparr>run_status := RunFailed, run_finishedAt := Some now, run_errorCode := Some ''QUEUE_DISPATCH_FAILED'',
       run_errorMessage := Some ''Scheduled job run could not be dispatched to the queue''\<rparr>"

definition markRunNowDispatchFailed ::
  "int \<Rightarrow> JobActor \<Rightarrow> string \<Rightarrow> string \<Rightarrow> JobDatabase \<Rightarrow> JobDatabase \<Rightarrow> (bool \<times> ScheduledJobRun) JobResult" where
  "markRunNowDispatchFailed now actor jobId runId seen db =
     ensure (assertActor seen actor) db (\<lambda>_.
     case List.find (dispatchFailable actor jobId runId) (db_runs db) of
       Some r \<Rightarrow> (Inr (True, failDispatch now r),
         db\<lparr>db_runs := updateWhere (dispatchFailable actor jobId runId) (failDispatch now) (db_runs db)\<rparr>)
     | None \<Rightarrow>
         (case List.find (\<lambda>r. run_id r = runId \<and> run_jobId r = jobId \<and> run_organizationId r = actor_organizationId actor) (db_runs db) of
            Some current \<Rightarrow>
              if run_status current \<noteq> RunPending then (Inr (False, current), db)
              else (Inl ScheduledJobRunTransitionUnavailableError, db)
          | None \<Rightarrow> (Inl ScheduledJobRunTransitionUnavailableError, db)))"

section \<open>Abandoned runs\<close>

definition interruptedCode :: string where
  "interruptedCode = ''DAEMON_INTERRUPTED''"

definition stalePending :: "int \<Rightarrow> ScheduledJobRun \<Rightarrow> bool" where
  "stalePending threshold r \<longleftrightarrow> run_status r = RunPending \<and> run_createdAt r < threshold"

definition skipStale :: "int \<Rightarrow> ScheduledJobRun \<Rightarrow> ScheduledJobRun" where
  "skipStale now r =
     r\<lparr>run_status := RunSkippedOffline, run_finishedAt := Some now, run_errorCode := Some interruptedCode,
       run_errorMessage := Some ''Daemon interrupted before the run started''\<rparr>"

definition staleRunning :: "int \<Rightarrow> ScheduledJobRun \<Rightarrow> bool" where
  "staleRunning threshold r \<longleftrightarrow>
     run_status r = RunRunning \<and> (case run_startedAt r of None \<Rightarrow> False | Some t \<Rightarrow> t < threshold)"

definition interruptedMessage :: string where
  "interruptedMessage = ''Daemon interrupted while the run was executing''"

definition failStale :: "int \<Rightarrow> ScheduledJobRun \<Rightarrow> ScheduledJobRun" where
  "failStale now r =
     r\<lparr>run_status := RunFailed, run_finishedAt := Some now, run_errorCode := Some interruptedCode,
       run_errorMessage := Some interruptedMessage\<rparr>"

definition staleSummary :: "int \<Rightarrow> ScheduledJobRun \<Rightarrow> ScheduledJob list \<Rightarrow> ScheduledJob list" where
  "staleSummary now failedRun jobs =
     (let runSummaryAt = nullish (run_startedAt failedRun) (run_createdAt failedRun) in
      updateWhere (summaryAccepts (run_jobId failedRun) runSummaryAt)
        (\<lambda>j. j\<lparr>job_lastRunAt := Some runSummaryAt, job_lastRunStatus := Some RunFailed,
               job_lastErrorCode := Some interruptedCode, job_lastErrorMessage := Some interruptedMessage,
               job_updatedAt := now\<rparr>) jobs)"

definition terminalizeStaleRuns :: "int \<Rightarrow> int \<Rightarrow> JobDatabase \<Rightarrow> (nat \<times> nat) JobResult" where
  "terminalizeStaleRuns now staleThresholdMinutes db =
     (let threshold = now - staleThresholdMinutes * 60000;
          skipped = filter (stalePending threshold) (db_runs db);
          runs1 = updateWhere (stalePending threshold) (skipStale now) (db_runs db);
          failed = filter (staleRunning threshold) runs1;
          runs2 = updateWhere (staleRunning threshold) (failStale now) runs1
      in (Inr (length skipped, length failed),
          db\<lparr>db_runs := runs2, db_jobs := foldl (\<lambda>jobs r. staleSummary now r jobs) (db_jobs db) failed\<rparr>))"

section \<open>Dispatch of manual runs\<close>

record DispatchMessage =
  msg_runId :: string
  msg_nodeId :: string
  msg_jobId :: string
  msg_projectId :: string
  msg_agentKind :: string
  msg_prompt :: string
  msg_model :: string
  msg_command :: string
  msg_scheduledFor :: string

definition getPendingRunForDispatch :: "DispatchMessage \<Rightarrow> int \<Rightarrow> JobDatabase \<Rightarrow> ScheduledJobRun option" where
  "getPendingRunForDispatch msg scheduledFor db =
     List.find (\<lambda>r. run_id r = msg_runId msg \<and> run_jobId r = msg_jobId msg \<and> run_nodeId r = msg_nodeId msg \<and>
       run_status r = RunPending \<and> run_scheduledFor r = scheduledFor) (db_runs db)"

definition skipOffline :: "int \<Rightarrow> string \<Rightarrow> ScheduledJobRun \<Rightarrow> ScheduledJobRun" where
  "skipOffline now reason r =
     r\<lparr>run_status := RunSkippedOffline, run_finishedAt := Some now, run_errorCode := Some ''NODE_OFFLINE'',
       run_errorMessage := Some reason\<rparr>"

definition markRunSkippedOffline :: "int \<Rightarrow> string \<Rightarrow> string \<Rightarrow> string option \<Rightarrow> JobDatabase \<Rightarrow> JobDatabase" where
  "markRunSkippedOffline now runId nodeId reason db =
     db\<lparr>db_runs := updateWhere (\<lambda>r. run_id r = runId \<and> run_nodeId r = nodeId \<and> run_status r = RunPending)
       (skipOffline now (nullish reason ''node offline'')) (db_runs db)\<rparr>"

definition findProjectPathForNode :: "DispatchMessage \<Rightarrow> JobDatabase \<Rightarrow> string option" where
  "findProjectPathForNode msg db = latestWorkspacePath db (msg_projectId msg) (msg_nodeId msg)"

text \<open>What is sent to the relay, what it answers, and what becomes of the message.\<close>

record RelayRequest =
  req_runId :: string
  req_jobId :: string
  req_nodeId :: string
  req_scheduledFor :: string
  req_agentKind :: string
  req_prompt :: string
  req_model :: string
  req_command :: string
  req_projectPath :: "string option"

definition relayRequest :: "DispatchMessage \<Rightarrow> JobDatabase \<Rightarrow> RelayRequest" where
  "relayRequest msg db =
     \<lparr>req_runId = msg_runId msg, req_jobId = msg_jobId msg, req_nodeId = msg_nodeId msg, req_scheduledFor = msg_scheduledFor msg,
      req_agentKind = msg_agentKind msg, req_prompt = msg_prompt msg, req_model = msg_model msg, req_command = msg_command msg,
      req_projectPath = findProjectPathForNode msg db\<rparr>"

datatype RelayReply = RelayHttpError | RelayPayload bool "string option" "string option"

datatype DispatchOutcome = DispatchIgnored | DispatchSent | DispatchSkipped | DispatchError

definition handleDispatchMessage ::
  "int \<Rightarrow> (string \<Rightarrow> int option) \<Rightarrow> string option \<Rightarrow> (RelayRequest \<Rightarrow> RelayReply) \<Rightarrow> DispatchMessage \<Rightarrow> JobDatabase \<Rightarrow> JobDatabase \<Rightarrow>
   DispatchOutcome \<times> JobDatabase" where
  "handleDispatchMessage now parseDate relayURL relay msg seen db =
     (case parseDate (msg_scheduledFor msg) of
        None \<Rightarrow> (DispatchIgnored, db)
      | Some scheduledFor \<Rightarrow>
          (case getPendingRunForDispatch msg scheduledFor seen of
             None \<Rightarrow> (DispatchIgnored, db)
           | Some run \<Rightarrow>
               if run_trigger run \<noteq> TriggerManual then (DispatchIgnored, db)
               else if truthy_string relayURL = None then (DispatchError, db)
               else case relay (relayRequest msg seen) of
                 RelayHttpError \<Rightarrow> (DispatchError, db)
               | RelayPayload ok reason detail \<Rightarrow>
                   if ok then (DispatchSent, db)
                   else if reason = Some ''node_offline''
                   then (DispatchSkipped, markRunSkippedOffline now (msg_runId msg) (msg_nodeId msg)
                           (Some (nullish detail ''node offline'')) db)
                   else (DispatchError, db)))"

section \<open>Bounded publication\<close>

text \<open>
  The semaphore of \<open>publishViaQueue\<close>, with the sends in flight and their results. Every message
  calls \<open>run\<close> at once; a send ends with success or failure, which releases its slot.
\<close>

definition QUEUE_SEND_CONCURRENCY :: nat where
  "QUEUE_SEND_CONCURRENCY = 20"

record Semaphore =
  sem_count :: nat
  sem_queue :: "nat list"
  sem_sending :: "nat list"
  sem_results :: "(nat \<times> bool) list"

definition sem_acquire :: "nat \<Rightarrow> Semaphore \<Rightarrow> Semaphore" where
  "sem_acquire i s =
     (if sem_count s > 0 then s\<lparr>sem_count := sem_count s - 1, sem_sending := sem_sending s @ [i]\<rparr>
      else s\<lparr>sem_queue := sem_queue s @ [i]\<rparr>)"

definition sem_release :: "Semaphore \<Rightarrow> Semaphore" where
  "sem_release s =
     (case sem_queue s of
        [] \<Rightarrow> s\<lparr>sem_count := sem_count s + 1\<rparr>
      | i # rest \<Rightarrow> s\<lparr>sem_queue := rest, sem_sending := sem_sending s @ [i]\<rparr>)"

definition publishStart :: "nat \<Rightarrow> Semaphore" where
  "publishStart messages =
     foldl (\<lambda>s i. sem_acquire i s)
       \<lparr>sem_count = QUEUE_SEND_CONCURRENCY, sem_queue = [], sem_sending = [], sem_results = []\<rparr> [0..<messages]"

definition sendSettled :: "nat \<Rightarrow> bool \<Rightarrow> Semaphore \<Rightarrow> Semaphore" where
  "sendSettled i ok s =
     (if i \<in> set (sem_sending s)
      then sem_release (s\<lparr>sem_sending := removeAll i (sem_sending s), sem_results := sem_results s @ [(i, ok)]\<rparr>)
      else s)"

definition publishedCount :: "Semaphore \<Rightarrow> nat" where
  "publishedCount s = length (filter snd (sem_results s))"

end
