(* ===== verification/Scheduled_Job_Proofs.thy ===== *)
theory Scheduled_Job_Proofs
  imports Scheduled_Job_Service
begin

text \<open>
  How the operations on scheduled jobs move the rows of the two tables: a run only goes forward
  through its states and keeps its identity, the summary of a job only goes forward in time, and at
  most one row is added, under a new key. Every operation is shown to be such a move, whatever
  state it read before it wrote.
\<close>

section \<open>Moves of a row\<close>

definition terminalStatus :: "ScheduledJobRunStatus \<Rightarrow> bool" where
  "terminalStatus s \<longleftrightarrow> s \<in> {RunSucceeded, RunFailed, RunSkippedOffline}"

definition sameRun :: "ScheduledJobRun \<Rightarrow> ScheduledJobRun \<Rightarrow> bool" where
  "sameRun r r' \<longleftrightarrow>
     run_id r' = run_id r \<and> run_jobId r' = run_jobId r \<and> run_organizationId r' = run_organizationId r \<and>
     run_projectId r' = run_projectId r \<and> run_nodeId r' = run_nodeId r \<and> run_scheduledFor r' = run_scheduledFor r \<and>
     run_trigger r' = run_trigger r \<and> run_createdAt r' = run_createdAt r"

definition run_move :: "ScheduledJobRun \<Rightarrow> ScheduledJobRun \<Rightarrow> bool" where
  "run_move r r' \<longleftrightarrow> sameRun r r' \<and>
     (r' = r \<or>
      (run_status r = RunPending \<and> run_status r' = RunRunning \<and> run_startedAt r' \<noteq> None \<and> run_finishedAt r' = run_finishedAt r) \<or>
      (run_status r \<in> {RunPending, RunRunning} \<and> terminalStatus (run_status r') \<and>
       (run_status r' = RunSkippedOffline \<longrightarrow> run_status r = RunPending) \<and>
       run_finishedAt r' \<noteq> None \<and> run_startedAt r' = run_startedAt r))"

lemma run_move_refl [simp]: "run_move r r"
  by (simp add: run_move_def sameRun_def)

definition freshRun :: "ScheduledJobRun \<Rightarrow> bool" where
  "freshRun r \<longleftrightarrow> run_status r = RunPending \<and> run_startedAt r = None \<and> run_finishedAt r = None"

definition runs_evolve :: "ScheduledJobRun list \<Rightarrow> ScheduledJobRun list \<Rightarrow> bool" where
  "runs_evolve rs rs' \<longleftrightarrow>
     list_all2 run_move rs rs' \<or> (\<exists>r. rs' = rs @ [r] \<and> freshRun r \<and> \<not> runConflicts r rs)"

definition summary_le :: "int option \<Rightarrow> int option \<Rightarrow> bool" where
  "summary_le a b \<longleftrightarrow> (case a of None \<Rightarrow> True | Some t \<Rightarrow> (case b of None \<Rightarrow> False | Some t' \<Rightarrow> t \<le> t'))"

lemma summary_le_refl [simp]: "summary_le a a"
  by (simp add: summary_le_def split: option.split)

lemma summary_le_trans: "summary_le a b \<Longrightarrow> summary_le b c \<Longrightarrow> summary_le a c"
  by (auto simp: summary_le_def split: option.splits)

definition job_move :: "ScheduledJob \<Rightarrow> ScheduledJob \<Rightarrow> bool" where
  "job_move j j' \<longleftrightarrow>
     job_id j' = job_id j \<and> job_organizationId j' = job_organizationId j \<and> job_projectId j' = job_projectId j \<and>
     job_createdByUserId j' = job_createdByUserId j \<and> job_createdAt j' = job_createdAt j \<and>
     summary_le (job_lastRunAt j) (job_lastRunAt j')"

lemma job_move_refl [simp]: "job_move j j"
  by (simp add: job_move_def)

lemma job_move_trans: "job_move a b \<Longrightarrow> job_move b c \<Longrightarrow> job_move a c"
  by (auto simp: job_move_def intro: summary_le_trans)

definition jobs_evolve :: "ScheduledJob list \<Rightarrow> ScheduledJob list \<Rightarrow> bool" where
  "jobs_evolve js js' \<longleftrightarrow>
     list_all2 job_move js js' \<or> (\<exists>j. js' = js @ [j] \<and> job_id j \<notin> job_id ` set js \<and> job_lastRunAt j = None)"

lemma list_all2_updateWhere:
  assumes "\<And>r. R r r" "\<And>r. r \<in> set rs \<Longrightarrow> P r \<Longrightarrow> R r (f r)"
  shows "list_all2 R rs (updateWhere P f rs)"
  using assms(2) by (induction rs) (auto simp: updateWhere_def assms(1))

lemma runs_update: "(\<And>r. P r \<Longrightarrow> run_move r (f r)) \<Longrightarrow> runs_evolve rs (updateWhere P f rs)"
  by (simp add: runs_evolve_def list_all2_updateWhere)

lemma jobs_update: "(\<And>j. P j \<Longrightarrow> job_move j (f j)) \<Longrightarrow> jobs_evolve js (updateWhere P f js)"
  by (simp add: jobs_evolve_def list_all2_updateWhere)

lemma runs_same [simp]: "runs_evolve rs rs"
  by (simp add: runs_evolve_def list_all2_refl)

lemma jobs_same [simp]: "jobs_evolve js js"
  by (simp add: jobs_evolve_def list_all2_refl)

lemma runs_insert: "freshRun r \<Longrightarrow> \<not> runConflicts r rs \<Longrightarrow> runs_evolve rs (rs @ [r])"
  by (auto simp: runs_evolve_def)

text \<open>The whole state.\<close>

definition db_evolve :: "JobDatabase \<Rightarrow> JobDatabase \<Rightarrow> bool" where
  "db_evolve db db' \<longleftrightarrow> runs_evolve (db_runs db) (db_runs db') \<and> jobs_evolve (db_jobs db) (db_jobs db')"

lemma db_evolve_refl [simp]: "db_evolve db db"
  by (simp add: db_evolve_def)

lemma db_evolve_write [simp]:
  "db_evolve db (db\<lparr>db_jobs := js\<rparr>) \<longleftrightarrow> jobs_evolve (db_jobs db) js"
  "db_evolve db (db\<lparr>db_runs := rs\<rparr>) \<longleftrightarrow> runs_evolve (db_runs db) rs"
  "db_evolve db (db\<lparr>db_jobs := js, db_runs := rs\<rparr>) \<longleftrightarrow> runs_evolve (db_runs db) rs \<and> jobs_evolve (db_jobs db) js"
  "db_evolve db (db\<lparr>db_runs := rs, db_jobs := js\<rparr>) \<longleftrightarrow> runs_evolve (db_runs db) rs \<and> jobs_evolve (db_jobs db) js"
  by (simp_all add: db_evolve_def)

lemma ensure_evolve:
  assumes "\<And>x. check = Inr x \<Longrightarrow> db_evolve db (snd (continue x))"
  shows "db_evolve db (snd (ensure check db continue))"
  using assms by (cases check) (simp_all add: ensure_def)

named_theorems evolves \<open>every operation is a move\<close>

section \<open>The operations of the node\<close>

lemma claim_evolve [evolves]:
  "db_evolve db (snd (claimScheduledJob env now newId actorUserId nodeId jobId expected seen db))"
proof -
  have move: "job_move j (j\<lparr>job_nextRunAt := n, job_lastScheduledFor := l, job_updatedAt := u\<rparr>)" for j n l u
    by (simp add: job_move_def)
  have fresh: "freshRun (newRun i j t trigger c)" for i j t trigger c by (simp add: freshRun_def newRun_def)
  show ?thesis unfolding claimScheduledJob_def
    by (intro ensure_evolve) (auto simp: Let_def move fresh
      intro!: ensure_evolve jobs_update runs_insert split: option.split)
qed

lemma started_move: "startableRun db a n i r \<Longrightarrow> run_move r (r\<lparr>run_status := RunRunning, run_startedAt := Some t\<rparr>)"
  by (simp add: run_move_def sameRun_def startableRun_def)

lemma start_evolve [evolves]: "db_evolve db (snd (markRunStarted now actorUserId nodeId runId startedAt seen db))"
  unfolding markRunStarted_def
  by (intro ensure_evolve) (auto intro!: ensure_evolve runs_update started_move split: option.split)

lemma completion_move:
  "completableRun db input r \<Longrightarrow> done_status input \<in> {RunSucceeded, RunFailed} \<Longrightarrow> run_move r (applyCompletion input t r)"
  by (auto simp: run_move_def sameRun_def completableRun_def applyCompletion_def terminalStatus_def)

lemma summary_move: "summaryAccepts i t j \<Longrightarrow> job_move j (applyCompletionSummary input t j)"
  by (auto simp: job_move_def summaryAccepts_def applyCompletionSummary_def summary_le_def split: option.splits)

lemma complete_evolve [evolves]:
  assumes "done_status input \<in> {RunSucceeded, RunFailed}"
  shows "db_evolve db (snd (completeRun json now input seen db))"
  using assms unfolding completeRun_def Let_def
  by (intro ensure_evolve)
    (auto intro!: ensure_evolve runs_update jobs_update completion_move summary_move split: option.split)

lemma list_all2_trans_move: "list_all2 job_move as bs \<Longrightarrow> list_all2 job_move bs cs \<Longrightarrow> list_all2 job_move as cs"
  by (rule list_all2_trans [where ?P1.0 = job_move and ?P2.0 = job_move]) (rule job_move_trans)

lemma fastForward_moves:
  "db_runs (snd (fastForwardOverdueJob env now a job db)) = db_runs db \<and>
   list_all2 job_move (db_jobs db) (db_jobs (snd (fastForwardOverdueJob env now a job db)))"
proof -
  have move: "job_move j (j\<lparr>job_nextRunAt := n, job_updatedAt := u\<rparr>)" for j n u by (simp add: job_move_def)
  show ?thesis unfolding fastForwardOverdueJob_def ensure_def
    by (auto simp: list_all2_refl move intro!: list_all2_updateWhere split: sum.split)
qed

lemma fastForwardAll_moves:
  "db_runs (snd (fastForwardAll env now a jobs db)) = db_runs db \<and>
   list_all2 job_move (db_jobs db) (db_jobs (snd (fastForwardAll env now a jobs db)))"
proof (induction env now a jobs db rule: fastForwardAll.induct)
  case (2 env now a job jobs db)
  obtain r db1 where one: "fastForwardOverdueJob env now a job db = (r, db1)" by force
  obtain r' db2 where rest: "fastForwardAll env now a jobs db1 = (r', db2)" by force
  have "snd (fastForwardAll env now a (job # jobs) db) = db2" using one rest by (simp split: sum.split)
  moreover have "db_runs db1 = db_runs db" "list_all2 job_move (db_jobs db) (db_jobs db1)"
    using fastForward_moves [of env now a job db] one by auto
  moreover have "db_runs db2 = db_runs db1" "list_all2 job_move (db_jobs db1) (db_jobs db2)"
    using 2 [OF one [symmetric]] rest by auto
  ultimately show ?case using list_all2_trans_move by auto
qed (simp add: list_all2_refl)

lemma reconcile_evolve [evolves]: "db_evolve db (snd (reconcileScheduledJobs env now a n prot seen db))"
  unfolding reconcileScheduledJobs_def Let_def
proof (intro ensure_evolve)
  let ?jobs = "filter (\<lambda>job. \<not> (map_of (rev prot) (job_id job) = Some (job_nextRunAt job) \<or> now < job_nextRunAt job))
    (getAuthorizedActiveJobs seen n a)"
  show "db_evolve db (snd (case fastForwardAll env now a ?jobs db of
        (Inl e, db') \<Rightarrow> (Inl e, db') | (Inr _, db') \<Rightarrow> (Inr (getAuthorizedActiveJobs db' n a), db')))"
    using fastForwardAll_moves [of env now a ?jobs db]
    by (auto simp: db_evolve_def jobs_evolve_def split: prod.split sum.split)
qed

section \<open>The operations of users and of the service\<close>

lemma create_evolve [evolves]: "db_evolve db (snd (createScheduledJob env now newId actor input seen db))"
  unfolding createScheduledJob_def Let_def
  by (intro ensure_evolve) (auto simp: db_evolve_def jobs_evolve_def list_ex_iff list_all2_refl)

lemma update_evolve [evolves]: "db_evolve db (snd (updateScheduledJob env now actor input seen db))"
proof -
  have move: "job_move j (applyJobUpdate now input n c t x e j)" for n c t x e j
    by (simp add: job_move_def applyJobUpdate_def)
  show ?thesis unfolding updateScheduledJob_def Let_def
    by (intro ensure_evolve) (auto simp: db_evolve_def intro!: jobs_update move)
qed

lemma setJobStatus_evolve: "db_evolve db (snd (setJobStatus status now actor jobId seen db))"
proof -
  have move: "job_move j (j\<lparr>job_status := s, job_updatedAt := u\<rparr>)" for j s u by (simp add: job_move_def)
  show ?thesis unfolding setJobStatus_def Let_def
    by (intro ensure_evolve) (auto simp: db_evolve_def intro!: jobs_update move split: option.split)
qed

lemmas pause_evolve [evolves] = setJobStatus_evolve [of _ JobPaused, folded pauseScheduledJob_def]
lemmas disable_evolve [evolves] = setJobStatus_evolve [of _ JobDisabled, folded disableScheduledJob_def]
lemmas delete_evolve [evolves] = setJobStatus_evolve [of _ JobDeleted, folded deleteScheduledJob_def]

lemma resume_evolve [evolves]: "db_evolve db (snd (resumeScheduledJob env now actor jobId seen db))"
proof -
  have move: "job_move j (j\<lparr>job_status := s, job_nextRunAt := n, job_updatedAt := u\<rparr>)" for j s n u by (simp add: job_move_def)
  show ?thesis unfolding resumeScheduledJob_def Let_def
    by (intro ensure_evolve) (auto simp: db_evolve_def intro!: jobs_update move split: option.split)
qed

lemma trigger_evolve [evolves]: "db_evolve db (snd (triggerRunNow now newId actor jobId seen db))"
proof -
  have fresh: "freshRun (newRun i j t trigger c)" for i j t trigger c by (simp add: freshRun_def newRun_def)
  show ?thesis unfolding triggerRunNow_def Let_def
    by (intro ensure_evolve) (auto simp: db_evolve_def fresh intro!: runs_insert)
qed

lemma dispatchFailed_evolve [evolves]: "db_evolve db (snd (markRunNowDispatchFailed now actor jobId runId seen db))"
proof -
  have move: "dispatchFailable actor jobId runId r \<Longrightarrow> run_move r (failDispatch now r)" for r
    by (simp add: run_move_def sameRun_def dispatchFailable_def failDispatch_def terminalStatus_def)
  show ?thesis unfolding markRunNowDispatchFailed_def
    by (intro ensure_evolve) (auto simp: db_evolve_def intro!: runs_update move split: option.split)
qed

lemma dispatch_evolve [evolves]: "db_evolve db (snd (handleDispatchMessage now parseDate relayURL relay msg seen db))"
proof -
  have move: "run_status r = RunPending \<Longrightarrow> run_move r (skipOffline now reason r)" for r reason
    by (simp add: run_move_def sameRun_def skipOffline_def terminalStatus_def)
  show ?thesis unfolding handleDispatchMessage_def markRunSkippedOffline_def
    by (auto simp: db_evolve_def intro!: runs_update move split: option.split RelayReply.split)
qed

lemma staleSummary_moves: "list_all2 job_move js (foldl (\<lambda>jobs r. staleSummary now r jobs) js rs)"
proof (induction rs arbitrary: js)
  case (Cons r rs)
  have "list_all2 job_move js (staleSummary now r js)"
    unfolding staleSummary_def Let_def
    by (rule list_all2_updateWhere) (auto simp: job_move_def summaryAccepts_def summary_le_def split: option.splits)
  with Cons.IH show ?case by (auto intro: list_all2_trans_move)
qed (simp add: list_all2_refl)

lemma terminalize_evolve [evolves]: "db_evolve db (snd (terminalizeStaleRuns now minutes db))"
proof -
  let ?t = "now - minutes * 60000"
  let ?f = "\<lambda>r. if stalePending ?t r then skipStale now r else if staleRunning ?t r then failStale now r else r"
  have "updateWhere (staleRunning ?t) (failStale now) (updateWhere (stalePending ?t) (skipStale now) rs) = map ?f rs" for rs
    by (auto simp: updateWhere_def staleRunning_def skipStale_def)
  moreover have "run_move r (?f r)" for r
    by (auto simp: run_move_def sameRun_def stalePending_def staleRunning_def skipStale_def failStale_def terminalStatus_def)
  then have "list_all2 run_move rs (map ?f rs)" for rs by (simp add: list_all2_map2 list_all2_refl)
  ultimately show ?thesis
    using staleSummary_moves by (simp add: terminalizeStaleRuns_def Let_def db_evolve_def runs_evolve_def jobs_evolve_def)
qed

end
