(* ===== verification/Scheduled_Job_Steps.thy ===== *)
theory Scheduled_Job_Steps
  imports Scheduled_Job_Proofs
begin

text \<open>
  All operations on scheduled jobs as one step relation over the tables, for any interleaving of
  users, nodes and the service, and what a table whose rows only move forward guarantees after any
  number of steps: the interface \<open>table_history\<close> is interpreted on the runs, on the runs of a schedule
  under their occurrence, and on the jobs.
\<close>

section \<open>Steps\<close>

text \<open>
  Every operation may have read any earlier state. What other parts of the service do to nodes,
  members, projects and workspaces is the last rule.
\<close>

inductive job_step :: "JobDatabase \<Rightarrow> JobDatabase \<Rightarrow> bool" where
  claim: "job_step db (snd (claimScheduledJob env now newId actorUserId nodeId jobId expected seen db))"
| start: "job_step db (snd (markRunStarted now actorUserId nodeId runId startedAt seen db))"
| complete: "done_status input \<in> {RunSucceeded, RunFailed} \<Longrightarrow> job_step db (snd (completeRun canonicalJson now input seen db))"
| reconcile: "job_step db (snd (reconcileScheduledJobs env now actorUserId nodeId protectedJobs seen db))"
| create: "job_step db (snd (createScheduledJob env now newId actor new seen db))"
| update: "job_step db (snd (updateScheduledJob env now actor upd seen db))"
| pause: "job_step db (snd (pauseScheduledJob now actor jobId seen db))"
| disable: "job_step db (snd (disableScheduledJob now actor jobId seen db))"
| delete: "job_step db (snd (deleteScheduledJob now actor jobId seen db))"
| resume: "job_step db (snd (resumeScheduledJob env now actor jobId seen db))"
| trigger: "job_step db (snd (triggerRunNow now newId actor jobId seen db))"
| dispatchFailed: "job_step db (snd (markRunNowDispatchFailed now actor jobId runId seen db))"
| dispatch: "job_step db (snd (handleDispatchMessage now parseDate relayURL relay msg seen db))"
| terminalize: "job_step db (snd (terminalizeStaleRuns now minutes db))"
| elsewhere: "db_jobs db' = db_jobs db \<Longrightarrow> db_runs db' = db_runs db \<Longrightarrow> job_step db db'"

lemma job_step_evolve: "job_step db db' \<Longrightarrow> db_evolve db db'"
  by (induction rule: job_step.induct) (simp_all add: evolves, simp add: db_evolve_def)

section \<open>The three tables\<close>

lemma run_move_same: "run_move r r' \<Longrightarrow> sameRun r r'"
  by (simp add: run_move_def)

lemma terminal_run_final: "run_move r r' \<Longrightarrow> terminalStatus (run_status r) \<Longrightarrow> r' = r"
  by (auto simp: run_move_def terminalStatus_def)

interpretation runs: table_history job_step db_runs run_id run_move
proof unfold_locales
  fix s s' assume "job_step s s'"
  then have "runs_evolve (db_runs s) (db_runs s')" using job_step_evolve by (simp add: db_evolve_def)
  then show "list_all2 run_move (db_runs s) (db_runs s') \<or>
      (\<exists>r. db_runs s' = db_runs s @ [r] \<and> run_id r \<notin> run_id ` set (db_runs s))"
    unfolding runs_evolve_def runConflicts_def list_ex_iff by (elim disj_forward) fastforce+
next
  show "run_move r r' \<Longrightarrow> run_id r' = run_id r" for r r' by (simp add: run_move_def sameRun_def)
qed

interpretation jobs: table_history job_step db_jobs job_id job_move
proof unfold_locales
  fix s s' assume "job_step s s'"
  then have "jobs_evolve (db_jobs s) (db_jobs s')" using job_step_evolve by (simp add: db_evolve_def)
  then show "list_all2 job_move (db_jobs s) (db_jobs s') \<or>
      (\<exists>r. db_jobs s' = db_jobs s @ [r] \<and> job_id r \<notin> job_id ` set (db_jobs s))"
    by (auto simp: jobs_evolve_def)
next
  show "job_move j j' \<Longrightarrow> job_id j' = job_id j" for j j' by (simp add: job_move_def)
qed

text \<open>The runs of a schedule, under the unique index over job and due time.\<close>

definition scheduledRuns :: "JobDatabase \<Rightarrow> ScheduledJobRun list" where
  "scheduledRuns db = filter (\<lambda>r. run_trigger r = TriggerSchedule) (db_runs db)"

definition occurrence :: "ScheduledJobRun \<Rightarrow> string \<times> int" where
  "occurrence r = (run_jobId r, run_scheduledFor r)"

lemma list_all2_filter_move:
  assumes "\<And>r r'. R r r' \<Longrightarrow> P r' = P r"
  shows "list_all2 R rs rs' \<Longrightarrow> list_all2 R (filter P rs) (filter P rs')"
  by (induction rule: list_all2_induct) (auto simp: assms)

interpretation occurrences: table_history job_step scheduledRuns occurrence run_move
proof unfold_locales
  fix s s' assume "job_step s s'"
  then have "runs_evolve (db_runs s) (db_runs s')" using job_step_evolve by (simp add: db_evolve_def)
  then consider (moves) "list_all2 run_move (db_runs s) (db_runs s')"
    | (new) r where "db_runs s' = db_runs s @ [r]" "\<not> runConflicts r (db_runs s)"
    by (auto simp: runs_evolve_def)
  then show "list_all2 run_move (scheduledRuns s) (scheduledRuns s') \<or>
      (\<exists>r. scheduledRuns s' = scheduledRuns s @ [r] \<and> occurrence r \<notin> occurrence ` set (scheduledRuns s))"
  proof cases
    case moves
    then show ?thesis
      by (auto simp: scheduledRuns_def run_move_def sameRun_def intro!: list_all2_filter_move)
  next
    case new
    then show ?thesis
      by (cases "run_trigger r") (auto simp: scheduledRuns_def occurrence_def runConflicts_def list_ex_iff list_all2_refl)
  qed
next
  show "run_move r r' \<Longrightarrow> occurrence r' = occurrence r" for r r'
    by (simp add: run_move_def sameRun_def occurrence_def)
qed

section \<open>The shape of a run\<close>

definition runShape :: "ScheduledJobRun \<Rightarrow> bool" where
  "runShape r \<longleftrightarrow>
     (case run_status r of
        RunPending \<Rightarrow> run_startedAt r = None \<and> run_finishedAt r = None
      | RunRunning \<Rightarrow> run_startedAt r \<noteq> None \<and> run_finishedAt r = None
      | RunSkippedOffline \<Rightarrow> run_startedAt r = None \<and> run_finishedAt r \<noteq> None
      | _ \<Rightarrow> run_finishedAt r \<noteq> None)"

lemma run_move_shape: "run_move r r' \<Longrightarrow> runShape r \<Longrightarrow> runShape r'"
  by (auto simp: run_move_def runShape_def terminalStatus_def split: ScheduledJobRunStatus.splits)

lemma step_shape:
  assumes "job_step db db'" "list_all runShape (db_runs db)"
  shows "list_all runShape (db_runs db')"
proof -
  have "runs_evolve (db_runs db) (db_runs db')" using job_step_evolve [OF assms(1)] by (simp add: db_evolve_def)
  then show ?thesis
  proof (unfold runs_evolve_def, elim disjE exE conjE)
    assume "list_all2 run_move (db_runs db) (db_runs db')"
    then show ?thesis using assms(2) by (induction rule: list_all2_induct) (auto intro: run_move_shape)
  next
    fix r assume "db_runs db' = db_runs db @ [r]" "freshRun r"
    then show ?thesis using assms(2) by (simp add: freshRun_def runShape_def)
  qed
qed

text \<open>The typing of the two tables.\<close>

definition tablesTyped :: "JobDatabase \<Rightarrow> bool" where
  "tablesTyped db \<longleftrightarrow>
     list_all runShape (db_runs db) \<and> distinct (map run_id (db_runs db)) \<and>
     distinct (map occurrence (scheduledRuns db)) \<and> distinct (map job_id (db_jobs db))"

lemma typed_steps:
  assumes "job_step\<^sup>*\<^sup>* db db'" "tablesTyped db"
  shows "tablesTyped db'"
proof -
  have "list_all runShape (db_runs db')"
    using assms by (induction rule: rtranclp_induct) (auto simp: tablesTyped_def intro: step_shape)
  then show ?thesis
    using assms runs.keys_distinct occurrences.keys_distinct jobs.keys_distinct by (simp add: tablesTyped_def)
qed

end
