(* ===== verification/Scheduled_Job_Properties.thy ===== *)
theory Scheduled_Job_Properties
  imports Scheduled_Job_Steps Cron_Properties
begin

text \<open>
  Correctness of scheduled jobs: the tables keep their shape, an occurrence of a schedule is claimed
  at most once, terminal runs and newer summaries are never overwritten, a repeated completion is
  accepted without effect, the schedule of a node only shows future or protected occurrences, and
  the publication of messages is bounded and complete.
\<close>

section \<open>Successful operations\<close>

lemma ensure_Inr: "ensure check db continue = (Inr x, db') \<longleftrightarrow> (\<exists>y. check = Inr y \<and> continue y = (Inr x, db'))"
  by (simp add: ensure_def split: sum.split)

lemma claim_Inr:
  assumes "claimScheduledJob env now newId actorUserId nodeId jobId expected seen db = (Inr c, db')"
  obtains job j nextRunAt where
    "job_id job = jobId" "job_nextRunAt job = expected" "expected \<le> now" "now \<le> expected + CLAIM_GRACE_MS"
    "getNextRunAtOrThrow env job now = Inr nextRunAt"
    "j \<in> set (db_jobs db)" "claimedBy db actorUserId nodeId job expected j"
    "claim_job c = j\<lparr>job_nextRunAt := nextRunAt, job_lastScheduledFor := Some expected, job_updatedAt := now\<rparr>"
    "\<not> runConflicts (newRun newId (claim_job c) expected TriggerSchedule now) (db_runs db)"
    "db_runs db' = db_runs db @ [newRun newId (claim_job c) expected TriggerSchedule now]"
    "db_jobs db' = updateWhere (claimedBy db actorUserId nodeId job expected)
       (\<lambda>j. j\<lparr>job_nextRunAt := nextRunAt, job_lastScheduledFor := Some expected, job_updatedAt := now\<rparr>) (db_jobs db)"
    "claim_scheduledFor c = expected" "claim_runId c = newId"
  using assms unfolding claimScheduledJob_def
  by (auto simp: ensure_Inr Let_def find_Some_iff2 split: option.splits if_splits) (auto dest!: find_SomeD)

lemma claimed_run:
  assumes "claimScheduledJob env now newId actorUserId nodeId jobId expected seen db = (Inr c, db')"
  shows "\<exists>r \<in> set (scheduledRuns db'). occurrence r = (jobId, expected)"
  by (rule claim_Inr [OF assms]) (auto simp: scheduledRuns_def occurrence_def newRun_def claimedBy_def)

lemma claim_needs_free_occurrence:
  assumes "claimScheduledJob env now newId actorUserId nodeId jobId expected seen db = (Inr c, db')"
  shows "(jobId, expected) \<notin> occurrence ` set (scheduledRuns db)"
  by (rule claim_Inr [OF assms])
    (auto simp: scheduledRuns_def occurrence_def newRun_def claimedBy_def runConflicts_def list_ex_iff)

text \<open>A successful completion leaves the run it names terminal, with the fields of the input.\<close>

definition completedBy :: "CompleteRunInput \<Rightarrow> (string \<Rightarrow> string) \<Rightarrow> ScheduledJobRun \<Rightarrow> bool" where
  "completedBy input canonicalJson r \<longleftrightarrow>
     run_id r = done_runId input \<and> run_nodeId r = done_nodeId input \<and> isSameTerminalResult canonicalJson input r"

lemma complete_Inr:
  assumes "completeRun canonicalJson now input seen db = (Inr True, db')"
  shows "\<exists>r \<in> set (db_runs db'). completedBy input canonicalJson r"
proof -
  have new: "completedBy input canonicalJson (applyCompletion input t r)" if "completableRun db input r" for t r
    using that by (simp add: completedBy_def applyCompletion_def completableRun_def isSameTerminalResult_def hasSameJsonValue_def)
  from assms show ?thesis
    unfolding completeRun_def Let_def findRun_def
    by (auto simp: ensure_Inr updateWhere_def completedBy_def [of _ _ _] intro: new
        split: option.splits if_splits dest!: find_SomeD) (use new completedBy_def in fastforce)+
qed

lemma redelivery_accepted:
  assumes "tablesTyped db" "r \<in> set (db_runs db)" "completedBy input canonicalJson r"
    "done_status input \<in> {RunSucceeded, RunFailed}"
    "assertNodeOwnedByActor db (done_nodeId input) (done_actorUserId input) = Inr ()"
    "assertOrganizationMember db (run_organizationId r) (done_actorUserId input) None = Inr role"
  shows "completeRun canonicalJson now input db db = (Inr True, db)"
proof -
  have ids: "distinct (map run_id (db_runs db))" using assms(1) by (simp add: tablesTyped_def)
  have found: "findRun db (done_runId input) (done_nodeId input) = Some r"
    unfolding findRun_def using ids assms(2,3) by (intro find_unique [of run_id]) (auto simp: completedBy_def)
  have "List.find (completableRun db input) (db_runs db) = None"
  proof (subst find_None_iff, intro notI, elim bexE exE conjE)
    fix q assume q: "q \<in> set (db_runs db)" "completableRun db input q"
    then have "q = r" using key_unique [OF ids _ assms(2)] assms(3) by (auto simp: completedBy_def completableRun_def)
    with q(2) assms(3,4) show False by (auto simp: completedBy_def completableRun_def isSameTerminalResult_def)
  qed
  with found assms(3,5,6) show ?thesis by (simp add: completeRun_def Let_def ensure_def completedBy_def)
qed

section \<open>The schedule after a reconciliation\<close>

lemma next_run_ahead: "getNextRunAtOrThrow env job now = Inr t \<Longrightarrow> now < t"
proof -
  assume "getNextRunAtOrThrow env job now = Inr t"
  then obtain parsed tz where "computeNextRunAt (env_intl env) parsed tz now = Inr t"
    by (auto simp: getNextRunAtOrThrow_def split: sum.splits)
  then obtain i where "t = now - now mod 60000 + 60000 + 60000 * int i"
    by (auto simp: computeNextRunAt_def scanMinutes_Inr)
  then show ?thesis using pos_mod_bound [of 60000 now] by linarith
qed

text \<open>The row of an overdue job after its update.\<close>

definition forwarded :: "JobEnv \<Rightarrow> int \<Rightarrow> ScheduledJob \<Rightarrow> ScheduledJob" where
  "forwarded env now j =
     (case getNextRunAtOrThrow env j now of
        Inl _ \<Rightarrow> j
      | Inr t \<Rightarrow> j\<lparr>job_nextRunAt := t, job_updatedAt := now\<rparr>)"

lemma forwarded_same [simp]:
  "job_id (forwarded env now j) = job_id j" "job_nodeId (forwarded env now j) = job_nodeId j"
  "job_status (forwarded env now j) = job_status j" "job_organizationId (forwarded env now j) = job_organizationId j"
  by (simp_all add: forwarded_def split: sum.split)

definition forwardable :: "JobDatabase \<Rightarrow> int \<Rightarrow> string \<Rightarrow> ScheduledJob \<Rightarrow> bool" where
  "forwardable db now actorUserId j \<longleftrightarrow>
     j \<in> set (db_jobs db) \<and> job_nextRunAt j \<le> now \<and> job_status j = JobActive \<and>
     nodeOwnedIn db (job_nodeId j) actorUserId \<and> memberIn db (job_organizationId j) actorUserId"

lemma forward_one:
  assumes "distinct (map job_id (db_jobs db))" "forwardable db now a job"
    "fastForwardOverdueJob env now a job db = (Inr u, db')"
  shows "db' = db\<lparr>db_jobs := map (\<lambda>j. if j = job then forwarded env now j else j) (db_jobs db)\<rparr> \<and>
    now < job_nextRunAt (forwarded env now job)"
proof -
  from assms(2,3) obtain t where t: "getNextRunAtOrThrow env job now = Inr t"
    and db': "db' = db\<lparr>db_jobs := updateWhere
          (\<lambda>j. job_id j = job_id job \<and> job_nodeId j = job_nodeId job \<and> job_status j = JobActive \<and>
             job_nextRunAt j = job_nextRunAt job \<and> nodeOwnedIn db (job_nodeId job) a \<and>
             memberIn db (job_organizationId job) a)
          (\<lambda>j. j\<lparr>job_nextRunAt := t, job_updatedAt := now\<rparr>) (db_jobs db)\<rparr>"
    by (auto simp: fastForwardOverdueJob_def forwardable_def ensure_Inr)
  have "job_id j = job_id job \<longleftrightarrow> j = job" if "j \<in> set (db_jobs db)" for j
    using key_unique [OF assms(1) that, of job] assms(2) by (auto simp: forwardable_def)
  then show ?thesis using t assms(2) next_run_ahead [OF t] unfolding db' updateWhere_def
    by (auto simp: forwarded_def forwardable_def intro!: JobDatabase.fold_congs)
qed

lemma forward_all:
  assumes "fastForwardAll env now a jobs db = (Inr u, db')" "distinct (map job_id (db_jobs db))"
    "distinct (map job_id jobs)" "\<forall>job \<in> set jobs. forwardable db now a job"
  shows "db' = db\<lparr>db_jobs := map (\<lambda>j. if j \<in> set jobs then forwarded env now j else j) (db_jobs db)\<rparr> \<and>
    (\<forall>job \<in> set jobs. now < job_nextRunAt (forwarded env now job))"
  using assms
proof (induction env now a jobs db arbitrary: db' u rule: fastForwardAll.induct)
  case (2 env now a job jobs db)
  from 2(2) obtain db1 v where one: "fastForwardOverdueJob env now a job db = (Inr v, db1)"
    and rest: "fastForwardAll env now a jobs db1 = (Inr u, db')"
    by (auto split: prod.splits sum.splits)
  have db1: "db1 = db\<lparr>db_jobs := map (\<lambda>j. if j = job then forwarded env now j else j) (db_jobs db)\<rparr>"
    and ahead: "now < job_nextRunAt (forwarded env now job)"
    using forward_one [OF 2(3) _ one] 2(5) by auto
  have ids: "map job_id (db_jobs db1) = map job_id (db_jobs db)" by (auto simp: db1)
  have "forwardable db1 now a q" if "q \<in> set jobs" for q
  proof -
    have "q \<noteq> job" using that 2(4) by auto
    moreover have "forwardable db now a q" using that 2(5) by auto
    ultimately show ?thesis by (force simp: forwardable_def db1 nodeOwnedIn_def memberIn_def)
  qed
  then have IH: "db' = db1\<lparr>db_jobs := map (\<lambda>j. if j \<in> set jobs then forwarded env now j else j) (db_jobs db1)\<rparr>"
    "\<forall>job \<in> set jobs. now < job_nextRunAt (forwarded env now job)"
    using 2(1) [OF one [symmetric] rest] 2(3,4) ids by auto
  have "forwarded env now job \<notin> set jobs" using 2(4) by (metis forwarded_same(1) distinct.simps(2) image_eqI list.simps(9) set_map)
  then show ?case using IH ahead by (auto simp: db1)
qed simp

lemma guards_jobs [simp]:
  "nodeOwnedIn (db\<lparr>db_jobs := js\<rparr>) n a = nodeOwnedIn db n a" "memberIn (db\<lparr>db_jobs := js\<rparr>) org a = memberIn db org a"
  by (simp_all add: nodeOwnedIn_def memberIn_def)

lemma authorized_map:
  assumes "\<And>j. job_nodeId (g j) = job_nodeId j" "\<And>j. job_status (g j) = job_status j"
    "\<And>j. job_organizationId (g j) = job_organizationId j"
  shows "getAuthorizedActiveJobs (db\<lparr>db_jobs := map g (db_jobs db)\<rparr>) n a = map g (getAuthorizedActiveJobs db n a)"
  by (simp add: getAuthorizedActiveJobs_def filter_map o_def assms)

section \<open>The semaphore\<close>

definition semaphoreState :: "nat \<Rightarrow> Semaphore \<Rightarrow> bool" where
  "semaphoreState n s \<longleftrightarrow>
     sem_count s + length (sem_sending s) = QUEUE_SEND_CONCURRENCY \<and> (sem_queue s \<noteq> [] \<longrightarrow> sem_count s = 0) \<and>
     mset (sem_sending s) + mset (sem_queue s) + mset (map fst (sem_results s)) = mset [0..<n]"

lemma acquire_state: "semaphoreState n s \<Longrightarrow> semaphoreState (Suc n) (sem_acquire n s)"
  by (auto simp: semaphoreState_def sem_acquire_def)

lemma publishStart_state: "semaphoreState n (publishStart n)"
proof (induction n)
  case 0
  show ?case by (simp add: semaphoreState_def publishStart_def)
next
  case (Suc n)
  have "publishStart (Suc n) = sem_acquire n (publishStart n)" by (simp add: publishStart_def)
  with Suc show ?case by (simp add: acquire_state)
qed

lemma settled_state:
  assumes "semaphoreState n s"
  shows "semaphoreState n (sendSettled i ok s)"
proof (cases "i \<in> set (sem_sending s)")
  case True
  have "mset (sem_sending s @ sem_queue s @ map fst (sem_results s)) = mset [0..<n]"
    using assms by (simp add: semaphoreState_def union_assoc)
  from mset_eq_imp_distinct_iff [OF this] have "distinct (sem_sending s)" by simp
  then have "removeAll i (sem_sending s) = remove1 i (sem_sending s)" by (simp add: distinct_remove1_removeAll)
  moreover have "length (remove1 i (sem_sending s)) + 1 = length (sem_sending s)"
    using True length_pos_if_in_set [OF True] by (simp add: length_remove1)
  moreover have "mset (remove1 i (sem_sending s)) + {#i#} = mset (sem_sending s)" using True by simp
  ultimately have sending: "length (removeAll i (sem_sending s)) + 1 = length (sem_sending s)"
    "mset (removeAll i (sem_sending s)) + {#i#} = mset (sem_sending s)" by simp_all
  have all: "mset (removeAll i (sem_sending s)) + mset (sem_queue s) + (mset (map fst (sem_results s)) + {#i#}) = mset [0..<n]"
    using assms sending(2) [symmetric] by (simp add: semaphoreState_def)
  show ?thesis using all assms True sending(1)
    by (cases "sem_queue s") (simp_all add: semaphoreState_def sendSettled_def sem_release_def)
qed (use assms in \<open>simp add: sendSettled_def\<close>)

lemma settled_all_state:
  "semaphoreState n s \<Longrightarrow> semaphoreState n (foldl (\<lambda>s (i, ok). sendSettled i ok s) s events)"
  by (induction events arbitrary: s) (auto simp: settled_state)

section \<open>Sample tables\<close>

definition sampleEnv :: JobEnv where
  "sampleEnv = \<lparr>env_intl = sampleIntl, env_supported = (\<lambda>tz. tz = ''UTC'')\<rparr>"

definition sampleJob :: ScheduledJob where
  "sampleJob = \<lparr>job_id = ''j'', job_organizationId = ''o'', job_projectId = ''p'', job_nodeId = ''n'', job_name = ''nightly'',
     job_agentKind = ''pi'', job_prompt = ''go'', job_model = None, job_command = None,
     job_cronExpression = ''3-20/5 * * * MON-FRI'', job_timezone = ''UTC'', job_status = JobActive, job_nextRunAt = 90000,
     job_lastScheduledFor = None, job_lastRunAt = None, job_lastRunStatus = None, job_lastErrorCode = None,
     job_lastErrorMessage = None, job_createdByUserId = ''u'', job_createdAt = 0, job_updatedAt = 0\<rparr>"

definition sampleTables :: JobDatabase where
  "sampleTables = \<lparr>db_jobs = [sampleJob], db_runs = [],
     db_nodes = [\<lparr>node_id = ''n'', node_scope = ''private'', node_ownerUserId = Some ''u''\<rparr>],
     db_members = [\<lparr>member_organizationId = ''o'', member_userId = ''u'', member_role = ''member''\<rparr>],
     db_projects = [\<lparr>project_id = ''p'', project_organizationId = ''o''\<rparr>], db_workspaces = []\<rparr>"

definition sampleActor :: JobActor where
  "sampleActor = \<lparr>actor_userId = ''u'', actor_role = None, actor_organizationId = ''o''\<rparr>"

definition sampleRun :: ScheduledJobRun where
  "sampleRun = newRun ''r'' sampleJob 90000 TriggerSchedule 100000"

definition sampleDone :: CompleteRunInput where
  "sampleDone = \<lparr>done_actorUserId = ''u'', done_nodeId = ''n'', done_runId = ''r'', done_status = RunSucceeded,
     done_finishedAt = Some 110000, done_responseBody = Some ''ok'', done_errorCode = None, done_errorMessage = None,
     done_errorDetails = None\<rparr>"

lemmas sample_defs = sampleJob_def sampleTables_def sampleActor_def sampleRun_def sampleDone_def newRun_def

lemma sample_next_run: "getNextRunAtOrThrow sampleEnv sampleJob 100000 = Inr 180000"
proof -
  have parsed: "parseCronExpression ''3-20/5 * * * MON-FRI'' = Inr sampleCron"
    unfolding sampleCron_def by (cases "parseCronExpression ''3-20/5 * * * MON-FRI''") (code_simp, simp)
  have "matchesCron sampleIntl sampleCron 120000 ''UTC'' = Inr False" "matchesCron sampleIntl sampleCron 180000 ''UTC'' = Inr True"
    by code_simp+
  then have "computeNextRunAt sampleIntl sampleCron ''UTC'' 100000 = Inr 180000"
    by (simp add: computeNextRunAt_def MAX_CRON_SCAN_MINUTES_def scanMinutes.simps)
  moreover have "ensureTimezoneSupported (\<lambda>tz. tz = ''UTC'') ''UTC'' = Inr ''UTC''" by code_simp
  ultimately show ?thesis using parsed by (simp add: getNextRunAtOrThrow_def sampleEnv_def sampleJob_def)
qed

lemma sample_claim:
  "claimScheduledJob sampleEnv 100000 ''r'' ''u'' ''n'' ''j'' 90000 sampleTables sampleTables =
     (Inr \<lparr>claim_runId = ''r'', claim_scheduledFor = 90000, claim_projectPath = [],
        claim_job = sampleJob\<lparr>job_nextRunAt := 180000, job_lastScheduledFor := Some 90000, job_updatedAt := 100000\<rparr>\<rparr>,
      sampleTables\<lparr>db_jobs := [sampleJob\<lparr>job_nextRunAt := 180000, job_lastScheduledFor := Some 90000, job_updatedAt := 100000\<rparr>],
        db_runs := [sampleRun]\<rparr>)"
proof -
  have owner: "assertNodeOwnedByActor sampleTables ''n'' ''u'' = Inr ()" by code_simp
  have member: "assertOrganizationMember sampleTables ''o'' ''u'' None = Inr ''member''" by code_simp
  have found: "List.find (\<lambda>j. job_id j = ''j'' \<and> job_nodeId j = ''n'') (db_jobs sampleTables) = Some sampleJob"
    by (simp add: sample_defs)
  have claimed: "claimedBy sampleTables ''u'' ''n'' sampleJob 90000 sampleJob" by code_simp
  have fields: "db_jobs sampleTables = [sampleJob]" "db_runs sampleTables = []" "job_organizationId sampleJob = ''o''"
    "job_nextRunAt sampleJob = 90000" by (simp_all add: sampleTables_def sampleJob_def)
  have path: "latestWorkspacePath sampleTables p n = None" for p n by (simp add: latestWorkspacePath_def sampleTables_def sortBy_def)
  have run: "newRun ''r'' (sampleJob\<lparr>job_nextRunAt := t, job_lastScheduledFor := l, job_updatedAt := u\<rparr>) 90000 TriggerSchedule 100000
      = sampleRun" for t l u by (simp add: newRun_def sampleRun_def)
  show ?thesis unfolding claimScheduledJob_def found
    by (simp add: ensure_def owner member sample_next_run claimed fields path run CLAIM_GRACE_MS_def runConflicts_def updateWhere_def Let_def)
qed

section \<open>Properties\<close>

text \<open>C30: From empty tables, whatever users, nodes and the service do and whatever states they had read, every
  run has the fields its status asks for (a pending run neither started nor finished, a running one
  started, a skipped one finished but never started, a succeeded or failed one finished), run and job
  identifiers are unique, and there is one run for each occurrence of a schedule.\<close>

theorem scheduled_tables_typed:
  assumes "db_jobs db = []" "db_runs db = []" "job_step\<^sup>*\<^sup>* db db'"
  shows "tablesTyped db'"
  using assms(3) by (rule typed_steps) (simp add: tablesTyped_def scheduledRuns_def assms)

theorem scheduled_tables_typed_witness:
  "tablesTyped (snd (triggerRunNow 5 ''x'' sampleActor ''j'' sampleTables (sampleTables\<lparr>db_jobs := [], db_runs := []\<rparr>)))"
  by (rule scheduled_tables_typed [of "sampleTables\<lparr>db_jobs := [], db_runs := []\<rparr>"])
    (simp_all add: r_into_rtranclp job_step.trigger)

text \<open>C29: An occurrence of a schedule is claimed at most once: after a successful claim of a job's due time, no
  claim of the same job and due time succeeds, whoever makes it, whatever it has read and whatever happened
  in between.\<close>

theorem occurrence_claimed_once:
  assumes "claimScheduledJob env now newId actorUserId nodeId jobId due seen db = (Inr c, db1)"
    "job_step\<^sup>*\<^sup>* db1 db2"
  shows "claimScheduledJob env' now' newId' actorUserId' nodeId' jobId due seen' db2 \<noteq> (Inr c', db3)"
proof
  assume again: "claimScheduledJob env' now' newId' actorUserId' nodeId' jobId due seen' db2 = (Inr c', db3)"
  obtain r where r: "r \<in> set (scheduledRuns db1)" "occurrence r = (jobId, due)" using claimed_run [OF assms(1)] by blast
  obtain r' where "r' \<in> set (scheduledRuns db2)" "run_move\<^sup>*\<^sup>* r r'" using occurrences.row_kept [OF assms(2) r(1)] by blast
  then have "(jobId, due) \<in> occurrence ` set (scheduledRuns db2)"
    using occurrences.moves_key r(2) by (metis imageI)
  with claim_needs_free_occurrence [OF again] show False by contradiction
qed

theorem occurrence_claimed_once_witness:
  "\<exists>c db1. claimScheduledJob sampleEnv 100000 ''r'' ''u'' ''n'' ''j'' 90000 sampleTables sampleTables = (Inr c, db1) \<and>
     (\<forall>c' db3. claimScheduledJob sampleEnv 100000 ''s'' ''u'' ''n'' ''j'' 90000 sampleTables db1 \<noteq> (Inr c', db3))"
  using sample_claim occurrence_claimed_once [OF sample_claim rtranclp.rtrancl_refl] by blast

text \<open>C31: A terminal run is final: once it has succeeded, failed or been skipped, its row stays as it is and
  stays the only row under its identifier.\<close>

theorem terminal_runs_are_final:
  assumes "tablesTyped db" "r \<in> set (db_runs db)" "run_status r \<in> {RunSucceeded, RunFailed, RunSkippedOffline}"
    "job_step\<^sup>*\<^sup>* db db'"
  shows "filter (\<lambda>q. run_id q = run_id r) (db_runs db') = [r]"
proof -
  have final: "r' = r" if "run_move r r'" for r'
    using terminal_run_final [OF that] assms(3) by (simp add: terminalStatus_def)
  have dist: "distinct (map run_id (db_runs db))" using assms(1) by (simp add: tablesTyped_def)
  have "r \<in> set (db_runs db')" using assms(4,2) by (rule runs.final_row_kept) (rule final)
  moreover have "q = r" if "q \<in> set (db_runs db')" "run_id q = run_id r" for q
    by (rule runs.final_row_unique [OF assms(4,2) _ dist that]) (rule final)
  moreover have "distinct (db_runs db')" using runs.keys_distinct [OF assms(4) dist] by (simp add: distinct_map)
  ultimately show ?thesis by (intro distinct_set_single) auto
qed

theorem terminal_runs_are_final_witness:
  "let r = failDispatch 3 sampleRun; db = sampleTables\<lparr>db_runs := [r]\<rparr> in
     filter (\<lambda>q. run_id q = ''r'') (db_runs (snd (terminalizeStaleRuns 900000 1 db))) = [r]"
proof -
  let ?r = "failDispatch 3 sampleRun"
  have "tablesTyped (sampleTables\<lparr>db_runs := [?r]\<rparr>)" by code_simp
  moreover have "run_status ?r = RunFailed" "run_id ?r = ''r''" by (simp_all add: failDispatch_def sample_defs)
  ultimately show ?thesis
    using terminal_runs_are_final [of "sampleTables\<lparr>db_runs := [?r]\<rparr>" ?r, OF _ _ _ r_into_rtranclp [of job_step, OF job_step.terminalize]]
    by (simp add: Let_def)
qed

text \<open>The summary of a job never goes back: a job stays, under its identity, and once it shows a last run
  the time of that run only grows, whatever order completions and clean-ups arrive in.\<close>

theorem job_summary_monotone:
  assumes "j \<in> set (db_jobs db)" "job_step\<^sup>*\<^sup>* db db'"
  shows "\<exists>j' \<in> set (db_jobs db'). job_id j' = job_id j \<and> job_organizationId j' = job_organizationId j \<and>
    job_projectId j' = job_projectId j \<and> job_createdByUserId j' = job_createdByUserId j \<and>
    (\<forall>t. job_lastRunAt j = Some t \<longrightarrow> (\<exists>t'. job_lastRunAt j' = Some t' \<and> t \<le> t'))"
proof -
  obtain j' where j': "j' \<in> set (db_jobs db')" "job_move\<^sup>*\<^sup>* j j'" using jobs.row_kept [OF assms(2,1)] by blast
  from j'(2) have "job_move j j'" by (induction rule: rtranclp_induct) (auto intro: job_move_trans)
  with j'(1) show ?thesis by (intro bexI [of _ j']) (auto simp: job_move_def summary_le_def split: option.splits)
qed

theorem job_summary_monotone_witness:
  "\<exists>j' \<in> set (db_jobs (snd (completeRun id 1 sampleDone sampleTables
       (sampleTables\<lparr>db_jobs := [sampleJob\<lparr>job_lastRunAt := Some 120000\<rparr>], db_runs := [sampleRun]\<rparr>)))).
     \<exists>t'. job_lastRunAt j' = Some t' \<and> 120000 \<le> t'"
proof -
  let ?j = "sampleJob\<lparr>job_lastRunAt := Some 120000\<rparr>"
  let ?db = "sampleTables\<lparr>db_jobs := [?j], db_runs := [sampleRun]\<rparr>"
  have "job_step ?db (snd (completeRun id 1 sampleDone sampleTables ?db))"
    by (rule job_step.complete) (simp add: sampleDone_def)
  with job_summary_monotone [of ?j ?db "snd (completeRun id 1 sampleDone sampleTables ?db)"] show ?thesis by fastforce
qed

text \<open>C32: A completion can be delivered again: once it has been accepted, sending the same result at any later
  time, after any other operations, is accepted again and changes nothing, as long as its sender still owns
  the node and is a member of the organization of the run.\<close>

theorem completion_redelivery_harmless:
  assumes "tablesTyped db" "done_status input \<in> {RunSucceeded, RunFailed}"
    "completeRun canonicalJson now input seen db = (Inr True, db1)" "job_step\<^sup>*\<^sup>* db1 db2"
    "r \<in> set (db_runs db2)" "run_id r = done_runId input"
    "assertNodeOwnedByActor db2 (done_nodeId input) (done_actorUserId input) = Inr ()"
    "assertOrganizationMember db2 (run_organizationId r) (done_actorUserId input) None = Inr role"
  shows "completeRun canonicalJson now' input db2 db2 = (Inr True, db2)"
proof -
  have step: "job_step db db1" using job_step.complete [OF assms(2), of db canonicalJson now seen] assms(3) by simp
  have typed1: "tablesTyped db1" using typed_steps [OF r_into_rtranclp [of job_step, OF step] assms(1)] .
  obtain q where q: "q \<in> set (db_runs db1)" "completedBy input canonicalJson q" using complete_Inr [OF assms(3)] by blast
  then have "terminalStatus (run_status q)"
    using assms(2) by (auto simp: completedBy_def isSameTerminalResult_def terminalStatus_def)
  then have final: "q' = q" if "run_move q q'" for q' using terminal_run_final [OF that] by blast
  have "r = q"
  proof (rule runs.final_row_unique [OF assms(4) q(1) _ _ assms(5)])
    show "distinct (map run_id (db_runs db1))" using typed1 by (simp add: tablesTyped_def)
    show "run_id r = run_id q" using q(2) assms(6) by (simp add: completedBy_def)
  qed (rule final)
  with typed_steps [OF assms(4) typed1] q(2) assms show ?thesis by (intro redelivery_accepted) auto
qed

theorem completion_redelivery_harmless_witness:
  "\<exists>db1. completeRun id 1 sampleDone (sampleTables\<lparr>db_runs := [sampleRun]\<rparr>) (sampleTables\<lparr>db_runs := [sampleRun]\<rparr>) = (Inr True, db1) \<and>
     completeRun id 7 sampleDone db1 db1 = (Inr True, db1)"
proof -
  let ?db = "sampleTables\<lparr>db_runs := [sampleRun]\<rparr>"
  let ?run = "applyCompletion sampleDone 110000 sampleRun"
  define db1 where "db1 = sampleTables\<lparr>db_runs := [?run], db_jobs := [applyCompletionSummary sampleDone 110000 sampleJob]\<rparr>"
  have "tablesTyped ?db" by code_simp
  moreover have first: "completeRun id 1 sampleDone ?db ?db = (Inr True, db1)" unfolding db1_def by code_simp
  moreover have "assertNodeOwnedByActor db1 (done_nodeId sampleDone) (done_actorUserId sampleDone) = Inr ()"
    unfolding db1_def by code_simp
  moreover have "assertOrganizationMember db1 (run_organizationId ?run) (done_actorUserId sampleDone) None = Inr ''member''"
    unfolding db1_def by code_simp
  moreover have "run_id ?run = done_runId sampleDone" by code_simp
  ultimately have "completeRun id 7 sampleDone db1 db1 = (Inr True, db1)"
    using completion_redelivery_harmless [of ?db sampleDone id 1 ?db db1 db1 ?run]
    by (simp add: db1_def sampleDone_def)
  with first show ?thesis by blast
qed

text \<open>C33: After a reconciliation without interference the node is shown exactly the active jobs it may run, in
  the same order, and each of them is due in the future, or its due time is the one the node protects.\<close>

theorem reconciled_schedule_is_ahead:
  assumes "tablesTyped db" "reconcileScheduledJobs env now actorUserId nodeId protectedJobs db db = (Inr jobs, db')"
  shows "map job_id jobs = map job_id (getAuthorizedActiveJobs db nodeId actorUserId) \<and>
    (\<forall>job \<in> set jobs. now < job_nextRunAt job \<or> map_of (rev protectedJobs) (job_id job) = Some (job_nextRunAt job))"
proof -
  let ?auth = "getAuthorizedActiveJobs db nodeId actorUserId"
  let ?late = "filter (\<lambda>job. \<not> (map_of (rev protectedJobs) (job_id job) = Some (job_nextRunAt job) \<or> job_nextRunAt job > now)) ?auth"
  from assms(2) obtain u where run: "fastForwardAll env now actorUserId ?late db = (Inr u, db')"
    and jobs: "jobs = getAuthorizedActiveJobs db' nodeId actorUserId"
    by (auto simp: reconcileScheduledJobs_def ensure_Inr Let_def split: prod.splits sum.splits)
  have ids: "distinct (map job_id (db_jobs db))" using assms(1) by (simp add: tablesTyped_def)
  have "distinct (map job_id ?late)" unfolding getAuthorizedActiveJobs_def by (intro distinct_map_filter ids)
  moreover have "\<forall>job \<in> set ?late. forwardable db now actorUserId job"
    by (auto simp: getAuthorizedActiveJobs_def forwardable_def)
  ultimately have db': "db' = db\<lparr>db_jobs := map (\<lambda>j. if j \<in> set ?late then forwarded env now j else j) (db_jobs db)\<rparr>"
    and ahead: "\<forall>job \<in> set ?late. now < job_nextRunAt (forwarded env now job)"
    using forward_all [OF run ids] by auto
  have shown: "jobs = map (\<lambda>j. if j \<in> set ?late then forwarded env now j else j) ?auth"
    unfolding jobs db' by (rule authorized_map) simp_all
  have "now < job_nextRunAt job \<or> map_of (rev protectedJobs) (job_id job) = Some (job_nextRunAt job)" if "job \<in> set jobs" for job
    using that ahead unfolding shown by auto
  moreover have "map job_id jobs = map job_id ?auth" unfolding shown by (auto simp: o_def)
  ultimately show ?thesis by blast
qed

theorem reconciled_schedule_is_ahead_witness:
  "\<exists>jobs db'. reconcileScheduledJobs sampleEnv 100000 ''u'' ''n'' [] sampleTables sampleTables = (Inr jobs, db') \<and>
     map job_id jobs = [''j''] \<and> (\<forall>job \<in> set jobs. 100000 < job_nextRunAt job)"
proof -
  let ?next = "sampleJob\<lparr>job_nextRunAt := 180000, job_updatedAt := 100000\<rparr>"
  have owner: "assertNodeOwnedByActor sampleTables ''n'' ''u'' = Inr ()" by code_simp
  have auth: "getAuthorizedActiveJobs sampleTables ''n'' ''u'' = [sampleJob]"
    by (simp add: getAuthorizedActiveJobs_def nodeOwnedIn_def memberIn_def privateScope_def sampleTables_def sampleJob_def)
  have auth': "getAuthorizedActiveJobs (sampleTables\<lparr>db_jobs := [?next]\<rparr>) ''n'' ''u'' = [?next]"
    by (simp add: getAuthorizedActiveJobs_def nodeOwnedIn_def memberIn_def privateScope_def sampleTables_def sampleJob_def)
  have late: "job_nextRunAt sampleJob = 90000" "db_jobs sampleTables = [sampleJob]" by (simp_all add: sampleJob_def sampleTables_def)
  have guard: "nodeOwnedIn sampleTables (job_nodeId sampleJob) ''u''" "memberIn sampleTables (job_organizationId sampleJob) ''u''"
    "job_status sampleJob = JobActive" by code_simp+
  have run: "reconcileScheduledJobs sampleEnv 100000 ''u'' ''n'' [] sampleTables sampleTables =
      (Inr [?next], sampleTables\<lparr>db_jobs := [?next]\<rparr>)"
    by (simp add: reconcileScheduledJobs_def ensure_def owner auth late fastForwardOverdueJob_def sample_next_run guard
        updateWhere_def auth')
  have "tablesTyped sampleTables" by code_simp
  from reconciled_schedule_is_ahead [OF this run] run auth show ?thesis by (auto simp: sampleJob_def)
qed

text \<open>The publication of dispatch messages never has more than twenty sends in flight, a message waits only
  while all twenty slots are taken, every message is waiting, being sent or settled exactly once, and when
  no send is in flight every message has a result.\<close>

theorem publication_bounded_and_complete:
  "let s = foldl (\<lambda>s (i, ok). sendSettled i ok s) (publishStart n) events in
    length (sem_sending s) \<le> 20 \<and> (sem_queue s \<noteq> [] \<longrightarrow> length (sem_sending s) = 20) \<and>
    mset (sem_sending s) + mset (sem_queue s) + mset (map fst (sem_results s)) = mset [0..<n] \<and>
    (sem_sending s = [] \<longrightarrow> mset (map fst (sem_results s)) = mset [0..<n])"
proof -
  have "semaphoreState n (foldl (\<lambda>s (i, ok). sendSettled i ok s) (publishStart n) events)"
    by (intro settled_all_state publishStart_state)
  then show ?thesis unfolding semaphoreState_def QUEUE_SEND_CONCURRENCY_def Let_def by auto
qed

theorem publication_bounded_and_complete_witness:
  "mset (map fst (sem_results (sendSettled 0 False (sendSettled 1 True (publishStart 2))))) = mset [0..<2]"
proof -
  have "sem_sending (sendSettled 0 False (sendSettled 1 True (publishStart 2))) = []" by code_simp
  with publication_bounded_and_complete [of 2 "[(1, True), (0, False)]"] show ?thesis by (simp add: Let_def)
qed

lemma status_of_rows:
  assumes "q \<in> set (map (\<lambda>j. if job_id j = i \<and> job_organizationId j = org then j\<lparr>job_status := st, job_updatedAt := t\<rparr> else j) rows)"
    "job_id q = i \<and> job_organizationId q = org"
  shows "job_status q = st"
proof -
  obtain p where p: "q = (if job_id p = i \<and> job_organizationId p = org then p\<lparr>job_status := st, job_updatedAt := t\<rparr> else p)"
    using assms(1) by (simp only: set_map image_iff) blast
  with assms(2) show ?thesis by (cases "job_id p = i \<and> job_organizationId p = org") simp_all
qed

text \<open>Pausing a job does not check that it still exists: if it is deleted after the pause looked it up, the
  pause brings the deleted job back, paused and visible.\<close>

theorem pause_resurrects_deleted_job:
  fixes now now' :: int
  assumes "assertActor db actor = Inr role" "list_ex (visibleJob jobId (actor_organizationId actor)) (db_jobs db)"
  defines "deleted \<equiv> snd (deleteScheduledJob now actor jobId db db)"
  shows "getJobOrThrow deleted jobId (actor_organizationId actor) = Inl (ScheduledJobNotFoundError jobId) \<and>
    (\<exists>j. getJobOrThrow (snd (pauseScheduledJob now' actor jobId db deleted)) jobId (actor_organizationId actor) = Inr j \<and>
       job_status j = JobPaused)"
proof -
  let ?mine = "\<lambda>j. job_id j = jobId \<and> job_organizationId j = actor_organizationId actor"
  obtain j where j: "j \<in> set (db_jobs db)" "?mine j" using assms(2) by (auto simp: list_ex_iff visibleJob_def)
  have exists: "assertJobExistsInOrg db jobId (actor_organizationId actor) = Inr ()" using assms(2) by (simp add: assertJobExistsInOrg_def)
  have set: "snd (setJobStatus st t actor jobId db d) =
      d\<lparr>db_jobs := map (\<lambda>j. if ?mine j then j\<lparr>job_status := st, job_updatedAt := t\<rparr> else j) (db_jobs d)\<rparr>"
    if "\<exists>j \<in> set (db_jobs d). ?mine j" for st t d
    using that exists assms(1) by (auto simp: setJobStatus_def ensure_def updateWhere_def find_None_iff Let_def split: option.split)
  have del: "deleted = db\<lparr>db_jobs := map (\<lambda>j. if ?mine j then j\<lparr>job_status := JobDeleted, job_updatedAt := now\<rparr> else j) (db_jobs db)\<rparr>"
    unfolding deleted_def deleteScheduledJob_def using j by (intro set) blast
  have kept: "\<exists>j \<in> set (map (\<lambda>j. if ?mine j then j\<lparr>job_status := st, job_updatedAt := t\<rparr> else j) rows). ?mine j"
    if "\<exists>j \<in> set rows. ?mine j" for st t rows
  proof -
    from that obtain q where "q \<in> set rows" "?mine q" by blast
    then show ?thesis by (intro bexI [of _ "q\<lparr>job_status := st, job_updatedAt := t\<rparr>"]) auto
  qed
  have still: "\<exists>j \<in> set (db_jobs deleted). ?mine j" using kept [of "db_jobs db"] j unfolding del by auto
  have "getJobOrThrow deleted jobId (actor_organizationId actor) = Inl (ScheduledJobNotFoundError jobId)"
  proof -
    have "\<not> visibleJob jobId (actor_organizationId actor) q" if "q \<in> set (db_jobs deleted)" for q
    proof
      assume q: "visibleJob jobId (actor_organizationId actor) q"
      then have "?mine q" by (simp add: visibleJob_def)
      with that have "job_status q = JobDeleted" unfolding del by (intro status_of_rows) simp_all
      with q show False by (simp add: visibleJob_def visibleStatus_def)
    qed
    then have "List.find (visibleJob jobId (actor_organizationId actor)) (db_jobs deleted) = None"
      unfolding find_None_iff by blast
    then show ?thesis by (simp add: getJobOrThrow_def)
  qed
  moreover have "job_status q = JobPaused" if "q \<in> set (db_jobs (snd (pauseScheduledJob now' actor jobId db deleted)))" "?mine q" for q
    using that unfolding pauseScheduledJob_def set [OF still] by (intro status_of_rows) simp_all
  moreover have "\<exists>q \<in> set (db_jobs (snd (pauseScheduledJob now' actor jobId db deleted))). ?mine q"
    unfolding pauseScheduledJob_def set [OF still] using kept [OF still] by simp
  ultimately show ?thesis
    by (auto simp: getJobOrThrow_def visibleJob_def visibleStatus_def find_None_iff split: option.split dest!: find_SomeD)
qed

theorem pause_resurrects_deleted_job_witness:
  "\<exists>j. getJobOrThrow (snd (pauseScheduledJob 2 sampleActor ''j'' sampleTables
     (snd (deleteScheduledJob 1 sampleActor ''j'' sampleTables sampleTables)))) ''j'' ''o'' = Inr j \<and> job_status j = JobPaused"
proof -
  have "assertActor sampleTables sampleActor = Inr ''member''"
    "list_ex (visibleJob ''j'' (actor_organizationId sampleActor)) (db_jobs sampleTables)" by code_simp+
  from pause_resurrects_deleted_job [OF this, of 1 2] show ?thesis by (simp add: sampleActor_def)
qed

end
