(* ===== verification/File_Refresh_Runtime.thy ===== *)
theory File_Refresh_Runtime
  imports File_Refresh
begin

text \<open>
  The refresh runtime of the file manager
  (\<open>domains/files/features/file-manager/operations/fileTreeRefreshRuntime.ts\<close>): one lifecycle's
  queue of refresh requests, its pump, the lazy loads of directories, and the lease that lets one
  listing request run at a time per workspace. An asynchronous function is cut at its awaits: the
  program counter of the pump and of each lazy load says which promise it waits for, and an event
  is what the daemon, the user or the promise scheduler does next. The promise of a refresh
  request is a number; \<open>rt_outcome\<close> holds how it was settled. The cache callback and the publish
  callback are the fields \<open>rt_cache\<close> and \<open>rt_visible\<close>.
\<close>

section \<open>State\<close>

datatype RefreshError = FileTreeRefreshCancelled | RefreshFailure string

datatype RefreshOutcome = Resolved "WorkspaceFileEntry list" | Rejected RefreshError

record PendingBatch =
  pend_paths :: "string list option"
  pend_waiters :: "nat list"

record FileTreeSnapshot =
  snap_entries :: "WorkspaceFileEntry list"
  snap_loadedPaths :: "string list"

text \<open>A listing of the batch response, with the path of its request.\<close>

record ListingResult =
  res_relativePath :: "string option"
  res_files :: "WorkspaceFileEntry list"
  res_error :: "string option"
  res_isFresh :: "bool option"

text \<open>Where the pump waits: not running, for the lease, for the daemon, or between two rounds.\<close>

datatype PumpPc = PumpIdle | PumpLease | PumpRpc | PumpLoop

text \<open>What a lazy load waits for.\<close>

datatype LazyPc = LazyShared nat | LazyFetch nat | LazyLastRequest "nat option" | LazyRefresh nat

record FileTreeRefreshRuntime =
  rt_entries :: "WorkspaceFileEntry list"
  rt_loadedPaths :: "string list"
  rt_hasRoot :: bool
  rt_isDisposed :: bool
  rt_pump :: PumpPc
  rt_pending :: "PendingBatch option"
  rt_active :: "PendingBatch option"
  rt_directories :: "string list"
  rt_revision :: nat
  rt_coveredPaths :: "string list"
  rt_lastRequest :: "nat option"
  rt_lazyLoads :: "string \<rightharpoonup> LazyPc"
  rt_lazyDone :: "(string \<times> RefreshError option) list"
  rt_nextWaiter :: nat
  rt_outcome :: "nat \<rightharpoonup> RefreshOutcome"
  rt_visible :: "WorkspaceFileEntry list"
  rt_cache :: "FileTreeSnapshot option"

definition newRuntime :: "FileTreeSnapshot option \<Rightarrow> string list \<Rightarrow> FileTreeRefreshRuntime" where
  "newRuntime snapshot expandedPaths =
     (let entries = (case snapshot of Some s \<Rightarrow> snap_entries s | None \<Rightarrow> []) in
      \<lparr>rt_entries = entries,
       rt_loadedPaths = foldl (\<lambda>s p. js_setAdd p s) []
         (case snapshot of Some s \<Rightarrow> snap_loadedPaths s | None \<Rightarrow> expandedPaths),
       rt_hasRoot = (snapshot \<noteq> None), rt_isDisposed = False, rt_pump = PumpIdle, rt_pending = None,
       rt_active = None, rt_directories = [], rt_revision = 0, rt_coveredPaths = [], rt_lastRequest = None,
       rt_lazyLoads = Map.empty, rt_lazyDone = [], rt_nextWaiter = 0, rt_outcome = Map.empty,
       rt_visible = entries, rt_cache = snapshot\<rparr>)"

definition isRunning :: "FileTreeRefreshRuntime \<Rightarrow> bool" where
  "isRunning rt \<longleftrightarrow> rt_pump rt \<noteq> PumpIdle"

text \<open>Settling promises: the first settlement stays.\<close>

definition settleWaiters :: "nat list \<Rightarrow> RefreshOutcome \<Rightarrow> FileTreeRefreshRuntime \<Rightarrow> FileTreeRefreshRuntime" where
  "settleWaiters ws result rt =
     rt\<lparr>rt_outcome := (\<lambda>w. if w \<in> set ws \<and> rt_outcome rt w = None then Some result else rt_outcome rt w)\<rparr>"

definition saveCache :: "FileTreeRefreshRuntime \<Rightarrow> FileTreeRefreshRuntime" where
  "saveCache rt = rt\<lparr>rt_cache := Some \<lparr>snap_entries = rt_entries rt, snap_loadedPaths = rt_loadedPaths rt\<rparr>\<rparr>"

section \<open>Requests\<close>

definition targetsPaths :: "string list \<Rightarrow> bool" where
  "targetsPaths paths \<longleftrightarrow> paths \<noteq> [] \<and> list_all (\<lambda>p. normalizeRelativePath p \<noteq> []) paths"

text \<open>\<open>mergePending\<close>; an omitted path list is the empty one. The waiters are those pushed afterwards.\<close>

definition mergePending :: "string list \<Rightarrow> nat list \<Rightarrow> PendingBatch option \<Rightarrow> PendingBatch" where
  "mergePending paths waiters pending =
     (let batch = (case pending of
          None \<Rightarrow> \<lparr>pend_paths = (if targetsPaths paths then Some (foldl (\<lambda>s p. js_setAdd p s) [] paths) else None),
                   pend_waiters = []\<rparr>
        | Some p \<Rightarrow>
            if \<not> targetsPaths paths then p\<lparr>pend_paths := None\<rparr>
            else p\<lparr>pend_paths := map_option (\<lambda>old. foldl (\<lambda>s p. js_setAdd p s) old paths) (pend_paths p)\<rparr>)
      in batch\<lparr>pend_waiters := pend_waiters batch @ waiters\<rparr>)"

text \<open>The head of the pump's loop.\<close>

definition pumpLoop :: "FileTreeRefreshRuntime \<Rightarrow> FileTreeRefreshRuntime" where
  "pumpLoop rt = rt\<lparr>rt_pump := (if rt_pending rt \<noteq> None \<and> \<not> rt_isDisposed rt then PumpLease else PumpIdle)\<rparr>"

definition rt_refresh :: "string list \<Rightarrow> FileTreeRefreshRuntime \<Rightarrow> FileTreeRefreshRuntime" where
  "rt_refresh paths rt =
     (if rt_isDisposed rt then rt
      else
        let w = rt_nextWaiter rt;
            rt1 = rt\<lparr>rt_revision := rt_revision rt + 1, rt_cache := None,
                     rt_pending := Some (mergePending paths [w] (rt_pending rt)),
                     rt_lastRequest := Some w, rt_nextWaiter := w + 1\<rparr>
        in if isRunning rt1 then rt1 else pumpLoop rt1)"

section \<open>The pump\<close>

text \<open>The lease is granted: the batch is taken and the request to the daemon is sent.\<close>

definition startBatch :: "(string \<Rightarrow> string \<Rightarrow> int) \<Rightarrow> FileTreeRefreshRuntime \<Rightarrow> FileTreeRefreshRuntime" where
  "startBatch localeCompare rt =
     (case rt_pending rt of
        None \<Rightarrow> rt\<lparr>rt_pump := PumpLoop\<rparr>
      | Some batch \<Rightarrow>
          if rt_isDisposed rt then rt\<lparr>rt_pump := PumpLoop\<rparr>
          else
            let directories =
                  (case pend_paths batch of
                     None \<Rightarrow> [[]]
                   | Some changedPaths \<Rightarrow>
                       if \<not> rt_hasRoot rt then [[]]
                       else resolveRefreshDirectoryPaths localeCompare changedPaths (rt_loadedPaths rt))
            in rt\<lparr>rt_pending := None, rt_active := Some batch, rt_pump := PumpRpc,
                  rt_directories := (if [] \<in> set directories then [[]] else directories)\<rparr>)"

definition isStale :: "ListingResult \<Rightarrow> bool" where
  "isStale listing \<longleftrightarrow> res_isFresh listing = Some False"

definition hasError :: "ListingResult \<Rightarrow> bool" where
  "hasError listing \<longleftrightarrow> truthy_string (res_error listing) \<noteq> None"

definition listingDirectory :: "ListingResult \<Rightarrow> string" where
  "listingDirectory listing = normalizeRelativePath (nullish (res_relativePath listing) [])"

text \<open>The accepted listings enter the tree.\<close>

definition acceptListings ::
  "(string \<Rightarrow> string \<Rightarrow> int) \<Rightarrow> ListingResult list \<Rightarrow> FileTreeRefreshRuntime \<Rightarrow> FileTreeRefreshRuntime" where
  "acceptListings localeCompare accepted rt =
     (let (entries, loaded) = applyDirectoryRefreshes localeCompare (rt_entries rt)
            (map (\<lambda>l. \<lparr>listing_directoryPath = listingDirectory l, listing_files = res_files l\<rparr>) accepted)
            (rt_loadedPaths rt);
          rt1 = (if accepted = [] then rt
                 else rt\<lparr>rt_entries := entries, rt_loadedPaths := loaded, rt_visible := entries\<rparr>);
          rt2 = rt1\<lparr>rt_coveredPaths := map listingDirectory (filter (\<lambda>l. \<not> isStale l) accepted)\<rparr>
      in if list_ex (\<lambda>l. truthy_string (res_relativePath l) = None \<and> \<not> isStale l) accepted
         then rt2\<lparr>rt_hasRoot := True\<rparr> else rt2)"

definition emptyResponseMessage :: string where
  "emptyResponseMessage = ''Empty workspace file response''"

definition failureMessage :: "ListingResult list \<Rightarrow> string" where
  "failureMessage results =
     (case List.find hasError results of
        Some l \<Rightarrow> nullish (res_error l) emptyResponseMessage
      | None \<Rightarrow> emptyResponseMessage)"

text \<open>The waiters of the batch: rejected, kept for a retry of the same scope, or resolved.\<close>

definition settleBatch ::
  "ListingResult list \<Rightarrow> PendingBatch \<Rightarrow> FileTreeRefreshRuntime \<Rightarrow> FileTreeRefreshRuntime" where
  "settleBatch results batch rt =
     (let accepted = filter (\<lambda>l. \<not> hasError l) results; dirty = filter isStale accepted in
      if list_ex hasError results \<or> accepted = []
      then settleWaiters (pend_waiters batch) (Rejected (RefreshFailure (failureMessage results))) (rt\<lparr>rt_hasRoot := False\<rparr>)
      else if dirty \<noteq> []
      then rt\<lparr>rt_pending := Some (mergePending (nullish (pend_paths batch) []) (pend_waiters batch) (rt_pending rt))\<rparr>
      else settleWaiters (pend_waiters batch) (Resolved (rt_entries rt)) rt)"

definition rt_batchResponse ::
  "(string \<Rightarrow> string \<Rightarrow> int) \<Rightarrow> ListingResult list \<Rightarrow> FileTreeRefreshRuntime \<Rightarrow> FileTreeRefreshRuntime" where
  "rt_batchResponse localeCompare results rt =
     (case rt_active rt of
        None \<Rightarrow> rt
      | Some batch \<Rightarrow>
          if rt_isDisposed rt then rt\<lparr>rt_active := None, rt_pump := PumpLoop\<rparr>
          else
            let accepted = filter (\<lambda>l. \<not> hasError l) results;
                failed = list_ex hasError results;
                dirty = filter isStale accepted;
                rt1 = acceptListings localeCompare accepted (rt\<lparr>rt_revision := rt_revision rt + 1\<rparr>);
                rt2 = settleBatch results batch rt1;
                rt3 = (if dirty \<noteq> [] \<and> failed
                       then rt2\<lparr>rt_pending :=
                         Some (mergePending (map (\<lambda>l. nullish (res_relativePath l) []) dirty) [] (rt_pending rt2))\<rparr>
                       else rt2);
                rt4 = (if \<not> failed \<and> dirty = [] \<and> rt_pending rt3 = None \<and> rt_hasRoot rt3 then saveCache rt3 else rt3)
            in rt4\<lparr>rt_active := None, rt_pump := PumpLoop\<rparr>)"

definition rt_batchFailure :: "string \<Rightarrow> FileTreeRefreshRuntime \<Rightarrow> FileTreeRefreshRuntime" where
  "rt_batchFailure message rt =
     (case rt_active rt of
        None \<Rightarrow> rt
      | Some batch \<Rightarrow>
          let rt1 = (if rt_isDisposed rt then rt
                     else settleWaiters (pend_waiters batch) (Rejected (RefreshFailure message)) (rt\<lparr>rt_hasRoot := False\<rparr>))
          in rt1\<lparr>rt_active := None, rt_pump := PumpLoop\<rparr>)"

section \<open>Lazy loads\<close>

text \<open>The promise of a lazy load is settled and leaves \<open>lazyLoads\<close>.\<close>

definition endLazy :: "string \<Rightarrow> RefreshError option \<Rightarrow> FileTreeRefreshRuntime \<Rightarrow> FileTreeRefreshRuntime" where
  "endLazy path err rt =
     rt\<lparr>rt_lazyLoads := (rt_lazyLoads rt)(path := None), rt_lazyDone := rt_lazyDone rt @ [(path, err)]\<rparr>"

definition setLazy :: "string \<Rightarrow> LazyPc \<Rightarrow> FileTreeRefreshRuntime \<Rightarrow> FileTreeRefreshRuntime" where
  "setLazy path pc rt = rt\<lparr>rt_lazyLoads := (rt_lazyLoads rt)(path \<mapsto> pc)\<rparr>"

definition rt_ensurePathLoaded :: "string \<Rightarrow> FileTreeRefreshRuntime \<Rightarrow> FileTreeRefreshRuntime" where
  "rt_ensurePathLoaded path rt =
     (let normalizedPath = normalizeRelativePath path in
      if rt_isDisposed rt \<or> normalizedPath = [] \<or> rt_lazyLoads rt normalizedPath \<noteq> None then rt
      else if normalizedPath \<in> set (rt_loadedPaths rt)
      then (case rt_lastRequest rt of
              Some w \<Rightarrow> if isRunning rt then setLazy normalizedPath (LazyShared w) rt else endLazy normalizedPath None rt
            | None \<Rightarrow> endLazy normalizedPath None rt)
      else setLazy normalizedPath (LazyFetch (rt_revision rt)) rt)"

definition js_includes :: "string \<Rightarrow> string \<Rightarrow> bool" where
  "js_includes s part \<longleftrightarrow> list_ex (\<lambda>k. take (length part) (drop k s) = part) [0..<Suc (length s)]"

text \<open>The catch block of \<open>loadDirectory\<close>: a directory that is gone is not an error.\<close>

definition lazyCatch :: "string \<Rightarrow> RefreshError \<Rightarrow> FileTreeRefreshRuntime \<Rightarrow> FileTreeRefreshRuntime" where
  "lazyCatch path err rt =
     (case err of
        FileTreeRefreshCancelled \<Rightarrow> endLazy path (Some FileTreeRefreshCancelled) rt
      | RefreshFailure message \<Rightarrow>
          if list_ex (js_includes (js_toLowerCase message)) [''not a directory'', ''no such file'', ''enoent'', ''enotdir'']
          then endLazy path None rt else endLazy path (Some err) rt)"

definition addLoaded :: "string \<Rightarrow> FileTreeRefreshRuntime \<Rightarrow> FileTreeRefreshRuntime" where
  "addLoaded path rt = rt\<lparr>rt_loadedPaths := js_setAdd path (rt_loadedPaths rt)\<rparr>"

definition finishLazy :: "string \<Rightarrow> FileTreeRefreshRuntime \<Rightarrow> FileTreeRefreshRuntime" where
  "finishLazy path rt =
     (let rt1 = addLoaded path rt;
          rt2 = (if rt_hasRoot rt1 \<and> \<not> isRunning rt1 \<and> rt_pending rt1 = None then saveCache rt1 else rt1)
      in endLazy path None rt2)"

definition rt_listResponse ::
  "(string \<Rightarrow> string \<Rightarrow> int) \<Rightarrow> string \<Rightarrow> WorkspaceFileEntry list \<Rightarrow> bool option \<Rightarrow>
   FileTreeRefreshRuntime \<Rightarrow> FileTreeRefreshRuntime" where
  "rt_listResponse localeCompare path files isFresh rt =
     (case rt_lazyLoads rt path of
        Some (LazyFetch revision) \<Rightarrow>
          if revision \<noteq> rt_revision rt then setLazy path (LazyLastRequest (rt_lastRequest rt)) rt
          else if isFresh = Some False
          then
            let entries = mergeWorkspaceEntries localeCompare (rt_entries rt) files;
                w = rt_nextWaiter rt
            in setLazy path (LazyRefresh w) (rt_refresh [] (rt\<lparr>rt_entries := entries, rt_visible := entries\<rparr>))
          else
            let (entries, loaded) = applyDirectoryRefreshes localeCompare (rt_entries rt)
                  [\<lparr>listing_directoryPath = path, listing_files = files\<rparr>] (rt_loadedPaths rt)
            in finishLazy path (rt\<lparr>rt_entries := entries, rt_loadedPaths := loaded, rt_visible := entries\<rparr>)
      | _ \<Rightarrow> rt)"

definition rt_listFailure :: "string \<Rightarrow> string \<Rightarrow> FileTreeRefreshRuntime \<Rightarrow> FileTreeRefreshRuntime" where
  "rt_listFailure path message rt =
     (case rt_lazyLoads rt path of
        Some (LazyFetch revision) \<Rightarrow> lazyCatch path (RefreshFailure message) rt
      | _ \<Rightarrow> rt)"

text \<open>After newer ordinary work: covered by it, or the directory is listed again.\<close>

definition recheckCovered :: "string \<Rightarrow> FileTreeRefreshRuntime \<Rightarrow> FileTreeRefreshRuntime" where
  "recheckCovered path rt =
     (if list_ex (\<lambda>d. d = [] \<or> d = path) (rt_coveredPaths rt)
      then endLazy path None (addLoaded path rt)
      else setLazy path (LazyFetch (rt_revision rt)) rt)"

text \<open>The request a lazy load waits for has been settled.\<close>

definition rt_lazyContinue :: "string \<Rightarrow> FileTreeRefreshRuntime \<Rightarrow> FileTreeRefreshRuntime" where
  "rt_lazyContinue path rt =
     (case rt_lazyLoads rt path of
        Some (LazyShared w) \<Rightarrow>
          (case rt_outcome rt w of
             None \<Rightarrow> rt
           | Some (Resolved _) \<Rightarrow> endLazy path None rt
           | Some (Rejected err) \<Rightarrow> endLazy path (Some err) rt)
      | Some (LazyLastRequest None) \<Rightarrow> recheckCovered path rt
      | Some (LazyLastRequest (Some w)) \<Rightarrow>
          (case rt_outcome rt w of
             None \<Rightarrow> rt
           | Some (Resolved _) \<Rightarrow> recheckCovered path rt
           | Some (Rejected err) \<Rightarrow> lazyCatch path err rt)
      | Some (LazyRefresh w) \<Rightarrow>
          (case rt_outcome rt w of
             None \<Rightarrow> rt
           | Some (Resolved _) \<Rightarrow> finishLazy path rt
           | Some (Rejected err) \<Rightarrow> lazyCatch path err rt)
      | _ \<Rightarrow> rt)"

section \<open>Disposal\<close>

definition batchWaiters :: "PendingBatch option \<Rightarrow> nat list" where
  "batchWaiters batch = (case batch of None \<Rightarrow> [] | Some b \<Rightarrow> pend_waiters b)"

text \<open>
  Every lazy load races with the cancellation, so all of them end here; what their listing
  requests bring later is dropped.
\<close>

definition rt_dispose :: "FileTreeRefreshRuntime \<Rightarrow> FileTreeRefreshRuntime" where
  "rt_dispose rt =
     (settleWaiters (batchWaiters (rt_active rt) @ batchWaiters (rt_pending rt)) (Rejected FileTreeRefreshCancelled) rt)
     \<lparr>rt_isDisposed := True, rt_pending := None, rt_lazyLoads := Map.empty\<rparr>"

section \<open>Events\<close>

datatype RefreshEvent =
    Refresh "string list"
  | LeaseGranted
  | BatchResponse "ListingResult list"
  | BatchFailure string
  | NextRound
  | EnsurePathLoaded string
  | ListResponse string "WorkspaceFileEntry list" "bool option"
  | ListFailure string string
  | LazyContinue string
  | Dispose

definition rt_step :: "(string \<Rightarrow> string \<Rightarrow> int) \<Rightarrow> RefreshEvent \<Rightarrow> FileTreeRefreshRuntime \<Rightarrow> FileTreeRefreshRuntime" where
  "rt_step localeCompare ev rt =
     (case ev of
        Refresh paths \<Rightarrow> rt_refresh paths rt
      | LeaseGranted \<Rightarrow> if rt_pump rt = PumpLease then startBatch localeCompare rt else rt
      | BatchResponse results \<Rightarrow> if rt_pump rt = PumpRpc then rt_batchResponse localeCompare results rt else rt
      | BatchFailure message \<Rightarrow> if rt_pump rt = PumpRpc then rt_batchFailure message rt else rt
      | NextRound \<Rightarrow> if rt_pump rt = PumpLoop then pumpLoop rt else rt
      | EnsurePathLoaded path \<Rightarrow> rt_ensurePathLoaded path rt
      | ListResponse path files isFresh \<Rightarrow> rt_listResponse localeCompare path files isFresh rt
      | ListFailure path message \<Rightarrow> rt_listFailure path message rt
      | LazyContinue path \<Rightarrow> rt_lazyContinue path rt
      | Dispose \<Rightarrow> rt_dispose rt)"

section \<open>The lease\<close>

text \<open>
  The lifecycles of one workspace identity. Every lease waits for the one before it, so the
  leases form a queue whose head runs. A pump that finds no lease before it runs at once; the
  others are granted theirs by a later event. A lease ends when its round ends.
\<close>

record LeaseWorld =
  lw_runtimes :: "nat \<rightharpoonup> FileTreeRefreshRuntime"
  lw_queue :: "nat list"

definition lw_create :: "nat \<Rightarrow> FileTreeSnapshot option \<Rightarrow> string list \<Rightarrow> LeaseWorld \<Rightarrow> LeaseWorld" where
  "lw_create i snapshot expandedPaths w =
     (if lw_runtimes w i \<noteq> None then w
      else w\<lparr>lw_runtimes := (lw_runtimes w)(i \<mapsto> newRuntime snapshot expandedPaths)\<rparr>)"

definition withOrdinaryLease ::
  "(string \<Rightarrow> string \<Rightarrow> int) \<Rightarrow> nat \<Rightarrow> FileTreeRefreshRuntime \<Rightarrow> FileTreeRefreshRuntime \<Rightarrow> LeaseWorld \<Rightarrow> LeaseWorld" where
  "withOrdinaryLease localeCompare i before after w =
     (if rt_pump after = PumpLease \<and> rt_pump before \<noteq> PumpLease
      then w\<lparr>lw_runtimes := (lw_runtimes w)(i \<mapsto> (if lw_queue w = [] then startBatch localeCompare after else after)),
             lw_queue := lw_queue w @ [i]\<rparr>
      else w\<lparr>lw_runtimes := (lw_runtimes w)(i \<mapsto> after),
             lw_queue := (if rt_pump before \<in> {PumpLease, PumpRpc} \<and> rt_pump after = PumpLoop
                          then tl (lw_queue w) else lw_queue w)\<rparr>)"

definition lw_step :: "(string \<Rightarrow> string \<Rightarrow> int) \<Rightarrow> nat \<Rightarrow> RefreshEvent \<Rightarrow> LeaseWorld \<Rightarrow> LeaseWorld" where
  "lw_step localeCompare i ev w =
     (case lw_runtimes w i of
        None \<Rightarrow> w
      | Some rt \<Rightarrow>
          if ev = LeaseGranted \<and> \<not> (lw_queue w \<noteq> [] \<and> hd (lw_queue w) = i) then w
          else withOrdinaryLease localeCompare i rt (rt_step localeCompare ev rt) w)"

end
