(* ===== verification/File_Refresh_Properties.thy ===== *)
theory File_Refresh_Properties
  imports File_Refresh_Runtime File_Tree_Properties
begin

text \<open>
  What the refresh runtime promises to its callers. Every request waits in one batch until it is
  settled, and as long as one waits the pump runs; a request is resolved only by a listing
  request that was sent after it and covers what it asked for; and per workspace one listing request is on its way at a time.
\<close>

section \<open>Requests\<close>

definition waitingRequests :: "FileTreeRefreshRuntime \<Rightarrow> nat list" where
  "waitingRequests rt = batchWaiters (rt_active rt) @ batchWaiters (rt_pending rt)"

definition rt_inv :: "FileTreeRefreshRuntime \<Rightarrow> bool" where
  "rt_inv rt \<longleftrightarrow>
     distinct (waitingRequests rt) \<and> set (waitingRequests rt) \<subseteq> {..<rt_nextWaiter rt} \<and>
     dom (rt_outcome rt) = {..<rt_nextWaiter rt} - (if rt_isDisposed rt then {} else set (waitingRequests rt)) \<and>
     (rt_active rt \<noteq> None \<longleftrightarrow> rt_pump rt = PumpRpc) \<and>
     (rt_pending rt \<noteq> None \<longrightarrow> rt_pump rt \<noteq> PumpIdle \<and> \<not> rt_isDisposed rt) \<and>
     (rt_isDisposed rt \<longrightarrow> rt_lazyLoads rt = Map.empty)"

lemma rt_invI:
  assumes "distinct (waitingRequests rt)" "set (waitingRequests rt) \<subseteq> {..<rt_nextWaiter rt}"
    and "dom (rt_outcome rt) = {..<rt_nextWaiter rt} - (if rt_isDisposed rt then {} else set (waitingRequests rt))"
    and "rt_active rt \<noteq> None \<longleftrightarrow> rt_pump rt = PumpRpc"
    and "rt_pending rt \<noteq> None \<Longrightarrow> rt_pump rt \<noteq> PumpIdle \<and> \<not> rt_isDisposed rt"
    and "rt_isDisposed rt \<Longrightarrow> rt_lazyLoads rt = Map.empty"
  shows "rt_inv rt"
  using assms by (simp add: rt_inv_def)

lemma rt_invD:
  assumes "rt_inv rt"
  shows "distinct (waitingRequests rt)" "set (waitingRequests rt) \<subseteq> {..<rt_nextWaiter rt}"
    "dom (rt_outcome rt) = {..<rt_nextWaiter rt} - (if rt_isDisposed rt then {} else set (waitingRequests rt))"
    "rt_active rt \<noteq> None \<longleftrightarrow> rt_pump rt = PumpRpc"
    "rt_pending rt \<noteq> None \<Longrightarrow> rt_pump rt \<noteq> PumpIdle \<and> \<not> rt_isDisposed rt"
    "rt_isDisposed rt \<Longrightarrow> rt_lazyLoads rt = Map.empty"
  using assms by (simp_all add: rt_inv_def)

lemma settleWaiters_fields [simp]:
  "dom (rt_outcome (settleWaiters ws result rt)) = dom (rt_outcome rt) \<union> set ws"
  "rt_pending (settleWaiters ws result rt) = rt_pending rt" "rt_active (settleWaiters ws result rt) = rt_active rt"
  "rt_pump (settleWaiters ws result rt) = rt_pump rt" "rt_isDisposed (settleWaiters ws result rt) = rt_isDisposed rt"
  "rt_nextWaiter (settleWaiters ws result rt) = rt_nextWaiter rt" "rt_lazyLoads (settleWaiters ws result rt) = rt_lazyLoads rt"
  "rt_entries (settleWaiters ws result rt) = rt_entries rt" "rt_directories (settleWaiters ws result rt) = rt_directories rt"
  by (auto simp: settleWaiters_def dom_def)

lemma mergePending_waiters [simp]:
  "pend_waiters (mergePending paths ws pending) = batchWaiters pending @ ws"
  by (simp add: mergePending_def Let_def batchWaiters_def split: option.split)

lemma batchWaiters_simps [simp]: "batchWaiters None = []" "batchWaiters (Some b) = pend_waiters b"
  by (simp_all add: batchWaiters_def)

text \<open>The parts of the state the requests depend on.\<close>

definition requestView ::
  "FileTreeRefreshRuntime \<Rightarrow> bool \<times> PumpPc \<times> PendingBatch option \<times> PendingBatch option \<times> string list \<times> nat \<times> (nat \<rightharpoonup> RefreshOutcome)" where
  "requestView rt = (rt_isDisposed rt, rt_pump rt, rt_pending rt, rt_active rt, rt_directories rt, rt_nextWaiter rt, rt_outcome rt)"

lemma requestView_eqD:
  assumes "requestView rt' = requestView rt"
  shows "rt_isDisposed rt' = rt_isDisposed rt" "rt_pump rt' = rt_pump rt" "rt_pending rt' = rt_pending rt"
    "rt_active rt' = rt_active rt" "rt_directories rt' = rt_directories rt" "rt_nextWaiter rt' = rt_nextWaiter rt" "rt_outcome rt' = rt_outcome rt"
  using assms by (simp_all add: requestView_def)

lemma acceptListings_view [simp]: "requestView (acceptListings lc accepted rt) = requestView rt"
  by (simp add: requestView_def acceptListings_def Let_def split: prod.split)

lemmas acceptListings_same [simp] = requestView_eqD [OF acceptListings_view]

lemma acceptListings_lazy [simp]: "rt_lazyLoads (acceptListings lc accepted rt) = rt_lazyLoads rt"
  by (simp add: acceptListings_def Let_def split: prod.split)

lemma endLazy_view [simp]: "requestView (endLazy path err rt) = requestView rt"
  by (simp add: requestView_def endLazy_def)

lemma setLazy_view [simp]: "requestView (setLazy path pc rt) = requestView rt"
  by (simp add: requestView_def setLazy_def)

lemma lazyCatch_view [simp]: "requestView (lazyCatch path err rt) = requestView rt"
  by (simp add: lazyCatch_def split: RefreshError.split)

lemma finishLazy_view [simp]: "requestView (finishLazy path rt) = requestView rt"
  by (simp add: finishLazy_def Let_def) (simp add: requestView_def addLoaded_def saveCache_def)

lemma recheckCovered_view [simp]: "requestView (recheckCovered path rt) = requestView rt"
  by (simp add: recheckCovered_def) (simp add: requestView_def addLoaded_def)

lemma ensurePathLoaded_view: "requestView (rt_ensurePathLoaded path rt) = requestView rt"
  by (simp add: rt_ensurePathLoaded_def Let_def split: option.split)

lemma listFailure_view: "requestView (rt_listFailure path message rt) = requestView rt"
  by (simp add: rt_listFailure_def split: option.split LazyPc.split)

lemma lazyContinue_view: "requestView (rt_lazyContinue path rt) = requestView rt"
  by (simp add: rt_lazyContinue_def split: option.split LazyPc.split RefreshOutcome.split)

text \<open>An answer of the daemon to a lazy load: nothing for the requests, or one full refresh.\<close>

lemma listResponse_view:
  obtains "requestView (rt_listResponse lc path files isFresh rt) = requestView rt"
  | rt' where "requestView rt' = requestView rt" "rt_lazyLoads rt path \<noteq> None" "rt_lazyLoads rt' = rt_lazyLoads rt"
      "rt_listResponse lc path files isFresh rt = setLazy path (LazyRefresh (rt_nextWaiter rt)) (rt_refresh [] rt')"
proof (cases "\<exists>revision. rt_lazyLoads rt path = Some (LazyFetch revision) \<and> revision = rt_revision rt \<and> isFresh = Some False")
  case True
  let ?entries = "mergeWorkspaceEntries lc (rt_entries rt) files"
  have "requestView (rt\<lparr>rt_entries := ?entries, rt_visible := ?entries\<rparr>) = requestView rt" by (simp add: requestView_def)
  with True that(2) [of "rt\<lparr>rt_entries := ?entries, rt_visible := ?entries\<rparr>"] show thesis
    by (auto simp: rt_listResponse_def Let_def)
next
  case False
  then have "requestView (rt_listResponse lc path files isFresh rt) = requestView rt"
    by (auto simp: rt_listResponse_def Let_def split: option.split LazyPc.split prod.split) (auto simp: requestView_def)
  then show thesis by (rule that(1))
qed

text \<open>With the lazy loads, which only matter for disposal.\<close>

lemma rt_inv_view:
  assumes "requestView rt' = requestView rt" "rt_isDisposed rt \<Longrightarrow> rt_lazyLoads rt' = Map.empty" "rt_inv rt"
  shows "rt_inv rt'"
  using assms(2,3) unfolding rt_inv_def waitingRequests_def requestView_eqD [OF assms(1)] by blast

lemma rt_inv_refresh:
  assumes "rt_inv rt"
  shows "rt_inv (rt_refresh paths rt)"
proof (cases "rt_isDisposed rt")
  case False
  note inv = rt_invD [OF assms, unfolded waitingRequests_def]
  let ?rt = "rt_refresh paths rt"
  have view: "rt_active ?rt = rt_active rt" "batchWaiters (rt_pending ?rt) = batchWaiters (rt_pending rt) @ [rt_nextWaiter rt]"
    "rt_nextWaiter ?rt = Suc (rt_nextWaiter rt)" "rt_outcome ?rt = rt_outcome rt" "\<not> rt_isDisposed ?rt"
    "rt_pump ?rt = (if rt_pump rt = PumpIdle then PumpLease else rt_pump rt)"
    using False by (simp_all add: rt_refresh_def pumpLoop_def isRunning_def Let_def)
  have "rt_nextWaiter rt \<notin> set (batchWaiters (rt_active rt)) \<union> set (batchWaiters (rt_pending rt))"
    using inv(2) by auto
  with inv(1-4) view False show ?thesis
    by (intro rt_invI) (auto simp: waitingRequests_def lessThan_Suc)
qed (use assms in \<open>simp add: rt_refresh_def\<close>)

lemma rt_inv_startBatch:
  assumes "rt_inv rt" "rt_pump rt = PumpLease"
  shows "rt_inv (startBatch lc rt)"
proof -
  have "rt_active rt = None" using rt_invD(4) [OF assms(1)] assms(2) by auto
  with assms show ?thesis
    by (cases "rt_pending rt") (simp_all add: startBatch_def rt_inv_def waitingRequests_def Let_def)
qed

lemma rt_inv_pumpLoop: "rt_inv rt \<Longrightarrow> rt_pump rt = PumpLoop \<Longrightarrow> rt_inv (pumpLoop rt)"
  by (simp add: pumpLoop_def rt_inv_def waitingRequests_def)

lemma rt_inv_dispose:
  assumes "rt_inv rt"
  shows "rt_inv (rt_dispose rt)"
proof -
  note inv = rt_invD [OF assms, unfolded waitingRequests_def]
  have "dom (rt_outcome rt) \<union> (set (batchWaiters (rt_active rt)) \<union> set (batchWaiters (rt_pending rt))) = {..<rt_nextWaiter rt}"
    using inv(2,3) by auto
  with inv(1,2,4) show ?thesis
    by (intro rt_invI) (simp_all add: rt_dispose_def waitingRequests_def)
qed

text \<open>The end of a round: the waiters of the batch are settled, or wait again for a retry.\<close>

lemma rt_inv_round:
  assumes "rt_inv rt" "rt_active rt = Some batch" "\<not> rt_isDisposed rt"
    and "rt_active rt' = None" "rt_pump rt' = PumpLoop" "\<not> rt_isDisposed rt'" "rt_nextWaiter rt' = rt_nextWaiter rt"
    and "batchWaiters (rt_pending rt') = batchWaiters (rt_pending rt) @ (if again then pend_waiters batch else [])"
    and "dom (rt_outcome rt') = dom (rt_outcome rt) \<union> (if again then {} else set (pend_waiters batch))"
  shows "rt_inv rt'"
proof -
  note inv = rt_invD [OF assms(1), unfolded waitingRequests_def assms(2)]
  show ?thesis
  proof (rule rt_invI)
    show "distinct (waitingRequests rt')" using inv(1) assms(4,8) by (auto simp: waitingRequests_def)
    show "set (waitingRequests rt') \<subseteq> {..<rt_nextWaiter rt'}" using inv(2) assms(4,7,8) by (auto simp: waitingRequests_def)
    show "dom (rt_outcome rt') = {..<rt_nextWaiter rt'} - (if rt_isDisposed rt' then {} else set (waitingRequests rt'))"
      using inv(1-3) assms(3,4,6-9) by (auto simp: waitingRequests_def)
  qed (use assms(4-6) in auto)
qed

lemma rt_inv_round_disposed:
  assumes "rt_inv rt" "rt_isDisposed rt"
  shows "rt_inv (rt\<lparr>rt_active := None, rt_pump := PumpLoop\<rparr>)"
  using assms by (simp add: rt_inv_def waitingRequests_def)

lemma rt_inv_batchFailure:
  assumes "rt_inv rt" "rt_pump rt = PumpRpc"
  shows "rt_inv (rt_batchFailure message rt)"
proof -
  obtain batch where batch: "rt_active rt = Some batch" using rt_invD(4) [OF assms(1)] assms(2) by auto
  show ?thesis
  proof (cases "rt_isDisposed rt")
    case True
    with rt_inv_round_disposed [OF assms(1)] batch show ?thesis by (simp add: rt_batchFailure_def)
  next
    case False
    with batch show ?thesis
      by (intro rt_inv_round [OF assms(1) batch False, where again = False]) (simp_all add: rt_batchFailure_def Let_def)
  qed
qed

lemma settleBatch_fields [simp]:
  "rt_isDisposed (settleBatch results batch rt) = rt_isDisposed rt"
  "rt_nextWaiter (settleBatch results batch rt) = rt_nextWaiter rt"
  "rt_lazyLoads (settleBatch results batch rt) = rt_lazyLoads rt"
  "rt_entries (settleBatch results batch rt) = rt_entries rt"
  by (simp_all add: settleBatch_def Let_def)

definition retries :: "ListingResult list \<Rightarrow> bool" where
  "retries results \<longleftrightarrow> \<not> list_ex hasError results \<and> list_ex isStale results"

lemma retries_iff: "retries results \<longleftrightarrow>
    \<not> (list_ex hasError results \<or> filter (\<lambda>l. \<not> hasError l) results = []) \<and> filter isStale (filter (\<lambda>l. \<not> hasError l) results) \<noteq> []"
  by (auto simp: retries_def list_ex_iff filter_empty_conv)

lemma settleBatch_waiters:
  "batchWaiters (rt_pending (settleBatch results batch rt)) =
     batchWaiters (rt_pending rt) @ (if retries results then pend_waiters batch else [])"
  "dom (rt_outcome (settleBatch results batch rt)) =
     dom (rt_outcome rt) \<union> (if retries results then {} else set (pend_waiters batch))"
  unfolding retries_iff settleBatch_def Let_def by (simp_all split del: if_split) auto

lemma batchResponse_waiters:
  fixes lc results
  assumes "rt_active rt = Some batch" "\<not> rt_isDisposed rt"
  defines "rt' \<equiv> rt_batchResponse lc results rt"
  shows "batchWaiters (rt_pending rt') =
      batchWaiters (rt_pending rt) @ (if retries results then pend_waiters batch else [])"
    "dom (rt_outcome rt') = dom (rt_outcome rt) \<union> (if retries results then {} else set (pend_waiters batch))"
    "rt_active rt' = None" "rt_pump rt' = PumpLoop" "\<not> rt_isDisposed rt'" "rt_nextWaiter rt' = rt_nextWaiter rt"
  using assms(1,2) unfolding rt'_def
  by (simp_all add: rt_batchResponse_def Let_def saveCache_def settleBatch_waiters)

lemma rt_inv_batchResponse:
  assumes "rt_inv rt" "rt_pump rt = PumpRpc"
  shows "rt_inv (rt_batchResponse lc results rt)"
proof -
  obtain batch where batch: "rt_active rt = Some batch" using rt_invD(4) [OF assms(1)] assms(2) by auto
  show ?thesis
  proof (cases "rt_isDisposed rt")
    case True
    with rt_inv_round_disposed [OF assms(1)] batch show ?thesis by (simp add: rt_batchResponse_def)
  next
    case False
    note after = batchResponse_waiters [OF batch False, where lc = lc and results = results]
    show ?thesis by (rule rt_inv_round [OF assms(1) batch False after(3-6,1,2)])
  qed
qed

inductive rt_reachable :: "(string \<Rightarrow> string \<Rightarrow> int) \<Rightarrow> FileTreeRefreshRuntime \<Rightarrow> bool" for lc where
  start: "rt_reachable lc (newRuntime snapshot expandedPaths)"
| event: "rt_reachable lc rt \<Longrightarrow> rt_reachable lc (rt_step lc ev rt)"

lemma rt_inv_step:
  assumes "rt_inv rt"
  shows "rt_inv (rt_step lc ev rt)"
proof (cases ev)
  case (EnsurePathLoaded path)
  with assms show ?thesis
    by (auto simp: rt_step_def intro!: rt_inv_view [OF ensurePathLoaded_view])
      (auto simp: rt_ensurePathLoaded_def rt_inv_def)
next
  case (ListFailure path message)
  with assms show ?thesis
    by (auto simp: rt_step_def intro!: rt_inv_view [OF listFailure_view])
      (auto simp: rt_listFailure_def rt_inv_def)
next
  case (LazyContinue path)
  with assms show ?thesis
    by (auto simp: rt_step_def intro!: rt_inv_view [OF lazyContinue_view])
      (auto simp: rt_lazyContinue_def rt_inv_def)
next
  case (ListResponse path files isFresh)
  have disposed: "rt_isDisposed rt \<Longrightarrow> rt_lazyLoads rt = Map.empty" using assms by (simp add: rt_inv_def)
  show ?thesis
  proof (cases rule: listResponse_view [of lc path files isFresh rt])
    case 1
    with assms disposed ListResponse show ?thesis
      by (auto simp: rt_step_def intro!: rt_inv_view [OF 1]) (auto simp: rt_listResponse_def)
  next
    case (2 rt')
    then have live: "\<not> rt_isDisposed rt" using disposed by auto
    have "rt_inv rt'" using 2(1) live assms by (intro rt_inv_view [OF 2(1)]) auto
    then have "rt_inv (rt_refresh [] rt')" by (rule rt_inv_refresh)
    moreover have "\<not> rt_isDisposed (rt_refresh [] rt')"
      using live requestView_eqD(1) [OF 2(1)] by (simp add: rt_refresh_def Let_def pumpLoop_def)
    ultimately have "rt_inv (setLazy path (LazyRefresh (rt_nextWaiter rt)) (rt_refresh [] rt'))"
      by (intro rt_inv_view [OF setLazy_view]) auto
    with 2(4) ListResponse show ?thesis by (simp add: rt_step_def)
  qed
qed (use assms in \<open>auto simp: rt_step_def rt_inv_refresh rt_inv_startBatch rt_inv_batchResponse rt_inv_batchFailure
    rt_inv_pumpLoop rt_inv_dispose\<close>)

lemma rt_reachable_inv: "rt_reachable lc rt \<Longrightarrow> rt_inv rt"
proof (induction rule: rt_reachable.induct)
  case (start snapshot expandedPaths)
  then show ?case by (simp add: newRuntime_def Let_def rt_inv_def waitingRequests_def)
qed (rule rt_inv_step)

text \<open>C27: At every moment each request for a refresh that was issued is either settled or waits in
  exactly one place, the batch on its way to the daemon or the one that is collected, and while
  one waits the pump is running. After disposal every request is settled.\<close>

theorem refresh_requests_wait_once:
  assumes "rt_reachable lc rt"
  shows "distinct (waitingRequests rt) \<and>
    (\<forall>w < rt_nextWaiter rt. rt_outcome rt w \<noteq> None \<longleftrightarrow> rt_isDisposed rt \<or> w \<notin> set (waitingRequests rt)) \<and>
    (\<forall>w \<in> set (waitingRequests rt). w < rt_nextWaiter rt \<and> isRunning rt)"
proof -
  note inv = rt_invD [OF rt_reachable_inv [OF assms]]
  have "isRunning rt" if "w \<in> set (waitingRequests rt)" for w
    using inv(4,5) that by (cases "rt_active rt"; cases "rt_pending rt") (auto simp: waitingRequests_def isRunning_def)
  moreover have "rt_outcome rt w \<noteq> None \<longleftrightarrow> rt_isDisposed rt \<or> w \<notin> set (waitingRequests rt)" if "w < rt_nextWaiter rt" for w
    unfolding domIff [symmetric] inv(3) using that by simp
  ultimately show ?thesis using inv(1,2) by auto
qed

theorem refresh_requests_wait_once_witness:
  "let rt = rt_step (\<lambda>a b. 0) (Refresh [''src'']) (newRuntime None []) in
   waitingRequests rt = [0] \<and>
   distinct (waitingRequests rt) \<and>
   (\<forall>w < rt_nextWaiter rt. rt_outcome rt w \<noteq> None \<longleftrightarrow> rt_isDisposed rt \<or> w \<notin> set (waitingRequests rt)) \<and>
   (\<forall>w \<in> set (waitingRequests rt). w < rt_nextWaiter rt \<and> isRunning rt)"
proof -
  have "waitingRequests (rt_step (\<lambda>a b. 0) (Refresh [''src'']) (newRuntime None [])) = [0]"
    by (simp add: rt_step_def rt_refresh_def newRuntime_def waitingRequests_def isRunning_def pumpLoop_def Let_def)
  moreover have "rt_reachable (\<lambda>a b. 0) (rt_step (\<lambda>a b. 0) (Refresh [''src'']) (newRuntime None []))"
    by (intro rt_reachable.intros)
  ultimately show ?thesis using refresh_requests_wait_once unfolding Let_def by blast
qed

section \<open>Coverage\<close>

text \<open>
  The directories above a path, as the search for a loaded one climbs: the nearest is the first of
  them that is loaded, and the root of the workspace when none is.
\<close>

definition ancestorAt :: "nat \<Rightarrow> string \<Rightarrow> string" where
  "ancestorAt k path = (getParentRelativePath ^^ k) (normalizeRelativePath path)"

definition nearestAbove :: "string list \<Rightarrow> (nat \<Rightarrow> string) \<Rightarrow> string \<Rightarrow> bool" where
  "nearestAbove loaded chain d \<longleftrightarrow>
     (\<exists>k. d = chain k \<and> d \<in> set loaded \<and> (\<forall>j < k. chain j \<notin> set loaded)) \<or>
     (d = [] \<and> (\<forall>k. chain k \<in> set loaded \<longrightarrow> chain k = []))"

lemma nearestAbove_unique: "nearestAbove loaded chain d \<Longrightarrow> nearestAbove loaded chain d' \<Longrightarrow> d = d'"
  unfolding nearestAbove_def by (metis linorder_neqE_nat)

lemma nearestAbove_Suc:
  assumes "chain 0 \<notin> set loaded" "nearestAbove loaded (\<lambda>k. chain (Suc k)) d"
  shows "nearestAbove loaded chain d"
proof -
  have below: "\<forall>j < Suc k. chain j \<notin> set loaded" if "\<forall>j < k. chain (Suc j) \<notin> set loaded" for k
    using that assms(1) by (metis less_Suc_eq_0_disj)
  from assms(2) consider k where "d = chain (Suc k)" "d \<in> set loaded" "\<forall>j < k. chain (Suc j) \<notin> set loaded"
    | "d = []" "\<forall>k. chain (Suc k) \<in> set loaded \<longrightarrow> chain (Suc k) = []"
    unfolding nearestAbove_def by blast
  then show ?thesis
  proof cases
    case (1 k)
    with below show ?thesis unfolding nearestAbove_def by blast
  next
    case 2
    then have "chain k \<in> set loaded \<longrightarrow> chain k = []" for k using assms(1) by (cases k) simp_all
    with 2 show ?thesis unfolding nearestAbove_def by blast
  qed
qed

lemma parent_Nil [simp]: "getParentRelativePath [] = []"
  by (simp add: getParentRelativePath_def normalizeRelativePath_def dropTrailingSlashes_def js_trim_def pathParts_def joinParts_def)

lemma parents_Nil [simp]: "(getParentRelativePath ^^ k) [] = []"
  by (induction k) simp_all

lemma nearestLoaded_nearest: "nearestAbove loaded (\<lambda>k. (getParentRelativePath ^^ k) c) (nearestLoaded loaded c)"
proof (induction loaded c rule: nearestLoaded.induct)
  case (1 loaded c)
  let ?p = "getParentRelativePath c"
  show ?case
  proof (cases "c \<in> set loaded")
    case True
    then have "nearestLoaded loaded c = c" by (subst nearestLoaded.simps) simp
    with True show ?thesis unfolding nearestAbove_def by (intro disjI1 exI [of _ 0]) simp
  next
    case False
    then have step: "nearestLoaded loaded c = (if ?p = [] then [] else nearestLoaded loaded ?p)"
      by (subst nearestLoaded.simps) (simp add: Let_def)
    have "nearestAbove loaded (\<lambda>k. (getParentRelativePath ^^ k) ?p) (nearestLoaded loaded c)"
    proof (cases "?p = []")
      case True
      then show ?thesis unfolding step nearestAbove_def by simp
    next
      case parent: False
      with 1 [OF False refl] step show ?thesis by simp
    qed
    then have "nearestAbove loaded (\<lambda>k. (getParentRelativePath ^^ Suc k) c) (nearestLoaded loaded c)"
      by (simp add: funpow_swap1)
    with False show ?thesis using nearestAbove_Suc [of "\<lambda>k. (getParentRelativePath ^^ k) c" loaded] by simp
  qed
qed

lemma nearestLoaded_iff: "nearestAbove loaded (\<lambda>k. ancestorAt k p) d \<longleftrightarrow> d = nearestLoaded loaded (normalizeRelativePath p)"
  using nearestLoaded_nearest [of loaded "normalizeRelativePath p"] nearestAbove_unique
  unfolding ancestorAt_def by blast

lemma nearestLoaded_Nil [simp]: "nearestLoaded loaded [] = []"
  by (subst nearestLoaded.simps) simp

lemma set_setAdd [simp]: "set (js_setAdd x xs) = insert x (set xs)"
  by (auto simp: js_setAdd_def)

lemma set_foldl_setAdd: "set (foldl (\<lambda>s p. js_setAdd (f p) s) xs ps) = set xs \<union> f ` set ps"
  by (induction ps arbitrary: xs) auto

lemma refresh_directories_set:
  assumes "paths \<noteq> []"
  shows "set (resolveRefreshDirectoryPaths lc paths loaded) = (\<lambda>p. nearestLoaded loaded (normalizeRelativePath p)) ` set paths"
proof -
  have "(if normalizeRelativePath p = [] then [] else nearestLoaded loaded (normalizeRelativePath p)) =
      nearestLoaded loaded (normalizeRelativePath p)" for p by simp
  then show ?thesis using assms by (simp add: resolveRefreshDirectoryPaths_def Let_def set_foldl_setAdd)
qed

text \<open>After changes exactly these directories are listed again: for every changed path the
  nearest one, among the path itself and the directories above it, that is loaded, and the whole
  workspace when none is.\<close>

theorem refresh_lists_nearest_loaded:
  assumes "paths \<noteq> []"
  shows "d \<in> set (resolveRefreshDirectoryPaths lc paths loaded) \<longleftrightarrow>
    (\<exists>p \<in> set paths. nearestAbove loaded (\<lambda>k. ancestorAt k p) d)"
  unfolding refresh_directories_set [OF assms] nearestLoaded_iff by auto

theorem refresh_lists_nearest_loaded_witness:
  "resolveRefreshDirectoryPaths (\<lambda>a b. 0) [''src/ui/a.ts''] [''src'', ''doc''] = [''src''] \<and>
   (''src'' \<in> set (resolveRefreshDirectoryPaths (\<lambda>a b. 0) [''src/ui/a.ts''] [''src'', ''doc'']) \<longleftrightarrow>
     (\<exists>p \<in> set [''src/ui/a.ts'']. nearestAbove [''src'', ''doc''] (\<lambda>k. ancestorAt k p) ''src''))"
proof
  show "resolveRefreshDirectoryPaths (\<lambda>a b. 0) [''src/ui/a.ts''] [''src'', ''doc''] = [''src'']" by code_simp
qed (rule refresh_lists_nearest_loaded, simp)

section \<open>Answers cover what was asked for\<close>

text \<open>The paths every request asked for; a lazy load that finds stale data asks for everything.\<close>

definition requestedPaths :: "RefreshEvent \<Rightarrow> string list" where
  "requestedPaths ev = (case ev of Refresh paths \<Rightarrow> paths | _ \<Rightarrow> [])"

text \<open>
  A run of the runtime over a list of events. Event \<open>i\<close> makes request \<open>w\<close> when it takes the number \<open>w\<close>; the
  listing request under way at the end was sent by event \<open>j\<close> when that event was the grant of the lease
  and the batch and its directories have not changed since.
\<close>

definition rt_run ::
  "(string \<Rightarrow> string \<Rightarrow> int) \<Rightarrow> FileTreeRefreshRuntime \<Rightarrow> RefreshEvent list \<Rightarrow> FileTreeRefreshRuntime" where
  "rt_run lc rt events = foldl (\<lambda>rt ev. rt_step lc ev rt) rt events"

definition requestMadeAt ::
  "(string \<Rightarrow> string \<Rightarrow> int) \<Rightarrow> FileTreeRefreshRuntime \<Rightarrow> RefreshEvent list \<Rightarrow> nat \<Rightarrow> nat \<Rightarrow> bool" where
  "requestMadeAt lc rt events w i \<longleftrightarrow> i < length events \<and>
     rt_nextWaiter (rt_run lc rt (take i events)) = w \<and> rt_nextWaiter (rt_run lc rt (take (Suc i) events)) = Suc w"

definition listingSentAt ::
  "(string \<Rightarrow> string \<Rightarrow> int) \<Rightarrow> FileTreeRefreshRuntime \<Rightarrow> RefreshEvent list \<Rightarrow> nat \<Rightarrow> bool" where
  "listingSentAt lc rt events j \<longleftrightarrow> j < length events \<and> events ! j = LeaseGranted \<and>
     rt_active (rt_run lc rt (take j events)) = None \<and> rt_active (rt_run lc rt events) \<noteq> None \<and>
     (\<forall>k. j < k \<and> k \<le> length events \<longrightarrow>
        rt_active (rt_run lc rt (take k events)) = rt_active (rt_run lc rt events) \<and>
        rt_directories (rt_run lc rt (take k events)) = rt_directories (rt_run lc rt events))"

lemma rt_run_simps [simp]: "rt_run lc rt [] = rt" "rt_run lc rt (events @ [ev]) = rt_step lc ev (rt_run lc rt events)"
  by (simp_all add: rt_run_def)

definition batchCovers :: "string list option \<Rightarrow> string list \<Rightarrow> bool" where
  "batchCovers scope paths \<longleftrightarrow> (case scope of None \<Rightarrow> True | Some all \<Rightarrow> targetsPaths paths \<and> set paths \<subseteq> set all)"

definition listingCovers :: "string list \<Rightarrow> string list \<Rightarrow> bool" where
  "listingCovers directories paths \<longleftrightarrow>
     [] \<in> set directories \<or> (targetsPaths paths \<and> (\<forall>p \<in> set paths. \<exists>d \<in> set directories. \<exists>k. d = ancestorAt k p))"

definition waitersCovered :: "(nat \<Rightarrow> string list) \<Rightarrow> PendingBatch option \<Rightarrow> bool" where
  "waitersCovered asked batch \<longleftrightarrow>
     (case batch of None \<Rightarrow> True | Some b \<Rightarrow> \<forall>w \<in> set (pend_waiters b). batchCovers (pend_paths b) (asked w))"

definition cover_inv :: "(nat \<Rightarrow> string list) \<Rightarrow> FileTreeRefreshRuntime \<Rightarrow> bool" where
  "cover_inv asked rt \<longleftrightarrow>
     waitersCovered asked (rt_pending rt) \<and> waitersCovered asked (rt_active rt) \<and>
     (\<forall>b. rt_active rt = Some b \<longrightarrow> (\<forall>paths. batchCovers (pend_paths b) paths \<longrightarrow> listingCovers (rt_directories rt) paths))"

lemma mergePending_covers_new: "targetsPaths paths \<or> paths = [] \<Longrightarrow> batchCovers (pend_paths (mergePending paths ws pending)) paths"
  by (auto simp: mergePending_def batchCovers_def Let_def set_foldl_setAdd [where f = "\<lambda>p. p"] targetsPaths_def split: option.split)

lemma mergePending_scope_new:
  "pend_paths (mergePending paths ws pending) = None \<or>
   (targetsPaths paths \<and> set paths \<subseteq> set (the (pend_paths (mergePending paths ws pending))))"
  by (auto simp: mergePending_def Let_def set_foldl_setAdd [where f = "\<lambda>p. p"] split: option.split)

lemma mergePending_scope_old:
  assumes "batchCovers (pend_paths b) paths'"
  shows "batchCovers (pend_paths (mergePending paths ws (Some b))) paths'"
  using assms by (auto simp: mergePending_def batchCovers_def Let_def set_foldl_setAdd [where f = "\<lambda>p. p"] split: option.splits)

lemma mergePending_covers:
  assumes "waitersCovered asked pending" "\<And>w. w \<in> set ws \<Longrightarrow> batchCovers (pend_paths (mergePending paths ws pending)) (asked w)"
  shows "waitersCovered asked (Some (mergePending paths ws pending))"
proof -
  have "batchCovers (pend_paths (mergePending paths ws pending)) (asked w)" if "w \<in> set (batchWaiters pending)" for w
    using assms(1) that mergePending_scope_old by (cases pending) (auto simp: waitersCovered_def)
  with assms(2) show ?thesis by (auto simp: waitersCovered_def)
qed

text \<open>A retry asks for the scope of the batch again.\<close>

lemma retry_covers:
  assumes "batchCovers scope paths"
  shows "batchCovers (pend_paths (mergePending (nullish scope []) ws pending)) paths"
proof (cases scope)
  case None
  then have "pend_paths (mergePending (nullish scope []) ws pending) = None"
    using mergePending_scope_new [of "[]" ws pending] by (simp add: targetsPaths_def)
  then show ?thesis by (simp add: batchCovers_def)
next
  case (Some all)
  with assms mergePending_scope_new [of all ws pending] show ?thesis
    by (auto simp: batchCovers_def split: option.split)
qed

lemma waitersCovered_other:
  "waitersCovered asked batch \<Longrightarrow> w \<notin> set (batchWaiters batch) \<Longrightarrow> waitersCovered (asked(w := paths)) batch"
  by (cases batch) (auto simp: waitersCovered_def)

lemma cover_inv_other:
  assumes "rt_inv rt" "cover_inv asked rt"
  shows "cover_inv (asked(rt_nextWaiter rt := paths)) rt"
proof -
  have "rt_nextWaiter rt \<notin> set (waitingRequests rt)" using rt_invD(2) [OF assms(1)] by auto
  with assms(2) show ?thesis by (auto simp: cover_inv_def waitingRequests_def intro!: waitersCovered_other)
qed

lemma cover_inv_view:
  assumes "requestView rt' = requestView rt" "cover_inv asked rt"
  shows "cover_inv asked rt'"
  using assms(2) unfolding cover_inv_def requestView_eqD [OF assms(1)] .

lemma cover_inv_refresh:
  assumes "rt_inv rt" "cover_inv asked rt"
  shows "cover_inv (asked(rt_nextWaiter rt := paths)) (rt_refresh paths rt)"
proof (cases "rt_isDisposed rt")
  case True
  with cover_inv_other [OF assms] show ?thesis by (simp add: rt_refresh_def)
next
  case False
  let ?asked = "asked(rt_nextWaiter rt := paths)"
  have other: "cover_inv ?asked rt" using assms by (rule cover_inv_other)
  have "waitersCovered ?asked (Some (mergePending paths [rt_nextWaiter rt] (rt_pending rt)))"
    using other mergePending_scope_new [of paths "[rt_nextWaiter rt]" "rt_pending rt"]
    by (intro mergePending_covers) (auto simp: cover_inv_def batchCovers_def split: option.split)
  with other False show ?thesis
    by (simp add: rt_refresh_def cover_inv_def Let_def pumpLoop_def)
qed

lemma cover_inv_startBatch:
  assumes "cover_inv asked rt" "rt_active rt = None"
  shows "cover_inv asked (startBatch lc rt)"
proof (cases "rt_pending rt = None \<or> rt_isDisposed rt")
  case True
  with assms show ?thesis by (auto simp: startBatch_def cover_inv_def split: option.split)
next
  case False
  then obtain batch where batch: "rt_pending rt = Some batch" by auto
  let ?dirs = "rt_directories (startBatch lc rt)"
  have "listingCovers ?dirs paths" if "batchCovers (pend_paths batch) paths" for paths
  proof (cases "[] \<in> set ?dirs")
    case no_root: False
    then obtain all where all: "pend_paths batch = Some all" "?dirs = resolveRefreshDirectoryPaths lc all (rt_loadedPaths rt)"
      using batch False by (auto simp: startBatch_def Let_def split: option.splits if_splits)
    have ne: "all \<noteq> []"
    proof
      assume "all = []"
      then have "[] \<in> set ?dirs" using all(2) by (simp add: resolveRefreshDirectoryPaths_def)
      with no_root show False by blast
    qed
    have "\<exists>d \<in> set ?dirs. \<exists>k. d = ancestorAt k p" if p: "p \<in> set all" for p
    proof -
      let ?d = "nearestLoaded (rt_loadedPaths rt) (normalizeRelativePath p)"
      have d: "?d \<in> set ?dirs" using p unfolding all(2) refresh_directories_set [OF ne] by blast
      with no_root have "?d \<noteq> []" by metis
      with nearestLoaded_iff [of "rt_loadedPaths rt" p ?d] have "\<exists>k. ?d = ancestorAt k p"
        by (auto simp: nearestAbove_def)
      with d show ?thesis by blast
    qed
    with that all(1) show ?thesis by (auto simp: batchCovers_def listingCovers_def)
  qed (simp add: listingCovers_def)
  moreover have "rt_pending (startBatch lc rt) = None" "rt_active (startBatch lc rt) = Some batch"
    using batch False by (simp_all add: startBatch_def Let_def)
  ultimately show ?thesis using assms(1) batch by (simp add: cover_inv_def waitersCovered_def)
qed

lemma cover_inv_batchResponse:
  assumes "cover_inv asked rt"
  shows "cover_inv asked (rt_batchResponse lc results rt)"
proof (cases "rt_active rt = None \<or> rt_isDisposed rt")
  case True
  with assms show ?thesis by (auto simp: rt_batchResponse_def cover_inv_def waitersCovered_def split: option.split)
next
  case False
  then obtain batch where batch: "rt_active rt = Some batch" by auto
  let ?rt1 = "acceptListings lc (filter (\<lambda>l. \<not> hasError l) results) (rt\<lparr>rt_revision := rt_revision rt + 1\<rparr>)"
  have covered: "batchCovers (pend_paths batch) (asked w)" if "w \<in> set (pend_waiters batch)" for w
    using assms batch that by (simp add: cover_inv_def waitersCovered_def)
  have "waitersCovered asked (rt_pending rt)" using assms by (simp add: cover_inv_def)
  moreover from this have "waitersCovered asked (Some (mergePending (nullish (pend_paths batch) []) (pend_waiters batch) (rt_pending rt)))"
    using covered by (intro mergePending_covers) (auto intro: retry_covers)
  ultimately have settled: "waitersCovered asked (rt_pending (settleBatch results batch ?rt1))"
    by (simp add: settleBatch_def Let_def)
  then have "waitersCovered asked (Some (mergePending paths [] (rt_pending (settleBatch results batch ?rt1))))" for paths
    by (intro mergePending_covers) auto
  with settled batch False show ?thesis
    by (simp add: rt_batchResponse_def cover_inv_def Let_def saveCache_def waitersCovered_def [of asked None])
qed

lemma cover_inv_batchFailure: "cover_inv asked rt \<Longrightarrow> cover_inv asked (rt_batchFailure message rt)"
  by (cases "rt_active rt") (simp_all add: rt_batchFailure_def cover_inv_def Let_def waitersCovered_def [of _ None])

lemma cover_inv_step:
  assumes "rt_inv rt" "cover_inv asked rt"
  shows "cover_inv (asked(rt_nextWaiter rt := requestedPaths ev)) (rt_step lc ev rt)"
proof (cases ev)
  case (Refresh paths)
  with cover_inv_refresh [OF assms] show ?thesis by (simp add: rt_step_def requestedPaths_def)
next
  case LeaseGranted
  have "rt_active rt = None" if "rt_pump rt = PumpLease" using rt_invD(4) [OF assms(1)] that by auto
  with cover_inv_other [OF assms] cover_inv_startBatch show ?thesis unfolding LeaseGranted by (simp add: rt_step_def)
next
  case (BatchResponse results)
  with cover_inv_other [OF assms] cover_inv_batchResponse show ?thesis by (simp add: rt_step_def)
next
  case (BatchFailure message)
  with cover_inv_other [OF assms] cover_inv_batchFailure show ?thesis by (simp add: rt_step_def)
next
  case NextRound
  with cover_inv_other [OF assms] show ?thesis by (simp add: rt_step_def pumpLoop_def cover_inv_def)
next
  case (EnsurePathLoaded path)
  with cover_inv_other [OF assms] cover_inv_view [OF ensurePathLoaded_view] show ?thesis by (simp add: rt_step_def)
next
  case (ListFailure path message)
  with cover_inv_other [OF assms] cover_inv_view [OF listFailure_view] show ?thesis by (simp add: rt_step_def)
next
  case (LazyContinue path)
  with cover_inv_other [OF assms] cover_inv_view [OF lazyContinue_view] show ?thesis by (simp add: rt_step_def)
next
  case Dispose
  with cover_inv_other [OF assms] show ?thesis
    by (simp add: rt_step_def rt_dispose_def cover_inv_def waitersCovered_def [of _ None])
next
  case (ListResponse path files isFresh)
  show ?thesis
  proof (cases rule: listResponse_view [of lc path files isFresh rt])
    case 1
    with ListResponse cover_inv_other [OF assms] cover_inv_view [OF 1] show ?thesis by (simp add: rt_step_def)
  next
    case (2 rt')
    have "rt_inv rt'" using rt_inv_view [OF 2(1) _ assms(1)] 2(3) rt_invD(6) [OF assms(1)] by simp
    moreover have "cover_inv asked rt'" using 2(1) assms(2) by (rule cover_inv_view)
    ultimately have "cover_inv (asked(rt_nextWaiter rt' := [])) (rt_refresh [] rt')" by (rule cover_inv_refresh)
    then have "cover_inv (asked(rt_nextWaiter rt := [])) (setLazy path (LazyRefresh (rt_nextWaiter rt)) (rt_refresh [] rt'))"
      unfolding requestView_eqD(6) [OF 2(1)] by (intro cover_inv_view [OF setLazy_view])
    with 2(4) ListResponse show ?thesis by (simp add: rt_step_def requestedPaths_def)
  qed
qed

lemma newRuntime_inv: "rt_inv (newRuntime snapshot expandedPaths)" "cover_inv asked (newRuntime snapshot expandedPaths)"
  by (simp_all add: newRuntime_def Let_def rt_inv_def waitingRequests_def cover_inv_def waitersCovered_def)

lemma rt_run_inv: "rt_inv (rt_run lc (newRuntime snapshot expandedPaths) events)"
  by (induction events rule: rev_induct) (simp_all add: newRuntime_inv rt_inv_step)

text \<open>An event makes at most one request, and only the grant of the lease starts a batch.\<close>

lemma step_nextWaiter: "rt_nextWaiter (rt_step lc ev rt) \<in> {rt_nextWaiter rt, Suc (rt_nextWaiter rt)}"
proof (cases ev)
  case (ListResponse path files isFresh)
  show ?thesis
  proof (cases rule: listResponse_view [of lc path files isFresh rt])
    case 1
    then show ?thesis using ListResponse requestView_eqD(6) [OF 1] by (simp add: rt_step_def)
  next
    case (2 rt')
    then show ?thesis using ListResponse requestView_eqD(6) [OF 2(1)]
      by (simp add: rt_step_def setLazy_def rt_refresh_def Let_def pumpLoop_def)
  qed
qed (simp_all add: rt_step_def requestView_eqD(6) [OF ensurePathLoaded_view] requestView_eqD(6) [OF listFailure_view]
    requestView_eqD(6) [OF lazyContinue_view] rt_refresh_def startBatch_def rt_batchResponse_def settleBatch_def
    rt_batchFailure_def rt_dispose_def saveCache_def pumpLoop_def Let_def split: option.split)

lemma step_active:
  assumes "rt_inv rt" "rt_active (rt_step lc ev rt) = Some b"
  shows "rt_active rt = Some b \<and> rt_directories (rt_step lc ev rt) = rt_directories rt \<or>
    ev = LeaseGranted \<and> rt_active rt = None \<and> rt_pending rt = Some b"
proof (cases ev)
  case (ListResponse path files isFresh)
  show ?thesis
  proof (cases rule: listResponse_view [of lc path files isFresh rt])
    case 1
    then show ?thesis using ListResponse requestView_eqD(4,5) [OF 1] assms(2) by (simp add: rt_step_def)
  next
    case (2 rt')
    then show ?thesis using ListResponse requestView_eqD(4,5) [OF 2(1)] assms(2)
      by (simp add: rt_step_def setLazy_def rt_refresh_def Let_def pumpLoop_def split: if_splits)
  qed
next
  case LeaseGranted
  with assms(2) rt_invD(4) [OF assms(1)] show ?thesis
    by (auto simp: rt_step_def startBatch_def Let_def split: if_splits option.splits)
next
  case (EnsurePathLoaded path)
  with assms(2) requestView_eqD(4,5) [OF ensurePathLoaded_view, of path rt] show ?thesis by (simp add: rt_step_def)
next
  case (ListFailure path message)
  with assms(2) requestView_eqD(4,5) [OF listFailure_view, of path message rt] show ?thesis by (simp add: rt_step_def)
next
  case (LazyContinue path)
  with assms(2) requestView_eqD(4,5) [OF lazyContinue_view, of path rt] show ?thesis by (simp add: rt_step_def)
qed (use assms(2) in \<open>auto simp: rt_step_def rt_refresh_def rt_batchResponse_def rt_batchFailure_def rt_dispose_def pumpLoop_def
    Let_def split: if_splits option.splits\<close>)

lemma requestMadeAt_snoc: "requestMadeAt lc rt events w i \<Longrightarrow> requestMadeAt lc rt (events @ [ev]) w i"
  by (simp add: requestMadeAt_def)

lemma rt_run_nextWaiter_mono: "i \<le> j \<Longrightarrow> rt_nextWaiter (rt_run lc rt (take i events)) \<le> rt_nextWaiter (rt_run lc rt (take j events))"
proof (induction j)
  case (Suc j)
  have "rt_nextWaiter (rt_run lc rt (take j events)) \<le> rt_nextWaiter (rt_run lc rt (take (Suc j) events))"
    using step_nextWaiter [of lc "events ! j" "rt_run lc rt (take j events)"]
    by (cases "j < length events") (auto simp: take_Suc_conv_app_nth)
  with Suc show ?case by (cases "i = Suc j") auto
qed simp

text \<open>Every request was made by an event, and the batches cover what these events asked for.\<close>

lemma rt_run_asked:
  "\<exists>asked. cover_inv asked (rt_run lc (newRuntime snapshot expandedPaths) events) \<and>
    (\<forall>w < rt_nextWaiter (rt_run lc (newRuntime snapshot expandedPaths) events).
       \<exists>i. requestMadeAt lc (newRuntime snapshot expandedPaths) events w i \<and> asked w = requestedPaths (events ! i))"
proof (induction events rule: rev_induct)
  case Nil
  then show ?case by (simp add: newRuntime_inv) (simp add: newRuntime_def Let_def)
next
  case (snoc ev events)
  let ?start = "newRuntime snapshot expandedPaths"
  let ?rt = "rt_run lc ?start events"
  obtain asked where asked: "cover_inv asked ?rt"
    "\<And>w. w < rt_nextWaiter ?rt \<Longrightarrow> \<exists>i. requestMadeAt lc ?start events w i \<and> asked w = requestedPaths (events ! i)"
    using snoc by blast
  let ?asked = "asked(rt_nextWaiter ?rt := requestedPaths ev)"
  have "\<exists>i. requestMadeAt lc ?start (events @ [ev]) w i \<and> ?asked w = requestedPaths ((events @ [ev]) ! i)"
    if "w < rt_nextWaiter (rt_step lc ev ?rt)" for w
  proof (cases "w = rt_nextWaiter ?rt")
    case True
    then have "requestMadeAt lc ?start (events @ [ev]) w (length events)"
      using that step_nextWaiter [of lc ev ?rt] by (auto simp: requestMadeAt_def)
    with True show ?thesis by (intro exI [of _ "length events"]) simp
  next
    case False
    then have "w < rt_nextWaiter ?rt" using that step_nextWaiter [of lc ev ?rt] by auto
    from asked(2) [OF this] obtain i where i: "requestMadeAt lc ?start events w i" "asked w = requestedPaths (events ! i)" by blast
    moreover have "i < length events" using i(1) by (simp add: requestMadeAt_def)
    ultimately show ?thesis using False requestMadeAt_snoc [OF i(1), of ev] by (intro exI [of _ i]) (simp add: nth_append)
  qed
  then show ?case unfolding rt_run_simps using cover_inv_step [OF rt_run_inv asked(1), of ev lc] by (intro exI [of _ ?asked]) blast
qed

text \<open>The batch under way was sent by an event, and its requests had been made by then.\<close>

lemma rt_run_sent:
  "rt_active (rt_run lc (newRuntime snapshot expandedPaths) events) = Some b \<Longrightarrow>
   \<exists>j. listingSentAt lc (newRuntime snapshot expandedPaths) events j \<and>
     set (pend_waiters b) \<subseteq> {..<rt_nextWaiter (rt_run lc (newRuntime snapshot expandedPaths) (take j events))}"
proof (induction events rule: rev_induct)
  case Nil
  then show ?case by (simp add: newRuntime_def Let_def)
next
  case (snoc ev events)
  let ?start = "newRuntime snapshot expandedPaths"
  let ?rt = "rt_run lc ?start events"
  have now: "rt_active (rt_step lc ev ?rt) = Some b" using snoc.prems by simp
  from step_active [OF rt_run_inv now] show ?case
  proof (elim disjE conjE)
    assume same: "rt_active ?rt = Some b" "rt_directories (rt_step lc ev ?rt) = rt_directories ?rt"
    from snoc.IH [OF same(1)] obtain j where j: "listingSentAt lc ?start events j"
      "set (pend_waiters b) \<subseteq> {..<rt_nextWaiter (rt_run lc ?start (take j events))}" by blast
    then have "j < length events" by (simp add: listingSentAt_def)
    moreover have "listingSentAt lc ?start (events @ [ev]) j"
      using j(1) same now by (auto simp: listingSentAt_def nth_append le_Suc_eq)
    ultimately show ?thesis using j(2) by (intro exI [of _ j]) simp
  next
    assume granted: "ev = LeaseGranted" "rt_active ?rt = None" "rt_pending ?rt = Some b"
    have "set (pend_waiters b) \<subseteq> {..<rt_nextWaiter ?rt}"
      using rt_invD(2) [OF rt_run_inv, of lc snapshot expandedPaths events] granted(3) by (simp add: waitingRequests_def)
    moreover have "listingSentAt lc ?start (events @ [ev]) (length events)"
      using granted now by (auto simp: listingSentAt_def le_Suc_eq)
    ultimately show ?thesis by (intro exI [of _ "length events"]) simp
  qed
qed

lemma listingCovers_mono: "listingCovers ds paths \<Longrightarrow> set ds \<subseteq> set ds' \<Longrightarrow> listingCovers ds' paths"
  unfolding listingCovers_def by blast

text \<open>Only a response of the daemon resolves a request.\<close>

lemma resolved_by_response:
  assumes "rt_inv rt" "rt_outcome rt w = None" "rt_outcome (rt_step lc ev rt) w = Some (Resolved es)"
  obtains results batch where "ev = BatchResponse results" "rt_active rt = Some batch" "\<not> rt_isDisposed rt"
    "w \<in> set (pend_waiters batch)" "results \<noteq> []" "\<not> list_ex hasError results" "\<not> list_ex isStale results"
    "es = rt_entries (acceptListings lc results (rt\<lparr>rt_revision := rt_revision rt + 1\<rparr>))"
proof -
  have "\<exists>results. ev = BatchResponse results \<and> rt_pump rt = PumpRpc"
  proof (cases ev)
    case (ListResponse path files isFresh)
    have "rt_outcome (rt_step lc ev rt) = rt_outcome rt"
    proof (cases rule: listResponse_view [of lc path files isFresh rt])
      case 1
      then show ?thesis using ListResponse requestView_eqD(7) [OF 1] by (simp add: rt_step_def)
    next
      case (2 rt')
      have "rt_outcome (rt_refresh [] rt') = rt_outcome rt'" by (simp add: rt_refresh_def Let_def pumpLoop_def)
      then show ?thesis using ListResponse 2(4) requestView_eqD(7) [OF 2(1)] by (simp add: rt_step_def setLazy_def)
    qed
    with assms show ?thesis by simp
  next
    case (EnsurePathLoaded path)
    with assms requestView_eqD(7) [OF ensurePathLoaded_view, of path rt] show ?thesis by (simp add: rt_step_def)
  next
    case (ListFailure path message)
    with assms requestView_eqD(7) [OF listFailure_view, of path message rt] show ?thesis by (simp add: rt_step_def)
  next
    case (LazyContinue path)
    with assms requestView_eqD(7) [OF lazyContinue_view, of path rt] show ?thesis by (simp add: rt_step_def)
  qed (use assms in \<open>auto simp: rt_step_def rt_refresh_def startBatch_def rt_batchFailure_def pumpLoop_def rt_dispose_def
      settleWaiters_def Let_def split: if_splits option.splits\<close>)
  then obtain results where ev: "ev = BatchResponse results" "rt_pump rt = PumpRpc" by blast
  then obtain batch where batch: "rt_active rt = Some batch" using rt_invD(4) [OF assms(1)] by auto
  have live: "\<not> rt_isDisposed rt"
    using assms(2,3) ev batch by (auto simp: rt_step_def rt_batchResponse_def)
  let ?acc = "filter (\<lambda>l. \<not> hasError l) results"
  let ?rt1 = "acceptListings lc ?acc (rt\<lparr>rt_revision := rt_revision rt + 1\<rparr>)"
  have "rt_outcome (settleBatch results batch ?rt1) w = Some (Resolved es)"
    using assms(3) ev batch live by (simp add: rt_step_def rt_batchResponse_def Let_def saveCache_def split: if_splits)
  then have res: "\<not> list_ex hasError results" "?acc \<noteq> []" "filter isStale ?acc = []" "w \<in> set (pend_waiters batch)" "es = rt_entries ?rt1"
    using assms(2) by (auto simp: settleBatch_def settleWaiters_def Let_def split: if_splits)
  have "?acc = results" using res(1) by (simp add: list_ex_iff filter_id_conv)
  with res ev batch live show thesis by (intro that) (auto simp: list_ex_iff filter_empty_conv)
qed

text \<open>C28: A request for a refresh is resolved only by the response to a listing request that was sent after it: in
  every run of the runtime, the event that made the request comes before the grant of the lease that
  sent the listing request now under way. All listings of the response succeeded and are fresh, the
  directories it asked the daemon for cover the request (the whole workspace or, for every path
  asked for, the path itself or a directory above it), and so do the listings returned if the
  daemon answers for every directory it was asked for. The tree the request is resolved with is the one
  with these listings applied.\<close>

theorem resolved_refresh_is_covered:
  assumes "rt = rt_run lc (newRuntime snapshot expandedPaths) events"
    and "rt_outcome rt w = None" "rt_outcome (rt_step lc ev rt) w = Some (Resolved es)"
  shows "\<exists>results i j. ev = BatchResponse results \<and> i < j \<and>
    requestMadeAt lc (newRuntime snapshot expandedPaths) events w i \<and>
    listingSentAt lc (newRuntime snapshot expandedPaths) events j \<and>
    results \<noteq> [] \<and> \<not> list_ex hasError results \<and> \<not> list_ex isStale results \<and>
    listingCovers (rt_directories rt) (requestedPaths (events ! i)) \<and>
    (set (rt_directories rt) \<subseteq> set (map listingDirectory results) \<longrightarrow>
       listingCovers (map listingDirectory results) (requestedPaths (events ! i))) \<and>
    es = fst (applyDirectoryRefreshes lc (rt_entries rt)
      (map (\<lambda>l. \<lparr>listing_directoryPath = listingDirectory l, listing_files = res_files l\<rparr>) results) (rt_loadedPaths rt))"
proof -
  let ?start = "newRuntime snapshot expandedPaths"
  have inv: "rt_inv rt" unfolding assms(1) by (rule rt_run_inv)
  from resolved_by_response [OF inv assms(2,3)] obtain results batch where
    r: "ev = BatchResponse results" "rt_active rt = Some batch" "w \<in> set (pend_waiters batch)" "results \<noteq> []"
      "\<not> list_ex hasError results" "\<not> list_ex isStale results"
      "es = rt_entries (acceptListings lc results (rt\<lparr>rt_revision := rt_revision rt + 1\<rparr>))" by metis
  obtain j where j: "listingSentAt lc ?start events j" "w < rt_nextWaiter (rt_run lc ?start (take j events))"
    using rt_run_sent r(2,3) assms(1) by blast
  obtain asked where asked: "cover_inv asked rt"
      "\<And>v. v < rt_nextWaiter rt \<Longrightarrow> \<exists>i. requestMadeAt lc ?start events v i \<and> asked v = requestedPaths (events ! i)"
    using rt_run_asked [of lc snapshot expandedPaths events] assms(1) by blast
  have "w < rt_nextWaiter rt" using rt_invD(2) [OF inv] r(2,3) by (auto simp: waitingRequests_def)
  then obtain i where i: "requestMadeAt lc ?start events w i" "asked w = requestedPaths (events ! i)" using asked(2) by blast
  have "i < j" using rt_run_nextWaiter_mono [of j i lc ?start events] i(1) j(2) by (force simp: requestMadeAt_def)
  moreover have covers: "listingCovers (rt_directories rt) (requestedPaths (events ! i))"
    using asked(1) r(2,3) by (simp add: cover_inv_def waitersCovered_def i(2) [symmetric])
  moreover have "es = fst (applyDirectoryRefreshes lc (rt_entries rt)
      (map (\<lambda>l. \<lparr>listing_directoryPath = listingDirectory l, listing_files = res_files l\<rparr>) results) (rt_loadedPaths rt))"
    using r(4,7) by (simp add: acceptListings_def Let_def split: prod.splits)
  ultimately show ?thesis using r(1,4-6) i(1) j(1) listingCovers_mono [OF covers]
    by (intro exI [of _ results] exI [of _ i] exI [of _ j]) simp
qed

definition sampleEvents :: "RefreshEvent list" where
  "sampleEvents = [Refresh [''src''], LeaseGranted]"

definition sampleListing :: ListingResult where
  "sampleListing = \<lparr>res_relativePath = None, res_files = [\<lparr>entry_path = ''src/a.ts'', entry_isIgnored = False\<rparr>],
     res_error = None, res_isFresh = Some True\<rparr>"

lemmas sample_defs = rt_run_def sampleEvents_def sampleListing_def rt_step_def rt_refresh_def newRuntime_def startBatch_def
  mergePending_def pumpLoop_def isRunning_def rt_batchResponse_def acceptListings_def settleBatch_def settleWaiters_def
  hasError_def isStale_def truthy_string_def saveCache_def Let_def

theorem resolved_refresh_is_covered_witness:
  "\<exists>i j. i < j \<and> requestMadeAt (\<lambda>a b. 0) (newRuntime None []) sampleEvents 0 i \<and>
    listingSentAt (\<lambda>a b. 0) (newRuntime None []) sampleEvents j \<and>
    listingCovers (map listingDirectory [sampleListing]) (requestedPaths (sampleEvents ! i))"
proof -
  let ?lc = "\<lambda>a b :: string. 0 :: int"
  let ?rt = "rt_run ?lc (newRuntime None []) sampleEvents"
  have before: "rt_outcome ?rt 0 = None" by (simp add: sample_defs)
  have after: "rt_outcome (rt_step ?lc (BatchResponse [sampleListing]) ?rt) 0 =
      Some (Resolved (rt_entries (rt_step ?lc (BatchResponse [sampleListing]) ?rt)))"
    by (simp add: sample_defs split: prod.split)
  have "set (rt_directories ?rt) \<subseteq> set (map listingDirectory [sampleListing])"
    by (simp add: sample_defs listingDirectory_def) code_simp
  with resolved_refresh_is_covered [OF refl before after] show ?thesis by fastforce
qed

section \<open>Disposal\<close>

text \<open>A disposed runtime publishes nothing, writes no cache and settles nothing any more.\<close>

theorem disposed_runtime_is_silent:
  assumes "rt_reachable lc rt" "rt_isDisposed rt"
  shows "rt_visible (rt_step lc ev rt) = rt_visible rt \<and> rt_cache (rt_step lc ev rt) = rt_cache rt \<and>
    rt_entries (rt_step lc ev rt) = rt_entries rt \<and> rt_outcome (rt_step lc ev rt) = rt_outcome rt \<and>
    rt_isDisposed (rt_step lc ev rt)"
proof -
  note inv = rt_invD [OF rt_reachable_inv [OF assms(1)]]
  have lazy: "rt_lazyLoads rt = Map.empty" using inv(6) assms(2) .
  have pend: "rt_pending rt = None" using inv(5) assms(2) by blast
  have "set (waitingRequests rt) \<subseteq> dom (rt_outcome rt)" using inv(2,3) assms(2) by simp
  then have settled: "rt_outcome rt w \<noteq> None" if "w \<in> set (batchWaiters (rt_active rt))" for w
    using that by (auto simp: waitingRequests_def)
  show ?thesis
  proof (cases ev)
    case Dispose
    have "rt_outcome (rt_dispose rt) = rt_outcome rt"
      using settled pend by (auto simp: rt_dispose_def settleWaiters_def)
    with Dispose show ?thesis by (simp add: rt_step_def rt_dispose_def settleWaiters_def)
  qed (use lazy pend assms(2) in \<open>auto simp: rt_step_def rt_refresh_def startBatch_def rt_batchResponse_def rt_batchFailure_def
      pumpLoop_def rt_ensurePathLoaded_def rt_listResponse_def rt_listFailure_def rt_lazyContinue_def Let_def split: option.split\<close>)
qed

section \<open>One listing request at a time\<close>

definition holdsLease :: "FileTreeRefreshRuntime \<Rightarrow> bool" where
  "holdsLease rt \<longleftrightarrow> rt_pump rt \<in> {PumpLease, PumpRpc}"

inductive lw_reachable :: "(string \<Rightarrow> string \<Rightarrow> int) \<Rightarrow> LeaseWorld \<Rightarrow> bool" for lc where
  start: "lw_reachable lc \<lparr>lw_runtimes = Map.empty, lw_queue = []\<rparr>"
| create: "lw_reachable lc w \<Longrightarrow> lw_reachable lc (lw_create i snapshot expandedPaths w)"
| event: "lw_reachable lc w \<Longrightarrow> lw_reachable lc (lw_step lc i ev w)"

text \<open>The queue holds the pumps between asking for the lease and the end of their round.\<close>

definition lw_inv :: "LeaseWorld \<Rightarrow> bool" where
  "lw_inv w \<longleftrightarrow>
     distinct (lw_queue w) \<and>
     (\<forall>i. i \<in> set (lw_queue w) \<longleftrightarrow> (\<exists>rt. lw_runtimes w i = Some rt \<and> holdsLease rt)) \<and>
     (\<forall>i rt. lw_runtimes w i = Some rt \<longrightarrow> rt_pump rt = PumpRpc \<longrightarrow> hd (lw_queue w) = i)"

text \<open>How an event moves the pump.\<close>

lemma pump_moves:
  shows "rt_pump (rt_step lc ev rt) = rt_pump rt \<or>
    (rt_pump rt \<in> {PumpIdle, PumpLoop} \<and> rt_pump (rt_step lc ev rt) \<in> {PumpLease, PumpIdle}) \<or>
    (ev = LeaseGranted \<and> rt_pump rt = PumpLease \<and> rt_pump (rt_step lc ev rt) \<in> {PumpRpc, PumpLoop}) \<or>
    (rt_pump rt = PumpRpc \<and> rt_pump (rt_step lc ev rt) = PumpLoop)"
proof (cases ev)
  case (ListResponse path files isFresh)
  show ?thesis
  proof (cases rule: listResponse_view [of lc path files isFresh rt])
    case 1
    then show ?thesis using ListResponse requestView_eqD(2) [OF 1] by (simp add: rt_step_def)
  next
    case (2 rt')
    then show ?thesis using ListResponse requestView_eqD(2) [OF 2(1)]
      by (auto simp: rt_step_def setLazy_def rt_refresh_def Let_def pumpLoop_def isRunning_def)
  qed
next
  case (EnsurePathLoaded path)
  then show ?thesis using requestView_eqD(2) [OF ensurePathLoaded_view, of path rt] by (simp add: rt_step_def)
next
  case (ListFailure path message)
  then show ?thesis using requestView_eqD(2) [OF listFailure_view, of path message rt] by (simp add: rt_step_def)
next
  case (LazyContinue path)
  then show ?thesis using requestView_eqD(2) [OF lazyContinue_view, of path rt] by (simp add: rt_step_def)
qed (auto simp: rt_step_def rt_refresh_def isRunning_def pumpLoop_def startBatch_def rt_batchResponse_def rt_batchFailure_def
    rt_dispose_def Let_def split: option.split)

text \<open>A pump that asks for the lease has a batch to send.\<close>

lemma refresh_asks: "rt_pump (rt_refresh paths rt) = PumpLease \<Longrightarrow> rt_pump rt \<noteq> PumpLease \<Longrightarrow>
    rt_pending (rt_refresh paths rt) \<noteq> None \<and> \<not> rt_isDisposed (rt_refresh paths rt)"
  by (auto simp: rt_refresh_def Let_def pumpLoop_def isRunning_def split: if_splits)

lemma lease_asked:
  assumes "rt_pump (rt_step lc ev rt) = PumpLease" "rt_pump rt \<noteq> PumpLease"
  shows "rt_pump (startBatch lc (rt_step lc ev rt)) = PumpRpc"
proof -
  have "rt_pending (rt_step lc ev rt) \<noteq> None \<and> \<not> rt_isDisposed (rt_step lc ev rt)"
  proof (cases ev)
    case (Refresh paths)
    with assms refresh_asks show ?thesis by (simp add: rt_step_def)
  next
    case (ListResponse path files isFresh)
    show ?thesis
    proof (cases rule: listResponse_view [of lc path files isFresh rt])
      case 1
      with assms ListResponse requestView_eqD(2) [OF 1] show ?thesis by (simp add: rt_step_def)
    next
      case (2 rt')
      with assms ListResponse requestView_eqD(2) [OF 2(1)] refresh_asks [of "[]" rt'] show ?thesis
        by (simp add: rt_step_def setLazy_def)
    qed
  next
    case (EnsurePathLoaded path)
    with assms requestView_eqD(2) [OF ensurePathLoaded_view, of path rt] show ?thesis by (simp add: rt_step_def)
  next
    case (ListFailure path message)
    with assms requestView_eqD(2) [OF listFailure_view, of path message rt] show ?thesis by (simp add: rt_step_def)
  next
    case (LazyContinue path)
    with assms requestView_eqD(2) [OF lazyContinue_view, of path rt] show ?thesis by (simp add: rt_step_def)
  qed (use assms in \<open>auto simp: rt_step_def rt_batchResponse_def rt_batchFailure_def
      pumpLoop_def rt_dispose_def Let_def split: option.splits if_splits\<close>)
  then show ?thesis by (auto simp: startBatch_def Let_def)
qed

lemma lw_inv_same:
  assumes "lw_inv w" "lw_runtimes w i = Some rt" "holdsLease rt' \<longleftrightarrow> holdsLease rt"
    and "rt_pump rt' = PumpRpc \<Longrightarrow> hd (lw_queue w) = i"
  shows "lw_inv (w\<lparr>lw_runtimes := (lw_runtimes w)(i \<mapsto> rt')\<rparr>)"
  using assms by (auto simp: lw_inv_def)

lemma lw_inv_release:
  assumes "lw_inv w" "lw_runtimes w i = Some rt" "holdsLease rt" "hd (lw_queue w) = i" "rt_pump rt' = PumpLoop"
  shows "lw_inv (w\<lparr>lw_runtimes := (lw_runtimes w)(i \<mapsto> rt'), lw_queue := tl (lw_queue w)\<rparr>)"
proof -
  have "i \<in> set (lw_queue w)" using assms(1-3) by (auto simp: lw_inv_def)
  with assms(4) obtain q where q: "lw_queue w = i # q" by (cases "lw_queue w") auto
  have "rt_pump a \<noteq> PumpRpc" if "lw_runtimes w j = Some a" "j \<noteq> i" for j a
    using assms(1) q that by (auto simp: lw_inv_def)
  moreover have "i \<notin> set q" "distinct q" using assms(1) q by (auto simp: lw_inv_def)
  moreover have "j \<in> set q \<longleftrightarrow> (\<exists>a. lw_runtimes w j = Some a \<and> holdsLease a)" if "j \<noteq> i" for j
    using assms(1) q that unfolding lw_inv_def by (metis set_ConsD list.set_intros(2))
  ultimately show ?thesis using assms(5) q by (auto simp: lw_inv_def holdsLease_def)
qed

lemma lw_inv_acquire:
  assumes "lw_inv w" "lw_runtimes w i = Some rt" "\<not> holdsLease rt" "holdsLease rt'"
    and "rt_pump rt' = PumpRpc \<Longrightarrow> lw_queue w = []"
  shows "lw_inv (w\<lparr>lw_runtimes := (lw_runtimes w)(i \<mapsto> rt'), lw_queue := lw_queue w @ [i]\<rparr>)"
proof -
  have "i \<notin> set (lw_queue w)" using assms(1-3) by (auto simp: lw_inv_def)
  moreover have "lw_queue w \<noteq> []" if "lw_runtimes w j = Some a" "rt_pump a = PumpRpc" for j a
    using assms(1) that unfolding lw_inv_def by (metis empty_iff empty_set holdsLease_def insertCI)
  ultimately show ?thesis using assms by (auto simp: lw_inv_def hd_append)
qed

lemma lw_inv_step:
  assumes "lw_inv w"
  shows "lw_inv (lw_step lc i ev w)"
proof (cases "lw_runtimes w i")
  case None
  with assms show ?thesis by (simp add: lw_step_def)
next
  case (Some rt)
  let ?rt = "rt_step lc ev rt"
  have hd_rpc: "rt_pump rt = PumpRpc \<Longrightarrow> hd (lw_queue w) = i" using assms Some by (simp add: lw_inv_def)
  show ?thesis
  proof (cases "ev = LeaseGranted \<and> \<not> (lw_queue w \<noteq> [] \<and> hd (lw_queue w) = i)")
    case True
    with assms Some show ?thesis by (auto simp: lw_step_def)
  next
    case granted: False
    then have step: "lw_step lc i ev w = withOrdinaryLease lc i rt ?rt w" using Some by (auto simp: lw_step_def)
    show ?thesis
    proof (cases "rt_pump ?rt = PumpLease \<and> rt_pump rt \<noteq> PumpLease")
      case True
      then have "\<not> holdsLease rt" using pump_moves [of lc ev rt] by (auto simp: holdsLease_def)
      moreover have "rt_pump (startBatch lc ?rt) = PumpRpc" using True lease_asked by blast
      ultimately have "lw_inv (w\<lparr>lw_runtimes := (lw_runtimes w)(i \<mapsto> (if lw_queue w = [] then startBatch lc ?rt else ?rt)),
          lw_queue := lw_queue w @ [i]\<rparr>)"
        using True by (intro lw_inv_acquire [OF assms Some]) (auto simp: holdsLease_def split: if_splits)
      with True show ?thesis unfolding step withOrdinaryLease_def by simp
    next
      case no_ask: False
      consider (release) "holdsLease rt" "rt_pump ?rt = PumpLoop"
        | (keep) "holdsLease ?rt \<longleftrightarrow> holdsLease rt" "\<not> (holdsLease rt \<and> rt_pump ?rt = PumpLoop)"
        using pump_moves [of lc ev rt] no_ask by (auto simp: holdsLease_def)
      then show ?thesis
      proof cases
        case release
        then have "hd (lw_queue w) = i" using pump_moves [of lc ev rt] granted hd_rpc by (auto simp: holdsLease_def)
        with release lw_inv_release [OF assms Some] no_ask show ?thesis
          unfolding step withOrdinaryLease_def by (simp add: holdsLease_def)
      next
        case keep
        have "hd (lw_queue w) = i" if "rt_pump ?rt = PumpRpc"
          using that pump_moves [of lc ev rt] granted hd_rpc by auto
        then have inv: "lw_inv (w\<lparr>lw_runtimes := (lw_runtimes w)(i \<mapsto> ?rt)\<rparr>)" by (rule lw_inv_same [OF assms Some keep(1)])
        have "lw_step lc i ev w = w\<lparr>lw_runtimes := (lw_runtimes w)(i \<mapsto> ?rt)\<rparr>"
          using no_ask keep(2) unfolding step withOrdinaryLease_def by (auto simp: holdsLease_def)
        then show ?thesis using inv by simp
      qed
    qed
  qed
qed

lemma lw_reachable_inv: "lw_reachable lc w \<Longrightarrow> lw_inv w"
proof (induction rule: lw_reachable.induct)
  case (create w i snapshot expandedPaths)
  have "\<not> holdsLease (newRuntime snapshot expandedPaths)" "rt_pump (newRuntime snapshot expandedPaths) \<noteq> PumpRpc"
    by (simp_all add: newRuntime_def Let_def holdsLease_def)
  with create.IH show ?case by (auto simp: lw_create_def lw_inv_def)
qed (simp_all add: lw_inv_step, simp add: lw_inv_def)

text \<open>However lifecycles of one workspace are created and disposed and requests interleave, at
  most one listing request to the daemon is on its way, and every pump that waits for the lease is
  in the queue behind a pump that holds it.\<close>

theorem one_listing_request_at_a_time:
  assumes "lw_reachable lc w"
  shows "(\<forall>i j a b. lw_runtimes w i = Some a \<and> lw_runtimes w j = Some b \<and> rt_pump a = PumpRpc \<and> rt_pump b = PumpRpc \<longrightarrow> i = j) \<and>
    (\<forall>i a. lw_runtimes w i = Some a \<and> rt_pump a = PumpLease \<longrightarrow>
       i \<in> set (lw_queue w) \<and> (\<exists>h. lw_runtimes w (hd (lw_queue w)) = Some h \<and> rt_pump h \<in> {PumpLease, PumpRpc}))"
proof -
  note inv = lw_reachable_inv [OF assms, unfolded lw_inv_def]
  have "i \<in> set (lw_queue w) \<and> (\<exists>h. lw_runtimes w (hd (lw_queue w)) = Some h \<and> rt_pump h \<in> {PumpLease, PumpRpc})"
    if "lw_runtimes w i = Some a" "rt_pump a = PumpLease" for i a
  proof -
    have i: "i \<in> set (lw_queue w)" using inv that by (auto simp: holdsLease_def)
    then have "hd (lw_queue w) \<in> set (lw_queue w)" by (cases "lw_queue w") auto
    with inv i show ?thesis unfolding holdsLease_def by blast
  qed
  with inv show ?thesis by blast
qed

theorem one_listing_request_at_a_time_witness:
  "let lc = (\<lambda>a b. 0);
       w = lw_step lc 1 (Refresh []) (lw_step lc 0 (Refresh []) (lw_create 1 None [] (lw_create 0 None []
             \<lparr>lw_runtimes = Map.empty, lw_queue = []\<rparr>)))
   in map_option rt_pump (lw_runtimes w 0) = Some PumpRpc \<and> map_option rt_pump (lw_runtimes w 1) = Some PumpLease \<and>
      (\<forall>i j a b. lw_runtimes w i = Some a \<and> lw_runtimes w j = Some b \<and> rt_pump a = PumpRpc \<and> rt_pump b = PumpRpc \<longrightarrow> i = j)"
proof -
  let ?lc = "\<lambda>a b :: string. 0 :: int"
  let ?w = "lw_step ?lc 1 (Refresh []) (lw_step ?lc 0 (Refresh []) (lw_create 1 None [] (lw_create 0 None []
             \<lparr>lw_runtimes = Map.empty, lw_queue = []\<rparr>)))"
  have "lw_reachable ?lc ?w" by (intro lw_reachable.intros)
  from one_listing_request_at_a_time [OF this]
  have "\<forall>i j a b. lw_runtimes ?w i = Some a \<and> lw_runtimes ?w j = Some b \<and> rt_pump a = PumpRpc \<and> rt_pump b = PumpRpc \<longrightarrow> i = j"
    by (rule conjunct1)
  moreover have "map_option rt_pump (lw_runtimes ?w 0) = Some PumpRpc \<and> map_option rt_pump (lw_runtimes ?w 1) = Some PumpLease"
    by (simp add: lw_step_def lw_create_def withOrdinaryLease_def newRuntime_def rt_step_def rt_refresh_def isRunning_def
        pumpLoop_def startBatch_def mergePending_def Let_def targetsPaths_def)
  ultimately show ?thesis unfolding Let_def by blast
qed

end
