(* ===== verification/Organizations.thy ===== *)
theory Organizations
  imports Scheduled_Jobs
begin

text \<open>
  Organizations of the API service: users and their accounts (\<open>services/user-service.ts\<close>), organizations
  and their members (\<open>services/organization-service.ts\<close>) and invitations
  (\<open>services/organization-invite-service.ts\<close>). As for scheduled jobs, what an operation reads before its first
  write comes from a state \<open>seen\<close> that may be out of date. Unique indexes and foreign keys of the
  schema are checked where rows are inserted; a violation aborts the transaction. The clock, new identifiers and
  tokens are arguments; mails are not part of the state.
\<close>

section \<open>Rows\<close>

record UserRow =
  user_id :: string
  user_email :: string
  user_name :: "string option"
  user_avatarUrl :: "string option"

record OAuthAccount =
  oa_userId :: string
  oa_provider :: string
  oa_providerUserId :: string

record OrganizationRow =
  og_id :: string
  og_name :: string
  og_createdAt :: int

record OrganizationInvitation =
  inv_id :: string
  inv_organizationId :: string
  inv_email :: string
  inv_role :: string
  inv_invitedByUserId :: string
  inv_token :: string
  inv_expiresAt :: int
  inv_acceptedAt :: "int option"
  inv_createdAt :: int

record OrgDatabase =
  od_users :: "UserRow list"
  od_accounts :: "OAuthAccount list"
  od_organizations :: "OrganizationRow list"
  od_members :: "MemberRow list"
  od_invites :: "OrganizationInvitation list"

datatype OrgError =
    OrganizationNotFoundError string
  | OrganizationManageMembersPermissionRequiredError
  | OrganizationMemberAlreadyExistsError string
  | OrganizationInviteAlreadyPendingError string
  | OrganizationInviteNotFoundError
  | InvalidOrganizationMemberRoleError string
  | OrganizationMemberNotFoundError string
  | OrganizationOwnerRemovalNotAllowedError
  | OrganizationLastOwnerLeaveError
  | OrganizationOwnerRequiredError
  | InvalidOrganizationMembersError "string list"
  | OrgMembershipRequiredError
  | OrgConstraintError
  | FailedToResolveUserError
  | FailedToLinkAccountError

type_synonym 'a OrgResult = "(OrgError + 'a) \<times> OrgDatabase"

section \<open>Reads\<close>

definition organizationIn :: "OrgDatabase \<Rightarrow> string \<Rightarrow> bool" where
  "organizationIn db organizationId \<longleftrightarrow> list_ex (\<lambda>g. og_id g = organizationId) (od_organizations db)"

definition userIn :: "OrgDatabase \<Rightarrow> string \<Rightarrow> bool" where
  "userIn db userId \<longleftrightarrow> list_ex (\<lambda>u. user_id u = userId) (od_users db)"

definition assertOrganizationExists :: "OrgDatabase \<Rightarrow> string \<Rightarrow> OrgError + unit" where
  "assertOrganizationExists db organizationId =
     (if organizationIn db organizationId then Inr () else Inl (OrganizationNotFoundError organizationId))"

text \<open>The role in the row of a member, whatever it says.\<close>

definition isMember :: "string \<Rightarrow> string \<Rightarrow> MemberRow \<Rightarrow> bool" where
  "isMember organizationId userId m \<longleftrightarrow> member_organizationId m = organizationId \<and> member_userId m = userId"

definition rowRole :: "OrgDatabase \<Rightarrow> string \<Rightarrow> string \<Rightarrow> string option" where
  "rowRole db organizationId userId = map_option member_role (List.find (isMember organizationId userId) (od_members db))"

definition canManageMembers :: "string option \<Rightarrow> bool" where
  "canManageMembers role \<longleftrightarrow> role \<in> {Some ''owner'', Some ''admin''}"

definition assertCanManageMembers :: "OrgDatabase \<Rightarrow> string \<Rightarrow> string \<Rightarrow> OrgError + unit" where
  "assertCanManageMembers db organizationId actorUserId =
     (if canManageMembers (rowRole db organizationId actorUserId) then Inr ()
      else Inl OrganizationManageMembersPermissionRequiredError)"

definition getByEmail :: "OrgDatabase \<Rightarrow> string \<Rightarrow> UserRow option" where
  "getByEmail db email = List.find (\<lambda>u. user_email u = email) (od_users db)"

section \<open>Invitations\<close>

definition INVITE_TTL_DAYS :: int where
  "INVITE_TTL_DAYS = 7"

record CreateInviteInput =
  ci_organizationId :: string
  ci_actorUserId :: string
  ci_email :: string
  ci_role :: string

definition memberWithEmail :: "OrgDatabase \<Rightarrow> string \<Rightarrow> string \<Rightarrow> bool" where
  "memberWithEmail db organizationId email \<longleftrightarrow>
     list_ex (\<lambda>u. user_email u = email \<and> list_ex (isMember organizationId (user_id u)) (od_members db)) (od_users db)"

definition inviteFor :: "string \<Rightarrow> string \<Rightarrow> OrganizationInvitation \<Rightarrow> bool" where
  "inviteFor organizationId email i \<longleftrightarrow> inv_organizationId i = organizationId \<and> inv_email i = email"

definition newInvite :: "int \<Rightarrow> string \<Rightarrow> string \<Rightarrow> CreateInviteInput \<Rightarrow> OrganizationInvitation" where
  "newInvite now inviteId token input =
     \<lparr>inv_id = inviteId, inv_organizationId = ci_organizationId input, inv_email = ci_email input, inv_role = ci_role input,
      inv_invitedByUserId = ci_actorUserId input, inv_token = token, inv_expiresAt = now + INVITE_TTL_DAYS * 24 * 60 * 60 * 1000,
      inv_acceptedAt = None, inv_createdAt = now\<rparr>"

definition inviteConflicts :: "OrganizationInvitation \<Rightarrow> OrganizationInvitation list \<Rightarrow> bool" where
  "inviteConflicts i rows \<longleftrightarrow>
     list_ex (\<lambda>j. inv_id j = inv_id i \<or> inv_token j = inv_token i \<or> inviteFor (inv_organizationId i) (inv_email i) j) rows"

definition createInvite ::
  "int \<Rightarrow> string \<Rightarrow> string \<Rightarrow> CreateInviteInput \<Rightarrow> OrgDatabase \<Rightarrow> OrgDatabase \<Rightarrow> OrganizationInvitation OrgResult" where
  "createInvite now inviteId token input seen db =
     ensure (assertOrganizationExists seen (ci_organizationId input)) db (\<lambda>_.
     ensure (assertCanManageMembers seen (ci_organizationId input) (ci_actorUserId input)) db (\<lambda>_.
     if memberWithEmail seen (ci_organizationId input) (ci_email input)
     then (Inl (OrganizationMemberAlreadyExistsError (ci_email input)), db)
     else if list_ex (\<lambda>i. inviteFor (ci_organizationId input) (ci_email input) i \<and> inv_acceptedAt i = None) (od_invites seen)
     then (Inl (OrganizationInviteAlreadyPendingError (ci_email input)), db)
     else let invite = newInvite now inviteId token input in
       if inviteConflicts invite (od_invites db) \<or> \<not> organizationIn db (ci_organizationId input) \<or> \<not> userIn db (ci_actorUserId input)
       then (Inl OrgConstraintError, db)
       else (Inr invite, db\<lparr>od_invites := od_invites db @ [invite]\<rparr>)))"

definition listPendingInvites :: "int \<Rightarrow> string \<Rightarrow> OrgDatabase \<Rightarrow> OrganizationInvitation list" where
  "listPendingInvites now organizationId db =
     filter (\<lambda>i. inv_expiresAt i > now)
       (filter (\<lambda>i. inv_organizationId i = organizationId \<and> inv_acceptedAt i = None) (od_invites db))"

definition cancelInvite :: "string \<Rightarrow> string \<Rightarrow> string \<Rightarrow> OrgDatabase \<Rightarrow> OrgDatabase \<Rightarrow> unit OrgResult" where
  "cancelInvite organizationId inviteId actorUserId seen db =
     ensure (assertCanManageMembers seen organizationId actorUserId) db (\<lambda>_.
     if \<not> list_ex (\<lambda>i. inv_id i = inviteId \<and> inv_organizationId i = organizationId) (od_invites seen)
     then (Inl OrganizationInviteNotFoundError, db)
     else (Inr (), db\<lparr>od_invites := filter (\<lambda>i. inv_id i \<noteq> inviteId) (od_invites db)\<rparr>))"

text \<open>Joining by invitation: a membership that exists already is left as it is.\<close>

definition insertMember :: "MemberRow \<Rightarrow> MemberRow list \<Rightarrow> MemberRow list" where
  "insertMember m rows =
     (if list_ex (isMember (member_organizationId m) (member_userId m)) rows then rows else rows @ [m])"

definition acceptInvite :: "int \<Rightarrow> string \<Rightarrow> OrgDatabase \<Rightarrow> OrganizationInvitation \<Rightarrow> OrgDatabase" where
  "acceptInvite now userId db invite =
     db\<lparr>od_members := insertMember \<lparr>member_organizationId = inv_organizationId invite, member_userId = userId,
            member_role = inv_role invite\<rparr> (od_members db),
        od_invites := updateWhere (\<lambda>i. inv_id i = inv_id invite) (\<lambda>i. i\<lparr>inv_acceptedAt := Some now\<rparr>) (od_invites db)\<rparr>"

definition acceptableInvite :: "int \<Rightarrow> string \<Rightarrow> OrganizationInvitation \<Rightarrow> bool" where
  "acceptableInvite now email i \<longleftrightarrow> inv_email i = email \<and> inv_acceptedAt i = None \<and> inv_expiresAt i > now"

definition acceptPendingInvitesForEmail :: "int \<Rightarrow> string \<Rightarrow> string \<Rightarrow> OrgDatabase \<Rightarrow> OrgDatabase" where
  "acceptPendingInvitesForEmail now userId email db =
     foldl (acceptInvite now userId) db (filter (acceptableInvite now email) (od_invites db))"

section \<open>Signing in\<close>

record OAuthProfile =
  prof_provider :: string
  prof_providerUserId :: string
  prof_email :: string
  prof_name :: "string option"
  prof_avatarUrl :: "string option"

definition accountOf :: "OAuthProfile \<Rightarrow> OAuthAccount \<Rightarrow> bool" where
  "accountOf profile a \<longleftrightarrow> oa_provider a = prof_provider profile \<and> oa_providerUserId a = prof_providerUserId profile"

definition findAccount :: "OrgDatabase \<Rightarrow> OAuthProfile \<Rightarrow> string option" where
  "findAccount db profile = map_option oa_userId (List.find (accountOf profile) (od_accounts db))"

text \<open>The user of a new account: a new row, or the row that has the address already.\<close>

definition insertUser :: "string \<Rightarrow> OAuthProfile \<Rightarrow> OrgDatabase \<Rightarrow> string option \<times> OrgDatabase" where
  "insertUser newUserId profile db =
     (if list_ex (\<lambda>u. user_id u = newUserId \<or> user_email u = prof_email profile) (od_users db)
      then (map_option user_id (getByEmail db (prof_email profile)), db)
      else (Some newUserId,
            db\<lparr>od_users := od_users db @ [\<lparr>user_id = newUserId, user_email = prof_email profile,
                  user_name = prof_name profile, user_avatarUrl = prof_avatarUrl profile\<rparr>]\<rparr>))"

definition insertAccount :: "OAuthAccount \<Rightarrow> OAuthAccount list \<Rightarrow> OAuthAccount list" where
  "insertAccount a rows =
     (if list_ex (\<lambda>b. oa_provider b = oa_provider a \<and> (oa_providerUserId b = oa_providerUserId a \<or> oa_userId b = oa_userId a)) rows
      then rows else rows @ [a])"

definition linkAccount :: "int \<Rightarrow> OAuthProfile \<Rightarrow> string \<Rightarrow> OrgDatabase \<Rightarrow> OrgError + (string \<times> OrgDatabase)" where
  "linkAccount now profile userId db =
     (let db1 = db\<lparr>od_accounts := insertAccount \<lparr>oa_userId = userId, oa_provider = prof_provider profile,
                    oa_providerUserId = prof_providerUserId profile\<rparr> (od_accounts db)\<rparr>
      in if \<not> userIn db userId then Inl OrgConstraintError
         else case findAccount db1 profile of
           None \<Rightarrow> Inl FailedToLinkAccountError
         | Some linkedUserId \<Rightarrow>
             Inr (linkedUserId, acceptPendingInvitesForEmail now linkedUserId (prof_email profile)
               (db1\<lparr>od_users := updateWhere (\<lambda>u. user_id u = linkedUserId)
                   (\<lambda>u. u\<lparr>user_name := prof_name profile, user_avatarUrl := prof_avatarUrl profile\<rparr>) (od_users db1)\<rparr>)))"

definition resolveUserIdForOAuthProfile ::
  "int \<Rightarrow> string \<Rightarrow> OAuthProfile \<Rightarrow> OrgDatabase \<Rightarrow> OrgDatabase \<Rightarrow> string OrgResult" where
  "resolveUserIdForOAuthProfile now newUserId profile seen db =
     (let (userId, db1) = (case findAccount seen profile of
             Some u \<Rightarrow> if u = [] then insertUser newUserId profile db else (Some u, db)
           | None \<Rightarrow> insertUser newUserId profile db)
      in case truthy_string userId of
           None \<Rightarrow> (Inl FailedToResolveUserError, db)
         | Some u \<Rightarrow>
             (case linkAccount now profile u db1 of
                Inl e \<Rightarrow> (Inl e, db)
              | Inr (linkedUserId, db2) \<Rightarrow> (Inr linkedUserId, db2)))"

section \<open>Members\<close>

definition listOrganizationMembers :: "string \<Rightarrow> string \<Rightarrow> OrgDatabase \<Rightarrow> OrgError + (MemberRow \<times> UserRow) list" where
  "listOrganizationMembers organizationId actorUserId db =
     (case getMembershipRole (od_members db) organizationId actorUserId of
        None \<Rightarrow> Inl OrgMembershipRequiredError
      | Some _ \<Rightarrow> Inr (concat (map (\<lambda>m. map (Pair m) (filter (\<lambda>u. user_id u = member_userId m) (od_users db)))
          (filter (\<lambda>m. member_organizationId m = organizationId) (od_members db)))))"

definition getOrganizationMemberUserIds :: "string \<Rightarrow> OrgDatabase \<Rightarrow> string list" where
  "getOrganizationMemberUserIds organizationId db =
     rev (remdups (rev (map member_userId (filter (\<lambda>m. member_organizationId m = organizationId) (od_members db)))))"

datatype AddMemberResult = MemberAdded MemberRow | MemberInvited OrganizationInvitation

definition addOrganizationMember ::
  "int \<Rightarrow> string \<Rightarrow> string \<Rightarrow> CreateInviteInput \<Rightarrow> OrgDatabase \<Rightarrow> OrgDatabase \<Rightarrow> AddMemberResult OrgResult" where
  "addOrganizationMember now inviteId token input seen db =
     ensure (assertOrganizationExists seen (ci_organizationId input)) db (\<lambda>_.
     case getByEmail seen (ci_email input) of
       None \<Rightarrow>
         (case createInvite now inviteId token input seen db of
            (Inl e, db') \<Rightarrow> (Inl e, db')
          | (Inr invite, db') \<Rightarrow> (Inr (MemberInvited invite), db'))
     | Some targetUser \<Rightarrow>
         ensure (assertCanManageMembers seen (ci_organizationId input) (ci_actorUserId input)) db (\<lambda>_.
         if ci_role input \<noteq> ''member'' \<and> ci_role input \<noteq> ''admin'' then (Inl (InvalidOrganizationMemberRoleError (ci_role input)), db)
         else if list_ex (isMember (ci_organizationId input) (user_id targetUser)) (od_members seen)
         then (Inl (OrganizationMemberAlreadyExistsError (user_id targetUser)), db)
         else let m = \<lparr>member_organizationId = ci_organizationId input, member_userId = user_id targetUser,
                       member_role = ci_role input\<rparr>
              in if list_ex (isMember (ci_organizationId input) (user_id targetUser)) (od_members db) \<or>
                    \<not> organizationIn db (ci_organizationId input) \<or> \<not> userIn db (user_id targetUser)
                 then (Inl OrgConstraintError, db)
                 else (Inr (MemberAdded m), db\<lparr>od_members := od_members db @ [m]\<rparr>)))"

definition deleteMember :: "string \<Rightarrow> string \<Rightarrow> OrgDatabase \<Rightarrow> OrgDatabase" where
  "deleteMember organizationId userId db =
     db\<lparr>od_members := filter (\<lambda>m. \<not> isMember organizationId userId m) (od_members db)\<rparr>"

definition removeOrganizationMember :: "string \<Rightarrow> string \<Rightarrow> string \<Rightarrow> OrgDatabase \<Rightarrow> OrgDatabase \<Rightarrow> unit OrgResult" where
  "removeOrganizationMember organizationId actorUserId memberUserId seen db =
     ensure (assertOrganizationExists seen organizationId) db (\<lambda>_.
     ensure (assertCanManageMembers seen organizationId actorUserId) db (\<lambda>_.
     case truthy_string (rowRole seen organizationId memberUserId) of
       None \<Rightarrow> (Inl (OrganizationMemberNotFoundError memberUserId), db)
     | Some targetRole \<Rightarrow>
         if targetRole = ''owner'' then (Inl OrganizationOwnerRemovalNotAllowedError, db)
         else (Inr (), deleteMember organizationId memberUserId db)))"

definition leaveOrganization :: "string \<Rightarrow> string \<Rightarrow> OrgDatabase \<Rightarrow> OrgDatabase \<Rightarrow> unit OrgResult" where
  "leaveOrganization organizationId actorUserId seen db =
     ensure (assertOrganizationExists seen organizationId) db (\<lambda>_.
     case truthy_string (rowRole seen organizationId actorUserId) of
       None \<Rightarrow> (Inl (OrganizationMemberNotFoundError actorUserId), db)
     | Some actorRole \<Rightarrow>
         if actorRole = ''owner'' \<and>
            list_ex (\<lambda>m. member_organizationId m = organizationId \<and> member_userId m \<noteq> actorUserId) (od_members seen)
         then (Inl OrganizationLastOwnerLeaveError, db)
         else (Inr (), deleteMember organizationId actorUserId db))"

text \<open>Members and invitations of a deleted organization go with it.\<close>

definition deleteOrganization :: "string \<Rightarrow> string \<Rightarrow> OrgDatabase \<Rightarrow> OrgDatabase \<Rightarrow> unit OrgResult" where
  "deleteOrganization organizationId actorUserId seen db =
     ensure (assertOrganizationExists seen organizationId) db (\<lambda>_.
     if rowRole seen organizationId actorUserId \<noteq> Some ''owner'' then (Inl OrganizationOwnerRequiredError, db)
     else (Inr (), db\<lparr>od_organizations := filter (\<lambda>g. og_id g \<noteq> organizationId) (od_organizations db),
                      od_members := filter (\<lambda>m. member_organizationId m \<noteq> organizationId) (od_members db),
                      od_invites := filter (\<lambda>i. inv_organizationId i \<noteq> organizationId) (od_invites db)\<rparr>))"

definition createOrganization ::
  "int \<Rightarrow> string \<Rightarrow> string \<Rightarrow> string \<Rightarrow> string list \<Rightarrow> OrgDatabase \<Rightarrow> OrgDatabase \<Rightarrow> string OrgResult" where
  "createOrganization now newId name actorUserId memberUserIds seen db =
     (let normalizedUserIds = rev (remdups (rev (actorUserId # memberUserIds)));
          missing = filter (\<lambda>u. \<not> userIn seen u) normalizedUserIds;
          rows = map (\<lambda>u. \<lparr>member_organizationId = newId, member_userId = u,
                     member_role = if u = actorUserId then ''owner'' else ''member''\<rparr>) normalizedUserIds
      in if missing \<noteq> [] then (Inl (InvalidOrganizationMembersError missing), db)
         else if organizationIn db newId \<or> list_ex (\<lambda>u. \<not> userIn db u) normalizedUserIds then (Inl OrgConstraintError, db)
         else (Inr newId, db\<lparr>od_organizations := od_organizations db @ [\<lparr>og_id = newId, og_name = name, og_createdAt = now\<rparr>],
                             od_members := od_members db @ rows\<rparr>))"

definition getOrganizationsForUser :: "string \<Rightarrow> OrgDatabase \<Rightarrow> (OrganizationRow \<times> MemberRow list) list" where
  "getOrganizationsForUser userId db =
     (let mine = map member_organizationId (filter (\<lambda>m. member_userId m = userId) (od_members db));
          rows = concat (map (\<lambda>m. map (\<lambda>g. (g, m)) (filter (\<lambda>g. og_id g = member_organizationId m \<and> og_id g \<in> set mine \<and>
                   userIn db (member_userId m)) (od_organizations db))) (od_members db));
          orgs = rev (remdups (rev (map fst rows)))
      in map (\<lambda>g. (g, map snd (filter (\<lambda>r. fst r = g) rows))) orgs)"

end
