(* ===== verification/Organization_Proofs.thy ===== *)
theory Organization_Proofs
  imports Organizations
begin

text \<open>
  The invariant of the tables of users, accounts, organizations, members and invitations, and its
  preservation by every operation, whatever state the operation read before it wrote.
\<close>

section \<open>Steps\<close>

text \<open>Roles in requests are validated: only \<open>member\<close> and \<open>admin\<close> reach the services.\<close>

inductive org_step :: "OrgDatabase \<Rightarrow> OrgDatabase \<Rightarrow> OrgDatabase \<Rightarrow> bool" where
  invite: "ci_role input \<in> {''member'', ''admin''} \<Longrightarrow> org_step seen db (snd (createInvite now i token input seen db))"
| cancel: "org_step seen db (snd (cancelInvite organizationId inviteId actorUserId seen db))"
| resolve: "org_step seen db (snd (resolveUserIdForOAuthProfile now newUserId profile seen db))"
| add: "ci_role input \<in> {''member'', ''admin''} \<Longrightarrow> org_step seen db (snd (addOrganizationMember now i token input seen db))"
| remove: "org_step seen db (snd (removeOrganizationMember organizationId actorUserId memberUserId seen db))"
| leave: "org_step seen db (snd (leaveOrganization organizationId actorUserId seen db))"
| delete: "org_step seen db (snd (deleteOrganization organizationId actorUserId seen db))"
| create: "org_step seen db (snd (createOrganization now newId name actorUserId memberUserIds seen db))"

definition org_steps :: "OrgDatabase \<Rightarrow> OrgDatabase \<Rightarrow> bool" where
  "org_steps = (\<lambda>db db'. \<exists>seen. org_step seen db db')\<^sup>*\<^sup>*"

lemma org_steps_refl: "org_steps db db"
  by (simp add: org_steps_def)

lemma org_steps_step: "org_steps db d \<Longrightarrow> org_step seen d d' \<Longrightarrow> org_steps db d'"
  unfolding org_steps_def by (rule rtranclp.rtrancl_into_rtrancl) auto

section \<open>The invariant\<close>

definition memberKey :: "MemberRow \<Rightarrow> string \<times> string" where
  "memberKey m = (member_organizationId m, member_userId m)"

definition ownersOf :: "MemberRow list \<Rightarrow> MemberRow list" where
  "ownersOf ms = filter (\<lambda>m. member_role m = ''owner'') ms"

definition membersOk :: "string set \<Rightarrow> MemberRow list \<Rightarrow> bool" where
  "membersOk orgs ms \<longleftrightarrow>
     distinct (map memberKey ms) \<and> distinct (map member_organizationId (ownersOf ms)) \<and>
     list_all (\<lambda>m. member_organizationId m \<in> orgs \<and> member_role m \<in> {''owner'', ''admin'', ''member''}) ms"

definition inviteKey :: "OrganizationInvitation \<Rightarrow> string \<times> string" where
  "inviteKey i = (inv_organizationId i, inv_email i)"

definition invitesOk :: "string set \<Rightarrow> OrganizationInvitation list \<Rightarrow> bool" where
  "invitesOk orgs is \<longleftrightarrow>
     distinct (map inv_id is) \<and> distinct (map inviteKey is) \<and>
     list_all (\<lambda>i. inv_organizationId i \<in> orgs \<and> inv_role i \<in> {''member'', ''admin''}) is"

definition usersOk :: "UserRow list \<Rightarrow> bool" where
  "usersOk us \<longleftrightarrow> distinct (map user_id us) \<and> distinct (map user_email us)"

definition accountsOk :: "OAuthAccount list \<Rightarrow> bool" where
  "accountsOk as \<longleftrightarrow> distinct (map (\<lambda>a. (oa_provider a, oa_providerUserId a)) as) \<and>
     distinct (map (\<lambda>a. (oa_userId a, oa_provider a)) as)"

definition orgIds :: "OrgDatabase \<Rightarrow> string set" where
  "orgIds db = og_id ` set (od_organizations db)"

definition orgTyped :: "OrgDatabase \<Rightarrow> bool" where
  "orgTyped db \<longleftrightarrow>
     distinct (map og_id (od_organizations db)) \<and> membersOk (orgIds db) (od_members db) \<and>
     invitesOk (orgIds db) (od_invites db) \<and> usersOk (od_users db) \<and> accountsOk (od_accounts db)"

section \<open>Tables\<close>

lemma isMember_key: "isMember org u m \<longleftrightarrow> memberKey m = (org, u)"
  by (simp add: isMember_def memberKey_def)

lemma ownersOf_filter: "ownersOf (filter P ms) = filter P (ownersOf ms)"
  by (simp add: ownersOf_def conj_commute)

lemma membersOk_filter:
  assumes "membersOk orgs ms" "\<And>m. m \<in> set ms \<Longrightarrow> P m \<Longrightarrow> member_organizationId m \<in> orgs'"
  shows "membersOk orgs' (filter P ms)"
  using assms unfolding membersOk_def ownersOf_filter by (auto simp: list_all_iff intro!: distinct_map_filter)

lemma membersOk_insert:
  assumes "membersOk orgs ms" "memberKey m \<notin> memberKey ` set ms" "member_organizationId m \<in> orgs"
    "member_role m \<in> {''member'', ''admin''}"
  shows "membersOk orgs (ms @ [m])"
  using assms by (auto simp: membersOk_def ownersOf_def)

lemma membersOk_insertMember:
  assumes "membersOk orgs ms" "member_organizationId m \<in> orgs" "member_role m \<in> {''member'', ''admin''}"
  shows "membersOk orgs (insertMember m ms)"
proof (cases "list_ex (isMember (member_organizationId m) (member_userId m)) ms")
  case False
  then have "memberKey m \<notin> memberKey ` set ms" by (auto simp: list_ex_iff isMember_key memberKey_def)
  with False show ?thesis using membersOk_insert [OF assms(1) _ assms(2,3)] by (simp add: insertMember_def)
qed (use assms in \<open>simp add: insertMember_def\<close>)

lemma invitesOk_filter:
  assumes "invitesOk orgs is" "\<And>i. i \<in> set is \<Longrightarrow> P i \<Longrightarrow> inv_organizationId i \<in> orgs'"
  shows "invitesOk orgs' (filter P is)"
  using assms by (auto simp: invitesOk_def list_all_iff intro: distinct_map_filter)

lemma accept_keys:
  "map inv_id (updateWhere P (\<lambda>i. i\<lparr>inv_acceptedAt := t\<rparr>) is) = map inv_id is"
  "map inviteKey (updateWhere P (\<lambda>i. i\<lparr>inv_acceptedAt := t\<rparr>) is) = map inviteKey is"
  by (simp_all add: updateWhere_def inviteKey_def)

lemma invitesOk_accept:
  assumes "invitesOk orgs is"
  shows "invitesOk orgs (updateWhere P (\<lambda>i. i\<lparr>inv_acceptedAt := t\<rparr>) is)"
proof -
  have "list_all (\<lambda>i. inv_organizationId i \<in> orgs \<and> inv_role i \<in> {''member'', ''admin''})
      (updateWhere P (\<lambda>i. i\<lparr>inv_acceptedAt := t\<rparr>) is)"
    using assms unfolding invitesOk_def by (induction "is") (auto simp: updateWhere_def)
  then show ?thesis using assms by (simp add: invitesOk_def accept_keys)
qed

lemma orgIds_iff: "organizationIn db org \<longleftrightarrow> org \<in> orgIds db"
  by (auto simp: organizationIn_def orgIds_def list_ex_iff)

lemma orgIds_same [simp]:
  "orgIds (db\<lparr>od_members := ms\<rparr>) = orgIds db" "orgIds (db\<lparr>od_invites := is\<rparr>) = orgIds db"
  "orgIds (db\<lparr>od_users := us\<rparr>) = orgIds db" "orgIds (db\<lparr>od_accounts := as\<rparr>) = orgIds db"
  by (simp_all add: orgIds_def)

lemma typed_members: "orgTyped db \<Longrightarrow> membersOk (orgIds db) ms \<Longrightarrow> orgTyped (db\<lparr>od_members := ms\<rparr>)"
  by (simp add: orgTyped_def)

lemma typed_invites: "orgTyped db \<Longrightarrow> invitesOk (orgIds db) is \<Longrightarrow> orgTyped (db\<lparr>od_invites := is\<rparr>)"
  by (simp add: orgTyped_def)

lemma ensure_typed:
  assumes "orgTyped db" "\<And>x. check = Inr x \<Longrightarrow> orgTyped (snd (continue x))"
  shows "orgTyped (snd (ensure check db continue))"
  using assms by (cases check) (simp_all add: ensure_def)

section \<open>Preservation\<close>

named_theorems org_typed \<open>every operation keeps the invariant\<close>

lemma newInvite_ok:
  assumes "orgTyped db" "\<not> inviteConflicts (newInvite now i token input) (od_invites db)" "organizationIn db (ci_organizationId input)"
    "ci_role input \<in> {''member'', ''admin''}"
  shows "orgTyped (db\<lparr>od_invites := od_invites db @ [newInvite now i token input]\<rparr>)"
proof (rule typed_invites [OF assms(1)])
  have "invitesOk (orgIds db) (od_invites db)" using assms(1) by (simp add: orgTyped_def)
  with assms(2-4) show "invitesOk (orgIds db) (od_invites db @ [newInvite now i token input])"
    by (auto simp: invitesOk_def inviteConflicts_def list_ex_iff newInvite_def inviteFor_def inviteKey_def orgIds_iff)
qed

lemma createInvite_typed [org_typed]:
  "orgTyped db \<Longrightarrow> ci_role input \<in> {''member'', ''admin''} \<Longrightarrow> orgTyped (snd (createInvite now i token input seen db))"
  unfolding createInvite_def Let_def by (intro ensure_typed) (simp_all add: newInvite_ok)

lemma cancelInvite_typed [org_typed]: "orgTyped db \<Longrightarrow> orgTyped (snd (cancelInvite org i a seen db))"
  unfolding cancelInvite_def
  by (intro ensure_typed) (auto intro!: typed_invites distinct_map_filter simp: orgTyped_def invitesOk_def list_all_iff)

lemma acceptInvite_typed:
  assumes "orgTyped db" "inv_organizationId i \<in> orgIds db" "inv_role i \<in> {''member'', ''admin''}"
  shows "orgTyped (acceptInvite now u db i)"
  using assms unfolding acceptInvite_def
  by (simp add: orgTyped_def membersOk_insertMember invitesOk_accept orgIds_def)

lemma acceptInvites_typed:
  assumes "orgTyped db" "\<forall>i \<in> set is. inv_organizationId i \<in> orgIds db \<and> inv_role i \<in> {''member'', ''admin''}"
  shows "orgTyped (foldl (acceptInvite now u) db is)"
  using assms
proof (induction "is" arbitrary: db)
  case (Cons i "is")
  have "orgIds (acceptInvite now u db i) = orgIds db" by (simp add: acceptInvite_def orgIds_def)
  with Cons.prems show ?case by (auto intro!: Cons.IH acceptInvite_typed)
qed simp

lemma acceptPending_typed: "orgTyped db \<Longrightarrow> orgTyped (acceptPendingInvitesForEmail now u email db)"
  unfolding acceptPendingInvitesForEmail_def
  by (rule acceptInvites_typed) (auto simp: orgTyped_def invitesOk_def list_all_iff)

lemma insertUser_typed: "orgTyped db \<Longrightarrow> orgTyped (snd (insertUser n p db))"
  by (auto simp: insertUser_def orgTyped_def usersOk_def list_ex_iff orgIds_def)

lemma insertAccount_ok: "accountsOk as \<Longrightarrow> accountsOk (insertAccount a as)"
  by (auto simp: insertAccount_def accountsOk_def list_ex_iff)

lemma usersOk_rename: "usersOk us \<Longrightarrow> usersOk (updateWhere P (\<lambda>u. u\<lparr>user_name := n, user_avatarUrl := a\<rparr>) us)"
proof -
  have "map user_id (updateWhere P (\<lambda>u. u\<lparr>user_name := n, user_avatarUrl := a\<rparr>) us) = map user_id us"
    "map user_email (updateWhere P (\<lambda>u. u\<lparr>user_name := n, user_avatarUrl := a\<rparr>) us) = map user_email us"
    by (simp_all add: updateWhere_def)
  then show "usersOk us \<Longrightarrow> usersOk (updateWhere P (\<lambda>u. u\<lparr>user_name := n, user_avatarUrl := a\<rparr>) us)"
    by (simp add: usersOk_def)
qed

lemma linkAccount_typed: "orgTyped db \<Longrightarrow> linkAccount now p u db = Inr (v, db') \<Longrightarrow> orgTyped db'"
  by (auto simp: linkAccount_def Let_def split: if_splits option.splits
      intro!: acceptPending_typed) (simp add: orgTyped_def insertAccount_ok usersOk_rename orgIds_def)

lemma resolve_typed [org_typed]:
  assumes "orgTyped db"
  shows "orgTyped (snd (resolveUserIdForOAuthProfile now n p seen db))"
proof -
  obtain u db1 where start: "(case findAccount seen p of
        Some u \<Rightarrow> if u = [] then insertUser n p db else (Some u, db) | None \<Rightarrow> insertUser n p db) = (u, db1)" by force
  have "orgTyped db1" using start insertUser_typed [OF assms, of n p] assms by (auto split: option.splits if_splits)
  then show ?thesis using assms linkAccount_typed unfolding resolveUserIdForOAuthProfile_def start
    by (auto split: option.split sum.split)
qed

lemma addMember_typed [org_typed]:
  assumes "orgTyped db" "ci_role input \<in> {''member'', ''admin''}"
  shows "orgTyped (snd (addOrganizationMember now i token input seen db))"
proof -
  have row: "orgTyped (db\<lparr>od_members := od_members db @ [m]\<rparr>)"
    if "\<not> list_ex (isMember (member_organizationId m) (member_userId m)) (od_members db)" "member_organizationId m \<in> orgIds db"
      "member_role m = ci_role input" for m
    using that assms by (intro typed_members membersOk_insert) (auto simp: orgTyped_def list_ex_iff isMember_key memberKey_def)
  show ?thesis unfolding addOrganizationMember_def Let_def
    using createInvite_typed [OF assms, of now i token seen] assms
    by (intro ensure_typed) (auto split: option.split prod.split sum.split simp: orgIds_iff intro!: ensure_typed row)
qed

lemma deleteMember_typed: "orgTyped db \<Longrightarrow> orgTyped (deleteMember org u db)"
  unfolding deleteMember_def
  by (intro typed_members membersOk_filter [of "orgIds db"]) (auto simp: orgTyped_def membersOk_def list_all_iff)

lemma remove_typed [org_typed]: "orgTyped db \<Longrightarrow> orgTyped (snd (removeOrganizationMember org a u seen db))"
  unfolding removeOrganizationMember_def by (intro ensure_typed) (auto simp: deleteMember_typed split: option.split)

lemma leave_typed [org_typed]: "orgTyped db \<Longrightarrow> orgTyped (snd (leaveOrganization org a seen db))"
  unfolding leaveOrganization_def by (intro ensure_typed) (auto simp: deleteMember_typed split: option.split)

lemma delete_typed [org_typed]: "orgTyped db \<Longrightarrow> orgTyped (snd (deleteOrganization org a seen db))"
proof -
  assume db: "orgTyped db"
  let ?orgs = "og_id ` {g \<in> set (od_organizations db). og_id g \<noteq> org}"
  have "membersOk ?orgs (filter (\<lambda>m. member_organizationId m \<noteq> org) (od_members db))"
    using db by (intro membersOk_filter [of "orgIds db"]) (auto simp: orgTyped_def membersOk_def list_all_iff orgIds_def)
  moreover have "invitesOk ?orgs (filter (\<lambda>i. inv_organizationId i \<noteq> org) (od_invites db))"
    using db by (intro invitesOk_filter [of "orgIds db"]) (auto simp: orgTyped_def invitesOk_def list_all_iff orgIds_def)
  ultimately show ?thesis using db unfolding deleteOrganization_def
    by (intro ensure_typed) (auto simp: orgTyped_def orgIds_def distinct_map_filter)
qed

text \<open>The rows of a new organization.\<close>

lemma filter_single: "distinct xs \<Longrightarrow> filter (\<lambda>u. u = a) xs = (if a \<in> set xs then [a] else [])"
  by (induction xs) (auto simp: filter_empty_conv)

lemma create_typed [org_typed]:
  assumes "orgTyped db"
  shows "orgTyped (snd (createOrganization now newId name actor us seen db))"
proof (cases "organizationIn db newId")
  case False
  let ?ids = "rev (remdups (rev (actor # us)))"
  let ?rows = "map (\<lambda>u. \<lparr>member_organizationId = newId, member_userId = u,
                     member_role = if u = actor then ''owner'' else ''member''\<rparr>) ?ids"
  have fresh: "newId \<notin> orgIds db" using False by (simp add: orgIds_iff)
  have ok: "membersOk (orgIds db) (od_members db)" "invitesOk (orgIds db) (od_invites db)" using assms by (auto simp: orgTyped_def)
  have "distinct ?ids" by simp
  then have keys: "distinct (map memberKey ?rows)" by (simp add: memberKey_def distinct_map inj_on_def)
  have owners: "ownersOf ?rows = map (\<lambda>u. \<lparr>member_organizationId = newId, member_userId = u, member_role = ''owner''\<rparr>) (filter (\<lambda>u. u = actor) ?ids)"
    by (induction ?ids) (auto simp: ownersOf_def filter_map o_def)
  have one: "distinct (map member_organizationId (ownersOf ?rows))"
    unfolding owners filter_single [OF \<open>distinct ?ids\<close>] by simp
  have "membersOk (insert newId (orgIds db)) (od_members db @ ?rows)"
    using ok(1) fresh keys one by (auto simp: membersOk_def list_all_iff memberKey_def ownersOf_def split: if_splits)
  moreover have "invitesOk (insert newId (orgIds db)) (od_invites db)" using ok(2) by (auto simp: invitesOk_def list_all_iff)
  ultimately show ?thesis using assms fresh unfolding createOrganization_def Let_def
    by (auto simp: orgTyped_def orgIds_def)
qed (use assms in \<open>simp add: createOrganization_def Let_def\<close>)

lemma org_step_typed: "org_step seen db db' \<Longrightarrow> orgTyped db \<Longrightarrow> orgTyped db'"
  by (induction rule: org_step.induct) (simp_all only: org_typed)

lemma org_steps_typed: "org_steps db db' \<Longrightarrow> orgTyped db \<Longrightarrow> orgTyped db'"
  unfolding org_steps_def by (induction rule: rtranclp_induct) (auto intro: org_step_typed)

end
