(* ===== verification/Organization_Properties.thy ===== *)
theory Organization_Properties
  imports Organization_Proofs
begin

text \<open>
  Correctness of organizations: unique keys and at most one owner in every reachable state, nobody joins without
  the authority of the founder, of an acting owner or admin, or of an open invitation to the own address, and an account stays with its user. Two defects: an
  invitation can outlive the last owner, and an expired invitation blocks its address.
\<close>

section \<open>Where members come from\<close>

lemma ensure_step:
  assumes "\<And>x. check = Inr x \<Longrightarrow> Q (snd (continue x))" "Q db"
  shows "Q (snd (ensure check db continue))"
  using assms by (cases check) (simp_all add: ensure_def)

text \<open>The operations with their arguments, so that what a step adds can be tied to who asked for it.\<close>

datatype OrgOperation =
    InviteOp int string string CreateInviteInput
  | CancelOp string string string
  | SignInOp int string OAuthProfile
  | AddMemberOp int string string CreateInviteInput
  | RemoveMemberOp string string string
  | LeaveOp string string
  | DeleteOrgOp string string
  | FoundOp int string string string "string list"

fun org_perform :: "OrgOperation \<Rightarrow> OrgDatabase \<Rightarrow> OrgDatabase \<Rightarrow> OrgDatabase" where
  "org_perform (InviteOp now i token input) seen db = snd (createInvite now i token input seen db)"
| "org_perform (CancelOp org i actor) seen db = snd (cancelInvite org i actor seen db)"
| "org_perform (SignInOp now newUserId profile) seen db = snd (resolveUserIdForOAuthProfile now newUserId profile seen db)"
| "org_perform (AddMemberOp now i token input) seen db = snd (addOrganizationMember now i token input seen db)"
| "org_perform (RemoveMemberOp org actor member) seen db = snd (removeOrganizationMember org actor member seen db)"
| "org_perform (LeaveOp org actor) seen db = snd (leaveOrganization org actor seen db)"
| "org_perform (DeleteOrgOp org actor) seen db = snd (deleteOrganization org actor seen db)"
| "org_perform (FoundOp now newId name actor members) seen db = snd (createOrganization now newId name actor members seen db)"

fun validRequest :: "OrgOperation \<Rightarrow> bool" where
  "validRequest (InviteOp now i token input) \<longleftrightarrow> ci_role input \<in> {''member'', ''admin''}"
| "validRequest (AddMemberOp now i token input) \<longleftrightarrow> ci_role input \<in> {''member'', ''admin''}"
| "validRequest _ \<longleftrightarrow> True"

lemma org_step_operation: "org_step seen db db' \<longleftrightarrow> (\<exists>op. validRequest op \<and> db' = org_perform op seen db)"
proof
  assume "org_step seen db db'"
  then show "\<exists>op. validRequest op \<and> db' = org_perform op seen db"
    by (cases rule: org_step.cases) (metis org_perform.simps validRequest.simps)+
next
  assume "\<exists>op. validRequest op \<and> db' = org_perform op seen db"
  then obtain op where "validRequest op" "db' = org_perform op seen db" by blast
  then show "org_step seen db db'" by (cases op) (simp_all add: org_step.intros)
qed

text \<open>
  The authority a new membership needs: the founder of a new organization becomes its owner and the users named
  with it become members; an owner or admin adds the user with the address given, in the role given; and
  the user who signs in takes up an open invitation to the address of the profile that has not expired.
  No other operation adds a member.
\<close>

fun admitted :: "OrgOperation \<Rightarrow> OrgDatabase \<Rightarrow> OrgDatabase \<Rightarrow> MemberRow \<Rightarrow> bool" where
  "admitted (FoundOp now newId name actor members) seen db m \<longleftrightarrow>
     member_organizationId m = newId \<and> \<not> organizationIn db newId \<and> member_userId m \<in> insert actor (set members) \<and>
     member_role m = (if member_userId m = actor then ''owner'' else ''member'')"
| "admitted (AddMemberOp now i token input) seen db m \<longleftrightarrow>
     member_organizationId m = ci_organizationId input \<and> member_role m = ci_role input \<and>
     map_option user_id (getByEmail seen (ci_email input)) = Some (member_userId m) \<and>
     canManageMembers (rowRole seen (ci_organizationId input) (ci_actorUserId input))"
| "admitted (SignInOp now newUserId profile) seen db m \<longleftrightarrow>
     fst (resolveUserIdForOAuthProfile now newUserId profile seen db) = Inr (member_userId m) \<and>
     (\<exists>i \<in> set (od_invites db). inv_organizationId i = member_organizationId m \<and> inv_role i = member_role m \<and>
        inv_email i = prof_email profile \<and> inv_acceptedAt i = None \<and> now < inv_expiresAt i)"
| "admitted _ seen db m \<longleftrightarrow> False"

text \<open>A new invitation is made by an owner or admin, to the address and with the role asked for.\<close>

fun inviteAuthorised :: "OrgOperation \<Rightarrow> OrgDatabase \<Rightarrow> OrganizationInvitation \<Rightarrow> bool" where
  "inviteAuthorised (InviteOp now n token input) seen i \<longleftrightarrow>
     i = newInvite now n token input \<and> canManageMembers (rowRole seen (ci_organizationId input) (ci_actorUserId input))"
| "inviteAuthorised (AddMemberOp now n token input) seen i \<longleftrightarrow>
     i = newInvite now n token input \<and> canManageMembers (rowRole seen (ci_organizationId input) (ci_actorUserId input))"
| "inviteAuthorised _ seen i \<longleftrightarrow> False"

lemma acceptInvites_admitted:
  assumes "m \<in> set (od_members (foldl (acceptInvite now u) db is))"
  shows "m \<in> set (od_members db) \<or>
    member_userId m = u \<and> (\<exists>i \<in> set is. inv_organizationId i = member_organizationId m \<and> inv_role i = member_role m)"
  using assms
proof (induction "is" arbitrary: db)
  case (Cons i "is")
  then consider "m \<in> set (od_members (acceptInvite now u db i))"
    | "member_userId m = u" "\<exists>i \<in> set is. inv_organizationId i = member_organizationId m \<and> inv_role i = member_role m" by auto
  then show ?case by cases (auto simp: acceptInvite_def insertMember_def split: if_splits)
qed simp

text \<open>What a successful sign-in leaves, and what adding a member can leave.\<close>

lemma insertUser_tables:
  "od_members (snd (insertUser n p db)) = od_members db" "od_invites (snd (insertUser n p db)) = od_invites db"
  "od_accounts (snd (insertUser n p db)) = od_accounts db"
  by (simp_all add: insertUser_def)

definition signedIn :: "int \<Rightarrow> OAuthProfile \<Rightarrow> OrgDatabase \<Rightarrow> string \<Rightarrow> OrgDatabase \<Rightarrow> bool" where
  "signedIn now p db w db' \<longleftrightarrow>
     (\<exists>v d. db' = acceptPendingInvitesForEmail now w (prof_email p) d \<and> od_members d = od_members db \<and> od_invites d = od_invites db \<and>
        od_accounts d = insertAccount \<lparr>oa_userId = v, oa_provider = prof_provider p, oa_providerUserId = prof_providerUserId p\<rparr>
          (od_accounts db) \<and> findAccount d p = Some w)"

lemma linkAccount_signedIn:
  assumes "linkAccount now p v db = Inr (w, db')"
  shows "signedIn now p db w db'"
proof -
  let ?a = "\<lparr>oa_userId = v, oa_provider = prof_provider p, oa_providerUserId = prof_providerUserId p\<rparr>"
  let ?db1 = "db\<lparr>od_accounts := insertAccount ?a (od_accounts db)\<rparr>"
  let ?d = "?db1\<lparr>od_users := updateWhere (\<lambda>u. user_id u = w)
      (\<lambda>u. u\<lparr>user_name := prof_name p, user_avatarUrl := prof_avatarUrl p\<rparr>) (od_users ?db1)\<rparr>"
  from assms have "findAccount ?db1 p = Some w" "db' = acceptPendingInvitesForEmail now w (prof_email p) ?d"
    by (auto simp: linkAccount_def Let_def split: if_splits option.splits)
  then show ?thesis unfolding signedIn_def
    by (intro exI [of _ v] exI [of _ ?d]) (simp add: findAccount_def)
qed

lemma resolve_result:
  "resolveUserIdForOAuthProfile now n p seen db = (r, db') \<Longrightarrow> (\<exists>e. r = Inl e \<and> db' = db) \<or> (\<exists>w. r = Inr w \<and> signedIn now p db w db')"
proof -
  assume run: "resolveUserIdForOAuthProfile now n p seen db = (r, db')"
  obtain u db1 where start: "(case findAccount seen p of
        Some u \<Rightarrow> if u = [] then insertUser n p db else (Some u, db) | None \<Rightarrow> insertUser n p db) = (u, db1)" by force
  have same: "od_members db1 = od_members db" "od_invites db1 = od_invites db" "od_accounts db1 = od_accounts db"
    using start insertUser_tables [of n p db] by (auto split: option.splits if_splits)
  then have "signedIn now p db w d" if "linkAccount now p v db1 = Inr (w, d)" for v w d
    using linkAccount_signedIn [OF that] by (simp add: signedIn_def)
  then show ?thesis using run unfolding resolveUserIdForOAuthProfile_def start by (auto split: option.splits sum.splits)
qed

lemma resolve_admitted:
  assumes "m \<in> set (od_members (snd (resolveUserIdForOAuthProfile now n p seen db)))"
  shows "m \<in> set (od_members db) \<or> admitted (SignInOp now n p) seen db m"
proof -
  obtain r db' where run: "resolveUserIdForOAuthProfile now n p seen db = (r, db')" by force
  from resolve_result [OF run] show ?thesis
  proof (elim disjE exE conjE)
    fix w assume w: "r = Inr w" "signedIn now p db w db'"
    then obtain d where d: "db' = acceptPendingInvitesForEmail now w (prof_email p) d"
      "od_members d = od_members db" "od_invites d = od_invites db" by (auto simp: signedIn_def)
    have m: "m \<in> set (od_members (foldl (acceptInvite now w) d (filter (acceptableInvite now (prof_email p)) (od_invites d))))"
      using assms run d(1) by (simp add: acceptPendingInvitesForEmail_def)
    from acceptInvites_admitted [OF m] show ?thesis using d(2,3) w(1) run
      by (auto simp: acceptableInvite_def)
  qed (use assms run in simp)
qed

lemma createInvite_members: "od_members (snd (createInvite now i t input seen db)) = od_members db"
  by (simp add: createInvite_def ensure_def Let_def split: sum.split)

lemma assertCanManageMembers_Inr: "assertCanManageMembers db org a = Inr u \<longleftrightarrow> canManageMembers (rowRole db org a)"
  by (simp add: assertCanManageMembers_def)

lemma addMember_result:
  "snd (addOrganizationMember now i t input seen db) \<in> {db, snd (createInvite now i t input seen db)} \<or>
   (\<exists>m. snd (addOrganizationMember now i t input seen db) = db\<lparr>od_members := od_members db @ [m]\<rparr> \<and>
      admitted (AddMemberOp now i t input) seen db m)"
proof (cases "getByEmail seen (ci_email input)")
  case None
  obtain r d where "createInvite now i t input seen db = (r, d)" by force
  with None show ?thesis
    by (cases r; cases "assertOrganizationExists seen (ci_organizationId input)") (simp_all add: addOrganizationMember_def ensure_def)
next
  case (Some u)
  let ?m = "\<lparr>member_organizationId = ci_organizationId input, member_userId = user_id u, member_role = ci_role input\<rparr>"
  let ?out = "snd (addOrganizationMember now i t input seen db)"
  show ?thesis
  proof (cases "canManageMembers (rowRole seen (ci_organizationId input) (ci_actorUserId input))")
    case True
    have "?out = db \<or> ?out = db\<lparr>od_members := od_members db @ [?m]\<rparr>"
      unfolding addOrganizationMember_def Some Let_def ensure_def by (simp split: sum.split)
    then show ?thesis using True Some by (elim disjE) (simp, intro disjI2 exI [of _ ?m], simp)
  next
    case False
    then have "?out = db" by (simp add: addOrganizationMember_def Some ensure_def assertCanManageMembers_def split: sum.split)
    then show ?thesis by simp
  qed
qed

lemma performed_members_admitted:
  assumes "m \<in> set (od_members (org_perform op seen db))"
  shows "m \<in> set (od_members db) \<or> admitted op seen db m"
proof (cases op)
  case (SignInOp now n p)
  with assms show ?thesis using resolve_admitted [of m now n p seen db] by simp
next
  case (AddMemberOp now i t input)
  with assms show ?thesis using addMember_result [of now i t input seen db] by (auto simp: createInvite_members)
next
  case (FoundOp now newId name actor members)
  with assms show ?thesis by (auto simp: createOrganization_def Let_def split: if_splits)
qed (use assms in \<open>auto simp: createInvite_members cancelInvite_def removeOrganizationMember_def leaveOrganization_def
    deleteOrganization_def deleteMember_def ensure_def split: sum.splits option.splits if_splits\<close>)

lemma createInvite_by_manager:
  "i \<in> set (od_invites (snd (createInvite now n t input seen db))) \<Longrightarrow>
   i \<in> set (od_invites db) \<or> inviteAuthorised (InviteOp now n t input) seen i"
  by (auto simp: createInvite_def ensure_def Let_def assertCanManageMembers_Inr split: sum.splits if_splits)

lemma accepted_ids: "map inv_id (od_invites (foldl (acceptInvite now u) db is)) = map inv_id (od_invites db)"
  by (induction "is" arbitrary: db) (simp_all add: acceptInvite_def accept_keys)

lemma signedIn_ids: "signedIn now p db w db' \<Longrightarrow> map inv_id (od_invites db') = map inv_id (od_invites db)"
  unfolding signedIn_def acceptPendingInvitesForEmail_def by (elim exE conjE) (simp add: accepted_ids)

lemma performed_invites_authorised:
  assumes "i \<in> set (od_invites (org_perform op seen db))" "inv_id i \<notin> inv_id ` set (od_invites db)"
  shows "inviteAuthorised op seen i"
proof (cases op)
  case (InviteOp now n t input)
  with assms show ?thesis using createInvite_by_manager [of i now n t input seen db] by auto
next
  case (AddMemberOp now n t input)
  with assms show ?thesis
    using createInvite_by_manager [of i now n t input seen db] addMember_result [of now n t input seen db] by auto
next
  case (SignInOp now n p)
  obtain r d where run: "resolveUserIdForOAuthProfile now n p seen db = (r, d)" by force
  have "map inv_id (od_invites d) = map inv_id (od_invites db)"
    using resolve_result [OF run] signedIn_ids by (elim disjE exE conjE) simp_all
  then have "inv_id ` set (od_invites d) = inv_id ` set (od_invites db)" by (metis set_map)
  with assms SignInOp run show ?thesis by auto
qed (use assms in \<open>auto simp: cancelInvite_def removeOrganizationMember_def leaveOrganization_def deleteOrganization_def
    deleteMember_def createOrganization_def Let_def ensure_def split: sum.splits option.splits if_splits\<close>)

lemma rowRole_row:
  assumes "membersOk orgs (od_members db)" "m \<in> set (od_members db)"
  shows "rowRole db (member_organizationId m) (member_userId m) = Some (member_role m)"
proof -
  obtain q where q: "List.find (isMember (member_organizationId m) (member_userId m)) (od_members db) = Some q"
    using assms(2) find_None_iff [of "isMember (member_organizationId m) (member_userId m)" "od_members db"]
    by (cases "List.find (isMember (member_organizationId m) (member_userId m)) (od_members db)") (auto simp: isMember_def)
  then have "q \<in> set (od_members db)" "memberKey q = memberKey m" using find_SomeD [OF q] by (auto simp: isMember_key memberKey_def)
  then have "q = m" using assms unfolding membersOk_def distinct_map by (blast dest: inj_onD)
  with q show ?thesis by (simp add: rowRole_def)
qed

lemma accepted_members: "set (od_members db) \<subseteq> set (od_members (foldl (acceptInvite now u) db is))"
proof (induction "is" arbitrary: db)
  case (Cons i "is")
  have "set (od_members db) \<subseteq> set (od_members (acceptInvite now u db i))" by (auto simp: acceptInvite_def insertMember_def)
  with Cons [of "acceptInvite now u db i"] show ?case by simp
qed simp

lemma signedIn_members: "signedIn now p db w db' \<Longrightarrow> set (od_members db) \<subseteq> set (od_members db')"
  unfolding signedIn_def acceptPendingInvitesForEmail_def using accepted_members by (elim exE conjE) metis

section \<open>Accounts\<close>

lemma find_prefix: "List.find P xs = Some x \<Longrightarrow> List.find P (xs @ ys) = Some x"
  by (induction xs) (auto split: if_splits)

lemma insertAccount_prefix: "\<exists>bs. insertAccount a as = as @ bs"
  by (simp add: insertAccount_def)

lemma accepted_accounts: "od_accounts (foldl (acceptInvite now u) db is) = od_accounts db"
  by (induction "is" arbitrary: db) (simp_all add: acceptInvite_def)

lemma signedIn_accounts:
  "signedIn now p db w db' \<Longrightarrow> findAccount db' p = Some w \<and> (\<exists>bs. od_accounts db' = od_accounts db @ bs)"
  using insertAccount_prefix unfolding signedIn_def acceptPendingInvitesForEmail_def
  by (elim exE conjE) (simp add: accepted_accounts findAccount_def)

lemma step_accounts: "org_step seen db db' \<Longrightarrow> \<exists>bs. od_accounts db' = od_accounts db @ bs"
proof (induction rule: org_step.induct)
  case (resolve seen db now newUserId profile)
  obtain r d where run: "resolveUserIdForOAuthProfile now newUserId profile seen db = (r, d)" by force
  from resolve_result [OF run] have "\<exists>bs. od_accounts d = od_accounts db @ bs"
  proof (elim disjE exE conjE)
    show "signedIn now profile db w d \<Longrightarrow> ?thesis" for w using signedIn_accounts by blast
  qed simp
  then show ?case using run by simp
next
  case (add input seen db now i token)
  have "od_accounts (snd (createInvite now i token input seen db)) = od_accounts db"
    by (simp add: createInvite_def ensure_def Let_def split: sum.split)
  then show ?case using addMember_result [of now i token input seen db] by auto
qed (simp_all add: createInvite_def cancelInvite_def removeOrganizationMember_def leaveOrganization_def deleteOrganization_def
    deleteMember_def createOrganization_def Let_def ensure_def split: sum.split option.split)

lemma findAccount_prefix: "findAccount db p = Some u \<Longrightarrow> od_accounts db' = od_accounts db @ bs \<Longrightarrow> findAccount db' p = Some u"
  unfolding findAccount_def using find_prefix by force

lemma steps_accounts: "org_steps db db' \<Longrightarrow> findAccount db p = Some u \<Longrightarrow> findAccount db' p = Some u"
  unfolding org_steps_def by (induction rule: rtranclp_induct) (auto dest!: step_accounts intro: findAccount_prefix)

section \<open>Sample tables\<close>

definition noOrganizations :: OrgDatabase where
  "noOrganizations = \<lparr>od_users = [], od_accounts = [], od_organizations = [], od_members = [], od_invites = []\<rparr>"

definition profileOf :: "string \<Rightarrow> OAuthProfile" where
  "profileOf name = \<lparr>prof_provider = ''github'', prof_providerUserId = name, prof_email = name @ ''@x'', prof_name = None, prof_avatarUrl = None\<rparr>"

text \<open>Ada has signed in and founded an organization.\<close>

definition adaSignedIn :: OrgDatabase where
  "adaSignedIn = snd (resolveUserIdForOAuthProfile 1 ''ada'' (profileOf ''a'') noOrganizations noOrganizations)"

definition adaFounded :: OrgDatabase where
  "adaFounded = snd (createOrganization 2 ''o'' ''Lab'' ''ada'' [] adaSignedIn adaSignedIn)"

definition inviteBob :: CreateInviteInput where
  "inviteBob = \<lparr>ci_organizationId = ''o'', ci_actorUserId = ''ada'', ci_email = ''b@x'', ci_role = ''admin''\<rparr>"

definition bobInvited :: OrgDatabase where
  "bobInvited = snd (addOrganizationMember 3 ''i'' ''t'' inviteBob adaFounded adaFounded)"

definition bobAccepted :: OrgDatabase where
  "bobAccepted = snd (resolveUserIdForOAuthProfile 4 ''bob'' (profileOf ''b'') bobInvited bobInvited)"

definition adaLeft :: OrgDatabase where
  "adaLeft = snd (leaveOrganization ''o'' ''ada'' bobInvited bobInvited)"

definition bobJoined :: OrgDatabase where
  "bobJoined = snd (resolveUserIdForOAuthProfile 4 ''bob'' (profileOf ''b'') adaLeft adaLeft)"

lemma sample_step:
  "org_step noOrganizations noOrganizations adaSignedIn" "org_step adaSignedIn adaSignedIn adaFounded"
  "org_step adaFounded adaFounded bobInvited"
  unfolding adaSignedIn_def adaFounded_def bobInvited_def
  by (rule org_step.resolve, rule org_step.create, rule org_step.add) (simp add: inviteBob_def)

lemma sample_steps:
  "org_steps noOrganizations bobInvited" "org_steps adaSignedIn bobInvited" "org_steps noOrganizations adaFounded"
  by (rule org_steps_refl org_steps_step [OF _ sample_step(1)] org_steps_step [OF _ sample_step(2)]
      org_steps_step [OF _ sample_step(3)])+

section \<open>Properties\<close>

text \<open>C37: In every state reachable from empty tables, whatever the operations had read, users, addresses,
  accounts, organizations, memberships and invitations have unique keys, members and invitations belong to an
  existing organization with a valid role, invitations never offer ownership, and an organization has at
  most one owner.\<close>

theorem organizations_reachable_typed:
  assumes "org_steps noOrganizations db"
  shows "orgTyped db \<and>
    (\<forall>m \<in> set (od_members db). \<forall>m' \<in> set (od_members db). member_organizationId m = member_organizationId m' \<and>
       member_role m = ''owner'' \<and> member_role m' = ''owner'' \<longrightarrow> m = m')"
proof -
  have typed: "orgTyped db" using assms by (rule org_steps_typed) code_simp
  then have "distinct (map member_organizationId (ownersOf (od_members db)))" by (simp add: orgTyped_def membersOk_def)
  then have "inj_on member_organizationId (set (ownersOf (od_members db)))" by (simp add: distinct_map)
  then have "\<forall>m \<in> set (od_members db). \<forall>m' \<in> set (od_members db). member_organizationId m = member_organizationId m' \<and>
       member_role m = ''owner'' \<and> member_role m' = ''owner'' \<longrightarrow> m = m'"
    unfolding inj_on_def by (simp add: ownersOf_def)
  with typed show ?thesis by blast
qed

theorem organizations_reachable_typed_witness: "orgTyped bobInvited \<and> od_invites bobInvited \<noteq> [] \<and> od_members bobInvited \<noteq> []"
proof -
  have "od_invites bobInvited \<noteq> []" "od_members bobInvited \<noteq> []" by code_simp+
  with organizations_reachable_typed [OF sample_steps(1)] show ?thesis by blast
qed

text \<open>C38: Nobody joins an organization without authority, under any interleaving: a membership that an operation
  adds is the owner or a member named at the founding of a new organization; or the user with the given address,
  added in the given role by a request whose acting user is an owner or admin in the state that request
  read; or the user who signs in, with the role of an invitation to the very address of the profile,
  not accepted and not expired. Ownership comes with founding only. An invitation that an
  operation adds is the requested one, and the acting user who asked for it is an owner or admin.\<close>

theorem membership_needs_authority:
  assumes "org_steps noOrganizations db" "validRequest op"
  shows "(\<forall>m. m \<in> set (od_members (org_perform op seen db)) \<and> m \<notin> set (od_members db) \<longrightarrow>
      admitted op seen db m \<and> (member_role m = ''owner'' \<longrightarrow> \<not> organizationIn db (member_organizationId m))) \<and>
    (\<forall>i. i \<in> set (od_invites (org_perform op seen db)) \<and> inv_id i \<notin> inv_id ` set (od_invites db) \<longrightarrow>
      inviteAuthorised op seen i)"
proof -
  have "orgTyped db" using assms(1) by (rule org_steps_typed) code_simp
  then have "\<forall>i \<in> set (od_invites db). inv_role i \<noteq> ''owner''" by (auto simp: orgTyped_def invitesOk_def list_all_iff)
  then have "\<not> organizationIn db (member_organizationId m)" if "admitted op seen db m" "member_role m = ''owner''" for m
    using that assms(2) by (cases op) auto
  then show ?thesis using performed_members_admitted performed_invites_authorised by blast
qed

theorem membership_needs_authority_witness:
  "\<exists>i m. i \<in> set (od_invites bobInvited) \<and> inviteAuthorised (AddMemberOp 3 ''i'' ''t'' inviteBob) adaFounded i \<and>
     m \<in> set (od_members bobAccepted) \<and> admitted (SignInOp 4 ''bob'' (profileOf ''b'')) bobInvited bobInvited m"
proof -
  have "od_invites adaFounded = []" "od_invites bobInvited \<noteq> []" by code_simp+
  then obtain i where i: "i \<in> set (od_invites bobInvited)" "inv_id i \<notin> inv_id ` set (od_invites adaFounded)"
    by (cases "od_invites bobInvited") auto
  have "validRequest (AddMemberOp 3 ''i'' ''t'' inviteBob)" by code_simp
  from membership_needs_authority [OF sample_steps(3) this, of adaFounded] i
  have invited: "inviteAuthorised (AddMemberOp 3 ''i'' ''t'' inviteBob) adaFounded i" by (simp add: bobInvited_def)
  let ?m = "\<lparr>member_organizationId = ''o'', member_userId = ''bob'', member_role = ''admin''\<rparr>"
  have m: "?m \<in> set (od_members bobAccepted)" "?m \<notin> set (od_members bobInvited)" by code_simp+
  have "validRequest (SignInOp 4 ''bob'' (profileOf ''b''))" by simp
  from membership_needs_authority [OF sample_steps(1) this, of bobInvited] m
  have "admitted (SignInOp 4 ''bob'' (profileOf ''b'')) bobInvited bobInvited ?m" unfolding bobAccepted_def org_perform.simps by blast
  with i(1) invited m(1) show ?thesis by blast
qed

text \<open>An account stays with its user: once a sign-in with an account of a provider has been resolved to a
  user, every later sign-in with that account that succeeds is resolved to the same user, whatever address the
  provider reports then, whatever happened in between and whatever was read.\<close>

theorem account_keeps_user:
  assumes "resolveUserIdForOAuthProfile now n p seen db = (Inr u, db1)" "org_steps db1 db2"
    "prof_provider p' = prof_provider p" "prof_providerUserId p' = prof_providerUserId p"
    "resolveUserIdForOAuthProfile now' n' p' seen' db2 = (Inr u', db3)"
  shows "u' = u"
proof -
  have "findAccount db1 p = Some u" using resolve_result [OF assms(1)] signedIn_accounts by auto
  then have "findAccount db2 p = Some u" by (rule steps_accounts [OF assms(2)])
  moreover have "accountOf p' = accountOf p" using assms(3,4) by (simp add: fun_eq_iff accountOf_def)
  ultimately have known: "findAccount db2 p' = Some u" by (simp add: findAccount_def)
  have "signedIn now' p' db2 u' db3" using resolve_result [OF assms(5)] by simp
  then have "findAccount db3 p' = Some u'" "findAccount db3 p' = Some u"
    using signedIn_accounts known findAccount_prefix by blast+
  then show ?thesis by simp
qed

theorem account_keeps_user_witness:
  "\<forall>u'. fst (resolveUserIdForOAuthProfile 9 ''other'' (profileOf ''a''\<lparr>prof_email := ''new@x''\<rparr>) adaFounded bobInvited) = Inr u' \<longrightarrow>
     u' = ''ada''"
proof (intro allI impI)
  fix u' assume "fst (resolveUserIdForOAuthProfile 9 ''other'' (profileOf ''a''\<lparr>prof_email := ''new@x''\<rparr>) adaFounded bobInvited) = Inr u'"
  then obtain d where again: "resolveUserIdForOAuthProfile 9 ''other'' (profileOf ''a''\<lparr>prof_email := ''new@x''\<rparr>) adaFounded bobInvited = (Inr u', d)"
    by (metis prod.collapse)
  have "fst (resolveUserIdForOAuthProfile 1 ''ada'' (profileOf ''a'') noOrganizations noOrganizations) = Inr ''ada''" by code_simp
  then have first: "resolveUserIdForOAuthProfile 1 ''ada'' (profileOf ''a'') noOrganizations noOrganizations = (Inr ''ada'', adaSignedIn)"
    unfolding adaSignedIn_def by (metis prod.collapse)
  from account_keeps_user [OF first sample_steps(2) _ _ again] show "u' = ''ada''" by simp
qed

text \<open>An organization loses its owner only together with its last member, as long as no two operations overlap.\<close>

theorem owner_leaves_last:
  assumes "orgTyped db" "org_step db db db'" "m \<in> set (od_members db)" "member_role m = ''owner''" "m \<notin> set (od_members db')"
  shows "\<forall>q \<in> set (od_members db'). member_organizationId q \<noteq> member_organizationId m"
proof -
  have members: "membersOk (orgIds db) (od_members db)" using assms(1) by (simp add: orgTyped_def)
  have role: "rowRole db org u = Some ''owner''" if "isMember org u m" for org u
    using that rowRole_row [OF members assms(3)] assms(4) by (simp add: isMember_def)
  from assms(2,5) show ?thesis
  proof (cases rule: org_step.cases)
    case (remove org a u)
    then have "isMember org u m" "rowRole db org u \<noteq> Some ''owner''"
      using assms(3,5) by (auto simp: removeOrganizationMember_def deleteMember_def ensure_def truthy_string_def
          split: sum.splits option.splits if_splits)
    with role show ?thesis by simp
  next
    case (leave org u)
    then have gone: "isMember org u m" "db' = deleteMember org u db"
      and alone: "rowRole db org u = Some ''owner'' \<Longrightarrow>
        \<forall>q \<in> set (od_members db). member_organizationId q = org \<longrightarrow> member_userId q = u"
      using assms(3,5) by (auto simp: leaveOrganization_def deleteMember_def ensure_def truthy_string_def list_ex_iff
          split: sum.splits option.splits if_splits)
    then show ?thesis using role [OF gone(1)] by (auto simp: deleteMember_def isMember_def)
  next
    case (delete org a)
    then show ?thesis using assms(3,5)
      by (auto simp: deleteOrganization_def ensure_def split: sum.splits if_splits)
  next
    case (resolve now n p)
    obtain r d where run: "resolveUserIdForOAuthProfile now n p db db = (r, d)" by force
    from resolve_result [OF run] have "set (od_members db) \<subseteq> set (od_members d)"
    proof (elim disjE exE conjE)
      show "signedIn now p db w d \<Longrightarrow> ?thesis" for w using signedIn_members by blast
    qed simp
    then show ?thesis using run resolve assms(3,5) by auto
  next
    case (add input now i t)
    then show ?thesis using addMember_result [of now i t input db db] assms(3,5) by (auto simp: createInvite_members)
  qed (use assms(3,5) in \<open>auto simp: createInvite_members cancelInvite_def createOrganization_def Let_def ensure_def
      split: sum.splits if_splits\<close>)
qed

section \<open>Defects\<close>

text \<open>
  Invitations outlive the last member. Ada founds an organization, invites Bob and leaves, which she may as its only
  member. When Bob signs in he joins an organization that has no owner, and nobody can delete it.
\<close>

theorem invite_outlives_last_owner:
  "od_members adaLeft = [] \<and>
   map (\<lambda>m. (member_userId m, member_role m)) (od_members bobJoined) = [(''bob'', ''admin'')] \<and>
   fst (deleteOrganization ''o'' ''bob'' bobJoined bobJoined) = Inl OrganizationOwnerRequiredError"
  by (intro conjI) code_simp+

text \<open>
  An expired invitation is not listed among the pending ones, but it still makes a new invitation of its address
  fail, so it has to be cancelled by an identifier that is shown nowhere.
\<close>

theorem expired_invite_blocks_address:
  assumes "i \<in> set (od_invites db)" "inviteFor (ci_organizationId input) (ci_email input) i" "inv_acceptedAt i = None"
    "inv_expiresAt i \<le> now" "organizationIn db (ci_organizationId input)"
    "canManageMembers (rowRole db (ci_organizationId input) (ci_actorUserId input))"
    "\<not> memberWithEmail db (ci_organizationId input) (ci_email input)"
  shows "createInvite now n t input db db = (Inl (OrganizationInviteAlreadyPendingError (ci_email input)), db) \<and>
    i \<notin> set (listPendingInvites now (ci_organizationId input) db)"
proof -
  have "list_ex (\<lambda>i. inviteFor (ci_organizationId input) (ci_email input) i \<and> inv_acceptedAt i = None) (od_invites db)"
    using assms(1-3) by (auto simp: list_ex_iff)
  then show ?thesis using assms(4-7)
    by (simp add: createInvite_def assertOrganizationExists_def assertCanManageMembers_def ensure_def listPendingInvites_def)
qed

end
