(* ===== verification/Nodes.thy ===== *)
theory Nodes
  imports Organizations "HOL-Library.AList"
begin

text \<open>
  The nodes of the API service (\<open>services/node-service.ts\<close>): registration, deletion, sharing, listing and tokens
  for the relay. The row of a node extends the columns that the authorisation of scheduled jobs reads. The
  relay's report of connected nodes, the signature of tokens and the clock are arguments; the operations on
  members are those of the organizations.
\<close>

section \<open>Rows\<close>

datatype NodeKind = ManagedNode | ExternalNode

record ApiNode = NodeRow +
  nd_name :: string
  nd_kind :: NodeKind
  nd_endpoint :: "string option"
  nd_metadata :: "(string \<times> string) list option"
  nd_organizationId :: "string option"
  nd_createdByUserId :: string
  nd_updatedAt :: int

record NodeView =
  nv_node :: ApiNode
  nv_canUse :: bool
  nv_isOnline :: bool
  nv_metadata :: "(string \<times> string) list option"

datatype NodeError =
    NodeMissingError string
  | NodeMembershipRequiredError
  | ManagedNodeUnregisterNotAllowedError
  | NodeDeletePermissionRequiredError
  | OrganizationNodePermissionRequiredError
  | NodeScopeUpdatePermissionRequiredError
  | FailedToRegisterNodeError

type_synonym 'a NodeResult = "(NodeError + 'a) \<times> ApiNode list"

section \<open>The relay\<close>

text \<open>
  The body of the metrics, as far as it has the expected form: the sessions whose node identifier is a string,
  or the identifiers of the older form.
\<close>

record RelayMetrics =
  rm_sessions :: "(string \<times> string option) list option"
  rm_nodes :: "string list option"

definition getConnectedNodeSessions ::
  "string option \<Rightarrow> string option \<Rightarrow> RelayMetrics option \<Rightarrow> (string \<times> string) list" where
  "getConnectedNodeSessions relayUrl relayApiToken body =
     (if truthy_string (map_option js_trim relayUrl) = None \<or> truthy_string (map_option js_trim relayApiToken) = None then []
      else case body of
        None \<Rightarrow> []
      | Some b \<Rightarrow>
          (case rm_sessions b of
             Some sessions \<Rightarrow> foldl (\<lambda>m (n, v). AList.update n (nullish v []) m) [] sessions
           | None \<Rightarrow>
               (case rm_nodes b of
                  Some nodes \<Rightarrow> foldl (\<lambda>m n. AList.update n [] m) [] nodes
                | None \<Rightarrow> [])))"

section \<open>Listing\<close>

definition listedNode :: "string \<Rightarrow> string list \<Rightarrow> ApiNode \<Rightarrow> bool" where
  "listedNode organizationId memberIds n \<longleftrightarrow>
     (node_scope n = ''shared'' \<and> nd_organizationId n = Some organizationId) \<or>
     (node_scope n = privateScope \<and> (case node_ownerUserId n of None \<Rightarrow> False | Some u \<Rightarrow> u \<in> set memberIds))"

definition liveMetadata :: "string \<Rightarrow> (string \<times> string) list option \<Rightarrow> (string \<times> string) list option" where
  "liveMetadata daemonVersion metadata =
     (let base = nullish metadata [];
          live = (if daemonVersion \<noteq> [] then AList.update ''version'' daemonVersion base else base)
      in if live = [] then None else Some live)"

definition nodeView :: "string \<Rightarrow> (string \<times> string) list \<Rightarrow> ApiNode \<Rightarrow> NodeView" where
  "nodeView actorUserId relaySessions n =
     (let isOnline = (nd_kind n = ManagedNode \<and> node_ownerUserId n = Some actorUserId) \<or> map_of relaySessions (node_id n) \<noteq> None;
          daemonVersion = (if isOnline then nullish (map_of relaySessions (node_id n)) [] else [])
      in \<lparr>nv_node = n, nv_canUse = (node_scope n = ''shared'' \<or> node_ownerUserId n = Some actorUserId),
          nv_isOnline = isOnline, nv_metadata = liveMetadata daemonVersion (nd_metadata n)\<rparr>)"

definition listNodes ::
  "string \<Rightarrow> string \<Rightarrow> (string \<times> string) list \<Rightarrow> OrgDatabase \<Rightarrow> ApiNode list \<Rightarrow> NodeError + NodeView list" where
  "listNodes actorUserId organizationId relaySessions odb nodes =
     (let memberIds = getOrganizationMemberUserIds organizationId odb in
      if getMembershipRole (od_members odb) organizationId actorUserId = None then Inl NodeMembershipRequiredError
      else if memberIds = [] then Inr []
      else Inr (map (nodeView actorUserId relaySessions) (filter (listedNode organizationId memberIds) nodes)))"

section \<open>Registration\<close>

record RegisterNodeInput =
  rn_actorUserId :: string
  rn_nodeId :: string
  rn_name :: string
  rn_kind :: "NodeKind option"
  rn_scope :: string
  rn_endpoint :: "string option"
  rn_metadata :: "(string \<times> string) list option"
  rn_updateIfExists :: "bool option"

definition registeredNode :: "int \<Rightarrow> RegisterNodeInput \<Rightarrow> ApiNode" where
  "registeredNode now input =
     \<lparr>node_id = rn_nodeId input, node_scope = rn_scope input, node_ownerUserId = Some (rn_actorUserId input),
      nd_name = rn_name input, nd_kind = nullish (rn_kind input) ManagedNode, nd_endpoint = rn_endpoint input,
      nd_metadata = rn_metadata input, nd_organizationId = None, nd_createdByUserId = rn_actorUserId input, nd_updatedAt = now\<rparr>"

text \<open>On a conflict every column but the creator is overwritten.\<close>

definition overwriteNode :: "ApiNode \<Rightarrow> ApiNode \<Rightarrow> ApiNode" where
  "overwriteNode new n = new\<lparr>nd_createdByUserId := nd_createdByUserId n\<rparr>"

definition registerNode :: "int \<Rightarrow> RegisterNodeInput \<Rightarrow> ApiNode list \<Rightarrow> NodeView NodeResult" where
  "registerNode now input nodes =
     (let new = registeredNode now input;
          exists = list_ex (\<lambda>n. node_id n = rn_nodeId input) nodes;
          nodes' = (if \<not> exists then nodes @ [new]
                    else if rn_updateIfExists input \<noteq> Some False
                    then updateWhere (\<lambda>n. node_id n = rn_nodeId input) (overwriteNode new) nodes
                    else nodes)
      in case List.find (\<lambda>n. node_id n = rn_nodeId input) nodes' of
           None \<Rightarrow> (Inl FailedToRegisterNodeError, nodes')
         | Some n \<Rightarrow> (Inr \<lparr>nv_node = n, nv_canUse = True, nv_isOnline = False, nv_metadata = nd_metadata n\<rparr>, nodes'))"

section \<open>Deletion and sharing\<close>

definition findNode :: "ApiNode list \<Rightarrow> string \<Rightarrow> NodeError + ApiNode" where
  "findNode nodes nodeId =
     (case List.find (\<lambda>n. node_id n = nodeId) nodes of None \<Rightarrow> Inl (NodeMissingError nodeId) | Some n \<Rightarrow> Inr n)"

definition actorRoleIn :: "OrgDatabase \<Rightarrow> string \<Rightarrow> string \<Rightarrow> NodeError + string" where
  "actorRoleIn odb organizationId actorUserId =
     (case truthy_string (rowRole odb organizationId actorUserId) of
        None \<Rightarrow> Inl NodeMembershipRequiredError
      | Some role \<Rightarrow> Inr role)"

definition mayDeleteNode :: "OrgDatabase \<Rightarrow> string \<Rightarrow> string \<Rightarrow> string \<Rightarrow> ApiNode \<Rightarrow> NodeError + unit" where
  "mayDeleteNode odb organizationId actorUserId actorRole n =
     (if nd_kind n = ManagedNode then Inl ManagedNodeUnregisterNotAllowedError
      else if node_scope n = privateScope then
        (case truthy_string (node_ownerUserId n) of
           None \<Rightarrow> Inl NodeDeletePermissionRequiredError
         | Some ownerUserId \<Rightarrow>
             if \<not> list_ex (isMember organizationId ownerUserId) (od_members odb) then Inl (NodeMissingError (node_id n))
             else if ownerUserId \<noteq> actorUserId then Inl NodeDeletePermissionRequiredError
             else Inr ())
      else if truthy_string (nd_organizationId n) \<noteq> Some organizationId then Inl (NodeMissingError (node_id n))
      else if actorRole \<noteq> ''owner'' \<and> actorRole \<noteq> ''admin'' then Inl OrganizationNodePermissionRequiredError
      else Inr ())"

definition deleteNode :: "string \<Rightarrow> string \<Rightarrow> string \<Rightarrow> OrgDatabase \<Rightarrow> ApiNode list \<Rightarrow> ApiNode list \<Rightarrow> unit NodeResult" where
  "deleteNode organizationId nodeId actorUserId odb seen nodes =
     ensure (actorRoleIn odb organizationId actorUserId) nodes (\<lambda>actorRole.
     ensure (findNode seen nodeId) nodes (\<lambda>n.
     ensure (mayDeleteNode odb organizationId actorUserId actorRole n) nodes (\<lambda>_.
       (Inr (), filter (\<lambda>m. node_id m \<noteq> nodeId) nodes))))"

definition updateNodeScope ::
  "int \<Rightarrow> string \<Rightarrow> string \<Rightarrow> string \<Rightarrow> string \<Rightarrow> OrgDatabase \<Rightarrow> ApiNode list \<Rightarrow> ApiNode list \<Rightarrow> NodeView NodeResult" where
  "updateNodeScope now organizationId nodeId actorUserId scope odb seen nodes =
     ensure (actorRoleIn odb organizationId actorUserId) nodes (\<lambda>actorRole.
     ensure (findNode seen nodeId) nodes (\<lambda>n.
     if (node_scope n = privateScope \<and> node_ownerUserId n \<noteq> Some actorUserId) \<or>
        (node_scope n \<noteq> privateScope \<and> actorRole \<noteq> ''owner'' \<and> actorRole \<noteq> ''admin'')
     then (Inl NodeScopeUpdatePermissionRequiredError, nodes)
     else let change = (\<lambda>m. m\<lparr>node_scope := scope, nd_updatedAt := now\<rparr>) in
       case List.find (\<lambda>m. node_id m = nodeId) nodes of
         None \<Rightarrow> (Inl (NodeMissingError nodeId), nodes)
       | Some m \<Rightarrow>
           (Inr \<lparr>nv_node = change m, nv_canUse = (scope = ''shared'' \<or> node_ownerUserId m = Some actorUserId), nv_isOnline = False,
                 nv_metadata = nd_metadata m\<rparr>,
            updateWhere (\<lambda>m. node_id m = nodeId) change nodes)))"

record RelayClaims =
  rc_sub :: string
  rc_nodeId :: string
  rc_organizationIds :: "string list"

definition issueRelayToken ::
  "(RelayClaims \<Rightarrow> 'token) \<Rightarrow> string \<Rightarrow> string \<Rightarrow> OrgDatabase \<Rightarrow> ApiNode list \<Rightarrow> NodeError + 'token" where
  "issueRelayToken signRelayToken actorUserId nodeId odb nodes =
     (case findNode nodes nodeId of
        Inl e \<Rightarrow> Inl e
      | Inr n \<Rightarrow>
          if node_ownerUserId n \<noteq> Some actorUserId then Inl NodeDeletePermissionRequiredError
          else Inr (signRelayToken \<lparr>rc_sub = actorUserId, rc_nodeId = nodeId,
                 rc_organizationIds = map (og_id \<circ> fst) (getOrganizationsForUser actorUserId odb)\<rparr>))"

end
