(* ===== verification/Node_Properties.thy ===== *)
theory Node_Properties
  imports Nodes
begin

text \<open>
  What holds of nodes in every reachable state, and two defects that follow: a node that is shared is seen and
  deleted by nobody, and registering an identifier takes the node of another user over.
\<close>

section \<open>Steps\<close>

text \<open>Scopes in requests are validated: only \<open>private\<close> and \<open>shared\<close> reach the service.\<close>

inductive node_step :: "ApiNode list \<Rightarrow> ApiNode list \<Rightarrow> bool" where
  register: "rn_scope input \<in> {privateScope, ''shared''} \<Longrightarrow> node_step nodes (snd (registerNode now input nodes))"
| delete: "node_step nodes (snd (deleteNode organizationId nodeId actorUserId odb seen nodes))"
| rescope: "scope \<in> {privateScope, ''shared''} \<Longrightarrow>
    node_step nodes (snd (updateNodeScope now organizationId nodeId actorUserId scope odb seen nodes))"

definition nodeTyped :: "ApiNode \<Rightarrow> bool" where
  "nodeTyped n \<longleftrightarrow> node_ownerUserId n \<noteq> None \<and> nd_organizationId n = None \<and> node_scope n \<in> {privateScope, ''shared''}"

definition nodesTyped :: "ApiNode list \<Rightarrow> bool" where
  "nodesTyped nodes \<longleftrightarrow> distinct (map node_id nodes) \<and> list_all nodeTyped nodes"

lemma updateWhere_typed:
  assumes "nodesTyped nodes" "\<And>n. P n \<Longrightarrow> nodeTyped n \<Longrightarrow> node_id (f n) = node_id n \<and> nodeTyped (f n)"
  shows "nodesTyped (updateWhere P f nodes)"
proof -
  have all: "\<forall>n \<in> set nodes. nodeTyped n" using assms(1) by (simp add: nodesTyped_def list_all_iff)
  have ids: "map node_id (updateWhere P f nodes) = map node_id nodes" using all assms(2) by (auto simp: updateWhere_def)
  have "list_all nodeTyped (updateWhere P f nodes)" using all assms(2) by (auto simp: updateWhere_def list_all_iff)
  then show ?thesis using assms(1) by (simp add: nodesTyped_def ids)
qed

lemma registeredNode_typed: "rn_scope input \<in> {privateScope, ''shared''} \<Longrightarrow> nodeTyped (registeredNode now input)"
  by (simp add: nodeTyped_def registeredNode_def)

lemma register_typed:
  assumes "nodesTyped nodes" "rn_scope input \<in> {privateScope, ''shared''}"
  shows "nodesTyped (snd (registerNode now input nodes))"
proof -
  let ?new = "registeredNode now input"
  have new: "nodeTyped ?new" "node_id ?new = rn_nodeId input" using assms(2) registeredNode_typed by (simp_all add: registeredNode_def)
  have "nodesTyped (nodes @ [?new])" if "\<not> list_ex (\<lambda>n. node_id n = rn_nodeId input) nodes"
    using that assms(1) new by (auto simp: nodesTyped_def list_ex_iff)
  moreover have "nodesTyped (updateWhere (\<lambda>n. node_id n = rn_nodeId input) (overwriteNode ?new) nodes)"
    using new by (intro updateWhere_typed [OF assms(1)]) (simp add: overwriteNode_def nodeTyped_def)
  ultimately show ?thesis using assms(1) by (simp add: registerNode_def Let_def split: option.split)
qed

lemma ensure_snd:
  assumes "Q s" "\<And>x. check = Inr x \<Longrightarrow> Q (snd (continue x))"
  shows "Q (snd (ensure check s continue))"
  using assms by (cases check) (simp_all add: ensure_def)

lemma delete_node_typed: "nodesTyped nodes \<Longrightarrow> nodesTyped (snd (deleteNode org i a odb seen nodes))"
  unfolding deleteNode_def
  by (intro ensure_snd [of nodesTyped]) (auto simp: nodesTyped_def list_all_iff intro: distinct_map_filter)

lemma rescope_typed:
  assumes "nodesTyped nodes" "scope \<in> {privateScope, ''shared''}"
  shows "nodesTyped (snd (updateNodeScope now org i a scope odb seen nodes))"
proof -
  have "nodesTyped (updateWhere (\<lambda>m. node_id m = i) (\<lambda>m. m\<lparr>node_scope := scope, nd_updatedAt := now\<rparr>) nodes)"
    using assms by (intro updateWhere_typed) (auto simp: nodeTyped_def)
  then show ?thesis unfolding updateNodeScope_def Let_def using assms(1)
    by (intro ensure_snd [of nodesTyped]) (simp_all split: option.split)
qed

lemma node_step_typed: "node_step nodes nodes' \<Longrightarrow> nodesTyped nodes \<Longrightarrow> nodesTyped nodes'"
  by (induction rule: node_step.induct) (auto intro: register_typed delete_node_typed rescope_typed)

lemma node_steps_typed: "node_step\<^sup>*\<^sup>* nodes nodes' \<Longrightarrow> nodesTyped nodes \<Longrightarrow> nodesTyped nodes'"
  by (induction rule: rtranclp_induct) (auto intro: node_step_typed)

lemma find_map: "List.find P (map f xs) = map_option f (List.find (P \<circ> f) xs)"
  by (induction xs) auto

text \<open>The row under an identifier, and what a deletion without interference removes.\<close>

lemma findNode_iff:
  assumes "nodesTyped nodes"
  shows "findNode nodes i = Inr n \<longleftrightarrow> n \<in> set nodes \<and> node_id n = i"
proof
  show "findNode nodes i = Inr n \<Longrightarrow> n \<in> set nodes \<and> node_id n = i"
    by (auto simp: findNode_def split: option.splits dest: find_SomeD)
next
  assume n: "n \<in> set nodes \<and> node_id n = i"
  then obtain q where q: "List.find (\<lambda>m. node_id m = i) nodes = Some q"
    using find_None_iff [of "\<lambda>m. node_id m = i" nodes] by (cases "List.find (\<lambda>m. node_id m = i) nodes") auto
  with assms n have "q = n" using find_SomeD [OF q] by (auto simp: nodesTyped_def distinct_map dest: inj_onD)
  with q show "findNode nodes i = Inr n" by (simp add: findNode_def)
qed


section \<open>Sample nodes\<close>




section \<open>Properties\<close>



section \<open>Defects\<close>

text \<open>
  Sharing hides a node: no operation gives a node an organization, so in every reachable state a shared node is
  listed in no organization, not even to its owner, and every attempt to delete it fails.
\<close>

theorem shared_nodes_are_lost:
  assumes "node_step\<^sup>*\<^sup>* [] nodes" "n \<in> set nodes" "node_scope n = ''shared''"
  shows "(\<forall>views. listNodes actorUserId organizationId relaySessions odb nodes = Inr views \<longrightarrow> n \<notin> nv_node ` set views) \<and>
    fst (deleteNode organizationId (node_id n) actorUserId odb nodes nodes) \<noteq> Inr ()"
proof -
  have typed: "nodesTyped nodes" using assms(1) by (rule node_steps_typed) (simp add: nodesTyped_def)
  then have none: "nd_organizationId n = None" using assms(2) by (simp add: nodesTyped_def list_all_iff nodeTyped_def)
  have distinctScopes: "privateScope \<noteq> ''shared''" by (simp add: privateScope_def)
  then have "\<not> listedNode organizationId memberIds n" for memberIds using none assms(3) by (simp add: listedNode_def)
  then have "n \<notin> nv_node ` set views" if "listNodes actorUserId organizationId relaySessions odb nodes = Inr views" for views
    using that by (auto simp: listNodes_def Let_def nodeView_def split: if_splits)
  moreover have "findNode nodes (node_id n) = Inr n" using findNode_iff [OF typed] assms(2) by simp
  then have "fst (deleteNode organizationId (node_id n) actorUserId odb nodes nodes) \<noteq> Inr ()"
    using none assms(3) distinctScopes by (auto simp: deleteNode_def ensure_def mayDeleteNode_def truthy_string_def split: sum.splits)
  ultimately show ?thesis by blast
qed

text \<open>
  Registering takes over: whoever registers the identifier of an existing node becomes its owner, gets tokens for
  the relay under it and passes the ownership checks of scheduled jobs, and the previous owner does not.
\<close>

theorem register_takes_over_node:
  assumes "nodesTyped nodes" "n \<in> set nodes" "node_id n = rn_nodeId input" "node_ownerUserId n = Some victim"
    "victim \<noteq> rn_actorUserId input" "rn_scope input = privateScope" "rn_updateIfExists input \<noteq> Some False"
    "db_nodes jobs = map NodeRow.truncate (snd (registerNode now input nodes))"
  shows "assertNodeOwnedByActor jobs (rn_nodeId input) (rn_actorUserId input) = Inr () \<and>
    assertNodeOwnedByActor jobs (rn_nodeId input) victim = Inl WorkspaceLocalNodePermissionRequiredError \<and>
    (\<exists>token. issueRelayToken sign (rn_actorUserId input) (rn_nodeId input) odb (snd (registerNode now input nodes)) = Inr token)"
proof -
  let ?new = "registeredNode now input"
  let ?nodes = "updateWhere (\<lambda>n. node_id n = rn_nodeId input) (overwriteNode ?new) nodes"
  have "list_ex (\<lambda>n. node_id n = rn_nodeId input) nodes" using assms(2,3) by (auto simp: list_ex_iff)
  then have out: "snd (registerNode now input nodes) = ?nodes"
    using assms(7) by (simp add: registerNode_def Let_def split: option.split)
  have "overwriteNode ?new n \<in> set ?nodes" using assms(2,3) by (force simp: updateWhere_def)
  then obtain q where q: "List.find (\<lambda>m. node_id m = rn_nodeId input) ?nodes = Some q"
    using find_None_iff [of "\<lambda>m. node_id m = rn_nodeId input" ?nodes]
    by (cases "List.find (\<lambda>m. node_id m = rn_nodeId input) ?nodes") (auto simp: overwriteNode_def registeredNode_def)
  then have own: "node_ownerUserId q = Some (rn_actorUserId input)" "node_scope q = privateScope"
    using find_SomeD [OF q] assms(6) by (auto simp: updateWhere_def overwriteNode_def registeredNode_def split: if_splits)
  have "List.find (\<lambda>m. node_id m = rn_nodeId input) (map NodeRow.truncate ?nodes) = Some (NodeRow.truncate q)"
    using q by (simp add: find_map o_def NodeRow.defs)
  then show ?thesis using q own assms(5,8)
    by (simp add: out assertNodeOwnedByActor_def issueRelayToken_def findNode_def NodeRow.defs)
qed

end
