(* ===== verification/Api_Workspaces.thy ===== *)
theory Api_Workspaces
  imports Scheduled_Jobs
begin

text \<open>
  Workspaces of the API service (\<open>services/workspace-service.ts\<close>) and their pull requests
  (\<open>services/workspace-pull-request-service.ts\<close>). The tables that authorisation reads are those of the scheduled jobs,
  in a context that does not change; workspaces are read from \<open>seen\<close> before the writing statement acts on the
  current rows. The unique index over live workspaces treats rows without a branch as different.
\<close>

section \<open>Rows\<close>

datatype WorkspaceKind = PrimaryWorkspace | WorktreeWorkspace

datatype WorkspaceStatus = WsActive | WsClosed | WsClosing | WsProvisioning

record ApiWorkspace =
  aw_id :: string
  aw_organizationId :: string
  aw_projectId :: string
  aw_userId :: string
  aw_nodeId :: string
  aw_kind :: WorkspaceKind
  aw_status :: WorkspaceStatus
  aw_branch :: "string option"
  aw_sourceBranch :: "string option"
  aw_localPath :: string
  aw_updatedAt :: int

datatype WorkspaceError =
    WorkspaceAccessError JobError
  | WorkspaceBranchRequiredError
  | WorkspaceNodeNotFoundError string
  | WorkspaceAlreadyExistsError string string WorkspaceKind "string option"
  | WorkspaceNotFoundError string string
  | PrimaryWorkspaceCloseNotAllowedError string
  | WorkspaceConstraintError

type_synonym 'a WorkspaceResult = "(WorkspaceError + 'a) \<times> ApiWorkspace list"

definition access :: "JobError + 'a \<Rightarrow> WorkspaceError + 'a" where
  "access check = (case check of Inl e \<Rightarrow> Inl (WorkspaceAccessError e) | Inr x \<Rightarrow> Inr x)"

definition liveStatus :: "WorkspaceStatus \<Rightarrow> bool" where
  "liveStatus s \<longleftrightarrow> s \<in> {WsActive, WsProvisioning}"

text \<open>The unique index over live workspaces with a branch.\<close>

definition liveKey :: "ApiWorkspace \<Rightarrow> string \<times> string \<times> string \<times> WorkspaceKind \<times> string option" where
  "liveKey w = (aw_projectId w, aw_userId w, aw_nodeId w, aw_kind w, aw_branch w)"

definition liveConflict :: "ApiWorkspace \<Rightarrow> ApiWorkspace list \<Rightarrow> bool" where
  "liveConflict w rows \<longleftrightarrow>
     liveStatus (aw_status w) \<and> aw_branch w \<noteq> None \<and> list_ex (\<lambda>v. liveStatus (aw_status v) \<and> liveKey v = liveKey w) rows"

section \<open>Creation\<close>

record CreateWorkspaceInput =
  cw_id :: "string option"
  cw_organizationId :: string
  cw_actorUserId :: string
  cw_projectId :: string
  cw_nodeId :: string
  cw_kind :: WorkspaceKind
  cw_branch :: "string option"
  cw_sourceBranch :: "string option"
  cw_localPath :: "string option"

definition newWorkspace :: "int \<Rightarrow> string \<Rightarrow> CreateWorkspaceInput \<Rightarrow> ApiWorkspace" where
  "newWorkspace now newId input =
     (let localPath = nullish (map_option js_trim (cw_localPath input)) [] in
      \<lparr>aw_id = falsy_or (nullish (map_option js_trim (cw_id input)) []) newId, aw_organizationId = cw_organizationId input,
       aw_projectId = cw_projectId input, aw_userId = cw_actorUserId input, aw_nodeId = cw_nodeId input, aw_kind = cw_kind input,
       aw_status = (if localPath \<noteq> [] then WsActive else WsProvisioning), aw_branch = map_option js_trim (cw_branch input),
       aw_sourceBranch = map_option js_trim (cw_sourceBranch input), aw_localPath = localPath, aw_updatedAt = now\<rparr>)"

text \<open>The rows the check before the insertion looks for; an empty branch looks for rows without one.\<close>

definition existingLive :: "CreateWorkspaceInput \<Rightarrow> ApiWorkspace \<Rightarrow> bool" where
  "existingLive input w \<longleftrightarrow>
     aw_organizationId w = cw_organizationId input \<and> aw_projectId w = cw_projectId input \<and> aw_userId w = cw_actorUserId input \<and>
     aw_nodeId w = cw_nodeId input \<and> aw_kind w = cw_kind input \<and>
     aw_branch w = truthy_string (map_option js_trim (cw_branch input)) \<and> liveStatus (aw_status w)"

definition createWorkspace ::
  "int \<Rightarrow> string \<Rightarrow> CreateWorkspaceInput \<Rightarrow> JobDatabase \<Rightarrow> ApiWorkspace list \<Rightarrow> ApiWorkspace list \<Rightarrow> ApiWorkspace WorkspaceResult" where
  "createWorkspace now newId input ctx seen rows =
     ensure (access (assertOrganizationMember ctx (cw_organizationId input) (cw_actorUserId input) None)) rows (\<lambda>_.
     ensure (access (assertNodeOwnedByActor ctx (cw_nodeId input) (cw_actorUserId input))) rows (\<lambda>_.
     let branch = map_option js_trim (cw_branch input);
         exists = Inl (WorkspaceAlreadyExistsError (cw_projectId input) (cw_nodeId input) (cw_kind input) branch)
     in if cw_kind input = WorktreeWorkspace \<and> truthy_string branch = None then (Inl WorkspaceBranchRequiredError, rows)
        else if \<not> list_ex (\<lambda>p. project_id p = cw_projectId input \<and> project_organizationId p = cw_organizationId input) (db_projects ctx)
        then (Inl (WorkspaceAccessError (ProjectNotFoundError (cw_projectId input))), rows)
        else if \<not> memberIn ctx (cw_organizationId input) (cw_actorUserId input) then (Inl (WorkspaceNodeNotFoundError (cw_nodeId input)), rows)
        else if list_ex (existingLive input) seen then (exists, rows)
        else let w = newWorkspace now newId input in
          if list_ex (\<lambda>v. aw_id v = aw_id w) rows then (Inl WorkspaceConstraintError, rows)
          else if liveConflict w rows then (exists, rows)
          else (Inr w, rows @ [w])))"

section \<open>Closing and activating\<close>

record WorkspaceTarget =
  wt_workspaceId :: string
  wt_organizationId :: string
  wt_actorUserId :: string
  wt_projectId :: string

definition targets :: "WorkspaceTarget \<Rightarrow> ApiWorkspace \<Rightarrow> bool" where
  "targets t w \<longleftrightarrow>
     aw_organizationId w = wt_organizationId t \<and> aw_projectId w = wt_projectId t \<and> aw_userId w = wt_actorUserId t \<and>
     aw_id w = wt_workspaceId t"

definition closable :: "WorkspaceStatus \<Rightarrow> WorkspaceStatus \<Rightarrow> bool" where
  "closable targetStatus s \<longleftrightarrow> liveStatus s \<or> (targetStatus = WsClosed \<and> s = WsClosing)"

definition closeWorkspace ::
  "int \<Rightarrow> WorkspaceTarget \<Rightarrow> WorkspaceStatus option \<Rightarrow> JobDatabase \<Rightarrow> ApiWorkspace list \<Rightarrow> ApiWorkspace list \<Rightarrow> (ApiWorkspace \<times> bool) WorkspaceResult" where
  "closeWorkspace now t status ctx seen rows =
     ensure (access (assertOrganizationMember ctx (wt_organizationId t) (wt_actorUserId t) None)) rows (\<lambda>_.
     let targetStatus = nullish status WsClosed;
         missing = Inl (WorkspaceNotFoundError (wt_workspaceId t) (wt_projectId t));
         change = (\<lambda>w. w\<lparr>aw_status := targetStatus, aw_updatedAt := now\<rparr>);
         P = (\<lambda>w. targets t w \<and> closable targetStatus (aw_status w))
     in case List.find (targets t) seen of
       None \<Rightarrow> (missing, rows)
     | Some existing \<Rightarrow>
         if aw_kind existing = PrimaryWorkspace then (Inl (PrimaryWorkspaceCloseNotAllowedError (wt_workspaceId t)), rows)
         else if aw_status existing = targetStatus then (Inr (existing, False), rows)
         else case List.find P rows of
           Some w \<Rightarrow> (Inr (change w, True), updateWhere P change rows)
         | None \<Rightarrow>
             (case List.find (targets t) rows of
                None \<Rightarrow> (missing, rows)
              | Some current \<Rightarrow> (Inr (current, False), rows)))"

definition activatable :: "WorkspaceTarget \<Rightarrow> ApiWorkspace \<Rightarrow> bool" where
  "activatable t w \<longleftrightarrow> targets t w \<and> aw_status w \<in> {WsProvisioning, WsClosing}"

text \<open>Activating a closing workspace fails when its place has been taken.\<close>

definition updateWorkspace ::
  "int \<Rightarrow> WorkspaceTarget \<Rightarrow> string \<Rightarrow> JobDatabase \<Rightarrow> ApiWorkspace list \<Rightarrow> ApiWorkspace WorkspaceResult" where
  "updateWorkspace now t path ctx rows =
     ensure (access (assertOrganizationMember ctx (wt_organizationId t) (wt_actorUserId t) None)) rows (\<lambda>_.
     let change = (\<lambda>w. w\<lparr>aw_status := WsActive, aw_localPath := js_trim path, aw_updatedAt := now\<rparr>)
     in case List.find (activatable t) rows of
       Some w \<Rightarrow>
         if liveConflict (change w) (filter (\<lambda>v. aw_id v \<noteq> aw_id w) rows) then (Inl WorkspaceConstraintError, rows)
         else (Inr (change w), updateWhere (activatable t) change rows)
     | None \<Rightarrow>
         (case List.find (targets t) rows of
            None \<Rightarrow> (Inl (WorkspaceNotFoundError (wt_workspaceId t) (wt_projectId t)), rows)
          | Some existing \<Rightarrow> (Inr existing, rows)))"

section \<open>Pull requests\<close>

datatype PullRequestState = PrOpen | PrClosed | PrMerged

record PullRequestRow =
  pr_id :: string
  pr_workspaceId :: string
  pr_organizationId :: string
  pr_prId :: string
  pr_title :: "string option"
  pr_url :: "string option"
  pr_branch :: "string option"
  pr_baseBranch :: "string option"
  pr_state :: PullRequestState
  pr_detectedAt :: int
  pr_resolvedAt :: "int option"
  pr_updatedAt :: int

definition newerFirst :: "PullRequestRow list \<Rightarrow> PullRequestRow list" where
  "newerFirst rows = sortBy (\<lambda>a b. pr_detectedAt b - pr_detectedAt a) rows"

definition fetchLatestPrByWorkspaceId :: "string \<Rightarrow> string list \<Rightarrow> PullRequestRow list \<Rightarrow> string \<Rightarrow> PullRequestRow option" where
  "fetchLatestPrByWorkspaceId organizationId workspaceIds prs workspaceId =
     (case newerFirst (filter (\<lambda>r. pr_organizationId r = organizationId \<and> pr_workspaceId r \<in> set workspaceIds \<and>
         pr_workspaceId r = workspaceId) prs) of
        [] \<Rightarrow> None
      | r # rs \<Rightarrow> Some r)"

definition listWorkspaces ::
  "string \<Rightarrow> string \<Rightarrow> string \<Rightarrow> JobDatabase \<Rightarrow> PullRequestRow list \<Rightarrow> ApiWorkspace list \<Rightarrow>
   WorkspaceError + (ApiWorkspace \<times> PullRequestRow option) list" where
  "listWorkspaces organizationId projectId actorUserId ctx prs rows =
     (case access (assertOrganizationMember ctx organizationId actorUserId None) of
        Inl e \<Rightarrow> Inl e
      | Inr _ \<Rightarrow>
          let mine = filter (\<lambda>w. aw_organizationId w = organizationId \<and> aw_projectId w = projectId \<and> aw_userId w = actorUserId \<and>
                liveStatus (aw_status w)) rows
          in Inr (map (\<lambda>w. (w, fetchLatestPrByWorkspaceId organizationId (map aw_id mine) prs (aw_id w))) mine))"

text \<open>The detection time of a known pull request stays.\<close>

definition upsertPullRequest :: "PullRequestRow \<Rightarrow> PullRequestRow list \<Rightarrow> PullRequestRow list" where
  "upsertPullRequest new prs =
     (if list_ex (\<lambda>r. pr_workspaceId r = pr_workspaceId new \<and> pr_prId r = pr_prId new) prs
      then updateWhere (\<lambda>r. pr_workspaceId r = pr_workspaceId new \<and> pr_prId r = pr_prId new)
        (\<lambda>r. r\<lparr>pr_title := pr_title new, pr_url := pr_url new, pr_branch := pr_branch new, pr_baseBranch := pr_baseBranch new,
              pr_state := pr_state new, pr_resolvedAt := pr_resolvedAt new, pr_updatedAt := pr_updatedAt new\<rparr>) prs
      else prs @ [new])"

definition upsertWorkspacePullRequest ::
  "int \<Rightarrow> string \<Rightarrow> PullRequestRow \<Rightarrow> JobDatabase \<Rightarrow> ApiWorkspace list \<Rightarrow> PullRequestRow list \<Rightarrow> (WorkspaceError + unit) \<times> PullRequestRow list" where
  "upsertWorkspacePullRequest now actorUserId input ctx rows prs =
     ensure (access (assertOrganizationMember ctx (pr_organizationId input) actorUserId None)) prs (\<lambda>_.
     if \<not> list_ex (\<lambda>w. aw_id w = pr_workspaceId input \<and> aw_organizationId w = pr_organizationId input) rows
     then (Inl (WorkspaceNotFoundError [] []), prs)
     else let resolvedAt = (case pr_resolvedAt input of
                Some t \<Rightarrow> Some t
              | None \<Rightarrow> if pr_state input \<in> {PrClosed, PrMerged} then Some now else None)
          in (Inr (), upsertPullRequest (input\<lparr>pr_resolvedAt := resolvedAt, pr_updatedAt := now\<rparr>) prs))"

definition listWorkspacePullRequests ::
  "string \<Rightarrow> string \<Rightarrow> string \<Rightarrow> JobDatabase \<Rightarrow> PullRequestRow list \<Rightarrow> WorkspaceError + PullRequestRow list" where
  "listWorkspacePullRequests organizationId workspaceId actorUserId ctx prs =
     (case access (assertOrganizationMember ctx organizationId actorUserId None) of
        Inl e \<Rightarrow> Inl e
      | Inr _ \<Rightarrow> Inr (newerFirst (filter (\<lambda>r. pr_workspaceId r = workspaceId \<and> pr_organizationId r = organizationId) prs)))"

end
