(* ===== verification/Api_Workspace_Properties.thy ===== *)
theory Api_Workspace_Properties
  imports Api_Workspaces
begin

text \<open>
  Workspaces move through their states and never leave the closed one, and two live workspaces never share the
  branch of a project on a node, under every interleaving. The check for workspaces without a branch can be raced.
\<close>

section \<open>Steps\<close>

inductive workspace_step :: "ApiWorkspace list \<Rightarrow> ApiWorkspace list \<Rightarrow> bool" where
  create: "workspace_step rows (snd (createWorkspace now newId input ctx seen rows))"
| close: "nullish status WsClosed \<in> {WsClosing, WsClosed} \<Longrightarrow> workspace_step rows (snd (closeWorkspace now t status ctx seen rows))"
| activate: "workspace_step rows (snd (updateWorkspace now t path ctx rows))"

definition sameWorkspace :: "ApiWorkspace \<Rightarrow> ApiWorkspace \<Rightarrow> bool" where
  "sameWorkspace w v \<longleftrightarrow>
     aw_id v = aw_id w \<and> aw_organizationId v = aw_organizationId w \<and> liveKey v = liveKey w \<and> aw_sourceBranch v = aw_sourceBranch w"

definition workspace_move :: "ApiWorkspace \<Rightarrow> ApiWorkspace \<Rightarrow> bool" where
  "workspace_move w v \<longleftrightarrow> sameWorkspace w v \<and>
     (v = w \<or>
      (liveStatus (aw_status w) \<and> aw_status v \<in> {WsClosing, WsClosed}) \<or>
      (aw_status w = WsClosing \<and> aw_status v = WsClosed) \<or>
      (aw_status w \<in> {WsProvisioning, WsClosing} \<and> aw_status v = WsActive))"

lemma workspace_move_refl: "workspace_move w w"
  by (simp add: workspace_move_def sameWorkspace_def)

lemma updateWhere_moves:
  assumes "\<And>w. P w \<Longrightarrow> workspace_move w (f w)"
  shows "list_all2 workspace_move rows (updateWhere P f rows)"
  using assms by (simp add: updateWhere_def list_all2_map2 workspace_move_refl list_all2_refl)

definition rows_evolve :: "ApiWorkspace list \<Rightarrow> ApiWorkspace list \<Rightarrow> bool" where
  "rows_evolve rows rows' \<longleftrightarrow>
     list_all2 workspace_move rows rows' \<or> (\<exists>w. rows' = rows @ [w] \<and> aw_id w \<notin> aw_id ` set rows)"

lemma rows_evolve_refl: "rows_evolve rows rows"
  by (simp add: rows_evolve_def list_all2_refl workspace_move_refl)

text \<open>The rows each operation can leave.\<close>

lemma create_rows:
  "snd (createWorkspace now newId input ctx seen rows) = rows \<or>
   (let w = newWorkspace now newId input in snd (createWorkspace now newId input ctx seen rows) = rows @ [w] \<and>
      \<not> list_ex (\<lambda>v. aw_id v = aw_id w) rows \<and> \<not> liveConflict w rows)"
  by (simp add: createWorkspace_def ensure_def Let_def split: sum.split)

lemma close_rows:
  "snd (closeWorkspace now t status ctx seen rows) = rows \<or>
   (let s = nullish status WsClosed in snd (closeWorkspace now t status ctx seen rows) =
      updateWhere (\<lambda>w. targets t w \<and> closable s (aw_status w)) (\<lambda>w. w\<lparr>aw_status := s, aw_updatedAt := now\<rparr>) rows)"
  by (cases "List.find (targets t) seen"; cases "List.find (\<lambda>w. targets t w \<and> closable (nullish status WsClosed) (aw_status w)) rows")
    (simp_all add: closeWorkspace_def ensure_def Let_def split: sum.split option.split)

lemma update_rows:
  "snd (updateWorkspace now t path ctx rows) = rows \<or>
   (let change = (\<lambda>w. w\<lparr>aw_status := WsActive, aw_localPath := js_trim path, aw_updatedAt := now\<rparr>) in
    snd (updateWorkspace now t path ctx rows) = updateWhere (activatable t) change rows \<and>
    (\<exists>w. List.find (activatable t) rows = Some w \<and> \<not> liveConflict (change w) (filter (\<lambda>v. aw_id v \<noteq> aw_id w) rows)))"
  by (cases "List.find (activatable t) rows") (simp_all add: updateWorkspace_def ensure_def Let_def split: sum.split option.split)

lemma workspace_step_evolve: "workspace_step rows rows' \<Longrightarrow> rows_evolve rows rows'"
proof (induction rule: workspace_step.induct)
  case (create rows now newId input ctx seen)
  show ?case using create_rows [of now newId input ctx seen rows]
    by (auto simp: rows_evolve_refl Let_def) (auto simp: rows_evolve_def list_ex_iff)
next
  case (close status rows now t ctx seen)
  let ?s = "nullish status WsClosed"
  have "workspace_move w (w\<lparr>aw_status := ?s, aw_updatedAt := now\<rparr>)" if "closable ?s (aw_status w)" for w
    using that close by (auto simp: workspace_move_def sameWorkspace_def liveKey_def closable_def)
  then have "rows_evolve rows (updateWhere (\<lambda>w. targets t w \<and> closable ?s (aw_status w)) (\<lambda>w. w\<lparr>aw_status := ?s, aw_updatedAt := now\<rparr>) rows)"
    unfolding rows_evolve_def by (intro disjI1 updateWhere_moves) simp
  then show ?case using close_rows [of now t status ctx seen rows] by (auto simp: rows_evolve_refl Let_def)
next
  case (activate rows now t path ctx)
  let ?change = "\<lambda>w. w\<lparr>aw_status := WsActive, aw_localPath := js_trim path, aw_updatedAt := now\<rparr>"
  have "rows_evolve rows (updateWhere (activatable t) ?change rows)"
    unfolding rows_evolve_def
    by (intro disjI1 updateWhere_moves) (auto simp: workspace_move_def sameWorkspace_def liveKey_def activatable_def)
  then show ?case using update_rows [of now t path ctx rows] by (auto simp: rows_evolve_refl Let_def)
qed

interpretation workspaceRows: table_history workspace_step "\<lambda>rows. rows" aw_id workspace_move
proof unfold_locales
  show "workspace_step s s' \<Longrightarrow> list_all2 workspace_move s s' \<or> (\<exists>r. s' = s @ [r] \<and> aw_id r \<notin> aw_id ` set s)" for s s'
    using workspace_step_evolve by (simp add: rows_evolve_def)
  show "workspace_move r r' \<Longrightarrow> aw_id r' = aw_id r" for r r' by (simp add: workspace_move_def sameWorkspace_def)
qed

section \<open>One live workspace per branch\<close>

definition holdsBranch :: "ApiWorkspace \<Rightarrow> bool" where
  "holdsBranch w \<longleftrightarrow> liveStatus (aw_status w) \<and> aw_branch w \<noteq> None"

definition branchesUnique :: "ApiWorkspace list \<Rightarrow> bool" where
  "branchesUnique rows \<longleftrightarrow>
     (\<forall>v \<in> set rows. \<forall>w \<in> set rows. holdsBranch v \<and> holdsBranch w \<and> liveKey v = liveKey w \<longrightarrow> aw_id v = aw_id w)"

lemma branchesUniqueD:
  "branchesUnique rows \<Longrightarrow> v \<in> set rows \<Longrightarrow> w \<in> set rows \<Longrightarrow> holdsBranch v \<Longrightarrow> holdsBranch w \<Longrightarrow> liveKey v = liveKey w \<Longrightarrow>
   aw_id v = aw_id w"
  unfolding branchesUnique_def by blast

lemma branchesUniqueI:
  "(\<And>v w. v \<in> set rows \<Longrightarrow> w \<in> set rows \<Longrightarrow> holdsBranch v \<Longrightarrow> holdsBranch w \<Longrightarrow> liveKey v = liveKey w \<Longrightarrow> aw_id v = aw_id w) \<Longrightarrow>
   branchesUnique rows"
  unfolding branchesUnique_def by blast

lemma unique_append:
  assumes "branchesUnique rows" "\<not> liveConflict w rows"
  shows "branchesUnique (rows @ [w])"
proof (rule branchesUniqueI)
  have free: "liveKey v \<noteq> liveKey w" if "v \<in> set rows" "holdsBranch v" "holdsBranch w" for v
    using that assms(2) by (auto simp: liveConflict_def holdsBranch_def list_ex_iff)
  fix u v assume "u \<in> set (rows @ [w])" "v \<in> set (rows @ [w])" "holdsBranch u" "holdsBranch v" "liveKey u = liveKey v"
  then consider "u = v" | "u \<in> set rows" "v = w" | "u = w" "v \<in> set rows" | "u \<in> set rows" "v \<in> set rows" by auto
  then show "aw_id u = aw_id v"
    by cases (use \<open>holdsBranch u\<close> \<open>holdsBranch v\<close> \<open>liveKey u = liveKey v\<close> free branchesUniqueD [OF assms(1)] in \<open>metis+\<close>)
qed

lemma unique_update:
  assumes "branchesUnique rows" "\<And>w. P w \<Longrightarrow> aw_id (f w) = aw_id w \<and> liveKey (f w) = liveKey w \<and> \<not> liveStatus (aw_status (f w))"
  shows "branchesUnique (updateWhere P f rows)"
proof (rule branchesUniqueI)
  have old: "v \<in> set rows" if "v \<in> set (updateWhere P f rows)" "holdsBranch v" for v
    using that assms(2) by (auto simp: updateWhere_def holdsBranch_def split: if_splits)
  fix v w assume "v \<in> set (updateWhere P f rows)" "w \<in> set (updateWhere P f rows)" "holdsBranch v" "holdsBranch w" "liveKey v = liveKey w"
  then show "aw_id v = aw_id w" using old branchesUniqueD [OF assms(1)] by blast
qed

lemma unique_activate:
  assumes "branchesUnique rows" "distinct (map aw_id rows)" "List.find (activatable t) rows = Some w"
    "\<not> liveConflict (f w) (filter (\<lambda>v. aw_id v \<noteq> aw_id w) rows)"
    "\<And>v. aw_id (f v) = aw_id v \<and> liveKey (f v) = liveKey v \<and> aw_branch (f v) = aw_branch v \<and> aw_status (f v) = WsActive"
  shows "branchesUnique (updateWhere (activatable t) f rows)"
proof -
  have w: "w \<in> set rows" "activatable t w" using find_SomeD [OF assms(3)] by auto
  have only: "v = w" if "v \<in> set rows" "activatable t v" for v
    using key_unique [OF assms(2) that(1) w(1)] that(2) w(2) by (simp add: activatable_def targets_def)
  have free: "aw_id v = aw_id w" if "v \<in> set rows" "holdsBranch v" "liveKey v = liveKey w" "aw_branch w \<noteq> None" for v
    using that assms(4,5) by (auto simp: liveConflict_def holdsBranch_def list_ex_iff liveStatus_def)
  have new: "\<exists>u \<in> set rows. (v = u \<and> \<not> activatable t u) \<or> (v = f w \<and> u = w)" if "v \<in> set (updateWhere (activatable t) f rows)" for v
    using that only by (auto simp: updateWhere_def split: if_splits)
  show ?thesis
  proof (rule branchesUniqueI)
    fix a b assume ab: "a \<in> set (updateWhere (activatable t) f rows)" "b \<in> set (updateWhere (activatable t) f rows)"
      "holdsBranch a" "holdsBranch b" "liveKey a = liveKey b"
    then have branch: "aw_branch a \<noteq> None" "aw_branch b \<noteq> None" by (auto simp: holdsBranch_def)
    from new [OF ab(1)] new [OF ab(2)] show "aw_id a = aw_id b"
    proof (elim bexE disjE conjE)
      fix u v assume "u \<in> set rows" "v \<in> set rows" "a = u" "b = v"
      then show ?thesis using ab branchesUniqueD [OF assms(1)] by blast
    next
      fix u v assume "u \<in> set rows" "a = u" "b = f w"
      then show ?thesis using ab branch assms(5) free [of u] by simp
    next
      fix u v assume "v \<in> set rows" "a = f w" "b = v"
      then show ?thesis using ab branch assms(5) free [of v] by simp
    qed simp
  qed
qed

lemma step_unique:
  assumes "workspace_step rows rows'" "branchesUnique rows" "distinct (map aw_id rows)"
  shows "branchesUnique rows'"
  using assms
proof (induction rule: workspace_step.induct)
  case (create rows now newId input ctx seen)
  then show ?case using create_rows [of now newId input ctx seen rows] unique_append by (auto simp: Let_def)
next
  case (close status rows now t ctx seen)
  let ?s = "nullish status WsClosed"
  have "branchesUnique (updateWhere (\<lambda>w. targets t w \<and> closable ?s (aw_status w)) (\<lambda>w. w\<lparr>aw_status := ?s, aw_updatedAt := now\<rparr>) rows)"
    using close by (intro unique_update) (auto simp: liveKey_def liveStatus_def)
  then show ?case using close close_rows [of now t status ctx seen rows] by (auto simp: Let_def)
next
  case (activate rows now t path ctx)
  let ?change = "\<lambda>w. w\<lparr>aw_status := WsActive, aw_localPath := js_trim path, aw_updatedAt := now\<rparr>"
  have "branchesUnique (updateWhere (activatable t) ?change rows)"
    if "List.find (activatable t) rows = Some w" "\<not> liveConflict (?change w) (filter (\<lambda>v. aw_id v \<noteq> aw_id w) rows)" for w
    using activate that by (intro unique_activate [of rows t w]) (auto simp: liveKey_def)
  then show ?case using activate update_rows [of now t path ctx rows] by (auto simp: Let_def)
qed

lemma steps_unique:
  assumes "workspace_step\<^sup>*\<^sup>* [] rows"
  shows "branchesUnique rows \<and> distinct (map aw_id rows)"
  using assms
proof (induction rule: rtranclp_induct)
  case base
  show ?case by (simp add: branchesUnique_def)
next
  case (step rows rows')
  then show ?case using step_unique workspaceRows.keys_distinct by blast
qed

section \<open>Sample\<close>

definition wsContext :: JobDatabase where
  "wsContext = \<lparr>db_jobs = [], db_runs = [], db_nodes = [\<lparr>node_id = ''n'', node_scope = ''private'', node_ownerUserId = Some ''u''\<rparr>],
     db_members = [\<lparr>member_organizationId = ''o'', member_userId = ''u'', member_role = ''member''\<rparr>],
     db_projects = [\<lparr>project_id = ''p'', project_organizationId = ''o''\<rparr>], db_workspaces = []\<rparr>"

definition wsInput :: "WorkspaceKind \<Rightarrow> string option \<Rightarrow> CreateWorkspaceInput" where
  "wsInput kind branch = \<lparr>cw_id = None, cw_organizationId = ''o'', cw_actorUserId = ''u'', cw_projectId = ''p'', cw_nodeId = ''n'',
     cw_kind = kind, cw_branch = branch, cw_sourceBranch = None, cw_localPath = Some ''/x''\<rparr>"

definition wsRows :: "ApiWorkspace list" where
  "wsRows = snd (createWorkspace 1 ''w1'' (wsInput WorktreeWorkspace (Some ''main'')) wsContext [] [])"

definition wsClosedRows :: "ApiWorkspace list" where
  "wsClosedRows = snd (closeWorkspace 2 \<lparr>wt_workspaceId = ''w1'', wt_organizationId = ''o'', wt_actorUserId = ''u'', wt_projectId = ''p''\<rparr>
     None wsContext wsRows wsRows)"

section \<open>Properties\<close>

text \<open>C40: Under every interleaving of creations, closings and activations, whatever they had read, two live
  workspaces of one user on one node never hold the same branch of a project in the same kind, and workspace
  identifiers are unique.\<close>

theorem live_branch_unique:
  assumes "workspace_step\<^sup>*\<^sup>* [] rows" "v \<in> set rows" "w \<in> set rows"
    "aw_status v \<in> {WsActive, WsProvisioning}" "aw_status w \<in> {WsActive, WsProvisioning}"
    "aw_branch v = Some b" "aw_branch w = Some b" "aw_kind v = aw_kind w"
    "aw_projectId v = aw_projectId w" "aw_userId v = aw_userId w" "aw_nodeId v = aw_nodeId w"
  shows "v = w"
proof -
  have "branchesUnique rows" and ids: "distinct (map aw_id rows)" using steps_unique [OF assms(1)] by auto
  then have "aw_id v = aw_id w"
    using branchesUniqueD [of rows v w] assms(2-) by (simp add: holdsBranch_def liveStatus_def liveKey_def)
  then show ?thesis using key_unique [OF ids assms(2,3)] by blast
qed

theorem live_branch_unique_witness:
  "\<exists>w. set (snd (createWorkspace 2 ''w2'' (wsInput WorktreeWorkspace (Some ''main'')) wsContext [] wsRows)) = {w} \<and>
     aw_branch w = Some ''main''"
proof -
  let ?rows = "snd (createWorkspace 2 ''w2'' (wsInput WorktreeWorkspace (Some ''main'')) wsContext [] wsRows)"
  have "workspace_step [] wsRows" unfolding wsRows_def by (rule workspace_step.create)
  moreover have "workspace_step wsRows ?rows" by (rule workspace_step.create)
  ultimately have steps: "workspace_step\<^sup>*\<^sup>* [] ?rows" by simp
  have "list_all (\<lambda>w. aw_status w = WsActive \<and> aw_branch w = Some ''main'' \<and> aw_kind w = WorktreeWorkspace \<and> aw_projectId w = ''p'' \<and>
      aw_userId w = ''u'' \<and> aw_nodeId w = ''n'') ?rows" "?rows \<noteq> []" by code_simp+
  then have all: "\<And>w. w \<in> set ?rows \<Longrightarrow> aw_status w = WsActive \<and> aw_branch w = Some ''main'' \<and> aw_kind w = WorktreeWorkspace \<and>
      aw_projectId w = ''p'' \<and> aw_userId w = ''u'' \<and> aw_nodeId w = ''n''" and "set ?rows \<noteq> {}"
    unfolding list_all_iff by (blast, simp)
  from this(2) obtain w where w: "w \<in> set ?rows" by (meson ex_in_conv)
  have "v = w" if "v \<in> set ?rows" for v
    using live_branch_unique [OF steps that w, where b = "''main''"] all [OF that] all [OF w] by simp
  then show ?thesis using w all by blast
qed

text \<open>A closed workspace is final: its row stays as it is and the only one under its identifier, and closing it
  again reports that nothing changed.\<close>

theorem closed_workspace_is_final:
  assumes "workspace_step\<^sup>*\<^sup>* [] rows" "w \<in> set rows" "aw_status w = WsClosed" "workspace_step\<^sup>*\<^sup>* rows rows'"
  shows "filter (\<lambda>v. aw_id v = aw_id w) rows' = [w] \<and>
    (targets t w \<and> aw_kind w = WorktreeWorkspace \<and>
       access (assertOrganizationMember ctx (wt_organizationId t) (wt_actorUserId t) None) = Inr role \<longrightarrow>
     closeWorkspace now t None ctx rows' rows' = (Inr (w, False), rows'))"
proof -
  have final: "v = w" if "workspace_move w v" for v using that assms(3) by (auto simp: workspace_move_def liveStatus_def)
  have "distinct (map aw_id rows)" using steps_unique [OF assms(1)] by blast
  then have ids: "distinct (map aw_id rows')" by (rule workspaceRows.keys_distinct [OF assms(4)])
  have kept: "w \<in> set rows'" by (rule workspaceRows.final_row_kept [OF assms(4,2)]) (rule final)
  have "filter (\<lambda>v. aw_id v = aw_id w) rows' = [w]"
    using key_unique [OF ids _ kept] kept ids by (intro distinct_set_single) (auto simp: distinct_map)
  moreover have "List.find (targets t) rows' = Some w" if "targets t w"
    using ids kept that by (rule find_unique) (use that in \<open>simp add: targets_def\<close>)
  ultimately show ?thesis using assms(3) by (auto simp: closeWorkspace_def ensure_def Let_def)
qed

theorem closed_workspace_is_final_witness:
  "\<exists>w. wsClosedRows = [w] \<and> filter (\<lambda>v. aw_id v = aw_id w) (snd (updateWorkspace 9
     \<lparr>wt_workspaceId = ''w1'', wt_organizationId = ''o'', wt_actorUserId = ''u'', wt_projectId = ''p''\<rparr> ''/y'' wsContext wsClosedRows)) = [w]"
proof -
  have one: "length wsClosedRows = 1" "list_all (\<lambda>w. aw_status w = WsClosed) wsClosedRows" by code_simp+
  from one(1) obtain w where rows: "wsClosedRows = [w]" by (metis One_nat_def length_0_conv length_Suc_conv)
  note w = rows one(2) [unfolded rows, simplified]
  have "workspace_step [] wsRows" unfolding wsRows_def by (rule workspace_step.create)
  moreover have "workspace_step wsRows wsClosedRows" unfolding wsClosedRows_def by (rule workspace_step.close) simp
  ultimately have "workspace_step\<^sup>*\<^sup>* [] wsClosedRows" by simp
  then have start: "workspace_step\<^sup>*\<^sup>* [] [w]" unfolding rows .
  let ?t = "\<lparr>wt_workspaceId = ''w1'', wt_organizationId = ''o'', wt_actorUserId = ''u'', wt_projectId = ''p''\<rparr>"
  have "workspace_step\<^sup>*\<^sup>* [w] (snd (updateWorkspace 9 ?t ''/y'' wsContext [w]))"
    by (intro r_into_rtranclp workspace_step.activate)
  from closed_workspace_is_final [OF start _ w(2) this] show ?thesis unfolding rows by auto
qed

text \<open>
  The check for a live workspace without a branch is not backed by the unique index, in which rows without a branch
  differ from each other: two requests that both look before either inserts leave two live primary workspaces of
  one project on one node.
\<close>

theorem primary_workspace_race:
  "let first = createWorkspace 1 ''w1'' (wsInput PrimaryWorkspace None) wsContext [] [];
       second = createWorkspace 1 ''w2'' (wsInput PrimaryWorkspace None) wsContext [] (snd first)
   in map (\<lambda>w. (aw_id w, aw_kind w, aw_status w)) (snd second) =
        [(''w1'', PrimaryWorkspace, WsActive), (''w2'', PrimaryWorkspace, WsActive)] \<and>
      fst (createWorkspace 2 ''w3'' (wsInput PrimaryWorkspace None) wsContext (snd second) (snd second)) =
        Inl (WorkspaceAlreadyExistsError ''p'' ''n'' PrimaryWorkspace None)"
  by code_simp

end
