(* ===== verification/Projects.thy ===== *)
theory Projects
  imports Api_Workspaces "HOL-Library.AList"
begin

text \<open>
  Projects of the API service (\<open>services/project-service.ts\<close>, \<open>services/project-config-persistence.ts\<close>), the
  identity of repositories (\<open>lib/repo.ts\<close>), the task prefixes of projects
  (\<open>services/local-task-key-prefix.ts\<close>) and the keys of local tasks, also those of
  \<open>services/user-service.ts\<close>. Prefixes and keys are assigned under a lock, so these operations act on one state.
  The parser of URLs, identifiers and the clock are arguments.
\<close>

section \<open>Rows\<close>

datatype ProjectSourceType = SourceGit | SourceGitLocal | SourceUnknown

record ApiProject = ProjectRow +
  ap_name :: string
  ap_sourceType :: ProjectSourceType
  ap_repoProvider :: "string option"
  ap_repoUrl :: "string option"
  ap_repoKey :: "string option"
  ap_icon :: string
  ap_color :: string
  ap_setupScript :: string
  ap_postScript :: string
  ap_commands :: "(string \<times> string) list"
  ap_contextEnabled :: bool
  ap_taskPrefix :: "string option"
  ap_createdByUserId :: string
  ap_updatedAt :: int

record KeyAllocation =
  ka_scopeId :: string
  ka_localTaskId :: string
  ka_key :: string
  ka_sequenceNumber :: nat

record ProjectTables =
  pt_projects :: "ApiProject list"
  pt_workspaces :: "ApiWorkspace list"
  pt_counters :: "(string \<times> nat) list"
  pt_allocations :: "KeyAllocation list"

datatype ProjectError =
    ProjectAccessError JobError
  | ProjectInvalidGitUrlError string
  | ProjectTaskPrefixAlreadyExistsError string string
  | ProjectAlreadyExistsError string "string option" "string option"
  | ProjectCreateFailedError
  | ProjectTaskPrefixAllocationExhaustedError string
  | LocalTaskKeyAllocationFailedError string
  | ProjectPromotionInvalidSourceTypeError string ProjectSourceType
  | ProjectConfigValidationError
  | ProjectWorkspaceNotFoundError string string

type_synonym 'a ProjectResult = "(ProjectError + 'a) \<times> ProjectTables"

definition projectAccess :: "JobError + 'a \<Rightarrow> ProjectError + 'a" where
  "projectAccess check = (case check of Inl e \<Rightarrow> Inl (ProjectAccessError e) | Inr x \<Rightarrow> Inr x)"

definition isProject :: "string \<Rightarrow> string \<Rightarrow> ApiProject \<Rightarrow> bool" where
  "isProject projectId organizationId p \<longleftrightarrow> project_id p = projectId \<and> project_organizationId p = organizationId"

section \<open>Repositories\<close>

definition lowerChar :: "char \<Rightarrow> char" where
  "lowerChar c =
     (let n = of_char c :: nat in
      if (65 \<le> n \<and> n \<le> 90) \<or> (192 \<le> n \<and> n \<le> 222 \<and> n \<noteq> 215) then char_of (n + 32) else c)"

definition toLowerCase :: "string \<Rightarrow> string" where
  "toLowerCase s = map lowerChar s"

definition normalizeRepoPath :: "string \<Rightarrow> string list" where
  "normalizeRepoPath pathname =
     (let p = (if js_startsWith pathname ''/'' then tl pathname else pathname);
          n = length p - 4;
          q = (if 4 \<le> length p \<and> toLowerCase (drop n p) = ''.git'' then take n p else p)
      in filter (\<lambda>s. s \<noteq> []) (js_split CHR ''/'' q))"

definition inferProviderFromHost :: "string \<Rightarrow> string" where
  "inferProviderFromHost host =
     (let normalized = toLowerCase host in
      if normalized = ''github.com'' then ''github''
      else if normalized = ''gitlab.com'' then ''gitlab''
      else if normalized = ''bitbucket.org'' then ''bitbucket''
      else ''generic'')"

text \<open>The last two segments; \<open>inferRepoSource\<close> has checked that there are two.\<close>

definition buildRepoKey :: "string list \<Rightarrow> string \<Rightarrow> ProjectError + string" where
  "buildRepoKey segments rawUrl =
     (case rev segments of
        repo # owner # _ \<Rightarrow>
          if owner = [] \<or> repo = [] then Inl (ProjectInvalidGitUrlError rawUrl)
          else Inr (toLowerCase owner @ ''/'' @ toLowerCase repo)
      | _ \<Rightarrow> Inl (ProjectInvalidGitUrlError rawUrl))"

definition repoSourceOf :: "string \<Rightarrow> string \<Rightarrow> string \<Rightarrow> ProjectError + (string \<times> string)" where
  "repoSourceOf host path rawUrl =
     (let segments = normalizeRepoPath path in
      if length segments < 2 then Inl (ProjectInvalidGitUrlError rawUrl)
      else case buildRepoKey segments rawUrl of Inl e \<Rightarrow> Inl e | Inr key \<Rightarrow> Inr (inferProviderFromHost host, key))"

record ParsedUrl =
  url_protocol :: string
  url_host :: string
  url_pathname :: string

definition gitSshParts :: "string \<Rightarrow> (string \<times> string) option" where
  "gitSshParts s =
     (let rest = drop 4 s; host = takeWhile (\<lambda>c. c \<noteq> CHR '':'') rest; path = drop (length host + 1) rest in
      if host \<noteq> [] \<and> length host < length rest \<and> path \<noteq> [] \<and> CHR 0x0A \<notin> set path \<and> CHR 0x0D \<notin> set path
      then Some (host, path) else None)"

definition inferRepoSource :: "(string \<Rightarrow> ParsedUrl option) \<Rightarrow> string \<Rightarrow> ProjectError + (string \<times> string)" where
  "inferRepoSource parseUrl repoUrl =
     (let trimmed = js_trim repoUrl in
      if js_startsWith trimmed ''git@'' \<and> CHR '':'' \<in> set trimmed
      then (case gitSshParts trimmed of
              None \<Rightarrow> Inl (ProjectInvalidGitUrlError trimmed)
            | Some (host, path) \<Rightarrow> repoSourceOf host path trimmed)
      else (case parseUrl trimmed of
              None \<Rightarrow> Inl (ProjectInvalidGitUrlError trimmed)
            | Some u \<Rightarrow>
                if url_protocol u \<notin> {''https:'', ''http:'', ''ssh:'', ''git:''} then Inl (ProjectInvalidGitUrlError trimmed)
                else repoSourceOf (url_host u) (url_pathname u) trimmed))"

section \<open>Task prefixes\<close>

definition MIN_PREFIX_LENGTH :: nat where "MIN_PREFIX_LENGTH = 3"
definition MAX_PREFIX_LENGTH :: nat where "MAX_PREFIX_LENGTH = 5"
definition ALPHABET_SIZE :: nat where "ALPHABET_SIZE = 26"
definition COLLISION_CANDIDATE_COUNT :: nat where "COLLISION_CANDIDATE_COUNT = ALPHABET_SIZE ^ 2"
definition FALLBACK_PREFIX :: string where "FALLBACK_PREFIX = ''PRJ''"
definition RESERVED_PREFIX :: string where "RESERVED_PREFIX = ''PERS''"

text \<open>The capital letters of a character in upper case; only the sharp s has two.\<close>

definition upperLetters :: "char \<Rightarrow> string" where
  "upperLetters c =
     (let n = of_char c :: nat in
      if 65 \<le> n \<and> n \<le> 90 then [c]
      else if 97 \<le> n \<and> n \<le> 122 then [char_of (n - 32)]
      else if n = 223 then ''SS''
      else [])"

definition buildPrefixSeed :: "string \<Rightarrow> string" where
  "buildPrefixSeed projectName =
     (let letters = concat (map upperLetters projectName) in
      if MIN_PREFIX_LENGTH \<le> length letters then take MAX_PREFIX_LENGTH letters
      else take MIN_PREFIX_LENGTH (letters @ FALLBACK_PREFIX))"

definition calculateStableHash :: "string \<Rightarrow> nat" where
  "calculateStableHash value = foldl (\<lambda>hash c. (hash * 31 + of_char c) mod 2 ^ 32) 0 value"

definition letterAt :: "nat \<Rightarrow> char" where
  "letterAt i = char_of (65 + i)"

definition buildCollisionSuffix :: "nat \<Rightarrow> string" where
  "buildCollisionSuffix value =
     (let normalized = value mod COLLISION_CANDIDATE_COUNT
      in [letterAt (normalized div ALPHABET_SIZE), letterAt (normalized mod ALPHABET_SIZE)])"

definition buildLegacyTaskPrefixCandidates :: "string \<Rightarrow> string \<Rightarrow> string list" where
  "buildLegacyTaskPrefixCandidates projectName projectId =
     (let initialCandidate = buildPrefixSeed projectName;
          collisionBase = take MIN_PREFIX_LENGTH initialCandidate;
          collisionOffset = calculateStableHash projectId mod COLLISION_CANDIDATE_COUNT
      in (if initialCandidate = RESERVED_PREFIX then [] else [initialCandidate]) @
         filter (\<lambda>c. c \<noteq> RESERVED_PREFIX \<and> c \<noteq> initialCandidate)
           (map (\<lambda>index. collisionBase @ buildCollisionSuffix (collisionOffset + index)) [0..<COLLISION_CANDIDATE_COUNT]))"

definition assignedPrefixes :: "string \<Rightarrow> ApiProject list \<Rightarrow> string list" where
  "assignedPrefixes organizationId projects =
     List.map_filter (\<lambda>p. truthy_string (ap_taskPrefix p)) (filter (\<lambda>p. project_organizationId p = organizationId) projects)"

definition backfillTaskPrefix :: "int \<Rightarrow> string \<Rightarrow> ApiProject \<Rightarrow> ProjectTables \<Rightarrow> (ProjectError + string) \<times> ProjectTables" where
  "backfillTaskPrefix now organizationId project db =
     (case truthy_string (ap_taskPrefix project) of
        Some taskPrefix \<Rightarrow> (Inr taskPrefix, db)
      | None \<Rightarrow>
          (case List.find (\<lambda>c. c \<notin> set (assignedPrefixes organizationId (pt_projects db)))
                  (buildLegacyTaskPrefixCandidates (ap_name project) (project_id project)) of
             None \<Rightarrow> (Inl (ProjectTaskPrefixAllocationExhaustedError (project_id project)), db)
           | Some taskPrefix \<Rightarrow>
               (Inr taskPrefix, db\<lparr>pt_projects := updateWhere (isProject (project_id project) organizationId)
                  (\<lambda>p. p\<lparr>ap_taskPrefix := Some taskPrefix, ap_updatedAt := now\<rparr>) (pt_projects db)\<rparr>)))"

definition findProject :: "ProjectTables \<Rightarrow> string \<Rightarrow> string \<Rightarrow> ProjectError + ApiProject" where
  "findProject db projectId organizationId =
     (case List.find (isProject projectId organizationId) (pt_projects db) of
        None \<Rightarrow> Inl (ProjectAccessError (ProjectNotFoundError projectId))
      | Some p \<Rightarrow> Inr p)"

definition ensureProjectTaskPrefix ::
  "int \<Rightarrow> string \<Rightarrow> string \<Rightarrow> string \<Rightarrow> JobDatabase \<Rightarrow> ProjectTables \<Rightarrow> ApiProject ProjectResult" where
  "ensureProjectTaskPrefix now organizationId projectId actorUserId ctx db =
     ensure (projectAccess (assertOrganizationMember ctx organizationId actorUserId None)) db (\<lambda>_.
     ensure (findProject db projectId organizationId) db (\<lambda>project.
       case backfillTaskPrefix now organizationId project db of
         (Inl e, _) \<Rightarrow> (Inl e, db)
       | (Inr taskPrefix, db') \<Rightarrow>
           (Inr (project\<lparr>ap_taskPrefix := Some taskPrefix,
              ap_updatedAt := if truthy_string (ap_taskPrefix project) = None then now else ap_updatedAt project\<rparr>), db')))"

section \<open>Keys of local tasks\<close>

definition findAllocation :: "string \<Rightarrow> string \<Rightarrow> KeyAllocation list \<Rightarrow> string option" where
  "findAllocation scopeId localTaskId allocations =
     map_option ka_key (List.find (\<lambda>a. ka_scopeId a = scopeId \<and> ka_localTaskId a = localTaskId) allocations)"

text \<open>
  Counting up and recording the key. The counters are 32-bit integers of the database; a counter that is exhausted and a
  key that is taken abort the transaction.
\<close>

definition MAX_COUNTER :: int where "MAX_COUNTER = 2147483647"

definition allocateKey ::
  "string \<Rightarrow> string \<Rightarrow> string \<Rightarrow> (string \<times> nat) list \<Rightarrow> KeyAllocation list \<Rightarrow>
   (string \<times> (string \<times> nat) list \<times> KeyAllocation list) option" where
  "allocateKey scopeId localTaskId taskPrefix counters allocations =
     (let sequenceNumber = (case map_of counters scopeId of None \<Rightarrow> 1 | Some n \<Rightarrow> n + 1);
          key = taskPrefix @ ''-'' @ js_show_nat sequenceNumber
      in if int sequenceNumber > MAX_COUNTER \<or>
            list_ex (\<lambda>a. ka_scopeId a = scopeId \<and> (ka_localTaskId a = localTaskId \<or> ka_key a = key)) allocations then None
         else Some (key, AList.update scopeId sequenceNumber counters,
           allocations @ [\<lparr>ka_scopeId = scopeId, ka_localTaskId = localTaskId, ka_key = key, ka_sequenceNumber = sequenceNumber\<rparr>]))"

definition allocateLocalTaskKey ::
  "int \<Rightarrow> string \<Rightarrow> string \<Rightarrow> string \<Rightarrow> string \<Rightarrow> JobDatabase \<Rightarrow> ProjectTables \<Rightarrow> string ProjectResult" where
  "allocateLocalTaskKey now organizationId projectId actorUserId localTaskId ctx db =
     ensure (projectAccess (assertOrganizationMember ctx organizationId actorUserId None)) db (\<lambda>_.
     ensure (findProject db projectId organizationId) db (\<lambda>project.
       case findAllocation projectId localTaskId (pt_allocations db) of
         Some key \<Rightarrow> (Inr key, db)
       | None \<Rightarrow>
           (case backfillTaskPrefix now organizationId project db of
              (Inl e, _) \<Rightarrow> (Inl e, db)
            | (Inr taskPrefix, db1) \<Rightarrow>
                (case allocateKey projectId localTaskId taskPrefix (pt_counters db1) (pt_allocations db1) of
                   None \<Rightarrow> (Inl (LocalTaskKeyAllocationFailedError ''project''), db)
                 | Some (key, counters, allocations) \<Rightarrow>
                     (Inr key, db1\<lparr>pt_counters := counters, pt_allocations := allocations\<rparr>)))))"

text \<open>The keys of a user's own tasks.\<close>

definition allocatePersonalLocalTaskKey ::
  "string \<Rightarrow> string \<Rightarrow> string list \<Rightarrow> (string \<times> nat) list \<times> KeyAllocation list \<Rightarrow>
   (ProjectError + string) \<times> (string \<times> nat) list \<times> KeyAllocation list" where
  "allocatePersonalLocalTaskKey actorUserId localTaskId userIds db =
     (case findAllocation actorUserId localTaskId (snd db) of
        Some key \<Rightarrow> (Inr key, db)
      | None \<Rightarrow>
          (case if actorUserId \<in> set userIds then allocateKey actorUserId localTaskId RESERVED_PREFIX (fst db) (snd db) else None of
             None \<Rightarrow> (Inl (LocalTaskKeyAllocationFailedError ''personal''), db)
           | Some (key, counters, allocations) \<Rightarrow> (Inr key, counters, allocations)))"

section \<open>Projects\<close>

record CreateProjectInput =
  cp_organizationId :: string
  cp_actorUserId :: string
  cp_name :: string
  cp_taskPrefix :: string
  cp_sourceTypeHint :: "ProjectSourceType option"
  cp_repoUrl :: "string option"
  cp_nodeId :: "string option"
  cp_localPath :: "string option"
  cp_contextEnabled :: "bool option"
  cp_icon :: "string option"
  cp_color :: "string option"

definition newProject :: "int \<Rightarrow> string \<Rightarrow> CreateProjectInput \<Rightarrow> ProjectSourceType \<Rightarrow> (string \<times> string) option \<Rightarrow> ApiProject" where
  "newProject now projectId input sourceType inferred =
     \<lparr>project_id = projectId, project_organizationId = cp_organizationId input, ap_name = js_trim (cp_name input),
      ap_sourceType = sourceType, ap_repoProvider = map_option fst inferred, ap_repoUrl = map_option js_trim (cp_repoUrl input),
      ap_repoKey = (case inferred of Some s \<Rightarrow> Some (snd s) | None \<Rightarrow> if sourceType = SourceGitLocal then Some projectId else None),
      ap_icon = nullish (cp_icon input) ''folder'', ap_color = nullish (cp_color input) ''#1E66F5'', ap_setupScript = [],
      ap_postScript = [], ap_commands = [], ap_contextEnabled = nullish (cp_contextEnabled input) True,
      ap_taskPrefix = Some (js_trim (cp_taskPrefix input)), ap_createdByUserId = cp_actorUserId input, ap_updatedAt = now\<rparr>"

text \<open>
  The two unique indexes, checked in the order of their creation: that of the repository is the older one. Rows with a
  missing column never conflict.
\<close>

definition prefixConflict :: "ApiProject \<Rightarrow> ApiProject list \<Rightarrow> bool" where
  "prefixConflict p rows \<longleftrightarrow>
     ap_taskPrefix p \<noteq> None \<and>
     list_ex (\<lambda>q. project_organizationId q = project_organizationId p \<and> ap_taskPrefix q = ap_taskPrefix p) rows"

definition identityConflict :: "ApiProject \<Rightarrow> ApiProject list \<Rightarrow> bool" where
  "identityConflict p rows \<longleftrightarrow>
     ap_repoProvider p \<noteq> None \<and> ap_repoKey p \<noteq> None \<and>
     list_ex (\<lambda>q. project_organizationId q = project_organizationId p \<and> ap_repoProvider q = ap_repoProvider p \<and>
       ap_repoKey q = ap_repoKey p) rows"

definition primaryWorkspaceOf :: "int \<Rightarrow> string \<Rightarrow> CreateProjectInput \<Rightarrow> string \<Rightarrow> string \<Rightarrow> string \<Rightarrow> ApiWorkspace" where
  "primaryWorkspaceOf now workspaceId input projectId nodeId localPath =
     \<lparr>aw_id = workspaceId, aw_organizationId = cp_organizationId input, aw_projectId = projectId, aw_userId = cp_actorUserId input,
      aw_nodeId = nodeId, aw_kind = PrimaryWorkspace, aw_status = WsActive, aw_branch = None, aw_sourceBranch = None,
      aw_localPath = localPath, aw_updatedAt = now\<rparr>"

definition createProject ::
  "(string \<Rightarrow> ParsedUrl option) \<Rightarrow> int \<Rightarrow> string \<Rightarrow> string \<Rightarrow> CreateProjectInput \<Rightarrow> JobDatabase \<Rightarrow> ProjectTables \<Rightarrow> ApiProject ProjectResult" where
  "createProject parseUrl now projectId workspaceId input ctx db =
     ensure (projectAccess (assertOrganizationMember ctx (cp_organizationId input) (cp_actorUserId input) None)) db (\<lambda>_.
     let repoUrl = truthy_string (map_option js_trim (cp_repoUrl input));
         sourceType = (if repoUrl \<noteq> None then SourceGit else nullish (cp_sourceTypeHint input) SourceUnknown);
         nodeId = truthy_string (map_option js_trim (cp_nodeId input));
         localPath = truthy_string (map_option js_trim (cp_localPath input))
     in ensure (case repoUrl of None \<Rightarrow> Inr None | Some u \<Rightarrow> (case inferRepoSource parseUrl u of Inl e \<Rightarrow> Inl e | Inr s \<Rightarrow> Inr (Some s))) db (\<lambda>inferred.
        ensure (case nodeId of None \<Rightarrow> Inr () | Some n \<Rightarrow> projectAccess (assertNodeOwnedByActor ctx n (cp_actorUserId input))) db (\<lambda>_.
        let project = newProject now projectId input sourceType inferred in
        if list_ex (\<lambda>p. project_id p = projectId) (pt_projects db) then (Inl ProjectCreateFailedError, db)
        else if identityConflict project (pt_projects db)
        then (Inl (ProjectAlreadyExistsError (cp_organizationId input) (ap_repoProvider project) (ap_repoKey project)), db)
        else if prefixConflict project (pt_projects db)
        then (Inl (ProjectTaskPrefixAlreadyExistsError (cp_organizationId input) (js_trim (cp_taskPrefix input))), db)
        else let db1 = db\<lparr>pt_projects := pt_projects db @ [project]\<rparr> in
          case (nodeId, localPath) of
            (Some n, Some path) \<Rightarrow>
              if list_ex (\<lambda>w. aw_id w = workspaceId) (pt_workspaces db) then (Inl ProjectCreateFailedError, db)
              else (Inr project, db1\<lparr>pt_workspaces := pt_workspaces db @ [primaryWorkspaceOf now workspaceId input projectId n path]\<rparr>)
          | _ \<Rightarrow> (Inr project, db1))))"

text \<open>The rows that refer to a deleted project go with it.\<close>

definition deleteProject :: "string \<Rightarrow> string \<Rightarrow> string \<Rightarrow> JobDatabase \<Rightarrow> ProjectTables \<Rightarrow> unit ProjectResult" where
  "deleteProject organizationId projectId actorUserId ctx db =
     ensure (projectAccess (assertOrganizationMember ctx organizationId actorUserId None)) db (\<lambda>_.
     if \<not> list_ex (isProject projectId organizationId) (pt_projects db)
     then (Inl (ProjectAccessError (ProjectNotFoundError projectId)), db)
     else (Inr (), db\<lparr>pt_projects := filter (\<lambda>p. \<not> isProject projectId organizationId p) (pt_projects db),
                      pt_workspaces := filter (\<lambda>w. aw_projectId w \<noteq> projectId) (pt_workspaces db),
                      pt_counters := AList.delete projectId (pt_counters db),
                      pt_allocations := filter (\<lambda>a. ka_scopeId a \<noteq> projectId) (pt_allocations db)\<rparr>))"

definition promoteGitLocalProject ::
  "(string \<Rightarrow> ParsedUrl option) \<Rightarrow> int \<Rightarrow> string \<Rightarrow> string \<Rightarrow> string \<Rightarrow> string \<Rightarrow> JobDatabase \<Rightarrow> ProjectTables \<Rightarrow> ApiProject ProjectResult" where
  "promoteGitLocalProject parseUrl now organizationId projectId actorUserId remoteUrl ctx db =
     ensure (projectAccess (assertOrganizationMember ctx organizationId actorUserId None)) db (\<lambda>_.
     ensure (inferRepoSource parseUrl (js_trim remoteUrl)) db (\<lambda>inferred.
     ensure (findProject db projectId organizationId) db (\<lambda>project.
       let change = (\<lambda>p. p\<lparr>ap_sourceType := SourceGit, ap_repoUrl := Some (js_trim remoteUrl), ap_repoProvider := Some (fst inferred),
                          ap_repoKey := Some (snd inferred), ap_updatedAt := now\<rparr>)
       in if ap_sourceType project \<noteq> SourceGitLocal then (Inl (ProjectPromotionInvalidSourceTypeError projectId (ap_sourceType project)), db)
          else if identityConflict (change project) (filter (\<lambda>p. project_id p \<noteq> projectId) (pt_projects db))
          then (Inl (ProjectAlreadyExistsError organizationId (Some (fst inferred)) (Some (snd inferred))), db)
          else (Inr (change project),
                db\<lparr>pt_projects := updateWhere (isProject projectId organizationId) change (pt_projects db)\<rparr>))))"

record UpdateProjectInput =
  up_organizationId :: string
  up_projectId :: string
  up_actorUserId :: string
  up_localPath :: "string option"
  up_workspaceId :: "string option"
  up_nodeId :: "string option"
  up_name :: "string option"
  up_icon :: "string option"
  up_color :: "string option"
  up_setupScript :: "string option"
  up_postScript :: "string option"
  up_commands :: "(string \<times> string) list option"
  up_contextEnabled :: "bool option"

definition applyProjectConfig :: "int \<Rightarrow> UpdateProjectInput \<Rightarrow> ApiProject \<Rightarrow> ApiProject" where
  "applyProjectConfig now input p =
     p\<lparr>ap_name := nullish (up_name input) (ap_name p), ap_icon := nullish (up_icon input) (ap_icon p),
       ap_color := nullish (up_color input) (ap_color p), ap_setupScript := nullish (up_setupScript input) (ap_setupScript p),
       ap_postScript := nullish (up_postScript input) (ap_postScript p), ap_commands := nullish (up_commands input) (ap_commands p),
       ap_contextEnabled := nullish (up_contextEnabled input) (ap_contextEnabled p), ap_updatedAt := now\<rparr>"

definition selectedPath :: "UpdateProjectInput \<Rightarrow> JobDatabase \<Rightarrow> ProjectError + (string \<times> string \<times> string) option" where
  "selectedPath input ctx =
     (if up_localPath input = None \<and> up_workspaceId input = None \<and> up_nodeId input = None then Inr None
      else case (up_localPath input, up_workspaceId input, up_nodeId input) of
        (Some path, Some workspaceId, Some nodeId) \<Rightarrow>
          if js_trim path = [] \<or> js_trim workspaceId = [] \<or> js_trim nodeId = [] then Inl ProjectConfigValidationError
          else (case projectAccess (assertNodeOwnedByActor ctx nodeId (up_actorUserId input)) of
                  Inl e \<Rightarrow> Inl e
                | Inr _ \<Rightarrow> Inr (Some (path, workspaceId, nodeId)))
      | _ \<Rightarrow> Inl ProjectConfigValidationError)"

definition persistProjectConfig :: "int \<Rightarrow> UpdateProjectInput \<Rightarrow> JobDatabase \<Rightarrow> ProjectTables \<Rightarrow> ApiProject ProjectResult" where
  "persistProjectConfig now input ctx db =
     ensure (selectedPath input ctx) db (\<lambda>selected.
       let isTarget = (\<lambda>w. case selected of None \<Rightarrow> False | Some (path, workspaceId, nodeId) \<Rightarrow>
             aw_id w = workspaceId \<and> aw_organizationId w = up_organizationId input \<and> aw_projectId w = up_projectId input \<and>
             aw_userId w = up_actorUserId input \<and> aw_nodeId w = nodeId \<and> aw_kind w = PrimaryWorkspace);
           rows = (case selected of None \<Rightarrow> pt_workspaces db | Some (path, _) \<Rightarrow>
             updateWhere isTarget (\<lambda>w. w\<lparr>aw_localPath := js_trim path, aw_updatedAt := now\<rparr>) (pt_workspaces db))
       in if selected \<noteq> None \<and> \<not> list_ex isTarget (pt_workspaces db)
          then (Inl (ProjectWorkspaceNotFoundError (nullish (up_workspaceId input) []) (up_projectId input)), db)
          else ensure (findProject db (up_projectId input) (up_organizationId input)) db (\<lambda>project.
            (Inr (applyProjectConfig now input project),
             db\<lparr>pt_workspaces := rows,
                pt_projects := updateWhere (isProject (up_projectId input) (up_organizationId input)) (applyProjectConfig now input)
                  (pt_projects db)\<rparr>)))"

definition updateProject :: "int \<Rightarrow> UpdateProjectInput \<Rightarrow> JobDatabase \<Rightarrow> ProjectTables \<Rightarrow> ApiProject ProjectResult" where
  "updateProject now input ctx db =
     ensure (projectAccess (assertOrganizationMember ctx (up_organizationId input) (up_actorUserId input) None)) db (\<lambda>_.
       persistProjectConfig now input ctx db)"

definition listProjects ::
  "string \<Rightarrow> string \<Rightarrow> bool \<Rightarrow> JobDatabase \<Rightarrow> PullRequestRow list \<Rightarrow> ProjectTables \<Rightarrow>
   ProjectError + (ApiProject \<times> (ApiWorkspace \<times> PullRequestRow option) list) list" where
  "listProjects organizationId actorUserId withWorkspaces ctx prs db =
     (case projectAccess (assertOrganizationMember ctx organizationId actorUserId None) of
        Inl e \<Rightarrow> Inl e
      | Inr _ \<Rightarrow>
          let rows = filter (\<lambda>p. project_organizationId p = organizationId) (pt_projects db);
              mine = filter (\<lambda>w. aw_organizationId w = organizationId \<and> aw_userId w = actorUserId \<and> liveStatus (aw_status w) \<and>
                aw_projectId w \<in> set (map project_id rows)) (pt_workspaces db)
          in Inr (map (\<lambda>p. (p, if \<not> withWorkspaces then [] else
               map (\<lambda>w. (w, fetchLatestPrByWorkspaceId organizationId (map aw_id mine) prs (aw_id w)))
                 (filter (\<lambda>w. aw_projectId w = project_id p) mine))) rows))"

end
