(* ===== verification/Project_Properties.thy ===== *)
theory Project_Properties
  imports Projects
begin

text \<open>
  Task prefixes are well formed and there are enough of them; the keys of the tasks of a project are its prefix with
  the numbers from one on, without gaps, each given to one task; an allocation succeeds and is stable.
\<close>

section \<open>Prefix candidates\<close>

definition isCapital :: "char \<Rightarrow> bool" where
  "isCapital c \<longleftrightarrow> 65 \<le> (of_char c :: nat) \<and> (of_char c :: nat) \<le> 90"

text \<open>The form the validation of requests asks for.\<close>

definition wellFormedPrefix :: "string \<Rightarrow> bool" where
  "wellFormedPrefix p \<longleftrightarrow> 3 \<le> length p \<and> length p \<le> 5 \<and> list_all isCapital p \<and> p \<noteq> RESERVED_PREFIX"

lemma upperLetters_capital: "list_all isCapital (upperLetters c)"
proof -
  have "isCapital CHR ''S''" by code_simp
  moreover have "isCapital (char_of (n - 32))" if "97 \<le> n" "n \<le> 122" for n :: nat
  proof -
    have "(of_char (char_of (n - 32) :: char) :: nat) = n - 32" using that by simp
    then show ?thesis using that unfolding isCapital_def by linarith
  qed
  ultimately show ?thesis by (simp add: upperLetters_def Let_def) (simp add: isCapital_def)
qed

lemma seed_capital: "list_all isCapital (buildPrefixSeed name)" "3 \<le> length (buildPrefixSeed name)" "length (buildPrefixSeed name) \<le> 5"
proof -
  have letters: "list_all isCapital (concat (map upperLetters name))"
    using upperLetters_capital by (auto simp: list_all_iff)
  have "list_all isCapital ''PRJ''" by code_simp
  with letters show "list_all isCapital (buildPrefixSeed name)"
    by (auto simp: buildPrefixSeed_def Let_def FALLBACK_PREFIX_def list_all_iff dest!: in_set_takeD)
  show "3 \<le> length (buildPrefixSeed name)" "length (buildPrefixSeed name) \<le> 5"
    by (auto simp: buildPrefixSeed_def Let_def MIN_PREFIX_LENGTH_def MAX_PREFIX_LENGTH_def FALLBACK_PREFIX_def)
qed

lemma letterAt_code: "i < 26 \<Longrightarrow> (of_char (letterAt i) :: nat) = 65 + i"
  by (simp add: letterAt_def)

lemma count_676: "COLLISION_CANDIDATE_COUNT = 676"
  by (simp add: COLLISION_CANDIDATE_COUNT_def ALPHABET_SIZE_def)

lemma suffix_digits: "v mod 676 div 26 < (26 :: nat)" "v mod 676 mod 26 < (26 :: nat)"
proof -
  have "v mod 676 < 676" by simp
  then show "v mod 676 div 26 < 26" by linarith
qed simp

lemma letterAt_inj: "i < 26 \<Longrightarrow> j < 26 \<Longrightarrow> letterAt i = letterAt j \<Longrightarrow> i = j"
proof -
  assume "i < 26" "j < 26" "letterAt i = letterAt j"
  then have "65 + i = 65 + j" using letterAt_code [of i] letterAt_code [of j] by (simp only:)
  then show "i = j" by simp
qed

lemma suffix_inj: "buildCollisionSuffix v = buildCollisionSuffix w \<Longrightarrow> v mod 676 = w mod 676"
proof -
  assume "buildCollisionSuffix v = buildCollisionSuffix w"
  then have same: "letterAt (v mod 676 div 26) = letterAt (w mod 676 div 26)" "letterAt (v mod 676 mod 26) = letterAt (w mod 676 mod 26)"
    by (simp_all only: buildCollisionSuffix_def Let_def count_676 ALPHABET_SIZE_def list.inject)
  have "v mod 676 div 26 = w mod 676 div 26" by (rule letterAt_inj [OF suffix_digits(1) suffix_digits(1) same(1)])
  moreover have "v mod 676 mod 26 = w mod 676 mod 26" by (rule letterAt_inj [OF suffix_digits(2) suffix_digits(2) same(2)])
  ultimately show ?thesis using div_mult_mod_eq [of "v mod 676" 26] div_mult_mod_eq [of "w mod 676" 26] by argo
qed

lemma mod_window:
  assumes "i < n" "j < n" "(a + i) mod n = (a + j) mod (n :: nat)"
  shows "i = j"
proof -
  obtain k l where "a + i + n * k = a + j + n * l" using assms(3) by (auto simp: nat_mod_eq_iff)
  then have "(i + n * k) mod n = (j + n * l) mod n" by simp
  then show ?thesis using assms by simp
qed

definition collisions :: "string \<Rightarrow> nat \<Rightarrow> string list" where
  "collisions base a = map (\<lambda>index. base @ buildCollisionSuffix (a + index)) [0..<676]"

lemma collisions_distinct: "distinct (collisions base a)"
proof -
  have "inj_on (\<lambda>index. base @ buildCollisionSuffix (a + index)) {0..<676}"
  proof (rule inj_onI)
    fix i j assume "i \<in> {0..<676}" "j \<in> {0..<676}" "base @ buildCollisionSuffix (a + i) = base @ buildCollisionSuffix (a + j)"
    then show "i = j" using suffix_inj [of "a + i" "a + j"] mod_window [of i 676 j a] by (simp only: append_same_eq same_append_eq atLeastLessThan_iff)
  qed
  then show ?thesis by (simp add: collisions_def distinct_map)
qed

lemma letterAt_capital: "i < 26 \<Longrightarrow> isCapital (letterAt i)"
  by (simp add: isCapital_def letterAt_code)

lemma suffix_capital: "list_all isCapital (buildCollisionSuffix v)" "length (buildCollisionSuffix v) = 2"
  using letterAt_capital [OF suffix_digits(1), of v] letterAt_capital [OF suffix_digits(2), of v]
  by (simp_all add: buildCollisionSuffix_def Let_def count_676 ALPHABET_SIZE_def)

lemma collisionsD: "c \<in> set (collisions base a) \<Longrightarrow> \<exists>v. c = base @ buildCollisionSuffix v"
  by (auto simp only: collisions_def set_map image_iff)

lemma collision_wellFormed: "c \<in> set (collisions (take 3 (buildPrefixSeed name)) a) \<Longrightarrow> length c = 5 \<and> wellFormedPrefix c"
proof -
  assume "c \<in> set (collisions (take 3 (buildPrefixSeed name)) a)"
  then obtain v where c: "c = take 3 (buildPrefixSeed name) @ buildCollisionSuffix v" using collisionsD by blast
  have "length c = 5" using seed_capital(2) [of name] suffix_capital(2) [of v] by (simp add: c)
  moreover have "list_all isCapital c" using seed_capital(1) [of name] suffix_capital(1) [of v]
    by (auto simp: c list_all_iff dest: in_set_takeD)
  ultimately show ?thesis by (auto simp: wellFormedPrefix_def RESERVED_PREFIX_def)
qed

lemma candidates_shape:
  "buildLegacyTaskPrefixCandidates name pid =
     (let s = buildPrefixSeed name; cs = collisions (take 3 s) (calculateStableHash pid mod 676)
      in if s = RESERVED_PREFIX then cs else s # filter (\<lambda>c. c \<noteq> s) cs)"
proof -
  let ?s = "buildPrefixSeed name"
  let ?cs = "collisions (take 3 ?s) (calculateStableHash pid mod 676)"
  have other: "c \<noteq> RESERVED_PREFIX" if "c \<in> set ?cs" for c
    using collision_wellFormed [OF that] by (simp add: wellFormedPrefix_def)
  have "buildLegacyTaskPrefixCandidates name pid =
      (if ?s = RESERVED_PREFIX then [] else [?s]) @ filter (\<lambda>c. c \<noteq> RESERVED_PREFIX \<and> c \<noteq> ?s) ?cs"
    by (simp only: buildLegacyTaskPrefixCandidates_def Let_def count_676 MIN_PREFIX_LENGTH_def collisions_def)
  moreover have "filter (\<lambda>c. c \<noteq> RESERVED_PREFIX \<and> c \<noteq> ?s) ?cs = filter (\<lambda>c. c \<noteq> ?s) ?cs"
    using other by (intro filter_cong) simp_all
  moreover have "filter (\<lambda>c. c \<noteq> RESERVED_PREFIX) ?cs = ?cs" using other by (intro filter_True) simp
  ultimately show ?thesis by (simp only: Let_def) (cases "?s = RESERVED_PREFIX"; simp)
qed

lemma candidates_wellFormed: "c \<in> set (buildLegacyTaskPrefixCandidates name pid) \<Longrightarrow> wellFormedPrefix c"
proof -
  assume "c \<in> set (buildLegacyTaskPrefixCandidates name pid)"
  then consider "c = buildPrefixSeed name" "c \<noteq> RESERVED_PREFIX"
    | "c \<in> set (collisions (take 3 (buildPrefixSeed name)) (calculateStableHash pid mod 676))"
    by (auto simp only: candidates_shape Let_def list.set set_filter split: if_splits)
  then show ?thesis using collision_wellFormed seed_capital [of name] by cases (simp_all add: wellFormedPrefix_def)
qed

lemma candidates_distinct: "distinct (buildLegacyTaskPrefixCandidates name pid)"
  using collisions_distinct by (simp add: candidates_shape Let_def)

lemma candidates_many: "676 \<le> length (buildLegacyTaskPrefixCandidates name pid)"
proof -
  let ?s = "buildPrefixSeed name"
  let ?cs = "collisions (take 3 ?s) (calculateStableHash pid mod 676)"
  have len: "length ?cs = 676" by (simp add: collisions_def del: upt_rec_numeral)
  have "filter (\<lambda>c. c \<noteq> ?s) ?cs = remove1 ?s ?cs"
    using distinct_remove1_removeAll [OF collisions_distinct] by (simp add: removeAll_filter_not_eq eq_commute)
  then have "675 \<le> length (filter (\<lambda>c. c \<noteq> ?s) ?cs)" using len by (simp add: length_remove1)
  with len show ?thesis by (cases "?s = RESERVED_PREFIX") (simp_all only: candidates_shape Let_def if_True if_False list.size, simp_all)
qed

section \<open>Keys and their tables\<close>

text \<open>A project as far as keys depend on it: its identifier, organization and prefix.\<close>

definition projectIdentity :: "ApiProject \<Rightarrow> string \<times> string \<times> string option" where
  "projectIdentity p = (project_id p, project_organizationId p, ap_taskPrefix p)"

definition keysOf :: "string \<Rightarrow> KeyAllocation list \<Rightarrow> KeyAllocation list" where
  "keysOf s allocations = filter (\<lambda>a. ka_scopeId a = s) allocations"

definition keyCount :: "(string \<times> nat) list \<Rightarrow> string \<Rightarrow> nat" where
  "keyCount counters s = (case map_of counters s of None \<Rightarrow> 0 | Some n \<Rightarrow> n)"

definition keyText :: "string \<Rightarrow> nat \<Rightarrow> string" where
  "keyText x n = x @ ''-'' @ js_show_nat n"

definition prefixesUnique :: "ApiProject list \<Rightarrow> bool" where
  "prefixesUnique ps \<longleftrightarrow>
     distinct (map project_id ps) \<and>
     (\<forall>p \<in> set ps. \<forall>q \<in> set ps. project_organizationId p = project_organizationId q \<and> ap_taskPrefix p = ap_taskPrefix q \<and>
       ap_taskPrefix p \<noteq> None \<longrightarrow> project_id p = project_id q)"

definition numbered :: "(string \<times> nat) list \<Rightarrow> KeyAllocation list \<Rightarrow> bool" where
  "numbered counters allocations \<longleftrightarrow>
     (\<forall>s. map ka_sequenceNumber (keysOf s allocations) = [1..<Suc (keyCount counters s)] \<and>
          distinct (map ka_localTaskId (keysOf s allocations)))"

definition keyOfProject :: "ApiProject list \<Rightarrow> KeyAllocation \<Rightarrow> bool" where
  "keyOfProject ps a \<longleftrightarrow>
     (\<exists>p \<in> set ps. \<exists>x. project_id p = ka_scopeId a \<and> truthy_string (ap_taskPrefix p) = Some x \<and>
       ka_key a = keyText x (ka_sequenceNumber a))"

definition keysGood :: "ProjectTables \<Rightarrow> bool" where
  "keysGood db \<longleftrightarrow> prefixesUnique (pt_projects db) \<and> numbered (pt_counters db) (pt_allocations db) \<and>
     list_all (keyOfProject (pt_projects db)) (pt_allocations db)"

lemma show_nat_no_dash: "CHR ''-'' \<notin> set (js_show_nat n)"
proof
  assume "CHR ''-'' \<in> set (js_show_nat n)"
  then have "isDigit CHR ''-''" using show_nat_digits [of n] by (simp add: list_all_iff)
  then show False by (simp add: isDigit_def)
qed

lemma first_separator: "c \<notin> set xs \<Longrightarrow> c \<notin> set ys \<Longrightarrow> xs @ c # us = ys @ c # vs \<Longrightarrow> xs = ys \<and> us = vs"
proof (induction xs arbitrary: ys)
  case Nil
  then show ?case by (cases ys) auto
next
  case (Cons x xs)
  then show ?case by (cases ys) auto
qed

lemma keyText_inj: "keyText x m = keyText y n \<longleftrightarrow> x = y \<and> m = n"
proof
  assume "keyText x m = keyText y n"
  from arg_cong [OF this, of rev] have "rev (js_show_nat m) @ CHR ''-'' # rev x = rev (js_show_nat n) @ CHR ''-'' # rev y"
    by (simp add: keyText_def)
  then have "rev (js_show_nat m) = rev (js_show_nat n) \<and> rev x = rev y"
    using show_nat_no_dash by (intro first_separator) simp_all
  then show "x = y \<and> m = n" using js_show_nat_inj by simp
qed simp

text \<open>Projects that keep their identity keep everything about keys.\<close>

lemma identity_kept:
  assumes "map projectIdentity ps' = map projectIdentity ps"
  shows "prefixesUnique ps' = prefixesUnique ps" "keyOfProject ps' = keyOfProject ps"
proof -
  have ids: "map project_id ps' = map project_id ps"
    using arg_cong [OF assms, of "map fst"] by (simp add: projectIdentity_def comp_def)
  have sets: "projectIdentity ` set ps' = projectIdentity ` set ps" using arg_cong [OF assms, of set] by simp
  have u: "prefixesUnique qs \<longleftrightarrow> distinct (map project_id qs) \<and>
      (\<forall>p \<in> projectIdentity ` set qs. \<forall>q \<in> projectIdentity ` set qs. snd p = snd q \<and> snd (snd p) \<noteq> None \<longrightarrow> fst p = fst q)" for qs
    by (simp add: prefixesUnique_def projectIdentity_def)
  show "prefixesUnique ps' = prefixesUnique ps" by (simp only: u ids sets)
  have k: "keyOfProject qs a \<longleftrightarrow> (\<exists>p \<in> projectIdentity ` set qs. \<exists>x. fst p = ka_scopeId a \<and>
      truthy_string (snd (snd p)) = Some x \<and> ka_key a = keyText x (ka_sequenceNumber a))" for qs a
    by (simp add: keyOfProject_def projectIdentity_def)
  show "keyOfProject ps' = keyOfProject ps" by (rule ext) (simp only: k sets)
qed

lemma updateWhere_identity:
  "(\<And>p. projectIdentity (f p) = projectIdentity p) \<Longrightarrow> map projectIdentity (updateWhere P f ps) = map projectIdentity ps"
  by (simp add: updateWhere_def)

section \<open>Assigning prefixes and keys\<close>

lemma prefixesUnique_ids: "prefixesUnique ps \<Longrightarrow> distinct (map project_id ps)"
  by (simp add: prefixesUnique_def)

lemma prefixesUniqueD:
  assumes "prefixesUnique ps" "p \<in> set ps" "q \<in> set ps" "project_organizationId p = project_organizationId q"
    "ap_taskPrefix p = ap_taskPrefix q" "ap_taskPrefix p \<noteq> None"
  shows "p = q"
proof (rule key_unique [OF prefixesUnique_ids [OF assms(1)] assms(2,3)])
  show "project_id p = project_id q" using assms unfolding prefixesUnique_def by metis
qed

lemma prefixesUniqueI:
  "distinct (map project_id ps) \<Longrightarrow>
   (\<And>p q. p \<in> set ps \<Longrightarrow> q \<in> set ps \<Longrightarrow> project_organizationId p = project_organizationId q \<Longrightarrow> ap_taskPrefix p = ap_taskPrefix q \<Longrightarrow>
     ap_taskPrefix p \<noteq> None \<Longrightarrow> project_id p = project_id q) \<Longrightarrow> prefixesUnique ps"
  unfolding prefixesUnique_def by metis

lemma updateWhereE:
  assumes "q \<in> set (updateWhere P f rows)"
  obtains "q \<in> set rows" "\<not> P q" | r where "r \<in> set rows" "P r" "q = f r"
  using assms by (auto simp: updateWhere_def split: if_splits)

lemma updateWhere_keys: "(\<And>r. key (f r) = key r) \<Longrightarrow> map key (updateWhere P f rows) = map key rows"
  by (simp add: updateWhere_def)

lemma assign_unique:
  assumes "prefixesUnique ps" "\<And>q. q \<in> set ps \<Longrightarrow> project_organizationId q = org \<Longrightarrow> ap_taskPrefix q \<noteq> Some x"
  shows "prefixesUnique (updateWhere (isProject i org) (\<lambda>p. p\<lparr>ap_taskPrefix := Some x, ap_updatedAt := now\<rparr>) ps)"
    (is "prefixesUnique (updateWhere ?P ?f ps)")
proof (rule prefixesUniqueI)
  show "distinct (map project_id (updateWhere ?P ?f ps))"
    using prefixesUnique_ids [OF assms(1)] updateWhere_keys [of project_id ?f] by simp
  fix p q assume "p \<in> set (updateWhere ?P ?f ps)" and q: "q \<in> set (updateWhere ?P ?f ps)"
    and same: "project_organizationId p = project_organizationId q" "ap_taskPrefix p = ap_taskPrefix q" "ap_taskPrefix p \<noteq> None"
  from this(1) show "project_id p = project_id q"
  proof (cases rule: updateWhereE)
    case 1
    with q same assms(2) show ?thesis
      by (cases rule: updateWhereE) (auto simp: isProject_def dest: prefixesUniqueD [OF assms(1)])
  next
    case (2 r)
    with q same assms(2) show ?thesis by (cases rule: updateWhereE) (auto simp: isProject_def)
  qed
qed

lemma keyOfProject_assign:
  assumes "distinct (map project_id ps)" "p \<in> set ps" "truthy_string (ap_taskPrefix p) = None" "keyOfProject ps a"
  shows "keyOfProject (updateWhere (isProject (project_id p) org) f ps) a"
proof -
  obtain q x where q: "q \<in> set ps" "project_id q = ka_scopeId a" "truthy_string (ap_taskPrefix q) = Some x"
      "ka_key a = keyText x (ka_sequenceNumber a)"
    using assms(4) by (auto simp: keyOfProject_def)
  have "\<not> isProject (project_id p) org q" using key_unique [OF assms(1) q(1) assms(2)] assms(3) q(3) by (auto simp: isProject_def)
  then have "q \<in> set (updateWhere (isProject (project_id p) org) f ps)" using q(1) by (force simp: updateWhere_def)
  then show ?thesis using q unfolding keyOfProject_def by blast
qed

lemma backfill_effect:
  assumes good: "keysGood db" and p: "p \<in> set (pt_projects db)" "project_organizationId p = org"
    and result: "backfillTaskPrefix now org p db = (Inr x, db')"
  shows "keysGood db'" "pt_counters db' = pt_counters db" "pt_allocations db' = pt_allocations db"
    "\<exists>q \<in> set (pt_projects db'). project_id q = project_id p \<and> truthy_string (ap_taskPrefix q) = Some x"
proof -
  let ?f = "\<lambda>p. p\<lparr>ap_taskPrefix := Some x, ap_updatedAt := now\<rparr>"
  let ?ps = "updateWhere (isProject (project_id p) org) ?f (pt_projects db)"
  have all: "keysGood db' \<and> pt_counters db' = pt_counters db \<and> pt_allocations db' = pt_allocations db \<and>
    (\<exists>q \<in> set (pt_projects db'). project_id q = project_id p \<and> truthy_string (ap_taskPrefix q) = Some x)"
  proof (cases "truthy_string (ap_taskPrefix p)")
    case (Some y)
    then show ?thesis using result good p by (auto simp: backfillTaskPrefix_def)
  next
    case None
    then have found: "List.find (\<lambda>c. c \<notin> set (assignedPrefixes org (pt_projects db)))
          (buildLegacyTaskPrefixCandidates (ap_name p) (project_id p)) = Some x"
      and db': "db' = db\<lparr>pt_projects := ?ps\<rparr>"
      using result by (auto simp: backfillTaskPrefix_def Let_def split: option.splits)
    have x: "x \<noteq> []" using candidates_wellFormed [of x "ap_name p" "project_id p"] find_SomeD [OF found] by (auto simp: wellFormedPrefix_def)
    have free: "ap_taskPrefix q \<noteq> Some x" if "q \<in> set (pt_projects db)" "project_organizationId q = org" for q
    proof
      assume "ap_taskPrefix q = Some x"
      with x have "truthy_string (ap_taskPrefix q) = Some x" by (simp add: truthy_string_def)
      with that have "x \<in> set (assignedPrefixes org (pt_projects db))" by (force simp: assignedPrefixes_def List.map_filter_def)
      with find_SomeD [OF found] show False by simp
    qed
    have u: "prefixesUnique (pt_projects db)" using good by (simp add: keysGood_def)
    have "prefixesUnique ?ps" using assign_unique [OF u] free by blast
    moreover have "list_all (keyOfProject ?ps) (pt_allocations db)"
      using good keyOfProject_assign [OF prefixesUnique_ids [OF u] p(1) None] by (simp add: keysGood_def list_all_iff)
    moreover have "?f p \<in> set ?ps" using p by (force simp: updateWhere_def isProject_def)
    ultimately show ?thesis unfolding db' using good x
      by (intro conjI bexI [of _ "?f p"]) (simp_all add: keysGood_def truthy_string_def)
  qed
  then show "keysGood db'" "pt_counters db' = pt_counters db" "pt_allocations db' = pt_allocations db"
    "\<exists>q \<in> set (pt_projects db'). project_id q = project_id p \<and> truthy_string (ap_taskPrefix q) = Some x" by blast+
qed

lemma backfill_succeeds:
  assumes "truthy_string (ap_taskPrefix p) \<noteq> None \<or> length (assignedPrefixes org (pt_projects db)) < 676"
  shows "\<exists>x db'. backfillTaskPrefix now org p db = (Inr x, db')"
proof (cases "truthy_string (ap_taskPrefix p)")
  case (Some y)
  then show ?thesis by (simp add: backfillTaskPrefix_def)
next
  case None
  let ?cs = "buildLegacyTaskPrefixCandidates (ap_name p) (project_id p)"
  let ?as = "assignedPrefixes org (pt_projects db)"
  have "card (set ?as) < card (set ?cs)"
    using None assms candidates_many [of "ap_name p" "project_id p"] card_length [of ?as]
    by (simp add: distinct_card [OF candidates_distinct])
  then have "\<not> set ?cs \<subseteq> set ?as" using card_mono [of "set ?as" "set ?cs"] by auto
  then obtain x where "List.find (\<lambda>c. c \<notin> set ?as) ?cs = Some x" by (cases "List.find (\<lambda>c. c \<notin> set ?as) ?cs") (auto simp: find_None_iff)
  with None show ?thesis by (simp add: backfillTaskPrefix_def)
qed

lemma keyCount_update: "keyCount (AList.update s n counters) t = (if t = s then n else keyCount counters t)"
  by (simp add: keyCount_def update_conv')

lemma numbered_range:
  assumes "numbered counters allocations" "a \<in> set allocations"
  shows "1 \<le> ka_sequenceNumber a \<and> ka_sequenceNumber a \<le> keyCount counters (ka_scopeId a)"
proof -
  have "a \<in> set (keysOf (ka_scopeId a) allocations)" using assms(2) by (simp add: keysOf_def)
  then have "ka_sequenceNumber a \<in> set (map ka_sequenceNumber (keysOf (ka_scopeId a) allocations))" by simp
  also have "\<dots> = {1..<Suc (keyCount counters (ka_scopeId a))}" using assms(1) by (simp add: numbered_def del: upt_Suc)
  finally show ?thesis by simp
qed

lemma numbered_add:
  assumes "numbered counters allocations" "findAllocation s i allocations = None"
    "ka_scopeId a = s" "ka_localTaskId a = i" "ka_sequenceNumber a = Suc (keyCount counters s)"
  shows "numbered (AList.update s (Suc (keyCount counters s)) counters) (allocations @ [a])"
proof -
  have fresh: "i \<notin> ka_localTaskId ` set (keysOf s allocations)"
    using assms(2) by (auto simp: findAllocation_def keysOf_def find_None_iff)
  have keys: "keysOf t (allocations @ [a]) = (if t = s then keysOf s allocations @ [a] else keysOf t allocations)" for t
    using assms(3) by (simp add: keysOf_def)
  have old: "map ka_sequenceNumber (keysOf t allocations) = [1..<Suc (keyCount counters t)]"
      "distinct (map ka_localTaskId (keysOf t allocations))" for t
    using assms(1) by (simp_all add: numbered_def del: upt_Suc)
  show ?thesis unfolding numbered_def
  proof (rule allI)
    fix t show "map ka_sequenceNumber (keysOf t (allocations @ [a])) =
        [1..<Suc (keyCount (AList.update s (Suc (keyCount counters s)) counters) t)] \<and>
        distinct (map ka_localTaskId (keysOf t (allocations @ [a])))"
      using old [of t] fresh assms(4,5) upt_Suc_append [of 1 "Suc (keyCount counters s)"]
      by (cases "t = s") (simp_all add: keys keyCount_update del: upt_Suc)
  qed
qed

lemma keyOfProjectD:
  assumes "keyOfProject ps a" "distinct (map project_id ps)" "q \<in> set ps" "project_id q = ka_scopeId a"
    "truthy_string (ap_taskPrefix q) = Some x"
  shows "ka_key a = keyText x (ka_sequenceNumber a)"
proof -
  obtain p y where p: "p \<in> set ps" "project_id p = ka_scopeId a" "truthy_string (ap_taskPrefix p) = Some y"
      "ka_key a = keyText y (ka_sequenceNumber a)"
    using assms(1) by (auto simp: keyOfProject_def)
  have "p = q" using key_unique [OF assms(2) p(1) assms(3)] p(2) assms(4) by simp
  with p(3,4) assms(5) show ?thesis by simp
qed

lemma allocateKey_effect:
  assumes good: "keysGood db" and q: "q \<in> set (pt_projects db)" "project_id q = s" "truthy_string (ap_taskPrefix q) = Some x"
    and free: "findAllocation s i (pt_allocations db) = None" and room: "int (keyCount (pt_counters db) s) < MAX_COUNTER"
  defines "n \<equiv> Suc (keyCount (pt_counters db) s)"
  defines "a \<equiv> \<lparr>ka_scopeId = s, ka_localTaskId = i, ka_key = keyText x n, ka_sequenceNumber = n\<rparr>"
  shows "allocateKey s i x (pt_counters db) (pt_allocations db) =
      Some (keyText x n, AList.update s n (pt_counters db), pt_allocations db @ [a])"
    and "keysGood (db\<lparr>pt_counters := AList.update s n (pt_counters db), pt_allocations := pt_allocations db @ [a]\<rparr>)"
proof -
  have parts: "prefixesUnique (pt_projects db)" "numbered (pt_counters db) (pt_allocations db)"
      "\<And>b. b \<in> set (pt_allocations db) \<Longrightarrow> keyOfProject (pt_projects db) b"
    using good by (simp_all add: keysGood_def list_all_iff)
  have "ka_localTaskId b \<noteq> i \<and> ka_key b \<noteq> keyText x n" if b: "b \<in> set (pt_allocations db)" "ka_scopeId b = s" for b
  proof
    show "ka_localTaskId b \<noteq> i" using free b by (auto simp: findAllocation_def find_None_iff)
    have "ka_key b = keyText x (ka_sequenceNumber b)"
      using keyOfProjectD [OF parts(3) [OF b(1)] prefixesUnique_ids [OF parts(1)] q(1)] q(2,3) b(2) by simp
    then show "ka_key b \<noteq> keyText x n" using numbered_range [OF parts(2) b(1)] b(2) by (simp add: keyText_inj n_def)
  qed
  moreover have "(case map_of (pt_counters db) s of None \<Rightarrow> 1 | Some m \<Rightarrow> m + 1) = n"
    by (simp add: n_def keyCount_def split: option.split)
  ultimately show "allocateKey s i x (pt_counters db) (pt_allocations db) =
      Some (keyText x n, AList.update s n (pt_counters db), pt_allocations db @ [a])"
    using room by (auto simp: allocateKey_def Let_def keyText_def list_ex_iff a_def n_def)
  have "keyOfProject (pt_projects db) a" using q by (auto simp: keyOfProject_def a_def)
  moreover have "numbered (AList.update s n (pt_counters db)) (pt_allocations db @ [a])"
    unfolding n_def using numbered_add [OF parts(2) free] by (simp add: a_def n_def)
  ultimately show "keysGood (db\<lparr>pt_counters := AList.update s n (pt_counters db), pt_allocations := pt_allocations db @ [a]\<rparr>)"
    using good by (simp add: keysGood_def)
qed

section \<open>Operations\<close>

lemma findProjectD: "findProject db i org = Inr p \<Longrightarrow> p \<in> set (pt_projects db) \<and> project_id p = i \<and> project_organizationId p = org"
  by (auto simp: findProject_def isProject_def dest: find_SomeD split: option.splits)

lemma allocate_outcome:
  assumes good: "keysGood db" and access: "assertOrganizationMember ctx org actor None = Inr role"
    and project: "findProject db i org = Inr p"
    and filled: "backfillTaskPrefix now org p db = (Inr x, db1)"
    and free: "findAllocation i task (pt_allocations db) = None" and room: "int (keyCount (pt_counters db) i) < MAX_COUNTER"
  defines "n \<equiv> Suc (keyCount (pt_counters db) i)"
  shows "allocateLocalTaskKey now org i actor task ctx db =
      (Inr (keyText x n), db1\<lparr>pt_counters := AList.update i n (pt_counters db), pt_allocations := pt_allocations db @
        [\<lparr>ka_scopeId = i, ka_localTaskId = task, ka_key = keyText x n, ka_sequenceNumber = n\<rparr>]\<rparr>)"
    and "keysGood (snd (allocateLocalTaskKey now org i actor task ctx db))"
proof -
  note p = findProjectD [OF project]
  have db1: "keysGood db1" "pt_counters db1 = pt_counters db" "pt_allocations db1 = pt_allocations db"
    and "\<exists>q \<in> set (pt_projects db1). project_id q = project_id p \<and> truthy_string (ap_taskPrefix q) = Some x"
    using backfill_effect [OF good _ _ filled] p by simp_all
  then obtain q where q: "q \<in> set (pt_projects db1)" "project_id q = i" "truthy_string (ap_taskPrefix q) = Some x" using p by auto
  note effect = allocateKey_effect [OF db1(1) q, unfolded db1(2,3), OF free room, folded n_def]
  show eq: "allocateLocalTaskKey now org i actor task ctx db =
      (Inr (keyText x n), db1\<lparr>pt_counters := AList.update i n (pt_counters db), pt_allocations := pt_allocations db @
        [\<lparr>ka_scopeId = i, ka_localTaskId = task, ka_key = keyText x n, ka_sequenceNumber = n\<rparr>]\<rparr>)"
    using effect(1) by (simp add: allocateLocalTaskKey_def ensure_def projectAccess_def access project filled free db1(2,3))
  show "keysGood (snd (allocateLocalTaskKey now org i actor task ctx db))" unfolding eq using effect(2) by simp
qed

lemma backfill_counters: "backfillTaskPrefix now org p db = (Inr x, db') \<Longrightarrow> pt_counters db' = pt_counters db"
  by (auto simp: backfillTaskPrefix_def split: option.splits)

lemma allocateKey_full: "\<not> int (keyCount counters s) < MAX_COUNTER \<Longrightarrow> allocateKey s i x counters allocations = None"
  by (auto simp: allocateKey_def Let_def keyCount_def MAX_COUNTER_def split: option.splits)

lemma allocate_cases:
  obtains (same) "snd (allocateLocalTaskKey now org i actor task ctx db) = db"
  | (new) role p x db1 where "assertOrganizationMember ctx org actor None = Inr role" "findProject db i org = Inr p"
      "backfillTaskPrefix now org p db = (Inr x, db1)" "findAllocation i task (pt_allocations db) = None"
      "int (keyCount (pt_counters db) i) < MAX_COUNTER"
proof (cases "assertOrganizationMember ctx org actor None")
  case (Inl e)
  then show ?thesis using same by (simp add: allocateLocalTaskKey_def ensure_def projectAccess_def)
next
  case role: (Inr role)
  show ?thesis
  proof (cases "findProject db i org")
    case (Inl e)
    then show ?thesis using same role by (simp add: allocateLocalTaskKey_def ensure_def projectAccess_def)
  next
    case (Inr p)
    show ?thesis
    proof (cases "int (keyCount (pt_counters db) i) < MAX_COUNTER")
      case True
      with Inr show ?thesis using same new [OF role Inr] role
        by (cases "backfillTaskPrefix now org p db"; cases "fst (backfillTaskPrefix now org p db)"; cases "findAllocation i task (pt_allocations db)")
          (auto simp: allocateLocalTaskKey_def ensure_def projectAccess_def)
    next
      case False
      have "allocateKey i task x (pt_counters db1) (pt_allocations db1) = None" if "backfillTaskPrefix now org p db = (Inr x, db1)" for x db1
        using False backfill_counters [OF that] by (simp add: allocateKey_full)
      then show ?thesis using Inr role
        by (intro same) (simp add: allocateLocalTaskKey_def ensure_def projectAccess_def split: option.split sum.split prod.split)
    qed
  qed
qed

lemma allocate_good: "keysGood db \<Longrightarrow> keysGood (snd (allocateLocalTaskKey now org i actor task ctx db))"
  by (cases rule: allocate_cases [of now org i actor task ctx db]) (auto dest: allocate_outcome(2))

lemma prefix_good: "keysGood db \<Longrightarrow> keysGood (snd (ensureProjectTaskPrefix now org i actor ctx db))"
  using backfill_effect(1)
  by (auto simp: ensureProjectTaskPrefix_def ensure_def split: sum.split prod.split dest!: findProjectD)

lemma keysGood_identity:
  assumes "keysGood db" "map projectIdentity ps = map projectIdentity (pt_projects db)"
  shows "keysGood (db\<lparr>pt_projects := ps\<rparr>)" "keysGood (db\<lparr>pt_workspaces := ws, pt_projects := ps\<rparr>)"
  using assms(1) identity_kept [OF assms(2)] by (simp_all add: keysGood_def)

text \<open>The tables each of the other operations can leave.\<close>

definition addsProject :: "ProjectTables \<Rightarrow> ProjectTables \<Rightarrow> bool" where
  "addsProject db db' \<longleftrightarrow> (\<exists>p. pt_projects db' = pt_projects db @ [p] \<and> project_id p \<notin> project_id ` set (pt_projects db) \<and>
     \<not> prefixConflict p (pt_projects db)) \<and> pt_counters db' = pt_counters db \<and> pt_allocations db' = pt_allocations db"

lemma create_tables:
  "snd (createProject parseUrl now i w input ctx db) = db \<or> addsProject db (snd (createProject parseUrl now i w input ctx db))"
proof -
  define p where "p = newProject now i input"
  have id: "project_id (p s inf) = i" for s inf by (simp add: p_def newProject_def)
  have change: "addsProject db (db\<lparr>pt_projects := pt_projects db @ [p s inf]\<rparr>)"
      "addsProject db (db\<lparr>pt_projects := pt_projects db @ [p s inf], pt_workspaces := vs\<rparr>)"
    if "\<not> list_ex (\<lambda>q. project_id q = i) (pt_projects db)" "\<not> prefixConflict (p s inf) (pt_projects db)" for s inf vs
    using that id [of s inf] by (auto simp: addsProject_def list_ex_iff)
  show ?thesis unfolding createProject_def Let_def ensure_def p_def [symmetric]
    by (simp add: change split: sum.split option.split)
qed

lemma promote_tables:
  "\<exists>ps. snd (promoteGitLocalProject parseUrl now org i actor url ctx db) = db\<lparr>pt_projects := ps\<rparr> \<and>
     map projectIdentity ps = map projectIdentity (pt_projects db)"
proof -
  have "map projectIdentity (updateWhere (isProject i org) (\<lambda>p. p\<lparr>ap_sourceType := SourceGit, ap_repoUrl := u, ap_repoProvider := v,
      ap_repoKey := k, ap_updatedAt := now\<rparr>) (pt_projects db)) = map projectIdentity (pt_projects db)" for u v k
    by (rule updateWhere_identity) (simp add: projectIdentity_def)
  moreover have "\<exists>ps. db = db\<lparr>pt_projects := ps\<rparr> \<and> map projectIdentity ps = map projectIdentity (pt_projects db)"
    by (rule exI [of _ "pt_projects db"]) simp
  ultimately show ?thesis unfolding promoteGitLocalProject_def Let_def ensure_def
    by (auto split: sum.split)
qed

lemma config_tables:
  "\<exists>ps ws. snd (updateProject now input ctx db) = db\<lparr>pt_workspaces := ws, pt_projects := ps\<rparr> \<and>
     map projectIdentity ps = map projectIdentity (pt_projects db)"
proof -
  have kept: "map projectIdentity (updateWhere P (applyProjectConfig now input) (pt_projects db)) = map projectIdentity (pt_projects db)" for P
    by (rule updateWhere_identity) (simp add: projectIdentity_def applyProjectConfig_def)
  have none: "\<exists>ps ws. db = db\<lparr>pt_workspaces := ws, pt_projects := ps\<rparr> \<and> map projectIdentity ps = map projectIdentity (pt_projects db)"
    by (intro exI [of _ "pt_projects db"] exI [of _ "pt_workspaces db"]) simp
  have some: "\<exists>ps ws. db\<lparr>pt_workspaces := vs, pt_projects := updateWhere P (applyProjectConfig now input) (pt_projects db)\<rparr> =
      db\<lparr>pt_workspaces := ws, pt_projects := ps\<rparr> \<and> map projectIdentity ps = map projectIdentity (pt_projects db)" for P vs
    using kept by blast
  show ?thesis unfolding updateProject_def persistProjectConfig_def Let_def ensure_def
    using none some by (simp split: sum.split)
qed

lemma add_good:
  assumes "keysGood db" "addsProject db db'"
  shows "keysGood db'"
proof -
  obtain p where p: "pt_projects db' = pt_projects db @ [p]" "project_id p \<notin> project_id ` set (pt_projects db)"
      "\<not> prefixConflict p (pt_projects db)"
    and rest: "pt_counters db' = pt_counters db" "pt_allocations db' = pt_allocations db"
    using assms(2) by (auto simp: addsProject_def)
  have u: "prefixesUnique (pt_projects db)" using assms(1) by (simp add: keysGood_def)
  have other: "\<not> (project_organizationId q = project_organizationId p \<and> ap_taskPrefix q = ap_taskPrefix p \<and> ap_taskPrefix p \<noteq> None)"
    if "q \<in> set (pt_projects db)" for q
    using p(3) that by (auto simp: prefixConflict_def list_ex_iff)
  have "prefixesUnique (pt_projects db')"
  proof (rule prefixesUniqueI)
    show "distinct (map project_id (pt_projects db'))" using prefixesUnique_ids [OF u] p(1,2) by simp
    fix q r assume q: "q \<in> set (pt_projects db')" and r: "r \<in> set (pt_projects db')"
      and same: "project_organizationId q = project_organizationId r" "ap_taskPrefix q = ap_taskPrefix r" "ap_taskPrefix q \<noteq> None"
    show "project_id q = project_id r"
      using q r same other [of q] other [of r] prefixesUniqueD [OF u, of q r] by (auto simp: p(1))
  qed
  moreover have "keyOfProject (pt_projects db') a" if "keyOfProject (pt_projects db) a" for a
    using that by (auto simp: keyOfProject_def p(1))
  ultimately show ?thesis using assms(1) by (simp add: keysGood_def rest list_all_iff)
qed

lemma delete_good:
  assumes "keysGood db"
  shows "keysGood (snd (deleteProject org i actor ctx db))"
proof -
  let ?ps = "filter (\<lambda>p. \<not> isProject i org p) (pt_projects db)"
  let ?as = "filter (\<lambda>a. ka_scopeId a \<noteq> i) (pt_allocations db)"
  have u: "prefixesUnique (pt_projects db)" using assms by (simp add: keysGood_def)
  have "prefixesUnique ?ps"
    using prefixesUnique_ids [OF u] prefixesUniqueD [OF u] by (intro prefixesUniqueI) (auto intro: distinct_map_filter)
  moreover have "keysOf s ?as = (if s = i then [] else keysOf s (pt_allocations db))" for s
    by (auto simp: keysOf_def intro: filter_cong)
  then have "numbered (AList.delete i (pt_counters db)) ?as"
    using assms by (simp add: numbered_def keysGood_def keyCount_def delete_conv' del: upt_Suc)
  moreover have "keyOfProject ?ps a" if "a \<in> set ?as" for a
  proof -
    from that have "keyOfProject (pt_projects db) a" "ka_scopeId a \<noteq> i" using assms by (auto simp: keysGood_def list_all_iff)
    then show ?thesis by (auto simp: keyOfProject_def isProject_def)
  qed
  ultimately show ?thesis using assms
    by (simp add: deleteProject_def ensure_def keysGood_def list_all_iff split: sum.split)
qed

text \<open>The operations, in any order and by any actor; \<open>D\<close> are the projects that may be deleted.\<close>

inductive project_step :: "string set \<Rightarrow> ProjectTables \<Rightarrow> ProjectTables \<Rightarrow> bool" for D where
  ensurePrefix: "project_step D db (snd (ensureProjectTaskPrefix now org i actor ctx db))"
| allocate: "project_step D db (snd (allocateLocalTaskKey now org i actor task ctx db))"
| create: "project_step D db (snd (createProject parseUrl now i w input ctx db))"
| delete: "i \<in> D \<Longrightarrow> project_step D db (snd (deleteProject org i actor ctx db))"
| promote: "project_step D db (snd (promoteGitLocalProject parseUrl now org i actor url ctx db))"
| configure: "project_step D db (snd (updateProject now input ctx db))"

definition migratedTables :: "ProjectTables \<Rightarrow> bool" where
  "migratedTables db \<longleftrightarrow> prefixesUnique (pt_projects db) \<and> pt_counters db = [] \<and> pt_allocations db = []"

lemma migrated_good: "migratedTables db \<Longrightarrow> keysGood db"
  by (simp add: migratedTables_def keysGood_def numbered_def keysOf_def keyCount_def)

lemma project_step_good: "project_step D db db' \<Longrightarrow> keysGood db \<Longrightarrow> keysGood db'"
proof (induction rule: project_step.induct)
  case (create db parseUrl now i w input ctx)
  then show ?case using create_tables [of parseUrl now i w input ctx db] by (auto intro: add_good)
next
  case (promote db parseUrl now org i actor url ctx)
  then show ?case using promote_tables [of parseUrl now org i actor url ctx db] keysGood_identity(1) by metis
next
  case (configure db now input ctx)
  then show ?case using config_tables [of now input ctx db] keysGood_identity(2) by metis
qed (auto intro: prefix_good allocate_good delete_good)

interpretation projectTables: state_machine migratedTables "project_step UNIV" keysGood
  by unfold_locales (auto intro: migrated_good project_step_good)

section \<open>Keys last\<close>

definition keepsKeys :: "string \<Rightarrow> ProjectTables \<Rightarrow> ProjectTables \<Rightarrow> bool" where
  "keepsKeys i db db' \<longleftrightarrow>
     (\<exists>bs. keysOf i (pt_allocations db') = keysOf i (pt_allocations db) @ bs) \<and>
     (\<forall>org. list_ex (isProject i org) (pt_projects db) \<longrightarrow> list_ex (isProject i org) (pt_projects db'))"

lemma keepsKeys_refl: "keepsKeys i db db"
  by (simp add: keepsKeys_def)

lemma keepsKeys_trans: "keepsKeys i db db' \<Longrightarrow> keepsKeys i db' db'' \<Longrightarrow> keepsKeys i db db''"
  by (auto simp: keepsKeys_def)

lemma updateWhere_project:
  "(\<And>p. project_id (f p) = project_id p \<and> project_organizationId (f p) = project_organizationId p) \<Longrightarrow>
   list_ex (isProject i org) (updateWhere P f ps) = list_ex (isProject i org) ps"
  by (auto simp: list_ex_iff updateWhere_def isProject_def)

lemma identity_project:
  assumes "map projectIdentity ps' = map projectIdentity ps"
  shows "list_ex (isProject i org) ps' = list_ex (isProject i org) ps"
proof -
  have "list_ex (isProject i org) qs \<longleftrightarrow> (\<exists>v \<in> projectIdentity ` set qs. fst v = i \<and> fst (snd v) = org)" for qs
    by (simp add: list_ex_iff isProject_def projectIdentity_def)
  moreover have "projectIdentity ` set ps' = projectIdentity ` set ps" using arg_cong [OF assms, of set] by simp
  ultimately show ?thesis by (simp only:)
qed

lemma backfill_keeps:
  assumes "backfillTaskPrefix now org p db = (Inr x, db')"
  shows "pt_allocations db' = pt_allocations db \<and> (\<forall>i org'. list_ex (isProject i org') (pt_projects db') = list_ex (isProject i org') (pt_projects db))"
  using assms by (auto simp: backfillTaskPrefix_def updateWhere_project split: option.splits)

lemma allocate_keeps: "keysGood db \<Longrightarrow> keepsKeys s db (snd (allocateLocalTaskKey now org i actor task ctx db))"
proof (cases rule: allocate_cases [of now org i actor task ctx db])
  case (new role p x db1)
  assume "keysGood db"
  from allocate_outcome(1) [OF this new] backfill_keeps [OF new(3)] show ?thesis by (simp add: keepsKeys_def keysOf_def)
qed (simp add: keepsKeys_refl)

lemma prefix_keeps: "keepsKeys s db (snd (ensureProjectTaskPrefix now org i actor ctx db))"
  by (auto simp: ensureProjectTaskPrefix_def ensure_def keepsKeys_def split: sum.split prod.split dest: backfill_keeps)

lemma delete_keeps: "i \<noteq> s \<Longrightarrow> keepsKeys s db (snd (deleteProject org i actor ctx db))"
proof -
  assume "i \<noteq> s"
  then have "keysOf s (filter (\<lambda>a. ka_scopeId a \<noteq> i) as) = keysOf s as" for as by (auto simp: keysOf_def intro: filter_cong)
  moreover have "list_ex (isProject s org') (filter (\<lambda>p. \<not> isProject i org p) ps) = list_ex (isProject s org') ps" for ps org'
    using \<open>i \<noteq> s\<close> by (auto simp: list_ex_iff isProject_def)
  ultimately show ?thesis by (simp add: deleteProject_def ensure_def keepsKeys_def split: sum.split)
qed

lemma project_step_keeps: "project_step D db db' \<Longrightarrow> keysGood db \<Longrightarrow> s \<notin> D \<Longrightarrow> keepsKeys s db db'"
proof (induction rule: project_step.induct)
  case (create db parseUrl now i w input ctx)
  then show ?case using create_tables [of parseUrl now i w input ctx db] by (auto simp: keepsKeys_def addsProject_def)
next
  case (delete i db org actor ctx)
  then have "i \<noteq> s" by auto
  then show ?case by (rule delete_keeps)
next
  case (promote db parseUrl now org i actor url ctx)
  then show ?case using promote_tables [of parseUrl now org i actor url ctx db] by (auto simp: keepsKeys_def dest: identity_project)
next
  case (configure db now input ctx)
  then show ?case using config_tables [of now input ctx db] by (auto simp: keepsKeys_def dest: identity_project)
qed (auto intro: prefix_keeps allocate_keeps)

lemma project_steps_keep:
  assumes "(project_step D)\<^sup>*\<^sup>* db db'" "keysGood db" "s \<notin> D"
  shows "keysGood db' \<and> keepsKeys s db db'"
  using assms by (induction rule: rtranclp_induct) (auto intro: keepsKeys_refl keepsKeys_trans project_step_good project_step_keeps)

lemma findAllocation_keys:
  "findAllocation s task allocations = map_option ka_key (List.find (\<lambda>a. ka_localTaskId a = task) (keysOf s allocations))"
  by (induction allocations) (auto simp: findAllocation_def keysOf_def)

lemma find_append_Some: "List.find P xs = Some x \<Longrightarrow> List.find P (xs @ ys) = Some x"
  by (induction xs) auto

lemma findAllocation_kept:
  assumes "keepsKeys s db db'" "findAllocation s task (pt_allocations db) = Some key"
  shows "findAllocation s task (pt_allocations db') = Some key"
  using assms by (auto simp: keepsKeys_def findAllocation_keys find_append_Some)

lemma allocate_again:
  assumes "assertOrganizationMember ctx org actor None = Inr role" "list_ex (isProject i org) (pt_projects db)"
    "findAllocation i task (pt_allocations db) = Some key"
  shows "allocateLocalTaskKey now org i actor task ctx db = (Inr key, db)"
proof -
  obtain p where "findProject db i org = Inr p"
    using assms(2) by (cases "List.find (isProject i org) (pt_projects db)") (auto simp: findProject_def find_None_iff list_ex_iff)
  then show ?thesis using assms by (simp add: allocateLocalTaskKey_def ensure_def projectAccess_def)
qed

lemma allocate_recorded:
  assumes "keysGood db" "fst (allocateLocalTaskKey now org i actor task ctx db) = Inr key"
  shows "list_ex (isProject i org) (pt_projects db)"
    "findAllocation i task (pt_allocations (snd (allocateLocalTaskKey now org i actor task ctx db))) = Some key"
proof -
  obtain role p where access: "assertOrganizationMember ctx org actor None = Inr role" and p: "findProject db i org = Inr p"
    using assms(2) by (auto simp: allocateLocalTaskKey_def ensure_def projectAccess_def split: sum.splits)
  then show "list_ex (isProject i org) (pt_projects db)" using findProjectD [OF p] by (auto simp: list_ex_iff isProject_def)
  show "findAllocation i task (pt_allocations (snd (allocateLocalTaskKey now org i actor task ctx db))) = Some key"
  proof (cases "findAllocation i task (pt_allocations db)")
    case (Some k)
    with access p assms(2) show ?thesis by (simp add: allocateLocalTaskKey_def ensure_def projectAccess_def)
  next
    case None
    obtain x db1 where filled: "backfillTaskPrefix now org p db = (Inr x, db1)"
      using assms(2) access p None
      by (cases "backfillTaskPrefix now org p db"; cases "fst (backfillTaskPrefix now org p db)")
        (auto simp: allocateLocalTaskKey_def ensure_def projectAccess_def)
    have room: "int (keyCount (pt_counters db) i) < MAX_COUNTER"
      using assms(2) access p None filled
      by (cases "int (keyCount (pt_counters db) i) < MAX_COUNTER")
        (simp_all add: allocateLocalTaskKey_def ensure_def projectAccess_def backfill_counters [OF filled] allocateKey_full)
    have out: "allocateLocalTaskKey now org i actor task ctx db = (Inr (keyText x n), db1\<lparr>pt_counters := c, pt_allocations := pt_allocations db @
        [\<lparr>ka_scopeId = i, ka_localTaskId = task, ka_key = keyText x n, ka_sequenceNumber = n\<rparr>]\<rparr>)"
      if "n = Suc (keyCount (pt_counters db) i)" "c = AList.update i n (pt_counters db)" for n c
      using allocate_outcome(1) [OF assms(1) access p filled None room] that by simp
    have "List.find P (xs @ [a]) = (case List.find P xs of None \<Rightarrow> if P a then Some a else None | Some b \<Rightarrow> Some b)"
      for P and xs :: "KeyAllocation list" and a by (induction xs) auto
    then show ?thesis using None assms(2) out [OF refl refl] by (simp add: findAllocation_def)
  qed
qed

section \<open>Sample tables\<close>

text \<open>A project without a prefix, from before there were prefixes, and one with a prefix, in one organization.\<close>

definition keyProject :: "string \<Rightarrow> string option \<Rightarrow> ApiProject" where
  "keyProject i x = \<lparr>project_id = i, project_organizationId = ''o'', ap_name = ''Desktop app'', ap_sourceType = SourceUnknown,
     ap_repoProvider = None, ap_repoUrl = None, ap_repoKey = None, ap_icon = ''folder'', ap_color = ''#1E66F5'', ap_setupScript = [],
     ap_postScript = [], ap_commands = [], ap_contextEnabled = True, ap_taskPrefix = x, ap_createdByUserId = ''u'', ap_updatedAt = 0\<rparr>"

definition keyTables :: ProjectTables where
  "keyTables = \<lparr>pt_projects = [keyProject ''p'' None, keyProject ''q'' (Some ''WEB'')], pt_workspaces = [], pt_counters = [],
     pt_allocations = []\<rparr>"

definition keyContext :: JobDatabase where
  "keyContext = \<lparr>db_jobs = [], db_runs = [], db_nodes = [],
     db_members = [\<lparr>member_organizationId = ''o'', member_userId = ''u'', member_role = ''member''\<rparr>], db_projects = [], db_workspaces = []\<rparr>"

definition keyAllocated :: ProjectTables where
  "keyAllocated = snd (allocateLocalTaskKey 1 ''o'' ''q'' ''u'' ''t1'' keyContext keyTables)"

lemma keyTables_migrated: "migratedTables keyTables"
  by (simp add: migratedTables_def prefixesUnique_def keyTables_def keyProject_def)

lemma keyContext_member: "assertOrganizationMember keyContext ''o'' ''u'' None = Inr ''member''"
  by code_simp

lemma keyTables_allocate: "fst (allocateLocalTaskKey 1 ''o'' ''q'' ''u'' ''t1'' keyContext keyTables) = Inr ''WEB-1''"
  by code_simp

lemma keyAllocated_reachable: "(project_step UNIV)\<^sup>*\<^sup>* keyTables keyAllocated"
  unfolding keyAllocated_def by (rule r_into_rtranclp) (rule project_step.allocate)

lemma keyAllocated_rows:
  "pt_allocations keyAllocated = [\<lparr>ka_scopeId = ''q'', ka_localTaskId = ''t1'', ka_key = ''WEB-1'', ka_sequenceNumber = 1\<rparr>]"
  "pt_projects keyAllocated = pt_projects keyTables"
  by code_simp+

section \<open>Properties\<close>

text \<open>C34: In every reachable state a key names one task throughout an organization: two allocations with the same key
  whose projects belong to the same organization are the same allocation.\<close>

theorem task_keys_identify:
  assumes "migratedTables db0" "(project_step UNIV)\<^sup>*\<^sup>* db0 db"
    "a \<in> set (pt_allocations db)" "b \<in> set (pt_allocations db)" "ka_key a = ka_key b"
    "p \<in> set (pt_projects db)" "project_id p = ka_scopeId a" "q \<in> set (pt_projects db)" "project_id q = ka_scopeId b"
    "project_organizationId p = project_organizationId q"
  shows "a = b"
proof -
  have good: "prefixesUnique (pt_projects db)" "numbered (pt_counters db) (pt_allocations db)"
      "\<And>c. c \<in> set (pt_allocations db) \<Longrightarrow> keyOfProject (pt_projects db) c"
    using projectTables.reachable_inv [OF assms(1,2)] by (simp_all add: keysGood_def list_all_iff)
  have key: "\<exists>x. truthy_string (ap_taskPrefix r) = Some x \<and> ka_key c = keyText x (ka_sequenceNumber c)"
    if "c \<in> set (pt_allocations db)" "r \<in> set (pt_projects db)" "project_id r = ka_scopeId c" for c r
    using good(3) [OF that(1)] key_unique [OF prefixesUnique_ids [OF good(1)] that(2)] that(3) by (auto simp: keyOfProject_def)
  obtain x where x: "truthy_string (ap_taskPrefix p) = Some x" "ka_key a = keyText x (ka_sequenceNumber a)"
    using key [OF assms(3,6,7)] by auto
  obtain y where y: "truthy_string (ap_taskPrefix q) = Some y" "ka_key b = keyText y (ka_sequenceNumber b)"
    using key [OF assms(4,8,9)] by auto
  have same: "x = y" "ka_sequenceNumber a = ka_sequenceNumber b" using assms(5) x(2) y(2) by (simp_all add: keyText_inj)
  have "ap_taskPrefix p = Some x" "ap_taskPrefix q = Some x"
    using x(1) y(1) same(1) by (auto simp: truthy_string_def split: option.splits if_splits)
  then have scope: "ka_scopeId a = ka_scopeId b"
    using prefixesUniqueD [OF good(1) assms(6,8,10)] assms(7,9) by simp
  have "distinct (map ka_sequenceNumber (keysOf (ka_scopeId a) (pt_allocations db)))"
    using good(2) by (simp add: numbered_def del: upt_Suc)
  moreover have "a \<in> set (keysOf (ka_scopeId a) (pt_allocations db))" "b \<in> set (keysOf (ka_scopeId a) (pt_allocations db))"
    using assms(3,4) scope by (simp_all add: keysOf_def)
  ultimately show ?thesis using same(2) by (rule key_unique)
qed

theorem task_keys_identify_witness:
  "\<exists>a \<in> set (pt_allocations keyAllocated). \<exists>b \<in> set (pt_allocations keyAllocated). ka_key a = ''WEB-1'' \<and> ka_key b = ka_key a \<and> b = a"
proof -
  let ?a = "hd (pt_allocations keyAllocated)"
  have "?a = ?a"
    by (rule task_keys_identify [OF keyTables_migrated keyAllocated_reachable, of ?a ?a "keyProject ''q'' (Some ''WEB'')" "keyProject ''q'' (Some ''WEB'')"])
      (simp_all add: keyAllocated_rows keyTables_def, simp_all add: keyProject_def)
  moreover have "ka_key ?a = ''WEB-1''" "?a \<in> set (pt_allocations keyAllocated)" by (simp_all add: keyAllocated_rows)
  ultimately show ?thesis by blast
qed

text \<open>The keys of the tasks of a project are numbered from one on in the order of their allocation, without gaps, each
  for another task.\<close>

theorem task_keys_sequential:
  assumes "migratedTables db0" "(project_step UNIV)\<^sup>*\<^sup>* db0 db"
  shows "let keys = keysOf i (pt_allocations db) in
    map ka_sequenceNumber keys = [1..<Suc (length keys)] \<and> distinct (map ka_localTaskId keys)"
proof -
  have "map ka_sequenceNumber (keysOf i (pt_allocations db)) = [1..<Suc (keyCount (pt_counters db) i)]"
      "distinct (map ka_localTaskId (keysOf i (pt_allocations db)))"
    using projectTables.reachable_inv [OF assms] by (simp_all add: keysGood_def numbered_def del: upt_Suc)
  moreover from arg_cong [OF this(1), of length] have "length (keysOf i (pt_allocations db)) = keyCount (pt_counters db) i"
    by (simp del: upt_Suc)
  ultimately show ?thesis by (simp del: upt_Suc)
qed

theorem task_keys_sequential_witness:
  "let keys = keysOf ''q'' (pt_allocations keyAllocated) in length keys = 1 \<and> map ka_sequenceNumber keys = [1..<Suc (length keys)]"
  using task_keys_sequential [OF keyTables_migrated keyAllocated_reachable, of "''q''"]
  by (simp add: keyAllocated_rows keysOf_def)

text \<open>C35: A key once given out is given out again for the same task, to every member and whatever happened in between,
  as long as the project is not deleted; asking again changes nothing.\<close>

theorem task_key_stable:
  assumes "migratedTables db0" "(project_step UNIV)\<^sup>*\<^sup>* db0 db"
    "fst (allocateLocalTaskKey now org i actor task ctx db) = Inr key"
    "(project_step D)\<^sup>*\<^sup>* (snd (allocateLocalTaskKey now org i actor task ctx db)) db'" "i \<notin> D"
    "assertOrganizationMember ctx' org actor' None = Inr role"
  shows "allocateLocalTaskKey now' org i actor' task ctx' db' = (Inr key, db')"
proof -
  have good: "keysGood db" using projectTables.reachable_inv [OF assms(1,2)] .
  note recorded = allocate_recorded [OF good assms(3)]
  have later: "keepsKeys i (snd (allocateLocalTaskKey now org i actor task ctx db)) db'"
    using project_steps_keep [OF assms(4) allocate_good [OF good] assms(5)] by simp
  have "keepsKeys i db db'" using keepsKeys_trans [OF allocate_keeps [OF good] later] .
  then have "list_ex (isProject i org) (pt_projects db')" using recorded(1) by (simp add: keepsKeys_def)
  then show ?thesis using allocate_again [OF assms(6)] findAllocation_kept [OF later recorded(2)] by blast
qed

theorem task_key_stable_witness:
  "allocateLocalTaskKey 9 ''o'' ''q'' ''u'' ''t1'' keyContext (snd (deleteProject ''o'' ''p'' ''u'' keyContext keyAllocated)) =
     (Inr ''WEB-1'', snd (deleteProject ''o'' ''p'' ''u'' keyContext keyAllocated))"
  by (rule task_key_stable [OF keyTables_migrated rtranclp.rtrancl_refl keyTables_allocate _ _ keyContext_member, of "{''p''}"])
    (auto simp: keyAllocated_def intro!: r_into_rtranclp project_step.delete)

text \<open>C36: A member of the organization gets a key for every task of an existing project, also where the project has no
  prefix yet and one has to be made up, unless 676 prefixes of the organization are taken or the counter is exhausted.\<close>

theorem task_key_allocation_succeeds:
  assumes "migratedTables db0" "(project_step UNIV)\<^sup>*\<^sup>* db0 db"
    "assertOrganizationMember ctx org actor None = Inr role" "findProject db i org = Inr p"
    "truthy_string (ap_taskPrefix p) \<noteq> None \<or> length (assignedPrefixes org (pt_projects db)) < 676"
    "int (keyCount (pt_counters db) i) < MAX_COUNTER"
  shows "\<exists>key db'. allocateLocalTaskKey now org i actor task ctx db = (Inr key, db') \<and>
    findAllocation i task (pt_allocations db') = Some key"
proof -
  have good: "keysGood db" using projectTables.reachable_inv [OF assms(1,2)] .
  obtain x db1 where filled: "backfillTaskPrefix now org p db = (Inr x, db1)" using backfill_succeeds [OF assms(5)] by blast
  have "\<exists>key db'. allocateLocalTaskKey now org i actor task ctx db = (Inr key, db')"
  proof (cases "findAllocation i task (pt_allocations db)")
    case None
    then show ?thesis using allocate_outcome(1) [OF good assms(3,4) filled None assms(6)] by blast
  next
    case (Some key)
    have "list_ex (isProject i org) (pt_projects db)" using findProjectD [OF assms(4)] by (auto simp: list_ex_iff isProject_def)
    then show ?thesis using allocate_again [OF assms(3) _ Some] by blast
  qed
  then show ?thesis using allocate_recorded(2) [OF good, of now org i actor task ctx] by force
qed

theorem task_key_allocation_succeeds_witness:
  "\<exists>key db'. allocateLocalTaskKey 1 ''o'' ''p'' ''u'' ''t1'' keyContext keyTables = (Inr key, db') \<and>
    findAllocation ''p'' ''t1'' (pt_allocations db') = Some key"
proof (rule task_key_allocation_succeeds [OF keyTables_migrated rtranclp.rtrancl_refl keyContext_member])
  show "findProject keyTables ''p'' ''o'' = Inr (keyProject ''p'' None)"
    by (simp add: findProject_def keyTables_def isProject_def keyProject_def)
  show "truthy_string (ap_taskPrefix (keyProject ''p'' None)) \<noteq> None \<or> length (assignedPrefixes ''o'' (pt_projects keyTables)) < 676"
    by (rule disjI2) code_simp
  show "int (keyCount (pt_counters keyTables) ''p'') < MAX_COUNTER" by (simp add: keyCount_def keyTables_def MAX_COUNTER_def)
qed

end
