(* ===== verification/Spec2Isabelle.thy ===== *)
theory Spec2Isabelle
  imports Split_Pane_Properties Tab_Properties Workbench_Properties Concurrency_Queue_Proofs Completion_Properties
    Agent_Manager_Properties
    Cron_Properties Git_Gutter_Properties Text_Edits_Properties Lsp_Transport_Properties
    Lsp_Diagnostics_Properties Terminal_Queue_Properties Chat_Usage_Properties Chat_Retention_Properties
    Local_Task_Properties File_Tree_Properties File_Listing_Properties Scheduled_Job_Properties File_Refresh_Properties
    Organization_Properties Node_Properties Api_Workspace_Properties Project_Properties
begin

text \<open>
  \<^bold>\<open>Verification of the yishan application logic.\<close>

  Yishan is a desktop workbench (Electron and React) with an API service, agent packages and clients.
  Its logic is TypeScript. This development models the parts that carry state and algorithms of their
  own, translated from the sources, and proves what makes them correct.

  \<^bold>\<open>Parts and theories.\<close> Paths are relative to \<open>src/\<close>; \<open>D\<close> stands for
  \<open>apps/desktop/src/renderer/domains\<close> and \<open>P\<close> for \<open>packages/pi-subagents/src\<close>.

  \<^item> \<open>Yishan_Prelude\<close>: the fragment of the JavaScript library that the sources use (nullish operators, array
    reads, \<open>findIndex\<close>, \<open>splice\<close>, \<open>trim\<close>, \<open>split\<close>, \<open>join\<close>, comparison of numbers), shared lemmas, and the
    interfaces \<open>state_machine\<close> (initial states, a step relation, an invariant), \<open>partial_update\<close> (an operation that
    returns a new state or declines), \<open>comparator\<close> (an order given by a comparison function), \<open>name_search\<close> (the
    search for an unused name by counting up) and \<open>table_history\<close> (a table whose rows move under their keys).

  \<^item> Split panes, \<open>D/workbench/split-pane\<close> and \<open>D/workbench/state/splitPaneStore.ts\<close>. \<open>Split_Pane\<close> holds the
    layout tree (\<open>types.ts\<close>), its navigation and every operation (\<open>treeNavigation.ts\<close>, \<open>operations.ts\<close>,
    \<open>createAdjacentPaneWithTab.ts\<close>, \<open>splitRootPane.ts\<close>); \<open>Split_Pane_Facts\<close>, \<open>Split_Pane_Correct\<close> and
    \<open>Split_Pane_Edits\<close> relate them to operations on the plain list of panes, as an abstract specification,
    and to the layout invariant; \<open>Split_Pane_Store\<close> is the store with one layout per workspace.

  \<^item> Tabs, \<open>D/workbench/tabs\<close> and \<open>D/workbench/state\<close>. \<open>Tabs\<close> (open, close, create), \<open>Tab_Layout\<close> (pin, rename,
    reorder), \<open>Tab_Store\<close> (the store and its actions), \<open>Tab_Content\<close> (the content stores of file and diff
    tabs); \<open>Tab_Facts\<close>, \<open>Tab_Correct\<close>, \<open>Tab_Properties\<close> their correctness.

  \<^item> Commands, \<open>D/workbench/commands\<close> and the close handlers of \<open>D/app\<close>. \<open>Workbench_State\<close> has the small stores,
    \<open>Workbench_Commands\<close> the commands that drive pane store, tab store, content stores and focus together;
    \<open>Workbench_Properties\<close> states what holds across these components.

  \<^item> Sub-agents, \<open>P/delegation\<close> and \<open>P/delivery\<close>. \<open>Concurrency_Queue\<close> is the scheduler of runs
    (\<open>concurrencyQueue.ts\<close>); \<open>Completion_Owner\<close> the delivery of results with retries (\<open>completionOwner.ts\<close>,
    \<open>completionMessage.ts\<close>) and the result collector (\<open>resultCollector.ts\<close>); \<open>Agent_Manager\<close> the lifecycle of
    runs on top of the queue (\<open>agentManager.ts\<close>). \<open>Run_Scheduler\<close> states what the manager relies on of the
    queue as the interface \<open>run_scheduler\<close> and shows that the queue provides it; \<open>Agent_Manager_Proofs\<close>,
    \<open>Agent_Manager_Steps\<close> and \<open>Agent_Manager_Inv\<close> build the manager's invariant on the facts of that
    interface only.

  \<^item> Scheduled jobs, \<open>apps/api-service/src\<close>. \<open>Cron\<close> and \<open>Cron_Properties\<close> are the expressions
    (\<open>scheduled/cron.ts\<close>). \<open>Scheduled_Jobs\<close> has the tables (\<open>db/schema.ts\<close>) and the operations of a node
    (\<open>services/node-scheduled-job-service.ts\<close>, \<open>services/node-scheduled-job-run-service.ts\<close>),
    \<open>Scheduled_Job_Service\<close> those of users and of the service (\<open>services/scheduled-job-service.ts\<close>,
    \<open>services/job-evaluator-service.ts\<close>, \<open>scheduled/consumer.ts\<close>, \<open>scheduled/queue.ts\<close>). An operation reads a state
    that may be out of date and writes the current one. \<open>Scheduled_Job_Proofs\<close> shows that every operation only
    moves rows forward; \<open>Scheduled_Job_Steps\<close> has the step relation over all operations and interprets
    \<open>table_history\<close> on runs, occurrences and jobs; \<open>Scheduled_Job_Properties\<close> the results.

  \<^item> Organizations, \<open>apps/api-service/src/services\<close>. \<open>Organizations\<close> has users, accounts, organizations, members and
    invitations (\<open>organization-service.ts\<close>, \<open>organization-invite-service.ts\<close>, the sign-in of \<open>user-service.ts\<close>) as one
    record of tables, \<open>Organization_Proofs\<close> what each operation can do to them, \<open>Organization_Properties\<close> the step
    relation and the results. As with jobs an operation checks what it has read (\<open>seen\<close>) and writes the current
    tables, where the unique indexes hold.

  \<^item> Nodes, \<open>services/node-service.ts\<close>: \<open>Nodes\<close>, \<open>Node_Properties\<close>. The metrics of the relay and the signature of
    tokens are arguments.

  \<^item> Workspaces, \<open>services/workspace-service.ts\<close> and \<open>services/workspace-pull-request-service.ts\<close>: \<open>Api_Workspaces\<close>,
    \<open>Api_Workspace_Properties\<close>, which interprets \<open>table_history\<close> on workspaces.

  \<^item> Projects and task keys, \<open>services/project-service.ts\<close>, \<open>services/project-config-persistence.ts\<close>,
    \<open>services/local-task-key-prefix.ts\<close>, \<open>lib/repo.ts\<close>: \<open>Projects\<close>, \<open>Project_Properties\<close>. Prefixes and keys are
    assigned under a lock of the database, so these operations act on one state.

  \<^item> Git gutter, \<open>D/files/features/file-editor/git-gutter/gitGutterDiff.ts\<close>: \<open>Git_Gutter\<close>, \<open>Git_Gutter_Proofs\<close>,
    \<open>Git_Gutter_Properties\<close>.

  \<^item> Language-server edits, \<open>packages/pi-lsp/src/helpers/textEdits.ts\<close> and \<open>tools/runFix.ts\<close>: \<open>Text_Edits\<close>,
    \<open>Text_Edits_Properties\<close>.

  \<^item> Language-server connection, \<open>packages/pi-lsp/src/lsp\<close>: \<open>Lsp_Transport\<close> (\<open>transport.ts\<close>: framing over chunks of
    bytes, requests and their timeouts), \<open>Lsp_Diagnostics\<close> (\<open>diagnostics.ts\<close>: waits for fresh diagnostics), and
    their \<open>_Properties\<close>.

  \<^item> Agent chat, \<open>D/agent/chat\<close> and \<open>D/agent/state\<close>: \<open>Chat_Messages\<close> (messages and their usage), \<open>Chat_Usage\<close>
    (the ledger \<open>agentChatUsageLedger.ts\<close>), \<open>Chat_Associations\<close> and \<open>Chat_Retention\<close> (which messages a transcript
    keeps), \<open>Chat_Usage_Properties\<close>, \<open>Chat_Retention_Properties\<close>. Every addition of costs is
    rounded to a double (\<open>dbl\<close>); token counts, integers below $2^{53}$, are added exactly; JSON functions are
    parameters. The entries of a record are summed in the order of insertion, which holds for keys that are not
    array indices.

  \<^item> Local tasks, \<open>D/local-task/state/localTaskStore.ts\<close>: \<open>Local_Task_Store\<close>, \<open>Local_Task_Properties\<close>. The eight kinds of
    loads share the interface \<open>request_family\<close>.

  \<^item> File manager, \<open>D/files/features/file-manager\<close>: \<open>File_Tree\<close> (\<open>file-tree/treeRows.ts\<close>), \<open>File_Refresh\<close>
    (\<open>fileTreePaths.ts\<close>, \<open>fileTreeMerge.ts\<close>, \<open>fileTreeRefreshRules.ts\<close>), \<open>File_Refresh_Runtime\<close>
    (\<open>operations/fileTreeRefreshRuntime.ts\<close>: awaits as program counters, the lease shared by the lifecycles of a
    workspace as a queue); \<open>File_Tree_Properties\<close>, \<open>File_Listing_Properties\<close>, \<open>File_Refresh_Properties\<close>.

  \<^item> Terminal output, \<open>D/terminal/runtime/terminalWriteQueue.ts\<close>: \<open>Terminal_Queue\<close>, \<open>Terminal_Queue_Properties\<close>.

  \<^bold>\<open>How code becomes definitions.\<close> An interface or class is a \<open>record\<close>, a union a \<open>datatype\<close>, a function a function
  with the source's name; an operation of a store or class takes its state and returns it changed, with
  the prefix of its component (\<open>tabStore_\<close>, \<open>paneStore_\<close>, \<open>cmd_\<close>, \<open>cq_\<close>, \<open>owner_\<close>, \<open>am_\<close>, \<open>tw_\<close>). \<open>null\<close> and
  \<open>undefined\<close> are \<open>None\<close>, a thrown error is the left side of a sum, a JavaScript map whose order
  matters is an association list, otherwise a function. Identifiers drawn at random, the clock and the
  time-zone data are arguments. Numbers that the code only compares are \<open>js_number\<close>, with not-a-number
  and the infinities; counters are integers. Code on one thread between two suspensions is one operation;
  what follows an \<open>await\<close>, a timer or a callback is an operation of its own, and an \<open>inductive\<close> step relation
  lets them happen in every order. Calls into code outside the model (the terminal, the host of a
  completion, child sessions, session cleanup) are recorded as histories or are parameters that may
  answer anything.

  \<^bold>\<open>What is shown.\<close> For each component with state, an invariant of every reachable state, through an
  interpretation of \<open>state_machine\<close>; for the operations, when they decline and what they do on every
  branch. Split panes refine operations on lists of panes and never lose a tab. Reopening focuses the
  same tab; closing selects a surviving neighbour, and the two layers agree on it; closing all tabs
  releases exactly what the removed tabs held; dirty flags follow the content. The queue runs readers
  together or one writer, in order of arrival, and settles everything; the manager on top of it sends one
  terminal event per agent, assembles nothing after shutdown and never reports a cancelled run as completed;
  a completion is accepted at most once, and the end of an enrolled agent or a retry timer leads to one attempt
  and a drain that returns; collected results cannot forge a tag. The next cron run is the
  first matching minute, and printed fields parse to their meaning. The hunks of the git gutter are a patch from the
  old to the new text and, up to a million pairs of lines, their common lines a longest common subsequence; edits applied one after the other
  equal all applied at once; terminal output is written in order, within bounds, and never stalls. Framed messages survive any chunking,
  every request of the transport and every wait for diagnostics is pending or settled, never both. The token totals of the
  usage ledger are exact and its cost is the rounded sum of the entries once a snapshot has arrived,
  replayed history bills nothing, a trimmed transcript is the longest suffix within the limits less exactly what is
  connected to its dropped part.
  A superseded load of tasks changes nothing; tag changes reach every cached task. The visible rows of the
  file tree are those of the shown paths, a listing leaves exactly what it lists and what lies outside its directory or
  under a child name it still shows, and a refresh is resolved only by a listing request sent after it that covers it. An occurrence of a schedule is claimed once under every interleaving, terminal
  runs are final, a repeated completion is harmless, and the reconciled schedule lies ahead. Organizations have
  at most one owner and nobody becomes a member but by founding, by a request of an owner or admin or by an open invitation
  to the own address; an account stays with its user; a node is deleted, and its relay tokens are issued, to its owner only; two live workspaces never share a branch and a closed one is final; a task key names one task of an
  organization, lasts as long as the project, and every member gets one. The theorems
  that show a defect of the code carry its behaviour in their statement.

  \<^bold>\<open>Bounds and fuel.\<close> All recursions terminate, by structure or by a measure: \<open>drain\<close> of the queue by the number of
  waiting tasks, the loops over text by the text that is left. A host that calls back for ever can keep the
  drain of the completion owner busy, so that loop has fuel; a host that stops calling back lets it return, by a
  lexicographic measure, and from then on more fuel changes nothing. The search for the next cron run has the bound of the source,
  \<open>MAX_CRON_SCAN_MINUTES\<close>. The two endless searches for a free name have as fuel one more than the number of
  names taken, which is shown to be enough. The counters of task keys are bounded
  by the integers of the database. The limits of the diff and of the terminal queue are those
  of the sources.

  \<^bold>\<open>Not modelled.\<close> Presentation (React components, styling), glue around Electron, Monaco, xterm and
  the agent SDK, HTTP routes and their validation, sessions and tokens, the services for token usage, voice,
  overviews, exports and mail, user preferences, generated icon tables, and the programs in other languages. Deletions
  cascade within the tables of one component; that of an organization to projects, workspaces and jobs, or of a node to
  workspaces and jobs, are not steps of the components they reach. The rows of the panel of running sub-agents use a separator
  outside the modelled characters and are left out. Characters are the code units below 256, so conversions of case and white space are those of
  that range. Snapshot listeners of the agent manager only observe and are left out, as are log lines.
\<close>

end
